(* ===== verification/Rustack_Prelude.thy ===== *)
theory Rustack_Prelude
  imports Main "HOL-Library.List_Lexorder" "HOL-Library.Char_ord" "HOL-Library.Multiset" "HOL-Library.Word"
begin

text \<open>
  The prelude of the development: how Rust values are represented, and the generic lemmas the
  components share.

  \<^item> A Rust \<^verbatim>\<open>String\<close>/\<^verbatim>\<open>&str\<close> is its list of UTF-8 bytes, a HOL \<open>string\<close> (a \<open>char\<close> is a byte).
    \<^verbatim>\<open>len\<close> is the byte length and \<^verbatim>\<open>Ord\<close> is the bytewise lexicographic order, which is the order
    that \<open>HOL-Library.List_Lexorder\<close> puts on byte lists. Slicing at a byte offset panics in Rust
    when the offset is not a character boundary; \<open>str_slice_to\<close> returns \<open>None\<close> there.
  \<^item> A \<^verbatim>\<open>Result<T, E>\<close> is \<open>'e + 'a\<close> with \<open>Inl\<close> for \<^verbatim>\<open>Err\<close>; the \<^verbatim>\<open>?\<close> operator is \<open>res_bind\<close>.
  \<^item> A \<^verbatim>\<open>BTreeMap\<close> is its list of entries in key order. A \<^verbatim>\<open>HashMap\<close> or \<^verbatim>\<open>DashMap\<close> is represented
    by the same canonical list, since a finite map has exactly one; an operation whose outcome
    depends on the unspecified iteration order of a hash map takes that order as an argument.
\<close>

named_theorems rust_simps "unfolding of accessors that carry no behaviour of their own"

section \<open>Results\<close>

definition res_bind :: "'e + 'a \<Rightarrow> ('a \<Rightarrow> 'e + 'b) \<Rightarrow> 'e + 'b" where
  "res_bind r f = (case r of Inl e \<Rightarrow> Inl e | Inr x \<Rightarrow> f x)"

lemma res_bind_simps [simp]:
  "res_bind (Inl e) f = Inl e" "res_bind (Inr x) f = f x"
  by (simp_all add: res_bind_def)

lemma res_bind_Inr_iff: "res_bind r f = Inr y \<longleftrightarrow> (\<exists>x. r = Inr x \<and> f x = Inr y)"
  by (cases r) auto

definition ok_or :: "'e \<Rightarrow> 'a option \<Rightarrow> 'e + 'a" where
  "ok_or e m = (case m of None \<Rightarrow> Inl e | Some x \<Rightarrow> Inr x)"

lemma ok_or_simps [simp]: "ok_or e None = Inl e" "ok_or e (Some x) = Inr x"
  by (simp_all add: ok_or_def)

fun is_ok :: "'e + 'a \<Rightarrow> bool" where
  "is_ok (Inl e) = False"
| "is_ok (Inr x) = True"

fun res_map :: "('a \<Rightarrow> 'b) \<Rightarrow> 'e + 'a \<Rightarrow> 'e + 'b" where
  "res_map f (Inl e) = Inl e"
| "res_map f (Inr x) = Inr (f x)"

lemma res_map_Inr: "res_map f r = Inr y \<longleftrightarrow> (\<exists>x. r = Inr x \<and> y = f x)"
  by (cases r) auto

text \<open>\<^verbatim>\<open>Option::unwrap_or\<close>.\<close>

definition unwrap_or :: "'a \<Rightarrow> 'a option \<Rightarrow> 'a" where
  "unwrap_or d m = (case m of None \<Rightarrow> d | Some x \<Rightarrow> x)"

lemma unwrap_or_simps [simp]: "unwrap_or d None = d" "unwrap_or d (Some x) = x"
  by (simp_all add: unwrap_or_def)

section \<open>Byte strings\<close>

definition starts_with :: "string \<Rightarrow> string \<Rightarrow> bool" where
  "starts_with s p \<longleftrightarrow> take (length p) s = p"

definition ends_with :: "string \<Rightarrow> string \<Rightarrow> bool" where
  "ends_with s p \<longleftrightarrow> length p \<le> length s \<and> drop (length s - length p) s = p"

definition strip_prefix :: "string \<Rightarrow> string \<Rightarrow> string option" where
  "strip_prefix p s = (if starts_with s p then Some (drop (length p) s) else None)"

definition strip_suffix :: "string \<Rightarrow> string \<Rightarrow> string option" where
  "strip_suffix p s = (if ends_with s p then Some (take (length s - length p) s) else None)"

text \<open>\<^verbatim>\<open>str::find\<close> with a string pattern: the byte offset of the first occurrence.\<close>

fun str_find :: "string \<Rightarrow> string \<Rightarrow> nat option" where
  "str_find pat [] = (if pat = [] then Some 0 else None)"
| "str_find pat (c # s) =
     (if starts_with (c # s) pat then Some 0 else map_option Suc (str_find pat s))"

definition str_contains :: "string \<Rightarrow> string \<Rightarrow> bool" where
  "str_contains pat s \<longleftrightarrow> str_find pat s \<noteq> None"

text \<open>\<^verbatim>\<open>str::split_once\<close> and \<^verbatim>\<open>str::split\<close> at an ASCII separator.\<close>

fun split_once :: "char \<Rightarrow> string \<Rightarrow> (string \<times> string) option" where
  "split_once d [] = None"
| "split_once d (c # s) =
     (if c = d then Some ([], s)
      else map_option (\<lambda>(a, b). (c # a, b)) (split_once d s))"

fun split_on :: "char \<Rightarrow> string \<Rightarrow> string list" where
  "split_on d [] = [[]]"
| "split_on d (c # s) =
     (if c = d then [] # split_on d s
      else (case split_on d s of [] \<Rightarrow> [[c]] | w # ws \<Rightarrow> (c # w) # ws))"

definition byte_of :: "char \<Rightarrow> nat" where
  "byte_of c = of_char c"

text \<open>A UTF-8 continuation byte is \<open>0b10xxxxxx\<close>; every other byte starts a character.\<close>

definition is_cont_byte :: "char \<Rightarrow> bool" where
  "is_cont_byte c \<longleftrightarrow> 128 \<le> byte_of c \<and> byte_of c < 192"

definition is_char_boundary :: "string \<Rightarrow> nat \<Rightarrow> bool" where
  "is_char_boundary s n \<longleftrightarrow>
     n = 0 \<or> n = length s \<or> (n < length s \<and> \<not> is_cont_byte (s ! n))"

definition str_slice_to :: "string \<Rightarrow> nat \<Rightarrow> string option" where
  "str_slice_to s n = (if is_char_boundary s n then Some (take n s) else None)"

definition char_count :: "string \<Rightarrow> nat" where
  "char_count s = length (filter (\<lambda>c. \<not> is_cont_byte c) s)"

definition is_ascii_lower :: "char \<Rightarrow> bool" where
  "is_ascii_lower c \<longleftrightarrow> 97 \<le> byte_of c \<and> byte_of c \<le> 122"

definition is_ascii_upper :: "char \<Rightarrow> bool" where
  "is_ascii_upper c \<longleftrightarrow> 65 \<le> byte_of c \<and> byte_of c \<le> 90"

definition is_ascii_digit :: "char \<Rightarrow> bool" where
  "is_ascii_digit c \<longleftrightarrow> 48 \<le> byte_of c \<and> byte_of c \<le> 57"

definition to_ascii_lower :: "char \<Rightarrow> char" where
  "to_ascii_lower c = (if is_ascii_upper c then char_of (byte_of c + 32) else c)"

definition eq_ignore_ascii_case :: "string \<Rightarrow> string \<Rightarrow> bool" where
  "eq_ignore_ascii_case a b \<longleftrightarrow> map to_ascii_lower a = map to_ascii_lower b"

text \<open>
  \<^verbatim>\<open>str::parse::<uN>\<close>: an optional \<open>+\<close>, then at least one digit, the value below \<open>2 ^ w\<close>.
\<close>

fun digits_val :: "nat \<Rightarrow> string \<Rightarrow> nat option" where
  "digits_val acc [] = Some acc"
| "digits_val acc (c # s) =
     (if is_ascii_digit c then digits_val (10 * acc + (byte_of c - 48)) s else None)"

definition parse_uint :: "nat \<Rightarrow> string \<Rightarrow> nat option" where
  "parse_uint w s =
     (let t = (case s of c # r \<Rightarrow> if c = CHR ''+'' then r else s | [] \<Rightarrow> s)
      in if t = [] then None
         else (case digits_val 0 t of
                 None \<Rightarrow> None
               | Some n \<Rightarrow> if n < 2 ^ w then Some n else None))"

text \<open>
  \<^verbatim>\<open>String::from_utf8\<close> accepts exactly the well-formed UTF-8 byte sequences: no overlong form, no
  surrogate, nothing above U+10FFFF.
\<close>

definition utf8_cont :: "nat \<Rightarrow> bool" where
  "utf8_cont b \<longleftrightarrow> 128 \<le> b \<and> b < 192"

fun utf8_valid :: "nat list \<Rightarrow> bool" where
  "utf8_valid [] = True"
| "utf8_valid (a # bs) =
     (if a < 128 then utf8_valid bs
      else case bs of
        [] \<Rightarrow> False
      | b # cs \<Rightarrow>
          if 194 \<le> a \<and> a < 224 then utf8_cont b \<and> utf8_valid cs
          else (case cs of
            [] \<Rightarrow> False
          | c # ds \<Rightarrow>
              if 224 \<le> a \<and> a < 240
              then utf8_cont b \<and> (a = 224 \<longrightarrow> 160 \<le> b) \<and> (a = 237 \<longrightarrow> b < 160)
                   \<and> utf8_cont c \<and> utf8_valid ds
              else (case ds of
                [] \<Rightarrow> False
              | d # es \<Rightarrow>
                  240 \<le> a \<and> a < 245 \<and> utf8_cont b \<and> (a = 240 \<longrightarrow> 144 \<le> b)
                  \<and> (a = 244 \<longrightarrow> b < 144) \<and> utf8_cont c \<and> utf8_cont d \<and> utf8_valid es)))"

definition from_utf8 :: "string \<Rightarrow> string option" where
  "from_utf8 s = (if utf8_valid (map byte_of s) then Some s else None)"

text \<open>Decimal formatting (\<^verbatim>\<open>{}\<close> on an unsigned integer, and zero-padded \<^verbatim>\<open>{:0w}\<close>).\<close>

definition digit_char :: "nat \<Rightarrow> char" where
  "digit_char d = char_of (48 + d mod 10)"

fun show_nat :: "nat \<Rightarrow> string" where
  "show_nat n = (if n < 10 then [digit_char n] else show_nat (n div 10) @ [digit_char n])"

declare show_nat.simps [simp del]

definition show_padded :: "nat \<Rightarrow> nat \<Rightarrow> string" where
  "show_padded w n = replicate (w - length (show_nat n)) (CHR ''0'') @ show_nat n"

text \<open>\<^verbatim>\<open>str::parse::<iN>\<close>: an optional sign, then at least one digit, the value in range; and \<^verbatim>\<open>{}\<close> on
  a signed integer.\<close>

definition parse_int :: "nat \<Rightarrow> string \<Rightarrow> int option" where
  "parse_int w s =
     (case s of
        [] \<Rightarrow> None
      | c # r \<Rightarrow>
          (let neg = (c = CHR ''-''); t = (if c = CHR ''+'' \<or> neg then r else s)
           in if t = [] then None
              else (case digits_val 0 t of
                      None \<Rightarrow> None
                    | Some n \<Rightarrow>
                        let v = (if neg then - int n else int n)
                        in if - (2 ^ (w - 1)) \<le> v \<and> v < 2 ^ (w - 1) then Some v else None)))"

definition show_int :: "int \<Rightarrow> string" where
  "show_int v = (if v < 0 then CHR ''-'' # show_nat (nat (- v)) else show_nat (nat v))"

subsection \<open>Lemmas on prefixes\<close>

lemma starts_with_Nil [simp]: "starts_with s []"
  by (simp add: starts_with_def)

lemma starts_with_iff: "starts_with s p \<longleftrightarrow> (\<exists>r. s = p @ r)"
  unfolding starts_with_def by (metis append_eq_conv_conj)

lemma starts_with_append [simp]: "starts_with (p @ r) p"
  by (auto simp: starts_with_iff)

lemma starts_with_take: "starts_with s p \<Longrightarrow> starts_with s (take n p)"
  by (metis append.assoc append_take_drop_id starts_with_iff)

lemma strip_prefix_Some: "strip_prefix p s = Some r \<longleftrightarrow> s = p @ r"
  by (auto simp: strip_prefix_def starts_with_iff)

lemma strip_suffix_Some: "strip_suffix p s = Some r \<longleftrightarrow> s = r @ p"
proof
  assume "strip_suffix p s = Some r"
  then have "length p \<le> length s" "drop (length s - length p) s = p" "r = take (length s - length p) s"
    by (auto simp: strip_suffix_def ends_with_def split: if_splits)
  then show "s = r @ p" by (metis append_take_drop_id)
qed (simp add: strip_suffix_def ends_with_def)

text \<open>
  The keys that start with a given prefix form an interval of the bytewise order: a key above the
  prefix that does not start with it is above every key that does.
\<close>

lemma less_append_left: "(xs :: 'a::linorder list) < xs @ y # ys"
  by (induction xs) auto

lemma le_append_left: "(xs :: 'a::linorder list) \<le> xs @ ys"
proof (cases ys)
  case (Cons y ys')
  then show ?thesis using less_append_left [of xs y ys'] by simp
qed simp

lemma starts_with_le: "starts_with s p \<Longrightarrow> p \<le> s"
  by (auto simp: starts_with_iff intro: le_append_left)

lemma above_prefix_not_starting:
  "p < k \<Longrightarrow> \<not> starts_with k p \<Longrightarrow> starts_with s p \<Longrightarrow> s < k"
proof (induction p arbitrary: k s)
  case (Cons c p)
  from Cons.prems(3) obtain s' where s: "s = c # s'" "starts_with s' p"
    by (auto simp: starts_with_iff)
  from Cons.prems(1) obtain d k' where k: "k = d # k'"
    by (cases k) auto
  show ?case
  proof (cases "d = c")
    case True
    with Cons.prems k s show ?thesis
      by (auto simp: starts_with_def intro: Cons.IH)
  next
    case False
    with Cons.prems(1) k s show ?thesis by auto
  qed
qed simp

subsection \<open>Decimal numbers\<close>

lemma byte_of_digit_char [simp]: "byte_of (digit_char d) = 48 + d mod 10"
proof -
  have "48 + d mod 10 < 256" using mod_less_divisor [of 10 d] by linarith
  then show ?thesis by (simp add: byte_of_def digit_char_def)
qed

lemma is_digit_digit_char [simp]: "is_ascii_digit (digit_char d)"
proof -
  have "d mod 10 < 10" by simp
  then show ?thesis unfolding is_ascii_digit_def byte_of_digit_char by linarith
qed

lemma digits_val_append:
  "digits_val acc (s @ t) = Option.bind (digits_val acc s) (\<lambda>a. digits_val a t)"
  by (induction s arbitrary: acc) auto

lemma digits_val_show: "digits_val 0 (show_nat n) = Some n"
proof (induction n rule: show_nat.induct)
  case (1 n)
  show ?case
  proof (cases "n < 10")
    case True
    then show ?thesis by (simp add: show_nat.simps [of n])
  next
    case False
    with 1 have "digits_val 0 (show_nat (n div 10)) = Some (n div 10)" by simp
    with False show ?thesis by (simp add: show_nat.simps [of n] digits_val_append)
  qed
qed

lemma show_nat_nonempty [simp]: "show_nat n \<noteq> []"
  by (simp add: show_nat.simps [of n])

lemma set_show_nat: "c \<in> set (show_nat n) \<Longrightarrow> is_ascii_digit c"
proof (induction n rule: show_nat.induct)
  case (1 n)
  then show ?case by (auto simp: show_nat.simps [of n] split: if_splits)
qed

lemma parse_uint_show: "n < 2 ^ w \<Longrightarrow> parse_uint w (show_nat n) = Some n"
proof -
  assume n: "n < 2 ^ w"
  obtain c r where s: "show_nat n = c # r" by (cases "show_nat n") auto
  then have "is_ascii_digit c" using set_show_nat [of c n] by simp
  then have "c \<noteq> CHR ''+''" by (auto simp: is_ascii_digit_def byte_of_def)
  with s n digits_val_show [of n] show ?thesis by (simp add: parse_uint_def)
qed

lemma show_nat_head: "\<exists>c s. show_nat n = c # s \<and> is_ascii_digit c"
  using show_nat_nonempty [of n] set_show_nat [of _ n] by (cases "show_nat n") auto

lemma parse_int_show:
  assumes "- (2 ^ (w - 1)) \<le> v" and "v < 2 ^ (w - 1)"
  shows "parse_int w (show_int v) = Some v"
proof (cases "v < 0")
  case True
  then show ?thesis
    using assms by (simp add: parse_int_def show_int_def digits_val_show Let_def)
next
  case False
  obtain c s where "show_nat (nat v) = c # s" and c: "is_ascii_digit c"
    using show_nat_head by blast
  moreover from c have "c \<noteq> CHR ''+''" "c \<noteq> CHR ''-''"
    by (auto simp: is_ascii_digit_def byte_of_def)
  ultimately show ?thesis
    using False assms digits_val_show [of "nat v"]
    by (simp add: parse_int_def show_int_def Let_def)
qed

lemma digits_val_zeros: "digits_val 0 (replicate k (CHR ''0'') @ s) = digits_val 0 s"
  by (induction k) (simp_all add: is_ascii_digit_def byte_of_def)

lemma digits_val_padded: "digits_val 0 (show_padded w n) = Some n"
  by (simp add: show_padded_def digits_val_zeros digits_val_show)

lemma show_nat_inject: "show_nat a = show_nat b \<longleftrightarrow> a = b"
  by (metis digits_val_show option.inject)

subsection \<open>Splitting\<close>

lemma split_once_append: "d \<notin> set a \<Longrightarrow> split_once d (a @ d # b) = Some (a, b)"
  by (induction a) auto

lemma split_once_None_iff: "split_once d s = None \<longleftrightarrow> d \<notin> set s"
  by (induction s) (auto simp: split_paired_all)

lemma split_once_Some: "split_once d s = Some (a, b) \<Longrightarrow> s = a @ d # b \<and> d \<notin> set a"
  by (induction s arbitrary: a) (auto split: if_splits)

lemma split_on_single: "d \<notin> set s \<Longrightarrow> split_on d s = [s]"
  by (induction s) auto

section \<open>Ordered maps as key-sorted association lists\<close>

type_synonym ('k, 'v) btree = "('k \<times> 'v) list"

definition bt_wf :: "('k::linorder, 'v) btree \<Rightarrow> bool" where
  "bt_wf m \<longleftrightarrow> sorted_wrt (<) (map fst m)"

definition bt_get :: "('k, 'v) btree \<Rightarrow> 'k \<Rightarrow> 'v option" where
  "bt_get m k = map_of m k"

fun bt_insert :: "'k::linorder \<Rightarrow> 'v \<Rightarrow> ('k, 'v) btree \<Rightarrow> ('k, 'v) btree" where
  "bt_insert k v [] = [(k, v)]"
| "bt_insert k v (e # m) =
     (if fst e < k then e # bt_insert k v m
      else if fst e = k then (k, v) # m
      else (k, v) # e # m)"

definition bt_remove :: "'k \<Rightarrow> ('k, 'v) btree \<Rightarrow> ('k, 'v) btree" where
  "bt_remove k m = filter (\<lambda>e. fst e \<noteq> k) m"

definition bt_keys :: "('k, 'v) btree \<Rightarrow> 'k list" where
  "bt_keys m = map fst m"

definition bt_values :: "('k, 'v) btree \<Rightarrow> 'v list" where
  "bt_values m = map snd m"

text \<open>The entries with a key at or above a bound (\<^verbatim>\<open>range(lo..)\<close>), and \<^verbatim>\<open>retain\<close>.\<close>

definition bt_range_from :: "'k::linorder \<Rightarrow> ('k, 'v) btree \<Rightarrow> ('k, 'v) btree" where
  "bt_range_from lo m = dropWhile (\<lambda>e. fst e < lo) m"

definition bt_retain :: "('k \<Rightarrow> 'v \<Rightarrow> bool) \<Rightarrow> ('k, 'v) btree \<Rightarrow> ('k, 'v) btree" where
  "bt_retain P m = filter (\<lambda>e. P (fst e) (snd e)) m"

text \<open>The interface of an ordered map, and what follows for any client of it.\<close>

locale finite_map =
  fixes get :: "'m \<Rightarrow> 'k \<Rightarrow> 'v option"
    and ins :: "'k \<Rightarrow> 'v \<Rightarrow> 'm \<Rightarrow> 'm"
    and rem :: "'k \<Rightarrow> 'm \<Rightarrow> 'm"
    and wf :: "'m \<Rightarrow> bool"
    and emp :: "'m"
  assumes get_emp: "get emp k = None"
    and get_ins: "get (ins k v m) k' = (if k' = k then Some v else get m k')"
    and get_rem: "get (rem k m) k' = (if k' = k then None else get m k')"
    and wf_emp: "wf emp"
    and wf_ins: "wf m \<Longrightarrow> wf (ins k v m)"
    and wf_rem: "wf m \<Longrightarrow> wf (rem k m)"
    and ext: "wf m \<Longrightarrow> wf n \<Longrightarrow> (\<And>k. get m k = get n k) \<Longrightarrow> m = n"
begin

lemma ins_overwrite: "wf m \<Longrightarrow> ins k v (ins k w m) = ins k v m"
  by (rule ext) (auto simp: get_ins intro: wf_ins)

lemma rem_ins: "wf m \<Longrightarrow> rem k (ins k v m) = rem k m"
  by (rule ext) (auto simp: get_ins get_rem intro: wf_ins wf_rem)

lemma rem_absent: "wf m \<Longrightarrow> get m k = None \<Longrightarrow> rem k m = m"
  by (rule ext) (auto simp: get_rem intro: wf_rem)

lemma ins_same: "wf m \<Longrightarrow> get m k = Some v \<Longrightarrow> ins k v m = m"
  by (rule ext) (auto simp: get_ins intro: wf_ins)

lemma ins_commute: "wf m \<Longrightarrow> k \<noteq> k' \<Longrightarrow> ins k v (ins k' w m) = ins k' w (ins k v m)"
  by (rule ext) (auto simp: get_ins intro: wf_ins)

end

lemma bt_wf_simps [simp]:
  "bt_wf []"
  "bt_wf (e # m) \<longleftrightarrow> (\<forall>x\<in>set m. fst e < fst x) \<and> bt_wf m"
  by (auto simp: bt_wf_def)

lemma bt_get_Nil [simp]: "bt_get [] k = None"
  by (simp add: bt_get_def)

lemma bt_get_Cons [simp]: "bt_get (e # m) k = (if fst e = k then Some (snd e) else bt_get m k)"
  by (cases e) (simp add: bt_get_def)

lemma set_bt_insert: "x \<in> set (bt_insert k v m) \<Longrightarrow> x = (k, v) \<or> x \<in> set m"
  by (induction m) (auto split: if_splits)

lemma bt_wf_insert: "bt_wf m \<Longrightarrow> bt_wf (bt_insert k v m)"
  by (induction m) (auto dest!: set_bt_insert)

lemma bt_get_insert: "bt_get (bt_insert k v m) k' = (if k' = k then Some v else bt_get m k')"
  by (induction m) auto

lemma bt_get_filter_out: "bt_get (bt_remove k m) k' = (if k' = k then None else bt_get m k')"
  by (induction m) (auto simp: bt_remove_def)

lemma bt_wf_filter: "bt_wf m \<Longrightarrow> bt_wf (filter P m)"
  by (induction m) auto

lemma bt_wf_remove: "bt_wf m \<Longrightarrow> bt_wf (bt_remove k m)"
  by (simp add: bt_remove_def bt_wf_filter)

lemma bt_get_mem: "bt_get m k = Some v \<Longrightarrow> (k, v) \<in> set m"
  by (simp add: bt_get_def map_of_SomeD)

lemma bt_get_None_iff: "bt_get m k = None \<longleftrightarrow> k \<notin> set (bt_keys m)"
  by (simp add: bt_get_def bt_keys_def map_of_eq_None_iff)

lemma bt_mem_get: "bt_wf m \<Longrightarrow> (k, v) \<in> set m \<Longrightarrow> bt_get m k = Some v"
  by (induction m) force+

lemma bt_ext:
  "bt_wf m \<Longrightarrow> bt_wf n \<Longrightarrow> (\<And>k. bt_get m k = bt_get n k) \<Longrightarrow> m = n"
proof (induction m arbitrary: n)
  case Nil
  show ?case
  proof (cases n)
    case (Cons e n')
    with Nil.prems(3) [of "fst e"] show ?thesis by simp
  qed simp
next
  case (Cons e m)
  from Cons.prems(3) [of "fst e"] obtain f n' where n: "n = f # n'"
    by (cases n) auto
  have "\<not> fst f < fst e"
  proof
    assume less: "fst f < fst e"
    from Cons.prems(3) [of "fst f"] n less have "bt_get m (fst f) = Some (snd f)"
      by (auto split: if_splits)
    then have "(fst f, snd f) \<in> set m" by (rule bt_get_mem)
    with Cons.prems(1) less show False by fastforce
  qed
  moreover have "\<not> fst e < fst f"
  proof
    assume less: "fst e < fst f"
    from Cons.prems(3) [of "fst e"] n less have "bt_get n' (fst e) = Some (snd e)"
      by (auto split: if_splits)
    then have "(fst e, snd e) \<in> set n'" by (rule bt_get_mem)
    with Cons.prems(2) n less show False by fastforce
  qed
  ultimately have fst_eq: "fst f = fst e" by simp
  with Cons.prems(3) [of "fst e"] n have ef: "f = e" by (simp add: prod_eq_iff)
  have "m = n'"
  proof (rule Cons.IH)
    show "bt_wf m" "bt_wf n'" using Cons.prems n by auto
    fix k
    show "bt_get m k = bt_get n' k"
    proof (cases "k = fst e")
      case True
      have "bt_get m k = None" "bt_get n' k = None"
        using Cons.prems(1,2) n ef True by (auto simp: bt_get_None_iff bt_keys_def)
      then show ?thesis by simp
    next
      case False
      with Cons.prems(3) [of k] n ef show ?thesis by simp
    qed
  qed
  with n ef show ?case by simp
qed

interpretation bt: finite_map bt_get bt_insert bt_remove bt_wf "[]"
  by unfold_locales
    (auto simp: bt_get_insert bt_get_filter_out bt_wf_insert bt_wf_remove intro: bt_ext)

lemma bt_wf_distinct: "bt_wf m \<Longrightarrow> distinct (map fst m)"
  by (induction m) auto

lemma bt_get_above: "\<forall>x\<in>set m. k < fst x \<Longrightarrow> bt_get m k = None"
  for k :: "'k::linorder"
  by (fastforce simp: bt_get_None_iff bt_keys_def)

lemma bt_get_retain:
  "bt_wf m \<Longrightarrow> bt_get (bt_retain P m) k =
     (case bt_get m k of None \<Rightarrow> None | Some v \<Rightarrow> if P k v then Some v else None)"
  by (induction m)
    (auto simp: bt_retain_def bt_get_None_iff bt_keys_def dest: bt_get_above split: option.splits)

lemma bt_wf_retain: "bt_wf m \<Longrightarrow> bt_wf (bt_retain P m)"
  by (simp add: bt_retain_def bt_wf_filter)

text \<open>Multisets of values under insertion and removal, for conservation arguments.\<close>

lemma mset_bt_insert_new:
  "bt_wf m \<Longrightarrow> bt_get m k = None \<Longrightarrow> mset (bt_insert k v m) = add_mset (k, v) (mset m)"
  by (induction m) (auto split: if_splits)

lemma mset_bt_remove:
  "bt_wf m \<Longrightarrow> bt_get m k = Some v \<Longrightarrow> mset m = add_mset (k, v) (mset (bt_remove k m))"
proof (induction m)
  case (Cons e m)
  show ?case
  proof (cases "fst e = k")
    case True
    with Cons.prems have "bt_get m k = None"
      by (auto simp: bt_get_None_iff bt_keys_def)
    then have "bt_remove k m = m"
      using Cons.prems(1) by (intro bt.rem_absent) auto
    with Cons.prems True show ?thesis by (cases e) (auto simp: bt_remove_def)
  next
    case False
    with Cons show ?thesis by (auto simp: bt_remove_def)
  qed
qed simp

section \<open>Runs of a state machine\<close>

text \<open>
  A component whose operations are a step function: an invariant that every step keeps holds after
  every sequence of operations.
\<close>

fun run_ops :: "('s \<Rightarrow> 'o \<Rightarrow> 's) \<Rightarrow> 's \<Rightarrow> 'o list \<Rightarrow> 's" where
  "run_ops step s [] = s"
| "run_ops step s (x # xs) = run_ops step (step s x) xs"

text \<open>The operations of a run are admissible in the states they meet.\<close>

fun ok_run :: "('s \<Rightarrow> 'o \<Rightarrow> 's) \<Rightarrow> ('s \<Rightarrow> 'o \<Rightarrow> bool) \<Rightarrow> 's \<Rightarrow> 'o list \<Rightarrow> bool" where
  "ok_run step ok s [] = True"
| "ok_run step ok s (x # xs) = (ok s x \<and> ok_run step ok (step s x) xs)"

locale invariant_machine =
  fixes step :: "'s \<Rightarrow> 'o \<Rightarrow> 's"
    and ok :: "'s \<Rightarrow> 'o \<Rightarrow> bool"
    and inv :: "'s \<Rightarrow> bool"
  assumes inv_step: "inv s \<Longrightarrow> ok s x \<Longrightarrow> inv (step s x)"
begin

lemma inv_run: "inv s \<Longrightarrow> ok_run step ok s xs \<Longrightarrow> inv (run_ops step s xs)"
  by (induction xs arbitrary: s) (auto intro: inv_step)

end

text \<open>A machine with a start state: every reachable state satisfies the invariant.\<close>

locale rooted_machine = invariant_machine step ok inv
  for step :: "'s \<Rightarrow> 'o \<Rightarrow> 's" and ok :: "'s \<Rightarrow> 'o \<Rightarrow> bool" and inv :: "'s \<Rightarrow> bool" +
  fixes start :: 's
  assumes inv_start: "inv start"
begin

lemma inv_reachable: "ok_run step ok start xs \<Longrightarrow> inv (run_ops step start xs)"
  by (rule inv_run) (rule inv_start)

end

lemma ok_run_mono:
  "(\<And>s x. x \<in> set xs \<Longrightarrow> ok s x) \<Longrightarrow> ok_run step ok s xs"
  by (induction xs arbitrary: s) auto

lemma run_ops_append: "run_ops step s (xs @ ys) = run_ops step (run_ops step s xs) ys"
  by (induction xs arbitrary: s) auto

section \<open>Lists\<close>

lemma take_Suc_snoc_nth: "n < length xs \<Longrightarrow> take (Suc n) xs = take n xs @ [xs ! n]"
  by (rule take_Suc_conv_app_nth)

lemma sorted_wrt_filter_above:
  "sorted_wrt (<) (map f xs) \<Longrightarrow> i < length xs \<Longrightarrow>
     filter (\<lambda>x. f (xs ! i) < f x) xs = drop (Suc i) (xs :: 'a list)"
  for f :: "'a \<Rightarrow> 'b::linorder"
proof (induction xs arbitrary: i)
  case (Cons x xs)
  show ?case
  proof (cases i)
    case 0
    with Cons.prems(1) show ?thesis by (auto simp: filter_id_conv)
  next
    case (Suc j)
    with Cons.prems have "f x < f (xs ! j)" by auto
    with Cons Suc show ?thesis by (simp add: less_le_not_le)
  qed
qed simp

lemma filter_dropWhile_sorted:
  "sorted_wrt (<) (map f xs) \<Longrightarrow> filter (\<lambda>x. \<not> f x < b) xs = dropWhile (\<lambda>x. f x < b) xs"
  for f :: "'a \<Rightarrow> 'b::linorder"
proof (induction xs)
  case (Cons x xs)
  show ?case
  proof (cases "f x < b")
    case False
    with Cons.prems have "\<forall>y\<in>set xs. \<not> f y < b" by auto
    then have "filter (\<lambda>y. \<not> f y < b) xs = xs" by (simp add: filter_id_conv)
    with False show ?thesis by simp
  qed (use Cons in simp)
qed simp

chapter \<open>Ordered maps\<close>

text \<open>
  More facts on the ordered maps of the prelude: their size, a function mapped over the values, and
  runs of insertions and removals.
\<close>

lemma length_bt_insert:
  "length (bt_insert k v m) = (if bt_get m k = None then Suc (length m) else length m)" if "bt_wf m"
  using that
proof (induction m)
  case (Cons e m)
  have "bt_get m k = None" if "\<not> fst e < k" "fst e \<noteq> k"
    using that Cons.prems by (intro bt_get_above) (auto simp: not_less)
  then show ?case using Cons by auto
qed simp

lemma length_bt_remove_le: "length (bt_remove k m) \<le> length m"
  by (simp add: bt_remove_def)

lemma length_bt_remove: "bt_get m k = Some v \<Longrightarrow> length (bt_remove k m) < length m"
  unfolding bt_remove_def by (rule length_filter_less [of "(k, v)"]) (auto dest: bt_get_mem)

lemma bt_keys_sorted: "bt_wf m \<Longrightarrow> sort (map fst (filter P m)) = map fst (filter P m)"
proof (rule sorted_sort_id)
  assume "bt_wf m"
  then have "bt_wf (filter P m)" by (rule bt_wf_filter)
  then show "sorted (map fst (filter P m))" by (simp add: bt_wf_def strict_sorted_iff)
qed

section \<open>Mapping values\<close>

lemma bt_get_map_values: "bt_get (map (\<lambda>(k, v). (k, f k v)) m) k = map_option (f k) (bt_get m k)"
  by (induction m) auto

lemma bt_wf_map_values: "bt_wf m \<Longrightarrow> bt_wf (map (\<lambda>(k, v). (k, f k v)) m)"
  by (simp add: bt_wf_def split_beta comp_def)

section \<open>Runs of insertions and removals\<close>

lemma bt_wf_fold_insert: "bt_wf m \<Longrightarrow> bt_wf (fold (\<lambda>x. bt_insert (f x) (g x)) xs m)"
  by (induction xs arbitrary: m) (simp_all add: bt_wf_insert)

lemma length_fold_insert:
  "bt_wf m \<Longrightarrow> length (fold (\<lambda>x. bt_insert (f x) (g x)) xs m) \<le> length m + length (filter (\<lambda>x. bt_get m (f x) = None) xs)"
proof (induction xs arbitrary: m)
  case (Cons x xs)
  let ?m = "bt_insert (f x) (g x) m"
  have "length (fold (\<lambda>x. bt_insert (f x) (g x)) xs ?m) \<le> length ?m + length (filter (\<lambda>y. bt_get ?m (f y) = None) xs)"
    using Cons.prems by (intro Cons.IH bt_wf_insert)
  moreover have "length (filter (\<lambda>y. bt_get ?m (f y) = None) xs) \<le> length (filter (\<lambda>y. bt_get m (f y) = None) xs)"
    by (induction xs) (auto simp: bt_get_insert)
  ultimately show ?case using length_bt_insert [OF Cons.prems, of "f x" "g x"] by (simp split: if_splits)
qed simp

lemma bt_get_fold_insert_unit:
  "bt_get (fold (\<lambda>l. bt_insert l ()) ls m) l = (if l \<in> set ls then Some () else bt_get m l)"
  by (induction ls arbitrary: m) (simp_all add: bt_get_insert)

lemma bt_wf_fold_remove_keys: "bt_wf m \<Longrightarrow> bt_wf (fold bt_remove ks m)"
  by (induction ks arbitrary: m) (simp_all add: bt_wf_remove)

lemma bt_get_fold_remove_keys: "bt_get (fold bt_remove ks m) k = (if k \<in> set ks then None else bt_get m k)"
  by (induction ks arbitrary: m) (simp_all add: bt_get_filter_out)

lemma length_fold_remove_keys: "length (fold bt_remove ks m) \<le> length m"
proof (induction ks arbitrary: m)
  case (Cons k ks)
  then show ?case using length_bt_remove_le [of k m] order_trans by (simp, blast)
qed simp

end
