(* ===== verification/S3_Types.thy ===== *)
theory S3_Types
  imports Rustack_Prelude
begin

text \<open>
  The S3 data model of \<^verbatim>\<open>rustack-s3-core/src/state/object.rs\<close>, \<^verbatim>\<open>state/multipart.rs\<close> and the
  error values of \<^verbatim>\<open>error.rs\<close> that the modelled operations return. Timestamps are
  \<open>nat\<close> (a point of the clock that the handlers read), sizes are \<open>nat\<close> byte counts.
\<close>

section \<open>Owners, ACLs and checksums\<close>

record s3_owner =
  owner_id :: string
  owner_display_name :: string

definition default_owner :: s3_owner where
  "default_owner = \<lparr>
     owner_id = ''75aa57f09aa0c8caeab4f8c24e99d10f8e7faeebf76c078efc7c6caea54ba06a'',
     owner_display_name = ''webfile''\<rparr>"

datatype canned_acl =
    AclPrivate | AclPublicRead | AclPublicReadWrite | AclAuthenticatedRead
  | AclAwsExecRead | AclBucketOwnerRead | AclBucketOwnerFullControl | AclLogDeliveryWrite

fun canned_acl_as_str :: "canned_acl \<Rightarrow> string" where
  "canned_acl_as_str AclPrivate = ''private''"
| "canned_acl_as_str AclPublicRead = ''public-read''"
| "canned_acl_as_str AclPublicReadWrite = ''public-read-write''"
| "canned_acl_as_str AclAuthenticatedRead = ''authenticated-read''"
| "canned_acl_as_str AclAwsExecRead = ''aws-exec-read''"
| "canned_acl_as_str AclBucketOwnerRead = ''bucket-owner-read''"
| "canned_acl_as_str AclBucketOwnerFullControl = ''bucket-owner-full-control''"
| "canned_acl_as_str AclLogDeliveryWrite = ''log-delivery-write''"

definition canned_acl_from_str :: "string \<Rightarrow> string + canned_acl" where
  "canned_acl_from_str s =
     (if s = ''private'' then Inr AclPrivate
      else if s = ''public-read'' then Inr AclPublicRead
      else if s = ''public-read-write'' then Inr AclPublicReadWrite
      else if s = ''authenticated-read'' then Inr AclAuthenticatedRead
      else if s = ''aws-exec-read'' then Inr AclAwsExecRead
      else if s = ''bucket-owner-read'' then Inr AclBucketOwnerRead
      else if s = ''bucket-owner-full-control'' then Inr AclBucketOwnerFullControl
      else if s = ''log-delivery-write'' then Inr AclLogDeliveryWrite
      else Inl s)"

lemma canned_acl_roundtrip: "canned_acl_from_str (canned_acl_as_str a) = Inr a"
  by (cases a) (simp_all add: canned_acl_from_str_def)

lemma canned_acl_parse_exact: "canned_acl_from_str s = Inr a \<Longrightarrow> s = canned_acl_as_str a"
  by (simp add: canned_acl_from_str_def split: if_splits; auto)

record checksum_data =
  ck_algorithm :: string
  ck_value :: string
  ck_type :: string

section \<open>Objects and delete markers\<close>

record object_metadata =
  md_content_type :: "string option"
  md_content_encoding :: "string option"
  md_content_disposition :: "string option"
  md_content_language :: "string option"
  md_cache_control :: "string option"
  md_expires :: "string option"
  md_user_metadata :: "(string, string) btree"
  md_sse_algorithm :: "string option"
  md_sse_kms_key_id :: "string option"
  md_sse_bucket_key_enabled :: "bool option"
  md_sse_customer_algorithm :: "string option"
  md_sse_customer_key_md5 :: "string option"
  md_tagging :: "(string \<times> string) list"
  md_acl :: canned_acl
  md_lock_mode :: "string option"
  md_lock_retain_until :: "nat option"
  md_lock_legal_hold :: "bool option"

definition default_metadata :: object_metadata where
  "default_metadata = \<lparr>
     md_content_type = None, md_content_encoding = None, md_content_disposition = None,
     md_content_language = None, md_cache_control = None, md_expires = None,
     md_user_metadata = [], md_sse_algorithm = None, md_sse_kms_key_id = None,
     md_sse_bucket_key_enabled = None, md_sse_customer_algorithm = None,
     md_sse_customer_key_md5 = None, md_tagging = [], md_acl = AclPrivate,
     md_lock_mode = None, md_lock_retain_until = None, md_lock_legal_hold = None\<rparr>"

record s3_object =
  o_key :: string
  o_version_id :: string
  o_etag :: string
  o_size :: nat
  o_last_modified :: nat
  o_storage_class :: string
  o_metadata :: object_metadata
  o_owner :: s3_owner
  o_checksum :: "checksum_data option"
  o_parts_count :: "nat option"
  o_part_etags :: "string list"

record delete_marker =
  dm_key :: string
  dm_version_id :: string
  dm_last_modified :: nat
  dm_owner :: s3_owner

datatype object_version = VObject s3_object | VMarker delete_marker

fun ov_key :: "object_version \<Rightarrow> string" where
  "ov_key (VObject ob) = o_key ob"
| "ov_key (VMarker dm) = dm_key dm"

fun ov_version_id :: "object_version \<Rightarrow> string" where
  "ov_version_id (VObject ob) = o_version_id ob"
| "ov_version_id (VMarker dm) = dm_version_id dm"

fun ov_last_modified :: "object_version \<Rightarrow> nat" where
  "ov_last_modified (VObject ob) = o_last_modified ob"
| "ov_last_modified (VMarker dm) = dm_last_modified dm"

fun ov_is_delete_marker :: "object_version \<Rightarrow> bool" where
  "ov_is_delete_marker (VObject ob) = False"
| "ov_is_delete_marker (VMarker dm) = True"

fun ov_owner :: "object_version \<Rightarrow> s3_owner" where
  "ov_owner (VObject ob) = o_owner ob"
| "ov_owner (VMarker dm) = dm_owner dm"

fun as_object :: "object_version \<Rightarrow> s3_object option" where
  "as_object (VObject ob) = Some ob"
| "as_object (VMarker dm) = None"

fun as_delete_marker :: "object_version \<Rightarrow> delete_marker option" where
  "as_delete_marker (VObject ob) = None"
| "as_delete_marker (VMarker dm) = Some dm"

lemma as_object_Some_iff: "as_object v = Some ob \<longleftrightarrow> v = VObject ob"
  by (cases v) auto

lemma as_object_None_iff: "as_object v = None \<longleftrightarrow> ov_is_delete_marker v"
  by (cases v) auto

section \<open>Multipart uploads\<close>

record upload_part =
  up_part_number :: nat
  up_etag :: string
  up_size :: nat
  up_last_modified :: nat
  up_checksum :: "checksum_data option"

record multipart_upload =
  mu_upload_id :: string
  mu_key :: string
  mu_initiated :: nat
  mu_owner :: s3_owner
  mu_metadata :: object_metadata
  mu_checksum_algorithm :: "string option"
  mu_checksum_type :: "string option"
  mu_parts :: "(nat, upload_part) btree"
  mu_sse_algorithm :: "string option"
  mu_sse_kms_key_id :: "string option"
  mu_storage_class :: string

definition mu_new :: "string \<Rightarrow> string \<Rightarrow> nat \<Rightarrow> s3_owner \<Rightarrow> object_metadata \<Rightarrow> multipart_upload" where
  "mu_new upload_id k now own meta = \<lparr>
     mu_upload_id = upload_id, mu_key = k, mu_initiated = now, mu_owner = own,
     mu_metadata = meta, mu_checksum_algorithm = None, mu_checksum_type = None,
     mu_parts = [], mu_sse_algorithm = None, mu_sse_kms_key_id = None,
     mu_storage_class = ''STANDARD''\<rparr>"

definition mu_put_part :: "upload_part \<Rightarrow> multipart_upload \<Rightarrow> multipart_upload" where
  "mu_put_part p u = u\<lparr>mu_parts := bt_insert (up_part_number p) p (mu_parts u)\<rparr>"

definition mu_get_part :: "multipart_upload \<Rightarrow> nat \<Rightarrow> upload_part option" where
  "mu_get_part u n = bt_get (mu_parts u) n"

definition mu_parts_count :: "multipart_upload \<Rightarrow> nat" where
  "mu_parts_count u = length (mu_parts u)"

definition mu_total_size :: "multipart_upload \<Rightarrow> nat" where
  "mu_total_size u = sum_list (map up_size (bt_values (mu_parts u)))"

lemma mu_get_put_part:
  "mu_get_part (mu_put_part p u) n = (if n = up_part_number p then Some p else mu_get_part u n)"
  by (simp add: mu_get_part_def mu_put_part_def bt.get_ins)

section \<open>Errors\<close>

datatype s3_error =
    NoSuchBucket string
  | BucketAlreadyExists string
  | BucketAlreadyOwnedByYou string
  | BucketNotEmpty string
  | NoSuchKey string
  | NoSuchVersion string string
  | NoSuchUpload string
  | InvalidPartOrder
  | InvalidPart
  | EntityTooSmall nat nat
  | InvalidBucketName string string
  | InvalidArgument string
  | KeyTooLong
  | InvalidTag string
  | InvalidDigest
  | BadDigest
  | InvalidRange
  | PreconditionFailed
  | NotModified
  | AccessDenied string
  | MethodNotAllowed
  | DeleteMarkerError bool delete_marker
  | MalformedXml string
  | ObjectLockConfigurationNotFound
  | InternalError

end
