(* ===== verification/S3_Keystore.thy ===== *)
theory S3_Keystore
  imports S3_Types
begin

text \<open>
  The object store of a bucket, \<^verbatim>\<open>rustack-s3-core/src/state/keystore.rs\<close>: the un-versioned
  \<^verbatim>\<open>KeyStore\<close> (prefix \<open>ks\<close>), the \<^verbatim>\<open>VersionedKeyStore\<close> (prefix \<open>vs\<close>, newest version first) and
  the dispatching \<^verbatim>\<open>ObjectStore\<close> (prefix \<open>os\<close>). The UUID that \<^verbatim>\<open>generate_version_id\<close> draws is
  the argument \<open>fresh\<close>. An operation that takes \<^verbatim>\<open>&mut self\<close> returns its result with the new
  store; \<^verbatim>\<open>get_mut\<close> followed by an in-place update is an operation that takes the update.
\<close>

type_synonym key_store = "(string, s3_object) btree"
type_synonym versioned_store = "(string, object_version list) btree"

datatype object_store = Unversioned key_store | Versioned versioned_store

record list_result =
  lr_objects :: "s3_object list"
  lr_common_prefixes :: "string list"
  lr_is_truncated :: bool
  lr_next_marker :: "string option"

record version_list_entry =
  ve_version :: object_version
  ve_is_latest :: bool

record version_list_result =
  vr_versions :: "version_list_entry list"
  vr_common_prefixes :: "string list"
  vr_is_truncated :: bool
  vr_next_key_marker :: "string option"
  vr_next_version_id_marker :: "string option"

section \<open>The listing helper\<close>

text \<open>
  The loop of \<^verbatim>\<open>list_from_btree\<close>: \<open>objs\<close> is what the iterator still yields, the other
  arguments are the loop's variables (\<open>cps\<close> also plays \<^verbatim>\<open>seen_prefixes\<close>: the code inserts into
  both together). The result says whether the loop broke off as truncated. The slice
  \<^verbatim>\<open>&obj.key[prefix.len()..]\<close> starts at the end of a prefix of the key, a character boundary.
\<close>

fun list_loop ::
  "s3_object list \<Rightarrow> string \<Rightarrow> string \<Rightarrow> string \<Rightarrow> nat \<Rightarrow> s3_object list \<Rightarrow> string list \<Rightarrow> nat
     \<Rightarrow> s3_object list \<times> string list \<times> bool" where
  "list_loop [] pre delim start_after max_keys res cps cnt = (res, cps, False)"
| "list_loop (ob # objs) pre delim start_after max_keys res cps cnt =
     (if start_after \<noteq> [] \<and> o_key ob \<le> start_after
      then list_loop objs pre delim start_after max_keys res cps cnt
      else if pre \<noteq> [] \<and> \<not> starts_with (o_key ob) pre
      then list_loop objs pre delim start_after max_keys res cps cnt
      else
        (case (if delim \<noteq> [] then str_find delim (drop (length pre) (o_key ob)) else None) of
           Some pos \<Rightarrow>
             (let cp = pre @ take pos (drop (length pre) (o_key ob)) @ delim
              in list_loop objs pre delim start_after max_keys res
                   (if cp \<in> set cps then cps else cps @ [cp]) cnt)
         | None \<Rightarrow>
             if cnt \<ge> max_keys then (res, cps, True)
             else list_loop objs pre delim start_after max_keys (res @ [ob]) cps (cnt + 1)))"

definition list_from_btree ::
  "s3_object list \<Rightarrow> string \<Rightarrow> string \<Rightarrow> string \<Rightarrow> nat \<Rightarrow> list_result" where
  "list_from_btree objs pre delim start_after max_keys =
     (case list_loop objs pre delim start_after max_keys [] [] 0 of
        (res, cps, truncated) \<Rightarrow>
          \<lparr>lr_objects = res, lr_common_prefixes = cps, lr_is_truncated = truncated,
           lr_next_marker =
             (if truncated then (if res = [] then None else Some (o_key (last res))) else None)\<rparr>)"

section \<open>KeyStore\<close>

definition ks_put :: "s3_object \<Rightarrow> key_store \<Rightarrow> s3_object option \<times> key_store" where
  "ks_put ob m = (bt_get m (o_key ob), bt_insert (o_key ob) ob m)"

definition ks_get :: "key_store \<Rightarrow> string \<Rightarrow> s3_object option" where
  "ks_get m k = bt_get m k"

definition ks_update :: "string \<Rightarrow> (s3_object \<Rightarrow> s3_object) \<Rightarrow> key_store \<Rightarrow> key_store option" where
  "ks_update k f m = map_option (\<lambda>ob. bt_insert k (f ob) m) (bt_get m k)"

definition ks_delete :: "string \<Rightarrow> key_store \<Rightarrow> s3_object option \<times> key_store" where
  "ks_delete k m = (bt_get m k, bt_remove k m)"

definition ks_list_objects ::
  "key_store \<Rightarrow> string \<Rightarrow> string \<Rightarrow> string \<Rightarrow> nat \<Rightarrow> list_result" where
  "ks_list_objects m pre delim start_after max_keys =
     list_from_btree (bt_values m) pre delim start_after max_keys"

definition ks_list_object_versions ::
  "key_store \<Rightarrow> string \<Rightarrow> string \<Rightarrow> string \<Rightarrow> nat \<Rightarrow> version_list_result" where
  "ks_list_object_versions m pre delim key_marker max_keys =
     (let l = ks_list_objects m pre delim key_marker max_keys
      in \<lparr>vr_versions =
            map (\<lambda>ob. \<lparr>ve_version = VObject ob, ve_is_latest = True\<rparr>) (lr_objects l),
          vr_common_prefixes = lr_common_prefixes l,
          vr_is_truncated = lr_is_truncated l,
          vr_next_key_marker = lr_next_marker l,
          vr_next_version_id_marker = None\<rparr>)"

section \<open>VersionedKeyStore\<close>

definition vs_versions :: "versioned_store \<Rightarrow> string \<Rightarrow> object_version list" where
  "vs_versions m k = unwrap_or [] (bt_get m k)"

definition find_version :: "string \<Rightarrow> object_version list \<Rightarrow> object_version option" where
  "find_version vid vs = find (\<lambda>v. ov_version_id v = vid) vs"

definition vs_put :: "string \<Rightarrow> s3_object \<Rightarrow> versioned_store \<Rightarrow> versioned_store" where
  "vs_put fresh ob m =
     (let ob' = (if o_version_id ob = ''null'' then ob\<lparr>o_version_id := fresh\<rparr> else ob)
      in bt_insert (o_key ob') (VObject ob' # vs_versions m (o_key ob')) m)"

definition vs_get :: "versioned_store \<Rightarrow> string \<Rightarrow> s3_object option" where
  "vs_get m k =
     (case bt_get m k of
        None \<Rightarrow> None
      | Some [] \<Rightarrow> None
      | Some (latest # _) \<Rightarrow> as_object latest)"

definition vs_get_version :: "versioned_store \<Rightarrow> string \<Rightarrow> string \<Rightarrow> s3_object option" where
  "vs_get_version m k vid =
     (case bt_get m k of
        None \<Rightarrow> None
      | Some versions \<Rightarrow> Option.bind (find_version vid versions) as_object)"

fun update_first_object :: "(s3_object \<Rightarrow> s3_object) \<Rightarrow> object_version list \<Rightarrow> object_version list option" where
  "update_first_object f (VObject ob # vs) = Some (VObject (f ob) # vs)"
| "update_first_object f _ = None"

fun update_version ::
  "string \<Rightarrow> (s3_object \<Rightarrow> s3_object) \<Rightarrow> object_version list \<Rightarrow> object_version list option" where
  "update_version vid f [] = None"
| "update_version vid f (v # vs) =
     (if ov_version_id v = vid
      then (case v of VObject ob \<Rightarrow> Some (VObject (f ob) # vs) | VMarker _ \<Rightarrow> None)
      else map_option (Cons v) (update_version vid f vs))"

definition vs_update ::
  "string \<Rightarrow> (s3_object \<Rightarrow> s3_object) \<Rightarrow> versioned_store \<Rightarrow> versioned_store option" where
  "vs_update k f m =
     Option.bind (bt_get m k)
       (\<lambda>versions. map_option (\<lambda>vs. bt_insert k vs m) (update_first_object f versions))"

definition vs_update_version ::
  "string \<Rightarrow> string \<Rightarrow> (s3_object \<Rightarrow> s3_object) \<Rightarrow> versioned_store \<Rightarrow> versioned_store option" where
  "vs_update_version k vid f m =
     Option.bind (bt_get m k)
       (\<lambda>versions. map_option (\<lambda>vs. bt_insert k vs m) (update_version vid f versions))"

definition vs_is_delete_marker :: "versioned_store \<Rightarrow> string \<Rightarrow> string \<Rightarrow> bool" where
  "vs_is_delete_marker m k vid =
     unwrap_or False
       (Option.bind (bt_get m k)
          (\<lambda>versions. map_option ov_is_delete_marker (find_version vid versions)))"

definition vs_delete ::
  "string \<Rightarrow> nat \<Rightarrow> string \<Rightarrow> s3_owner \<Rightarrow> versioned_store
     \<Rightarrow> (string option \<times> bool) \<times> versioned_store" where
  "vs_delete fresh now k own m =
     (let dm = \<lparr>dm_key = k, dm_version_id = fresh, dm_last_modified = now, dm_owner = own\<rparr>;
          versions = vs_versions m k;
          had_object = list_ex (\<lambda>v. as_object v \<noteq> None) versions
      in ((Some fresh, had_object), bt_insert k (VMarker dm # versions) m))"

fun remove_version :: "string \<Rightarrow> object_version list \<Rightarrow> (object_version \<times> object_version list) option" where
  "remove_version vid [] = None"
| "remove_version vid (v # vs) =
     (if ov_version_id v = vid then Some (v, vs)
      else map_option (\<lambda>(r, rest). (r, v # rest)) (remove_version vid vs))"

definition vs_delete_version ::
  "string \<Rightarrow> string \<Rightarrow> versioned_store \<Rightarrow> object_version option \<times> versioned_store" where
  "vs_delete_version k vid m =
     (case bt_get m k of
        None \<Rightarrow> (None, m)
      | Some versions \<Rightarrow>
          (case remove_version vid versions of
             None \<Rightarrow> (None, m)
           | Some (removed, rest) \<Rightarrow>
               (Some removed, if rest = [] then bt_remove k m else bt_insert k rest m)))"

definition vs_len :: "versioned_store \<Rightarrow> nat" where
  "vs_len m =
     length (filter (\<lambda>vs. case vs of [] \<Rightarrow> False | v # _ \<Rightarrow> \<not> ov_is_delete_marker v)
               (bt_values m))"

definition current_objects :: "versioned_store \<Rightarrow> s3_object list" where
  "current_objects m =
     List.map_filter
       (\<lambda>versions. case versions of
          [] \<Rightarrow> None
        | latest # _ \<Rightarrow> if ov_is_delete_marker latest then None else as_object latest)
       (bt_values m)"

definition vs_list_objects ::
  "versioned_store \<Rightarrow> string \<Rightarrow> string \<Rightarrow> string \<Rightarrow> nat \<Rightarrow> list_result" where
  "vs_list_objects m pre delim start_after max_keys =
     list_from_btree (current_objects m) pre delim start_after max_keys"

subsection \<open>Listing all versions\<close>

text \<open>
  The variables of the loop of \<^verbatim>\<open>list_object_versions\<close>. \<open>va_count\<close> is the code's \<^verbatim>\<open>count\<close>.
\<close>

record version_acc =
  va_versions :: "version_list_entry list"
  va_prefixes :: "string list"
  va_count :: nat
  va_last_key :: "string option"
  va_last_version_id :: "string option"

definition empty_acc :: version_acc where
  "empty_acc = \<lparr>va_versions = [], va_prefixes = [], va_count = 0, va_last_key = None,
                va_last_version_id = None\<rparr>"

text \<open>
  The inner loop over the versions of one key, from index \<open>idx\<close>; the flag says that the page is
  full, which leaves the outer loop as well.
\<close>

fun version_loop ::
  "string \<Rightarrow> string \<Rightarrow> nat \<Rightarrow> object_version list \<Rightarrow> nat \<Rightarrow> bool \<Rightarrow> version_acc
     \<Rightarrow> version_acc \<times> bool" where
  "version_loop k vid_marker max_keys [] idx skip a = (a, False)"
| "version_loop k vid_marker max_keys (v # vs) idx skip a =
     (if skip
      then version_loop k vid_marker max_keys vs (idx + 1) (ov_version_id v \<noteq> vid_marker) a
      else if va_count a \<ge> max_keys then (a, True)
      else version_loop k vid_marker max_keys vs (idx + 1) False
             (a\<lparr>va_versions := va_versions a @ [\<lparr>ve_version = v, ve_is_latest = (idx = 0)\<rparr>],
                va_count := va_count a + 1,
                va_last_key := Some k,
                va_last_version_id := Some (ov_version_id v)\<rparr>))"

text \<open>
  The outer loop. \<open>None\<close> is the panic of \<^verbatim>\<open>&prefix[..prefix.len().saturating_sub(1).max(1)]\<close>
  when that offset is inside a multi-byte character of the prefix.
\<close>

fun versions_loop ::
  "versioned_store \<Rightarrow> string \<Rightarrow> string \<Rightarrow> string \<Rightarrow> string \<Rightarrow> nat \<Rightarrow> version_acc
     \<Rightarrow> (version_acc \<times> bool) option" where
  "versions_loop [] pre delim key_marker vid_marker max_keys a = Some (a, False)"
| "versions_loop ((k, versions) # m) pre delim key_marker vid_marker max_keys a =
     (if key_marker \<noteq> [] \<and> k < key_marker
      then versions_loop m pre delim key_marker vid_marker max_keys a
      else if pre \<noteq> [] \<and> \<not> starts_with k pre
      then (if k > pre
            then (case str_slice_to pre (max (length pre - 1) 1) of
                    None \<Rightarrow> None
                  | Some stem \<Rightarrow>
                      if \<not> starts_with k stem then Some (a, False)
                      else versions_loop m pre delim key_marker vid_marker max_keys a)
            else versions_loop m pre delim key_marker vid_marker max_keys a)
      else
        (case (if delim \<noteq> [] then str_find delim (drop (length pre) k) else None) of
           Some pos \<Rightarrow>
             (let cp = pre @ take pos (drop (length pre) k) @ delim
              in versions_loop m pre delim key_marker vid_marker max_keys
                   (if cp \<in> set (va_prefixes a) then a
                    else a\<lparr>va_prefixes := va_prefixes a @ [cp]\<rparr>))
         | None \<Rightarrow>
             (case version_loop k vid_marker max_keys versions 0
                     (k = key_marker \<and> vid_marker \<noteq> []) a of
                (a', True) \<Rightarrow> Some (a', True)
              | (a', False) \<Rightarrow>
                  versions_loop m pre delim key_marker vid_marker max_keys a')))"

definition vs_list_object_versions ::
  "versioned_store \<Rightarrow> string \<Rightarrow> string \<Rightarrow> string \<Rightarrow> string \<Rightarrow> nat
     \<Rightarrow> version_list_result option" where
  "vs_list_object_versions m pre delim key_marker vid_marker max_keys =
     map_option
       (\<lambda>(a, truncated).
          \<lparr>vr_versions = va_versions a,
           vr_common_prefixes = va_prefixes a,
           vr_is_truncated = truncated,
           vr_next_key_marker = (if truncated then va_last_key a else None),
           vr_next_version_id_marker = (if truncated then va_last_version_id a else None)\<rparr>)
       (versions_loop (if key_marker = [] then m else bt_range_from key_marker m)
          pre delim key_marker vid_marker max_keys empty_acc)"

section \<open>ObjectStore\<close>

definition os_default :: object_store where
  "os_default = Unversioned []"

definition os_delete_marker :: "object_store \<Rightarrow> string \<Rightarrow> string option \<Rightarrow> delete_marker option" where
  "os_delete_marker st k version_id =
     (case st of
        Unversioned _ \<Rightarrow> None
      | Versioned m \<Rightarrow>
          Option.bind (bt_get m k)
            (\<lambda>versions.
               Option.bind
                 (case version_id of
                    Some vid \<Rightarrow> find_version vid versions
                  | None \<Rightarrow> (case versions of [] \<Rightarrow> None | v # _ \<Rightarrow> Some v))
                 as_delete_marker))"

definition os_put :: "string \<Rightarrow> s3_object \<Rightarrow> object_store \<Rightarrow> s3_object option \<times> object_store" where
  "os_put fresh ob st =
     (case st of
        Unversioned m \<Rightarrow> (case ks_put ob m of (prev, m') \<Rightarrow> (prev, Unversioned m'))
      | Versioned m \<Rightarrow> (None, Versioned (vs_put fresh ob m)))"

definition os_get :: "object_store \<Rightarrow> string \<Rightarrow> s3_object option" where
  "os_get st k = (case st of Unversioned m \<Rightarrow> ks_get m k | Versioned m \<Rightarrow> vs_get m k)"

definition os_get_version :: "object_store \<Rightarrow> string \<Rightarrow> string \<Rightarrow> s3_object option" where
  "os_get_version st k vid =
     (case st of
        Unversioned m \<Rightarrow> if vid = ''null'' then ks_get m k else None
      | Versioned m \<Rightarrow> vs_get_version m k vid)"

definition os_update ::
  "string \<Rightarrow> (s3_object \<Rightarrow> s3_object) \<Rightarrow> object_store \<Rightarrow> object_store option" where
  "os_update k f st =
     (case st of
        Unversioned m \<Rightarrow> map_option Unversioned (ks_update k f m)
      | Versioned m \<Rightarrow> map_option Versioned (vs_update k f m))"

definition os_update_version ::
  "string \<Rightarrow> string \<Rightarrow> (s3_object \<Rightarrow> s3_object) \<Rightarrow> object_store \<Rightarrow> object_store option" where
  "os_update_version k vid f st =
     (case st of
        Unversioned m \<Rightarrow>
          if vid = ''null'' then map_option Unversioned (ks_update k f m) else None
      | Versioned m \<Rightarrow> map_option Versioned (vs_update_version k vid f m))"

definition os_is_delete_marker :: "object_store \<Rightarrow> string \<Rightarrow> string \<Rightarrow> bool" where
  "os_is_delete_marker st k vid =
     (case st of Unversioned _ \<Rightarrow> False | Versioned m \<Rightarrow> vs_is_delete_marker m k vid)"

definition os_delete :: "string \<Rightarrow> object_store \<Rightarrow> s3_object option \<times> object_store" where
  "os_delete k st =
     (case st of
        Unversioned m \<Rightarrow> (case ks_delete k m of (r, m') \<Rightarrow> (r, Unversioned m'))
      | Versioned m \<Rightarrow> (None, st))"

definition os_delete_versioned ::
  "string \<Rightarrow> nat \<Rightarrow> string \<Rightarrow> s3_owner \<Rightarrow> object_store
     \<Rightarrow> (string option \<times> bool) \<times> object_store" where
  "os_delete_versioned fresh now k own st =
     (case st of
        Unversioned m \<Rightarrow>
          (case ks_delete k m of (r, m') \<Rightarrow> ((None, r \<noteq> None), Unversioned m'))
      | Versioned m \<Rightarrow>
          (case vs_delete fresh now k own m of (r, m') \<Rightarrow> (r, Versioned m')))"

definition os_delete_version ::
  "string \<Rightarrow> string \<Rightarrow> object_store \<Rightarrow> object_version option \<times> object_store" where
  "os_delete_version k vid st =
     (case st of
        Unversioned m \<Rightarrow>
          if vid = ''null''
          then (case ks_delete k m of (r, m') \<Rightarrow> (map_option VObject r, Unversioned m'))
          else (None, st)
      | Versioned m \<Rightarrow>
          (case vs_delete_version k vid m of (r, m') \<Rightarrow> (r, Versioned m')))"

definition os_list_objects ::
  "object_store \<Rightarrow> string \<Rightarrow> string \<Rightarrow> string \<Rightarrow> nat \<Rightarrow> list_result" where
  "os_list_objects st pre delim start_after max_keys =
     (case st of
        Unversioned m \<Rightarrow> ks_list_objects m pre delim start_after max_keys
      | Versioned m \<Rightarrow> vs_list_objects m pre delim start_after max_keys)"

definition os_list_object_versions ::
  "object_store \<Rightarrow> string \<Rightarrow> string \<Rightarrow> string \<Rightarrow> string \<Rightarrow> nat \<Rightarrow> version_list_result option" where
  "os_list_object_versions st pre delim key_marker vid_marker max_keys =
     (case st of
        Unversioned m \<Rightarrow> Some (ks_list_object_versions m pre delim key_marker max_keys)
      | Versioned m \<Rightarrow>
          vs_list_object_versions m pre delim key_marker vid_marker max_keys)"

definition os_len :: "object_store \<Rightarrow> nat" where
  "os_len st = (case st of Unversioned m \<Rightarrow> length m | Versioned m \<Rightarrow> vs_len m)"

definition os_is_empty :: "object_store \<Rightarrow> bool" where
  "os_is_empty st = (case st of Unversioned m \<Rightarrow> m = [] | Versioned m \<Rightarrow> m = [])"

definition os_transition_to_versioned :: "object_store \<Rightarrow> object_store" where
  "os_transition_to_versioned st =
     (case st of
        Unversioned m \<Rightarrow>
          Versioned (foldl (\<lambda>vs e. bt_insert (fst e) [VObject (snd e)] vs) [] m)
      | Versioned m \<Rightarrow> Versioned m)"

definition os_is_versioned :: "object_store \<Rightarrow> bool" where
  "os_is_versioned st = (case st of Unversioned _ \<Rightarrow> False | Versioned _ \<Rightarrow> True)"

definition os_snapshot_versions :: "object_store \<Rightarrow> bool \<times> object_version list" where
  "os_snapshot_versions st =
     (case st of
        Unversioned m \<Rightarrow> (False, map VObject (bt_values m))
      | Versioned m \<Rightarrow> (True, concat (bt_values m)))"

fun group_versions :: "versioned_store \<Rightarrow> object_version list \<Rightarrow> versioned_store" where
  "group_versions m [] = m"
| "group_versions m (v # vs) =
     group_versions (bt_insert (ov_key v) (vs_versions m (ov_key v) @ [v]) m) vs"

fun collect_objects :: "key_store \<Rightarrow> object_version list \<Rightarrow> key_store" where
  "collect_objects m [] = m"
| "collect_objects m (VObject ob # vs) = collect_objects (bt_insert (o_key ob) ob m) vs"
| "collect_objects m (VMarker _ # vs) = collect_objects m vs"

definition os_replace_from_snapshot :: "bool \<Rightarrow> object_version list \<Rightarrow> object_store" where
  "os_replace_from_snapshot versioned versions =
     (if versioned then Versioned (group_versions [] versions)
      else Unversioned (collect_objects [] versions))"

end
