(* ===== verification/S3_Store.thy ===== *)
theory S3_Store
  imports S3_Keystore
begin

text \<open>
  The contract of the object store: each key has a history (its versions, newest first), reads look
  at the history, and each operation changes the history of its own key only. The contract is the
  locale \<open>version_history\<close>; what a client concludes from it is proved there, and the versioned
  keystore of \<^verbatim>\<open>keystore.rs\<close> is its interpretation.
\<close>

section \<open>Well-formed stores\<close>

definition ks_wf :: "key_store \<Rightarrow> bool" where
  "ks_wf m \<longleftrightarrow> bt_wf m \<and> (\<forall>e\<in>set m. o_key (snd e) = fst e)"

definition vs_wf :: "versioned_store \<Rightarrow> bool" where
  "vs_wf m \<longleftrightarrow> bt_wf m
     \<and> (\<forall>e\<in>set m. snd e \<noteq> [] \<and> (\<forall>v\<in>set (snd e). ov_key v = fst e)
          \<and> distinct (map ov_version_id (snd e)))"

definition os_wf :: "object_store \<Rightarrow> bool" where
  "os_wf st = (case st of Unversioned m \<Rightarrow> ks_wf m | Versioned m \<Rightarrow> vs_wf m)"

text \<open>The version a put stores: the id \<^verbatim>\<open>"null"\<close> is replaced by a fresh one.\<close>

definition stamp :: "string \<Rightarrow> s3_object \<Rightarrow> s3_object" where
  "stamp fresh ob = (if o_version_id ob = ''null'' then ob\<lparr>o_version_id := fresh\<rparr> else ob)"

fun drop_version :: "string \<Rightarrow> object_version list \<Rightarrow> object_version list" where
  "drop_version vid [] = []"
| "drop_version vid (v # vs) = (if ov_version_id v = vid then vs else v # drop_version vid vs)"

lemma stamp_simps [simp]: "o_key (stamp fresh ob) = o_key ob"
  by (simp add: stamp_def)

lemma remove_version_drop:
  "remove_version vid vs =
     (case find_version vid vs of None \<Rightarrow> None | Some v \<Rightarrow> Some (v, drop_version vid vs))"
  by (induction vs) (auto simp: find_version_def split: option.splits)

lemma find_version_Cons [simp]:
  "find_version vid (v # vs) = (if ov_version_id v = vid then Some v else find_version vid vs)"
  by (simp add: find_version_def)

lemma find_version_Nil [simp]: "find_version vid [] = None"
  by (simp add: find_version_def)

lemma find_version_None_iff: "find_version vid vs = None \<longleftrightarrow> vid \<notin> ov_version_id ` set vs"
  by (induction vs) auto

lemma drop_version_absent: "find_version vid vs = None \<Longrightarrow> drop_version vid vs = vs"
  by (induction vs) (auto split: if_splits)

lemma find_drop_version:
  "distinct (map ov_version_id vs) \<Longrightarrow>
     find_version vid' (drop_version vid vs) = (if vid' = vid then None else find_version vid' vs)"
  by (induction vs) (auto simp: find_version_None_iff)

lemma set_drop_version: "set (drop_version vid vs) \<subseteq> set vs"
  by (induction vs) auto

lemma distinct_drop_version:
  "distinct (map ov_version_id vs) \<Longrightarrow> distinct (map ov_version_id (drop_version vid vs))"
  by (induction vs) (use set_drop_version in force)+

section \<open>The contract\<close>

locale version_history =
  fixes hist :: "'s \<Rightarrow> string \<Rightarrow> object_version list"
    and put :: "string \<Rightarrow> s3_object \<Rightarrow> 's \<Rightarrow> 's"
    and del :: "string \<Rightarrow> nat \<Rightarrow> string \<Rightarrow> s3_owner \<Rightarrow> 's \<Rightarrow> 's"
    and del_version :: "string \<Rightarrow> string \<Rightarrow> 's \<Rightarrow> 's"
    and get :: "'s \<Rightarrow> string \<Rightarrow> s3_object option"
    and get_version :: "'s \<Rightarrow> string \<Rightarrow> string \<Rightarrow> s3_object option"
    and inv :: "'s \<Rightarrow> bool"
  assumes hist_put: "hist (put fresh ob s) k =
      (if k = o_key ob then VObject (stamp fresh ob) # hist s k else hist s k)"
    and hist_del: "hist (del fresh now k' own s) k =
      (if k = k' then VMarker \<lparr>dm_key = k', dm_version_id = fresh, dm_last_modified = now,
                                dm_owner = own\<rparr> # hist s k else hist s k)"
    and hist_del_version: "hist (del_version k' vid s) k =
      (if k = k' then drop_version vid (hist s k) else hist s k)"
    and get_hist: "get s k = (case hist s k of [] \<Rightarrow> None | v # _ \<Rightarrow> as_object v)"
    and get_version_hist: "get_version s k vid = Option.bind (find_version vid (hist s k)) as_object"
    and inv_hist: "inv s \<Longrightarrow> distinct (map ov_version_id (hist s k))"
begin

lemma get_put: "get (put fresh ob s) k = (if k = o_key ob then Some (stamp fresh ob) else get s k)"
  by (simp add: get_hist hist_put)

lemma get_del: "get (del fresh now k' own s) k = (if k = k' then None else get s k)"
  by (simp add: get_hist hist_del)

text \<open>An overwritten or deleted version stays readable by its id.\<close>

lemma get_version_put:
  "get_version (put fresh ob s) k vid =
     (if k = o_key ob \<and> vid = o_version_id (stamp fresh ob) then Some (stamp fresh ob)
      else get_version s k vid)"
  by (auto simp: get_version_hist hist_put)

lemma get_version_del: "vid \<noteq> fresh \<Longrightarrow> get_version (del fresh now k' own s) k vid = get_version s k vid"
  by (simp add: get_version_hist hist_del)

text \<open>Deleting the delete marker brings the object back.\<close>

lemma undelete: "hist (del_version k fresh (del fresh now k own s)) k' = hist s k'"
  by (simp add: hist_del_version hist_del)

lemma get_undelete: "get (del_version k fresh (del fresh now k own s)) k' = get s k'"
  by (simp add: get_hist undelete)

text \<open>Deleting a version removes it, keeps every other version, and is permanent.\<close>

lemma get_version_del_version:
  "inv s \<Longrightarrow> get_version (del_version k' vid' s) k vid =
     (if k = k' \<and> vid = vid' then None else get_version s k vid)"
  using inv_hist by (auto simp: get_version_hist hist_del_version find_drop_version)

end

section \<open>The versioned keystore keeps the contract\<close>

lemma vs_versions_insert:
  "vs_versions (bt_insert k vs m) k' = (if k' = k then vs else vs_versions m k')"
  by (simp add: vs_versions_def bt.get_ins)

lemma vs_versions_remove: "vs_versions (bt_remove k m) k' = (if k' = k then [] else vs_versions m k')"
  by (simp add: vs_versions_def bt.get_rem)

lemma vs_versions_delete_version:
  "vs_versions (snd (vs_delete_version k vid m)) k' =
     (if k' = k then drop_version vid (vs_versions m k') else vs_versions m k')"
proof (cases "bt_get m k")
  case None
  then show ?thesis by (simp add: vs_delete_version_def vs_versions_def)
next
  case (Some versions)
  then have versions: "vs_versions m k = versions" by (simp add: vs_versions_def)
  show ?thesis
  proof (cases "find_version vid versions")
    case None
    with Some versions show ?thesis
      by (simp add: vs_delete_version_def remove_version_drop drop_version_absent)
  next
    case (Some v)
    with \<open>bt_get m k = Some versions\<close> versions show ?thesis
      by (simp add: vs_delete_version_def remove_version_drop vs_versions_insert vs_versions_remove)
  qed
qed

lemma vs_wf_distinct: "vs_wf m \<Longrightarrow> distinct (map ov_version_id (vs_versions m k))"
  by (cases "bt_get m k") (auto simp: vs_wf_def vs_versions_def dest!: bt_get_mem)

interpretation vsh: version_history
  vs_versions vs_put "\<lambda>fresh now k own m. snd (vs_delete fresh now k own m)"
  "\<lambda>k vid m. snd (vs_delete_version k vid m)" vs_get vs_get_version vs_wf
proof unfold_locales
  fix m k vid
  show "vs_get m k = (case vs_versions m k of [] \<Rightarrow> None | v # _ \<Rightarrow> as_object v)"
    by (auto simp: vs_get_def vs_versions_def split: option.splits list.splits)
  show "vs_get_version m k vid = Option.bind (find_version vid (vs_versions m k)) as_object"
    by (auto simp: vs_get_version_def vs_versions_def split: option.splits)
qed (auto simp: vs_put_def vs_delete_def stamp_def Let_def vs_versions_insert
       vs_versions_delete_version vs_wf_distinct)

section \<open>Every operation keeps the store well-formed\<close>

lemma set_insertD: "e \<in> set (bt_insert k v m) \<Longrightarrow> e = (k, v) \<or> e \<in> set m"
  by (rule set_bt_insert)

lemma vs_wf_insert:
  assumes "vs_wf m" and "vs \<noteq> []" and "\<forall>v\<in>set vs. ov_key v = k" and "distinct (map ov_version_id vs)"
  shows "vs_wf (bt_insert k vs m)"
  using assms by (auto simp: vs_wf_def bt_wf_insert dest!: set_insertD)

lemma vs_wf_keys: "vs_wf m \<Longrightarrow> v \<in> set (vs_versions m k) \<Longrightarrow> ov_key v = k"
  by (cases "bt_get m k") (auto simp: vs_wf_def vs_versions_def dest!: bt_get_mem)

lemma vs_wf_put:
  assumes "vs_wf m" and "o_version_id (stamp fresh ob) \<notin> ov_version_id ` set (vs_versions m (o_key ob))"
  shows "vs_wf (vs_put fresh ob m)"
proof -
  have "vs_put fresh ob m = bt_insert (o_key ob) (VObject (stamp fresh ob) # vs_versions m (o_key ob)) m"
    by (simp add: vs_put_def stamp_def Let_def)
  with assms vs_wf_distinct [OF assms(1)] vs_wf_keys [OF assms(1)] show ?thesis
    by (auto intro!: vs_wf_insert)
qed

lemma vs_wf_delete:
  assumes "vs_wf m" and "fresh \<notin> ov_version_id ` set (vs_versions m k)"
  shows "vs_wf (snd (vs_delete fresh now k own m))"
  using assms vs_wf_distinct [OF assms(1)] vs_wf_keys [OF assms(1)]
  by (auto simp: vs_delete_def Let_def intro!: vs_wf_insert)

lemma vs_wf_delete_version:
  assumes "vs_wf m"
  shows "vs_wf (snd (vs_delete_version k vid m))"
proof (cases "bt_get m k")
  case (Some versions)
  then have versions: "vs_versions m k = versions" by (simp add: vs_versions_def)
  have "\<forall>v\<in>set (drop_version vid versions). ov_key v = k"
    using vs_wf_keys [OF assms, of _ k] set_drop_version [of vid versions] versions by blast
  moreover have "distinct (map ov_version_id (drop_version vid versions))"
    using vs_wf_distinct [OF assms, of k] versions by (simp add: distinct_drop_version)
  moreover have "vs_wf (bt_remove k m)"
    using assms by (auto simp: vs_wf_def bt_wf_remove bt_remove_def bt_wf_filter)
  ultimately show ?thesis
    using Some assms
    by (auto simp: vs_delete_version_def remove_version_drop split: option.splits intro: vs_wf_insert)
qed (simp add: vs_delete_version_def assms)

lemma ks_wf_put: "ks_wf m \<Longrightarrow> ks_wf (snd (ks_put ob m))"
  by (auto simp: ks_wf_def ks_put_def bt_wf_insert dest!: set_insertD)

lemma ks_wf_delete: "ks_wf m \<Longrightarrow> ks_wf (snd (ks_delete k m))"
  by (auto simp: ks_wf_def ks_delete_def bt_wf_remove bt_remove_def bt_wf_filter)

section \<open>Turning versioning on, snapshots\<close>

lemma foldl_insert_sorted:
  "bt_wf (acc @ map f m) \<Longrightarrow> (\<And>e. fst (f e) = fst e) \<Longrightarrow>
     foldl (\<lambda>vs e. bt_insert (fst e) (snd (f e)) vs) acc m = acc @ map f m"
  for f :: "'k::linorder \<times> 'v \<Rightarrow> 'k \<times> 'w"
proof (induction m arbitrary: acc)
  case (Cons e m)
  have "bt_insert (fst e) (snd (f e)) acc = acc @ [f e]"
    using Cons.prems
  proof (induction acc)
    case (Cons a acc)
    then have "fst a < fst e" by (auto simp: bt_wf_def sorted_wrt_append)
    with Cons show ?case by simp
  qed (simp add: prod_eq_iff)
  with Cons show ?case by simp
qed simp

lemma transition_map:
  assumes "bt_wf m"
  shows "os_transition_to_versioned (Unversioned m) =
           Versioned (map (\<lambda>e. (fst e, [VObject (snd e)])) m)"
proof -
  have "bt_wf (map (\<lambda>e. (fst e, [VObject (snd e)])) m)"
    using assms by (simp add: bt_wf_def comp_def)
  with foldl_insert_sorted [of "[]" "\<lambda>e. (fst e, [VObject (snd e)])" m]
  show ?thesis by (simp add: os_transition_to_versioned_def)
qed

lemma group_versions_append:
  "group_versions m (vs @ ws) = group_versions (group_versions m vs) ws"
  by (induction vs arbitrary: m) auto

lemma bt_get_append_absent:
  "k \<notin> fst ` set m \<Longrightarrow> bt_get (m @ n) k = bt_get n k"
  by (induction m) auto

lemma bt_insert_last:
  "\<forall>e\<in>set m. fst e < k \<Longrightarrow> bt_insert k v m = m @ [(k, v)]"
  by (induction m) auto

lemma bt_insert_replace_last:
  "\<forall>e\<in>set m. fst e < k \<Longrightarrow> bt_insert k v (m @ [(k, w)]) = m @ [(k, v)]"
  by (induction m) auto

lemma vs_versions_last:
  assumes "\<forall>e\<in>set m. fst e < k"
  shows "vs_versions m k = []" "vs_versions (m @ [(k, w)]) k = w"
proof -
  have "k \<notin> fst ` set m" using assms by auto
  then show "vs_versions m k = []" "vs_versions (m @ [(k, w)]) k = w"
    by (auto simp: vs_versions_def bt_get_append_absent bt_get_None_iff [THEN iffD2] bt_keys_def)
qed

lemma group_versions_key:
  "\<forall>e\<in>set m. fst e < k \<Longrightarrow> \<forall>v\<in>set ws. ov_key v = k \<Longrightarrow>
     group_versions (m @ [(k, vs)]) ws = m @ [(k, vs @ ws)]"
  by (induction ws arbitrary: vs) (auto simp: vs_versions_last bt_insert_replace_last)

lemma group_versions_new_key:
  assumes "\<forall>e\<in>set m. fst e < k" and "\<forall>v\<in>set ws. ov_key v = k" and "ws \<noteq> []"
  shows "group_versions m ws = m @ [(k, ws)]"
proof -
  obtain v vs where ws: "ws = v # vs" using assms(3) by (cases ws) auto
  have "group_versions m ws = group_versions (m @ [(k, [v])]) vs"
    using assms ws by (simp add: vs_versions_last bt_insert_last)
  also have "\<dots> = m @ [(k, ws)]"
    using assms ws by (simp add: group_versions_key)
  finally show ?thesis .
qed

lemma group_versions_concat:
  "bt_wf (acc @ m) \<Longrightarrow> \<forall>e\<in>set m. snd e \<noteq> [] \<and> (\<forall>v\<in>set (snd e). ov_key v = fst e) \<Longrightarrow>
     group_versions acc (concat (map snd m)) = acc @ m"
proof (induction m arbitrary: acc)
  case (Cons e m)
  have "\<forall>a\<in>set acc. fst a < fst e"
    using Cons.prems(1) by (auto simp: bt_wf_def sorted_wrt_append)
  with Cons.prems(2) have "group_versions acc (snd e) = acc @ [e]"
    using group_versions_new_key [of acc "fst e" "snd e"] by simp
  with Cons show ?case by (simp add: group_versions_append)
qed simp

lemma collect_objects_values:
  "bt_wf (acc @ m) \<Longrightarrow> \<forall>e\<in>set m. o_key (snd e) = fst e \<Longrightarrow>
     collect_objects acc (map VObject (map snd m)) = acc @ m"
proof (induction m arbitrary: acc)
  case (Cons e m)
  have "\<forall>a\<in>set acc. fst a < fst e"
    using Cons.prems(1) by (auto simp: bt_wf_def sorted_wrt_append)
  with Cons show ?case by (simp add: bt_insert_last)
qed simp

lemma snapshot_roundtrip:
  "os_wf st \<Longrightarrow>
     os_replace_from_snapshot (fst (os_snapshot_versions st)) (snd (os_snapshot_versions st)) = st"
  using collect_objects_values [of "[]"] group_versions_concat [of "[]"]
  by (cases st)
    (simp_all add: os_wf_def ks_wf_def vs_wf_def os_replace_from_snapshot_def
      os_snapshot_versions_def bt_values_def)

end
