(* ===== verification/S3_Storage.thy ===== *)
theory S3_Storage
  imports S3_Types "HOL-Library.Product_Lexorder"
begin

text \<open>
  The body storage of \<^verbatim>\<open>rustack-s3-core/src/storage.rs\<close>: object bodies keyed by bucket, key and
  version id, multipart part bodies keyed by bucket, upload id and part number. The hash crates
  (\<^verbatim>\<open>md5\<close>, \<^verbatim>\<open>hex\<close>) are the functions of the record \<open>digests\<close>; temporary files hold what was
  written to them (I/O failures are not modelled); the two size limits that the code takes from
  \<^verbatim>\<open>rustack-core\<close> are arguments.
\<close>

record digests =
  dg_md5 :: "string \<Rightarrow> string"
  dg_hex :: "string \<Rightarrow> string"
  dg_unhex :: "string \<Rightarrow> string option"

record staged_upload =
  su_data :: string
  su_md5_hex :: string

definition su_size :: "staged_upload \<Rightarrow> nat" where
  "su_size u = length (su_data u)"

datatype stored_data =
    Staged staged_upload
  | InMemory string
  | OnDisk string

fun sd_bytes :: "stored_data \<Rightarrow> string" where
  "sd_bytes (Staged u) = su_data u"
| "sd_bytes (InMemory d) = d"
| "sd_bytes (OnDisk d) = d"

record write_result =
  wr_etag :: string
  wr_size :: nat
  wr_md5_hex :: string

type_synonym storage_key = "string \<times> string \<times> string"
type_synonym part_key = "string \<times> string \<times> nat"

record body_storage =
  bs_objects :: "(storage_key, stored_data) btree"
  bs_parts :: "(part_key, stored_data) btree"
  bs_max_memory_size :: nat

definition bs_new :: "nat \<Rightarrow> body_storage" where
  "bs_new max_memory_size =
     \<lparr>bs_objects = [], bs_parts = [], bs_max_memory_size = max_memory_size\<rparr>"

section \<open>Digests\<close>

definition compute_md5 :: "digests \<Rightarrow> string \<Rightarrow> string" where
  "compute_md5 dg data = dg_hex dg (dg_md5 dg data)"

definition quoted :: "string \<Rightarrow> string" where
  "quoted s = [CHR 0x22] @ s @ [CHR 0x22]"

text \<open>\<^verbatim>\<open>str::trim_matches('"')\<close>.\<close>

definition trim_quotes :: "string \<Rightarrow> string" where
  "trim_quotes s = rev (dropWhile (\<lambda>c. c = CHR 0x22) (rev (dropWhile (\<lambda>c. c = CHR 0x22) s)))"

definition compute_multipart_etag :: "digests \<Rightarrow> string list \<Rightarrow> nat \<Rightarrow> string" where
  "compute_multipart_etag dg part_md5_hexes part_count =
     (let combined = concat (map (\<lambda>h. unwrap_or [] (dg_unhex dg (trim_quotes h))) part_md5_hexes);
          final_md5 = dg_hex dg (dg_md5 dg combined)
      in quoted (final_md5 @ ''-'' @ show_nat part_count))"

definition stage :: "digests \<Rightarrow> string \<Rightarrow> staged_upload" where
  "stage dg data = \<lparr>su_data = data, su_md5_hex = compute_md5 dg data\<rparr>"

section \<open>Objects\<close>

definition store_data :: "body_storage \<Rightarrow> string \<Rightarrow> stored_data" where
  "store_data s data = (if length data > bs_max_memory_size s then OnDisk data else InMemory data)"

definition write_object ::
  "digests \<Rightarrow> string \<Rightarrow> string \<Rightarrow> string \<Rightarrow> string \<Rightarrow> body_storage \<Rightarrow> write_result \<times> body_storage" where
  "write_object dg bucket k version_id data s =
     (let md5_hex = compute_md5 dg data
      in (\<lparr>wr_etag = quoted md5_hex, wr_size = length data, wr_md5_hex = md5_hex\<rparr>,
          s\<lparr>bs_objects := bt_insert (bucket, k, version_id) (store_data s data) (bs_objects s)\<rparr>))"

definition write_staged_object ::
  "string \<Rightarrow> string \<Rightarrow> string \<Rightarrow> staged_upload \<Rightarrow> body_storage \<Rightarrow> write_result \<times> body_storage" where
  "write_staged_object bucket k version_id u s =
     (\<lparr>wr_etag = quoted (su_md5_hex u), wr_size = su_size u, wr_md5_hex = su_md5_hex u\<rparr>,
      s\<lparr>bs_objects := bt_insert (bucket, k, version_id) (Staged u) (bs_objects s)\<rparr>)"

definition staged_object :: "body_storage \<Rightarrow> string \<Rightarrow> string \<Rightarrow> string \<Rightarrow> staged_upload option" where
  "staged_object s bucket k version_id =
     (case bt_get (bs_objects s) (bucket, k, version_id) of
        Some (Staged u) \<Rightarrow> Some u
      | _ \<Rightarrow> None)"

definition read_all :: "nat \<Rightarrow> stored_data \<Rightarrow> s3_error + string" where
  "read_all body_limit d =
     (case d of
        Staged u \<Rightarrow> if su_size u > body_limit then Inl InternalError else Inr (su_data u)
      | InMemory data \<Rightarrow> Inr data
      | OnDisk data \<Rightarrow> Inr data)"

definition read_object ::
  "nat \<Rightarrow> body_storage \<Rightarrow> string \<Rightarrow> string \<Rightarrow> string \<Rightarrow> (nat \<times> nat) option \<Rightarrow> s3_error + string" where
  "read_object body_limit s bucket k version_id rng =
     res_bind (ok_or (NoSuchKey k) (bt_get (bs_objects s) (bucket, k, version_id))) (\<lambda>entry.
     res_bind (read_all body_limit entry) (\<lambda>all_data.
       case rng of
         None \<Rightarrow> Inr all_data
       | Some (first, lst) \<Rightarrow>
           if first \<ge> length all_data \<or> lst \<ge> length all_data \<or> first > lst
           then Inl InvalidRange
           else Inr (take (lst - first + 1) (drop first all_data))))"

definition copy_object_body ::
  "digests \<Rightarrow> nat \<Rightarrow> storage_key \<Rightarrow> storage_key \<Rightarrow> body_storage
     \<Rightarrow> (s3_error + write_result) \<times> body_storage" where
  "copy_object_body dg body_limit src dst s =
     (case (src, dst) of ((sb, sk, sv), (db, dk, dv)) \<Rightarrow>
        (case staged_object s sb sk sv of
           Some u \<Rightarrow> (case write_staged_object db dk dv u s of (w, s') \<Rightarrow> (Inr w, s'))
         | None \<Rightarrow>
             (case read_object body_limit s sb sk sv None of
                Inl e \<Rightarrow> (Inl e, s)
              | Inr data \<Rightarrow>
                  (case write_object dg db dk dv data s of (w, s') \<Rightarrow> (Inr w, s')))))"

definition delete_object_body :: "string \<Rightarrow> string \<Rightarrow> string \<Rightarrow> body_storage \<Rightarrow> body_storage" where
  "delete_object_body bucket k version_id s =
     s\<lparr>bs_objects := bt_remove (bucket, k, version_id) (bs_objects s)\<rparr>"

section \<open>Multipart parts\<close>

definition write_part ::
  "digests \<Rightarrow> string \<Rightarrow> string \<Rightarrow> nat \<Rightarrow> string \<Rightarrow> body_storage \<Rightarrow> write_result \<times> body_storage" where
  "write_part dg bucket upload_id n data s =
     (let md5_hex = compute_md5 dg data
      in (\<lparr>wr_etag = quoted md5_hex, wr_size = length data, wr_md5_hex = md5_hex\<rparr>,
          s\<lparr>bs_parts := bt_insert (bucket, upload_id, n) (store_data s data) (bs_parts s)\<rparr>))"

definition write_staged_part ::
  "string \<Rightarrow> string \<Rightarrow> nat \<Rightarrow> staged_upload \<Rightarrow> body_storage \<Rightarrow> write_result \<times> body_storage" where
  "write_staged_part bucket upload_id n u s =
     (\<lparr>wr_etag = quoted (su_md5_hex u), wr_size = su_size u, wr_md5_hex = su_md5_hex u\<rparr>,
      s\<lparr>bs_parts := bt_insert (bucket, upload_id, n) (Staged u) (bs_parts s)\<rparr>)"

definition read_part :: "nat \<Rightarrow> body_storage \<Rightarrow> string \<Rightarrow> string \<Rightarrow> nat \<Rightarrow> s3_error + string" where
  "read_part body_limit s bucket upload_id n =
     res_bind (ok_or InvalidPart (bt_get (bs_parts s) (bucket, upload_id, n))) (read_all body_limit)"

text \<open>
  \<^verbatim>\<open>UploadWriter::write\<close> refuses to grow past the object size budget; \<^verbatim>\<open>append_to\<close> writes a part in
  chunks, which succeeds exactly when the whole part still fits.
\<close>

definition append_to ::
  "digests \<Rightarrow> nat \<Rightarrow> stored_data \<Rightarrow> string \<Rightarrow> s3_error + (string \<times> string)" where
  "append_to dg max_body d written =
     (if length written + length (sd_bytes d) > max_body then Inl InternalError
      else Inr (compute_md5 dg (sd_bytes d), written @ sd_bytes d))"

fun assemble_parts ::
  "digests \<Rightarrow> nat \<Rightarrow> body_storage \<Rightarrow> string \<Rightarrow> string \<Rightarrow> nat list \<Rightarrow> string \<Rightarrow> string list
     \<Rightarrow> s3_error + (string \<times> string list)" where
  "assemble_parts dg max_body s bucket upload_id [] written md5s = Inr (written, md5s)"
| "assemble_parts dg max_body s bucket upload_id (n # ns) written md5s =
     (case bt_get (bs_parts s) (bucket, upload_id, n) of
        None \<Rightarrow> Inl InvalidPart
      | Some d \<Rightarrow>
          (case append_to dg max_body d written of
             Inl e \<Rightarrow> Inl e
           | Inr (md5, written') \<Rightarrow>
               assemble_parts dg max_body s bucket upload_id ns written' (md5s @ [md5])))"

definition abort_multipart_body :: "string \<Rightarrow> string \<Rightarrow> body_storage \<Rightarrow> body_storage" where
  "abort_multipart_body bucket upload_id s =
     s\<lparr>bs_parts := bt_retain (\<lambda>pk _. \<not> (fst pk = bucket \<and> fst (snd pk) = upload_id)) (bs_parts s)\<rparr>"

definition complete_multipart_body ::
  "digests \<Rightarrow> nat \<Rightarrow> string \<Rightarrow> string \<Rightarrow> string \<Rightarrow> string \<Rightarrow> nat list \<Rightarrow> body_storage
     \<Rightarrow> (s3_error + (write_result \<times> string list)) \<times> body_storage" where
  "complete_multipart_body dg max_body bucket upload_id k version_id part_numbers s =
     (case assemble_parts dg max_body s bucket upload_id part_numbers [] [] of
        Inl e \<Rightarrow> (Inl e, s)
      | Inr (data, md5s) \<Rightarrow>
          (let etag = compute_multipart_etag dg md5s (length part_numbers);
               s' = s\<lparr>bs_objects := bt_insert (bucket, k, version_id) (Staged (stage dg data))
                                     (bs_objects s)\<rparr>;
               s'' = abort_multipart_body bucket upload_id s';
               composite_md5 = hd (split_on CHR ''-'' (trim_quotes etag))
           in (Inr (\<lparr>wr_etag = etag, wr_size = length data, wr_md5_hex = composite_md5\<rparr>, md5s),
               s'')))"

definition delete_bucket_data :: "string \<Rightarrow> body_storage \<Rightarrow> body_storage" where
  "delete_bucket_data bucket s =
     s\<lparr>bs_objects := bt_retain (\<lambda>sk _. fst sk \<noteq> bucket) (bs_objects s),
       bs_parts := bt_retain (\<lambda>pk _. fst pk \<noteq> bucket) (bs_parts s)\<rparr>"

definition bs_reset :: "body_storage \<Rightarrow> body_storage" where
  "bs_reset s = s\<lparr>bs_objects := [], bs_parts := []\<rparr>"

section \<open>The contents of the storage\<close>

text \<open>The abstraction: what bytes are stored under a key, whatever their representation.\<close>

definition body_of :: "body_storage \<Rightarrow> storage_key \<Rightarrow> string option" where
  "body_of s sk = map_option sd_bytes (bt_get (bs_objects s) sk)"

definition part_of :: "body_storage \<Rightarrow> part_key \<Rightarrow> string option" where
  "part_of s pk = map_option sd_bytes (bt_get (bs_parts s) pk)"

definition bs_wf :: "body_storage \<Rightarrow> bool" where
  "bs_wf s \<longleftrightarrow> bt_wf (bs_objects s) \<and> bt_wf (bs_parts s)"

text \<open>
  A reader of at most \<open>body_limit\<close> bytes; a body that was staged above the limit can only be
  streamed.
\<close>

definition readable :: "nat \<Rightarrow> body_storage \<Rightarrow> storage_key \<Rightarrow> bool" where
  "readable body_limit s sk =
     (case bt_get (bs_objects s) sk of
        Some (Staged u) \<Rightarrow> su_size u \<le> body_limit
      | _ \<Rightarrow> True)"

lemma sd_bytes_store_data [simp]: "sd_bytes (store_data s d) = d"
  by (simp add: store_data_def)

lemma body_of_write_object [simp]:
  "body_of (snd (write_object dg b k v d s)) sk = (if sk = (b, k, v) then Some d else body_of s sk)"
  by (simp add: body_of_def write_object_def Let_def bt.get_ins)

lemma body_of_write_staged [simp]:
  "body_of (snd (write_staged_object b k v u s)) sk =
     (if sk = (b, k, v) then Some (su_data u) else body_of s sk)"
  by (simp add: body_of_def write_staged_object_def bt.get_ins)

lemma body_of_delete [simp]:
  "body_of (delete_object_body b k v s) sk = (if sk = (b, k, v) then None else body_of s sk)"
  by (simp add: body_of_def delete_object_body_def bt.get_rem)

lemma parts_unchanged [simp]:
  "bs_parts (snd (write_object dg b k v d s)) = bs_parts s"
  "bs_parts (snd (write_staged_object b k v u s)) = bs_parts s"
  "bs_parts (delete_object_body b k v s) = bs_parts s"
  "bs_objects (snd (write_part dg b uid n d s)) = bs_objects s"
  "bs_objects (snd (write_staged_part b uid n u s)) = bs_objects s"
  "bs_objects (abort_multipart_body b uid s) = bs_objects s"
  by (simp_all add: write_object_def write_staged_object_def delete_object_body_def write_part_def
      write_staged_part_def abort_multipart_body_def Let_def)

lemma part_of_write_part [simp]:
  "part_of (snd (write_part dg b uid n d s)) pk = (if pk = (b, uid, n) then Some d else part_of s pk)"
  by (simp add: part_of_def write_part_def Let_def bt.get_ins)

lemma bs_wf_ops [intro]:
  "bs_wf s \<Longrightarrow> bs_wf (snd (write_object dg b k v d s))"
  "bs_wf s \<Longrightarrow> bs_wf (snd (write_staged_object b k v u s))"
  "bs_wf s \<Longrightarrow> bs_wf (delete_object_body b k v s)"
  "bs_wf s \<Longrightarrow> bs_wf (snd (write_part dg b uid n d s))"
  "bs_wf s \<Longrightarrow> bs_wf (snd (write_staged_part b uid n u s))"
  "bs_wf s \<Longrightarrow> bs_wf (abort_multipart_body b uid s)"
  "bs_wf s \<Longrightarrow> bs_wf (delete_bucket_data b s)"
  by (simp_all add: bs_wf_def write_object_def write_staged_object_def delete_object_body_def
      write_part_def write_staged_part_def abort_multipart_body_def delete_bucket_data_def Let_def
      bt_wf_insert bt_wf_remove bt_wf_retain)

lemma read_object_full:
  "readable lim s (b, k, v) \<Longrightarrow>
     read_object lim s b k v None = ok_or (NoSuchKey k) (body_of s (b, k, v))"
  by (auto simp: read_object_def body_of_def readable_def read_all_def
      split: option.splits stored_data.splits)

lemma read_object_range:
  "readable lim s (b, k, v) \<Longrightarrow> body_of s (b, k, v) = Some d \<Longrightarrow> lo \<le> hi \<Longrightarrow> hi < length d \<Longrightarrow>
     read_object lim s b k v (Some (lo, hi)) = Inr (take (hi - lo + 1) (drop lo d))"
  by (auto simp: read_object_def body_of_def readable_def read_all_def
      split: option.splits stored_data.splits)

lemma readable_write [simp]:
  "readable lim (snd (write_object dg b k v d s)) (b, k, v)"
  by (simp add: readable_def write_object_def Let_def bt.get_ins store_data_def)

lemma copy_object_body_spec:
  assumes "copy_object_body dg lim src (b, k, v) s = (Inr w, s')"
  shows "body_of s src \<noteq> None"
    and "body_of s' = (body_of s)((b, k, v) := body_of s src)"
  using assms
  by (cases src;
      auto simp: copy_object_body_def staged_object_def read_object_def read_all_def body_of_def
        write_object_def write_staged_object_def Let_def fun_eq_iff bt.get_ins res_bind_def ok_or_def
        split: option.splits stored_data.splits prod.splits if_splits sum.splits)+

lemma assemble_parts_data:
  "assemble_parts dg mx s b uid ns w ms = Inr (data, md5s) \<Longrightarrow>
     (\<forall>n\<in>set ns. part_of s (b, uid, n) \<noteq> None)
     \<and> data = w @ concat (map (\<lambda>n. the (part_of s (b, uid, n))) ns)
     \<and> md5s = ms @ map (\<lambda>n. compute_md5 dg (the (part_of s (b, uid, n)))) ns"
proof (induction ns arbitrary: w ms)
  case (Cons n ns)
  from Cons.prems obtain d where d: "bt_get (bs_parts s) (b, uid, n) = Some d"
    and rest: "assemble_parts dg mx s b uid ns (w @ sd_bytes d) (ms @ [compute_md5 dg (sd_bytes d)])
                 = Inr (data, md5s)"
    by (auto simp: append_to_def split: option.splits if_splits)
  from Cons.IH [OF rest] d show ?case by (simp add: part_of_def)
qed simp

lemma part_of_abort:
  "bs_wf s \<Longrightarrow>
     part_of (abort_multipart_body b uid s) pk =
       (if fst pk = b \<and> fst (snd pk) = uid then None else part_of s pk)"
  by (auto simp: part_of_def abort_multipart_body_def bs_wf_def bt_get_retain split: option.splits)

lemma delete_bucket_data_body:
  "bs_wf s \<Longrightarrow> body_of (delete_bucket_data b s) sk = (if fst sk = b then None else body_of s sk)"
  by (auto simp: body_of_def delete_bucket_data_def bs_wf_def bt_get_retain split: option.splits)

text \<open>
  Completing an upload publishes the concatenation of the named parts, frees the parts of that
  upload only, and leaves every other body alone; a failed completion changes nothing.
\<close>

lemma complete_multipart_body_ok:
  assumes "bs_wf s"
    and "complete_multipart_body dg mx b uid k v ns s = (Inr (w, md5s), s')"
  shows "body_of s' = (body_of s)
           ((b, k, v) := Some (concat (map (\<lambda>n. the (part_of s (b, uid, n))) ns)))"
    and "\<forall>n\<in>set ns. part_of s (b, uid, n) \<noteq> None"
    and "part_of s' pk = (if fst pk = b \<and> fst (snd pk) = uid then None else part_of s pk)"
    and "wr_size w = length (concat (map (\<lambda>n. the (part_of s (b, uid, n))) ns))"
proof -
  from assms(2) obtain data where a: "assemble_parts dg mx s b uid ns [] [] = Inr (data, md5s)"
    and s': "s' = abort_multipart_body b uid
        (s\<lparr>bs_objects := bt_insert (b, k, v) (Staged (stage dg data)) (bs_objects s)\<rparr>)"
    and w: "wr_size w = length data"
    by (auto simp: complete_multipart_body_def Let_def split: sum.splits)
  note d = assemble_parts_data [OF a]
  let ?t = "s\<lparr>bs_objects := bt_insert (b, k, v) (Staged (stage dg data)) (bs_objects s)\<rparr>"
  have t: "bs_wf ?t" "part_of ?t = part_of s"
    using assms(1) by (auto simp: bs_wf_def bt_wf_insert part_of_def fun_eq_iff)
  show "body_of s' = (body_of s)
           ((b, k, v) := Some (concat (map (\<lambda>n. the (part_of s (b, uid, n))) ns)))"
    using d by (simp add: s' body_of_def fun_eq_iff bt.get_ins stage_def)
  show "part_of s' pk = (if fst pk = b \<and> fst (snd pk) = uid then None else part_of s pk)"
    using part_of_abort [OF t(1)] t(2) by (simp add: s')
  show "\<forall>n\<in>set ns. part_of s (b, uid, n) \<noteq> None"
    and "wr_size w = length (concat (map (\<lambda>n. the (part_of s (b, uid, n))) ns))"
    using d w by auto
qed

lemma complete_multipart_body_error:
  "complete_multipart_body dg mx b uid k v ns s = (Inl e, s') \<Longrightarrow> s' = s"
  by (auto simp: complete_multipart_body_def Let_def split: sum.splits)

end
