(* ===== verification/S3_Utils.thy ===== *)
theory S3_Utils
  imports S3_Types
begin

text \<open>
  The request helpers of \<^verbatim>\<open>rustack-s3-core/src/utils.rs\<close> and \<^verbatim>\<open>ops/object.rs\<close>: the Range header,
  conditional requests, continuation tokens, the copy source, XML escaping and the tagging header.
  The \<^verbatim>\<open>base64\<close> and \<^verbatim>\<open>percent_encoding\<close> crates are parameters of the definitions that call them:
  \<open>b64_enc\<close>/\<open>b64_dec\<close>, and \<open>pct_dec\<close> for percent-decoding followed by UTF-8 decoding.
\<close>

section \<open>Range header\<close>

definition parse_range_header :: "string \<Rightarrow> nat \<Rightarrow> s3_error + (nat \<times> nat)" where
  "parse_range_header hdr content_length =
     res_bind (ok_or InvalidRange (strip_prefix ''bytes='' hdr)) (\<lambda>rng.
     if content_length = 0 then Inl InvalidRange
     else case strip_prefix ''-'' rng of
       Some suffix \<Rightarrow>
         res_bind (ok_or InvalidRange (parse_uint 64 suffix)) (\<lambda>n.
         if n = 0 \<or> n > content_length then Inl InvalidRange
         else Inr (content_length - n, content_length - 1))
     | None \<Rightarrow>
         (case strip_suffix ''-'' rng of
            Some pre \<Rightarrow>
              res_bind (ok_or InvalidRange (parse_uint 64 pre)) (\<lambda>start.
              if start \<ge> content_length then Inl InvalidRange
              else Inr (start, content_length - 1))
          | None \<Rightarrow>
              (case split_once CHR ''-'' rng of
                 None \<Rightarrow> Inl InvalidRange
               | Some (a, b) \<Rightarrow>
                   res_bind (ok_or InvalidRange (parse_uint 64 a)) (\<lambda>start.
                   res_bind (ok_or InvalidRange (parse_uint 64 b)) (\<lambda>last.
                   if start > last \<or> start \<ge> content_length then Inl InvalidRange
                   else Inr (start, min last (content_length - 1)))))))"

text \<open>An accepted range lies inside the object and is not empty.\<close>

lemma parse_range_header_within:
  "parse_range_header r n = Inr (a, b) \<Longrightarrow> a \<le> b \<and> b < n"
  by (auto simp: parse_range_header_def ok_or_def res_bind_Inr_iff
      split: option.splits if_splits prod.splits)

text \<open>What the three forms of the header select.\<close>

lemma show_nat_no_dash: "CHR ''-'' \<notin> set (show_nat n)"
  using set_show_nat [of "CHR ''-''" n] by (auto simp: is_ascii_digit_def byte_of_def)

lemma strip_prefix_append [simp]: "strip_prefix p (p @ s) = Some s"
  by (simp add: strip_prefix_Some)

lemma strip_dash_show [simp]: "strip_prefix ''-'' (show_nat a @ s) = None"
proof -
  obtain c r where s: "show_nat a = c # r" by (cases "show_nat a") auto
  then have "c \<noteq> CHR ''-''" using show_nat_no_dash [of a] by auto
  with s show ?thesis by (simp add: strip_prefix_def starts_with_def)
qed

lemma strip_suffix_dash_show: "strip_suffix ''-'' (s @ show_nat b) = None"
proof (cases "strip_suffix ''-'' (s @ show_nat b)")
  case (Some r)
  then have "s @ show_nat b = r @ ''-''" by (simp add: strip_suffix_Some)
  then have "last (s @ show_nat b) = CHR ''-''" by simp
  then have "last (show_nat b) = CHR ''-''" by simp
  then have "CHR ''-'' \<in> set (show_nat b)" by (metis last_in_set show_nat_nonempty)
  with show_nat_no_dash show ?thesis by blast
qed

lemma parse_range_closed:
  assumes "a < 2 ^ 64" and "b < 2 ^ 64" and "0 < n"
  shows "parse_range_header (''bytes='' @ show_nat a @ ''-'' @ show_nat b) n =
           (if b < a \<or> n \<le> a then Inl InvalidRange else Inr (a, min b (n - 1)))"
proof -
  have "strip_suffix ''-'' ((show_nat a @ ''-'') @ show_nat b) = None"
    by (rule strip_suffix_dash_show)
  moreover have "split_once CHR ''-'' (show_nat a @ CHR ''-'' # show_nat b) = Some (show_nat a, show_nat b)"
    by (rule split_once_append) (rule show_nat_no_dash)
  ultimately show ?thesis
    using assms strip_prefix_append [of "''bytes=''" "show_nat a @ ''-'' @ show_nat b"]
    by (simp add: parse_range_header_def parse_uint_show)
qed

lemma parse_range_suffix:
  assumes "k < 2 ^ 64" and "0 < n"
  shows "parse_range_header (''bytes=-'' @ show_nat k) n =
           (if k = 0 \<or> n < k then Inl InvalidRange else Inr (n - k, n - 1))"
  using assms strip_prefix_append [of "''bytes=''" "''-'' @ show_nat k"]
    strip_prefix_append [of "''-''" "show_nat k"]
  by (simp add: parse_range_header_def parse_uint_show)

lemma parse_range_open:
  assumes "a < 2 ^ 64" and "0 < n"
  shows "parse_range_header (''bytes='' @ show_nat a @ ''-'') n =
           (if n \<le> a then Inl InvalidRange else Inr (a, n - 1))"
proof -
  have "strip_suffix ''-'' (show_nat a @ ''-'') = Some (show_nat a)"
    by (simp add: strip_suffix_Some)
  with assms strip_prefix_append [of "''bytes=''" "show_nat a @ ''-''"] show ?thesis
    by (simp add: parse_range_header_def parse_uint_show)
qed

section \<open>Conditional requests\<close>

definition normalize_etag :: "string \<Rightarrow> string" where
  "normalize_etag etag =
     unwrap_or etag (Option.bind (strip_prefix [CHR 0x22] etag) (strip_suffix [CHR 0x22]))"

definition is_valid_if_match :: "string \<Rightarrow> string \<Rightarrow> bool" where
  "is_valid_if_match etag if_match =
     (if if_match = ''*'' then True else normalize_etag etag = normalize_etag if_match)"

definition is_valid_if_none_match :: "string \<Rightarrow> string \<Rightarrow> bool" where
  "is_valid_if_none_match etag if_none_match =
     (if if_none_match = ''*'' then False
      else normalize_etag etag \<noteq> normalize_etag if_none_match)"

lemma if_match_dual: "is_valid_if_none_match e c \<longleftrightarrow> \<not> is_valid_if_match e c"
  by (simp add: is_valid_if_match_def is_valid_if_none_match_def)

lemma normalize_etag_quoted: "normalize_etag (CHR 0x22 # s @ [CHR 0x22]) = s"
  by (simp add: normalize_etag_def strip_prefix_def starts_with_def strip_suffix_def ends_with_def)

section \<open>Continuation tokens\<close>

definition encode_continuation_token :: "(string \<Rightarrow> string) \<Rightarrow> string \<Rightarrow> string" where
  "encode_continuation_token b64_enc k = b64_enc k"

definition decode_continuation_token ::
  "(string \<Rightarrow> string option) \<Rightarrow> string \<Rightarrow> s3_error + string" where
  "decode_continuation_token b64_dec token =
     res_bind (ok_or (InvalidArgument ''Invalid continuation token'') (b64_dec token)) (\<lambda>bytes.
     ok_or (InvalidArgument ''Continuation token contains invalid UTF-8'') (from_utf8 bytes))"

lemma continuation_token_roundtrip:
  "(\<And>s. b64_dec (b64_enc s) = Some s) \<Longrightarrow> utf8_valid (map byte_of k) \<Longrightarrow>
     decode_continuation_token b64_dec (encode_continuation_token b64_enc k) = Inr k"
  by (simp add: decode_continuation_token_def encode_continuation_token_def from_utf8_def)

section \<open>Copy source\<close>

fun find_map :: "('a \<Rightarrow> 'b option) \<Rightarrow> 'a list \<Rightarrow> 'b option" where
  "find_map f [] = None"
| "find_map f (x # xs) = (case f x of Some y \<Rightarrow> Some y | None \<Rightarrow> find_map f xs)"

definition parse_copy_source ::
  "(string \<Rightarrow> string option) \<Rightarrow> string \<Rightarrow> s3_error + (string \<times> string \<times> string option)" where
  "parse_copy_source pct_dec source =
     (let source = unwrap_or source (strip_prefix ''/'' source);
          (path, version_id) =
            (case split_once CHR ''?'' source of
               Some (p, query) \<Rightarrow>
                 (p, find_map (strip_prefix ''versionId='') (split_on CHR ''&'' query))
             | None \<Rightarrow> (source, None))
      in res_bind (ok_or (InvalidArgument ''Invalid copy source: must be in the format bucket/key'')
                     (split_once CHR ''/'' path)) (\<lambda>(bucket, k).
         if bucket = [] \<or> k = []
         then Inl (InvalidArgument ''Invalid copy source: bucket and key must not be empty'')
         else res_bind (ok_or (InvalidArgument ''Invalid copy source: key contains invalid UTF-8'')
                          (pct_dec k)) (\<lambda>decoded_key.
              Inr (bucket, decoded_key, version_id))))"

lemma parse_copy_source_roundtrip:
  assumes bucket: "bucket \<noteq> []" "CHR ''/'' \<notin> set bucket" "CHR ''?'' \<notin> set bucket"
    and k: "k \<noteq> []" "CHR ''?'' \<notin> set k" "pct_dec k = Some k'"
    and vid: "CHR ''&'' \<notin> set vid"
  shows "parse_copy_source pct_dec (bucket @ ''/'' @ k @ ''?versionId='' @ vid) = Inr (bucket, k', Some vid)"
    and "parse_copy_source pct_dec (''/'' @ bucket @ ''/'' @ k) = Inr (bucket, k', None)"
proof -
  let ?src = "bucket @ ''/'' @ k @ ''?versionId='' @ vid"
  have no_slash: "strip_prefix ''/'' (bucket @ s) = None" for s
    using bucket by (cases bucket) (auto simp: strip_prefix_def starts_with_def)
  have q: "split_once CHR ''?'' ((bucket @ ''/'' @ k) @ CHR ''?'' # ''versionId='' @ vid)
      = Some (bucket @ ''/'' @ k, ''versionId='' @ vid)"
    using bucket k by (intro split_once_append) auto
  have "split_on CHR ''&'' (''versionId='' @ vid) = [''versionId='' @ vid]"
    using vid by (intro split_on_single) auto
  then have v: "find_map (strip_prefix ''versionId='') (split_on CHR ''&'' (''versionId='' @ vid)) = Some vid"
    using strip_prefix_append [of "''versionId=''" vid] by (simp del: split_on.simps)
  have b: "split_once CHR ''/'' (bucket @ CHR ''/'' # k) = Some (bucket, k)"
    using bucket by (intro split_once_append)
  show "parse_copy_source pct_dec ?src = Inr (bucket, k', Some vid)"
    using q v b k(1,3) bucket(1)
    by (simp add: parse_copy_source_def no_slash del: split_on.simps find_map.simps)
  have "split_once CHR ''?'' (bucket @ CHR ''/'' # k) = None"
    using bucket k by (simp add: split_once_None_iff)
  then show "parse_copy_source pct_dec (''/'' @ bucket @ ''/'' @ k) = Inr (bucket, k', None)"
    using b k(1,3) bucket(1) strip_prefix_append [of "''/''" "bucket @ ''/'' @ k"]
    by (simp add: parse_copy_source_def)
qed

section \<open>XML escaping\<close>

definition xml_escape_char :: "char \<Rightarrow> string" where
  "xml_escape_char ch =
     (if ch = CHR ''&'' then ''&amp;''
      else if ch = CHR ''<'' then ''&lt;''
      else if ch = CHR ''>'' then ''&gt;''
      else if ch = CHR 0x22 then ''&quot;''
      else if ch = CHR 0x27 then ''&apos;''
      else [ch])"

fun xml_escape :: "string \<Rightarrow> string" where
  "xml_escape [] = []"
| "xml_escape (ch # s) = xml_escape_char ch @ xml_escape s"

text \<open>A reader that resolves the five predefined entities gets the text back.\<close>

fun xml_unescape :: "string \<Rightarrow> string option" where
  "xml_unescape [] = Some []"
| "xml_unescape (c # s) =
     (if c = CHR ''&''
      then (if starts_with s ''amp;'' then map_option (Cons CHR ''&'') (xml_unescape (drop 4 s))
            else if starts_with s ''lt;'' then map_option (Cons CHR ''<'') (xml_unescape (drop 3 s))
            else if starts_with s ''gt;'' then map_option (Cons CHR ''>'') (xml_unescape (drop 3 s))
            else if starts_with s ''quot;'' then map_option (Cons CHR 0x22) (xml_unescape (drop 5 s))
            else if starts_with s ''apos;'' then map_option (Cons CHR 0x27) (xml_unescape (drop 5 s))
            else None)
      else map_option (Cons c) (xml_unescape s))"

lemma xml_unescape_escape: "xml_unescape (xml_escape s) = Some s"
  by (induction s) (simp_all add: xml_escape_char_def starts_with_def)

lemma xml_escape_safe: "c \<in> set (xml_escape s) \<Longrightarrow> c \<notin> {CHR ''<'', CHR ''>'', CHR 0x22, CHR 0x27}"
  by (induction s) (auto simp: xml_escape_char_def split: if_splits)

section \<open>Tagging header\<close>

definition parse_tagging_header :: "(string \<Rightarrow> string option) \<Rightarrow> string \<Rightarrow> (string \<times> string) list" where
  "parse_tagging_header pct_dec tagging =
     List.map_filter
       (\<lambda>pair. case unwrap_or (pair, []) (split_once CHR ''='' pair) of
          (k, v) \<Rightarrow>
            Option.bind (pct_dec k) (\<lambda>k'.
            Option.bind (pct_dec v) (\<lambda>v'. Some (k', v'))))
       (filter (\<lambda>s. s \<noteq> []) (split_on CHR ''&'' tagging))"

end
