(* ===== verification/S3_Checksums.thy ===== *)
theory S3_Checksums
  imports S3_Storage S3_Utils
begin

text \<open>
  The checksum algorithms of \<^verbatim>\<open>rustack-s3-core/src/checksums.rs\<close>, their appearance in requests and
  responses (\<^verbatim>\<open>ops/object.rs\<close>, \<^verbatim>\<open>ops/multipart.rs\<close>), and the record of the third-party functions that
  the request handlers use.
\<close>

datatype checksum_algorithm = Crc32 | Crc32c | Crc64Nvme | Sha1 | Sha256

fun algorithm_as_str :: "checksum_algorithm \<Rightarrow> string" where
  "algorithm_as_str Crc32 = ''CRC32''"
| "algorithm_as_str Crc32c = ''CRC32C''"
| "algorithm_as_str Crc64Nvme = ''CRC64NVME''"
| "algorithm_as_str Sha1 = ''SHA1''"
| "algorithm_as_str Sha256 = ''SHA256''"

definition to_ascii_upper :: "char \<Rightarrow> char" where
  "to_ascii_upper c = (if is_ascii_lower c then char_of (byte_of c - 32) else c)"

definition algorithm_from_str :: "string \<Rightarrow> string + checksum_algorithm" where
  "algorithm_from_str s =
     (let u = map to_ascii_upper s in
      if u = ''CRC32'' then Inr Crc32
      else if u = ''CRC32C'' then Inr Crc32c
      else if u = ''CRC64NVME'' then Inr Crc64Nvme
      else if u = ''SHA1'' then Inr Sha1
      else if u = ''SHA256'' then Inr Sha256
      else Inl s)"

text \<open>
  What the handlers take from outside: the digest crates, the raw checksum of an algorithm,
  \<^verbatim>\<open>base64\<close>, percent-decoding, the date format of \<^verbatim>\<open>chrono\<close>; and two settings.
\<close>

record s3_env =
  env_dg :: digests
  env_hash :: "checksum_algorithm \<Rightarrow> string \<Rightarrow> string"
  env_b64_enc :: "string \<Rightarrow> string"
  env_b64_dec :: "string \<Rightarrow> string option"
  env_pct_dec :: "string \<Rightarrow> string option"
  env_rfc2822 :: "nat \<Rightarrow> string"
  env_region :: string
  env_max_body :: nat

definition UPSTREAM_BODY_LIMIT :: nat where
  "UPSTREAM_BODY_LIMIT = 64 * 1024 * 1024"

definition compute_checksum :: "s3_env \<Rightarrow> checksum_algorithm \<Rightarrow> string \<Rightarrow> string" where
  "compute_checksum env alg data = env_b64_enc env (env_hash env alg data)"

definition compute_composite_checksum ::
  "s3_env \<Rightarrow> checksum_algorithm \<Rightarrow> string list \<Rightarrow> string" where
  "compute_composite_checksum env alg part_checksums =
     (let combined = concat (map (\<lambda>b. unwrap_or [] (env_b64_dec env b)) part_checksums)
      in compute_checksum env alg combined @ ''-'' @ show_nat (length part_checksums))"

text \<open>The five checksum headers of a request, and of a response.\<close>

record checksum_headers =
  ch_crc32 :: "string option"
  ch_crc32c :: "string option"
  ch_crc64nvme :: "string option"
  ch_sha1 :: "string option"
  ch_sha256 :: "string option"

definition no_checksum_headers :: checksum_headers where
  "no_checksum_headers =
     \<lparr>ch_crc32 = None, ch_crc32c = None, ch_crc64nvme = None, ch_sha1 = None, ch_sha256 = None\<rparr>"

definition extract_checksum :: "checksum_headers \<Rightarrow> s3_error + checksum_data option" where
  "extract_checksum h =
     (let candidates = [(''CRC32'', ch_crc32 h), (''CRC32C'', ch_crc32c h),
                        (''CRC64NVME'', ch_crc64nvme h), (''SHA1'', ch_sha1 h),
                        (''SHA256'', ch_sha256 h)];
          found = filter (\<lambda>(_, v). v \<noteq> None) candidates
      in if length found > 1
         then Inl (InvalidArgument ''Only one checksum value can be provided per request'')
         else Inr (case found of
                     [] \<Rightarrow> None
                   | (alg, val) # _ \<Rightarrow>
                       Some \<lparr>ck_algorithm = alg, ck_value = unwrap_or [] val,
                             ck_type = ''FULL_OBJECT''\<rparr>))"

definition checksum_to_output_fields :: "checksum_data option \<Rightarrow> checksum_headers" where
  "checksum_to_output_fields c =
     (case c of
        None \<Rightarrow> no_checksum_headers
      | Some c \<Rightarrow>
          if ck_algorithm c = ''CRC32'' then no_checksum_headers\<lparr>ch_crc32 := Some (ck_value c)\<rparr>
          else if ck_algorithm c = ''CRC32C''
          then no_checksum_headers\<lparr>ch_crc32c := Some (ck_value c)\<rparr>
          else if ck_algorithm c = ''CRC64NVME''
          then no_checksum_headers\<lparr>ch_crc64nvme := Some (ck_value c)\<rparr>
          else if ck_algorithm c = ''SHA1''
          then no_checksum_headers\<lparr>ch_sha1 := Some (ck_value c)\<rparr>
          else if ck_algorithm c = ''SHA256''
          then no_checksum_headers\<lparr>ch_sha256 := Some (ck_value c)\<rparr>
          else no_checksum_headers)"

datatype checksum_type = FullObject | Composite

definition checksum_type_of :: "checksum_data \<Rightarrow> checksum_type" where
  "checksum_type_of c = (if ck_type c = ''COMPOSITE'' then Composite else FullObject)"

text \<open>Content-MD5 against staged bytes: \<^verbatim>\<open>StagedUpload::validate_md5\<close>.\<close>

definition staged_validate_md5 :: "s3_env \<Rightarrow> staged_upload \<Rightarrow> string option \<Rightarrow> s3_error + unit" where
  "staged_validate_md5 env u declared =
     (case declared of
        None \<Rightarrow> Inr ()
      | Some d \<Rightarrow>
          res_bind (ok_or BadDigest (env_b64_dec env d)) (\<lambda>bytes.
          if dg_hex (env_dg env) bytes \<noteq> su_md5_hex u then Inl BadDigest else Inr ()))"

text \<open>The declared checksum, compared with the one computed over the body.\<close>

definition verify_checksum :: "s3_env \<Rightarrow> string \<Rightarrow> checksum_data \<Rightarrow> s3_error + unit" where
  "verify_checksum env body c =
     (case algorithm_from_str (ck_algorithm c) of
        Inl _ \<Rightarrow> Inl BadDigest
      | Inr alg \<Rightarrow>
          if ck_value c \<noteq> compute_checksum env alg body then Inl BadDigest else Inr ())"

lemma algorithm_roundtrip: "algorithm_from_str (algorithm_as_str a) = Inr a"
  by (cases a)
    (simp_all add: algorithm_from_str_def to_ascii_upper_def is_ascii_lower_def byte_of_def)

text \<open>A checksum header that a response carries is read back as the same checksum.\<close>

lemma extract_checksum_output:
  "ck_algorithm c \<in> algorithm_as_str ` UNIV \<Longrightarrow> ck_type c = ''FULL_OBJECT'' \<Longrightarrow>
     extract_checksum (checksum_to_output_fields (Some c)) = Inr (Some c)"
proof -
  assume "ck_algorithm c \<in> algorithm_as_str ` UNIV" and t: "ck_type c = ''FULL_OBJECT''"
  then obtain a where "ck_algorithm c = algorithm_as_str a" by auto
  with t show ?thesis
    by (cases a; cases c)
      (simp_all add: checksum_to_output_fields_def extract_checksum_def no_checksum_headers_def)
qed

lemma extract_checksum_algorithm:
  "extract_checksum h = Inr (Some c) \<Longrightarrow>
     ck_type c = ''FULL_OBJECT'' \<and> ck_algorithm c \<in> algorithm_as_str ` UNIV"
proof -
  assume "extract_checksum h = Inr (Some c)"
  then have "ck_type c = ''FULL_OBJECT''
      \<and> ck_algorithm c \<in> {''CRC32'', ''CRC32C'', ''CRC64NVME'', ''SHA1'', ''SHA256''}"
    by (auto simp: extract_checksum_def Let_def split: if_splits)
  moreover have "x \<in> {''CRC32'', ''CRC32C'', ''CRC64NVME'', ''SHA1'', ''SHA256''} \<Longrightarrow>
      x \<in> algorithm_as_str ` UNIV" for x
    by (auto intro: image_eqI [where x = Crc32] image_eqI [where x = Crc32c]
        image_eqI [where x = Crc64Nvme] image_eqI [where x = Sha1] image_eqI [where x = Sha256])
  ultimately show ?thesis by blast
qed

end
