(* ===== verification/S3_Validation.thy ===== *)
theory S3_Validation
  imports S3_Utils
begin

text \<open>
  \<^verbatim>\<open>rustack-s3-core/src/validation.rs\<close>: bucket names, object keys, tags, user metadata and the
  Content-MD5 header. \<^verbatim>\<open>Ipv4Addr::from_str\<close> is the standard library's parser: four decimal
  numbers of one to three digits, at most 255 and without a leading zero, separated by dots. The
  \<^verbatim>\<open>md5\<close> and \<^verbatim>\<open>base64\<close> crates are parameters.
\<close>

definition parse_ipv4_part :: "string \<Rightarrow> nat option" where
  "parse_ipv4_part s =
     (if s = [] \<or> length s > 3 \<or> (length s > 1 \<and> starts_with s ''0'') then None
      else case digits_val 0 s of
             None \<Rightarrow> None
           | Some n \<Rightarrow> if n \<le> 255 then Some n else None)"

definition is_ipv4 :: "string \<Rightarrow> bool" where
  "is_ipv4 s \<longleftrightarrow>
     (let parts = split_on CHR ''.'' s
      in length parts = 4 \<and> list_all (\<lambda>p. parse_ipv4_part p \<noteq> None) parts)"

definition bucket_name_char :: "char \<Rightarrow> bool" where
  "bucket_name_char b \<longleftrightarrow>
     is_ascii_lower b \<or> is_ascii_digit b \<or> b = CHR ''-'' \<or> b = CHR ''.''"

definition validate_bucket_name :: "string \<Rightarrow> s3_error + unit" where
  "validate_bucket_name nm =
     (let len = length nm in
      if \<not> (3 \<le> len \<and> len \<le> 63)
      then Inl (InvalidBucketName nm
             ''Bucket name must be between 3 and 63 characters long'')
      else if \<not> list_all bucket_name_char nm
      then Inl (InvalidBucketName nm
             ''Bucket name must only contain lowercase letters, numbers, hyphens, and dots'')
      else let first = nm ! 0; last_b = nm ! (len - 1) in
      if \<not> (is_ascii_lower first \<or> is_ascii_digit first)
         \<or> \<not> (is_ascii_lower last_b \<or> is_ascii_digit last_b)
      then Inl (InvalidBucketName nm ''Bucket name must start and end with a letter or number'')
      else if str_contains ''..'' nm
      then Inl (InvalidBucketName nm ''Bucket name must not contain consecutive dots'')
      else if is_ipv4 nm
      then Inl (InvalidBucketName nm ''Bucket name must not be formatted as an IP address'')
      else if starts_with nm ''xn--''
      then Inl (InvalidBucketName nm (''Bucket name must not start with '' @ [CHR 0x27] @ ''xn--'' @ [CHR 0x27]))
      else if ends_with nm ''-s3alias''
      then Inl (InvalidBucketName nm (''Bucket name must not end with '' @ [CHR 0x27] @ ''-s3alias'' @ [CHR 0x27]))
      else if starts_with nm ''sthree-''
      then Inl (InvalidBucketName nm (''Bucket name must not start with '' @ [CHR 0x27] @ ''sthree-'' @ [CHR 0x27]))
      else Inr ())"

text \<open>The documented rules, as one predicate.\<close>

definition bucket_name_rules :: "string \<Rightarrow> bool" where
  "bucket_name_rules nm \<longleftrightarrow>
     3 \<le> length nm \<and> length nm \<le> 63
     \<and> (\<forall>b\<in>set nm. bucket_name_char b)
     \<and> hd nm \<notin> {CHR ''-'', CHR ''.''} \<and> last nm \<notin> {CHR ''-'', CHR ''.''}
     \<and> \<not> str_contains ''..'' nm \<and> \<not> is_ipv4 nm
     \<and> \<not> starts_with nm ''xn--'' \<and> \<not> ends_with nm ''-s3alias'' \<and> \<not> starts_with nm ''sthree-''"

lemma bucket_char_alnum:
  "bucket_name_char b \<Longrightarrow> (is_ascii_lower b \<or> is_ascii_digit b) \<longleftrightarrow> b \<notin> {CHR ''-'', CHR ''.''}"
  by (auto simp: bucket_name_char_def is_ascii_lower_def is_ascii_digit_def byte_of_def)

lemma validate_bucket_name_rules: "validate_bucket_name nm = Inr () \<longleftrightarrow> bucket_name_rules nm"
proof (cases "3 \<le> length nm \<and> list_all bucket_name_char nm")
  case True
  then have ne: "nm \<noteq> []" by auto
  have "bucket_name_char (nm ! 0)" "bucket_name_char (nm ! (length nm - 1))"
    using True ne by (auto simp: list_all_iff)
  with ne show ?thesis
    using bucket_char_alnum [of "nm ! 0"] bucket_char_alnum [of "nm ! (length nm - 1)"] True
    by (auto simp: validate_bucket_name_def bucket_name_rules_def Let_def list_all_iff hd_conv_nth last_conv_nth)
next
  case False
  then show ?thesis
    by (auto simp: validate_bucket_name_def bucket_name_rules_def Let_def list_all_iff)
qed

definition validate_object_key :: "string \<Rightarrow> s3_error + unit" where
  "validate_object_key k =
     (if k = [] then Inl (InvalidArgument ''Object key must not be empty'')
      else if length k > 1024 then Inl KeyTooLong
      else Inr ())"

lemma validate_object_key_ok: "validate_object_key k = Inr () \<longleftrightarrow> k \<noteq> [] \<and> length k \<le> 1024"
  by (auto simp: validate_object_key_def)

definition validate_tag_key :: "string \<Rightarrow> s3_error + unit" where
  "validate_tag_key k =
     (if k = [] then Inl (InvalidTag ''Tag key must not be empty'')
      else if char_count k > 128
      then Inl (InvalidTag (''Tag key must not exceed 128 characters, got '' @ show_nat (char_count k)))
      else Inr ())"

definition validate_tag_value :: "string \<Rightarrow> s3_error + unit" where
  "validate_tag_value v =
     (if char_count v > 256
      then Inl (InvalidTag (''Tag value must not exceed 256 characters, got '' @ show_nat (char_count v)))
      else Inr ())"

fun validate_each_tag :: "(string \<times> string) list \<Rightarrow> s3_error + unit" where
  "validate_each_tag [] = Inr ()"
| "validate_each_tag ((k, v) # tags) =
     res_bind (validate_tag_key k) (\<lambda>_.
     res_bind (validate_tag_value v) (\<lambda>_.
     validate_each_tag tags))"

definition validate_tags :: "(string \<times> string) list \<Rightarrow> s3_error + unit" where
  "validate_tags tags =
     (if length tags > 10
      then Inl (InvalidTag (''Object tags cannot be greater than 10, got '' @ show_nat (length tags)))
      else validate_each_tag tags)"

lemma validate_each_tag_ok:
  "validate_each_tag tags = Inr () \<longleftrightarrow>
     (\<forall>(k, v)\<in>set tags. k \<noteq> [] \<and> char_count k \<le> 128 \<and> char_count v \<le> 256)"
proof (induction tags)
  case (Cons t tags)
  then show ?case
    by (cases t) (auto simp: validate_tag_key_def validate_tag_value_def)
qed simp

lemma validate_tags_ok:
  "validate_tags tags = Inr () \<longleftrightarrow>
     length tags \<le> 10 \<and> (\<forall>(k, v)\<in>set tags. k \<noteq> [] \<and> char_count k \<le> 128 \<and> char_count v \<le> 256)"
  by (auto simp: validate_tags_def validate_each_tag_ok)

definition validate_metadata :: "(string, string) btree \<Rightarrow> s3_error + unit" where
  "validate_metadata meta =
     (let total_size = sum_list (map (\<lambda>(k, v). length k + length v) meta) in
      if total_size > 2048
      then Inl (InvalidArgument
             (''User-defined metadata must not exceed 2048 bytes, got '' @ show_nat total_size))
      else Inr ())"

definition validate_content_md5 ::
  "(string \<Rightarrow> string option) \<Rightarrow> (string \<Rightarrow> string) \<Rightarrow> string option \<Rightarrow> string \<Rightarrow> s3_error + unit" where
  "validate_content_md5 b64_dec md5 content_md5 body =
     (case content_md5 of
        None \<Rightarrow> Inr ()
      | Some expected_b64 \<Rightarrow>
          res_bind (ok_or InvalidDigest (b64_dec expected_b64)) (\<lambda>expected_bytes.
          if md5 body \<noteq> expected_bytes then Inl BadDigest else Inr ()))"

end
