(* ===== verification/S3_Cors.thy ===== *)
theory S3_Cors
  imports S3_Types
begin

text \<open>
  \<^verbatim>\<open>rustack-s3-core/src/cors.rs\<close>: the per-bucket CORS rules and the matching of simple and
  preflight requests against them.
\<close>

record cors_rule =
  cr_allowed_origins :: "string list"
  cr_allowed_methods :: "string list"
  cr_allowed_headers :: "string list"
  cr_expose_headers :: "string list"
  cr_max_age_seconds :: "int option"

record cors_match =
  cm_allowed_origin :: string
  cm_allowed_methods :: "string list"
  cm_allowed_headers :: "string list"
  cm_expose_headers :: "string list"
  cm_max_age_seconds :: "int option"

type_synonym cors_index = "(string, cors_rule list) btree"

definition cors_set_rules :: "string \<Rightarrow> cors_rule list \<Rightarrow> cors_index \<Rightarrow> cors_index" where
  "cors_set_rules bucket rules ix = bt_insert bucket rules ix"

definition cors_delete_rules :: "string \<Rightarrow> cors_index \<Rightarrow> cors_index" where
  "cors_delete_rules bucket ix = bt_remove bucket ix"

definition cors_get_rules :: "cors_index \<Rightarrow> string \<Rightarrow> cors_rule list option" where
  "cors_get_rules ix bucket = bt_get ix bucket"

definition match_origin :: "string \<Rightarrow> string \<Rightarrow> bool" where
  "match_origin pat origin = (if pat = ''*'' then True else pat = origin)"

definition resolve_origin :: "string list \<Rightarrow> string \<Rightarrow> string" where
  "resolve_origin allowed_origins origin =
     (if list_ex (\<lambda>a. a = ''*'') allowed_origins then ''*'' else origin)"

definition headers_allowed :: "string list \<Rightarrow> string list \<Rightarrow> bool" where
  "headers_allowed allowed requested =
     (if list_ex (\<lambda>h. h = ''*'') allowed then True
      else list_all (\<lambda>req. list_ex (\<lambda>a. eq_ignore_ascii_case a req) allowed) requested)"

definition cors_match_of :: "cors_rule \<Rightarrow> string \<Rightarrow> cors_match" where
  "cors_match_of r origin = \<lparr>
     cm_allowed_origin = resolve_origin (cr_allowed_origins r) origin,
     cm_allowed_methods = cr_allowed_methods r,
     cm_allowed_headers = cr_allowed_headers r,
     cm_expose_headers = cr_expose_headers r,
     cm_max_age_seconds = cr_max_age_seconds r\<rparr>"

fun match_cors_rules :: "cors_rule list \<Rightarrow> string \<Rightarrow> string \<Rightarrow> cors_match option" where
  "match_cors_rules [] origin meth = None"
| "match_cors_rules (r # rs) origin meth =
     (if \<not> list_ex (\<lambda>p. match_origin p origin) (cr_allowed_origins r)
      then match_cors_rules rs origin meth
      else if \<not> list_ex (\<lambda>m. eq_ignore_ascii_case m meth) (cr_allowed_methods r)
      then match_cors_rules rs origin meth
      else Some (cors_match_of r origin))"

definition match_cors :: "cors_index \<Rightarrow> string \<Rightarrow> string \<Rightarrow> string \<Rightarrow> cors_match option" where
  "match_cors ix bucket origin meth =
     Option.bind (bt_get ix bucket) (\<lambda>rules. match_cors_rules rules origin meth)"

fun match_preflight_rules ::
  "cors_rule list \<Rightarrow> string \<Rightarrow> string \<Rightarrow> string list \<Rightarrow> cors_match option" where
  "match_preflight_rules [] origin meth hdrs = None"
| "match_preflight_rules (r # rs) origin meth hdrs =
     (if \<not> list_ex (\<lambda>p. match_origin p origin) (cr_allowed_origins r)
      then match_preflight_rules rs origin meth hdrs
      else if \<not> list_ex (\<lambda>m. eq_ignore_ascii_case m meth) (cr_allowed_methods r)
      then match_preflight_rules rs origin meth hdrs
      else if \<not> headers_allowed (cr_allowed_headers r) hdrs
      then match_preflight_rules rs origin meth hdrs
      else Some (cors_match_of r origin))"

definition match_preflight ::
  "cors_index \<Rightarrow> string \<Rightarrow> string \<Rightarrow> string \<Rightarrow> string list \<Rightarrow> cors_match option" where
  "match_preflight ix bucket origin meth hdrs =
     Option.bind (bt_get ix bucket) (\<lambda>rules. match_preflight_rules rules origin meth hdrs)"

section \<open>What a match means\<close>

definition rule_permits :: "cors_rule \<Rightarrow> string \<Rightarrow> string \<Rightarrow> bool" where
  "rule_permits r origin meth \<longleftrightarrow>
     (\<exists>p\<in>set (cr_allowed_origins r). p = ''*'' \<or> p = origin)
     \<and> (\<exists>m\<in>set (cr_allowed_methods r). eq_ignore_ascii_case m meth)"

lemma match_cors_rules_find:
  "match_cors_rules rs origin meth =
     map_option (\<lambda>r. cors_match_of r origin) (find (\<lambda>r. rule_permits r origin meth) rs)"
  by (induction rs) (auto simp: rule_permits_def list_ex_iff match_origin_def split: if_splits)

lemma match_preflight_rules_find:
  "match_preflight_rules rs origin meth hdrs =
     map_option (\<lambda>r. cors_match_of r origin)
       (find (\<lambda>r. rule_permits r origin meth \<and> headers_allowed (cr_allowed_headers r) hdrs) rs)"
  by (induction rs) (auto simp: rule_permits_def list_ex_iff match_origin_def split: if_splits)

definition preflight_permits :: "cors_rule \<Rightarrow> string \<Rightarrow> string \<Rightarrow> string list \<Rightarrow> bool" where
  "preflight_permits r origin meth hdrs \<longleftrightarrow> rule_permits r origin meth
     \<and> (''*'' \<in> set (cr_allowed_headers r)
        \<or> (\<forall>h\<in>set hdrs. \<exists>a\<in>set (cr_allowed_headers r). eq_ignore_ascii_case a h))"

text \<open>The first rule of a list with a property; an answer that carries what a rule says.\<close>

definition first_rule :: "(cors_rule \<Rightarrow> bool) \<Rightarrow> cors_rule list \<Rightarrow> cors_rule \<Rightarrow> bool" where
  "first_rule P rules r \<longleftrightarrow> (\<exists>before after. rules = before @ r # after \<and> P r \<and> (\<forall>q\<in>set before. \<not> P q))"

definition carries :: "cors_match \<Rightarrow> cors_rule \<Rightarrow> string \<Rightarrow> bool" where
  "carries m r origin \<longleftrightarrow>
     cm_allowed_origin m = (if ''*'' \<in> set (cr_allowed_origins r) then ''*'' else origin)
     \<and> cm_allowed_methods m = cr_allowed_methods r \<and> cm_allowed_headers m = cr_allowed_headers r
     \<and> cm_expose_headers m = cr_expose_headers r \<and> cm_max_age_seconds m = cr_max_age_seconds r"

lemma find_first_rule: "find P rules = Some r \<longleftrightarrow> first_rule P rules r"
proof
  show "find P rules = Some r \<Longrightarrow> first_rule P rules r"
  proof (induction rules)
    case (Cons q rules)
    show ?case
    proof (cases "P q")
      case True
      then show ?thesis using Cons.prems unfolding first_rule_def by (intro exI [of _ "[]"] exI [of _ rules]) simp
    next
      case False
      then obtain before after where "rules = before @ r # after" "P r" "\<forall>q\<in>set before. \<not> P q"
        using Cons unfolding first_rule_def by auto
      then show ?thesis using False unfolding first_rule_def
        by (intro exI [of _ "q # before"] exI [of _ after]) simp
    qed
  qed simp
  have "(\<forall>q\<in>set before. \<not> P q) \<Longrightarrow> P r \<Longrightarrow> find P (before @ r # after) = Some r" for before after
    by (induction before) auto
  then show "first_rule P rules r \<Longrightarrow> find P rules = Some r" unfolding first_rule_def by blast
qed

lemma carries_match: "m = cors_match_of r origin \<longleftrightarrow> carries m r origin"
  by (cases m) (auto simp: carries_def cors_match_of_def resolve_origin_def list_ex_iff)

lemma headers_allowed_iff:
  "rule_permits r origin meth \<and> headers_allowed (cr_allowed_headers r) hdrs \<longleftrightarrow> preflight_permits r origin meth hdrs"
  by (auto simp: preflight_permits_def headers_allowed_def list_ex_iff list_all_iff)

lemma match_cors_exact:
  "match_cors ix bucket origin meth = Some m \<longleftrightarrow>
     (\<exists>rules r. bt_get ix bucket = Some rules \<and> first_rule (\<lambda>r. rule_permits r origin meth) rules r \<and> carries m r origin)"
  by (auto simp: match_cors_def match_cors_rules_find bind_eq_Some_conv find_first_rule carries_match [symmetric])

lemma match_preflight_exact:
  "match_preflight ix bucket origin meth hdrs = Some m \<longleftrightarrow>
     (\<exists>rules r. bt_get ix bucket = Some rules \<and>
        first_rule (\<lambda>r. preflight_permits r origin meth hdrs) rules r \<and> carries m r origin)"
  by (auto simp: match_preflight_def match_preflight_rules_find bind_eq_Some_conv headers_allowed_iff find_first_rule
      carries_match [symmetric])

text \<open>The origin header never widens access: it is the request's origin, or the rule's wildcard.\<close>

lemma match_cors_sound:
  assumes "match_cors ix bucket origin meth = Some m"
  shows "\<exists>r rules. bt_get ix bucket = Some rules \<and> r \<in> set rules \<and> rule_permits r origin meth
           \<and> cm_allowed_methods m = cr_allowed_methods r
           \<and> (cm_allowed_origin m = origin
              \<or> cm_allowed_origin m = ''*'' \<and> ''*'' \<in> set (cr_allowed_origins r))"
proof -
  from assms obtain rules r where "bt_get ix bucket = Some rules"
    "find (\<lambda>r. rule_permits r origin meth) rules = Some r" "m = cors_match_of r origin"
    by (auto simp: match_cors_def match_cors_rules_find bind_eq_Some_conv)
  moreover from this(2) have "r \<in> set rules" "rule_permits r origin meth"
    by (auto simp: find_Some_iff)
  ultimately show ?thesis
    by (intro exI [of _ r] exI [of _ rules])
      (auto simp: cors_match_of_def resolve_origin_def list_ex_iff)
qed

lemma find_weaken: "find (\<lambda>x. P x \<and> Q x) xs \<noteq> None \<Longrightarrow> find P xs \<noteq> None"
  by (auto simp: find_None_iff)

lemma preflight_implies_cors:
  assumes "match_preflight ix bucket origin meth hdrs \<noteq> None"
  shows "match_cors ix bucket origin meth \<noteq> None"
proof -
  from assms obtain rules where rules: "bt_get ix bucket = Some rules"
    and "find (\<lambda>r. rule_permits r origin meth \<and> headers_allowed (cr_allowed_headers r) hdrs) rules
           \<noteq> None"
    by (auto simp: match_preflight_def match_preflight_rules_find bind_eq_Some_conv)
  from find_weaken [OF this(2)] rules show ?thesis
    by (simp add: match_cors_def match_cors_rules_find)
qed

lemma no_rules_no_match: "cors_get_rules ix bucket = None \<Longrightarrow> match_cors ix bucket origin meth = None"
  by (simp add: cors_get_rules_def match_cors_def)

end
