(* ===== verification/S3_Service.thy ===== *)
theory S3_Service
  imports S3_Store S3_Checksums S3_Validation S3_Cors
begin

text \<open>
  The service state of \<^verbatim>\<open>rustack-s3-core/src/state/service.rs\<close> and \<^verbatim>\<open>state/bucket.rs\<close>, and the bucket
  handlers of \<^verbatim>\<open>ops/bucket.rs\<close> with the versioning handlers of \<^verbatim>\<open>ops/bucket_config.rs\<close>. A handler
  is a function from the world to its result and the new world; \<open>now\<close> is the clock it reads and
  \<open>fresh\<close> what the UUID generator returns. The optional bucket configurations that the object
  operations never read are opaque serialized values.
\<close>

datatype versioning_status = Disabled | Enabled | Suspended

record default_retention =
  dr_mode :: string
  dr_days :: "int option"
  dr_years :: "int option"

record bucket_configs =
  bc_encryption :: "string option"
  bc_lifecycle :: "string option"
  bc_policy :: "string option"
  bc_notification :: "string option"
  bc_logging :: "string option"
  bc_public_access_block :: "string option"
  bc_ownership_controls :: "string option"
  bc_accelerate :: "string option"
  bc_request_payment :: string
  bc_website :: "string option"

record s3_bucket =
  bk_name :: string
  bk_region :: string
  bk_creation_date :: nat
  bk_owner :: s3_owner
  bk_objects :: object_store
  bk_uploads :: "(string, multipart_upload) btree"
  bk_versioning :: versioning_status
  bk_cors_rules :: "cors_rule list option"
  bk_tags :: "(string \<times> string) list"
  bk_acl :: canned_acl
  bk_lock_enabled :: bool
  bk_lock_config :: "default_retention option option"
  bk_configs :: bucket_configs

definition default_configs :: bucket_configs where
  "default_configs = \<lparr>
     bc_encryption = None, bc_lifecycle = None, bc_policy = None, bc_notification = None,
     bc_logging = None, bc_public_access_block = None, bc_ownership_controls = None,
     bc_accelerate = None, bc_request_payment = ''BucketOwner'', bc_website = None\<rparr>"

definition bucket_new :: "nat \<Rightarrow> string \<Rightarrow> string \<Rightarrow> s3_owner \<Rightarrow> s3_bucket" where
  "bucket_new now nm region own = \<lparr>
     bk_name = nm, bk_region = region, bk_creation_date = now, bk_owner = own,
     bk_objects = os_default, bk_uploads = [], bk_versioning = Disabled, bk_cors_rules = None,
     bk_tags = [], bk_acl = AclPrivate, bk_lock_enabled = False, bk_lock_config = None,
     bk_configs = default_configs\<rparr>"

definition bucket_is_empty :: "s3_bucket \<Rightarrow> bool" where
  "bucket_is_empty b \<longleftrightarrow> os_is_empty (bk_objects b) \<and> bk_uploads b = []"

definition is_versioning_enabled :: "s3_bucket \<Rightarrow> bool" where
  "is_versioning_enabled b \<longleftrightarrow> bk_versioning b = Enabled"

definition enable_versioning :: "s3_bucket \<Rightarrow> s3_bucket" where
  "enable_versioning b =
     (if bk_versioning b \<noteq> Enabled
      then b\<lparr>bk_objects := os_transition_to_versioned (bk_objects b), bk_versioning := Enabled\<rparr>
      else b)"

definition suspend_versioning :: "s3_bucket \<Rightarrow> s3_bucket" where
  "suspend_versioning b =
     (if bk_versioning b = Enabled then b\<lparr>bk_versioning := Suspended\<rparr> else b)"

section \<open>The world\<close>

record s3_world =
  sw_buckets :: "(string, s3_bucket) btree"
  sw_owners :: "(string, string) btree"
  sw_storage :: body_storage
  sw_cors :: cors_index

definition empty_world :: "nat \<Rightarrow> s3_world" where
  "empty_world max_memory_size =
     \<lparr>sw_buckets = [], sw_owners = [], sw_storage = bs_new max_memory_size, sw_cors = []\<rparr>"

definition get_bucket :: "s3_world \<Rightarrow> string \<Rightarrow> s3_error + s3_bucket" where
  "get_bucket w nm = ok_or (NoSuchBucket nm) (bt_get (sw_buckets w) nm)"

text \<open>The update of one bucket in place, through its locks.\<close>

definition set_bucket :: "string \<Rightarrow> s3_bucket \<Rightarrow> s3_world \<Rightarrow> s3_world" where
  "set_bucket nm b w = w\<lparr>sw_buckets := bt_insert nm b (sw_buckets w)\<rparr>"

definition set_objects :: "string \<Rightarrow> s3_bucket \<Rightarrow> object_store \<Rightarrow> s3_world \<Rightarrow> s3_world" where
  "set_objects nm b st w = set_bucket nm (b\<lparr>bk_objects := st\<rparr>) w"

definition create_bucket ::
  "nat \<Rightarrow> string \<Rightarrow> string \<Rightarrow> s3_owner \<Rightarrow> s3_world \<Rightarrow> (s3_error + unit) \<times> s3_world" where
  "create_bucket now nm region own w =
     (case bt_get (sw_owners w) nm of
        Some existing_owner \<Rightarrow>
          (Inl (if existing_owner = owner_id own then BucketAlreadyOwnedByYou nm
                else BucketAlreadyExists nm), w)
      | None \<Rightarrow>
          (Inr (), w\<lparr>sw_buckets := bt_insert nm (bucket_new now nm region own) (sw_buckets w),
                     sw_owners := bt_insert nm (owner_id own) (sw_owners w)\<rparr>))"

definition delete_bucket :: "string \<Rightarrow> s3_world \<Rightarrow> (s3_error + unit) \<times> s3_world" where
  "delete_bucket nm w =
     (case get_bucket w nm of
        Inl e \<Rightarrow> (Inl e, w)
      | Inr b \<Rightarrow>
          if \<not> bucket_is_empty b then (Inl (BucketNotEmpty nm), w)
          else (Inr (), w\<lparr>sw_buckets := bt_remove nm (sw_buckets w),
                          sw_owners := bt_remove nm (sw_owners w)\<rparr>))"

definition list_buckets :: "s3_world \<Rightarrow> (string \<times> nat) list" where
  "list_buckets w =
     sort_key fst (map (\<lambda>e. (fst e, bk_creation_date (snd e))) (sw_buckets w))"

definition bucket_exists :: "s3_world \<Rightarrow> string \<Rightarrow> bool" where
  "bucket_exists w nm \<longleftrightarrow> bt_get (sw_buckets w) nm \<noteq> None"

definition service_reset :: "s3_world \<Rightarrow> s3_world" where
  "service_reset w = w\<lparr>sw_buckets := [], sw_owners := []\<rparr>"

definition insert_snapshot_bucket :: "s3_bucket \<Rightarrow> s3_world \<Rightarrow> s3_world" where
  "insert_snapshot_bucket b w =
     w\<lparr>sw_buckets := bt_insert (bk_name b) b (sw_buckets w),
       sw_owners := bt_insert (bk_name b) (owner_id (bk_owner b)) (sw_owners w)\<rparr>"

section \<open>Bucket handlers\<close>

record create_bucket_input =
  cb_bucket :: string
  cb_location :: "string option"
  cb_object_lock :: "bool option"

definition handle_create_bucket ::
  "s3_env \<Rightarrow> nat \<Rightarrow> create_bucket_input \<Rightarrow> s3_world \<Rightarrow> (s3_error + string) \<times> s3_world" where
  "handle_create_bucket env now inp w =
     (case validate_bucket_name (cb_bucket inp) of
        Inl e \<Rightarrow> (Inl e, w)
      | Inr _ \<Rightarrow>
          (case create_bucket now (cb_bucket inp) (unwrap_or (env_region env) (cb_location inp))
                  default_owner w of
             (Inl e, w') \<Rightarrow> (Inl e, w')
           | (Inr _, w') \<Rightarrow>
               (Inr (''/'' @ cb_bucket inp),
                if unwrap_or False (cb_object_lock inp)
                then (case get_bucket w' (cb_bucket inp) of
                        Inl _ \<Rightarrow> w'
                      | Inr b \<Rightarrow>
                          set_bucket (cb_bucket inp)
                            (enable_versioning (b\<lparr>bk_lock_enabled := True\<rparr>)) w')
                else w')))"

definition handle_delete_bucket :: "string \<Rightarrow> s3_world \<Rightarrow> (s3_error + unit) \<times> s3_world" where
  "handle_delete_bucket nm w =
     delete_bucket nm
       (w\<lparr>sw_cors := cors_delete_rules nm (sw_cors w),
          sw_storage := delete_bucket_data nm (sw_storage w)\<rparr>)"

definition handle_head_bucket :: "string \<Rightarrow> s3_world \<Rightarrow> s3_error + string" where
  "handle_head_bucket nm w = res_map bk_region (get_bucket w nm)"

definition handle_get_bucket_location :: "string \<Rightarrow> s3_world \<Rightarrow> s3_error + string option" where
  "handle_get_bucket_location nm w =
     res_map (\<lambda>b. if bk_region b = ''us-east-1'' then None else Some (bk_region b)) (get_bucket w nm)"

definition handle_get_bucket_versioning :: "string \<Rightarrow> s3_world \<Rightarrow> s3_error + string option" where
  "handle_get_bucket_versioning nm w =
     res_map (\<lambda>b. case bk_versioning b of
                    Enabled \<Rightarrow> Some ''Enabled''
                  | Suspended \<Rightarrow> Some ''Suspended''
                  | Disabled \<Rightarrow> None) (get_bucket w nm)"

definition handle_put_bucket_versioning ::
  "string \<Rightarrow> string option \<Rightarrow> s3_world \<Rightarrow> (s3_error + unit) \<times> s3_world" where
  "handle_put_bucket_versioning nm status w =
     (case get_bucket w nm of
        Inl e \<Rightarrow> (Inl e, w)
      | Inr b \<Rightarrow>
          (case status of
             None \<Rightarrow> (Inr (), w)
           | Some s \<Rightarrow>
               if s = ''Enabled'' then (Inr (), set_bucket nm (enable_versioning b) w)
               else if s = ''Suspended'' then (Inr (), set_bucket nm (suspend_versioning b) w)
               else (Inl (InvalidArgument ''Invalid versioning status''), w)))"

section \<open>The invariant of the service state\<close>

text \<open>
  The two maps have the same buckets, a bucket's status says which kind of store it has, and its
  store is well-formed.
\<close>

definition bucket_wf :: "s3_bucket \<Rightarrow> bool" where
  "bucket_wf b \<longleftrightarrow> os_wf (bk_objects b)
     \<and> (os_is_versioned (bk_objects b) \<longleftrightarrow> bk_versioning b \<noteq> Disabled)"

definition world_wf :: "s3_world \<Rightarrow> bool" where
  "world_wf w \<longleftrightarrow> bt_wf (sw_buckets w) \<and> bt_wf (sw_owners w) \<and> bs_wf (sw_storage w)
     \<and> (\<forall>nm. (bt_get (sw_buckets w) nm = None) = (bt_get (sw_owners w) nm = None))
     \<and> (\<forall>nm b. bt_get (sw_buckets w) nm = Some b \<longrightarrow> bucket_wf b)"

lemma get_bucket_Inr: "get_bucket w nm = Inr b \<longleftrightarrow> bt_get (sw_buckets w) nm = Some b"
  by (simp add: get_bucket_def ok_or_def split: option.splits)

lemma get_bucket_set_bucket [simp]:
  "get_bucket (set_bucket nm b w) nm' = (if nm' = nm then Inr b else get_bucket w nm')"
  by (simp add: get_bucket_def set_bucket_def bt.get_ins)

lemma set_bucket_fields [simp]:
  "sw_storage (set_bucket nm b w) = sw_storage w" "sw_owners (set_bucket nm b w) = sw_owners w"
  "sw_cors (set_bucket nm b w) = sw_cors w"
  by (simp_all add: set_bucket_def)

lemma get_bucket_storage [simp]:
  "get_bucket (w\<lparr>sw_storage := s\<rparr>) nm = get_bucket w nm"
  "get_bucket (w\<lparr>sw_cors := c\<rparr>) nm = get_bucket w nm"
  by (simp_all add: get_bucket_def)

lemma os_wf_transition:
  assumes "os_wf st"
  shows "os_wf (os_transition_to_versioned st)"
proof (cases st)
  case (Unversioned m)
  with assms have m: "bt_wf m" "\<forall>e\<in>set m. o_key (snd e) = fst e" by (auto simp: os_wf_def ks_wf_def)
  have "bt_wf (map (\<lambda>e. (fst e, [VObject (snd e)])) m)"
    using m(1) by (simp add: bt_wf_def comp_def)
  with m(2) Unversioned transition_map [OF m(1)] show ?thesis
    by (auto simp: os_wf_def vs_wf_def)
next
  case (Versioned m)
  with assms show ?thesis by (simp add: os_transition_to_versioned_def os_wf_def)
qed

lemma bucket_wf_enable: "bucket_wf b \<Longrightarrow> bucket_wf (enable_versioning b)"
  by (cases "bk_objects b")
    (auto simp: bucket_wf_def enable_versioning_def os_wf_transition [unfolded os_is_versioned_def]
      os_transition_to_versioned_def os_is_versioned_def dest: os_wf_transition)

lemma bucket_wf_suspend: "bucket_wf b \<Longrightarrow> bucket_wf (suspend_versioning b)"
  by (auto simp: bucket_wf_def suspend_versioning_def)

lemma world_wf_bucket: "world_wf w \<Longrightarrow> get_bucket w nm = Inr b \<Longrightarrow> bucket_wf b"
  by (simp add: world_wf_def get_bucket_Inr)

lemma world_wf_set_bucket:
  "world_wf w \<Longrightarrow> get_bucket w nm = Inr b' \<Longrightarrow> bucket_wf b \<Longrightarrow> world_wf (set_bucket nm b w)"
  unfolding world_wf_def set_bucket_def get_bucket_Inr
  by (simp add: bt.get_ins bt_wf_insert) (metis option.distinct(1) option.exhaust)

lemma world_wf_storage: "world_wf w \<Longrightarrow> bs_wf s \<Longrightarrow> world_wf (w\<lparr>sw_storage := s\<rparr>)"
  by (simp add: world_wf_def)

lemma world_wf_cors: "world_wf w \<Longrightarrow> world_wf (w\<lparr>sw_cors := c\<rparr>)"
  by (simp add: world_wf_def)

lemma world_wf_empty: "world_wf (empty_world n)"
  by (simp add: world_wf_def empty_world_def bs_wf_def bs_new_def)

lemma bucket_wf_new: "bucket_wf (bucket_new now nm region own)"
  by (simp add: bucket_wf_def bucket_new_def os_default_def os_wf_def ks_wf_def os_is_versioned_def)

lemma world_wf_create:
  "world_wf w \<Longrightarrow> world_wf (snd (create_bucket now nm region own w))"
  by (auto simp: create_bucket_def world_wf_def bt_wf_insert bt.get_ins bucket_wf_new
      split: option.splits)

lemma world_wf_delete: "world_wf w \<Longrightarrow> world_wf (snd (delete_bucket nm w))"
  by (auto simp: delete_bucket_def world_wf_def bt_wf_remove bt.get_rem split: sum.splits)

lemma world_wf_handle_delete: "world_wf w \<Longrightarrow> world_wf (snd (handle_delete_bucket nm w))"
  unfolding handle_delete_bucket_def
  by (rule world_wf_delete) (auto simp: world_wf_def)

lemma world_wf_put_versioning: "world_wf w \<Longrightarrow> world_wf (snd (handle_put_bucket_versioning nm st w))"
  by (auto simp: handle_put_bucket_versioning_def split: sum.splits option.splits
      intro!: world_wf_set_bucket bucket_wf_enable bucket_wf_suspend dest: world_wf_bucket)

lemma world_wf_handle_create: "world_wf w \<Longrightarrow> world_wf (snd (handle_create_bucket env now inp w))"
proof -
  assume w: "world_wf w"
  let ?c = "create_bucket now (cb_bucket inp) (unwrap_or (env_region env) (cb_location inp))
              default_owner w"
  have c: "world_wf (snd ?c)" using w by (rule world_wf_create)
  have lock: "bucket_wf (enable_versioning (b\<lparr>bk_lock_enabled := True\<rparr>))"
    if "bucket_wf b" for b
    using that by (intro bucket_wf_enable) (simp add: bucket_wf_def)
  show ?thesis
  proof (cases "validate_bucket_name (cb_bucket inp)")
    case (Inr u)
    obtain r w' where rw: "?c = (r, w')" by (cases ?c)
    show ?thesis
      using c lock Inr rw
      by (auto simp: handle_create_bucket_def split: sum.splits
          intro!: world_wf_set_bucket dest: world_wf_bucket)
  qed (simp add: handle_create_bucket_def w)
qed

section \<open>Bucket names are owned by one account\<close>

lemma create_bucket_result:
  "fst (create_bucket now nm region own w) =
     (case bt_get (sw_owners w) nm of
        None \<Rightarrow> Inr ()
      | Some o' \<Rightarrow> Inl (if o' = owner_id own then BucketAlreadyOwnedByYou nm
                        else BucketAlreadyExists nm))"
  by (simp add: create_bucket_def split: option.splits)

lemma create_then_delete:
  assumes "world_wf w" and "create_bucket now nm region own w = (Inr (), w')"
  shows "delete_bucket nm w' = (Inr (), w)"
proof -
  from assms have o: "bt_get (sw_owners w) nm = None" and b: "bt_get (sw_buckets w) nm = None"
    by (auto simp: create_bucket_def world_wf_def split: option.splits)
  from assms o have w': "w' = w\<lparr>sw_buckets := bt_insert nm (bucket_new now nm region own) (sw_buckets w),
                     sw_owners := bt_insert nm (owner_id own) (sw_owners w)\<rparr>"
    by (simp add: create_bucket_def)
  have "get_bucket w' nm = Inr (bucket_new now nm region own)"
    by (simp add: w' get_bucket_def bt.get_ins)
  moreover have "bucket_is_empty (bucket_new now nm region own)"
    by (simp add: bucket_is_empty_def bucket_new_def os_default_def os_is_empty_def)
  ultimately show ?thesis
    using assms(1) o b
    by (simp add: delete_bucket_def w' world_wf_def bt.rem_ins bt.rem_absent)
qed

text \<open>A bucket that still holds something is never removed from the state.\<close>

lemma delete_bucket_keeps:
  "get_bucket w nm = Inr b \<Longrightarrow> \<not> bucket_is_empty b \<Longrightarrow>
     delete_bucket nm w = (Inl (BucketNotEmpty nm), w)"
  by (simp add: delete_bucket_def)

text \<open>
  The handler however deletes the stored bodies and the CORS rules of the bucket before that check:
  a refused request leaves the bucket without the bodies of its objects.
\<close>

lemma refused_delete_loses_bodies:
  assumes "world_wf w" and "get_bucket w nm = Inr b" and "\<not> bucket_is_empty b"
  shows "fst (handle_delete_bucket nm w) = Inl (BucketNotEmpty nm)"
    and "body_of (sw_storage (snd (handle_delete_bucket nm w))) (nm, k, vid) = None"
    and "get_bucket (snd (handle_delete_bucket nm w)) nm = Inr b"
proof -
  let ?w = "w\<lparr>sw_cors := cors_delete_rules nm (sw_cors w),
              sw_storage := delete_bucket_data nm (sw_storage w)\<rparr>"
  have "get_bucket ?w nm = Inr b" using assms(2) by (simp add: get_bucket_def)
  then have d: "delete_bucket nm ?w = (Inl (BucketNotEmpty nm), ?w)"
    using assms(3) by (rule delete_bucket_keeps)
  show "fst (handle_delete_bucket nm w) = Inl (BucketNotEmpty nm)"
    and "get_bucket (snd (handle_delete_bucket nm w)) nm = Inr b"
    and "body_of (sw_storage (snd (handle_delete_bucket nm w))) (nm, k, vid) = None"
    using assms(1,2) d
    by (simp_all add: handle_delete_bucket_def get_bucket_def world_wf_def delete_bucket_data_body)
qed

lemma list_buckets_names:
  "world_wf w \<Longrightarrow> map fst (list_buckets w) = bt_keys (sw_buckets w)"
proof -
  assume "world_wf w"
  then have "sorted_wrt (<) (map fst (sw_buckets w))" by (simp add: world_wf_def bt_wf_def)
  then have "sorted (map fst (map (\<lambda>e. (fst e, bk_creation_date (snd e))) (sw_buckets w)))"
    by (simp add: comp_def strict_sorted_imp_sorted)
  then show ?thesis by (simp add: list_buckets_def sorted_sort_id sort_key_id_if_sorted bt_keys_def comp_def)
qed

end
