(* ===== verification/S3_Object_Ops.thy ===== *)
theory S3_Object_Ops
  imports S3_Service
begin

text \<open>
  The object handlers of \<^verbatim>\<open>rustack-s3-core/src/ops/object.rs\<close>. Each handler runs with the locks it
  takes, so it is one step of the world. \<open>fresh\<close> is the id that the handler draws for a versioned
  bucket, \<open>fresh2\<close> the one that the keystore draws when it replaces the id \<^verbatim>\<open>"null"\<close>.
\<close>

section \<open>Requests and responses\<close>

record object_headers =
  oh_content_type :: "string option"
  oh_content_encoding :: "string option"
  oh_content_disposition :: "string option"
  oh_content_language :: "string option"
  oh_cache_control :: "string option"
  oh_expires :: "string option"
  oh_metadata :: "(string, string) btree"
  oh_sse :: "string option"
  oh_sse_kms_key_id :: "string option"
  oh_bucket_key_enabled :: "bool option"
  oh_sse_customer_algorithm :: "string option"
  oh_sse_customer_key_md5 :: "string option"
  oh_tagging :: "string option"
  oh_acl :: "string option"
  oh_lock_mode :: "string option"
  oh_lock_retain_until :: "nat option"
  oh_lock_legal_hold :: "string option"

record put_input =
  pi_bucket :: string
  pi_key :: string
  pi_body :: "string option"
  pi_content_md5 :: "string option"
  pi_checksums :: checksum_headers
  pi_storage_class :: "string option"
  pi_headers :: object_headers

record put_output =
  po_etag :: string
  po_version_id :: "string option"
  po_checksums :: checksum_headers
  po_checksum_type :: checksum_type

record response_overrides =
  ro_cache_control :: "string option"
  ro_content_disposition :: "string option"
  ro_content_encoding :: "string option"
  ro_content_language :: "string option"
  ro_content_type :: "string option"
  ro_expires :: "nat option"

record get_input =
  gi_bucket :: string
  gi_key :: string
  gi_version_id :: "string option"
  gi_if_match :: "string option"
  gi_if_none_match :: "string option"
  gi_range :: "string option"
  gi_checksum_mode :: "string option"
  gi_overrides :: response_overrides

record object_output =
  oo_body :: "string option"
  oo_content_length :: nat
  oo_content_range :: "string option"
  oo_headers :: object_headers
  oo_etag :: string
  oo_last_modified :: nat
  oo_parts_count :: "nat option"
  oo_storage_class :: string
  oo_version_id :: "string option"
  oo_checksums :: checksum_headers
  oo_checksum_type :: "checksum_type option"

record staged_read =
  sr_upload :: staged_upload
  sr_offset :: nat
  sr_length :: nat

section \<open>Helpers\<close>

definition lookup_object :: "object_store \<Rightarrow> string \<Rightarrow> string option \<Rightarrow> s3_error + s3_object" where
  "lookup_object st k version_id =
     (case (case version_id of Some vid \<Rightarrow> os_get_version st k vid | None \<Rightarrow> os_get st k) of
        Some ob \<Rightarrow> Inr ob
      | None \<Rightarrow>
          (case os_delete_marker st k version_id of
             Some dm \<Rightarrow> Inl (DeleteMarkerError (version_id \<noteq> None) dm)
           | None \<Rightarrow>
               (case version_id of
                  Some vid \<Rightarrow> Inl (NoSuchVersion k vid)
                | None \<Rightarrow> Inl (NoSuchKey k))))"

definition check_object_lock_for_delete ::
  "nat \<Rightarrow> object_store \<Rightarrow> string \<Rightarrow> string \<Rightarrow> bool \<Rightarrow> s3_error + unit" where
  "check_object_lock_for_delete now st k version_id bypass_governance =
     (case os_get_version st k version_id of
        None \<Rightarrow> Inr ()
      | Some ob \<Rightarrow>
          if md_lock_legal_hold (o_metadata ob) = Some True
          then Inl (AccessDenied ''Object Lock legal hold is enabled on this object'')
          else (case md_lock_retain_until (o_metadata ob) of
                  None \<Rightarrow> Inr ()
                | Some retain_until \<Rightarrow>
                    if retain_until > now
                    then (if md_lock_mode (o_metadata ob) = Some ''GOVERNANCE'' \<and> bypass_governance
                          then Inr ()
                          else Inl (AccessDenied ''Object Lock retention period has not expired''))
                    else Inr ()))"

definition parse_acl :: "string option \<Rightarrow> canned_acl" where
  "parse_acl acl =
     (case acl of
        None \<Rightarrow> AclPrivate
      | Some a \<Rightarrow> (case canned_acl_from_str a of Inl _ \<Rightarrow> AclPrivate | Inr c \<Rightarrow> c))"

definition build_metadata :: "s3_env \<Rightarrow> object_headers \<Rightarrow> object_metadata" where
  "build_metadata env h = \<lparr>
     md_content_type = oh_content_type h, md_content_encoding = oh_content_encoding h,
     md_content_disposition = oh_content_disposition h,
     md_content_language = oh_content_language h, md_cache_control = oh_cache_control h,
     md_expires = oh_expires h, md_user_metadata = oh_metadata h, md_sse_algorithm = oh_sse h,
     md_sse_kms_key_id = oh_sse_kms_key_id h, md_sse_bucket_key_enabled = oh_bucket_key_enabled h,
     md_sse_customer_algorithm = oh_sse_customer_algorithm h,
     md_sse_customer_key_md5 = oh_sse_customer_key_md5 h,
     md_tagging = (case oh_tagging h of
                     None \<Rightarrow> [] | Some t \<Rightarrow> parse_tagging_header (env_pct_dec env) t),
     md_acl = parse_acl (oh_acl h), md_lock_mode = oh_lock_mode h,
     md_lock_retain_until = oh_lock_retain_until h,
     md_lock_legal_hold = map_option (\<lambda>s. s = ''ON'') (oh_lock_legal_hold h)\<rparr>"

definition build_metadata_for_copy :: "s3_env \<Rightarrow> object_headers \<Rightarrow> object_metadata" where
  "build_metadata_for_copy env h = (build_metadata env h)\<lparr>md_expires := None\<rparr>"

definition real_version_id :: "string \<Rightarrow> string option" where
  "real_version_id vid = (if vid = ''null'' then None else Some vid)"

definition new_version_id :: "s3_bucket \<Rightarrow> string \<Rightarrow> string" where
  "new_version_id b fresh = (if is_versioning_enabled b then fresh else ''null'')"

section \<open>PutObject\<close>

text \<open>
  Everything that can refuse the request comes before the body is published: \<open>put_checks\<close> returns
  the bucket, the metadata and the checksum to record.
\<close>

definition put_body :: "put_input \<Rightarrow> staged_upload option \<Rightarrow> string" where
  "put_body inp upload =
     (case upload of Some u \<Rightarrow> su_data u | None \<Rightarrow> unwrap_or [] (pi_body inp))"

definition put_checks ::
  "s3_env \<Rightarrow> put_input \<Rightarrow> staged_upload option \<Rightarrow> s3_world
     \<Rightarrow> s3_error + (s3_bucket \<times> object_metadata \<times> checksum_data)" where
  "put_checks env inp upload w =
     res_bind (validate_object_key (pi_key inp)) (\<lambda>_.
     res_bind (get_bucket w (pi_bucket inp)) (\<lambda>b.
     res_bind (case upload of
                 Some u \<Rightarrow> staged_validate_md5 env u (pi_content_md5 inp)
               | None \<Rightarrow> validate_content_md5 (env_b64_dec env) (dg_md5 (env_dg env))
                           (pi_content_md5 inp) (put_body inp upload)) (\<lambda>_.
     let meta = build_metadata env (pi_headers inp) in
     res_bind (validate_metadata (md_user_metadata meta)) (\<lambda>_.
     res_bind (extract_checksum (pi_checksums inp)) (\<lambda>client.
       case client of
         Some c \<Rightarrow> res_bind (verify_checksum env (put_body inp upload) c) (\<lambda>_. Inr (b, meta, c))
       | None \<Rightarrow>
           Inr (b, meta, \<lparr>ck_algorithm = ''CRC32'',
                          ck_value = compute_checksum env Crc32 (put_body inp upload),
                          ck_type = ''FULL_OBJECT''\<rparr>))))))"

definition write_body ::
  "s3_env \<Rightarrow> string \<Rightarrow> string \<Rightarrow> string \<Rightarrow> staged_upload option \<Rightarrow> string \<Rightarrow> body_storage
     \<Rightarrow> write_result \<times> body_storage" where
  "write_body env bucket k version_id upload data s =
     (case upload of
        Some u \<Rightarrow> write_staged_object bucket k version_id u s
      | None \<Rightarrow> write_object (env_dg env) bucket k version_id data s)"

definition put_object_body ::
  "s3_env \<Rightarrow> nat \<Rightarrow> string \<Rightarrow> string \<Rightarrow> put_input \<Rightarrow> staged_upload option \<Rightarrow> s3_world
     \<Rightarrow> (s3_error + put_output) \<times> s3_world" where
  "put_object_body env now fresh fresh2 inp upload w =
     (case put_checks env inp upload w of
        Inl e \<Rightarrow> (Inl e, w)
      | Inr (b, meta, cksum) \<Rightarrow>
          (let bucket = pi_bucket inp; k = pi_key inp;
               version_id = new_version_id b fresh;
               (wr, storage) =
                 write_body env bucket k version_id upload (put_body inp upload) (sw_storage w);
               ob = \<lparr>o_key = k, o_version_id = version_id, o_etag = wr_etag wr, o_size = wr_size wr,
                     o_last_modified = now,
                     o_storage_class = unwrap_or ''STANDARD'' (pi_storage_class inp),
                     o_metadata = meta, o_owner = default_owner, o_checksum = Some cksum,
                     o_parts_count = None, o_part_etags = []\<rparr>;
               st = snd (os_put fresh2 ob (bk_objects b))
           in (Inr \<lparr>po_etag = wr_etag wr, po_version_id = real_version_id version_id,
                    po_checksums = checksum_to_output_fields (Some cksum),
                    po_checksum_type = checksum_type_of cksum\<rparr>,
               set_objects bucket b st (w\<lparr>sw_storage := storage\<rparr>))))"

definition handle_put_object where
  "handle_put_object env now fresh fresh2 inp w = put_object_body env now fresh fresh2 inp None w"

definition handle_put_object_staged where
  "handle_put_object_staged env now fresh fresh2 inp upload w =
     put_object_body env now fresh fresh2 inp (Some upload) w"

section \<open>GetObject and HeadObject\<close>

definition or_else :: "'a option \<Rightarrow> 'a option \<Rightarrow> 'a option" where
  "or_else a b = (case a of Some x \<Rightarrow> Some x | None \<Rightarrow> b)"

text \<open>The response headers, the same projection in both handlers.\<close>

definition response_headers ::
  "s3_env \<Rightarrow> response_overrides \<Rightarrow> object_metadata \<Rightarrow> object_headers" where
  "response_headers env ov meta = \<lparr>
     oh_content_type = or_else (ro_content_type ov)
       (Some (unwrap_or ''binary/octet-stream'' (md_content_type meta))),
     oh_content_encoding = or_else (ro_content_encoding ov) (md_content_encoding meta),
     oh_content_disposition = or_else (ro_content_disposition ov) (md_content_disposition meta),
     oh_content_language = or_else (ro_content_language ov) (md_content_language meta),
     oh_cache_control = or_else (ro_cache_control ov) (md_cache_control meta),
     oh_expires = map_option (env_rfc2822 env) (ro_expires ov),
     oh_metadata = md_user_metadata meta, oh_sse = md_sse_algorithm meta,
     oh_sse_kms_key_id = md_sse_kms_key_id meta, oh_bucket_key_enabled = None,
     oh_sse_customer_algorithm = md_sse_customer_algorithm meta,
     oh_sse_customer_key_md5 = md_sse_customer_key_md5 meta, oh_tagging = None, oh_acl = None,
     oh_lock_mode = md_lock_mode meta, oh_lock_retain_until = md_lock_retain_until meta,
     oh_lock_legal_hold =
       (if md_lock_legal_hold meta = Some True then Some ''ON'' else None)\<rparr>"

definition check_conditions :: "get_input \<Rightarrow> s3_object \<Rightarrow> s3_error + unit" where
  "check_conditions inp ob =
     res_bind
       (case gi_if_match inp of
          Some c \<Rightarrow> if \<not> is_valid_if_match (o_etag ob) c then Inl PreconditionFailed else Inr ()
        | None \<Rightarrow> Inr ())
       (\<lambda>_. case gi_if_none_match inp of
          Some c \<Rightarrow> if \<not> is_valid_if_none_match (o_etag ob) c then Inl NotModified else Inr ()
        | None \<Rightarrow> Inr ())"

definition content_range :: "nat \<times> nat \<Rightarrow> nat \<Rightarrow> string" where
  "content_range r sz =
     ''bytes '' @ show_nat (fst r) @ ''-'' @ show_nat (snd r) @ ''/'' @ show_nat sz"

definition project_output ::
  "s3_env \<Rightarrow> get_input \<Rightarrow> s3_object \<Rightarrow> string option \<Rightarrow> nat \<Rightarrow> (nat \<times> nat) option \<Rightarrow> object_output" where
  "project_output env inp ob body len rng =
     (let cksum = (if gi_checksum_mode inp = Some ''ENABLED'' \<and> rng = None
                   then o_checksum ob else None)
      in \<lparr>oo_body = body, oo_content_length = len,
          oo_content_range = map_option (\<lambda>r. content_range r (o_size ob)) rng,
          oo_headers = response_headers env (gi_overrides inp) (o_metadata ob),
          oo_etag = o_etag ob, oo_last_modified = o_last_modified ob,
          oo_parts_count = o_parts_count ob, oo_storage_class = o_storage_class ob,
          oo_version_id = real_version_id (o_version_id ob),
          oo_checksums = checksum_to_output_fields cksum,
          oo_checksum_type = map_option checksum_type_of cksum\<rparr>)"

definition get_object_body ::
  "s3_env \<Rightarrow> get_input \<Rightarrow> bool \<Rightarrow> s3_world \<Rightarrow> s3_error + (object_output \<times> staged_read option)" where
  "get_object_body env inp streaming w =
     res_bind (get_bucket w (gi_bucket inp)) (\<lambda>b.
     res_bind (lookup_object (bk_objects b) (gi_key inp) (gi_version_id inp)) (\<lambda>ob.
     res_bind (check_conditions inp ob) (\<lambda>_.
     res_bind (case gi_range inp of
                 None \<Rightarrow> Inr None
               | Some r \<Rightarrow> res_map Some (parse_range_header r (o_size ob))) (\<lambda>rng.
     let staged =
       (if streaming
        then map_option
               (\<lambda>u. \<lparr>sr_upload = u,
                     sr_offset = (case rng of None \<Rightarrow> 0 | Some (lo, hi) \<Rightarrow> lo),
                     sr_length = (case rng of None \<Rightarrow> o_size ob | Some (lo, hi) \<Rightarrow> hi - lo + 1)\<rparr>)
               (staged_object (sw_storage w) (gi_bucket inp) (gi_key inp) (o_version_id ob))
        else None)
     in case staged of
          Some sr \<Rightarrow>
            if sr_length sr \<ge> 2 ^ 63 then Inl InvalidRange
            else Inr (project_output env inp ob None (sr_length sr) rng, Some sr)
        | None \<Rightarrow>
            res_bind (read_object UPSTREAM_BODY_LIMIT (sw_storage w) (gi_bucket inp) (gi_key inp)
                        (o_version_id ob) rng) (\<lambda>data.
            Inr (project_output env inp ob (Some data) (length data) rng, None))))))"

definition handle_get_object :: "s3_env \<Rightarrow> get_input \<Rightarrow> s3_world \<Rightarrow> s3_error + object_output" where
  "handle_get_object env inp w = res_map fst (get_object_body env inp False w)"

definition handle_get_object_streaming where
  "handle_get_object_streaming env inp w = get_object_body env inp True w"

definition handle_head_object :: "s3_env \<Rightarrow> get_input \<Rightarrow> s3_world \<Rightarrow> s3_error + object_output" where
  "handle_head_object env inp w =
     res_bind (get_bucket w (gi_bucket inp)) (\<lambda>b.
     res_bind (lookup_object (bk_objects b) (gi_key inp) (gi_version_id inp)) (\<lambda>ob.
     Inr (project_output env inp ob None (o_size ob) None)))"

section \<open>DeleteObject and DeleteObjects\<close>

record delete_output =
  do_delete_marker :: "bool option"
  do_version_id :: "string option"

text \<open>
  The two arms that both handlers share: the deletion of one version, guarded by Object Lock, and
  the deletion without a version id.
\<close>

definition delete_one_version ::
  "nat \<Rightarrow> string \<Rightarrow> string \<Rightarrow> string \<Rightarrow> bool \<Rightarrow> object_store \<Rightarrow> body_storage
     \<Rightarrow> (s3_error + object_version option) \<times> object_store \<times> body_storage" where
  "delete_one_version now bucket k vid bypass st s =
     (case check_object_lock_for_delete now st k vid bypass of
        Inl e \<Rightarrow> (Inl e, st, s)
      | Inr _ \<Rightarrow>
          (case os_delete_version k vid st of
             (removed, st') \<Rightarrow>
               (Inr removed, st',
                case removed of
                  None \<Rightarrow> s
                | Some v \<Rightarrow> delete_object_body bucket k (ov_version_id v) s)))"

definition delete_current ::
  "nat \<Rightarrow> string \<Rightarrow> string \<Rightarrow> string \<Rightarrow> object_store \<Rightarrow> body_storage
     \<Rightarrow> string option \<times> object_store \<times> body_storage" where
  "delete_current now fresh bucket k st s =
     (case os_delete_versioned fresh now k default_owner st of
        ((dm_id, had), st') \<Rightarrow>
          (dm_id, st', if dm_id = None then delete_object_body bucket k ''null'' s else s))"

definition handle_delete_object ::
  "nat \<Rightarrow> string \<Rightarrow> string \<Rightarrow> string \<Rightarrow> string option \<Rightarrow> bool option \<Rightarrow> s3_world
     \<Rightarrow> (s3_error + delete_output) \<times> s3_world" where
  "handle_delete_object now fresh bucket k version_id bypass w =
     (case get_bucket w bucket of
        Inl e \<Rightarrow> (Inl e, w)
      | Inr b \<Rightarrow>
          (case version_id of
             Some vid \<Rightarrow>
               (case delete_one_version now bucket k vid (unwrap_or False bypass) (bk_objects b)
                       (sw_storage w) of
                  (Inl e, st, s) \<Rightarrow> (Inl e, w)
                | (Inr removed, st, s) \<Rightarrow>
                    (Inr \<lparr>do_delete_marker =
                            (case removed of
                               Some v \<Rightarrow> if ov_is_delete_marker v then Some True else None
                             | None \<Rightarrow> None),
                          do_version_id = map_option ov_version_id removed\<rparr>,
                     set_objects bucket b st (w\<lparr>sw_storage := s\<rparr>)))
           | None \<Rightarrow>
               (case delete_current now fresh bucket k (bk_objects b) (sw_storage w) of
                  (dm_id, st, s) \<Rightarrow>
                    (Inr \<lparr>do_delete_marker = (if dm_id \<noteq> None then Some True else None),
                          do_version_id = dm_id\<rparr>,
                     set_objects bucket b st (w\<lparr>sw_storage := s\<rparr>)))))"

record deleted_object =
  del_key :: string
  del_version_id :: "string option"
  del_delete_marker :: "bool option"
  del_marker_version_id :: "string option"

record delete_failure =
  df_key :: string
  df_version_id :: string
  df_error :: s3_error

text \<open>The loop of \<^verbatim>\<open>delete_objects\<close>; each object has the id its delete marker would get.\<close>

fun delete_objects_loop ::
  "nat \<Rightarrow> string \<Rightarrow> bool \<Rightarrow> (string \<times> string option \<times> string) list \<Rightarrow> object_store \<Rightarrow> body_storage
     \<Rightarrow> deleted_object list \<Rightarrow> delete_failure list
     \<Rightarrow> (deleted_object list \<times> delete_failure list) \<times> object_store \<times> body_storage" where
  "delete_objects_loop now bucket bypass [] st s del errs = ((del, errs), st, s)"
| "delete_objects_loop now bucket bypass ((k, version_id, fresh) # ids) st s del errs =
     (case version_id of
        Some vid \<Rightarrow>
          (case delete_one_version now bucket k vid bypass st s of
             (Inl e, st', s') \<Rightarrow>
               delete_objects_loop now bucket bypass ids st s del
                 (errs @ [\<lparr>df_key = k, df_version_id = vid, df_error = e\<rparr>])
           | (Inr removed, st', s') \<Rightarrow>
               (let is_dm = (case removed of Some v \<Rightarrow> ov_is_delete_marker v | None \<Rightarrow> False) in
                delete_objects_loop now bucket bypass ids st' s'
                  (del @ [\<lparr>del_key = k, del_version_id = Some vid,
                           del_delete_marker = (if is_dm then Some True else None),
                           del_marker_version_id = (if is_dm then Some vid else None)\<rparr>]) errs))
      | None \<Rightarrow>
          (case delete_current now fresh bucket k st s of
             (dm_id, st', s') \<Rightarrow>
               delete_objects_loop now bucket bypass ids st' s'
                 (del @ [\<lparr>del_key = k, del_version_id = dm_id,
                          del_delete_marker = map_option (\<lambda>_. True) dm_id,
                          del_marker_version_id = dm_id\<rparr>]) errs))"

definition handle_delete_objects ::
  "nat \<Rightarrow> string \<Rightarrow> (string \<times> string option \<times> string) list \<Rightarrow> bool option \<Rightarrow> bool option \<Rightarrow> s3_world
     \<Rightarrow> (s3_error + (deleted_object list \<times> delete_failure list)) \<times> s3_world" where
  "handle_delete_objects now bucket ids quiet bypass w =
     (case get_bucket w bucket of
        Inl e \<Rightarrow> (Inl e, w)
      | Inr b \<Rightarrow>
          (case delete_objects_loop now bucket (unwrap_or False bypass) ids (bk_objects b)
                  (sw_storage w) [] [] of
             ((del, errs), st, s) \<Rightarrow>
               (Inr (if unwrap_or False quiet then [] else del, errs),
                set_objects bucket b st (w\<lparr>sw_storage := s\<rparr>))))"

section \<open>CopyObject\<close>

record copy_input =
  ci_bucket :: string
  ci_key :: string
  ci_copy_source :: string
  ci_replace_metadata :: bool
  ci_storage_class :: "string option"
  ci_headers :: object_headers

record copy_output =
  co_etag :: string
  co_last_modified :: nat
  co_source_version_id :: "string option"
  co_version_id :: "string option"

definition copy_source_object ::
  "s3_world \<Rightarrow> string \<Rightarrow> string \<Rightarrow> string option \<Rightarrow> s3_error + s3_object" where
  "copy_source_object w src_bucket src_key version_id =
     res_bind (get_bucket w src_bucket) (\<lambda>b.
       case version_id of
         Some vid \<Rightarrow> ok_or (NoSuchVersion src_key vid) (os_get_version (bk_objects b) src_key vid)
       | None \<Rightarrow> ok_or (NoSuchKey src_key) (os_get (bk_objects b) src_key))"

definition handle_copy_object ::
  "s3_env \<Rightarrow> nat \<Rightarrow> string \<Rightarrow> string \<Rightarrow> copy_input \<Rightarrow> s3_world
     \<Rightarrow> (s3_error + copy_output) \<times> s3_world" where
  "handle_copy_object env now fresh fresh2 inp w =
     (case res_bind (validate_object_key (ci_key inp)) (\<lambda>_.
           res_bind (parse_copy_source (env_pct_dec env) (ci_copy_source inp)) (\<lambda>(sb, sk, sv).
           res_bind (copy_source_object w sb sk sv) (\<lambda>src.
           res_bind (get_bucket w (ci_bucket inp)) (\<lambda>b. Inr (sb, sk, sv, src, b))))) of
        Inl e \<Rightarrow> (Inl e, w)
      | Inr (sb, sk, sv, src, b) \<Rightarrow>
          (let version_id = new_version_id b fresh in
           case copy_object_body (env_dg env) UPSTREAM_BODY_LIMIT (sb, sk, o_version_id src)
                  (ci_bucket inp, ci_key inp, version_id) (sw_storage w) of
             (Inl e, s) \<Rightarrow> (Inl InternalError, w\<lparr>sw_storage := s\<rparr>)
           | (Inr wr, s) \<Rightarrow>
               (let ob = \<lparr>o_key = ci_key inp, o_version_id = version_id, o_etag = wr_etag wr,
                          o_size = wr_size wr, o_last_modified = now,
                          o_storage_class = unwrap_or ''STANDARD'' (ci_storage_class inp),
                          o_metadata = (if ci_replace_metadata inp
                                        then build_metadata_for_copy env (ci_headers inp)
                                        else o_metadata src),
                          o_owner = default_owner, o_checksum = o_checksum src,
                          o_parts_count = None, o_part_etags = []\<rparr>
                in (Inr \<lparr>co_etag = wr_etag wr, co_last_modified = now,
                         co_source_version_id = sv,
                         co_version_id = real_version_id version_id\<rparr>,
                    set_objects (ci_bucket inp) b (snd (os_put fresh2 ob (bk_objects b)))
                      (w\<lparr>sw_storage := s\<rparr>)))))"

end
