(* ===== verification/S3_Object_Config.thy ===== *)
theory S3_Object_Config
  imports S3_Object_Ops
begin

text \<open>
  The handlers of \<^verbatim>\<open>rustack-s3-core/src/ops/object_config.rs\<close>: tags, ACL, retention and legal hold
  of an object version. Tags and ACL are changed by putting a modified copy of the object, retention
  and legal hold in place.
\<close>

text \<open>The lookup that every handler starts with.\<close>

definition find_object :: "object_store \<Rightarrow> string \<Rightarrow> string option \<Rightarrow> s3_error + s3_object" where
  "find_object st k version_id =
     (case version_id of
        Some vid \<Rightarrow> ok_or (NoSuchVersion k vid) (os_get_version st k vid)
      | None \<Rightarrow> ok_or (NoSuchKey k) (os_get st k))"

text \<open>\<^verbatim>\<open>get_version_mut\<close> or \<^verbatim>\<open>get_mut\<close>, and the assignments through the reference.\<close>

definition update_object ::
  "object_store \<Rightarrow> string \<Rightarrow> string option \<Rightarrow> (s3_object \<Rightarrow> s3_object) \<Rightarrow> object_store option" where
  "update_object st k version_id f =
     (case version_id of
        Some vid \<Rightarrow> os_update_version k vid f st
      | None \<Rightarrow> os_update k f st)"

definition update_metadata :: "(object_metadata \<Rightarrow> object_metadata) \<Rightarrow> s3_object \<Rightarrow> s3_object" where
  "update_metadata f ob = ob\<lparr>o_metadata := f (o_metadata ob)\<rparr>"

section \<open>Tags\<close>

definition handle_get_object_tagging ::
  "string \<Rightarrow> string \<Rightarrow> string option \<Rightarrow> s3_world
     \<Rightarrow> s3_error + ((string \<times> string) list \<times> string option)" where
  "handle_get_object_tagging bucket k version_id w =
     res_bind (get_bucket w bucket) (\<lambda>b.
     res_map (\<lambda>ob. (md_tagging (o_metadata ob), real_version_id (o_version_id ob)))
       (find_object (bk_objects b) k version_id))"

definition put_updated ::
  "string \<Rightarrow> string \<Rightarrow> s3_bucket \<Rightarrow> s3_object \<Rightarrow> s3_world \<Rightarrow> s3_world" where
  "put_updated fresh2 bucket b ob w = set_objects bucket b (snd (os_put fresh2 ob (bk_objects b))) w"

definition handle_put_object_tagging ::
  "string \<Rightarrow> string \<Rightarrow> string \<Rightarrow> string option \<Rightarrow> (string \<times> string) list \<Rightarrow> s3_world
     \<Rightarrow> (s3_error + string option) \<times> s3_world" where
  "handle_put_object_tagging fresh2 bucket k version_id tags w =
     (case res_bind (get_bucket w bucket) (\<lambda>b.
           res_bind (validate_tags tags) (\<lambda>_.
           res_bind (find_object (bk_objects b) k version_id) (\<lambda>ob. Inr (b, ob)))) of
        Inl e \<Rightarrow> (Inl e, w)
      | Inr (b, ob) \<Rightarrow>
          (Inr version_id,
           put_updated fresh2 bucket b (update_metadata (\<lambda>m. m\<lparr>md_tagging := tags\<rparr>) ob) w))"

definition handle_delete_object_tagging ::
  "string \<Rightarrow> string \<Rightarrow> string \<Rightarrow> string option \<Rightarrow> s3_world \<Rightarrow> (s3_error + string option) \<times> s3_world" where
  "handle_delete_object_tagging fresh2 bucket k version_id w =
     (case res_bind (get_bucket w bucket) (\<lambda>b.
           res_bind (find_object (bk_objects b) k version_id) (\<lambda>ob. Inr (b, ob))) of
        Inl e \<Rightarrow> (Inl e, w)
      | Inr (b, ob) \<Rightarrow>
          (Inr version_id,
           put_updated fresh2 bucket b (update_metadata (\<lambda>m. m\<lparr>md_tagging := []\<rparr>) ob) w))"

section \<open>ACL\<close>

text \<open>The ACL that is reported is always full control of the owner.\<close>

definition handle_get_object_acl ::
  "string \<Rightarrow> string \<Rightarrow> string option \<Rightarrow> s3_world \<Rightarrow> s3_error + s3_owner" where
  "handle_get_object_acl bucket k version_id w =
     res_bind (get_bucket w bucket) (\<lambda>b.
     res_map o_owner (find_object (bk_objects b) k version_id))"

definition handle_put_object_acl ::
  "string \<Rightarrow> string \<Rightarrow> string \<Rightarrow> string option \<Rightarrow> string option \<Rightarrow> s3_world
     \<Rightarrow> (s3_error + unit) \<times> s3_world" where
  "handle_put_object_acl fresh2 bucket k version_id acl w =
     (case get_bucket w bucket of
        Inl e \<Rightarrow> (Inl e, w)
      | Inr b \<Rightarrow>
          (case acl of
             None \<Rightarrow> (Inr (), w)
           | Some a \<Rightarrow>
               (case canned_acl_from_str a of
                  Inl _ \<Rightarrow> (Inl (InvalidArgument ''Invalid canned ACL''), w)
                | Inr c \<Rightarrow>
                    (case find_object (bk_objects b) k version_id of
                       Inl e \<Rightarrow> (Inl e, w)
                     | Inr ob \<Rightarrow>
                         (Inr (), put_updated fresh2 bucket b
                                    (update_metadata (\<lambda>m. m\<lparr>md_acl := c\<rparr>) ob) w)))))"

section \<open>Retention\<close>

record retention =
  rt_mode :: "string option"
  rt_retain_until :: "nat option"

definition handle_get_object_retention ::
  "string \<Rightarrow> string \<Rightarrow> string option \<Rightarrow> s3_world \<Rightarrow> s3_error + (string \<times> nat)" where
  "handle_get_object_retention bucket k version_id w =
     res_bind (get_bucket w bucket) (\<lambda>b.
     res_bind (find_object (bk_objects b) k version_id) (\<lambda>ob.
       case (md_lock_mode (o_metadata ob), md_lock_retain_until (o_metadata ob)) of
         (Some mode, Some until) \<Rightarrow> Inr (mode, until)
       | _ \<Rightarrow> Inl (InvalidArgument ''No retention configuration found'')))"

text \<open>May the retention of a version be replaced? (\<^verbatim>\<open>None\<close>: the request removes it.)\<close>

definition retention_change_allowed ::
  "nat \<Rightarrow> bool \<Rightarrow> object_metadata \<Rightarrow> retention option \<Rightarrow> bool" where
  "retention_change_allowed now bypass meta new =
     (case md_lock_retain_until meta of
        None \<Rightarrow> True
      | Some current_until \<Rightarrow>
          if current_until > now
          then (let new_mode = Option.bind new rt_mode;
                    new_until = Option.bind new rt_retain_until;
                    is_shortening = (case new_until of
                                       Some u \<Rightarrow> u < current_until | None \<Rightarrow> True)
                in if md_lock_mode meta = Some ''COMPLIANCE''
                   then \<not> ((case new_mode of None \<Rightarrow> True | Some m \<Rightarrow> m \<noteq> ''COMPLIANCE'')
                           \<or> is_shortening)
                   else \<not> (is_shortening \<and> \<not> bypass))
          else True)"

definition set_retention :: "retention option \<Rightarrow> object_metadata \<Rightarrow> object_metadata" where
  "set_retention new m =
     (case new of
        Some r \<Rightarrow> m\<lparr>md_lock_mode := rt_mode r, md_lock_retain_until := rt_retain_until r\<rparr>
      | None \<Rightarrow> m\<lparr>md_lock_mode := None, md_lock_retain_until := None\<rparr>)"

definition handle_put_object_retention ::
  "nat \<Rightarrow> string \<Rightarrow> string \<Rightarrow> string option \<Rightarrow> retention option \<Rightarrow> bool option \<Rightarrow> s3_world
     \<Rightarrow> (s3_error + unit) \<times> s3_world" where
  "handle_put_object_retention now bucket k version_id new bypass w =
     (case res_bind (get_bucket w bucket) (\<lambda>b.
           res_bind (find_object (bk_objects b) k version_id) (\<lambda>ob.
           if \<not> retention_change_allowed now (unwrap_or False bypass) (o_metadata ob) new
           then Inl (AccessDenied ''Access Denied'')
           else res_map (\<lambda>st. (b, st))
                  (ok_or (case version_id of Some vid \<Rightarrow> NoSuchVersion k vid | None \<Rightarrow> NoSuchKey k)
                     (update_object (bk_objects b) k version_id
                        (update_metadata (set_retention new)))))) of
        Inl e \<Rightarrow> (Inl e, w)
      | Inr (b, st) \<Rightarrow> (Inr (), set_objects bucket b st w))"

section \<open>Legal hold\<close>

definition handle_get_object_legal_hold ::
  "string \<Rightarrow> string \<Rightarrow> string option \<Rightarrow> s3_world \<Rightarrow> s3_error + bool" where
  "handle_get_object_legal_hold bucket k version_id w =
     res_bind (get_bucket w bucket) (\<lambda>b.
     if \<not> bk_lock_enabled b then Inl ObjectLockConfigurationNotFound
     else res_map (\<lambda>ob. unwrap_or False (md_lock_legal_hold (o_metadata ob)))
            (find_object (bk_objects b) k version_id))"

definition handle_put_object_legal_hold ::
  "string \<Rightarrow> string \<Rightarrow> string option \<Rightarrow> string option \<Rightarrow> s3_world \<Rightarrow> (s3_error + unit) \<times> s3_world" where
  "handle_put_object_legal_hold bucket k version_id status w =
     (case res_bind (get_bucket w bucket) (\<lambda>b.
           if \<not> bk_lock_enabled b then Inl ObjectLockConfigurationNotFound
           else case status of
             None \<Rightarrow> Inl (MalformedXml ''Missing LegalHold status'')
           | Some s \<Rightarrow>
               res_bind (find_object (bk_objects b) k version_id) (\<lambda>_.
               res_map (\<lambda>st. (b, st))
                 (ok_or (NoSuchKey k)
                    (update_object (bk_objects b) k version_id
                       (update_metadata (\<lambda>m. m\<lparr>md_lock_legal_hold := Some (s = ''ON'')\<rparr>)))))) of
        Inl e \<Rightarrow> (Inl e, w)
      | Inr (b, st) \<Rightarrow> (Inr (), set_objects bucket b st w))"

end
