(* ===== verification/S3_Multipart.thy ===== *)
theory S3_Multipart
  imports S3_Object_Ops
begin

text \<open>
  The multipart upload handlers of \<^verbatim>\<open>rustack-s3-core/src/ops/multipart.rs\<close>. Part numbers come from
  the request as \<^verbatim>\<open>i32\<close> (\<open>int\<close>) and are recorded as \<^verbatim>\<open>u32\<close> (\<open>nat\<close>).
\<close>

definition MIN_PART_SIZE :: nat where
  "MIN_PART_SIZE = 5 * 1024 * 1024"

section \<open>CreateMultipartUpload\<close>

record create_upload_input =
  cu_bucket :: string
  cu_key :: string
  cu_storage_class :: "string option"
  cu_checksum_algorithm :: "string option"
  cu_checksum_type :: "string option"
  cu_headers :: object_headers

definition upload_checksum_type :: "string \<Rightarrow> string option \<Rightarrow> string" where
  "upload_checksum_type alg requested =
     (if alg = ''CRC64NVME'' then ''FULL_OBJECT''
      else if alg = ''SHA1'' \<or> alg = ''SHA256'' then ''COMPOSITE''
      else unwrap_or ''COMPOSITE'' requested)"

definition new_upload :: "s3_env \<Rightarrow> nat \<Rightarrow> string \<Rightarrow> create_upload_input \<Rightarrow> multipart_upload" where
  "new_upload env now upload_id inp =
     (mu_new upload_id (cu_key inp) now default_owner
        (build_metadata_for_copy env (cu_headers inp)))
     \<lparr>mu_storage_class := unwrap_or ''STANDARD'' (cu_storage_class inp),
      mu_checksum_algorithm := cu_checksum_algorithm inp,
      mu_checksum_type :=
        map_option (\<lambda>alg. upload_checksum_type alg (cu_checksum_type inp))
          (cu_checksum_algorithm inp),
      mu_sse_algorithm := oh_sse (cu_headers inp),
      mu_sse_kms_key_id := oh_sse_kms_key_id (cu_headers inp)\<rparr>"

definition set_uploads ::
  "string \<Rightarrow> s3_bucket \<Rightarrow> (string, multipart_upload) btree \<Rightarrow> s3_world \<Rightarrow> s3_world" where
  "set_uploads nm b us w = set_bucket nm (b\<lparr>bk_uploads := us\<rparr>) w"

definition handle_create_multipart_upload ::
  "s3_env \<Rightarrow> nat \<Rightarrow> string \<Rightarrow> create_upload_input \<Rightarrow> s3_world
     \<Rightarrow> (s3_error + (string \<times> string option)) \<times> s3_world" where
  "handle_create_multipart_upload env now upload_id inp w =
     (case res_bind (validate_object_key (cu_key inp)) (\<lambda>_. get_bucket w (cu_bucket inp)) of
        Inl e \<Rightarrow> (Inl e, w)
      | Inr b \<Rightarrow>
          (let u = new_upload env now upload_id inp
           in (Inr (upload_id, mu_checksum_type u),
               set_uploads (cu_bucket inp) b (bt_insert upload_id u (bk_uploads b)) w)))"

section \<open>UploadPart\<close>

record upload_part_input =
  upi_bucket :: string
  upi_key :: string
  upi_upload_id :: string
  upi_part_number :: int
  upi_body :: "string option"
  upi_content_md5 :: "string option"
  upi_checksums :: checksum_headers

definition part_body :: "upload_part_input \<Rightarrow> staged_upload option \<Rightarrow> string" where
  "part_body inp staged =
     (case staged of Some u \<Rightarrow> su_data u | None \<Rightarrow> unwrap_or [] (upi_body inp))"

text \<open>The checksum to record with the part, given the algorithm of the upload.\<close>

definition part_checksum ::
  "s3_env \<Rightarrow> string option \<Rightarrow> checksum_data option \<Rightarrow> string \<Rightarrow> s3_error + checksum_data option" where
  "part_checksum env upload_alg client body =
     (case upload_alg of
        None \<Rightarrow> Inr client
      | Some alg_str \<Rightarrow>
          (case algorithm_from_str alg_str of
             Inl _ \<Rightarrow> Inr client
           | Inr alg \<Rightarrow>
               (let computed = compute_checksum env alg body in
                res_bind
                  (case client of
                     None \<Rightarrow> Inr ()
                   | Some c \<Rightarrow>
                       if \<not> eq_ignore_ascii_case (ck_algorithm c) alg_str
                       then Inl (InvalidArgument (''Checksum algorithm mismatch: expected '' @ alg_str
                                   @ '', got '' @ ck_algorithm c))
                       else if ck_value c \<noteq> computed then Inl BadDigest
                       else Inr ())
                  (\<lambda>_. Inr (Some \<lparr>ck_algorithm = alg_str, ck_value = computed,
                                  ck_type = ''FULL_OBJECT''\<rparr>)))))"

definition upload_part_checks ::
  "s3_env \<Rightarrow> upload_part_input \<Rightarrow> staged_upload option \<Rightarrow> s3_world
     \<Rightarrow> s3_error + (s3_bucket \<times> multipart_upload \<times> checksum_data option)" where
  "upload_part_checks env inp staged w =
     res_bind (extract_checksum (upi_checksums inp)) (\<lambda>client.
     if \<not> (1 \<le> upi_part_number inp \<and> upi_part_number inp \<le> 10000)
     then Inl (InvalidArgument ''Part number must be between 1 and 10000'')
     else
     res_bind (get_bucket w (upi_bucket inp)) (\<lambda>b.
     res_bind (ok_or (NoSuchUpload (upi_upload_id inp)) (bt_get (bk_uploads b) (upi_upload_id inp)))
       (\<lambda>u.
     res_bind (case staged of
                 Some s \<Rightarrow> staged_validate_md5 env s (upi_content_md5 inp)
               | None \<Rightarrow> validate_content_md5 (env_b64_dec env) (dg_md5 (env_dg env))
                           (upi_content_md5 inp) (part_body inp staged)) (\<lambda>_.
     res_bind (case client of
                 None \<Rightarrow> Inr () | Some c \<Rightarrow> verify_checksum env (part_body inp staged) c) (\<lambda>_.
     res_map (\<lambda>ck. (b, u, ck))
       (part_checksum env (mu_checksum_algorithm u) client (part_body inp staged)))))))"

definition write_part_body ::
  "s3_env \<Rightarrow> string \<Rightarrow> string \<Rightarrow> nat \<Rightarrow> staged_upload option \<Rightarrow> string \<Rightarrow> body_storage
     \<Rightarrow> write_result \<times> body_storage" where
  "write_part_body env bucket upload_id n staged data s =
     (case staged of
        Some u \<Rightarrow> write_staged_part bucket upload_id n u s
      | None \<Rightarrow> write_part (env_dg env) bucket upload_id n data s)"

definition upload_part_body ::
  "s3_env \<Rightarrow> nat \<Rightarrow> upload_part_input \<Rightarrow> staged_upload option \<Rightarrow> s3_world
     \<Rightarrow> (s3_error + (string \<times> checksum_headers)) \<times> s3_world" where
  "upload_part_body env now inp staged w =
     (case upload_part_checks env inp staged w of
        Inl e \<Rightarrow> (Inl e, w)
      | Inr (b, u, ck) \<Rightarrow>
          (let n = nat (upi_part_number inp);
               (wr, s) = write_part_body env (upi_bucket inp) (upi_upload_id inp) n staged
                           (part_body inp staged) (sw_storage w);
               p = \<lparr>up_part_number = n, up_etag = wr_etag wr, up_size = wr_size wr,
                    up_last_modified = now, up_checksum = ck\<rparr>
           in (Inr (wr_etag wr, checksum_to_output_fields ck),
               set_uploads (upi_bucket inp) b
                 (bt_insert (upi_upload_id inp) (mu_put_part p u) (bk_uploads b))
                 (w\<lparr>sw_storage := s\<rparr>))))"

section \<open>UploadPartCopy\<close>

text \<open>
  The handler reads the source body under the version id of the request or \<^verbatim>\<open>"null"\<close>, and stores the
  part before it looks at the bucket and the upload. The cast \<^verbatim>\<open>part_number as u32\<close> wraps.
\<close>

definition u32_of_i32 :: "int \<Rightarrow> nat" where
  "u32_of_i32 n = nat (n mod 2 ^ 32)"

definition handle_upload_part_copy ::
  "s3_env \<Rightarrow> nat \<Rightarrow> string \<Rightarrow> string \<Rightarrow> int \<Rightarrow> string \<Rightarrow> s3_world
     \<Rightarrow> (s3_error + (string \<times> string option)) \<times> s3_world" where
  "handle_upload_part_copy env now bucket upload_id part_number copy_source w =
     (case parse_copy_source (env_pct_dec env) copy_source of
        Inl e \<Rightarrow> (Inl e, w)
      | Inr (sb, sk, sv) \<Rightarrow>
          (let vid = unwrap_or ''null'' sv; n = u32_of_i32 part_number in
           case (case staged_object (sw_storage w) sb sk vid of
                   Some u \<Rightarrow> Inr (write_staged_part bucket upload_id n u (sw_storage w))
                 | None \<Rightarrow>
                     res_map (\<lambda>data. write_part (env_dg env) bucket upload_id n data (sw_storage w))
                       (read_object UPSTREAM_BODY_LIMIT (sw_storage w) sb sk vid None)) of
             Inl e \<Rightarrow> (Inl e, w)
           | Inr (wr, s) \<Rightarrow>
               (case get_bucket w bucket of
                  Inl e \<Rightarrow> (Inl e, w\<lparr>sw_storage := s\<rparr>)
                | Inr b \<Rightarrow>
                    (let p = \<lparr>up_part_number = n, up_etag = wr_etag wr, up_size = wr_size wr,
                              up_last_modified = now, up_checksum = None\<rparr>
                     in (Inr (wr_etag wr, sv),
                         case bt_get (bk_uploads b) upload_id of
                           None \<Rightarrow> w\<lparr>sw_storage := s\<rparr>
                         | Some u \<Rightarrow>
                             set_uploads bucket b (bt_insert upload_id (mu_put_part p u) (bk_uploads b))
                               (w\<lparr>sw_storage := s\<rparr>))))))"

section \<open>CompleteMultipartUpload\<close>

record completed_part =
  cp_part_number :: "int option"
  cp_etag :: "string option"

text \<open>The requested parts must be in increasing order and known to the upload.\<close>

fun requested_part_numbers ::
  "multipart_upload \<Rightarrow> completed_part list \<Rightarrow> int \<Rightarrow> s3_error + nat list" where
  "requested_part_numbers u [] last_num = Inr []"
| "requested_part_numbers u (p # ps) last_num =
     res_bind (ok_or (InvalidArgument ''Part number is required'') (cp_part_number p)) (\<lambda>n.
     if n \<le> last_num then Inl InvalidPartOrder
     else if n < 0 then Inl (InvalidArgument ''Invalid part number'')
     else res_bind (ok_or InvalidPart (mu_get_part u (nat n))) (\<lambda>_.
          res_map (Cons (nat n)) (requested_part_numbers u ps n)))"

fun check_part_sizes :: "multipart_upload \<Rightarrow> nat list \<Rightarrow> s3_error + unit" where
  "check_part_sizes u [] = Inr ()"
| "check_part_sizes u (n # ns) =
     (if ns = [] then Inr ()
      else case mu_get_part u n of
        Some p \<Rightarrow> if up_size p < MIN_PART_SIZE then Inl (EntityTooSmall n (up_size p))
                  else check_part_sizes u ns
      | None \<Rightarrow> check_part_sizes u ns)"

definition final_checksum ::
  "s3_env \<Rightarrow> multipart_upload \<Rightarrow> nat list \<Rightarrow> string \<Rightarrow> checksum_data option" where
  "final_checksum env u ns assembled =
     Option.bind (mu_checksum_algorithm u) (\<lambda>alg_str.
       case algorithm_from_str alg_str of
         Inl _ \<Rightarrow> None
       | Inr alg \<Rightarrow>
           (let t = unwrap_or ''COMPOSITE'' (mu_checksum_type u);
                val = (if t = ''FULL_OBJECT'' then compute_checksum env alg assembled
                       else compute_composite_checksum env alg
                              (List.map_filter
                                 (\<lambda>n. map_option ck_value
                                        (Option.bind (mu_get_part u n) up_checksum)) ns))
            in Some \<lparr>ck_algorithm = alg_str, ck_value = val, ck_type = t\<rparr>))"

record complete_output =
  cm_etag :: string
  cm_version_id :: "string option"
  cm_checksums :: checksum_headers
  cm_checksum_type :: "checksum_type option"

definition complete_checks ::
  "string \<Rightarrow> string \<Rightarrow> completed_part list \<Rightarrow> s3_world
     \<Rightarrow> s3_error + (s3_bucket \<times> multipart_upload \<times> nat list)" where
  "complete_checks bucket upload_id parts w =
     res_bind (get_bucket w bucket) (\<lambda>b.
     res_bind (ok_or (NoSuchUpload upload_id) (bt_get (bk_uploads b) upload_id)) (\<lambda>u.
     res_bind (requested_part_numbers u parts 0) (\<lambda>ns.
     res_bind (check_part_sizes u ns) (\<lambda>_. Inr (b, u, ns)))))"

definition handle_complete_multipart_upload ::
  "s3_env \<Rightarrow> nat \<Rightarrow> string \<Rightarrow> string \<Rightarrow> string \<Rightarrow> string \<Rightarrow> string \<Rightarrow> completed_part list \<Rightarrow> s3_world
     \<Rightarrow> (s3_error + complete_output) \<times> s3_world" where
  "handle_complete_multipart_upload env now fresh fresh2 bucket k upload_id parts w =
     (case complete_checks bucket upload_id parts w of
        Inl e \<Rightarrow> (Inl e, w)
      | Inr (b, u, ns) \<Rightarrow>
          (let version_id = new_version_id b fresh in
           case complete_multipart_body (env_dg env) (env_max_body env) bucket upload_id k version_id
                  ns (sw_storage w) of
             (Inl e, s) \<Rightarrow> (Inl InternalError, w\<lparr>sw_storage := s\<rparr>)
           | (Inr (wr, md5s), s) \<Rightarrow>
               (let cksum = final_checksum env u ns
                              (unwrap_or [] (body_of s (bucket, k, version_id)));
                    ob = \<lparr>o_key = k, o_version_id = version_id, o_etag = wr_etag wr,
                          o_size = wr_size wr, o_last_modified = now,
                          o_storage_class = mu_storage_class u, o_metadata = mu_metadata u,
                          o_owner = mu_owner u, o_checksum = cksum,
                          o_parts_count = Some (length ns),
                          o_part_etags = List.map_filter cp_etag parts\<rparr>;
                    b' = b\<lparr>bk_objects := snd (os_put fresh2 ob (bk_objects b)),
                           bk_uploads := bt_remove upload_id (bk_uploads b)\<rparr>
                in (Inr \<lparr>cm_etag = wr_etag wr, cm_version_id = real_version_id version_id,
                         cm_checksums = checksum_to_output_fields cksum,
                         cm_checksum_type =
                           map_option (\<lambda>c. if ck_type c = ''FULL_OBJECT'' then FullObject
                                           else Composite) cksum\<rparr>,
                    set_bucket bucket b' (w\<lparr>sw_storage := s\<rparr>)))))"

section \<open>Abort and listings\<close>

definition handle_abort_multipart_upload ::
  "string \<Rightarrow> string \<Rightarrow> s3_world \<Rightarrow> (s3_error + unit) \<times> s3_world" where
  "handle_abort_multipart_upload bucket upload_id w =
     (case get_bucket w bucket of
        Inl e \<Rightarrow> (Inl e, w)
      | Inr b \<Rightarrow>
          (Inr (), set_uploads bucket b (bt_remove upload_id (bk_uploads b))
                     (w\<lparr>sw_storage := abort_multipart_body bucket upload_id (sw_storage w)\<rparr>)))"

record list_parts_output =
  lp_parts :: "upload_part list"
  lp_is_truncated :: bool
  lp_next_marker :: "nat option"

text \<open>\<^verbatim>\<open>max_parts as usize\<close> of a negative number is larger than any list.\<close>

definition page_limit :: "int option \<Rightarrow> nat \<Rightarrow> nat" where
  "page_limit m n = (case m of
     None \<Rightarrow> 1000 | Some i \<Rightarrow> if i < 0 then n else nat i)"

definition handle_list_parts ::
  "string \<Rightarrow> string \<Rightarrow> int option \<Rightarrow> string option \<Rightarrow> s3_world \<Rightarrow> s3_error + list_parts_output" where
  "handle_list_parts bucket upload_id max_parts marker w =
     res_bind (get_bucket w bucket) (\<lambda>b.
     res_bind (ok_or (NoSuchUpload upload_id) (bt_get (bk_uploads b) upload_id)) (\<lambda>u.
     let m = unwrap_or 0 (Option.bind marker (parse_uint 32));
         all_parts = filter (\<lambda>p. up_part_number p > m) (bt_values (mu_parts u));
         lim = page_limit max_parts (length all_parts);
         truncated = length all_parts > lim;
         page = take lim all_parts
     in Inr \<lparr>lp_parts = page, lp_is_truncated = truncated,
             lp_next_marker = (if truncated \<and> page \<noteq> [] then Some (up_part_number (last page))
                               else None)\<rparr>))"

record list_uploads_output =
  lu_uploads :: "multipart_upload list"
  lu_is_truncated :: bool
  lu_next_key_marker :: "string option"
  lu_next_upload_id_marker :: "string option"

text \<open>\<open>order\<close> is the order in which the hash map yields the uploads; the sort is stable.\<close>

definition handle_list_multipart_uploads ::
  "multipart_upload list \<Rightarrow> string \<Rightarrow> string option \<Rightarrow> int option \<Rightarrow> s3_world
     \<Rightarrow> s3_error + list_uploads_output" where
  "handle_list_multipart_uploads order bucket pre max_uploads w =
     res_bind (get_bucket w bucket) (\<lambda>b.
     let uploads = sort_key (\<lambda>u. (mu_key u, mu_initiated u))
                     (filter (\<lambda>u. starts_with (mu_key u) (unwrap_or [] pre)) order);
         lim = page_limit max_uploads (length uploads);
         truncated = length uploads > lim;
         page = take lim uploads
     in Inr \<lparr>lu_uploads = page, lu_is_truncated = truncated,
             lu_next_key_marker = (if truncated \<and> page \<noteq> [] then Some (mu_key (last page)) else None),
             lu_next_upload_id_marker =
               (if truncated \<and> page \<noteq> [] then Some (mu_upload_id (last page)) else None)\<rparr>)"

section \<open>What a completed upload contains\<close>

text \<open>The part numbers are those of the request, in its order.\<close>

lemma requested_part_numbers_are:
  "requested_part_numbers u ps l = Inr ns \<Longrightarrow> 0 \<le> l \<Longrightarrow>
     map cp_part_number ps = map (\<lambda>n. Some (int n)) ns"
proof (induction ps arbitrary: l ns)
  case (Cons p ps)
  from Cons.prems obtain n ns' where n: "cp_part_number p = Some n" "l < n"
    and rest: "requested_part_numbers u ps n = Inr ns'" and ns: "ns = nat n # ns'"
    by (auto simp: res_bind_Inr_iff ok_or_def split: option.splits if_splits elim!: res_map.elims)
  from Cons.IH [OF rest] n Cons.prems(2) ns show ?case by simp
qed simp

lemma requested_part_numbers_sorted:
  "requested_part_numbers u ps l = Inr ns \<Longrightarrow> 0 \<le> l \<Longrightarrow>
     sorted_wrt (<) ns \<and> (\<forall>n\<in>set ns. l < int n \<and> mu_get_part u n \<noteq> None)"
proof (induction ps arbitrary: l ns)
  case (Cons p ps)
  from Cons.prems(1) obtain n ns' where n: "cp_part_number p = Some n" "l < n"
    and part: "mu_get_part u (nat n) \<noteq> None"
    and rest: "requested_part_numbers u ps n = Inr ns'" and ns: "ns = nat n # ns'"
    by (auto simp: res_bind_Inr_iff ok_or_def split: option.splits if_splits elim!: res_map.elims)
  from Cons.IH [OF rest] n(2) Cons.prems(2)
  have "sorted_wrt (<) ns' \<and> (\<forall>m\<in>set ns'. n < int m \<and> mu_get_part u m \<noteq> None)" by simp
  with n(2) part ns Cons.prems(2) show ?case by force
qed simp

lemma check_part_sizes_ok:
  "check_part_sizes u ns = Inr () \<Longrightarrow> n \<in> set (butlast ns) \<Longrightarrow> mu_get_part u n = Some p \<Longrightarrow>
     MIN_PART_SIZE \<le> up_size p"
  by (induction ns) (auto split: if_splits option.splits)

end
