(* ===== verification/S3_Listing.thy ===== *)
theory S3_Listing
  imports S3_Keystore
begin

text \<open>
  What the listing operations of the keystore return, against a declarative description: which
  keys match, how they are grouped, how a page is cut off, and that following the markers from
  page to page yields every matching object once.
\<close>

section \<open>The declarative description\<close>

definition key_matches :: "string \<Rightarrow> string \<Rightarrow> string \<Rightarrow> bool" where
  "key_matches pre start_after k \<longleftrightarrow> (start_after = [] \<or> start_after < k) \<and> starts_with k pre"

text \<open>The common prefix a key is rolled up into, if the part after the prefix has the delimiter.\<close>

definition group_of :: "string \<Rightarrow> string \<Rightarrow> string \<Rightarrow> string option" where
  "group_of pre delim k =
     (if delim = [] then None
      else map_option (\<lambda>pos. pre @ take pos (drop (length pre) k) @ delim)
             (str_find delim (drop (length pre) k)))"

definition plain_objects :: "string \<Rightarrow> string \<Rightarrow> string \<Rightarrow> s3_object list \<Rightarrow> s3_object list" where
  "plain_objects pre delim start_after objs =
     filter (\<lambda>ob. key_matches pre start_after (o_key ob) \<and> group_of pre delim (o_key ob) = None) objs"

definition groups :: "string \<Rightarrow> string \<Rightarrow> string \<Rightarrow> s3_object list \<Rightarrow> string set" where
  "groups pre delim start_after objs =
     {cp. \<exists>ob\<in>set objs. key_matches pre start_after (o_key ob)
            \<and> group_of pre delim (o_key ob) = Some cp}"

lemma plain_objects_simps [simp]:
  "plain_objects pre delim sa [] = []"
  "plain_objects pre delim sa (ob # objs) =
     (if key_matches pre sa (o_key ob) \<and> group_of pre delim (o_key ob) = None
      then ob # plain_objects pre delim sa objs else plain_objects pre delim sa objs)"
  by (simp_all add: plain_objects_def)

lemma groups_simps [simp]:
  "groups pre delim sa [] = {}"
  "groups pre delim sa (ob # objs) =
     (if key_matches pre sa (o_key ob)
      then (case group_of pre delim (o_key ob) of None \<Rightarrow> {} | Some cp \<Rightarrow> {cp}) else {})
     \<union> groups pre delim sa objs"
  by (auto simp: groups_def split: option.splits)

text \<open>One step of the loop in these terms.\<close>

lemma list_loop_step:
  "list_loop (ob # objs) pre delim sa mx res cps cnt =
     (if \<not> key_matches pre sa (o_key ob) then list_loop objs pre delim sa mx res cps cnt
      else (case group_of pre delim (o_key ob) of
              Some cp \<Rightarrow>
                list_loop objs pre delim sa mx res (if cp \<in> set cps then cps else cps @ [cp]) cnt
            | None \<Rightarrow>
                if cnt \<ge> mx then (res, cps, True)
                else list_loop objs pre delim sa mx (res @ [ob]) cps (cnt + 1)))"
  by (auto simp: key_matches_def group_of_def Let_def split: option.splits)

lemmas list_loop_eqs = list_loop.simps(1) list_loop_step
declare list_loop.simps(2) [simp del]

section \<open>What a page holds\<close>

lemma list_loop_objects:
  "list_loop objs pre delim sa mx res cps cnt = (res', cps', tr) \<Longrightarrow>
     res' = res @ take (mx - cnt) (plain_objects pre delim sa objs)
     \<and> (tr \<longleftrightarrow> length (plain_objects pre delim sa objs) > mx - cnt)"
proof (induction objs arbitrary: res cps cnt)
  case (Cons ob objs)
  show ?case
  proof (cases "key_matches pre sa (o_key ob) \<and> group_of pre delim (o_key ob) = None \<and> cnt < mx")
    case True
    then have "mx - cnt = Suc (mx - Suc cnt)" by arith
    with True Cons.prems Cons.IH [of "res @ [ob]" cps "cnt + 1"] show ?thesis
      by (simp add: list_loop_step)
  next
    case False
    with Cons.prems show ?thesis
      by (auto simp: list_loop_step dest: Cons.IH split: if_splits option.splits)
  qed
qed simp

lemma list_loop_prefixes:
  "list_loop objs pre delim sa mx res cps cnt = (res', cps', tr) \<Longrightarrow> distinct cps \<Longrightarrow>
     distinct cps' \<and> set cps \<subseteq> set cps' \<and> set cps' \<subseteq> set cps \<union> groups pre delim sa objs
     \<and> (\<not> tr \<longrightarrow> set cps' = set cps \<union> groups pre delim sa objs)"
proof (induction objs arbitrary: res cps cnt)
  case (Cons ob objs)
  from Cons.prems show ?case
    by (auto simp: list_loop_step split: if_splits option.splits dest!: Cons.IH)
qed simp

lemma list_from_btree_objects:
  "lr_objects (list_from_btree objs pre delim sa mx) = take mx (plain_objects pre delim sa objs)"
  "lr_is_truncated (list_from_btree objs pre delim sa mx)
     \<longleftrightarrow> mx < length (plain_objects pre delim sa objs)"
  by (auto simp: list_from_btree_def split: prod.split dest!: list_loop_objects)

lemma list_from_btree_next_marker:
  "lr_next_marker (list_from_btree objs pre delim sa mx) =
     (if mx < length (plain_objects pre delim sa objs) \<and> mx \<noteq> 0
      then Some (o_key (plain_objects pre delim sa objs ! (mx - 1))) else None)"
  by (auto simp: list_from_btree_def last_conv_nth split: prod.split dest!: list_loop_objects)

lemma list_from_btree_prefixes:
  "distinct (lr_common_prefixes (list_from_btree objs pre delim sa mx))"
  "set (lr_common_prefixes (list_from_btree objs pre delim sa mx)) \<subseteq> groups pre delim sa objs"
  "\<not> lr_is_truncated (list_from_btree objs pre delim sa mx) \<Longrightarrow>
     set (lr_common_prefixes (list_from_btree objs pre delim sa mx)) = groups pre delim sa objs"
  by (auto simp: list_from_btree_def split: prod.splits dest!: list_loop_prefixes)

section \<open>Paging through the objects\<close>

text \<open>
  A client that follows \<^verbatim>\<open>NextMarker\<close>: it asks for a page and, while the page is truncated, asks
  again from the page's marker. \<open>None\<close> is fuel exhausted, or a truncated page without marker.
\<close>

fun list_pages ::
  "nat \<Rightarrow> s3_object list \<Rightarrow> string \<Rightarrow> string \<Rightarrow> string \<Rightarrow> nat \<Rightarrow> s3_object list option" where
  "list_pages 0 objs pre delim sa mx = None"
| "list_pages (Suc fuel) objs pre delim sa mx =
     (let r = list_from_btree objs pre delim sa mx
      in if \<not> lr_is_truncated r then Some (lr_objects r)
         else (case lr_next_marker r of
                 None \<Rightarrow> None
               | Some m \<Rightarrow>
                   map_option (\<lambda>rest. lr_objects r @ rest)
                     (list_pages fuel objs pre delim m mx)))"

lemma sorted_keys_plain:
  "sorted_wrt (<) (map o_key objs) \<Longrightarrow> sorted_wrt (<) (map o_key (plain_objects pre delim sa objs))"
  by (simp add: plain_objects_def sorted_wrt_map sorted_wrt_filter)

lemma plain_from_marker:
  assumes sorted: "sorted_wrt (<) (map o_key objs)"
    and i: "i < length (plain_objects pre delim sa objs)"
    and nonempty: "o_key (plain_objects pre delim sa objs ! i) \<noteq> []"
  shows "plain_objects pre delim (o_key (plain_objects pre delim sa objs ! i)) objs
       = drop (Suc i) (plain_objects pre delim sa objs)"
proof -
  let ?ps = "plain_objects pre delim sa objs"
  define m where "m = o_key (?ps ! i)"
  have "?ps ! i \<in> set ?ps" using i by simp
  then have above: "sa = [] \<or> sa < m"
    unfolding m_def plain_objects_def by (auto simp: key_matches_def)
  have "plain_objects pre delim m objs = filter (\<lambda>ob. m < o_key ob) ?ps"
    unfolding plain_objects_def filter_filter
    using above nonempty [folded m_def]
    by (intro filter_cong refl) (auto simp: key_matches_def)
  also have "\<dots> = drop (Suc i) ?ps"
    unfolding m_def using sorted_keys_plain [OF sorted] i by (rule sorted_wrt_filter_above)
  finally show ?thesis unfolding m_def .
qed

lemma list_pages_complete:
  assumes sorted: "sorted_wrt (<) (map o_key objs)"
    and nonempty: "\<forall>ob\<in>set objs. o_key ob \<noteq> []"
    and mx: "0 < mx"
  shows "length (plain_objects pre delim sa objs) < fuel \<Longrightarrow>
           list_pages fuel objs pre delim sa mx = Some (plain_objects pre delim sa objs)"
proof (induction fuel arbitrary: sa)
  case (Suc fuel)
  let ?ps = "plain_objects pre delim sa objs"
  show ?case
  proof (cases "mx < length ?ps")
    case False
    then show ?thesis by (simp add: list_from_btree_objects Let_def)
  next
    case True
    let ?m = "o_key (?ps ! (mx - 1))"
    have "?ps ! (mx - 1) \<in> set ?ps" using True by simp
    then have "?ps ! (mx - 1) \<in> set objs" unfolding plain_objects_def by simp
    then have "?m \<noteq> []" using nonempty by blast
    with True mx have rest: "plain_objects pre delim ?m objs = drop mx ?ps"
      using plain_from_marker [OF sorted, of "mx - 1" pre delim sa] by simp
    with True mx Suc have "list_pages fuel objs pre delim ?m mx = Some (drop mx ?ps)"
      by simp
    with True mx show ?thesis
      by (simp add: list_from_btree_objects list_from_btree_next_marker Let_def)
  qed
qed simp

section \<open>Listing versions\<close>

text \<open>
  The entries of one key, tagged with the key, and the entries a listing yields after a marker
  \<open>(km, vm)\<close>: keys before the marker's are left out, and of the marker's own key, when the
  marker names a version, everything up to that version.
\<close>

definition key_entries :: "string \<Rightarrow> nat \<Rightarrow> object_version list \<Rightarrow> (string \<times> version_list_entry) list" where
  "key_entries k idx vs =
     map (\<lambda>(i, v). (k, \<lparr>ve_version = v, ve_is_latest = (i = 0)\<rparr>)) (enumerate idx vs)"

definition entry_vid :: "string \<times> version_list_entry \<Rightarrow> string" where
  "entry_vid e = ov_version_id (ve_version (snd e))"

definition after_version :: "string \<Rightarrow> (string \<times> version_list_entry) list \<Rightarrow> (string \<times> version_list_entry) list" where
  "after_version vm es = tl (dropWhile (\<lambda>e. entry_vid e \<noteq> vm) es)"

fun listed_entries ::
  "string \<Rightarrow> string \<Rightarrow> string \<Rightarrow> string \<Rightarrow> versioned_store \<Rightarrow> (string \<times> version_list_entry) list" where
  "listed_entries pre delim km vm [] = []"
| "listed_entries pre delim km vm ((k, vs) # m) =
     (if (km \<noteq> [] \<and> k < km) \<or> \<not> starts_with k pre \<or> group_of pre delim k \<noteq> None then []
      else if k = km \<and> vm \<noteq> [] then after_version vm (key_entries k 0 vs)
      else key_entries k 0 vs)
     @ listed_entries pre delim km vm m"

lemma key_entries_simps [simp]:
  "key_entries k idx [] = []"
  "key_entries k idx (v # vs) =
     (k, \<lparr>ve_version = v, ve_is_latest = (idx = 0)\<rparr>) # key_entries k (Suc idx) vs"
  by (simp_all add: key_entries_def)

lemma length_key_entries [simp]: "length (key_entries k idx vs) = length vs"
  by (simp add: key_entries_def)

lemma key_entries_nth:
  "i < length vs \<Longrightarrow> fst (key_entries k idx vs ! i) = k \<and> entry_vid (key_entries k idx vs ! i) = ov_version_id (vs ! i)"
  by (simp add: key_entries_def entry_vid_def nth_enumerate_eq)

lemma entry_vid_Pair [simp]: "entry_vid (k, \<lparr>ve_version = v, ve_is_latest = b\<rparr>) = ov_version_id v"
  by (simp add: entry_vid_def)

lemma after_version_Nil [simp]: "after_version vm [] = []"
  by (simp add: after_version_def)

lemma after_version_Cons [simp]:
  "after_version vm (e # es) = (if entry_vid e = vm then es else after_version vm es)"
  by (simp add: after_version_def)

text \<open>The accumulator after a run of entries, and the part of it that the entries determine.\<close>

fun push_entries :: "(string \<times> version_list_entry) list \<Rightarrow> version_acc \<Rightarrow> version_acc" where
  "push_entries [] a = a"
| "push_entries (e # es) a =
     push_entries es
       (a\<lparr>va_versions := va_versions a @ [snd e], va_count := va_count a + 1,
          va_last_key := Some (fst e), va_last_version_id := Some (entry_vid e)\<rparr>)"

definition acc_core where
  "acc_core a = (va_versions a, va_count a, va_last_key a, va_last_version_id a)"

lemma push_entries_append: "push_entries (es @ fs) a = push_entries fs (push_entries es a)"
  by (induction es arbitrary: a) auto

lemma push_entries_core:
  "acc_core a = acc_core b \<Longrightarrow> acc_core (push_entries es a) = acc_core (push_entries es b)"
  by (induction es arbitrary: a b) (auto simp: acc_core_def)

lemma push_entries_fields:
  "va_versions (push_entries es a) = va_versions a @ map snd es"
  "va_count (push_entries es a) = va_count a + length es"
  "va_last_key (push_entries es a) = (if es = [] then va_last_key a else Some (fst (last es)))"
  "va_last_version_id (push_entries es a) =
     (if es = [] then va_last_version_id a else Some (entry_vid (last es)))"
  by (induction es arbitrary: a) auto

lemma version_loop_entries:
  "version_loop k vm mx vs idx skip a = (a', full) \<Longrightarrow>
     a' = push_entries (take (mx - va_count a)
            (if skip then after_version vm (key_entries k idx vs) else key_entries k idx vs)) a
     \<and> (full \<longleftrightarrow> mx - va_count a <
          length (if skip then after_version vm (key_entries k idx vs) else key_entries k idx vs))"
proof (induction vs arbitrary: idx skip a)
  case (Cons v vs)
  consider (found) "skip" "ov_version_id v = vm" | (seek) "skip" "ov_version_id v \<noteq> vm"
    | (stop) "\<not> skip" "mx \<le> va_count a" | (take) "\<not> skip" "va_count a < mx"
    by fastforce
  then show ?case
  proof cases
    case found
    with Cons.prems Cons.IH [of "idx + 1" False a] show ?thesis by simp
  next
    case seek
    with Cons.prems Cons.IH [of "idx + 1" True a] show ?thesis by simp
  next
    case stop
    with Cons.prems show ?thesis by auto
  next
    case take
    then have "mx - va_count a = Suc (mx - Suc (va_count a))" by arith
    with take Cons.prems show ?thesis by (auto dest!: Cons.IH)
  qed
qed simp

text \<open>
  The early exit is safe: the keys are in order, so past a key that is above the prefix and does
  not start with the prefix's stem nothing can match.
\<close>

lemma listed_entries_none:
  "\<forall>e\<in>set m. \<not> starts_with (fst e) pre \<Longrightarrow> listed_entries pre delim km vm m = []"
  by (induction m) auto

lemma beyond_prefix_none:
  assumes "bt_wf ((k, vs) # m)" and "pre < k" and "\<not> starts_with k (take n pre)"
  shows "listed_entries pre delim km vm ((k, vs) # m) = []"
proof (rule listed_entries_none, rule ballI)
  fix e assume e: "e \<in> set ((k, vs) # m)"
  have "take n pre \<le> pre"
    by (metis append_take_drop_id le_append_left)
  from this assms(2) have "take n pre < k" by (rule le_less_trans)
  show "\<not> starts_with (fst e) pre"
  proof
    assume "starts_with (fst e) pre"
    then have "starts_with (fst e) (take n pre)" by (rule starts_with_take)
    with \<open>take n pre < k\<close> assms(3) have "fst e < k" by (rule above_prefix_not_starting)
    with e assms(1) show False by fastforce
  qed
qed

lemma versions_loop_step:
  "versions_loop ((k, vs) # m) pre delim km vm mx a =
     (if km \<noteq> [] \<and> k < km then versions_loop m pre delim km vm mx a
      else if \<not> starts_with k pre
      then (if pre < k
            then (case str_slice_to pre (max (length pre - 1) 1) of
                    None \<Rightarrow> None
                  | Some stem \<Rightarrow>
                      if \<not> starts_with k stem then Some (a, False)
                      else versions_loop m pre delim km vm mx a)
            else versions_loop m pre delim km vm mx a)
      else
        (case group_of pre delim k of
           Some cp \<Rightarrow>
             versions_loop m pre delim km vm mx
               (if cp \<in> set (va_prefixes a) then a
                else a\<lparr>va_prefixes := va_prefixes a @ [cp]\<rparr>)
         | None \<Rightarrow>
             (case version_loop k vm mx vs 0 (k = km \<and> vm \<noteq> []) a of
                (a', full) \<Rightarrow>
                  if full then Some (a', True)
                  else versions_loop m pre delim km vm mx a')))"
proof -
  have "pre \<noteq> [] \<and> \<not> starts_with k pre \<longleftrightarrow> \<not> starts_with k pre" by auto
  then show ?thesis
    by (auto simp: group_of_def Let_def split: option.splits prod.splits bool.splits)
qed

declare versions_loop.simps(2) [simp del]

lemma versions_loop_entries:
  "versions_loop m pre delim km vm mx a = Some (a', full) \<Longrightarrow> bt_wf m \<Longrightarrow>
     acc_core a' = acc_core (push_entries (take (mx - va_count a) (listed_entries pre delim km vm m)) a)
     \<and> (full \<longleftrightarrow> mx - va_count a < length (listed_entries pre delim km vm m))"
proof (induction m arbitrary: a)
  case Nil
  then show ?case by (simp add: acc_core_def)
next
  case (Cons e m)
  obtain k versions where e: "e = (k, versions)" by fastforce
  have wf: "bt_wf m" using Cons.prems(2) by simp
  let ?rest = "listed_entries pre delim km vm m"
  let ?es = "if k = km \<and> vm \<noteq> [] then after_version vm (key_entries k 0 versions)
             else key_entries k 0 versions"
  consider (before) "km \<noteq> [] \<and> k < km"
    | (other) "\<not> (km \<noteq> [] \<and> k < km)" "\<not> starts_with k pre"
    | (group) cp where "\<not> (km \<noteq> [] \<and> k < km)" "starts_with k pre" "group_of pre delim k = Some cp"
    | (plain) "\<not> (km \<noteq> [] \<and> k < km)" "starts_with k pre" "group_of pre delim k = None"
    by blast
  then show ?case
  proof cases
    case before
    with Cons.prems e Cons.IH [OF _ wf] show ?thesis by (simp add: versions_loop_step)
  next
    case other
    have listed: "listed_entries pre delim km vm (e # m) = ?rest" using other e by simp
    show ?thesis
    proof (cases "pre < k \<and> \<not> starts_with k (take (max (length pre - 1) 1) pre)")
      case True
      then have none: "listed_entries pre delim km vm (e # m) = []"
        using Cons.prems(2) unfolding e by (blast intro: beyond_prefix_none)
      from True other Cons.prems(1) e have "a' = a \<and> \<not> full"
        by (auto simp: versions_loop_step str_slice_to_def split: if_splits)
      with none show ?thesis by simp
    next
      case False
      with other Cons.prems(1) e have "versions_loop m pre delim km vm mx a = Some (a', full)"
        by (auto simp: versions_loop_step str_slice_to_def split: if_splits)
      from Cons.IH [OF this wf] show ?thesis unfolding listed .
    qed
  next
    case group
    let ?b = "if cp \<in> set (va_prefixes a) then a else a\<lparr>va_prefixes := va_prefixes a @ [cp]\<rparr>"
    have core: "acc_core ?b = acc_core a" and count: "va_count ?b = va_count a"
      by (auto simp: acc_core_def)
    have listed: "listed_entries pre delim km vm (e # m) = ?rest" using group e by simp
    from group Cons.prems(1) e have "versions_loop m pre delim km vm mx ?b = Some (a', full)"
      by (auto simp: versions_loop_step split: if_splits)
    from Cons.IH [OF this wf] show ?thesis
      unfolding listed count push_entries_core [OF core] .
  next
    case plain
    obtain b br where inner: "version_loop k vm mx versions 0 (k = km \<and> vm \<noteq> []) a = (b, br)"
      by fastforce
    define es where "es = ?es"
    from version_loop_entries [OF inner]
    have b: "b = push_entries (take (mx - va_count a) es) a"
      and br: "br \<longleftrightarrow> mx - va_count a < length es" by (auto simp: es_def)
    have listed: "listed_entries pre delim km vm (e # m) = es @ ?rest"
      using plain e by (auto simp: es_def)
    show ?thesis
    proof (cases br)
      case True
      with inner plain Cons.prems(1) e have "a' = b \<and> full"
        by (auto simp: versions_loop_step split: if_splits)
      with True b br show ?thesis unfolding listed by simp
    next
      case False
      then have len: "length es \<le> mx - va_count a" using br by simp
      then have b': "b = push_entries es a" using b by simp
      then have count: "mx - va_count b = mx - va_count a - length es"
        by (simp add: push_entries_fields)
      from False inner plain Cons.prems(1) e
      have "versions_loop m pre delim km vm mx b = Some (a', full)"
        by (auto simp: versions_loop_step split: if_splits)
      from Cons.IH [OF this wf] show ?thesis
        using len unfolding listed b' by (auto simp: push_entries_append push_entries_fields(2))
    qed
  qed
qed

section \<open>The page and its markers\<close>

lemma listed_entries_range:
  "bt_wf m \<Longrightarrow> km \<noteq> [] \<Longrightarrow>
     listed_entries pre delim km vm (bt_range_from km m) = listed_entries pre delim km vm m"
  by (induction m) (auto simp: bt_range_from_def)

lemma bt_wf_range_from: "bt_wf m \<Longrightarrow> bt_wf (bt_range_from lo m)"
  unfolding bt_range_from_def by (induction m) auto

text \<open>What a successful version listing returns: a page of the declarative listing.\<close>

lemma vs_list_object_versions_page:
  assumes ok: "vs_list_object_versions m pre delim km vm mx = Some r" and wf: "bt_wf m"
  shows "vr_versions r = map snd (take mx (listed_entries pre delim km vm m))"
    and "vr_is_truncated r \<longleftrightarrow> mx < length (listed_entries pre delim km vm m)"
    and "mx < length (listed_entries pre delim km vm m) \<Longrightarrow> 0 < mx \<Longrightarrow>
           vr_next_key_marker r = Some (fst (listed_entries pre delim km vm m ! (mx - 1)))
           \<and> vr_next_version_id_marker r = Some (entry_vid (listed_entries pre delim km vm m ! (mx - 1)))"
proof -
  let ?src = "if km = [] then m else bt_range_from km m"
  let ?L = "listed_entries pre delim km vm m"
  from ok obtain a full
    where loop: "versions_loop ?src pre delim km vm mx empty_acc = Some (a, full)"
      and r: "r = \<lparr>vr_versions = va_versions a, vr_common_prefixes = va_prefixes a,
                    vr_is_truncated = full,
                    vr_next_key_marker = (if full then va_last_key a else None),
                    vr_next_version_id_marker = (if full then va_last_version_id a else None)\<rparr>"
    by (auto simp: vs_list_object_versions_def)
  have "bt_wf ?src" using wf by (simp add: bt_wf_range_from)
  from versions_loop_entries [OF loop this]
  have core: "acc_core a = acc_core (push_entries (take mx ?L) empty_acc)"
    and full: "full \<longleftrightarrow> mx < length ?L"
    using wf by (auto simp: empty_acc_def listed_entries_range split: if_splits)
  have fields: "va_versions a = map snd (take mx ?L)"
    "va_last_key a = (if take mx ?L = [] then None else Some (fst (last (take mx ?L))))"
    "va_last_version_id a = (if take mx ?L = [] then None else Some (entry_vid (last (take mx ?L))))"
    using core by (auto simp: acc_core_def push_entries_fields empty_acc_def)
  show "vr_versions r = map snd (take mx ?L)" by (simp add: r fields)
  show "vr_is_truncated r \<longleftrightarrow> mx < length ?L" by (simp add: r full)
  assume long: "mx < length ?L" and pos: "0 < mx"
  then have "take mx ?L = take (mx - 1) ?L @ [?L ! (mx - 1)]"
    using take_Suc_conv_app_nth [of "mx - 1" ?L] by simp
  then have "take mx ?L \<noteq> []" "last (take mx ?L) = ?L ! (mx - 1)" by simp_all
  with long show "vr_next_key_marker r = Some (fst (?L ! (mx - 1)))
      \<and> vr_next_version_id_marker r = Some (entry_vid (?L ! (mx - 1)))"
    by (simp add: r full fields)
qed

text \<open>No panic when the prefix's last character is a single byte, in particular for ASCII.\<close>

lemma versions_loop_no_panic:
  "is_char_boundary pre (max (length pre - 1) 1) \<Longrightarrow>
     \<exists>x. versions_loop m pre delim km vm mx a = Some x"
  by (induction m arbitrary: a)
    (auto simp: versions_loop_step str_slice_to_def split: option.splits prod.splits)

lemma vs_list_object_versions_no_panic:
  "is_char_boundary pre (max (length pre - 1) 1) \<Longrightarrow>
     \<exists>r. vs_list_object_versions m pre delim km vm mx = Some r"
  using versions_loop_no_panic
    [of pre "if km = [] then m else bt_range_from km m" delim km vm mx empty_acc]
  by (auto simp: vs_list_object_versions_def simp del: versions_loop.simps)

text \<open>
  When the stem ends inside a character, a listing panics as soon as it comes to a key that is above the
  prefix without having it. All keys with the prefix come before such a key, so the page must not have
  been filled by then.
\<close>

lemma versions_loop_panics:
  "bt_wf m \<Longrightarrow> \<not> is_char_boundary pre (max (length pre - 1) 1) \<Longrightarrow>
     versions_loop m pre delim km vm mx a = None \<longleftrightarrow>
       length (listed_entries pre delim km vm m) \<le> mx - va_count a \<and>
       (\<exists>e\<in>set m. km \<le> fst e \<and> pre < fst e \<and> \<not> starts_with (fst e) pre)"
proof (induction m arbitrary: a)
  case (Cons e m)
  obtain k versions where e: "e = (k, versions)" by fastforce
  have wf: "bt_wf m" using Cons.prems(1) by simp
  note IH = Cons.IH [OF wf Cons.prems(2)]
  let ?rest = "listed_entries pre delim km vm m"
  let ?es = "if k = km \<and> vm \<noteq> [] then after_version vm (key_entries k 0 versions)
             else key_entries k 0 versions"
  consider (before) "km \<noteq> [] \<and> k < km"
    | (beyond) "\<not> (km \<noteq> [] \<and> k < km)" "\<not> starts_with k pre" "pre < k"
    | (below) "\<not> (km \<noteq> [] \<and> k < km)" "\<not> starts_with k pre" "\<not> pre < k"
    | (group) cp where "\<not> (km \<noteq> [] \<and> k < km)" "starts_with k pre" "group_of pre delim k = Some cp"
    | (plain) "\<not> (km \<noteq> [] \<and> k < km)" "starts_with k pre" "group_of pre delim k = None"
    by blast
  then show ?case
  proof cases
    case before
    with e IH show ?thesis by (auto simp: versions_loop_step)
  next
    case beyond
    have "listed_entries pre delim km vm (e # m) = []"
      unfolding e by (rule beyond_prefix_none [where n = "length pre"]) (use Cons.prems(1) beyond e in auto)
    moreover have "km \<le> k" using beyond(1) by (cases km) auto
    moreover have "versions_loop (e # m) pre delim km vm mx a = None"
      using beyond Cons.prems(2) e by (auto simp: versions_loop_step str_slice_to_def)
    ultimately show ?thesis using beyond e by auto
  next
    case below
    have "versions_loop (e # m) pre delim km vm mx a = versions_loop m pre delim km vm mx a"
      using below e by (auto simp: versions_loop_step)
    with below e IH show ?thesis by auto
  next
    case group
    let ?b = "if cp \<in> set (va_prefixes a) then a else a\<lparr>va_prefixes := va_prefixes a @ [cp]\<rparr>"
    have "versions_loop (e # m) pre delim km vm mx a = versions_loop m pre delim km vm mx ?b"
      using group e by (auto simp: versions_loop_step)
    moreover have "va_count ?b = va_count a" by simp
    moreover have "listed_entries pre delim km vm (e # m) = ?rest" using group e by simp
    ultimately show ?thesis using IH [of ?b] group(2) e by auto
  next
    case plain
    obtain b br where inner: "version_loop k vm mx versions 0 (k = km \<and> vm \<noteq> []) a = (b, br)"
      by fastforce
    define es where "es = ?es"
    from version_loop_entries [OF inner]
    have b: "b = push_entries (take (mx - va_count a) es) a"
      and br: "br \<longleftrightarrow> mx - va_count a < length es" by (auto simp: es_def)
    have listed: "listed_entries pre delim km vm (e # m) = es @ ?rest"
      using plain e by (auto simp: es_def)
    have loop: "versions_loop (e # m) pre delim km vm mx a =
        (if br then Some (b, True) else versions_loop m pre delim km vm mx b)"
      using inner plain e by (auto simp: versions_loop_step)
    show ?thesis
    proof (cases br)
      case True
      with loop br show ?thesis unfolding listed by simp
    next
      case False
      then have "mx - va_count b = mx - va_count a - length es" "length es \<le> mx - va_count a"
        using b br by (simp_all add: push_entries_fields)
      then show ?thesis using loop False IH [of b] plain(2) e unfolding listed by auto
    qed
  qed
qed simp

lemma bt_range_from_set: "bt_wf m \<Longrightarrow> set (bt_range_from lo m) = {e \<in> set m. lo \<le> fst e}"
  by (induction m) (force simp: bt_range_from_def)+

lemma vs_list_object_versions_panics:
  assumes "bt_wf m"
  shows "vs_list_object_versions m pre delim km vm mx = None \<longleftrightarrow>
     \<not> is_char_boundary pre (max (length pre - 1) 1) \<and>
     length (listed_entries pre delim km vm m) \<le> mx \<and>
     (\<exists>k\<in>set (bt_keys m). km \<le> k \<and> pre < k \<and> \<not> starts_with k pre)"
proof (cases "is_char_boundary pre (max (length pre - 1) 1)")
  case True
  with vs_list_object_versions_no_panic [OF True, of m delim km vm mx] show ?thesis by auto
next
  case False
  let ?src = "if km = [] then m else bt_range_from km m"
  have wf: "bt_wf ?src" using assms by (simp add: bt_wf_range_from)
  have keys: "(\<exists>k\<in>set (bt_keys m). P k) \<longleftrightarrow> (\<exists>e\<in>set m. P (fst e))" for P
    by (simp add: bt_keys_def)
  have "set ?src = {e \<in> set m. km \<le> fst e}" using bt_range_from_set [OF assms, of km] by simp
  moreover have "listed_entries pre delim km vm ?src = listed_entries pre delim km vm m"
    using assms by (simp add: listed_entries_range)
  ultimately show ?thesis
    using versions_loop_panics [OF wf False, of delim km vm mx empty_acc] False
    by (auto simp: vs_list_object_versions_def empty_acc_def keys simp del: versions_loop.simps split_paired_Ex)
qed

section \<open>Paging through the versions\<close>

definition versions_wf :: "versioned_store \<Rightarrow> bool" where
  "versions_wf m \<longleftrightarrow> bt_wf m
     \<and> (\<forall>e\<in>set m. fst e \<noteq> [] \<and> distinct (map ov_version_id (snd e))
          \<and> (\<forall>v\<in>set (snd e). ov_version_id v \<noteq> []))"

lemma after_version_nth:
  "distinct (map entry_vid es) \<Longrightarrow> i < length es \<Longrightarrow>
     after_version (entry_vid (es ! i)) es = drop (Suc i) es"
proof (induction es arbitrary: i)
  case (Cons e es)
  then show ?case
    by (cases i) (auto simp: image_iff dest!: nth_mem [of _ es] split: if_splits)
qed simp

lemma map_entry_vid_key_entries: "map entry_vid (key_entries k idx vs) = map ov_version_id vs"
  by (induction vs arbitrary: idx) auto

lemma after_version_subset: "set (after_version vm es) \<subseteq> set es"
  by (induction es) auto

lemma listed_entries_keys: "e \<in> set (listed_entries pre delim km vm m) \<Longrightarrow> \<exists>x\<in>set m. fst e = fst x"
proof (induction m)
  case (Cons x m)
  obtain k vs where x: "x = (k, vs)" by fastforce
  have "\<forall>e\<in>set (key_entries k 0 vs). fst e = k"
    by (auto simp: key_entries_def)
  with Cons x after_version_subset [of vm "key_entries k 0 vs"] show ?case
    by (auto split: if_splits)
qed simp

text \<open>From the marker of any entry the listing goes on with the next entry.\<close>

lemma listed_entries_from:
  assumes "versions_wf m" and "i < length (listed_entries pre delim [] [] m)"
  shows "listed_entries pre delim (fst (listed_entries pre delim [] [] m ! i))
           (entry_vid (listed_entries pre delim [] [] m ! i)) m
       = drop (Suc i) (listed_entries pre delim [] [] m)"
  using assms
proof (induction m arbitrary: i)
  case (Cons x m)
  obtain k vs where x: "x = (k, vs)" by fastforce
  let ?B = "if \<not> starts_with k pre \<or> group_of pre delim k \<noteq> None then [] else key_entries k 0 vs"
  let ?F = "listed_entries pre delim [] [] m"
  from Cons.prems(1) x have wf: "versions_wf m" and k: "k \<noteq> []"
    and above: "\<forall>e\<in>set m. k < fst e" and dist: "distinct (map ov_version_id vs)"
    and vids: "\<forall>v\<in>set vs. ov_version_id v \<noteq> []"
    by (auto simp: versions_wf_def)
  have list: "listed_entries pre delim [] [] (x # m) = ?B @ ?F"
    using x by auto
  show ?case
  proof (cases "i < length ?B")
    case True
    then have B: "?B = key_entries k 0 vs" and i: "i < length vs" by (auto split: if_splits)
    let ?e = "key_entries k 0 vs ! i"
    have e: "fst ?e = k" "entry_vid ?e = ov_version_id (vs ! i)"
      using key_entries_nth [OF i] by auto
    have "entry_vid ?e \<noteq> []" using vids i e by auto
    moreover have "after_version (entry_vid ?e) (key_entries k 0 vs) = drop (Suc i) (key_entries k 0 vs)"
      using dist i by (intro after_version_nth) (simp_all add: map_entry_vid_key_entries)
    moreover have "listed_entries pre delim k (entry_vid ?e) m = ?F"
      using above k by (induction m) auto
    moreover have "starts_with k pre" "group_of pre delim k = None"
      using True by (auto split: if_splits)
    ultimately show ?thesis
      unfolding list nth_append drop_append using True B e(1) i x k by simp
  next
    case False
    let ?j = "i - length ?B"
    have j: "?j < length ?F" using Cons.prems(2) False unfolding list by simp
    then have "?F ! ?j \<in> set ?F" by simp
    then obtain y where "y \<in> set m" "fst (?F ! ?j) = fst y"
      using listed_entries_keys by blast
    with above have less: "k < fst (?F ! ?j)" by auto
    then have "listed_entries pre delim (fst (?F ! ?j)) (entry_vid (?F ! ?j)) (x # m)
        = listed_entries pre delim (fst (?F ! ?j)) (entry_vid (?F ! ?j)) m"
      using x by auto
    with Cons.IH [OF wf j] show ?thesis
      unfolding list nth_append drop_append using False by (simp add: Suc_diff_le)
  qed
qed simp

fun version_pages ::
  "nat \<Rightarrow> versioned_store \<Rightarrow> string \<Rightarrow> string \<Rightarrow> string \<Rightarrow> string \<Rightarrow> nat
     \<Rightarrow> version_list_entry list option" where
  "version_pages 0 m pre delim km vm mx = None"
| "version_pages (Suc fuel) m pre delim km vm mx =
     Option.bind (vs_list_object_versions m pre delim km vm mx)
       (\<lambda>r. if \<not> vr_is_truncated r then Some (vr_versions r)
            else Option.bind (vr_next_key_marker r)
              (\<lambda>km'. Option.bind (vr_next_version_id_marker r)
                 (\<lambda>vm'. map_option (\<lambda>rest. vr_versions r @ rest)
                    (version_pages fuel m pre delim km' vm' mx))))"

lemma version_pages_drop:
  assumes wf: "versions_wf m" and mx: "0 < mx"
    and boundary: "is_char_boundary pre (max (length pre - 1) 1)"
  shows "j \<le> length (listed_entries pre delim [] [] m) \<Longrightarrow>
     listed_entries pre delim km vm m = drop j (listed_entries pre delim [] [] m) \<Longrightarrow>
     length (listed_entries pre delim [] [] m) - j < fuel \<Longrightarrow>
     version_pages fuel m pre delim km vm mx
       = Some (map snd (drop j (listed_entries pre delim [] [] m)))"
proof (induction fuel arbitrary: j km vm)
  case (Suc fuel)
  let ?F = "listed_entries pre delim [] [] m"
  have "bt_wf m" using wf by (simp add: versions_wf_def)
  obtain r where r: "vs_list_object_versions m pre delim km vm mx = Some r"
    using vs_list_object_versions_no_panic [OF boundary] by blast
  note page = vs_list_object_versions_page [OF r \<open>bt_wf m\<close>, unfolded Suc.prems(2)]
  show ?case
  proof (cases "mx < length (drop j ?F)")
    case False
    with page(1,2) r show ?thesis by simp
  next
    case True
    let ?i = "j + (mx - 1)"
    have i: "?i < length ?F" and suc: "Suc ?i = j + mx" using True mx by auto
    have marks: "vr_next_key_marker r = Some (fst (?F ! ?i))"
      "vr_next_version_id_marker r = Some (entry_vid (?F ! ?i))"
      using page(3) [OF True mx] True by (simp_all add: nth_drop)
    have "version_pages fuel m pre delim (fst (?F ! ?i)) (entry_vid (?F ! ?i)) mx
        = Some (map snd (drop (j + mx) ?F))"
      using listed_entries_from [OF wf i] Suc.prems(1,3) True mx suc
      by (intro Suc.IH) auto
    with page(1,2) r marks True show ?thesis
      by (simp add: take_map drop_map flip: map_append)
        (metis add.commute append_take_drop_id drop_drop)
  qed
qed simp

end
