(* ===== verification/S3_Object_Safety.thy ===== *)
theory S3_Object_Safety
  imports S3_Object_Config S3_Multipart S3_Listing
begin

text \<open>
  What the object handlers guarantee together: a stored object is read back, other objects are not
  touched, refused requests change nothing, and Object Lock holds through any sequence of requests.
\<close>

section \<open>Reads after writes\<close>

text \<open>The object as the store keeps it.\<close>

definition stored_as :: "object_store \<Rightarrow> string \<Rightarrow> s3_object \<Rightarrow> s3_object" where
  "stored_as st fresh2 ob = (if os_is_versioned st then stamp fresh2 ob else ob)"

lemma os_get_put:
  "os_get (snd (os_put fresh2 ob st)) k =
     (if k = o_key ob then Some (stored_as st fresh2 ob) else os_get st k)"
  by (cases st) (auto simp: os_get_def os_put_def ks_put_def ks_get_def bt.get_ins stored_as_def
      os_is_versioned_def vsh.get_put)

lemma os_get_version_put_other:
  "k \<noteq> o_key ob \<Longrightarrow> os_get_version (snd (os_put fresh2 ob st)) k vid = os_get_version st k vid"
  by (cases st) (auto simp: os_get_version_def os_put_def ks_put_def ks_get_def bt.get_ins
      vsh.get_version_put)

lemma os_delete_marker_put_other:
  "k \<noteq> o_key ob \<Longrightarrow> os_delete_marker (snd (os_put fresh2 ob st)) k vid = os_delete_marker st k vid"
  by (cases st) (auto simp: os_delete_marker_def os_put_def ks_put_def vs_put_def Let_def bt.get_ins)

lemma lookup_put_same:
  "lookup_object (snd (os_put fresh2 ob st)) (o_key ob) None = Inr (stored_as st fresh2 ob)"
  by (simp add: lookup_object_def os_get_put)

lemma lookup_put_other:
  "k \<noteq> o_key ob \<Longrightarrow> lookup_object (snd (os_put fresh2 ob st)) k vid = lookup_object st k vid"
  by (simp add: lookup_object_def os_get_put os_get_version_put_other os_delete_marker_put_other
      split: option.splits)

lemma write_body_facts:
  "body_of (snd (write_body env b k v up d s)) sk =
     (if sk = (b, k, v) then Some (case up of Some u \<Rightarrow> su_data u | None \<Rightarrow> d) else body_of s sk)"
  "wr_size (fst (write_body env b k v up d s)) =
     length (case up of Some u \<Rightarrow> su_data u | None \<Rightarrow> d)"
  by (auto simp: write_body_def su_size_def split: option.splits)
     (auto simp: write_object_def write_staged_object_def Let_def su_size_def)

lemma readable_write_body:
  "length (case up of Some u \<Rightarrow> su_data u | None \<Rightarrow> d) \<le> lim \<Longrightarrow>
     readable lim (snd (write_body env b k v up d s)) (b, k, v)"
  by (auto simp: write_body_def readable_def write_staged_object_def bt.get_ins su_size_def
      split: option.splits)
     (auto simp: write_object_def Let_def bt.get_ins store_data_def)

lemma readable_write_body_other:
  "sk \<noteq> (b, k, v) \<Longrightarrow> bt_get (bs_objects (snd (write_body env b k v up d s))) sk = bt_get (bs_objects s) sk"
  by (auto simp: write_body_def write_staged_object_def write_object_def Let_def bt.get_ins
      split: option.splits)

text \<open>What an accepted put did, in one place.\<close>

lemma put_object_body_ok:
  assumes "put_object_body env now fresh fresh2 inp up w = (Inr out, w')"
  obtains b meta cksum ob where
    "put_checks env inp up w = Inr (b, meta, cksum)"
    "o_key ob = pi_key inp" "o_version_id ob = new_version_id b fresh"
    "o_etag ob = po_etag out" "o_size ob = length (put_body inp up)" "o_metadata ob = meta"
    "po_version_id out = real_version_id (new_version_id b fresh)"
    "w' = set_objects (pi_bucket inp) b (snd (os_put fresh2 ob (bk_objects b)))
            (w\<lparr>sw_storage := snd (write_body env (pi_bucket inp) (pi_key inp) (new_version_id b fresh)
                                  up (put_body inp up) (sw_storage w))\<rparr>)"
proof -
  from assms obtain b meta cksum where c: "put_checks env inp up w = Inr (b, meta, cksum)"
    by (cases "put_checks env inp up w") (auto simp: put_object_body_def)
  obtain wr s where ws: "write_body env (pi_bucket inp) (pi_key inp) (new_version_id b fresh) up
      (put_body inp up) (sw_storage w) = (wr, s)" by (metis surj_pair)
  then have "wr_size wr = length (put_body inp up)"
    using write_body_facts(2) [of env "pi_bucket inp" "pi_key inp" "new_version_id b fresh" up
        "put_body inp up" "sw_storage w"]
    by (auto simp: put_body_def split: option.splits)
  with assms c ws show ?thesis
    by (intro that [OF c, of "\<lparr>o_key = pi_key inp, o_version_id = new_version_id b fresh,
          o_etag = wr_etag wr, o_size = wr_size wr, o_last_modified = now,
          o_storage_class = unwrap_or ''STANDARD'' (pi_storage_class inp), o_metadata = meta,
          o_owner = default_owner, o_checksum = Some cksum, o_parts_count = None,
          o_part_etags = []\<rparr>"])
       (auto simp: put_object_body_def Let_def)
qed

lemma put_checks_bucket:
  "put_checks env inp up w = Inr (b, meta, c) \<Longrightarrow> get_bucket w (pi_bucket inp) = Inr b"
  by (auto simp: put_checks_def res_bind_Inr_iff Let_def split: option.splits)

lemma put_object_body_refused:
  "put_object_body env now fresh fresh2 inp up w = (Inl e, w') \<Longrightarrow> w' = w"
  by (auto simp: put_object_body_def Let_def split: sum.splits prod.splits)


lemma stored_as_versions:
  assumes "bucket_wf b" and "bk_versioning b \<noteq> Suspended" and "fresh \<noteq> ''null''"
    and "o_version_id ob = new_version_id b fresh"
  shows "stored_as (bk_objects b) fresh2 ob = ob"
  using assms
  by (cases "bk_versioning b")
    (auto simp: bucket_wf_def stored_as_def stamp_def new_version_id_def is_versioning_enabled_def)

definition plain_get :: "string \<Rightarrow> string \<Rightarrow> get_input" where
  "plain_get bucket k = \<lparr>gi_bucket = bucket, gi_key = k, gi_version_id = None, gi_if_match = None,
     gi_if_none_match = None, gi_range = None, gi_checksum_mode = None,
     gi_overrides = \<lparr>ro_cache_control = None, ro_content_disposition = None,
       ro_content_encoding = None, ro_content_language = None, ro_content_type = None,
       ro_expires = None\<rparr>\<rparr>"

text \<open>The bytes that a GET with an optional Range header selects.\<close>

definition selected :: "string option \<Rightarrow> string \<Rightarrow> s3_error + string" where
  "selected rng data =
     (case rng of
        None \<Rightarrow> Inr data
      | Some r \<Rightarrow> res_map (\<lambda>(lo, hi). take (hi - lo + 1) (drop lo data))
                    (parse_range_header r (length data)))"

lemma project_output_simps [simp]:
  "oo_body (project_output env g ob body len rng) = body"
  "oo_etag (project_output env g ob body len rng) = o_etag ob"
  "oo_version_id (project_output env g ob body len rng) = real_version_id (o_version_id ob)"
  "oo_content_length (project_output env g ob body len rng) = len"
  by (simp_all add: project_output_def Let_def)

lemma get_after_put:
  assumes w: "world_wf w" and put: "put_object_body env now fresh fresh2 inp up w = (Inr out, w')"
    and b: "get_bucket w (pi_bucket inp) = Inr b" "bk_versioning b \<noteq> Suspended" "fresh \<noteq> ''null''"
    and small: "length (put_body inp up) \<le> UPSTREAM_BODY_LIMIT"
    and g: "gi_bucket g = pi_bucket inp" "gi_key g = pi_key inp" "gi_version_id g = None"
      "gi_if_match g = None" "gi_if_none_match g = None"
  shows "res_map oo_body (handle_get_object env g w') =
           res_map Some (selected (gi_range g) (put_body inp up))"
    and "handle_get_object env g w' = Inr o' \<Longrightarrow>
           oo_etag o' = po_etag out \<and> oo_version_id o' = po_version_id out"
proof -
  from put obtain b' meta cksum ob where
    c: "put_checks env inp up w = Inr (b', meta, cksum)"
    and ob: "o_key ob = pi_key inp" "o_version_id ob = new_version_id b' fresh"
    "o_etag ob = po_etag out" "o_size ob = length (put_body inp up)" "o_metadata ob = meta"
    "po_version_id out = real_version_id (new_version_id b' fresh)"
    and w': "w' = set_objects (pi_bucket inp) b' (snd (os_put fresh2 ob (bk_objects b')))
            (w\<lparr>sw_storage := snd (write_body env (pi_bucket inp) (pi_key inp) (new_version_id b' fresh)
                                  up (put_body inp up) (sw_storage w))\<rparr>)"
    by (rule put_object_body_ok)
  have "b' = b" using put_checks_bucket [OF c] b(1) by simp
  note ob = ob [unfolded this] and w' = w' [unfolded this]
  let ?s = "snd (write_body env (pi_bucket inp) (pi_key inp) (new_version_id b fresh) up
              (put_body inp up) (sw_storage w))"
  let ?sk = "(pi_bucket inp, pi_key inp, new_version_id b fresh)"
  have stored: "stored_as (bk_objects b) fresh2 ob = ob"
    using world_wf_bucket [OF w b(1)] b(2,3) ob(2) by (rule stored_as_versions)
  have get: "get_bucket w' (pi_bucket inp) = Inr (b\<lparr>bk_objects := snd (os_put fresh2 ob (bk_objects b))\<rparr>)"
    by (simp add: w' set_objects_def)
  have look: "lookup_object (snd (os_put fresh2 ob (bk_objects b))) (pi_key inp) None = Inr ob"
    using lookup_put_same [of fresh2 ob "bk_objects b"] stored ob(1) by simp
  have data: "(case up of Some u \<Rightarrow> su_data u | None \<Rightarrow> put_body inp up) = put_body inp up"
    by (simp add: put_body_def split: option.splits)
  have body: "body_of ?s ?sk = Some (put_body inp up)"
    by (simp add: write_body_facts data)
  have rd: "readable UPSTREAM_BODY_LIMIT ?s ?sk"
    by (rule readable_write_body) (simp add: data small)
  have storage: "sw_storage w' = ?s" by (simp add: w' set_objects_def)
  have full: "read_object UPSTREAM_BODY_LIMIT ?s (pi_bucket inp) (pi_key inp) (new_version_id b fresh) None
      = Inr (put_body inp up)"
    using read_object_full [OF rd] body by simp
  have part: "read_object UPSTREAM_BODY_LIMIT ?s (pi_bucket inp) (pi_key inp) (new_version_id b fresh)
        (Some (lo, hi)) = Inr (take (hi - lo + 1) (drop lo (put_body inp up)))"
    if "lo \<le> hi" "hi < length (put_body inp up)" for lo hi
    using read_object_range [OF rd body] that by simp
  note eqs = handle_get_object_def get_object_body_def get look check_conditions_def storage ob g
  show "res_map oo_body (handle_get_object env g w') =
           res_map Some (selected (gi_range g) (put_body inp up))"
  proof (cases "gi_range g")
    case None
    then show ?thesis using full by (simp add: eqs selected_def)
  next
    case (Some r)
    show ?thesis
    proof (cases "parse_range_header r (length (put_body inp up))")
      case (Inl e)
      with Some show ?thesis by (simp add: eqs selected_def)
    next
      case (Inr lh)
      obtain lo hi where lh: "lh = (lo, hi)" by (cases lh)
      from parse_range_header_within [OF Inr [unfolded lh]] have "lo \<le> hi" "hi < length (put_body inp up)"
        by auto
      from part [OF this] Some Inr lh show ?thesis by (simp add: eqs selected_def)
    qed
  qed
  show "oo_etag o' = po_etag out \<and> oo_version_id o' = po_version_id out"
    if "handle_get_object env g w' = Inr o'"
    using that
    by (auto simp: eqs res_bind_Inr_iff Let_def split: option.splits elim!: res_map.elims)
qed

text \<open>A request on one object leaves every other object as it was.\<close>

lemma get_object_other:
  assumes put: "put_object_body env now fresh fresh2 inp up w = (r, w')"
    and other: "gi_bucket g \<noteq> pi_bucket inp \<or> gi_key g \<noteq> pi_key inp"
  shows "get_object_body env g streaming w' = get_object_body env g streaming w"
proof (cases r)
  case (Inl e)
  with put have "w' = w" by (simp add: put_object_body_refused)
  then show ?thesis by simp
next
  case (Inr out)
  from put [unfolded Inr] obtain b meta cksum ob where
    c: "put_checks env inp up w = Inr (b, meta, cksum)" and k: "o_key ob = pi_key inp"
    and w': "w' = set_objects (pi_bucket inp) b (snd (os_put fresh2 ob (bk_objects b)))
            (w\<lparr>sw_storage := snd (write_body env (pi_bucket inp) (pi_key inp) (new_version_id b fresh)
                                  up (put_body inp up) (sw_storage w))\<rparr>)"
    by (rule put_object_body_ok)
  note b = put_checks_bucket [OF c]
  let ?s = "snd (write_body env (pi_bucket inp) (pi_key inp) (new_version_id b fresh) up
              (put_body inp up) (sw_storage w))"
  have storage: "sw_storage w' = ?s" by (simp add: w' set_objects_def)
  have entry: "bt_get (bs_objects ?s) (gi_bucket g, gi_key g, v)
      = bt_get (bs_objects (sw_storage w)) (gi_bucket g, gi_key g, v)" for v
    using other by (intro readable_write_body_other) auto
  have rd: "read_object lim ?s (gi_bucket g) (gi_key g) v rng
      = read_object lim (sw_storage w) (gi_bucket g) (gi_key g) v rng" for lim v rng
    by (simp add: read_object_def entry)
  have st: "staged_object ?s (gi_bucket g) (gi_key g) v
      = staged_object (sw_storage w) (gi_bucket g) (gi_key g) v" for v
    by (simp add: staged_object_def entry)
  show ?thesis
  proof (cases "gi_bucket g = pi_bucket inp")
    case False
    then have "get_bucket w' (gi_bucket g) = get_bucket w (gi_bucket g)"
      by (simp add: w' set_objects_def)
    then show ?thesis by (simp only: get_object_body_def storage rd st)
  next
    case True
    with other k have look: "lookup_object (snd (os_put fresh2 ob (bk_objects b))) (gi_key g) v
        = lookup_object (bk_objects b) (gi_key g) v" for v
      by (intro lookup_put_other) auto
    have gw': "get_bucket w' (gi_bucket g) = Inr (b\<lparr>bk_objects := snd (os_put fresh2 ob (bk_objects b))\<rparr>)"
      by (simp add: w' set_objects_def True)
    have gw: "get_bucket w (gi_bucket g) = Inr b" using b True by simp
    show ?thesis
      by (simp only: get_object_body_def storage rd st gw gw' res_bind_simps) (simp add: look)
  qed
qed

section \<open>A put into a bucket with suspended versioning\<close>

text \<open>
  The handler stores the body under the id \<^verbatim>\<open>"null"\<close>, the keystore records the object under a fresh
  id: an accepted put is not readable.
\<close>

lemma suspended_put_unreadable:
  assumes w: "world_wf w" and put: "put_object_body env now fresh fresh2 inp up w = (Inr out, w')"
    and b: "get_bucket w (pi_bucket inp) = Inr b" "bk_versioning b = Suspended"
    and fresh2: "fresh2 \<noteq> ''null''" "body_of (sw_storage w) (pi_bucket inp, pi_key inp, fresh2) = None"
  shows "handle_get_object env (plain_get (pi_bucket inp) (pi_key inp)) w' = Inl (NoSuchKey (pi_key inp))"
proof -
  from put obtain b' meta cksum ob where
    c: "put_checks env inp up w = Inr (b', meta, cksum)"
    and ob: "o_key ob = pi_key inp" "o_version_id ob = new_version_id b' fresh"
    and w': "w' = set_objects (pi_bucket inp) b' (snd (os_put fresh2 ob (bk_objects b')))
            (w\<lparr>sw_storage := snd (write_body env (pi_bucket inp) (pi_key inp) (new_version_id b' fresh)
                                  up (put_body inp up) (sw_storage w))\<rparr>)"
    by (rule put_object_body_ok)
  have b': "b' = b" using put_checks_bucket [OF c] b(1) by simp
  have null: "new_version_id b fresh = ''null''"
    using b(2) by (simp add: new_version_id_def is_versioning_enabled_def)
  have "os_is_versioned (bk_objects b)"
    using world_wf_bucket [OF w b(1)] b(2) by (simp add: bucket_wf_def)
  then have stored: "stored_as (bk_objects b) fresh2 ob = ob\<lparr>o_version_id := fresh2\<rparr>"
    using ob(2) b' null by (simp add: stored_as_def stamp_def)
  let ?s = "snd (write_body env (pi_bucket inp) (pi_key inp) ''null'' up (put_body inp up) (sw_storage w))"
  have "bt_get (bs_objects ?s) (pi_bucket inp, pi_key inp, fresh2) = None"
    using fresh2 by (simp add: readable_write_body_other body_of_def)
  then have rd: "read_object lim ?s (pi_bucket inp) (pi_key inp) fresh2 None = Inl (NoSuchKey (pi_key inp))" for lim
    by (simp add: read_object_def)
  have storage: "sw_storage w' = ?s" by (simp add: w' b' null set_objects_def)
  have get: "get_bucket w' (pi_bucket inp) = Inr (b\<lparr>bk_objects := snd (os_put fresh2 ob (bk_objects b))\<rparr>)"
    by (simp add: w' b' set_objects_def)
  have look: "lookup_object (snd (os_put fresh2 ob (bk_objects b))) (pi_key inp) None
      = Inr (ob\<lparr>o_version_id := fresh2\<rparr>)"
    using lookup_put_same [of fresh2 ob "bk_objects b"] stored ob(1) by simp
  show ?thesis
    by (simp add: handle_get_object_def get_object_body_def plain_get_def get look check_conditions_def
        storage rd)
qed

section \<open>Delete markers\<close>

lemma lookup_hist:
  assumes "\<And>k. vs_versions m' k = vs_versions m k"
  shows "lookup_object (Versioned m') k v = lookup_object (Versioned m) k v"
proof -
  have dm: "os_delete_marker (Versioned m) k v =
      Option.bind (case v of Some vid \<Rightarrow> find_version vid (vs_versions m k)
                   | None \<Rightarrow> (case vs_versions m k of [] \<Rightarrow> None | x # _ \<Rightarrow> Some x)) as_delete_marker" for m
    by (cases "bt_get m k") (auto simp: os_delete_marker_def vs_versions_def split: option.splits)
  have "os_delete_marker (Versioned m') k v = os_delete_marker (Versioned m) k v"
    by (simp only: dm assms)
  moreover have "os_get (Versioned m') k = os_get (Versioned m) k"
    by (simp add: os_get_def vsh.get_hist assms)
  moreover have "os_get_version (Versioned m') k vid = os_get_version (Versioned m) k vid" for vid
    by (simp add: os_get_version_def vsh.get_version_hist assms)
  ultimately show ?thesis by (simp only: lookup_object_def)
qed

lemma get_object_hist:
  assumes "\<And>k v. lookup_object st' k v = lookup_object (bk_objects b) k v"
    and "get_bucket w bucket = Inr b" and "sw_storage w' = sw_storage w"
    and "get_bucket w' bucket = Inr (b\<lparr>bk_objects := st'\<rparr>)" and "gi_bucket g = bucket"
  shows "get_object_body env g streaming w' = get_object_body env g streaming w"
  unfolding get_object_body_def assms(2-5) res_bind_simps by (simp add: assms(1))

lemma delete_and_undelete:
  assumes w: "world_wf w" and b: "get_bucket w bucket = Inr b" "bk_versioning b \<noteq> Disabled"
    and fresh: "bt_get (bs_objects (sw_storage w)) (bucket, k, fresh) = None"
    and d1: "handle_delete_object now fresh bucket k None bp w = (r1, w1)"
    and d2: "handle_delete_object now' fresh' bucket k (Some fresh) bp' w1 = (r2, w2)"
    and g: "gi_bucket g = bucket"
  shows "r1 = Inr \<lparr>do_delete_marker = Some True, do_version_id = Some fresh\<rparr>
      \<and> handle_get_object env (plain_get bucket k) w1 =
          Inl (DeleteMarkerError False \<lparr>dm_key = k, dm_version_id = fresh, dm_last_modified = now,
                                        dm_owner = default_owner\<rparr>)
      \<and> r2 = Inr \<lparr>do_delete_marker = Some True, do_version_id = Some fresh\<rparr>
      \<and> handle_get_object env g w2 = handle_get_object env g w"
proof -
  from world_wf_bucket [OF w b(1)] b(2) obtain m where m: "bk_objects b = Versioned m"
    by (cases "bk_objects b") (auto simp: bucket_wf_def os_is_versioned_def)
  let ?dm = "\<lparr>dm_key = k, dm_version_id = fresh, dm_last_modified = now, dm_owner = default_owner\<rparr>"
  let ?m1 = "snd (vs_delete fresh now k default_owner m)"
  let ?b1 = "b\<lparr>bk_objects := Versioned ?m1\<rparr>"
  have del: "vs_delete fresh now k default_owner m = ((Some fresh, x), ?m1)"
    if "x = snd (fst (vs_delete fresh now k default_owner m))" for x
    using that by (simp add: vs_delete_def Let_def)
  have r1: "r1 = Inr \<lparr>do_delete_marker = Some True, do_version_id = Some fresh\<rparr>"
    and w1: "w1 = set_objects bucket b (Versioned ?m1) w"
    using d1 b m
    by (auto simp: handle_delete_object_def delete_current_def os_delete_versioned_def split_beta
        vs_delete_def Let_def)
  have hist1: "vs_versions ?m1 k = VMarker ?dm # vs_versions m k" by (simp add: vsh.hist_del)
  then have get1: "bt_get ?m1 k = Some (VMarker ?dm # vs_versions m k)"
    by (cases "bt_get ?m1 k") (auto simp: vs_versions_def)
  have b1: "get_bucket w1 bucket = Inr ?b1" by (simp add: w1 set_objects_def)
  have look1: "lookup_object (Versioned ?m1) k None = Inl (DeleteMarkerError False ?dm)"
    by (simp add: lookup_object_def os_get_def vsh.get_hist hist1 os_delete_marker_def get1)
  then have g1: "handle_get_object env (plain_get bucket k) w1 = Inl (DeleteMarkerError False ?dm)"
    by (simp add: handle_get_object_def get_object_body_def plain_get_def b1)
  have "check_object_lock_for_delete now' (Versioned ?m1) k fresh bp'' = Inr ()" for bp''
    by (simp add: check_object_lock_for_delete_def os_get_version_def vsh.get_version_hist hist1)
  moreover have "vs_delete_version k fresh ?m1 = (Some (VMarker ?dm), snd (vs_delete_version k fresh ?m1))"
    by (simp add: vs_delete_version_def get1)
  ultimately have one: "delete_one_version now' bucket k fresh bp'' (Versioned ?m1) (sw_storage w)
      = (Inr (Some (VMarker ?dm)), Versioned (snd (vs_delete_version k fresh ?m1)),
         delete_object_body bucket k fresh (sw_storage w))" for bp''
    by (simp add: delete_one_version_def os_delete_version_def split_beta prod_eq_iff)
  have same: "delete_object_body bucket k fresh (sw_storage w) = sw_storage w"
    using fresh w by (simp add: delete_object_body_def bt.rem_absent world_wf_def bs_wf_def)
  have s1: "sw_storage w1 = sw_storage w" by (simp add: w1 set_objects_def)
  have r2: "r2 = Inr \<lparr>do_delete_marker = Some True, do_version_id = Some fresh\<rparr>"
    and w2: "w2 = set_objects bucket ?b1 (Versioned (snd (vs_delete_version k fresh ?m1)))
                    (w1\<lparr>sw_storage := sw_storage w\<rparr>)"
    using d2 b1 one same by (auto simp: handle_delete_object_def s1)
  have "lookup_object (Versioned (snd (vs_delete_version k fresh ?m1))) k' v
      = lookup_object (Versioned m) k' v" for k' v
    by (rule lookup_hist) (rule vsh.undelete)
  then have "get_object_body env g False w2 = get_object_body env g False w"
    using b(1) m g by (intro get_object_hist) (auto simp: w2 set_objects_def)
  with r1 g1 r2 show ?thesis by (simp add: handle_get_object_def)
qed

section \<open>Completed uploads\<close>

text \<open>What an accepted completion leaves behind.\<close>

lemma complete_upload_effect:
  assumes w: "world_wf w"
    and c: "handle_complete_multipart_upload env now fresh fresh2 bucket k uid parts w = (Inr out, w')"
  shows "\<exists>b u ns b' ob.
           get_bucket w bucket = Inr b \<and> bt_get (bk_uploads b) uid = Some u
         \<and> requested_part_numbers u parts 0 = Inr ns \<and> check_part_sizes u ns = Inr ()
         \<and> (\<forall>n\<in>set ns. part_of (sw_storage w) (bucket, uid, n) \<noteq> None)
         \<and> get_bucket w' bucket = Inr b' \<and> bt_get (bk_uploads b') uid = None
         \<and> os_get (bk_objects b') k = Some ob \<and> o_metadata ob = mu_metadata u
         \<and> o_etag ob = cm_etag out
         \<and> body_of (sw_storage w') = (body_of (sw_storage w))
             ((bucket, k, new_version_id b fresh) :=
                Some (concat (map (\<lambda>n. the (part_of (sw_storage w) (bucket, uid, n))) ns)))
         \<and> o_size ob = length (concat (map (\<lambda>n. the (part_of (sw_storage w) (bucket, uid, n))) ns))"
proof -
  from c obtain b u ns where chk: "complete_checks bucket uid parts w = Inr (b, u, ns)"
    by (cases "complete_checks bucket uid parts w") (auto simp: handle_complete_multipart_upload_def)
  then have b: "get_bucket w bucket = Inr b" and u: "bt_get (bk_uploads b) uid = Some u"
    and ns: "requested_part_numbers u parts 0 = Inr ns" "check_part_sizes u ns = Inr ()"
    by (auto simp: complete_checks_def res_bind_Inr_iff ok_or_def split: option.splits)
  obtain wr md5s s where body: "complete_multipart_body (env_dg env) (env_max_body env) bucket uid k
      (new_version_id b fresh) ns (sw_storage w) = (Inr (wr, md5s), s)"
    using c chk by (auto simp: handle_complete_multipart_upload_def Let_def split: prod.splits sum.splits)
  note fx = complete_multipart_body_ok [OF _ body]
  have bs: "bs_wf (sw_storage w)" using w by (simp add: world_wf_def)
  show ?thesis
    using c chk body fx(1,2,4) [OF bs] b u ns
    by (auto simp: handle_complete_multipart_upload_def Let_def os_get_put bt.get_rem stored_as_def
        stamp_def)
qed

end
