(* ===== verification/S3_Requests.thy ===== *)
theory S3_Requests
  imports S3_Object_Safety
begin

text \<open>
  The requests that change the state, as one step relation of the service: \<open>serve\<close> runs the handler
  that the request names. Each request carries the clock and the ids its handler draws.
\<close>

datatype s3_request =
    ReqCreateBucket create_bucket_input
  | ReqDeleteBucket string
  | ReqVersioning string "string option"
  | ReqPut put_input "staged_upload option"
  | ReqDelete string string "string option" "bool option"
  | ReqDeleteMany string "(string \<times> string option \<times> string) list" "bool option" "bool option"
  | ReqCopy copy_input
  | ReqPutTagging string string "string option" "(string \<times> string) list"
  | ReqDeleteTagging string string "string option"
  | ReqPutAcl string string "string option" "string option"
  | ReqRetention string string "string option" "retention option" "bool option"
  | ReqLegalHold string string "string option" "string option"
  | ReqCreateUpload create_upload_input
  | ReqUploadPart upload_part_input "staged_upload option"
  | ReqUploadPartCopy string string int string
  | ReqComplete string string string "completed_part list"
  | ReqAbort string string

record timed_request =
  tr_now :: nat
  tr_fresh :: string
  tr_fresh2 :: string
  tr_request :: s3_request

definition serve :: "s3_env \<Rightarrow> s3_world \<Rightarrow> timed_request \<Rightarrow> s3_world" where
  "serve env w r =
     (case tr_request r of
        ReqCreateBucket inp \<Rightarrow> snd (handle_create_bucket env (tr_now r) inp w)
      | ReqDeleteBucket b \<Rightarrow> snd (handle_delete_bucket b w)
      | ReqVersioning b s \<Rightarrow> snd (handle_put_bucket_versioning b s w)
      | ReqPut inp up \<Rightarrow>
          snd (put_object_body env (tr_now r) (tr_fresh r) (tr_fresh2 r) inp up w)
      | ReqDelete b k v bp \<Rightarrow> snd (handle_delete_object (tr_now r) (tr_fresh r) b k v bp w)
      | ReqDeleteMany b ids q bp \<Rightarrow> snd (handle_delete_objects (tr_now r) b ids q bp w)
      | ReqCopy inp \<Rightarrow> snd (handle_copy_object env (tr_now r) (tr_fresh r) (tr_fresh2 r) inp w)
      | ReqPutTagging b k v tags \<Rightarrow> snd (handle_put_object_tagging (tr_fresh2 r) b k v tags w)
      | ReqDeleteTagging b k v \<Rightarrow> snd (handle_delete_object_tagging (tr_fresh2 r) b k v w)
      | ReqPutAcl b k v acl \<Rightarrow> snd (handle_put_object_acl (tr_fresh2 r) b k v acl w)
      | ReqRetention b k v new bp \<Rightarrow>
          snd (handle_put_object_retention (tr_now r) b k v new bp w)
      | ReqLegalHold b k v s \<Rightarrow> snd (handle_put_object_legal_hold b k v s w)
      | ReqCreateUpload inp \<Rightarrow>
          snd (handle_create_multipart_upload env (tr_now r) (tr_fresh r) inp w)
      | ReqUploadPart inp st \<Rightarrow> snd (upload_part_body env (tr_now r) inp st w)
      | ReqUploadPartCopy b u n src \<Rightarrow>
          snd (handle_upload_part_copy env (tr_now r) b u n src w)
      | ReqComplete b k u ps \<Rightarrow>
          snd (handle_complete_multipart_upload env (tr_now r) (tr_fresh r) (tr_fresh2 r) b k u ps w)
      | ReqAbort b u \<Rightarrow> snd (handle_abort_multipart_upload b u w))"

section \<open>Object Lock in compliance mode\<close>

text \<open>The version \<open>vid\<close> of \<open>k\<close> is under COMPLIANCE retention at least until \<open>until\<close>.\<close>

definition held :: "nat \<Rightarrow> s3_object \<Rightarrow> bool" where
  "held until ob \<longleftrightarrow> md_lock_mode (o_metadata ob) = Some ''COMPLIANCE''
     \<and> (\<exists>u. md_lock_retain_until (o_metadata ob) = Some u \<and> until \<le> u)"

definition keys_ok :: "versioned_store \<Rightarrow> bool" where
  "keys_ok m \<longleftrightarrow> (\<forall>k. \<forall>v\<in>set (vs_versions m k). ov_key v = k)"

definition store_lock :: "string \<Rightarrow> string \<Rightarrow> nat \<Rightarrow> object_store \<Rightarrow> bool" where
  "store_lock k vid until st =
     (case st of
        Unversioned _ \<Rightarrow> False
      | Versioned m \<Rightarrow>
          keys_ok m \<and> (case vs_get_version m k vid of None \<Rightarrow> False | Some ob \<Rightarrow> held until ob))"

definition lock_held :: "string \<Rightarrow> string \<Rightarrow> string \<Rightarrow> nat \<Rightarrow> s3_world \<Rightarrow> bool" where
  "lock_held bucket k vid until w \<longleftrightarrow> bt_get (sw_owners w) bucket \<noteq> None
     \<and> (case get_bucket w bucket of Inl _ \<Rightarrow> False | Inr b \<Rightarrow> store_lock k vid until (bk_objects b))"

text \<open>The ids a request brings: none of them is the id of the locked version (UUIDs are unique).\<close>

definition request_ids :: "timed_request \<Rightarrow> string set" where
  "request_ids r =
     {tr_fresh r, tr_fresh2 r} \<union>
     (case tr_request r of ReqDeleteMany b ids q bp \<Rightarrow> (\<lambda>(k, v, f). f) ` set ids | _ \<Rightarrow> {})"

subsection \<open>The store operations keep a lock\<close>

lemma keys_ok_put: "keys_ok m \<Longrightarrow> keys_ok (vs_put fresh ob m)"
  by (auto simp: keys_ok_def vsh.hist_put)

lemma keys_ok_delete: "keys_ok m \<Longrightarrow> keys_ok (snd (vs_delete fresh now k own m))"
  by (auto simp: keys_ok_def vsh.hist_del)

lemma keys_ok_delete_version: "keys_ok m \<Longrightarrow> keys_ok (snd (vs_delete_version k vid m))"
  using set_drop_version by (fastforce simp: keys_ok_def vsh.hist_del_version)

lemma store_lock_put:
  assumes "store_lock k vid until st"
    and "o_key ob = k \<Longrightarrow> o_version_id (stamp fresh ob) = vid \<Longrightarrow> held until (stamp fresh ob)"
  shows "store_lock k vid until (snd (os_put fresh ob st))"
  using assms
  by (cases st) (auto simp: store_lock_def os_put_def keys_ok_put vsh.get_version_put split: option.splits)

lemma find_drop_other:
  "vid' \<noteq> vid \<Longrightarrow> find_version vid (drop_version vid' vs) = find_version vid vs"
  by (induction vs) auto

lemma vs_get_version_delete_other:
  "k' \<noteq> k \<or> vid' \<noteq> vid \<Longrightarrow>
     vs_get_version (snd (vs_delete_version k' vid' m)) k vid = vs_get_version m k vid"
  by (auto simp: vsh.get_version_hist vsh.hist_del_version find_drop_other)

lemma snd_os_delete:
  "snd (os_delete_version k vid (Versioned m)) = Versioned (snd (vs_delete_version k vid m))"
  "snd (os_delete_versioned fresh now k own (Versioned m)) = Versioned (snd (vs_delete fresh now k own m))"
  by (simp_all add: os_delete_version_def os_delete_versioned_def split_beta)

lemma delete_one_store:
  "delete_one_version now bucket k vid bypass st s = (r, st', s') \<Longrightarrow>
     st' = (case r of Inl e \<Rightarrow> st | Inr x \<Rightarrow> snd (os_delete_version k vid st))"
  by (auto simp: delete_one_version_def split: sum.splits prod.splits)

lemma delete_current_store:
  "delete_current now fresh bucket k st s = (r, st', s') \<Longrightarrow>
     st' = snd (os_delete_versioned fresh now k default_owner st)"
  by (auto simp: delete_current_def split: prod.splits)

lemma store_lock_delete_one:
  assumes "store_lock k vid until st" and "now < until"
    and "delete_one_version now bucket k' vid' bypass st s = (r, st', s')"
  shows "store_lock k vid until st'"
proof -
  obtain m ob where st: "st = Versioned m" "keys_ok m" and ob: "vs_get_version m k vid = Some ob" "held until ob"
    using assms(1) by (auto simp: store_lock_def split: object_store.splits option.splits)
  show ?thesis
  proof (cases "k' = k \<and> vid' = vid")
    case True
    with st ob assms(2) have "\<exists>e. check_object_lock_for_delete now st k' vid' bypass = Inl e"
      by (auto simp: check_object_lock_for_delete_def os_get_version_def held_def split: option.splits)
    with assms(1,3) show ?thesis by (auto simp: delete_one_version_def)
  next
    case False
    then have "vs_get_version (snd (vs_delete_version k' vid' m)) k vid = vs_get_version m k vid"
      by (intro vs_get_version_delete_other) auto
    with st ob have "store_lock k vid until (snd (os_delete_version k' vid' st))"
      by (simp add: snd_os_delete store_lock_def keys_ok_delete_version)
    with assms(1) delete_one_store [OF assms(3)] show ?thesis by (simp split: sum.splits)
  qed
qed

lemma store_lock_delete_current:
  assumes "store_lock k vid until st" and "fresh \<noteq> vid"
    and "delete_current now fresh bucket k' st s = (r, st', s')"
  shows "store_lock k vid until st'"
proof -
  obtain m ob where st: "st = Versioned m" "keys_ok m" and ob: "vs_get_version m k vid = Some ob" "held until ob"
    using assms(1) by (auto simp: store_lock_def split: object_store.splits option.splits)
  have "vs_get_version (snd (vs_delete fresh now k' default_owner m)) k vid = vs_get_version m k vid"
    using assms(2) by (intro vsh.get_version_del) auto
  with st ob delete_current_store [OF assms(3)] show ?thesis
    by (simp add: snd_os_delete store_lock_def keys_ok_delete)
qed

lemma store_lock_delete_loop:
  "store_lock k vid until st \<Longrightarrow> now < until \<Longrightarrow> (\<forall>(k', v', f)\<in>set ids. f \<noteq> vid) \<Longrightarrow>
     delete_objects_loop now bucket bypass ids st s del errs = (r, st', s') \<Longrightarrow>
     store_lock k vid until st'"
proof (induction ids arbitrary: st s del errs)
  case (Cons i ids)
  obtain k1 version_id fresh where i: "i = (k1, version_id, fresh)" by (metis surj_pair)
  show ?case
  proof (cases version_id)
    case None
    obtain d st1 s1 where d: "delete_current now fresh bucket k1 st s = (d, st1, s1)"
      by (metis surj_pair)
    have l: "store_lock k vid until st1"
      using Cons.prems(1,3) d i by (intro store_lock_delete_current [OF _ _ d]) auto
    show ?thesis
      using Cons.prems(2-4) i None d by (intro Cons.IH [OF l]) auto
  next
    case (Some v)
    obtain d st1 s1 where d: "delete_one_version now bucket k1 v bypass st s = (d, st1, s1)"
      by (metis surj_pair)
    have l: "store_lock k vid until st1"
      using Cons.prems(1,2) d by (rule store_lock_delete_one)
    show ?thesis
    proof (cases d)
      case (Inl e)
      show ?thesis
        using Cons.prems(2-4) i Some d Inl by (intro Cons.IH [OF Cons.prems(1)]) auto
    next
      case (Inr x)
      show ?thesis
        using Cons.prems(2-4) i Some d Inr by (intro Cons.IH [OF l]) (auto simp: Let_def)
    qed
  qed
qed simp


text \<open>In-place updates, through \<^verbatim>\<open>get_version_mut\<close> and \<^verbatim>\<open>get_mut\<close>.\<close>

lemma find_version_SomeD:
  "find_version vid vs = Some v \<Longrightarrow> v \<in> set vs \<and> ov_version_id v = vid"
  by (induction vs) (auto split: if_splits)

lemma find_update_version:
  assumes "\<And>ob. o_version_id (f ob) = o_version_id ob" and "update_version v f vs = Some vs'"
  shows "find_version vid vs' =
           (if vid = v then map_option (\<lambda>x. case x of VObject ob \<Rightarrow> VObject (f ob) | _ \<Rightarrow> x)
                              (find_version vid vs)
            else find_version vid vs)"
  using assms(2)
  by (induction vs arbitrary: vs') (auto simp: assms(1) split: if_splits object_version.splits)

lemma find_update_first:
  assumes "\<And>ob. o_version_id (f ob) = o_version_id ob" and "update_first_object f vs = Some vs'"
  shows "find_version vid vs' =
           (if vs \<noteq> [] \<and> vid = ov_version_id (hd vs)
            then map_option (\<lambda>x. case x of VObject ob \<Rightarrow> VObject (f ob) | _ \<Rightarrow> x) (find_version vid vs)
            else find_version vid vs)"
  using assms by (cases "(f, vs)" rule: update_first_object.cases) auto

lemma update_keys:
  assumes "\<And>ob. o_key (f ob) = o_key ob"
  shows "update_version v f vs = Some vs' \<Longrightarrow> map ov_key vs' = map ov_key vs"
    and "update_first_object f vs = Some vs' \<Longrightarrow> map ov_key vs' = map ov_key vs"
proof -
  show "update_version v f vs = Some vs' \<Longrightarrow> map ov_key vs' = map ov_key vs"
    by (induction vs arbitrary: vs') (auto simp: assms split: if_splits object_version.splits)
  show "update_first_object f vs = Some vs' \<Longrightarrow> map ov_key vs' = map ov_key vs"
    using assms by (cases "(f, vs)" rule: update_first_object.cases) auto
qed

lemma keys_ok_insert:
  "keys_ok m \<Longrightarrow> map ov_key vs = map ov_key (vs_versions m k) \<Longrightarrow> keys_ok (bt_insert k vs m)"
proof -
  assume m: "keys_ok m" and vs: "map ov_key vs = map ov_key (vs_versions m k)"
  have "ov_key v = k" if "v \<in> set vs" for v
  proof -
    have "ov_key v \<in> set (map ov_key (vs_versions m k))" using that vs by (metis image_eqI set_map)
    with m show ?thesis by (auto simp: keys_ok_def)
  qed
  with m show ?thesis by (auto simp: keys_ok_def vs_versions_insert)
qed

text \<open>
  An update that keeps key and id acts on one version: the one named, or the newest. It keeps a lock
  when it keeps the lock of the version it acts on.
\<close>

lemma store_lock_update:
  assumes l: "store_lock k vid until st"
    and up: "update_object st k' version_id f = Some st'"
    and f: "\<And>ob. o_version_id (f ob) = o_version_id ob" "\<And>ob. o_key (f ob) = o_key ob"
    and keep: "\<And>ob. find_object st k' version_id = Inr ob \<Longrightarrow> k' = k \<Longrightarrow> o_version_id ob = vid \<Longrightarrow>
                 held until ob \<Longrightarrow> held until (f ob)"
  shows "store_lock k vid until st'"
proof -
  obtain m ob where st: "st = Versioned m" "keys_ok m" and ob: "vs_get_version m k vid = Some ob" "held until ob"
    using l by (auto simp: store_lock_def split: object_store.splits option.splits)
  from ob(1) have fv: "find_version vid (vs_versions m k) = Some (VObject ob)"
    by (auto simp: vsh.get_version_hist bind_eq_Some_conv as_object_Some_iff)
  then have vid: "o_version_id ob = vid" by (auto dest: find_version_SomeD)
  obtain versions vs' where versions: "bt_get m k' = Some versions" and st': "st' = Versioned (bt_insert k' vs' m)"
    and vs': "(case version_id of Some v \<Rightarrow> update_version v f versions
               | None \<Rightarrow> update_first_object f versions) = Some vs'"
    using up st
    by (cases version_id) (auto simp: update_object_def os_update_def os_update_version_def vs_update_def
        vs_update_version_def bind_eq_Some_conv)
  from versions have vv: "vs_versions m k' = versions" by (simp add: vs_versions_def)
  have "map ov_key vs' = map ov_key versions"
    using vs' update_keys [of f, OF f(2)] by (auto split: option.splits)
  then have keys: "keys_ok (bt_insert k' vs' m)"
    using st(2) vv by (intro keys_ok_insert) auto
  have "\<exists>ob'. vs_get_version (bt_insert k' vs' m) k vid = Some ob' \<and> held until ob'"
  proof (cases "k' = k")
    case False
    with ob show ?thesis by (simp add: vsh.get_version_hist vs_versions_insert)
  next
    case True
    let ?hit = "case version_id of Some v \<Rightarrow> v = vid | None \<Rightarrow> versions \<noteq> [] \<and> vid = ov_version_id (hd versions)"
    have fv': "find_version vid vs' = (if ?hit then Some (VObject (f ob)) else Some (VObject ob))"
      using vs' find_update_version [OF f(1), of _ versions vs' vid] find_update_first [OF f(1), of versions vs' vid]
        fv vv True
      by (auto split: option.splits)
    have "held until (f ob)" if hit: ?hit
    proof (rule keep [OF _ True vid ob(2)])
      show "find_object st k' version_id = Inr ob"
      proof (cases version_id)
        case None
        with hit vs' obtain ob1 vs1 where "versions = VObject ob1 # vs1" "o_version_id ob1 = vid"
          by (cases "(f, versions)" rule: update_first_object.cases) auto
        with fv vv True None st show ?thesis
          by (simp add: find_object_def os_get_def vsh.get_hist)
      next
        case (Some v)
        with hit fv vv True st show ?thesis
          by (simp add: find_object_def os_get_version_def vsh.get_version_hist)
      qed
    qed
    with fv' ob(2) True show ?thesis
      by (simp add: vsh.get_version_hist vs_versions_insert)
  qed
  with keys st' show ?thesis by (auto simp: store_lock_def)
qed

text \<open>A copy of a found object that is put back: tags and ACL.\<close>

lemma store_lock_put_back:
  assumes l: "store_lock k vid until st" and found: "find_object st k' version_id = Inr ob"
    and f: "\<And>m. md_lock_mode (f m) = md_lock_mode m" "\<And>m. md_lock_retain_until (f m) = md_lock_retain_until m"
    and fresh: "fresh2 \<noteq> vid"
  shows "store_lock k vid until (snd (os_put fresh2 (update_metadata f ob) st))"
proof (rule store_lock_put [OF l])
  let ?ob = "update_metadata f ob"
  assume k: "o_key ?ob = k" and v: "o_version_id (stamp fresh2 ?ob) = vid"
  obtain m lob where st: "st = Versioned m" "keys_ok m" and lob: "vs_get_version m k vid = Some lob" "held until lob"
    using l by (auto simp: store_lock_def split: object_store.splits option.splits)
  have ids: "o_version_id ?ob = o_version_id ob" "o_key ?ob = o_key ob" by (simp_all add: update_metadata_def)
  have vob: "o_version_id ob = vid" "stamp fresh2 ?ob = ?ob"
    using v fresh by (auto simp: stamp_def ids split: if_splits)
  have hit: "find_version vid (vs_versions m k') = Some (VObject ob)"
  proof (cases version_id)
    case None
    with found st vob(1) show ?thesis
      by (auto simp: find_object_def ok_or_def os_get_def vsh.get_hist as_object_Some_iff
          split: option.splits list.splits)
  next
    case (Some v)
    with found st have v: "find_version v (vs_versions m k') = Some (VObject ob)"
      by (auto simp: find_object_def ok_or_def os_get_version_def vsh.get_version_hist
          bind_eq_Some_conv as_object_Some_iff split: option.splits)
    with vob(1) find_version_SomeD [OF v] show ?thesis by simp
  qed
  then have mem: "VObject ob \<in> set (vs_versions m k')" by (auto dest: find_version_SomeD)
  have "ov_key (VObject ob) = k'" using st(2) mem unfolding keys_ok_def by blast
  then have "k' = k" using k ids by simp
  with lob(1) hit have "lob = ob" by (simp add: vsh.get_version_hist)
  with lob(2) f show "held until (stamp fresh2 ?ob)"
    by (auto simp: vob(2)) (auto simp: held_def update_metadata_def)
qed

subsection \<open>Every request keeps a lock\<close>

lemma lock_held_set_bucket:
  "lock_held bucket k vid until w \<Longrightarrow> get_bucket w nm = Inr b \<Longrightarrow>
     (nm = bucket \<Longrightarrow> store_lock k vid until (bk_objects b) \<Longrightarrow> store_lock k vid until (bk_objects b')) \<Longrightarrow>
     lock_held bucket k vid until (set_bucket nm b' (w\<lparr>sw_storage := s\<rparr>))"
  by (auto simp: lock_held_def)

lemma lock_held_set_bucket':
  "lock_held bucket k vid until w \<Longrightarrow> get_bucket w nm = Inr b \<Longrightarrow>
     (nm = bucket \<Longrightarrow> store_lock k vid until (bk_objects b) \<Longrightarrow> store_lock k vid until (bk_objects b')) \<Longrightarrow>
     lock_held bucket k vid until (set_bucket nm b' w)"
  by (auto simp: lock_held_def)

lemma lock_held_storage:
  "lock_held bucket k vid until (w\<lparr>sw_storage := s\<rparr>) = lock_held bucket k vid until w"
  by (simp add: lock_held_def)

lemma lock_held_cors:
  "lock_held bucket k vid until (w\<lparr>sw_cors := c, sw_storage := s\<rparr>) = lock_held bucket k vid until w"
  by (simp add: lock_held_def get_bucket_def)

lemma store_lock_put_new:
  "store_lock k vid until st \<Longrightarrow> o_version_id ob = new_version_id b fresh \<Longrightarrow> fresh \<noteq> vid \<Longrightarrow>
     fresh2 \<noteq> vid \<Longrightarrow> store_lock k vid until (snd (os_put fresh2 ob st))"
  by (rule store_lock_put) (auto simp: stamp_def new_version_id_def split: if_splits)

lemma keeps_put:
  assumes held: "lock_held bucket k vid until w" and "fresh \<noteq> vid" "fresh2 \<noteq> vid"
  shows "lock_held bucket k vid until (snd (put_object_body env now fresh fresh2 inp up w))"
proof (cases "put_object_body env now fresh fresh2 inp up w")
  case (Pair r w')
  show ?thesis
  proof (cases r)
    case (Inl e)
    with Pair held put_object_body_refused show ?thesis by fastforce
  next
    case (Inr out)
    from Pair [unfolded Inr] show ?thesis
      by (rule put_object_body_ok)
        (use assms in \<open>auto simp: Pair set_objects_def dest!: put_checks_bucket
           intro!: lock_held_set_bucket store_lock_put_new\<close>)
  qed
qed

lemma keeps_delete:
  assumes held: "lock_held bucket k vid until w" and "now < until" "fresh \<noteq> vid"
  shows "lock_held bucket k vid until (snd (handle_delete_object now fresh b' k' v' bp w))"
proof (cases "get_bucket w b'")
  case (Inl e)
  with held show ?thesis by (simp add: handle_delete_object_def)
next
  case (Inr b)
  show ?thesis
  proof (cases v')
    case None
    obtain d st s where d: "delete_current now fresh b' k' (bk_objects b) (sw_storage w) = (d, st, s)"
      by (metis surj_pair)
    from store_lock_delete_current [OF _ assms(3) d] held Inr None d show ?thesis
      by (simp add: handle_delete_object_def set_objects_def lock_held_set_bucket)
  next
    case (Some v)
    obtain d st s where d: "delete_one_version now b' k' v (unwrap_or False bp) (bk_objects b)
        (sw_storage w) = (d, st, s)"
      by (metis surj_pair)
    from store_lock_delete_one [OF _ assms(2) d] held Inr Some d show ?thesis
      by (cases d) (simp_all add: handle_delete_object_def set_objects_def lock_held_set_bucket)
  qed
qed

lemma keeps_delete_many:
  assumes held: "lock_held bucket k vid until w" and "now < until" "\<forall>(k', v', f)\<in>set ids. f \<noteq> vid"
  shows "lock_held bucket k vid until (snd (handle_delete_objects now b' ids q bp w))"
proof (cases "get_bucket w b'")
  case (Inl e)
  with held show ?thesis by (simp add: handle_delete_objects_def)
next
  case (Inr b)
  obtain del errs st s where d: "delete_objects_loop now b' (unwrap_or False bp) ids (bk_objects b)
      (sw_storage w) [] [] = ((del, errs), st, s)"
    by (metis surj_pair)
  from store_lock_delete_loop [OF _ assms(2,3) d] held Inr d show ?thesis
    by (simp add: handle_delete_objects_def set_objects_def lock_held_set_bucket)
qed

lemma keeps_copy:
  assumes held: "lock_held bucket k vid until w" and "fresh \<noteq> vid" "fresh2 \<noteq> vid"
  shows "lock_held bucket k vid until (snd (handle_copy_object env now fresh fresh2 inp w))"
proof (cases "res_bind (validate_object_key (ci_key inp)) (\<lambda>_.
           res_bind (parse_copy_source (env_pct_dec env) (ci_copy_source inp)) (\<lambda>(sb, sk, sv).
           res_bind (copy_source_object w sb sk sv) (\<lambda>src.
           res_bind (get_bucket w (ci_bucket inp)) (\<lambda>b. Inr (sb, sk, sv, src, b)))))")
  case (Inl e)
  with held show ?thesis by (simp add: handle_copy_object_def)
next
  case (Inr t)
  obtain sb sk sv src b where t: "t = (sb, sk, sv, src, b)" by (metis surj_pair)
  with Inr have b: "get_bucket w (ci_bucket inp) = Inr b"
    by (auto simp: res_bind_Inr_iff)
  obtain r s where c: "copy_object_body (env_dg env) UPSTREAM_BODY_LIMIT (sb, sk, o_version_id src)
      (ci_bucket inp, ci_key inp, new_version_id b fresh) (sw_storage w) = (r, s)"
    by (metis surj_pair)
  show ?thesis
    using held Inr t b c assms(2,3)
    by (cases r) (auto simp: handle_copy_object_def Let_def lock_held_storage set_objects_def
        intro!: lock_held_set_bucket store_lock_put_new)
qed

lemma keeps_update:
  "lock_held bucket k vid until w \<Longrightarrow> get_bucket w b' = Inr b \<Longrightarrow>
     (store_lock k vid until (bk_objects b) \<Longrightarrow> store_lock k vid until st) \<Longrightarrow>
     lock_held bucket k vid until (set_objects b' b st w)"
  by (auto simp: set_objects_def intro!: lock_held_set_bucket')

lemma keeps_put_back:
  assumes "lock_held bucket k vid until w"
    "get_bucket w b' = Inr b" "find_object (bk_objects b) k' v' = Inr ob" "fresh2 \<noteq> vid"
    "\<And>m. md_lock_mode (f m) = md_lock_mode m" "\<And>m. md_lock_retain_until (f m) = md_lock_retain_until m"
  shows "lock_held bucket k vid until (put_updated fresh2 b' b (update_metadata f ob) w)"
  unfolding put_updated_def using assms(1,2)
proof (rule keeps_update)
  assume "store_lock k vid until (bk_objects b)"
  from store_lock_put_back [OF this assms(3) assms(5,6,4)]
  show "store_lock k vid until (snd (os_put fresh2 (update_metadata f ob) (bk_objects b)))" .
qed

lemma keeps_tagging:
  assumes held: "lock_held bucket k vid until w" and "fresh2 \<noteq> vid"
  shows "lock_held bucket k vid until (snd (handle_put_object_tagging fresh2 b' k' v' tags w))"
    and "lock_held bucket k vid until (snd (handle_delete_object_tagging fresh2 b' k' v' w))"
    and "lock_held bucket k vid until (snd (handle_put_object_acl fresh2 b' k' v' acl w))"
  using assms
  by (auto simp: handle_put_object_tagging_def handle_delete_object_tagging_def
      handle_put_object_acl_def res_bind_Inr_iff split: sum.splits option.splits
      intro!: keeps_put_back)

lemma update_metadata_ids [simp]:
  "o_version_id (update_metadata f ob) = o_version_id ob" "o_key (update_metadata f ob) = o_key ob"
  by (simp_all add: update_metadata_def)

lemma held_retention:
  assumes "retention_change_allowed now bypass (o_metadata ob) new" "held until ob" "now < until"
  shows "held until (update_metadata (set_retention new) ob)"
proof (cases new)
  case None
  with assms show ?thesis
    by (auto simp: held_def retention_change_allowed_def Let_def split: option.splits)
next
  case (Some r)
  with assms show ?thesis
    by (cases "rt_retain_until r"; cases "rt_mode r")
      (auto simp: held_def retention_change_allowed_def set_retention_def update_metadata_def Let_def
        split: option.splits if_splits)
qed

lemma keeps_retention:
  assumes held: "lock_held bucket k vid until w" and "now < until"
  shows "lock_held bucket k vid until (snd (handle_put_object_retention now b' k' v' new bp w))"
proof (cases "handle_put_object_retention now b' k' v' new bp w")
  case (Pair r w')
  show ?thesis
  proof (cases r)
    case (Inl e)
    with Pair held show ?thesis
      by (auto simp: handle_put_object_retention_def split: sum.splits)
  next
    case (Inr u)
    with Pair obtain b ob st where b: "get_bucket w b' = Inr b"
      and ob: "find_object (bk_objects b) k' v' = Inr ob"
      and ok: "retention_change_allowed now (unwrap_or False bp) (o_metadata ob) new"
      and st: "update_object (bk_objects b) k' v' (update_metadata (set_retention new)) = Some st"
      and w': "w' = set_objects b' b st w"
      by (auto simp: handle_put_object_retention_def res_bind_Inr_iff ok_or_def
          split: sum.splits if_splits option.splits elim!: res_map.elims)
    have "lock_held bucket k vid until (set_objects b' b st w)"
    proof (rule keeps_update [OF held b])
      assume l: "store_lock k vid until (bk_objects b)"
      show "store_lock k vid until st"
        by (rule store_lock_update [OF l st]) (use ob ok assms(2) in \<open>auto intro: held_retention\<close>)
    qed
    with Pair w' show ?thesis by simp
  qed
qed

lemma keeps_legal_hold:
  assumes held: "lock_held bucket k vid until w"
  shows "lock_held bucket k vid until (snd (handle_put_object_legal_hold b' k' v' status w))"
proof (cases "handle_put_object_legal_hold b' k' v' status w")
  case (Pair r w')
  show ?thesis
  proof (cases r)
    case (Inl e)
    with Pair held show ?thesis
      by (auto simp: handle_put_object_legal_hold_def split: sum.splits)
  next
    case (Inr u)
    with Pair obtain b x st where b: "get_bucket w b' = Inr b"
      and st: "update_object (bk_objects b) k' v'
                 (update_metadata (\<lambda>m. m\<lparr>md_lock_legal_hold := Some x\<rparr>)) = Some st"
      and w': "w' = set_objects b' b st w"
      by (auto simp: handle_put_object_legal_hold_def res_bind_Inr_iff ok_or_def
          split: sum.splits if_splits option.splits elim!: res_map.elims)
    have "lock_held bucket k vid until (set_objects b' b st w)"
    proof (rule keeps_update [OF held b])
      assume l: "store_lock k vid until (bk_objects b)"
      show "store_lock k vid until st"
        by (rule store_lock_update [OF l st]) (auto simp: held_def update_metadata_def)
    qed
    with Pair w' show ?thesis by simp
  qed
qed

lemma keeps_versioning:
  assumes held: "lock_held bucket k vid until w"
  shows "lock_held bucket k vid until (snd (handle_put_bucket_versioning b' status w))"
proof -
  have "store_lock k vid until (bk_objects (enable_versioning b))"
    "store_lock k vid until (bk_objects (suspend_versioning b))"
    if "store_lock k vid until (bk_objects b)" for b
    using that by (auto simp: enable_versioning_def suspend_versioning_def store_lock_def
        os_transition_to_versioned_def split: object_store.splits)
  with held show ?thesis
    by (auto simp: handle_put_bucket_versioning_def split: sum.splits option.splits
        intro!: lock_held_set_bucket')
qed

lemma bucket_locked_not_empty: "store_lock k vid until (bk_objects b) \<Longrightarrow> \<not> bucket_is_empty b"
  by (auto simp: store_lock_def bucket_is_empty_def os_is_empty_def vs_get_version_def
      split: object_store.splits)

lemma keeps_delete_bucket:
  assumes held: "lock_held bucket k vid until w"
  shows "lock_held bucket k vid until (snd (handle_delete_bucket b' w))"
proof -
  let ?w = "w\<lparr>sw_cors := cors_delete_rules b' (sw_cors w),
              sw_storage := delete_bucket_data b' (sw_storage w)\<rparr>"
  have w: "lock_held bucket k vid until ?w" using held by (simp add: lock_held_cors)
  show ?thesis
  proof (cases "b' = bucket")
    case True
    with w obtain b where "get_bucket ?w b' = Inr b" "store_lock k vid until (bk_objects b)"
      by (auto simp: lock_held_def split: sum.splits)
    from delete_bucket_keeps [OF this(1) bucket_locked_not_empty [OF this(2)]] w
    show ?thesis by (simp add: handle_delete_bucket_def)
  next
    case False
    with w show ?thesis
      by (auto simp: handle_delete_bucket_def delete_bucket_def lock_held_def get_bucket_def bt.get_rem
          split: sum.splits)
  qed
qed

lemma keeps_create:
  assumes held: "lock_held bucket k vid until w"
  shows "lock_held bucket k vid until (snd (handle_create_bucket env now inp w))"
proof -
  let ?c = "create_bucket now (cb_bucket inp) (unwrap_or (env_region env) (cb_location inp)) default_owner w"
  have c: "lock_held bucket k vid until (snd ?c)"
    using held by (auto simp: create_bucket_def lock_held_def get_bucket_def bt.get_ins split: option.splits)
  have lock: "store_lock k vid until (bk_objects (enable_versioning (b\<lparr>bk_lock_enabled := True\<rparr>)))"
    if "store_lock k vid until (bk_objects b)" for b
    using that by (auto simp: enable_versioning_def store_lock_def os_transition_to_versioned_def
        split: object_store.splits)
  obtain r w' where rw: "?c = (r, w')" by (cases ?c)
  show ?thesis
    using c held lock rw
    by (auto simp: handle_create_bucket_def split: sum.splits intro!: lock_held_set_bucket')
qed

lemma keeps_uploads:
  assumes held: "lock_held bucket k vid until w"
  shows "lock_held bucket k vid until (snd (handle_create_multipart_upload env now uid cinp w))"
    and "lock_held bucket k vid until (snd (upload_part_body env now pinp st w))"
    and "lock_held bucket k vid until (snd (handle_upload_part_copy env now b' uid n src w))"
    and "lock_held bucket k vid until (snd (handle_abort_multipart_upload b' uid w))"
proof -
  show "lock_held bucket k vid until (snd (handle_create_multipart_upload env now uid cinp w))"
    using held by (auto simp: handle_create_multipart_upload_def set_uploads_def res_bind_Inr_iff Let_def
        split: sum.splits intro!: lock_held_set_bucket')
  show "lock_held bucket k vid until (snd (upload_part_body env now pinp st w))"
    using held by (auto simp: upload_part_body_def upload_part_checks_def set_uploads_def res_bind_Inr_iff
        Let_def split: sum.splits prod.splits if_splits elim!: res_map.elims intro!: lock_held_set_bucket)
  show "lock_held bucket k vid until (snd (handle_upload_part_copy env now b' uid n src w))"
    using held by (auto simp: handle_upload_part_copy_def set_uploads_def Let_def lock_held_storage
        split: sum.splits prod.splits option.splits intro!: lock_held_set_bucket)
  show "lock_held bucket k vid until (snd (handle_abort_multipart_upload b' uid w))"
    using held by (auto simp: handle_abort_multipart_upload_def set_uploads_def
        split: sum.splits intro!: lock_held_set_bucket)
qed

lemma keeps_complete:
  assumes held: "lock_held bucket k vid until w" and "fresh \<noteq> vid" "fresh2 \<noteq> vid"
  shows "lock_held bucket k vid until
           (snd (handle_complete_multipart_upload env now fresh fresh2 b' k' uid ps w))"
proof (cases "complete_checks b' uid ps w")
  case (Inl e)
  with held show ?thesis by (simp add: handle_complete_multipart_upload_def)
next
  case (Inr t)
  obtain b u ns where t: "t = (b, u, ns)" by (metis surj_pair)
  with Inr have b: "get_bucket w b' = Inr b" by (auto simp: complete_checks_def res_bind_Inr_iff)
  obtain r s where c: "complete_multipart_body (env_dg env) (env_max_body env) b' uid k'
      (new_version_id b fresh) ns (sw_storage w) = (r, s)" by (metis surj_pair)
  show ?thesis
    using held Inr t b c assms(2,3)
    by (cases r) (auto simp: handle_complete_multipart_upload_def Let_def lock_held_storage
        intro!: lock_held_set_bucket [where b = b]
          store_lock_put_new [where b = b and fresh = fresh])
qed

definition respects_lock :: "string \<Rightarrow> nat \<Rightarrow> timed_request \<Rightarrow> bool" where
  "respects_lock vid until r \<longleftrightarrow> tr_now r < until \<and> vid \<notin> request_ids r"

lemma serve_keeps_lock:
  assumes "lock_held bucket k vid until w" and "respects_lock vid until r"
  shows "lock_held bucket k vid until (serve env w r)"
proof -
  have ids: "tr_fresh r \<noteq> vid" "tr_fresh2 r \<noteq> vid" "tr_now r < until"
    using assms(2) by (auto simp: respects_lock_def request_ids_def)
  have many: "\<forall>(k', v', f)\<in>set l. f \<noteq> vid" if "tr_request r = ReqDeleteMany b' l q bp" for b' l q bp
    using assms(2) that by (force simp: respects_lock_def request_ids_def)
  show ?thesis
  proof (cases "tr_request r")
    case (ReqDeleteMany b' l q bp)
    then show ?thesis
      using keeps_delete_many [OF assms(1) ids(3) many [OF ReqDeleteMany]] by (simp add: serve_def)
  qed (simp_all add: serve_def keeps_put keeps_delete keeps_copy keeps_tagging keeps_retention
      keeps_legal_hold keeps_versioning keeps_delete_bucket keeps_create keeps_uploads keeps_complete assms(1) ids)
qed

interpretation lock: invariant_machine "serve env" "\<lambda>w r. respects_lock vid until r"
  "lock_held bucket k vid until" for env bucket k vid until
  by unfold_locales (rule serve_keeps_lock)

lemma lock_survives:
  "lock_held bucket k vid until w \<Longrightarrow> (\<forall>r\<in>set rs. respects_lock vid until r) \<Longrightarrow>
     lock_held bucket k vid until (run_ops (serve env) w rs)"
  by (rule lock.inv_run [OF _ ok_run_mono]) auto

chapter \<open>The bytes of locked versions\<close>

text \<open>
  The bytes of a version under Object Lock: the storage entry that its id names, and which requests
  leave it alone. Two do not: DeleteBucket clears the entries of the bucket before it looks whether
  the bucket is empty, and a put into a bucket with suspended versioning replaces the entry of the
  null version.
\<close>

definition stored :: "s3_world \<Rightarrow> storage_key \<Rightarrow> stored_data option" where
  "stored w sk = bt_get (bs_objects (sw_storage w)) sk"

text \<open>What a GET of one version by its id returns as its body.\<close>

definition version_get :: "string \<Rightarrow> string \<Rightarrow> string \<Rightarrow> get_input" where
  "version_get bucket k vid = (plain_get bucket k)\<lparr>gi_version_id := Some vid\<rparr>"

definition read_version :: "s3_env \<Rightarrow> string \<Rightarrow> string \<Rightarrow> string \<Rightarrow> s3_world \<Rightarrow> s3_error + string option" where
  "read_version env bucket k vid w = res_map oo_body (handle_get_object env (version_get bucket k vid) w)"

lemma read_version_stored:
  assumes "lock_held bucket k vid until w"
  shows "read_version env bucket k vid w =
     (case stored w (bucket, k, vid) of
        None \<Rightarrow> Inl (NoSuchKey k)
      | Some d \<Rightarrow> res_map Some (read_all UPSTREAM_BODY_LIMIT d))"
proof -
  from assms obtain b m ob where b: "get_bucket w bucket = Inr b" and m: "bk_objects b = Versioned m"
    and ob: "vs_get_version m k vid = Some ob"
    by (auto simp: lock_held_def store_lock_def split: sum.splits object_store.splits option.splits)
  from ob have v: "o_version_id ob = vid"
    by (auto simp: vsh.get_version_hist bind_eq_Some_conv as_object_Some_iff dest: find_version_SomeD)
  have look: "lookup_object (bk_objects b) k (Some vid) = Inr ob"
    using ob by (simp add: lookup_object_def os_get_version_def m)
  have read: "res_map oo_body (res_map fst (res_bind (res_bind d Inr) (\<lambda>data.
      Inr (project_output env g ob (Some data) (length data) None, x)))) = res_map Some d" for g and d :: "s3_error + string" and x
    by (cases d) simp_all
  show ?thesis
    by (cases "bt_get (bs_objects (sw_storage w)) (bucket, k, vid)")
      (auto simp: read_version_def version_get_def handle_get_object_def get_object_body_def plain_get_def b look v
        check_conditions_def read_object_def ok_or_def stored_def read)
qed

lemma read_version_cong:
  "lock_held bucket k vid until w \<Longrightarrow> lock_held bucket k vid until w' \<Longrightarrow>
     stored w' (bucket, k, vid) = stored w (bucket, k, vid) \<Longrightarrow>
     read_version env bucket k vid w' = read_version env bucket k vid w"
  by (simp add: read_version_stored)

section \<open>Which entries the handlers touch\<close>

lemma bt_get_retain_key: "P k \<Longrightarrow> bt_get (bt_retain (\<lambda>k' _. P k') m) k = bt_get m k"
  by (induction m) (auto simp: bt_retain_def)

lemma stored_simps [simp]:
  "stored (set_bucket nm b w) sk = stored w sk"
  "stored (set_objects nm b st w) sk = stored w sk"
  "stored (set_uploads nm b us w) sk = stored w sk"
  "stored (w\<lparr>sw_storage := s\<rparr>) sk = bt_get (bs_objects s) sk"
  "stored (put_updated fresh2 nm b ob w) sk = stored w sk"
  "bs_objects (sw_storage (set_objects nm b st w)) = bs_objects (sw_storage w)"
  "bs_objects (sw_storage (set_uploads nm b us w)) = bs_objects (sw_storage w)"
  "bs_objects (sw_storage (set_bucket nm b w)) = bs_objects (sw_storage w)"
  by (simp_all add: stored_def set_bucket_def set_objects_def set_uploads_def put_updated_def)

lemma new_version_id_other: "fresh \<noteq> vid \<Longrightarrow> vid \<noteq> ''null'' \<Longrightarrow> vid \<noteq> new_version_id b fresh"
  by (simp add: new_version_id_def)

lemma stored_put:
  assumes "fresh \<noteq> vid" "vid \<noteq> ''null''"
  shows "stored (snd (put_object_body env now fresh fresh2 inp up w)) (bucket, k, vid) = stored w (bucket, k, vid)"
proof (cases "put_object_body env now fresh fresh2 inp up w")
  case (Pair r w')
  show ?thesis
  proof (cases r)
    case (Inl e)
    with Pair put_object_body_refused show ?thesis by fastforce
  next
    case (Inr out)
    from Pair [unfolded Inr] show ?thesis
      by (rule put_object_body_ok)
        (use new_version_id_other [OF assms] in \<open>auto simp: Pair readable_write_body_other stored_def\<close>)
  qed
qed

lemma copy_object_body_other:
  "copy_object_body dg lim src dst s = (r, s') \<Longrightarrow> sk \<noteq> dst \<Longrightarrow> bt_get (bs_objects s') sk = bt_get (bs_objects s) sk"
  by (cases src; cases dst)
    (auto simp: copy_object_body_def write_object_def write_staged_object_def Let_def bt.get_ins
      split: option.splits sum.splits prod.splits)

lemma stored_copy:
  assumes "fresh \<noteq> vid" "vid \<noteq> ''null''"
  shows "stored (snd (handle_copy_object env now fresh fresh2 inp w)) (bucket, k, vid) = stored w (bucket, k, vid)"
  using new_version_id_other [OF assms]
  by (auto simp: handle_copy_object_def Let_def stored_def [of w] dest!: copy_object_body_other [where sk = "(bucket, k, vid)"]
      split: sum.splits prod.splits)

lemma complete_multipart_body_other:
  "complete_multipart_body dg mx b uid k v ns s = (r, s') \<Longrightarrow> sk \<noteq> (b, k, v) \<Longrightarrow>
     bt_get (bs_objects s') sk = bt_get (bs_objects s) sk"
  by (auto simp: complete_multipart_body_def Let_def bt.get_ins split: sum.splits)

lemma stored_complete:
  assumes "fresh \<noteq> vid" "vid \<noteq> ''null''"
  shows "stored (snd (handle_complete_multipart_upload env now fresh fresh2 b' k' uid ps w)) (bucket, k, vid) =
     stored w (bucket, k, vid)"
  using new_version_id_other [OF assms]
  by (auto simp: handle_complete_multipart_upload_def Let_def stored_def [of w]
      dest!: complete_multipart_body_other [where sk = "(bucket, k, vid)"] split: sum.splits prod.splits)

lemma stored_uploads:
  "stored (snd (handle_create_multipart_upload env now uid cinp w)) sk = stored w sk"
  "stored (snd (upload_part_body env now pinp st w)) sk = stored w sk"
  "stored (snd (handle_upload_part_copy env now b' uid n src w)) sk = stored w sk"
  "stored (snd (handle_abort_multipart_upload b' uid w)) sk = stored w sk"
proof -
  show "stored (snd (handle_create_multipart_upload env now uid cinp w)) sk = stored w sk"
    by (auto simp: handle_create_multipart_upload_def Let_def split: sum.splits)
  have part: "bs_objects (snd (write_part_body env nm uid n st d s)) = bs_objects s" for nm uid n d s
    by (simp add: write_part_body_def split: option.splits)
  show "stored (snd (upload_part_body env now pinp st w)) sk = stored w sk"
    by (auto simp: upload_part_body_def Let_def split_beta part stored_def [of w] split: sum.splits)
  show "stored (snd (handle_upload_part_copy env now b' uid n src w)) sk = stored w sk"
    by (auto simp: handle_upload_part_copy_def write_part_def write_staged_part_def Let_def stored_def
        split: sum.splits prod.splits option.splits elim!: res_map.elims)
  show "stored (snd (handle_abort_multipart_upload b' uid w)) sk = stored w sk"
    by (auto simp: handle_abort_multipart_upload_def stored_def [of w] split: sum.splits)
qed

lemma stored_config:
  "stored (snd (handle_put_object_tagging fresh2 b' k' v' tags w)) sk = stored w sk"
  "stored (snd (handle_delete_object_tagging fresh2 b' k' v' w)) sk = stored w sk"
  "stored (snd (handle_put_object_acl fresh2 b' k' v' acl w)) sk = stored w sk"
  "stored (snd (handle_put_object_retention now b' k' v' new bp w)) sk = stored w sk"
  "stored (snd (handle_put_object_legal_hold b' k' v' status w)) sk = stored w sk"
  "stored (snd (handle_put_bucket_versioning b' status w)) sk = stored w sk"
  by (auto simp: handle_put_object_tagging_def handle_delete_object_tagging_def handle_put_object_acl_def
      handle_put_object_retention_def handle_put_object_legal_hold_def handle_put_bucket_versioning_def
      split: sum.splits option.splits)

lemma stored_create: "stored (snd (handle_create_bucket env now inp w)) sk = stored w sk"
  by (auto simp: handle_create_bucket_def create_bucket_def split: sum.splits option.splits)
    (auto simp: stored_def set_bucket_def)

lemma stored_delete_bucket:
  "b' \<noteq> bucket \<Longrightarrow> stored (snd (handle_delete_bucket b' w)) (bucket, k, vid) = stored w (bucket, k, vid)"
  by (auto simp: handle_delete_bucket_def delete_bucket_def stored_def delete_bucket_data_def bt_get_retain_key
      split: sum.splits)

subsection \<open>Deletions\<close>

lemma remove_version_id: "remove_version vid vs = Some (v, rest) \<Longrightarrow> ov_version_id v = vid"
  by (induction vs arbitrary: rest) (auto split: if_splits)

lemma vs_delete_version_id: "fst (vs_delete_version k' vid' m) = Some v \<Longrightarrow> ov_version_id v = vid'"
  by (auto simp: vs_delete_version_def split: option.splits dest: remove_version_id)

lemma delete_one_entry:
  assumes "b' = bucket \<Longrightarrow> store_lock k vid until st" and "now < until"
    and d: "delete_one_version now b' k' vid' bypass st s = (r, st', s')"
  shows "bt_get (bs_objects s') (bucket, k, vid) = bt_get (bs_objects s) (bucket, k, vid)"
proof (cases "b' = bucket")
  case False
  with d show ?thesis
    by (auto simp: delete_one_version_def delete_object_body_def bt.get_rem split: sum.splits prod.splits option.splits)
next
  case True
  then obtain m ob where st: "st = Versioned m" and ob: "vs_get_version m k vid = Some ob" "held until ob"
    using assms(1) by (auto simp: store_lock_def split: object_store.splits option.splits)
  show ?thesis
  proof (cases "k' = k \<and> vid' = vid")
    case True
    with st ob assms(2) have "\<exists>e. check_object_lock_for_delete now st k' vid' bypass = Inl e"
      by (auto simp: check_object_lock_for_delete_def os_get_version_def held_def split: option.splits)
    with d show ?thesis by (auto simp: delete_one_version_def)
  next
    case False
    then have "(b', k', ov_version_id v) \<noteq> (bucket, k, vid)"
      if "fst (os_delete_version k' vid' st) = Some v" for v
      using that vs_delete_version_id [of k' vid' m v] st by (auto simp: os_delete_version_def split: prod.splits)
    with d show ?thesis
      by (auto simp: delete_one_version_def delete_object_body_def bt.get_rem split: sum.splits prod.splits option.splits)
  qed
qed

lemma delete_current_entry:
  assumes "vid \<noteq> ''null''" and "delete_current now fresh b' k' st s = (r, st', s')"
  shows "bt_get (bs_objects s') (bucket, k, vid) = bt_get (bs_objects s) (bucket, k, vid)"
  using assms by (auto simp: delete_current_def delete_object_body_def bt.get_rem split: prod.splits)

lemma delete_loop_entry:
  "(b' = bucket \<Longrightarrow> store_lock k vid until st) \<Longrightarrow> now < until \<Longrightarrow> vid \<noteq> ''null'' \<Longrightarrow>
     (\<forall>(k', v', f)\<in>set ids. f \<noteq> vid) \<Longrightarrow>
     delete_objects_loop now b' bypass ids st s del errs = (r, st', s') \<Longrightarrow>
     bt_get (bs_objects s') (bucket, k, vid) = bt_get (bs_objects s) (bucket, k, vid)"
proof (induction ids arbitrary: st s del errs)
  case (Cons i ids)
  obtain k1 version_id fresh where i: "i = (k1, version_id, fresh)" by (metis surj_pair)
  show ?case
  proof (cases version_id)
    case None
    obtain d st1 s1 where d: "delete_current now fresh b' k1 st s = (d, st1, s1)" by (metis surj_pair)
    have l: "b' = bucket \<Longrightarrow> store_lock k vid until st1"
      using Cons.prems(1,4) d i by (intro store_lock_delete_current [OF _ _ d]) auto
    have "bt_get (bs_objects s') (bucket, k, vid) = bt_get (bs_objects s1) (bucket, k, vid)"
      using Cons.prems(2-5) i None d by (intro Cons.IH [OF l]) auto
    with delete_current_entry [OF Cons.prems(3) d] show ?thesis by simp
  next
    case (Some v)
    obtain d st1 s1 where d: "delete_one_version now b' k1 v bypass st s = (d, st1, s1)" by (metis surj_pair)
    note one = delete_one_entry [OF Cons.prems(1,2) d]
    have l: "b' = bucket \<Longrightarrow> store_lock k vid until st1"
      using Cons.prems(1,2) d by (blast intro: store_lock_delete_one)
    show ?thesis
    proof (cases d)
      case (Inl e)
      then have "st1 = st" "s1 = s" using d by (auto simp: delete_one_version_def split: sum.splits prod.splits)
      then show ?thesis using Cons.prems(2-5) i Some d Inl by (intro Cons.IH [OF Cons.prems(1)]) auto
    next
      case (Inr x)
      have "bt_get (bs_objects s') (bucket, k, vid) = bt_get (bs_objects s1) (bucket, k, vid)"
        using Cons.prems(2-5) i Some d Inr by (intro Cons.IH [OF l]) (auto simp: Let_def)
      with one show ?thesis by simp
    qed
  qed
qed simp

lemma lock_held_store:
  "lock_held bucket k vid until w \<Longrightarrow> get_bucket w bucket = Inr b \<Longrightarrow> store_lock k vid until (bk_objects b)"
  by (simp add: lock_held_def)

lemma stored_delete:
  assumes "lock_held bucket k vid until w" and "now < until" "vid \<noteq> ''null''"
  shows "stored (snd (handle_delete_object now fresh b' k' v' bp w)) (bucket, k, vid) = stored w (bucket, k, vid)"
proof (cases "get_bucket w b'")
  case (Inr b)
  show ?thesis
  proof (cases v')
    case None
    obtain d st s where d: "delete_current now fresh b' k' (bk_objects b) (sw_storage w) = (d, st, s)"
      by (metis surj_pair)
    with Inr None delete_current_entry [OF assms(3) d] show ?thesis
      by (simp add: handle_delete_object_def stored_def [of w])
  next
    case (Some v)
    obtain d st s where d: "delete_one_version now b' k' v (unwrap_or False bp) (bk_objects b)
        (sw_storage w) = (d, st, s)"
      by (metis surj_pair)
    have "b' = bucket \<Longrightarrow> store_lock k vid until (bk_objects b)" using lock_held_store [OF assms(1)] Inr by blast
    from delete_one_entry [OF this assms(2) d] Inr Some d show ?thesis
      by (cases d) (simp_all add: handle_delete_object_def stored_def [of w])
  qed
qed (simp add: handle_delete_object_def)

lemma stored_delete_many:
  assumes "lock_held bucket k vid until w" and "now < until" "vid \<noteq> ''null''" "\<forall>(k', v', f)\<in>set ids. f \<noteq> vid"
  shows "stored (snd (handle_delete_objects now b' ids q bp w)) (bucket, k, vid) = stored w (bucket, k, vid)"
proof (cases "get_bucket w b'")
  case (Inr b)
  obtain del errs st s where d: "delete_objects_loop now b' (unwrap_or False bp) ids (bk_objects b)
      (sw_storage w) [] [] = ((del, errs), st, s)"
    by (metis surj_pair)
  have "b' = bucket \<Longrightarrow> store_lock k vid until (bk_objects b)" using lock_held_store [OF assms(1)] Inr by blast
  from delete_loop_entry [OF this assms(2-4) d] Inr d show ?thesis
    by (simp add: handle_delete_objects_def stored_def [of w])
qed (simp add: handle_delete_objects_def)

section \<open>Every run\<close>

lemma serve_keeps_body:
  assumes "lock_held bucket k vid until w" and "respects_lock vid until r"
    and "vid \<noteq> ''null''" and "tr_request r \<noteq> ReqDeleteBucket bucket"
  shows "stored (serve env w r) (bucket, k, vid) = stored w (bucket, k, vid)"
proof -
  have ids: "tr_fresh r \<noteq> vid" "tr_now r < until"
    using assms(2) by (auto simp: respects_lock_def request_ids_def)
  show ?thesis
  proof (cases "tr_request r")
    case (ReqDeleteMany b' l q bp)
    then have "\<forall>(k', v', f)\<in>set l. f \<noteq> vid"
      using assms(2) by (force simp: respects_lock_def request_ids_def)
    from stored_delete_many [OF assms(1) ids(2) assms(3) this] ReqDeleteMany show ?thesis by (simp add: serve_def)
  qed (use assms ids in \<open>simp_all add: serve_def stored_put stored_copy stored_complete stored_uploads stored_config
      stored_create stored_delete_bucket stored_delete\<close>)
qed

definition body_kept :: "string \<Rightarrow> string \<Rightarrow> string \<Rightarrow> nat \<Rightarrow> stored_data option \<Rightarrow> s3_world \<Rightarrow> bool" where
  "body_kept bucket k vid until d w \<longleftrightarrow> lock_held bucket k vid until w \<and> stored w (bucket, k, vid) = d"

definition spares_body :: "string \<Rightarrow> string \<Rightarrow> nat \<Rightarrow> timed_request \<Rightarrow> bool" where
  "spares_body bucket vid until r \<longleftrightarrow>
     respects_lock vid until r \<and> vid \<noteq> ''null'' \<and> tr_request r \<noteq> ReqDeleteBucket bucket"

interpretation locked_body: invariant_machine "serve env" "\<lambda>w r. spares_body bucket vid until r"
  "body_kept bucket k vid until d" for env bucket k vid until d
  by unfold_locales (auto simp: body_kept_def spares_body_def serve_keeps_lock serve_keeps_body)

lemma locked_body_survives:
  assumes "lock_held bucket k vid until w" and "\<forall>r\<in>set rs. spares_body bucket vid until r"
  shows "read_version env' bucket k vid (run_ops (serve env) w rs) = read_version env' bucket k vid w"
proof -
  have "body_kept bucket k vid until (stored w (bucket, k, vid)) w" using assms(1) by (simp add: body_kept_def)
  then have "body_kept bucket k vid until (stored w (bucket, k, vid)) (run_ops (serve env) w rs)"
    by (rule locked_body.inv_run [OF _ ok_run_mono]) (use assms(2) in auto)
  then show ?thesis using read_version_cong [OF assms(1)] by (simp add: body_kept_def)
qed

text \<open>
  The null version of a bucket with suspended versioning: any put of the key replaces its bytes, locked or
  not, while its record stays as it was.
\<close>

lemma suspended_put_overwrites_null:
  assumes "put_object_body env now fresh fresh2 inp up w = (Inr out, w')"
    and "get_bucket w (pi_bucket inp) = Inr b" "bk_versioning b = Suspended"
  shows "body_of (sw_storage w') (pi_bucket inp, pi_key inp, ''null'') = Some (put_body inp up)"
proof -
  from assms(1) obtain b' meta cksum ob where c: "put_checks env inp up w = Inr (b', meta, cksum)"
    and w': "w' = set_objects (pi_bucket inp) b' (snd (os_put fresh2 ob (bk_objects b')))
            (w\<lparr>sw_storage := snd (write_body env (pi_bucket inp) (pi_key inp) (new_version_id b' fresh)
                                  up (put_body inp up) (sw_storage w))\<rparr>)"
    by (rule put_object_body_ok)
  have "new_version_id b' fresh = ''null''"
    using put_checks_bucket [OF c] assms(2,3) by (simp add: new_version_id_def is_versioning_enabled_def)
  then show ?thesis by (auto simp: w' set_objects_def write_body_facts put_body_def split: option.splits)
qed

end
