(* ===== verification/S3_Invariant.thy ===== *)
theory S3_Invariant
  imports S3_Requests
begin

text \<open>
  The invariant of the whole service, \<open>world_wf\<close>: every request keeps it, except the three that put a
  modified copy of an object under its old version id (tags and ACL), which is shown at the end.
\<close>

definition version_ids :: "object_store \<Rightarrow> string \<Rightarrow> string set" where
  "version_ids st k =
     (case st of Unversioned _ \<Rightarrow> {} | Versioned m \<Rightarrow> ov_version_id ` set (vs_versions m k))"

definition unused_in :: "object_store \<Rightarrow> string \<Rightarrow> bool" where
  "unused_in st x \<longleftrightarrow> (\<forall>k. x \<notin> version_ids st k)"

definition unused_id :: "s3_world \<Rightarrow> string \<Rightarrow> bool" where
  "unused_id w x \<longleftrightarrow> (\<forall>nm b. get_bucket w nm = Inr b \<longrightarrow> unused_in (bk_objects b) x)"

text \<open>
  The ids that a request brings are unused and pairwise different (UUIDs), and it is none of the
  three requests that re-put an object.
\<close>

definition admissible :: "s3_world \<Rightarrow> timed_request \<Rightarrow> bool" where
  "admissible w r \<longleftrightarrow>
     (\<forall>x\<in>request_ids r. unused_id w x)
     \<and> (case tr_request r of
          ReqPutTagging _ _ _ _ \<Rightarrow> False
        | ReqDeleteTagging _ _ _ \<Rightarrow> False
        | ReqPutAcl _ _ _ _ \<Rightarrow> False
        | ReqDeleteMany _ ids _ _ \<Rightarrow> distinct (map (\<lambda>(k, v, f). f) ids)
        | _ \<Rightarrow> True)"

section \<open>Stores\<close>

lemma os_wf_put:
  assumes "os_wf st" and "o_version_id (stamp fresh ob) \<notin> version_ids st (o_key ob)"
  shows "os_wf (snd (os_put fresh ob st))"
  using assms
  by (cases st) (auto simp: os_wf_def os_put_def version_ids_def split_beta vs_wf_put ks_wf_put)

lemma os_is_versioned_put [simp]: "os_is_versioned (snd (os_put fresh ob st)) = os_is_versioned st"
  by (cases st) (simp_all add: os_put_def os_is_versioned_def split_beta)

lemma os_wf_delete_versioned:
  assumes "os_wf st" and "fresh \<notin> version_ids st k"
  shows "os_wf (snd (os_delete_versioned fresh now k own st))"
  using assms
  by (cases st)
    (auto simp: os_wf_def os_delete_versioned_def version_ids_def split_beta vs_wf_delete ks_wf_delete)

lemma os_wf_delete_version: "os_wf st \<Longrightarrow> os_wf (snd (os_delete_version k vid st))"
  by (cases st)
    (auto simp: os_wf_def os_delete_version_def split_beta vs_wf_delete_version ks_wf_delete)

lemma os_is_versioned_delete [simp]:
  "os_is_versioned (snd (os_delete_versioned fresh now k own st)) = os_is_versioned st"
  "os_is_versioned (snd (os_delete_version k vid st)) = os_is_versioned st"
  by (cases st; simp add: os_delete_versioned_def os_delete_version_def os_is_versioned_def split_beta)+

lemma version_ids_delete:
  "version_ids (snd (os_delete_versioned fresh now k' own st)) k \<subseteq> insert fresh (version_ids st k)"
  "version_ids (snd (os_delete_version k' vid st)) k \<subseteq> version_ids st k"
  using set_drop_version
  by (cases st; fastforce simp: version_ids_def os_delete_versioned_def os_delete_version_def split_beta
      vsh.hist_del vsh.hist_del_version split: if_splits)+

definition same_ids :: "object_version list \<Rightarrow> object_version list \<Rightarrow> bool" where
  "same_ids vs vs' \<longleftrightarrow> map ov_version_id vs' = map ov_version_id vs \<and> map ov_key vs' = map ov_key vs"

lemma vs_wf_same_ids:
  assumes m: "vs_wf m" and get: "bt_get m k = Some vs" and same: "same_ids vs vs'"
  shows "vs_wf (bt_insert k vs' m)"
proof (rule vs_wf_insert [OF m])
  have mem: "(k, vs) \<in> set m" using get by (rule bt_get_mem)
  with m have vs: "vs \<noteq> []" "\<forall>v\<in>set vs. ov_key v = k" "distinct (map ov_version_id vs)"
    by (auto simp: vs_wf_def)
  show "vs' \<noteq> []" using vs(1) same by (auto simp: same_ids_def)
  show "distinct (map ov_version_id vs')" using vs(3) same by (simp add: same_ids_def)
  show "\<forall>v\<in>set vs'. ov_key v = k"
  proof
    fix v assume "v \<in> set vs'"
    then have "ov_key v \<in> set (map ov_key vs')" by simp
    also have "\<dots> = set (map ov_key vs)" using same by (simp add: same_ids_def)
    finally show "ov_key v = k" using vs(2) by auto
  qed
qed

lemma update_same_ids:
  assumes "\<And>ob. o_version_id (f ob) = o_version_id ob" "\<And>ob. o_key (f ob) = o_key ob"
  shows "update_version v f vs = Some vs' \<Longrightarrow> same_ids vs vs'"
    and "update_first_object f vs = Some vs' \<Longrightarrow> same_ids vs vs'"
proof -
  show "update_version v f vs = Some vs' \<Longrightarrow> same_ids vs vs'"
    by (induction vs arbitrary: vs')
      (auto simp: assms same_ids_def split: if_splits object_version.splits)
  show "update_first_object f vs = Some vs' \<Longrightarrow> same_ids vs vs'"
    using assms by (cases "(f, vs)" rule: update_first_object.cases) (auto simp: same_ids_def)
qed

lemma os_wf_update:
  assumes st: "os_wf st" and up: "update_object st k vid f = Some st'"
    and f: "\<And>ob. o_version_id (f ob) = o_version_id ob" "\<And>ob. o_key (f ob) = o_key ob"
  shows "os_wf st' \<and> os_is_versioned st' = os_is_versioned st"
proof (cases st)
  case (Versioned m)
  with up obtain vs vs' where get: "bt_get m k = Some vs" and st': "st' = Versioned (bt_insert k vs' m)"
    and "(case vid of Some v \<Rightarrow> update_version v f vs | None \<Rightarrow> update_first_object f vs) = Some vs'"
    by (cases vid) (auto simp: update_object_def os_update_def os_update_version_def vs_update_def
        vs_update_version_def bind_eq_Some_conv)
  then have "same_ids vs vs'" by (cases vid) (auto intro: update_same_ids [OF f])
  with st Versioned get st' show ?thesis
    by (auto simp: os_wf_def os_is_versioned_def intro: vs_wf_same_ids)
next
  case (Unversioned m)
  with up obtain ob where get: "bt_get m k = Some ob" and st': "st' = Unversioned (bt_insert k (f ob) m)"
    by (cases vid) (auto simp: update_object_def os_update_def os_update_version_def ks_update_def
        split: if_splits)
  have "o_key ob = k" using bt_get_mem [OF get] st Unversioned by (auto simp: os_wf_def ks_wf_def)
  with st Unversioned st' f show ?thesis
    by (auto simp: os_wf_def ks_wf_def os_is_versioned_def bt_wf_insert dest!: set_bt_insert)
qed

section \<open>Every admissible request keeps the invariant\<close>

lemma world_wf_set_objects:
  assumes "world_wf w" and "get_bucket w nm = Inr b" and "os_wf st"
    and "os_is_versioned st = os_is_versioned (bk_objects b)"
  shows "world_wf (set_objects nm b st w)"
  unfolding set_objects_def
  using assms world_wf_bucket [OF assms(1,2)]
  by (intro world_wf_set_bucket) (auto simp: bucket_wf_def)

lemma world_wf_set_objects_storage:
  assumes "world_wf w" and "get_bucket w nm = Inr b" and "os_wf st"
    and "os_is_versioned st = os_is_versioned (bk_objects b)" and "bs_wf s"
  shows "world_wf (set_objects nm b st (w\<lparr>sw_storage := s\<rparr>))"
  using assms by (intro world_wf_set_objects world_wf_storage) auto

lemma world_wf_os: "world_wf w \<Longrightarrow> get_bucket w nm = Inr b \<Longrightarrow> os_wf (bk_objects b)"
  by (auto simp: bucket_wf_def dest: world_wf_bucket)

lemma world_wf_bs: "world_wf w \<Longrightarrow> bs_wf (sw_storage w)"
  by (simp add: world_wf_def)

lemma os_wf_put_new:
  assumes "os_wf st" "o_version_id ob = new_version_id b fresh" "unused_in st fresh" "unused_in st fresh2"
  shows "os_wf (snd (os_put fresh2 ob st))"
  using assms by (intro os_wf_put) (auto simp: stamp_def new_version_id_def unused_in_def split: if_splits)

lemma bs_wf_write_body: "bs_wf s \<Longrightarrow> bs_wf (snd (write_body env b k v up d s))"
  by (auto simp: write_body_def split: option.splits)

lemma wf_put:
  assumes w: "world_wf w" and ids: "unused_id w fresh" "unused_id w fresh2"
  shows "world_wf (snd (put_object_body env now fresh fresh2 inp up w))"
proof (cases "put_object_body env now fresh fresh2 inp up w")
  case (Pair r w')
  show ?thesis
  proof (cases r)
    case (Inl e)
    with Pair w put_object_body_refused show ?thesis by fastforce
  next
    case (Inr out)
    from Pair [unfolded Inr] show ?thesis
    proof (rule put_object_body_ok)
      fix b meta ck ob
      assume c: "put_checks env inp up w = Inr (b, meta, ck)" and k: "o_key ob = pi_key inp"
        and v: "o_version_id ob = new_version_id b fresh"
        and w': "w' = set_objects (pi_bucket inp) b (snd (os_put fresh2 ob (bk_objects b)))
            (w\<lparr>sw_storage := snd (write_body env (pi_bucket inp) (pi_key inp) (new_version_id b fresh)
                                  up (put_body inp up) (sw_storage w))\<rparr>)"
      note b = put_checks_bucket [OF c]
      have "os_wf (snd (os_put fresh2 ob (bk_objects b)))"
        using world_wf_os [OF w b] v ids b by (intro os_wf_put_new) (auto simp: unused_id_def)
      then show ?thesis
        using w b world_wf_bs [OF w]
        by (simp add: Pair w' world_wf_set_objects_storage bs_wf_write_body)
    qed
  qed
qed

lemma wf_delete_one:
  assumes "os_wf st" "bs_wf s" "delete_one_version now b k vid bp st s = (r, st', s')"
  shows "os_wf st' \<and> bs_wf s' \<and> os_is_versioned st' = os_is_versioned st
    \<and> (\<forall>k. version_ids st' k \<subseteq> version_ids st k)"
  using assms version_ids_delete(2) [of k vid st] delete_one_store [OF assms(3)]
  by (auto simp: delete_one_version_def os_wf_delete_version split: sum.splits prod.splits option.splits)

lemma wf_delete_current:
  assumes "os_wf st" "bs_wf s" "unused_in st fresh" "delete_current now fresh b k st s = (r, st', s')"
  shows "os_wf st' \<and> bs_wf s' \<and> os_is_versioned st' = os_is_versioned st
    \<and> (\<forall>k. version_ids st' k \<subseteq> insert fresh (version_ids st k))"
  using assms version_ids_delete(1) [of fresh now k default_owner st] delete_current_store [OF assms(4)]
  by (auto simp: delete_current_def unused_in_def os_wf_delete_versioned
      split: sum.splits prod.splits option.splits if_splits)

lemma wf_delete_loop:
  "os_wf st \<Longrightarrow> bs_wf s \<Longrightarrow> distinct (map (\<lambda>(k, v, f). f) ids) \<Longrightarrow>
     (\<forall>(k, v, f)\<in>set ids. unused_in st f) \<Longrightarrow>
     delete_objects_loop now b bp ids st s del errs = (r, st', s') \<Longrightarrow>
     os_wf st' \<and> bs_wf s' \<and> os_is_versioned st' = os_is_versioned st"
proof (induction ids arbitrary: st s del errs)
  case (Cons i ids)
  obtain k1 version_id fresh where i: "i = (k1, version_id, fresh)" by (metis surj_pair)
  show ?case
  proof (cases version_id)
    case None
    obtain d st1 s1 where d: "delete_current now fresh b k1 st s = (d, st1, s1)"
      by (metis surj_pair)
    have wf: "os_wf st1 \<and> bs_wf s1 \<and> os_is_versioned st1 = os_is_versioned st
        \<and> (\<forall>k. version_ids st1 k \<subseteq> insert fresh (version_ids st k))"
      using Cons.prems(1,2,4) i by (intro wf_delete_current [OF _ _ _ d]) auto
    have "\<forall>(k, v, f)\<in>set ids. unused_in st1 f"
    proof (clarify)
      fix k v f assume f: "(k, v, f) \<in> set ids"
      then have "f \<noteq> fresh" using Cons.prems(3) i by force
      moreover have "unused_in st f" using Cons.prems(4) f by auto
      ultimately show "unused_in st1 f" using wf by (auto simp: unused_in_def)
    qed
    with wf Cons.prems(3,5) Cons.IH [of st1 s1] i None d show ?thesis by fastforce
  next
    case (Some v)
    obtain d st1 s1 where d: "delete_one_version now b k1 v bp st s = (d, st1, s1)"
      by (metis surj_pair)
    have wf: "os_wf st1 \<and> bs_wf s1 \<and> os_is_versioned st1 = os_is_versioned st
        \<and> (\<forall>k. version_ids st1 k \<subseteq> version_ids st k)"
      using Cons.prems(1,2) by (intro wf_delete_one [OF _ _ d]) auto
    then have un: "\<forall>(k, v, f)\<in>set ids. unused_in st1 f"
      using Cons.prems(4) by (force simp: unused_in_def)
    show ?thesis
    proof (cases d)
      case (Inl e)
      with Cons.prems Cons.IH [of st s] i Some d show ?thesis by fastforce
    next
      case (Inr x)
      with wf un Cons.prems(3,5) Cons.IH [of st1 s1] i Some d show ?thesis
        by (fastforce simp: Let_def)
    qed
  qed
qed auto

lemma wf_delete:
  assumes w: "world_wf w" and id: "unused_id w fresh"
  shows "world_wf (snd (handle_delete_object now fresh b' k v bp w))"
proof (cases "get_bucket w b'")
  case (Inl e)
  with w show ?thesis by (simp add: handle_delete_object_def)
next
  case (Inr b)
  note wf = world_wf_os [OF w Inr] world_wf_bs [OF w]
  show ?thesis
  proof (cases v)
    case None
    obtain d st s where d: "delete_current now fresh b' k (bk_objects b) (sw_storage w) = (d, st, s)"
      by (metis surj_pair)
    from wf_delete_current [OF wf _ d] id Inr None d w show ?thesis
      by (simp add: handle_delete_object_def world_wf_set_objects_storage unused_id_def)
  next
    case (Some vid)
    obtain d st s where d: "delete_one_version now b' k vid (unwrap_or False bp) (bk_objects b)
        (sw_storage w) = (d, st, s)"
      by (metis surj_pair)
    from wf_delete_one [OF wf d] Inr Some d w show ?thesis
      by (cases d) (simp_all add: handle_delete_object_def world_wf_set_objects_storage)
  qed
qed

lemma wf_delete_many:
  assumes w: "world_wf w" and "distinct (map (\<lambda>(k, v, f). f) ids)" "\<forall>(k, v, f)\<in>set ids. unused_id w f"
  shows "world_wf (snd (handle_delete_objects now b' ids q bp w))"
proof (cases "get_bucket w b'")
  case (Inl e)
  with w show ?thesis by (simp add: handle_delete_objects_def)
next
  case (Inr b)
  obtain del errs st s where d: "delete_objects_loop now b' (unwrap_or False bp) ids (bk_objects b)
      (sw_storage w) [] [] = ((del, errs), st, s)"
    by (metis surj_pair)
  have "\<forall>(k, v, f)\<in>set ids. unused_in (bk_objects b) f"
    using assms(3) Inr by (auto simp: unused_id_def)
  from wf_delete_loop [OF world_wf_os [OF w Inr] world_wf_bs [OF w] assms(2) this d] Inr d w
  show ?thesis by (simp add: handle_delete_objects_def world_wf_set_objects_storage)
qed

lemma bs_wf_copy: "bs_wf s \<Longrightarrow> copy_object_body dg lim src dst s = (r, s') \<Longrightarrow> bs_wf s'"
  by (auto simp: copy_object_body_def split: prod.splits option.splits sum.splits
      dest!: arg_cong [where f = snd])

lemma bs_wf_insert_object: "bs_wf s \<Longrightarrow> bs_wf (s\<lparr>bs_objects := bt_insert sk d (bs_objects s)\<rparr>)"
  by (simp add: bs_wf_def bt_wf_insert)

lemma bs_wf_complete:
  "bs_wf s \<Longrightarrow> complete_multipart_body dg mx b uid k v ns s = (r, s') \<Longrightarrow> bs_wf s'"
  by (auto simp: complete_multipart_body_def Let_def bs_wf_insert_object split: sum.splits)

lemma wf_copy:
  assumes w: "world_wf w" and ids: "unused_id w fresh" "unused_id w fresh2"
  shows "world_wf (snd (handle_copy_object env now fresh fresh2 inp w))"
proof (cases "res_bind (validate_object_key (ci_key inp)) (\<lambda>_.
           res_bind (parse_copy_source (env_pct_dec env) (ci_copy_source inp)) (\<lambda>(sb, sk, sv).
           res_bind (copy_source_object w sb sk sv) (\<lambda>src.
           res_bind (get_bucket w (ci_bucket inp)) (\<lambda>b. Inr (sb, sk, sv, src, b)))))")
  case (Inl e)
  with w show ?thesis by (simp add: handle_copy_object_def)
next
  case (Inr t)
  obtain sb sk sv src b where t: "t = (sb, sk, sv, src, b)" by (metis surj_pair)
  with Inr have b: "get_bucket w (ci_bucket inp) = Inr b"
    by (auto simp: res_bind_Inr_iff)
  obtain r s where c: "copy_object_body (env_dg env) UPSTREAM_BODY_LIMIT (sb, sk, o_version_id src)
      (ci_bucket inp, ci_key inp, new_version_id b fresh) (sw_storage w) = (r, s)"
    by (metis surj_pair)
  note s = bs_wf_copy [OF world_wf_bs [OF w] c]
  have un: "unused_in (bk_objects b) fresh" "unused_in (bk_objects b) fresh2"
    using ids b by (auto simp: unused_id_def)
  show ?thesis
    using w Inr t b c s
    by (cases r) (auto simp: handle_copy_object_def Let_def world_wf_storage
        intro!: world_wf_set_objects_storage os_wf_put_new [where b = b and fresh = fresh]
          world_wf_os un)
qed

lemma world_wf_set_uploads:
  "world_wf w \<Longrightarrow> get_bucket w nm = Inr b \<Longrightarrow> world_wf (set_uploads nm b us w)"
  unfolding set_uploads_def
  by (rule world_wf_set_bucket) (auto simp: bucket_wf_def dest: world_wf_bucket)

lemma world_wf_set_uploads_storage:
  "world_wf w \<Longrightarrow> get_bucket w nm = Inr b \<Longrightarrow> bs_wf s \<Longrightarrow>
     world_wf (set_uploads nm b us (w\<lparr>sw_storage := s\<rparr>))"
  by (intro world_wf_set_uploads world_wf_storage) auto

lemma bs_wf_write_part_body:
  "bs_wf s \<Longrightarrow> write_part_body env b uid n st d s = (r, s') \<Longrightarrow> bs_wf s'"
  by (auto simp: write_part_body_def split: option.splits dest!: arg_cong [where f = snd])

lemma bs_wf_parts_eq:
  "bs_wf s \<Longrightarrow> write_part dg b uid n d s = (r, s') \<Longrightarrow> bs_wf s'"
  "bs_wf s \<Longrightarrow> write_staged_part b uid n u s = (r, s') \<Longrightarrow> bs_wf s'"
  by (auto dest!: arg_cong [where f = snd])

lemma wf_uploads:
  assumes w: "world_wf w"
  shows "world_wf (snd (handle_create_multipart_upload env now uid cinp w))"
    and "world_wf (snd (upload_part_body env now pinp st w))"
    and "world_wf (snd (handle_upload_part_copy env now b' uid n src w))"
    and "world_wf (snd (handle_abort_multipart_upload b' uid w))"
proof -
  note bs = world_wf_bs [OF w]
  show "world_wf (snd (handle_create_multipart_upload env now uid cinp w))"
    using w by (auto simp: handle_create_multipart_upload_def res_bind_Inr_iff Let_def
        split: sum.splits intro!: world_wf_set_uploads)
  show "world_wf (snd (upload_part_body env now pinp st w))"
    using w bs by (auto simp: upload_part_body_def upload_part_checks_def res_bind_Inr_iff
        Let_def split: sum.splits prod.splits if_splits elim!: res_map.elims
        intro!: world_wf_set_uploads_storage dest: bs_wf_write_part_body)
  show "world_wf (snd (handle_abort_multipart_upload b' uid w))"
    using w bs by (auto simp: handle_abort_multipart_upload_def
        split: sum.splits intro!: world_wf_set_uploads_storage)
  show "world_wf (snd (handle_upload_part_copy env now b' uid n src w))"
    using w bs by (auto simp: handle_upload_part_copy_def Let_def
        split: sum.splits prod.splits option.splits elim!: res_map.elims
        intro!: world_wf_set_uploads_storage world_wf_storage dest: bs_wf_parts_eq bs_wf_parts_eq(1) [OF _ sym])
qed

lemma wf_complete:
  assumes w: "world_wf w" and ids: "unused_id w fresh" "unused_id w fresh2"
  shows "world_wf (snd (handle_complete_multipart_upload env now fresh fresh2 b' k' uid ps w))"
proof (cases "complete_checks b' uid ps w")
  case (Inl e)
  with w show ?thesis by (simp add: handle_complete_multipart_upload_def)
next
  case (Inr t)
  obtain b u ns where t: "t = (b, u, ns)" by (metis surj_pair)
  with Inr have b: "get_bucket w b' = Inr b" by (auto simp: complete_checks_def res_bind_Inr_iff)
  obtain r s where c: "complete_multipart_body (env_dg env) (env_max_body env) b' uid k'
      (new_version_id b fresh) ns (sw_storage w) = (r, s)" by (metis surj_pair)
  note s = bs_wf_complete [OF world_wf_bs [OF w] c]
  have wfb: "bucket_wf (b\<lparr>bk_objects := snd (os_put fresh2 ob (bk_objects b)), bk_uploads := us\<rparr>)"
    if "o_version_id ob = new_version_id b fresh" for ob us
    using world_wf_bucket [OF w b] os_wf_put_new [OF world_wf_os [OF w b] that, of fresh2] ids b
    by (auto simp: bucket_wf_def unused_id_def)
  show ?thesis
    using w Inr t b c s
    by (cases r) (auto simp: handle_complete_multipart_upload_def Let_def world_wf_storage
        intro!: world_wf_set_bucket [where b' = b] wfb)
qed

lemma wf_retention: "world_wf w \<Longrightarrow> world_wf (snd (handle_put_object_retention now b' k v new bp w))"
  by (auto simp: handle_put_object_retention_def res_bind_Inr_iff ok_or_def
      split: sum.splits if_splits option.splits elim!: res_map.elims
      intro!: world_wf_set_objects
      dest!: os_wf_update [OF world_wf_os, where f = "update_metadata (set_retention new)"])

lemma wf_legal_hold: "world_wf w \<Longrightarrow> world_wf (snd (handle_put_object_legal_hold b' k v st w))"
  by (auto simp: handle_put_object_legal_hold_def res_bind_Inr_iff ok_or_def
      split: sum.splits if_splits option.splits elim!: res_map.elims
      intro!: world_wf_set_objects
      dest!: os_wf_update [OF world_wf_os,
        where f = "update_metadata (\<lambda>m. m\<lparr>md_lock_legal_hold := Some x\<rparr>)" for x])

lemma serve_world_wf:
  assumes w: "world_wf w" and ok: "admissible w r"
  shows "world_wf (serve env w r)"
proof -
  have ids: "unused_id w (tr_fresh r)" "unused_id w (tr_fresh2 r)"
    using ok by (auto simp: admissible_def request_ids_def)
  have many: "\<forall>(k', v', f)\<in>set l. unused_id w f" "distinct (map (\<lambda>(k, v, f). f) l)"
    if "tr_request r = ReqDeleteMany b' l q bp" for b' l q bp
    using ok that by (force simp: admissible_def request_ids_def)+
  show ?thesis
  proof (cases "tr_request r")
    case (ReqDeleteMany b' l q bp)
    then show ?thesis
      using wf_delete_many [OF w many(2,1) [OF ReqDeleteMany]] by (simp add: serve_def)
  qed (use ok w ids in \<open>simp_all add: serve_def admissible_def world_wf_handle_create
        world_wf_handle_delete world_wf_put_versioning wf_put wf_delete wf_copy wf_retention
        wf_legal_hold wf_uploads wf_complete\<close>)
qed

interpretation service: rooted_machine "serve env" admissible world_wf "empty_world n" for env n
  by unfold_locales (auto intro: serve_world_wf world_wf_empty)

section \<open>Tags on an old version\<close>

text \<open>
  \<^verbatim>\<open>put_object_tagging\<close> puts the modified copy with \<^verbatim>\<open>ObjectStore::put\<close>, which prepends it: tagging an
  old version makes that version the current one, and its id then occurs twice in the history.
\<close>

lemma tagging_reorders:
  assumes b: "get_bucket w bucket = Inr b" "bk_objects b = Versioned m"
    and old: "vs_get_version m k vid = Some ob" "o_key ob = k" "vid \<noteq> ''null''"
    and tags: "validate_tags tags = Inr ()"
  shows "\<exists>b'. get_bucket (snd (handle_put_object_tagging fresh2 bucket k (Some vid) tags w)) bucket = Inr b'
           \<and> os_get (bk_objects b') k = Some (update_metadata (\<lambda>x. x\<lparr>md_tagging := tags\<rparr>) ob)
           \<and> \<not> os_wf (bk_objects b')"
proof -
  let ?ob = "update_metadata (\<lambda>x. x\<lparr>md_tagging := tags\<rparr>) ob"
  from old(1) have fv: "find_version vid (vs_versions m k) = Some (VObject ob)"
    by (auto simp: vsh.get_version_hist bind_eq_Some_conv as_object_Some_iff)
  then have mem: "VObject ob \<in> set (vs_versions m k)" and vid: "o_version_id ob = vid"
    by (auto dest: find_version_SomeD)
  have stamp: "stamp fresh2 ?ob = ?ob" using vid old(3) by (simp add: stamp_def)
  let ?b = "b\<lparr>bk_objects := Versioned (vs_put fresh2 ?ob m)\<rparr>"
  have "find_object (bk_objects b) k (Some vid) = Inr ob"
    using b old(1) by (simp add: find_object_def os_get_version_def)
  with b tags have "get_bucket (snd (handle_put_object_tagging fresh2 bucket k (Some vid) tags w)) bucket = Inr ?b"
    by (simp add: handle_put_object_tagging_def put_updated_def set_objects_def os_put_def)
  moreover have "os_get (Versioned (vs_put fresh2 ?ob m)) k = Some ?ob"
    using old(2) stamp by (simp add: os_get_def vsh.get_put)
  moreover have "\<not> vs_wf (vs_put fresh2 ?ob m)"
  proof
    assume "vs_wf (vs_put fresh2 ?ob m)"
    from vs_wf_distinct [OF this, of k] mem vid old(2) stamp show False
      by (force simp: vsh.hist_put)
  qed
  ultimately show ?thesis by (intro exI [of _ ?b]) (simp add: os_wf_def)
qed

end
