(* ===== verification/S3_List_Ops.thy ===== *)
theory S3_List_Ops
  imports S3_Listing S3_Service
begin

text \<open>
  The listing handlers of \<^verbatim>\<open>rustack-s3-core/src/ops/list.rs\<close>. The limits are \<^verbatim>\<open>i32\<close> request
  parameters; the objects of a response are the stored ones, projected to the fields of the reply.
\<close>

definition validate_max_keys :: "int option \<Rightarrow> s3_error + nat" where
  "validate_max_keys m =
     (let v = unwrap_or 1000 m
      in if v < 0
         then Inl (InvalidArgument ''Argument max-keys must be an integer between 0 and 1000'')
         else Inr (nat v))"

record listed_object =
  lo_key :: string
  lo_etag :: string
  lo_last_modified :: nat
  lo_owner :: "s3_owner option"
  lo_size :: nat
  lo_storage_class :: string

definition to_model_object :: "s3_object \<Rightarrow> listed_object" where
  "to_model_object ob = \<lparr>lo_key = o_key ob, lo_etag = o_etag ob,
     lo_last_modified = o_last_modified ob, lo_owner = Some (o_owner ob), lo_size = o_size ob,
     lo_storage_class = o_storage_class ob\<rparr>"

record list_input =
  li_bucket :: string
  li_prefix :: "string option"
  li_delimiter :: "string option"
  li_max_keys :: "int option"

record list_output =
  lt_contents :: "listed_object list"
  lt_common_prefixes :: "string list"
  lt_is_truncated :: bool
  lt_max_keys :: nat
  lt_next :: "string option"

definition handle_list_objects ::
  "list_input \<Rightarrow> string option \<Rightarrow> s3_world \<Rightarrow> s3_error + list_output" where
  "handle_list_objects inp marker w =
     res_bind (get_bucket w (li_bucket inp)) (\<lambda>b.
     res_bind (validate_max_keys (li_max_keys inp)) (\<lambda>mx.
     let r = os_list_objects (bk_objects b) (unwrap_or [] (li_prefix inp))
               (unwrap_or [] (li_delimiter inp)) (unwrap_or [] marker) mx
     in Inr \<lparr>lt_contents = map to_model_object (lr_objects r),
             lt_common_prefixes = lr_common_prefixes r, lt_is_truncated = lr_is_truncated r,
             lt_max_keys = mx,
             lt_next = (if lr_is_truncated r then lr_next_marker r else None)\<rparr>))"

definition handle_list_objects_v2 ::
  "s3_env \<Rightarrow> list_input \<Rightarrow> string option \<Rightarrow> string option \<Rightarrow> bool option \<Rightarrow> s3_world
     \<Rightarrow> s3_error + list_output" where
  "handle_list_objects_v2 env inp token start_after fetch_owner w =
     res_bind (get_bucket w (li_bucket inp)) (\<lambda>b.
     res_bind (validate_max_keys (li_max_keys inp)) (\<lambda>mx.
     res_bind (case token of
                 None \<Rightarrow> Inr None
               | Some t \<Rightarrow> res_map Some (decode_continuation_token (env_b64_dec env) t)) (\<lambda>decoded.
     let from_key = (case decoded of Some t \<Rightarrow> t | None \<Rightarrow> unwrap_or [] start_after);
         r = os_list_objects (bk_objects b) (unwrap_or [] (li_prefix inp))
               (unwrap_or [] (li_delimiter inp)) from_key mx
     in Inr \<lparr>lt_contents =
               map (\<lambda>ob. let x = to_model_object ob
                         in if unwrap_or False fetch_owner then x else x\<lparr>lo_owner := None\<rparr>)
                 (lr_objects r),
             lt_common_prefixes = lr_common_prefixes r, lt_is_truncated = lr_is_truncated r,
             lt_max_keys = mx,
             lt_next = (if lr_is_truncated r
                        then map_option (encode_continuation_token (env_b64_enc env))
                               (lr_next_marker r)
                        else None)\<rparr>)))"

fun partition_version_list_entries ::
  "version_list_entry list \<Rightarrow> (s3_object \<times> bool) list \<times> (delete_marker \<times> bool) list" where
  "partition_version_list_entries [] = ([], [])"
| "partition_version_list_entries (e # es) =
     (case partition_version_list_entries es of
        (vs, dms) \<Rightarrow>
          (case ve_version e of
             VObject ob \<Rightarrow> ((ob, ve_is_latest e) # vs, dms)
           | VMarker dm \<Rightarrow> (vs, (dm, ve_is_latest e) # dms)))"

record list_versions_output =
  lv_versions :: "(s3_object \<times> bool) list"
  lv_delete_markers :: "(delete_marker \<times> bool) list"
  lv_common_prefixes :: "string list"
  lv_is_truncated :: bool
  lv_max_keys :: nat
  lv_next_key_marker :: "string option"
  lv_next_version_id_marker :: "string option"

text \<open>\<open>None\<close> is the panic of the keystore.\<close>

definition handle_list_object_versions ::
  "list_input \<Rightarrow> string option \<Rightarrow> string option \<Rightarrow> s3_world
     \<Rightarrow> (s3_error + list_versions_output) option" where
  "handle_list_object_versions inp key_marker version_id_marker w =
     (if version_id_marker \<noteq> None \<and> key_marker = None
      then Some (Inl (InvalidArgument
             ''A version-id marker cannot be specified without a key marker''))
      else
        (case res_bind (get_bucket w (li_bucket inp)) (\<lambda>b.
              res_map (\<lambda>mx. (b, mx)) (validate_max_keys (li_max_keys inp))) of
           Inl e \<Rightarrow> Some (Inl e)
         | Inr (b, mx) \<Rightarrow>
             map_option
               (\<lambda>r. case partition_version_list_entries (vr_versions r) of
                  (vs, dms) \<Rightarrow>
                    Inr \<lparr>lv_versions = vs, lv_delete_markers = dms,
                         lv_common_prefixes = vr_common_prefixes r,
                         lv_is_truncated = vr_is_truncated r, lv_max_keys = mx,
                         lv_next_key_marker = vr_next_key_marker r,
                         lv_next_version_id_marker = vr_next_version_id_marker r\<rparr>)
               (os_list_object_versions (bk_objects b) (unwrap_or [] (li_prefix inp))
                  (unwrap_or [] (li_delimiter inp)) (unwrap_or [] key_marker)
                  (unwrap_or [] version_id_marker) mx)))"

section \<open>A client that follows the continuation tokens\<close>

text \<open>
  It repeats ListObjectsV2 with the token of the last page while pages are truncated; \<open>None\<close> is
  out of fuel, an error, or a truncated page without token.
\<close>

fun v2_pages ::
  "nat \<Rightarrow> s3_env \<Rightarrow> list_input \<Rightarrow> string option \<Rightarrow> s3_world \<Rightarrow> string list option" where
  "v2_pages 0 env inp token w = None"
| "v2_pages (Suc fuel) env inp token w =
     (case handle_list_objects_v2 env inp token None None w of
        Inl _ \<Rightarrow> None
      | Inr out \<Rightarrow>
          if \<not> lt_is_truncated out then Some (map lo_key (lt_contents out))
          else (case lt_next out of
                  None \<Rightarrow> None
                | Some t \<Rightarrow>
                    map_option (\<lambda>rest. map lo_key (lt_contents out) @ rest)
                      (v2_pages fuel env inp (Some t) w)))"

text \<open>The objects a listing is about: the current ones, in key order.\<close>

definition current :: "object_store \<Rightarrow> s3_object list" where
  "current st = (case st of Unversioned m \<Rightarrow> bt_values m | Versioned m \<Rightarrow> current_objects m)"

lemma os_list_objects_current:
  "os_list_objects st pre delim sa mx = list_from_btree (current st) pre delim sa mx"
  by (cases st) (simp_all add: os_list_objects_def current_def ks_list_objects_def vs_list_objects_def)

lemma to_model_key [simp]: "lo_key (to_model_object ob) = o_key ob"
  by (simp add: to_model_object_def)

lemma lo_key_no_owner [simp]:
  "lo_key (let x = to_model_object ob in if p then x else x\<lparr>lo_owner := None\<rparr>) = o_key ob"
  by (simp add: Let_def)

lemma plain_objects_nth:
  "i < length (plain_objects pre delim sa objs) \<Longrightarrow>
     \<exists>ob\<in>set objs. o_key (plain_objects pre delim sa objs ! i) = o_key ob"
  using nth_mem [of i "plain_objects pre delim sa objs"] by (auto simp: plain_objects_def)

lemma v2_pages_list_pages:
  assumes b: "get_bucket w (li_bucket inp) = Inr b" and mx: "validate_max_keys (li_max_keys inp) = Inr mx"
    and b64: "\<And>s. env_b64_dec env (env_b64_enc env s) = Some s"
    and utf8: "\<forall>ob\<in>set (current (bk_objects b)). utf8_valid (map byte_of (o_key ob))"
    and token: "(case token of
                   None \<Rightarrow> sa = []
                 | Some t \<Rightarrow> decode_continuation_token (env_b64_dec env) t = Inr sa)"
  shows "v2_pages fuel env inp token w =
           map_option (map o_key) (list_pages fuel (current (bk_objects b))
             (unwrap_or [] (li_prefix inp)) (unwrap_or [] (li_delimiter inp)) sa mx)"
  using token
proof (induction fuel arbitrary: token sa)
  case (Suc fuel)
  let ?pre = "unwrap_or [] (li_prefix inp)" and ?delim = "unwrap_or [] (li_delimiter inp)"
  let ?r = "list_from_btree (current (bk_objects b)) ?pre ?delim sa mx"
  have out: "handle_list_objects_v2 env inp token None None w =
      Inr \<lparr>lt_contents = map (\<lambda>ob. (to_model_object ob)\<lparr>lo_owner := None\<rparr>) (lr_objects ?r),
           lt_common_prefixes = lr_common_prefixes ?r, lt_is_truncated = lr_is_truncated ?r,
           lt_max_keys = mx,
           lt_next = (if lr_is_truncated ?r
                      then map_option (env_b64_enc env) (lr_next_marker ?r) else None)\<rparr>"
    using Suc.prems b mx
    by (cases token)
      (simp_all add: handle_list_objects_v2_def os_list_objects_current Let_def
        encode_continuation_token_def [abs_def])
  have keys: "map lo_key (map (\<lambda>ob. (to_model_object ob)\<lparr>lo_owner := None\<rparr>) (lr_objects ?r))
      = map o_key (lr_objects ?r)" by simp
  show ?case
  proof (cases "lr_is_truncated ?r \<and> lr_next_marker ?r \<noteq> None")
    case False
    with out keys show ?thesis by (auto simp: Let_def)
  next
    case True
    then obtain m where m: "lr_next_marker ?r = Some m" by blast
    from m have "\<exists>ob\<in>set (current (bk_objects b)). m = o_key ob"
      using plain_objects_nth [of "mx - 1" ?pre ?delim sa "current (bk_objects b)"]
      by (auto simp: list_from_btree_next_marker split: if_splits)
    then have "utf8_valid (map byte_of m)" using utf8 by blast
    then have "decode_continuation_token (env_b64_dec env) (env_b64_enc env m) = Inr m"
      using continuation_token_roundtrip [of "env_b64_dec env" "env_b64_enc env" m] b64
      by (simp add: encode_continuation_token_def)
    then have "v2_pages fuel env inp (Some (env_b64_enc env m)) w =
        map_option (map o_key) (list_pages fuel (current (bk_objects b)) ?pre ?delim m mx)"
      by (intro Suc.IH) simp
    with out keys m True show ?thesis
      by (simp add: Let_def option.map_comp comp_def)
  qed
qed simp

lemma sorted_current:
  assumes "os_wf st"
  shows "sorted_wrt (<) (map o_key (current st))"
proof (cases st)
  case (Unversioned m)
  with assms have "bt_wf m" "\<forall>e\<in>set m. o_key (snd e) = fst e" by (auto simp: os_wf_def ks_wf_def)
  then have "map o_key (bt_values m) = map fst m" "sorted_wrt (<) (map fst m)"
    by (auto simp: bt_values_def bt_wf_def)
  with Unversioned show ?thesis by (simp add: current_def)
next
  case (Versioned m)
  with assms have "vs_wf m" by (simp add: os_wf_def)
  then have "bt_wf m" and keys: "\<forall>e\<in>set m. \<forall>v\<in>set (snd e). ov_key v = fst e" by (auto simp: vs_wf_def)
  then have "sorted_wrt (<) (map o_key (current_objects m))
      \<and> (\<forall>ob\<in>set (current_objects m). \<exists>e\<in>set m. o_key ob = fst e)"
  proof (induction m)
    case (Cons e m)
    obtain k vs where e: "e = (k, vs)" by fastforce
    from Cons have IH: "sorted_wrt (<) (map o_key (current_objects m))"
      "\<forall>ob\<in>set (current_objects m). \<exists>e\<in>set m. o_key ob = fst e" by auto
    show ?case
    proof (cases "\<exists>ob rest. vs = VObject ob # rest")
      case True
      then obtain ob rest where vs: "vs = VObject ob # rest" by blast
      with Cons.prems(2) e have "o_key ob = k" by auto
      moreover have "current_objects (e # m) = ob # current_objects m"
        using e vs by (simp add: current_objects_def bt_values_def List.map_filter_simps)
      ultimately show ?thesis using IH Cons.prems(1) e by fastforce
    next
      case False
      then have "current_objects (e # m) = current_objects m"
        using e by (auto simp: current_objects_def bt_values_def List.map_filter_simps
            split: list.splits object_version.splits)
          (metis object_version.exhaust ov_is_delete_marker.simps(2))+
      with IH show ?thesis by auto
    qed
  qed (simp add: current_objects_def bt_values_def List.map_filter_simps)
  with Versioned show ?thesis by (simp add: current_def)
qed

text \<open>Following the tokens yields every matching key exactly once, in key order.\<close>

lemma v2_pages_complete:
  assumes "os_wf (bk_objects b)" and "get_bucket w (li_bucket inp) = Inr b"
    and "validate_max_keys (li_max_keys inp) = Inr mx" "0 < mx"
    and "\<And>s. env_b64_dec env (env_b64_enc env s) = Some s"
    and keys: "\<forall>ob\<in>set (current (bk_objects b)). o_key ob \<noteq> [] \<and> utf8_valid (map byte_of (o_key ob))"
    and fuel: "length (current (bk_objects b)) < fuel"
  shows "v2_pages fuel env inp None w =
           Some (map o_key (plain_objects (unwrap_or [] (li_prefix inp)) (unwrap_or [] (li_delimiter inp)) []
                   (current (bk_objects b))))"
proof -
  have "length (plain_objects pre delim [] objs) \<le> length objs" for pre delim objs
    by (simp add: plain_objects_def)
  then have "length (plain_objects (unwrap_or [] (li_prefix inp)) (unwrap_or [] (li_delimiter inp)) []
      (current (bk_objects b))) < fuel" using fuel by (rule le_less_trans)
  from list_pages_complete [OF sorted_current [OF assms(1)] _ assms(4) this] keys
    v2_pages_list_pages [OF assms(2,3,5), where token = None and sa = "[]" and fuel = fuel]
  show ?thesis by simp
qed

end
