(* ===== verification/S3_Properties.thy ===== *)
theory S3_Properties
  imports S3_Invariant S3_List_Ops S3_Requests
begin

text \<open>
  The properties of the S3 service, with their witnesses. The concrete environment of the witnesses
  uses the identity for the encodings and digests.
\<close>

definition demo_env :: s3_env where
  "demo_env = \<lparr>
     env_dg = \<lparr>dg_md5 = (\<lambda>s. s), dg_hex = (\<lambda>s. s), dg_unhex = Some\<rparr>,
     env_hash = (\<lambda>_ s. s), env_b64_enc = (\<lambda>s. s), env_b64_dec = Some, env_pct_dec = Some,
     env_rfc2822 = show_nat, env_region = ''us-east-1'', env_max_body = 1000\<rparr>"

definition demo_headers :: object_headers where
  "demo_headers = \<lparr>
     oh_content_type = None, oh_content_encoding = None, oh_content_disposition = None,
     oh_content_language = None, oh_cache_control = None, oh_expires = None, oh_metadata = [],
     oh_sse = None, oh_sse_kms_key_id = None, oh_bucket_key_enabled = None,
     oh_sse_customer_algorithm = None, oh_sse_customer_key_md5 = None, oh_tagging = None,
     oh_acl = None, oh_lock_mode = None, oh_lock_retain_until = None, oh_lock_legal_hold = None\<rparr>"

definition demo_put :: "string \<Rightarrow> string \<Rightarrow> put_input" where
  "demo_put k body = \<lparr>pi_bucket = ''logs'', pi_key = k, pi_body = Some body, pi_content_md5 = None,
     pi_checksums = no_checksum_headers, pi_storage_class = None, pi_headers = demo_headers\<rparr>"

definition demo_bucket :: s3_bucket where
  "demo_bucket = bucket_new 1 ''logs'' ''us-east-1'' default_owner"

definition world_of :: "s3_bucket \<Rightarrow> s3_world" where
  "world_of b = \<lparr>sw_buckets = [(''logs'', b)], sw_owners = [(''logs'', ''me'')],
                 sw_storage = bs_new 10, sw_cors = []\<rparr>"

lemma world_wf_of: "bucket_wf b \<Longrightarrow> world_wf (world_of b)"
  by (simp add: world_wf_def world_of_def bs_wf_def bs_new_def)

lemma get_bucket_of [simp]: "get_bucket (world_of b) nm = (if nm = ''logs'' then Inr b else Inl (NoSuchBucket nm))"
  by (simp add: get_bucket_def world_of_def)

lemma world_of_simps [simp]:
  "sw_storage (world_of b) = bs_new 10" "bs_objects (bs_new n) = []" "bs_parts (bs_new n) = []"
  "gi_bucket (plain_get nm k) = nm"
  by (simp_all add: world_of_def bs_new_def plain_get_def)

lemma demo_bucket_wf: "bucket_wf demo_bucket"
  unfolding demo_bucket_def by (rule bucket_wf_new)

section \<open>Reading what was written\<close>

text \<open>
  C1. A GET that follows an accepted PUT of the same key returns exactly the stored bytes, restricted
  to the bytes a Range header selects (and fails exactly when the range is refused), with the ETag
  and version id that the PUT reported; in every bucket whose versioning is not suspended.
\<close>

theorem put_then_get:
  assumes "world_wf w" and "put_object_body env now fresh fresh2 inp up w = (Inr out, w')"
    and "get_bucket w (pi_bucket inp) = Inr b" "bk_versioning b \<noteq> Suspended" "fresh \<noteq> ''null''"
    and "length (put_body inp up) \<le> UPSTREAM_BODY_LIMIT"
    and "gi_bucket g = pi_bucket inp" "gi_key g = pi_key inp" "gi_version_id g = None"
      "gi_if_match g = None" "gi_if_none_match g = None"
  shows "res_map oo_body (handle_get_object env g w') =
           res_map Some (selected (gi_range g) (put_body inp up))
    \<and> (\<forall>o'. handle_get_object env g w' = Inr o' \<longrightarrow>
           oo_etag o' = po_etag out \<and> oo_version_id o' = po_version_id out)"
  using get_after_put [OF assms] by blast

lemma demo_put_ok:
  "put_object_body demo_env 5 ''v1'' ''v2'' (demo_put ''a'' ''hello'') None (world_of demo_bucket) =
     (Inr \<lparr>po_etag = [CHR 0x22] @ ''hello'' @ [CHR 0x22], po_version_id = None,
           po_checksums = no_checksum_headers\<lparr>ch_crc32 := Some ''hello''\<rparr>,
           po_checksum_type = FullObject\<rparr>,
      snd (put_object_body demo_env 5 ''v1'' ''v2'' (demo_put ''a'' ''hello'') None
             (world_of demo_bucket)))"
  by (simp add: put_object_body_def put_checks_def demo_put_def demo_env_def validate_object_key_def
      validate_content_md5_def build_metadata_def demo_headers_def validate_metadata_def
      extract_checksum_def no_checksum_headers_def put_body_def compute_checksum_def Let_def
      write_body_def write_object_def compute_md5_def quoted_def new_version_id_def demo_bucket_def
      bucket_new_def is_versioning_enabled_def real_version_id_def checksum_to_output_fields_def
      checksum_type_of_def)

theorem put_then_get_witness:
  "res_map oo_body (handle_get_object demo_env (plain_get ''logs'' ''a'')
       (snd (put_object_body demo_env 5 ''v1'' ''v2'' (demo_put ''a'' ''hello'') None
               (world_of demo_bucket)))) = Inr (Some ''hello'')"
  using put_then_get [OF world_wf_of [OF demo_bucket_wf] demo_put_ok, of demo_bucket "plain_get ''logs'' ''a''"]
  by (simp add: demo_put_def plain_get_def demo_bucket_def bucket_new_def put_body_def selected_def
      UPSTREAM_BODY_LIMIT_def)

text \<open>
  A PUT, accepted or refused, leaves every other object alone: a GET of another key or bucket
  (any version, range or condition, buffered or streamed) returns exactly what it returned before.
\<close>

theorem put_isolated:
  assumes "put_object_body env now fresh fresh2 inp up w = (r, w')"
    and "gi_bucket g \<noteq> pi_bucket inp \<or> gi_key g \<noteq> pi_key inp"
  shows "get_object_body env g streaming w' = get_object_body env g streaming w"
  using assms by (rule get_object_other)

theorem put_isolated_witness:
  "get_object_body demo_env (plain_get ''logs'' ''b'') True
       (snd (put_object_body demo_env 5 ''v1'' ''v2'' (demo_put ''a'' ''hello'') None
               (world_of demo_bucket)))
     = get_object_body demo_env (plain_get ''logs'' ''b'') True (world_of demo_bucket)"
  by (rule put_isolated [OF demo_put_ok]) (simp add: plain_get_def demo_put_def)

section \<open>Object Lock\<close>

text \<open>
  C2. A version under COMPLIANCE retention survives every sequence of requests served before its
  retention date that draw no new id equal to its id. Whatever the requests are (deletes with governance
  bypass, bulk deletes, retention and legal-hold changes, tagging, overwrites, copies, multipart
  completions, bucket deletion), its record stays under its id, in compliance mode, with a retention date
  that is no earlier. Its bytes stay too, a GET of the version returns the body that it returned before,
  with two exceptions, which are defects of the service: a DeleteBucket of its bucket clears the bodies
  before it is refused, and the body of the null version is replaced by puts while versioning is suspended.
\<close>

theorem compliance_lock_survives:
  assumes "lock_held bucket k vid until w" and "\<forall>r\<in>set rs. respects_lock vid until r"
  shows "lock_held bucket k vid until (run_ops (serve env) w rs)
    \<and> (vid \<noteq> ''null'' \<and> (\<forall>r\<in>set rs. tr_request r \<noteq> ReqDeleteBucket bucket) \<longrightarrow>
         read_version env' bucket k vid (run_ops (serve env) w rs) = read_version env' bucket k vid w)"
proof (intro conjI impI)
  show "lock_held bucket k vid until (run_ops (serve env) w rs)" using assms by (rule lock_survives)
  assume "vid \<noteq> ''null'' \<and> (\<forall>r\<in>set rs. tr_request r \<noteq> ReqDeleteBucket bucket)"
  then have "\<forall>r\<in>set rs. spares_body bucket vid until r" using assms(2) by (simp add: spares_body_def)
  then show "read_version env' bucket k vid (run_ops (serve env) w rs) = read_version env' bucket k vid w"
    by (rule locked_body_survives [OF assms(1)])
qed

definition demo_object :: "string \<Rightarrow> string \<Rightarrow> s3_object" where
  "demo_object k vid = \<lparr>o_key = k, o_version_id = vid, o_etag = ''e'', o_size = 5,
     o_last_modified = 1, o_storage_class = ''STANDARD'', o_metadata = default_metadata,
     o_owner = default_owner, o_checksum = None, o_parts_count = None, o_part_etags = []\<rparr>"

definition locked_object :: s3_object where
  "locked_object = update_metadata
     (\<lambda>m. m\<lparr>md_lock_mode := Some ''COMPLIANCE'', md_lock_retain_until := Some 100\<rparr>)
     (demo_object ''a'' ''x'')"

definition versioned_bucket :: "versioned_store \<Rightarrow> s3_bucket" where
  "versioned_bucket m = demo_bucket\<lparr>bk_objects := Versioned m, bk_versioning := Enabled\<rparr>"

definition timed :: "nat \<Rightarrow> s3_request \<Rightarrow> timed_request" where
  "timed now r = \<lparr>tr_now = now, tr_fresh = ''f1'', tr_fresh2 = ''f2'', tr_request = r\<rparr>"

lemma demo_lock_held:
  "lock_held ''logs'' ''a'' ''x'' 100 (world_of (versioned_bucket [(''a'', [VObject locked_object])]))"
  by (simp add: lock_held_def store_lock_def versioned_bucket_def keys_ok_def vs_versions_def
      vs_get_version_def locked_object_def demo_object_def update_metadata_def held_def world_of_def
      get_bucket_def)

definition locked_world :: s3_world where
  "locked_world = (world_of (versioned_bucket [(''a'', [VObject locked_object])]))
     \<lparr>sw_storage := (bs_new 10)\<lparr>bs_objects := [((''logs'', ''a'', ''x''), InMemory ''hello'')]\<rparr>\<rparr>"

lemma locked_world_held: "lock_held ''logs'' ''a'' ''x'' 100 locked_world"
  unfolding locked_world_def lock_held_storage by (rule demo_lock_held)

lemma locked_world_read: "read_version demo_env ''logs'' ''a'' ''x'' locked_world = Inr (Some ''hello'')"
  unfolding read_version_stored [OF locked_world_held] by (simp add: stored_def locked_world_def read_all_def)

theorem compliance_lock_survives_witness:
  "lock_held ''logs'' ''a'' ''x'' 100
     (run_ops (serve demo_env) locked_world
        [timed 7 (ReqDelete ''logs'' ''a'' (Some ''x'') (Some True)),
         timed 8 (ReqRetention ''logs'' ''a'' (Some ''x'') None (Some True)),
         timed 99 (ReqDeleteBucket ''logs'')])
   \<and> read_version demo_env ''logs'' ''a'' ''x''
     (run_ops (serve demo_env) locked_world
        [timed 7 (ReqDelete ''logs'' ''a'' (Some ''x'') (Some True)),
         timed 8 (ReqPut (demo_put ''a'' ''bye'') None),
         timed 99 (ReqDelete ''logs'' ''a'' None None)]) = Inr (Some ''hello'')"
proof -
  let ?rs1 = "[timed 7 (ReqDelete ''logs'' ''a'' (Some ''x'') (Some True)),
         timed 8 (ReqRetention ''logs'' ''a'' (Some ''x'') None (Some True)),
         timed 99 (ReqDeleteBucket ''logs'')]"
    and ?rs2 = "[timed 7 (ReqDelete ''logs'' ''a'' (Some ''x'') (Some True)),
         timed 8 (ReqPut (demo_put ''a'' ''bye'') None),
         timed 99 (ReqDelete ''logs'' ''a'' None None)]"
  have "\<forall>r\<in>set ?rs1. respects_lock ''x'' 100 r" "\<forall>r\<in>set ?rs2. respects_lock ''x'' 100 r"
    by (simp_all add: respects_lock_def request_ids_def timed_def)
  note survives = this [THEN compliance_lock_survives [OF locked_world_held]]
  have "\<forall>r\<in>set ?rs2. tr_request r \<noteq> ReqDeleteBucket ''logs''" by (simp add: timed_def)
  with survives(2) [of demo_env demo_env] locked_world_read
  have "read_version demo_env ''logs'' ''a'' ''x'' (run_ops (serve demo_env) locked_world ?rs2) = Inr (Some ''hello'')"
    by simp
  with survives(1) [of demo_env demo_env] show ?thesis by blast
qed

text \<open>The two exceptions at work: after a refused DeleteBucket the locked version cannot be read, and a
  put replaces the bytes of the null version of a bucket with suspended versioning.\<close>

theorem refused_delete_bucket_unreadable:
  "read_version demo_env ''logs'' ''a'' ''x'' (snd (handle_delete_bucket ''logs'' locked_world)) = Inl (NoSuchKey ''a'')"
proof -
  have "stored (snd (handle_delete_bucket ''logs'' locked_world)) (''logs'', ''a'', ''x'') = None"
    by (simp add: handle_delete_bucket_def delete_bucket_def get_bucket_def stored_def delete_bucket_data_def bt_retain_def
        locked_world_def world_of_def versioned_bucket_def demo_bucket_def bucket_new_def bucket_is_empty_def os_is_empty_def)
  then show ?thesis
    using read_version_stored [OF keeps_delete_bucket [OF locked_world_held]] by simp
qed

theorem suspended_put_replaces_null_body:
  assumes "put_object_body env now fresh fresh2 inp up w = (Inr out, w')"
    and "get_bucket w (pi_bucket inp) = Inr b" "bk_versioning b = Suspended"
  shows "body_of (sw_storage w') (pi_bucket inp, pi_key inp, ''null'') = Some (put_body inp up)"
  using assms by (rule suspended_put_overwrites_null)

section \<open>The service invariant\<close>

text \<open>
  C3. In every state that the service reaches from the empty one by admissible requests, the bucket
  map and the owner map have the same names, every map is in order, every bucket's store has the kind
  that its versioning status says, objects are filed under their own key, and the version ids of a
  key are distinct.
\<close>

theorem reachable_world_wf:
  assumes "ok_run (serve env) admissible (empty_world n) rs"
  shows "world_wf (run_ops (serve env) (empty_world n) rs)"
  using assms by (rule service.inv_reachable)

theorem reachable_world_wf_witness:
  "world_wf (run_ops (serve demo_env) (empty_world 10)
     [timed 1 (ReqCreateBucket \<lparr>cb_bucket = ''logs'', cb_location = None, cb_object_lock = None\<rparr>),
      timed 2 (ReqPut (demo_put ''a'' ''hello'') None)])"
proof (rule reachable_world_wf)
  have "validate_bucket_name ''logs'' = Inr ()" by code_simp
  then have s: "get_bucket (serve demo_env (empty_world 10)
      (timed 1 (ReqCreateBucket \<lparr>cb_bucket = ''logs'', cb_location = None, cb_object_lock = None\<rparr>))) nm
    = (if nm = ''logs'' then Inr (bucket_new 1 ''logs'' ''us-east-1'' default_owner) else Inl (NoSuchBucket nm))" for nm
    by (simp add: serve_def timed_def handle_create_bucket_def create_bucket_def empty_world_def
        get_bucket_def demo_env_def)
  have un1: "unused_id (serve demo_env (empty_world 10)
      (timed 1 (ReqCreateBucket \<lparr>cb_bucket = ''logs'', cb_location = None, cb_object_lock = None\<rparr>))) x" for x
    unfolding unused_id_def s by (simp add: unused_in_def version_ids_def bucket_new_def os_default_def)
  have un0: "unused_id (empty_world 10) x" for x
    by (simp add: unused_id_def empty_world_def get_bucket_def)
  show "ok_run (serve demo_env) admissible (empty_world 10)
     [timed 1 (ReqCreateBucket \<lparr>cb_bucket = ''logs'', cb_location = None, cb_object_lock = None\<rparr>),
      timed 2 (ReqPut (demo_put ''a'' ''hello'') None)]"
    using un0 un1 by (auto simp: admissible_def timed_def)
qed

section \<open>Listing\<close>

text \<open>
  C4. A client that follows the continuation tokens of ListObjectsV2 terminates and gets every
  current object that matches the prefix and is not grouped under a delimiter exactly once, in key
  order, for every page size above zero. (The base64 crate is assumed to decode what it encoded.)
\<close>

theorem list_objects_v2_complete:
  assumes "os_wf (bk_objects b)" and "get_bucket w (li_bucket inp) = Inr b"
    and "validate_max_keys (li_max_keys inp) = Inr mx" "0 < mx"
    and "\<And>s. env_b64_dec env (env_b64_enc env s) = Some s"
    and "\<forall>ob\<in>set (current (bk_objects b)). o_key ob \<noteq> [] \<and> utf8_valid (map byte_of (o_key ob))"
    and "length (current (bk_objects b)) < fuel"
  shows "v2_pages fuel env inp None w =
           Some (map o_key (plain_objects (unwrap_or [] (li_prefix inp)) (unwrap_or [] (li_delimiter inp)) []
                   (current (bk_objects b))))"
  using assms by (rule v2_pages_complete)

definition plain_bucket :: "key_store \<Rightarrow> s3_bucket" where
  "plain_bucket m = demo_bucket\<lparr>bk_objects := Unversioned m\<rparr>"

definition demo_listing :: list_input where
  "demo_listing = \<lparr>li_bucket = ''logs'', li_prefix = None, li_delimiter = None, li_max_keys = Some 1\<rparr>"

theorem list_objects_v2_complete_witness:
  "v2_pages 3 demo_env demo_listing None
     (world_of (plain_bucket [(''a'', demo_object ''a'' ''null''), (''b'', demo_object ''b'' ''null'')]))
   = Some [''a'', ''b'']"
  using list_objects_v2_complete [of "plain_bucket [(''a'', demo_object ''a'' ''null''),
      (''b'', demo_object ''b'' ''null'')]" "world_of (plain_bucket [(''a'', demo_object ''a'' ''null''),
      (''b'', demo_object ''b'' ''null'')])" demo_listing 1 demo_env 3]
  by (simp add: plain_bucket_def demo_object_def os_wf_def ks_wf_def demo_listing_def
      validate_max_keys_def demo_env_def current_def bt_values_def plain_objects_def key_matches_def
      group_of_def byte_of_def)

text \<open>
  C5. The same for ListObjectVersions on a versioned store: following the key and version-id markers
  yields every version and delete marker of every matching key exactly once, newest first within a
  key, with exactly the newest one flagged as latest.
\<close>

theorem list_versions_complete:
  assumes "versions_wf m" and "0 < mx" and "is_char_boundary pre (max (length pre - 1) 1)"
    and "length (listed_entries pre delim [] [] m) < fuel"
  shows "version_pages fuel m pre delim [] [] mx = Some (map snd (listed_entries pre delim [] [] m))"
  using version_pages_drop [OF assms(1-3), of 0 delim "[]" "[]" fuel] assms(4) by simp

theorem list_versions_complete_witness:
  "version_pages 3 [(''a'', [VObject (demo_object ''a'' ''y''), VObject (demo_object ''a'' ''x'')])]
       ''a'' [] [] [] 1
   = Some [\<lparr>ve_version = VObject (demo_object ''a'' ''y''), ve_is_latest = True\<rparr>,
           \<lparr>ve_version = VObject (demo_object ''a'' ''x''), ve_is_latest = False\<rparr>]"
  using list_versions_complete
    [where m = "[(''a'', [VObject (demo_object ''a'' ''y''), VObject (demo_object ''a'' ''x'')])]"
      and mx = 1 and pre = "''a''" and delim = "[]" and fuel = 3]
  by (simp add: versions_wf_def demo_object_def is_char_boundary_def group_of_def starts_with_def)

text \<open>
  Exactly when ListObjectVersions panics, on any store and with any markers, delimiter and page size:
  the prefix is such that the offset before its last byte is inside a multi-byte character (there the code
  slices the prefix), some key from the key marker on is above the prefix without starting with it, and the
  page has not been filled before, as the versions to list are no more than the page holds.
\<close>

theorem list_versions_panics:
  assumes "bt_wf m"
  shows "vs_list_object_versions m pre delim km vm mx = None \<longleftrightarrow>
     \<not> is_char_boundary pre (max (length pre - 1) 1) \<and>
     length (listed_entries pre delim km vm m) \<le> mx \<and>
     (\<exists>k\<in>set (bt_keys m). km \<le> k \<and> pre < k \<and> \<not> starts_with k pre)"
  using assms by (rule vs_list_object_versions_panics)

theorem list_versions_panics_witness:
  "vs_list_object_versions [([CHR 0xC3, CHR 0xA9], [VObject (demo_object [CHR 0xC3, CHR 0xA9] ''x'')]),
       ([CHR 0xC3, CHR 0xAA], [VObject (demo_object [CHR 0xC3, CHR 0xAA] ''x'')])]
     [CHR 0xC3, CHR 0xA9] [] [] [] 1 = None
   \<and> vs_list_object_versions [([CHR 0xC3, CHR 0xA9], [VObject (demo_object [CHR 0xC3, CHR 0xA9] ''x'')]),
       ([CHR 0xC3, CHR 0xAA], [VObject (demo_object [CHR 0xC3, CHR 0xAA] ''x'')])]
     [CHR 0xC3, CHR 0xA9] [] [] [] 0 \<noteq> None"
proof -
  let ?m = "[([CHR 0xC3, CHR 0xA9], [VObject (demo_object [CHR 0xC3, CHR 0xA9] ''x'')]),
       ([CHR 0xC3, CHR 0xAA], [VObject (demo_object [CHR 0xC3, CHR 0xAA] ''x'')])]"
  have "bt_wf ?m" by simp
  from list_versions_panics [OF this, of "[CHR 0xC3, CHR 0xA9]" "[]" "[]" "[]"]
  show ?thesis
    by (simp add: is_char_boundary_def is_cont_byte_def byte_of_def starts_with_def bt_keys_def group_of_def)
qed

section \<open>Deletion and multipart uploads\<close>

text \<open>
  C7. In a bucket with versioning a DELETE without version id only puts a delete marker in front: the
  key reads as deleted, with the marker's id; deleting the marker by its id makes every GET on the
  bucket return exactly what it returned before the first DELETE.
\<close>

theorem delete_then_undelete:
  assumes "world_wf w" and "get_bucket w bucket = Inr b" "bk_versioning b \<noteq> Disabled"
    and "bt_get (bs_objects (sw_storage w)) (bucket, k, fresh) = None"
    and "handle_delete_object now fresh bucket k None bp w = (r1, w1)"
    and "handle_delete_object now' fresh' bucket k (Some fresh) bp' w1 = (r2, w2)"
    and "gi_bucket g = bucket"
  shows "r1 = Inr \<lparr>do_delete_marker = Some True, do_version_id = Some fresh\<rparr>
      \<and> handle_get_object env (plain_get bucket k) w1 =
          Inl (DeleteMarkerError False \<lparr>dm_key = k, dm_version_id = fresh, dm_last_modified = now,
                                        dm_owner = default_owner\<rparr>)
      \<and> r2 = Inr \<lparr>do_delete_marker = Some True, do_version_id = Some fresh\<rparr>
      \<and> handle_get_object env g w2 = handle_get_object env g w"
  using assms by (rule delete_and_undelete)

lemma versioned_bucket_wf:
  "vs_wf m \<Longrightarrow> world_wf (world_of (versioned_bucket m))"
  by (rule world_wf_of)
    (simp add: bucket_wf_def versioned_bucket_def os_wf_def os_is_versioned_def)

definition demo_versions :: versioned_store where
  "demo_versions = [(''a'', [VObject (demo_object ''a'' ''y''), VObject (demo_object ''a'' ''x'')])]"

lemma demo_versions_wf: "vs_wf demo_versions"
  by (simp add: vs_wf_def demo_versions_def demo_object_def)

theorem delete_then_undelete_witness:
  "handle_get_object demo_env (plain_get ''logs'' ''a'')
     (snd (handle_delete_object 9 ''f3'' ''logs'' ''a'' (Some ''f1'') None
        (snd (handle_delete_object 8 ''f1'' ''logs'' ''a'' None None
                (world_of (versioned_bucket demo_versions))))))
   = handle_get_object demo_env (plain_get ''logs'' ''a'') (world_of (versioned_bucket demo_versions))"
proof -
  let ?w = "world_of (versioned_bucket demo_versions)"
  let ?d1 = "handle_delete_object 8 ''f1'' ''logs'' ''a'' None None ?w"
  let ?d2 = "handle_delete_object 9 ''f3'' ''logs'' ''a'' (Some ''f1'') None (snd ?d1)"
  show ?thesis
    using delete_then_undelete [OF versioned_bucket_wf [OF demo_versions_wf], of "''logs''"
        "versioned_bucket demo_versions" "''a''" "''f1''" 8 None "fst ?d1" "snd ?d1" 9 "''f3''" None
        "fst ?d2" "snd ?d2" "plain_get ''logs'' ''a''" demo_env]
    by (simp add: versioned_bucket_def)
qed

text \<open>
  C8. An accepted CompleteMultipartUpload: the upload existed, the part numbers of the request are
  strictly increasing and all known and stored, every part but the last has the minimum size; the new
  object's body is the concatenation of the stored parts that the request lists, in its order, no other
  body changes, its size and ETag are the recorded ones, its metadata is that of the upload, and the upload
  is gone.
\<close>

theorem complete_multipart_object:
  assumes "world_wf w"
    and "handle_complete_multipart_upload env now fresh fresh2 bucket k uid parts w = (Inr out, w')"
  shows "\<exists>b u ns b' ob.
           get_bucket w bucket = Inr b \<and> bt_get (bk_uploads b) uid = Some u
         \<and> map cp_part_number parts = map (\<lambda>n. Some (int n)) ns
         \<and> sorted_wrt (<) ns \<and> (\<forall>n\<in>set ns. mu_get_part u n \<noteq> None)
         \<and> (\<forall>n\<in>set ns. part_of (sw_storage w) (bucket, uid, n) \<noteq> None)
         \<and> (\<forall>n\<in>set (butlast ns). MIN_PART_SIZE \<le> up_size (the (mu_get_part u n)))
         \<and> get_bucket w' bucket = Inr b' \<and> bt_get (bk_uploads b') uid = None
         \<and> os_get (bk_objects b') k = Some ob \<and> o_metadata ob = mu_metadata u
         \<and> o_etag ob = cm_etag out
         \<and> body_of (sw_storage w') = (body_of (sw_storage w))
             ((bucket, k, new_version_id b fresh) :=
                Some (concat (map (\<lambda>n. the (part_of (sw_storage w) (bucket, uid, n))) ns)))
         \<and> o_size ob = length (concat (map (\<lambda>n. the (part_of (sw_storage w) (bucket, uid, n))) ns))"
proof -
  from complete_upload_effect [OF assms] obtain b u ns b' ob where
    e: "get_bucket w bucket = Inr b" "bt_get (bk_uploads b) uid = Some u"
    "requested_part_numbers u parts 0 = Inr ns" "check_part_sizes u ns = Inr ()"
    "\<forall>n\<in>set ns. part_of (sw_storage w) (bucket, uid, n) \<noteq> None"
    "get_bucket w' bucket = Inr b'" "bt_get (bk_uploads b') uid = None"
    "os_get (bk_objects b') k = Some ob" "o_metadata ob = mu_metadata u" "o_etag ob = cm_etag out"
    "body_of (sw_storage w') = (body_of (sw_storage w))
       ((bucket, k, new_version_id b fresh) :=
          Some (concat (map (\<lambda>n. the (part_of (sw_storage w) (bucket, uid, n))) ns)))"
    "o_size ob = length (concat (map (\<lambda>n. the (part_of (sw_storage w) (bucket, uid, n))) ns))"
    by blast
  have ns: "sorted_wrt (<) ns" "\<forall>n\<in>set ns. mu_get_part u n \<noteq> None"
    using requested_part_numbers_sorted [OF e(3)] by auto
  have "\<forall>n\<in>set (butlast ns). MIN_PART_SIZE \<le> up_size (the (mu_get_part u n))"
    using check_part_sizes_ok [OF e(4)] ns(2) by (fastforce dest: in_set_butlastD)
  moreover have "map cp_part_number parts = map (\<lambda>n. Some (int n)) ns"
    using requested_part_numbers_are [OF e(3)] by simp
  ultimately show ?thesis using e(1,2,5-12) ns by blast
qed

definition upload_bucket :: s3_bucket where
  "upload_bucket = demo_bucket\<lparr>bk_uploads :=
     [(''u'', mu_put_part \<lparr>up_part_number = 1, up_etag = ''e'', up_size = 2, up_last_modified = 1,
                          up_checksum = None\<rparr>
               (mu_new ''u'' ''a'' 1 default_owner default_metadata))]\<rparr>"

definition upload_world :: s3_world where
  "upload_world = (world_of upload_bucket)
     \<lparr>sw_storage := (bs_new 10)\<lparr>bs_parts := [((''logs'', ''u'', 1), InMemory ''hi'')]\<rparr>\<rparr>"

theorem complete_multipart_object_witness:
  "\<exists>out w'. handle_complete_multipart_upload demo_env 9 ''f1'' ''f2'' ''logs'' ''a'' ''u''
       [\<lparr>cp_part_number = Some 1, cp_etag = None\<rparr>] upload_world = (Inr out, w')
     \<and> body_of (sw_storage w') (''logs'', ''a'', ''null'') = Some ''hi''
     \<and> (\<exists>b'. get_bucket w' ''logs'' = Inr b' \<and> bt_get (bk_uploads b') ''u'' = None)"
proof -
  let ?h = "handle_complete_multipart_upload demo_env 9 ''f1'' ''f2'' ''logs'' ''a'' ''u''
       [\<lparr>cp_part_number = Some 1, cp_etag = None\<rparr>] upload_world"
  have wf: "world_wf upload_world"
    by (simp add: upload_world_def world_wf_def world_of_def bs_wf_def bs_new_def bucket_wf_def
        upload_bucket_def demo_bucket_def bucket_new_def os_default_def os_wf_def ks_wf_def
        os_is_versioned_def)
  have "\<exists>out. fst ?h = Inr out"
    by (simp add: handle_complete_multipart_upload_def complete_checks_def upload_world_def
        upload_bucket_def world_of_def get_bucket_def demo_bucket_def bucket_new_def mu_put_part_def
        mu_new_def mu_get_part_def MIN_PART_SIZE_def complete_multipart_body_def bs_new_def
        append_to_def demo_env_def compute_md5_def Let_def new_version_id_def
        is_versioning_enabled_def)
  then obtain out where h: "?h = (Inr out, snd ?h)" by (metis prod.collapse)
  from complete_multipart_object [OF wf this] obtain b b' ns where
    b: "get_bucket upload_world ''logs'' = Inr b"
    and ns: "map cp_part_number [\<lparr>cp_part_number = Some 1, cp_etag = None\<rparr>] = map (\<lambda>n. Some (int n)) ns"
    and b': "get_bucket (snd ?h) ''logs'' = Inr b'" "bt_get (bk_uploads b') ''u'' = None"
    and body: "body_of (sw_storage (snd ?h)) = (body_of (sw_storage upload_world))
        ((''logs'', ''a'', new_version_id b ''f1'') :=
           Some (concat (map (\<lambda>n. the (part_of (sw_storage upload_world) (''logs'', ''u'', n))) ns)))"
    by blast
  have "ns = [1]" using ns by (cases ns) auto
  moreover have "new_version_id b ''f1'' = ''null''"
    using b by (auto simp: upload_world_def get_bucket_def world_of_def upload_bucket_def demo_bucket_def bucket_new_def
        new_version_id_def is_versioning_enabled_def)
  moreover have "part_of (sw_storage upload_world) (''logs'', ''u'', 1) = Some ''hi''"
    by (simp add: part_of_def upload_world_def)
  ultimately have "body_of (sw_storage (snd ?h)) (''logs'', ''a'', ''null'') = Some ''hi''"
    unfolding body by simp
  then show ?thesis using h b' by blast
qed

section \<open>Snapshots\<close>

text \<open>
  C9. Exporting the versions of a well-formed object store (both kinds) and rebuilding the store from
  the export gives back the same store: same keys, same versions, same order, same delete markers.
\<close>

theorem object_store_snapshot_roundtrip:
  assumes "os_wf st"
  shows "os_replace_from_snapshot (fst (os_snapshot_versions st)) (snd (os_snapshot_versions st)) = st"
  using assms by (rule snapshot_roundtrip)

theorem object_store_snapshot_roundtrip_witness:
  "os_replace_from_snapshot (fst (os_snapshot_versions (Versioned demo_versions)))
     (snd (os_snapshot_versions (Versioned demo_versions))) = Versioned demo_versions"
  by (rule object_store_snapshot_roundtrip) (simp add: os_wf_def demo_versions_wf)

section \<open>Defects of the service\<close>

text \<open>
  In a bucket with suspended versioning an accepted PUT cannot be read back: the body is stored
  under the id "null" and the object is recorded under a fresh id, so the GET fails with NoSuchKey.
\<close>

theorem suspended_put_not_readable:
  assumes "world_wf w" and "put_object_body env now fresh fresh2 inp up w = (Inr out, w')"
    and "get_bucket w (pi_bucket inp) = Inr b" "bk_versioning b = Suspended"
    and "fresh2 \<noteq> ''null''" "body_of (sw_storage w) (pi_bucket inp, pi_key inp, fresh2) = None"
  shows "handle_get_object env (plain_get (pi_bucket inp) (pi_key inp)) w' = Inl (NoSuchKey (pi_key inp))"
  using assms by (rule suspended_put_unreadable)

definition suspended_bucket :: s3_bucket where
  "suspended_bucket = demo_bucket\<lparr>bk_objects := Versioned [], bk_versioning := Suspended\<rparr>"

lemma demo_put_suspended:
  "\<exists>out. put_object_body demo_env 5 ''v1'' ''v2'' (demo_put ''a'' ''hello'') None (world_of suspended_bucket) =
     (Inr out, snd (put_object_body demo_env 5 ''v1'' ''v2'' (demo_put ''a'' ''hello'') None
             (world_of suspended_bucket)))"
  by (simp add: put_object_body_def put_checks_def demo_put_def demo_env_def validate_object_key_def
      validate_content_md5_def build_metadata_def demo_headers_def validate_metadata_def
      extract_checksum_def no_checksum_headers_def put_body_def compute_checksum_def Let_def
      write_body_def write_object_def)

theorem suspended_put_not_readable_witness:
  "handle_get_object demo_env (plain_get ''logs'' ''a'')
     (snd (put_object_body demo_env 5 ''v1'' ''v2'' (demo_put ''a'' ''hello'') None
             (world_of suspended_bucket))) = Inl (NoSuchKey ''a'')"
proof -
  have wf: "world_wf (world_of suspended_bucket)"
    by (rule world_wf_of)
      (simp add: bucket_wf_def suspended_bucket_def os_wf_def vs_wf_def os_is_versioned_def)
  obtain out where p: "put_object_body demo_env 5 ''v1'' ''v2'' (demo_put ''a'' ''hello'') None
      (world_of suspended_bucket) = (Inr out, snd (put_object_body demo_env 5 ''v1'' ''v2''
        (demo_put ''a'' ''hello'') None (world_of suspended_bucket)))"
    using demo_put_suspended by blast
  show ?thesis
    using suspended_put_not_readable [OF wf p, of suspended_bucket]
    by (simp add: demo_put_def suspended_bucket_def body_of_def)
qed

text \<open>
  A DeleteBucket that is refused because the bucket is not empty has already deleted the stored
  bodies of the bucket: the bucket and its objects are still listed, their bytes are gone.
\<close>

theorem refused_delete_bucket_loses_bodies:
  assumes "world_wf w" and "get_bucket w nm = Inr b" and "\<not> bucket_is_empty b"
  shows "fst (handle_delete_bucket nm w) = Inl (BucketNotEmpty nm)
    \<and> get_bucket (snd (handle_delete_bucket nm w)) nm = Inr b
    \<and> body_of (sw_storage (snd (handle_delete_bucket nm w))) (nm, k, vid) = None"
  using refused_delete_loses_bodies [OF assms] by blast

theorem refused_delete_bucket_loses_bodies_witness:
  "fst (handle_delete_bucket ''logs'' (world_of (versioned_bucket demo_versions)))
     = Inl (BucketNotEmpty ''logs'')
   \<and> body_of (sw_storage (snd (handle_delete_bucket ''logs'' (world_of (versioned_bucket demo_versions)))))
       (''logs'', ''a'', ''x'') = None"
  using refused_delete_bucket_loses_bodies [OF versioned_bucket_wf [OF demo_versions_wf],
      of "''logs''" "versioned_bucket demo_versions" "''a''" "''x''"]
  by (simp add: bucket_is_empty_def versioned_bucket_def os_is_empty_def demo_versions_def)

text \<open>
  PutObjectTagging on an old version of a versioned key makes that version the current one (a GET
  without version id returns it), and leaves its id twice in the history, so the store is no longer
  well-formed.
\<close>

theorem tagging_old_version_makes_it_current:
  assumes "get_bucket w bucket = Inr b" "bk_objects b = Versioned m"
    and "vs_get_version m k vid = Some ob" "o_key ob = k" "vid \<noteq> ''null''"
    and "validate_tags tags = Inr ()"
  shows "\<exists>b'. get_bucket (snd (handle_put_object_tagging fresh2 bucket k (Some vid) tags w)) bucket = Inr b'
           \<and> os_get (bk_objects b') k = Some (update_metadata (\<lambda>x. x\<lparr>md_tagging := tags\<rparr>) ob)
           \<and> \<not> os_wf (bk_objects b')"
  using assms by (rule tagging_reorders)

theorem tagging_old_version_makes_it_current_witness:
  "\<exists>b'. get_bucket (snd (handle_put_object_tagging ''f2'' ''logs'' ''a'' (Some ''x'') []
          (world_of (versioned_bucket demo_versions)))) ''logs'' = Inr b'
     \<and> map_option o_version_id (os_get (bk_objects (versioned_bucket demo_versions)) ''a'') = Some ''y''
     \<and> map_option o_version_id (os_get (bk_objects b') ''a'') = Some ''x''"
proof -
  have "validate_tags [] = Inr ()" by (simp add: validate_tags_def)
  from tagging_old_version_makes_it_current [of "world_of (versioned_bucket demo_versions)" "''logs''"
      "versioned_bucket demo_versions" demo_versions "''a''" "''x''" "demo_object ''a'' ''x''" "[]" "''f2''", OF _ _ _ _ _ this]
  obtain b' where "get_bucket (snd (handle_put_object_tagging ''f2'' ''logs'' ''a'' (Some ''x'') []
          (world_of (versioned_bucket demo_versions)))) ''logs'' = Inr b'"
    "os_get (bk_objects b') ''a'' = Some (update_metadata (\<lambda>x. x\<lparr>md_tagging := []\<rparr>) (demo_object ''a'' ''x''))"
    by (auto simp: versioned_bucket_def demo_versions_def vs_get_version_def demo_object_def)
  then show ?thesis
    by (intro exI [of _ b'])
      (simp add: versioned_bucket_def demo_versions_def os_get_def vs_get_def demo_object_def)
qed

section \<open>Requests\<close>

text \<open>
  The three forms of the Range header on an object of n > 0 bytes: "a-b" selects from a to b or
  to the end, "a-" selects from a to the end, "-k" selects the last k bytes; an empty or
  unsatisfiable range is refused. (Numbers are below 2^64, as the code parses them as u64.)
\<close>

theorem range_header_forms:
  assumes "a < 2 ^ 64" "b < 2 ^ 64" "k < 2 ^ 64" "0 < n"
  shows "parse_range_header (''bytes='' @ show_nat a @ ''-'' @ show_nat b) n =
           (if b < a \<or> n \<le> a then Inl InvalidRange else Inr (a, min b (n - 1)))
    \<and> parse_range_header (''bytes='' @ show_nat a @ ''-'') n =
           (if n \<le> a then Inl InvalidRange else Inr (a, n - 1))
    \<and> parse_range_header (''bytes=-'' @ show_nat k) n =
           (if k = 0 \<or> n < k then Inl InvalidRange else Inr (n - k, n - 1))"
  using parse_range_closed [OF assms(1,2,4)] parse_range_open [OF assms(1,4)]
    parse_range_suffix [OF assms(3,4)] by blast

theorem range_header_forms_witness:
  "parse_range_header (''bytes='' @ show_nat 2 @ ''-'' @ show_nat 900) 10 = Inr (2, 9)
   \<and> parse_range_header (''bytes=-'' @ show_nat 4) 10 = Inr (6, 9)"
  using range_header_forms [of 2 900 4 10] by simp

text \<open>
  The bucket-name validator accepts exactly the names that the rules allow: 3 to 63 characters,
  lower-case letters, digits, dots and hyphens, starting and ending with a letter or digit, without
  adjacent dots, not an IPv4 address, without the reserved prefix and suffixes.
\<close>

theorem bucket_name_validator_exact:
  "validate_bucket_name nm = Inr () \<longleftrightarrow> bucket_name_rules nm"
  by (rule validate_bucket_name_rules)

text \<open>
  C10. CORS: a bucket answers a simple request exactly when one of its rules permits the origin and the
  method, and a preflight exactly when a rule permits those and every requested header. The answer is
  that of the first such rule: its methods, headers and age, and as allowed origin the request's own, or
  the wildcard when the rule states it. So no access is granted beyond a rule, and none that a rule grants
  is refused.
\<close>

theorem cors_sound_and_complete:
  "(match_cors ix bucket origin meth = Some m \<longleftrightarrow>
      (\<exists>rules r. bt_get ix bucket = Some rules \<and> first_rule (\<lambda>r. rule_permits r origin meth) rules r
         \<and> carries m r origin))
   \<and> (match_preflight ix bucket origin meth hdrs = Some m \<longleftrightarrow>
      (\<exists>rules r. bt_get ix bucket = Some rules \<and> first_rule (\<lambda>r. preflight_permits r origin meth hdrs) rules r
         \<and> carries m r origin))"
  using match_cors_exact match_preflight_exact by blast

definition demo_rule :: cors_rule where
  "demo_rule = \<lparr>cr_allowed_origins = [''http://a''], cr_allowed_methods = [''GET''],
     cr_allowed_headers = [''*''], cr_expose_headers = [], cr_max_age_seconds = None\<rparr>"

definition strict_rule :: cors_rule where
  "strict_rule = demo_rule\<lparr>cr_allowed_headers := [''X-A'']\<rparr>"

theorem cors_sound_and_complete_witness:
  "match_cors [(''logs'', [strict_rule])] ''logs'' ''http://a'' ''GET'' \<noteq> None
   \<and> match_preflight [(''logs'', [strict_rule])] ''logs'' ''http://a'' ''GET'' [''x-a''] \<noteq> None
   \<and> match_preflight [(''logs'', [strict_rule])] ''logs'' ''http://a'' ''GET'' [''x-b''] = None"
proof -
  let ?ix = "[(''logs'', [strict_rule])]"
  have p: "rule_permits strict_rule ''http://a'' ''GET''" "preflight_permits strict_rule ''http://a'' ''GET'' [''x-a'']"
    "\<not> preflight_permits strict_rule ''http://a'' ''GET'' [''x-b'']"
    by (simp_all add: preflight_permits_def rule_permits_def strict_rule_def demo_rule_def) code_simp+
  have single: "first_rule P [strict_rule] r \<longleftrightarrow> P strict_rule \<and> r = strict_rule" for P r
    unfolding find_first_rule [symmetric] by auto
  have c: "carries (cors_match_of strict_rule ''http://a'') strict_rule ''http://a''" using carries_match by blast
  note exact = cors_sound_and_complete [of ?ix "''logs''" "''http://a''" "''GET''"]
  have "match_cors ?ix ''logs'' ''http://a'' ''GET'' = Some (cors_match_of strict_rule ''http://a'')"
    using exact [THEN conjunct1] p(1) c single by auto
  moreover have "match_preflight ?ix ''logs'' ''http://a'' ''GET'' [''x-a''] = Some (cors_match_of strict_rule ''http://a'')"
    using exact [THEN conjunct2] p(2) c single by auto
  moreover have "match_preflight ?ix ''logs'' ''http://a'' ''GET'' [''x-b''] \<noteq> Some m" for m
    using exact [THEN conjunct2] p(3) single by auto
  ultimately show ?thesis by auto
qed

text \<open>
  The copy source header round trip: the bucket, the percent-encoded key and the version id that
  a client writes as "bucket/key?versionId=id" (or without version id, with a leading slash) are the
  ones the parser returns, the key decoded.
\<close>

theorem copy_source_roundtrip:
  assumes "bucket \<noteq> []" "CHR ''/'' \<notin> set bucket" "CHR ''?'' \<notin> set bucket"
    and "k \<noteq> []" "CHR ''?'' \<notin> set k" "pct_dec k = Some k'" "CHR ''&'' \<notin> set vid"
  shows "parse_copy_source pct_dec (bucket @ ''/'' @ k @ ''?versionId='' @ vid) = Inr (bucket, k', Some vid)
    \<and> parse_copy_source pct_dec (''/'' @ bucket @ ''/'' @ k) = Inr (bucket, k', None)"
  using parse_copy_source_roundtrip [where bucket = bucket and k = k and k' = k' and vid = vid] assms
  by blast

theorem copy_source_roundtrip_witness:
  "parse_copy_source Some (''b'' @ ''/'' @ ''x/y'' @ ''?versionId='' @ ''v1'') = Inr (''b'', ''x/y'', Some ''v1'')"
  using copy_source_roundtrip [of "''b''" "''x/y''" Some "''x/y''" "''v1''"] by simp

text \<open>
  XML escaping is lossless and safe: resolving the five predefined entities gives back the text,
  and the escaped text has none of the characters that could close the element or attribute.
\<close>

theorem xml_escape_lossless:
  "xml_unescape (xml_escape s) = Some s
   \<and> set (xml_escape s) \<inter> {CHR ''<'', CHR ''>'', CHR 0x22, CHR 0x27} = {}"
  using xml_unescape_escape [of s] xml_escape_safe [of _ s] by blast

end
