(* ===== verification/Json_Value.thy ===== *)
theory Json_Value
  imports Complex_Main Rustack_Prelude
begin

text \<open>
  The values of \<^verbatim>\<open>serde_json::Value\<close>, the data type through which several services look at
  documents they receive. The parser itself is a third-party crate: a component that calls
  \<^verbatim>\<open>serde_json::from_str\<close> takes it as a parameter.

  A number is an integer of 64 bits or a finite \<^verbatim>\<open>f64\<close>, the rational it denotes. An object is the
  list of its entries in the order in which iteration meets them (key order, for the map that the
  crate uses here).
\<close>

datatype json =
    JNull
  | JBool bool
  | JInt int
  | JFloat rat
  | JString string
  | JArray "json list"
  | JObject "(string \<times> json) list"

text \<open>\<^verbatim>\<open>Value::get\<close> with a string index, and the accessors \<^verbatim>\<open>as_str\<close>, \<^verbatim>\<open>as_bool\<close>,
  \<^verbatim>\<open>as_array\<close> and \<^verbatim>\<open>as_object\<close>.\<close>

fun json_get :: "json \<Rightarrow> string \<Rightarrow> json option" where
  "json_get (JObject m) k = map_of m k"
| "json_get _ k = None"

fun json_as_str :: "json \<Rightarrow> string option" where
  "json_as_str (JString s) = Some s"
| "json_as_str _ = None"

fun json_as_bool :: "json \<Rightarrow> bool option" where
  "json_as_bool (JBool b) = Some b"
| "json_as_bool _ = None"

fun json_as_array :: "json \<Rightarrow> json list option" where
  "json_as_array (JArray xs) = Some xs"
| "json_as_array _ = None"

fun json_as_object :: "json \<Rightarrow> (string \<times> json) list option" where
  "json_as_object (JObject m) = Some m"
| "json_as_object _ = None"

end
