(* ===== verification/SQS_Types.thy ===== *)
theory SQS_Types
  imports Json_Value
begin

text \<open>
  The data of the SQS service (\<^verbatim>\<open>rustack-sqs-core/src/message.rs\<close>, the types of
  \<^verbatim>\<open>rustack-sqs-model\<close> it uses, and the record of \<^verbatim>\<open>queue/attributes.rs\<close>): messages, attributes,
  errors, and what a command reads from its surroundings.

  An \<^verbatim>\<open>i32\<close> is an \<open>int\<close> (the values come from deserialised \<^verbatim>\<open>i32\<close> fields); the casts of the code
  are written out. \<^verbatim>\<open>tokio::time::Instant\<close> is a number of nanoseconds; adding a \<^verbatim>\<open>Duration\<close> to it
  panics when the seconds leave \<^verbatim>\<open>i64\<close>, and \<open>instant_add\<close> returns \<open>None\<close> there. A handler that
  returns \<open>None\<close> is one that panics, which ends the task of the queue.
\<close>

section \<open>Errors\<close>

text \<open>\<^verbatim>\<open>SqsErrorCode\<close>; the message text that goes with a code is not modelled.\<close>

datatype sqs_error =
    NonExistentQueue
  | QueueAlreadyExists
  | QueueDeletedRecently
  | InvalidParameterValue
  | MissingParameter
  | InvalidAttributeName
  | InvalidAttributeValue
  | MessageNotInflight
  | ReceiptHandleIsInvalid
  | EmptyBatchRequest
  | TooManyEntriesInBatchRequest
  | BatchEntryIdsNotDistinct
  | BatchRequestTooLong
  | InvalidBatchEntryId
  | PurgeQueueInProgress
  | OverLimit
  | ResourceNotFoundException
  | UnsupportedOperation
  | InvalidSecurity
  | MissingAction
  | SqsInternalError

section \<open>Instants and casts\<close>

type_synonym instant = nat

definition nanos_per_sec :: nat where
  "nanos_per_sec = 1000000000"

text \<open>\<^verbatim>\<open>Instant + Duration::from_secs(secs)\<close>.\<close>

definition instant_add :: "instant \<Rightarrow> nat \<Rightarrow> instant option" where
  "instant_add t secs =
     (if t div nanos_per_sec + secs < 2 ^ 63 then Some (t + secs * nanos_per_sec) else None)"

text \<open>\<^verbatim>\<open>x as u64\<close>, \<^verbatim>\<open>x as usize\<close> of an \<^verbatim>\<open>i32\<close>.\<close>

definition i32_as_u64 :: "int \<Rightarrow> nat" where
  "i32_as_u64 x = nat (x mod 2 ^ 64)"

definition u32_max :: nat where
  "u32_max = 2 ^ 32 - 1"

text \<open>\<^verbatim>\<open>u32::try_from(x).unwrap_or(u32::MAX)\<close> of an \<^verbatim>\<open>i32\<close>, and \<^verbatim>\<open>x.saturating_add(1)\<close> of a \<^verbatim>\<open>u32\<close>.\<close>

definition u32_of_i32_or_max :: "int \<Rightarrow> nat" where
  "u32_of_i32_or_max x = (if 0 \<le> x then nat x else u32_max)"

definition u32_saturating_succ :: "nat \<Rightarrow> nat" where
  "u32_saturating_succ n = min (n + 1) u32_max"

section \<open>Messages\<close>

record message_attribute_value =
  mav_data_type :: string
  mav_string_value :: "string option"
  mav_binary_value :: "string option"

record queue_message =
  qm_message_id :: string
  qm_body :: string
  qm_md5_of_body :: string
  qm_message_attributes :: "(string, message_attribute_value) btree"
  qm_md5_of_message_attributes :: "string option"
  qm_sender_id :: string
  qm_sent_timestamp :: nat
  qm_approximate_receive_count :: nat
  qm_approximate_first_receive_timestamp :: "nat option"
  qm_sequence_number :: "string option"
  qm_message_group_id :: "string option"
  qm_message_deduplication_id :: "string option"
  qm_dead_letter_queue_source_arn :: "string option"
  qm_available_at :: instant
  qm_delay_seconds :: int

record in_flight_message =
  ifm_message :: queue_message
  ifm_receipt_handle :: string
  ifm_visible_at :: instant

text \<open>\<^verbatim>\<open>to_be_bytes\<close> of a length cast to \<^verbatim>\<open>u32\<close>, and what \<^verbatim>\<open>md5_of_message_attributes\<close> feeds to the
  digest: the entries are already in key order.\<close>

definition be_bytes :: "nat \<Rightarrow> string" where
  "be_bytes n =
     [char_of (n div 2 ^ 24 mod 256), char_of (n div 2 ^ 16 mod 256),
      char_of (n div 2 ^ 8 mod 256), char_of (n mod 256)]"

definition length_prefixed :: "string \<Rightarrow> string" where
  "length_prefixed s = be_bytes (length s mod 2 ^ 32) @ s"

definition encode_attribute_value :: "message_attribute_value \<Rightarrow> string" where
  "encode_attribute_value v =
     length_prefixed (mav_data_type v) @
     (case mav_string_value v of
        Some s \<Rightarrow> char_of (1 :: nat) # length_prefixed s
      | None \<Rightarrow>
          (case mav_binary_value v of
             Some b \<Rightarrow> char_of (2 :: nat) # length_prefixed b
           | None \<Rightarrow> []))"

definition attribute_digest_input :: "(string, message_attribute_value) btree \<Rightarrow> string" where
  "attribute_digest_input attrs =
     concat (map (\<lambda>(name, v). length_prefixed name @ encode_attribute_value v) attrs)"

record redrive_policy =
  rp_dead_letter_target_arn :: string
  rp_max_receive_count :: int

text \<open>The digests are those of third-party crates: \<open>md5_hex\<close> is \<^verbatim>\<open>hex::encode(Md5)\<close>, \<open>sha256_hex\<close>
  \<^verbatim>\<open>hex::encode(Sha256)\<close>, \<open>base64_std\<close> the standard alphabet of the \<^verbatim>\<open>base64\<close> crate \<open>parse_json\<close>
  \<^verbatim>\<open>serde_json::from_str\<close> into a \<^verbatim>\<open>Value\<close>, and \<open>parse_redrive_policy\<close>, \<open>show_redrive_policy\<close> the
  conversions of a \<^verbatim>\<open>RedrivePolicy\<close> that \<^verbatim>\<open>serde\<close> derives.\<close>

record sqs_libs =
  md5_hex :: "string \<Rightarrow> string"
  sha256_hex :: "string \<Rightarrow> string"
  base64_std :: "string \<Rightarrow> string"
  parse_json :: "string \<Rightarrow> json option"
  parse_redrive_policy :: "string \<Rightarrow> redrive_policy option"
  show_redrive_policy :: "redrive_policy \<Rightarrow> string"

definition md5_of_body :: "sqs_libs \<Rightarrow> string \<Rightarrow> string" where
  "md5_of_body lib body = md5_hex lib body"

definition md5_of_message_attributes ::
    "sqs_libs \<Rightarrow> (string, message_attribute_value) btree \<Rightarrow> string option" where
  "md5_of_message_attributes lib attrs =
     (if attrs = [] then None else Some (md5_hex lib (attribute_digest_input attrs)))"

definition generate_receipt_handle :: "sqs_libs \<Rightarrow> nat \<Rightarrow> string \<Rightarrow> string \<Rightarrow> string" where
  "generate_receipt_handle lib epoch_nanos nonce message_id =
     base64_std lib (message_id @ '':'' @ show_nat epoch_nanos @ '':'' @ nonce)"

section \<open>Requests and responses\<close>

record send_message_input =
  smi_message_body :: string
  smi_delay_seconds :: "int option"
  smi_message_deduplication_id :: "string option"
  smi_message_group_id :: "string option"
  smi_message_attributes :: "(string, message_attribute_value) btree"

record send_message_output =
  smo_message_id :: "string option"
  smo_md5_of_message_body :: "string option"
  smo_md5_of_message_attributes :: "string option"
  smo_sequence_number :: "string option"

record receive_message_input =
  rmi_max_number_of_messages :: "int option"
  rmi_visibility_timeout :: "int option"
  rmi_wait_time_seconds :: "int option"
  rmi_attribute_names :: "string list"
  rmi_message_system_attribute_names :: "string list"
  rmi_message_attribute_names :: "string list"

record sqs_message =
  msg_message_id :: "string option"
  msg_receipt_handle :: "string option"
  msg_body :: "string option"
  msg_md5_of_body :: "string option"
  msg_md5_of_message_attributes :: "string option"
  msg_message_attributes :: "(string, message_attribute_value) btree"
  msg_attributes :: "(string, string) btree"

section \<open>Queue attributes\<close>

record queue_attributes =
  at_delay_seconds :: int
  at_maximum_message_size :: int
  at_message_retention_period :: int
  at_receive_message_wait_time_seconds :: int
  at_visibility_timeout :: int
  at_redrive_policy :: "redrive_policy option"
  at_redrive_allow_policy :: "string option"
  at_content_based_deduplication :: bool
  at_deduplication_scope :: string
  at_fifo_throughput_limit :: string
  at_policy :: "string option"
  at_kms_master_key_id :: "string option"
  at_kms_data_key_reuse_period_seconds :: "int option"
  at_sqs_managed_sse_enabled :: bool

definition default_queue_attributes :: queue_attributes where
  "default_queue_attributes =
     \<lparr>at_delay_seconds = 0, at_maximum_message_size = 262144, at_message_retention_period = 345600,
      at_receive_message_wait_time_seconds = 0, at_visibility_timeout = 30,
      at_redrive_policy = None, at_redrive_allow_policy = None,
      at_content_based_deduplication = False, at_deduplication_scope = ''queue'',
      at_fifo_throughput_limit = ''perQueue'', at_policy = None, at_kms_master_key_id = None,
      at_kms_data_key_reuse_period_seconds = None, at_sqs_managed_sse_enabled = True\<rparr>"

section \<open>What a command reads from its surroundings\<close>

text \<open>
  The readings of the clocks, the fresh identifiers and the iteration order of hash maps during
  one command. \<open>now_at e i\<close> is its \<open>i\<close>-th reading of \<^verbatim>\<open>Instant::now()\<close>, \<open>millis_at e i\<close> of
  \<^verbatim>\<open>now_epoch_millis()\<close>, \<open>nanos_at e i\<close> and \<open>nonce_at e i\<close> what the \<open>i\<close>-th receipt handle is made of;
  \<open>hash_order e\<close> permutes the keys of a hash map into its iteration order; \<open>channel_open e arn n\<close>
  says whether the \<open>n\<close>-th pending transfer finds the registered, running queue \<open>arn\<close> and room in its
  channel; \<open>reply_closed e c\<close> whether client \<open>c\<close> has dropped its end of the reply channel.
\<close>

record sqs_env =
  now_at :: "nat \<Rightarrow> instant"
  millis_at :: "nat \<Rightarrow> nat"
  seconds_now :: nat
  new_uuid :: string
  nanos_at :: "nat \<Rightarrow> nat"
  nonce_at :: "nat \<Rightarrow> string"
  hash_order :: "string list \<Rightarrow> string list"
  channel_open :: "string \<Rightarrow> nat \<Rightarrow> bool"
  reply_closed :: "nat \<Rightarrow> bool"

lemma instant_add_mono: "instant_add t secs = Some t' \<Longrightarrow> t \<le> t'"
  by (auto simp: instant_add_def split: if_splits)

lemma i32_as_u64_nonneg: "0 \<le> x \<Longrightarrow> x < 2 ^ 31 \<Longrightarrow> i32_as_u64 x = nat x"
  by (simp add: i32_as_u64_def)

lemma i32_as_u64_neg: "x < 0 \<Longrightarrow> - (2 ^ 31) \<le> x \<Longrightarrow> i32_as_u64 x = nat (x + 2 ^ 64)"
  unfolding i32_as_u64_def
  by (subst mod_add_self2 [symmetric], subst mod_pos_pos_trivial) auto

lemma instant_add_negative: "x < 0 \<Longrightarrow> - (2 ^ 31) \<le> x \<Longrightarrow> instant_add t (i32_as_u64 x) = None"
  by (simp add: instant_add_def i32_as_u64_neg)

end
