(* ===== verification/SQS_Storage.thy ===== *)
theory SQS_Storage
  imports SQS_Types
begin

text \<open>
  The message storage of a queue (\<^verbatim>\<open>rustack-sqs-core/src/queue/storage.rs\<close>): standard queues hold
  available, delayed and in-flight messages; FIFO queues hold one list per message group, the
  groups that are blocked because one of their messages is out, the messages in flight, the
  deduplication cache and the sequence counter.

  A hash map keyed by receipt handle is its canonical list of entries; where the code iterates over
  one, the iteration order is the argument \<open>ord\<close> applied to the keys.
\<close>

section \<open>Standard queues\<close>

record standard_storage =
  st_available :: "queue_message list"
  st_delayed :: "queue_message list"
  st_in_flight :: "(string, in_flight_message) btree"

definition standard_default :: standard_storage where
  "standard_default = \<lparr>st_available = [], st_delayed = [], st_in_flight = []\<rparr>"

fun promote_loop ::
    "instant \<Rightarrow> queue_message list \<Rightarrow> queue_message list \<times> queue_message list \<times> bool \<Rightarrow>
     queue_message list \<times> queue_message list \<times> bool" where
  "promote_loop now [] (avail, delayed, promoted) = (avail, delayed, promoted)"
| "promote_loop now (m # ms) (avail, delayed, promoted) =
     (if qm_available_at m \<le> now then promote_loop now ms (avail @ [m], delayed, True)
      else promote_loop now ms (avail, delayed @ [m], promoted))"

definition promote_delayed :: "instant \<Rightarrow> standard_storage \<Rightarrow> standard_storage \<times> bool" where
  "promote_delayed now s =
     (case promote_loop now (st_delayed s) (st_available s, [], False) of
        (avail, delayed, promoted) \<Rightarrow>
          (s\<lparr>st_available := avail, st_delayed := delayed\<rparr>, promoted))"

text \<open>The handles that a scan of the in-flight map collects: those whose visibility has run out.\<close>

definition expired_handles ::
    "(string list \<Rightarrow> string list) \<Rightarrow> instant \<Rightarrow> ('v \<Rightarrow> instant) \<Rightarrow> (string, 'v) btree \<Rightarrow> string list" where
  "expired_handles ord now visible_at m =
     filter (\<lambda>h. case bt_get m h of None \<Rightarrow> False | Some i \<Rightarrow> visible_at i \<le> now)
       (ord (bt_keys m))"

fun return_standard_loop :: "string list \<Rightarrow> standard_storage \<Rightarrow> standard_storage" where
  "return_standard_loop [] s = s"
| "return_standard_loop (h # hs) s =
     return_standard_loop hs
       (case bt_get (st_in_flight s) h of
          None \<Rightarrow> s
        | Some ifm \<Rightarrow>
            s\<lparr>st_in_flight := bt_remove h (st_in_flight s),
              st_available := st_available s @ [ifm_message ifm]\<rparr>)"

definition standard_return_expired_inflight ::
    "(string list \<Rightarrow> string list) \<Rightarrow> instant \<Rightarrow> standard_storage \<Rightarrow> standard_storage \<times> bool" where
  "standard_return_expired_inflight ord now s =
     (let expired = expired_handles ord now ifm_visible_at (st_in_flight s)
      in (return_standard_loop expired s, expired \<noteq> []))"

definition u32_cast :: "nat \<Rightarrow> nat" where
  "u32_cast n = n mod 2 ^ 32"

definition standard_counts :: "standard_storage \<Rightarrow> nat \<times> nat \<times> nat" where
  "standard_counts s =
     (u32_cast (length (st_available s)), u32_cast (length (st_in_flight s)),
      u32_cast (length (st_delayed s)))"

definition standard_purge :: "standard_storage \<Rightarrow> standard_storage" where
  "standard_purge s = s\<lparr>st_available := [], st_delayed := [], st_in_flight := []\<rparr>"

section \<open>FIFO queues\<close>

datatype dedup_key =
    DedupQueue string
  | DedupRedrive string string
  | DedupGroup string string

record dedup_cache_entry =
  de_expiry :: instant
  de_message_id :: string
  de_sequence_number :: string

record fifo_in_flight_message =
  fif_message :: queue_message
  fif_visible_at :: instant
  fif_group_id :: string

record fifo_storage =
  fs_groups :: "(string, queue_message list) btree"
  fs_blocked_groups :: "string set"
  fs_in_flight :: "(string, fifo_in_flight_message) btree"
  fs_dedup_cache :: "dedup_key \<Rightarrow> dedup_cache_entry option"
  fs_next_sequence :: "64 word"

definition fifo_default :: fifo_storage where
  "fifo_default =
     \<lparr>fs_groups = [], fs_blocked_groups = {}, fs_in_flight = [], fs_dedup_cache = Map.empty,
      fs_next_sequence = 1\<rparr>"

datatype enqueue_result =
    Enqueued string string
  | Deduplicated string string

definition dedup_window_secs :: nat where
  "dedup_window_secs = 300"

definition group_queue :: "fifo_storage \<Rightarrow> string \<Rightarrow> queue_message list" where
  "group_queue s g = unwrap_or [] (bt_get (fs_groups s) g)"

text \<open>\<^verbatim>\<open>groups.entry(g).or_default().push_back(m)\<close> and \<^verbatim>\<open>push_front\<close>.\<close>

definition group_push_back :: "string \<Rightarrow> queue_message \<Rightarrow> fifo_storage \<Rightarrow> fifo_storage" where
  "group_push_back g m s = s\<lparr>fs_groups := bt_insert g (group_queue s g @ [m]) (fs_groups s)\<rparr>"

definition group_push_front :: "string \<Rightarrow> queue_message \<Rightarrow> fifo_storage \<Rightarrow> fifo_storage" where
  "group_push_front g m s = s\<lparr>fs_groups := bt_insert g (m # group_queue s g) (fs_groups s)\<rparr>"

text \<open>\<^verbatim>\<open>format!("{seq:020}")\<close>.\<close>

definition seq_string :: "64 word \<Rightarrow> string" where
  "seq_string seq = show_padded 20 (unat seq)"

text \<open>
  \<open>enqueue\<close> reads the clock twice: \<open>now\<close> for the lookup, \<open>now'\<close> for the new entry.
\<close>

definition dedup_hit :: "instant \<Rightarrow> dedup_key \<Rightarrow> fifo_storage \<Rightarrow> dedup_cache_entry option" where
  "dedup_hit now key s =
     (case fs_dedup_cache s key of
        None \<Rightarrow> None
      | Some entry \<Rightarrow> if now < de_expiry entry then Some entry else None)"

definition message_group :: "queue_message \<Rightarrow> string" where
  "message_group m = unwrap_or [] (qm_message_group_id m)"

definition enqueue ::
    "instant \<Rightarrow> instant \<Rightarrow> queue_message \<Rightarrow> dedup_key \<Rightarrow> fifo_storage \<Rightarrow>
     (fifo_storage \<times> enqueue_result) option" where
  "enqueue now now' msg key s =
     (case dedup_hit now key s of
        Some entry \<Rightarrow> Some (s, Deduplicated (de_message_id entry) (de_sequence_number entry))
      | None \<Rightarrow>
          let seq_str = seq_string (fs_next_sequence s);
              s1 = s\<lparr>fs_next_sequence := fs_next_sequence s + 1\<rparr>;
              msg1 = msg\<lparr>qm_sequence_number := Some seq_str\<rparr>;
              message_id = qm_message_id msg1
          in (case instant_add now' dedup_window_secs of
                None \<Rightarrow> None
              | Some expiry \<Rightarrow>
                  let s2 = s1\<lparr>fs_dedup_cache := (fs_dedup_cache s1)(key \<mapsto>
                        \<lparr>de_expiry = expiry, de_message_id = message_id,
                         de_sequence_number = seq_str\<rparr>)\<rparr>
                  in Some (group_push_back (message_group msg1) msg1 s2,
                           Enqueued message_id seq_str)))"

text \<open>The loop of \<^verbatim>\<open>receive\<close> over the group keys, and the removal of empty groups after it.\<close>

fun fifo_receive_loop ::
    "nat \<Rightarrow> string list \<Rightarrow> fifo_storage \<Rightarrow> (queue_message \<times> string) list \<Rightarrow>
     fifo_storage \<times> (queue_message \<times> string) list" where
  "fifo_receive_loop max_n [] s result = (s, result)"
| "fifo_receive_loop max_n (g # gs) s result =
     (if max_n \<le> length result then (s, result)
      else if g \<in> fs_blocked_groups s then fifo_receive_loop max_n gs s result
      else
        (case bt_get (fs_groups s) g of
           None \<Rightarrow> fifo_receive_loop max_n gs s result
         | Some [] \<Rightarrow> fifo_receive_loop max_n gs s result
         | Some (m # ms) \<Rightarrow>
             fifo_receive_loop max_n gs
               (s\<lparr>fs_groups := bt_insert g ms (fs_groups s),
                  fs_blocked_groups := insert g (fs_blocked_groups s)\<rparr>)
               (result @ [(m, g)])))"

definition fifo_receive :: "nat \<Rightarrow> fifo_storage \<Rightarrow> fifo_storage \<times> (queue_message \<times> string) list" where
  "fifo_receive max_n s =
     (case fifo_receive_loop max_n (bt_keys (fs_groups s)) s [] of
        (s1, result) \<Rightarrow>
          (s1\<lparr>fs_groups := bt_retain (\<lambda>_ q. q \<noteq> []) (fs_groups s1)\<rparr>, result))"

definition finish_redrive :: "string \<Rightarrow> queue_message option \<Rightarrow> fifo_storage \<Rightarrow> fifo_storage" where
  "finish_redrive group_id restore s =
     (let s1 = s\<lparr>fs_blocked_groups := fs_blocked_groups s - {group_id}\<rparr>
      in (case restore of None \<Rightarrow> s1 | Some m \<Rightarrow> group_push_front group_id m s1))"

definition mark_in_flight ::
    "string \<Rightarrow> queue_message \<Rightarrow> string \<Rightarrow> instant \<Rightarrow> fifo_storage \<Rightarrow> fifo_storage" where
  "mark_in_flight receipt_handle message group_id visible_at s =
     s\<lparr>fs_in_flight := bt_insert receipt_handle
          \<lparr>fif_message = message, fif_visible_at = visible_at, fif_group_id = group_id\<rparr>
          (fs_in_flight s)\<rparr>"

text \<open>\<^verbatim>\<open>group_still_has_inflight\<close> and the conditional unblocking, shared by three operations.\<close>

definition unblock_idle :: "string \<Rightarrow> fifo_storage \<Rightarrow> fifo_storage" where
  "unblock_idle g s =
     (if list_ex (\<lambda>i. fif_group_id i = g) (bt_values (fs_in_flight s)) then s
      else s\<lparr>fs_blocked_groups := fs_blocked_groups s - {g}\<rparr>)"

definition fifo_delete_message :: "string \<Rightarrow> fifo_storage \<Rightarrow> fifo_storage \<times> bool" where
  "fifo_delete_message receipt_handle s =
     (case bt_get (fs_in_flight s) receipt_handle of
        None \<Rightarrow> (s, False)
      | Some ifm \<Rightarrow>
          (unblock_idle (fif_group_id ifm)
             (s\<lparr>fs_in_flight := bt_remove receipt_handle (fs_in_flight s)\<rparr>), True))"

text \<open>An in-flight message goes back to the front of its group.\<close>

definition return_to_group :: "string \<Rightarrow> fifo_in_flight_message \<Rightarrow> fifo_storage \<Rightarrow> fifo_storage" where
  "return_to_group receipt_handle ifm s =
     unblock_idle (fif_group_id ifm)
       (group_push_front (fif_group_id ifm) (fif_message ifm)
          (s\<lparr>fs_in_flight := bt_remove receipt_handle (fs_in_flight s)\<rparr>))"

definition fifo_change_visibility ::
    "instant \<Rightarrow> string \<Rightarrow> instant \<Rightarrow> fifo_storage \<Rightarrow> fifo_storage \<times> bool" where
  "fifo_change_visibility now receipt_handle visible_at s =
     (if visible_at \<le> now then
        (case bt_get (fs_in_flight s) receipt_handle of
           None \<Rightarrow> (s, False)
         | Some ifm \<Rightarrow> (return_to_group receipt_handle ifm s, True))
      else
        (case bt_get (fs_in_flight s) receipt_handle of
           None \<Rightarrow> (s, False)
         | Some ifm \<Rightarrow>
             (s\<lparr>fs_in_flight := bt_insert receipt_handle (ifm\<lparr>fif_visible_at := visible_at\<rparr>)
                  (fs_in_flight s)\<rparr>, True)))"

fun return_fifo_loop :: "string list \<Rightarrow> fifo_storage \<Rightarrow> fifo_storage" where
  "return_fifo_loop [] s = s"
| "return_fifo_loop (h # hs) s =
     return_fifo_loop hs
       (case bt_get (fs_in_flight s) h of
          None \<Rightarrow> s
        | Some ifm \<Rightarrow> return_to_group h ifm s)"

definition fifo_return_expired_inflight ::
    "(string list \<Rightarrow> string list) \<Rightarrow> instant \<Rightarrow> fifo_storage \<Rightarrow> fifo_storage \<times> bool" where
  "fifo_return_expired_inflight ord now s =
     (let expired = expired_handles ord now fif_visible_at (fs_in_flight s)
      in (return_fifo_loop expired s, expired \<noteq> []))"

definition clean_dedup_cache :: "instant \<Rightarrow> fifo_storage \<Rightarrow> fifo_storage" where
  "clean_dedup_cache now s =
     s\<lparr>fs_dedup_cache := (\<lambda>k. case fs_dedup_cache s k of
          None \<Rightarrow> None
        | Some e \<Rightarrow> if now < de_expiry e then Some e else None)\<rparr>"

definition fifo_counts :: "fifo_storage \<Rightarrow> nat \<times> nat \<times> nat" where
  "fifo_counts s =
     (u32_cast (sum_list (map length (bt_values (fs_groups s)))),
      u32_cast (length (fs_in_flight s)), 0)"

definition fifo_purge :: "fifo_storage \<Rightarrow> fifo_storage" where
  "fifo_purge s = s\<lparr>fs_groups := [], fs_blocked_groups := {}, fs_in_flight := []\<rparr>"

end
