(* ===== verification/SQS_Attributes.thy ===== *)
theory SQS_Attributes
  imports SQS_Types
begin

text \<open>
  Queue attributes as string maps (\<^verbatim>\<open>rustack-sqs-core/src/queue/attributes.rs\<close>): \<open>from_map\<close> builds the
  attributes of a new queue, \<open>update_from_map\<close> changes those of an existing one, \<open>to_map\<close> renders
  them. The loops of the first two follow the iteration order of a hash map, so their argument is
  the list of entries in that order. The lemmas show that every value they accept is in its
  documented range and that \<open>from_map\<close> reads back what \<open>to_map\<close> renders, in any order.
\<close>

definition parse_i32_range :: "string \<Rightarrow> int \<Rightarrow> int \<Rightarrow> sqs_error + int" where
  "parse_i32_range v lo hi =
     (case parse_int 32 v of
        None \<Rightarrow> Inl InvalidParameterValue
      | Some n \<Rightarrow> if n < lo \<or> n > hi then Inl InvalidParameterValue else Inr n)"

definition truthy :: "string \<Rightarrow> bool" where
  "truthy v \<longleftrightarrow> v = ''true'' \<or> v = ''1''"

text \<open>One iteration of the loop of \<open>from_map\<close>.\<close>

definition from_map_entry ::
    "sqs_libs \<Rightarrow> bool \<Rightarrow> string \<Rightarrow> string \<Rightarrow> queue_attributes \<Rightarrow> sqs_error + queue_attributes" where
  "from_map_entry lib is_fifo key v r =
     (if key = ''DelaySeconds'' then
        res_map (\<lambda>n. r\<lparr>at_delay_seconds := n\<rparr>) (parse_i32_range v 0 900)
      else if key = ''MaximumMessageSize'' then
        res_map (\<lambda>n. r\<lparr>at_maximum_message_size := n\<rparr>) (parse_i32_range v 1024 262144)
      else if key = ''MessageRetentionPeriod'' then
        res_map (\<lambda>n. r\<lparr>at_message_retention_period := n\<rparr>) (parse_i32_range v 60 1209600)
      else if key = ''ReceiveMessageWaitTimeSeconds'' then
        res_map (\<lambda>n. r\<lparr>at_receive_message_wait_time_seconds := n\<rparr>) (parse_i32_range v 0 20)
      else if key = ''VisibilityTimeout'' then
        res_map (\<lambda>n. r\<lparr>at_visibility_timeout := n\<rparr>) (parse_i32_range v 0 43200)
      else if key = ''RedrivePolicy'' then
        (case parse_redrive_policy lib v of
           None \<Rightarrow> Inl InvalidParameterValue
         | Some p \<Rightarrow>
             if rp_max_receive_count p < 1 then Inl InvalidParameterValue
             else Inr (r\<lparr>at_redrive_policy := Some p\<rparr>))
      else if key = ''RedriveAllowPolicy'' then Inr (r\<lparr>at_redrive_allow_policy := Some v\<rparr>)
      else if key = ''ContentBasedDeduplication'' then
        (if \<not> is_fifo then Inl InvalidParameterValue
         else Inr (r\<lparr>at_content_based_deduplication := truthy v\<rparr>))
      else if key = ''DeduplicationScope'' then
        (if \<not> is_fifo then Inl InvalidParameterValue
         else if v \<noteq> ''queue'' \<and> v \<noteq> ''messageGroup'' then Inl InvalidParameterValue
         else Inr (r\<lparr>at_deduplication_scope := v\<rparr>))
      else if key = ''FifoThroughputLimit'' then
        (if \<not> is_fifo then Inl InvalidParameterValue
         else Inr (r\<lparr>at_fifo_throughput_limit := v\<rparr>))
      else if key = ''Policy'' then Inr (r\<lparr>at_policy := Some v\<rparr>)
      else if key = ''KmsMasterKeyId'' then Inr (r\<lparr>at_kms_master_key_id := Some v\<rparr>)
      else if key = ''KmsDataKeyReusePeriodSeconds'' then
        res_map (\<lambda>n. r\<lparr>at_kms_data_key_reuse_period_seconds := Some n\<rparr>)
          (parse_i32_range v 60 86400)
      else if key = ''SqsManagedSseEnabled'' then
        Inr (r\<lparr>at_sqs_managed_sse_enabled := truthy v\<rparr>)
      else if key = ''FifoQueue'' then Inr r
      else Inl InvalidAttributeName)"

fun from_map_loop ::
    "sqs_libs \<Rightarrow> bool \<Rightarrow> (string \<times> string) list \<Rightarrow> queue_attributes \<Rightarrow> sqs_error + queue_attributes" where
  "from_map_loop lib is_fifo [] r = Inr r"
| "from_map_loop lib is_fifo ((key, v) # kvs) r =
     res_bind (from_map_entry lib is_fifo key v r) (from_map_loop lib is_fifo kvs)"

definition from_map :: "sqs_libs \<Rightarrow> (string \<times> string) list \<Rightarrow> bool \<Rightarrow> sqs_error + queue_attributes" where
  "from_map lib attrs is_fifo = from_map_loop lib is_fifo attrs default_queue_attributes"

definition non_empty :: "string \<Rightarrow> string option" where
  "non_empty v = (if v = [] then None else Some v)"

text \<open>One iteration of the loop of \<open>update_from_map\<close>, which has no case for \<open>FifoQueue\<close>.\<close>

definition update_entry ::
    "sqs_libs \<Rightarrow> bool \<Rightarrow> string \<Rightarrow> string \<Rightarrow> queue_attributes \<Rightarrow> sqs_error + queue_attributes" where
  "update_entry lib is_fifo key v r =
     (if key = ''DelaySeconds'' then
        res_map (\<lambda>n. r\<lparr>at_delay_seconds := n\<rparr>) (parse_i32_range v 0 900)
      else if key = ''MaximumMessageSize'' then
        res_map (\<lambda>n. r\<lparr>at_maximum_message_size := n\<rparr>) (parse_i32_range v 1024 262144)
      else if key = ''MessageRetentionPeriod'' then
        res_map (\<lambda>n. r\<lparr>at_message_retention_period := n\<rparr>) (parse_i32_range v 60 1209600)
      else if key = ''ReceiveMessageWaitTimeSeconds'' then
        res_map (\<lambda>n. r\<lparr>at_receive_message_wait_time_seconds := n\<rparr>) (parse_i32_range v 0 20)
      else if key = ''VisibilityTimeout'' then
        res_map (\<lambda>n. r\<lparr>at_visibility_timeout := n\<rparr>) (parse_i32_range v 0 43200)
      else if key = ''RedrivePolicy'' then
        (if v = [] then Inr (r\<lparr>at_redrive_policy := None\<rparr>)
         else (case parse_redrive_policy lib v of
                 None \<Rightarrow> Inl InvalidParameterValue
               | Some p \<Rightarrow> Inr (r\<lparr>at_redrive_policy := Some p\<rparr>)))
      else if key = ''RedriveAllowPolicy'' then Inr (r\<lparr>at_redrive_allow_policy := non_empty v\<rparr>)
      else if key = ''ContentBasedDeduplication'' then
        (if \<not> is_fifo then Inl InvalidParameterValue
         else Inr (r\<lparr>at_content_based_deduplication := truthy v\<rparr>))
      else if key = ''DeduplicationScope'' then
        (if \<not> is_fifo then Inl InvalidParameterValue
         else Inr (r\<lparr>at_deduplication_scope := v\<rparr>))
      else if key = ''FifoThroughputLimit'' then
        (if \<not> is_fifo then Inl InvalidParameterValue
         else Inr (r\<lparr>at_fifo_throughput_limit := v\<rparr>))
      else if key = ''Policy'' then Inr (r\<lparr>at_policy := non_empty v\<rparr>)
      else if key = ''KmsMasterKeyId'' then Inr (r\<lparr>at_kms_master_key_id := non_empty v\<rparr>)
      else if key = ''KmsDataKeyReusePeriodSeconds'' then
        res_map (\<lambda>n. r\<lparr>at_kms_data_key_reuse_period_seconds := Some n\<rparr>)
          (parse_i32_range v 60 86400)
      else if key = ''SqsManagedSseEnabled'' then
        Inr (r\<lparr>at_sqs_managed_sse_enabled := truthy v\<rparr>)
      else Inl InvalidAttributeName)"

text \<open>The entries before a failing one have already been written into \<^verbatim>\<open>self\<close>.\<close>

fun update_from_map ::
    "sqs_libs \<Rightarrow> bool \<Rightarrow> (string \<times> string) list \<Rightarrow> queue_attributes \<Rightarrow>
     queue_attributes \<times> (sqs_error + unit)" where
  "update_from_map lib is_fifo [] r = (r, Inr ())"
| "update_from_map lib is_fifo ((key, v) # kvs) r =
     (case update_entry lib is_fifo key v r of
        Inl e \<Rightarrow> (r, Inl e)
      | Inr r1 \<Rightarrow> update_from_map lib is_fifo kvs r1)"

definition show_bool :: "bool \<Rightarrow> string" where
  "show_bool b = (if b then ''true'' else ''false'')"

text \<open>
  \<open>to_map\<close> inserts an entry per wanted attribute that has a value. \<open>attribute_text\<close> gives the value
  of one attribute; the map is the canonical list of the wanted ones.
\<close>

definition attribute_entries ::
    "sqs_libs \<Rightarrow> queue_attributes \<Rightarrow> bool \<Rightarrow> string \<Rightarrow> nat \<Rightarrow> nat \<Rightarrow> nat \<times> nat \<times> nat \<Rightarrow>
     (string \<times> string option) list" where
  "attribute_entries lib a is_fifo arn created_at last_modified_at counts =
     [(''DelaySeconds'', Some (show_int (at_delay_seconds a))),
      (''MaximumMessageSize'', Some (show_int (at_maximum_message_size a))),
      (''MessageRetentionPeriod'', Some (show_int (at_message_retention_period a))),
      (''ReceiveMessageWaitTimeSeconds'', Some (show_int (at_receive_message_wait_time_seconds a))),
      (''VisibilityTimeout'', Some (show_int (at_visibility_timeout a))),
      (''QueueArn'', Some arn),
      (''CreatedTimestamp'', Some (show_nat created_at)),
      (''LastModifiedTimestamp'', Some (show_nat last_modified_at)),
      (''ApproximateNumberOfMessages'', Some (show_nat (fst counts))),
      (''ApproximateNumberOfMessagesNotVisible'', Some (show_nat (fst (snd counts)))),
      (''ApproximateNumberOfMessagesDelayed'', Some (show_nat (snd (snd counts)))),
      (''RedrivePolicy'', map_option (show_redrive_policy lib) (at_redrive_policy a)),
      (''RedriveAllowPolicy'', at_redrive_allow_policy a),
      (''Policy'', at_policy a),
      (''FifoQueue'', if is_fifo then Some ''true'' else None),
      (''ContentBasedDeduplication'',
         if is_fifo then Some (show_bool (at_content_based_deduplication a)) else None),
      (''DeduplicationScope'', if is_fifo then Some (at_deduplication_scope a) else None),
      (''FifoThroughputLimit'', if is_fifo then Some (at_fifo_throughput_limit a) else None),
      (''SqsManagedSseEnabled'', Some (show_bool (at_sqs_managed_sse_enabled a))),
      (''KmsMasterKeyId'', at_kms_master_key_id a),
      (''KmsDataKeyReusePeriodSeconds'',
         map_option show_int (at_kms_data_key_reuse_period_seconds a))]"

definition wanted :: "string list \<Rightarrow> string \<Rightarrow> bool" where
  "wanted requested name \<longleftrightarrow>
     requested = [] \<or> ''All'' \<in> set requested \<or> name \<in> set requested"

fun insert_wanted ::
    "string list \<Rightarrow> (string \<times> string option) list \<Rightarrow> (string, string) btree \<Rightarrow> (string, string) btree" where
  "insert_wanted requested [] m = m"
| "insert_wanted requested ((name, v) # es) m =
     insert_wanted requested es
       (if wanted requested name
        then (case v of None \<Rightarrow> m | Some text \<Rightarrow> bt_insert name text m) else m)"

definition to_map ::
    "sqs_libs \<Rightarrow> queue_attributes \<Rightarrow> string list \<Rightarrow> bool \<Rightarrow> string \<Rightarrow> nat \<Rightarrow> nat \<Rightarrow> nat \<times> nat \<times> nat \<Rightarrow>
     (string, string) btree" where
  "to_map lib a requested is_fifo arn created_at last_modified_at counts =
     insert_wanted requested
       (attribute_entries lib a is_fifo arn created_at last_modified_at counts) []"

definition settable_attribute_names :: "string list" where
  "settable_attribute_names =
     [''DelaySeconds'', ''MaximumMessageSize'', ''MessageRetentionPeriod'',
      ''ReceiveMessageWaitTimeSeconds'', ''VisibilityTimeout'', ''RedrivePolicy'',
      ''RedriveAllowPolicy'', ''Policy'', ''FifoQueue'', ''ContentBasedDeduplication'',
      ''DeduplicationScope'', ''FifoThroughputLimit'', ''SqsManagedSseEnabled'',
      ''KmsMasterKeyId'', ''KmsDataKeyReusePeriodSeconds'']"

definition is_settable_attribute :: "string \<Rightarrow> bool" where
  "is_settable_attribute name \<longleftrightarrow> name \<in> set settable_attribute_names"

section \<open>Ranges\<close>

text \<open>The documented ranges; FIFO settings keep their defaults on a standard queue.\<close>

definition attributes_in_range :: "queue_attributes \<Rightarrow> bool" where
  "attributes_in_range a \<longleftrightarrow>
     0 \<le> at_delay_seconds a \<and> at_delay_seconds a \<le> 900 \<and>
     1024 \<le> at_maximum_message_size a \<and> at_maximum_message_size a \<le> 262144 \<and>
     60 \<le> at_message_retention_period a \<and> at_message_retention_period a \<le> 1209600 \<and>
     0 \<le> at_receive_message_wait_time_seconds a \<and> at_receive_message_wait_time_seconds a \<le> 20 \<and>
     0 \<le> at_visibility_timeout a \<and> at_visibility_timeout a \<le> 43200 \<and>
     (\<forall>n. at_kms_data_key_reuse_period_seconds a = Some n \<longrightarrow> 60 \<le> n \<and> n \<le> 86400)"

definition fifo_settings_ok :: "bool \<Rightarrow> queue_attributes \<Rightarrow> bool" where
  "fifo_settings_ok is_fifo a \<longleftrightarrow>
     is_fifo \<or> at_content_based_deduplication a = False \<and> at_deduplication_scope a = ''queue'' \<and>
       at_fifo_throughput_limit a = ''perQueue''"

text \<open>What only \<open>from_map\<close> checks.\<close>

definition attributes_checked :: "queue_attributes \<Rightarrow> bool" where
  "attributes_checked a \<longleftrightarrow>
     (\<forall>p. at_redrive_policy a = Some p \<longrightarrow> 1 \<le> rp_max_receive_count p) \<and>
     at_deduplication_scope a \<in> {''queue'', ''messageGroup''}"

lemma parse_i32_range_Inr: "parse_i32_range v lo hi = Inr n \<Longrightarrow> lo \<le> n \<and> n \<le> hi"
  by (auto simp: parse_i32_range_def split: option.splits if_splits)

lemma parse_i32_range_show:
  "lo \<le> n \<Longrightarrow> n \<le> hi \<Longrightarrow> - (2 ^ 31) \<le> lo \<Longrightarrow> hi < 2 ^ 31 \<Longrightarrow>
     parse_i32_range (show_int n) lo hi = Inr n"
  by (simp add: parse_i32_range_def parse_int_show)

lemma default_attributes_ok:
  "attributes_in_range default_queue_attributes" "fifo_settings_ok f default_queue_attributes"
  "attributes_checked default_queue_attributes"
  by (simp_all add: attributes_in_range_def fifo_settings_ok_def attributes_checked_def
      default_queue_attributes_def)

text \<open>What an accepted entry can do to the attributes.\<close>

inductive entry_effect :: "bool \<Rightarrow> queue_attributes \<Rightarrow> queue_attributes \<Rightarrow> bool"
  for is_fifo :: bool and r :: queue_attributes where
  "0 \<le> n \<Longrightarrow> n \<le> 900 \<Longrightarrow> entry_effect is_fifo r (r\<lparr>at_delay_seconds := n\<rparr>)"
| "1024 \<le> n \<Longrightarrow> n \<le> 262144 \<Longrightarrow> entry_effect is_fifo r (r\<lparr>at_maximum_message_size := n\<rparr>)"
| "60 \<le> n \<Longrightarrow> n \<le> 1209600 \<Longrightarrow> entry_effect is_fifo r (r\<lparr>at_message_retention_period := n\<rparr>)"
| "0 \<le> n \<Longrightarrow> n \<le> 20 \<Longrightarrow>
     entry_effect is_fifo r (r\<lparr>at_receive_message_wait_time_seconds := n\<rparr>)"
| "0 \<le> n \<Longrightarrow> n \<le> 43200 \<Longrightarrow> entry_effect is_fifo r (r\<lparr>at_visibility_timeout := n\<rparr>)"
| "60 \<le> n \<Longrightarrow> n \<le> 86400 \<Longrightarrow>
     entry_effect is_fifo r (r\<lparr>at_kms_data_key_reuse_period_seconds := Some n\<rparr>)"
| "entry_effect is_fifo r (r\<lparr>at_redrive_policy := p\<rparr>)"
| "entry_effect is_fifo r (r\<lparr>at_redrive_allow_policy := s\<rparr>)"
| "is_fifo \<Longrightarrow> entry_effect is_fifo r (r\<lparr>at_content_based_deduplication := b\<rparr>)"
| "is_fifo \<Longrightarrow> entry_effect is_fifo r (r\<lparr>at_deduplication_scope := v\<rparr>)"
| "is_fifo \<Longrightarrow> entry_effect is_fifo r (r\<lparr>at_fifo_throughput_limit := v\<rparr>)"
| "entry_effect is_fifo r (r\<lparr>at_policy := s\<rparr>)"
| "entry_effect is_fifo r (r\<lparr>at_kms_master_key_id := s\<rparr>)"
| "entry_effect is_fifo r (r\<lparr>at_sqs_managed_sse_enabled := b\<rparr>)"
| "entry_effect is_fifo r r"

lemma entry_effect_ok:
  "entry_effect is_fifo r r' \<Longrightarrow> attributes_in_range r \<Longrightarrow> attributes_in_range r'"
  "entry_effect is_fifo r r' \<Longrightarrow> fifo_settings_ok is_fifo r \<Longrightarrow> fifo_settings_ok is_fifo r'"
  by (erule entry_effect.cases; simp add: attributes_in_range_def)
    (erule entry_effect.cases; simp add: fifo_settings_ok_def)

lemma if_InrE:
  "(if c then x else y) = Inr r \<Longrightarrow> (c \<Longrightarrow> x = Inr r \<Longrightarrow> P) \<Longrightarrow> (\<not> c \<Longrightarrow> y = Inr r \<Longrightarrow> P) \<Longrightarrow> P"
  by (cases c) auto

lemma from_map_entry_effect:
  "from_map_entry lib is_fifo key v r = Inr r' \<Longrightarrow> entry_effect is_fifo r r'"
  unfolding from_map_entry_def
  by (elim if_InrE)
    (auto simp: res_map_Inr intro: entry_effect.intros dest!: parse_i32_range_Inr
      split: option.splits if_splits)

lemma update_entry_effect:
  "update_entry lib is_fifo key v r = Inr r' \<Longrightarrow> entry_effect is_fifo r r'"
  unfolding update_entry_def
  by (elim if_InrE)
    (auto simp: res_map_Inr intro: entry_effect.intros dest!: parse_i32_range_Inr
      split: option.splits if_splits)

lemma from_map_entry_checked:
  "from_map_entry lib is_fifo key v r = Inr r' \<Longrightarrow> attributes_checked r \<Longrightarrow> attributes_checked r'"
  unfolding from_map_entry_def
  by (elim if_InrE)
    (auto simp: res_map_Inr attributes_checked_def split: option.splits if_split_asm)

lemma from_map_loop_ok:
  "from_map_loop lib is_fifo kvs r = Inr r' \<Longrightarrow>
     attributes_in_range r \<Longrightarrow> fifo_settings_ok is_fifo r \<Longrightarrow> attributes_checked r \<Longrightarrow>
     attributes_in_range r' \<and> fifo_settings_ok is_fifo r' \<and> attributes_checked r'"
proof (induction lib is_fifo kvs r rule: from_map_loop.induct)
  case (2 lib is_fifo key v kvs r)
  then obtain x where x: "from_map_entry lib is_fifo key v r = Inr x"
    and rest: "from_map_loop lib is_fifo kvs x = Inr r'"
    by (auto simp: res_bind_Inr_iff)
  note eff = from_map_entry_effect [OF x]
  show ?case
    using 2 x rest entry_effect_ok [OF eff] from_map_entry_checked [OF x] by blast
qed simp

lemma update_from_map_ok:
  "attributes_in_range r \<Longrightarrow> fifo_settings_ok is_fifo r \<Longrightarrow>
     attributes_in_range (fst (update_from_map lib is_fifo kvs r)) \<and>
     fifo_settings_ok is_fifo (fst (update_from_map lib is_fifo kvs r))"
proof (induction lib is_fifo kvs r rule: update_from_map.induct)
  case (2 lib is_fifo key v kvs r)
  show ?case
  proof (cases "update_entry lib is_fifo key v r")
    case (Inr r1)
    then have "entry_effect is_fifo r r1" by (rule update_entry_effect)
    with 2 Inr show ?thesis by (simp add: entry_effect_ok)
  qed (use 2 in simp)
qed simp

section \<open>Reading back what was rendered\<close>

lemma bt_get_insert_wanted:
  "distinct (map fst es) \<Longrightarrow>
     bt_get (insert_wanted requested es m) k =
       (case map_of es k of
          Some (Some text) \<Rightarrow> if wanted requested k then Some text else bt_get m k
        | _ \<Rightarrow> bt_get m k)"
proof (induction requested es m rule: insert_wanted.induct)
  case (2 requested name v es m)
  then show ?case
    by (auto simp: bt_get_insert map_of_eq_None_iff image_iff split: option.splits)
qed simp

lemma bt_wf_insert_wanted: "bt_wf m \<Longrightarrow> bt_wf (insert_wanted requested es m)"
proof (induction requested es m rule: insert_wanted.induct)
  case (2 requested name v es m)
  then show ?case by (cases v; cases "wanted requested name") (simp_all add: bt_wf_insert)
qed simp

text \<open>The value of a settable attribute.\<close>

definition setting_text :: "sqs_libs \<Rightarrow> bool \<Rightarrow> queue_attributes \<Rightarrow> string \<Rightarrow> string option" where
  "setting_text lib is_fifo a key =
     (case map_of (attribute_entries lib a is_fifo [] 0 0 (0, 0, 0)) key of
        None \<Rightarrow> None | Some v \<Rightarrow> v)"

text \<open>The attributes with the settings named in \<open>K\<close> taken from \<open>a\<close>.\<close>

definition settings_from :: "string set \<Rightarrow> queue_attributes \<Rightarrow> queue_attributes" where
  "settings_from K a =
     \<lparr>at_delay_seconds = (if ''DelaySeconds'' \<in> K then at_delay_seconds a else 0),
      at_maximum_message_size =
        (if ''MaximumMessageSize'' \<in> K then at_maximum_message_size a else 262144),
      at_message_retention_period =
        (if ''MessageRetentionPeriod'' \<in> K then at_message_retention_period a else 345600),
      at_receive_message_wait_time_seconds =
        (if ''ReceiveMessageWaitTimeSeconds'' \<in> K
         then at_receive_message_wait_time_seconds a else 0),
      at_visibility_timeout = (if ''VisibilityTimeout'' \<in> K then at_visibility_timeout a else 30),
      at_redrive_policy = (if ''RedrivePolicy'' \<in> K then at_redrive_policy a else None),
      at_redrive_allow_policy =
        (if ''RedriveAllowPolicy'' \<in> K then at_redrive_allow_policy a else None),
      at_content_based_deduplication =
        (if ''ContentBasedDeduplication'' \<in> K then at_content_based_deduplication a else False),
      at_deduplication_scope =
        (if ''DeduplicationScope'' \<in> K then at_deduplication_scope a else ''queue''),
      at_fifo_throughput_limit =
        (if ''FifoThroughputLimit'' \<in> K then at_fifo_throughput_limit a else ''perQueue''),
      at_policy = (if ''Policy'' \<in> K then at_policy a else None),
      at_kms_master_key_id = (if ''KmsMasterKeyId'' \<in> K then at_kms_master_key_id a else None),
      at_kms_data_key_reuse_period_seconds =
        (if ''KmsDataKeyReusePeriodSeconds'' \<in> K
         then at_kms_data_key_reuse_period_seconds a else None),
      at_sqs_managed_sse_enabled =
        (if ''SqsManagedSseEnabled'' \<in> K then at_sqs_managed_sse_enabled a else True)\<rparr>"

lemma setting_text_simps:
  "setting_text lib f a ''DelaySeconds'' = Some (show_int (at_delay_seconds a))"
  "setting_text lib f a ''MaximumMessageSize'' = Some (show_int (at_maximum_message_size a))"
  "setting_text lib f a ''MessageRetentionPeriod'' = Some (show_int (at_message_retention_period a))"
  "setting_text lib f a ''ReceiveMessageWaitTimeSeconds'' =
     Some (show_int (at_receive_message_wait_time_seconds a))"
  "setting_text lib f a ''VisibilityTimeout'' = Some (show_int (at_visibility_timeout a))"
  "setting_text lib f a ''RedrivePolicy'' = map_option (show_redrive_policy lib) (at_redrive_policy a)"
  "setting_text lib f a ''RedriveAllowPolicy'' = at_redrive_allow_policy a"
  "setting_text lib f a ''Policy'' = at_policy a"
  "setting_text lib f a ''FifoQueue'' = (if f then Some ''true'' else None)"
  "setting_text lib f a ''ContentBasedDeduplication'' =
     (if f then Some (show_bool (at_content_based_deduplication a)) else None)"
  "setting_text lib f a ''DeduplicationScope'' = (if f then Some (at_deduplication_scope a) else None)"
  "setting_text lib f a ''FifoThroughputLimit'' =
     (if f then Some (at_fifo_throughput_limit a) else None)"
  "setting_text lib f a ''SqsManagedSseEnabled'' = Some (show_bool (at_sqs_managed_sse_enabled a))"
  "setting_text lib f a ''KmsMasterKeyId'' = at_kms_master_key_id a"
  "setting_text lib f a ''KmsDataKeyReusePeriodSeconds'' =
     map_option show_int (at_kms_data_key_reuse_period_seconds a)"
  by (simp_all add: setting_text_def attribute_entries_def)

lemma settings_from_empty: "settings_from {} a = default_queue_attributes"
  by (simp add: settings_from_def default_queue_attributes_def)

lemma settings_from_all:
  assumes ok: "fifo_settings_ok is_fifo a"
    and all: "\<And>k. k \<in> set settable_attribute_names \<Longrightarrow> setting_text lib is_fifo a k \<noteq> None \<Longrightarrow> k \<in> K"
  shows "settings_from K a = a"
proof -
  have names: "''DelaySeconds'' \<in> set settable_attribute_names"
    "''MaximumMessageSize'' \<in> set settable_attribute_names"
    "''MessageRetentionPeriod'' \<in> set settable_attribute_names"
    "''ReceiveMessageWaitTimeSeconds'' \<in> set settable_attribute_names"
    "''VisibilityTimeout'' \<in> set settable_attribute_names"
    "''RedrivePolicy'' \<in> set settable_attribute_names"
    "''RedriveAllowPolicy'' \<in> set settable_attribute_names"
    "''Policy'' \<in> set settable_attribute_names"
    "''ContentBasedDeduplication'' \<in> set settable_attribute_names"
    "''DeduplicationScope'' \<in> set settable_attribute_names"
    "''FifoThroughputLimit'' \<in> set settable_attribute_names"
    "''SqsManagedSseEnabled'' \<in> set settable_attribute_names"
    "''KmsMasterKeyId'' \<in> set settable_attribute_names"
    "''KmsDataKeyReusePeriodSeconds'' \<in> set settable_attribute_names"
    by (simp_all add: settable_attribute_names_def)
  have absent: "setting_text lib is_fifo a k = None"
    if "k \<in> set settable_attribute_names" "k \<notin> K" for k
    using all that by blast
  note absent = names [THEN absent, unfolded setting_text_simps]
  show ?thesis
    by (rule queue_attributes.equality; simp only: settings_from_def queue_attributes.simps;
        use absent ok in \<open>auto simp: fifo_settings_ok_def split: if_splits\<close>)
qed

lemma truthy_show_bool: "truthy (show_bool b) = b"
  by (simp add: truthy_def show_bool_def)

text \<open>The setting named \<open>key\<close> passes the checks of \<open>from_map\<close>.\<close>

definition setting_checked :: "queue_attributes \<Rightarrow> string \<Rightarrow> bool" where
  "setting_checked a key \<longleftrightarrow>
     (key = ''RedrivePolicy'' \<longrightarrow> (\<forall>p. at_redrive_policy a = Some p \<longrightarrow> 1 \<le> rp_max_receive_count p)) \<and>
     (key = ''DeduplicationScope'' \<longrightarrow> at_deduplication_scope a \<in> {''queue'', ''messageGroup''})"

lemma from_map_entry_setting:
  assumes range: "attributes_in_range a" "setting_checked a key"
    and policy: "\<And>p. at_redrive_policy a = Some p \<Longrightarrow>
           parse_redrive_policy lib (show_redrive_policy lib p) = Some p"
    and key: "key \<in> set settable_attribute_names"
    and v: "setting_text lib is_fifo a key = Some v"
  shows "from_map_entry lib is_fifo key v (settings_from K a) = Inr (settings_from (insert key K) a)"
proof -
  note shapes = from_map_entry_def settings_from_def parse_i32_range_show attributes_in_range_def
    setting_checked_def truthy_show_bool
  from key show ?thesis
    unfolding settable_attribute_names_def list.set insert_iff empty_iff
  proof (elim disjE)
    assume k: "key = ''RedrivePolicy''"
    with v obtain p where p: "at_redrive_policy a = Some p" "v = show_redrive_policy lib p"
      by (auto simp: setting_text_simps)
    with k range policy [OF p(1)] show ?thesis by (auto simp: shapes)
  next
    assume k: "key = ''KmsDataKeyReusePeriodSeconds''"
    with v obtain n where "at_kms_data_key_reuse_period_seconds a = Some n" "v = show_int n"
      by (auto simp: setting_text_simps)
    with k range show ?thesis by (simp add: shapes)
  next
    assume k: "key = ''DeduplicationScope''"
    with v have "is_fifo" "v = at_deduplication_scope a"
      by (auto simp: setting_text_simps split: if_splits)
    with k range show ?thesis by (auto simp: shapes)
  next
    assume k: "key = ''ContentBasedDeduplication''"
    with v have "is_fifo" "v = show_bool (at_content_based_deduplication a)"
      by (auto simp: setting_text_simps split: if_splits)
    with k show ?thesis by (simp add: shapes)
  next
    assume k: "key = ''FifoThroughputLimit''"
    with v have "is_fifo" "v = at_fifo_throughput_limit a"
      by (auto simp: setting_text_simps split: if_splits)
    with k show ?thesis by (simp add: shapes)
  qed ((use range v [symmetric] in \<open>simp only: setting_text_simps, simp add: shapes\<close>)+, simp)
qed

lemma from_map_entry_unchecked:
  assumes "\<not> setting_checked a key"
    and policy: "\<And>p. at_redrive_policy a = Some p \<Longrightarrow>
           parse_redrive_policy lib (show_redrive_policy lib p) = Some p"
    and v: "setting_text lib is_fifo a key = Some v"
  shows "from_map_entry lib is_fifo key v r = Inl InvalidParameterValue"
proof (cases "key = ''RedrivePolicy''")
  case True
  with assms(1) v obtain p where "at_redrive_policy a = Some p" "v = show_redrive_policy lib p"
    "rp_max_receive_count p < 1"
    by (auto simp: setting_text_simps setting_checked_def)
  with policy True show ?thesis by (simp add: from_map_entry_def)
next
  case False
  with assms(1) have k: "key = ''DeduplicationScope''"
    "at_deduplication_scope a \<notin> {''queue'', ''messageGroup''}"
    by (auto simp: setting_checked_def)
  with v have "is_fifo" "v = at_deduplication_scope a"
    by (auto simp: setting_text_simps split: if_splits)
  with k show ?thesis by (simp add: from_map_entry_def)
qed

lemma from_map_loop_settings:
  assumes "attributes_in_range a"
    and policy: "\<And>p. at_redrive_policy a = Some p \<Longrightarrow>
           parse_redrive_policy lib (show_redrive_policy lib p) = Some p"
    and "\<And>k v. (k, v) \<in> set kvs \<Longrightarrow>
           k \<in> set settable_attribute_names \<and> setting_text lib is_fifo a k = Some v"
  shows "from_map_loop lib is_fifo kvs (settings_from K a) =
    (if list_all (setting_checked a) (map fst kvs) then Inr (settings_from (K \<union> fst ` set kvs) a)
     else Inl InvalidParameterValue)"
  using assms(3)
proof (induction kvs arbitrary: K)
  case (Cons kv kvs)
  obtain k v where kv: "kv = (k, v)" by (cases kv)
  then have entry: "k \<in> set settable_attribute_names" "setting_text lib is_fifo a k = Some v"
    using Cons.prems [of k v] by simp_all
  show ?case
  proof (cases "setting_checked a k")
    case True
    have "from_map_entry lib is_fifo k v (settings_from K a) = Inr (settings_from (insert k K) a)"
      using entry True assms(1) policy by (intro from_map_entry_setting)
    moreover have "from_map_loop lib is_fifo kvs (settings_from (insert k K) a) =
        (if list_all (setting_checked a) (map fst kvs)
         then Inr (settings_from (insert k K \<union> fst ` set kvs) a) else Inl InvalidParameterValue)"
      by (rule Cons.IH, rule Cons.prems, simp)
    ultimately show ?thesis using kv True by simp
  next
    case False
    with from_map_entry_unchecked [OF False policy entry(2)] kv show ?thesis by simp
  qed
qed simp

text \<open>The attributes of a queue in an exported snapshot.\<close>

definition export_attributes ::
    "sqs_libs \<Rightarrow> queue_attributes \<Rightarrow> bool \<Rightarrow> string \<Rightarrow> nat \<Rightarrow> nat \<Rightarrow> nat \<times> nat \<times> nat \<Rightarrow>
     (string, string) btree" where
  "export_attributes lib a is_fifo arn created_at last_modified_at counts =
     filter (\<lambda>kv. is_settable_attribute (fst kv))
       (to_map lib a settable_attribute_names is_fifo arn created_at last_modified_at counts)"

lemma distinct_attribute_entries:
  "distinct (map fst (attribute_entries lib a f arn created modified counts))"
  by (simp add: attribute_entries_def)

lemma entry_text_settable:
  assumes "k \<in> set settable_attribute_names"
  shows "(case map_of (attribute_entries lib a f arn created modified counts) k of
            Some (Some text) \<Rightarrow> Some text | _ \<Rightarrow> None) = setting_text lib f a k"
  using assms unfolding settable_attribute_names_def list.set insert_iff empty_iff
  by (elim disjE; simp only: setting_text_simps)
    (simp_all add: attribute_entries_def split: option.split)

lemma export_attributes_get:
  "bt_get (export_attributes lib a f arn created modified counts) k =
     (if k \<in> set settable_attribute_names then setting_text lib f a k else None)"
proof -
  let ?m = "to_map lib a settable_attribute_names f arn created modified counts"
  have "bt_get (filter (\<lambda>kv. is_settable_attribute (fst kv)) m) k =
      (if k \<in> set settable_attribute_names then bt_get m k else None)" for m :: "(string, string) btree"
    by (induction m) (auto simp: is_settable_attribute_def)
  moreover have "bt_get ?m k = setting_text lib f a k" if k: "k \<in> set settable_attribute_names"
  proof -
    have "bt_get ?m k =
        (case map_of (attribute_entries lib a f arn created modified counts) k of
           Some (Some text) \<Rightarrow> Some text | _ \<Rightarrow> None)"
      unfolding to_map_def bt_get_insert_wanted [OF distinct_attribute_entries]
      using k by (simp add: wanted_def split: option.split)
    also have "\<dots> = setting_text lib f a k" by (rule entry_text_settable [OF k])
    finally show ?thesis .
  qed
  ultimately show ?thesis by (simp add: export_attributes_def)
qed

lemma bt_wf_export: "bt_wf (export_attributes lib a f arn created modified counts)"
  by (simp add: export_attributes_def to_map_def bt_wf_filter bt_wf_insert_wanted)

lemma export_attributes_mem:
  "(k, v) \<in> set (export_attributes lib a f arn created modified counts) \<longleftrightarrow>
     k \<in> set settable_attribute_names \<and> setting_text lib f a k = Some v"
  using bt_mem_get [OF bt_wf_export] bt_get_mem [of "export_attributes lib a f arn created modified counts"]
    export_attributes_get [of lib a f arn created modified counts k]
  by (metis option.distinct(1))

lemma settable_policy_scope:
  "''RedrivePolicy'' \<in> set settable_attribute_names"
  "''DeduplicationScope'' \<in> set settable_attribute_names"
  by (simp_all add: settable_attribute_names_def)

lemma forall_two_keys:
  "(\<And>k. k \<noteq> x \<Longrightarrow> k \<noteq> y \<Longrightarrow> P k) \<Longrightarrow> (\<forall>k. D k \<longrightarrow> P k) \<longleftrightarrow> (D x \<longrightarrow> P x) \<and> (D y \<longrightarrow> P y)"
  by metis

lemma setting_checked_other:
  "k \<noteq> ''RedrivePolicy'' \<Longrightarrow> k \<noteq> ''DeduplicationScope'' \<Longrightarrow> setting_checked a k"
  by (simp add: setting_checked_def)

lemma export_attributes_checked:
  assumes ok: "fifo_settings_ok f a"
    and kvs: "set kvs = set (export_attributes lib a f arn created modified counts)"
  shows "list_all (setting_checked a) (map fst kvs) \<longleftrightarrow> attributes_checked a"
proof -
  have mem: "(k, v) \<in> set kvs \<longleftrightarrow> k \<in> set settable_attribute_names \<and> setting_text lib f a k = Some v"
    for k v unfolding kvs by (rule export_attributes_mem)
  have dom: "(\<exists>v. (''RedrivePolicy'', v) \<in> set kvs) \<longleftrightarrow> at_redrive_policy a \<noteq> None"
    "(\<exists>v. (''DeduplicationScope'', v) \<in> set kvs) \<longleftrightarrow> f"
    by (auto simp: mem settable_policy_scope setting_text_simps)
  have "list_all (setting_checked a) (map fst kvs) \<longleftrightarrow> (\<forall>k. (\<exists>v. (k, v) \<in> set kvs) \<longrightarrow> setting_checked a k)"
    by (auto simp: list_all_iff)
  also have "\<dots> \<longleftrightarrow>
      (at_redrive_policy a \<noteq> None \<longrightarrow> setting_checked a ''RedrivePolicy'') \<and>
      (f \<longrightarrow> setting_checked a ''DeduplicationScope'')"
    unfolding dom [symmetric] by (rule forall_two_keys, rule setting_checked_other)
  also have "\<dots> \<longleftrightarrow> attributes_checked a"
    using ok by (auto simp: setting_checked_def attributes_checked_def fifo_settings_ok_def)
  finally show ?thesis .
qed

text \<open>A snapshot entry is read back to the attributes it was written from, when they pass the
  checks that only \<open>from_map\<close> makes; otherwise it is refused.\<close>

lemma from_map_export:
  assumes "attributes_in_range a" "fifo_settings_ok f a"
    and policy: "\<And>p. at_redrive_policy a = Some p \<Longrightarrow>
           parse_redrive_policy lib (show_redrive_policy lib p) = Some p"
    and kvs: "set kvs = set (export_attributes lib a f arn created modified counts)"
  shows "from_map lib kvs f = (if attributes_checked a then Inr a else Inl InvalidParameterValue)"
proof -
  have "from_map_loop lib f kvs (settings_from {} a) =
      (if list_all (setting_checked a) (map fst kvs) then Inr (settings_from ({} \<union> fst ` set kvs) a)
       else Inl InvalidParameterValue)"
    by (rule from_map_loop_settings [OF assms(1) policy]) (auto simp: kvs export_attributes_mem)
  moreover have "settings_from (fst ` set kvs) a = a"
    by (rule settings_from_all [OF assms(2), where lib = lib])
      (auto simp: kvs export_attributes_mem image_iff Bex_def)
  ultimately show ?thesis
    unfolding from_map_def settings_from_empty export_attributes_checked [OF assms(2) kvs] by simp
qed

lemma updates_ok:
  "attributes_in_range r \<Longrightarrow> fifo_settings_ok is_fifo r \<Longrightarrow>
     attributes_in_range (foldl (\<lambda>r kvs. fst (update_from_map lib is_fifo kvs r)) r updates) \<and>
     fifo_settings_ok is_fifo (foldl (\<lambda>r kvs. fst (update_from_map lib is_fifo kvs r)) r updates)"
  by (induction updates arbitrary: r) (simp_all add: update_from_map_ok)

end
