(* ===== verification/SQS_Actor.thy ===== *)
theory SQS_Actor
  imports SQS_Storage SQS_Attributes
begin

text \<open>
  The queue actor (\<^verbatim>\<open>rustack-sqs-core/src/queue/actor.rs\<close>): one task per queue that owns all its state
  and handles one event at a time. The definitions follow the methods of \<^verbatim>\<open>QueueActor\<close>; a method
  that reads a clock, makes an identifier or iterates over a hash map takes the \<open>sqs_env\<close> of the
  event. \<open>None\<close> is a panic of the task.

  The handoff of a message to its dead-letter queue is asynchronous: the source puts a \<^verbatim>\<open>Transfer\<close>
  command into the channel of the target and keeps the message as \<^emph>\<open>pending\<close> until the target
  answers on a one-shot channel. A one-shot channel is identified by a ticket of its source.
\<close>

section \<open>State\<close>

datatype queue_storage =
    StandardStorage standard_storage
  | FifoStorage fifo_storage

datatype transfer_reply =
    ReplyEmpty
  | ReplySent "sqs_error + unit"
  | ReplyClosed

record pending_transfer =
  pt_message :: queue_message
  pt_ticket :: nat
  pt_reply :: transfer_reply
  pt_completion :: "(sqs_error + unit) option"

record transfer =
  tr_message :: queue_message
  tr_source_arn :: string
  tr_target_arn :: string
  tr_ticket :: nat

text \<open>\<open>rm_sent\<close> lists the transfers that were put into other queues' channels, \<open>rm_next_ticket\<close>
  numbers the one-shot channels.\<close>

record redrive_manager =
  rm_pending :: "pending_transfer list"
  rm_quiescing :: bool
  rm_next_ticket :: nat
  rm_sent :: "transfer list"

record pending_long_poll =
  lp_client :: nat
  lp_max_messages :: int
  lp_visibility_timeout :: int
  lp_deadline :: instant
  lp_attribute_names :: "string list"
  lp_message_attribute_names :: "string list"

record queue_actor =
  qa_name :: string
  qa_arn :: string
  qa_is_fifo :: bool
  qa_attributes :: queue_attributes
  qa_storage :: queue_storage
  qa_tags :: "(string, string) btree"
  qa_created_at :: nat
  qa_last_modified_at :: nat
  qa_last_purge_at :: "instant option"
  qa_account_id :: string
  qa_pending_long_polls :: "pending_long_poll list"
  qa_redrive :: redrive_manager
  qa_quiesce_reply :: "nat option"
  qa_stopping :: bool

definition redrive_manager_default :: redrive_manager where
  "redrive_manager_default =
     \<lparr>rm_pending = [], rm_quiescing = False, rm_next_ticket = 0, rm_sent = []\<rparr>"

definition queue_actor_new ::
    "string \<Rightarrow> string \<Rightarrow> bool \<Rightarrow> queue_attributes \<Rightarrow> (string, string) btree \<Rightarrow> string \<Rightarrow> nat \<Rightarrow> queue_actor" where
  "queue_actor_new name arn is_fifo attributes tags account_id created_at =
     \<lparr>qa_name = name, qa_arn = arn, qa_is_fifo = is_fifo, qa_attributes = attributes,
      qa_storage = (if is_fifo then FifoStorage fifo_default else StandardStorage standard_default),
      qa_tags = tags, qa_created_at = created_at, qa_last_modified_at = created_at,
      qa_last_purge_at = None, qa_account_id = account_id, qa_pending_long_polls = [],
      qa_redrive = redrive_manager_default, qa_quiesce_reply = None, qa_stopping = False\<rparr>"

datatype sqs_reply =
    SendReply "sqs_error + send_message_output"
  | ReceiveReply "sqs_message list"
  | UnitReply "sqs_error + unit"
  | MapReply "(string, string) btree"
  | DoneReply

datatype queue_output =
    ToClient nat sqs_reply
  | ToSource string nat "sqs_error + unit"

datatype queue_command =
    CmdTransfer queue_message string nat
  | CmdQuiesce nat
  | CmdSendMessage send_message_input nat
  | CmdReceiveMessage receive_message_input nat
  | CmdDeleteMessage string nat
  | CmdChangeVisibility string int nat
  | CmdGetAttributes "string list" nat
  | CmdSetAttributes "(string \<times> string) list" nat
  | CmdPurge nat
  | CmdGetTags nat
  | CmdSetTags "(string \<times> string) list" nat
  | CmdRemoveTags "string list" nat
  | CmdShutdown

section \<open>Dead-letter handoff\<close>

text \<open>The environment's \<open>channel_open\<close> stands for the lookup of the target in the registry, the
  comparison of its ARN, its shutdown flag and \<^verbatim>\<open>try_send\<close>.\<close>

definition handoff ::
    "sqs_env \<Rightarrow> redrive_manager \<Rightarrow> queue_message \<Rightarrow> string \<Rightarrow> string \<Rightarrow> redrive_manager \<times> bool" where
  "handoff e mgr message target_arn source_arn =
     (if rm_quiescing mgr \<or> 128 \<le> length (rm_pending mgr) \<or> source_arn = target_arn then (mgr, False)
      else if \<not> channel_open e target_arn (length (rm_pending mgr)) then (mgr, False)
      else
        (mgr\<lparr>rm_sent := rm_sent mgr @
               [\<lparr>tr_message = message, tr_source_arn = source_arn, tr_target_arn = target_arn,
                 tr_ticket = rm_next_ticket mgr\<rparr>],
             rm_pending := rm_pending mgr @
               [\<lparr>pt_message = message, pt_ticket = rm_next_ticket mgr, pt_reply = ReplyEmpty,
                 pt_completion = None\<rparr>],
             rm_next_ticket := rm_next_ticket mgr + 1\<rparr>, True))"

text \<open>\<^verbatim>\<open>RedriveRequest::target\<close>.\<close>

definition redrive_target :: "queue_attributes \<Rightarrow> queue_message \<Rightarrow> string option" where
  "redrive_target attrs m =
     (case at_redrive_policy attrs of
        None \<Rightarrow> None
      | Some p \<Rightarrow>
          if u32_of_i32_or_max (rp_max_receive_count p) \<le> qm_approximate_receive_count m
          then Some (rp_dead_letter_target_arn p) else None)"

definition str_rsplit_once :: "char \<Rightarrow> string \<Rightarrow> (string \<times> string) option" where
  "str_rsplit_once c s = map_option (\<lambda>(a, b). (rev b, rev a)) (split_once c (rev s))"

definition arn_scope :: "string \<Rightarrow> string option" where
  "arn_scope arn = map_option fst (str_rsplit_once CHR '':'' arn)"

definition redrive_allowed :: "json \<Rightarrow> string \<Rightarrow> bool" where
  "redrive_allowed policy source_arn =
     (case Option.bind (json_get policy ''redrivePermission'') json_as_str of
        None \<Rightarrow> False
      | Some perm \<Rightarrow>
          if perm = ''allowAll'' then True
          else if perm = ''byQueue'' then
            (case Option.bind (json_get policy ''sourceQueueArns'') json_as_array of
               None \<Rightarrow> False
             | Some arns \<Rightarrow> list_ex (\<lambda>j. json_as_str j = Some source_arn) arns)
          else False)"

text \<open>The message as the target stores it.\<close>

definition redriven_message :: "sqs_env \<Rightarrow> queue_message \<Rightarrow> string \<Rightarrow> queue_message" where
  "redriven_message e m source_arn =
     m\<lparr>qm_dead_letter_queue_source_arn := Some source_arn, qm_approximate_receive_count := 0,
       qm_approximate_first_receive_timestamp := None, qm_available_at := now_at e 0,
       qm_delay_seconds := 0\<rparr>"

definition transfer_check :: "sqs_libs \<Rightarrow> queue_actor \<Rightarrow> queue_message \<Rightarrow> string \<Rightarrow> sqs_error + unit" where
  "transfer_check lib a message source_arn =
     (if qa_stopping a \<or> qa_is_fifo a \<noteq> (qm_message_group_id message \<noteq> None)
      then Inl InvalidParameterValue
      else if length (qm_body message) > nat (at_maximum_message_size (qa_attributes a))
      then Inl InvalidParameterValue
      else if arn_scope source_arn \<noteq> arn_scope (qa_arn a) then Inl InvalidParameterValue
      else
        (case at_redrive_allow_policy (qa_attributes a) of
           None \<Rightarrow> Inr ()
         | Some text \<Rightarrow>
             (case parse_json lib text of
                None \<Rightarrow> Inl InvalidParameterValue
              | Some policy \<Rightarrow>
                  if redrive_allowed policy source_arn then Inr ()
                  else Inl InvalidParameterValue)))"

definition accept_transfer ::
    "sqs_libs \<Rightarrow> sqs_env \<Rightarrow> queue_message \<Rightarrow> string \<Rightarrow> queue_actor \<Rightarrow>
     (queue_actor \<times> (sqs_error + unit)) option" where
  "accept_transfer lib e message source_arn a =
     (case transfer_check lib a message source_arn of
        Inl err \<Rightarrow> Some (a, Inl err)
      | Inr _ \<Rightarrow>
          let m = redriven_message e message source_arn
          in (case qa_storage a of
                StandardStorage s \<Rightarrow>
                  Some (a\<lparr>qa_storage := StandardStorage (s\<lparr>st_available := st_available s @ [m]\<rparr>)\<rparr>,
                        Inr ())
              | FifoStorage s \<Rightarrow>
                  let m1 = m\<lparr>qm_sent_timestamp := millis_at e 0,
                             qm_message_deduplication_id := Some (qm_message_id m)\<rparr>
                  in (case enqueue (now_at e 1) (now_at e 2) m1
                             (DedupRedrive source_arn (qm_message_id m)) s of
                        None \<Rightarrow> None
                      | Some (s1, _) \<Rightarrow> Some (a\<lparr>qa_storage := FifoStorage s1\<rparr>, Inr ()))))"

text \<open>What is known of a pending transfer: its completion, or what its channel holds.\<close>

definition transfer_result :: "pending_transfer \<Rightarrow> (sqs_error + unit) option" where
  "transfer_result t =
     (case pt_completion t of
        Some r \<Rightarrow> Some r
      | None \<Rightarrow>
          (case pt_reply t of
             ReplyEmpty \<Rightarrow> None
           | ReplySent r \<Rightarrow> Some r
           | ReplyClosed \<Rightarrow> Some (Inl SqsInternalError)))"

definition settle_storage :: "pending_transfer \<Rightarrow> sqs_error + unit \<Rightarrow> queue_storage \<Rightarrow> queue_storage" where
  "settle_storage t result st =
     (let restore = (case result of Inl _ \<Rightarrow> Some (pt_message t) | Inr _ \<Rightarrow> None)
      in (case st of
            StandardStorage s \<Rightarrow>
              (case restore of
                 None \<Rightarrow> StandardStorage s
               | Some m \<Rightarrow> StandardStorage (s\<lparr>st_available := m # st_available s\<rparr>))
          | FifoStorage s \<Rightarrow> FifoStorage (finish_redrive (message_group (pt_message t)) restore s)))"

fun settle_loop ::
    "pending_transfer list \<Rightarrow> queue_storage \<times> pending_transfer list \<Rightarrow>
     queue_storage \<times> pending_transfer list" where
  "settle_loop [] acc = acc"
| "settle_loop (t # ts) (st, kept) =
     (case transfer_result t of
        None \<Rightarrow> settle_loop ts (st, kept @ [t])
      | Some result \<Rightarrow> settle_loop ts (settle_storage t result st, kept))"

definition settle_transfers :: "queue_actor \<Rightarrow> queue_actor" where
  "settle_transfers a =
     (case settle_loop (rm_pending (qa_redrive a)) (qa_storage a, []) of
        (st, kept) \<Rightarrow>
          a\<lparr>qa_storage := st, qa_redrive := (qa_redrive a)\<lparr>rm_pending := kept\<rparr>\<rparr>)"

text \<open>\<^verbatim>\<open>wait_for_transfer\<close>: the first transfer found complete keeps its result for \<open>settle_transfers\<close>.\<close>

fun wait_for_transfer :: "pending_transfer list \<Rightarrow> pending_transfer list" where
  "wait_for_transfer [] = []"
| "wait_for_transfer (t # ts) =
     (if pt_completion t \<noteq> None then t # ts
      else
        (case pt_reply t of
           ReplyEmpty \<Rightarrow> t # wait_for_transfer ts
         | ReplySent r \<Rightarrow> t\<lparr>pt_completion := Some r\<rparr> # ts
         | ReplyClosed \<Rightarrow> t\<lparr>pt_completion := Some (Inl SqsInternalError)\<rparr> # ts))"

section \<open>Sending\<close>

definition handle_send_message_standard ::
    "sqs_libs \<Rightarrow> sqs_env \<Rightarrow> send_message_input \<Rightarrow> queue_actor \<Rightarrow>
     (queue_actor \<times> (sqs_error + send_message_output \<times> bool)) option" where
  "handle_send_message_standard lib e input a =
     (if smi_message_group_id input \<noteq> None then Some (a, Inl InvalidParameterValue)
      else if smi_message_deduplication_id input \<noteq> None then Some (a, Inl InvalidParameterValue)
      else
        (case qa_storage a of
           FifoStorage _ \<Rightarrow> Some (a, Inl SqsInternalError)
         | StandardStorage s \<Rightarrow>
             let message_id = new_uuid e;
                 body_md5 = md5_of_body lib (smi_message_body input);
                 attr_md5 = md5_of_message_attributes lib (smi_message_attributes input);
                 delay_seconds =
                   unwrap_or (at_delay_seconds (qa_attributes a)) (smi_delay_seconds input)
             in (case (if delay_seconds > 0
                       then instant_add (now_at e 0) (i32_as_u64 delay_seconds)
                       else Some (now_at e 0)) of
                   None \<Rightarrow> None
                 | Some available_at \<Rightarrow>
                     let msg = \<lparr>qm_message_id = message_id, qm_body = smi_message_body input,
                           qm_md5_of_body = body_md5,
                           qm_message_attributes = smi_message_attributes input,
                           qm_md5_of_message_attributes = attr_md5,
                           qm_sender_id = qa_account_id a, qm_sent_timestamp = millis_at e 0,
                           qm_approximate_receive_count = 0,
                           qm_approximate_first_receive_timestamp = None,
                           qm_sequence_number = None, qm_message_group_id = None,
                           qm_message_deduplication_id = None,
                           qm_dead_letter_queue_source_arn = None,
                           qm_available_at = available_at, qm_delay_seconds = delay_seconds\<rparr>;
                         s1 = (if delay_seconds > 0
                               then s\<lparr>st_delayed := st_delayed s @ [msg]\<rparr>
                               else s\<lparr>st_available := st_available s @ [msg]\<rparr>)
                     in Some (a\<lparr>qa_storage := StandardStorage s1\<rparr>,
                              Inr (\<lparr>smo_message_id = Some message_id,
                                    smo_md5_of_message_body = Some body_md5,
                                    smo_md5_of_message_attributes = attr_md5,
                                    smo_sequence_number = None\<rparr>, delay_seconds \<le> 0)))))"

text \<open>The deduplication key: the explicit id or the digest of the body, in the configured scope.\<close>

definition dedup_id :: "sqs_libs \<Rightarrow> queue_attributes \<Rightarrow> send_message_input \<Rightarrow> string option" where
  "dedup_id lib attrs input =
     (case smi_message_deduplication_id input of
        Some did \<Rightarrow> Some did
      | None \<Rightarrow>
          if at_content_based_deduplication attrs
          then Some (sha256_hex lib (smi_message_body input)) else None)"

definition effective_dedup_key :: "queue_attributes \<Rightarrow> string \<Rightarrow> string \<Rightarrow> dedup_key" where
  "effective_dedup_key attrs group_id did =
     (if at_deduplication_scope attrs = ''messageGroup'' then DedupGroup group_id did
      else DedupQueue did)"

definition handle_send_message_fifo ::
    "sqs_libs \<Rightarrow> sqs_env \<Rightarrow> send_message_input \<Rightarrow> queue_actor \<Rightarrow>
     (queue_actor \<times> (sqs_error + send_message_output \<times> bool)) option" where
  "handle_send_message_fifo lib e input a =
     (case qa_storage a of
        StandardStorage _ \<Rightarrow> Some (a, Inl SqsInternalError)
      | FifoStorage s \<Rightarrow>
          if (case smi_delay_seconds input of None \<Rightarrow> False | Some d \<Rightarrow> d > 0)
          then Some (a, Inl InvalidParameterValue)
          else
            (case smi_message_group_id input of
               None \<Rightarrow> Some (a, Inl MissingParameter)
             | Some group_id \<Rightarrow>
                 (case dedup_id lib (qa_attributes a) input of
                    None \<Rightarrow> Some (a, Inl InvalidParameterValue)
                  | Some did \<Rightarrow>
                      let key = effective_dedup_key (qa_attributes a) group_id did;
                          body_md5 = md5_of_body lib (smi_message_body input);
                          attr_md5 = md5_of_message_attributes lib (smi_message_attributes input);
                          msg = \<lparr>qm_message_id = new_uuid e, qm_body = smi_message_body input,
                            qm_md5_of_body = body_md5,
                            qm_message_attributes = smi_message_attributes input,
                            qm_md5_of_message_attributes = attr_md5,
                            qm_sender_id = qa_account_id a, qm_sent_timestamp = millis_at e 0,
                            qm_approximate_receive_count = 0,
                            qm_approximate_first_receive_timestamp = None,
                            qm_sequence_number = None, qm_message_group_id = Some group_id,
                            qm_message_deduplication_id = Some did,
                            qm_dead_letter_queue_source_arn = None,
                            qm_available_at = now_at e 0, qm_delay_seconds = 0\<rparr>;
                          output = (\<lambda>mid seq. \<lparr>smo_message_id = Some mid,
                            smo_md5_of_message_body = Some body_md5,
                            smo_md5_of_message_attributes = attr_md5,
                            smo_sequence_number = Some seq\<rparr>)
                      in (case enqueue (now_at e 1) (now_at e 2) msg key s of
                            None \<Rightarrow> None
                          | Some (s1, res) \<Rightarrow>
                              Some (a\<lparr>qa_storage := FifoStorage s1\<rparr>,
                                    Inr (case res of
                                           Enqueued mid seq \<Rightarrow> (output mid seq, True)
                                         | Deduplicated mid seq \<Rightarrow> (output mid seq, False)))))))"

definition handle_send_message ::
    "sqs_libs \<Rightarrow> sqs_env \<Rightarrow> send_message_input \<Rightarrow> queue_actor \<Rightarrow>
     (queue_actor \<times> (sqs_error + send_message_output \<times> bool)) option" where
  "handle_send_message lib e input a =
     (if smi_message_body input = [] then Some (a, Inl InvalidParameterValue)
      else if length (smi_message_body input) > i32_as_u64 (at_maximum_message_size (qa_attributes a))
      then Some (a, Inl InvalidParameterValue)
      else if length (smi_message_attributes input) > 10 then Some (a, Inl InvalidParameterValue)
      else if qa_is_fifo a then handle_send_message_fifo lib e input a
      else handle_send_message_standard lib e input a)"

section \<open>Receiving\<close>

definition merge_attribute_names :: "string list \<Rightarrow> string list \<Rightarrow> string list" where
  "merge_attribute_names old new =
     foldl (\<lambda>merged name. if name \<in> set merged then merged else merged @ [name]) old new"

definition system_attributes :: "queue_message \<Rightarrow> (string \<times> string option) list" where
  "system_attributes m =
     [(''DeadLetterQueueSourceArn'', qm_dead_letter_queue_source_arn m),
      (''SenderId'', Some (qm_sender_id m)),
      (''SentTimestamp'', Some (show_nat (qm_sent_timestamp m))),
      (''ApproximateReceiveCount'', Some (show_nat (qm_approximate_receive_count m))),
      (''ApproximateFirstReceiveTimestamp'',
         map_option show_nat (qm_approximate_first_receive_timestamp m)),
      (''MessageGroupId'', qm_message_group_id m),
      (''MessageDeduplicationId'', qm_message_deduplication_id m),
      (''SequenceNumber'', qm_sequence_number m)]"

fun insert_system_attributes ::
    "string list \<Rightarrow> (string \<times> string option) list \<Rightarrow> (string, string) btree \<Rightarrow> (string, string) btree" where
  "insert_system_attributes names [] m = m"
| "insert_system_attributes names ((name, v) # es) m =
     insert_system_attributes names es
       (if ''All'' \<in> set names \<or> name \<in> set names
        then (case v of None \<Rightarrow> m | Some text \<Rightarrow> bt_insert name text m) else m)"

definition build_message ::
    "queue_message \<Rightarrow> string \<Rightarrow> string list \<Rightarrow> string list \<Rightarrow> sqs_message" where
  "build_message m receipt_handle system_attr_names message_attr_names =
     \<lparr>msg_message_id = Some (qm_message_id m), msg_receipt_handle = Some receipt_handle,
      msg_body = Some (qm_body m), msg_md5_of_body = Some (qm_md5_of_body m),
      msg_md5_of_message_attributes = qm_md5_of_message_attributes m,
      msg_message_attributes =
        (if message_attr_names = [] then []
         else if ''All'' \<in> set message_attr_names \<or> ''.*'' \<in> set message_attr_names
         then qm_message_attributes m
         else filter (\<lambda>kv. fst kv \<in> set message_attr_names) (qm_message_attributes m)),
      msg_attributes = insert_system_attributes system_attr_names (system_attributes m) []\<rparr>"

text \<open>The two counters a receive updates.\<close>

definition mark_received :: "nat \<Rightarrow> queue_message \<Rightarrow> queue_message" where
  "mark_received millis m =
     m\<lparr>qm_approximate_receive_count := u32_saturating_succ (qm_approximate_receive_count m),
       qm_approximate_first_receive_timestamp :=
         (case qm_approximate_first_receive_timestamp m of None \<Rightarrow> Some millis | Some t \<Rightarrow> Some t)\<rparr>"

text \<open>What a receive is asked for; \<open>rq_attributes\<close> and \<open>rq_arn\<close> are those of the queue.\<close>

record receive_request =
  rq_max :: nat
  rq_vis_timeout :: nat
  rq_sys_attrs :: "string list"
  rq_msg_attrs :: "string list"
  rq_attributes :: queue_attributes
  rq_arn :: string

text \<open>The loop of \<open>try_receive_standard\<close>: \<open>budget\<close> iterations are left and \<open>i\<close> is the index of the
  next readings of the environment.\<close>

fun receive_standard_loop ::
    "sqs_libs \<Rightarrow> sqs_env \<Rightarrow> receive_request \<Rightarrow> nat \<Rightarrow> nat \<Rightarrow>
     standard_storage \<times> redrive_manager \<times> sqs_message list \<Rightarrow>
     (standard_storage \<times> redrive_manager \<times> sqs_message list) option" where
  "receive_standard_loop lib e rq 0 i acc = Some acc"
| "receive_standard_loop lib e rq (Suc budget) i (s, mgr, result) =
     (if rq_max rq \<le> length result then Some (s, mgr, result)
      else
        (case st_available s of
           [] \<Rightarrow> Some (s, mgr, result)
         | m # ms \<Rightarrow>
             let s1 = s\<lparr>st_available := ms\<rparr>
             in (case redrive_target (rq_attributes rq) m of
                   Some target \<Rightarrow>
                     (case handoff e mgr m target (rq_arn rq) of
                        (mgr1, accepted) \<Rightarrow>
                          receive_standard_loop lib e rq budget (Suc i)
                            (if accepted then s1 else s1\<lparr>st_available := ms @ [m]\<rparr>, mgr1, result))
                 | None \<Rightarrow>
                     let m1 = mark_received (millis_at e i) m;
                         handle = generate_receipt_handle lib (nanos_at e i) (nonce_at e i)
                                    (qm_message_id m1);
                         message = build_message m1 handle (rq_sys_attrs rq) (rq_msg_attrs rq)
                     in (case instant_add (now_at e i) (rq_vis_timeout rq) of
                           None \<Rightarrow> None
                         | Some visible_at \<Rightarrow>
                             receive_standard_loop lib e rq budget (Suc i)
                               (s1\<lparr>st_in_flight := bt_insert handle
                                     \<lparr>ifm_message = m1, ifm_receipt_handle = handle,
                                      ifm_visible_at = visible_at\<rparr> (st_in_flight s1)\<rparr>,
                                mgr, result @ [message])))))"

definition try_receive_standard ::
    "sqs_libs \<Rightarrow> sqs_env \<Rightarrow> receive_request \<Rightarrow> standard_storage \<Rightarrow> redrive_manager \<Rightarrow>
     (standard_storage \<times> redrive_manager \<times> sqs_message list) option" where
  "try_receive_standard lib e rq s mgr =
     receive_standard_loop lib e rq (min (length (st_available s)) 128) 2 (s, mgr, [])"

fun deliver_fifo_loop ::
    "sqs_libs \<Rightarrow> sqs_env \<Rightarrow> receive_request \<Rightarrow> (queue_message \<times> string) list \<Rightarrow> nat \<Rightarrow>
     fifo_storage \<times> redrive_manager \<times> sqs_message list \<Rightarrow>
     (fifo_storage \<times> redrive_manager \<times> sqs_message list) option" where
  "deliver_fifo_loop lib e rq [] i acc = Some acc"
| "deliver_fifo_loop lib e rq ((m, group_id) # received) i (s, mgr, result) =
     (case redrive_target (rq_attributes rq) m of
        Some target \<Rightarrow>
          (case handoff e mgr m target (rq_arn rq) of
             (mgr1, accepted) \<Rightarrow>
               deliver_fifo_loop lib e rq received (Suc i)
                 (if accepted then s else finish_redrive group_id (Some m) s, mgr1, result))
      | None \<Rightarrow>
          let m1 = mark_received (millis_at e i) m;
              handle = generate_receipt_handle lib (nanos_at e i) (nonce_at e i) (qm_message_id m1);
              message = build_message m1 handle (rq_sys_attrs rq) (rq_msg_attrs rq)
          in (case instant_add (now_at e i) (rq_vis_timeout rq) of
                None \<Rightarrow> None
              | Some visible_at \<Rightarrow>
                  deliver_fifo_loop lib e rq received (Suc i)
                    (mark_in_flight handle m1 group_id visible_at s, mgr, result @ [message])))"

definition try_receive_fifo ::
    "sqs_libs \<Rightarrow> sqs_env \<Rightarrow> receive_request \<Rightarrow> fifo_storage \<Rightarrow> redrive_manager \<Rightarrow>
     (fifo_storage \<times> redrive_manager \<times> sqs_message list) option" where
  "try_receive_fifo lib e rq s mgr =
     (case fifo_receive (rq_max rq) s of
        (s1, received) \<Rightarrow> deliver_fifo_loop lib e rq received 2 (s1, mgr, []))"

definition try_receive ::
    "sqs_libs \<Rightarrow> sqs_env \<Rightarrow> int \<Rightarrow> int \<Rightarrow> string list \<Rightarrow> string list \<Rightarrow> string list \<Rightarrow> queue_actor \<Rightarrow>
     (queue_actor \<times> sqs_message list) option" where
  "try_receive lib e max_messages visibility_timeout attribute_names system_attribute_names
     message_attribute_names a =
     (let rq = \<lparr>rq_max = i32_as_u64 max_messages, rq_vis_timeout = i32_as_u64 visibility_timeout,
                rq_sys_attrs = merge_attribute_names attribute_names system_attribute_names,
                rq_msg_attrs = message_attribute_names, rq_attributes = qa_attributes a,
                rq_arn = qa_arn a\<rparr>
      in (case qa_storage a of
            StandardStorage s \<Rightarrow>
              let s1 = fst (standard_return_expired_inflight (hash_order e) (now_at e 0) s);
                  s2 = fst (promote_delayed (now_at e 1) s1)
              in (case try_receive_standard lib e rq s2 (qa_redrive a) of
                    None \<Rightarrow> None
                  | Some (s3, mgr, messages) \<Rightarrow>
                      Some (a\<lparr>qa_storage := StandardStorage s3, qa_redrive := mgr\<rparr>, messages))
          | FifoStorage s \<Rightarrow>
              let s1 = fst (fifo_return_expired_inflight (hash_order e) (now_at e 0) s)
              in (case try_receive_fifo lib e rq s1 (qa_redrive a) of
                    None \<Rightarrow> None
                  | Some (s3, mgr, messages) \<Rightarrow>
                      Some (a\<lparr>qa_storage := FifoStorage s3, qa_redrive := mgr\<rparr>, messages))))"

text \<open>\<^verbatim>\<open>clamp(1, 10)\<close> of the number of messages; the last clock reading is the deadline's.\<close>

definition handle_receive_message ::
    "sqs_libs \<Rightarrow> sqs_env \<Rightarrow> receive_message_input \<Rightarrow> nat \<Rightarrow> queue_actor \<Rightarrow>
     (queue_actor \<times> queue_output list) option" where
  "handle_receive_message lib e input client a =
     (let max_messages = max 1 (min 10 (unwrap_or 1 (rmi_max_number_of_messages input)));
          wait_time = unwrap_or (at_receive_message_wait_time_seconds (qa_attributes a))
                        (rmi_wait_time_seconds input);
          visibility_timeout = unwrap_or (at_visibility_timeout (qa_attributes a))
                                 (rmi_visibility_timeout input)
      in (case try_receive lib e max_messages visibility_timeout (rmi_attribute_names input)
                 (rmi_message_system_attribute_names input) (rmi_message_attribute_names input) a of
            None \<Rightarrow> None
          | Some (a1, messages) \<Rightarrow>
              if messages \<noteq> [] \<or> wait_time \<le> 0
              then Some (a1, [ToClient client (ReceiveReply messages)])
              else
                (case instant_add (now_at e 2) (i32_as_u64 wait_time) of
                   None \<Rightarrow> None
                 | Some deadline \<Rightarrow>
                     Some (a1\<lparr>qa_pending_long_polls := qa_pending_long_polls a1 @
                              [\<lparr>lp_client = client, lp_max_messages = max_messages,
                                lp_visibility_timeout = visibility_timeout, lp_deadline = deadline,
                                lp_attribute_names = merge_attribute_names
                                  (rmi_attribute_names input)
                                  (rmi_message_system_attribute_names input),
                                lp_message_attribute_names = rmi_message_attribute_names input\<rparr>]\<rparr>,
                           []))))"

section \<open>Deleting, visibility, purging\<close>

definition handle_delete_message :: "string \<Rightarrow> queue_actor \<Rightarrow> queue_actor \<times> bool" where
  "handle_delete_message receipt_handle a =
     (case qa_storage a of
        StandardStorage s \<Rightarrow>
          (a\<lparr>qa_storage :=
               StandardStorage (s\<lparr>st_in_flight := bt_remove receipt_handle (st_in_flight s)\<rparr>)\<rparr>, False)
      | FifoStorage s \<Rightarrow>
          (case fifo_delete_message receipt_handle s of
             (s1, deleted) \<Rightarrow> (a\<lparr>qa_storage := FifoStorage s1\<rparr>, deleted)))"

definition handle_change_visibility ::
    "sqs_env \<Rightarrow> string \<Rightarrow> int \<Rightarrow> queue_actor \<Rightarrow> (queue_actor \<times> (sqs_error + bool)) option" where
  "handle_change_visibility e receipt_handle visibility_timeout a =
     (case qa_storage a of
        StandardStorage s \<Rightarrow>
          (case bt_get (st_in_flight s) receipt_handle of
             None \<Rightarrow> Some (a, Inl MessageNotInflight)
           | Some ifm \<Rightarrow>
               if visibility_timeout = 0 then
                 Some (a\<lparr>qa_storage := StandardStorage
                           (s\<lparr>st_in_flight := bt_remove receipt_handle (st_in_flight s),
                              st_available := st_available s @ [ifm_message ifm]\<rparr>)\<rparr>, Inr True)
               else
                 (case instant_add (now_at e 0) (i32_as_u64 visibility_timeout) of
                    None \<Rightarrow> None
                  | Some visible_at \<Rightarrow>
                      Some (a\<lparr>qa_storage := StandardStorage
                                (s\<lparr>st_in_flight := bt_insert receipt_handle
                                     (ifm\<lparr>ifm_visible_at := visible_at\<rparr>) (st_in_flight s)\<rparr>)\<rparr>,
                            Inr False)))
      | FifoStorage s \<Rightarrow>
          (case (if visibility_timeout = 0 then Some (now_at e 0)
                 else instant_add (now_at e 0) (i32_as_u64 visibility_timeout)) of
             None \<Rightarrow> None
           | Some visible_at \<Rightarrow>
               (case fifo_change_visibility (now_at e 1) receipt_handle visible_at s of
                  (s1, found) \<Rightarrow>
                    Some (a\<lparr>qa_storage := FifoStorage s1\<rparr>,
                          if found then Inr (visibility_timeout = 0)
                          else Inl MessageNotInflight))))"

definition handle_purge :: "sqs_env \<Rightarrow> queue_actor \<Rightarrow> queue_actor \<times> (sqs_error + unit)" where
  "handle_purge e a =
     (if (case qa_last_purge_at a of
            None \<Rightarrow> False
          | Some last_purge \<Rightarrow> now_at e 0 - last_purge < 60 * nanos_per_sec)
      then (a, Inl PurgeQueueInProgress)
      else
        (a\<lparr>qa_redrive := (qa_redrive a)\<lparr>rm_pending := []\<rparr>,
           qa_storage :=
             (case qa_storage a of
                StandardStorage s \<Rightarrow> StandardStorage (standard_purge s)
              | FifoStorage s \<Rightarrow> FifoStorage (fifo_purge s)),
           qa_last_purge_at := Some (now_at e 1)\<rparr>, Inr ()))"

section \<open>Long polls\<close>

text \<open>The polls are tried in order; the \<open>j\<close>-th has the environment \<open>es j\<close>.\<close>

fun fulfill_loop ::
    "sqs_libs \<Rightarrow> (nat \<Rightarrow> sqs_env) \<Rightarrow> pending_long_poll list \<Rightarrow> nat \<Rightarrow>
     queue_actor \<times> pending_long_poll list \<times> queue_output list \<Rightarrow>
     (queue_actor \<times> pending_long_poll list \<times> queue_output list) option" where
  "fulfill_loop lib es [] j acc = Some acc"
| "fulfill_loop lib es (poll # polls) j (a, remaining, out) =
     (if reply_closed (es j) (lp_client poll)
      then fulfill_loop lib es polls (Suc j) (a, remaining, out)
      else
        (case try_receive lib (es j) (lp_max_messages poll) (lp_visibility_timeout poll)
                (lp_attribute_names poll) [] (lp_message_attribute_names poll) a of
           None \<Rightarrow> None
         | Some (a1, messages) \<Rightarrow>
             if messages = [] then fulfill_loop lib es polls (Suc j) (a1, remaining @ [poll], out)
             else fulfill_loop lib es polls (Suc j)
                    (a1, remaining, out @ [ToClient (lp_client poll) (ReceiveReply messages)])))"

definition fulfill_pending_long_polls ::
    "sqs_libs \<Rightarrow> (nat \<Rightarrow> sqs_env) \<Rightarrow> queue_actor \<Rightarrow> (queue_actor \<times> queue_output list) option" where
  "fulfill_pending_long_polls lib es a =
     (case fulfill_loop lib es (qa_pending_long_polls a) 0
             (a\<lparr>qa_pending_long_polls := []\<rparr>, [], []) of
        None \<Rightarrow> None
      | Some (a1, remaining, out) \<Rightarrow> Some (a1\<lparr>qa_pending_long_polls := remaining\<rparr>, out))"

fun expire_loop ::
    "sqs_env \<Rightarrow> instant \<Rightarrow> pending_long_poll list \<Rightarrow> pending_long_poll list \<times> queue_output list" where
  "expire_loop e now [] = ([], [])"
| "expire_loop e now (poll # polls) =
     (let (remaining, out) = expire_loop e now polls
      in if reply_closed e (lp_client poll) then (remaining, out)
         else if lp_deadline poll \<le> now
         then (remaining, ToClient (lp_client poll) (ReceiveReply []) # out)
         else (poll # remaining, out))"

definition expire_long_polls :: "sqs_env \<Rightarrow> instant \<Rightarrow> queue_actor \<Rightarrow> queue_actor \<times> queue_output list" where
  "expire_long_polls e now a =
     (let (remaining, out) = expire_loop e now (qa_pending_long_polls a)
      in (a\<lparr>qa_pending_long_polls := remaining\<rparr>, out))"

text \<open>\<open>fulfill_if c\<close>: the conditional call that \<open>run\<close> and \<open>periodic_cleanup\<close> share.\<close>

definition fulfill_if ::
    "bool \<Rightarrow> sqs_libs \<Rightarrow> (nat \<Rightarrow> sqs_env) \<Rightarrow> queue_actor \<Rightarrow> (queue_actor \<times> queue_output list) option" where
  "fulfill_if c lib es a =
     (if c \<and> qa_pending_long_polls a \<noteq> [] then fulfill_pending_long_polls lib es a
      else Some (a, []))"

definition periodic_cleanup ::
    "sqs_libs \<Rightarrow> sqs_env \<Rightarrow> (nat \<Rightarrow> sqs_env) \<Rightarrow> queue_actor \<Rightarrow> (queue_actor \<times> queue_output list) option" where
  "periodic_cleanup lib e es a =
     (let (st, changed) =
            (case qa_storage a of
               StandardStorage s \<Rightarrow>
                 let (s1, returned) = standard_return_expired_inflight (hash_order e) (now_at e 0) s;
                     (s2, promoted) = promote_delayed (now_at e 1) s1
                 in (StandardStorage s2, returned \<or> promoted)
             | FifoStorage s \<Rightarrow>
                 let (s1, returned) = fifo_return_expired_inflight (hash_order e) (now_at e 0) s
                 in (FifoStorage (clean_dedup_cache (now_at e 1) s1), returned))
      in (case fulfill_if changed lib es (a\<lparr>qa_storage := st\<rparr>) of
            None \<Rightarrow> None
          | Some (a1, out) \<Rightarrow>
              (case expire_long_polls e (now_at e 2) a1 of
                 (a2, out2) \<Rightarrow> Some (a2, out @ out2))))"

section \<open>Commands and the event loop\<close>

definition queue_counts :: "queue_actor \<Rightarrow> nat \<times> nat \<times> nat" where
  "queue_counts a =
     (case (case qa_storage a of
              StandardStorage s \<Rightarrow> standard_counts s | FifoStorage s \<Rightarrow> fifo_counts s) of
        (available, in_flight, delayed) \<Rightarrow>
          (available,
           min u32_max (in_flight + (let n = length (rm_pending (qa_redrive a))
                                     in if n \<le> u32_max then n else u32_max)),
           delayed))"

text \<open>
  \<open>handle_command\<close> returns the new state, what is sent on reply channels, and whether pending long
  polls should be served. A reply to a client that has gone is dropped by the channel.
\<close>

fun handle_command ::
    "sqs_libs \<Rightarrow> sqs_env \<Rightarrow> bool \<Rightarrow> queue_command \<Rightarrow> queue_actor \<Rightarrow>
     (queue_actor \<times> queue_output list \<times> bool) option" where
  "handle_command lib e source_gone (CmdTransfer message source_arn ticket) a =
     (if source_gone then Some (a, [], False)
      else
        (case accept_transfer lib e message source_arn a of
           None \<Rightarrow> None
         | Some (a1, result) \<Rightarrow> Some (a1, [ToSource source_arn ticket result], is_ok result)))"
| "handle_command lib e source_gone (CmdQuiesce client) a =
     Some (a\<lparr>qa_redrive := (qa_redrive a)\<lparr>rm_quiescing := True\<rparr>,
             qa_quiesce_reply :=
               (if (case qa_quiesce_reply a of None \<Rightarrow> True | Some c \<Rightarrow> reply_closed e c)
                then Some client else qa_quiesce_reply a)\<rparr>, [], False)"
| "handle_command lib e source_gone (CmdSendMessage input client) a =
     (if reply_closed e client then Some (a, [], False)
      else
        (case handle_send_message lib e input a of
           None \<Rightarrow> None
         | Some (a1, result) \<Rightarrow>
             Some (a1, [ToClient client (SendReply (res_map fst result))],
                   (case result of Inl _ \<Rightarrow> False | Inr (_, available) \<Rightarrow> available))))"
| "handle_command lib e source_gone (CmdReceiveMessage input client) a =
     map_option (\<lambda>(a1, out). (a1, out, False)) (handle_receive_message lib e input client a)"
| "handle_command lib e source_gone (CmdDeleteMessage receipt_handle client) a =
     (case handle_delete_message receipt_handle a of
        (a1, freed) \<Rightarrow> Some (a1, [ToClient client (UnitReply (Inr ()))], freed))"
| "handle_command lib e source_gone (CmdChangeVisibility receipt_handle visibility_timeout client) a =
     map_option (\<lambda>(a1, result).
         (a1, [ToClient client (UnitReply (res_map (\<lambda>_. ()) result))], result = Inr True))
       (handle_change_visibility e receipt_handle visibility_timeout a)"
| "handle_command lib e source_gone (CmdGetAttributes attribute_names client) a =
     Some (a, [ToClient client (MapReply
                 (to_map lib (qa_attributes a) attribute_names (qa_is_fifo a) (qa_arn a)
                    (qa_created_at a) (qa_last_modified_at a) (queue_counts a)))], False)"
| "handle_command lib e source_gone (CmdSetAttributes attributes client) a =
     (case update_from_map lib (qa_is_fifo a) attributes (qa_attributes a) of
        (attrs, result) \<Rightarrow>
          Some (a\<lparr>qa_attributes := attrs,
                  qa_last_modified_at :=
                    (if is_ok result then seconds_now e else qa_last_modified_at a)\<rparr>,
                [ToClient client (UnitReply result)], False))"
| "handle_command lib e source_gone (CmdPurge client) a =
     (case handle_purge e a of
        (a1, result) \<Rightarrow> Some (a1, [ToClient client (UnitReply result)], False))"
| "handle_command lib e source_gone (CmdGetTags client) a =
     Some (a, [ToClient client (MapReply (qa_tags a))], False)"
| "handle_command lib e source_gone (CmdSetTags tags client) a =
     Some (a\<lparr>qa_tags := foldl (\<lambda>m (k, v). bt_insert k v m) (qa_tags a) tags\<rparr>,
           [ToClient client DoneReply], False)"
| "handle_command lib e source_gone (CmdRemoveTags keys client) a =
     Some (a\<lparr>qa_tags := foldl (\<lambda>m k. bt_remove k m) (qa_tags a) keys\<rparr>,
           [ToClient client DoneReply], False)"
| "handle_command lib e source_gone CmdShutdown a = Some (a, [], False)"

text \<open>The events that the \<^verbatim>\<open>select!\<close> of \<open>run\<close> waits for.\<close>

datatype queue_event =
    EvCommand queue_command bool
  | EvChannelClosed
  | EvTransferDone
  | EvCleanupTick
  | EvPollDeadline

definition stop_actor :: "queue_actor \<Rightarrow> queue_actor" where
  "stop_actor a = a\<lparr>qa_stopping := True, qa_redrive := (qa_redrive a)\<lparr>rm_quiescing := True\<rparr>\<rparr>"

text \<open>The head of the loop: settled transfers, the quiesce acknowledgment, and whether to stop.\<close>

definition loop_head :: "queue_actor \<Rightarrow> queue_actor \<times> queue_output list \<times> bool" where
  "loop_head a =
     (let a1 = settle_transfers a
      in if rm_pending (qa_redrive a1) = []
         then (a1\<lparr>qa_quiesce_reply := None\<rparr>,
               (case qa_quiesce_reply a1 of None \<Rightarrow> [] | Some c \<Rightarrow> [ToClient c DoneReply]),
               qa_stopping a1)
         else (a1, [], False))"

fun handle_event ::
    "sqs_libs \<Rightarrow> sqs_env \<Rightarrow> (nat \<Rightarrow> sqs_env) \<Rightarrow> queue_event \<Rightarrow> queue_actor \<Rightarrow>
     (queue_actor \<times> queue_output list) option" where
  "handle_event lib e es EvChannelClosed a = Some (stop_actor a, [])"
| "handle_event lib e es (EvCommand CmdShutdown source_gone) a = Some (stop_actor a, [])"
| "handle_event lib e es (EvCommand cmd source_gone) a =
     (case handle_command lib e source_gone cmd a of
        None \<Rightarrow> None
      | Some (a1, out, should_fulfill) \<Rightarrow>
          map_option (\<lambda>(a2, out2). (a2, out @ out2)) (fulfill_if should_fulfill lib es a1))"
| "handle_event lib e es EvTransferDone a =
     Some (a\<lparr>qa_redrive := (qa_redrive a)
               \<lparr>rm_pending := wait_for_transfer (rm_pending (qa_redrive a))\<rparr>\<rparr>, [])"
| "handle_event lib e es EvCleanupTick a = periodic_cleanup lib e es a"
| "handle_event lib e es EvPollDeadline a = Some (expire_long_polls e (now_at e 0) a)"

text \<open>
  The targets run as tasks of their own and answer when they like: by sending a result on the
  one-shot channel of a transfer, or by dropping it. The first answer to a ticket counts, and a
  channel that has its answer keeps it until the actor looks.
\<close>

type_synonym answers = "(nat \<times> transfer_reply) list"

definition hear :: "answers \<Rightarrow> pending_transfer \<Rightarrow> pending_transfer" where
  "hear ans t =
     (if pt_reply t = ReplyEmpty
      then t\<lparr>pt_reply := unwrap_or ReplyEmpty (map_of ans (pt_ticket t))\<rparr> else t)"

definition receive_answers :: "answers \<Rightarrow> queue_actor \<Rightarrow> queue_actor" where
  "receive_answers ans a =
     a\<lparr>qa_redrive := (qa_redrive a)\<lparr>rm_pending := map (hear ans) (rm_pending (qa_redrive a))\<rparr>\<rparr>"

text \<open>One turn of the loop of \<open>run\<close>; \<open>None\<close> when the task has ended, by stopping or by a panic. A run
  is a sequence of turns, each with the answers that arrive before the loop settles the pending
  transfers, those that arrive while it waits, what the turn reads, and the event it gets.\<close>

type_synonym turn = "answers \<times> answers \<times> sqs_env \<times> (nat \<Rightarrow> sqs_env) \<times> queue_event"

definition actor_turn :: "sqs_libs \<Rightarrow> turn \<Rightarrow> queue_actor \<Rightarrow> (queue_actor \<times> queue_output list) option" where
  "actor_turn lib r a =
     (case r of (early, late, e, es, ev) \<Rightarrow>
        (case loop_head (receive_answers early a) of (a1, out, stop) \<Rightarrow>
           if stop then None
           else map_option (\<lambda>(a2, out2). (a2, out @ out2))
                  (handle_event lib e es ev (receive_answers late a1))))"

fun run_actor :: "sqs_libs \<Rightarrow> turn list \<Rightarrow> queue_actor \<Rightarrow> (queue_actor \<times> queue_output list) option" where
  "run_actor lib [] a = Some (a, [])"
| "run_actor lib (r # rs) a =
     (case actor_turn lib r a of
        None \<Rightarrow> None
      | Some (a1, out) \<Rightarrow> map_option (\<lambda>(a2, out2). (a2, out @ out2)) (run_actor lib rs a1))"

end
