(* ===== verification/SQS_Conservation.thy ===== *)
theory SQS_Conservation
  imports SQS_Actor
begin

text \<open>
  What a queue holds, as a multiset of payloads: the stored messages and those handed over to a
  dead-letter queue that has not accepted them yet. Receives, visibility changes, cleanups and
  settled transfers leave it unchanged; sending adds one message; only deletes, purges and
  accepted transfers take something away.
\<close>

section \<open>Contents\<close>

type_synonym payload =
  "string \<times> string \<times> (string, message_attribute_value) btree \<times> string option"

definition payload :: "queue_message \<Rightarrow> payload" where
  "payload m = (qm_message_id m, qm_body m, qm_message_attributes m, qm_message_group_id m)"

definition payloads :: "queue_message list \<Rightarrow> payload multiset" where
  "payloads ms = mset (map payload ms)"

lemma payloads_simps [simp]:
  "payloads [] = {#}" "payloads (m # ms) = add_mset (payload m) (payloads ms)"
  "payloads (ms @ ns) = payloads ms + payloads ns"
  by (simp_all add: payloads_def)

definition in_flight_payloads :: "('v \<Rightarrow> queue_message) \<Rightarrow> (string, 'v) btree \<Rightarrow> payload multiset" where
  "in_flight_payloads msg m = image_mset (\<lambda>kv. payload (msg (snd kv))) (mset m)"

definition standard_held :: "standard_storage \<Rightarrow> payload multiset" where
  "standard_held s =
     payloads (st_available s) + payloads (st_delayed s) +
     in_flight_payloads ifm_message (st_in_flight s)"

definition group_payloads :: "(string, queue_message list) btree \<Rightarrow> payload multiset" where
  "group_payloads groups = payloads (concat (bt_values groups))"

definition fifo_held :: "fifo_storage \<Rightarrow> payload multiset" where
  "fifo_held s = group_payloads (fs_groups s) + in_flight_payloads fif_message (fs_in_flight s)"

fun storage_held :: "queue_storage \<Rightarrow> payload multiset" where
  "storage_held (StandardStorage s) = standard_held s"
| "storage_held (FifoStorage s) = fifo_held s"

text \<open>A pending transfer counts until the target has accepted it.\<close>

definition unsettled :: "pending_transfer list \<Rightarrow> payload multiset" where
  "unsettled ts = payloads (map pt_message (filter (\<lambda>t. transfer_result t \<noteq> Some (Inr ())) ts))"

definition actor_held :: "queue_actor \<Rightarrow> payload multiset" where
  "actor_held a = storage_held (qa_storage a) + unsettled (rm_pending (qa_redrive a))"

lemma unsettled_simps [simp]:
  "unsettled [] = {#}" "unsettled (ts @ us) = unsettled ts + unsettled us"
  "unsettled (t # ts) =
     (if transfer_result t = Some (Inr ()) then unsettled ts
      else add_mset (payload (pt_message t)) (unsettled ts))"
  by (simp_all add: unsettled_def)

text \<open>The maps are well formed.\<close>

definition standard_wf :: "standard_storage \<Rightarrow> bool" where
  "standard_wf s \<longleftrightarrow> bt_wf (st_in_flight s)"

definition fifo_maps_wf :: "fifo_storage \<Rightarrow> bool" where
  "fifo_maps_wf s \<longleftrightarrow> bt_wf (fs_groups s) \<and> bt_wf (fs_in_flight s)"

fun storage_maps_wf :: "queue_storage \<Rightarrow> bool" where
  "storage_maps_wf (StandardStorage s) = standard_wf s"
| "storage_maps_wf (FifoStorage s) = fifo_maps_wf s"

fun storage_handles :: "queue_storage \<Rightarrow> string set" where
  "storage_handles (StandardStorage s) = set (bt_keys (st_in_flight s))"
| "storage_handles (FifoStorage s) = set (bt_keys (fs_in_flight s))"

section \<open>In-flight maps\<close>

lemma in_flight_insert:
  "bt_wf m \<Longrightarrow> bt_get m h = None \<Longrightarrow>
     in_flight_payloads msg (bt_insert h i m) = add_mset (payload (msg i)) (in_flight_payloads msg m)"
  by (simp add: in_flight_payloads_def mset_bt_insert_new)

lemma in_flight_remove:
  "bt_wf m \<Longrightarrow> bt_get m h = Some i \<Longrightarrow>
     in_flight_payloads msg m = add_mset (payload (msg i)) (in_flight_payloads msg (bt_remove h m))"
  by (simp add: in_flight_payloads_def mset_bt_remove)

lemma in_flight_update:
  assumes "bt_wf m" "bt_get m h = Some i" "payload (msg j) = payload (msg i)"
  shows "in_flight_payloads msg (bt_insert h j m) = in_flight_payloads msg m"
proof -
  have wf: "bt_wf (bt_remove h m)" using assms(1) by (rule bt_wf_remove)
  have gone: "bt_get (bt_remove h m) h = None" by (simp add: bt_get_filter_out)
  have "bt_insert h j m = bt_insert h j (bt_remove h m)"
    by (rule bt_ext) (auto simp: bt_wf_insert assms(1) wf bt_get_insert bt_get_filter_out)
  then have "in_flight_payloads msg (bt_insert h j m) =
      add_mset (payload (msg j)) (in_flight_payloads msg (bt_remove h m))"
    using in_flight_insert [OF wf gone] by simp
  with in_flight_remove [OF assms(1,2), of msg] assms(3) show ?thesis by simp
qed

lemma in_flight_absent: "bt_get m h = None \<Longrightarrow> bt_remove h m = m"
  by (induction m) (auto simp: bt_remove_def)

section \<open>Groups\<close>

lemma group_payloads_insert:
  "bt_wf groups \<Longrightarrow>
     group_payloads (bt_insert g q groups) + payloads (unwrap_or [] (bt_get groups g)) =
     group_payloads groups + payloads q"
proof (induction groups)
  case (Cons e m)
  show ?case
  proof (cases "g < fst e")
    case True
    then have "bt_get (e # m) g = None"
      using Cons.prems by (intro bt_get_above) auto
    moreover from True have "fst e \<noteq> g" "\<not> fst e < g" by auto
    ultimately show ?thesis using True by (simp add: group_payloads_def bt_values_def)
  next
    case False
    with Cons show ?thesis
      by (cases "fst e = g") (auto simp: group_payloads_def bt_values_def ac_simps)
  qed
qed (simp add: group_payloads_def bt_values_def)

lemma group_payloads_push:
  assumes "bt_wf (fs_groups s)"
  shows "group_payloads (fs_groups (group_push_back g m s)) =
      add_mset (payload m) (group_payloads (fs_groups s))"
    and "group_payloads (fs_groups (group_push_front g m s)) =
      add_mset (payload m) (group_payloads (fs_groups s))"
  using group_payloads_insert [OF assms, of g "group_queue s g @ [m]"]
    group_payloads_insert [OF assms, of g "m # group_queue s g"]
  by (simp_all add: group_push_back_def group_push_front_def group_queue_def)

lemma group_payloads_retain:
  "group_payloads (bt_retain (\<lambda>_ q. q \<noteq> []) groups) = group_payloads groups"
  by (induction groups) (auto simp: group_payloads_def bt_values_def bt_retain_def)

lemma push_selectors [simp]:
  "fs_in_flight (group_push_back g m s) = fs_in_flight s"
  "fs_in_flight (group_push_front g m s) = fs_in_flight s"
  "fs_blocked_groups (group_push_back g m s) = fs_blocked_groups s"
  "fs_blocked_groups (group_push_front g m s) = fs_blocked_groups s"
  "fs_dedup_cache (group_push_back g m s) = fs_dedup_cache s"
  "fs_dedup_cache (group_push_front g m s) = fs_dedup_cache s"
  "fs_next_sequence (group_push_back g m s) = fs_next_sequence s"
  "fs_next_sequence (group_push_front g m s) = fs_next_sequence s"
  by (simp_all add: group_push_back_def group_push_front_def)

lemma unblock_selectors [simp]:
  "fs_in_flight (unblock_idle g s) = fs_in_flight s"
  "fs_groups (unblock_idle g s) = fs_groups s"
  "fs_dedup_cache (unblock_idle g s) = fs_dedup_cache s"
  "fs_next_sequence (unblock_idle g s) = fs_next_sequence s"
  by (simp_all add: unblock_idle_def)

lemma push_wf:
  "bt_wf (fs_groups s) \<Longrightarrow> bt_wf (fs_groups (group_push_back g m s))"
  "bt_wf (fs_groups s) \<Longrightarrow> bt_wf (fs_groups (group_push_front g m s))"
  by (simp_all add: group_push_back_def group_push_front_def bt_wf_insert)

section \<open>Storage operations\<close>

lemma promote_loop_eq:
  "promote_loop now ms (avail, delayed, p) =
     (avail @ filter (\<lambda>m. qm_available_at m \<le> now) ms,
      delayed @ filter (\<lambda>m. \<not> qm_available_at m \<le> now) ms,
      p \<or> (\<exists>m\<in>set ms. qm_available_at m \<le> now))"
  by (induction ms arbitrary: avail delayed p) auto

lemma payloads_partition:
  "payloads (filter P ms) + payloads (filter (\<lambda>m. \<not> P m) ms) = payloads ms"
  by (induction ms) auto

lemma promote_delayed_held:
  "standard_held (fst (promote_delayed now s)) = standard_held s"
  "st_in_flight (fst (promote_delayed now s)) = st_in_flight s"
  using payloads_partition [of "\<lambda>m. qm_available_at m \<le> now" "st_delayed s"]
  by (simp_all add: promote_delayed_def promote_loop_eq standard_held_def ac_simps)

lemma return_standard_loop_held:
  "standard_wf s \<Longrightarrow>
     standard_held (return_standard_loop hs s) = standard_held s \<and>
     standard_wf (return_standard_loop hs s) \<and>
     set (bt_keys (st_in_flight (return_standard_loop hs s))) \<subseteq> set (bt_keys (st_in_flight s))"
proof (induction hs s rule: return_standard_loop.induct)
  case (2 h hs s)
  show ?case
  proof (cases "bt_get (st_in_flight s) h")
    case (Some i)
    let ?s = "s\<lparr>st_in_flight := bt_remove h (st_in_flight s),
                st_available := st_available s @ [ifm_message i]\<rparr>"
    have "standard_wf ?s" using 2 by (simp add: standard_wf_def bt_wf_remove)
    moreover have "standard_held ?s = standard_held s"
      using in_flight_remove [of "st_in_flight s" h i ifm_message] Some 2
      by (simp add: standard_held_def standard_wf_def)
    moreover have "set (bt_keys (st_in_flight ?s)) \<subseteq> set (bt_keys (st_in_flight s))"
      by (auto simp: bt_remove_def bt_keys_def)
    ultimately show ?thesis using 2 Some by auto
  qed (use 2 in simp)
qed simp

lemma standard_return_expired_held:
  assumes "standard_wf s"
  shows "standard_held (fst (standard_return_expired_inflight ord now s)) = standard_held s"
    and "standard_wf (fst (standard_return_expired_inflight ord now s))"
    and "set (bt_keys (st_in_flight (fst (standard_return_expired_inflight ord now s))))
           \<subseteq> set (bt_keys (st_in_flight s))"
  using return_standard_loop_held [OF assms]
  by (simp_all add: standard_return_expired_inflight_def Let_def)

lemma return_to_group_held:
  assumes "fifo_maps_wf s" "bt_get (fs_in_flight s) h = Some i"
  shows "fifo_held (return_to_group h i s) = fifo_held s"
    and "fifo_maps_wf (return_to_group h i s)"
    and "fs_in_flight (return_to_group h i s) = bt_remove h (fs_in_flight s)"
  using assms in_flight_remove [of "fs_in_flight s" h i fif_message]
    group_payloads_push(2) [of "s\<lparr>fs_in_flight := bt_remove h (fs_in_flight s)\<rparr>"]
  by (simp_all add: return_to_group_def fifo_held_def fifo_maps_wf_def push_wf bt_wf_remove)

lemma return_fifo_loop_held:
  "fifo_maps_wf s \<Longrightarrow>
     fifo_held (return_fifo_loop hs s) = fifo_held s \<and> fifo_maps_wf (return_fifo_loop hs s) \<and>
     set (bt_keys (fs_in_flight (return_fifo_loop hs s))) \<subseteq> set (bt_keys (fs_in_flight s))"
proof (induction hs s rule: return_fifo_loop.induct)
  case (2 h hs s)
  show ?case
  proof (cases "bt_get (fs_in_flight s) h")
    case (Some i)
    have "set (bt_keys (bt_remove h (fs_in_flight s))) \<subseteq> set (bt_keys (fs_in_flight s))"
      by (auto simp: bt_remove_def bt_keys_def)
    with 2 Some return_to_group_held [OF 2(2) Some] show ?thesis by auto
  qed (use 2 in simp)
qed simp

lemma fifo_return_expired_held:
  assumes "fifo_maps_wf s"
  shows "fifo_held (fst (fifo_return_expired_inflight ord now s)) = fifo_held s"
    and "fifo_maps_wf (fst (fifo_return_expired_inflight ord now s))"
    and "set (bt_keys (fs_in_flight (fst (fifo_return_expired_inflight ord now s))))
           \<subseteq> set (bt_keys (fs_in_flight s))"
  using return_fifo_loop_held [OF assms]
  by (simp_all add: fifo_return_expired_inflight_def Let_def)

lemma clean_dedup_held:
  "fifo_held (clean_dedup_cache now s) = fifo_held s"
  "fifo_maps_wf (clean_dedup_cache now s) = fifo_maps_wf s"
  "fs_in_flight (clean_dedup_cache now s) = fs_in_flight s"
  by (simp_all add: clean_dedup_cache_def fifo_held_def fifo_maps_wf_def)

lemma finish_redrive_held:
  assumes "fifo_maps_wf s"
  shows "fifo_held (finish_redrive g r s) =
      fifo_held s + (case r of None \<Rightarrow> {#} | Some m \<Rightarrow> {#payload m#})"
    and "fifo_maps_wf (finish_redrive g r s)"
    and "fs_in_flight (finish_redrive g r s) = fs_in_flight s"
  using assms
  by (auto simp: finish_redrive_def fifo_held_def fifo_maps_wf_def group_payloads_push push_wf
      Let_def split: option.split)

lemma fifo_receive_loop_held:
  "bt_wf (fs_groups s) \<Longrightarrow> fifo_receive_loop n gs s result = (s', result') \<Longrightarrow>
     group_payloads (fs_groups s') + payloads (map fst result') =
       group_payloads (fs_groups s) + payloads (map fst result) \<and>
     bt_wf (fs_groups s') \<and> fs_in_flight s' = fs_in_flight s"
proof (induction n gs s result rule: fifo_receive_loop.induct)
  case (2 n g gs s result)
  show ?case
  proof (cases "n \<le> length result \<or> g \<in> fs_blocked_groups s \<or>
      bt_get (fs_groups s) g = None \<or> bt_get (fs_groups s) g = Some []")
    case True
    with 2 show ?thesis by (auto split: if_splits option.splits list.splits)
  next
    case False
    then obtain m ms where q: "bt_get (fs_groups s) g = Some (m # ms)"
      by (metis list.exhaust option.exhaust)
    let ?s = "s\<lparr>fs_groups := bt_insert g ms (fs_groups s),
                fs_blocked_groups := insert g (fs_blocked_groups s)\<rparr>"
    have "add_mset (payload m) (group_payloads (fs_groups ?s)) = group_payloads (fs_groups s)"
      using group_payloads_insert [OF 2(5), of g ms] q by simp
    moreover have "bt_wf (fs_groups ?s)" using 2(5) by (simp add: bt_wf_insert)
    ultimately show ?thesis
      using 2(4) [of "m # ms" m ms] 2(5,6) False q by (auto simp: ac_simps)
  qed
qed simp

lemma fifo_receive_held:
  assumes "fifo_maps_wf s" "fifo_receive n s = (s', received)"
  shows "fifo_held s = fifo_held s' + payloads (map fst received)"
    and "fifo_maps_wf s'" and "fs_in_flight s' = fs_in_flight s"
proof -
  obtain s1 where l: "fifo_receive_loop n (bt_keys (fs_groups s)) s [] = (s1, received)"
    and s': "s' = s1\<lparr>fs_groups := bt_retain (\<lambda>_ q. q \<noteq> []) (fs_groups s1)\<rparr>"
    using assms(2) by (auto simp: fifo_receive_def split: prod.splits)
  note * = fifo_receive_loop_held [OF _ l]
  show "fifo_held s = fifo_held s' + payloads (map fst received)"
    "fifo_maps_wf s'" "fs_in_flight s' = fs_in_flight s"
    using * assms(1)
    by (simp_all add: s' fifo_held_def fifo_maps_wf_def group_payloads_retain bt_wf_retain ac_simps)
qed

lemma enqueue_cases:
  assumes "enqueue now now' m key s = Some (s', res)"
  obtains (dup) entry where "dedup_hit now key s = Some entry" "s' = s"
      "res = Deduplicated (de_message_id entry) (de_sequence_number entry)"
    | (new) expiry where "dedup_hit now key s = None"
      "instant_add now' dedup_window_secs = Some expiry"
      "s' = group_push_back (message_group m)
              (m\<lparr>qm_sequence_number := Some (seq_string (fs_next_sequence s))\<rparr>)
              (s\<lparr>fs_next_sequence := fs_next_sequence s + 1,
                 fs_dedup_cache := (fs_dedup_cache s)(key \<mapsto>
                   \<lparr>de_expiry = expiry, de_message_id = qm_message_id m,
                    de_sequence_number = seq_string (fs_next_sequence s)\<rparr>)\<rparr>)"
      "res = Enqueued (qm_message_id m) (seq_string (fs_next_sequence s))"
  using assms
  by (auto simp: enqueue_def Let_def message_group_def split: option.splits)

lemma payload_simps [simp]:
  "payload (m\<lparr>qm_sequence_number := v1\<rparr>) = payload m"
  "payload (m\<lparr>qm_sent_timestamp := v2\<rparr>) = payload m"
  "payload (m\<lparr>qm_message_deduplication_id := v3\<rparr>) = payload m"
  "payload (mark_received t m) = payload m"
  "payload (redriven_message e m arn) = payload m"
  by (simp_all add: payload_def mark_received_def redriven_message_def)

lemma redriven_message_id [simp]: "qm_message_id (redriven_message e m arn) = qm_message_id m"
  by (simp add: redriven_message_def)

lemma enqueue_held:
  assumes "enqueue now now' m key s = Some (s', res)" "fifo_maps_wf s"
  shows "fifo_held s' = fifo_held s + (if dedup_hit now key s = None then {#payload m#} else {#})"
    and "fifo_maps_wf s'" and "fs_in_flight s' = fs_in_flight s"
  using assms
  by (auto elim!: enqueue_cases simp: fifo_held_def fifo_maps_wf_def group_payloads_push push_wf)

section \<open>Receives\<close>

definition receipt_at :: "sqs_libs \<Rightarrow> sqs_env \<Rightarrow> nat \<Rightarrow> string \<Rightarrow> string" where
  "receipt_at lib e i mid = generate_receipt_handle lib (nanos_at e i) (nonce_at e i) mid"

definition receipts_of :: "sqs_libs \<Rightarrow> sqs_env \<Rightarrow> string set" where
  "receipts_of lib e = {receipt_at lib e i mid |i mid. True}"

text \<open>The receipt handles that an event can make are distinct and not in use.\<close>

definition env_fresh :: "sqs_libs \<Rightarrow> sqs_env \<Rightarrow> string set \<Rightarrow> bool" where
  "env_fresh lib e H \<longleftrightarrow>
     receipts_of lib e \<inter> H = {} \<and>
     (\<forall>i j mid mid'. receipt_at lib e i mid = receipt_at lib e j mid' \<longrightarrow> i = j)"

text \<open>The part of it that a loop at index \<open>i\<close> still needs.\<close>

definition fresh_above :: "sqs_libs \<Rightarrow> sqs_env \<Rightarrow> nat \<Rightarrow> string set \<Rightarrow> bool" where
  "fresh_above lib e i H \<longleftrightarrow>
     (\<forall>j mid. i \<le> j \<longrightarrow> receipt_at lib e j mid \<notin> H) \<and>
     (\<forall>i j mid mid'. receipt_at lib e i mid = receipt_at lib e j mid' \<longrightarrow> i = j)"

lemma env_fresh_above: "env_fresh lib e H \<Longrightarrow> fresh_above lib e i H"
  by (auto simp: env_fresh_def fresh_above_def receipts_of_def)

lemma env_fresh_mono: "env_fresh lib e H \<Longrightarrow> K \<subseteq> H \<Longrightarrow> env_fresh lib e K"
  by (auto simp: env_fresh_def)

lemma fresh_above_mono: "fresh_above lib e i H \<Longrightarrow> K \<subseteq> H \<Longrightarrow> fresh_above lib e i K"
  by (auto simp: fresh_above_def)

lemma fresh_above_Suc: "fresh_above lib e i H \<Longrightarrow> fresh_above lib e (Suc i) H"
  by (auto simp: fresh_above_def)

lemma fresh_above_insert:
  "fresh_above lib e i H \<Longrightarrow> fresh_above lib e (Suc i) (insert (receipt_at lib e i mid) H)"
  by (fastforce simp: fresh_above_def)

lemma fresh_above_new:
  "fresh_above lib e i (set (bt_keys m)) \<Longrightarrow> bt_get m (receipt_at lib e i mid) = None"
  by (simp add: fresh_above_def bt_get_None_iff)

lemma bt_keys_insert: "set (bt_keys (bt_insert k v m)) = insert k (set (bt_keys m))"
  by (induction m) (auto simp: bt_keys_def)

lemma receipt_at_in: "receipt_at lib e i mid \<in> receipts_of lib e"
  by (auto simp: receipts_of_def)

lemma handoff_pending:
  "handoff e mgr m target source = (mgr', accepted) \<Longrightarrow>
     unsettled (rm_pending mgr') =
       unsettled (rm_pending mgr) + (if accepted then {#payload m#} else {#})"
  by (auto simp: handoff_def transfer_result_def split: if_splits)

lemma receive_standard_loop_held:
  "receive_standard_loop lib e rq budget i (s, mgr, result) = Some (s', mgr', result') \<Longrightarrow>
     standard_wf s \<Longrightarrow> fresh_above lib e i (set (bt_keys (st_in_flight s))) \<Longrightarrow>
     standard_held s' + unsettled (rm_pending mgr') = standard_held s + unsettled (rm_pending mgr) \<and>
     standard_wf s' \<and>
     set (bt_keys (st_in_flight s')) \<subseteq> set (bt_keys (st_in_flight s)) \<union> receipts_of lib e"
proof (induction budget arbitrary: i s mgr result)
  case (Suc budget)
  show ?case
  proof (cases "rq_max rq \<le> length result \<or> st_available s = []")
    case True
    with Suc.prems show ?thesis by (auto split: list.splits if_splits)
  next
    case False
    then obtain m ms where av: "st_available s = m # ms" and room: "\<not> rq_max rq \<le> length result"
      by (auto simp: neq_Nil_conv)
    show ?thesis
    proof (cases "redrive_target (rq_attributes rq) m")
      case (Some target)
      obtain mgr1 accepted where h: "handoff e mgr m target (rq_arn rq) = (mgr1, accepted)"
        by fastforce
      let ?s = "if accepted then s\<lparr>st_available := ms\<rparr> else s\<lparr>st_available := ms @ [m]\<rparr>"
      have run: "receive_standard_loop lib e rq budget (Suc i) (?s, mgr1, result) =
          Some (s', mgr', result')"
        using Suc.prems(1) av room Some h by (cases accepted) (simp_all add: Let_def)
      have "standard_wf ?s" "set (bt_keys (st_in_flight ?s)) = set (bt_keys (st_in_flight s))"
        using Suc.prems(2) by (auto simp: standard_wf_def)
      moreover have "standard_held ?s + unsettled (rm_pending mgr1) =
          standard_held s + unsettled (rm_pending mgr)"
        using handoff_pending [OF h] av by (simp add: standard_held_def)
      ultimately show ?thesis
        using Suc.IH [OF run] fresh_above_Suc [OF Suc.prems(3)] by auto
    next
      case None
      let ?m = "mark_received (millis_at e i) m"
      let ?h = "receipt_at lib e i (qm_message_id ?m)"
      obtain t where t: "instant_add (now_at e i) (rq_vis_timeout rq) = Some t"
        using Suc.prems(1) av room None by (auto simp: Let_def split: option.splits)
      let ?ifm = "\<lparr>ifm_message = ?m, ifm_receipt_handle = ?h, ifm_visible_at = t\<rparr>"
      let ?s = "s\<lparr>st_available := ms, st_in_flight := bt_insert ?h ?ifm (st_in_flight s)\<rparr>"
      have run: "receive_standard_loop lib e rq budget (Suc i)
          (?s, mgr, result @ [build_message ?m ?h (rq_sys_attrs rq) (rq_msg_attrs rq)]) =
          Some (s', mgr', result')"
        using Suc.prems(1) av room None t by (simp add: Let_def receipt_at_def)
      have new: "bt_get (st_in_flight s) ?h = None"
        by (rule fresh_above_new [OF Suc.prems(3)])
      have "standard_wf ?s" using Suc.prems(2) by (simp add: standard_wf_def bt_wf_insert)
      moreover have "standard_held ?s = standard_held s"
        using Suc.prems(2) in_flight_insert [OF _ new, of ifm_message ?ifm] av
        by (simp add: standard_held_def standard_wf_def)
      moreover have "fresh_above lib e (Suc i) (set (bt_keys (st_in_flight ?s)))"
        using fresh_above_insert [OF Suc.prems(3)] by (simp add: bt_keys_insert)
      ultimately show ?thesis
        using Suc.IH [OF run] receipt_at_in [of lib e i] by (auto simp: bt_keys_insert)
    qed
  qed
qed simp

lemma deliver_fifo_loop_held:
  "deliver_fifo_loop lib e rq received i (s, mgr, result) = Some (s', mgr', result') \<Longrightarrow>
     fifo_maps_wf s \<Longrightarrow> fresh_above lib e i (set (bt_keys (fs_in_flight s))) \<Longrightarrow>
     fifo_held s' + unsettled (rm_pending mgr') =
       fifo_held s + payloads (map fst received) + unsettled (rm_pending mgr) \<and>
     fifo_maps_wf s' \<and>
     set (bt_keys (fs_in_flight s')) \<subseteq> set (bt_keys (fs_in_flight s)) \<union> receipts_of lib e"
proof (induction received arbitrary: i s mgr result)
  case (Cons r received)
  obtain m g where r: "r = (m, g)" by (cases r)
  show ?case
  proof (cases "redrive_target (rq_attributes rq) m")
    case (Some target)
    obtain mgr1 accepted where h: "handoff e mgr m target (rq_arn rq) = (mgr1, accepted)"
      by fastforce
    let ?s = "if accepted then s else finish_redrive g (Some m) s"
    have run: "deliver_fifo_loop lib e rq received (Suc i) (?s, mgr1, result) =
        Some (s', mgr', result')"
      using Cons.prems(1) r Some h by (simp split: if_splits)
    have "fifo_maps_wf ?s" "fs_in_flight ?s = fs_in_flight s"
      "fifo_held ?s = fifo_held s + (if accepted then {#} else {#payload m#})"
      using Cons.prems(2) finish_redrive_held [of s g "Some m"] by auto
    then show ?thesis
      using Cons.IH [OF run] fresh_above_Suc [OF Cons.prems(3)] handoff_pending [OF h] r by auto
  next
    case None
    let ?m = "mark_received (millis_at e i) m"
    let ?h = "receipt_at lib e i (qm_message_id ?m)"
    obtain t where t: "instant_add (now_at e i) (rq_vis_timeout rq) = Some t"
      using Cons.prems(1) r None by (auto simp: Let_def split: option.splits)
    let ?s = "mark_in_flight ?h ?m g t s"
    have run: "deliver_fifo_loop lib e rq received (Suc i)
        (?s, mgr, result @ [build_message ?m ?h (rq_sys_attrs rq) (rq_msg_attrs rq)]) =
        Some (s', mgr', result')"
      using Cons.prems(1) r None t by (simp add: Let_def receipt_at_def)
    have new: "bt_get (fs_in_flight s) ?h = None"
      by (rule fresh_above_new [OF Cons.prems(3)])
    have "fifo_maps_wf ?s"
      using Cons.prems(2) by (simp add: fifo_maps_wf_def mark_in_flight_def bt_wf_insert)
    moreover have "fifo_held ?s = add_mset (payload m) (fifo_held s)"
      using Cons.prems(2) in_flight_insert [OF _ new, of fif_message]
      by (simp add: fifo_held_def fifo_maps_wf_def mark_in_flight_def)
    moreover have keys: "set (bt_keys (fs_in_flight ?s)) = insert ?h (set (bt_keys (fs_in_flight s)))"
      by (simp add: mark_in_flight_def bt_keys_insert)
    moreover have "fresh_above lib e (Suc i) (set (bt_keys (fs_in_flight ?s)))"
      unfolding keys by (rule fresh_above_insert [OF Cons.prems(3)])
    ultimately show ?thesis
      using Cons.IH [OF run] receipt_at_in [of lib e i] r by auto
  qed
qed simp

definition actor_handles :: "queue_actor \<Rightarrow> string set" where
  "actor_handles a = storage_handles (qa_storage a)"

definition actor_maps_wf :: "queue_actor \<Rightarrow> bool" where
  "actor_maps_wf a \<longleftrightarrow> storage_maps_wf (qa_storage a)"

lemma try_receive_held:
  assumes run: "try_receive lib e n v attrs sys msg a = Some (a', messages)"
    and wf: "actor_maps_wf a" and fresh: "env_fresh lib e (actor_handles a)"
  shows "actor_held a' = actor_held a" and "actor_maps_wf a'"
    and "actor_handles a' \<subseteq> actor_handles a \<union> receipts_of lib e"
    and "\<exists>st mgr. a' = a\<lparr>qa_storage := st, qa_redrive := mgr\<rparr>"
proof -
  let ?rq = "\<lparr>rq_max = i32_as_u64 n, rq_vis_timeout = i32_as_u64 v,
    rq_sys_attrs = merge_attribute_names attrs sys, rq_msg_attrs = msg,
    rq_attributes = qa_attributes a, rq_arn = qa_arn a\<rparr>"
  have "actor_held a' = actor_held a \<and> actor_maps_wf a' \<and>
      actor_handles a' \<subseteq> actor_handles a \<union> receipts_of lib e \<and>
      (\<exists>st mgr. a' = a\<lparr>qa_storage := st, qa_redrive := mgr\<rparr>)"
  proof (cases "qa_storage a")
    case (StandardStorage s)
    let ?s1 = "fst (standard_return_expired_inflight (hash_order e) (now_at e 0) s)"
    let ?s2 = "fst (promote_delayed (now_at e 1) ?s1)"
    obtain s3 mgr where r: "try_receive_standard lib e ?rq ?s2 (qa_redrive a) = Some (s3, mgr, messages)"
      and a': "a' = a\<lparr>qa_storage := StandardStorage s3, qa_redrive := mgr\<rparr>"
      using run StandardStorage by (auto simp: try_receive_def Let_def split: option.splits)
    have s: "standard_wf s" using wf StandardStorage by (simp add: actor_maps_wf_def)
    note ret = standard_return_expired_held [OF s, of "hash_order e" "now_at e 0"]
    note pro = promote_delayed_held [of "now_at e 1" ?s1]
    have "standard_wf ?s2" using ret pro by (simp add: standard_wf_def)
    moreover have "fresh_above lib e 2 (set (bt_keys (st_in_flight ?s2)))"
      using fresh_above_mono [OF env_fresh_above [OF fresh, of 2]] ret(3) pro StandardStorage
      by (simp add: actor_handles_def)
    ultimately show ?thesis
      using receive_standard_loop_held [OF r [unfolded try_receive_standard_def]] ret pro
        StandardStorage
      by (auto simp: a' actor_held_def actor_maps_wf_def actor_handles_def)
  next
    case (FifoStorage s)
    let ?s1 = "fst (fifo_return_expired_inflight (hash_order e) (now_at e 0) s)"
    obtain s2 received where rec: "fifo_receive (i32_as_u64 n) ?s1 = (s2, received)" by fastforce
    obtain s3 mgr where r: "deliver_fifo_loop lib e ?rq received 2 (s2, qa_redrive a, []) =
          Some (s3, mgr, messages)"
      and a': "a' = a\<lparr>qa_storage := FifoStorage s3, qa_redrive := mgr\<rparr>"
      using run FifoStorage rec
      by (auto simp: try_receive_def try_receive_fifo_def Let_def split: option.splits)
    have s: "fifo_maps_wf s" using wf FifoStorage by (simp add: actor_maps_wf_def)
    note ret = fifo_return_expired_held [OF s, of "hash_order e" "now_at e 0"]
    note got = fifo_receive_held [OF ret(2) rec]
    have "fresh_above lib e 2 (set (bt_keys (fs_in_flight s2)))"
      using fresh_above_mono [OF env_fresh_above [OF fresh, of 2]] ret(3) got(3) FifoStorage
      by (simp add: actor_handles_def)
    then show ?thesis
      using deliver_fifo_loop_held [OF r got(2)] ret got FifoStorage
      by (auto simp: a' actor_held_def actor_maps_wf_def actor_handles_def)
  qed
  then show "actor_held a' = actor_held a" "actor_maps_wf a'"
    "actor_handles a' \<subseteq> actor_handles a \<union> receipts_of lib e"
    "\<exists>st mgr. a' = a\<lparr>qa_storage := st, qa_redrive := mgr\<rparr>" by blast+
qed

text \<open>The environments of the long polls served from index \<open>j\<close> on.\<close>

definition envs_fresh :: "sqs_libs \<Rightarrow> (nat \<Rightarrow> sqs_env) \<Rightarrow> nat \<Rightarrow> string set \<Rightarrow> bool" where
  "envs_fresh lib es j H \<longleftrightarrow>
     (\<forall>k\<ge>j. env_fresh lib (es k) H) \<and>
     (\<forall>k\<ge>j. \<forall>l\<ge>j. k \<noteq> l \<longrightarrow> receipts_of lib (es k) \<inter> receipts_of lib (es l) = {})"

lemma envs_fresh_head: "envs_fresh lib es j H \<Longrightarrow> env_fresh lib (es j) H"
  by (simp add: envs_fresh_def)

lemma envs_fresh_next:
  assumes "envs_fresh lib es j H" "K \<subseteq> H \<union> receipts_of lib (es j)"
  shows "envs_fresh lib es (Suc j) K"
proof -
  have "receipts_of lib (es k) \<inter> K = {}" if "Suc j \<le> k" for k
  proof -
    from that have "j \<le> k" "k \<noteq> j" by auto
    then have "receipts_of lib (es k) \<inter> H = {}" "receipts_of lib (es k) \<inter> receipts_of lib (es j) = {}"
      using assms(1) unfolding envs_fresh_def env_fresh_def by blast+
    with assms(2) show ?thesis by blast
  qed
  then have "\<forall>k\<ge>Suc j. env_fresh lib (es k) K"
    using assms(1) unfolding envs_fresh_def env_fresh_def by (metis Suc_leD)
  with assms(1) show ?thesis by (auto simp: envs_fresh_def)
qed

lemma envs_fresh_mono: "envs_fresh lib es j H \<Longrightarrow> K \<subseteq> H \<Longrightarrow> envs_fresh lib es j K"
  by (auto simp: envs_fresh_def intro: env_fresh_mono)

lemma envs_fresh_Suc: "envs_fresh lib es j H \<Longrightarrow> envs_fresh lib es (Suc j) H"
  by (auto simp: envs_fresh_def)

lemma fulfill_loop_held:
  "fulfill_loop lib es polls j (a, remaining, out) = Some (a', remaining', out') \<Longrightarrow>
     actor_maps_wf a \<Longrightarrow> envs_fresh lib es j (actor_handles a) \<Longrightarrow>
     actor_held a' = actor_held a \<and> actor_maps_wf a'"
proof (induction polls arbitrary: j a remaining out)
  case (Cons poll polls)
  show ?case
  proof (cases "reply_closed (es j) (lp_client poll)")
    case True
    with Cons show ?thesis by (auto dest: envs_fresh_Suc)
  next
    case False
    obtain a1 messages where r: "try_receive lib (es j) (lp_max_messages poll)
        (lp_visibility_timeout poll) (lp_attribute_names poll) []
        (lp_message_attribute_names poll) a = Some (a1, messages)"
      using Cons.prems(1) False by (auto split: option.splits)
    note got = try_receive_held [OF r Cons.prems(2) envs_fresh_head [OF Cons.prems(3)]]
    show ?thesis
      using Cons.IH [of "Suc j" a1] Cons.prems(1) False r got
        envs_fresh_next [OF Cons.prems(3) got(3)] by (auto split: if_splits)
  qed
qed simp

lemma fulfill_if_held:
  assumes "fulfill_if c lib es a = Some (a', out)"
    and "actor_maps_wf a" "envs_fresh lib es 0 (actor_handles a)"
  shows "actor_held a' = actor_held a \<and> actor_maps_wf a'"
proof (cases "c \<and> qa_pending_long_polls a \<noteq> []")
  case True
  then obtain a1 remaining where l: "fulfill_loop lib es (qa_pending_long_polls a) 0
      (a\<lparr>qa_pending_long_polls := []\<rparr>, [], []) = Some (a1, remaining, out)"
    and a': "a' = a1\<lparr>qa_pending_long_polls := remaining\<rparr>"
    using assms(1) by (auto simp: fulfill_if_def fulfill_pending_long_polls_def split: option.splits)
  show ?thesis
    using fulfill_loop_held [OF l] assms(2,3)
    by (simp add: a' actor_held_def actor_maps_wf_def actor_handles_def)
next
  case False
  with assms show ?thesis by (auto simp: fulfill_if_def)
qed

lemma expire_long_polls_held:
  "expire_long_polls e now a = (a', out) \<Longrightarrow>
     actor_held a' = actor_held a \<and> actor_maps_wf a' = actor_maps_wf a"
  by (auto simp: expire_long_polls_def actor_held_def actor_maps_wf_def split: prod.splits)

lemma periodic_cleanup_held:
  assumes run: "periodic_cleanup lib e es a = Some (a', out)"
    and wf: "actor_maps_wf a" and fresh: "envs_fresh lib es 0 (actor_handles a)"
  shows "actor_held a' = actor_held a \<and> actor_maps_wf a'"
proof -
  obtain st changed a1 out1 where f: "fulfill_if changed lib es (a\<lparr>qa_storage := st\<rparr>) = Some (a1, out1)"
    and a': "a' = fst (expire_long_polls e (now_at e 2) a1)"
    and st: "storage_held st = storage_held (qa_storage a)" "storage_maps_wf st"
      "storage_handles st \<subseteq> storage_handles (qa_storage a)"
  proof (cases "qa_storage a")
    case (StandardStorage s)
    let ?r = "standard_return_expired_inflight (hash_order e) (now_at e 0) s"
    let ?p = "promote_delayed (now_at e 1) (fst ?r)"
    have s: "standard_wf s" using wf StandardStorage by (simp add: actor_maps_wf_def)
    note ret = standard_return_expired_held [OF s, of "hash_order e" "now_at e 0"]
    note pro = promote_delayed_held [of "now_at e 1" "fst ?r"]
    obtain a1 out1 where
      "fulfill_if (snd ?r \<or> snd ?p) lib es (a\<lparr>qa_storage := StandardStorage (fst ?p)\<rparr>) = Some (a1, out1)"
      "a' = fst (expire_long_polls e (now_at e 2) a1)"
      using run StandardStorage
      by (auto simp: periodic_cleanup_def Let_def split_beta split: option.splits)
    then show ?thesis
      using ret pro StandardStorage by (intro that) (auto simp: standard_wf_def)
  next
    case (FifoStorage s)
    let ?r = "fifo_return_expired_inflight (hash_order e) (now_at e 0) s"
    have s: "fifo_maps_wf s" using wf FifoStorage by (simp add: actor_maps_wf_def)
    note ret = fifo_return_expired_held [OF s, of "hash_order e" "now_at e 0"]
    obtain a1 out1 where
      "fulfill_if (snd ?r) lib es
         (a\<lparr>qa_storage := FifoStorage (clean_dedup_cache (now_at e 1) (fst ?r))\<rparr>) = Some (a1, out1)"
      "a' = fst (expire_long_polls e (now_at e 2) a1)"
      using run FifoStorage
      by (auto simp: periodic_cleanup_def Let_def split_beta split: option.splits)
    then show ?thesis
      using ret FifoStorage by (intro that) (auto simp: clean_dedup_held)
  qed
  have "envs_fresh lib es 0 (actor_handles (a\<lparr>qa_storage := st\<rparr>))"
    using envs_fresh_mono [OF fresh] st(3) by (simp add: actor_handles_def)
  then have "actor_held a1 = actor_held a \<and> actor_maps_wf a1"
    using fulfill_if_held [OF f] st by (simp add: actor_held_def actor_maps_wf_def)
  then show ?thesis
    using expire_long_polls_held [of e "now_at e 2" a1] by (simp add: a' prod_eq_iff)
qed

section \<open>Settling transfers\<close>

lemma settle_storage_held:
  assumes "storage_maps_wf st"
  shows "storage_held (settle_storage t r st) =
      storage_held st + (if is_ok r then {#} else {#payload (pt_message t)#})"
    and "storage_maps_wf (settle_storage t r st)"
    and "storage_handles (settle_storage t r st) = storage_handles st"
  using assms
  by (cases st; cases r;
      simp add: settle_storage_def finish_redrive_held standard_held_def standard_wf_def)+

lemma settle_loop_held:
  "storage_maps_wf st \<Longrightarrow> settle_loop ts (st, kept) = (st', kept') \<Longrightarrow>
     storage_held st' + unsettled kept' = storage_held st + unsettled kept + unsettled ts \<and>
     storage_maps_wf st' \<and> storage_handles st' = storage_handles st"
proof (induction ts arbitrary: st kept)
  case (Cons t ts)
  show ?case
  proof (cases "transfer_result t")
    case None
    with Cons show ?thesis by fastforce
  next
    case (Some r)
    have "is_ok r \<longleftrightarrow> r = Inr ()" by (cases r) auto
    then show ?thesis
      using Cons.IH [of "settle_storage t r st" kept] Cons.prems Some
        settle_storage_held [OF Cons.prems(1), of t r] by (auto split: if_splits)
  qed
qed simp

lemma settle_transfers_held:
  assumes "actor_maps_wf a"
  shows "actor_held (settle_transfers a) = actor_held a"
    and "actor_maps_wf (settle_transfers a)"
    and "actor_handles (settle_transfers a) = actor_handles a"
  using settle_loop_held [of "qa_storage a" "rm_pending (qa_redrive a)" "[]"] assms
  by (auto simp: settle_transfers_def actor_held_def actor_maps_wf_def actor_handles_def
      split: prod.splits)

lemma wait_for_transfer_unsettled: "unsettled (wait_for_transfer ts) = unsettled ts"
  by (induction ts) (auto simp: transfer_result_def split: transfer_reply.splits option.splits)

text \<open>What the answers hand over: the pending messages that their targets have accepted.\<close>

definition handed_over :: "answers \<Rightarrow> pending_transfer list \<Rightarrow> payload multiset" where
  "handed_over ans ts =
     payloads (map pt_message
       (filter (\<lambda>t. transfer_result t = None \<and> transfer_result (hear ans t) = Some (Inr ())) ts))"

lemma hear_simps [simp]:
  "pt_message (hear ans t) = pt_message t" "pt_completion (hear ans t) = pt_completion t"
  by (simp_all add: hear_def)

lemma hear_settled: "transfer_result t = Some r \<Longrightarrow> transfer_result (hear ans t) = Some r"
  by (auto simp: hear_def transfer_result_def split: option.splits)

lemma unsettled_hear: "unsettled (map (hear ans) ts) + handed_over ans ts = unsettled ts"
proof (induction ts)
  case (Cons t ts)
  then show ?case
    by (cases "transfer_result t") (auto simp: handed_over_def hear_settled)
qed (simp add: handed_over_def)

lemma receive_answers_simps [simp]:
  "qa_storage (receive_answers ans a) = qa_storage a" "qa_attributes (receive_answers ans a) = qa_attributes a"
  "qa_is_fifo (receive_answers ans a) = qa_is_fifo a" "qa_account_id (receive_answers ans a) = qa_account_id a"
  "rm_pending (qa_redrive (receive_answers ans a)) = map (hear ans) (rm_pending (qa_redrive a))"
  by (simp_all add: receive_answers_def)

lemma receive_answers_held:
  "actor_held (receive_answers ans a) + handed_over ans (rm_pending (qa_redrive a)) = actor_held a"
  "actor_maps_wf (receive_answers ans a) = actor_maps_wf a"
  using unsettled_hear [of ans "rm_pending (qa_redrive a)"]
  by (simp_all add: actor_held_def actor_maps_wf_def ac_simps)

section \<open>Events\<close>

text \<open>A send whose key hits the deduplication cache adds nothing.\<close>

definition send_duplicate :: "sqs_libs \<Rightarrow> sqs_env \<Rightarrow> send_message_input \<Rightarrow> queue_actor \<Rightarrow> bool" where
  "send_duplicate lib e input a \<longleftrightarrow>
     (case (qa_storage a, smi_message_group_id input, dedup_id lib (qa_attributes a) input) of
        (FifoStorage s, Some g, Some did) \<Rightarrow>
          dedup_hit (now_at e 1) (effective_dedup_key (qa_attributes a) g did) s \<noteq> None
      | _ \<Rightarrow> False)"

definition transfer_duplicate :: "sqs_env \<Rightarrow> queue_message \<Rightarrow> string \<Rightarrow> queue_actor \<Rightarrow> bool" where
  "transfer_duplicate e m source_arn a \<longleftrightarrow>
     (case qa_storage a of
        StandardStorage _ \<Rightarrow> False
      | FifoStorage s \<Rightarrow> dedup_hit (now_at e 1) (DedupRedrive source_arn (qm_message_id m)) s \<noteq> None)"

definition send_gain :: "sqs_libs \<Rightarrow> sqs_env \<Rightarrow> send_message_input \<Rightarrow> queue_actor \<Rightarrow> payload multiset" where
  "send_gain lib e input a =
     (case handle_send_message lib e input a of
        Some (_, Inr _) \<Rightarrow>
          if send_duplicate lib e input a then {#}
          else {#(new_uuid e, smi_message_body input, smi_message_attributes input,
                  smi_message_group_id input)#}
      | _ \<Rightarrow> {#})"

definition transfer_gain ::
    "sqs_libs \<Rightarrow> sqs_env \<Rightarrow> queue_message \<Rightarrow> string \<Rightarrow> queue_actor \<Rightarrow> payload multiset" where
  "transfer_gain lib e m source_arn a =
     (if is_ok (transfer_check lib a m source_arn) \<and> \<not> transfer_duplicate e m source_arn a
      then {#payload m#} else {#})"

fun event_gain :: "sqs_libs \<Rightarrow> sqs_env \<Rightarrow> queue_event \<Rightarrow> queue_actor \<Rightarrow> payload multiset" where
  "event_gain lib e (EvCommand (CmdSendMessage input client) gone) a =
     (if reply_closed e client then {#} else send_gain lib e input a)"
| "event_gain lib e (EvCommand (CmdTransfer m source_arn ticket) gone) a =
     (if gone then {#} else transfer_gain lib e m source_arn a)"
| "event_gain lib e ev a = {#}"

definition delete_loss :: "string \<Rightarrow> queue_storage \<Rightarrow> payload multiset" where
  "delete_loss h st =
     (case st of
        StandardStorage s \<Rightarrow>
          (case bt_get (st_in_flight s) h of None \<Rightarrow> {#} | Some i \<Rightarrow> {#payload (ifm_message i)#})
      | FifoStorage s \<Rightarrow>
          (case bt_get (fs_in_flight s) h of None \<Rightarrow> {#} | Some i \<Rightarrow> {#payload (fif_message i)#}))"

fun event_loss :: "sqs_env \<Rightarrow> queue_event \<Rightarrow> queue_actor \<Rightarrow> payload multiset" where
  "event_loss e (EvCommand (CmdDeleteMessage h client) gone) a = delete_loss h (qa_storage a)"
| "event_loss e (EvCommand (CmdPurge client) gone) a =
     (if is_ok (snd (handle_purge e a)) then actor_held a else {#})"
| "event_loss e ev a = {#}"

lemma handle_send_message_held:
  assumes run: "handle_send_message lib e input a = Some (a', result)" and wf: "actor_maps_wf a"
  shows "actor_held a' = actor_held a + send_gain lib e input a" and "actor_maps_wf a'"
    and "actor_handles a' = actor_handles a"
    and "\<exists>st. a' = a\<lparr>qa_storage := st\<rparr>"
proof -
  have "actor_held a' = actor_held a + send_gain lib e input a \<and> actor_maps_wf a' \<and>
    actor_handles a' = actor_handles a \<and> (\<exists>st. a' = a\<lparr>qa_storage := st\<rparr>)"
  proof (cases result)
    case (Inl err)
    then have "a' = a"
      using run by (auto simp: handle_send_message_def handle_send_message_fifo_def
          handle_send_message_standard_def Let_def
          split: if_splits option.splits queue_storage.splits)
    moreover have "send_gain lib e input a = {#}" using run Inl by (simp add: send_gain_def)
    moreover have "\<exists>st. a = a\<lparr>qa_storage := st\<rparr>" by (rule exI [of _ "qa_storage a"]) simp
    ultimately show ?thesis using wf by auto
  next
    case (Inr r)
    show ?thesis
    proof (cases "qa_is_fifo a")
      case True
      with run Inr have f: "handle_send_message_fifo lib e input a = Some (a', result)"
        by (auto simp: handle_send_message_def split: if_splits)
      then obtain s g did s1 res m where st: "qa_storage a = FifoStorage s"
        and g: "smi_message_group_id input = Some g" and d: "dedup_id lib (qa_attributes a) input = Some did"
        and enq: "enqueue (now_at e 1) (now_at e 2) m
              (effective_dedup_key (qa_attributes a) g did) s = Some (s1, res)"
        and m: "payload m = (new_uuid e, smi_message_body input, smi_message_attributes input, Some g)"
        and a': "a' = a\<lparr>qa_storage := FifoStorage s1\<rparr>"
        using Inr by (auto simp: handle_send_message_fifo_def Let_def payload_def
            split: if_splits option.splits queue_storage.splits)
      have "fifo_maps_wf s" using wf st by (simp add: actor_maps_wf_def)
      from enqueue_held [OF enq this] show ?thesis
        using run Inr st g d m
        by (auto simp: a' actor_held_def actor_maps_wf_def actor_handles_def send_gain_def
            send_duplicate_def)
    next
      case False
      with run Inr have "handle_send_message_standard lib e input a = Some (a', result)"
        by (auto simp: handle_send_message_def split: if_splits)
      then show ?thesis
        using run Inr wf
        by (auto simp: handle_send_message_standard_def Let_def actor_held_def actor_maps_wf_def
            actor_handles_def send_gain_def send_duplicate_def standard_held_def standard_wf_def
            payload_def split: if_splits option.splits queue_storage.splits)
    qed
  qed
  then show "actor_held a' = actor_held a + send_gain lib e input a" "actor_maps_wf a'"
    "actor_handles a' = actor_handles a" "\<exists>st. a' = a\<lparr>qa_storage := st\<rparr>" by blast+
qed

lemma accept_transfer_held:
  assumes run: "accept_transfer lib e m source_arn a = Some (a', result)" and wf: "actor_maps_wf a"
  shows "actor_held a' = actor_held a + transfer_gain lib e m source_arn a" and "actor_maps_wf a'"
    and "actor_handles a' = actor_handles a"
    and "result = transfer_check lib a m source_arn"
    and "\<exists>st. a' = a\<lparr>qa_storage := st\<rparr>"
proof -
  have "actor_held a' = actor_held a + transfer_gain lib e m source_arn a \<and> actor_maps_wf a' \<and>
    actor_handles a' = actor_handles a \<and> result = transfer_check lib a m source_arn \<and>
    (\<exists>st. a' = a\<lparr>qa_storage := st\<rparr>)"
  proof (cases "transfer_check lib a m source_arn")
    case (Inl err)
    then have "a' = a" "result = Inl err" using run by (auto simp: accept_transfer_def)
    moreover have "\<exists>st. a = a\<lparr>qa_storage := st\<rparr>" by (rule exI [of _ "qa_storage a"]) simp
    ultimately show ?thesis using wf Inl by (auto simp: transfer_gain_def)
  next
    case (Inr u)
    then have ok: "is_ok (transfer_check lib a m source_arn)" by simp
    show ?thesis
    proof (cases "qa_storage a")
      case (StandardStorage s)
      with run Inr wf ok show ?thesis
        by (auto simp: accept_transfer_def Let_def actor_held_def actor_maps_wf_def
            actor_handles_def transfer_gain_def transfer_duplicate_def standard_held_def
            standard_wf_def)
    next
      case (FifoStorage s)
      let ?m = "redriven_message e m source_arn"
      let ?m1 = "?m\<lparr>qm_sent_timestamp := millis_at e 0,
                    qm_message_deduplication_id := Some (qm_message_id ?m)\<rparr>"
      obtain s1 res where enq: "enqueue (now_at e 1) (now_at e 2) ?m1
            (DedupRedrive source_arn (qm_message_id ?m)) s = Some (s1, res)"
        and a': "a' = a\<lparr>qa_storage := FifoStorage s1\<rparr>" "result = Inr ()"
        using run Inr FifoStorage by (auto simp: accept_transfer_def Let_def split: option.splits)
      have "fifo_maps_wf s" using wf FifoStorage by (simp add: actor_maps_wf_def)
      from enqueue_held [OF enq this] show ?thesis
        using Inr FifoStorage
        by (auto simp: a' actor_held_def actor_maps_wf_def actor_handles_def transfer_gain_def
            transfer_duplicate_def)
    qed
  qed
  then show "actor_held a' = actor_held a + transfer_gain lib e m source_arn a" "actor_maps_wf a'"
    "actor_handles a' = actor_handles a" "result = transfer_check lib a m source_arn"
    "\<exists>st. a' = a\<lparr>qa_storage := st\<rparr>" by blast+
qed

lemma handle_delete_message_held:
  assumes "handle_delete_message h a = (a', freed)" and "actor_maps_wf a"
  shows "actor_held a' + delete_loss h (qa_storage a) = actor_held a \<and> actor_maps_wf a' \<and>
    actor_handles a' \<subseteq> actor_handles a"
proof (cases "qa_storage a")
  case (StandardStorage s)
  have "set (bt_keys (bt_remove h (st_in_flight s))) \<subseteq> set (bt_keys (st_in_flight s))"
    by (auto simp: bt_remove_def bt_keys_def)
  with assms StandardStorage in_flight_remove [of "st_in_flight s" h _ ifm_message]
  show ?thesis
    by (auto simp: handle_delete_message_def actor_held_def actor_maps_wf_def actor_handles_def
        delete_loss_def standard_held_def standard_wf_def bt_wf_remove in_flight_absent
        split: option.split)
next
  case (FifoStorage s)
  have "set (bt_keys (bt_remove h (fs_in_flight s))) \<subseteq> set (bt_keys (fs_in_flight s))"
    by (auto simp: bt_remove_def bt_keys_def)
  with assms FifoStorage in_flight_remove [of "fs_in_flight s" h _ fif_message]
  show ?thesis
    by (auto simp: handle_delete_message_def fifo_delete_message_def actor_held_def
        actor_maps_wf_def actor_handles_def delete_loss_def fifo_held_def fifo_maps_wf_def
        bt_wf_remove split: option.splits)
qed

lemma handle_change_visibility_held:
  assumes "handle_change_visibility e h v a = Some (a', result)" and "actor_maps_wf a"
  shows "actor_held a' = actor_held a \<and> actor_maps_wf a' \<and> actor_handles a' \<subseteq> actor_handles a"
proof -
  have sub: "set (bt_keys (bt_remove h m)) \<subseteq> set (bt_keys m)" for m :: "(string, 'v) btree"
    by (auto simp: bt_remove_def bt_keys_def)
  have same: "bt_get m h = Some i \<Longrightarrow> insert h (set (bt_keys m)) = set (bt_keys m)"
    for m :: "(string, 'v) btree" and i
    by (metis bt_get_None_iff insert_absorb option.distinct(1))
  show ?thesis
  proof (cases "qa_storage a")
    case (StandardStorage s)
    show ?thesis
    proof (cases "bt_get (st_in_flight s) h")
      case None
      with assms StandardStorage show ?thesis by (auto simp: handle_change_visibility_def)
    next
      case (Some i)
      have wf: "bt_wf (st_in_flight s)"
        using assms(2) StandardStorage by (simp add: actor_maps_wf_def standard_wf_def)
      show ?thesis
        using assms(1) StandardStorage Some wf in_flight_remove [OF wf Some, of ifm_message]
          in_flight_update [OF wf Some, of ifm_message] sub [of "st_in_flight s"] same [OF Some]
        by (auto simp: handle_change_visibility_def actor_held_def actor_maps_wf_def
            actor_handles_def standard_held_def standard_wf_def bt_wf_remove bt_wf_insert
            bt_keys_insert split: if_splits option.splits)
    qed
  next
    case (FifoStorage s)
    obtain t where t: "a' = a\<lparr>qa_storage :=
        FifoStorage (fst (fifo_change_visibility (now_at e 1) h t s))\<rparr>"
      using assms(1) FifoStorage
      by (auto simp: handle_change_visibility_def split_beta split: option.splits)
    have wf: "fifo_maps_wf s" using assms(2) FifoStorage by (simp add: actor_maps_wf_def)
    show ?thesis
    proof (cases "bt_get (fs_in_flight s) h")
      case None
      with FifoStorage wf show ?thesis
        by (simp add: t fifo_change_visibility_def actor_held_def actor_maps_wf_def
            actor_handles_def)
    next
      case (Some i)
      have wf': "bt_wf (fs_in_flight s)" using wf by (simp add: fifo_maps_wf_def)
      show ?thesis
        using FifoStorage Some wf return_to_group_held [OF wf Some]
          in_flight_update [OF wf' Some, of fif_message] sub [of "fs_in_flight s"] same [OF Some]
        by (simp add: t fifo_change_visibility_def actor_held_def actor_maps_wf_def
            actor_handles_def fifo_held_def fifo_maps_wf_def bt_wf_insert bt_keys_insert)
    qed
  qed
qed

lemma handle_purge_held:
  assumes "handle_purge e a = (a', result)" and "actor_maps_wf a"
  shows "actor_held a' = (if is_ok result then {#} else actor_held a) \<and> actor_maps_wf a' \<and>
    actor_handles a' \<subseteq> actor_handles a"
  using assms
  by (auto simp: handle_purge_def actor_held_def actor_maps_wf_def actor_handles_def
      standard_held_def fifo_held_def standard_wf_def fifo_maps_wf_def standard_purge_def
      fifo_purge_def in_flight_payloads_def group_payloads_def bt_values_def bt_keys_def
      split: if_splits queue_storage.splits option.splits)

text \<open>The receipt handles that an event may make are new and distinct.\<close>

definition event_fresh :: "sqs_libs \<Rightarrow> sqs_env \<Rightarrow> (nat \<Rightarrow> sqs_env) \<Rightarrow> queue_actor \<Rightarrow> bool" where
  "event_fresh lib e es a \<longleftrightarrow>
     env_fresh lib e (actor_handles a) \<and> envs_fresh lib es 0 (actor_handles a)"

text \<open>A command other than a receive makes no receipt handle of its own.\<close>

lemma handle_command_held:
  assumes run: "handle_command lib e gone cmd a = Some (a', out, fulfill)"
    and wf: "actor_maps_wf a" and fresh: "env_fresh lib e (actor_handles a)"
  shows "actor_held a' + event_loss e (EvCommand cmd gone) a =
      actor_held a + event_gain lib e (EvCommand cmd gone) a"
    and "actor_maps_wf a'"
    and "fulfill \<Longrightarrow> actor_handles a' \<subseteq> actor_handles a"
proof -
  have "actor_held a' + event_loss e (EvCommand cmd gone) a =
      actor_held a + event_gain lib e (EvCommand cmd gone) a \<and> actor_maps_wf a' \<and>
      (fulfill \<longrightarrow> actor_handles a' \<subseteq> actor_handles a)"
  proof (cases cmd)
    case (CmdTransfer m source_arn ticket)
    with run wf show ?thesis
      by (auto dest: accept_transfer_held(1-3) split: if_splits option.splits)
  next
    case (CmdSendMessage input client)
    with run wf show ?thesis
      by (auto dest: handle_send_message_held(1-3) split: if_splits option.splits)
  next
    case (CmdReceiveMessage input client)
    with run obtain n v a1 messages where r: "try_receive lib e n v (rmi_attribute_names input)
        (rmi_message_system_attribute_names input) (rmi_message_attribute_names input) a =
        Some (a1, messages)"
      and a': "actor_held a' = actor_held a1" "actor_maps_wf a' = actor_maps_wf a1" "\<not> fulfill"
      by (auto simp: handle_receive_message_def Let_def actor_held_def actor_maps_wf_def
          split: option.splits if_splits)
    from try_receive_held [OF r wf fresh] a' CmdReceiveMessage show ?thesis by simp
  next
    case (CmdDeleteMessage h client)
    obtain a1 freed where d: "handle_delete_message h a = (a1, freed)" by fastforce
    from handle_delete_message_held [OF d wf] run d CmdDeleteMessage show ?thesis by simp
  next
    case (CmdChangeVisibility h v client)
    with run obtain result where "handle_change_visibility e h v a = Some (a', result)"
      by auto
    from handle_change_visibility_held [OF this wf] CmdChangeVisibility show ?thesis by simp
  next
    case (CmdPurge client)
    obtain a1 result where d: "handle_purge e a = (a1, result)" by fastforce
    from handle_purge_held [OF d wf] run d CmdPurge show ?thesis by simp
  qed (use run wf in \<open>auto simp: actor_held_def actor_maps_wf_def split: prod.splits\<close>)
  then show "actor_held a' + event_loss e (EvCommand cmd gone) a =
      actor_held a + event_gain lib e (EvCommand cmd gone) a" "actor_maps_wf a'"
    "fulfill \<Longrightarrow> actor_handles a' \<subseteq> actor_handles a" by blast+
qed

lemma handle_event_command:
  assumes "handle_event lib e es (EvCommand cmd gone) a = Some (a', out)"
  obtains (shutdown) "cmd = CmdShutdown" "a' = stop_actor a"
    | (other) a1 out1 fulfill out2 where
        "handle_command lib e gone cmd a = Some (a1, out1, fulfill)"
        "fulfill_if fulfill lib es a1 = Some (a', out2)" "out = out1 @ out2"
proof (cases "cmd = CmdShutdown")
  case False
  then have "handle_event lib e es (EvCommand cmd gone) a =
     (case handle_command lib e gone cmd a of
        None \<Rightarrow> None
      | Some (a1, out, should_fulfill) \<Rightarrow>
          map_option (\<lambda>(a2, out2). (a2, out @ out2)) (fulfill_if should_fulfill lib es a1))"
    by (cases cmd) simp_all
  with assms other show ?thesis by (auto split: option.splits)
qed (use assms shutdown in simp)

lemma stop_actor_simps [simp]:
  "actor_held (stop_actor a) = actor_held a" "actor_maps_wf (stop_actor a) = actor_maps_wf a"
  "actor_handles (stop_actor a) = actor_handles a"
  by (simp_all add: stop_actor_def actor_held_def actor_maps_wf_def actor_handles_def)

lemma handle_event_held:
  assumes run: "handle_event lib e es ev a = Some (a', out)"
    and wf: "actor_maps_wf a" and fresh: "event_fresh lib e es a"
  shows "actor_held a' + event_loss e ev a = actor_held a + event_gain lib e ev a"
    and "actor_maps_wf a'"
proof -
  have env: "env_fresh lib e (actor_handles a)" "envs_fresh lib es 0 (actor_handles a)"
    using fresh by (simp_all add: event_fresh_def)
  have "actor_held a' + event_loss e ev a = actor_held a + event_gain lib e ev a \<and> actor_maps_wf a'"
  proof (cases ev)
    case (EvCommand cmd gone)
    from run [unfolded EvCommand] show ?thesis
    proof (cases rule: handle_event_command)
      case shutdown
      with wf EvCommand show ?thesis by simp
    next
      case (other a1 out1 fulfill out2)
      note c = handle_command_held [OF other(1) wf env(1)]
      have "actor_held a' = actor_held a1 \<and> actor_maps_wf a'"
      proof (cases fulfill)
        case True
        with fulfill_if_held [OF other(2) c(2)] envs_fresh_mono [OF env(2) c(3)] show ?thesis by blast
      next
        case False
        with other(2) c(2) show ?thesis by (simp add: fulfill_if_def)
      qed
      with c EvCommand show ?thesis by simp
    qed
  next
    case EvCleanupTick
    with periodic_cleanup_held [of lib e es a] run wf env show ?thesis by auto
  next
    case EvPollDeadline
    with run wf show ?thesis by (auto dest: expire_long_polls_held)
  qed (use run wf in \<open>auto simp: actor_held_def actor_maps_wf_def wait_for_transfer_unsettled
        stop_actor_def\<close>)
  then show "actor_held a' + event_loss e ev a = actor_held a + event_gain lib e ev a"
    "actor_maps_wf a'" by blast+
qed

end
