(* ===== verification/SQS_Fifo_Order.thy ===== *)
theory SQS_Fifo_Order
  imports SQS_Conservation
begin

text \<open>
  The order of a FIFO queue. The specification is one \<^emph>\<open>line\<close> of messages per group: the message of
  the group that is out (in flight, or handed to the dead-letter queue), then the queued ones. The
  operations of \<^verbatim>\<open>FifoQueueStorage\<close> keep the lines sorted by sequence number, block exactly the
  groups with a message out, and change a line only by appending at its end (an accepted send) or
  removing its head (a delete, an accepted redrive).
\<close>

section \<open>Lines\<close>

text \<open>A message without the counters that a receive updates.\<close>

definition core :: "queue_message \<Rightarrow> queue_message" where
  "core m = m\<lparr>qm_approximate_receive_count := 0, qm_approximate_first_receive_timestamp := None\<rparr>"

definition message_seq :: "queue_message \<Rightarrow> nat" where
  "message_seq m = unwrap_or 0 (Option.bind (qm_sequence_number m) (digits_val 0))"

lemma core_simps [simp]:
  "message_group (core m) = message_group m" "message_seq (core m) = message_seq m"
  "core (mark_received t m) = core m" "core (core m) = core m"
  "message_group (mark_received t m) = message_group m"
  "qm_message_id (core m) = qm_message_id m" "qm_body (core m) = qm_body m"
  "qm_sequence_number (core m) = qm_sequence_number m"
  "qm_message_group_id (core m) = qm_message_group_id m"
  by (simp_all add: core_def message_group_def message_seq_def mark_received_def)

definition line_of :: "queue_message list \<Rightarrow> (string \<Rightarrow> queue_message list) \<Rightarrow> string \<Rightarrow> queue_message list" where
  "line_of aw Q g = filter (\<lambda>m. message_group m = g) aw @ Q g"

text \<open>\<open>aw\<close> are the messages that are out, \<open>Q\<close> the queues, \<open>B\<close> the blocked groups and \<open>N\<close> the next
  sequence number.\<close>

definition lines_ok ::
    "queue_message list \<Rightarrow> (string \<Rightarrow> queue_message list) \<Rightarrow> string set \<Rightarrow> nat \<Rightarrow> bool" where
  "lines_ok aw Q B N \<longleftrightarrow>
     distinct (map message_group aw) \<and> message_group ` set aw = B \<and>
     (\<forall>g. \<forall>m\<in>set (Q g). message_group m = g) \<and>
     (\<forall>g. sorted_wrt (<) (map message_seq (line_of aw Q g))) \<and>
     (\<forall>g. \<forall>m\<in>set (line_of aw Q g). message_seq m < N)"

lemma filter_perm:
  fixes f :: "'a \<Rightarrow> 'b"
  assumes "distinct (map f xs)"
    and "filter_mset (\<lambda>x. f x = g) (mset xs) = filter_mset (\<lambda>x. f x = g) (mset ys)"
  shows "filter (\<lambda>x. f x = g) xs = filter (\<lambda>x. f x = g) ys"
proof -
  have "length (filter (\<lambda>x. f x = g) xs) \<le> 1"
    using assms(1) by (induction xs) (auto simp: filter_empty_conv rev_image_eqI)
  moreover have "mset (filter (\<lambda>x. f x = g) xs) = mset (filter (\<lambda>x. f x = g) ys)"
    using assms(2) by simp
  ultimately show ?thesis
    by (cases "filter (\<lambda>x. f x = g) xs")
      (auto simp del: mset_filter simp: mset_single_iff dest: sym)
qed

lemma distinct_map_mset:
  "mset xs = mset ys \<Longrightarrow> distinct (map f xs) \<Longrightarrow> distinct (map f ys)"
  by (metis mset_eq_imp_distinct_iff mset_map)

lemma filter_unique:
  assumes "distinct (map f aw)" "mset aw = add_mset m (mset aw')"
  shows "filter (\<lambda>x. f x = f m) aw = [m]" and "filter (\<lambda>x. f x = f m) aw' = []"
    and "g \<noteq> f m \<Longrightarrow> filter (\<lambda>x. f x = g) aw = filter (\<lambda>x. f x = g) aw'"
    and "\<forall>x\<in>set aw'. f x \<noteq> f m" and "distinct (map f aw')" and "set aw = insert m (set aw')"
proof -
  have d: "distinct (map f (m # aw'))"
    by (rule distinct_map_mset [OF _ assms(1)]) (simp add: assms(2))
  then show "\<forall>x\<in>set aw'. f x \<noteq> f m" "distinct (map f aw')" by (auto simp: image_iff)
  then show none: "filter (\<lambda>x. f x = f m) aw' = []" by (auto simp: filter_empty_conv)
  then have "filter (\<lambda>x. f x = f m) (m # aw') = [m]" by simp
  with filter_perm [OF assms(1), of "f m" "m # aw'"] assms(2)
  show "filter (\<lambda>x. f x = f m) aw = [m]" by simp
  show "filter (\<lambda>x. f x = g) aw = filter (\<lambda>x. f x = g) aw'" if "g \<noteq> f m"
    using filter_perm [OF assms(1), of g aw'] assms(2) that by simp
  show "set aw = insert m (set aw')" using arg_cong [OF assms(2), of set_mset] by simp
qed

lemma lines_keep:
  assumes "lines_ok aw Q B N" "mset aw' = mset aw"
  shows "lines_ok aw' Q B N" and "line_of aw' Q = line_of aw Q"
proof -
  have d: "distinct (map message_group aw')"
    using assms by (auto simp: lines_ok_def intro: distinct_map_mset)
  show same: "line_of aw' Q = line_of aw Q"
    using filter_perm [OF d] assms(2) by (auto simp: line_of_def)
  show "lines_ok aw' Q B N"
    using assms(1) d same mset_eq_setD [OF assms(2)] by (simp add: lines_ok_def)
qed

lemma lines_put_back:
  assumes ok: "lines_ok aw Q B N" and aw: "mset aw = add_mset m (mset aw')"
    and g: "g = message_group m"
  shows "lines_ok aw' (Q(g := m # Q g)) (B - {g}) N"
    and "line_of aw' (Q(g := m # Q g)) = line_of aw Q"
proof -
  have d: "distinct (map message_group aw)" using ok by (simp add: lines_ok_def)
  note u = filter_unique [OF d aw]
  show same: "line_of aw' (Q(g := m # Q g)) = line_of aw Q"
    using u by (auto simp: line_of_def g)
  show "lines_ok aw' (Q(g := m # Q g)) (B - {g}) N"
    using ok same u(4-6) by (auto simp: lines_ok_def g)
qed

lemma lines_drop:
  assumes ok: "lines_ok aw Q B N" and aw: "mset aw = add_mset m (mset aw')"
    and g: "g = message_group m"
  shows "lines_ok aw' Q (B - {g}) N"
    and "line_of aw Q g = m # line_of aw' Q g"
    and "h \<noteq> g \<Longrightarrow> line_of aw' Q h = line_of aw Q h"
proof -
  have d: "distinct (map message_group aw)" using ok by (simp add: lines_ok_def)
  note u = filter_unique [OF d aw]
  show head: "line_of aw Q g = m # line_of aw' Q g"
    using u by (simp add: line_of_def g)
  have other: "line_of aw' Q h = line_of aw Q h" if "h \<noteq> g" for h
    using u that by (simp add: line_of_def g)
  then show "h \<noteq> g \<Longrightarrow> line_of aw' Q h = line_of aw Q h" .
  have "sorted_wrt (<) (map message_seq (line_of aw' Q h)) \<and>
      (\<forall>x\<in>set (line_of aw' Q h). message_seq x < N)" for h
    using ok head other [of h] unfolding lines_ok_def
    by (cases "h = g") (metis list.simps(9) list.set_intros(2) sorted_wrt.simps(2), metis)
  then show "lines_ok aw' Q (B - {g}) N"
    using ok u(4-6) by (auto simp: lines_ok_def g)
qed

lemma lines_take:
  assumes ok: "lines_ok aw Q B N" and g: "g \<notin> B" and q: "Q g = m # ms"
  shows "lines_ok (aw @ [m]) (Q(g := ms)) (insert g B) N"
    and "line_of (aw @ [m]) (Q(g := ms)) = line_of aw Q"
proof -
  have m: "message_group m = g" using ok q by (auto simp: lines_ok_def)
  have none: "filter (\<lambda>x. message_group x = g) aw = []"
    using ok g by (auto simp: lines_ok_def filter_empty_conv)
  show same: "line_of (aw @ [m]) (Q(g := ms)) = line_of aw Q"
    using m none q by (auto simp: line_of_def)
  have "\<forall>x\<in>set aw. message_group x \<noteq> g" using none by (simp add: filter_empty_conv)
  moreover have "\<forall>x\<in>set ms. message_group x = g" using ok q by (auto simp: lines_ok_def)
  ultimately show "lines_ok (aw @ [m]) (Q(g := ms)) (insert g B) N"
    using ok m same by (auto simp: lines_ok_def)
qed

lemma lines_append:
  assumes ok: "lines_ok aw Q B N" and m: "message_group m = g" "message_seq m = N"
  shows "lines_ok aw (Q(g := Q g @ [m])) B (Suc N)"
    and "line_of aw (Q(g := Q g @ [m])) = (line_of aw Q)(g := line_of aw Q g @ [m])"
proof -
  show eq: "line_of aw (Q(g := Q g @ [m])) = (line_of aw Q)(g := line_of aw Q g @ [m])"
    by (auto simp: line_of_def)
  show "lines_ok aw (Q(g := Q g @ [m])) B (Suc N)"
    unfolding lines_ok_def eq
    using ok m by (auto simp: lines_ok_def sorted_wrt_append less_SucI)
qed

section \<open>The lines of a FIFO storage\<close>

text \<open>\<open>A\<close> are the messages taken out of their queue and not in flight: received ones on their way, and
  pending transfers.\<close>

definition away :: "fifo_storage \<Rightarrow> queue_message list \<Rightarrow> queue_message list" where
  "away s A = map core (map fif_message (bt_values (fs_in_flight s)) @ A)"

definition queues :: "fifo_storage \<Rightarrow> string \<Rightarrow> queue_message list" where
  "queues s g = map core (group_queue s g)"

definition fifo_line :: "fifo_storage \<Rightarrow> queue_message list \<Rightarrow> string \<Rightarrow> queue_message list" where
  "fifo_line s A = line_of (away s A) (queues s)"

definition labels_ok :: "fifo_storage \<Rightarrow> bool" where
  "labels_ok s \<longleftrightarrow>
     (\<forall>i\<in>set (bt_values (fs_in_flight s)). fif_group_id i = message_group (fif_message i))"

definition fifo_inv :: "fifo_storage \<Rightarrow> queue_message list \<Rightarrow> bool" where
  "fifo_inv s A \<longleftrightarrow> fifo_maps_wf s \<and> labels_ok s \<and>
     lines_ok (away s A) (queues s) (fs_blocked_groups s) (unat (fs_next_sequence s))"

lemma mset_values_insert:
  "bt_wf m \<Longrightarrow> bt_get m h = None \<Longrightarrow>
     mset (bt_values (bt_insert h i m)) = add_mset i (mset (bt_values m))"
  using mset_bt_insert_new [of m h i] by (simp add: bt_values_def)

lemma mset_values_remove:
  "bt_wf m \<Longrightarrow> bt_get m h = Some i \<Longrightarrow>
     mset (bt_values m) = add_mset i (mset (bt_values (bt_remove h m)))"
  using mset_bt_remove [of m h i] by (simp add: bt_values_def)

lemma mset_values_update:
  assumes "bt_wf m" "bt_get m h = Some i" "f j = f i"
  shows "image_mset f (mset (bt_values (bt_insert h j m))) = image_mset f (mset (bt_values m))"
proof -
  have wf: "bt_wf (bt_remove h m)" using assms(1) by (rule bt_wf_remove)
  have gone: "bt_get (bt_remove h m) h = None" by (simp add: bt_get_filter_out)
  have "bt_insert h j m = bt_insert h j (bt_remove h m)"
    by (rule bt_ext) (auto simp: bt_wf_insert assms(1) wf bt_get_insert bt_get_filter_out)
  then show ?thesis
    using mset_values_insert [OF wf gone, of j] mset_values_remove [OF assms(1,2)] assms(3) by simp
qed

lemma set_values_insert: "x \<in> set (bt_values (bt_insert h i m)) \<Longrightarrow> x = i \<or> x \<in> set (bt_values m)"
  by (auto simp: bt_values_def dest: set_bt_insert)

lemma set_values_remove: "x \<in> set (bt_values (bt_remove h m)) \<Longrightarrow> x \<in> set (bt_values m)"
  by (auto simp: bt_values_def bt_remove_def)

lemma bt_get_values: "bt_get m h = Some i \<Longrightarrow> i \<in> set (bt_values m)"
  by (force simp: bt_values_def dest: bt_get_mem)

lemma group_queue_push [simp]:
  "group_queue (group_push_back g m s) = (group_queue s)(g := group_queue s g @ [m])"
  "group_queue (group_push_front g m s) = (group_queue s)(g := m # group_queue s g)"
  by (auto simp: group_queue_def group_push_back_def group_push_front_def bt_get_insert)

lemma queues_push [simp]:
  "queues (group_push_back g m s) = (queues s)(g := queues s g @ [core m])"
  "queues (group_push_front g m s) = (queues s)(g := core m # queues s g)"
  by (auto simp: queues_def)

lemma queues_cong: "fs_groups s' = fs_groups s \<Longrightarrow> queues s' = queues s"
  by (simp add: queues_def group_queue_def fun_eq_iff)

lemma away_cong: "fs_in_flight s' = fs_in_flight s \<Longrightarrow> away s' A = away s A"
  by (simp add: away_def)

lemma labels_cong: "fs_in_flight s' = fs_in_flight s \<Longrightarrow> labels_ok s' = labels_ok s"
  by (simp add: labels_ok_def)

lemma away_remove:
  "fifo_maps_wf s \<Longrightarrow> bt_get (fs_in_flight s) h = Some i \<Longrightarrow>
     fs_in_flight s' = bt_remove h (fs_in_flight s) \<Longrightarrow>
     mset (away s A) = add_mset (core (fif_message i)) (mset (away s' A))"
  using mset_values_remove [of "fs_in_flight s" h i] by (simp add: away_def fifo_maps_wf_def)

text \<open>In a good state, a group with a message out has no other: the test of \<open>unblock_idle\<close> succeeds.\<close>

lemma unblock_idle_eq:
  assumes inv: "fifo_inv s A" and i: "bt_get (fs_in_flight s) h = Some i"
    and s': "fs_in_flight s' = bt_remove h (fs_in_flight s)"
  shows "unblock_idle (fif_group_id i) s' =
      s'\<lparr>fs_blocked_groups := fs_blocked_groups s' - {fif_group_id i}\<rparr>"
proof -
  have ok: "lines_ok (away s A) (queues s) (fs_blocked_groups s) (unat (fs_next_sequence s))"
    and maps: "fifo_maps_wf s" and labels: "labels_ok s"
    using inv by (simp_all add: fifo_inv_def)
  have g: "fif_group_id i = message_group (core (fif_message i))"
    using labels bt_get_values [OF i] by (simp add: labels_ok_def)
  have "\<forall>x\<in>set (away s' A). message_group x \<noteq> fif_group_id i"
    using filter_unique(4) [OF _ away_remove [OF maps i s', of A], of message_group] ok
    by (simp add: lines_ok_def g)
  moreover have "fif_group_id j = message_group (fif_message j)"
    if "j \<in> set (bt_values (fs_in_flight s'))" for j
    using labels that set_values_remove [of j h "fs_in_flight s"] by (simp add: labels_ok_def s')
  ultimately have "\<not> list_ex (\<lambda>j. fif_group_id j = fif_group_id i) (bt_values (fs_in_flight s'))"
    by (auto simp: list_ex_iff away_def ball_Un)
  then show ?thesis by (simp add: unblock_idle_def)
qed

lemma labels_remove:
  "labels_ok s \<Longrightarrow> fs_in_flight s' = bt_remove h (fs_in_flight s) \<Longrightarrow> labels_ok s'"
  by (auto simp: labels_ok_def dest: set_values_remove)

lemma return_to_group_line:
  assumes inv: "fifo_inv s A" and i: "bt_get (fs_in_flight s) h = Some i"
  shows "fifo_inv (return_to_group h i s) A"
    and "fifo_line (return_to_group h i s) A = fifo_line s A"
proof -
  let ?r = "group_push_front (fif_group_id i) (fif_message i)
      (s\<lparr>fs_in_flight := bt_remove h (fs_in_flight s)\<rparr>)"
  have ok: "lines_ok (away s A) (queues s) (fs_blocked_groups s) (unat (fs_next_sequence s))"
    and maps: "fifo_maps_wf s" and labels: "labels_ok s"
    using inv by (simp_all add: fifo_inv_def)
  have g: "fif_group_id i = message_group (core (fif_message i))"
    using labels bt_get_values [OF i] by (simp add: labels_ok_def)
  have eq: "return_to_group h i s =
      ?r\<lparr>fs_blocked_groups := fs_blocked_groups ?r - {fif_group_id i}\<rparr>"
    unfolding return_to_group_def by (rule unblock_idle_eq [OF inv i]) simp
  have fl: "fs_in_flight (return_to_group h i s) = bt_remove h (fs_in_flight s)"
    by (simp add: eq)
  note restored = lines_put_back [OF ok away_remove [OF maps i fl] g]
  have q: "queues (return_to_group h i s) =
      (queues s)(fif_group_id i := core (fif_message i) # queues s (fif_group_id i))"
    using queues_cong [of "return_to_group h i s" ?r]
      queues_cong [of "s\<lparr>fs_in_flight := bt_remove h (fs_in_flight s)\<rparr>" s] by (simp add: eq)
  show "fifo_line (return_to_group h i s) A = fifo_line s A"
    using restored(2) by (simp add: fifo_line_def q)
  show "fifo_inv (return_to_group h i s) A"
    using restored(1) return_to_group_held(2) [OF maps i] labels_remove [OF labels fl] q
    by (simp add: fifo_inv_def eq)
qed

lemma return_fifo_loop_line:
  "fifo_inv s A \<Longrightarrow> fifo_inv (return_fifo_loop hs s) A \<and>
     fifo_line (return_fifo_loop hs s) A = fifo_line s A"
proof (induction hs s rule: return_fifo_loop.induct)
  case (2 h hs s)
  then show ?case
    by (cases "bt_get (fs_in_flight s) h") (auto simp: return_to_group_line)
qed simp

lemma fifo_return_expired_line:
  assumes "fifo_inv s A"
  shows "fifo_inv (fst (fifo_return_expired_inflight ord now s)) A"
    and "fifo_line (fst (fifo_return_expired_inflight ord now s)) A = fifo_line s A"
  using return_fifo_loop_line [OF assms] by (simp_all add: fifo_return_expired_inflight_def Let_def)

lemma fifo_delete_line:
  assumes inv: "fifo_inv s A" and i: "bt_get (fs_in_flight s) h = Some i"
  shows "fifo_inv (fst (fifo_delete_message h s)) A"
    and "fifo_line s A (fif_group_id i) =
      core (fif_message i) # fifo_line (fst (fifo_delete_message h s)) A (fif_group_id i)"
    and "g \<noteq> fif_group_id i \<Longrightarrow> fifo_line (fst (fifo_delete_message h s)) A g = fifo_line s A g"
proof -
  let ?r = "s\<lparr>fs_in_flight := bt_remove h (fs_in_flight s)\<rparr>"
  have ok: "lines_ok (away s A) (queues s) (fs_blocked_groups s) (unat (fs_next_sequence s))"
    and maps: "fifo_maps_wf s" and labels: "labels_ok s"
    using inv by (simp_all add: fifo_inv_def)
  have g: "fif_group_id i = message_group (core (fif_message i))"
    using labels bt_get_values [OF i] by (simp add: labels_ok_def)
  have eq: "fst (fifo_delete_message h s) =
      ?r\<lparr>fs_blocked_groups := fs_blocked_groups ?r - {fif_group_id i}\<rparr>"
    using unblock_idle_eq [OF inv i, of ?r] i by (simp add: fifo_delete_message_def)
  have fl: "fs_in_flight (fst (fifo_delete_message h s)) = bt_remove h (fs_in_flight s)"
    by (simp add: eq)
  have q: "queues (fst (fifo_delete_message h s)) = queues s"
    by (rule queues_cong) (simp add: eq)
  note drop = lines_drop [OF ok away_remove [OF maps i fl] g]
  show "fifo_line s A (fif_group_id i) =
      core (fif_message i) # fifo_line (fst (fifo_delete_message h s)) A (fif_group_id i)"
    using drop(2) by (simp add: fifo_line_def q)
  show "g \<noteq> fif_group_id i \<Longrightarrow> fifo_line (fst (fifo_delete_message h s)) A g = fifo_line s A g"
    using drop(3) by (simp add: fifo_line_def q)
  show "fifo_inv (fst (fifo_delete_message h s)) A"
    using drop(1) labels_remove [OF labels fl] q maps
    by (simp add: fifo_inv_def eq fifo_maps_wf_def bt_wf_remove)
qed

lemma fifo_change_visibility_line:
  assumes inv: "fifo_inv s A"
  shows "fifo_inv (fst (fifo_change_visibility now h t s)) A \<and>
    fifo_line (fst (fifo_change_visibility now h t s)) A = fifo_line s A"
proof (cases "bt_get (fs_in_flight s) h")
  case None
  with inv show ?thesis by (simp add: fifo_change_visibility_def)
next
  case (Some i)
  have ok: "lines_ok (away s A) (queues s) (fs_blocked_groups s) (unat (fs_next_sequence s))"
    and maps: "fifo_maps_wf s" and labels: "labels_ok s"
    using inv by (simp_all add: fifo_inv_def)
  let ?s = "s\<lparr>fs_in_flight := bt_insert h (i\<lparr>fif_visible_at := t\<rparr>) (fs_in_flight s)\<rparr>"
  have "mset (away ?s A) = mset (away s A)"
    using mset_values_update [of "fs_in_flight s" h i "core \<circ> fif_message" "i\<lparr>fif_visible_at := t\<rparr>"]
      maps Some by (simp add: away_def fifo_maps_wf_def multiset.map_comp)
  note keep = lines_keep [OF ok this]
  have q: "queues ?s = queues s" by (rule queues_cong) simp
  have "labels_ok ?s"
    using labels bt_get_values [OF Some]
    by (auto simp: labels_ok_def dest!: set_values_insert)
  then have "fifo_inv ?s A \<and> fifo_line ?s A = fifo_line s A"
    using keep q maps by (simp add: fifo_inv_def fifo_line_def fifo_maps_wf_def bt_wf_insert)
  with return_to_group_line [OF inv Some] Some show ?thesis
    by (simp add: fifo_change_visibility_def)
qed

section \<open>Receiving and redriving\<close>

lemma fifo_inv_parts:
  "fifo_inv s A \<Longrightarrow> fifo_maps_wf s"
  "fifo_inv s A \<Longrightarrow> labels_ok s"
  "fifo_inv s A \<Longrightarrow> lines_ok (away s A) (queues s) (fs_blocked_groups s) (unat (fs_next_sequence s))"
  by (simp_all add: fifo_inv_def)

lemma away_snoc: "away s (A @ [m]) = away s A @ [core m]"
  by (simp add: away_def)

lemma fifo_receive_loop_line:
  "fifo_receive_loop n gs s result = (s', result') \<Longrightarrow> fifo_inv s (A @ map fst result) \<Longrightarrow>
     (\<forall>(m, g)\<in>set result. g = message_group m) \<Longrightarrow>
     fifo_inv s' (A @ map fst result') \<and>
     fifo_line s' (A @ map fst result') = fifo_line s (A @ map fst result) \<and>
     (\<forall>(m, g)\<in>set result'. g = message_group m) \<and>
     (\<exists>new. result' = result @ new \<and> (\<forall>(m, g)\<in>set new. g \<notin> fs_blocked_groups s))"
proof (induction n gs s result rule: fifo_receive_loop.induct)
  case (2 n g gs s result)
  show ?case
  proof (cases "n \<le> length result \<or> g \<in> fs_blocked_groups s \<or>
      bt_get (fs_groups s) g = None \<or> bt_get (fs_groups s) g = Some []")
    case True
    with 2 show ?thesis by (auto split: if_splits option.splits list.splits)
  next
    case False
    then obtain m ms where q: "bt_get (fs_groups s) g = Some (m # ms)"
      and g: "g \<notin> fs_blocked_groups s" and room: "\<not> n \<le> length result"
      by (metis list.exhaust option.exhaust)
    let ?s = "s\<lparr>fs_groups := bt_insert g ms (fs_groups s),
                fs_blocked_groups := insert g (fs_blocked_groups s)\<rparr>"
    let ?A = "A @ map fst result"
    have run: "fifo_receive_loop n gs ?s (result @ [(m, g)]) = (s', result')"
      using 2(5) g q room by simp
    have Qg: "queues s g = core m # map core ms"
      using q by (simp add: queues_def group_queue_def)
    have qs: "queues ?s = (queues s)(g := map core ms)"
      by (auto simp: queues_def group_queue_def bt_get_insert)
    have aw: "away ?s (A @ map fst (result @ [(m, g)])) = away s ?A @ [core m]"
      by (simp add: away_def)
    note take = lines_take [OF fifo_inv_parts(3) [OF 2(6)] g Qg]
    have "core m \<in> set (queues s g)" using Qg by simp
    then have "message_group (core m) = g"
      using fifo_inv_parts(3) [OF 2(6)] unfolding lines_ok_def by blast
    then have m: "message_group m = g" by simp
    have inv: "fifo_inv ?s (A @ map fst (result @ [(m, g)]))"
      using take(1) fifo_inv_parts(1,2) [OF 2(6)]
      by (simp add: fifo_inv_def aw [simplified] qs labels_ok_def fifo_maps_wf_def bt_wf_insert)
    have line: "fifo_line ?s (A @ map fst (result @ [(m, g)])) = fifo_line s ?A"
      using take(2) by (simp add: fifo_line_def aw [simplified] qs)
    have labels: "\<forall>(m, g)\<in>set (result @ [(m, g)]). g = message_group m"
      using 2(7) m by auto
    note ih = 2(4) [OF room g q refl run inv labels]
    then obtain new where "result' = (result @ [(m, g)]) @ new"
      "\<forall>(m, g)\<in>set new. g \<notin> fs_blocked_groups ?s" by blast
    with g have "\<exists>new. result' = result @ new \<and> (\<forall>(m, g)\<in>set new. g \<notin> fs_blocked_groups s)"
      by (intro exI [of _ "(m, g) # new"]) auto
    with ih line show ?thesis by simp
  qed
qed auto

lemma fifo_receive_line:
  assumes "fifo_receive n s = (s', received)" "fifo_inv s A"
  shows "fifo_inv s' (A @ map fst received)"
    and "fifo_line s' (A @ map fst received) = fifo_line s A"
    and "\<forall>(m, g)\<in>set received. g = message_group m \<and> g \<notin> fs_blocked_groups s"
proof -
  obtain s1 where l: "fifo_receive_loop n (bt_keys (fs_groups s)) s [] = (s1, received)"
    and s': "s' = s1\<lparr>fs_groups := bt_retain (\<lambda>_ q. q \<noteq> []) (fs_groups s1)\<rparr>"
    using assms(1) by (auto simp: fifo_receive_def split: prod.splits)
  note loop = fifo_receive_loop_line [OF l, of A, simplified, OF assms(2)]
  have maps: "fifo_maps_wf s1" using loop by (simp add: fifo_inv_def)
  then have "group_queue s' = group_queue s1"
    by (auto simp: s' group_queue_def bt_get_retain fifo_maps_wf_def fun_eq_iff
        split: option.split)
  then have q: "queues s' = queues s1" by (simp add: queues_def fun_eq_iff)
  have aw: "away s' A' = away s1 A'" for A' by (rule away_cong) (simp add: s')
  have fields: "fs_blocked_groups s' = fs_blocked_groups s1" "fs_next_sequence s' = fs_next_sequence s1"
    "fifo_maps_wf s'" "labels_ok s' = labels_ok s1"
    using maps by (simp_all add: s' fifo_maps_wf_def bt_wf_retain labels_ok_def)
  show "fifo_inv s' (A @ map fst received)"
    using loop fields by (simp add: fifo_inv_def aw q)
  show "fifo_line s' (A @ map fst received) = fifo_line s A"
    using loop by (simp add: fifo_line_def aw q)
  show "\<forall>(m, g)\<in>set received. g = message_group m \<and> g \<notin> fs_blocked_groups s"
    using loop by auto
qed

lemma mark_in_flight_line:
  assumes inv: "fifo_inv s (A @ m # R)" and h: "bt_get (fs_in_flight s) h = None"
  shows "fifo_inv (mark_in_flight h (mark_received t m) (message_group m) v s) (A @ R)"
    and "fifo_line (mark_in_flight h (mark_received t m) (message_group m) v s) (A @ R) =
      fifo_line s (A @ m # R)"
proof -
  let ?s = "mark_in_flight h (mark_received t m) (message_group m) v s"
  have maps: "fifo_maps_wf s" and labels: "labels_ok s" using inv by (simp_all add: fifo_inv_def)
  have "mset (away ?s (A @ R)) = mset (away s (A @ m # R))"
    using maps h by (simp add: away_def mark_in_flight_def mset_values_insert fifo_maps_wf_def)
  note keep = lines_keep [OF fifo_inv_parts(3) [OF inv] this]
  have q: "queues ?s = queues s" by (rule queues_cong) (simp add: mark_in_flight_def)
  have "labels_ok ?s"
    using labels by (auto simp: labels_ok_def mark_in_flight_def dest!: set_values_insert)
  then show "fifo_inv ?s (A @ R)"
    using keep(1) maps q
    by (simp add: fifo_inv_def fifo_maps_wf_def mark_in_flight_def bt_wf_insert)
  show "fifo_line ?s (A @ R) = fifo_line s (A @ m # R)"
    using keep(2) q by (simp add: fifo_line_def)
qed

lemma away_insert: "mset (away s (A @ m # R)) = add_mset (core m) (mset (away s (A @ R)))"
  by (simp add: away_def)

lemma finish_redrive_restore_line:
  assumes inv: "fifo_inv s (A @ m # R)"
  shows "fifo_inv (finish_redrive (message_group m) (Some m) s) (A @ R)"
    and "fifo_line (finish_redrive (message_group m) (Some m) s) (A @ R) = fifo_line s (A @ m # R)"
proof -
  let ?s = "finish_redrive (message_group m) (Some m) s"
  have g: "message_group m = message_group (core m)" by simp
  note restored = lines_put_back [OF fifo_inv_parts(3) [OF inv] away_insert g]
  have q: "queues ?s = (queues s)(message_group m := core m # queues s (message_group m))"
    by (auto simp: finish_redrive_def queues_def group_queue_def)
  have aw: "away ?s (A @ R) = away s (A @ R)"
    by (rule away_cong) (simp add: finish_redrive_def)
  show "fifo_line ?s (A @ R) = fifo_line s (A @ m # R)"
    using restored(2) by (simp add: fifo_line_def aw q)
  show "fifo_inv ?s (A @ R)"
    using restored(1) finish_redrive_held(2) [of s] fifo_inv_parts(1,2) [OF inv] q aw
    by (simp add: fifo_inv_def labels_ok_def) (simp add: finish_redrive_def)
qed

lemma finish_redrive_done_line:
  assumes inv: "fifo_inv s (A @ m # R)"
  shows "fifo_inv (finish_redrive (message_group m) None s) (A @ R)"
    and "fifo_line s (A @ m # R) (message_group m) =
      core m # fifo_line (finish_redrive (message_group m) None s) (A @ R) (message_group m)"
    and "g \<noteq> message_group m \<Longrightarrow>
      fifo_line (finish_redrive (message_group m) None s) (A @ R) g = fifo_line s (A @ m # R) g"
proof -
  let ?s = "finish_redrive (message_group m) None s"
  have g: "message_group m = message_group (core m)" by simp
  note drop = lines_drop [OF fifo_inv_parts(3) [OF inv] away_insert g]
  have q: "queues ?s = queues s" by (rule queues_cong) (simp add: finish_redrive_def)
  have aw: "away ?s (A @ R) = away s (A @ R)"
    by (rule away_cong) (simp add: finish_redrive_def)
  show "fifo_line s (A @ m # R) (message_group m) =
      core m # fifo_line ?s (A @ R) (message_group m)"
    using drop(2) by (simp add: fifo_line_def aw q)
  show "g \<noteq> message_group m \<Longrightarrow> fifo_line ?s (A @ R) g = fifo_line s (A @ m # R) g"
    using drop(3) by (simp add: fifo_line_def aw q)
  show "fifo_inv ?s (A @ R)"
    using drop(1) fifo_inv_parts(1,2) [OF inv] q aw
    by (simp add: fifo_inv_def labels_ok_def fifo_maps_wf_def) (simp add: finish_redrive_def)
qed

lemma enqueue_new_line:
  assumes inv: "fifo_inv s A" and enq: "enqueue now now' m key s = Some (s', res)"
    and new: "dedup_hit now key s = None" and room: "fs_next_sequence s \<noteq> - 1"
  shows "fifo_inv s' A"
    and "fifo_line s' A = (fifo_line s A)(message_group m := fifo_line s A (message_group m) @
      [core (m\<lparr>qm_sequence_number := Some (seq_string (fs_next_sequence s))\<rparr>)])"
    and "fs_next_sequence s' = fs_next_sequence s + 1"
proof -
  let ?m = "m\<lparr>qm_sequence_number := Some (seq_string (fs_next_sequence s))\<rparr>"
  from enq new obtain expiry where s': "s' = group_push_back (message_group m) ?m
      (s\<lparr>fs_next_sequence := fs_next_sequence s + 1,
         fs_dedup_cache := (fs_dedup_cache s)(key \<mapsto> \<lparr>de_expiry = expiry,
           de_message_id = qm_message_id m, de_sequence_number = seq_string (fs_next_sequence s)\<rparr>)\<rparr>)"
    by (auto elim!: enqueue_cases)
  have m: "message_group (core ?m) = message_group m"
    "message_seq (core ?m) = unat (fs_next_sequence s)"
    by (simp_all add: message_group_def message_seq_def seq_string_def digits_val_padded)
  note app = lines_append [OF fifo_inv_parts(3) [OF inv] m]
  have q: "queues s' = (queues s)(message_group m := queues s (message_group m) @ [core ?m])"
    by (auto simp: s' queues_def group_queue_def)
  have aw: "away s' A = away s A" by (rule away_cong) (simp add: s')
  have "unat (fs_next_sequence s + 1) = Suc (unat (fs_next_sequence s))"
    using room unatSuc [of "fs_next_sequence s"]
    by (simp add: add.commute eq_neg_iff_add_eq_0)
  then show "fifo_inv s' A"
    using app(1) fifo_inv_parts(1,2) [OF inv] q aw
    by (simp add: fifo_inv_def labels_ok_def fifo_maps_wf_def s' push_wf)
  show "fifo_line s' A = (fifo_line s A)(message_group m := fifo_line s A (message_group m) @ [core ?m])"
    using app(2) by (simp add: fifo_line_def aw q)
  show "fs_next_sequence s' = fs_next_sequence s + 1" by (simp add: s')
qed

lemma clean_dedup_line:
  "fifo_inv (clean_dedup_cache now s) A = fifo_inv s A"
  "fifo_line (clean_dedup_cache now s) A = fifo_line s A"
proof -
  let ?s = "clean_dedup_cache now s"
  have q: "queues ?s = queues s" by (rule queues_cong) (simp add: clean_dedup_cache_def)
  have aw: "away ?s A = away s A" by (rule away_cong) (simp add: clean_dedup_cache_def)
  have l: "labels_ok ?s = labels_ok s" by (rule labels_cong) (simp add: clean_dedup_cache_def)
  show "fifo_line ?s A = fifo_line s A" by (simp add: fifo_line_def q aw)
  show "fifo_inv ?s A = fifo_inv s A"
    by (simp add: fifo_inv_def q aw l clean_dedup_held) (simp add: clean_dedup_cache_def)
qed

lemma fifo_purge_line:
  assumes "fifo_inv s A"
  shows "fifo_inv (fifo_purge s) []" and "fifo_line (fifo_purge s) [] g = []"
  by (simp_all add: fifo_inv_def fifo_line_def fifo_purge_def fifo_maps_wf_def labels_ok_def
      away_def queues_def group_queue_def lines_ok_def line_of_def bt_values_def)

lemma fifo_default_line: "fifo_inv fifo_default []" "fifo_line fifo_default [] g = []"
  by (simp_all add: fifo_inv_def fifo_line_def fifo_default_def fifo_maps_wf_def labels_ok_def
      away_def queues_def group_queue_def lines_ok_def line_of_def bt_values_def)

section \<open>The lines of a queue\<close>

definition pending_messages :: "redrive_manager \<Rightarrow> queue_message list" where
  "pending_messages mgr = map pt_message (rm_pending mgr)"

definition actor_line :: "queue_actor \<Rightarrow> string \<Rightarrow> queue_message list" where
  "actor_line a =
     (case qa_storage a of
        StandardStorage _ \<Rightarrow> (\<lambda>g. [])
      | FifoStorage s \<Rightarrow> fifo_line s (pending_messages (qa_redrive a)))"

definition actor_fifo_inv :: "queue_actor \<Rightarrow> bool" where
  "actor_fifo_inv a \<longleftrightarrow>
     (case qa_storage a of
        StandardStorage _ \<Rightarrow> True
      | FifoStorage s \<Rightarrow> fifo_inv s (pending_messages (qa_redrive a)))"

lemma handoff_messages:
  "handoff e mgr m target source = (mgr', accepted) \<Longrightarrow>
     pending_messages mgr' = pending_messages mgr @ (if accepted then [m] else [])"
  by (auto simp: handoff_def pending_messages_def split: if_splits)

definition shows_message :: "sqs_message \<Rightarrow> queue_message \<Rightarrow> bool" where
  "shows_message x m \<longleftrightarrow>
     msg_message_id x = Some (qm_message_id m) \<and> msg_body x = Some (qm_body m)"

lemma shows_build [simp]: "shows_message (build_message (mark_received t m) h ss ms) m"
  by (simp add: shows_message_def build_message_def mark_received_def)

lemma deliver_fifo_loop_line:
  "deliver_fifo_loop lib e rq received i (s, mgr, result) = Some (s', mgr', result') \<Longrightarrow>
     fifo_inv s (pending_messages mgr @ map fst received) \<Longrightarrow>
     fresh_above lib e i (set (bt_keys (fs_in_flight s))) \<Longrightarrow>
     \<forall>(m, g)\<in>set received. g = message_group m \<Longrightarrow>
     fifo_inv s' (pending_messages mgr') \<and>
     fifo_line s' (pending_messages mgr') = fifo_line s (pending_messages mgr @ map fst received) \<and>
     (\<exists>new. result' = result @ new \<and>
        list_all2 shows_message new
          (filter (\<lambda>m. redrive_target (rq_attributes rq) m = None) (map fst received)))"
proof (induction received arbitrary: i s mgr result)
  case (Cons r received)
  obtain m where r: "r = (m, message_group m)" using Cons.prems(4) by (cases r) auto
  let ?P = "pending_messages mgr"
  have labels: "\<forall>(m, g)\<in>set received. g = message_group m" using Cons.prems(4) by simp
  show ?case
  proof (cases "redrive_target (rq_attributes rq) m")
    case (Some target)
    obtain mgr1 accepted where h: "handoff e mgr m target (rq_arn rq) = (mgr1, accepted)"
      by fastforce
    let ?s = "if accepted then s else finish_redrive (message_group m) (Some m) s"
    have run: "deliver_fifo_loop lib e rq received (Suc i) (?s, mgr1, result) =
        Some (s', mgr', result')"
      using Cons.prems(1) r Some h by (cases accepted) simp_all
    have "fs_in_flight ?s = fs_in_flight s"
      using finish_redrive_held(3) [OF fifo_inv_parts(1) [OF Cons.prems(2)]] by simp
    then have fresh: "fresh_above lib e (Suc i) (set (bt_keys (fs_in_flight ?s)))"
      using fresh_above_Suc [OF Cons.prems(3)] by simp
    have step: "fifo_inv ?s (pending_messages mgr1 @ map fst received)"
      "fifo_line ?s (pending_messages mgr1 @ map fst received) = fifo_line s (?P @ m # map fst received)"
      using Cons.prems(2) r handoff_messages [OF h]
        finish_redrive_restore_line [of s ?P m "map fst received"] by auto
    show ?thesis using Cons.IH [OF run step(1) fresh labels] step(2) r Some by simp
  next
    case None
    let ?m = "mark_received (millis_at e i) m"
    let ?h = "receipt_at lib e i (qm_message_id ?m)"
    obtain t where t: "instant_add (now_at e i) (rq_vis_timeout rq) = Some t"
      using Cons.prems(1) r None by (auto simp: Let_def split: option.splits)
    let ?x = "build_message ?m ?h (rq_sys_attrs rq) (rq_msg_attrs rq)"
    let ?s = "mark_in_flight ?h ?m (message_group m) t s"
    have run: "deliver_fifo_loop lib e rq received (Suc i) (?s, mgr, result @ [?x]) =
        Some (s', mgr', result')"
      using Cons.prems(1) r None t by (simp add: Let_def receipt_at_def)
    have new: "bt_get (fs_in_flight s) ?h = None"
      by (rule fresh_above_new [OF Cons.prems(3)])
    have inv: "fifo_inv s (?P @ m # map fst received)" using Cons.prems(2) r by simp
    note step = mark_in_flight_line [OF inv new, of "millis_at e i" t]
    have keys: "set (bt_keys (fs_in_flight ?s)) = insert ?h (set (bt_keys (fs_in_flight s)))"
      by (simp add: mark_in_flight_def bt_keys_insert)
    have fresh: "fresh_above lib e (Suc i) (set (bt_keys (fs_in_flight ?s)))"
      unfolding keys by (rule fresh_above_insert [OF Cons.prems(3)])
    note ih = Cons.IH [OF run step(1) fresh labels]
    then obtain new where "result' = (result @ [?x]) @ new" "list_all2 shows_message new
        (filter (\<lambda>m. redrive_target (rq_attributes rq) m = None) (map fst received))" by blast
    then have "\<exists>new. result' = result @ new \<and> list_all2 shows_message new
        (filter (\<lambda>m. redrive_target (rq_attributes rq) m = None) (map fst (r # received)))"
      using r None by (intro exI [of _ "?x # new"]) simp
    with ih step(2) r show ?thesis by simp
  qed
qed simp

lemma line_head:
  assumes "lines_ok aw Q B N" "m \<in> set aw"
  shows "line_of aw Q (message_group m) = m # Q (message_group m)"
proof -
  have split: "mset aw = add_mset m (mset (remove1 m aw))" using assms(2) by simp
  have "distinct (map message_group aw)" using assms(1) by (simp add: lines_ok_def)
  from filter_unique(1) [OF this split] show ?thesis by (simp add: line_of_def)
qed

text \<open>Messages that have not expired stay in flight, so their groups stay blocked.\<close>

lemma return_fifo_loop_keeps:
  "bt_get (fs_in_flight s) h = Some i \<Longrightarrow> h \<notin> set hs \<Longrightarrow>
     bt_get (fs_in_flight (return_fifo_loop hs s)) h = Some i"
proof (induction hs s rule: return_fifo_loop.induct)
  case (2 h' hs s)
  show ?case
  proof (cases "bt_get (fs_in_flight s) h'")
    case (Some j)
    have "bt_get (fs_in_flight (return_to_group h' j s)) h = Some i"
      using 2(2,3) by (simp add: return_to_group_def bt_get_filter_out)
    with 2 Some show ?thesis by simp
  qed (use 2 in simp)
qed simp

lemma try_receive_line:
  assumes run: "try_receive lib e n v attrs sys msg a = Some (a', messages)"
    and st: "qa_storage a = FifoStorage s" and inv: "actor_fifo_inv a"
    and fresh: "env_fresh lib e (actor_handles a)"
  shows "actor_fifo_inv a'" and "actor_line a' = actor_line a"
    and "\<exists>ds. list_all2 shows_message messages ds \<and> distinct (map message_group ds) \<and>
      (\<forall>m\<in>set ds. (\<exists>rest. actor_line a (message_group m) = core m # rest) \<and>
         (\<forall>h i. bt_get (fs_in_flight s) h = Some i \<and> fif_group_id i = message_group m \<longrightarrow>
            fif_visible_at i \<le> now_at e 0))"
    and "\<exists>s'. qa_storage a' = FifoStorage s'"
proof -
  let ?rq = "\<lparr>rq_max = i32_as_u64 n, rq_vis_timeout = i32_as_u64 v,
    rq_sys_attrs = merge_attribute_names attrs sys, rq_msg_attrs = msg,
    rq_attributes = qa_attributes a, rq_arn = qa_arn a\<rparr>"
  let ?P = "pending_messages (qa_redrive a)"
  let ?s1 = "fst (fifo_return_expired_inflight (hash_order e) (now_at e 0) s)"
  obtain s2 received where rec: "fifo_receive (i32_as_u64 n) ?s1 = (s2, received)" by fastforce
  obtain s3 mgr where r: "deliver_fifo_loop lib e ?rq received 2 (s2, qa_redrive a, []) =
        Some (s3, mgr, messages)"
    and a': "a' = a\<lparr>qa_storage := FifoStorage s3, qa_redrive := mgr\<rparr>"
    using run st rec by (auto simp: try_receive_def try_receive_fifo_def Let_def split: option.splits)
  have s: "fifo_inv s ?P" using inv st by (simp add: actor_fifo_inv_def)
  note ret = fifo_return_expired_line [OF s, of "hash_order e" "now_at e 0"]
  note got = fifo_receive_line [OF rec ret(1)]
  have "set (bt_keys (fs_in_flight s2)) \<subseteq> actor_handles a"
    using fifo_receive_held(3) [OF fifo_inv_parts(1) [OF ret(1)] rec]
      fifo_return_expired_held(3) [OF fifo_inv_parts(1) [OF s], of "hash_order e" "now_at e 0"] st
    by (simp add: actor_handles_def)
  then have "fresh_above lib e 2 (set (bt_keys (fs_in_flight s2)))"
    by (rule fresh_above_mono [OF env_fresh_above [OF fresh]])
  moreover have "\<forall>(m, g)\<in>set received. g = message_group m" using got(3) by auto
  ultimately have del: "fifo_inv s3 (pending_messages mgr)"
    "fifo_line s3 (pending_messages mgr) = fifo_line s2 (?P @ map fst received)"
    "list_all2 shows_message messages
       (filter (\<lambda>m. redrive_target (qa_attributes a) m = None) (map fst received))"
    using deliver_fifo_loop_line [OF r got(1)] by auto
  show "actor_fifo_inv a'" using del(1) by (simp add: a' actor_fifo_inv_def)
  show lines: "actor_line a' = actor_line a"
    using del(2) got(2) ret(2) st by (simp add: a' actor_line_def)
  show "\<exists>s'. qa_storage a' = FifoStorage s'" by (simp add: a')
  let ?ds = "filter (\<lambda>m. redrive_target (qa_attributes a) m = None) (map fst received)"
  have ok: "lines_ok (away s2 (?P @ map fst received)) (queues s2) (fs_blocked_groups s2)
      (unat (fs_next_sequence s2))"
    by (rule fifo_inv_parts(3) [OF got(1)])
  then have "distinct (map message_group (map fst received))"
    by (auto simp: lines_ok_def away_def comp_def)
  then have "distinct (map message_group ?ds)" by (rule distinct_map_filter)
  moreover have "\<exists>rest. actor_line a (message_group m) = core m # rest" if "m \<in> set ?ds" for m
  proof -
    have "core m \<in> set (away s2 (?P @ map fst received))" using that by (auto simp: away_def)
    from line_head [OF ok this] show ?thesis
      using got(2) ret(2) st by (simp add: actor_line_def fifo_line_def)
  qed
  moreover have "fif_visible_at i \<le> now_at e 0"
    if m: "m \<in> set ?ds" and i: "bt_get (fs_in_flight s) h = Some i"
      and g: "fif_group_id i = message_group m" for m h i
  proof (rule ccontr)
    assume late: "\<not> fif_visible_at i \<le> now_at e 0"
    then have "h \<notin> set (expired_handles (hash_order e) (now_at e 0) fif_visible_at (fs_in_flight s))"
      using i by (simp add: expired_handles_def)
    then have "bt_get (fs_in_flight ?s1) h = Some i"
      using return_fifo_loop_keeps [OF i] by (simp add: fifo_return_expired_inflight_def Let_def)
    then have v: "i \<in> set (bt_values (fs_in_flight ?s1))" by (rule bt_get_values)
    then have "core (fif_message i) \<in> set (away ?s1 ?P)" by (auto simp: away_def)
    then have "message_group (core (fif_message i)) \<in> fs_blocked_groups ?s1"
      using fifo_inv_parts(3) [OF ret(1)] unfolding lines_ok_def by blast
    moreover have "message_group (fif_message i) = message_group m"
      using fifo_inv_parts(2) [OF ret(1)] v g by (simp add: labels_ok_def)
    moreover have "message_group m \<notin> fs_blocked_groups ?s1" using got(3) m by auto
    ultimately show False by simp
  qed
  ultimately show "\<exists>ds. list_all2 shows_message messages ds \<and> distinct (map message_group ds) \<and>
      (\<forall>m\<in>set ds. (\<exists>rest. actor_line a (message_group m) = core m # rest) \<and>
         (\<forall>h i. bt_get (fs_in_flight s) h = Some i \<and> fif_group_id i = message_group m \<longrightarrow>
            fif_visible_at i \<le> now_at e 0))"
    using del(3) by blast
qed

section \<open>Events on a FIFO queue\<close>

definition has_fifo_storage :: "queue_actor \<Rightarrow> bool" where
  "has_fifo_storage a \<longleftrightarrow> (\<exists>s. qa_storage a = FifoStorage s)"

definition sequence_room :: "queue_actor \<Rightarrow> bool" where
  "sequence_room a \<longleftrightarrow>
     (case qa_storage a of StandardStorage _ \<Rightarrow> True | FifoStorage s \<Rightarrow> fs_next_sequence s \<noteq> - 1)"

text \<open>How many messages an event removes from the head of a line, and which events append.\<close>

fun line_taken :: "sqs_env \<Rightarrow> queue_event \<Rightarrow> queue_actor \<Rightarrow> string \<Rightarrow> nat" where
  "line_taken e (EvCommand (CmdDeleteMessage h client) gone) a g =
     (case qa_storage a of
        StandardStorage _ \<Rightarrow> 0
      | FifoStorage s \<Rightarrow>
          (case bt_get (fs_in_flight s) h of
             None \<Rightarrow> 0 | Some i \<Rightarrow> if fif_group_id i = g then 1 else 0))"
| "line_taken e (EvCommand (CmdPurge client) gone) a g =
     (if is_ok (snd (handle_purge e a)) then length (actor_line a g) else 0)"
| "line_taken e ev a g = 0"

fun event_appends :: "queue_event \<Rightarrow> bool" where
  "event_appends (EvCommand (CmdSendMessage input client) gone) = True"
| "event_appends (EvCommand (CmdTransfer m source_arn ticket) gone) = True"
| "event_appends ev = False"

text \<open>\<open>a'\<close> has the lines of \<open>a\<close>.\<close>

definition same_lines :: "queue_actor \<Rightarrow> queue_actor \<Rightarrow> bool" where
  "same_lines a a' \<longleftrightarrow> actor_fifo_inv a' \<and> has_fifo_storage a' \<and> actor_line a' = actor_line a"

lemma same_lines_trans: "same_lines a b \<Longrightarrow> same_lines b c \<Longrightarrow> same_lines a c"
  by (simp add: same_lines_def)

lemma same_lines_refl: "actor_fifo_inv a \<Longrightarrow> has_fifo_storage a \<Longrightarrow> same_lines a a"
  by (simp add: same_lines_def)

lemma actor_line_pending:
  assumes "qa_storage b = qa_storage a" "pending_messages (qa_redrive b) = pending_messages (qa_redrive a)"
  shows "actor_line b = actor_line a" and "actor_fifo_inv b = actor_fifo_inv a"
    and "has_fifo_storage b = has_fifo_storage a"
  unfolding actor_fifo_inv_def has_fifo_storage_def actor_line_def assms by (rule refl)+

lemma actor_line_cong:
  "qa_storage b = qa_storage a \<Longrightarrow> rm_pending (qa_redrive b) = rm_pending (qa_redrive a) \<Longrightarrow>
     actor_line b = actor_line a \<and> actor_fifo_inv b = actor_fifo_inv a \<and>
     has_fifo_storage b = has_fifo_storage a"
  using actor_line_pending [of b a] by (simp add: pending_messages_def)

lemma same_lines_cong:
  "same_lines a a' \<Longrightarrow> qa_storage b = qa_storage a' \<Longrightarrow> rm_pending (qa_redrive b) = rm_pending (qa_redrive a') \<Longrightarrow>
     same_lines a b"
  using actor_line_cong [of b a'] by (simp add: same_lines_def)

lemma actor_inv_maps: "actor_fifo_inv a \<Longrightarrow> has_fifo_storage a \<Longrightarrow> actor_maps_wf a"
  by (auto simp: actor_fifo_inv_def has_fifo_storage_def actor_maps_wf_def fifo_inv_def)

lemma try_receive_same:
  assumes "try_receive lib e n v attrs sys msg a = Some (a', messages)"
    and "has_fifo_storage a" "actor_fifo_inv a" "env_fresh lib e (actor_handles a)"
  shows "same_lines a a'"
proof -
  obtain s where "qa_storage a = FifoStorage s" using assms(2) by (auto simp: has_fifo_storage_def)
  from try_receive_line [OF assms(1) this assms(3,4)] show ?thesis
    by (simp add: same_lines_def has_fifo_storage_def)
qed

lemma fulfill_loop_same:
  "fulfill_loop lib es polls j (a, remaining, out) = Some (a', remaining', out') \<Longrightarrow>
     actor_fifo_inv a \<Longrightarrow> has_fifo_storage a \<Longrightarrow> envs_fresh lib es j (actor_handles a) \<Longrightarrow>
     same_lines a a'"
proof (induction polls arbitrary: j a remaining out)
  case (Cons poll polls)
  show ?case
  proof (cases "reply_closed (es j) (lp_client poll)")
    case True
    with Cons show ?thesis by (auto dest: envs_fresh_Suc)
  next
    case False
    obtain a1 messages where r: "try_receive lib (es j) (lp_max_messages poll)
        (lp_visibility_timeout poll) (lp_attribute_names poll) []
        (lp_message_attribute_names poll) a = Some (a1, messages)"
      using Cons.prems(1) False by (auto split: option.splits)
    note fresh = envs_fresh_head [OF Cons.prems(4)]
    note got = try_receive_same [OF r Cons.prems(3,2) fresh]
    note held = try_receive_held [OF r actor_inv_maps [OF Cons.prems(2,3)] fresh]
    from got have inv: "actor_fifo_inv a1" "has_fifo_storage a1" by (simp_all add: same_lines_def)
    obtain rem1 out1 where "fulfill_loop lib es polls (Suc j) (a1, rem1, out1) =
        Some (a', remaining', out')"
      using Cons.prems(1) False r by (auto split: if_splits)
    from Cons.IH [OF this inv envs_fresh_next [OF Cons.prems(4) held(3)]] got
    show ?thesis by (blast intro: same_lines_trans)
  qed
qed (simp add: same_lines_refl)

lemma fulfill_if_same:
  assumes "fulfill_if c lib es a = Some (a', out)"
    and "actor_fifo_inv a" "has_fifo_storage a" "c \<Longrightarrow> envs_fresh lib es 0 (actor_handles a)"
  shows "same_lines a a'"
proof (cases "c \<and> qa_pending_long_polls a \<noteq> []")
  case True
  let ?a = "a\<lparr>qa_pending_long_polls := []\<rparr>"
  obtain a1 remaining where l: "fulfill_loop lib es (qa_pending_long_polls a) 0 (?a, [], []) =
      Some (a1, remaining, out)"
    and a': "a' = a1\<lparr>qa_pending_long_polls := remaining\<rparr>"
    using assms(1) True
    by (auto simp: fulfill_if_def fulfill_pending_long_polls_def split: option.splits)
  have c: "actor_line ?a = actor_line a" "actor_fifo_inv ?a" "has_fifo_storage ?a"
    using actor_line_cong [of ?a a] assms(2,3) by simp_all
  have "envs_fresh lib es 0 (actor_handles ?a)" using assms(4) True by (simp add: actor_handles_def)
  from fulfill_loop_same [OF l c(2,3) this] have "same_lines a a1"
    using c(1) by (simp add: same_lines_def)
  then show ?thesis by (rule same_lines_cong) (simp_all add: a')
next
  case False
  with assms show ?thesis by (auto simp: fulfill_if_def same_lines_refl)
qed

lemma expire_same:
  "actor_fifo_inv a \<Longrightarrow> has_fifo_storage a \<Longrightarrow> same_lines a (fst (expire_long_polls e now a))"
  by (rule same_lines_cong [OF same_lines_refl])
    (simp_all add: expire_long_polls_def split_beta)

lemma periodic_cleanup_same:
  assumes run: "periodic_cleanup lib e es a = Some (a', out)"
    and inv: "actor_fifo_inv a" "has_fifo_storage a"
    and fresh: "envs_fresh lib es 0 (actor_handles a)"
  shows "same_lines a a'"
proof -
  obtain s where st: "qa_storage a = FifoStorage s" using inv(2) by (auto simp: has_fifo_storage_def)
  let ?r = "fifo_return_expired_inflight (hash_order e) (now_at e 0) s"
  let ?s = "clean_dedup_cache (now_at e 1) (fst ?r)"
  let ?a = "a\<lparr>qa_storage := FifoStorage ?s\<rparr>"
  obtain a1 out1 where f: "fulfill_if (snd ?r) lib es ?a = Some (a1, out1)"
    and a': "a' = fst (expire_long_polls e (now_at e 2) a1)"
    using run st by (auto simp: periodic_cleanup_def Let_def split_beta split: option.splits)
  have s: "fifo_inv s (pending_messages (qa_redrive a))"
    using inv(1) st by (simp add: actor_fifo_inv_def)
  have "same_lines a ?a"
    using fifo_return_expired_line [OF s, of "hash_order e" "now_at e 0"] st
    by (simp add: same_lines_def actor_fifo_inv_def has_fifo_storage_def actor_line_def
        clean_dedup_line)
  moreover have "envs_fresh lib es 0 (actor_handles ?a)"
    using fifo_return_expired_held(3) [OF fifo_inv_parts(1) [OF s], of "hash_order e" "now_at e 0"]
    by (intro envs_fresh_mono [OF fresh]) (simp add: actor_handles_def st clean_dedup_held)
  ultimately have "same_lines a a1"
    using fulfill_if_same [OF f] by (auto simp: same_lines_def)
  then show ?thesis
    using expire_same [of a1 e "now_at e 2"] by (auto simp: a' same_lines_def)
qed

text \<open>What an event may do to the lines.\<close>

definition lines_step :: "sqs_env \<Rightarrow> queue_event \<Rightarrow> queue_actor \<Rightarrow> queue_actor \<Rightarrow> bool" where
  "lines_step e ev a a' \<longleftrightarrow> actor_fifo_inv a' \<and> has_fifo_storage a' \<and>
     (\<forall>g. \<exists>new. actor_line a' g = drop (line_taken e ev a g) (actor_line a g) @ new \<and>
        (new = [] \<or> event_appends ev \<and> (\<exists>m. new = [m])))"

lemma lines_step_same:
  "same_lines a a' \<Longrightarrow> (\<And>g. line_taken e ev a g = 0) \<Longrightarrow> lines_step e ev a a'"
  by (simp add: lines_step_def same_lines_def)

lemma lines_step_then: "lines_step e ev a b \<Longrightarrow> same_lines b c \<Longrightarrow> lines_step e ev a c"
  by (simp add: lines_step_def same_lines_def)

lemma enqueue_step:
  assumes enq: "enqueue now now' m key s = Some (s', res)" and st: "qa_storage a = FifoStorage s"
    and inv: "actor_fifo_inv a" and room: "sequence_room a"
    and ev: "event_appends ev" "\<And>g. line_taken e ev a g = 0"
  shows "lines_step e ev a (a\<lparr>qa_storage := FifoStorage s'\<rparr>)"
proof (cases "dedup_hit now key s")
  case None
  have s: "fifo_inv s (pending_messages (qa_redrive a))" "fs_next_sequence s \<noteq> - 1"
    using inv room st by (simp_all add: actor_fifo_inv_def sequence_room_def)
  from enqueue_new_line [OF s(1) enq None s(2)] show ?thesis
    using ev st by (auto simp: lines_step_def actor_fifo_inv_def has_fifo_storage_def actor_line_def)
next
  case (Some entry)
  with enq have "s' = s" by (auto elim: enqueue_cases)
  with inv st have "same_lines a (a\<lparr>qa_storage := FifoStorage s'\<rparr>)"
    by (intro same_lines_cong [OF same_lines_refl]) (auto simp: has_fifo_storage_def)
  then show ?thesis using ev(2) by (rule lines_step_same)
qed

lemma handle_send_message_step:
  assumes run: "handle_send_message lib e input a = Some (a', result)"
    and inv: "actor_fifo_inv a" "has_fifo_storage a" and room: "sequence_room a"
    and ev: "event_appends ev" "\<And>g. line_taken e' ev a g = 0"
  shows "lines_step e' ev a a'"
proof -
  obtain s where st: "qa_storage a = FifoStorage s" using inv(2) by (auto simp: has_fifo_storage_def)
  have "a' = a \<or> (\<exists>m key s' res. enqueue (now_at e 1) (now_at e 2) m key s = Some (s', res) \<and>
      a' = a\<lparr>qa_storage := FifoStorage s'\<rparr>)"
    using run st
    by (auto simp: handle_send_message_def handle_send_message_fifo_def
        handle_send_message_standard_def Let_def split: if_splits option.splits)
  then show ?thesis
    using enqueue_step [OF _ st inv(1) room ev] lines_step_same [OF same_lines_refl [OF inv] ev(2)]
    by blast
qed

lemma accept_transfer_step:
  assumes run: "accept_transfer lib e m source_arn a = Some (a', result)"
    and inv: "actor_fifo_inv a" "has_fifo_storage a" and room: "sequence_room a"
    and ev: "event_appends ev" "\<And>g. line_taken e' ev a g = 0"
  shows "lines_step e' ev a a'"
proof -
  obtain s where st: "qa_storage a = FifoStorage s" using inv(2) by (auto simp: has_fifo_storage_def)
  have "a' = a \<or> (\<exists>m key s' res. enqueue (now_at e 1) (now_at e 2) m key s = Some (s', res) \<and>
      a' = a\<lparr>qa_storage := FifoStorage s'\<rparr>)"
    using run st by (auto simp: accept_transfer_def Let_def split: sum.splits option.splits)
  then show ?thesis
    using enqueue_step [OF _ st inv(1) room ev] lines_step_same [OF same_lines_refl [OF inv] ev(2)]
    by blast
qed

lemma handle_delete_step:
  assumes run: "handle_delete_message h a = (a', freed)"
    and inv: "actor_fifo_inv a" "has_fifo_storage a"
  shows "lines_step e (EvCommand (CmdDeleteMessage h client) gone) a a'"
proof -
  obtain s where st: "qa_storage a = FifoStorage s" using inv(2) by (auto simp: has_fifo_storage_def)
  have s: "fifo_inv s (pending_messages (qa_redrive a))" using inv st by (simp add: actor_fifo_inv_def)
  have a': "a' = a\<lparr>qa_storage := FifoStorage (fst (fifo_delete_message h s))\<rparr>"
    using run st by (auto simp: handle_delete_message_def split: prod.splits)
  show ?thesis
  proof (cases "bt_get (fs_in_flight s) h")
    case None
    with s st show ?thesis
      by (auto simp: a' lines_step_def actor_fifo_inv_def has_fifo_storage_def actor_line_def
          fifo_delete_message_def)
  next
    case (Some i)
    from fifo_delete_line [OF s Some] st Some show ?thesis
      by (auto simp: a' lines_step_def actor_fifo_inv_def has_fifo_storage_def actor_line_def)
  qed
qed

lemma handle_change_visibility_same:
  assumes run: "handle_change_visibility e h v a = Some (a', result)"
    and inv: "actor_fifo_inv a" "has_fifo_storage a"
  shows "same_lines a a'"
proof -
  obtain s where st: "qa_storage a = FifoStorage s" using inv(2) by (auto simp: has_fifo_storage_def)
  have s: "fifo_inv s (pending_messages (qa_redrive a))" using inv st by (simp add: actor_fifo_inv_def)
  obtain t where "a' = a\<lparr>qa_storage := FifoStorage (fst (fifo_change_visibility (now_at e 1) h t s))\<rparr>"
    using run st by (auto simp: handle_change_visibility_def split_beta split: option.splits)
  with fifo_change_visibility_line [OF s] st show ?thesis
    by (simp add: same_lines_def actor_fifo_inv_def has_fifo_storage_def actor_line_def)
qed

lemma handle_purge_step:
  assumes run: "handle_purge e a = (a', result)"
    and inv: "actor_fifo_inv a" "has_fifo_storage a"
  shows "lines_step e (EvCommand (CmdPurge client) gone) a a'"
proof -
  obtain s where st: "qa_storage a = FifoStorage s" using inv(2) by (auto simp: has_fifo_storage_def)
  have s: "fifo_inv s (pending_messages (qa_redrive a))" using inv st by (simp add: actor_fifo_inv_def)
  show ?thesis
  proof (cases result)
    case (Inl err)
    with run have "a' = a" by (auto simp: handle_purge_def split: if_splits)
    with run Inl inv show ?thesis by (auto simp: lines_step_def)
  next
    case (Inr u)
    with run have "a' = a\<lparr>qa_redrive := (qa_redrive a)\<lparr>rm_pending := []\<rparr>,
        qa_storage := FifoStorage (fifo_purge s), qa_last_purge_at := Some (now_at e 1)\<rparr>"
      using st by (auto simp: handle_purge_def split: if_splits)
    with run Inr fifo_purge_line [OF s] st show ?thesis
      by (simp add: lines_step_def actor_fifo_inv_def has_fifo_storage_def actor_line_def
          pending_messages_def)
  qed
qed

lemma handle_command_step:
  assumes run: "handle_command lib e gone cmd a = Some (a', out, fulfill)"
    and inv: "actor_fifo_inv a" "has_fifo_storage a" and room: "sequence_room a"
    and fresh: "env_fresh lib e (actor_handles a)"
  shows "lines_step e (EvCommand cmd gone) a a'"
proof (cases cmd)
  case (CmdTransfer m source_arn ticket)
  with run inv show ?thesis
    by (auto intro: accept_transfer_step [OF _ inv room] lines_step_same [OF same_lines_refl]
        split: if_splits option.splits)
next
  case (CmdSendMessage input client)
  with run inv show ?thesis
    by (auto intro: handle_send_message_step [OF _ inv room] lines_step_same [OF same_lines_refl]
        split: if_splits option.splits)
next
  case (CmdReceiveMessage input client)
  with run obtain n v a1 messages where r: "try_receive lib e n v (rmi_attribute_names input)
      (rmi_message_system_attribute_names input) (rmi_message_attribute_names input) a =
      Some (a1, messages)"
    and a': "qa_storage a' = qa_storage a1" "rm_pending (qa_redrive a') = rm_pending (qa_redrive a1)"
    by (auto simp: handle_receive_message_def Let_def split: option.splits if_splits)
  have "same_lines a a'"
    by (rule same_lines_cong [OF try_receive_same [OF r inv(2,1) fresh] a'])
  then show ?thesis by (rule lines_step_same) (simp add: CmdReceiveMessage)
next
  case (CmdDeleteMessage h client)
  with run show ?thesis
    by (cases "handle_delete_message h a") (auto intro: handle_delete_step [OF _ inv])
next
  case (CmdChangeVisibility h v client)
  with run obtain result where "handle_change_visibility e h v a = Some (a', result)" by auto
  from handle_change_visibility_same [OF this inv] show ?thesis
    by (rule lines_step_same) (simp add: CmdChangeVisibility)
next
  case (CmdPurge client)
  with run show ?thesis
    by (cases "handle_purge e a") (auto intro: handle_purge_step [OF _ inv])
qed (use run inv in \<open>auto intro!: lines_step_same same_lines_cong [OF same_lines_refl]
      split: prod.splits\<close>)

lemma wait_for_transfer_messages: "map pt_message (wait_for_transfer ts) = map pt_message ts"
  by (induction ts) (auto split: transfer_reply.splits)

lemma handle_event_step:
  assumes run: "handle_event lib e es ev a = Some (a', out)"
    and inv: "actor_fifo_inv a" "has_fifo_storage a" and room: "sequence_room a"
    and fresh: "event_fresh lib e es a"
  shows "lines_step e ev a a'"
proof (cases ev)
  case (EvCommand cmd gone)
  have env: "env_fresh lib e (actor_handles a)" "envs_fresh lib es 0 (actor_handles a)"
    using fresh by (simp_all add: event_fresh_def)
  from run [unfolded EvCommand] show ?thesis
  proof (cases rule: handle_event_command)
    case shutdown
    have "same_lines a a'"
      by (rule same_lines_cong [OF same_lines_refl [OF inv]]) (simp_all add: shutdown stop_actor_def)
    then show ?thesis by (rule lines_step_same) (simp add: EvCommand shutdown)
  next
    case (other a1 out1 fulfill out2)
    note step = handle_command_step [OF other(1) inv room env(1)]
    have "fulfill \<Longrightarrow> envs_fresh lib es 0 (actor_handles a1)"
      using handle_command_held(3) [OF other(1) actor_inv_maps [OF inv] env(1)]
        envs_fresh_mono [OF env(2)] by blast
    then have "same_lines a1 a'"
      using fulfill_if_same [OF other(2)] step by (simp add: lines_step_def)
    with step show ?thesis unfolding EvCommand by (rule lines_step_then)
  qed
next
  case EvChannelClosed
  with run inv show ?thesis
    by (auto intro!: lines_step_same same_lines_cong [OF same_lines_refl] simp: stop_actor_def)
next
  case EvTransferDone
  with run have "a' = a\<lparr>qa_redrive := (qa_redrive a)
      \<lparr>rm_pending := wait_for_transfer (rm_pending (qa_redrive a))\<rparr>\<rparr>" by simp
  then have "actor_line a' = actor_line a \<and> actor_fifo_inv a' = actor_fifo_inv a \<and>
      has_fifo_storage a' = has_fifo_storage a"
    using actor_line_pending [of a' a]
    by (simp add: pending_messages_def wait_for_transfer_messages)
  with inv have "same_lines a a'" by (simp add: same_lines_def)
  then show ?thesis by (rule lines_step_same) (simp add: EvTransferDone)
next
  case EvCleanupTick
  with run inv fresh show ?thesis
    by (auto intro!: lines_step_same intro: periodic_cleanup_same simp: event_fresh_def)
next
  case EvPollDeadline
  with run expire_same [OF inv, of e "now_at e 0"] show ?thesis
    by (intro lines_step_same) auto
qed

section \<open>Settled transfers\<close>

text \<open>An answer changes no line.\<close>

lemma receive_answers_line:
  "actor_line (receive_answers ans a) = actor_line a"
  "actor_fifo_inv (receive_answers ans a) = actor_fifo_inv a"
  "has_fifo_storage (receive_answers ans a) = has_fifo_storage a"
  using actor_line_pending [of "receive_answers ans a" a]
  by (simp_all add: pending_messages_def comp_def)

text \<open>The number of transfers of a group that the dead-letter queue has accepted.\<close>

definition accepted_of :: "pending_transfer list \<Rightarrow> string \<Rightarrow> nat" where
  "accepted_of ts g =
     length (filter (\<lambda>t. transfer_result t = Some (Inr ()) \<and> message_group (pt_message t) = g) ts)"

lemma settle_loop_line:
  "settle_loop ts (FifoStorage s, kept) = (st', kept') \<Longrightarrow>
     fifo_inv s (map pt_message kept @ map pt_message ts) \<Longrightarrow>
     \<exists>s'. st' = FifoStorage s' \<and> fifo_inv s' (map pt_message kept') \<and>
       (\<forall>g. fifo_line s' (map pt_message kept') g =
          drop (accepted_of ts g) (fifo_line s (map pt_message kept @ map pt_message ts) g))"
proof (induction ts arbitrary: s kept)
  case (Cons t ts)
  let ?m = "pt_message t" and ?A = "map pt_message kept" and ?R = "map pt_message ts"
  have inv: "fifo_inv s (?A @ ?m # ?R)" using Cons.prems(2) by simp
  consider (open_) "transfer_result t = None" | (failed) err where "transfer_result t = Some (Inl err)"
    | (done_) "transfer_result t = Some (Inr ())"
    by (cases "transfer_result t") (auto, metis old.sum.exhaust old.unit.exhaust)
  then show ?case
  proof cases
    case open_
    with Cons.prems have "settle_loop ts (FifoStorage s, kept @ [t]) = (st', kept')"
      "fifo_inv s (map pt_message (kept @ [t]) @ ?R)" by simp_all
    from Cons.IH [OF this] open_ show ?thesis by (simp add: accepted_of_def)
  next
    case failed
    let ?s = "finish_redrive (message_group ?m) (Some ?m) s"
    note restored = finish_redrive_restore_line [OF inv]
    have "settle_loop ts (FifoStorage ?s, kept) = (st', kept')"
      using Cons.prems(1) failed by (simp add: settle_storage_def)
    from Cons.IH [OF this restored(1)] restored(2) failed show ?thesis
      by (simp add: accepted_of_def)
  next
    case done_
    let ?s = "finish_redrive (message_group ?m) None s"
    note gone = finish_redrive_done_line [OF inv]
    have "settle_loop ts (FifoStorage ?s, kept) = (st', kept')"
      using Cons.prems(1) done_ by (simp add: settle_storage_def)
    from Cons.IH [OF this gone(1)] obtain s' where s': "st' = FifoStorage s'"
      "fifo_inv s' (map pt_message kept')"
      "\<And>g. fifo_line s' (map pt_message kept') g = drop (accepted_of ts g) (fifo_line ?s (?A @ ?R) g)"
      by blast
    have "fifo_line s' (map pt_message kept') g =
        drop (accepted_of (t # ts) g) (fifo_line s (?A @ map pt_message (t # ts)) g)" for g
    proof (cases "g = message_group ?m")
      case True
      with s'(3) gone(2) done_ show ?thesis by (simp add: accepted_of_def)
    next
      case False
      with s'(3) gone(3) [OF False] done_ show ?thesis by (simp add: accepted_of_def)
    qed
    with s'(1,2) show ?thesis by blast
  qed
qed (auto simp: accepted_of_def)

lemma settle_transfers_line:
  assumes "actor_fifo_inv a" "has_fifo_storage a"
  shows "actor_fifo_inv (settle_transfers a)" and "has_fifo_storage (settle_transfers a)"
    and "actor_line (settle_transfers a) g =
      drop (accepted_of (rm_pending (qa_redrive a)) g) (actor_line a g)"
proof -
  obtain s where st: "qa_storage a = FifoStorage s" using assms(2) by (auto simp: has_fifo_storage_def)
  obtain st' kept where l: "settle_loop (rm_pending (qa_redrive a)) (FifoStorage s, []) = (st', kept)"
    by fastforce
  have "fifo_inv s (map pt_message [] @ map pt_message (rm_pending (qa_redrive a)))"
    using assms(1) st by (simp add: actor_fifo_inv_def pending_messages_def)
  from settle_loop_line [OF l this] obtain s' where s': "st' = FifoStorage s'"
    "fifo_inv s' (map pt_message kept)"
    "\<forall>g. fifo_line s' (map pt_message kept) g = drop (accepted_of (rm_pending (qa_redrive a)) g)
       (fifo_line s (map pt_message (rm_pending (qa_redrive a))) g)" by auto
  then show "actor_fifo_inv (settle_transfers a)" "has_fifo_storage (settle_transfers a)"
    "actor_line (settle_transfers a) g =
      drop (accepted_of (rm_pending (qa_redrive a)) g) (actor_line a g)"
    using l st
    by (simp_all add: settle_transfers_def actor_fifo_inv_def has_fifo_storage_def actor_line_def
        pending_messages_def)
qed

end
