(* ===== verification/SQS_Runs.thy ===== *)
theory SQS_Runs
  imports SQS_Fifo_Order
begin

text \<open>
  Runs of a queue actor: the invariants and the accounts of the previous theories over whole runs
  of the event loop, and the life of a deduplication entry.
\<close>

section \<open>Turns\<close>

definition turn_head :: "queue_actor \<Rightarrow> queue_actor" where
  "turn_head a = fst (loop_head a)"

lemma turn_head_simps:
  "qa_storage (turn_head a) = qa_storage (settle_transfers a)"
  "qa_redrive (turn_head a) = qa_redrive (settle_transfers a)"
  "qa_attributes (turn_head a) = qa_attributes a"
  "qa_is_fifo (turn_head a) = qa_is_fifo a"
  "qa_account_id (turn_head a) = qa_account_id a"
  by (auto simp: turn_head_def loop_head_def Let_def settle_transfers_def split: prod.splits)

text \<open>The state in which the event of a turn is handled.\<close>

definition turn_start :: "turn \<Rightarrow> queue_actor \<Rightarrow> queue_actor" where
  "turn_start r a =
     (case r of (early, late, _) \<Rightarrow> receive_answers late (turn_head (receive_answers early a)))"

lemma actor_turn_Some:
  assumes "actor_turn lib r a = Some (a', out)" "r = (early, late, e, es, ev)"
  obtains out2 where "handle_event lib e es ev (turn_start r a) = Some (a', out2)"
  using assms by (auto simp: actor_turn_def turn_start_def turn_head_def split: prod.splits if_splits option.splits)

text \<open>A turn is admissible when its receipt handles are new; on a FIFO queue the sequence counter
  must not wrap.\<close>

definition turn_ok :: "sqs_libs \<Rightarrow> turn \<Rightarrow> queue_actor \<Rightarrow> bool" where
  "turn_ok lib r a =
     (case r of (early, late, e, es, ev) \<Rightarrow>
        event_fresh lib e es (turn_start r a) \<and> sequence_room (turn_start r a))"

fun turns_ok :: "sqs_libs \<Rightarrow> turn list \<Rightarrow> queue_actor \<Rightarrow> bool" where
  "turns_ok lib [] a = True"
| "turns_ok lib (r # rs) a =
     (turn_ok lib r a \<and>
      (case actor_turn lib r a of None \<Rightarrow> True | Some (a1, _) \<Rightarrow> turns_ok lib rs a1))"

text \<open>The loop as a state machine on the running actor.\<close>

definition turn_step :: "sqs_libs \<Rightarrow> queue_actor option \<Rightarrow> turn \<Rightarrow> queue_actor option" where
  "turn_step lib s r = Option.bind s (\<lambda>a. map_option fst (actor_turn lib r a))"

definition while_running :: "(queue_actor \<Rightarrow> bool) \<Rightarrow> queue_actor option \<Rightarrow> bool" where
  "while_running P s = (case s of None \<Rightarrow> True | Some a \<Rightarrow> P a)"

lemma run_actor_steps:
  "run_actor lib rs a = Some (a', out) \<Longrightarrow> run_ops (turn_step lib) (Some a) rs = Some a'"
  by (induction rs arbitrary: a out) (auto simp: turn_step_def split: option.splits)

lemma run_ops_ended: "run_ops (turn_step lib) None rs = None"
  by (induction rs) (simp_all add: turn_step_def)

lemma ended_ok: "ok_run (turn_step lib) (\<lambda>s r. while_running (turn_ok lib r) s) None rs"
  by (induction rs) (simp_all add: while_running_def turn_step_def)

lemma turns_ok_run:
  "turns_ok lib rs a \<Longrightarrow>
     ok_run (turn_step lib) (\<lambda>s r. while_running (turn_ok lib r) s) (Some a) rs"
proof (induction rs arbitrary: a)
  case (Cons r rs)
  have head: "while_running (turn_ok lib r) (Some a)"
    using Cons.prems by (simp add: while_running_def)
  show ?case
  proof (cases "actor_turn lib r a")
    case None
    then have "turn_step lib (Some a) r = None" by (simp add: turn_step_def)
    with head show ?thesis by (simp add: ended_ok)
  next
    case (Some x)
    then have "turn_step lib (Some a) r = Some (fst x)" by (simp add: turn_step_def)
    with head Cons Some show ?thesis by (cases x) simp
  qed
qed simp

definition fifo_actor_ok :: "queue_actor \<Rightarrow> bool" where
  "fifo_actor_ok a \<longleftrightarrow> actor_fifo_inv a \<and> has_fifo_storage a"

lemma turn_head_line:
  assumes "fifo_actor_ok a"
  shows "fifo_actor_ok (turn_head a)"
    and "actor_line (turn_head a) g = drop (accepted_of (rm_pending (qa_redrive a)) g) (actor_line a g)"
  using settle_transfers_line [of a] assms actor_line_cong [of "turn_head a" "settle_transfers a"]
  by (simp_all add: fifo_actor_ok_def turn_head_simps)

text \<open>The messages of a group that their dead-letter queue had accepted when the turn began.\<close>

definition turn_accepted :: "turn \<Rightarrow> queue_actor \<Rightarrow> string \<Rightarrow> nat" where
  "turn_accepted r a g = accepted_of (map (hear (fst r)) (rm_pending (qa_redrive a))) g"

lemma turn_start_line:
  assumes "fifo_actor_ok a"
  shows "fifo_actor_ok (turn_start r a)"
    and "actor_line (turn_start r a) g = drop (turn_accepted r a g) (actor_line a g)"
proof -
  obtain early late x where r: "r = (early, late, x)" by (cases r) auto
  have ok: "fifo_actor_ok (receive_answers early a)" using assms by (simp add: fifo_actor_ok_def receive_answers_line)
  show "fifo_actor_ok (turn_start r a)"
    using turn_head_line(1) [OF ok] by (simp add: turn_start_def r fifo_actor_ok_def receive_answers_line)
  show "actor_line (turn_start r a) g = drop (turn_accepted r a g) (actor_line a g)"
    using turn_head_line(2) [OF ok] by (simp add: turn_start_def turn_accepted_def r receive_answers_line)
qed

lemma fifo_turn:
  assumes "actor_turn lib r a = Some (a', out)" "r = (early, late, e, es, ev)" "fifo_actor_ok a" "turn_ok lib r a"
  shows "lines_step e ev (turn_start r a) a'"
proof -
  obtain out2 where run: "handle_event lib e es ev (turn_start r a) = Some (a', out2)"
    using assms(1,2) by (rule actor_turn_Some)
  show ?thesis
    using turn_start_line(1) [OF assms(3), of r] assms(2,4)
    by (intro handle_event_step [OF run]) (simp_all add: fifo_actor_ok_def turn_ok_def)
qed

interpretation fifo_run: invariant_machine "turn_step lib"
    "\<lambda>s r. while_running (turn_ok lib r) s" "while_running fifo_actor_ok"
  for lib
proof
  fix s r
  assume inv: "while_running fifo_actor_ok s" and ok: "while_running (turn_ok lib r) s"
  obtain early late e es ev where r: "r = (early, late, e, es, ev)" by (cases r)
  show "while_running fifo_actor_ok (turn_step lib s r)"
    using inv ok fifo_turn [OF _ r]
    by (fastforce simp: while_running_def turn_step_def lines_step_def fifo_actor_ok_def split: option.splits)
qed

lemma fifo_run_ok:
  assumes "run_actor lib rs a = Some (a', out)" "fifo_actor_ok a" "turns_ok lib rs a"
  shows "fifo_actor_ok a'"
  using fifo_run.inv_run [OF _ turns_ok_run [OF assms(3)]] run_actor_steps [OF assms(1)] assms(2)
  by (simp add: while_running_def)

lemma new_fifo_actor_ok: "fifo_actor_ok (queue_actor_new name arn True attrs tags account t)"
  by (simp add: fifo_actor_ok_def actor_fifo_inv_def has_fifo_storage_def queue_actor_new_def
      redrive_manager_default_def pending_messages_def fifo_default_line)

lemma fifo_line_sorted: "fifo_actor_ok a \<Longrightarrow> sorted_wrt (<) (map message_seq (actor_line a g))"
  by (auto simp: fifo_actor_ok_def has_fifo_storage_def actor_fifo_inv_def actor_line_def
      fifo_line_def dest!: fifo_inv_parts(3) simp: lines_ok_def)

section \<open>Accounts\<close>

lemma turn_head_held:
  assumes "actor_maps_wf a"
  shows "actor_held (turn_head a) = actor_held a" and "actor_maps_wf (turn_head a)"
  using settle_transfers_held [OF assms]
  by (simp_all add: actor_held_def actor_maps_wf_def turn_head_simps)

lemma turn_start_held:
  assumes "actor_maps_wf a"
  shows "actor_held (turn_start (early, late, x) a) + (handed_over early (rm_pending (qa_redrive a)) +
      handed_over late (rm_pending (qa_redrive (turn_head (receive_answers early a))))) = actor_held a"
    and "actor_maps_wf (turn_start (early, late, x) a)"
proof -
  let ?a = "receive_answers early a"
  have wf: "actor_maps_wf ?a" using assms by (simp add: receive_answers_held)
  note h = turn_head_held [OF wf]
  show "actor_maps_wf (turn_start (early, late, x) a)" using h(2) by (simp add: turn_start_def receive_answers_held)
  have "actor_held (turn_start (early, late, x) a) + handed_over late (rm_pending (qa_redrive (turn_head ?a))) = actor_held ?a"
    using h(1) receive_answers_held(1) [of late "turn_head ?a"] by (simp add: turn_start_def)
  then show "actor_held (turn_start (early, late, x) a) + (handed_over early (rm_pending (qa_redrive a)) +
      handed_over late (rm_pending (qa_redrive (turn_head ?a)))) = actor_held a"
    using receive_answers_held(1) [of early a] by (metis add.assoc add.commute)
qed

lemma new_actor_maps_wf: "actor_maps_wf (queue_actor_new name arn is_fifo attrs tags account t)"
  by (simp add: actor_maps_wf_def queue_actor_new_def fifo_default_def standard_default_def
      fifo_maps_wf_def standard_wf_def)

lemma new_actor_held: "actor_held (queue_actor_new name arn is_fifo attrs tags account t) = {#}"
  by (simp add: actor_held_def queue_actor_new_def fifo_default_def standard_default_def
      redrive_manager_default_def standard_held_def fifo_held_def in_flight_payloads_def
      group_payloads_def bt_values_def)

text \<open>What a run adds, removes, and hands over to dead-letter queues: the sums over its turns.\<close>

fun run_gain :: "sqs_libs \<Rightarrow> turn list \<Rightarrow> queue_actor \<Rightarrow> payload multiset" where
  "run_gain lib [] a = {#}"
| "run_gain lib ((early, late, e, es, ev) # rs) a =
     event_gain lib e ev (turn_start (early, late, e, es, ev) a) +
     (case actor_turn lib (early, late, e, es, ev) a of None \<Rightarrow> {#} | Some (a1, _) \<Rightarrow> run_gain lib rs a1)"

fun run_loss :: "sqs_libs \<Rightarrow> turn list \<Rightarrow> queue_actor \<Rightarrow> payload multiset" where
  "run_loss lib [] a = {#}"
| "run_loss lib ((early, late, e, es, ev) # rs) a =
     event_loss e ev (turn_start (early, late, e, es, ev) a) +
     (case actor_turn lib (early, late, e, es, ev) a of None \<Rightarrow> {#} | Some (a1, _) \<Rightarrow> run_loss lib rs a1)"

fun run_handed :: "sqs_libs \<Rightarrow> turn list \<Rightarrow> queue_actor \<Rightarrow> payload multiset" where
  "run_handed lib [] a = {#}"
| "run_handed lib ((early, late, e, es, ev) # rs) a =
     handed_over early (rm_pending (qa_redrive a)) +
     handed_over late (rm_pending (qa_redrive (turn_head (receive_answers early a)))) +
     (case actor_turn lib (early, late, e, es, ev) a of None \<Rightarrow> {#} | Some (a1, _) \<Rightarrow> run_handed lib rs a1)"

lemma run_account:
  "run_actor lib rs a = Some (a', out) \<Longrightarrow> actor_maps_wf a \<Longrightarrow> turns_ok lib rs a \<Longrightarrow>
     actor_held a' + run_loss lib rs a + run_handed lib rs a = actor_held a + run_gain lib rs a \<and> actor_maps_wf a'"
proof (induction rs arbitrary: a out)
  case (Cons r rs)
  obtain early late e es ev where r: "r = (early, late, e, es, ev)" by (cases r)
  obtain a1 out1 where t: "actor_turn lib r a = Some (a1, out1)"
    using Cons.prems(1) by (auto split: option.splits)
  obtain out2 where ev: "handle_event lib e es ev (turn_start r a) = Some (a1, out2)"
    using t r by (rule actor_turn_Some)
  have fresh: "event_fresh lib e es (turn_start r a)"
    using Cons.prems(3) r by (simp add: turn_ok_def)
  note h = turn_start_held [OF Cons.prems(2), of early late "(e, es, ev)", folded r]
  note event = handle_event_held [OF ev h(2) fresh]
  obtain out3 where "run_actor lib rs a1 = Some (a', out3)"
    using Cons.prems(1) t by (auto split: option.splits)
  from Cons.IH [OF this event(2)] Cons.prems(3) t have
    rest: "actor_held a' + run_loss lib rs a1 + run_handed lib rs a1 = actor_held a1 + run_gain lib rs a1"
    and wf: "actor_maps_wf a'" by simp_all
  let ?L = "event_loss e ev (turn_start r a)" and ?G = "event_gain lib e ev (turn_start r a)"
    and ?H = "handed_over early (rm_pending (qa_redrive a)) +
      handed_over late (rm_pending (qa_redrive (turn_head (receive_answers early a))))"
  have "actor_held a' + (?L + run_loss lib rs a1) + (?H + run_handed lib rs a1) =
      (actor_held a' + run_loss lib rs a1 + run_handed lib rs a1) + ?L + ?H"
    by (simp only: ac_simps)
  also have "\<dots> = (actor_held a1 + ?L) + ?H + run_gain lib rs a1"
    unfolding rest by (simp only: ac_simps)
  also have "\<dots> = (actor_held (turn_start r a) + ?H) + (?G + run_gain lib rs a1)"
    unfolding event(1) by (simp only: ac_simps)
  also have "\<dots> = actor_held a + (?G + run_gain lib rs a1)" unfolding h(1) ..
  finally show ?case using t r wf by simp
qed simp

section \<open>Deduplication entries\<close>

text \<open>An unexpired entry of the cache survives every event.\<close>

definition cached :: "dedup_key \<Rightarrow> queue_actor \<Rightarrow> dedup_cache_entry option" where
  "cached key a =
     (case qa_storage a of StandardStorage _ \<Rightarrow> None | FifoStorage s \<Rightarrow> fs_dedup_cache s key)"

lemma return_fifo_loop_cache: "fs_dedup_cache (return_fifo_loop hs s) = fs_dedup_cache s"
  by (induction hs s rule: return_fifo_loop.induct)
    (auto simp: return_to_group_def split: option.splits)

lemma fifo_receive_loop_cache:
  "fs_dedup_cache (fst (fifo_receive_loop n gs s result)) = fs_dedup_cache s"
  by (induction n gs s result rule: fifo_receive_loop.induct)
    (auto split: option.splits list.splits)

lemma finish_redrive_cache: "fs_dedup_cache (finish_redrive g r s) = fs_dedup_cache s"
  by (simp add: finish_redrive_def Let_def split: option.split)

lemma deliver_fifo_loop_cache:
  "deliver_fifo_loop lib e rq received i (s, mgr, result) = Some (s', mgr', result') \<Longrightarrow>
     fs_dedup_cache s' = fs_dedup_cache s"
proof (induction received arbitrary: i s mgr result)
  case (Cons r received)
  obtain m g where r: "r = (m, g)" by (cases r)
  show ?case
  proof (cases "redrive_target (rq_attributes rq) m")
    case (Some target)
    obtain mgr1 accepted where "handoff e mgr m target (rq_arn rq) = (mgr1, accepted)" by fastforce
    with Cons r Some show ?thesis
      by (cases accepted) (auto simp: finish_redrive_cache)
  next
    case None
    with Cons r show ?thesis
      by (auto simp: Let_def mark_in_flight_def split: option.splits)
  qed
qed simp

lemma try_receive_cache:
  "try_receive lib e n v attrs sys msg a = Some (a', messages) \<Longrightarrow> cached key a' = cached key a"
  by (auto simp: try_receive_def try_receive_fifo_def cached_def fifo_return_expired_inflight_def
      fifo_receive_def Let_def return_fifo_loop_cache dest!: deliver_fifo_loop_cache
      split: queue_storage.splits option.splits prod.splits)
    (metis fifo_receive_loop_cache fst_conv return_fifo_loop_cache)

lemma fulfill_loop_cache:
  "fulfill_loop lib es polls j (a, remaining, out) = Some (a', remaining', out') \<Longrightarrow>
     cached key a' = cached key a"
proof (induction polls arbitrary: j a remaining out)
  case (Cons poll polls)
  then show ?case
    by (auto dest!: try_receive_cache [of _ _ _ _ _ _ _ _ _ _ key] split: if_splits option.splits)
qed simp

lemma fulfill_if_cache:
  "fulfill_if c lib es a = Some (a', out) \<Longrightarrow> cached key a' = cached key a"
  by (auto simp: fulfill_if_def fulfill_pending_long_polls_def cached_def
      dest!: fulfill_loop_cache [of _ _ _ _ _ _ _ _ _ _ key] split: if_splits option.splits)

lemma enqueue_cache:
  assumes "enqueue now now' m key' s = Some (s', res)" "fs_dedup_cache s key = Some entry"
    and "now < de_expiry entry"
  shows "fs_dedup_cache s' key = Some entry"
  using assms by (auto elim!: enqueue_cases simp: dedup_hit_def)

lemma handle_command_cache:
  assumes run: "handle_command lib e gone cmd a = Some (a', out, fulfill)"
    and hit: "cached key a = Some entry" and early: "\<And>i. now_at e i < de_expiry entry"
  shows "cached key a' = Some entry"
proof -
  obtain s where st: "qa_storage a = FifoStorage s" and c: "fs_dedup_cache s key = Some entry"
    using hit by (auto simp: cached_def split: queue_storage.splits)
  show ?thesis
  proof (cases cmd)
    case (CmdTransfer m source_arn ticket)
    with run st c early show ?thesis
      by (auto simp: cached_def accept_transfer_def Let_def dest: enqueue_cache
          split: if_splits option.splits sum.splits)
  next
    case (CmdSendMessage input client)
    with run st c early show ?thesis
      by (auto simp: cached_def handle_send_message_def handle_send_message_fifo_def
          handle_send_message_standard_def Let_def dest: enqueue_cache
          split: if_splits option.splits)
  next
    case (CmdReceiveMessage input client)
    with run hit show ?thesis
      by (auto simp: handle_receive_message_def Let_def cached_def
          dest!: try_receive_cache [of _ _ _ _ _ _ _ _ _ _ key]
          split: option.splits if_splits)
  next
    case (CmdDeleteMessage h client)
    with run st c show ?thesis
      by (auto simp: cached_def handle_delete_message_def fifo_delete_message_def
          split: option.splits)
  next
    case (CmdChangeVisibility h v client)
    with run st c show ?thesis
      by (auto simp: cached_def handle_change_visibility_def fifo_change_visibility_def
          return_to_group_def split: option.splits if_splits prod.splits)
  next
    case (CmdPurge client)
    with run st c show ?thesis
      by (auto simp: cached_def handle_purge_def fifo_purge_def split: if_splits)
  qed (use run st c in \<open>auto simp: cached_def split: prod.splits\<close>)
qed

lemma handle_event_cache:
  assumes run: "handle_event lib e es ev a = Some (a', out)"
    and hit: "cached key a = Some entry" and early: "\<And>i. now_at e i < de_expiry entry"
  shows "cached key a' = Some entry"
proof (cases ev)
  case (EvCommand cmd gone)
  from run [unfolded EvCommand] show ?thesis
  proof (cases rule: handle_event_command)
    case shutdown
    with hit show ?thesis by (simp add: cached_def stop_actor_def)
  next
    case (other a1 out1 fulfill out2)
    from handle_command_cache [OF other(1) hit early] fulfill_if_cache [OF other(2), of key]
    show ?thesis by simp
  qed
next
  case EvCleanupTick
  obtain s where st: "qa_storage a = FifoStorage s" and c: "fs_dedup_cache s key = Some entry"
    using hit by (auto simp: cached_def split: queue_storage.splits)
  let ?r = "fifo_return_expired_inflight (hash_order e) (now_at e 0) s"
  let ?a = "a\<lparr>qa_storage := FifoStorage (clean_dedup_cache (now_at e 1) (fst ?r))\<rparr>"
  have "cached key ?a = Some entry"
    using c early by (simp add: cached_def clean_dedup_cache_def fifo_return_expired_inflight_def
        Let_def return_fifo_loop_cache)
  moreover obtain a1 out1 where f: "fulfill_if (snd ?r) lib es ?a = Some (a1, out1)"
    and a': "a' = fst (expire_long_polls e (now_at e 2) a1)"
    using run st EvCleanupTick
    by (auto simp: periodic_cleanup_def Let_def split_beta split: option.splits)
  ultimately show ?thesis
    using fulfill_if_cache [OF f, of key]
    by (simp add: a' cached_def expire_long_polls_def split_beta)
qed (use run hit in \<open>auto simp: cached_def stop_actor_def expire_long_polls_def split_beta\<close>)

lemma settle_loop_cache:
  "settle_loop ts (FifoStorage s, kept) = (st', kept') \<Longrightarrow>
     \<exists>s'. st' = FifoStorage s' \<and> fs_dedup_cache s' = fs_dedup_cache s"
proof (induction ts arbitrary: s kept)
  case (Cons t ts)
  show ?case
  proof (cases "transfer_result t")
    case None
    with Cons show ?thesis by simp
  next
    case (Some r)
    with Cons.prems Cons.IH [of "finish_redrive (message_group (pt_message t))
        (case r of Inl _ \<Rightarrow> Some (pt_message t) | Inr _ \<Rightarrow> None) s" kept]
    show ?thesis by (simp add: settle_storage_def finish_redrive_cache)
  qed
qed auto

lemma turn_head_cache:
  assumes "cached key a = Some entry"
  shows "cached key (turn_head a) = Some entry"
proof -
  obtain s where st: "qa_storage a = FifoStorage s" and c: "fs_dedup_cache s key = Some entry"
    using assms by (auto simp: cached_def split: queue_storage.splits)
  obtain st' kept where l: "settle_loop (rm_pending (qa_redrive a)) (FifoStorage s, []) = (st', kept)"
    by fastforce
  from settle_loop_cache [OF l] c show ?thesis
    by (auto simp: cached_def turn_head_simps settle_transfers_def st l)
qed

lemma turn_start_cache: "cached key a = Some entry \<Longrightarrow> cached key (turn_start r a) = Some entry"
  using turn_head_cache [of key "receive_answers (fst r) a" entry]
  by (cases r) (simp add: turn_start_def cached_def)

lemma run_cache:
  "run_actor lib rs a = Some (a', out) \<Longrightarrow> cached key a = Some entry \<Longrightarrow>
     (\<And>early late e es ev i. (early, late, e, es, ev) \<in> set rs \<Longrightarrow> now_at e i < de_expiry entry) \<Longrightarrow>
     cached key a' = Some entry"
proof (induction rs arbitrary: a out)
  case (Cons r rs)
  obtain early late e es ev where r: "r = (early, late, e, es, ev)" by (cases r)
  obtain a1 out1 where t: "actor_turn lib r a = Some (a1, out1)"
    using Cons.prems(1) by (auto split: option.splits)
  obtain out2 where ev: "handle_event lib e es ev (turn_start r a) = Some (a1, out2)"
    using t r by (rule actor_turn_Some)
  have "cached key a1 = Some entry"
    using Cons.prems(3) [of early late e es ev] r by (intro handle_event_cache [OF ev turn_start_cache [OF Cons.prems(2)]]) auto
  moreover obtain out3 where "run_actor lib rs a1 = Some (a', out3)"
    using Cons.prems(1) t by (auto split: option.splits)
  moreover have "now_at e i < de_expiry entry" if "(early, late, e, es, ev) \<in> set rs" for early late e es ev i
    using Cons.prems(3) [of early late e es ev] that by simp
  ultimately show ?case using Cons.IH [of a1 out3] by blast
qed simp

lemma accepted_send_cached:
  assumes run: "handle_send_message lib e input a = Some (a', Inr (out, True))" and fifo: "qa_is_fifo a"
    and g: "smi_message_group_id input = Some g" and d: "dedup_id lib (qa_attributes a) input = Some d"
  obtains entry where "cached (effective_dedup_key (qa_attributes a) g d) a' = Some entry"
    "de_expiry entry = now_at e 2 + dedup_window_secs * nanos_per_sec"
    "smo_message_id out = Some (de_message_id entry)"
    "smo_sequence_number out = Some (de_sequence_number entry)"
proof -
  let ?key = "effective_dedup_key (qa_attributes a) g d"
  from run fifo g d obtain s m s' res where
    enq: "enqueue (now_at e 1) (now_at e 2) m ?key s = Some (s', res)"
    and a': "a' = a\<lparr>qa_storage := FifoStorage s'\<rparr>"
    and res: "(case res of Enqueued mid seq \<Rightarrow> smo_message_id out = Some mid \<and> smo_sequence_number out = Some seq
                | Deduplicated _ _ \<Rightarrow> False)"
    by (auto simp: handle_send_message_def handle_send_message_fifo_def Let_def
        split: if_splits option.splits queue_storage.splits enqueue_result.splits)
  from enq show ?thesis
  proof (cases rule: enqueue_cases)
    case (dup entry)
    with res show ?thesis by simp
  next
    case (new expiry)
    then have "expiry = now_at e 2 + dedup_window_secs * nanos_per_sec"
      by (auto simp: instant_add_def split: if_splits)
    with new res show ?thesis
      by (intro that [of "\<lparr>de_expiry = expiry, de_message_id = qm_message_id m,
          de_sequence_number = seq_string (fs_next_sequence s)\<rparr>"]) (auto simp: cached_def a')
  qed
qed

lemma duplicate_send:
  assumes fifo: "qa_is_fifo a"
    and hit: "cached (effective_dedup_key (qa_attributes a) g d) a = Some entry"
    and early: "now_at e 1 < de_expiry entry"
    and g: "smi_message_group_id input = Some g" and d: "dedup_id lib (qa_attributes a) input = Some d"
    and valid: "smi_message_body input \<noteq> []"
      "length (smi_message_body input) \<le> i32_as_u64 (at_maximum_message_size (qa_attributes a))"
      "length (smi_message_attributes input) \<le> 10" "smi_delay_seconds input = None"
  shows "\<exists>out. handle_send_message lib e input a = Some (a, Inr (out, False)) \<and>
    smo_message_id out = Some (de_message_id entry) \<and>
    smo_sequence_number out = Some (de_sequence_number entry)"
proof -
  obtain s where st: "qa_storage a = FifoStorage s"
    and c: "fs_dedup_cache s (effective_dedup_key (qa_attributes a) g d) = Some entry"
    using hit by (auto simp: cached_def split: queue_storage.splits)
  then have "enqueue (now_at e 1) (now_at e 2) m (effective_dedup_key (qa_attributes a) g d) s =
      Some (s, Deduplicated (de_message_id entry) (de_sequence_number entry))" for m
    using early by (simp add: enqueue_def dedup_hit_def)
  moreover have "a\<lparr>qa_storage := FifoStorage s\<rparr> = a" by (simp add: st [symmetric])
  ultimately show ?thesis
    using fifo g d valid st
    by (simp add: handle_send_message_def handle_send_message_fifo_def Let_def)
qed

lemma accepted_transfer_cached:
  assumes run: "accept_transfer lib e m source_arn a = Some (a', Inr ())"
    and fifo: "qa_storage a = FifoStorage s"
    and first: "dedup_hit (now_at e 1) (DedupRedrive source_arn (qm_message_id m)) s = None"
  obtains entry where "cached (DedupRedrive source_arn (qm_message_id m)) a' = Some entry"
    "de_expiry entry = now_at e 2 + dedup_window_secs * nanos_per_sec"
proof -
  obtain m' s' res where
    enq: "enqueue (now_at e 1) (now_at e 2) m' (DedupRedrive source_arn (qm_message_id m)) s =
      Some (s', res)"
    and a': "a' = a\<lparr>qa_storage := FifoStorage s'\<rparr>"
    using run fifo
    by (auto simp: accept_transfer_def redriven_message_def Let_def split: sum.splits option.splits)
  from enq show ?thesis
  proof (cases rule: enqueue_cases)
    case (dup entry)
    with first show ?thesis by simp
  next
    case (new expiry)
    then have "expiry = now_at e 2 + dedup_window_secs * nanos_per_sec"
      by (auto simp: instant_add_def split: if_splits)
    with new show ?thesis by (intro that) (auto simp: cached_def a')
  qed
qed

lemma duplicate_transfer:
  assumes hit: "cached (DedupRedrive source_arn (qm_message_id m)) a = Some entry"
    and early: "now_at e 1 < de_expiry entry"
    and ok: "transfer_check lib a m source_arn = Inr ()"
  shows "accept_transfer lib e m source_arn a = Some (a, Inr ())"
proof -
  obtain s where st: "qa_storage a = FifoStorage s"
    and c: "fs_dedup_cache s (DedupRedrive source_arn (qm_message_id m)) = Some entry"
    using hit by (auto simp: cached_def split: queue_storage.splits)
  then have "enqueue (now_at e 1) (now_at e 2) m' (DedupRedrive source_arn (qm_message_id m)) s =
      Some (s, Deduplicated (de_message_id entry) (de_sequence_number entry))" for m'
    using early by (simp add: enqueue_def dedup_hit_def)
  moreover have "a\<lparr>qa_storage := FifoStorage s\<rparr> = a" by (simp add: st [symmetric])
  ultimately show ?thesis
    using ok st by (simp add: accept_transfer_def redriven_message_def Let_def)
qed

end
