(* ===== verification/SQS_Panics.thy ===== *)
theory SQS_Panics
  imports SQS_Runs
begin

text \<open>
  When the task of a queue panics. The only partial operation of the actor is the addition of a
  duration to an instant; the lemmas show that with clock readings far from the end of time and
  non-negative durations every event is handled, and that a negative visibility timeout, which no
  layer rejects, is not.
\<close>

definition i32 :: "int \<Rightarrow> bool" where
  "i32 x \<longleftrightarrow> - (2 ^ 31) \<le> x \<and> x < 2 ^ 31"

definition sane_clock :: "sqs_env \<Rightarrow> bool" where
  "sane_clock e \<longleftrightarrow> (\<forall>i. now_at e i div nanos_per_sec < 2 ^ 62)"

lemma instant_add_total:
  assumes "sane_clock e" "0 \<le> x" "i32 x"
  shows "\<exists>t. instant_add (now_at e i) (i32_as_u64 x) = Some t"
proof -
  have "now_at e i div nanos_per_sec < 2 ^ 62" using assms(1) by (simp add: sane_clock_def)
  moreover have "i32_as_u64 x = nat x" "nat x < 2 ^ 31"
    using assms(2,3) by (simp_all add: i32_def i32_as_u64_nonneg)
  ultimately have "now_at e i div nanos_per_sec + i32_as_u64 x < 2 ^ 63" by simp
  then show ?thesis by (simp add: instant_add_def)
qed

lemma instant_add_window: "sane_clock e \<Longrightarrow> \<exists>t. instant_add (now_at e i) dedup_window_secs = Some t"
proof -
  assume "sane_clock e"
  then have "now_at e i div nanos_per_sec < 2 ^ 62" by (simp add: sane_clock_def)
  then have "now_at e i div nanos_per_sec + dedup_window_secs < 2 ^ 63"
    by (simp add: dedup_window_secs_def)
  then show ?thesis by (simp add: instant_add_def)
qed

lemma receive_standard_loop_total:
  assumes "\<And>i. \<exists>t. instant_add (now_at e i) (rq_vis_timeout rq) = Some t"
  shows "\<exists>r. receive_standard_loop lib e rq budget i acc = Some r"
proof (induction budget arbitrary: i acc)
  case (Suc budget)
  obtain s mgr result where acc: "acc = (s, mgr, result)" by (cases acc)
  obtain t where "instant_add (now_at e i) (rq_vis_timeout rq) = Some t" using assms by blast
  with Suc acc show ?case
    by (simp add: Let_def split: list.split option.split prod.split)
qed auto

lemma deliver_fifo_loop_total:
  assumes "\<And>i. \<exists>t. instant_add (now_at e i) (rq_vis_timeout rq) = Some t"
  shows "\<exists>r. deliver_fifo_loop lib e rq received i acc = Some r"
proof (induction received arbitrary: i acc)
  case (Cons r received)
  obtain m g s mgr result where "r = (m, g)" "acc = (s, mgr, result)" by (cases r; cases acc)
  moreover obtain t where "instant_add (now_at e i) (rq_vis_timeout rq) = Some t"
    using assms by blast
  ultimately show ?case using Cons
    by (simp add: Let_def split: option.split prod.split)
qed auto

lemma try_receive_total:
  assumes "sane_clock e" "0 \<le> v" "i32 v"
  shows "\<exists>a' messages. try_receive lib e n v attrs sys msg a = Some (a', messages)"
proof -
  let ?rq = "\<lparr>rq_max = i32_as_u64 n, rq_vis_timeout = i32_as_u64 v,
    rq_sys_attrs = merge_attribute_names attrs sys, rq_msg_attrs = msg,
    rq_attributes = qa_attributes a, rq_arn = qa_arn a\<rparr>"
  have t: "\<exists>t. instant_add (now_at e i) (rq_vis_timeout ?rq) = Some t" for i
    using instant_add_total [OF assms] by simp
  show ?thesis
  proof (cases "qa_storage a")
    case (StandardStorage s)
    let ?s = "fst (promote_delayed (now_at e 1)
      (fst (standard_return_expired_inflight (hash_order e) (now_at e 0) s)))"
    obtain s3 mgr messages where
      "try_receive_standard lib e ?rq ?s (qa_redrive a) = Some (s3, mgr, messages)"
      unfolding try_receive_standard_def
      using receive_standard_loop_total [OF t] by (metis prod.collapse)
    with StandardStorage show ?thesis by (simp add: try_receive_def Let_def)
  next
    case (FifoStorage s)
    let ?s = "fst (fifo_return_expired_inflight (hash_order e) (now_at e 0) s)"
    obtain s1 received where "fifo_receive (rq_max ?rq) ?s = (s1, received)" by fastforce
    moreover obtain s3 mgr messages where
      "deliver_fifo_loop lib e ?rq received 2 (s1, qa_redrive a, []) = Some (s3, mgr, messages)"
      using deliver_fifo_loop_total [OF t] by (metis prod.collapse)
    ultimately show ?thesis
      using FifoStorage by (simp add: try_receive_def try_receive_fifo_def Let_def)
  qed
qed

text \<open>The long polls of a queue, and an event, ask for non-negative visibility timeouts.\<close>

definition polls_visible :: "queue_actor \<Rightarrow> bool" where
  "polls_visible a \<longleftrightarrow>
     (\<forall>p\<in>set (qa_pending_long_polls a). 0 \<le> lp_visibility_timeout p \<and> i32 (lp_visibility_timeout p))"

fun event_visible :: "queue_event \<Rightarrow> bool" where
  "event_visible (EvCommand (CmdReceiveMessage input client) gone) =
     ((case rmi_visibility_timeout input of None \<Rightarrow> True | Some v \<Rightarrow> 0 \<le> v \<and> i32 v) \<and>
      (case rmi_wait_time_seconds input of None \<Rightarrow> True | Some w \<Rightarrow> i32 w))"
| "event_visible (EvCommand (CmdChangeVisibility h v client) gone) = (0 \<le> v \<and> i32 v)"
| "event_visible (EvCommand (CmdSendMessage input client) gone) =
     (case smi_delay_seconds input of None \<Rightarrow> True | Some d \<Rightarrow> i32 d)"
| "event_visible ev = True"

lemma fulfill_loop_total:
  assumes "\<And>j. sane_clock (es j)"
  shows "\<forall>p\<in>set polls. 0 \<le> lp_visibility_timeout p \<and> i32 (lp_visibility_timeout p) \<Longrightarrow>
    \<exists>r. fulfill_loop lib es polls j acc = Some r"
proof (induction polls arbitrary: j acc)
  case (Cons p polls)
  obtain a remaining out where acc: "acc = (a, remaining, out)" by (cases acc)
  obtain a1 messages where "try_receive lib (es j) (lp_max_messages p) (lp_visibility_timeout p)
      (lp_attribute_names p) [] (lp_message_attribute_names p) a = Some (a1, messages)"
    using try_receive_total [OF assms] Cons.prems by (metis list.set_intros(1))
  with Cons acc show ?case by simp
qed auto

lemma fulfill_if_total:
  assumes "\<And>j. sane_clock (es j)" "polls_visible a"
  shows "\<exists>a' out. fulfill_if c lib es a = Some (a', out)"
proof -
  obtain r where "fulfill_loop lib es (qa_pending_long_polls a) 0
      (a\<lparr>qa_pending_long_polls := []\<rparr>, [], []) = Some r"
    using fulfill_loop_total [where es = es, OF assms(1), of "qa_pending_long_polls a"] assms(2)
    unfolding polls_visible_def by blast
  then show ?thesis
    by (cases r) (auto simp: fulfill_if_def fulfill_pending_long_polls_def)
qed

lemma enqueue_total: "sane_clock e \<Longrightarrow> \<exists>s' res. enqueue now (now_at e i) m key s = Some (s', res)"
  using instant_add_window [of e i] by (auto simp: enqueue_def Let_def split: option.split)

lemma handle_send_message_total:
  assumes "sane_clock e" "attributes_in_range (qa_attributes a)"
    "case smi_delay_seconds input of None \<Rightarrow> True | Some d \<Rightarrow> i32 d"
  shows "\<exists>a' r. handle_send_message lib e input a = Some (a', r) \<and>
    qa_pending_long_polls a' = qa_pending_long_polls a"
proof -
  have enq: "\<exists>s' res. enqueue (now_at e 1) (now_at e 2) m key s = Some (s', res)" for m key s
    by (rule enqueue_total [OF assms(1)])
  let ?d = "unwrap_or (at_delay_seconds (qa_attributes a)) (smi_delay_seconds input)"
  have "i32 ?d" using assms(2,3)
    by (cases "smi_delay_seconds input") (auto simp: attributes_in_range_def i32_def)
  then have delay: "0 < ?d \<Longrightarrow> \<exists>t. instant_add (now_at e 0) (i32_as_u64 ?d) = Some t"
    using instant_add_total [OF assms(1)] by simp
  show ?thesis
    using delay enq
    by (auto simp: handle_send_message_def handle_send_message_standard_def
        handle_send_message_fifo_def Let_def split: queue_storage.split option.split)
      (metis enq option.distinct(1))+
qed

lemma accept_transfer_total:
  assumes "sane_clock e"
  shows "\<exists>a' r. accept_transfer lib e m source_arn a = Some (a', r) \<and>
    qa_pending_long_polls a' = qa_pending_long_polls a"
proof -
  have enq: "\<exists>s' res. enqueue (now_at e 1) (now_at e 2) m key s = Some (s', res)" for m key s
    by (rule enqueue_total [OF assms])
  show ?thesis
    using enq
    by (auto simp: accept_transfer_def Let_def split: queue_storage.split option.split sum.split)
      (metis One_nat_def enq option.distinct(1))
qed

lemma handle_change_visibility_total:
  assumes "sane_clock e" "0 \<le> v" "i32 v"
  shows "\<exists>a' r. handle_change_visibility e h v a = Some (a', r) \<and>
    qa_pending_long_polls a' = qa_pending_long_polls a"
proof -
  obtain t where "instant_add (now_at e 0) (i32_as_u64 v) = Some t"
    using instant_add_total [OF assms] by blast
  then show ?thesis
    by (auto simp: handle_change_visibility_def split: queue_storage.split option.split prod.split)
qed

lemma handle_receive_message_total:
  assumes "sane_clock e" "attributes_in_range (qa_attributes a)"
    "event_visible (EvCommand (CmdReceiveMessage input client) gone)"
  shows "\<exists>a' out. handle_receive_message lib e input client a = Some (a', out)"
proof -
  let ?v = "unwrap_or (at_visibility_timeout (qa_attributes a)) (rmi_visibility_timeout input)"
  let ?w = "unwrap_or (at_receive_message_wait_time_seconds (qa_attributes a))
              (rmi_wait_time_seconds input)"
  have v: "0 \<le> ?v" "i32 ?v"
    using assms(2,3) by (cases "rmi_visibility_timeout input";
        auto simp: attributes_in_range_def i32_def)+
  have w: "i32 ?w"
    using assms(2,3) by (cases "rmi_wait_time_seconds input")
      (auto simp: attributes_in_range_def i32_def)
  have t: "0 \<le> ?w \<Longrightarrow> \<exists>t. instant_add (now_at e 2) (i32_as_u64 ?w) = Some t"
    using instant_add_total [OF assms(1) _ w] by simp
  obtain a1 messages where "try_receive lib e
      (max 1 (min 10 (unwrap_or 1 (rmi_max_number_of_messages input)))) ?v
      (rmi_attribute_names input) (rmi_message_system_attribute_names input)
      (rmi_message_attribute_names input) a = Some (a1, messages)"
    using try_receive_total [OF assms(1) v] by blast
  with t show ?thesis
    by (auto simp: handle_receive_message_def Let_def)
qed

lemma handle_command_total:
  assumes "sane_clock e" "attributes_in_range (qa_attributes a)" "event_visible (EvCommand cmd gone)"
    "polls_visible a"
  shows "\<exists>a' out fulfill. handle_command lib e gone cmd a = Some (a', out, fulfill) \<and>
    (fulfill \<longrightarrow> polls_visible a')"
proof (cases cmd)
  case (CmdTransfer m source_arn ticket)
  with accept_transfer_total [OF assms(1), of lib m source_arn a] assms(4)
  show ?thesis by (auto simp: polls_visible_def)
next
  case (CmdSendMessage input client)
  with handle_send_message_total [OF assms(1,2), of input lib] assms(3,4)
  show ?thesis by (auto simp: polls_visible_def)
next
  case (CmdReceiveMessage input client)
  with handle_receive_message_total [OF assms(1,2), of input client gone lib] assms(3)
  show ?thesis by auto
next
  case (CmdDeleteMessage h client)
  obtain a1 freed where d: "handle_delete_message h a = (a1, freed)" by fastforce
  then have "qa_pending_long_polls a1 = qa_pending_long_polls a"
    by (auto simp: handle_delete_message_def split: queue_storage.splits prod.splits)
  with d CmdDeleteMessage assms(4) show ?thesis by (simp add: polls_visible_def)
next
  case (CmdChangeVisibility h v client)
  with handle_change_visibility_total [OF assms(1), of v h a] assms(3,4)
  show ?thesis by (auto simp: polls_visible_def)
qed (use assms in \<open>auto split: prod.split\<close>)

lemma handle_event_total:
  assumes "sane_clock e" "\<And>j. sane_clock (es j)" "attributes_in_range (qa_attributes a)"
    "event_visible ev" "polls_visible a"
  shows "\<exists>a' out. handle_event lib e es ev a = Some (a', out)"
proof (cases ev)
  case (EvCommand cmd gone)
  show ?thesis
  proof (cases "cmd = CmdShutdown")
    case False
    then have unfold: "handle_event lib e es (EvCommand cmd gone) a =
       (case handle_command lib e gone cmd a of
          None \<Rightarrow> None
        | Some (a1, out, should_fulfill) \<Rightarrow>
            map_option (\<lambda>(a2, out2). (a2, out @ out2)) (fulfill_if should_fulfill lib es a1))"
      by (cases cmd) simp_all
    obtain a1 out1 f where c: "handle_command lib e gone cmd a = Some (a1, out1, f)"
      and p: "f \<Longrightarrow> polls_visible a1"
      using handle_command_total [OF assms(1,3) _ assms(5), of cmd gone lib] assms(4) EvCommand
      by blast
    have "\<exists>a2 out2. fulfill_if f lib es a1 = Some (a2, out2)"
    proof (cases f)
      case True
      with fulfill_if_total [where es = es, OF assms(2) p] show ?thesis by blast
    qed (simp add: fulfill_if_def)
    with c EvCommand unfold show ?thesis by auto
  qed (simp add: EvCommand)
next
  case EvCleanupTick
  have "polls_visible (a\<lparr>qa_storage := st\<rparr>)" for st
    using assms(5) by (simp add: polls_visible_def)
  then have "\<exists>a' out. fulfill_if c lib es (a\<lparr>qa_storage := st\<rparr>) = Some (a', out)" for c st
    using fulfill_if_total [where es = es, OF assms(2)] by blast
  then have "\<exists>r. fulfill_if c lib es (a\<lparr>qa_storage := st\<rparr>) = Some r" for c st by blast
  then show ?thesis
    unfolding EvCleanupTick handle_event.simps periodic_cleanup_def Let_def
    by (simp split: prod.split queue_storage.split option.split) (metis not_None_eq)
qed auto

section \<open>What no event changes\<close>

text \<open>The invariant under which no event panics.\<close>

definition actor_sane :: "queue_actor \<Rightarrow> bool" where
  "actor_sane a \<longleftrightarrow> attributes_in_range (qa_attributes a) \<and> fifo_settings_ok (qa_is_fifo a) (qa_attributes a) \<and>
     polls_visible a"

text \<open>The events that keep the attributes and add no long poll.\<close>

definition same_settings :: "queue_actor \<Rightarrow> queue_actor \<Rightarrow> bool" where
  "same_settings a a' \<longleftrightarrow> qa_attributes a' = qa_attributes a \<and> qa_is_fifo a' = qa_is_fifo a \<and>
     set (qa_pending_long_polls a') \<subseteq> set (qa_pending_long_polls a)"

lemma same_settings_sane: "same_settings a a' \<Longrightarrow> actor_sane a \<Longrightarrow> actor_sane a'"
  by (auto simp: same_settings_def actor_sane_def polls_visible_def)

lemma same_settings_trans: "same_settings a b \<Longrightarrow> same_settings b c \<Longrightarrow> same_settings a c"
  by (auto simp: same_settings_def)

lemma try_receive_settings:
  "try_receive lib e n v attrs sys msg a = Some (a', messages) \<Longrightarrow>
     qa_attributes a' = qa_attributes a \<and> qa_is_fifo a' = qa_is_fifo a \<and>
     qa_pending_long_polls a' = qa_pending_long_polls a"
  by (auto simp: try_receive_def Let_def split: queue_storage.splits option.splits)

lemma fulfill_loop_settings:
  "fulfill_loop lib es polls j (a, remaining, out) = Some (a', remaining', out') \<Longrightarrow>
     qa_attributes a' = qa_attributes a \<and> qa_is_fifo a' = qa_is_fifo a \<and>
     set remaining' \<subseteq> set remaining \<union> set polls"
proof (induction polls arbitrary: j a remaining out)
  case (Cons p polls)
  show ?case
  proof (cases "reply_closed (es j) (lp_client p)")
    case True
    with Cons show ?thesis by fastforce
  next
    case False
    with Cons.prems obtain a1 messages where r: "try_receive lib (es j) (lp_max_messages p)
        (lp_visibility_timeout p) (lp_attribute_names p) [] (lp_message_attribute_names p) a =
          Some (a1, messages)"
      by (auto split: option.splits)
    show ?thesis
    proof (cases "messages = []")
      case True
      with Cons.prems False r Cons.IH [of "Suc j" a1 "remaining @ [p]" out]
      show ?thesis using try_receive_settings [OF r] by auto
    next
      case nonempty: False
      with Cons.prems False r Cons.IH [of "Suc j" a1 remaining]
      show ?thesis using try_receive_settings [OF r] by auto
    qed
  qed
qed simp

lemma fulfill_if_settings: "fulfill_if c lib es a = Some (a', out) \<Longrightarrow> same_settings a a'"
  using fulfill_loop_settings [of lib es "qa_pending_long_polls a" 0 "a\<lparr>qa_pending_long_polls := []\<rparr>"
      "[]" "[]"]
  by (fastforce simp: fulfill_if_def fulfill_pending_long_polls_def same_settings_def
      split: if_splits option.splits prod.splits)

lemma expire_loop_subset: "set (fst (expire_loop e now polls)) \<subseteq> set polls"
  by (induction polls) (auto simp: Let_def split: prod.splits)

lemma expire_settings: "same_settings a (fst (expire_long_polls e now a))"
  using expire_loop_subset [of e now "qa_pending_long_polls a"]
  by (auto simp: expire_long_polls_def same_settings_def split: prod.splits)

lemma periodic_cleanup_settings:
  assumes "periodic_cleanup lib e es a = Some (a', out)"
  shows "same_settings a a'"
proof -
  obtain st c a1 out1 where f: "fulfill_if c lib es (a\<lparr>qa_storage := st\<rparr>) = Some (a1, out1)"
    and a': "a' = fst (expire_long_polls e (now_at e 2) a1)"
    using assms by (auto simp: periodic_cleanup_def Let_def split: prod.splits option.splits)
  have "same_settings a (a\<lparr>qa_storage := st\<rparr>)" by (simp add: same_settings_def)
  from same_settings_trans [OF this same_settings_trans [OF fulfill_if_settings [OF f]
        expire_settings]]
  show ?thesis unfolding a' .
qed

lemma handle_receive_message_sane:
  assumes r: "handle_receive_message lib e input client a = Some (a', out)"
    and v: "event_visible (EvCommand (CmdReceiveMessage input client) gone)" and ok: "actor_sane a"
  shows "actor_sane a'"
proof -
  let ?v = "unwrap_or (at_visibility_timeout (qa_attributes a)) (rmi_visibility_timeout input)"
  have "0 \<le> ?v" "i32 ?v"
    using v ok by (cases "rmi_visibility_timeout input";
        auto simp: actor_sane_def attributes_in_range_def i32_def)+
  with r ok show ?thesis
    by (auto simp: handle_receive_message_def Let_def actor_sane_def polls_visible_def
        split: option.splits if_splits dest!: try_receive_settings)
qed

lemma handle_command_sane:
  assumes "handle_command lib e gone cmd a = Some (a', out, f)"
    and "event_visible (EvCommand cmd gone)" and ok: "actor_sane a"
  shows "actor_sane a'"
proof (cases cmd)
  case (CmdReceiveMessage input client)
  with assms handle_receive_message_sane [of lib e input client a] show ?thesis by fastforce
next
  case (CmdSetAttributes kvs client)
  with assms(1) ok update_from_map_ok [of "qa_attributes a" "qa_is_fifo a" lib kvs]
  show ?thesis by (auto simp: actor_sane_def polls_visible_def split: prod.splits)
next
  case (CmdSendMessage input client)
  with assms(1) have "same_settings a a'"
    by (auto simp: same_settings_def handle_send_message_def handle_send_message_standard_def
        handle_send_message_fifo_def Let_def
        split: if_splits option.splits queue_storage.splits sum.splits prod.splits
          enqueue_result.splits)
  with ok show ?thesis by (rule same_settings_sane [rotated])
next
  case (CmdTransfer m source_arn ticket)
  with assms(1) have "same_settings a a'"
    by (auto simp: same_settings_def accept_transfer_def Let_def
        split: if_splits option.splits queue_storage.splits sum.splits prod.splits)
  with ok show ?thesis by (rule same_settings_sane [rotated])
next
  case (CmdChangeVisibility h v client)
  with assms(1) have "same_settings a a'"
    by (auto simp: same_settings_def handle_change_visibility_def
        split: if_splits option.splits queue_storage.splits prod.splits)
  with ok show ?thesis by (rule same_settings_sane [rotated])
next
  case (CmdDeleteMessage h client)
  with assms(1) have "same_settings a a'"
    by (auto simp: same_settings_def handle_delete_message_def
        split: queue_storage.splits prod.splits)
  with ok show ?thesis by (rule same_settings_sane [rotated])
next
  case (CmdPurge client)
  with assms(1) have "same_settings a a'"
    by (auto simp: same_settings_def handle_purge_def Let_def
        split: queue_storage.splits prod.splits option.splits if_splits)
  with ok show ?thesis by (rule same_settings_sane [rotated])
qed (use assms(1) ok in \<open>auto simp: actor_sane_def polls_visible_def\<close>)

lemma handle_event_sane:
  assumes h: "handle_event lib e es ev a = Some (a', out)" and v: "event_visible ev"
    and ok: "actor_sane a"
  shows "actor_sane a'"
proof (cases ev)
  case (EvCommand cmd gone)
  show ?thesis
  proof (cases "cmd = CmdShutdown")
    case True
    with h EvCommand ok show ?thesis by (auto simp: stop_actor_def actor_sane_def polls_visible_def)
  next
    case False
    with h EvCommand obtain a1 out1 f out2 where c: "handle_command lib e gone cmd a = Some (a1, out1, f)"
      and p: "fulfill_if f lib es a1 = Some (a', out2)"
      by (cases cmd) (auto split: option.splits prod.splits)
    have "actor_sane a1" using handle_command_sane [OF c _ ok] v EvCommand by blast
    then show ?thesis by (rule same_settings_sane [OF fulfill_if_settings [OF p]])
  qed
next
  case EvCleanupTick
  with h have "same_settings a a'" by (intro periodic_cleanup_settings) simp
  with ok show ?thesis by (rule same_settings_sane [rotated])
next
  case EvPollDeadline
  with h have "same_settings a a'" using expire_settings by (metis fst_conv handle_event.simps(17)
      option.inject)
  with ok show ?thesis by (rule same_settings_sane [rotated])
qed (use h ok in \<open>auto simp: stop_actor_def actor_sane_def polls_visible_def\<close>)

lemma loop_head_sane: "actor_sane a \<Longrightarrow> actor_sane (fst (loop_head a))"
  by (rule same_settings_sane [of a])
    (auto simp: loop_head_def settle_transfers_def same_settings_def Let_def split: prod.splits)

lemma receive_answers_sane: "actor_sane a \<Longrightarrow> actor_sane (receive_answers ans a)"
  by (rule same_settings_sane [of a]) (simp_all add: receive_answers_def same_settings_def)

section \<open>Runs\<close>

definition turns_visible :: "turn list \<Rightarrow> bool" where
  "turns_visible rs \<longleftrightarrow> (\<forall>(early, late, e, es, ev)\<in>set rs. sane_clock e \<and> (\<forall>j. sane_clock (es j)) \<and> event_visible ev)"

text \<open>The actor ends at the head of the turn: it is to stop and, with the answers that have come, has
  nothing pending.\<close>

definition wants_to_stop :: "turn \<Rightarrow> queue_actor \<Rightarrow> bool" where
  "wants_to_stop r a \<longleftrightarrow> snd (snd (loop_head (receive_answers (fst r) a)))"

lemma actor_turn_total:
  assumes "actor_sane a" "turns_visible [r]" "\<not> wants_to_stop r a"
  shows "\<exists>a' out. actor_turn lib r a = Some (a', out) \<and> actor_sane a'"
proof -
  obtain early late e es ev where r: "r = (early, late, e, es, ev)" by (cases r)
  obtain a1 out1 where h: "loop_head (receive_answers early a) = (a1, out1, False)"
    using assms(3) r by (cases "loop_head (receive_answers early a)") (auto simp: wants_to_stop_def)
  have "actor_sane a1" using loop_head_sane [OF receive_answers_sane [OF assms(1)]] h by (metis fst_conv)
  then have ok: "actor_sane (receive_answers late a1)" by (rule receive_answers_sane)
  have v: "sane_clock e" "sane_clock (es j)" "event_visible ev" for j
    using assms(2) r by (auto simp: turns_visible_def)
  obtain a2 out2 where s: "handle_event lib e es ev (receive_answers late a1) = Some (a2, out2)"
    using handle_event_total [of e es "receive_answers late a1" ev lib] v ok unfolding actor_sane_def by blast
  have "actor_sane a2" by (rule handle_event_sane [OF s v(3) ok])
  with s h r show ?thesis by (simp add: actor_turn_def)
qed

lemma run_actor_total:
  "actor_sane a \<Longrightarrow> turns_visible rs \<Longrightarrow>
     \<exists>k\<le>length rs. \<exists>a' out. run_actor lib (take k rs) a = Some (a', out) \<and> actor_sane a' \<and>
       (k = length rs \<or> wants_to_stop (rs ! k) a')"
proof (induction rs arbitrary: a)
  case (Cons r rs)
  show ?case
  proof (cases "wants_to_stop r a")
    case True
    with Cons.prems show ?thesis by (intro exI [of _ 0]) simp
  next
    case False
    have "turns_visible [r]" "turns_visible rs" using Cons.prems(2) by (auto simp: turns_visible_def)
    with Cons.prems False obtain a1 out1 where t: "actor_turn lib r a = Some (a1, out1)" "actor_sane a1"
      using actor_turn_total by blast
    from Cons.IH [OF this(2) \<open>turns_visible rs\<close>] obtain k a' out where
      "k \<le> length rs" "run_actor lib (take k rs) a1 = Some (a', out)" "actor_sane a'"
      "k = length rs \<or> wants_to_stop (rs ! k) a'" by blast
    with t show ?thesis by (intro exI [of _ "Suc k"]) auto
  qed
qed auto

lemma new_actor_sane:
  assumes "from_map lib kvs is_fifo = Inr attrs"
  shows "actor_sane (queue_actor_new name arn is_fifo attrs tags account t0)"
  using from_map_loop_ok [OF assms [unfolded from_map_def] default_attributes_ok]
  by (simp add: actor_sane_def polls_visible_def queue_actor_new_def)

text \<open>A visibility timeout below zero overflows the deadline.\<close>

lemma change_visibility_negative:
  assumes "v < 0" "i32 v"
  shows "handle_change_visibility e h v a = None \<longleftrightarrow>
    (case qa_storage a of StandardStorage s \<Rightarrow> bt_get (st_in_flight s) h \<noteq> None | FifoStorage s \<Rightarrow> True)"
  using assms instant_add_negative [of v "now_at e 0"]
  by (simp add: handle_change_visibility_def i32_def split: queue_storage.split option.split)

end
