(* ===== verification/SQS_Properties.thy ===== *)
theory SQS_Properties
  imports SQS_Panics
begin

text \<open>
  The properties of the SQS queues, over the model's definitions, each with a witness that applies
  it to a concrete run.
\<close>

section \<open>A concrete environment\<close>

definition demo_libs :: sqs_libs where
  "demo_libs = \<lparr>md5_hex = id, sha256_hex = id, base64_std = id, parse_json = (\<lambda>_. None),
     parse_redrive_policy =
       (\<lambda>s. Some \<lparr>rp_dead_letter_target_arn = s, rp_max_receive_count = 0\<rparr>),
     show_redrive_policy = rp_dead_letter_target_arn\<rparr>"

definition demo_env :: "nat \<Rightarrow> sqs_env" where
  "demo_env k = \<lparr>now_at = (\<lambda>_. k), millis_at = (\<lambda>_. 0), seconds_now = 0,
     new_uuid = ''m'' @ replicate k CHR ''u'', nanos_at = (\<lambda>_. 0),
     nonce_at = (\<lambda>i. replicate i CHR ''x'' @ CHR ''y'' # replicate k CHR ''z''),
     hash_order = id, channel_open = (\<lambda>_ _. True), reply_closed = (\<lambda>_. False)\<rparr>"

definition demo_polls :: "nat \<Rightarrow> nat \<Rightarrow> sqs_env" where
  "demo_polls k j = demo_env (k + Suc j)"

lemma demo_selectors [simp]:
  "md5_hex demo_libs = id" "sha256_hex demo_libs = id" "base64_std demo_libs = id"
  "parse_json demo_libs s = None"
  "parse_redrive_policy demo_libs s =
     Some \<lparr>rp_dead_letter_target_arn = s, rp_max_receive_count = 0\<rparr>"
  "show_redrive_policy demo_libs p = rp_dead_letter_target_arn p"
  "now_at (demo_env k) i = k" "millis_at (demo_env k) i = 0" "seconds_now (demo_env k) = 0"
  "new_uuid (demo_env k) = ''m'' @ replicate k CHR ''u''" "nanos_at (demo_env k) i = 0"
  "nonce_at (demo_env k) i = replicate i CHR ''x'' @ CHR ''y'' # replicate k CHR ''z''"
  "hash_order (demo_env k) = id" "channel_open (demo_env k) arn n" "\<not> reply_closed (demo_env k) c"
  by (simp_all add: demo_libs_def demo_env_def)

lemma replicate_then:
  "replicate i c @ d # xs = replicate j c @ d # ys \<Longrightarrow> c \<noteq> d \<Longrightarrow> i = j \<and> xs = ys"
proof (induction i arbitrary: j)
  case 0
  then show ?case by (cases j) auto
next
  case (Suc i)
  then show ?case by (cases j) auto
qed

lemma demo_receipt_inject:
  assumes "receipt_at demo_libs (demo_env k) i mid = receipt_at demo_libs (demo_env l) j mid'"
  shows "k = l \<and> i = j"
proof -
  let ?x = "CHR ''x''" and ?y = "CHR ''y''" and ?z = "CHR ''z''" and ?c = "CHR '':''"
  let ?tail = "\<lambda>mid. rev (show_nat 0) @ ?c # rev mid"
  have eq: "replicate k ?z @ ?y # (replicate i ?x @ ?c # ?tail mid) =
      replicate l ?z @ ?y # (replicate j ?x @ ?c # ?tail mid')"
    using arg_cong [OF assms, of rev] by (simp add: receipt_at_def generate_receipt_handle_def)
  have "k = l \<and> replicate i ?x @ ?c # ?tail mid = replicate j ?x @ ?c # ?tail mid'"
    by (rule replicate_then [OF eq]) simp
  moreover from this have "i = j \<and> ?tail mid = ?tail mid'"
    using replicate_then [of i ?x ?c "?tail mid" j "?tail mid'"] by simp
  ultimately show ?thesis by simp
qed

lemma demo_event_fresh:
  "actor_handles a = {} \<Longrightarrow> event_fresh demo_libs (demo_env k) (demo_polls k) a"
  by (auto simp: event_fresh_def env_fresh_def envs_fresh_def receipts_of_def demo_polls_def
      dest!: demo_receipt_inject)

definition demo_send :: "string \<Rightarrow> string \<Rightarrow> send_message_input" where
  "demo_send body grp =
     \<lparr>smi_message_body = body, smi_delay_seconds = None, smi_message_deduplication_id = None,
      smi_message_group_id = Some grp, smi_message_attributes = []\<rparr>"

definition demo_receive :: receive_message_input where
  "demo_receive =
     \<lparr>rmi_max_number_of_messages = Some 10, rmi_visibility_timeout = Some 30,
      rmi_wait_time_seconds = None, rmi_attribute_names = [],
      rmi_message_system_attribute_names = [], rmi_message_attribute_names = []\<rparr>"

definition demo_attributes :: queue_attributes where
  "demo_attributes = default_queue_attributes\<lparr>at_content_based_deduplication := True\<rparr>"

definition demo_queue :: queue_actor where
  "demo_queue = queue_actor_new ''q.fifo'' ''arn:q.fifo'' True demo_attributes [] ''0'' 0"

definition demo_sends :: "turn list" where
  "demo_sends =
     [([], [], demo_env 0, demo_polls 0, EvCommand (CmdSendMessage (demo_send ''a'' ''g'') 1) False),
      ([], [], demo_env 1, demo_polls 1, EvCommand (CmdSendMessage (demo_send ''b'' ''g'') 2) False)]"

lemmas demo_eval =
  demo_queue_def demo_sends_def demo_send_def demo_attributes_def
  demo_receive_def queue_actor_new_def default_queue_attributes_def redrive_manager_default_def
  fifo_default_def standard_default_def
  actor_turn_def loop_head_def settle_transfers_def handle_send_message_def
  handle_send_message_fifo_def dedup_id_def effective_dedup_key_def enqueue_def dedup_hit_def
  dedup_window_secs_def instant_add_def nanos_per_sec_def group_push_back_def group_queue_def
  message_group_def fulfill_if_def i32_as_u64_def Let_def receive_answers_def hear_def

lemmas receive_eval =
  handle_receive_message_def try_receive_def try_receive_fifo_def try_receive_standard_def
  fifo_return_expired_inflight_def standard_return_expired_inflight_def expired_handles_def
  promote_delayed_def fifo_receive_def redrive_target_def mark_received_def
  generate_receipt_handle_def mark_in_flight_def merge_attribute_names_def bt_retain_def
  u32_saturating_succ_def u32_max_def bt_keys_def

definition demo_after :: queue_actor where
  "demo_after = fst (the (run_actor demo_libs demo_sends demo_queue))"

definition demo_turn :: turn where
  "demo_turn = ([], [], demo_env 2, demo_polls 2, EvCommand (CmdReceiveMessage demo_receive 3) False)"

lemma demo_run: "\<exists>out. run_actor demo_libs demo_sends demo_queue = Some (demo_after, out)"
  by (simp add: demo_after_def demo_eval)

lemma demo_turn_result:
  "\<exists>a out. actor_turn demo_libs demo_turn demo_after = Some (a, out)"
  by (simp add: demo_after_def demo_turn_def demo_eval receive_eval)

lemma demo_turn_ok:
  "actor_handles (turn_start (early, late, demo_env k, demo_polls k, ev) a) = {} \<Longrightarrow>
     sequence_room (turn_start (early, late, demo_env k, demo_polls k, ev) a) \<Longrightarrow>
     turn_ok demo_libs (early, late, demo_env k, demo_polls k, ev) a"
  by (simp add: turn_ok_def demo_event_fresh)

lemma demo_turns_ok: "turns_ok demo_libs demo_sends demo_queue"
  by (simp add: demo_eval demo_turn_ok sequence_room_def turn_start_def turn_head_def actor_handles_def bt_keys_def)

lemma demo_after_empty [simp]:
  "actor_handles demo_after = {}" "actor_handles (turn_start ([], [], x) demo_after) = {}"
  "sequence_room (turn_start ([], [], x) demo_after)"
  by (simp_all add: demo_after_def demo_eval sequence_room_def turn_start_def turn_head_def actor_handles_def
      bt_keys_def)

lemma demo_after_fifo: "has_fifo_storage demo_after"
  by (simp add: has_fifo_storage_def demo_after_def demo_eval)

lemma demo_clock: "k < 1000 \<Longrightarrow> sane_clock (demo_env k)"
  by (auto simp: sane_clock_def nanos_per_sec_def)

section \<open>Order of a FIFO queue\<close>

text \<open>A queue with a redrive policy: the first receive hands the head of the group over.\<close>

definition redrive_queue :: queue_actor where
  "redrive_queue = queue_actor_new ''q.fifo'' ''arn:q.fifo'' True
     (demo_attributes\<lparr>at_redrive_policy :=
        Some \<lparr>rp_dead_letter_target_arn = ''arn:d.fifo'', rp_max_receive_count = 0\<rparr>\<rparr>) [] ''0'' 0"

definition redrive_turns :: "turn list" where
  "redrive_turns = demo_sends @ [demo_turn]"

definition redrive_after :: queue_actor where
  "redrive_after = fst (the (run_actor demo_libs redrive_turns redrive_queue))"

text \<open>Then the dead-letter queue answers that it has the message.\<close>

definition answered_turn :: turn where
  "answered_turn = ([(0, ReplySent (Inr ()))], [], demo_env 3, demo_polls 3, EvCleanupTick)"

definition answered_after :: queue_actor where
  "answered_after = fst (the (actor_turn demo_libs answered_turn redrive_after))"

lemmas redrive_eval =
  redrive_queue_def redrive_turns_def demo_turn_def answered_turn_def handoff_def redrive_target_def
  u32_of_i32_or_max_def periodic_cleanup_def clean_dedup_cache_def transfer_result_def settle_storage_def
  finish_redrive_def expire_long_polls_def

lemma redrive_run: "\<exists>out. run_actor demo_libs redrive_turns redrive_queue = Some (redrive_after, out)"
  by (simp add: redrive_after_def redrive_eval demo_eval receive_eval)

lemma answered_run: "\<exists>out. actor_turn demo_libs answered_turn redrive_after = Some (answered_after, out)"
  by (simp add: answered_after_def redrive_after_def redrive_eval demo_eval receive_eval)

lemma redrive_turns_ok: "turns_ok demo_libs redrive_turns redrive_queue"
  by (simp add: redrive_eval demo_eval receive_eval demo_turn_ok sequence_room_def turn_start_def turn_head_def actor_handles_def bt_keys_def)

lemma answered_turn_ok: "turn_ok demo_libs answered_turn redrive_after"
  unfolding answered_turn_def
  by (rule demo_turn_ok)
    (simp_all add: redrive_after_def redrive_eval demo_eval receive_eval sequence_room_def turn_start_def turn_head_def
      actor_handles_def bt_keys_def)

lemma redrive_line: "map qm_body (actor_line redrive_after ''g'') = [''a'', ''b'']"
  by (simp add: redrive_after_def redrive_eval demo_eval receive_eval actor_line_def fifo_line_def line_of_def away_def
      queues_def pending_messages_def core_def bt_values_def)

text \<open>C11. A FIFO queue that started empty and has run through any admissible sequence of turns keeps
  every message group in one line ordered by sequence number; the next turn changes the line of a
  group only by removing messages from its head (the dead-letter transfers that their queue has accepted
  by then, a deleted message, a purge) and appending at most one new message at its end. A transfer that
  fails, or whose queue goes away, leaves its message where it was in the line.\<close>

theorem fifo_line_discipline:
  assumes "run_actor lib rs (queue_actor_new name arn True attrs tags account t0) = Some (a, out)"
    and "turns_ok lib rs (queue_actor_new name arn True attrs tags account t0)"
    and "actor_turn lib r a = Some (a', out')" "r = (early, late, e, es, ev)" and "turn_ok lib r a"
  shows "sorted_wrt (<) (map message_seq (actor_line a g)) \<and>
    sorted_wrt (<) (map message_seq (actor_line a' g)) \<and>
    (\<exists>new. actor_line a' g =
        drop (turn_accepted r a g + line_taken e ev (turn_start r a) g) (actor_line a g) @ new \<and>
        (new = [] \<or> event_appends ev \<and> (\<exists>m. new = [m])))"
proof -
  have ok: "fifo_actor_ok a" by (rule fifo_run_ok [OF assms(1) new_fifo_actor_ok assms(2)])
  note step = fifo_turn [OF assms(3,4) ok assms(5)]
  have ok': "fifo_actor_ok a'" using step by (simp add: lines_step_def fifo_actor_ok_def)
  obtain new where new: "actor_line a' g =
      drop (line_taken e ev (turn_start r a) g) (actor_line (turn_start r a) g) @ new"
    "new = [] \<or> event_appends ev \<and> (\<exists>m. new = [m])"
    using step unfolding lines_step_def by blast
  have "actor_line a' g =
      drop (turn_accepted r a g + line_taken e ev (turn_start r a) g) (actor_line a g) @ new"
    unfolding new(1) turn_start_line(2) [OF ok] by (simp add: add.commute)
  with new(2) show ?thesis using fifo_line_sorted [OF ok] fifo_line_sorted [OF ok'] by blast
qed

theorem fifo_line_discipline_witness:
  "(\<exists>out. run_actor demo_libs redrive_turns redrive_queue = Some (redrive_after, out)) \<and>
   (\<exists>out. actor_turn demo_libs answered_turn redrive_after = Some (answered_after, out)) \<and>
   map qm_body (actor_line redrive_after ''g'') = [''a'', ''b''] \<and>
   map qm_body (actor_line answered_after ''g'') = [''b''] \<and>
   sorted_wrt (<) (map message_seq (actor_line redrive_after ''g''))"
proof -
  obtain out where run: "run_actor demo_libs redrive_turns redrive_queue = Some (redrive_after, out)"
    using redrive_run by blast
  obtain out' where turn: "actor_turn demo_libs answered_turn redrive_after = Some (answered_after, out')"
    using answered_run by blast
  have accepted: "turn_accepted answered_turn redrive_after ''g'' = 1"
    by (simp add: turn_accepted_def accepted_of_def redrive_after_def redrive_eval demo_eval receive_eval)
  note line = fifo_line_discipline [OF run [unfolded redrive_queue_def] redrive_turns_ok [unfolded redrive_queue_def] turn
      answered_turn_def answered_turn_ok, of "''g''"]
  have "actor_line answered_after ''g'' = drop 1 (actor_line redrive_after ''g'')"
    using line accepted by auto
  then have "map qm_body (actor_line answered_after ''g'') = [''b'']"
    using redrive_line by (simp add: drop_map [symmetric])
  then show ?thesis using run turn redrive_line line by blast
qed

section \<open>Delivery from a FIFO queue\<close>

text \<open>C12. What a receive delivers from a FIFO queue are heads of lines, at most one per message group,
  and no message of a group is delivered while another one of the group is in flight with an
  unexpired visibility timeout.\<close>

theorem fifo_delivers_heads:
  assumes "run_actor lib rs (queue_actor_new name arn True attrs tags account t0) = Some (a, out)"
    and "turns_ok lib rs (queue_actor_new name arn True attrs tags account t0)"
    and "qa_storage a = FifoStorage s" and "env_fresh lib e (actor_handles a)"
    and "try_receive lib e n v attr_names sys_names msg_names a = Some (a', messages)"
  shows "\<exists>ds. list_all2 shows_message messages ds \<and> distinct (map message_group ds) \<and>
      (\<forall>m\<in>set ds. (\<exists>rest. actor_line a (message_group m) = core m # rest) \<and>
         (\<forall>h i. bt_get (fs_in_flight s) h = Some i \<and> fif_group_id i = message_group m \<longrightarrow>
            fif_visible_at i \<le> now_at e 0))"
proof -
  have "fifo_actor_ok a" by (rule fifo_run_ok [OF assms(1) new_fifo_actor_ok assms(2)])
  then have "actor_fifo_inv a" by (simp add: fifo_actor_ok_def)
  from try_receive_line(3) [OF assms(5,3) this assms(4)] show ?thesis .
qed

theorem fifo_delivers_heads_witness:
  "\<exists>a' messages ds. try_receive demo_libs (demo_env 2) 10 30 [] [] [] demo_after = Some (a', messages) \<and>
     list_all2 shows_message messages ds \<and> distinct (map message_group ds)"
proof -
  obtain out where run: "run_actor demo_libs demo_sends demo_queue = Some (demo_after, out)"
    using demo_run by blast
  obtain s where s: "qa_storage demo_after = FifoStorage s"
    using demo_after_fifo by (auto simp: has_fifo_storage_def)
  obtain a' messages where r:
    "try_receive demo_libs (demo_env 2) 10 30 [] [] [] demo_after = Some (a', messages)"
    using try_receive_total [OF demo_clock, of 2 30 demo_libs 10 "[]" "[]" "[]" demo_after]
    by (auto simp: i32_def)
  have "env_fresh demo_libs (demo_env 2) (actor_handles demo_after)"
    using demo_event_fresh [of demo_after 2] by (simp add: event_fresh_def demo_after_empty)
  from fifo_delivers_heads [OF run [unfolded demo_queue_def] demo_turns_ok [unfolded demo_queue_def]
      s this r]
  show ?thesis using r by blast
qed

section \<open>Conservation\<close>

text \<open>C13. A queue neither loses nor duplicates messages: over any admissible run of a standard or FIFO
  queue, what it holds at the end, together with what its deletes and purges removed and what its
  dead-letter queues accepted, is what its sends and accepted transfers added, as multisets of messages. A
  message on its way to a dead-letter queue is held until that queue answers that it has accepted it, and
  still after that queue has refused it or gone away.\<close>

theorem queue_conserves_messages:
  assumes "run_actor lib rs (queue_actor_new name arn is_fifo attrs tags account t0) = Some (a, out)"
    and "turns_ok lib rs (queue_actor_new name arn is_fifo attrs tags account t0)"
  shows "actor_held a + run_loss lib rs (queue_actor_new name arn is_fifo attrs tags account t0) +
      run_handed lib rs (queue_actor_new name arn is_fifo attrs tags account t0) =
    run_gain lib rs (queue_actor_new name arn is_fifo attrs tags account t0)"
  using run_account [OF assms(1) new_actor_maps_wf assms(2)] by (simp add: new_actor_held)

lemma run_actor_snoc:
  "run_actor lib rs a = Some (a1, out) \<Longrightarrow> actor_turn lib r a1 = Some (a2, out2) \<Longrightarrow>
     run_actor lib (rs @ [r]) a = Some (a2, out @ out2)"
  by (induction rs arbitrary: a out) (auto split: option.splits)

lemma turns_ok_snoc:
  "turns_ok lib rs a \<Longrightarrow> run_actor lib rs a = Some (a1, out) \<Longrightarrow> turn_ok lib r a1 \<Longrightarrow> turns_ok lib (rs @ [r]) a"
  by (induction rs arbitrary: a out) (auto split: option.splits)

theorem queue_conserves_messages_witness:
  "actor_held answered_after + run_loss demo_libs (redrive_turns @ [answered_turn]) redrive_queue +
     run_handed demo_libs (redrive_turns @ [answered_turn]) redrive_queue =
     run_gain demo_libs (redrive_turns @ [answered_turn]) redrive_queue \<and>
   image_mset (\<lambda>(i, body, _). body) (run_handed demo_libs (redrive_turns @ [answered_turn]) redrive_queue) = {#''a''#} \<and>
   image_mset (\<lambda>(i, body, _). body) (run_gain demo_libs (redrive_turns @ [answered_turn]) redrive_queue) = {#''a'', ''b''#}"
proof -
  obtain out where run: "run_actor demo_libs redrive_turns redrive_queue = Some (redrive_after, out)"
    using redrive_run by blast
  obtain out' where turn: "actor_turn demo_libs answered_turn redrive_after = Some (answered_after, out')"
    using answered_run by blast
  note all = run_actor_snoc [OF run turn] turns_ok_snoc [OF redrive_turns_ok run answered_turn_ok]
  note held = queue_conserves_messages [OF all [unfolded redrive_queue_def], folded redrive_queue_def]
  have "image_mset (\<lambda>(i, body, _). body) (run_handed demo_libs (redrive_turns @ [answered_turn]) redrive_queue) = {#''a''#}"
    by (simp add: redrive_eval demo_eval receive_eval handed_over_def payload_def payloads_def turn_head_def)
  moreover have "image_mset (\<lambda>(i, body, _). body) (run_gain demo_libs (redrive_turns @ [answered_turn]) redrive_queue) = {#''a'', ''b''#}"
    by (simp add: redrive_eval demo_eval receive_eval send_gain_def send_duplicate_def turn_start_def turn_head_def)
  ultimately show ?thesis using held by blast
qed

section \<open>Deduplication\<close>

text \<open>When a FIFO queue has accepted a message, every later send with the same deduplication key
  within five minutes is answered with the message id and sequence number of the first and changes
  nothing, whatever happened in between.\<close>

theorem duplicate_send_answered_with_original:
  assumes first: "handle_send_message lib e1 input1 a1 = Some (a2, Inr (out1, True))"
    and fifo: "qa_is_fifo a1" "qa_is_fifo a3"
    and run: "run_actor lib rs a2 = Some (a3, out)"
    and key1: "smi_message_group_id input1 = Some g1" "dedup_id lib (qa_attributes a1) input1 = Some d1"
    and key2: "smi_message_group_id input2 = Some g2" "dedup_id lib (qa_attributes a3) input2 = Some d2"
    and same: "effective_dedup_key (qa_attributes a1) g1 d1 = effective_dedup_key (qa_attributes a3) g2 d2"
    and window: "\<And>early late e es ev i. (early, late, e, es, ev) \<in> set rs \<Longrightarrow>
        now_at e i < now_at e1 2 + dedup_window_secs * nanos_per_sec"
      "now_at e2 1 < now_at e1 2 + dedup_window_secs * nanos_per_sec"
    and valid: "smi_message_body input2 \<noteq> []"
      "length (smi_message_body input2) \<le> i32_as_u64 (at_maximum_message_size (qa_attributes a3))"
      "length (smi_message_attributes input2) \<le> 10"
      "smi_delay_seconds input2 = None"
  shows "\<exists>out2. handle_send_message lib e2 input2 a3 = Some (a3, Inr (out2, False)) \<and>
    smo_message_id out2 = smo_message_id out1 \<and> smo_sequence_number out2 = smo_sequence_number out1"
proof -
  let ?key = "effective_dedup_key (qa_attributes a1) g1 d1"
  obtain entry where entry: "cached ?key a2 = Some entry"
    "de_expiry entry = now_at e1 2 + dedup_window_secs * nanos_per_sec"
    "smo_message_id out1 = Some (de_message_id entry)"
    "smo_sequence_number out1 = Some (de_sequence_number entry)"
    by (rule accepted_send_cached [OF first fifo(1) key1])
  have "cached ?key a3 = Some entry"
    by (rule run_cache [OF run entry(1)]) (simp add: entry(2) window(1))
  then have hit: "cached (effective_dedup_key (qa_attributes a3) g2 d2) a3 = Some entry"
    by (simp add: same)
  from duplicate_send [OF fifo(2) hit _ key2 valid, of e2] window(2) entry
  show ?thesis by (auto simp: entry(2))
qed

theorem duplicate_send_answered_with_original_witness:
  "\<exists>a1 a2 out1 out2.
     handle_send_message demo_libs (demo_env 0) (demo_send ''a'' ''g'') a1 = Some (a2, Inr (out1, True)) \<and>
     handle_send_message demo_libs (demo_env 1) (demo_send ''a'' ''g'') a2 = Some (a2, Inr (out2, False)) \<and>
     smo_message_id out2 = smo_message_id out1 \<and> smo_sequence_number out2 = smo_sequence_number out1"
proof -
  obtain a2 out1 where first: "handle_send_message demo_libs (demo_env 0) (demo_send ''a'' ''g'')
      demo_queue = Some (a2, Inr (out1, True))"
    and a2: "qa_is_fifo a2" "qa_attributes a2 = demo_attributes"
    by (simp add: demo_eval)
  have q: "qa_is_fifo demo_queue" "qa_attributes demo_queue = demo_attributes"
    by (simp_all add: demo_queue_def queue_actor_new_def)
  have run: "run_actor demo_libs [] a2 = Some (a2, [])" by simp
  have d: "dedup_id demo_libs demo_attributes (demo_send ''a'' ''g'') = Some ''a''"
    by (simp add: dedup_id_def demo_send_def demo_attributes_def)
  have g: "smi_message_group_id (demo_send ''a'' ''g'') = Some ''g''" by (simp add: demo_send_def)
  have "\<exists>out2. handle_send_message demo_libs (demo_env 1) (demo_send ''a'' ''g'') a2 =
      Some (a2, Inr (out2, False)) \<and> smo_message_id out2 = smo_message_id out1 \<and>
      smo_sequence_number out2 = smo_sequence_number out1"
    by (rule duplicate_send_answered_with_original [OF first q(1) a2(1) run g _ g])
      (use d in \<open>simp_all add: q a2 dedup_window_secs_def nanos_per_sec_def demo_send_def
        demo_attributes_def default_queue_attributes_def i32_as_u64_def\<close>)
  with first show ?thesis by blast
qed

section \<open>Snapshots of queue attributes\<close>

text \<open>The attributes that a snapshot records of a queue created with valid attributes and changed
  by any sequence of SetQueueAttributes requests, accepted or not, are read back to the same
  attributes in whatever order the map lists them, exactly when they pass the checks that only
  CreateQueue makes (a receive count of at least 1 in the redrive policy, a known deduplication
  scope); otherwise the import of the snapshot fails with InvalidParameterValue.\<close>

theorem attribute_snapshot_roundtrip:
  assumes created: "from_map lib kvs0 is_fifo = Inr a0"
    and a: "a = foldl (\<lambda>r kvs. fst (update_from_map lib is_fifo kvs r)) a0 updates"
    and serde: "\<And>p. at_redrive_policy a = Some p \<Longrightarrow>
      parse_redrive_policy lib (show_redrive_policy lib p) = Some p"
    and "set kvs = set (export_attributes lib a is_fifo arn created_at modified counts)"
  shows "from_map lib kvs is_fifo =
    (if attributes_checked a then Inr a else Inl InvalidParameterValue)"
proof (rule from_map_export [OF _ _ serde assms(4)])
  have "attributes_in_range a0 \<and> fifo_settings_ok is_fifo a0"
    using from_map_loop_ok [OF created [unfolded from_map_def] default_attributes_ok] by blast
  then show "attributes_in_range a" "fifo_settings_ok is_fifo a"
    unfolding a by (simp_all add: updates_ok)
qed

theorem attribute_snapshot_roundtrip_witness:
  "\<exists>a. a = fst (update_from_map demo_libs False [(''RedrivePolicy'', ''arn:d'')] default_queue_attributes) \<and>
     snd (update_from_map demo_libs False [(''RedrivePolicy'', ''arn:d'')] default_queue_attributes) = Inr () \<and>
     from_map demo_libs (export_attributes demo_libs a False ''arn'' 0 0 (0, 0, 0)) False =
       Inl InvalidParameterValue"
proof -
  let ?u = "[(''RedrivePolicy'', ''arn:d'')]"
  let ?p = "\<lparr>rp_dead_letter_target_arn = ''arn:d'', rp_max_receive_count = 0\<rparr>"
  let ?a = "default_queue_attributes\<lparr>at_redrive_policy := Some ?p\<rparr>"
  let ?kvs = "export_attributes demo_libs ?a False ''arn'' 0 0 (0, 0, 0)"
  have u: "update_from_map demo_libs False ?u default_queue_attributes = (?a, Inr ())"
    by (simp add: update_entry_def non_empty_def)
  have created: "from_map demo_libs [] False = Inr default_queue_attributes"
    by (simp add: from_map_def)
  have a: "?a = foldl (\<lambda>r kvs. fst (update_from_map demo_libs False kvs r)) default_queue_attributes [?u]"
    using u by simp
  have "from_map demo_libs ?kvs False =
      (if attributes_checked ?a then Inr ?a else Inl InvalidParameterValue)"
    by (rule attribute_snapshot_roundtrip [OF created a _ refl]) auto
  moreover have "\<not> attributes_checked ?a" by (simp add: attributes_checked_def)
  ultimately have "from_map demo_libs ?kvs False = Inl InvalidParameterValue"
    unfolding if_not_P [OF \<open>\<not> attributes_checked ?a\<close>] by simp
  with u show ?thesis by (intro exI [of _ ?a]) simp
qed

section \<open>Panics\<close>

text \<open>C14. A queue created with valid attributes handles every sequence of events without a panic, as
  long as the clocks are within range and no request carries a negative visibility timeout: the
  run only ends early where the queue wants to stop and has nothing on its way.\<close>

theorem queue_does_not_panic:
  assumes "from_map lib kvs is_fifo = Inr attrs" and "turns_visible rs"
  shows "\<exists>k\<le>length rs. \<exists>a out.
    run_actor lib (take k rs) (queue_actor_new name arn is_fifo attrs tags account t0) = Some (a, out) \<and>
    (k = length rs \<or> wants_to_stop (rs ! k) a)"
  using run_actor_total [OF new_actor_sane [OF assms(1)] assms(2)] by blast

theorem queue_does_not_panic_witness:
  "\<exists>k\<le>1. \<exists>a out.
     run_actor demo_libs (take k [([], [], demo_env 0, \<lambda>_. demo_env 1, EvCommand CmdShutdown False)])
       (queue_actor_new ''q'' ''arn:q'' False default_queue_attributes [] ''0'' 0) = Some (a, out) \<and>
     (k = 1 \<or> wants_to_stop ([], [], demo_env 0, \<lambda>_. demo_env 1, EvCommand CmdShutdown False) a)"
proof -
  let ?rs = "[([], [], demo_env 0, \<lambda>_ :: nat. demo_env 1, EvCommand CmdShutdown False)]"
  have c: "from_map demo_libs [] False = Inr default_queue_attributes" by (simp add: from_map_def)
  have v: "turns_visible ?rs" by (simp add: turns_visible_def sane_clock_def nanos_per_sec_def)
  show ?thesis
    using queue_does_not_panic [OF c v, of "''q''" "''arn:q''" "[]" "''0''" 0] by (auto simp: le_Suc_eq)
qed

text \<open>A ChangeMessageVisibility request with a negative timeout, which no check rejects, makes the
  task of a FIFO queue panic whatever the receipt handle, and that of a standard queue when the
  receipt handle is one in flight; with the task go all messages of the queue.\<close>

theorem negative_visibility_panics:
  assumes "v < 0" and "- (2 ^ 31) \<le> v"
  shows "handle_event lib e es (EvCommand (CmdChangeVisibility h v client) gone) a = None \<longleftrightarrow>
    (case qa_storage a of StandardStorage s \<Rightarrow> bt_get (st_in_flight s) h \<noteq> None | FifoStorage s \<Rightarrow> True)"
proof -
  have "i32 v" using assms by (simp add: i32_def)
  from change_visibility_negative [OF assms(1) this, of e h a] show ?thesis
    by (cases "handle_change_visibility e h v a")
      (auto simp: fulfill_if_def handle_change_visibility_def
        split: queue_storage.splits option.splits prod.splits if_splits)
qed

theorem negative_visibility_panics_witness:
  "handle_event demo_libs (demo_env 0) (demo_polls 0)
     (EvCommand (CmdChangeVisibility ''h'' (-1) 1) False) demo_queue = None"
  by (subst negative_visibility_panics) (simp_all add: demo_queue_def queue_actor_new_def)

section \<open>Repeated dead-letter transfers\<close>

text \<open>A FIFO dead-letter queue that has accepted a message from a source acknowledges every
  later transfer of that message from that source within five minutes without storing it, even
  when it no longer holds the message; so a message that went back to the source and is redriven
  again is lost, as the source drops it on the acknowledgment.\<close>

theorem second_redrive_loses_message:
  assumes first: "accept_transfer lib e1 m source_arn a1 = Some (a2, Inr ())"
    and fifo: "qa_storage a1 = FifoStorage s"
    and new: "fs_dedup_cache s (DedupRedrive source_arn (qm_message_id m)) = None"
    and run: "run_actor lib rs a2 = Some (a3, out)"
    and again: "qm_message_id m' = qm_message_id m" "transfer_check lib a3 m' source_arn = Inr ()"
    and window: "\<And>early late e es ev i. (early, late, e, es, ev) \<in> set rs \<Longrightarrow>
        now_at e i < now_at e1 2 + dedup_window_secs * nanos_per_sec"
      "now_at e2 1 < now_at e1 2 + dedup_window_secs * nanos_per_sec"
  shows "accept_transfer lib e2 m' source_arn a3 = Some (a3, Inr ())"
proof -
  have "dedup_hit (now_at e1 1) (DedupRedrive source_arn (qm_message_id m)) s = None"
    using new by (simp add: dedup_hit_def)
  from accepted_transfer_cached [OF first fifo this] obtain entry where
    entry: "cached (DedupRedrive source_arn (qm_message_id m)) a2 = Some entry"
    "de_expiry entry = now_at e1 2 + dedup_window_secs * nanos_per_sec" .
  have "cached (DedupRedrive source_arn (qm_message_id m)) a3 = Some entry"
    by (rule run_cache [OF run entry(1)]) (simp add: entry(2) window(1))
  then show ?thesis
    using again window(2) entry(2) by (intro duplicate_transfer [where entry = entry]) simp_all
qed

definition demo_message :: queue_message where
  "demo_message =
     \<lparr>qm_message_id = ''m1'', qm_body = ''b'', qm_md5_of_body = ''b'', qm_message_attributes = [],
      qm_md5_of_message_attributes = None, qm_sender_id = ''0'', qm_sent_timestamp = 0,
      qm_approximate_receive_count = 3, qm_approximate_first_receive_timestamp = None,
      qm_sequence_number = None, qm_message_group_id = Some ''g'',
      qm_message_deduplication_id = None, qm_dead_letter_queue_source_arn = None,
      qm_available_at = 0, qm_delay_seconds = 0\<rparr>"

theorem second_redrive_loses_message_witness:
  "\<exists>a2 a3 out. accept_transfer demo_libs (demo_env 0) demo_message ''arn:s.fifo'' demo_queue =
       Some (a2, Inr ()) \<and>
     run_actor demo_libs [([], [], demo_env 1, demo_polls 1, EvCommand (CmdPurge 1) False)] a2 = Some (a3, out) \<and>
     actor_held a3 = {#} \<and>
     accept_transfer demo_libs (demo_env 2) demo_message ''arn:s.fifo'' a3 = Some (a3, Inr ())"
proof -
  let ?rs = "[([], [], demo_env 1, demo_polls 1, EvCommand (CmdPurge 1) False)]"
  define a2 where
    "a2 = fst (the (accept_transfer demo_libs (demo_env 0) demo_message ''arn:s.fifo'' demo_queue))"
  define a3 where "a3 = fst (the (run_actor demo_libs ?rs a2))"
  have scope: "arn_scope ''arn:s.fifo'' = Some ''arn''" "arn_scope ''arn:q.fifo'' = Some ''arn''"
    by (simp_all add: arn_scope_def str_rsplit_once_def)
  note eval = demo_eval accept_transfer_def transfer_check_def redriven_message_def demo_message_def
    handle_purge_def fifo_purge_def actor_held_def fifo_held_def group_payloads_def
    in_flight_payloads_def payloads_def bt_values_def
  have first: "accept_transfer demo_libs (demo_env 0) demo_message ''arn:s.fifo'' demo_queue =
      Some (a2, Inr ())"
    by (simp add: a2_def eval scope)
  obtain out where run: "run_actor demo_libs ?rs a2 = Some (a3, out)"
    by (simp add: a3_def a2_def eval scope)
  have held: "actor_held a3 = {#}" by (simp add: a3_def a2_def eval scope)
  have check: "transfer_check demo_libs a3 demo_message ''arn:s.fifo'' = Inr ()"
    by (simp add: a3_def a2_def eval scope)
  have st: "qa_storage demo_queue = FifoStorage fifo_default"
    by (simp add: demo_queue_def queue_actor_new_def)
  have "accept_transfer demo_libs (demo_env 2) demo_message ''arn:s.fifo'' a3 = Some (a3, Inr ())"
    by (rule second_redrive_loses_message [OF first st _ run refl check])
      (auto simp: fifo_default_def dedup_window_secs_def nanos_per_sec_def)
  with first run held show ?thesis by blast
qed

end
