(* ===== verification/Dynamo_Types.thy ===== *)
theory Dynamo_Types
  imports Rustack_Prelude
begin

text \<open>
  The data of the DynamoDB core (\<^verbatim>\<open>rustack-dynamodb-core\<close> and \<^verbatim>\<open>rustack-dynamodb-model\<close>): attribute
  values, the abstract syntax of expressions (\<^verbatim>\<open>expression/ast.rs\<close>), and the errors of parsing and
  evaluating them. A \<^verbatim>\<open>HashMap\<close> from attribute names is its key-sorted list of entries, \<^verbatim>\<open>Bytes\<close>
  are byte strings, and a number is the decimal string that the service keeps.
\<close>

section \<open>Attribute values\<close>

datatype attribute_value =
    AvS string
  | AvN string
  | AvB string
  | AvSs "string list"
  | AvNs "string list"
  | AvBs "string list"
  | AvBool bool
  | AvNull bool
  | AvL "attribute_value list"
  | AvM "(string \<times> attribute_value) list"

type_synonym item = "(string, attribute_value) btree"

fun as_m :: "attribute_value \<Rightarrow> item option" where
  "as_m (AvM m) = Some m"
| "as_m _ = None"

fun as_l :: "attribute_value \<Rightarrow> attribute_value list option" where
  "as_l (AvL l) = Some l"
| "as_l _ = None"

fun type_descriptor :: "attribute_value \<Rightarrow> string" where
  "type_descriptor (AvS _) = ''S''"
| "type_descriptor (AvN _) = ''N''"
| "type_descriptor (AvB _) = ''B''"
| "type_descriptor (AvSs _) = ''SS''"
| "type_descriptor (AvNs _) = ''NS''"
| "type_descriptor (AvBs _) = ''BS''"
| "type_descriptor (AvBool _) = ''BOOL''"
| "type_descriptor (AvNull _) = ''NULL''"
| "type_descriptor (AvL _) = ''L''"
| "type_descriptor (AvM _) = ''M''"

section \<open>Abstract syntax\<close>

datatype compare_op = CmpEq | CmpNe | CmpLt | CmpLe | CmpGt | CmpGe

datatype logical_op = LogAnd | LogOr

datatype function_name =
    FnAttributeExists
  | FnAttributeNotExists
  | FnAttributeType
  | FnBeginsWith
  | FnContains
  | FnSize

text \<open>The name in \<open>PathAttr\<close> keeps the \<open>#\<close> of a placeholder.\<close>

datatype path_element =
    PathAttr string
  | PathIndex nat

type_synonym attribute_path = "path_element list"

datatype operand =
    OpPath attribute_path
  | OpValue string
  | OpSize operand

datatype expr =
    ECompare operand compare_op operand
  | EBetween operand operand operand
  | EIn operand "operand list"
  | ELogical logical_op expr expr
  | ENot expr
  | EFunction function_name "operand list"

datatype set_value =
    SvOperand operand
  | SvPlus set_value set_value
  | SvMinus set_value set_value
  | SvIfNotExists attribute_path operand
  | SvListAppend operand operand

record set_action =
  sa_path :: attribute_path
  sa_value :: set_value

record path_action =
  pa_path :: attribute_path
  pa_value :: operand

record update_expr =
  ue_set_actions :: "set_action list"
  ue_remove_paths :: "attribute_path list"
  ue_add_actions :: "path_action list"
  ue_delete_actions :: "path_action list"

section \<open>Errors\<close>

text \<open>\<^verbatim>\<open>ExpressionError\<close>; the explanation that goes with a kind is not modelled.\<close>

datatype expression_error =
    UnexpectedToken
  | UnexpectedEof
  | UnresolvedName string
  | UnresolvedValue string
  | InvalidOperand string
  | TypeMismatch
  | ValidationError

section \<open>References of an expression\<close>

text \<open>The collectors of \<^verbatim>\<open>ast.rs\<close>; the \<^verbatim>\<open>HashSet\<close> they fill is a set.\<close>

definition names_of_path :: "attribute_path \<Rightarrow> string set" where
  "names_of_path path =
     (\<Union>e\<in>set path. (case e of PathAttr name \<Rightarrow> if starts_with name ''#'' then {name} else {}
                        | PathIndex _ \<Rightarrow> {}))"

fun names_of_operand :: "operand \<Rightarrow> string set" where
  "names_of_operand (OpPath path) = names_of_path path"
| "names_of_operand (OpValue _) = {}"
| "names_of_operand (OpSize inner) = names_of_operand inner"

fun values_of_operand :: "operand \<Rightarrow> string set" where
  "values_of_operand (OpPath _) = {}"
| "values_of_operand (OpValue name) = {CHR '':'' # name}"
| "values_of_operand (OpSize inner) = values_of_operand inner"

fun operands_of_expr :: "expr \<Rightarrow> operand list" where
  "operands_of_expr (ECompare l op r) = [l, r]"
| "operands_of_expr (EBetween v lo hi) = [v, lo, hi]"
| "operands_of_expr (EIn v xs) = v # xs"
| "operands_of_expr (ELogical op l r) = operands_of_expr l @ operands_of_expr r"
| "operands_of_expr (ENot e) = operands_of_expr e"
| "operands_of_expr (EFunction name args) = args"

definition collect_names_from_expr :: "expr \<Rightarrow> string set" where
  "collect_names_from_expr e = \<Union> (names_of_operand ` set (operands_of_expr e))"

definition collect_values_from_expr :: "expr \<Rightarrow> string set" where
  "collect_values_from_expr e = \<Union> (values_of_operand ` set (operands_of_expr e))"

fun top_path_of_operand :: "operand \<Rightarrow> string set" where
  "top_path_of_operand (OpPath (PathAttr name # _)) = {name}"
| "top_path_of_operand (OpPath _) = {}"
| "top_path_of_operand (OpValue _) = {}"
| "top_path_of_operand (OpSize inner) = top_path_of_operand inner"

definition collect_paths_from_expr :: "expr \<Rightarrow> string set" where
  "collect_paths_from_expr e = \<Union> (top_path_of_operand ` set (operands_of_expr e))"

fun names_of_set_value :: "set_value \<Rightarrow> string set" where
  "names_of_set_value (SvOperand op) = names_of_operand op"
| "names_of_set_value (SvPlus a b) = names_of_set_value a \<union> names_of_set_value b"
| "names_of_set_value (SvMinus a b) = names_of_set_value a \<union> names_of_set_value b"
| "names_of_set_value (SvIfNotExists path op) = names_of_path path \<union> names_of_operand op"
| "names_of_set_value (SvListAppend a b) = names_of_operand a \<union> names_of_operand b"

fun values_of_set_value :: "set_value \<Rightarrow> string set" where
  "values_of_set_value (SvOperand op) = values_of_operand op"
| "values_of_set_value (SvPlus a b) = values_of_set_value a \<union> values_of_set_value b"
| "values_of_set_value (SvMinus a b) = values_of_set_value a \<union> values_of_set_value b"
| "values_of_set_value (SvIfNotExists path op) = values_of_operand op"
| "values_of_set_value (SvListAppend a b) = values_of_operand a \<union> values_of_operand b"

definition collect_names_from_update :: "update_expr \<Rightarrow> string set" where
  "collect_names_from_update u =
     (\<Union>a\<in>set (ue_set_actions u). names_of_path (sa_path a) \<union> names_of_set_value (sa_value a)) \<union>
     (\<Union>p\<in>set (ue_remove_paths u). names_of_path p) \<union>
     (\<Union>a\<in>set (ue_add_actions u). names_of_path (pa_path a) \<union> names_of_operand (pa_value a)) \<union>
     (\<Union>a\<in>set (ue_delete_actions u). names_of_path (pa_path a) \<union> names_of_operand (pa_value a))"

definition collect_values_from_update :: "update_expr \<Rightarrow> string set" where
  "collect_values_from_update u =
     (\<Union>a\<in>set (ue_set_actions u). values_of_set_value (sa_value a)) \<union>
     (\<Union>a\<in>set (ue_add_actions u). values_of_operand (pa_value a)) \<union>
     (\<Union>a\<in>set (ue_delete_actions u). values_of_operand (pa_value a))"

definition collect_names_from_projection :: "attribute_path list \<Rightarrow> string set" where
  "collect_names_from_projection paths = (\<Union>p\<in>set paths. names_of_path p)"

end
