(* ===== verification/Rust_Text.thy ===== *)
theory Rust_Text
  imports Rustack_Prelude
begin

text \<open>
  More of Rust's \<^verbatim>\<open>str\<close>: \<^verbatim>\<open>find\<close> with a character pattern, \<^verbatim>\<open>trim\<close>, \<^verbatim>\<open>trim_start_matches\<close>,
  \<^verbatim>\<open>to_ascii_lowercase\<close>, and \<^verbatim>\<open>from_utf8_lossy\<close>.
\<close>

text \<open>The text before and after the first character that satisfies \<open>P\<close>; the slices
  \<^verbatim>\<open>&s[..pos]\<close> and \<^verbatim>\<open>&s[pos + 1..]\<close> for \<^verbatim>\<open>pos = s.find(P)\<close> and an ASCII pattern.\<close>

fun split_where :: "(char \<Rightarrow> bool) \<Rightarrow> string \<Rightarrow> (string \<times> string) option" where
  "split_where P [] = None"
| "split_where P (c # s) =
     (if P c then Some ([], s) else map_option (\<lambda>(a, b). (c # a, b)) (split_where P s))"

definition trim_start_matches :: "char \<Rightarrow> string \<Rightarrow> string" where
  "trim_start_matches c s = dropWhile (\<lambda>d. d = c) s"

definition trim_end_matches :: "char \<Rightarrow> string \<Rightarrow> string" where
  "trim_end_matches c s = rev (dropWhile (\<lambda>d. d = c) (rev s))"

text \<open>The number of bytes of the white-space character (Unicode \<^verbatim>\<open>White_Space\<close>) at the start of a
  text, zero when there is none.\<close>

definition white_space_3 :: "nat \<Rightarrow> nat \<Rightarrow> nat \<Rightarrow> bool" where
  "white_space_3 a b c \<longleftrightarrow>
     a = 225 \<and> b = 154 \<and> c = 128 \<or>
     a = 226 \<and> b = 128 \<and> (128 \<le> c \<and> c \<le> 138 \<or> c = 168 \<or> c = 169 \<or> c = 175) \<or>
     a = 226 \<and> b = 129 \<and> c = 159 \<or>
     a = 227 \<and> b = 128 \<and> c = 128"

fun white_space_len :: "nat list \<Rightarrow> nat" where
  "white_space_len [] = 0"
| "white_space_len (a # s) =
     (if 9 \<le> a \<and> a \<le> 13 \<or> a = 32 then 1
      else case s of
        [] \<Rightarrow> 0
      | b # t \<Rightarrow>
          if a = 194 \<and> (b = 133 \<or> b = 160) then 2
          else (case t of [] \<Rightarrow> 0 | c # _ \<Rightarrow> if white_space_3 a b c then 3 else 0))"

function trim_start :: "string \<Rightarrow> string" where
  "trim_start s =
     (let n = white_space_len (map byte_of s) in if n = 0 then s else trim_start (drop n s))"
  by auto
termination
proof (relation "measure length")
  fix s n
  assume n: "n = white_space_len (map byte_of s)" "n \<noteq> 0"
  then have "s \<noteq> []" by auto
  with n show "(drop n s, s) \<in> measure length" by simp
qed simp

declare trim_start.simps [simp del]

text \<open>At the end of a text the last character is found from its last byte.\<close>

definition white_space_end_len :: "nat list \<Rightarrow> nat" where
  "white_space_end_len s =
     (let n = length s
      in if 1 \<le> n \<and> white_space_len (drop (n - 1) s) = 1 then 1
         else if 2 \<le> n \<and> white_space_len (drop (n - 2) s) = 2 then 2
         else if 3 \<le> n \<and> white_space_len (drop (n - 3) s) = 3 then 3
         else 0)"

lemma white_space_end_len_le: "white_space_end_len s \<le> length s"
  by (simp add: white_space_end_len_def Let_def)

function trim_end :: "string \<Rightarrow> string" where
  "trim_end s =
     (let n = white_space_end_len (map byte_of s)
      in if n = 0 then s else trim_end (take (length s - n) s))"
  by auto
termination
proof (relation "measure length")
  fix s n
  assume n: "n = white_space_end_len (map byte_of s)" "n \<noteq> 0"
  moreover have "n \<le> length s" using white_space_end_len_le [of "map byte_of s"] n by simp
  ultimately show "(take (length s - n) s, s) \<in> measure length" by simp
qed simp

declare trim_end.simps [simp del]

definition str_trim :: "string \<Rightarrow> string" where
  "str_trim s = trim_end (trim_start s)"

definition to_ascii_lowercase :: "string \<Rightarrow> string" where
  "to_ascii_lowercase s = map to_ascii_lower s"

definition is_ascii_alphabetic :: "char \<Rightarrow> bool" where
  "is_ascii_alphabetic c \<longleftrightarrow> is_ascii_lower c \<or> is_ascii_upper c"

definition is_ascii_alphanumeric :: "char \<Rightarrow> bool" where
  "is_ascii_alphanumeric c \<longleftrightarrow> is_ascii_alphabetic c \<or> is_ascii_digit c"

text \<open>\<^verbatim>\<open>char::is_ascii_whitespace\<close>: space, tab, line feed, form feed, carriage return.\<close>

definition is_ascii_whitespace :: "char \<Rightarrow> bool" where
  "is_ascii_whitespace c \<longleftrightarrow> byte_of c \<in> {9, 10, 12, 13, 32}"

section \<open>Facts\<close>

lemma split_where_None: "split_where P s = None \<longleftrightarrow> (\<forall>c\<in>set s. \<not> P c)"
  by (induction s) auto

lemma split_where_Some:
  "split_where P s = Some (a, b) \<Longrightarrow> \<exists>c. s = a @ c # b \<and> P c \<and> (\<forall>d\<in>set a. \<not> P d)"
  by (induction s arbitrary: a) (auto split: if_splits)

lemma split_where_append:
  "\<forall>c\<in>set a. \<not> P c \<Longrightarrow> P c \<Longrightarrow> split_where P (a @ c # b) = Some (a, b)"
  by (induction a) auto

text \<open>A text whose first and last bytes are printable ASCII has nothing to trim.\<close>

definition visible :: "char \<Rightarrow> bool" where
  "visible c \<longleftrightarrow> 33 \<le> byte_of c \<and> byte_of c < 127"

lemma visible_not_space: "visible c \<Longrightarrow> white_space_len (byte_of c # s) = 0"
  by (auto simp: visible_def white_space_3_def split: list.split)

lemma trim_start_visible: "visible c \<Longrightarrow> trim_start (c # s) = c # s"
  by (subst trim_start.simps) (simp only: list.map visible_not_space Let_def, simp)

lemma white_space_last_visible:
  assumes "visible c"
  shows "white_space_end_len (map byte_of (s @ [c])) = 0"
proof -
  have "white_space_len [byte_of c] = 0" by (rule visible_not_space [OF assms])
  moreover have "white_space_len (a # [byte_of c]) \<noteq> 2" for a
    using assms by (auto simp: visible_def)
  moreover have "white_space_len (a # b # [byte_of c]) \<noteq> 3" for a b
    using assms by (auto simp: visible_def white_space_3_def)
  ultimately show ?thesis
    unfolding white_space_end_len_def Let_def
    by (cases s rule: rev_cases; cases "butlast s" rule: rev_cases) auto
qed

lemma trim_end_visible: "visible c \<Longrightarrow> trim_end (s @ [c]) = s @ [c]"
  by (subst trim_end.simps) (simp only: white_space_last_visible Let_def, simp)

lemma str_trim_visible:
  assumes "s \<noteq> []" "visible (hd s)" "visible (last s)"
  shows "str_trim s = s"
proof -
  have "trim_start s = s" using assms(1,2) trim_start_visible [of "hd s" "tl s"] by simp
  moreover have "trim_end s = s"
    using assms(1,3) trim_end_visible [of "last s" "butlast s"] by simp
  ultimately show ?thesis by (simp add: str_trim_def)
qed

chapter \<open>UTF-8\<close>

text \<open>
  Byte strings that are the text of a Rust \<^verbatim>\<open>str\<close> (valid UTF-8), and \<^verbatim>\<open>str::splitn\<close>.
\<close>

text \<open>\<^verbatim>\<open>splitn\<close>: at most \<open>n\<close> parts, the last one unsplit.\<close>

fun splitn :: "nat \<Rightarrow> char \<Rightarrow> string \<Rightarrow> string list" where
  "splitn 0 c s = []"
| "splitn (Suc 0) c s = [s]"
| "splitn (Suc (Suc n)) c s =
     (case split_once c s of None \<Rightarrow> [s] | Some (a, b) \<Rightarrow> a # splitn (Suc n) c b)"

lemma utf8_valid_append: "utf8_valid xs \<Longrightarrow> utf8_valid (xs @ ys) \<longleftrightarrow> utf8_valid ys"
proof (induction xs rule: utf8_valid.induct)
  case (2 a bs)
  show ?case
  proof (cases "a < 128")
    case True
    then show ?thesis using 2 by simp
  next
    case a: False
    then obtain b cs where b: "bs = b # cs" using 2(5) by (cases bs) auto
    show ?thesis
    proof (cases "194 \<le> a \<and> a < 224")
      case True
      then show ?thesis using 2 a b by simp
    next
      case a2: False
      then obtain c ds where c: "cs = c # ds" using 2(5) a b by (cases cs) auto
      show ?thesis
      proof (cases "224 \<le> a \<and> a < 240")
        case True
        then show ?thesis using 2(3,5) a a2 b c by simp
      next
        case a3: False
        then obtain d es where "ds = d # es" using 2(5) a a2 b c by (cases ds) auto
        then show ?thesis using 2(4,5) a a2 a3 b c by simp
      qed
    qed
  qed
qed simp

lemma utf8_valid_ascii: "\<forall>b\<in>set xs. b < 128 \<Longrightarrow> utf8_valid xs"
  by (induction xs) auto

lemma digit_bytes: "is_ascii_digit c \<Longrightarrow> byte_of c < 128 \<and> c \<noteq> CHR '':''"
  by (auto simp: is_ascii_digit_def byte_of_def)

definition valid_text :: "string \<Rightarrow> bool" where
  "valid_text s \<longleftrightarrow> utf8_valid (map byte_of s)"

text \<open>A text starts with a whole character, an ASCII one or one without ASCII bytes.\<close>

lemma utf8_valid_first:
  assumes "utf8_valid (x # bs)"
  shows "\<exists>w ys. x # bs = w @ ys \<and> w \<noteq> [] \<and> utf8_valid ys \<and> (w = [x] \<or> (\<forall>b\<in>set w. 128 \<le> b))"
proof (cases "x < 128")
  case True
  then show ?thesis using assms by (intro exI [of _ "[x]"] exI [of _ bs]) simp
next
  case x: False
  then obtain b cs where b: "bs = b # cs" using assms by (cases bs) auto
  show ?thesis
  proof (cases "194 \<le> x \<and> x < 224")
    case True
    then have "utf8_cont b" "utf8_valid cs" using assms x b by simp_all
    then show ?thesis using b x by (intro exI [of _ "[x, b]"] exI [of _ cs]) (simp add: utf8_cont_def)
  next
    case x2: False
    then obtain c ds where c: "cs = c # ds" using assms x b by (cases cs) auto
    show ?thesis
    proof (cases "224 \<le> x \<and> x < 240")
      case True
      then have "utf8_cont b" "utf8_cont c" "utf8_valid ds" using assms x x2 b c by simp_all
      then show ?thesis using b c x by (intro exI [of _ "[x, b, c]"] exI [of _ ds]) (simp add: utf8_cont_def)
    next
      case x3: False
      then obtain d es where d: "ds = d # es" using assms x x2 b c by (cases ds) auto
      then have "utf8_cont b" "utf8_cont c" "utf8_cont d" "utf8_valid es" using assms x x2 x3 b c by simp_all
      then show ?thesis
        using b c d x by (intro exI [of _ "[x, b, c, d]"] exI [of _ es]) (simp add: utf8_cont_def)
    qed
  qed
qed

text \<open>What follows an ASCII character starts a character.\<close>

lemma utf8_valid_after_ascii: "utf8_valid xs \<Longrightarrow> xs = u @ a # v \<Longrightarrow> a < 128 \<Longrightarrow> utf8_valid v"
proof (induction "length xs" arbitrary: xs u rule: less_induct)
  case less
  have "xs \<noteq> []" using less.prems by simp
  then obtain x bs where xs: "xs = x # bs" by (meson neq_Nil_conv)
  then obtain w ys where w: "xs = w @ ys" "w \<noteq> []" "utf8_valid ys" "w = [x] \<or> (\<forall>b\<in>set w. 128 \<le> b)"
    using utf8_valid_first less.prems(1) by blast
  show ?case
  proof (cases "u = [] \<and> w = [x]")
    case True
    then show ?thesis using w less.prems(2) by simp
  next
    case False
    have "\<exists>us. u = w @ us \<and> ys = us @ a # v"
      using w less.prems(2,3) False by (cases u) (auto simp: append_eq_append_conv2 append_eq_Cons_conv Cons_eq_append_conv)
    then show ?thesis using less.hyps [of ys] w less.prems(3) by auto
  qed
qed

lemma utf8_valid_head: "utf8_valid (b # bs) \<Longrightarrow> \<not> utf8_cont b"
  by (cases bs; cases "tl bs"; cases "tl (tl bs)") (auto simp: utf8_cont_def split: if_splits)

end
