(* ===== verification/Dynamo_Lexer.thy ===== *)
theory Dynamo_Lexer
  imports Dynamo_Types Rust_Text
begin

text \<open>
  The lexer of \<^verbatim>\<open>expression/parser.rs\<close>. The \<^verbatim>\<open>Peekable<Chars>\<close> is the rest of the text; a text is a
  byte string, and the lexer looks at ASCII characters only. It always terminates, and it reads back
  a printed token list (\<open>tokenize_print\<close>).
\<close>

section \<open>Tokens\<close>

datatype token =
    TkIdentifier string | TkExprAttrName string | TkExprAttrValue string
  | TkEq | TkNe | TkLt | TkLe | TkGt | TkGe | TkPlus | TkMinus | TkDot | TkComma
  | TkLParen | TkRParen | TkLBracket | TkRBracket
  | TkAnd | TkOr | TkNot | TkBetween | TkIn | TkSet | TkRemove | TkAdd | TkDelete
  | TkAttributeExists | TkAttributeNotExists | TkAttributeType | TkBeginsWith | TkContains
  | TkSize | TkIfNotExists | TkListAppend
  | TkNumber nat
  | TkEof

section \<open>Lexing\<close>

definition is_ident_start :: "char \<Rightarrow> bool" where
  "is_ident_start c \<longleftrightarrow> is_ascii_alphabetic c"

definition is_ident_continue :: "char \<Rightarrow> bool" where
  "is_ident_continue c \<longleftrightarrow> is_ascii_alphanumeric c \<or> c = CHR ''_''"

definition skip_whitespace :: "string \<Rightarrow> string" where
  "skip_whitespace s = dropWhile is_ascii_whitespace s"

text \<open>\<^verbatim>\<open>read_ref_chars\<close> and \<^verbatim>\<open>read_ident_chars\<close> take the same characters.\<close>

definition read_ref_chars :: "string \<Rightarrow> string \<times> string" where
  "read_ref_chars s =
     (takeWhile (\<lambda>c. is_ascii_alphanumeric c \<or> c = CHR ''_'') s,
      dropWhile (\<lambda>c. is_ascii_alphanumeric c \<or> c = CHR ''_'') s)"

definition read_ident_chars :: "string \<Rightarrow> string \<times> string" where
  "read_ident_chars s = (takeWhile is_ident_continue s, dropWhile is_ident_continue s)"

definition read_expr_attr_name :: "string \<Rightarrow> expression_error + token \<times> string" where
  "read_expr_attr_name s =
     (let (name, rest) = read_ref_chars s
      in if name = [] then Inl UnexpectedToken else Inr (TkExprAttrName name, rest))"

definition read_expr_attr_value :: "string \<Rightarrow> expression_error + token \<times> string" where
  "read_expr_attr_value s =
     (let (name, rest) = read_ref_chars s
      in if name = [] then Inl UnexpectedToken else Inr (TkExprAttrValue name, rest))"

fun read_lt_family :: "string \<Rightarrow> token \<times> string" where
  "read_lt_family [] = (TkLt, [])"
| "read_lt_family (c # s) =
     (if c = CHR ''='' then (TkLe, s) else if c = CHR ''>'' then (TkNe, s) else (TkLt, c # s))"

fun read_gt_family :: "string \<Rightarrow> token \<times> string" where
  "read_gt_family [] = (TkGt, [])"
| "read_gt_family (c # s) = (if c = CHR ''='' then (TkGe, s) else (TkGt, c # s))"

definition i32_max :: nat where
  "i32_max = 2147483647"

definition read_number :: "string \<Rightarrow> expression_error + token \<times> string" where
  "read_number s =
     (case parse_uint 64 (takeWhile is_ascii_digit s) of
        None \<Rightarrow> Inl ValidationError
      | Some n \<Rightarrow>
          if n > i32_max then Inl ValidationError else Inr (TkNumber n, dropWhile is_ascii_digit s))"

definition keyword_token :: "string \<Rightarrow> token option" where
  "keyword_token lower =
     map_of [(''and'', TkAnd), (''or'', TkOr), (''not'', TkNot), (''between'', TkBetween),
       (''in'', TkIn), (''set'', TkSet), (''remove'', TkRemove), (''add'', TkAdd),
       (''delete'', TkDelete)] lower"

definition function_token :: "string \<Rightarrow> token option" where
  "function_token ident =
     map_of [(''attribute_exists'', TkAttributeExists),
       (''attribute_not_exists'', TkAttributeNotExists), (''attribute_type'', TkAttributeType),
       (''begins_with'', TkBeginsWith), (''contains'', TkContains), (''size'', TkSize),
       (''if_not_exists'', TkIfNotExists), (''list_append'', TkListAppend)] ident"

definition read_identifier_or_keyword :: "string \<Rightarrow> token \<times> string" where
  "read_identifier_or_keyword s =
     (let (ident, rest) = read_ident_chars s
      in (case keyword_token (to_ascii_lowercase ident) of
            Some t \<Rightarrow> (t, rest)
          | None \<Rightarrow>
              (case function_token ident of
                 Some t \<Rightarrow> (t, rest)
               | None \<Rightarrow> (TkIdentifier ident, rest))))"

definition punctuation :: "char \<Rightarrow> token option" where
  "punctuation c =
     map_of [(CHR ''='', TkEq), (CHR ''+'', TkPlus), (CHR ''-'', TkMinus), (CHR ''.'', TkDot),
       (CHR '','', TkComma), (CHR ''('', TkLParen), (CHR '')'', TkRParen), (CHR ''['', TkLBracket),
       (CHR '']'', TkRBracket)] c"

definition next_token :: "string \<Rightarrow> expression_error + token \<times> string" where
  "next_token s0 =
     (case skip_whitespace s0 of
        [] \<Rightarrow> Inr (TkEof, [])
      | c # s \<Rightarrow>
          if c = CHR ''#'' then read_expr_attr_name s
          else if c = CHR '':'' then read_expr_attr_value s
          else if c = CHR ''<'' then Inr (read_lt_family s)
          else if c = CHR ''>'' then Inr (read_gt_family s)
          else (case punctuation c of
                  Some t \<Rightarrow> Inr (t, s)
                | None \<Rightarrow>
                    if is_ascii_digit c then read_number (c # s)
                    else if is_ident_start c then Inr (read_identifier_or_keyword (c # s))
                    else Inl UnexpectedToken))"

section \<open>Every token takes characters\<close>

lemma read_lt_length: "length (snd (read_lt_family s)) \<le> length s"
  by (cases s) auto

lemma read_gt_length: "length (snd (read_gt_family s)) \<le> length s"
  by (cases s) auto

lemma read_ref_length: "read_ref_chars s = (n, r) \<Longrightarrow> length r \<le> length s"
  by (auto simp: read_ref_chars_def length_dropWhile_le)

lemma read_identifier_length:
  assumes "is_ident_continue c" shows "length (snd (read_identifier_or_keyword (c # s))) \<le> length s"
  using assms length_dropWhile_le [of is_ident_continue s]
  by (simp add: read_identifier_or_keyword_def read_ident_chars_def split: option.splits)

lemma ident_start_continue: "is_ident_start c \<Longrightarrow> is_ident_continue c"
  by (simp add: is_ident_start_def is_ident_continue_def is_ascii_alphanumeric_def)

lemma next_token_less:
  assumes "next_token s = Inr (t, r)" "t \<noteq> TkEof" shows "length r < length s"
proof -
  obtain c u where cu: "skip_whitespace s = c # u"
    using assms by (cases "skip_whitespace s") (auto simp: next_token_def)
  have "length u < length s"
    using length_dropWhile_le [of is_ascii_whitespace s] cu unfolding skip_whitespace_def by simp
  moreover have "length r \<le> length u"
    using assms(1) read_lt_length [of u] read_gt_length [of u] read_ref_length [of u]
      read_identifier_length [of c u] ident_start_continue [of c] length_dropWhile_le [of is_ascii_digit u]
    by (auto simp: next_token_def cu read_expr_attr_name_def read_expr_attr_value_def read_number_def
        split: if_splits option.splits prod.splits)
  ultimately show ?thesis by simp
qed

function tokenize :: "string \<Rightarrow> expression_error + token list" where
  "tokenize s =
     (case next_token s of
        Inl e \<Rightarrow> Inl e
      | Inr (t, r) \<Rightarrow>
          if t = TkEof then Inr [TkEof] else res_map (\<lambda>ts. t # ts) (tokenize r))"
  by auto
termination by (relation "measure length") (auto dest: next_token_less)

declare tokenize.simps [simp del]

section \<open>Printing\<close>

fun token_text :: "token \<Rightarrow> string" where
  "token_text (TkIdentifier s) = s"
| "token_text (TkExprAttrName s) = CHR ''#'' # s"
| "token_text (TkExprAttrValue s) = CHR '':'' # s"
| "token_text TkEq = ''=''"
| "token_text TkNe = ''<>''"
| "token_text TkLt = ''<''"
| "token_text TkLe = ''<=''"
| "token_text TkGt = ''>''"
| "token_text TkGe = ''>=''"
| "token_text TkPlus = ''+''"
| "token_text TkMinus = ''-''"
| "token_text TkDot = ''.''"
| "token_text TkComma = '',''"
| "token_text TkLParen = ''(''"
| "token_text TkRParen = '')''"
| "token_text TkLBracket = ''[''"
| "token_text TkRBracket = '']''"
| "token_text TkAnd = ''AND''"
| "token_text TkOr = ''OR''"
| "token_text TkNot = ''NOT''"
| "token_text TkBetween = ''BETWEEN''"
| "token_text TkIn = ''IN''"
| "token_text TkSet = ''SET''"
| "token_text TkRemove = ''REMOVE''"
| "token_text TkAdd = ''ADD''"
| "token_text TkDelete = ''DELETE''"
| "token_text TkAttributeExists = ''attribute_exists''"
| "token_text TkAttributeNotExists = ''attribute_not_exists''"
| "token_text TkAttributeType = ''attribute_type''"
| "token_text TkBeginsWith = ''begins_with''"
| "token_text TkContains = ''contains''"
| "token_text TkSize = ''size''"
| "token_text TkIfNotExists = ''if_not_exists''"
| "token_text TkListAppend = ''list_append''"
| "token_text (TkNumber n) = show_nat n"
| "token_text TkEof = []"

text \<open>Tokens that the lexer can return before the end.\<close>

definition reference_name :: "string \<Rightarrow> bool" where
  "reference_name s \<longleftrightarrow> s \<noteq> [] \<and> list_all is_ident_continue s"

definition plain_identifier :: "string \<Rightarrow> bool" where
  "plain_identifier s \<longleftrightarrow> s \<noteq> [] \<and> is_ident_start (hd s) \<and> list_all is_ident_continue s \<and>
     keyword_token (to_ascii_lowercase s) = None \<and> function_token s = None"

fun token_ok :: "token \<Rightarrow> bool" where
  "token_ok (TkIdentifier s) = plain_identifier s"
| "token_ok (TkExprAttrName s) = reference_name s"
| "token_ok (TkExprAttrValue s) = reference_name s"
| "token_ok (TkNumber n) = (n \<le> i32_max)"
| "token_ok TkEof = False"
| "token_ok _ = True"

definition print_tokens :: "token list \<Rightarrow> string" where
  "print_tokens ts = concat (map (\<lambda>t. token_text t @ '' '') ts)"

section \<open>Reading back what was printed\<close>

lemma space_not_ident: "\<not> is_ident_continue CHR '' ''" "\<not> is_ascii_digit CHR '' ''"
  by (simp_all add: is_ident_continue_def is_ascii_alphanumeric_def is_ascii_alphabetic_def
      is_ascii_lower_def is_ascii_upper_def is_ascii_digit_def byte_of_def)

lemma takeWhile_word:
  "list_all P w \<Longrightarrow> \<not> P CHR '' '' \<Longrightarrow> takeWhile P (w @ CHR '' '' # s) = w \<and> dropWhile P (w @ CHR '' '' # s) = CHR '' '' # s"
  by (induction w) auto

lemma next_token_space: "next_token (CHR '' '' # s) = next_token s"
  by (simp add: next_token_def skip_whitespace_def is_ascii_whitespace_def byte_of_def)

lemma tokenize_space: "tokenize (CHR '' '' # s) = tokenize s"
  by (subst (1 2) tokenize.simps) (simp only: next_token_space)

lemma ident_start_code: "is_ident_start c \<Longrightarrow> 65 \<le> byte_of c \<and> byte_of c \<le> 122 \<and> (byte_of c \<le> 90 \<or> 97 \<le> byte_of c)"
  by (auto simp: is_ident_start_def is_ascii_alphabetic_def is_ascii_lower_def is_ascii_upper_def)

lemma next_token_word:
  assumes "is_ident_start c"
  shows "next_token (c # s) = Inr (read_identifier_or_keyword (c # s))"
proof -
  have b: "65 \<le> byte_of c" "byte_of c \<le> 122" "byte_of c \<le> 90 \<or> 97 \<le> byte_of c"
    using ident_start_code [OF assms] by auto
  have "byte_of c \<noteq> byte_of x" if "x \<in> set ''#:<>=+-.,()[]''" for x
    using b that by (auto simp: byte_of_def)
  then have ne: "c \<noteq> x" if "x \<in> set ''#:<>=+-.,()[]''" for x using that by blast
  have "\<not> is_ascii_whitespace c" "\<not> is_ascii_digit c"
    using b by (auto simp: is_ascii_whitespace_def is_ascii_digit_def)
  moreover have "punctuation c = None" using ne by (simp add: punctuation_def)
  ultimately show ?thesis
    using assms ne by (simp add: next_token_def skip_whitespace_def)
qed

lemma next_token_identifier:
  assumes "plain_identifier w"
  shows "next_token (w @ CHR '' '' # s) = Inr (TkIdentifier w, CHR '' '' # s)"
proof -
  obtain c u where w: "w = c # u" using assms by (cases w) (auto simp: plain_identifier_def)
  have "next_token (c # u @ CHR '' '' # s) = Inr (read_identifier_or_keyword (c # u @ CHR '' '' # s))"
    by (rule next_token_word) (use assms in \<open>simp add: w plain_identifier_def\<close>)
  moreover have "read_ident_chars (w @ CHR '' '' # s) = (w, CHR '' '' # s)"
    using takeWhile_word [of is_ident_continue w s] space_not_ident assms
    by (simp add: read_ident_chars_def plain_identifier_def)
  ultimately show ?thesis
    using assms by (simp add: read_identifier_or_keyword_def w plain_identifier_def)
qed

text \<open>The reserved words and the function names.\<close>

definition reserved :: "token list" where
  "reserved = [TkAnd, TkOr, TkNot, TkBetween, TkIn, TkSet, TkRemove, TkAdd, TkDelete, TkAttributeExists,
     TkAttributeNotExists, TkAttributeType, TkBeginsWith, TkContains, TkSize, TkIfNotExists, TkListAppend]"

lemma reserved_words:
  "list_all (\<lambda>t. token_text t \<noteq> [] \<and> is_ident_start (hd (token_text t)) \<and>
     list_all is_ident_continue (token_text t) \<and>
     (case keyword_token (to_ascii_lowercase (token_text t)) of
        Some k \<Rightarrow> k = t
      | None \<Rightarrow> function_token (token_text t) = Some t)) reserved"
  by code_simp

lemma next_token_reserved:
  assumes "t \<in> set reserved"
  shows "next_token (token_text t @ CHR '' '' # s) = Inr (t, CHR '' '' # s)"
proof -
  have r: "token_text t \<noteq> []" "is_ident_start (hd (token_text t))" "list_all is_ident_continue (token_text t)"
    "case keyword_token (to_ascii_lowercase (token_text t)) of Some k \<Rightarrow> k = t
      | None \<Rightarrow> function_token (token_text t) = Some t"
    using reserved_words assms by (auto simp: list_all_iff)
  obtain c u where w: "token_text t = c # u" using r(1) by (cases "token_text t") auto
  have "next_token (c # u @ CHR '' '' # s) = Inr (read_identifier_or_keyword (c # u @ CHR '' '' # s))"
    by (rule next_token_word) (use r(2) in \<open>simp add: w\<close>)
  moreover have "read_ident_chars (token_text t @ CHR '' '' # s) = (token_text t, CHR '' '' # s)"
    using takeWhile_word [OF r(3)] space_not_ident by (simp add: read_ident_chars_def)
  ultimately show ?thesis
    using r(4) by (simp add: read_identifier_or_keyword_def w split: option.splits)
qed

lemma next_token_reference:
  assumes "reference_name w"
  shows "next_token (CHR ''#'' # w @ CHR '' '' # s) = Inr (TkExprAttrName w, CHR '' '' # s)"
    and "next_token (CHR '':'' # w @ CHR '' '' # s) = Inr (TkExprAttrValue w, CHR '' '' # s)"
proof -
  have "read_ref_chars (w @ CHR '' '' # s) = (w, CHR '' '' # s)"
    using takeWhile_word [of is_ident_continue w s] space_not_ident assms
    unfolding read_ref_chars_def reference_name_def is_ident_continue_def [abs_def] by simp
  then show "next_token (CHR ''#'' # w @ CHR '' '' # s) = Inr (TkExprAttrName w, CHR '' '' # s)"
    and "next_token (CHR '':'' # w @ CHR '' '' # s) = Inr (TkExprAttrValue w, CHR '' '' # s)"
    using assms
    by (simp_all add: next_token_def skip_whitespace_def is_ascii_whitespace_def byte_of_def
        read_expr_attr_name_def read_expr_attr_value_def reference_name_def)
qed

lemma next_token_number:
  assumes "n \<le> i32_max"
  shows "next_token (show_nat n @ CHR '' '' # s) = Inr (TkNumber n, CHR '' '' # s)"
proof -
  obtain c u where w: "show_nat n = c # u" and c: "is_ascii_digit c" using show_nat_head by blast
  have "byte_of c \<noteq> byte_of x" if "x \<in> set ''#:<>=+-.,()[]''" for x
    using c that by (auto simp: byte_of_def is_ascii_digit_def)
  then have ne: "c \<noteq> x" if "x \<in> set ''#:<>=+-.,()[]''" for x using that by blast
  have "\<not> is_ascii_whitespace c" using c by (auto simp: is_ascii_whitespace_def is_ascii_digit_def)
  moreover have "punctuation c = None" using ne by (simp add: punctuation_def)
  moreover have "takeWhile is_ascii_digit (show_nat n @ CHR '' '' # s) = show_nat n \<and>
      dropWhile is_ascii_digit (show_nat n @ CHR '' '' # s) = CHR '' '' # s"
    by (rule takeWhile_word) (auto simp: list_all_iff set_show_nat space_not_ident)
  moreover have "parse_uint 64 (show_nat n) = Some n"
    by (rule parse_uint_show) (use assms in \<open>simp add: i32_max_def\<close>)
  ultimately show ?thesis
    using assms ne c by (simp add: next_token_def skip_whitespace_def read_number_def w)
qed

lemma next_token_print:
  assumes "token_ok t"
  shows "next_token (token_text t @ CHR '' '' # s) = Inr (t, CHR '' '' # s)"
  using assms next_token_reserved [of t s]
  by (cases t)
    (simp_all add: reserved_def next_token_identifier next_token_reference next_token_number,
     simp_all add: next_token_def skip_whitespace_def is_ascii_whitespace_def byte_of_def punctuation_def)

lemma tokenize_print:
  assumes "list_all token_ok ts"
  shows "tokenize (print_tokens ts) = Inr (ts @ [TkEof])"
  using assms
proof (induction ts)
  case Nil
  then show ?case
    by (subst tokenize.simps) (simp add: print_tokens_def next_token_def skip_whitespace_def)
next
  case (Cons t ts)
  have t: "token_ok t" "t \<noteq> TkEof" using Cons.prems by (cases t; simp)+
  have "print_tokens (t # ts) = token_text t @ CHR '' '' # print_tokens ts"
    by (simp add: print_tokens_def)
  then have "next_token (print_tokens (t # ts)) = Inr (t, CHR '' '' # print_tokens ts)"
    using next_token_print [OF t(1)] by simp
  then show ?case
    using t(2) Cons by (subst tokenize.simps) (simp add: tokenize_space)
qed

end
