(* ===== verification/Dynamo_Parser.thy ===== *)
theory Dynamo_Parser
  imports Dynamo_Lexer
begin

text \<open>
  The recursive-descent parser of \<^verbatim>\<open>expression/parser.rs\<close>. The parser's position in its token vector is
  the list of the tokens that are left; past the end it reads \<open>TkEof\<close>.

  The functions that call each other take fuel, one unit for each call, and answer \<open>Inl OutOfFuel\<close>
  when there is none. \<open>Dynamo_Grammar\<close> shows that a fuel linear in the number of tokens is enough.
\<close>

datatype parse_error = OutOfFuel | ParseError expression_error

type_synonym 'a parsed = "parse_error + 'a \<times> token list"

abbreviation syntax_error :: "parse_error + 'a" where
  "syntax_error \<equiv> Inl (ParseError UnexpectedToken)"

section \<open>Tokens\<close>

fun peek :: "token list \<Rightarrow> token" where
  "peek [] = TkEof"
| "peek (t # ts) = t"

text \<open>\<^verbatim>\<open>advance\<close> is \<open>tl\<close>; \<open>expect\<close> is used with tokens that carry no data.\<close>

definition expect :: "token \<Rightarrow> token list \<Rightarrow> parse_error + token list" where
  "expect t ts = (if peek ts = t then Inr (tl ts) else syntax_error)"

definition at_end :: "token list \<Rightarrow> bool" where
  "at_end ts \<longleftrightarrow> peek ts = TkEof"

definition is_function_call_ahead :: "token list \<Rightarrow> bool" where
  "is_function_call_ahead ts \<longleftrightarrow> peek (tl ts) = TkLParen"

section \<open>Paths and operands\<close>

definition parse_path_head :: "token list \<Rightarrow> path_element parsed" where
  "parse_path_head ts =
     (case peek ts of
        TkIdentifier name \<Rightarrow> Inr (PathAttr name, tl ts)
      | TkExprAttrName name \<Rightarrow> Inr (PathAttr (CHR ''#'' # name), tl ts)
      | _ \<Rightarrow> syntax_error)"

lemma res_bind_cong [fundef_cong]:
  "r = r' \<Longrightarrow> (\<And>x. r' = Inr x \<Longrightarrow> f x = g x) \<Longrightarrow> res_bind r f = res_bind r' g"
  by (cases r') auto

lemma parse_path_head_Inr: "parse_path_head ts = Inr (e, r) \<Longrightarrow> ts \<noteq> [] \<and> r = tl ts"
  by (cases ts) (auto simp: parse_path_head_def split: token.splits)

lemma expect_Inr: "expect t ts = Inr r \<longleftrightarrow> peek ts = t \<and> r = tl ts"
  by (auto simp: expect_def)

text \<open>The loop of \<^verbatim>\<open>parse_attribute_path\<close>.\<close>

function parse_path_tail :: "token list \<Rightarrow> attribute_path parsed" where
  "parse_path_tail ts =
     (if peek ts = TkDot then
        res_bind (parse_path_head (tl ts)) (\<lambda>(e, ts1).
          res_map (\<lambda>(p, r). (e # p, r)) (parse_path_tail ts1))
      else if peek ts = TkLBracket then
        (case peek (tl ts) of
           TkNumber idx \<Rightarrow>
             res_bind (expect TkRBracket (tl (tl ts))) (\<lambda>ts1.
               res_map (\<lambda>(p, r). (PathIndex idx # p, r)) (parse_path_tail ts1))
         | _ \<Rightarrow> syntax_error)
      else Inr ([], ts))"
  by auto
termination
proof (relation "measure length", goal_cases)
  case (2 ts x e ts1)
  then show ?case by (cases ts) (auto dest: parse_path_head_Inr)
next
  case (3 ts n ts1)
  then show ?case by (cases ts; cases "tl ts") (auto simp: expect_Inr)
qed simp

declare parse_path_tail.simps [simp del]

definition parse_attribute_path :: "token list \<Rightarrow> attribute_path parsed" where
  "parse_attribute_path ts =
     res_bind (parse_path_head ts) (\<lambda>(first, ts1).
       res_map (\<lambda>(p, r). (first # p, r)) (parse_path_tail ts1))"

fun parse_operand :: "nat \<Rightarrow> token list \<Rightarrow> operand parsed"
  and skip_operands :: "nat \<Rightarrow> token list \<Rightarrow> parse_error + token list" where
  "parse_operand 0 ts = Inl OutOfFuel"
| "parse_operand (Suc n) ts =
     (case peek ts of
        TkExprAttrValue name \<Rightarrow> Inr (OpValue name, tl ts)
      | TkSize \<Rightarrow>
          res_bind (expect TkLParen (tl ts)) (\<lambda>ts1.
          res_bind (parse_operand n ts1) (\<lambda>(inner, ts2).
            if peek ts2 = TkComma
            then res_bind (skip_operands n ts2) (\<lambda>_. Inl (ParseError (InvalidOperand ''size'')))
            else res_map (\<lambda>ts3. (OpSize inner, ts3)) (expect TkRParen ts2)))
      | _ \<Rightarrow> res_map (\<lambda>(path, r). (OpPath path, r)) (parse_attribute_path ts))"
| "skip_operands 0 ts = Inl OutOfFuel"
| "skip_operands (Suc n) ts =
     (if peek ts = TkComma
      then res_bind (parse_operand n (tl ts)) (\<lambda>(_, ts1). skip_operands n ts1)
      else Inr ts)"

text \<open>The loop \<^verbatim>\<open>while matches!(self.peek(), Token::Comma)\<close> that collects operands.\<close>

fun parse_operands_tail :: "nat \<Rightarrow> token list \<Rightarrow> operand list parsed" where
  "parse_operands_tail 0 ts = Inl OutOfFuel"
| "parse_operands_tail (Suc n) ts =
     (if peek ts = TkComma
      then res_bind (parse_operand n (tl ts)) (\<lambda>(op, ts1).
             res_map (\<lambda>(ops, r). (op # ops, r)) (parse_operands_tail n ts1))
      else Inr ([], ts))"

section \<open>Conditions\<close>

fun function_of_token :: "token \<Rightarrow> function_name option" where
  "function_of_token TkAttributeExists = Some FnAttributeExists"
| "function_of_token TkAttributeNotExists = Some FnAttributeNotExists"
| "function_of_token TkAttributeType = Some FnAttributeType"
| "function_of_token TkBeginsWith = Some FnBeginsWith"
| "function_of_token TkContains = Some FnContains"
| "function_of_token _ = None"

definition peek_function_name :: "token list \<Rightarrow> function_name option" where
  "peek_function_name ts = function_of_token (peek ts)"

definition parse_function_expr :: "nat \<Rightarrow> function_name \<Rightarrow> token list \<Rightarrow> expr parsed" where
  "parse_function_expr n name ts =
     res_bind (expect TkLParen (tl ts)) (\<lambda>ts1.
     res_bind (parse_operand n ts1) (\<lambda>(first, ts2).
     res_bind (parse_operands_tail n ts2) (\<lambda>(more, ts3).
     res_map (\<lambda>ts4. (EFunction name (first # more), ts4)) (expect TkRParen ts3))))"

fun compare_op_of_token :: "token \<Rightarrow> compare_op option" where
  "compare_op_of_token TkEq = Some CmpEq"
| "compare_op_of_token TkNe = Some CmpNe"
| "compare_op_of_token TkLt = Some CmpLt"
| "compare_op_of_token TkLe = Some CmpLe"
| "compare_op_of_token TkGt = Some CmpGt"
| "compare_op_of_token TkGe = Some CmpGe"
| "compare_op_of_token _ = None"

definition parse_postfix_expr :: "nat \<Rightarrow> operand \<Rightarrow> token list \<Rightarrow> expr parsed" where
  "parse_postfix_expr n left ts =
     (case compare_op_of_token (peek ts) of
        Some op \<Rightarrow> res_map (\<lambda>(right, r). (ECompare left op right, r)) (parse_operand n (tl ts))
      | None \<Rightarrow>
          if peek ts = TkBetween then
            res_bind (parse_operand n (tl ts)) (\<lambda>(low, ts1).
            res_bind (expect TkAnd ts1) (\<lambda>ts2.
            res_map (\<lambda>(high, r). (EBetween left low high, r)) (parse_operand n ts2)))
          else if peek ts = TkIn then
            res_bind (expect TkLParen (tl ts)) (\<lambda>ts1.
              if peek ts1 = TkRParen then syntax_error
              else
                res_bind (parse_operand n ts1) (\<lambda>(first, ts2).
                res_bind (parse_operands_tail n ts2) (\<lambda>(more, ts3).
                res_map (\<lambda>ts4. (EIn left (first # more), ts4)) (expect TkRParen ts3))))
          else syntax_error)"

function (sequential) parse_or_expr :: "nat \<Rightarrow> token list \<Rightarrow> expr parsed"
  and parse_or_tail :: "nat \<Rightarrow> expr \<Rightarrow> token list \<Rightarrow> expr parsed"
  and parse_and_expr :: "nat \<Rightarrow> token list \<Rightarrow> expr parsed"
  and parse_and_tail :: "nat \<Rightarrow> expr \<Rightarrow> token list \<Rightarrow> expr parsed"
  and parse_not_expr :: "nat \<Rightarrow> token list \<Rightarrow> expr parsed"
  and parse_primary_expr :: "nat \<Rightarrow> token list \<Rightarrow> expr parsed" where
  "parse_or_expr 0 ts = Inl OutOfFuel"
| "parse_or_expr (Suc n) ts =
     res_bind (parse_and_expr n ts) (\<lambda>(left, ts1). parse_or_tail n left ts1)"
| "parse_or_tail 0 left ts = Inl OutOfFuel"
| "parse_or_tail (Suc n) left ts =
     (if peek ts = TkOr
      then res_bind (parse_and_expr n (tl ts)) (\<lambda>(right, ts1).
             parse_or_tail n (ELogical LogOr left right) ts1)
      else Inr (left, ts))"
| "parse_and_expr 0 ts = Inl OutOfFuel"
| "parse_and_expr (Suc n) ts =
     res_bind (parse_not_expr n ts) (\<lambda>(left, ts1). parse_and_tail n left ts1)"
| "parse_and_tail 0 left ts = Inl OutOfFuel"
| "parse_and_tail (Suc n) left ts =
     (if peek ts = TkAnd
      then res_bind (parse_not_expr n (tl ts)) (\<lambda>(right, ts1).
             parse_and_tail n (ELogical LogAnd left right) ts1)
      else Inr (left, ts))"
| "parse_not_expr 0 ts = Inl OutOfFuel"
| "parse_not_expr (Suc n) ts =
     (if peek ts = TkNot then res_map (\<lambda>(e, r). (ENot e, r)) (parse_not_expr n (tl ts))
      else parse_primary_expr n ts)"
| "parse_primary_expr 0 ts = Inl OutOfFuel"
| "parse_primary_expr (Suc n) ts =
     (if peek ts = TkLParen then
        res_bind (parse_or_expr n (tl ts)) (\<lambda>(e, ts1). res_map (\<lambda>ts2. (e, ts2)) (expect TkRParen ts1))
      else if peek ts = TkIfNotExists then Inl (ParseError (InvalidOperand ''if_not_exists''))
      else if peek ts = TkListAppend then Inl (ParseError (InvalidOperand ''list_append''))
      else (case peek_function_name ts of
              Some name \<Rightarrow> parse_function_expr n name ts
            | None \<Rightarrow>
                res_bind (parse_operand n ts) (\<lambda>(operand, ts1). parse_postfix_expr n operand ts1)))"
  by pat_completeness auto
termination
  by (relation "measure (case_sum (case_sum fst (case_sum fst fst)) (case_sum fst (case_sum fst fst)))")
    simp_all

text \<open>The fuel for a token list, and the result of a parser run with it; \<open>None\<close> would be a parser
  that does not return.\<close>

definition parse_fuel :: "token list \<Rightarrow> nat" where
  "parse_fuel ts = 5 * length ts + 5"

fun returned :: "parse_error + 'a \<Rightarrow> (expression_error + 'a) option" where
  "returned (Inl OutOfFuel) = None"
| "returned (Inl (ParseError e)) = Some (Inl e)"
| "returned (Inr x) = Some (Inr x)"

definition finish_parse :: "'a \<times> token list \<Rightarrow> parse_error + 'a" where
  "finish_parse = (\<lambda>(x, rest). if at_end rest then Inr x else syntax_error)"

definition parse_condition :: "string \<Rightarrow> (expression_error + expr) option" where
  "parse_condition input =
     (case tokenize input of
        Inl e \<Rightarrow> Some (Inl e)
      | Inr tokens \<Rightarrow> returned (res_bind (parse_or_expr (parse_fuel tokens) tokens) finish_parse))"

section \<open>Updates\<close>

definition parse_if_not_exists :: "nat \<Rightarrow> token list \<Rightarrow> set_value parsed" where
  "parse_if_not_exists n ts =
     res_bind (expect TkLParen (tl ts)) (\<lambda>ts1.
     res_bind (parse_attribute_path ts1) (\<lambda>(path, ts2).
     res_bind (expect TkComma ts2) (\<lambda>ts3.
     res_bind (parse_operand n ts3) (\<lambda>(dflt, ts4).
     res_map (\<lambda>ts5. (SvIfNotExists path dflt, ts5)) (expect TkRParen ts4)))))"

definition parse_list_append :: "nat \<Rightarrow> token list \<Rightarrow> set_value parsed" where
  "parse_list_append n ts =
     res_bind (expect TkLParen (tl ts)) (\<lambda>ts1.
     res_bind (parse_operand n ts1) (\<lambda>(first, ts2).
     res_bind (expect TkComma ts2) (\<lambda>ts3.
     res_bind (parse_operand n ts3) (\<lambda>(second, ts4).
     res_map (\<lambda>ts5. (SvListAppend first second, ts5)) (expect TkRParen ts4)))))"

definition unknown_function :: "nat \<Rightarrow> token list \<Rightarrow> set_value parsed" where
  "unknown_function n ts =
     res_bind (expect TkLParen (tl ts)) (\<lambda>ts1.
     res_bind (parse_operand n ts1) (\<lambda>(_, ts2).
     res_bind (skip_operands n ts2) (\<lambda>ts3.
     res_bind (expect TkRParen ts3) (\<lambda>_. Inl (ParseError (InvalidOperand ''UpdateExpression''))))))"

definition parse_set_value_primary :: "nat \<Rightarrow> token list \<Rightarrow> set_value parsed" where
  "parse_set_value_primary n ts =
     (case peek ts of
        TkIfNotExists \<Rightarrow> parse_if_not_exists n ts
      | TkListAppend \<Rightarrow> parse_list_append n ts
      | TkIdentifier name \<Rightarrow>
          if is_function_call_ahead ts then unknown_function n ts
          else res_map (\<lambda>(op, r). (SvOperand op, r)) (parse_operand n ts)
      | _ \<Rightarrow> res_map (\<lambda>(op, r). (SvOperand op, r)) (parse_operand n ts))"

definition parse_set_value :: "nat \<Rightarrow> token list \<Rightarrow> set_value parsed" where
  "parse_set_value n ts =
     res_bind (parse_set_value_primary n ts) (\<lambda>(primary, ts1).
       if peek ts1 = TkPlus then
         res_map (\<lambda>(right, r). (SvPlus primary right, r)) (parse_set_value_primary n (tl ts1))
       else if peek ts1 = TkMinus then
         res_map (\<lambda>(right, r). (SvMinus primary right, r)) (parse_set_value_primary n (tl ts1))
       else Inr (primary, ts1))"

definition parse_set_action :: "nat \<Rightarrow> token list \<Rightarrow> set_action parsed" where
  "parse_set_action n ts =
     res_bind (parse_attribute_path ts) (\<lambda>(path, ts1).
     res_bind (expect TkEq ts1) (\<lambda>ts2.
     res_map (\<lambda>(v, r). (\<lparr>sa_path = path, sa_value = v\<rparr>, r)) (parse_set_value n ts2)))"

text \<open>\<^verbatim>\<open>parse_add_action\<close> and \<^verbatim>\<open>parse_delete_action\<close> read the same.\<close>

definition parse_path_action :: "nat \<Rightarrow> token list \<Rightarrow> path_action parsed" where
  "parse_path_action n ts =
     res_bind (parse_attribute_path ts) (\<lambda>(path, ts1).
     res_map (\<lambda>(v, r). (\<lparr>pa_path = path, pa_value = v\<rparr>, r)) (parse_operand n ts1))"

text \<open>A clause: one action and more after commas. The action's parser is an argument, and the fuel
  counts the actions.\<close>

fun parse_actions_tail :: "(token list \<Rightarrow> 'a parsed) \<Rightarrow> nat \<Rightarrow> token list \<Rightarrow> 'a list parsed" where
  "parse_actions_tail action 0 ts = Inl OutOfFuel"
| "parse_actions_tail action (Suc n) ts =
     (if peek ts = TkComma
      then res_bind (action (tl ts)) (\<lambda>(a, ts1).
             res_map (\<lambda>(as, r). (a # as, r)) (parse_actions_tail action n ts1))
      else Inr ([], ts))"

definition parse_clause :: "(token list \<Rightarrow> 'a parsed) \<Rightarrow> nat \<Rightarrow> token list \<Rightarrow> 'a list parsed" where
  "parse_clause action n ts =
     res_bind (action ts) (\<lambda>(a, ts1).
       res_map (\<lambda>(as, r). (a # as, r)) (parse_actions_tail action n ts1))"

definition empty_update :: update_expr where
  "empty_update = \<lparr>ue_set_actions = [], ue_remove_paths = [], ue_add_actions = [], ue_delete_actions = []\<rparr>"

text \<open>The loop of \<^verbatim>\<open>parse_update_expr\<close>; \<open>seen\<close> holds the clause keywords seen so far.\<close>

fun parse_update_loop :: "nat \<Rightarrow> token list \<Rightarrow> update_expr \<Rightarrow> token list \<Rightarrow> parse_error + update_expr" where
  "parse_update_loop 0 seen u ts = Inl OutOfFuel"
| "parse_update_loop (Suc n) seen u ts =
     (if at_end ts then Inr u
      else if peek ts \<notin> {TkSet, TkRemove, TkAdd, TkDelete} then syntax_error
      else if peek ts \<in> set seen then Inl (ParseError (InvalidOperand ''UpdateExpression''))
      else
        let seen' = peek ts # seen
        in (case peek ts of
              TkSet \<Rightarrow>
                res_bind (parse_clause (parse_set_action n) n (tl ts)) (\<lambda>(as, r).
                  parse_update_loop n seen' (u\<lparr>ue_set_actions := as\<rparr>) r)
            | TkRemove \<Rightarrow>
                res_bind (parse_clause parse_attribute_path n (tl ts)) (\<lambda>(ps, r).
                  parse_update_loop n seen' (u\<lparr>ue_remove_paths := ps\<rparr>) r)
            | TkAdd \<Rightarrow>
                res_bind (parse_clause (parse_path_action n) n (tl ts)) (\<lambda>(as, r).
                  parse_update_loop n seen' (u\<lparr>ue_add_actions := as\<rparr>) r)
            | _ \<Rightarrow>
                res_bind (parse_clause (parse_path_action n) n (tl ts)) (\<lambda>(as, r).
                  parse_update_loop n seen' (u\<lparr>ue_delete_actions := as\<rparr>) r)))"

definition update_is_empty :: "update_expr \<Rightarrow> bool" where
  "update_is_empty u \<longleftrightarrow> ue_set_actions u = [] \<and> ue_remove_paths u = [] \<and>
     ue_add_actions u = [] \<and> ue_delete_actions u = []"

definition parse_update :: "string \<Rightarrow> (expression_error + update_expr) option" where
  "parse_update input =
     (case tokenize input of
        Inl e \<Rightarrow> Some (Inl e)
      | Inr tokens \<Rightarrow>
          returned (res_bind (parse_update_loop (parse_fuel tokens) [] empty_update tokens)
            (\<lambda>u. if update_is_empty u then syntax_error else Inr u)))"

section \<open>Projections\<close>

text \<open>An empty segment between two commas, white space aside.\<close>

fun empty_segment :: "bool \<Rightarrow> string \<Rightarrow> bool" where
  "empty_segment saw_comma [] = False"
| "empty_segment saw_comma (c # s) =
     (if c = CHR '','' then saw_comma \<or> empty_segment True s
      else if \<not> is_ascii_whitespace c then empty_segment False s
      else empty_segment saw_comma s)"

text \<open>One pair of paths: \<open>True\<close> is a conflict, or a proper prefix.\<close>

fun paths_clash :: "attribute_path \<Rightarrow> attribute_path \<Rightarrow> bool" where
  "paths_clash [] b = (b \<noteq> [])"
| "paths_clash a [] = (a \<noteq> [])"
| "paths_clash (PathAttr x # a) (PathAttr y # b) = (x = y \<and> paths_clash a b)"
| "paths_clash (PathIndex x # a) (PathIndex y # b) = (x = y \<and> paths_clash a b)"
| "paths_clash (_ # a) (_ # b) = True"

fun validate_projection_paths :: "attribute_path list \<Rightarrow> bool" where
  "validate_projection_paths [] = True"
| "validate_projection_paths (p # ps) =
     (list_all (\<lambda>q. \<not> paths_clash p q) ps \<and> validate_projection_paths ps)"

text \<open>\<^verbatim>\<open>Display\<close> of a path; the duplicates test compares the printed paths.\<close>

fun path_element_text :: "path_element \<Rightarrow> string" where
  "path_element_text (PathAttr name) = name"
| "path_element_text (PathIndex i) = ''['' @ show_nat i @ '']''"

fun path_tail_text :: "attribute_path \<Rightarrow> string" where
  "path_tail_text [] = []"
| "path_tail_text (PathAttr name # p) = ''.'' @ name @ path_tail_text p"
| "path_tail_text (PathIndex i # p) = ''['' @ show_nat i @ '']'' @ path_tail_text p"

definition path_text :: "attribute_path \<Rightarrow> string" where
  "path_text p = (case p of [] \<Rightarrow> [] | e # r \<Rightarrow> path_element_text e @ path_tail_text r)"

definition parse_projection :: "string \<Rightarrow> (expression_error + attribute_path list) option" where
  "parse_projection input =
     (if str_trim input = [] then Some (Inl ValidationError)
      else if starts_with (trim_start input) '','' then Some (Inl ValidationError)
      else if ends_with (trim_end input) '','' then Some (Inl ValidationError)
      else if empty_segment False (str_trim input) then Some (Inl ValidationError)
      else (case tokenize input of
              Inl e \<Rightarrow> Some (Inl e)
            | Inr tokens \<Rightarrow>
                (case returned (res_bind (parse_clause parse_attribute_path (parse_fuel tokens) tokens)
                    finish_parse) of
                   None \<Rightarrow> None
                 | Some (Inl e) \<Rightarrow> Some (Inl e)
                 | Some (Inr paths) \<Rightarrow>
                     if \<exists>p\<in>set paths. length p > 32 then Some (Inl ValidationError)
                     else if \<not> distinct (map path_text paths) then Some (Inl ValidationError)
                     else if \<not> validate_projection_paths paths then Some (Inl ValidationError)
                     else Some (Inr paths))))"

end
