(* ===== verification/Dynamo_Grammar.thy ===== *)
theory Dynamo_Grammar
  imports Dynamo_Parser
begin

text \<open>
  The language of condition expressions as a grammar over tokens, and what the parser does with it:
  it always returns, it accepts exactly the sentences of the grammar, and it reads back every
  well-formed expression that is printed.
\<close>

section \<open>The grammar\<close>

inductive g_name :: "path_element \<Rightarrow> token \<Rightarrow> bool" where
  "g_name (PathAttr name) (TkIdentifier name)"
| "g_name (PathAttr (CHR ''#'' # name)) (TkExprAttrName name)"

inductive g_path_tail :: "attribute_path \<Rightarrow> token list \<Rightarrow> bool" where
  "g_path_tail [] []"
| "g_name e t \<Longrightarrow> g_path_tail p ts \<Longrightarrow> g_path_tail (e # p) (TkDot # t # ts)"
| "g_path_tail p ts \<Longrightarrow> g_path_tail (PathIndex i # p) (TkLBracket # TkNumber i # TkRBracket # ts)"

inductive g_path :: "attribute_path \<Rightarrow> token list \<Rightarrow> bool" where
  "g_name e t \<Longrightarrow> g_path_tail p ts \<Longrightarrow> g_path (e # p) (t # ts)"

inductive g_operand :: "operand \<Rightarrow> token list \<Rightarrow> bool" where
  "g_operand (OpValue name) [TkExprAttrValue name]"
| "g_operand inner ts \<Longrightarrow> g_operand (OpSize inner) (TkSize # TkLParen # ts @ [TkRParen])"
| "g_path p ts \<Longrightarrow> g_operand (OpPath p) ts"

inductive g_more :: "operand list \<Rightarrow> token list \<Rightarrow> bool" where
  "g_more [] []"
| "g_operand op ts \<Longrightarrow> g_more ops us \<Longrightarrow> g_more (op # ops) (TkComma # ts @ us)"

text \<open>A condition on operands, or a parenthesised expression, binds strongest; then \<open>NOT\<close>, then
  \<open>AND\<close> and \<open>OR\<close>, both to the left.\<close>

inductive g_atom :: "expr \<Rightarrow> token list \<Rightarrow> bool" where
  "function_of_token t = Some f \<Longrightarrow> g_operand a ts \<Longrightarrow> g_more as us \<Longrightarrow>
     g_atom (EFunction f (a # as)) (t # TkLParen # ts @ us @ [TkRParen])"
| "g_operand l ts \<Longrightarrow> compare_op_of_token t = Some c \<Longrightarrow> g_operand r us \<Longrightarrow>
     g_atom (ECompare l c r) (ts @ t # us)"
| "g_operand v ts \<Longrightarrow> g_operand lo us \<Longrightarrow> g_operand hi vs \<Longrightarrow>
     g_atom (EBetween v lo hi) (ts @ TkBetween # us @ TkAnd # vs)"
| "g_operand v ts \<Longrightarrow> g_operand x us \<Longrightarrow> g_more xs vs \<Longrightarrow>
     g_atom (EIn v (x # xs)) (ts @ TkIn # TkLParen # us @ vs @ [TkRParen])"

inductive g_or :: "expr \<Rightarrow> token list \<Rightarrow> bool"
  and g_or_tail :: "expr \<Rightarrow> expr \<Rightarrow> token list \<Rightarrow> bool"
  and g_and :: "expr \<Rightarrow> token list \<Rightarrow> bool"
  and g_and_tail :: "expr \<Rightarrow> expr \<Rightarrow> token list \<Rightarrow> bool"
  and g_not :: "expr \<Rightarrow> token list \<Rightarrow> bool" where
  g_orI: "g_and l ts \<Longrightarrow> g_or_tail l e us \<Longrightarrow> g_or e (ts @ us)"
| g_or_nil: "g_or_tail l l []"
| g_or_cons: "g_and r ts \<Longrightarrow> g_or_tail (ELogical LogOr l r) e us \<Longrightarrow> g_or_tail l e (TkOr # ts @ us)"
| g_andI: "g_not l ts \<Longrightarrow> g_and_tail l e us \<Longrightarrow> g_and e (ts @ us)"
| g_and_nil: "g_and_tail l l []"
| g_and_cons: "g_not r ts \<Longrightarrow> g_and_tail (ELogical LogAnd l r) e us \<Longrightarrow> g_and_tail l e (TkAnd # ts @ us)"
| g_notI: "g_not e ts \<Longrightarrow> g_not (ENot e) (TkNot # ts)"
| g_paren: "g_or e ts \<Longrightarrow> g_not e (TkLParen # ts @ [TkRParen])"
| g_atomI: "g_atom e ts \<Longrightarrow> g_not e ts"

section \<open>What a parser takes is a sentence\<close>

lemma peek_eq: "peek ts = t \<Longrightarrow> t \<noteq> TkEof \<Longrightarrow> ts = t # tl ts"
  by (cases ts) auto

lemma path_head_sound: "parse_path_head ts = Inr (e, r) \<Longrightarrow> \<exists>t. ts = t # r \<and> g_name e t"
  by (cases ts) (auto simp: parse_path_head_def intro: g_name.intros split: token.splits)

lemma path_tail_sound: "parse_path_tail ts = Inr (p, r) \<Longrightarrow> \<exists>u. ts = u @ r \<and> g_path_tail p u"
proof (induction ts arbitrary: p rule: parse_path_tail.induct)
  case (1 ts)
  consider (dot) "peek ts = TkDot" | (idx) "peek ts = TkLBracket"
    | (none) "peek ts \<noteq> TkDot" "peek ts \<noteq> TkLBracket" by blast
  then show ?case
  proof cases
    case dot
    then obtain e ts1 q where h: "parse_path_head (tl ts) = Inr (e, ts1)"
      and q: "parse_path_tail ts1 = Inr (q, r)" "p = e # q"
      using 1(3) by (auto simp: parse_path_tail.simps [of ts] res_bind_Inr_iff res_map_Inr)
    obtain u where u: "ts1 = u @ r" "g_path_tail q u" using 1(1) [OF dot h refl q(1)] by blast
    obtain t where t: "tl ts = t # ts1" "g_name e t" using path_head_sound [OF h] by blast
    have "ts = (TkDot # t # u) @ r" using peek_eq [OF dot] t u by simp
    moreover have "g_path_tail p (TkDot # t # u)" unfolding q(2) by (rule g_path_tail.intros(2) [OF t(2) u(2)])
    ultimately show ?thesis by blast
  next
    case idx
    then obtain i where i: "peek (tl ts) = TkNumber i"
      using 1(3) by (auto simp: parse_path_tail.simps [of ts] split: token.splits)
    then obtain ts1 q where x: "expect TkRBracket (tl (tl ts)) = Inr ts1"
      and q: "parse_path_tail ts1 = Inr (q, r)" "p = PathIndex i # q"
      using 1(3) idx by (auto simp: parse_path_tail.simps [of ts] res_bind_Inr_iff res_map_Inr)
    have "peek ts \<noteq> TkDot" using idx by simp
    from 1(2) [OF this idx i x q(1)] obtain u where u: "ts1 = u @ r" "g_path_tail q u" by blast
    have "tl (tl ts) = TkRBracket # ts1" using x by (auto simp: expect_Inr dest: peek_eq)
    then have "ts = (TkLBracket # TkNumber i # TkRBracket # u) @ r"
      using peek_eq [OF idx] peek_eq [OF i] u by simp
    moreover have "g_path_tail p (TkLBracket # TkNumber i # TkRBracket # u)"
      unfolding q(2) by (rule g_path_tail.intros(3) [OF u(2)])
    ultimately show ?thesis by blast
  next
    case none
    then have "p = [] \<and> r = ts" using 1(3) by (simp add: parse_path_tail.simps [of ts])
    then show ?thesis using g_path_tail.intros(1) by auto
  qed
qed

lemma path_sound:
  assumes "parse_attribute_path ts = Inr (p, r)" shows "\<exists>u. ts = u @ r \<and> g_path p u"
proof -
  obtain e ts1 q where h: "parse_path_head ts = Inr (e, ts1)"
    and q: "parse_path_tail ts1 = Inr (q, r)" "p = e # q"
    using assms by (auto simp: parse_attribute_path_def res_bind_Inr_iff res_map_Inr)
  obtain t u where "ts = (t # u) @ r" "g_name e t" "g_path_tail q u"
    using path_head_sound [OF h] path_tail_sound [OF q(1)] by auto
  with q(2) g_path.intros show ?thesis by blast
qed

lemma expect_sound: "expect t ts = Inr r \<Longrightarrow> t \<noteq> TkEof \<Longrightarrow> ts = t # r"
  by (cases ts) (auto simp: expect_Inr)

lemma operand_sound: "parse_operand n ts = Inr (x, r) \<Longrightarrow> \<exists>u. ts = u @ r \<and> g_operand x u"
proof (induction n arbitrary: ts x r)
  case (Suc n)
  consider (v) name where "peek ts = TkExprAttrValue name" | (s) "peek ts = TkSize"
    | (p) "\<And>name. peek ts \<noteq> TkExprAttrValue name" "peek ts \<noteq> TkSize" by blast
  then show ?case
  proof cases
    case v
    then have "x = OpValue name \<and> ts = [TkExprAttrValue name] @ r" using Suc.prems peek_eq [OF v] by simp
    then show ?thesis using g_operand.intros(1) by blast
  next
    case s
    obtain ts1 inner ts2 where 1: "expect TkLParen (tl ts) = Inr ts1" "parse_operand n ts1 = Inr (inner, ts2)"
      and 2: "expect TkRParen ts2 = Inr r" "x = OpSize inner"
      using Suc.prems s by (auto simp: res_bind_Inr_iff res_map_Inr split: if_splits)
    obtain u where u: "ts1 = u @ ts2" "g_operand inner u" using Suc.IH [OF 1(2)] by blast
    have "ts = (TkSize # TkLParen # u @ [TkRParen]) @ r"
      using peek_eq [OF s] expect_sound [OF 1(1)] expect_sound [OF 2(1)] u by simp
    with 2(2) g_operand.intros(2) [OF u(2)] show ?thesis by blast
  next
    case p
    then have "\<exists>q. parse_attribute_path ts = Inr (q, r) \<and> x = OpPath q"
      using Suc.prems by (auto simp: res_map_Inr split: token.splits)
    with path_sound g_operand.intros(3) show ?thesis by blast
  qed
qed simp

lemma operands_tail_sound: "parse_operands_tail n ts = Inr (xs, r) \<Longrightarrow> \<exists>u. ts = u @ r \<and> g_more xs u"
proof (induction n arbitrary: ts xs r)
  case (Suc n)
  show ?case
  proof (cases "peek ts = TkComma")
    case True
    obtain op ts1 ops where 1: "parse_operand n (tl ts) = Inr (op, ts1)"
      and 2: "parse_operands_tail n ts1 = Inr (ops, r)" "xs = op # ops"
      using Suc.prems True by (auto simp: res_bind_Inr_iff res_map_Inr)
    obtain u v where "tl ts = u @ ts1" "g_operand op u" "ts1 = v @ r" "g_more ops v"
      using operand_sound [OF 1] Suc.IH [OF 2(1)] by blast
    moreover have "ts = TkComma # tl ts" using peek_eq [OF True] by simp
    ultimately have "ts = (TkComma # u @ v) @ r \<and> g_more xs (TkComma # u @ v)"
      using g_more.intros(2) 2(2) by simp
    then show ?thesis by blast
  next
    case False
    then show ?thesis using Suc.prems g_more.intros(1) by auto
  qed
qed simp

lemma function_sound:
  assumes "parse_function_expr n f ts = Inr (e, r)" "function_of_token (peek ts) = Some f"
  shows "\<exists>u. ts = u @ r \<and> g_atom e u"
proof -
  obtain ts1 a ts2 as ts3 where p: "expect TkLParen (tl ts) = Inr ts1" "parse_operand n ts1 = Inr (a, ts2)"
    "parse_operands_tail n ts2 = Inr (as, ts3)" "expect TkRParen ts3 = Inr r" "e = EFunction f (a # as)"
    using assms(1) by (auto simp: parse_function_expr_def res_bind_Inr_iff res_map_Inr)
  obtain u v where uv: "ts1 = u @ ts2" "g_operand a u" "ts2 = v @ ts3" "g_more as v"
    using operand_sound [OF p(2)] operands_tail_sound [OF p(3)] by blast
  obtain t ts' where ts: "ts = t # ts'" using assms(2) by (cases ts) auto
  have "ts = (t # TkLParen # u @ v @ [TkRParen]) @ r"
    using uv expect_sound [OF p(1)] expect_sound [OF p(4)] by (simp add: ts)
  moreover have "g_atom e (t # TkLParen # u @ v @ [TkRParen])"
    using g_atom.intros(1) uv(2,4) assms(2) unfolding p(5) by (simp add: ts)
  ultimately show ?thesis by blast
qed

lemma postfix_sound:
  assumes "parse_postfix_expr n l ts = Inr (e, r)" and l: "g_operand l w"
  shows "\<exists>u. w @ ts = u @ r \<and> g_atom e u"
proof -
  consider (cmp) c where "compare_op_of_token (peek ts) = Some c"
    | (btw) "compare_op_of_token (peek ts) = None" "peek ts = TkBetween"
    | (isin) "compare_op_of_token (peek ts) = None" "peek ts = TkIn"
    | (other) "compare_op_of_token (peek ts) = None" "peek ts \<noteq> TkBetween" "peek ts \<noteq> TkIn"
    by (cases "compare_op_of_token (peek ts)") auto
  then show ?thesis
  proof cases
    case cmp
    obtain x where x: "parse_operand n (tl ts) = Inr (x, r)" "e = ECompare l c x"
      using assms(1) cmp by (auto simp: parse_postfix_expr_def res_map_Inr)
    obtain u where u: "tl ts = u @ r" "g_operand x u" using operand_sound [OF x(1)] by blast
    obtain t ts' where ts: "ts = t # ts'" using cmp by (cases ts) auto
    have "w @ ts = (w @ t # u) @ r" using u by (simp add: ts)
    moreover have "g_atom e (w @ t # u)" unfolding x(2)
      using g_atom.intros(2) [OF l _ u(2)] cmp by (simp add: ts)
    ultimately show ?thesis by blast
  next
    case btw
    obtain lo ts1 ts2 hi where p: "parse_operand n (tl ts) = Inr (lo, ts1)" "expect TkAnd ts1 = Inr ts2"
      "parse_operand n ts2 = Inr (hi, r)" "e = EBetween l lo hi"
      using assms(1) btw by (auto simp: parse_postfix_expr_def res_bind_Inr_iff res_map_Inr)
    obtain u v where uv: "tl ts = u @ ts1" "g_operand lo u" "ts2 = v @ r" "g_operand hi v"
      using operand_sound [OF p(1)] operand_sound [OF p(3)] by blast
    have "w @ ts = (w @ TkBetween # u @ TkAnd # v) @ r"
      using peek_eq [OF btw(2)] uv expect_sound [OF p(2)] by simp
    with g_atom.intros(3) [OF l uv(2,4)] p(4) show ?thesis by blast
  next
    case isin
    obtain ts1 x ts2 xs ts3 where p: "expect TkLParen (tl ts) = Inr ts1" "parse_operand n ts1 = Inr (x, ts2)"
      "parse_operands_tail n ts2 = Inr (xs, ts3)" "expect TkRParen ts3 = Inr r" "e = EIn l (x # xs)"
      using assms(1) isin by (auto simp: parse_postfix_expr_def res_bind_Inr_iff res_map_Inr split: if_splits)
    obtain u v where uv: "ts1 = u @ ts2" "g_operand x u" "ts2 = v @ ts3" "g_more xs v"
      using operand_sound [OF p(2)] operands_tail_sound [OF p(3)] by blast
    have "w @ ts = (w @ TkIn # TkLParen # u @ v @ [TkRParen]) @ r"
      using peek_eq [OF isin(2)] uv expect_sound [OF p(1)] expect_sound [OF p(4)] by simp
    with g_atom.intros(4) [OF l uv(2,4)] p(5) show ?thesis by blast
  next
    case other
    then show ?thesis using assms(1) by (simp add: parse_postfix_expr_def)
  qed
qed

lemma condition_sound:
  "parse_or_expr n ts = Inr (e, r) \<Longrightarrow> \<exists>u. ts = u @ r \<and> g_or e u"
  "parse_or_tail n l ts = Inr (e, r) \<Longrightarrow> \<exists>u. ts = u @ r \<and> g_or_tail l e u"
  "parse_and_expr n ts = Inr (e, r) \<Longrightarrow> \<exists>u. ts = u @ r \<and> g_and e u"
  "parse_and_tail n l ts = Inr (e, r) \<Longrightarrow> \<exists>u. ts = u @ r \<and> g_and_tail l e u"
  "parse_not_expr n ts = Inr (e, r) \<Longrightarrow> \<exists>u. ts = u @ r \<and> g_not e u"
  "parse_primary_expr n ts = Inr (e, r) \<Longrightarrow> \<exists>u. ts = u @ r \<and> g_not e u"
proof (induction n arbitrary: ts l e r)
  case 0
  { case 1 then show ?case by simp next case 2 then show ?case by simp
  next case 3 then show ?case by simp next case 4 then show ?case by simp
  next case 5 then show ?case by simp next case 6 then show ?case by simp }
next
  case (Suc n)
  { case 1
    then obtain l' ts1 where p: "parse_and_expr n ts = Inr (l', ts1)" "parse_or_tail n l' ts1 = Inr (e, r)"
      by (auto simp: res_bind_Inr_iff)
    obtain u where u: "ts = u @ ts1" "g_and l' u" using Suc.IH(3) [OF p(1)] by blast
    obtain v where v: "ts1 = v @ r" "g_or_tail l' e v" using Suc.IH(2) [OF p(2)] by blast
    show ?case using g_orI [OF u(2) v(2)] u(1) v(1) by (intro exI [of _ "u @ v"]) simp
  next
    case (2 ts l e r)
    show ?case
    proof (cases "peek ts = TkOr")
      case True
      then obtain x ts1 where p: "parse_and_expr n (tl ts) = Inr (x, ts1)"
        "parse_or_tail n (ELogical LogOr l x) ts1 = Inr (e, r)"
        using 2 by (auto simp: res_bind_Inr_iff)
      obtain u where u: "tl ts = u @ ts1" "g_and x u" using Suc.IH(3) [OF p(1)] by blast
      obtain v where v: "ts1 = v @ r" "g_or_tail (ELogical LogOr l x) e v" using Suc.IH(2) [OF p(2)] by blast
      show ?thesis using g_or_cons [OF u(2) v(2)] peek_eq [OF True] u(1) v(1)
        by (intro exI [of _ "TkOr # u @ v"]) simp
    qed (use 2 g_or_nil in auto)
  next
    case 3
    then obtain l' ts1 where p: "parse_not_expr n ts = Inr (l', ts1)" "parse_and_tail n l' ts1 = Inr (e, r)"
      by (auto simp: res_bind_Inr_iff)
    obtain u where u: "ts = u @ ts1" "g_not l' u" using Suc.IH(5) [OF p(1)] by blast
    obtain v where v: "ts1 = v @ r" "g_and_tail l' e v" using Suc.IH(4) [OF p(2)] by blast
    show ?case using g_andI [OF u(2) v(2)] u(1) v(1) by (intro exI [of _ "u @ v"]) simp
  next
    case (4 ts l e r)
    show ?case
    proof (cases "peek ts = TkAnd")
      case True
      then obtain x ts1 where p: "parse_not_expr n (tl ts) = Inr (x, ts1)"
        "parse_and_tail n (ELogical LogAnd l x) ts1 = Inr (e, r)"
        using 4 by (auto simp: res_bind_Inr_iff)
      obtain u where u: "tl ts = u @ ts1" "g_not x u" using Suc.IH(5) [OF p(1)] by blast
      obtain v where v: "ts1 = v @ r" "g_and_tail (ELogical LogAnd l x) e v" using Suc.IH(4) [OF p(2)] by blast
      show ?thesis using g_and_cons [OF u(2) v(2)] peek_eq [OF True] u(1) v(1)
        by (intro exI [of _ "TkAnd # u @ v"]) simp
    qed (use 4 g_and_nil in auto)
  next
    case 5
    show ?case
    proof (cases "peek ts = TkNot")
      case True
      then obtain x where x: "parse_not_expr n (tl ts) = Inr (x, r)" "e = ENot x"
        using 5 by (auto simp: res_map_Inr)
      with Suc.IH(5) obtain u where "tl ts = u @ r" "g_not x u" by blast
      moreover from this peek_eq [OF True] have "ts = (TkNot # u) @ r" by simp
      ultimately show ?thesis using g_notI x(2) by blast
    qed (use 5 Suc.IH(6) in auto)
  next
    case 6
    consider (par) "peek ts = TkLParen" | (fn) f where "peek ts \<noteq> TkLParen" "peek_function_name ts = Some f"
        "peek ts \<noteq> TkIfNotExists" "peek ts \<noteq> TkListAppend"
      | (op) "peek ts \<noteq> TkLParen" "peek_function_name ts = None" "peek ts \<noteq> TkIfNotExists" "peek ts \<noteq> TkListAppend"
      using 6 by (auto split: if_splits) 
    then show ?case
    proof cases
      case par
      then obtain ts1 where p: "parse_or_expr n (tl ts) = Inr (e, ts1)" "expect TkRParen ts1 = Inr r"
        using 6 by (auto simp: res_bind_Inr_iff res_map_Inr)
      with Suc.IH(1) obtain u where "tl ts = u @ ts1" "g_or e u" by blast
      moreover from this peek_eq [OF par] expect_sound [OF p(2)] have "ts = (TkLParen # u @ [TkRParen]) @ r" by simp
      ultimately show ?thesis using g_paren by blast
    next
      case fn
      then have "parse_function_expr n f ts = Inr (e, r)" using 6 by simp
      from function_sound [OF this] fn(2) show ?thesis
        unfolding peek_function_name_def using g_atomI by blast
    next
      case op
      then obtain x ts1 where p: "parse_operand n ts = Inr (x, ts1)" "parse_postfix_expr n x ts1 = Inr (e, r)"
        using 6 by (auto simp: res_bind_Inr_iff)
      obtain w where w: "ts = w @ ts1" "g_operand x w" using operand_sound [OF p(1)] by blast
      from postfix_sound [OF p(2) w(2)] show ?thesis using g_atomI unfolding w(1) by blast
    qed }
qed

section \<open>The fuel is enough\<close>

definition returns :: "parse_error + 'a \<Rightarrow> bool" where
  "returns r \<longleftrightarrow> r \<noteq> Inl OutOfFuel"

lemma returns_simps [simp]:
  "returns (Inr x)" "returns (Inl (ParseError e))" "\<not> returns (Inl OutOfFuel)"
  "returns (expect t ts)" "returns (parse_path_head ts)"
  by (auto simp: returns_def expect_def parse_path_head_def split: token.splits)

lemma returns_map [simp]: "returns (res_map f r) = returns r"
  by (cases r) (auto simp: returns_def)

lemma expect_length: "expect t ts = Inr r \<Longrightarrow> length r \<le> length ts"
  by (simp add: expect_Inr)


lemma returns_bind: "returns r \<Longrightarrow> (\<And>x. r = Inr x \<Longrightarrow> returns (f x)) \<Longrightarrow> returns (res_bind r f)"
  by (cases r) (auto simp: returns_def)

lemma returns_path_tail [simp]: "returns (parse_path_tail ts)"
proof (induction ts rule: parse_path_tail.induct)
  case (1 ts)
  then show ?case
    by (subst parse_path_tail.simps) (auto intro!: returns_bind split: token.splits)
qed

lemma returns_path [simp]: "returns (parse_attribute_path ts)"
  by (auto simp: parse_attribute_path_def intro!: returns_bind)

lemma g_nonempty: "g_path p u \<Longrightarrow> u \<noteq> []" "g_operand x u \<Longrightarrow> u \<noteq> []"
  by (auto elim: g_path.cases g_operand.cases)

lemma operand_less: "parse_operand n ts = Inr (x, r) \<Longrightarrow> length r < length ts"
  using operand_sound g_nonempty(2) by fastforce

lemma operands_tail_le: "parse_operands_tail n ts = Inr (x, r) \<Longrightarrow> length r \<le> length ts"
  using operands_tail_sound by fastforce

lemma tl_less: "peek ts = t \<Longrightarrow> t \<noteq> TkEof \<Longrightarrow> length (tl ts) < length ts"
  by (cases ts) auto

lemma returns_operand:
  "length ts < n \<Longrightarrow> returns (parse_operand n ts)"
  "length ts < n \<Longrightarrow> returns (skip_operands n ts)"
proof (induction n arbitrary: ts)
  case 0
  { case 1 then show ?case by simp next case 2 then show ?case by simp }
next
  case (Suc n)
  { case (1 ts)
    have "returns (res_bind (expect TkLParen (tl ts)) (\<lambda>ts1.
          res_bind (parse_operand n ts1) (\<lambda>(inner, ts2).
            if peek ts2 = TkComma
            then res_bind (skip_operands n ts2) (\<lambda>_. Inl (ParseError (InvalidOperand ''size'')))
            else res_map (\<lambda>ts3. (OpSize inner, ts3)) (expect TkRParen ts2))))"
      if "peek ts = TkSize"
    proof (intro returns_bind, goal_cases)
      case (2 ts1)
      then show ?case
        using Suc.IH(1) [of ts1] 1 expect_length [of TkLParen "tl ts" ts1] tl_less [OF that] by simp
    next
      case (3 ts1 x)
      obtain inner ts2 where x: "x = (inner, ts2)" by (cases x)
      have "length ts2 < n"
        using 3 operand_less [of n ts1 inner ts2] 1 expect_length [of TkLParen "tl ts" ts1] by (simp add: x)
      then show ?case using Suc.IH(2) [of ts2] by (auto simp: x intro!: returns_bind)
    qed simp
    then show ?case by (auto split: token.splits)
  next
    case (2 ts)
    show ?case
    proof (cases "peek ts = TkComma")
      case True
      then have l: "length (tl ts) < n" using 2 tl_less [OF True] by simp
      have "returns (res_bind (parse_operand n (tl ts)) (\<lambda>(_, ts1). skip_operands n ts1))"
      proof (intro returns_bind, goal_cases)
        case 1 show ?case by (rule Suc.IH(1) [OF l])
      next
        case (2 x)
        then show ?case using Suc.IH(2) [of "snd x"] operand_less [of n "tl ts" "fst x" "snd x"] l
          by (cases x) simp
      qed
      with True show ?thesis by simp
    qed simp }
qed

lemma returns_operands_tail: "length ts < n \<Longrightarrow> returns (parse_operands_tail n ts)"
proof (induction n arbitrary: ts)
  case (Suc n)
  show ?case
  proof (cases "peek ts = TkComma")
    case True
    then have l: "length (tl ts) < n" using tl_less [OF True] Suc.prems by simp
    have "returns (res_bind (parse_operand n (tl ts)) (\<lambda>(op, ts1).
             res_map (\<lambda>(ops, r). (op # ops, r)) (parse_operands_tail n ts1)))"
    proof (intro returns_bind, goal_cases)
      case 1 show ?case by (rule returns_operand(1) [OF l])
    next
      case (2 x)
      then show ?case using Suc.IH [of "snd x"] operand_less [of n "tl ts" "fst x" "snd x"] l
        by (cases x) simp
    qed
    with True show ?thesis by simp
  qed simp
qed simp

lemma returns_function:
  assumes "length ts < n" shows "returns (parse_function_expr n f ts)"
  unfolding parse_function_expr_def
proof (intro returns_bind, goal_cases)
  case (2 ts1)
  then show ?case using assms by (intro returns_operand(1)) (auto simp: expect_Inr)
next
  case (3 ts1 x)
  have "length (snd x) < n" using 3 assms operand_less [of n ts1 "fst x" "snd x"] by (auto simp: expect_Inr)
  then show ?case
    by (auto simp: case_prod_beta intro!: returns_bind returns_operands_tail)
qed simp

lemma returns_postfix:
  assumes "length ts < n" shows "returns (parse_postfix_expr n l ts)"
proof -
  have t: "length (tl ts) < n" using assms by simp
  have "returns (res_bind (parse_operand n (tl ts)) (\<lambda>(low, ts1).
            res_bind (expect TkAnd ts1) (\<lambda>ts2.
            res_map (\<lambda>(high, r). (EBetween l low high, r)) (parse_operand n ts2))))"
  proof (intro returns_bind, goal_cases)
    case 1 show ?case by (rule returns_operand(1) [OF t])
  next
    case (2 x)
    have "length (snd x) < n" using 2 t operand_less [of n "tl ts" "fst x" "snd x"] by simp
    then show ?case by (auto simp: case_prod_beta expect_Inr intro!: returns_bind returns_operand)
  qed
  moreover have "returns (res_bind (expect TkLParen (tl ts)) (\<lambda>ts1.
              if peek ts1 = TkRParen then syntax_error
              else
                res_bind (parse_operand n ts1) (\<lambda>(first, ts2).
                res_bind (parse_operands_tail n ts2) (\<lambda>(more, ts3).
                res_map (\<lambda>ts4. (EIn l (first # more), ts4)) (expect TkRParen ts3)))))"
  proof (intro returns_bind, goal_cases)
    case (2 ts1)
    then have l: "length ts1 < n" using t by (auto simp: expect_Inr)
    have "length (snd x) < n" if "parse_operand n ts1 = Inr x" for x
      using that l operand_less [of n ts1 "fst x" "snd x"] by simp
    then show ?case
      by (auto simp: case_prod_beta intro!: returns_bind returns_operand(1) [OF l] returns_operands_tail)
  qed simp
  ultimately show ?thesis
    unfolding parse_postfix_expr_def using returns_operand(1) [OF t] by (simp split: option.split)
qed

lemma condition_length:
  "parse_or_expr n ts = Inr (e, r) \<Longrightarrow> length r \<le> length ts"
  "parse_and_expr n ts = Inr (e, r) \<Longrightarrow> length r \<le> length ts"
  "parse_not_expr n ts = Inr (e, r) \<Longrightarrow> length r \<le> length ts"
  using condition_sound(1,3,5) [of n ts e r] by auto

lemma returns_condition:
  "5 * length ts + 5 \<le> n \<Longrightarrow> returns (parse_or_expr n ts)"
  "5 * length ts + 1 \<le> n \<Longrightarrow> returns (parse_or_tail n l ts)"
  "5 * length ts + 4 \<le> n \<Longrightarrow> returns (parse_and_expr n ts)"
  "5 * length ts + 1 \<le> n \<Longrightarrow> returns (parse_and_tail n l ts)"
  "5 * length ts + 3 \<le> n \<Longrightarrow> returns (parse_not_expr n ts)"
  "5 * length ts + 2 \<le> n \<Longrightarrow> returns (parse_primary_expr n ts)"
proof (induction n arbitrary: ts l)
  case 0
  { case 1 then show ?case by simp next case 2 then show ?case by simp
  next case 3 then show ?case by simp next case 4 then show ?case by simp
  next case 5 then show ?case by simp next case 6 then show ?case by simp }
next
  case (Suc n)
  { case (1 ts)
    then show ?case
      using Suc.IH(2,3) condition_length(2) by (fastforce intro!: returns_bind simp: case_prod_beta)
  next
    case (2 ts l)
    have "returns (parse_and_expr n (tl ts)) \<and> (\<forall>x. parse_and_expr n (tl ts) = Inr x \<longrightarrow>
        returns (parse_or_tail n (ELogical LogOr l (fst x)) (snd x)))" if "peek ts = TkOr"
      using tl_less [OF that] 2 Suc.IH(3) [of "tl ts"] Suc.IH(2) condition_length(2) [of n "tl ts"] by fastforce
    then show ?case by (auto simp: case_prod_beta intro!: returns_bind)
  next
    case (3 ts)
    then show ?case
      using Suc.IH(4,5) condition_length(3) by (fastforce intro!: returns_bind simp: case_prod_beta)
  next
    case (4 ts l)
    have "returns (parse_not_expr n (tl ts)) \<and> (\<forall>x. parse_not_expr n (tl ts) = Inr x \<longrightarrow>
        returns (parse_and_tail n (ELogical LogAnd l (fst x)) (snd x)))" if "peek ts = TkAnd"
      using tl_less [OF that] 4 Suc.IH(5) [of "tl ts"] Suc.IH(4) condition_length(3) [of n "tl ts"] by fastforce
    then show ?case by (auto simp: case_prod_beta intro!: returns_bind)
  next
    case (5 ts)
    then show ?case using Suc.IH(5) [of "tl ts"] Suc.IH(6) [of ts] tl_less [of ts] by auto
  next
    case (6 ts)
    have l: "length ts < n" using 6 by simp
    have "returns (parse_or_expr n (tl ts))" if "peek ts = TkLParen"
      using Suc.IH(1) [of "tl ts"] tl_less [OF that] 6 by simp
    moreover have "returns (parse_postfix_expr n (fst x) (snd x))" if "parse_operand n ts = Inr x" for x
      using that l operand_less [of n ts "fst x" "snd x"] by (intro returns_postfix) simp
    ultimately show ?case
      using returns_function [OF l] returns_operand(1) [OF l]
      by (auto simp: case_prod_beta intro!: returns_bind split: option.splits) }
qed

section \<open>Every sentence is accepted\<close>

text \<open>The longest match: an operand is not followed by a token that would continue a path.\<close>

definition path_stop :: "token list \<Rightarrow> bool" where
  "path_stop rest \<longleftrightarrow> peek rest \<noteq> TkDot \<and> peek rest \<noteq> TkLBracket"

lemma path_stop_Cons [simp]: "path_stop (t # ts) \<longleftrightarrow> t \<noteq> TkDot \<and> t \<noteq> TkLBracket"
  by (simp add: path_stop_def)

lemma complete_head: "g_name e t \<Longrightarrow> parse_path_head (t # ts) = Inr (e, ts)"
  by (auto simp: parse_path_head_def elim: g_name.cases)

lemma complete_path_tail: "g_path_tail p u \<Longrightarrow> path_stop rest \<Longrightarrow> parse_path_tail (u @ rest) = Inr (p, rest)"
proof (induction rule: g_path_tail.induct)
  case 1
  then show ?case by (simp add: parse_path_tail.simps [of rest] path_stop_def)
next
  case (2 e t p ts)
  then show ?case by (subst parse_path_tail.simps) (simp add: complete_head)
next
  case (3 p ts i)
  then show ?case by (subst parse_path_tail.simps) (simp add: expect_def)
qed

lemma complete_path: "g_path p u \<Longrightarrow> path_stop rest \<Longrightarrow> parse_attribute_path (u @ rest) = Inr (p, rest)"
  by (auto elim!: g_path.cases simp: parse_attribute_path_def complete_head complete_path_tail)

lemma complete_operand:
  "g_operand x u \<Longrightarrow> path_stop rest \<Longrightarrow> length u < n \<Longrightarrow> parse_operand n (u @ rest) = Inr (x, rest)"
proof (induction arbitrary: rest n rule: g_operand.induct)
  case (1 name)
  then show ?case by (cases n) simp_all
next
  case (2 inner ts)
  obtain m where n: "n = Suc m" using 2 by (cases n) auto
  have "parse_operand m (ts @ TkRParen # rest) = Inr (inner, TkRParen # rest)"
    using 2 by (intro "2.IH") (simp_all add: n)
  then show ?case by (simp add: n expect_def)
next
  case (3 p ts)
  obtain m where n: "n = Suc m" using 3 by (cases n) auto
  obtain e t q us where u: "ts = t # us" "g_name e t" using 3(1) by (auto elim: g_path.cases)
  from u(2) complete_path [OF 3(1,2)] show ?case
    by cases (simp_all add: n u(1))
qed

lemma g_more_head: "g_more xs u \<Longrightarrow> u = [] \<or> hd u = TkComma"
  by (auto elim: g_more.cases)

lemma stop_append: "path_stop rest \<Longrightarrow> u = [] \<or> hd u = t \<Longrightarrow> t \<noteq> TkDot \<Longrightarrow> t \<noteq> TkLBracket \<Longrightarrow> path_stop (u @ rest)"
  by (cases u) auto

lemma complete_more:
  "g_more xs u \<Longrightarrow> path_stop rest \<Longrightarrow> peek rest \<noteq> TkComma \<Longrightarrow> length u < n \<Longrightarrow>
     parse_operands_tail n (u @ rest) = Inr (xs, rest)"
proof (induction arbitrary: n rule: g_more.induct)
  case 1
  then show ?case by (cases n) simp_all
next
  case (2 op ts ops us)
  obtain m where n: "n = Suc m" using 2 by (cases n) auto
  have "path_stop (us @ rest)" using stop_append [OF 2(4) g_more_head [OF 2(2)]] by simp
  then have "parse_operand m (ts @ us @ rest) = Inr (op, us @ rest)"
    using 2 by (intro complete_operand) (simp_all add: n)
  moreover have "parse_operands_tail m (us @ rest) = Inr (ops, rest)"
    using 2 by (intro "2.IH") (simp_all add: n)
  ultimately show ?case by (simp add: n)
qed

lemma operand_head:
  "g_operand x u \<Longrightarrow> \<exists>t us. u = t # us \<and> t \<noteq> TkLParen \<and> t \<noteq> TkRParen \<and> t \<noteq> TkNot \<and>
     t \<noteq> TkIfNotExists \<and> t \<noteq> TkListAppend \<and> function_of_token t = None"
proof (induction rule: g_operand.induct)
  case (3 p ts)
  then obtain e t us where "ts = t # us" "g_name e t" by (auto elim: g_path.cases)
  from this(2) this(1) show ?case by cases simp_all
qed simp_all

lemma complete_primary_operand:
  assumes "g_operand x u" "path_stop rest" "length u < n"
  shows "parse_primary_expr (Suc n) (u @ rest) = parse_postfix_expr n x rest"
proof -
  obtain t us where "u = t # us" "t \<noteq> TkLParen" "t \<noteq> TkIfNotExists" "t \<noteq> TkListAppend"
    "function_of_token t = None" using operand_head [OF assms(1)] by blast
  then show ?thesis using complete_operand [OF assms] by (simp add: peek_function_name_def)
qed

lemma compare_op_stop: "compare_op_of_token t = Some c \<Longrightarrow> t \<noteq> TkDot \<and> t \<noteq> TkLBracket"
  by auto

lemma complete_atom:
  assumes "g_atom e u" "path_stop rest" "length u < n"
  shows "parse_primary_expr (Suc n) (u @ rest) = Inr (e, rest)"
  using assms(1)
proof cases
  case (1 t f a ts as us)
  have "path_stop (us @ TkRParen # rest)" by (rule stop_append [OF _ g_more_head [OF 1(5)]]) simp_all
  then have "parse_operand n (ts @ us @ TkRParen # rest) = Inr (a, us @ TkRParen # rest)"
    using 1 assms(3) by (intro complete_operand) simp_all
  moreover have "parse_operands_tail n (us @ TkRParen # rest) = Inr (as, TkRParen # rest)"
    using 1 assms(3) by (intro complete_more) simp_all
  moreover have "t \<noteq> TkLParen" "t \<noteq> TkIfNotExists" "t \<noteq> TkListAppend" using 1(3) by auto
  ultimately show ?thesis
    using 1(1,2,3) by (simp add: peek_function_name_def parse_function_expr_def expect_def)
next
  case (2 l ts t c r us)
  have "parse_operand n (us @ rest) = Inr (r, rest)"
    using 2 assms(2,3) by (intro complete_operand) simp_all
  then show ?thesis
    using complete_primary_operand [OF 2(3), of "t # us @ rest" n] 2 assms(3) compare_op_stop [OF 2(4)]
    by (simp add: parse_postfix_expr_def)
next
  case (3 v ts lo us hi vs)
  have "parse_operand n (us @ TkAnd # vs @ rest) = Inr (lo, TkAnd # vs @ rest)"
    "parse_operand n (vs @ rest) = Inr (hi, rest)"
    using 3 assms(2,3) by (auto intro!: complete_operand)
  then show ?thesis
    using complete_primary_operand [OF 3(3), of "TkBetween # us @ TkAnd # vs @ rest" n] 3 assms(3)
    by (simp add: parse_postfix_expr_def expect_def)
next
  case (4 v ts x us xs vs)
  have "path_stop (vs @ TkRParen # rest)" by (rule stop_append [OF _ g_more_head [OF 4(5)]]) simp_all
  then have "parse_operand n (us @ vs @ TkRParen # rest) = Inr (x, vs @ TkRParen # rest)"
    using 4 assms(3) by (intro complete_operand) simp_all
  moreover have "parse_operands_tail n (vs @ TkRParen # rest) = Inr (xs, TkRParen # rest)"
    using 4 assms(3) by (intro complete_more) simp_all
  moreover obtain t us' where "us = t # us'" "t \<noteq> TkRParen" using operand_head [OF 4(4)] by blast
  ultimately show ?thesis
    using complete_primary_operand [OF 4(3), of "TkIn # TkLParen # us @ vs @ TkRParen # rest" n] 4 assms(3)
    by (simp add: parse_postfix_expr_def expect_def)
qed

lemma g_atom_head: "g_atom e u \<Longrightarrow> \<exists>t us. u = t # us \<and> t \<noteq> TkNot"
proof (induction rule: g_atom.induct)
  case (1 t f a ts as us)
  then show ?case by (cases t) auto
qed (auto dest!: operand_head)

lemma g_tail_head: "g_or_tail l e u \<Longrightarrow> u = [] \<or> hd u = TkOr" "g_and_tail l e u \<Longrightarrow> u = [] \<or> hd u = TkAnd"
proof -
  show "u = [] \<or> hd u = TkOr" if "g_or_tail l e u" using that by cases simp_all
  show "u = [] \<or> hd u = TkAnd" if "g_and_tail l e u" using that by cases simp_all
qed

lemma complete_condition:
  "g_or e u \<Longrightarrow> path_stop rest \<Longrightarrow> peek rest \<noteq> TkAnd \<Longrightarrow> peek rest \<noteq> TkOr \<Longrightarrow> 5 * length u + 5 \<le> n \<Longrightarrow>
     parse_or_expr n (u @ rest) = Inr (e, rest)"
  "g_or_tail l e u \<Longrightarrow> path_stop rest \<Longrightarrow> peek rest \<noteq> TkAnd \<Longrightarrow> peek rest \<noteq> TkOr \<Longrightarrow> 5 * length u + 1 \<le> n \<Longrightarrow>
     parse_or_tail n l (u @ rest) = Inr (e, rest)"
  "g_and e u \<Longrightarrow> path_stop rest \<Longrightarrow> peek rest \<noteq> TkAnd \<Longrightarrow> 5 * length u + 4 \<le> n \<Longrightarrow>
     parse_and_expr n (u @ rest) = Inr (e, rest)"
  "g_and_tail l e u \<Longrightarrow> path_stop rest \<Longrightarrow> peek rest \<noteq> TkAnd \<Longrightarrow> 5 * length u + 1 \<le> n \<Longrightarrow>
     parse_and_tail n l (u @ rest) = Inr (e, rest)"
  "g_not e u \<Longrightarrow> path_stop rest \<Longrightarrow> 5 * length u + 3 \<le> n \<Longrightarrow> parse_not_expr n (u @ rest) = Inr (e, rest)"
proof (induction arbitrary: rest n and rest n and rest n and rest n and rest n
    rule: g_or_g_or_tail_g_and_g_and_tail_g_not.inducts)
  case (g_orI l ts e us)
  obtain m where n: "n = Suc m" using g_orI.prems by (cases n) auto
  have h: "us = [] \<or> hd us = TkOr" by (rule g_tail_head(1) [OF g_orI.hyps(2)])
  have "path_stop (us @ rest)" by (rule stop_append [OF g_orI.prems(1) h]) simp_all
  moreover have "peek (us @ rest) \<noteq> TkAnd" using h g_orI.prems(2) by (cases us) auto
  ultimately have "parse_and_expr m (ts @ us @ rest) = Inr (l, us @ rest)"
    using g_orI.prems by (intro g_orI.IH(1)) (simp_all add: n)
  moreover have "parse_or_tail m l (us @ rest) = Inr (e, rest)"
    using g_orI.prems by (intro g_orI.IH(2)) (simp_all add: n)
  ultimately show ?case by (simp add: n)
next
  case (g_or_nil l)
  then show ?case by (cases n) simp_all
next
  case (g_or_cons r ts l e us)
  obtain m where n: "n = Suc m" using g_or_cons.prems by (cases n) auto
  have h: "us = [] \<or> hd us = TkOr" by (rule g_tail_head(1) [OF g_or_cons.hyps(2)])
  have "path_stop (us @ rest)" by (rule stop_append [OF g_or_cons.prems(1) h]) simp_all
  moreover have "peek (us @ rest) \<noteq> TkAnd" using h g_or_cons.prems(2) by (cases us) auto
  ultimately have "parse_and_expr m (ts @ us @ rest) = Inr (r, us @ rest)"
    using g_or_cons.prems by (intro g_or_cons.IH(1)) (simp_all add: n)
  moreover have "parse_or_tail m (ELogical LogOr l r) (us @ rest) = Inr (e, rest)"
    using g_or_cons.prems by (intro g_or_cons.IH(2)) (simp_all add: n)
  ultimately show ?case by (simp add: n)
next
  case (g_andI l ts e us)
  obtain m where n: "n = Suc m" using g_andI.prems by (cases n) auto
  have h: "us = [] \<or> hd us = TkAnd" by (rule g_tail_head(2) [OF g_andI.hyps(2)])
  have "path_stop (us @ rest)" by (rule stop_append [OF g_andI.prems(1) h]) simp_all
  then have "parse_not_expr m (ts @ us @ rest) = Inr (l, us @ rest)"
    using g_andI.prems by (intro g_andI.IH(1)) (simp_all add: n)
  moreover have "parse_and_tail m l (us @ rest) = Inr (e, rest)"
    using g_andI.prems by (intro g_andI.IH(2)) (simp_all add: n)
  ultimately show ?case by (simp add: n)
next
  case (g_and_nil l)
  then show ?case by (cases n) simp_all
next
  case (g_and_cons r ts l e us)
  obtain m where n: "n = Suc m" using g_and_cons.prems by (cases n) auto
  have h: "us = [] \<or> hd us = TkAnd" by (rule g_tail_head(2) [OF g_and_cons.hyps(2)])
  have "path_stop (us @ rest)" by (rule stop_append [OF g_and_cons.prems(1) h]) simp_all
  then have "parse_not_expr m (ts @ us @ rest) = Inr (r, us @ rest)"
    using g_and_cons.prems by (intro g_and_cons.IH(1)) (simp_all add: n)
  moreover have "parse_and_tail m (ELogical LogAnd l r) (us @ rest) = Inr (e, rest)"
    using g_and_cons.prems by (intro g_and_cons.IH(2)) (simp_all add: n)
  ultimately show ?case by (simp add: n)
next
  case (g_notI e ts)
  obtain m where n: "n = Suc m" using g_notI.prems by (cases n) auto
  have "parse_not_expr m (ts @ rest) = Inr (e, rest)"
    using g_notI.prems by (intro g_notI.IH) (simp_all add: n)
  then show ?case by (simp add: n)
next
  case (g_paren e ts)
  obtain m where n: "n = Suc (Suc m)" using g_paren.prems by (cases n; cases "n - 1") auto
  have "parse_or_expr m (ts @ TkRParen # rest) = Inr (e, TkRParen # rest)"
    using g_paren.prems by (intro g_paren.IH) (simp_all add: n)
  then show ?case by (simp add: n expect_def)
next
  case (g_atomI e ts)
  obtain m where n: "n = Suc (Suc m)" using g_atomI.prems by (cases n; cases "n - 1") auto
  obtain t us where "ts = t # us" "t \<noteq> TkNot" using g_atom_head [OF g_atomI.hyps] by blast
  moreover have "parse_primary_expr (Suc m) (ts @ rest) = Inr (e, rest)"
    using g_atomI.prems by (intro complete_atom [OF g_atomI.hyps]) (simp_all add: n)
  ultimately show ?case by (simp add: n)
qed

section \<open>Condition expressions\<close>

lemma tokenize_ends:
  "tokenize s = Inr ts \<Longrightarrow> \<exists>us. ts = us @ [TkEof] \<and> TkEof \<notin> set us"
proof (induction s arbitrary: ts rule: tokenize.induct)
  case (1 s)
  obtain t r where n: "next_token s = Inr (t, r)"
    using 1(2) by (auto simp: tokenize.simps [of s] split: sum.splits)
  show ?case
  proof (cases "t = TkEof")
    case True
    then show ?thesis using 1(2) n by (simp add: tokenize.simps [of s])
  next
    case False
    then obtain us where us: "tokenize r = Inr us" "ts = t # us"
      using 1(2) n by (auto simp: tokenize.simps [of s] res_map_Inr)
    from 1(1) [OF n refl False us(1)] obtain vs where "us = vs @ [TkEof] \<and> TkEof \<notin> set vs" by blast
    then show ?thesis using False us(2) by (intro exI [of _ "t # vs"]) simp
  qed
qed

lemma g_name_eof: "g_name e t \<Longrightarrow> t \<noteq> TkEof"
  by (auto elim: g_name.cases)

lemma g_path_eof: "g_path_tail p u \<Longrightarrow> TkEof \<notin> set u" "g_path p u \<Longrightarrow> TkEof \<notin> set u"
proof -
  show t: "TkEof \<notin> set u" if "g_path_tail p u" for p u
    using that by (induction rule: g_path_tail.induct) (auto dest: g_name_eof)
  show "TkEof \<notin> set u" if "g_path p u" using that by cases (auto dest: t g_name_eof)
qed

lemma g_operand_eof: "g_operand x u \<Longrightarrow> TkEof \<notin> set u"
  by (induction rule: g_operand.induct) (auto dest: g_path_eof(2))

lemma g_more_eof: "g_more xs u \<Longrightarrow> TkEof \<notin> set u"
  by (induction rule: g_more.induct) (auto dest: g_operand_eof)

lemma g_atom_eof: "g_atom e u \<Longrightarrow> TkEof \<notin> set u"
  by (induction rule: g_atom.induct) (auto dest: g_operand_eof g_more_eof)

lemma g_or_eof: "g_or e u \<Longrightarrow> TkEof \<notin> set u"
  by (induction rule: g_or_g_or_tail_g_and_g_and_tail_g_not.inducts(1)
      [where ?P1.0 = "\<lambda>_ u. TkEof \<notin> set u" and ?P2.0 = "\<lambda>_ _ u. TkEof \<notin> set u"
        and ?P3.0 = "\<lambda>_ u. TkEof \<notin> set u" and ?P4.0 = "\<lambda>_ _ u. TkEof \<notin> set u"
        and ?P5.0 = "\<lambda>_ u. TkEof \<notin> set u"])
    (auto dest: g_atom_eof)

lemma append_end_unique:
  assumes "u @ r = ts @ [TkEof]" "TkEof \<notin> set u" "TkEof \<notin> set ts" "at_end r"
  shows "u = ts"
  using assms
proof (induction u arbitrary: ts)
  case Nil
  then show ?case by (cases ts) (auto simp: at_end_def)
next
  case (Cons t u)
  then show ?case by (cases ts) auto
qed

lemma returned_Inr: "returned x = Some (Inr y) \<longleftrightarrow> x = Inr y"
  by (cases x rule: returned.cases) auto

lemma returned_returns: "returned x \<noteq> None \<longleftrightarrow> returns x"
  by (cases x rule: returned.cases) (auto simp: returns_def)

lemma finish_parse_Inr: "finish_parse x = Inr y \<longleftrightarrow> (\<exists>r. x = (y, r) \<and> at_end r)"
  by (cases x) (auto simp: finish_parse_def)

lemma parse_condition_grammar:
  "parse_condition s = Some (Inr e) \<longleftrightarrow> (\<exists>ts. tokenize s = Inr (ts @ [TkEof]) \<and> g_or e ts)"
proof
  assume "parse_condition s = Some (Inr e)"
  then obtain tokens r where t: "tokenize s = Inr tokens"
    and p: "parse_or_expr (parse_fuel tokens) tokens = Inr (e, r)" "at_end r"
    by (auto simp: parse_condition_def returned_Inr res_bind_Inr_iff finish_parse_Inr split: sum.splits)
  obtain ts where ts: "tokens = ts @ [TkEof]" "TkEof \<notin> set ts" using tokenize_ends [OF t] by blast
  obtain u where u: "tokens = u @ r" "g_or e u" using condition_sound(1) [OF p(1)] by blast
  have "u = ts" using append_end_unique [of u r ts] u ts g_or_eof [OF u(2)] p(2) by simp
  then show "\<exists>ts. tokenize s = Inr (ts @ [TkEof]) \<and> g_or e ts" using t ts u by auto
next
  assume "\<exists>ts. tokenize s = Inr (ts @ [TkEof]) \<and> g_or e ts"
  then obtain ts where t: "tokenize s = Inr (ts @ [TkEof])" and g: "g_or e ts" by blast
  have "parse_or_expr (parse_fuel (ts @ [TkEof])) (ts @ [TkEof]) = Inr (e, [TkEof])"
    by (rule complete_condition(1) [OF g]) (simp_all add: parse_fuel_def)
  then show "parse_condition s = Some (Inr e)"
    by (simp add: parse_condition_def t finish_parse_def at_end_def)
qed

section \<open>Every parser returns\<close>

lemma returns_finish [simp]: "returns (finish_parse x)"
  by (cases x) (simp add: finish_parse_def)

lemma parse_condition_returns: "parse_condition s \<noteq> None"
proof -
  have "returned (res_bind (parse_or_expr (parse_fuel ts) ts) finish_parse) \<noteq> None" for ts
    unfolding returned_returns parse_fuel_def by (intro returns_bind returns_condition(1)) simp_all
  then show ?thesis unfolding parse_condition_def by (cases "tokenize s") simp_all
qed

text \<open>A parser of actions that returns takes at least one token.\<close>

definition shrinks :: "(token list \<Rightarrow> 'a parsed) \<Rightarrow> bool" where
  "shrinks action \<longleftrightarrow> (\<forall>us a r. action us = Inr (a, r) \<longrightarrow> length r < length us)"

lemma shrinksD: "shrinks action \<Longrightarrow> action us = Inr x \<Longrightarrow> length (snd x) < length us"
  by (cases x) (auto simp: shrinks_def)

lemma shrinks_path: "shrinks parse_attribute_path"
  unfolding shrinks_def using path_sound g_nonempty(1) by fastforce

lemma returns_actions_tail:
  assumes "\<And>us. length us < length ts \<Longrightarrow> returns (action us)"
    and sh: "shrinks action" and "length ts < n"
  shows "returns (parse_actions_tail action n ts)"
  using assms(1,3)
proof (induction n arbitrary: ts)
  case (Suc n)
  show ?case
  proof (cases "peek ts = TkComma")
    case True
    then have l: "length (tl ts) < length ts" using tl_less [OF True] by simp
    have "returns (res_bind (action (tl ts)) (\<lambda>(a, ts1).
             res_map (\<lambda>(as, r). (a # as, r)) (parse_actions_tail action n ts1)))"
    proof (intro returns_bind, goal_cases)
      case 1 show ?case by (rule Suc.prems(1) [OF l])
    next
      case (2 x)
      have "length (snd x) < length (tl ts)" by (rule shrinksD [OF sh 2])
      then have "returns (parse_actions_tail action n (snd x))"
        using Suc.prems l by (intro Suc.IH) auto
      then show ?case by (cases x) simp
    qed
    with True show ?thesis by simp
  qed simp
qed simp

lemma returns_clause:
  assumes "\<And>us. length us \<le> length ts \<Longrightarrow> returns (action us)"
    and sh: "shrinks action" and "length ts < n"
  shows "returns (parse_clause action n ts)"
  unfolding parse_clause_def
proof (intro returns_bind, goal_cases)
  case 1 show ?case using assms(1) by simp
next
  case (2 x)
  have "length (snd x) < length ts" by (rule shrinksD [OF sh 2])
  then have "returns (parse_actions_tail action n (snd x))"
    using assms by (intro returns_actions_tail) auto
  then show ?case by (cases x) simp
qed

lemma actions_tail_le:
  assumes sh: "shrinks action"
  shows "parse_actions_tail action n ts = Inr (as, r) \<Longrightarrow> length r \<le> length ts"
proof (induction n arbitrary: ts as)
  case (Suc n)
  show ?case
  proof (cases "peek ts = TkComma")
    case True
    then obtain a ts1 bs where a: "action (tl ts) = Inr (a, ts1)" "parse_actions_tail action n ts1 = Inr (bs, r)"
      using Suc.prems by (auto simp: res_bind_Inr_iff res_map_Inr)
    show ?thesis using shrinksD [OF sh a(1)] Suc.IH [OF a(2)] by simp
  qed (use Suc.prems in simp)
qed simp

lemma shrinks_clause: "shrinks action \<Longrightarrow> shrinks (parse_clause action n)"
  unfolding shrinks_def [of "parse_clause action n"]
proof (intro allI impI)
  fix ts as r
  assume sh: "shrinks action" and p: "parse_clause action n ts = Inr (as, r)"
  obtain a ts1 bs where a: "action ts = Inr (a, ts1)" "parse_actions_tail action n ts1 = Inr (bs, r)"
    using p by (auto simp: parse_clause_def res_bind_Inr_iff res_map_Inr)
  show "length r < length ts" using shrinksD [OF sh a(1)] actions_tail_le [OF sh a(2)] by simp
qed

lemma parse_projection_returns: "parse_projection s \<noteq> None"
proof -
  have c: "returns (parse_clause parse_attribute_path (parse_fuel ts) ts)" for ts
    by (rule returns_clause) (simp_all add: parse_fuel_def shrinks_path)
  have "returned (res_bind (parse_clause parse_attribute_path (parse_fuel ts) ts) finish_parse) \<noteq> None" for ts
    unfolding returned_returns by (intro returns_bind c) simp_all
  note c = this
  show ?thesis
  proof (cases "tokenize s")
    case (Inr ts)
    obtain y where "returned (res_bind (parse_clause parse_attribute_path (parse_fuel ts) ts) finish_parse) = Some y"
      using c [of ts] by blast
    then show ?thesis by (cases y) (simp_all add: parse_projection_def Inr)
  qed (simp add: parse_projection_def)
qed

text \<open>The update parser: its pieces return and take tokens.\<close>

lemma shrinks_operand: "shrinks (parse_operand n)"
  unfolding shrinks_def using operand_less by blast

lemma bind_returns_shrinking:
  assumes "returns r" and "\<And>x. r = Inr x \<Longrightarrow> length (snd x) < n"
    and "\<And>x. length (snd x) < n \<Longrightarrow> returns (f x)"
  shows "returns (res_bind r f)"
  using assms by (intro returns_bind) auto

lemma skip_operands_le: "skip_operands n ts = Inr r \<Longrightarrow> length r \<le> length ts"
proof (induction n arbitrary: ts)
  case (Suc n)
  show ?case
  proof (cases "peek ts = TkComma")
    case True
    then obtain x ts1 where x: "parse_operand n (tl ts) = Inr (x, ts1)" "skip_operands n ts1 = Inr r"
      using Suc.prems by (auto simp: res_bind_Inr_iff)
    show ?thesis using operand_less [OF x(1)] Suc.IH [OF x(2)] by simp
  qed (use Suc.prems in simp)
qed simp

lemma returns_if_not_exists: "length ts < n \<Longrightarrow> returns (parse_if_not_exists n ts)"
  unfolding parse_if_not_exists_def
  by (auto simp: case_prod_beta expect_Inr intro!: returns_bind returns_operand(1) dest!: shrinksD [OF shrinks_path])

lemma returns_list_append: "length ts < n \<Longrightarrow> returns (parse_list_append n ts)"
  unfolding parse_list_append_def
  by (auto simp: case_prod_beta expect_Inr intro!: returns_bind returns_operand(1) dest!: shrinksD [OF shrinks_operand])

lemma returns_unknown_function: "length ts < n \<Longrightarrow> returns (unknown_function n ts)"
  unfolding unknown_function_def
  by (auto simp: case_prod_beta expect_Inr intro!: returns_bind returns_operand dest!: shrinksD [OF shrinks_operand])

lemma returns_set_value_primary: "length ts < n \<Longrightarrow> returns (parse_set_value_primary n ts)"
  unfolding parse_set_value_primary_def
  by (simp add: returns_if_not_exists returns_list_append returns_unknown_function returns_operand(1)
      split: token.split)

lemma shrinks_set_value_primary: "shrinks (parse_set_value_primary n)"
proof -
  have 1: "length r < length ts" if "parse_if_not_exists n ts = Inr (v, r)" for ts v r
    using that
    by (auto simp: parse_if_not_exists_def res_bind_Inr_iff res_map_Inr expect_Inr
        dest!: shrinksD [OF shrinks_path] shrinksD [OF shrinks_operand])
  have 2: "length r < length ts" if "parse_list_append n ts = Inr (v, r)" for ts v r
    using that
    by (auto simp: parse_list_append_def res_bind_Inr_iff res_map_Inr expect_Inr
        dest!: shrinksD [OF shrinks_operand])
  have 3: "unknown_function n ts \<noteq> Inr x" for ts x
    by (auto simp: unknown_function_def res_bind_Inr_iff)
  show ?thesis
    unfolding shrinks_def parse_set_value_primary_def
    by (auto simp: res_map_Inr 3 split: token.splits if_splits dest: 1 2 operand_less)
qed

lemma returns_set_value: "length ts < n \<Longrightarrow> returns (parse_set_value n ts)"
  unfolding parse_set_value_def
  by (auto simp: case_prod_beta returns_set_value_primary intro!: returns_bind
      dest!: shrinksD [OF shrinks_set_value_primary])

lemma shrinks_set_value: "shrinks (parse_set_value n)"
proof -
  have "length r < length ts" if h: "parse_set_value n ts = Inr (v, r)" for ts v r
  proof -
    obtain p ts1 where p: "parse_set_value_primary n ts = Inr (p, ts1)"
      using h by (auto simp: parse_set_value_def res_bind_Inr_iff)
    then have r: "r = ts1 \<or> (\<exists>q. parse_set_value_primary n (tl ts1) = Inr (q, r))"
      using h by (auto simp: parse_set_value_def res_map_Inr split: if_splits)
    show ?thesis
      using r shrinksD [OF shrinks_set_value_primary p]
      by (auto dest!: shrinksD [OF shrinks_set_value_primary, of n "tl ts1"])
  qed
  then show ?thesis by (auto simp: shrinks_def)
qed

lemma returns_set_action: "length ts < n \<Longrightarrow> returns (parse_set_action n ts)"
  unfolding parse_set_action_def
  by (auto simp: case_prod_beta expect_Inr intro!: returns_bind returns_set_value
      dest!: shrinksD [OF shrinks_path])

lemma shrinks_set_action: "shrinks (parse_set_action n)"
  unfolding shrinks_def parse_set_action_def
  by (auto simp: res_bind_Inr_iff res_map_Inr expect_Inr
      dest!: shrinksD [OF shrinks_path] shrinksD [OF shrinks_set_value])

lemma returns_path_action: "length ts < n \<Longrightarrow> returns (parse_path_action n ts)"
  unfolding parse_path_action_def
  by (auto simp: case_prod_beta intro!: returns_bind returns_operand(1) dest!: shrinksD [OF shrinks_path])

lemma shrinks_path_action: "shrinks (parse_path_action n)"
  unfolding shrinks_def parse_path_action_def
  by (auto simp: res_bind_Inr_iff res_map_Inr dest!: shrinksD [OF shrinks_path] shrinksD [OF shrinks_operand])

lemma returns_then_loop:
  assumes "\<And>us. length us < n \<Longrightarrow> returns (action us)" and sh: "shrinks action" and "length ts < n"
    and "\<And>u r. length r < n \<Longrightarrow> returns (k u r)"
  shows "returns (res_bind (parse_clause action n ts) (\<lambda>(as, r). k as r))"
proof (intro returns_bind, goal_cases)
  case 1 show ?case using assms(1,3) by (intro returns_clause sh) auto
next
  case (2 x)
  have "length (snd x) < n" using shrinksD [OF shrinks_clause [OF sh] 2] assms(3) by simp
  then show ?case using assms(4) by (simp add: case_prod_beta)
qed

lemma returns_update_loop: "length ts < n \<Longrightarrow> returns (parse_update_loop n seen u ts)"
proof (induction n arbitrary: seen u ts)
  case (Suc n)
  have l: "length (tl ts) < n" if "\<not> at_end ts"
    using that Suc.prems by (cases ts) (auto simp: at_end_def)
  note step = returns_then_loop [OF _ _ l] returns_set_action returns_path_action
    shrinks_set_action shrinks_path_action shrinks_path Suc.IH
  show ?case
    by (simp add: Let_def step split: token.split)
qed simp

lemma parse_update_returns: "parse_update s \<noteq> None"
proof -
  have "returned (res_bind (parse_update_loop (parse_fuel ts) [] empty_update ts)
      (\<lambda>u. if update_is_empty u then syntax_error else Inr u)) \<noteq> None" for ts
    unfolding returned_returns
    by (intro returns_bind returns_update_loop) (simp_all add: parse_fuel_def)
  then show ?thesis unfolding parse_update_def by (cases "tokenize s") simp_all
qed

chapter \<open>The documented grammar\<close>

text \<open>
  The grammar of conditions in section 10.2.1 of \<^verbatim>\<open>specs/ruststack-dynamodb-design.md\<close>, against the grammar
  that the parser implements. Each sentence of the documented grammar is accepted, but for one that uses
  \<open>size\<close> as a condition of its own. The converse does not hold: the parser also accepts \<open>size\<close> as an operand,
  and functions with any number of arguments of any form.
\<close>

inductive d_operand :: "token list \<Rightarrow> bool" where
  "g_path p ts \<Longrightarrow> d_operand ts"
| "d_operand [TkExprAttrValue name]"

inductive d_more :: "token list \<Rightarrow> bool" where
  "d_more []"
| "d_operand ts \<Longrightarrow> d_more us \<Longrightarrow> d_more (TkComma # ts @ us)"

text \<open>The functions that are conditions; \<open>size\<close> is left out.\<close>

inductive d_function :: "token list \<Rightarrow> bool" where
  "t \<in> {TkAttributeExists, TkAttributeNotExists} \<Longrightarrow> g_path p ts \<Longrightarrow> d_function (t # TkLParen # ts @ [TkRParen])"
| "t \<in> {TkAttributeType, TkBeginsWith, TkContains} \<Longrightarrow> g_path p ts \<Longrightarrow> d_operand us \<Longrightarrow>
     d_function (t # TkLParen # ts @ TkComma # us @ [TkRParen])"

inductive d_condition :: "token list \<Rightarrow> bool" where
  d_compare: "d_operand ts \<Longrightarrow> compare_op_of_token t = Some c \<Longrightarrow> d_operand us \<Longrightarrow> d_condition (ts @ t # us)"
| d_between: "d_operand ts \<Longrightarrow> d_operand us \<Longrightarrow> d_operand vs \<Longrightarrow> d_condition (ts @ TkBetween # us @ TkAnd # vs)"
| d_in: "d_operand ts \<Longrightarrow> d_operand us \<Longrightarrow> d_more vs \<Longrightarrow> d_condition (ts @ TkIn # TkLParen # us @ vs @ [TkRParen])"
| d_paren: "d_condition ts \<Longrightarrow> d_condition (TkLParen # ts @ [TkRParen])"
| d_not: "d_condition ts \<Longrightarrow> d_condition (TkNot # ts)"
| d_and: "d_condition ts \<Longrightarrow> d_condition us \<Longrightarrow> d_condition (ts @ TkAnd # us)"
| d_or: "d_condition ts \<Longrightarrow> d_condition us \<Longrightarrow> d_condition (ts @ TkOr # us)"
| d_function: "d_function ts \<Longrightarrow> d_condition ts"

section \<open>The implemented grammar as a chain\<close>

text \<open>What the implemented grammar derives, without the tree: terms joined by connectives.\<close>

inductive g_chain :: "token list \<Rightarrow> bool" where
  chain_one: "g_not e ts \<Longrightarrow> g_chain ts"
| chain_snoc: "g_chain ts \<Longrightarrow> c \<in> {TkAnd, TkOr} \<Longrightarrow> g_not e us \<Longrightarrow> g_chain (ts @ c # us)"

lemmas or_rule = g_orI and or_nil_rule = g_or_nil and or_cons_rule = g_or_cons
  and and_nil_rule = g_and_nil and and_cons_rule = g_and_cons

lemma and_tail_snoc:
  "g_and_tail l e us \<Longrightarrow> g_not r vs \<Longrightarrow> g_and_tail l (ELogical LogAnd e r) (us @ TkAnd # vs)"
proof (induction l e us rule: g_or_g_or_tail_g_and_g_and_tail_g_not.inducts(4)
    [where ?P1.0 = "\<lambda>_ _. True" and ?P2.0 = "\<lambda>_ _ _. True" and ?P3.0 = "\<lambda>_ _. True" and ?P5.0 = "\<lambda>_ _. True"])
  case (g_and_nil l)
  then show ?case using g_and_cons [OF _ and_nil_rule, of r vs l] by simp
next
  case (g_and_cons r' ts l e us)
  then show ?case using and_cons_rule [of r' ts l _ "us @ TkAnd # vs"] by simp
qed simp_all

lemma and_snoc: "g_and l ts \<Longrightarrow> g_not r vs \<Longrightarrow> g_and (ELogical LogAnd l r) (ts @ TkAnd # vs)"
  by (elim g_and.cases) (use and_tail_snoc g_andI in fastforce)

lemma and_of_not: "g_not e ts \<Longrightarrow> g_and e ts"
  using g_andI [OF _ g_and_nil] by fastforce

lemma or_of_and: "g_and e ts \<Longrightarrow> g_or e ts"
  using g_orI [OF _ g_or_nil] by fastforce

lemma or_tail_snoc_or:
  "g_or_tail l e us \<Longrightarrow> g_and r vs \<Longrightarrow> g_or_tail l (ELogical LogOr e r) (us @ TkOr # vs)"
proof (induction l e us rule: g_or_g_or_tail_g_and_g_and_tail_g_not.inducts(2)
    [where ?P1.0 = "\<lambda>_ _. True" and ?P3.0 = "\<lambda>_ _. True" and ?P4.0 = "\<lambda>_ _ _. True" and ?P5.0 = "\<lambda>_ _. True"])
  case (g_or_nil l)
  then show ?case using g_or_cons [OF _ or_nil_rule, of r vs l] by simp
next
  case (g_or_cons r' ts l e us)
  then show ?case using or_cons_rule [of r' ts l _ "us @ TkOr # vs"] by simp
qed simp_all

lemma or_tail_snoc_and:
  "g_or_tail l e us \<Longrightarrow> us \<noteq> [] \<Longrightarrow> g_not r vs \<Longrightarrow> \<exists>e'. g_or_tail l e' (us @ TkAnd # vs)"
proof (induction l e us rule: g_or_g_or_tail_g_and_g_and_tail_g_not.inducts(2)
    [where ?P1.0 = "\<lambda>_ _. True" and ?P3.0 = "\<lambda>_ _. True" and ?P4.0 = "\<lambda>_ _ _. True" and ?P5.0 = "\<lambda>_ _. True"])
  case (g_or_cons r' ts l e us)
  show ?case
  proof (cases "us = []")
    case True
    have "g_or_tail l (ELogical LogOr l (ELogical LogAnd r' r)) (TkOr # (ts @ TkAnd # vs) @ [])"
      by (rule or_cons_rule [OF and_snoc [OF g_or_cons(1,6)] g_or_nil])
    then show ?thesis using True by auto
  next
    case False
    then obtain e' where "g_or_tail (ELogical LogOr l r') e' (us @ TkAnd # vs)" using g_or_cons by blast
    from or_cons_rule [OF g_or_cons(1) this] show ?thesis by auto
  qed
qed simp_all

lemma or_snoc:
  assumes "g_or e ts" "c \<in> {TkAnd, TkOr}" "g_not r us"
  shows "\<exists>e'. g_or e' (ts @ c # us)"
  using assms(1)
proof (cases rule: g_or.cases)
  case (g_orI l ts1 us1)
  show ?thesis
  proof (cases "c = TkOr")
    case True
    have "g_or (ELogical LogOr e r) (ts1 @ us1 @ TkOr # us)"
      by (rule or_rule [OF g_orI(2) or_tail_snoc_or [OF g_orI(3) and_of_not [OF assms(3)]]])
    with True g_orI(1) show ?thesis by auto
  next
    case False
    then have c: "c = TkAnd" using assms(2) by simp
    show ?thesis
    proof (cases "us1 = []")
      case True
      then show ?thesis using or_of_and [OF and_snoc [OF g_orI(2) assms(3)]] c g_orI(1) by auto
    next
      case False
      then obtain e' where "g_or_tail l e' (us1 @ TkAnd # us)"
        using or_tail_snoc_and [OF g_orI(3) _ assms(3)] by blast
      from or_rule [OF g_orI(2) this] show ?thesis using c g_orI(1) by auto
    qed
  qed
qed

lemma chain_or: "g_chain ts \<Longrightarrow> \<exists>e. g_or e ts"
proof (induction rule: g_chain.induct)
  case (chain_one e ts)
  then show ?case using or_of_and [OF and_of_not] by blast
next
  case (chain_snoc ts c e us)
  then show ?case using or_snoc by blast
qed

lemma chain_append: "g_chain us \<Longrightarrow> g_chain ts \<Longrightarrow> c \<in> {TkAnd, TkOr} \<Longrightarrow> g_chain (ts @ c # us)"
proof (induction rule: g_chain.induct)
  case (chain_one e us)
  then show ?case using g_chain.chain_snoc by blast
next
  case (chain_snoc us c' e vs)
  then show ?case using g_chain.chain_snoc [of "ts @ c # us" c' e vs] by simp
qed

lemma chain_not: "g_chain ts \<Longrightarrow> g_chain (TkNot # ts)"
proof (induction rule: g_chain.induct)
  case (chain_one e ts)
  then show ?case using g_chain.chain_one [OF g_notI] by blast
next
  case (chain_snoc ts c e us)
  then show ?case using g_chain.chain_snoc [of "TkNot # ts" c e us] by simp
qed

section \<open>Documented sentences\<close>

lemma d_operand_g: "d_operand ts \<Longrightarrow> \<exists>x. g_operand x ts"
  by (induction rule: d_operand.induct) (blast intro: g_operand.intros)+

lemma d_more_g: "d_more ts \<Longrightarrow> \<exists>xs. g_more xs ts"
proof (induction rule: d_more.induct)
  case (2 ts us)
  then show ?case using d_operand_g g_more.intros(2) by blast
qed (blast intro: g_more.intros)

lemma d_function_g: "d_function ts \<Longrightarrow> \<exists>e. g_atom e ts"
proof (induction rule: d_function.induct)
  case (1 t p ts)
  then obtain f where "function_of_token t = Some f" by auto
  from g_atom.intros(1) [OF this g_operand.intros(3) [OF 1(2)] g_more.intros(1)] show ?case by auto
next
  case (2 t p ts us)
  obtain f where f: "function_of_token t = Some f" using 2(1) by auto
  obtain x where "g_operand x us" using d_operand_g [OF 2(3)] by blast
  from g_atom.intros(1) [OF f g_operand.intros(3) [OF 2(2)] g_more.intros(2) [OF this g_more.intros(1)]] show ?case by auto
qed

lemma atom_chain: "g_atom e ts \<Longrightarrow> g_chain ts"
  by (rule chain_one [OF g_atomI])

theorem documented_accepted:
  assumes "d_condition ts" shows "\<exists>e. g_or e ts"
proof -
  from assms have "g_chain ts"
  proof (induction rule: d_condition.induct)
    case (d_compare ts t c us)
    then obtain l r where "g_operand l ts" "g_operand r us" using d_operand_g by meson
    from g_atom.intros(2) [OF this(1) d_compare(2) this(2)] show ?case by (rule atom_chain)
  next
    case (d_between ts us vs)
    then obtain v lo hi where "g_operand v ts" "g_operand lo us" "g_operand hi vs" using d_operand_g by meson
    from g_atom.intros(3) [OF this] show ?case by (rule atom_chain)
  next
    case (d_in ts us vs)
    then obtain v x xs where "g_operand v ts" "g_operand x us" "g_more xs vs" using d_operand_g d_more_g by meson
    from g_atom.intros(4) [OF this] show ?case by (rule atom_chain)
  next
    case (d_paren ts)
    then show ?case using chain_or chain_one [OF g_paren] by blast
  next
    case (d_function ts)
    then show ?case using d_function_g atom_chain by blast
  qed (auto intro: chain_append chain_not)
  then show ?thesis by (rule chain_or)
qed

end
