(* ===== verification/Dynamo_Print.thy ===== *)
theory Dynamo_Print
  imports Dynamo_Grammar
begin

text \<open>
  A printer of condition expressions with as few parentheses as precedence allows, and the round
  trip: a printed expression is read back by \<open>parse_condition\<close>.
\<close>

fun name_token :: "string \<Rightarrow> token" where
  "name_token [] = TkIdentifier []"
| "name_token (c # s) = (if c = CHR ''#'' then TkExprAttrName s else TkIdentifier (c # s))"

fun path_tail_tokens :: "attribute_path \<Rightarrow> token list" where
  "path_tail_tokens [] = []"
| "path_tail_tokens (PathAttr name # p) = TkDot # name_token name # path_tail_tokens p"
| "path_tail_tokens (PathIndex i # p) = TkLBracket # TkNumber i # TkRBracket # path_tail_tokens p"

fun path_tokens :: "attribute_path \<Rightarrow> token list" where
  "path_tokens (PathAttr name # p) = name_token name # path_tail_tokens p"
| "path_tokens _ = []"

fun operand_tokens :: "operand \<Rightarrow> token list" where
  "operand_tokens (OpPath p) = path_tokens p"
| "operand_tokens (OpValue name) = [TkExprAttrValue name]"
| "operand_tokens (OpSize x) = TkSize # TkLParen # operand_tokens x @ [TkRParen]"

definition more_tokens :: "operand list \<Rightarrow> token list" where
  "more_tokens xs = concat (map (\<lambda>x. TkComma # operand_tokens x) xs)"

definition operands_tokens :: "operand list \<Rightarrow> token list" where
  "operands_tokens xs = (case xs of [] \<Rightarrow> [] | x # r \<Rightarrow> operand_tokens x @ more_tokens r)"

fun compare_token :: "compare_op \<Rightarrow> token" where
  "compare_token CmpEq = TkEq"
| "compare_token CmpNe = TkNe"
| "compare_token CmpLt = TkLt"
| "compare_token CmpLe = TkLe"
| "compare_token CmpGt = TkGt"
| "compare_token CmpGe = TkGe"

fun function_name_token :: "function_name \<Rightarrow> token" where
  "function_name_token FnAttributeExists = TkAttributeExists"
| "function_name_token FnAttributeNotExists = TkAttributeNotExists"
| "function_name_token FnAttributeType = TkAttributeType"
| "function_name_token FnBeginsWith = TkBeginsWith"
| "function_name_token FnContains = TkContains"
| "function_name_token FnSize = TkSize"

definition parens :: "bool \<Rightarrow> token list \<Rightarrow> token list" where
  "parens b ts = (if b then TkLParen # ts @ [TkRParen] else ts)"

text \<open>The first argument is the strength of the context: 0 for \<open>OR\<close>, 1 for \<open>AND\<close>, 2 for \<open>NOT\<close>.\<close>

fun expr_tokens :: "nat \<Rightarrow> expr \<Rightarrow> token list" where
  "expr_tokens k (ELogical LogOr l r) = parens (0 < k) (expr_tokens 0 l @ TkOr # expr_tokens 1 r)"
| "expr_tokens k (ELogical LogAnd l r) = parens (1 < k) (expr_tokens 1 l @ TkAnd # expr_tokens 2 r)"
| "expr_tokens k (ENot e) = TkNot # expr_tokens 2 e"
| "expr_tokens k (ECompare l c r) = operand_tokens l @ compare_token c # operand_tokens r"
| "expr_tokens k (EBetween v lo hi) =
     operand_tokens v @ TkBetween # operand_tokens lo @ TkAnd # operand_tokens hi"
| "expr_tokens k (EIn v xs) = operand_tokens v @ TkIn # TkLParen # operands_tokens xs @ [TkRParen]"
| "expr_tokens k (EFunction f xs) = function_name_token f # TkLParen # operands_tokens xs @ [TkRParen]"

definition condition_text :: "expr \<Rightarrow> string" where
  "condition_text e = print_tokens (expr_tokens 0 e)"

text \<open>Expressions that have a text.\<close>

definition attr_name_ok :: "string \<Rightarrow> bool" where
  "attr_name_ok name \<longleftrightarrow>
     (case name of [] \<Rightarrow> False
      | c # s \<Rightarrow> if c = CHR ''#'' then reference_name s else plain_identifier name)"

fun path_element_ok :: "path_element \<Rightarrow> bool" where
  "path_element_ok (PathAttr name) = attr_name_ok name"
| "path_element_ok (PathIndex i) = (i \<le> i32_max)"

fun path_ok :: "attribute_path \<Rightarrow> bool" where
  "path_ok (PathAttr name # p) = (attr_name_ok name \<and> list_all path_element_ok p)"
| "path_ok _ = False"

fun operand_ok :: "operand \<Rightarrow> bool" where
  "operand_ok (OpPath p) = path_ok p"
| "operand_ok (OpValue name) = reference_name name"
| "operand_ok (OpSize x) = operand_ok x"

fun expr_ok :: "expr \<Rightarrow> bool" where
  "expr_ok (ELogical op l r) = (expr_ok l \<and> expr_ok r)"
| "expr_ok (ENot e) = expr_ok e"
| "expr_ok (ECompare l c r) = (operand_ok l \<and> operand_ok r)"
| "expr_ok (EBetween v lo hi) = (operand_ok v \<and> operand_ok lo \<and> operand_ok hi)"
| "expr_ok (EIn v xs) = (operand_ok v \<and> xs \<noteq> [] \<and> list_all operand_ok xs)"
| "expr_ok (EFunction f xs) = (f \<noteq> FnSize \<and> xs \<noteq> [] \<and> list_all operand_ok xs)"

section \<open>A printed expression is a sentence\<close>

lemma name_token_ok:
  "attr_name_ok name \<Longrightarrow> g_name (PathAttr name) (name_token name) \<and> token_ok (name_token name)"
  by (cases name) (auto simp: attr_name_ok_def intro: g_name.intros)

lemma path_tail_tokens_ok:
  "list_all path_element_ok p \<Longrightarrow> g_path_tail p (path_tail_tokens p) \<and> list_all token_ok (path_tail_tokens p)"
proof (induction p rule: path_tail_tokens.induct)
  case (2 name p)
  then show ?case using name_token_ok [of name] by (auto intro: g_path_tail.intros)
qed (auto intro: g_path_tail.intros)

lemma path_tokens_ok: "path_ok p \<Longrightarrow> g_path p (path_tokens p) \<and> list_all token_ok (path_tokens p)"
  using name_token_ok path_tail_tokens_ok by (cases p rule: path_ok.cases) (auto intro: g_path.intros)

lemma operand_tokens_ok:
  "operand_ok x \<Longrightarrow> g_operand x (operand_tokens x) \<and> list_all token_ok (operand_tokens x)"
  by (induction x) (auto simp: path_tokens_ok intro: g_operand.intros)

lemma more_tokens_ok:
  "list_all operand_ok xs \<Longrightarrow> g_more xs (more_tokens xs) \<and> list_all token_ok (more_tokens xs)"
proof (induction xs)
  case (Cons x xs)
  then show ?case
    using g_more.intros(2) [of x "operand_tokens x" xs "more_tokens xs"] operand_tokens_ok [of x]
    by (simp add: more_tokens_def)
qed (simp add: more_tokens_def g_more.intros)

lemma g_or_append:
  assumes "g_or l ts" "g_and r us" shows "g_or (ELogical LogOr l r) (ts @ TkOr # us)"
proof -
  have t: "g_or_tail x (ELogical LogOr y r) (vs @ TkOr # us)" if "g_or_tail x y vs" for x y vs
    using that
  proof (induction rule: g_or_g_or_tail_g_and_g_and_tail_g_not.inducts(2)
      [where ?P1.0 = "\<lambda>_ _. True" and ?P3.0 = "\<lambda>_ _. True" and ?P4.0 = "\<lambda>_ _ _. True" and ?P5.0 = "\<lambda>_ _. True"])
    case (g_or_nil l)
    then show ?case using g_or_cons [OF assms(2) Dynamo_Grammar.g_or_nil] by simp
  next
    case (g_or_cons r ts l e us)
    then show ?case using Dynamo_Grammar.g_or_cons by fastforce
  qed simp_all
  from assms(1) obtain x ws vs where "ts = ws @ vs" "g_and x ws" "g_or_tail x l vs"
    by (auto elim: g_or.cases)
  with g_orI [OF this(2) t [OF this(3)]] show ?thesis by simp
qed

lemma g_and_append:
  assumes "g_and l ts" "g_not r us" shows "g_and (ELogical LogAnd l r) (ts @ TkAnd # us)"
proof -
  have t: "g_and_tail x (ELogical LogAnd y r) (vs @ TkAnd # us)" if "g_and_tail x y vs" for x y vs
    using that
  proof (induction rule: g_or_g_or_tail_g_and_g_and_tail_g_not.inducts(4)
      [where ?P1.0 = "\<lambda>_ _. True" and ?P3.0 = "\<lambda>_ _. True" and ?P2.0 = "\<lambda>_ _ _. True" and ?P5.0 = "\<lambda>_ _. True"])
    case (g_and_nil l)
    then show ?case using g_and_cons [OF assms(2) Dynamo_Grammar.g_and_nil] by simp
  next
    case (g_and_cons r ts l e us)
    then show ?case using Dynamo_Grammar.g_and_cons by fastforce
  qed simp_all
  from assms(1) obtain x ws vs where "ts = ws @ vs" "g_not x ws" "g_and_tail x l vs"
    by (auto elim: g_and.cases)
  with g_andI [OF this(2) t [OF this(3)]] show ?thesis by simp
qed

text \<open>What the printed text derives, for each strength of context.\<close>

definition derives :: "nat \<Rightarrow> expr \<Rightarrow> token list \<Rightarrow> bool" where
  "derives k e ts \<longleftrightarrow> (if k = 0 then g_or e ts else if k = 1 then g_and e ts else g_not e ts)"

lemma g_lift: "g_not e ts \<Longrightarrow> g_and e ts" "g_and e ts \<Longrightarrow> g_or e ts"
  using g_andI [OF _ g_and_nil] g_orI [OF _ g_or_nil] by fastforce+

lemma derives_not: "g_not e ts \<Longrightarrow> derives k e ts"
  using g_lift by (auto simp: derives_def)

lemma derives_or: "g_or e ts \<Longrightarrow> derives k e (parens (0 < k) ts)"
  using derives_not [OF g_paren] by (auto simp: parens_def) (simp add: derives_def)

lemma derives_and: "g_and e ts \<Longrightarrow> derives k e (parens (1 < k) ts)"
  using derives_not [OF g_paren [OF g_lift(2)]] g_lift(2) [of e ts]
  by (auto simp: parens_def) (auto simp: derives_def)

lemma expr_tokens_ok:
  "expr_ok e \<Longrightarrow> derives k e (expr_tokens k e) \<and> list_all token_ok (expr_tokens k e)"
proof (induction k e rule: expr_tokens.induct)
  case (1 k l r)
  then have "g_or (ELogical LogOr l r) (expr_tokens 0 l @ TkOr # expr_tokens 1 r)"
    by (intro g_or_append) (simp_all add: derives_def)
  from derives_or [OF this, of k] 1 show ?case by (simp add: parens_def)
next
  case (2 k l r)
  then have "g_and (ELogical LogAnd l r) (expr_tokens 1 l @ TkAnd # expr_tokens 2 r)"
    by (intro g_and_append) (simp_all add: derives_def)
  from derives_and [OF this, of k] 2 show ?case by (simp add: parens_def)
next
  case (3 k e)
  then have "g_not e (expr_tokens 2 e)" by (simp add: derives_def)
  from derives_not [OF g_notI [OF this], of k] 3 show ?case by simp
next
  case (4 k l c r)
  have "compare_op_of_token (compare_token c) = Some c \<and> token_ok (compare_token c)" by (cases c) simp_all
  then show ?case
    using 4 operand_tokens_ok [of l] operand_tokens_ok [of r]
    by (auto intro!: derives_not g_atomI g_atom.intros)
next
  case (5 k v lo hi)
  then show ?case
    using operand_tokens_ok [of v] operand_tokens_ok [of lo] operand_tokens_ok [of hi]
    by (auto intro!: derives_not g_atomI g_atom.intros)
next
  case (6 k v xs)
  then obtain x ys where xs: "xs = x # ys" by (cases xs) auto
  show ?case
    using 6 operand_tokens_ok [of v] operand_tokens_ok [of x] more_tokens_ok [of ys]
      g_atom.intros(4) [of v "operand_tokens v" x "operand_tokens x" ys "more_tokens ys"]
    by (auto simp: xs operands_tokens_def intro!: derives_not g_atomI)
next
  case (7 k f xs)
  then obtain x ys where xs: "xs = x # ys" by (cases xs) auto
  have "function_of_token (function_name_token f) = Some f \<and> token_ok (function_name_token f)"
    using 7 by (cases f) simp_all
  then show ?case
    using 7 operand_tokens_ok [of x] more_tokens_ok [of ys]
      g_atom.intros(1) [of "function_name_token f" f x "operand_tokens x" ys "more_tokens ys"]
    by (auto simp: xs operands_tokens_def intro!: derives_not g_atomI)
qed

lemma condition_round_trip: "expr_ok e \<Longrightarrow> parse_condition (condition_text e) = Some (Inr e)"
  unfolding parse_condition_grammar condition_text_def
  using expr_tokens_ok [of e 0] tokenize_print by (auto simp: derives_def)

end
