(* ===== verification/Dynamo_Number.thy ===== *)
theory Dynamo_Number
  imports Complex_Main Dynamo_Types Rust_Text
begin

text \<open>
  Numbers of DynamoDB: decimal strings with up to 38 significant digits. Three parts of the code
  take them apart: the validation of \<^verbatim>\<open>provider.rs\<close>, the ordering of keys in \<^verbatim>\<open>storage.rs\<close>, and the
  arithmetic of \<^verbatim>\<open>expression/evaluator.rs\<close>.

  Exponents are \<^verbatim>\<open>i64\<close> in the code and integers here: digits and exponents of validated numbers are
  far below the width. The 128-bit integers of the arithmetic are kept at their width
  (\<open>i128_wrap\<close>; a release build wraps).
\<close>

section \<open>Validation\<close>

definition is_exponent_char :: "char \<Rightarrow> bool" where
  "is_exponent_char c \<longleftrightarrow> c = CHR ''e'' \<or> c = CHR ''E''"

definition is_dot :: "char \<Rightarrow> bool" where
  "is_dot c \<longleftrightarrow> c = CHR ''.''"

text \<open>The mantissa and the explicit exponent; \<open>None\<close> when the exponent is not an \<^verbatim>\<open>i64\<close>.\<close>

definition split_exponent :: "string \<Rightarrow> (string \<times> int) option" where
  "split_exponent rest =
     (case split_where is_exponent_char rest of
        None \<Rightarrow> Some (rest, 0)
      | Some (mantissa, exp_str) \<Rightarrow> map_option (\<lambda>e. (mantissa, e)) (parse_int 64 exp_str))"

text \<open>The loop over the mantissa: \<open>None\<close> for a second dot or a character that is no digit.\<close>

fun scan_mantissa :: "string \<Rightarrow> bool \<Rightarrow> bool \<Rightarrow> bool option" where
  "scan_mantissa [] has_dot has_digit = Some has_digit"
| "scan_mantissa (c # s) has_dot has_digit =
     (if is_dot c then if has_dot then None else scan_mantissa s True has_digit
      else if is_ascii_digit c then scan_mantissa s has_dot True
      else None)"

definition max_significant_digits :: nat where
  "max_significant_digits = 38"

definition strip_sign :: "string \<Rightarrow> string" where
  "strip_sign s =
     (case s of [] \<Rightarrow> [] | c # r \<Rightarrow> if c = CHR ''+'' \<or> c = CHR ''-'' then r else s)"

definition number_magnitude :: "string \<Rightarrow> int \<Rightarrow> int" where
  "number_magnitude mantissa explicit_exp =
     (let all_digits = filter is_ascii_digit mantissa;
          trimmed_leading = trim_start_matches CHR ''0'' all_digits;
          frac_digits = (case split_where is_dot mantissa of None \<Rightarrow> 0 | Some (_, fract) \<Rightarrow> length fract)
      in explicit_exp - int frac_digits + int (length all_digits)
           - int (length all_digits - length trimmed_leading) - 1)"

text \<open>\<open>True\<close> is \<^verbatim>\<open>Ok\<close>; every error is a \<^verbatim>\<open>ValidationException\<close>.\<close>

definition validate_number_string :: "string \<Rightarrow> bool" where
  "validate_number_string s =
     (if s \<noteq> str_trim s then False
      else if s = [] then False
      else
        let rest = strip_sign s
        in if rest = [] then False
           else
             (case split_exponent rest of
                None \<Rightarrow> False
              | Some (mantissa, explicit_exp) \<Rightarrow>
                  if mantissa = [] then False
                  else if scan_mantissa mantissa False False \<noteq> Some True then False
                  else
                    let all_digits = filter is_ascii_digit mantissa;
                        significant = trim_end_matches CHR ''0''
                          (trim_start_matches CHR ''0'' all_digits)
                    in if significant = [] then True
                       else if length significant > max_significant_digits then False
                       else if number_magnitude mantissa explicit_exp > 125 then False
                       else if number_magnitude mantissa explicit_exp < - 130 then False
                       else True))"

fun validate_numbers_in_value :: "attribute_value \<Rightarrow> bool" where
  "validate_numbers_in_value (AvN s) = validate_number_string s"
| "validate_numbers_in_value (AvNs nums) = list_all validate_number_string nums"
| "validate_numbers_in_value (AvL xs) = list_all validate_numbers_in_value xs"
| "validate_numbers_in_value (AvM m) = list_all (\<lambda>kv. validate_numbers_in_value (snd kv)) m"
| "validate_numbers_in_value _ = True"

definition validate_numbers_in_item :: "item \<Rightarrow> bool" where
  "validate_numbers_in_item it \<longleftrightarrow> list_all (\<lambda>kv. validate_numbers_in_value (snd kv)) it"

section \<open>Ordering\<close>

text \<open>The value is \<open>0.d1 d2 \<dots> * 10 ^ exponent\<close>; zero has no digits. The exponent is an \<^verbatim>\<open>i64\<close> in the code; the
  sums here do not wrap, which differs only for texts that \<open>validate_number_string\<close> refuses and for zeros,
  which keep no exponent.\<close>

record normalized_number =
  nn_negative :: bool
  nn_digits :: "nat list"
  nn_exponent :: int

definition digit_of :: "char \<Rightarrow> nat" where
  "digit_of c = byte_of c - 48"

definition sign_and_rest :: "string \<Rightarrow> bool \<times> string" where
  "sign_and_rest s =
     (case s of
        [] \<Rightarrow> (False, [])
      | c # r \<Rightarrow> if c = CHR ''-'' then (True, r) else if c = CHR ''+'' then (False, r) else (False, s))"

definition normalize_number :: "string \<Rightarrow> normalized_number" where
  "normalize_number s0 =
     (let (negative, s) = sign_and_rest (str_trim s0);
          (mantissa, explicit_exp) =
            (case split_where is_exponent_char s of
               Some (m, exp_str) \<Rightarrow> (m, unwrap_or 0 (parse_int 64 exp_str))
             | None \<Rightarrow> (s, 0));
          (int_part, frac_part) =
            (case split_where is_dot mantissa of Some (i, f) \<Rightarrow> (i, f) | None \<Rightarrow> (mantissa, []));
          int_digits = map digit_of (filter is_ascii_digit int_part);
          all_digits = int_digits @ map digit_of (filter is_ascii_digit frac_part);
          exponent = int (length int_digits) + explicit_exp;
          leading_zeros = length (takeWhile (\<lambda>d. d = 0) all_digits);
          digits = rev (dropWhile (\<lambda>d. d = 0) (rev (drop leading_zeros all_digits)))
      in if digits = [] then \<lparr>nn_negative = False, nn_digits = [], nn_exponent = 0\<rparr>
         else \<lparr>nn_negative = negative, nn_digits = digits,
               nn_exponent = exponent - int leading_zeros\<rparr>)"

datatype ordering = OrdLess | OrdEqual | OrdGreater

fun ordering_reverse :: "ordering \<Rightarrow> ordering" where
  "ordering_reverse OrdLess = OrdGreater"
| "ordering_reverse OrdEqual = OrdEqual"
| "ordering_reverse OrdGreater = OrdLess"

definition ord_cmp :: "'a::linorder \<Rightarrow> 'a \<Rightarrow> ordering" where
  "ord_cmp a b = (if a < b then OrdLess else if a = b then OrdEqual else OrdGreater)"

text \<open>The loop over the digits, a missing digit counting as zero.\<close>

fun compare_digits :: "nat list \<Rightarrow> nat list \<Rightarrow> ordering" where
  "compare_digits [] [] = OrdEqual"
| "compare_digits (a # as) [] =
     (case ord_cmp a 0 of OrdEqual \<Rightarrow> compare_digits as [] | other \<Rightarrow> other)"
| "compare_digits [] (b # bs) =
     (case ord_cmp 0 b of OrdEqual \<Rightarrow> compare_digits [] bs | other \<Rightarrow> other)"
| "compare_digits (a # as) (b # bs) =
     (case ord_cmp a b of OrdEqual \<Rightarrow> compare_digits as bs | other \<Rightarrow> other)"

definition compare_magnitude :: "normalized_number \<Rightarrow> normalized_number \<Rightarrow> ordering" where
  "compare_magnitude a b =
     (case ord_cmp (nn_exponent a) (nn_exponent b) of
        OrdEqual \<Rightarrow> compare_digits (nn_digits a) (nn_digits b)
      | other \<Rightarrow> other)"

definition compare_number_strings :: "string \<Rightarrow> string \<Rightarrow> ordering" where
  "compare_number_strings a b =
     (let na = normalize_number a; nb = normalize_number b;
          a_zero = (nn_digits na = []); b_zero = (nn_digits nb = [])
      in if a_zero \<and> b_zero then OrdEqual
         else if a_zero then if nn_negative nb then OrdGreater else OrdLess
         else if b_zero then if nn_negative na then OrdLess else OrdGreater
         else if nn_negative na \<and> \<not> nn_negative nb then OrdLess
         else if \<not> nn_negative na \<and> nn_negative nb then OrdGreater
         else if nn_negative na then ordering_reverse (compare_magnitude na nb)
         else compare_magnitude na nb)"

section \<open>Arithmetic\<close>

text \<open>The value is \<open>digits * 10 ^ exponent\<close> with its sign.\<close>

record parsed_number =
  pn_negative :: bool
  pn_digits :: string
  pn_exponent :: int

definition parse_number_components :: "string \<Rightarrow> expression_error + parsed_number" where
  "parse_number_components s =
     (let (negative, rest) = sign_and_rest (str_trim s)
      in (case split_exponent rest of
            None \<Rightarrow> Inl TypeMismatch
          | Some (mantissa, explicit_exp) \<Rightarrow>
              let (all_digits, frac_len) =
                    (case split_where is_dot mantissa of
                       Some (i, f) \<Rightarrow> (i @ f, length f)
                     | None \<Rightarrow> (mantissa, 0));
                  trimmed = trim_start_matches CHR ''0'' all_digits
              in if trimmed = []
                 then Inr \<lparr>pn_negative = False, pn_digits = ''0'', pn_exponent = 0\<rparr>
                 else
                   let final_digits = trim_end_matches CHR ''0'' trimmed;
                       trailing_zeros = length trimmed - length final_digits
                   in Inr \<lparr>pn_negative = negative, pn_digits = final_digits,
                           pn_exponent = explicit_exp - int frac_len + int trailing_zeros\<rparr>))"

definition zeros :: "nat \<Rightarrow> string" where
  "zeros n = replicate n (CHR ''0'')"

definition format_parsed_number :: "parsed_number \<Rightarrow> string" where
  "format_parsed_number p =
     (if pn_digits p = ''0'' then ''0''
      else
        let sign = (if pn_negative p then ''-'' else []);
            digits = pn_digits p; ex = pn_exponent p;
            total_integer_digits = int (length digits) + ex
        in if 0 \<le> ex \<and> total_integer_digits \<le> 20 then sign @ digits @ zeros (nat ex)
           else if 0 < total_integer_digits \<and> total_integer_digits \<le> 20 then
             sign @ take (nat total_integer_digits) digits @ ''.'' @ drop (nat total_integer_digits) digits
           else if - 6 \<le> total_integer_digits \<and> total_integer_digits \<le> 0 then
             sign @ ''0.'' @ zeros (nat (- total_integer_digits)) @ digits
           else
             let sci_exp = ex + int (length digits) - 1
             in if length digits = 1 then sign @ digits @ ''E'' @ show_int sci_exp
                else sign @ take 1 digits @ ''.'' @ drop 1 digits @ ''E'' @ show_int sci_exp)"

definition i128_wrap :: "int \<Rightarrow> int" where
  "i128_wrap x = (x + 2 ^ 127) mod 2 ^ 128 - 2 ^ 127"

text \<open>The part of \<open>precise_arithmetic\<close> after the signed sum.\<close>

definition finish_arithmetic :: "int \<Rightarrow> int \<Rightarrow> expression_error + string" where
  "finish_arithmetic res min_exp =
     (let result_str = show_nat (nat \<bar>res\<bar>);
          trimmed = trim_end_matches CHR ''0'' result_str;
          trailing = length result_str - length trimmed;
          final_exp = min_exp + int trailing
      in if trimmed = [] \<or> trimmed = ''0'' then Inr ''0''
         else if length trimmed > 38 then Inl ValidationError
         else
           let magnitude = final_exp + int (length trimmed) - 1
           in if magnitude > 125 then Inl ValidationError
              else if magnitude < - 130 then Inl ValidationError
              else Inr (format_parsed_number
                     \<lparr>pn_negative = (res < 0), pn_digits = trimmed, pn_exponent = final_exp\<rparr>))"

definition precise_arithmetic :: "string \<Rightarrow> string \<Rightarrow> bool \<Rightarrow> expression_error + string" where
  "precise_arithmetic a b is_add =
     res_bind (parse_number_components a) (\<lambda>pa.
     res_bind (parse_number_components b) (\<lambda>pb0.
       let pb = (if is_add then pb0 else pb0\<lparr>pn_negative := \<not> pn_negative pb0\<rparr>)
       in if pn_digits pa = ''0'' then Inr (format_parsed_number pb)
          else if pn_digits pb = ''0'' then Inr (format_parsed_number pa)
          else
            let min_exp = min (pn_exponent pa) (pn_exponent pb);
                a_digits = pn_digits pa @ zeros (nat (pn_exponent pa - min_exp));
                b_digits = pn_digits pb @ zeros (nat (pn_exponent pb - min_exp))
            in if max (length a_digits) (length b_digits) > 38 + 2 then Inl ValidationError
               else
                 (case (parse_int 128 a_digits, parse_int 128 b_digits) of
                    (Some a_val, Some b_val) \<Rightarrow>
                      finish_arithmetic
                        (i128_wrap ((if pn_negative pa then - a_val else a_val) +
                                    (if pn_negative pb then - b_val else b_val))) min_exp
                  | _ \<Rightarrow> Inl TypeMismatch)))"

definition numeric_arithmetic ::
    "attribute_value \<Rightarrow> attribute_value \<Rightarrow> bool \<Rightarrow> expression_error + attribute_value" where
  "numeric_arithmetic a b is_add =
     (case (a, b) of
        (AvN na, AvN nb) \<Rightarrow> res_map AvN (precise_arithmetic na nb is_add)
      | _ \<Rightarrow> Inl TypeMismatch)"

end
