(* ===== verification/Dynamo_Decimal.thy ===== *)
theory Dynamo_Decimal
  imports Dynamo_Number
begin

text \<open>
  The rational number that a decimal string denotes, and that validation, ordering and arithmetic
  of \<open>Dynamo_Number\<close> agree with it.
\<close>

section \<open>The value of a number\<close>

fun digits_nat :: "nat list \<Rightarrow> nat" where
  "digits_nat [] = 0"
| "digits_nat (d # ds) = d * 10 ^ length ds + digits_nat ds"

definition string_nat :: "string \<Rightarrow> nat" where
  "string_nat s = digits_nat (map digit_of s)"

text \<open>Sign, digits before and after the point, and exponent.\<close>

definition number_parts :: "string \<Rightarrow> (bool \<times> string \<times> string \<times> int) option" where
  "number_parts s =
     (let (neg, rest) = sign_and_rest s
      in (case split_exponent rest of
            None \<Rightarrow> None
          | Some (m, e) \<Rightarrow>
              let (i, f) = (case split_where is_dot m of Some (i, f) \<Rightarrow> (i, f) | None \<Rightarrow> (m, []))
              in if list_all is_ascii_digit (i @ f) \<and> i @ f \<noteq> [] then Some (neg, i, f, e) else None))"

definition signed :: "bool \<Rightarrow> rat \<Rightarrow> rat" where
  "signed neg x = (if neg then - x else x)"

definition number_value :: "string \<Rightarrow> rat" where
  "number_value s =
     (case number_parts s of
        None \<Rightarrow> 0
      | Some (neg, i, f, e) \<Rightarrow> signed neg (of_nat (string_nat (i @ f)) * 10 powi (e - int (length f))))"

definition is_number :: "string \<Rightarrow> bool" where
  "is_number s \<longleftrightarrow> number_parts s \<noteq> None \<and> str_trim s = s"

lemma signed_simps [simp]: "signed False x = x" "signed True x = - x" "signed neg 0 = 0"
  by (simp_all add: signed_def)

lemma digit_char_cases:
  "is_ascii_digit c \<Longrightarrow> c \<noteq> CHR ''+'' \<and> c \<noteq> CHR ''-'' \<and> \<not> is_dot c \<and> \<not> is_exponent_char c"
  by (auto simp: is_ascii_digit_def byte_of_def is_dot_def is_exponent_char_def)

lemma split_where_no_char: "\<forall>c\<in>set s. \<not> P c \<Longrightarrow> split_where P s = None"
  by (simp add: split_where_None)

lemma scan_mantissa_no_dot:
  "scan_mantissa s True d = Some d' \<Longrightarrow> list_all is_ascii_digit s \<and> (d' \<longleftrightarrow> d \<or> s \<noteq> [])"
  by (induction s True d rule: scan_mantissa.induct) (auto split: if_splits)

lemma scan_mantissa_parts:
  "scan_mantissa s False d = Some d' \<Longrightarrow>
     (case split_where is_dot s of
        None \<Rightarrow> list_all is_ascii_digit s \<and> (d' \<longleftrightarrow> d \<or> s \<noteq> [])
      | Some (i, f) \<Rightarrow> list_all is_ascii_digit (i @ f) \<and> (d' \<longleftrightarrow> d \<or> i @ f \<noteq> []))"
proof (induction s arbitrary: d)
  case (Cons c s)
  show ?case
  proof (cases "is_dot c")
    case True
    with Cons.prems scan_mantissa_no_dot [of s d d'] show ?thesis by simp
  next
    case False
    with Cons.prems have c: "is_ascii_digit c" "scan_mantissa s False True = Some d'"
      by (auto split: if_splits)
    from Cons.IH [OF c(2)] c(1) False show ?thesis by (auto split: option.splits)
  qed
qed simp

lemma sign_and_rest_strip: "snd (sign_and_rest s) = strip_sign s"
  by (auto simp: sign_and_rest_def strip_sign_def split: list.split)

lemma valid_is_number:
  assumes "validate_number_string s"
  shows "is_number s"
proof -
  from assms obtain m e where trim: "str_trim s = s" and se: "split_exponent (strip_sign s) = Some (m, e)"
    and scan: "scan_mantissa m False False = Some True"
    by (auto simp: validate_number_string_def Let_def split: if_splits option.splits)
  from scan_mantissa_parts [OF scan] have "number_parts s \<noteq> None"
    using se sign_and_rest_strip [of s]
    by (auto simp: number_parts_def Let_def split: prod.splits option.splits)
  with trim show ?thesis by (simp add: is_number_def)
qed

section \<open>Digits\<close>

lemma digits_nat_append: "digits_nat (a @ b) = digits_nat a * 10 ^ length b + digits_nat b"
  by (induction a) (simp_all add: power_add algebra_simps)

lemma digits_nat_zeros [simp]: "digits_nat (replicate n 0) = 0"
  by (induction n) simp_all

lemma digits_nat_less: "\<forall>d\<in>set ds. d < 10 \<Longrightarrow> digits_nat ds < 10 ^ length ds"
proof (induction ds)
  case (Cons d ds)
  then have "d * 10 ^ length ds + digits_nat ds < d * 10 ^ length ds + 10 ^ length ds" by simp
  also have "\<dots> = (d + 1) * 10 ^ length ds" by simp
  also have "\<dots> \<le> 10 * 10 ^ length ds" using Cons.prems by (intro mult_right_mono) auto
  finally show ?case by simp
qed simp

lemma digit_of_less: "is_ascii_digit c \<Longrightarrow> digit_of c < 10"
  unfolding is_ascii_digit_def digit_of_def by linarith

lemma digit_of_zero: "is_ascii_digit c \<Longrightarrow> digit_of c = 0 \<longleftrightarrow> c = CHR ''0''"
proof -
  assume c: "is_ascii_digit c"
  have "digit_of c = 0 \<longleftrightarrow> byte_of c = 48" using c by (auto simp: is_ascii_digit_def digit_of_def)
  also have "\<dots> \<longleftrightarrow> c = CHR ''0''"
  proof
    assume "byte_of c = 48"
    then have "byte_of c = byte_of (CHR ''0'')" by (simp add: byte_of_def)
    then show "c = CHR ''0''" unfolding byte_of_def by (metis char_of_char)
  qed (simp add: byte_of_def)
  finally show ?thesis .
qed

lemma digits_val_string_nat:
  "list_all is_ascii_digit s \<Longrightarrow> digits_val acc s = Some (acc * 10 ^ length s + string_nat s)"
  by (induction s arbitrary: acc) (auto simp: string_nat_def digit_of_def algebra_simps)

text \<open>The fraction \<open>0.d1 d2 \<dots>\<close>.\<close>

fun fraction :: "nat list \<Rightarrow> rat" where
  "fraction [] = 0"
| "fraction (d # ds) = (of_nat d + fraction ds) / 10"

lemma fraction_digits: "of_nat (digits_nat ds) = fraction ds * 10 ^ length ds"
  by (induction ds) (simp_all add: field_simps)

lemma fraction_bounds: "\<forall>d\<in>set ds. d < 10 \<Longrightarrow> 0 \<le> fraction ds \<and> fraction ds < 1"
proof (induction ds)
  case (Cons d ds)
  then have "d \<le> 9" and f: "0 \<le> fraction ds" "fraction ds < 1" by auto
  then have "(of_nat d :: rat) \<le> of_nat 9" by (simp only: of_nat_le_iff)
  then have "(of_nat d :: rat) \<le> 9" by simp
  with f have "of_nat d + fraction ds < 10" by linarith
  moreover have "0 \<le> of_nat d + fraction ds" using f by simp
  ultimately show ?case by simp
qed simp

lemma fraction_zeros: "fraction (replicate k 0 @ ds) = fraction ds / 10 ^ k"
  by (induction k) simp_all

lemma fraction_append_zeros: "\<forall>d\<in>set zs. d = 0 \<Longrightarrow> fraction (ds @ zs) = fraction ds"
proof (induction ds)
  case Nil
  then show ?case by (induction zs) simp_all
qed simp

lemma fraction_lower: "\<forall>d\<in>set ds. d < 10 \<Longrightarrow> ds \<noteq> [] \<Longrightarrow> hd ds \<noteq> 0 \<Longrightarrow> 1 / 10 \<le> fraction ds"
  using fraction_bounds [of "tl ds"] by (cases ds) auto

lemma takeWhile_zeros: "takeWhile (\<lambda>d. d = (0 :: nat)) ds = replicate (length (takeWhile (\<lambda>d. d = 0) ds)) 0"
  by (induction ds) simp_all

lemma fraction_strip_leading:
  "fraction ds = fraction (drop (length (takeWhile (\<lambda>d. d = 0) ds)) ds) /
     10 ^ length (takeWhile (\<lambda>d. d = 0) ds)"
  using fraction_zeros [of "length (takeWhile (\<lambda>d. d = 0) ds)"
      "drop (length (takeWhile (\<lambda>d. d = 0) ds)) ds"]
  by (metis dropWhile_eq_drop takeWhile_dropWhile_id takeWhile_zeros)

lemma rev_dropWhile_split:
  "\<exists>zs. ds = rev (dropWhile P (rev ds)) @ zs \<and> (\<forall>z\<in>set zs. P z)"
  by (rule exI [of _ "rev (takeWhile P (rev ds))"])
    (auto dest: set_takeWhileD simp flip: rev_append)

lemma fraction_strip_trailing: "fraction (rev (dropWhile (\<lambda>d. d = 0) (rev ds))) = fraction ds"
  using rev_dropWhile_split [of ds "\<lambda>d. d = 0"] fraction_append_zeros by metis

section \<open>Ordering\<close>

definition nn_value :: "normalized_number \<Rightarrow> rat" where
  "nn_value n = signed (nn_negative n) (fraction (nn_digits n) * 10 powi nn_exponent n)"

definition nn_ok :: "normalized_number \<Rightarrow> bool" where
  "nn_ok n \<longleftrightarrow> (\<forall>d\<in>set (nn_digits n). d < 10) \<and> (nn_digits n \<noteq> [] \<longrightarrow> hd (nn_digits n) \<noteq> 0)"

lemma hd_drop_zeros: "drop (length (takeWhile P ds)) ds \<noteq> [] \<Longrightarrow>
    \<not> P (hd (drop (length (takeWhile P ds)) ds))"
  unfolding dropWhile_eq_drop [symmetric] by (rule hd_dropWhile)

lemma strip_trailing_hd:
  assumes "rev (dropWhile P (rev ds)) \<noteq> []"
  shows "hd (rev (dropWhile P (rev ds))) = hd ds"
proof -
  define xs where "xs = rev (dropWhile P (rev ds))"
  obtain zs where "ds = xs @ zs" using rev_dropWhile_split [of ds P] unfolding xs_def by (elim exE conjE)
  moreover have "xs \<noteq> []" using assms xs_def by simp
  ultimately show ?thesis unfolding xs_def [symmetric] by simp
qed

lemma shift_value:
  "x / 10 ^ k * 10 ^ (li + lf) * 10 powi (e - int lf) = (x :: rat) * 10 powi (int li + e - int k)"
proof -
  have "(10 :: rat) powi (int li + e - int k) =
      10 powi (int li + int lf) * 10 powi (e - int lf) * 10 powi (- int k)"
    by (simp flip: power_int_add)
  also have "\<dots> = 10 ^ (li + lf) * 10 powi (e - int lf) / 10 ^ k"
    by (simp add: power_int_minus divide_inverse flip: of_nat_add)
  finally show ?thesis by simp
qed

lemma normalize_number_value:
  assumes "is_number s"
  shows "nn_value (normalize_number s) = number_value s \<and> nn_ok (normalize_number s)"
proof -
  obtain neg i f e where parts: "number_parts s = Some (neg, i, f, e)" and trim: "str_trim s = s"
    using assms by (auto simp: is_number_def)
  obtain rest m where sr: "sign_and_rest s = (neg, rest)" and se: "split_exponent rest = Some (m, e)"
    and mf: "(case split_where is_dot m of Some (i, f) \<Rightarrow> (i, f) | None \<Rightarrow> (m, [])) = (i, f)"
    and dig: "list_all is_ascii_digit i" "list_all is_ascii_digit f"
    using parts by (auto simp: number_parts_def Let_def split: prod.splits option.splits if_splits)
  let ?i = "map digit_of i" and ?f = "map digit_of f"
  let ?all = "?i @ ?f"
  let ?k = "length (takeWhile (\<lambda>d. d = 0) ?all)"
  let ?d = "rev (dropWhile (\<lambda>d. d = 0) (rev (drop ?k ?all)))"
  have fd: "filter is_ascii_digit i = i" "filter is_ascii_digit f = f"
    using dig by (simp_all add: list_all_iff)
  have me: "(case split_where is_exponent_char rest of
      Some (m, exp_str) \<Rightarrow> (m, unwrap_or 0 (parse_int 64 exp_str)) | None \<Rightarrow> (rest, 0)) = (m, e)"
    using se by (auto simp: split_exponent_def split: option.splits prod.splits)
  have n: "normalize_number s = (if ?d = [] then \<lparr>nn_negative = False, nn_digits = [], nn_exponent = 0\<rparr>
      else \<lparr>nn_negative = neg, nn_digits = ?d, nn_exponent = int (length ?i) + e - int ?k\<rparr>)"
    unfolding normalize_number_def Let_def trim sr prod.case me mf fd by simp
  have small: "\<forall>d\<in>set ?all. d < 10"
    using dig digit_of_less by (auto simp: list_all_iff)
  have "set ?d \<subseteq> set ?all"
    by (metis (no_types, lifting) dual_order.trans set_drop_subset set_dropWhileD set_rev subsetI)
  with small have small_d: "\<forall>d\<in>set ?d. d < 10" by blast
  have hd: "?d \<noteq> [] \<Longrightarrow> hd ?d \<noteq> 0"
    using strip_trailing_hd [of "\<lambda>d. d = 0" "drop ?k ?all"] hd_drop_zeros [of "\<lambda>d. d = 0" ?all]
    by fastforce
  have fr: "fraction ?all = fraction ?d / 10 ^ ?k"
    using fraction_strip_leading [of ?all] by (simp only: fraction_strip_trailing)
  have "number_value s = signed neg (of_nat (digits_nat ?all) * 10 powi (e - int (length f)))"
    using parts by (simp add: number_value_def string_nat_def)
  also have "of_nat (digits_nat ?all) * 10 powi (e - int (length f)) =
      fraction ?d * 10 powi (int (length ?i) + e - int ?k)"
    unfolding fraction_digits fr using shift_value [of "fraction ?d" ?k "length i" "length f" e]
    by (simp only: length_append length_map)
  finally have v: "number_value s = signed neg (fraction ?d * 10 powi (int (length ?i) + e - int ?k))" .
  show ?thesis
  proof (cases "?d = []")
    case True
    show ?thesis unfolding n v True if_P [OF refl] by (simp add: nn_value_def nn_ok_def)
  next
    case False
    show ?thesis
      unfolding n v if_not_P [OF False] nn_value_def nn_ok_def normalized_number.simps
      using small_d hd [OF False] by blast
  qed
qed

lemma compare_digits_fraction:
  "\<forall>d\<in>set as. d < 10 \<Longrightarrow> \<forall>d\<in>set bs. d < 10 \<Longrightarrow>
     compare_digits as bs = ord_cmp (fraction as) (fraction bs)"
proof (induction as bs rule: compare_digits.induct)
  case (2 a as)
  have "0 \<le> fraction as" using fraction_bounds [of as] 2 by simp
  with 2 show ?case by (auto simp: ord_cmp_def)
next
  case (3 b bs)
  have "0 \<le> fraction bs" using fraction_bounds [of bs] 3 by simp
  with 3 show ?case by (auto simp: ord_cmp_def)
next
  case (4 a as b bs)
  have f: "0 \<le> fraction as" "fraction as < 1" "0 \<le> fraction bs" "fraction bs < 1"
    using fraction_bounds [of as] fraction_bounds [of bs] 4 by simp_all
  consider "a < b" | "a = b" | "b < a" by linarith
  then show ?case
  proof cases
    case 1
    then have "(of_nat a :: rat) + 1 \<le> of_nat b" by (metis Suc_eq_plus1 Suc_leI of_nat_1 of_nat_add of_nat_le_iff)
    with f have "of_nat a + fraction as < of_nat b + fraction bs" by linarith
    with 1 show ?thesis by (simp add: ord_cmp_def divide_strict_right_mono)
  next
    case 2
    with 4 show ?thesis by (simp add: ord_cmp_def divide_less_cancel)
  next
    case 3
    then have "(of_nat b :: rat) + 1 \<le> of_nat a" by (metis Suc_eq_plus1 Suc_leI of_nat_1 of_nat_add of_nat_le_iff)
    with f have "of_nat b + fraction bs < of_nat a + fraction as" by linarith
    with 3 show ?thesis by (simp add: ord_cmp_def)
  qed
qed (simp add: ord_cmp_def)

lemma powi_mono_step: "a < b \<Longrightarrow> (10 :: rat) powi a \<le> 10 powi b / 10"
proof -
  assume "a < b"
  then have "(10 :: rat) powi a \<le> 10 powi (b - 1)" by (intro power_int_increasing) auto
  then show ?thesis by (simp add: power_int_diff)
qed

lemma compare_magnitude_value:
  assumes a: "nn_ok a" "nn_digits a \<noteq> []" and b: "nn_ok b" "nn_digits b \<noteq> []"
  shows "compare_magnitude a b =
    ord_cmp (fraction (nn_digits a) * 10 powi nn_exponent a) (fraction (nn_digits b) * 10 powi nn_exponent b)"
proof -
  have pos: "(0 :: rat) < 10 powi e" for e by simp
  have less: "fraction (nn_digits x) * 10 powi nn_exponent x < fraction (nn_digits y) * 10 powi nn_exponent y"
    if x: "nn_ok x" and y: "nn_ok y" "nn_digits y \<noteq> []" and e: "nn_exponent x < nn_exponent y" for x y
  proof -
    have "fraction (nn_digits x) < 1" using fraction_bounds x by (auto simp: nn_ok_def)
    then have "fraction (nn_digits x) * 10 powi nn_exponent x < 10 powi nn_exponent x"
      using pos by simp
    also have "\<dots> \<le> 1 / 10 * 10 powi nn_exponent y" using powi_mono_step [OF e] by simp
    also have "\<dots> \<le> fraction (nn_digits y) * 10 powi nn_exponent y"
      using fraction_lower [of "nn_digits y"] y pos by (intro mult_right_mono) (auto simp: nn_ok_def)
    finally show ?thesis .
  qed
  consider "nn_exponent a < nn_exponent b" | "nn_exponent a = nn_exponent b" | "nn_exponent b < nn_exponent a"
    by linarith
  then show ?thesis
  proof cases
    case 1
    with less [OF a(1) b 1] show ?thesis by (simp add: compare_magnitude_def ord_cmp_def)
  next
    case 2
    have "compare_digits (nn_digits a) (nn_digits b) =
        ord_cmp (fraction (nn_digits a)) (fraction (nn_digits b))"
      using a b by (intro compare_digits_fraction) (auto simp: nn_ok_def)
    with 2 show ?thesis
      by (simp add: compare_magnitude_def ord_cmp_def)
  next
    case 3
    with less [OF b(1) a 3] show ?thesis by (auto simp: compare_magnitude_def ord_cmp_def)
  qed
qed

lemma nn_value_sign:
  assumes "nn_ok n"
  shows "nn_digits n = [] \<Longrightarrow> nn_value n = 0"
    and "nn_digits n \<noteq> [] \<Longrightarrow> nn_negative n \<Longrightarrow> nn_value n < 0"
    and "nn_digits n \<noteq> [] \<Longrightarrow> \<not> nn_negative n \<Longrightarrow> 0 < nn_value n"
proof -
  have "nn_digits n \<noteq> [] \<Longrightarrow> 0 < fraction (nn_digits n)"
    using fraction_lower [of "nn_digits n"] assms by (auto simp: nn_ok_def intro: less_le_trans)
  then have p: "nn_digits n \<noteq> [] \<Longrightarrow> 0 < fraction (nn_digits n) * 10 powi nn_exponent n" by simp
  show "nn_digits n = [] \<Longrightarrow> nn_value n = 0" by (simp add: nn_value_def)
  show "nn_digits n \<noteq> [] \<Longrightarrow> nn_negative n \<Longrightarrow> nn_value n < 0" using p by (simp add: nn_value_def)
  show "nn_digits n \<noteq> [] \<Longrightarrow> \<not> nn_negative n \<Longrightarrow> 0 < nn_value n" using p by (simp add: nn_value_def)
qed

lemma ordering_reverse_cmp: "ordering_reverse (ord_cmp x y) = ord_cmp (- x) (- y :: rat)"
  by (simp add: ord_cmp_def)

lemma compare_number_strings_value:
  assumes a: "is_number a" and b: "is_number b"
  shows "compare_number_strings a b = ord_cmp (number_value a) (number_value b)"
proof -
  let ?a = "normalize_number a" and ?b = "normalize_number b"
  have va: "number_value a = nn_value ?a" "nn_ok ?a" and vb: "number_value b = nn_value ?b" "nn_ok ?b"
    using normalize_number_value [OF a] normalize_number_value [OF b] by simp_all
  note sign = nn_value_sign [OF va(2)] nn_value_sign [OF vb(2)]
  show ?thesis
  proof (cases "nn_digits ?a = [] \<or> nn_digits ?b = [] \<or> nn_negative ?a \<noteq> nn_negative ?b")
    case True
    then show ?thesis
      unfolding va vb using sign
      by (auto simp: compare_number_strings_def Let_def ord_cmp_def)
  next
    case False
    then have m: "compare_magnitude ?a ?b = ord_cmp (fraction (nn_digits ?a) * 10 powi nn_exponent ?a)
        (fraction (nn_digits ?b) * 10 powi nn_exponent ?b)"
      by (intro compare_magnitude_value va vb) auto
    from False show ?thesis
      unfolding va vb
      by (cases "nn_negative ?b")
        (simp_all add: compare_number_strings_def Let_def m nn_value_def ordering_reverse_cmp)
  qed
qed

section \<open>Texts of numbers\<close>

definition sign_text :: "bool \<Rightarrow> string" where
  "sign_text neg = (if neg then ''-'' else [])"

lemma digit_visible: "is_ascii_digit c \<Longrightarrow> visible c"
  by (simp add: is_ascii_digit_def visible_def)

lemma minus_visible: "visible CHR ''-''"
  by (simp add: visible_def byte_of_def)

lemma show_int_digits: "\<exists>c s. show_int e = s @ [c] \<and> is_ascii_digit c"
proof -
  have "\<exists>c s. show_nat n = s @ [c] \<and> is_ascii_digit c" for n
    using show_nat_nonempty [of n] set_show_nat [of "last (show_nat n)" n]
    by (metis append_butlast_last_id last_in_set)
  then show ?thesis unfolding show_int_def by (metis append_Cons)
qed

text \<open>A text put together from a sign, digits, and an optional fraction and exponent.\<close>

inductive number_text :: "bool \<Rightarrow> string \<Rightarrow> string \<Rightarrow> int \<Rightarrow> string \<Rightarrow> bool" where
  "number_text neg i [] 0 (sign_text neg @ i)"
| "number_text neg i f 0 (sign_text neg @ i @ CHR ''.'' # f)"
| "number_text neg i [] e (sign_text neg @ i @ CHR ''E'' # show_int e)"
| "number_text neg i f e (sign_text neg @ i @ CHR ''.'' # f @ CHR ''E'' # show_int e)"

lemma sign_and_rest_text:
  "i \<noteq> [] \<Longrightarrow> is_ascii_digit (hd i) \<Longrightarrow> sign_and_rest (sign_text neg @ i @ r) = (neg, i @ r)"
  using digit_char_cases [of "hd i"] by (cases i) (auto simp: sign_and_rest_def sign_text_def)

lemma split_exponent_none:
  "list_all (\<lambda>c. is_ascii_digit c \<or> is_dot c) m \<Longrightarrow> split_exponent m = Some (m, 0)"
  unfolding split_exponent_def
  by (subst split_where_no_char)
    (auto simp: list_all_iff is_dot_def is_exponent_char_def dest!: bspec digit_char_cases)

lemma split_exponent_some:
  assumes "list_all (\<lambda>c. is_ascii_digit c \<or> is_dot c) m" "- (2 ^ 63) \<le> e" "e < 2 ^ 63"
  shows "split_exponent (m @ CHR ''E'' # show_int e) = Some (m, e)"
proof -
  have "\<forall>c\<in>set m. \<not> is_exponent_char c"
    using assms(1) by (auto simp: list_all_iff is_dot_def is_exponent_char_def dest!: bspec digit_char_cases)
  then show ?thesis
    using parse_int_show [of 64 e] assms(2,3)
    by (simp add: split_exponent_def split_where_append is_exponent_char_def)
qed

lemma number_text_parts:
  assumes "number_text neg i f e s" and i: "i \<noteq> []" "list_all is_ascii_digit i"
    and f: "list_all is_ascii_digit f" and e: "- (2 ^ 63) \<le> e" "e < 2 ^ 63"
  shows "number_parts s = Some (neg, i, f, e)"
proof -
  have hd: "is_ascii_digit (hd i)" using i by (cases i) auto
  have nodot: "\<forall>c\<in>set i. \<not> is_dot c" using i digit_char_cases by (auto simp: list_all_iff)
  then have none: "split_where is_dot i = None" by (rule split_where_no_char)
  have some: "split_where is_dot (i @ CHR ''.'' # f) = Some (i, f)"
    by (rule split_where_append [OF nodot]) (simp add: is_dot_def)
  have li: "list_all (\<lambda>c. is_ascii_digit c \<or> is_dot c) i"
    "list_all (\<lambda>c. is_ascii_digit c \<or> is_dot c) (i @ CHR ''.'' # f)"
    using i(2) f by (auto simp: list_all_iff is_dot_def)
  have sr: "sign_and_rest (sign_text neg @ i) = (neg, i)"
    using sign_and_rest_text [OF i(1) hd, of neg "[]"] by simp
  note sr2 = sign_and_rest_text [OF i(1) hd, of neg]
  from assms(1) show ?thesis
  proof cases
    case 1
    with i f show ?thesis
      by (simp add: number_parts_def sr split_exponent_none [OF li(1)] none)
  next
    case 2
    with i f show ?thesis
      by (simp add: number_parts_def sr2 split_exponent_none [OF li(2)] some)
  next
    case 3
    with i f show ?thesis
      by (simp add: number_parts_def sr2 split_exponent_some [OF li(1) e] none)
  next
    case 4
    have "split_exponent (i @ CHR ''.'' # f @ CHR ''E'' # show_int e) = Some (i @ CHR ''.'' # f, e)"
      using split_exponent_some [OF li(2) e] by simp
    with 4 i f show ?thesis by (simp add: number_parts_def sr2 some)
  qed
qed

lemma number_text_trim:
  assumes "number_text neg i f e s" and i: "i \<noteq> []" "list_all is_ascii_digit i"
    and f: "f \<noteq> [] \<or> s = sign_text neg @ i \<or> s = sign_text neg @ i @ CHR ''E'' # show_int e"
      "list_all is_ascii_digit f"
  shows "str_trim s = s"
proof (rule str_trim_visible)
  have hd: "is_ascii_digit (hd i)" using i by (cases i) auto
  have ne: "\<exists>r. s = sign_text neg @ i @ r" using assms(1) by cases auto
  then obtain r where r: "s = sign_text neg @ i @ r" by blast
  show "s \<noteq> []" using r i by simp
  show "visible (hd s)"
    using r i(1) hd digit_visible minus_visible by (cases neg) (auto simp: sign_text_def)
  obtain c t where ct: "show_int e = t @ [c]" "is_ascii_digit c" using show_int_digits by blast
  have last: "is_ascii_digit (last i)" "f \<noteq> [] \<Longrightarrow> is_ascii_digit (last f)"
    using i f(2) last_in_set by (auto simp: list_all_iff)
  from assms(1) have "is_ascii_digit (last s)"
  proof cases
    case 1
    with i last show ?thesis by simp
  next
    case 2
    show ?thesis
    proof (cases "f = []")
      case True
      with 2 f(1) show ?thesis by auto
    qed (use 2 last in auto)
  next
    case 3
    with ct show ?thesis by simp
  next
    case 4
    with ct show ?thesis by simp
  qed
  then show "visible (last s)" by (rule digit_visible)
qed

section \<open>Formatting\<close>

definition pn_value :: "parsed_number \<Rightarrow> rat" where
  "pn_value p = signed (pn_negative p) (of_nat (string_nat (pn_digits p)) * 10 powi pn_exponent p)"

definition pn_ok :: "parsed_number \<Rightarrow> bool" where
  "pn_ok p \<longleftrightarrow> pn_digits p \<noteq> [] \<and> list_all is_ascii_digit (pn_digits p)"

lemma string_nat_append: "string_nat (a @ b) = string_nat a * 10 ^ length b + string_nat b"
  by (simp add: string_nat_def digits_nat_append)

lemma digit_zero [simp]: "digit_of CHR ''0'' = 0" "is_ascii_digit CHR ''0''"
  by (simp_all add: digit_of_def is_ascii_digit_def byte_of_def)

lemma string_nat_zeros [simp]: "string_nat (zeros n) = 0" "length (zeros n) = n"
  "list_all is_ascii_digit (zeros n)"
  by (simp_all add: string_nat_def zeros_def list_all_iff)

lemma string_nat_zero [simp]: "string_nat ''0'' = 0"
  by (simp add: string_nat_def)

lemma list_all_take_drop: "list_all P xs \<Longrightarrow> list_all P (take n xs) \<and> list_all P (drop n xs)"
  by (auto simp: list_all_iff dest: in_set_takeD in_set_dropD)

lemma number_text_value:
  assumes t: "number_text neg i f e s" and i: "i \<noteq> []" "list_all is_ascii_digit (i @ f)"
    and f: "f \<noteq> [] \<or> s = sign_text neg @ i \<or> s = sign_text neg @ i @ CHR ''E'' # show_int e"
    and e: "- (2 ^ 63) \<le> e" "e < 2 ^ 63"
  shows "is_number s \<and> number_value s = signed neg (of_nat (string_nat (i @ f)) * 10 powi (e - int (length f)))"
proof -
  have d: "list_all is_ascii_digit i" "list_all is_ascii_digit f" using i(2) by auto
  have "number_parts s = Some (neg, i, f, e)" by (rule number_text_parts [OF t i(1) d e])
  moreover have "str_trim s = s" by (rule number_text_trim [OF t i(1) d(1) f d(2)])
  ultimately show ?thesis by (simp add: is_number_def number_value_def)
qed

chapter \<open>Arithmetic\<close>

text \<open>
  The addition and subtraction of decimal strings: formatting keeps the value, and
  \<open>precise_arithmetic\<close> is exact as long as the aligned sum fits into 128 bits.
\<close>

section \<open>Formatting keeps the value\<close>

lemma format_value:
  assumes ok: "pn_ok p"
    and b: "\<bar>pn_exponent p + int (length (pn_digits p)) - 1\<bar> < 2 ^ 62"
  shows "is_number (format_parsed_number p) \<and> number_value (format_parsed_number p) = pn_value p"
proof (cases "pn_digits p = ''0''")
  case True
  have "number_text False ''0'' [] 0 (sign_text False @ ''0'')" by (rule number_text.intros)
  from number_text_value [OF this] have "is_number ''0'' \<and> number_value ''0'' = 0"
    by (simp add: sign_text_def)
  with True show ?thesis by (simp add: format_parsed_number_def pn_value_def)
next
  case False
  define d where "d = pn_digits p"
  define ex where "ex = pn_exponent p"
  define neg where "neg = pn_negative p"
  define n where "n = int (length d) + ex"
  define sci where "sci = ex + int (length d) - 1"
  have d: "d \<noteq> []" "list_all is_ascii_digit d" using ok by (simp_all add: pn_ok_def d_def)
  have len: "1 \<le> length d" using d(1) by (cases d) auto
  have sci: "- (2 ^ 63) \<le> sci" "sci < 2 ^ 63" using b by (simp_all add: sci_def d_def ex_def)
  have z: "- (2 ^ 63) \<le> (0 :: int)" "(0 :: int) < 2 ^ 63" by simp_all
  have v: "pn_value p = signed neg (of_nat (string_nat d) * 10 powi ex)"
    by (simp add: pn_value_def neg_def d_def ex_def)
  have f: "format_parsed_number p =
      (if 0 \<le> ex \<and> n \<le> 20 then sign_text neg @ d @ zeros (nat ex)
       else if 0 < n \<and> n \<le> 20 then sign_text neg @ take (nat n) d @ ''.'' @ drop (nat n) d
       else if - 6 \<le> n \<and> n \<le> 0 then sign_text neg @ ''0.'' @ zeros (nat (- n)) @ d
       else if length d = 1 then sign_text neg @ d @ ''E'' @ show_int sci
       else sign_text neg @ take 1 d @ ''.'' @ drop 1 d @ ''E'' @ show_int sci)"
    using False
    by (simp only: format_parsed_number_def Let_def d_def ex_def neg_def n_def sci_def sign_text_def
        if_False)
  consider (whole) "0 \<le> ex" "n \<le> 20" | (mixed) "ex < 0" "0 < n" "n \<le> 20"
    | (small) "\<not> (0 \<le> ex \<and> n \<le> 20)" "- 6 \<le> n" "n \<le> 0"
    | (sci) "\<not> (0 \<le> ex \<and> n \<le> 20)" "\<not> (0 < n \<and> n \<le> 20)" "\<not> (- 6 \<le> n \<and> n \<le> 0)"
    by linarith
  then show ?thesis
  proof cases
    case whole
    then have fs: "format_parsed_number p = sign_text neg @ (d @ zeros (nat ex))" using f by simp
    have "number_text neg (d @ zeros (nat ex)) [] 0 (format_parsed_number p)"
      unfolding fs by (rule number_text.intros)
    from number_text_value [OF this _ _ _ z] d fs whole show ?thesis
      by (simp add: v string_nat_append power_int_def)
  next
    case mixed
    then have fs: "format_parsed_number p = sign_text neg @ take (nat n) d @ CHR ''.'' # drop (nat n) d"
      using f by simp
    have nl: "nat n < length d" "nat n > 0" using mixed len by (simp_all add: n_def)
    have "number_text neg (take (nat n) d) (drop (nat n) d) 0 (format_parsed_number p)"
      unfolding fs by (rule number_text.intros)
    moreover have "- int (length d - nat n) = ex" using mixed nl by (simp add: n_def)
    ultimately show ?thesis
      using number_text_value [of neg "take (nat n) d" "drop (nat n) d" 0] nl d z
      by (simp add: v)
  next
    case small
    then have fs: "format_parsed_number p = sign_text neg @ ''0'' @ CHR ''.'' # (zeros (nat (- n)) @ d)"
      using f by auto
    have "number_text neg ''0'' (zeros (nat (- n)) @ d) 0 (format_parsed_number p)"
      unfolding fs by (rule number_text.intros)
    moreover have "- int (nat (- n)) - int (length d) = ex" using small by (simp add: n_def)
    ultimately show ?thesis
      using number_text_value [of neg "''0''" "zeros (nat (- n)) @ d" 0] d z string_nat_append [of "''0''"]
      by (simp add: v string_nat_append)
  next
    case sci
    show ?thesis
    proof (cases "length d = 1")
      case True
      then have fs: "format_parsed_number p = sign_text neg @ d @ CHR ''E'' # show_int sci"
        using f sci by auto
      have "number_text neg d [] sci (format_parsed_number p)"
        unfolding fs by (rule number_text.intros)
      from number_text_value [OF this d(1)] d fs \<open>- (2 ^ 63) \<le> sci\<close> \<open>sci < 2 ^ 63\<close> True
      show ?thesis by (simp add: v sci_def)
    next
      case False
      then have fs: "format_parsed_number p =
          sign_text neg @ take 1 d @ CHR ''.'' # drop 1 d @ CHR ''E'' # show_int sci"
        using f sci by auto
      have "number_text neg (take 1 d) (drop 1 d) sci (format_parsed_number p)"
        unfolding fs by (rule number_text.intros)
      moreover have "sci - int (length d - 1) = ex" using len by (simp add: sci_def)
      moreover have "drop 1 d \<noteq> []" "take 1 d \<noteq> []" using False len by auto
      ultimately show ?thesis
        using number_text_value [of neg "take 1 d" "drop 1 d" sci] d \<open>- (2 ^ 63) \<le> sci\<close> \<open>sci < 2 ^ 63\<close>
        by (simp add: v del: take_eq_Nil drop_eq_Nil)
    qed
  qed
qed

section \<open>Parsing keeps the value\<close>

lemma trim_start_zeros:
  "\<exists>k. s = zeros k @ trim_start_matches CHR ''0'' s \<and> length s = k + length (trim_start_matches CHR ''0'' s)"
proof -
  have "takeWhile (\<lambda>d. d = CHR ''0'') s = zeros (length (takeWhile (\<lambda>d. d = CHR ''0'') s))"
    unfolding zeros_def by (induction s) auto
  then have "s = zeros (length (takeWhile (\<lambda>d. d = CHR ''0'') s)) @ trim_start_matches CHR ''0'' s"
    unfolding trim_start_matches_def by (metis takeWhile_dropWhile_id)
  then show ?thesis by (metis length_append string_nat_zeros(2))
qed

lemma trim_end_zeros:
  "\<exists>k. s = trim_end_matches CHR ''0'' s @ zeros k \<and> length s = length (trim_end_matches CHR ''0'' s) + k"
proof -
  obtain k where "rev s = zeros k @ trim_start_matches CHR ''0'' (rev s)"
    using trim_start_zeros by blast
  then have "s = trim_end_matches CHR ''0'' s @ zeros k"
    unfolding trim_end_matches_def trim_start_matches_def zeros_def by (metis rev_append rev_replicate rev_rev_ident)
  then show ?thesis by (metis length_append string_nat_zeros(2))
qed

lemma trim_start_head:
  "trim_start_matches c s = [] \<or> hd (trim_start_matches c s) \<noteq> c"
  using hd_dropWhile [of "\<lambda>d. d = c" s] unfolding trim_start_matches_def by blast

lemma trim_end_head:
  assumes "s \<noteq> []" "hd s \<noteq> c" shows "trim_end_matches c s \<noteq> [] \<and> hd (trim_end_matches c s) \<noteq> c"
proof -
  have "\<exists>x\<in>set (rev s). x \<noteq> c" using assms by (cases s) auto
  then have ne: "trim_end_matches c s \<noteq> []" unfolding trim_end_matches_def by (simp add: dropWhile_eq_Nil_conv)
  then show ?thesis
    using strip_trailing_hd [of "\<lambda>d. d = c" s] assms(2) unfolding trim_end_matches_def by simp
qed

text \<open>The digits without zeros at either end, and the exponent that goes with them.\<close>

definition stripped :: "string \<Rightarrow> string" where
  "stripped ds = trim_end_matches CHR ''0'' (trim_start_matches CHR ''0'' ds)"

lemma parse_components:
  assumes "number_parts s = Some (neg, i, f, e)" and "str_trim s = s"
  shows "parse_number_components s =
    (if trim_start_matches CHR ''0'' (i @ f) = []
     then Inr \<lparr>pn_negative = False, pn_digits = ''0'', pn_exponent = 0\<rparr>
     else Inr \<lparr>pn_negative = neg, pn_digits = stripped (i @ f),
           pn_exponent = e - int (length f) +
             int (length (trim_start_matches CHR ''0'' (i @ f)) - length (stripped (i @ f)))\<rparr>)"
proof -
  obtain rest m where sr: "sign_and_rest s = (neg, rest)" and se: "split_exponent rest = Some (m, e)"
    and mf: "(case split_where is_dot m of Some (i, f) \<Rightarrow> (i, f) | None \<Rightarrow> (m, [])) = (i, f)"
    using assms(1) by (auto simp: number_parts_def split: prod.splits option.splits if_splits)
  have mf': "(case split_where is_dot m of Some (i, f) \<Rightarrow> (i @ f, length f) | None \<Rightarrow> (m, 0)) =
      (i @ f, length f)"
    using mf by (auto split: option.splits prod.splits)
  show ?thesis
    unfolding parse_number_components_def by (simp add: assms(2) sr se mf' stripped_def Let_def)
qed

lemma parse_components_value:
  assumes "is_number s"
  obtains p where "parse_number_components s = Inr p" "pn_ok p" "pn_value p = number_value s"
    "pn_digits p = ''0'' \<or> hd (pn_digits p) \<noteq> CHR ''0''"
proof -
  obtain neg i f e where parts: "number_parts s = Some (neg, i, f, e)" and trim: "str_trim s = s"
    using assms by (auto simp: is_number_def)
  have dig: "list_all is_ascii_digit (i @ f)"
    using parts by (auto simp: number_parts_def split: prod.splits option.splits if_splits)
  have v: "number_value s = signed neg (of_nat (string_nat (i @ f)) * 10 powi (e - int (length f)))"
    using parts by (simp add: number_value_def)
  define t where "t = trim_start_matches CHR ''0'' (i @ f)"
  obtain k where k: "i @ f = zeros k @ t" using trim_start_zeros [of "i @ f"] unfolding t_def by blast
  have sv: "string_nat (i @ f) = string_nat t" unfolding k by (simp add: string_nat_append)
  show thesis
  proof (cases "t = []")
    case True
    have "string_nat (i @ f) = 0" unfolding sv True by (simp add: string_nat_def)
    with v have "number_value s = 0" by simp
    with parse_components [OF parts trim] True that show thesis
      by (simp add: t_def pn_ok_def pn_value_def)
  next
    case False
    obtain j where j: "t = stripped (i @ f) @ zeros j" "length t = length (stripped (i @ f)) + j"
      using trim_end_zeros [of t] unfolding t_def stripped_def by blast
    have hd: "stripped (i @ f) \<noteq> [] \<and> hd (stripped (i @ f)) \<noteq> CHR ''0''"
      using trim_end_head [of t] False trim_start_head [of "CHR ''0''" "i @ f"] unfolding t_def stripped_def
      by blast
    have "set (i @ f) = set (zeros k) \<union> (set (stripped (i @ f)) \<union> set (zeros j))"
      using arg_cong [OF k, of set] unfolding j(1) set_append .
    then have "set (stripped (i @ f)) \<subseteq> set (i @ f)" by blast
    then have ok: "list_all is_ascii_digit (stripped (i @ f))" using dig by (auto simp: list_all_iff)
    have "string_nat t = string_nat (stripped (i @ f)) * 10 ^ j"
      by (subst j(1)) (simp add: string_nat_append)
    then have "number_value s =
        signed neg (of_nat (string_nat (stripped (i @ f))) * 10 powi (e - int (length f) + int j))"
      unfolding v sv by (simp add: power_int_add mult_ac)
    with parse_components [OF parts trim] False j(2) hd ok that show thesis
      by (simp add: t_def pn_ok_def pn_value_def)
  qed
qed

text \<open>A validated number keeps its magnitude.\<close>

definition pn_magnitude :: "parsed_number \<Rightarrow> int" where
  "pn_magnitude p = pn_exponent p + int (length (pn_digits p)) - 1"

lemma magnitude_small: "- 130 \<le> x \<and> x \<le> 125 \<Longrightarrow> \<bar>x\<bar> < (2 ^ 62 :: int)"
  by auto

lemma filter_digits: "list_all is_ascii_digit s \<Longrightarrow> filter is_ascii_digit s = s"
  by (simp add: list_all_iff filter_id_conv)

lemma valid_magnitude:
  assumes v: "validate_number_string s" and p: "parse_number_components s = Inr p"
  shows "- 130 \<le> pn_magnitude p \<and> pn_magnitude p \<le> 125"
proof -
  have "is_number s" by (rule valid_is_number [OF v])
  then obtain neg i f e where parts: "number_parts s = Some (neg, i, f, e)" and trim: "str_trim s = s"
    by (auto simp: is_number_def)
  obtain rest m where sr: "sign_and_rest s = (neg, rest)" and se: "split_exponent rest = Some (m, e)"
    and mf: "(case split_where is_dot m of Some (i, f) \<Rightarrow> (i, f) | None \<Rightarrow> (m, [])) = (i, f)"
    and dig: "list_all is_ascii_digit (i @ f)"
    using parts by (auto simp: number_parts_def split: prod.splits option.splits if_splits)
  have ss: "split_exponent (strip_sign s) = Some (m, e)"
    using sr se sign_and_rest_strip [of s] by simp
  have fd: "filter is_ascii_digit m = i @ f"
  proof (cases "split_where is_dot m")
    case None
    then show ?thesis using mf filter_digits [of m] dig by simp
  next
    case (Some x)
    then have "split_where is_dot m = Some (i, f)" using mf by simp
    from split_where_Some [OF this] obtain c where "m = i @ c # f" "is_dot c" by blast
    then show ?thesis using dig filter_digits [of i] filter_digits [of f] digit_char_cases by auto
  qed
  have fl: "(case split_where is_dot m of None \<Rightarrow> 0 | Some (_, fract) \<Rightarrow> length fract) = length f"
    using mf by (auto split: option.splits prod.splits)
  have mag: "number_magnitude m e =
      e - int (length f) + int (length (trim_start_matches CHR ''0'' (i @ f))) - 1"
  proof -
    have "length (trim_start_matches CHR ''0'' (i @ f)) \<le> length (i @ f)"
      unfolding trim_start_matches_def by (rule length_dropWhile_le)
    then show ?thesis unfolding number_magnitude_def fd fl Let_def by simp
  qed
  have b: "trim_start_matches CHR ''0'' (i @ f) \<noteq> [] \<Longrightarrow>
      - 130 \<le> number_magnitude m e \<and> number_magnitude m e \<le> 125"
    using v trim_end_head [of "trim_start_matches CHR ''0'' (i @ f)"] trim_start_head [of "CHR ''0''" "i @ f"]
    by (auto simp: validate_number_string_def ss fd Let_def split: if_splits)
  have "length (stripped (i @ f)) \<le> length (trim_start_matches CHR ''0'' (i @ f))"
    using trim_end_zeros [of "trim_start_matches CHR ''0'' (i @ f)"] unfolding stripped_def by auto
  then show ?thesis
    using p b unfolding parse_components [OF parts trim] mag
    by (auto simp: pn_magnitude_def split: if_splits)
qed

section \<open>The signed sum\<close>

lemma parse_int_digits:
  assumes "list_all is_ascii_digit ds" "ds \<noteq> []"
  shows "parse_int w ds =
    (if int (string_nat ds) < 2 ^ (w - 1) then Some (int (string_nat ds)) else None)"
proof -
  obtain c r where ds: "ds = c # r" using assms(2) by (cases ds) auto
  then have "c \<noteq> CHR ''+''" "c \<noteq> CHR ''-''" using assms(1) digit_char_cases [of c] by auto
  moreover have "digits_val 0 ds = Some (string_nat ds)" using digits_val_string_nat [OF assms(1), of 0] by simp
  ultimately show ?thesis
    using order_trans [of "- (2 ^ (w - 1))" 0 "int (string_nat ds)"] by (simp add: parse_int_def ds Let_def)
qed

lemma string_nat_show [simp]: "string_nat (show_nat n) = n"
  using digits_val_string_nat [of "show_nat n" 0] digits_val_show [of n] set_show_nat [of _ n]
  by (simp add: list_all_iff)

lemma finish_arithmetic_value:
  assumes "finish_arithmetic r e = Inr s"
  shows "is_number s \<and> number_value s = of_int r * 10 powi e"
proof -
  define t where "t = trim_end_matches CHR ''0'' (show_nat (nat \<bar>r\<bar>))"
  obtain k where k: "show_nat (nat \<bar>r\<bar>) = t @ zeros k" "length (show_nat (nat \<bar>r\<bar>)) = length t + k"
    using trim_end_zeros [of "show_nat (nat \<bar>r\<bar>)"] unfolding t_def by blast
  have n: "nat \<bar>r\<bar> = string_nat t * 10 ^ k"
    using arg_cong [OF k(1), of string_nat] by (simp add: string_nat_append)
  have "\<forall>c\<in>set (t @ zeros k). is_ascii_digit c" unfolding k(1) [symmetric] using set_show_nat by blast
  then have dig: "list_all is_ascii_digit t" by (simp add: list_all_iff)
  let ?p = "\<lparr>pn_negative = r < 0, pn_digits = t, pn_exponent = e + int k\<rparr>"
  show ?thesis
  proof (cases "t = [] \<or> t = ''0''")
    case True
    then have "string_nat t = 0" by (auto simp: string_nat_def)
    with n have "r = 0" by simp
    moreover have "s = ''0''" using assms True by (auto simp: finish_arithmetic_def t_def [symmetric] Let_def)
    ultimately show ?thesis
      using format_value [of "\<lparr>pn_negative = False, pn_digits = ''0'', pn_exponent = 0\<rparr>"]
      by (simp add: pn_ok_def pn_value_def format_parsed_number_def)
  next
    case False
    with assms k(2) have s: "s = format_parsed_number ?p"
      and m: "- 130 \<le> e + int k + int (length t) - 1" "e + int k + int (length t) - 1 \<le> 125"
      by (auto simp: finish_arithmetic_def t_def [symmetric] Let_def split: if_splits)
    have "pn_ok ?p" using False dig by (simp add: pn_ok_def)
    moreover have "\<bar>pn_exponent ?p + int (length (pn_digits ?p)) - 1\<bar> < 2 ^ 62" using m by simp
    ultimately have f: "is_number s \<and> number_value s = pn_value ?p" unfolding s by (rule format_value)
    have "\<bar>r\<bar> = int (string_nat t * 10 ^ k)" using n by linarith
    then have "r = (if r < 0 then - int (string_nat t * 10 ^ k) else int (string_nat t * 10 ^ k))"
      by (cases "r < 0") auto
    then have "(of_int r :: rat) = signed (r < 0) (of_nat (string_nat t) * 10 ^ k)"
      by (metis of_int_minus of_int_of_nat_eq of_nat_mult of_nat_numeral of_nat_power signed_def)
    then have "pn_value ?p = of_int r * 10 powi e"
      by (cases "r < 0") (simp_all add: pn_value_def power_int_add mult_ac)
    with f show ?thesis by simp
  qed
qed

text \<open>The exponent at which both operands are whole numbers.\<close>

definition common_exponent :: "string \<Rightarrow> string \<Rightarrow> int" where
  "common_exponent a b =
     (case (parse_number_components a, parse_number_components b) of
        (Inr p, Inr q) \<Rightarrow> min (pn_exponent p) (pn_exponent q)
      | _ \<Rightarrow> 0)"

lemma aligned_value:
  assumes "pn_ok p" "m \<le> pn_exponent p"
  shows "pn_value p = of_int (if pn_negative p then - int (string_nat (pn_digits p @ zeros (nat (pn_exponent p - m))))
      else int (string_nat (pn_digits p @ zeros (nat (pn_exponent p - m))))) * 10 powi m"
proof -
  have "(10 :: rat) powi pn_exponent p = 10 ^ nat (pn_exponent p - m) * 10 powi m"
    using power_int_add [of "10 :: rat" "pn_exponent p - m" m] assms(2) by (simp add: power_int_def)
  then show ?thesis by (simp add: pn_value_def string_nat_append mult.assoc)
qed

lemma i128_wrap_id: "- (2 ^ 127) \<le> x \<Longrightarrow> x < 2 ^ 127 \<Longrightarrow> i128_wrap x = x"
  by (simp add: i128_wrap_def)

lemma precise_arithmetic_value:
  assumes va: "validate_number_string a" and vb: "validate_number_string b"
    and s: "precise_arithmetic a b add = Inr s"
    and fits: "\<bar>number_value a + signed (\<not> add) (number_value b)\<bar> < 2 ^ 127 * 10 powi common_exponent a b"
  shows "is_number s \<and> number_value s = number_value a + signed (\<not> add) (number_value b)"
proof -
  obtain p where p: "parse_number_components a = Inr p" "pn_ok p" "pn_value p = number_value a"
    using parse_components_value [OF valid_is_number [OF va]] by blast
  obtain q where q: "parse_number_components b = Inr q" "pn_ok q" "pn_value q = number_value b"
    using parse_components_value [OF valid_is_number [OF vb]] by blast
  define r where "r = (if add then q else q\<lparr>pn_negative := \<not> pn_negative q\<rparr>)"
  have r: "pn_ok r" "pn_value r = signed (\<not> add) (number_value b)"
    "pn_exponent r = pn_exponent q" "pn_digits r = pn_digits q"
    using q(2) by (auto simp: r_def pn_ok_def pn_value_def signed_def q(3) [symmetric])
  have mp: "\<bar>pn_exponent p + int (length (pn_digits p)) - 1\<bar> < 2 ^ 62"
    using magnitude_small valid_magnitude [OF va p(1)] unfolding pn_magnitude_def by blast
  have mr: "\<bar>pn_exponent r + int (length (pn_digits r)) - 1\<bar> < 2 ^ 62"
    using magnitude_small valid_magnitude [OF vb q(1)] unfolding pn_magnitude_def r by blast
  have zero: "pn_digits x = ''0'' \<Longrightarrow> pn_value x = 0" for x by (simp add: pn_value_def)
  define m where "m = min (pn_exponent p) (pn_exponent r)"
  have m: "common_exponent a b = m" by (simp add: common_exponent_def p(1) q(1) m_def r)
  define ad where "ad = pn_digits p @ zeros (nat (pn_exponent p - m))"
  define rd where "rd = pn_digits r @ zeros (nat (pn_exponent r - m))"
  define av where "av = (if pn_negative p then - int (string_nat ad) else int (string_nat ad))"
  define rv where "rv = (if pn_negative r then - int (string_nat rd) else int (string_nat rd))"
  have pav: "pn_value p = of_int av * 10 powi m" unfolding av_def ad_def
    by (rule aligned_value [OF p(2)]) (simp add: m_def)
  have prv: "pn_value r = of_int rv * 10 powi m" unfolding rv_def rd_def
    by (rule aligned_value [OF r(1)]) (simp add: m_def)
  have digs: "list_all is_ascii_digit ad" "ad \<noteq> []" "list_all is_ascii_digit rd" "rd \<noteq> []"
    using p(2) r(1) by (simp_all add: ad_def rd_def pn_ok_def)
  consider "pn_digits p = ''0''" | "pn_digits p \<noteq> ''0''" "pn_digits r = ''0''"
    | (sum) "pn_digits p \<noteq> ''0''" "pn_digits r \<noteq> ''0''" by blast
  then show ?thesis
  proof cases
    case 1
    then have "s = format_parsed_number r" using s by (simp add: precise_arithmetic_def p(1) q(1) r_def)
    with format_value [OF r(1) mr] r(2) p(3) zero [OF 1] show ?thesis by simp
  next
    case 2
    then have "s = format_parsed_number p"
      using s by (simp add: precise_arithmetic_def p(1) q(1) r_def [symmetric])
    with format_value [OF p(2) mp] r(2) p(3) zero [OF 2(2)] show ?thesis by simp
  next
    case sum
    have "finish_arithmetic (i128_wrap (av + rv)) m = Inr s"
      using s sum
      by (simp add: precise_arithmetic_def p(1) q(1) r_def [symmetric] m_def [symmetric] ad_def [symmetric]
          rd_def [symmetric] parse_int_digits [OF digs(1,2)] parse_int_digits [OF digs(3,4)]
          av_def rv_def Let_def split: if_splits)
    moreover have "i128_wrap (av + rv) = av + rv"
    proof -
      have "\<bar>of_int (av + rv) * 10 powi m\<bar> < (2 ^ 127 :: rat) * 10 powi m"
        using fits by (simp add: m p(3) [symmetric] r(2) [symmetric] pav prv distrib_right)
      then have "\<bar>of_int (av + rv)\<bar> < (2 ^ 127 :: rat)" by (simp add: abs_mult)
      then have "(of_int \<bar>av + rv\<bar> :: rat) < of_int (2 ^ 127)" by simp
      then have "\<bar>av + rv\<bar> < 2 ^ 127" unfolding of_int_less_iff .
      then show ?thesis by (intro i128_wrap_id) (simp_all add: abs_less_iff)
    qed
    ultimately have "is_number s \<and> number_value s = of_int (av + rv) * 10 powi m"
      using finish_arithmetic_value by simp
    then show ?thesis using p(3) r(2) pav prv by (simp add: distrib_right)
  qed
qed

text \<open>Two numbers of 38 digits whose sum has 39 digits and does not fit into 128 bits. The sum is not
  rejected for its length: it wraps, and the answer is a negative number.\<close>

lemma precise_arithmetic_wraps:
  "precise_arithmetic ''99999999999999999999999999999999999999'' ''99999999999999999999999999999999999997'' True
     = Inr ''-1.4028236692093846346337460743176821146E38''"
proof -
  let ?a = "''99999999999999999999999999999999999999''" and ?b = "''99999999999999999999999999999999999997''"
  have pa: "parse_number_components ?a = Inr \<lparr>pn_negative = False, pn_digits = ?a, pn_exponent = 0\<rparr>"
    by code_simp
  have pb: "parse_number_components ?b = Inr \<lparr>pn_negative = False, pn_digits = ?b, pn_exponent = 0\<rparr>"
    by code_simp
  have d: "list_all is_ascii_digit ?a" "list_all is_ascii_digit ?b" by code_simp+
  have n: "string_nat ?a = 99999999999999999999999999999999999999"
    "string_nat ?b = 99999999999999999999999999999999999997"
    by (simp_all add: string_nat_def digit_of_def byte_of_def)
  have f: "finish_arithmetic (- 140282366920938463463374607431768211460) 0 =
      Inr ''-1.4028236692093846346337460743176821146E38''"
    by (simp add: finish_arithmetic_def show_nat.simps digit_char_def char_of_def bit_Suc_0_iff trim_end_matches_def
        format_parsed_number_def show_int_def zeros_def)
  show ?thesis
    by (simp add: precise_arithmetic_def pa pb zeros_def parse_int_digits [OF d(1)]
        parse_int_digits [OF d(2)] n i128_wrap_def f)
qed

end
