(* ===== verification/Rust_F64.thy ===== *)
theory Rust_F64
  imports Dynamo_Number "HOL-Library.Log_Nat"
begin

text \<open>
  What the expression evaluator uses of Rust's \<^verbatim>\<open>f64\<close>: parsing (\<^verbatim>\<open>str::parse::<f64>\<close>, correctly rounded
  to binary64 with ties to even), subtraction, absolute value and comparison. A finite value is the
  rational that it denotes; the sign of zero has no effect on these operations.

  Rounding is monotonic (\<open>f64_of_rat_mono\<close>).
\<close>

section \<open>Rounding\<close>

datatype f64 = F64_NaN | F64_Inf bool | F64_Fin rat

definition round_half_even :: "rat \<Rightarrow> int" where
  "round_half_even x =
     (let r = \<lfloor>x\<rfloor>; d = x - of_int r
      in if d < 1 / 2 then r else if d > 1 / 2 then r + 1 else if even r then r else r + 1)"

text \<open>The exponent of the leading bit of a positive rational.\<close>

definition ilog2 :: "rat \<Rightarrow> int" where
  "ilog2 x =
     (let (p, q) = quotient_of x; k = bitlen p - bitlen q
      in if 2 powi k \<le> x then k else k - 1)"

text \<open>The exponent of the last bit of the significand: 53 bits, and never below the subnormals.\<close>

definition f64_ulp_exponent :: "rat \<Rightarrow> int" where
  "f64_ulp_exponent x = max (- 1074) (ilog2 \<bar>x\<bar> - 52)"

definition f64_round :: "rat \<Rightarrow> rat" where
  "f64_round x =
     (if x = 0 then 0
      else of_int (round_half_even (x / 2 powi f64_ulp_exponent x)) * 2 powi f64_ulp_exponent x)"

definition f64_of_rat :: "rat \<Rightarrow> f64" where
  "f64_of_rat x =
     (let v = f64_round x in if 2 ^ 1024 \<le> \<bar>v\<bar> then F64_Inf (v < 0) else F64_Fin v)"

section \<open>Operations\<close>

fun f64_sub :: "f64 \<Rightarrow> f64 \<Rightarrow> f64" where
  "f64_sub (F64_Fin x) (F64_Fin y) = f64_of_rat (x - y)"
| "f64_sub (F64_Inf s) (F64_Fin y) = F64_Inf s"
| "f64_sub (F64_Fin x) (F64_Inf t) = F64_Inf (\<not> t)"
| "f64_sub (F64_Inf s) (F64_Inf t) = (if s = t then F64_NaN else F64_Inf s)"
| "f64_sub _ _ = F64_NaN"

fun f64_abs :: "f64 \<Rightarrow> f64" where
  "f64_abs F64_NaN = F64_NaN"
| "f64_abs (F64_Inf s) = F64_Inf False"
| "f64_abs (F64_Fin x) = F64_Fin \<bar>x\<bar>"

fun f64_less :: "f64 \<Rightarrow> f64 \<Rightarrow> bool" where
  "f64_less (F64_Fin x) (F64_Fin y) = (x < y)"
| "f64_less (F64_Inf s) (F64_Fin y) = s"
| "f64_less (F64_Fin x) (F64_Inf t) = (\<not> t)"
| "f64_less (F64_Inf s) (F64_Inf t) = (s \<and> \<not> t)"
| "f64_less _ _ = False"

fun f64_less_eq :: "f64 \<Rightarrow> f64 \<Rightarrow> bool" where
  "f64_less_eq (F64_Fin x) (F64_Fin y) = (x \<le> y)"
| "f64_less_eq (F64_Inf s) (F64_Fin y) = s"
| "f64_less_eq (F64_Fin x) (F64_Inf t) = (\<not> t)"
| "f64_less_eq (F64_Inf s) (F64_Inf t) = (s \<or> \<not> t)"
| "f64_less_eq _ _ = False"

text \<open>\<^verbatim>\<open>f64::EPSILON\<close>.\<close>

definition f64_epsilon :: f64 where
  "f64_epsilon = F64_Fin (1 / 2 ^ 52)"

section \<open>Parsing\<close>

definition exponent_value :: "string \<Rightarrow> int option" where
  "exponent_value s =
     (let (neg, ds) = sign_and_rest s
      in if ds = [] then None
         else map_option (\<lambda>n. if neg then - int n else int n) (digits_val 0 ds))"

definition decimal_value :: "string \<Rightarrow> rat option" where
  "decimal_value rest =
     (let (m, e) = (case split_where is_exponent_char rest of
                      None \<Rightarrow> (rest, Some 0)
                    | Some (m, x) \<Rightarrow> (m, exponent_value x));
          (i, f) = (case split_where is_dot m of None \<Rightarrow> (m, []) | Some (i, f) \<Rightarrow> (i, f))
      in if i @ f = [] then None
         else (case (e, digits_val 0 (i @ f)) of
                 (Some e, Some n) \<Rightarrow> Some (of_nat n * 10 powi (e - int (length f)))
               | _ \<Rightarrow> None))"

definition parse_f64 :: "string \<Rightarrow> f64 option" where
  "parse_f64 s =
     (let (neg, rest) = sign_and_rest s
      in if rest = [] then None
         else (case decimal_value rest of
                 Some x \<Rightarrow> Some (f64_of_rat (if neg then - x else x))
               | None \<Rightarrow>
                   if eq_ignore_ascii_case rest ''nan'' then Some F64_NaN
                   else if eq_ignore_ascii_case rest ''inf'' \<or> eq_ignore_ascii_case rest ''infinity''
                   then Some (F64_Inf neg)
                   else None))"

section \<open>Rounding is monotonic\<close>

lemma round_half_even_bounds: "of_int (round_half_even x) \<le> x + 1 / 2" "x - 1 / 2 \<le> of_int (round_half_even x)"
  using floor_correct [of x] unfolding round_half_even_def Let_def by (simp_all split: if_split) linarith+

lemma round_half_even_int [simp]: "round_half_even (of_int n) = n"
  by (simp add: round_half_even_def)

lemma round_half_even_mono:
  assumes "x \<le> y" shows "round_half_even x \<le> round_half_even y"
proof (cases "\<lfloor>x\<rfloor> = \<lfloor>y\<rfloor>")
  case True
  then show ?thesis using assms by (auto simp: round_half_even_def Let_def)
next
  case False
  then have "\<lfloor>x\<rfloor> + 1 \<le> \<lfloor>y\<rfloor>" using floor_mono [OF assms] by linarith
  moreover have "round_half_even x \<le> \<lfloor>x\<rfloor> + 1" "\<lfloor>y\<rfloor> \<le> round_half_even y"
    by (auto simp: round_half_even_def Let_def)
  ultimately show ?thesis by linarith
qed

lemma floor_minus_rat: "x \<noteq> of_int \<lfloor>x\<rfloor> \<Longrightarrow> \<lfloor>- x\<rfloor> = - \<lfloor>x\<rfloor> - 1" for x :: rat
  using floor_correct [of x] by (intro floor_unique) (simp_all, linarith)

lemma round_half_even_minus: "round_half_even (- x) = - round_half_even x"
proof (cases "x = of_int \<lfloor>x\<rfloor>")
  case True
  then show ?thesis using round_half_even_int [of "\<lfloor>x\<rfloor>"] round_half_even_int [of "- \<lfloor>x\<rfloor>"] by simp
next
  case False
  then show ?thesis by (auto simp: round_half_even_def Let_def floor_minus_rat)
qed

lemma bitlen_power: "0 < p \<Longrightarrow> 2 powi (bitlen p - 1) \<le> (of_int p :: rat) \<and> (of_int p :: rat) < 2 powi bitlen p"
proof -
  assume p: "0 < p"
  have b: "2 ^ nat (bitlen p - 1) \<le> p" "p < 2 ^ nat (bitlen p)" using bitlen_bounds [OF p] by auto
  have "bitlen p \<noteq> 0" using b(2) p by (intro notI) simp
  then have n: "0 < bitlen p" using bitlen_nonneg [of p] by simp
  have "(2 :: rat) powi (bitlen p - 1) = of_int (2 ^ nat (bitlen p - 1))" "(2 :: rat) powi bitlen p = of_int (2 ^ nat (bitlen p))"
    using n by (simp_all add: power_int_def)
  then show ?thesis using b by (metis of_int_le_iff of_int_less_iff)
qed

lemma ilog2_bounds:
  assumes "0 < x" shows "2 powi ilog2 x \<le> x" "x < 2 powi (ilog2 x + 1)"
proof -
  obtain p q where pq: "quotient_of x = (p, q)" by (cases "quotient_of x")
  have q: "0 < q" and x: "x = of_int p / of_int q"
    using quotient_of_denom_pos [OF pq] quotient_of_div [OF pq] by auto
  have p: "0 < p" using assms q by (simp add: x zero_less_divide_iff)
  define k where "k = bitlen p - bitlen q"
  have bp: "2 powi (bitlen p - 1) \<le> (of_int p :: rat)" "(of_int p :: rat) < 2 powi bitlen p"
    using bitlen_power [OF p] by auto
  have bq: "2 powi (bitlen q - 1) \<le> (of_int q :: rat)" "(of_int q :: rat) < 2 powi bitlen q"
    using bitlen_power [OF q] by auto
  have "x \<le> of_int p / 2 powi (bitlen q - 1)"
    unfolding x using bq(1) p by (intro divide_left_mono mult_pos_pos) (auto simp: q)
  also have "\<dots> < 2 powi bitlen p / 2 powi (bitlen q - 1)"
    using bp(2) by (simp add: divide_strict_right_mono)
  also have "\<dots> = 2 powi (k + 1)" by (simp add: k_def algebra_simps flip: power_int_diff)
  finally have up: "x < 2 powi (k + 1)" .
  have "2 powi (k - 1) = 2 powi (bitlen p - 1) / (2 :: rat) powi bitlen q"
    by (simp add: k_def algebra_simps flip: power_int_diff)
  also have "\<dots> \<le> of_int p / 2 powi bitlen q" using bp(1) by (simp add: divide_right_mono)
  also have "\<dots> \<le> x" unfolding x using bq(2) p q by (intro divide_left_mono) auto
  finally have lo: "2 powi (k - 1) \<le> x" .
  show "2 powi ilog2 x \<le> x" "x < 2 powi (ilog2 x + 1)"
    using up lo by (auto simp: ilog2_def pq k_def [symmetric] Let_def)
qed

lemma ilog2_mono: "0 < x \<Longrightarrow> x \<le> y \<Longrightarrow> ilog2 x \<le> ilog2 y"
proof (rule ccontr)
  assume xy: "0 < x" "x \<le> y" and "\<not> ilog2 x \<le> ilog2 y"
  then have "(2 :: rat) powi (ilog2 y + 1) \<le> 2 powi ilog2 x" by (intro power_int_increasing) simp_all
  moreover have "y < 2 powi (ilog2 y + 1)" "2 powi ilog2 x \<le> x" using ilog2_bounds [of x] ilog2_bounds [of y] xy by auto
  ultimately show False using xy by linarith
qed

lemma f64_round_minus: "f64_round (- x) = - f64_round x"
  by (simp add: f64_round_def f64_ulp_exponent_def round_half_even_minus)

lemma f64_round_nonneg: "0 < x \<Longrightarrow> 0 \<le> f64_round x"
proof -
  assume "0 < x"
  then have "round_half_even (of_int 0) \<le> round_half_even (x / 2 powi f64_ulp_exponent x)"
    by (intro round_half_even_mono) simp
  then have "0 \<le> round_half_even (x / 2 powi f64_ulp_exponent x)" by (simp only: round_half_even_int)
  then show ?thesis by (simp add: f64_round_def)
qed

lemma powi_nat: "0 \<le> k \<Longrightarrow> (2 :: rat) powi k = of_int (2 ^ nat k)"
  by (simp add: power_int_def)

lemma powi_nat_mult: "e \<le> k \<Longrightarrow> of_int (2 ^ nat (k - e)) * 2 powi e = (2 :: rat) powi k"
  using powi_nat [of "k - e"] power_int_add [of "2 :: rat" "k - e" e] by simp

lemma f64_round_mono_pos:
  assumes "0 < x" "x \<le> y" shows "f64_round x \<le> f64_round y"
proof -
  define e where "e = f64_ulp_exponent x"
  define e' where "e' = f64_ulp_exponent y"
  have pos: "(0 :: rat) < 2 powi e" "(0 :: rat) < 2 powi e'" by simp_all
  have y: "0 < y" using assms by simp
  have ll: "ilog2 x \<le> ilog2 y" by (rule ilog2_mono [OF assms])
  have rx: "f64_round x = of_int (round_half_even (x / 2 powi e)) * 2 powi e"
    and ry: "f64_round y = of_int (round_half_even (y / 2 powi e')) * 2 powi e'"
    using assms y by (simp_all add: f64_round_def e_def e'_def)
  show ?thesis
  proof (cases "e = e'")
    case True
    have "round_half_even (x / 2 powi e) \<le> round_half_even (y / 2 powi e)"
      using assms by (intro round_half_even_mono divide_right_mono) simp_all
    then show ?thesis unfolding rx ry True using pos by (intro mult_right_mono) simp_all
  next
    case False
    define k where "k = ilog2 y"
    have ee: "e' = k - 52" "e < e'" "ilog2 x < k"
      using False ll assms(1) y by (auto simp: e_def e'_def f64_ulp_exponent_def k_def)
    have "x < 2 powi (ilog2 x + 1)" by (rule ilog2_bounds(2) [OF assms(1)])
    also have "\<dots> \<le> 2 powi k" using ee(3) by (intro power_int_increasing) simp_all
    finally have "x / 2 powi e \<le> 2 powi k / 2 powi e" by (intro divide_right_mono) simp_all
    also have "\<dots> = of_int (2 ^ nat (k - e))" using ee by (simp add: powi_nat flip: power_int_diff)
    finally have "round_half_even (x / 2 powi e) \<le> 2 ^ nat (k - e)"
      using round_half_even_mono round_half_even_int by metis
    then have "of_int (round_half_even (x / 2 powi e)) \<le> (of_int (2 ^ nat (k - e)) :: rat)"
      unfolding of_int_le_iff .
    then have "f64_round x \<le> of_int (2 ^ nat (k - e)) * 2 powi e"
      unfolding rx using pos by (intro mult_right_mono) simp_all
    also have "\<dots> = 2 powi k" using ee by (intro powi_nat_mult) simp
    finally have 1: "f64_round x \<le> 2 powi k" .
    have "of_int (2 ^ nat (k - e')) = (2 :: rat) powi k / 2 powi e'"
      using ee by (simp add: powi_nat flip: power_int_diff)
    also have "\<dots> \<le> y / 2 powi e'"
      using ilog2_bounds(1) [OF y] by (intro divide_right_mono) (simp_all add: k_def)
    finally have "2 ^ nat (k - e') \<le> round_half_even (y / 2 powi e')"
      using round_half_even_mono round_half_even_int by metis
    then have "(of_int (2 ^ nat (k - e')) :: rat) \<le> of_int (round_half_even (y / 2 powi e'))"
      unfolding of_int_le_iff .
    then have "of_int (2 ^ nat (k - e')) * 2 powi e' \<le> f64_round y"
      unfolding ry using pos by (intro mult_right_mono) simp_all
    moreover have "of_int (2 ^ nat (k - e')) * 2 powi e' = (2 :: rat) powi k"
      using ee by (intro powi_nat_mult) simp
    ultimately show ?thesis using 1 by simp
  qed
qed

lemma f64_round_mono: "x \<le> y \<Longrightarrow> f64_round x \<le> f64_round y"
proof -
  assume xy: "x \<le> y"
  have zero: "f64_round 0 = 0" by (simp add: f64_round_def)
  consider "0 < x" | "x \<le> 0" "0 \<le> y" | "y < 0" by linarith
  then show ?thesis
  proof cases
    case 1
    then show ?thesis using f64_round_mono_pos xy by simp
  next
    case 2
    have "f64_round x \<le> 0" using f64_round_nonneg [of "- x"] f64_round_minus [of x] 2 zero by (cases "x = 0") auto
    moreover have "0 \<le> f64_round y" using f64_round_nonneg [of y] 2 zero by (cases "y = 0") auto
    ultimately show ?thesis by simp
  next
    case 3
    then show ?thesis using f64_round_mono_pos [of "- y" "- x"] xy by (simp add: f64_round_minus)
  qed
qed

lemma f64_of_rat_mono: "x \<le> y \<Longrightarrow> f64_less_eq (f64_of_rat x) (f64_of_rat y)"
  using f64_round_mono [of x y] by (auto simp: f64_of_rat_def Let_def abs_if split: if_splits)

lemma f64_less_not_le: "f64_less a b \<Longrightarrow> \<not> f64_less_eq b a"
  by (cases a; cases b) auto

lemma f64_less_sound: "f64_less (f64_of_rat x) (f64_of_rat y) \<Longrightarrow> x < y"
  using f64_less_not_le f64_of_rat_mono not_less by blast

end
