(* ===== verification/Dynamo_Eval.thy ===== *)
theory Dynamo_Eval
  imports Rust_F64
begin

text \<open>
  The evaluation of condition expressions (\<^verbatim>\<open>expression/evaluator.rs\<close>): paths and operands against an
  item, comparison, and the functions. The argument vector of a function is indexed without a
  check of its length, and \<^verbatim>\<open>windows(0)\<close> panics: both are the value \<open>Inl Panicked\<close>.
\<close>

datatype eval_error = Panicked | EvalError expression_error

abbreviation invalid_operand :: "string \<Rightarrow> eval_error + 'a" where
  "invalid_operand operation \<equiv> Inl (EvalError (InvalidOperand operation))"

fun lift_error :: "expression_error + 'a \<Rightarrow> eval_error + 'a" where
  "lift_error (Inl e) = Inl (EvalError e)"
| "lift_error (Inr x) = Inr x"

record eval_context =
  ec_item :: item
  ec_names :: "(string, string) btree"
  ec_values :: item

section \<open>Paths\<close>

text \<open>A name, or what its \<open>#\<close> placeholder stands for.\<close>

definition placeholder :: "(string, string) btree \<Rightarrow> string \<Rightarrow> string option" where
  "placeholder names name = (if starts_with name ''#'' then bt_get names name else Some name)"

definition list_get :: "'a list \<Rightarrow> nat \<Rightarrow> 'a option" where
  "list_get xs i = (if i < length xs then Some (xs ! i) else None)"

fun walk_path :: "(string, string) btree \<Rightarrow> attribute_value option \<Rightarrow> attribute_path \<Rightarrow>
    attribute_value option" where
  "walk_path names cur [] = cur"
| "walk_path names cur (PathAttr name # p) =
     (case (placeholder names name, Option.bind cur as_m) of
        (Some r, Some m) \<Rightarrow> walk_path names (bt_get m r) p
      | _ \<Rightarrow> None)"
| "walk_path names cur (PathIndex i # p) =
     (case Option.bind cur as_l of
        None \<Rightarrow> None
      | Some l \<Rightarrow> walk_path names (list_get l i) p)"

text \<open>\<^verbatim>\<open>EvalContext::resolve_path\<close> and \<^verbatim>\<open>resolve_path_in_item\<close>.\<close>

fun resolve_path :: "item \<Rightarrow> (string, string) btree \<Rightarrow> attribute_path \<Rightarrow> attribute_value option" where
  "resolve_path it names (PathAttr name # p) =
     (case placeholder names name of
        None \<Rightarrow> None
      | Some r \<Rightarrow> walk_path names (bt_get it r) p)"
| "resolve_path it names _ = None"

section \<open>Operands\<close>

fun is_query_constant :: "operand \<Rightarrow> bool" where
  "is_query_constant (OpPath _) = False"
| "is_query_constant _ = True"

fun attribute_size :: "attribute_value \<Rightarrow> nat" where
  "attribute_size (AvS s) = length s"
| "attribute_size (AvN n) = length n"
| "attribute_size (AvB b) = length b"
| "attribute_size (AvSs v) = length v"
| "attribute_size (AvNs v) = length v"
| "attribute_size (AvBs v) = length v"
| "attribute_size (AvBool _) = 1"
| "attribute_size (AvNull _) = 1"
| "attribute_size (AvL v) = length v"
| "attribute_size (AvM m) = length m"

fun has_no_size :: "attribute_value \<Rightarrow> bool" where
  "has_no_size (AvN _) = True"
| "has_no_size (AvBool _) = True"
| "has_no_size (AvNull _) = True"
| "has_no_size _ = False"

fun resolve_operand :: "eval_context \<Rightarrow> operand \<Rightarrow> expression_error + attribute_value option" where
  "resolve_operand c (OpPath p) = Inr (resolve_path (ec_item c) (ec_names c) p)"
| "resolve_operand c (OpValue name) =
     (case bt_get (ec_values c) (CHR '':'' # name) of
        None \<Rightarrow> Inl (UnresolvedValue (CHR '':'' # name))
      | Some v \<Rightarrow> Inr (Some v))"
| "resolve_operand c (OpSize inner) =
     res_bind (resolve_operand c inner) (\<lambda>r.
       case r of
         None \<Rightarrow> Inr None
       | Some v \<Rightarrow>
           if has_no_size v
           then if is_query_constant inner then Inl (InvalidOperand ''size'') else Inr None
           else Inr (Some (AvN (show_nat (attribute_size v)))))"

section \<open>Comparison\<close>

fun is_ordering_unsupported_type :: "attribute_value \<Rightarrow> bool" where
  "is_ordering_unsupported_type (AvL _) = True"
| "is_ordering_unsupported_type (AvM _) = True"
| "is_ordering_unsupported_type (AvSs _) = True"
| "is_ordering_unsupported_type (AvNs _) = True"
| "is_ordering_unsupported_type (AvBs _) = True"
| "is_ordering_unsupported_type (AvNull _) = True"
| "is_ordering_unsupported_type _ = False"

definition is_ordering_op :: "compare_op \<Rightarrow> bool" where
  "is_ordering_op op \<longleftrightarrow> op = CmpLt \<or> op = CmpLe \<or> op = CmpGt \<or> op = CmpGe"

definition validate_ordering_operand_type ::
    "operand \<Rightarrow> attribute_value \<Rightarrow> expression_error + unit" where
  "validate_ordering_operand_type op v =
     (if is_query_constant op \<and> is_ordering_unsupported_type v then Inl (InvalidOperand ''operator'')
      else Inr ())"

fun apply_equality_op :: "bool \<Rightarrow> compare_op \<Rightarrow> bool" where
  "apply_equality_op eq CmpEq = eq"
| "apply_equality_op eq CmpNe = (\<not> eq)"
| "apply_equality_op eq CmpLe = eq"
| "apply_equality_op eq CmpGe = eq"
| "apply_equality_op eq _ = False"

definition sets_equal :: "'a list \<Rightarrow> 'a list \<Rightarrow> bool" where
  "sets_equal a b \<longleftrightarrow> length a = length b \<and> list_all (\<lambda>x. x \<in> set b) a"

fun compare_ord :: "'a::linorder \<Rightarrow> 'a \<Rightarrow> compare_op \<Rightarrow> bool" where
  "compare_ord a b CmpEq = (a = b)"
| "compare_ord a b CmpNe = (a \<noteq> b)"
| "compare_ord a b CmpLt = (a < b)"
| "compare_ord a b CmpLe = (a \<le> b)"
| "compare_ord a b CmpGt = (a > b)"
| "compare_ord a b CmpGe = (a \<ge> b)"

text \<open>\<^verbatim>\<open>(a - b).abs() < f64::EPSILON\<close>.\<close>

definition f64_close :: "f64 \<Rightarrow> f64 \<Rightarrow> bool" where
  "f64_close a b \<longleftrightarrow> f64_less (f64_abs (f64_sub a b)) f64_epsilon"

fun compare_f64 :: "f64 \<Rightarrow> f64 \<Rightarrow> compare_op \<Rightarrow> bool" where
  "compare_f64 a b CmpEq = f64_close a b"
| "compare_f64 a b CmpNe = f64_less_eq f64_epsilon (f64_abs (f64_sub a b))"
| "compare_f64 a b CmpLt = f64_less a b"
| "compare_f64 a b CmpLe = f64_less_eq a b"
| "compare_f64 a b CmpGt = f64_less b a"
| "compare_f64 a b CmpGe = f64_less_eq b a"

definition parse_number :: "string \<Rightarrow> expression_error + f64" where
  "parse_number s = (case parse_f64 s of None \<Rightarrow> Inl TypeMismatch | Some x \<Rightarrow> Inr x)"

function deep_equal_values :: "attribute_value \<Rightarrow> attribute_value \<Rightarrow> bool" where
  "deep_equal_values a b =
     (case (a, b) of
        (AvS x, AvS y) \<Rightarrow> x = y
      | (AvN x, AvN y) \<Rightarrow>
          (case (parse_f64 x, parse_f64 y) of
             (Some fx, Some fy) \<Rightarrow> f64_close fx fy
           | _ \<Rightarrow> x = y)
      | (AvB x, AvB y) \<Rightarrow> x = y
      | (AvBool x, AvBool y) \<Rightarrow> x = y
      | (AvNull x, AvNull y) \<Rightarrow> x = y
      | (AvSs x, AvSs y) \<Rightarrow> sets_equal x y
      | (AvNs x, AvNs y) \<Rightarrow> sets_equal x y
      | (AvBs x, AvBs y) \<Rightarrow> sets_equal x y
      | (AvL x, AvL y) \<Rightarrow>
          length x = length y \<and> list_all (\<lambda>p. deep_equal_values (fst p) (snd p)) (zip x y)
      | (AvM x, AvM y) \<Rightarrow>
          length x = length y \<and>
          list_all (\<lambda>e. case bt_get y (fst e) of
                          None \<Rightarrow> False
                        | Some bv \<Rightarrow> deep_equal_values (snd e) bv) x
      | _ \<Rightarrow> False)"
  by auto
termination
proof (relation "measure (size \<circ> fst)", goal_cases)
  case (2 a b x y xs ys p)
  then have "fst p \<in> set xs" by (cases p) (auto dest: set_zip_leftD)
  then have "size (fst p) \<le> size_list size xs" by (rule size_list_estimation') simp
  with 2 show ?case by auto
next
  case (3 a b x y xs ys e v)
  obtain k w where e: "e = (k, w)" by (cases e)
  have "size (snd e) \<le> size_list (size_prod (\<lambda>_. 0) size) xs"
    by (rule size_list_estimation' [OF 3(4)]) (simp add: e)
  with 3 show ?case by auto
qed simp

declare deep_equal_values.simps [simp del]

definition compare_values ::
    "attribute_value \<Rightarrow> attribute_value \<Rightarrow> compare_op \<Rightarrow> expression_error + bool" where
  "compare_values l r op =
     (case (l, r) of
        (AvS a, AvS b) \<Rightarrow> Inr (compare_ord a b op)
      | (AvN a, AvN b) \<Rightarrow>
          res_bind (parse_number a) (\<lambda>fa. res_map (\<lambda>fb. compare_f64 fa fb op) (parse_number b))
      | (AvB a, AvB b) \<Rightarrow> Inr (compare_ord a b op)
      | (AvBool a, AvBool b) \<Rightarrow> Inr (compare_ord a b op)
      | (AvNull True, AvNull True) \<Rightarrow> Inr (op = CmpEq \<or> op = CmpLe \<or> op = CmpGe)
      | (AvSs a, AvSs b) \<Rightarrow> Inr (apply_equality_op (sets_equal a b) op)
      | (AvNs a, AvNs b) \<Rightarrow> Inr (apply_equality_op (sets_equal a b) op)
      | (AvBs a, AvBs b) \<Rightarrow> Inr (apply_equality_op (sets_equal a b) op)
      | (AvL a, AvL b) \<Rightarrow> Inr (apply_equality_op (deep_equal_values l r) op)
      | (AvM a, AvM b) \<Rightarrow> Inr (apply_equality_op (deep_equal_values l r) op)
      | _ \<Rightarrow> Inr (op = CmpNe))"

definition eval_compare ::
    "eval_context \<Rightarrow> operand \<Rightarrow> compare_op \<Rightarrow> operand \<Rightarrow> expression_error + bool" where
  "eval_compare c left op right =
     res_bind (resolve_operand c left) (\<lambda>lval.
     res_bind (resolve_operand c right) (\<lambda>rval.
       case (lval, rval) of
         (Some lv, Some rv) \<Rightarrow>
           if is_ordering_op op
           then res_bind (validate_ordering_operand_type left lv) (\<lambda>_.
                res_bind (validate_ordering_operand_type right rv) (\<lambda>_. compare_values lv rv op))
           else compare_values lv rv op
       | _ \<Rightarrow> Inr (op = CmpNe)))"

definition same_type :: "attribute_value \<Rightarrow> attribute_value \<Rightarrow> bool" where
  "same_type a b \<longleftrightarrow> type_descriptor a = type_descriptor b"

definition check_between_bounds ::
    "operand \<Rightarrow> attribute_value \<Rightarrow> operand \<Rightarrow> attribute_value \<Rightarrow> expression_error + unit" where
  "check_between_bounds low lo high hi =
     (if is_query_constant low \<and> is_query_constant high
      then if \<not> same_type lo hi then Inl TypeMismatch
           else res_bind (compare_values lo hi CmpGt) (\<lambda>wrong. if wrong then Inl TypeMismatch else Inr ())
      else Inr ())"

definition eval_between :: "eval_context \<Rightarrow> operand \<Rightarrow> operand \<Rightarrow> operand \<Rightarrow> expression_error + bool" where
  "eval_between c val low high =
     res_bind (resolve_operand c val) (\<lambda>v.
     res_bind (resolve_operand c low) (\<lambda>lo.
     res_bind (resolve_operand c high) (\<lambda>hi.
       case (v, lo, hi) of
         (Some v, Some lo, Some hi) \<Rightarrow>
           res_bind (validate_ordering_operand_type val v) (\<lambda>_.
           res_bind (validate_ordering_operand_type low lo) (\<lambda>_.
           res_bind (validate_ordering_operand_type high hi) (\<lambda>_.
           res_bind (check_between_bounds low lo high hi) (\<lambda>_.
           res_bind (compare_values v lo CmpGe) (\<lambda>ge_low.
           res_bind (compare_values v hi CmpLe) (\<lambda>le_high. Inr (ge_low \<and> le_high)))))))
       | _ \<Rightarrow> Inr False)))"

fun eval_in_list :: "eval_context \<Rightarrow> attribute_value \<Rightarrow> operand list \<Rightarrow> expression_error + bool" where
  "eval_in_list c v [] = Inr False"
| "eval_in_list c v (x # xs) =
     res_bind (resolve_operand c x) (\<lambda>r.
       case r of
         None \<Rightarrow> eval_in_list c v xs
       | Some iv \<Rightarrow>
           res_bind (compare_values v iv CmpEq) (\<lambda>eq. if eq then Inr True else eval_in_list c v xs))"

definition eval_in :: "eval_context \<Rightarrow> operand \<Rightarrow> operand list \<Rightarrow> expression_error + bool" where
  "eval_in c val xs =
     res_bind (resolve_operand c val) (\<lambda>v.
       case v of None \<Rightarrow> Inr False | Some v \<Rightarrow> eval_in_list c v xs)"

section \<open>Functions\<close>

text \<open>\<^verbatim>\<open>&args[i]\<close>.\<close>

definition arg :: "operand list \<Rightarrow> nat \<Rightarrow> eval_error + operand" where
  "arg args i = (if i < length args then Inr (args ! i) else Inl Panicked)"

fun operand_as_path :: "operand \<Rightarrow> string \<Rightarrow> eval_error + attribute_path" where
  "operand_as_path (OpPath p) name = Inr p"
| "operand_as_path _ name = invalid_operand name"

definition is_valid_type_descriptor :: "string \<Rightarrow> bool" where
  "is_valid_type_descriptor s \<longleftrightarrow>
     s \<in> {''S'', ''SS'', ''N'', ''NS'', ''B'', ''BS'', ''BOOL'', ''NULL'', ''L'', ''M''}"

definition eval_attribute_type :: "eval_context \<Rightarrow> operand list \<Rightarrow> eval_error + bool" where
  "eval_attribute_type c args =
     res_bind (arg args 1) (\<lambda>a1.
       case a1 of
         OpValue _ \<Rightarrow>
           res_bind (lift_error (resolve_operand c a1)) (\<lambda>type_val.
             case type_val of
               Some (AvS expected) \<Rightarrow>
                 if \<not> is_valid_type_descriptor expected then Inl (EvalError TypeMismatch)
                 else
                   res_bind (arg args 0) (\<lambda>a0.
                   res_bind (lift_error (resolve_operand c a0)) (\<lambda>attr_val.
                     case attr_val of
                       None \<Rightarrow> Inr False
                     | Some v \<Rightarrow> Inr (type_descriptor v = expected)))
             | _ \<Rightarrow> Inl (EvalError TypeMismatch))
       | _ \<Rightarrow> invalid_operand ''attribute_type'')"

fun has_prefix :: "attribute_value \<Rightarrow> bool" where
  "has_prefix (AvS _) = True"
| "has_prefix (AvB _) = True"
| "has_prefix _ = False"

definition check_prefix_constant ::
    "operand \<Rightarrow> attribute_value option \<Rightarrow> eval_error + unit" where
  "check_prefix_constant op r =
     (case r of
        Some v \<Rightarrow>
          if \<not> has_prefix v \<and> is_query_constant op then invalid_operand ''begins_with'' else Inr ()
      | None \<Rightarrow> Inr ())"

definition eval_begins_with :: "eval_context \<Rightarrow> operand list \<Rightarrow> eval_error + bool" where
  "eval_begins_with c args =
     res_bind (arg args 0) (\<lambda>a0.
     res_bind (lift_error (resolve_operand c a0)) (\<lambda>lval.
     res_bind (arg args 1) (\<lambda>a1.
     res_bind (lift_error (resolve_operand c a1)) (\<lambda>rval.
     res_bind (check_prefix_constant a0 lval) (\<lambda>_.
     res_bind (check_prefix_constant a1 rval) (\<lambda>_.
       case (lval, rval) of
         (Some (AvS s), Some (AvS prefix)) \<Rightarrow> Inr (starts_with s prefix)
       | (Some (AvB b), Some (AvB prefix)) \<Rightarrow> Inr (starts_with b prefix)
       | _ \<Rightarrow> Inr False))))))"

definition contains_value :: "attribute_value \<Rightarrow> attribute_value \<Rightarrow> eval_error + bool" where
  "contains_value attr search =
     (case (attr, search) of
        (AvS s, AvS sub) \<Rightarrow> Inr (str_contains sub s)
      | (AvB b, AvB sub) \<Rightarrow> if sub = [] then Inl Panicked else Inr (str_contains sub b)
      | (AvSs s, AvS v) \<Rightarrow> Inr (v \<in> set s)
      | (AvNs s, AvN v) \<Rightarrow> Inr (v \<in> set s)
      | (AvBs s, AvB v) \<Rightarrow> Inr (v \<in> set s)
      | (AvL xs, _) \<Rightarrow> Inr (search \<in> set xs)
      | _ \<Rightarrow> Inr False)"

definition eval_contains :: "eval_context \<Rightarrow> operand list \<Rightarrow> eval_error + bool" where
  "eval_contains c args =
     res_bind (arg args 0) (\<lambda>a0.
     res_bind (operand_as_path a0 ''contains'') (\<lambda>path.
     res_bind (arg args 1) (\<lambda>a1.
     res_bind (lift_error (resolve_operand c a1)) (\<lambda>search_val.
       case (resolve_path (ec_item c) (ec_names c) path, search_val) of
         (Some attr, Some search) \<Rightarrow> contains_value attr search
       | _ \<Rightarrow> Inr False))))"

fun eval_function :: "eval_context \<Rightarrow> function_name \<Rightarrow> operand list \<Rightarrow> eval_error + bool" where
  "eval_function c FnAttributeExists args =
     res_bind (arg args 0) (\<lambda>a0.
     res_bind (operand_as_path a0 ''attribute_exists'') (\<lambda>path.
       Inr (resolve_path (ec_item c) (ec_names c) path \<noteq> None)))"
| "eval_function c FnAttributeNotExists args =
     res_bind (arg args 0) (\<lambda>a0.
     res_bind (operand_as_path a0 ''attribute_not_exists'') (\<lambda>path.
       Inr (resolve_path (ec_item c) (ec_names c) path = None)))"
| "eval_function c FnAttributeType args = eval_attribute_type c args"
| "eval_function c FnBeginsWith args = eval_begins_with c args"
| "eval_function c FnContains args = eval_contains c args"
| "eval_function c FnSize args = invalid_operand ''condition''"

section \<open>Conditions\<close>

fun evaluate :: "eval_context \<Rightarrow> expr \<Rightarrow> eval_error + bool" where
  "evaluate c (ECompare l op r) = lift_error (eval_compare c l op r)"
| "evaluate c (EBetween v lo hi) = lift_error (eval_between c v lo hi)"
| "evaluate c (EIn v xs) = lift_error (eval_in c v xs)"
| "evaluate c (ELogical LogAnd l r) =
     res_bind (evaluate c l) (\<lambda>b. if \<not> b then Inr False else evaluate c r)"
| "evaluate c (ELogical LogOr l r) =
     res_bind (evaluate c l) (\<lambda>b. if b then Inr True else evaluate c r)"
| "evaluate c (ENot e) = res_map Not (evaluate c e)"
| "evaluate c (EFunction name args) = eval_function c name args"

end
