(* ===== verification/Dynamo_Update.thy ===== *)
theory Dynamo_Update
  imports Dynamo_Eval
begin

text \<open>
  Update expressions and projections (\<^verbatim>\<open>expression/evaluator.rs\<close>). The item that the code mutates is
  passed along; the operands of an update are resolved against the item as it was before.
\<close>

section \<open>Assignment to a path\<close>

definition resolve_name_ref :: "(string, string) btree \<Rightarrow> string \<Rightarrow> string" where
  "resolve_name_ref names name =
     (if starts_with name ''#'' then unwrap_or name (bt_get names name) else name)"

definition resolve_top_level_name ::
    "attribute_path \<Rightarrow> (string, string) btree \<Rightarrow> expression_error + string" where
  "resolve_top_level_name path names =
     (case path of
        PathAttr name # _ \<Rightarrow>
          (case placeholder names name of None \<Rightarrow> Inl (UnresolvedName name) | Some r \<Rightarrow> Inr r)
      | _ \<Rightarrow> Inl (InvalidOperand ''path resolution''))"

definition resolve_top_level_name_opt ::
    "attribute_path \<Rightarrow> (string, string) btree \<Rightarrow> string option" where
  "resolve_top_level_name_opt path names =
     (case path of PathAttr name # _ \<Rightarrow> placeholder names name | _ \<Rightarrow> None)"

definition usize_max :: nat where
  "usize_max = 2 ^ 64 - 1"

definition extract_last_index :: "attribute_path \<Rightarrow> nat" where
  "extract_last_index path =
     (case rev path of PathIndex i # _ \<Rightarrow> i | _ \<Rightarrow> usize_max)"

fun validate_path_type ::
    "(string, string) btree \<Rightarrow> attribute_value \<Rightarrow> attribute_path \<Rightarrow> expression_error + unit" where
  "validate_path_type names cur [] = Inr ()"
| "validate_path_type names cur (PathAttr name # rest) =
     (case as_m cur of
        None \<Rightarrow> Inl (InvalidOperand ''SET'')
      | Some m \<Rightarrow>
          if rest = [] then Inr ()
          else (case bt_get m (resolve_name_ref names name) of
                  None \<Rightarrow> Inr ()
                | Some child \<Rightarrow> validate_path_type names child rest))"
| "validate_path_type names cur (PathIndex i # rest) =
     (case as_l cur of
        None \<Rightarrow> Inl (InvalidOperand ''SET'')
      | Some l \<Rightarrow>
          if rest = [] then Inr ()
          else (case list_get l i of
                  None \<Rightarrow> Inr ()
                | Some child \<Rightarrow> validate_path_type names child rest))"

fun set_value_in_container ::
    "(string, string) btree \<Rightarrow> attribute_value \<Rightarrow> attribute_path \<Rightarrow> attribute_value \<Rightarrow> attribute_value" where
  "set_value_in_container names cur [] v = cur"
| "set_value_in_container names cur (PathAttr name # rest) v =
     (case cur of
        AvM m \<Rightarrow>
          let r = resolve_name_ref names name
          in AvM (bt_insert r
               (if rest = [] then v
                else set_value_in_container names (unwrap_or (AvM []) (bt_get m r)) rest v) m)
      | _ \<Rightarrow> cur)"
| "set_value_in_container names cur (PathIndex i # rest) v =
     (case cur of
        AvL l \<Rightarrow>
          if length l \<le> i then AvL (if rest = [] then l @ [v] else l)
          else AvL (l[i := if rest = [] then v else set_value_in_container names (l ! i) rest v])
      | _ \<Rightarrow> cur)"

fun set_path_value ::
    "(string, string) btree \<Rightarrow> attribute_path \<Rightarrow> attribute_value \<Rightarrow> item \<Rightarrow> expression_error + item" where
  "set_path_value names (PathAttr attr # rest) v it =
     (let name = resolve_name_ref names attr
      in if rest = [] then Inr (bt_insert name v it)
         else (case bt_get it name of
                 None \<Rightarrow> Inl (InvalidOperand ''SET'')
               | Some cur \<Rightarrow>
                   res_map (\<lambda>_. bt_insert name (set_value_in_container names cur rest v) it)
                     (validate_path_type names cur rest)))"
| "set_path_value names _ v it = Inr it"

section \<open>Removal of a path\<close>

definition list_remove :: "nat \<Rightarrow> 'a list \<Rightarrow> 'a list" where
  "list_remove i xs = take i xs @ drop (Suc i) xs"

fun remove_at_path ::
    "(string, string) btree \<Rightarrow> attribute_value \<Rightarrow> attribute_path \<Rightarrow> attribute_value" where
  "remove_at_path names cur [] = cur"
| "remove_at_path names cur (PathAttr name # rest) =
     (case cur of
        AvM m \<Rightarrow>
          let r = resolve_name_ref names name
          in if rest = [] then AvM (bt_remove r m)
             else (case bt_get m r of
                     None \<Rightarrow> cur
                   | Some child \<Rightarrow> AvM (bt_insert r (remove_at_path names child rest) m))
      | _ \<Rightarrow> cur)"
| "remove_at_path names cur (PathIndex i # rest) =
     (case cur of
        AvL l \<Rightarrow>
          if length l \<le> i then cur
          else if rest = [] then AvL (list_remove i l)
          else AvL (l[i := remove_at_path names (l ! i) rest])
      | _ \<Rightarrow> cur)"

fun apply_remove ::
    "(string, string) btree \<Rightarrow> attribute_path \<Rightarrow> item \<Rightarrow> expression_error + item" where
  "apply_remove names (PathAttr attr # rest) it =
     (let name = resolve_name_ref names attr
      in if rest = [] then Inr (bt_remove name it)
         else (case bt_get it name of
                 None \<Rightarrow> Inl (InvalidOperand ''REMOVE'')
               | Some cur \<Rightarrow>
                   res_map (\<lambda>_. bt_insert name (remove_at_path names cur rest) it)
                     (validate_path_type names cur rest)))"
| "apply_remove names _ it = Inr it"

section \<open>Actions\<close>

definition operand_value :: "eval_context \<Rightarrow> operand \<Rightarrow> string \<Rightarrow> expression_error + attribute_value" where
  "operand_value c op operation =
     res_bind (resolve_operand c op) (\<lambda>r.
       case r of None \<Rightarrow> Inl (InvalidOperand operation) | Some v \<Rightarrow> Inr v)"

fun resolve_set_value :: "eval_context \<Rightarrow> set_value \<Rightarrow> expression_error + attribute_value" where
  "resolve_set_value c (SvOperand op) = operand_value c op ''SET''"
| "resolve_set_value c (SvPlus a b) =
     res_bind (resolve_set_value c a) (\<lambda>av.
     res_bind (resolve_set_value c b) (\<lambda>bv. numeric_arithmetic av bv True))"
| "resolve_set_value c (SvMinus a b) =
     res_bind (resolve_set_value c a) (\<lambda>av.
     res_bind (resolve_set_value c b) (\<lambda>bv. numeric_arithmetic av bv False))"
| "resolve_set_value c (SvIfNotExists path dflt) =
     (case resolve_path (ec_item c) (ec_names c) path of
        Some v \<Rightarrow> Inr v
      | None \<Rightarrow> operand_value c dflt ''if_not_exists'')"
| "resolve_set_value c (SvListAppend a b) =
     res_bind (operand_value c a ''list_append'') (\<lambda>av.
     res_bind (operand_value c b ''list_append'') (\<lambda>bv.
       case (av, bv) of
         (AvL xs, AvL ys) \<Rightarrow> Inr (AvL (xs @ ys))
       | _ \<Rightarrow> Inl TypeMismatch))"

definition apply_set_action :: "eval_context \<Rightarrow> set_action \<Rightarrow> item \<Rightarrow> expression_error + item" where
  "apply_set_action c action it =
     res_bind (resolve_set_value c (sa_value action)) (\<lambda>v.
       set_path_value (ec_names c) (sa_path action) v it)"

text \<open>The set operations on duplicate-free vectors.\<close>

fun merge_set :: "'a list \<Rightarrow> 'a list \<Rightarrow> 'a list" where
  "merge_set merged [] = merged"
| "merge_set merged (x # xs) = merge_set (if x \<in> set merged then merged else merged @ [x]) xs"

definition compute_add_result ::
    "attribute_value \<Rightarrow> attribute_value option \<Rightarrow> expression_error + attribute_value" where
  "compute_add_result add_val existing =
     (case (add_val, existing) of
        (AvN _, Some (AvN e)) \<Rightarrow> numeric_arithmetic (AvN e) add_val True
      | (AvSs new, Some (AvSs old)) \<Rightarrow> Inr (AvSs (merge_set old new))
      | (AvNs new, Some (AvNs old)) \<Rightarrow> Inr (AvNs (merge_set old new))
      | (AvBs new, Some (AvBs old)) \<Rightarrow> Inr (AvBs (merge_set old new))
      | (_, None) \<Rightarrow> Inr add_val
      | _ \<Rightarrow> Inl (InvalidOperand ''ADD''))"

fun is_set_type :: "attribute_value \<Rightarrow> bool" where
  "is_set_type (AvSs _) = True"
| "is_set_type (AvNs _) = True"
| "is_set_type (AvBs _) = True"
| "is_set_type _ = False"

fun is_addable :: "attribute_value \<Rightarrow> bool" where
  "is_addable (AvN _) = True"
| "is_addable v = is_set_type v"

definition apply_add_action :: "eval_context \<Rightarrow> path_action \<Rightarrow> item \<Rightarrow> expression_error + item" where
  "apply_add_action c action it =
     res_bind (operand_value c (pa_value action) ''ADD'') (\<lambda>add_val.
       if \<not> is_addable add_val then Inl (InvalidOperand ''ADD'')
       else
         res_bind (compute_add_result add_val (resolve_path it (ec_names c) (pa_path action))) (\<lambda>res.
           set_path_value (ec_names c) (pa_path action) res it))"

definition put_or_remove :: "string \<Rightarrow> ('a list \<Rightarrow> attribute_value) \<Rightarrow> 'a list \<Rightarrow> item \<Rightarrow> item" where
  "put_or_remove name f xs it = (if xs = [] then bt_remove name it else bt_insert name (f xs) it)"

definition apply_delete_action :: "eval_context \<Rightarrow> path_action \<Rightarrow> item \<Rightarrow> expression_error + item" where
  "apply_delete_action c action it =
     res_bind (operand_value c (pa_value action) ''DELETE'') (\<lambda>del_val.
       if \<not> is_set_type del_val then Inl (InvalidOperand ''DELETE'')
       else
         res_bind (resolve_top_level_name (pa_path action) (ec_names c)) (\<lambda>name.
           case (del_val, bt_get it name) of
             (_, None) \<Rightarrow> Inr it
           | (AvSs gone, Some (AvSs old)) \<Rightarrow>
               Inr (put_or_remove name AvSs (filter (\<lambda>x. x \<notin> set gone) old) it)
           | (AvNs gone, Some (AvNs old)) \<Rightarrow>
               Inr (put_or_remove name AvNs (filter (\<lambda>x. x \<notin> set gone) old) it)
           | (AvBs gone, Some (AvBs old)) \<Rightarrow>
               Inr (put_or_remove name AvBs (filter (\<lambda>x. x \<notin> set gone) old) it)
           | _ \<Rightarrow> Inl (InvalidOperand ''DELETE'')))"

fun apply_all :: "('a \<Rightarrow> 's \<Rightarrow> 'e + 's) \<Rightarrow> 'a list \<Rightarrow> 's \<Rightarrow> 'e + 's" where
  "apply_all f [] s = Inr s"
| "apply_all f (x # xs) s = res_bind (f x s) (apply_all f xs)"

definition apply_update :: "eval_context \<Rightarrow> update_expr \<Rightarrow> expression_error + item" where
  "apply_update c u =
     res_bind (apply_all (apply_set_action c)
       (sort_key (\<lambda>a. extract_last_index (sa_path a)) (ue_set_actions u)) (ec_item c)) (\<lambda>it1.
     res_bind (apply_all (apply_remove (ec_names c)) (ue_remove_paths u) it1) (\<lambda>it2.
     res_bind (apply_all (apply_add_action c) (ue_add_actions u) it2) (\<lambda>it3.
       apply_all (apply_delete_action c) (ue_delete_actions u) it3)))"

section \<open>Projection\<close>

datatype resolved_element = MapKey string | ListIndex

definition resolve_element :: "(string, string) btree \<Rightarrow> path_element \<Rightarrow> resolved_element" where
  "resolve_element names e =
     (case e of PathAttr name \<Rightarrow> MapKey (resolve_name_ref names name) | PathIndex _ \<Rightarrow> ListIndex)"

text \<open>The container that a path needs at its next element.\<close>

fun empty_container :: "resolved_element list \<Rightarrow> attribute_value" where
  "empty_container (MapKey _ # _) = AvM []"
| "empty_container _ = AvL []"

fun deep_insert_into_av ::
    "attribute_value \<Rightarrow> resolved_element list \<Rightarrow> attribute_value \<Rightarrow> attribute_value" where
  "deep_insert_into_av target [] v = target"
| "deep_insert_into_av target (MapKey key # rest) v =
     (case target of
        AvM m \<Rightarrow>
          if rest = [] then AvM (bt_insert key v m)
          else AvM (bt_insert key
                 (deep_insert_into_av (unwrap_or (empty_container rest) (bt_get m key)) rest v) m)
      | _ \<Rightarrow> target)"
| "deep_insert_into_av target (ListIndex # rest) v =
     (case target of
        AvL l \<Rightarrow>
          if rest = [] then AvL (l @ [v])
          else
            let l' = (if l = [] then [empty_container rest] else l)
            in AvL (butlast l' @ [deep_insert_into_av (last l') rest v])
      | _ \<Rightarrow> target)"

definition deep_insert ::
    "(string, string) btree \<Rightarrow> attribute_path \<Rightarrow> attribute_value \<Rightarrow> item \<Rightarrow> item" where
  "deep_insert names path v it =
     (case map (resolve_element names) path of
        MapKey attr # rest \<Rightarrow>
          if rest = [] then bt_insert attr v it
          else bt_insert attr
                 (deep_insert_into_av (unwrap_or (empty_container rest) (bt_get it attr)) rest v) it
      | _ \<Rightarrow> it)"

definition project_path :: "eval_context \<Rightarrow> attribute_path \<Rightarrow> item \<Rightarrow> item" where
  "project_path c path res =
     (case (resolve_path (ec_item c) (ec_names c) path,
            resolve_top_level_name_opt path (ec_names c)) of
        (Some v, Some attr) \<Rightarrow>
          if length path = 1 then bt_insert attr v res else deep_insert (ec_names c) path v res
      | _ \<Rightarrow> res)"

definition apply_projection :: "eval_context \<Rightarrow> attribute_path list \<Rightarrow> item" where
  "apply_projection c paths = fold (project_path c) paths []"

end
