(* ===== verification/Dynamo_Expressions.thy ===== *)
theory Dynamo_Expressions
  imports Dynamo_Update Dynamo_Decimal
begin

text \<open>
  What evaluation and update expressions do: numeric conditions against the exact order, panics,
  the frame of an update, and assignment to a path.
\<close>

section \<open>Numbers in conditions\<close>

lemma i64_exponent:
  assumes "parse_int w s = Some e" shows "exponent_value s = Some e"
proof -
  obtain c r where s: "s = c # r" using assms by (cases s) (auto simp: parse_int_def)
  show ?thesis
    using assms by (auto simp: parse_int_def exponent_value_def sign_and_rest_def s Let_def
        split: if_splits option.splits)
qed

lemma decimal_value_parts:
  assumes "number_parts s = Some (neg, i, f, e)" "sign_and_rest s = (neg, rest)"
  shows "decimal_value rest = Some (of_nat (string_nat (i @ f)) * 10 powi (e - int (length f)))"
proof -
  obtain m where se: "split_exponent rest = Some (m, e)"
    and mf: "(case split_where is_dot m of Some (i, f) \<Rightarrow> (i, f) | None \<Rightarrow> (m, [])) = (i, f)"
    and d: "list_all is_ascii_digit (i @ f)" "i @ f \<noteq> []"
    using assms by (auto simp: number_parts_def split: prod.splits option.splits if_splits)
  have x: "(case split_where is_exponent_char rest of None \<Rightarrow> (rest, Some 0)
                    | Some (m, x) \<Rightarrow> (m, exponent_value x)) = (m, Some e)"
    using se by (auto simp: split_exponent_def i64_exponent split: option.splits prod.splits)
  have mf': "(case split_where is_dot m of None \<Rightarrow> (m, []) | Some (i, f) \<Rightarrow> (i, f)) = (i, f)"
    using mf by (simp split: option.splits)
  have "digits_val 0 (i @ f) = Some (string_nat (i @ f))" using digits_val_string_nat [OF d(1), of 0] by simp
  then show ?thesis unfolding decimal_value_def x Let_def using d(2) mf' by simp
qed

lemma parse_f64_number:
  assumes "is_number s" shows "parse_f64 s = Some (f64_of_rat (number_value s))"
proof -
  obtain neg i f e where p: "number_parts s = Some (neg, i, f, e)" using assms by (auto simp: is_number_def)
  obtain rest where r: "sign_and_rest s = (neg, rest)"
    using p by (auto simp: number_parts_def split: prod.splits option.splits if_splits)
  have "rest \<noteq> []"
    using p r by (auto simp: number_parts_def split_exponent_def split: option.splits prod.splits if_splits)
  then show ?thesis
    using decimal_value_parts [OF p r] p
    by (simp add: parse_f64_def r number_value_def signed_def)
qed

lemma compare_numbers:
  assumes "is_number a" "is_number b"
  shows "compare_values (AvN a) (AvN b) op =
    Inr (compare_f64 (f64_of_rat (number_value a)) (f64_of_rat (number_value b)) op)"
  using assms by (simp add: compare_values_def parse_number_def parse_f64_number)

lemma compare_numbers_order:
  assumes "is_number a" "is_number b"
  shows "compare_values (AvN a) (AvN b) CmpLt = Inr True \<Longrightarrow> number_value a < number_value b"
    and "compare_values (AvN a) (AvN b) CmpGt = Inr True \<Longrightarrow> number_value b < number_value a"
    and "number_value a \<le> number_value b \<Longrightarrow> compare_values (AvN a) (AvN b) CmpLe = Inr True"
    and "number_value b \<le> number_value a \<Longrightarrow> compare_values (AvN a) (AvN b) CmpGe = Inr True"
  using assms f64_less_sound f64_of_rat_mono by (auto simp: compare_numbers)

lemma f64_round_zero [simp]: "f64_round 0 = 0"
  by (simp add: f64_round_def)

lemma f64_of_rat_finite: "\<bar>f64_round x\<bar> < 2 ^ 1024 \<Longrightarrow> f64_of_rat x = F64_Fin (f64_round x)"
  by (simp add: f64_of_rat_def Let_def)

lemma f64_less_of_round:
  "f64_round x < f64_round y \<Longrightarrow> \<bar>f64_round x\<bar> < 2 ^ 1024 \<Longrightarrow> \<bar>f64_round y\<bar> < 2 ^ 1024 \<Longrightarrow>
     f64_less (f64_of_rat x) (f64_of_rat y)"
  by (simp add: f64_of_rat_finite)

lemma ilog2_powi [simp]: "ilog2 (2 powi k) = k"
proof -
  have b: "2 powi ilog2 (2 powi k) \<le> (2 :: rat) powi k" "(2 :: rat) powi k < 2 powi (ilog2 (2 powi k) + 1)"
    using ilog2_bounds [of "2 powi k"] by simp_all
  have "\<not> k < ilog2 (2 powi k)"
    using b(1) power_int_strict_increasing [of k "ilog2 (2 powi k)" "2 :: rat"] by linarith
  moreover have "\<not> ilog2 (2 powi k) + 1 \<le> k"
    using b(2) power_int_increasing [of "ilog2 (2 powi k) + 1" k "2 :: rat"] by linarith
  ultimately show ?thesis by linarith
qed

lemma f64_round_powi:
  assumes "- 1022 \<le> k" shows "f64_round (2 powi k) = 2 powi k"
proof -
  have e: "f64_ulp_exponent (2 powi k) = k - 52" using assms by (simp add: f64_ulp_exponent_def)
  have "(2 :: rat) powi k / 2 powi (k - 52) = of_int (2 ^ 52)"
    by (simp flip: power_int_diff)
  then show ?thesis
    unfolding f64_round_def e using powi_nat_mult [of "k - 52" k] by (simp add: round_half_even_int [of "2 ^ 52", simplified])
qed

lemma f64_round_small: "\<bar>z\<bar> \<le> 2 powi k \<Longrightarrow> - 1022 \<le> k \<Longrightarrow> \<bar>f64_round z\<bar> \<le> 2 powi k"
  using f64_round_mono [of z "2 powi k"] f64_round_mono [of "- (2 powi k)" z]
  by (simp add: f64_round_minus f64_round_powi abs_le_iff)

lemma powi_finite: "k \<le> 0 \<Longrightarrow> \<bar>x\<bar> \<le> 2 powi k \<Longrightarrow> \<bar>x\<bar> < (2 ^ 1024 :: rat)"
proof -
  assume k: "k \<le> 0" and x: "\<bar>x\<bar> \<le> 2 powi k"
  have "(2 :: rat) powi k \<le> 2 powi 0" by (intro power_int_increasing) (simp_all add: k)
  then have "\<bar>x\<bar> \<le> 1" using x by (simp only: power_int_0_right)
  moreover have "(1 :: rat) < 2 ^ 1024" by (rule one_less_power) simp_all
  ultimately show ?thesis by (rule le_less_trans)
qed

text \<open>Numbers below \<open>2 ^ -60\<close> are all equal for \<open>=\<close>.\<close>

lemma tiny_numbers_equal:
  assumes "\<bar>x\<bar> \<le> 2 powi (- 60)" "\<bar>y\<bar> \<le> 2 powi (- 60)"
  shows "f64_close (f64_of_rat x) (f64_of_rat y)"
proof -
  have x: "\<bar>f64_round x\<bar> \<le> 2 powi (- 60)" and y: "\<bar>f64_round y\<bar> \<le> 2 powi (- 60)"
    by (rule f64_round_small [OF assms(1)], simp, rule f64_round_small [OF assms(2)], simp)
  have "\<bar>f64_round x - f64_round y\<bar> \<le> 2 powi (- 60) + 2 powi (- 60)" using x y by linarith
  also have "\<dots> = 2 powi (- 59)" by (simp add: power_int_minus)
  finally have d: "\<bar>f64_round (f64_round x - f64_round y)\<bar> \<le> 2 powi (- 59)"
    by (intro f64_round_small) simp_all
  have "(2 :: rat) powi (- 59) < 2 powi (- 52)" by (rule power_int_strict_increasing) simp_all
  then have eps: "(2 :: rat) powi (- 59) < 1 / 2 ^ 52"
    by (simp only: power_int_minus power_int_numeral divide_inverse mult_1)
  have "f64_of_rat x = F64_Fin (f64_round x)" "f64_of_rat y = F64_Fin (f64_round y)"
    "f64_of_rat (f64_round x - f64_round y) = F64_Fin (f64_round (f64_round x - f64_round y))"
    by (intro f64_of_rat_finite powi_finite [OF _ x] powi_finite [OF _ y] powi_finite [OF _ d]; simp)+
  then show ?thesis using le_less_trans [OF d eps] by (simp add: f64_close_def f64_epsilon_def)
qed

section \<open>Panics of conditions\<close>

text \<open>The functions have as many arguments as they index.\<close>

fun arity_ok :: "expr \<Rightarrow> bool" where
  "arity_ok (ELogical op l r) = (arity_ok l \<and> arity_ok r)"
| "arity_ok (ENot e) = arity_ok e"
| "arity_ok (EFunction f args) =
     (f = FnSize \<or> args \<noteq> [] \<and> (f = FnAttributeExists \<or> f = FnAttributeNotExists \<or> 2 \<le> length args))"
| "arity_ok _ = True"

text \<open>No search for an empty binary value.\<close>

fun searches_empty_binary :: "eval_context \<Rightarrow> expr \<Rightarrow> bool" where
  "searches_empty_binary c (ELogical op l r) = (searches_empty_binary c l \<or> searches_empty_binary c r)"
| "searches_empty_binary c (ENot e) = searches_empty_binary c e"
| "searches_empty_binary c (EFunction FnContains (a # b # args)) =
     (resolve_operand c b = Inr (Some (AvB [])))"
| "searches_empty_binary c _ = False"

definition no_panic :: "eval_error + 'a \<Rightarrow> bool" where
  "no_panic r \<longleftrightarrow> r \<noteq> Inl Panicked"

lemma no_panic_simps [simp]:
  "no_panic (Inr x)" "no_panic (Inl (EvalError e))" "\<not> no_panic (Inl Panicked)"
  by (simp_all add: no_panic_def)

lemma no_panic_lift [simp]: "no_panic (lift_error r)"
  by (cases r) simp_all

lemma no_panic_map [simp]: "no_panic (res_map f r) = no_panic r"
  by (cases r) (simp_all add: no_panic_def)

lemma no_panic_bind: "no_panic r \<Longrightarrow> (\<And>x. r = Inr x \<Longrightarrow> no_panic (f x)) \<Longrightarrow> no_panic (res_bind r f)"
  by (cases r) (auto simp: no_panic_def)

lemma no_panic_arg [simp]: "no_panic (arg args i) \<longleftrightarrow> i < length args"
  by (simp add: arg_def)

lemma arg_Inr: "arg args i = Inr x \<longleftrightarrow> i < length args \<and> x = args ! i"
  by (auto simp: arg_def)

lemma no_panic_as_path [simp]: "no_panic (operand_as_path op name)"
  by (cases op) simp_all

lemma no_panic_prefix_constant [simp]: "no_panic (check_prefix_constant op r)"
  by (simp add: check_prefix_constant_def split: option.split)

lemma lift_error_Inr: "lift_error r = Inr x \<longleftrightarrow> r = Inr x"
  by (cases r) auto

lemma no_panic_attribute_type: "2 \<le> length args \<Longrightarrow> no_panic (eval_attribute_type c args)"
  unfolding eval_attribute_type_def
  by (auto intro!: no_panic_bind split: operand.split option.split attribute_value.split)

lemma no_panic_begins_with: "2 \<le> length args \<Longrightarrow> no_panic (eval_begins_with c args)"
  unfolding eval_begins_with_def
  by (auto intro!: no_panic_bind split: option.split attribute_value.split)

lemma no_panic_contains_value: "search \<noteq> AvB [] \<Longrightarrow> no_panic (contains_value attr search)"
  by (auto simp: contains_value_def split: attribute_value.split)

lemma no_panic_contains:
  "2 \<le> length args \<Longrightarrow> resolve_operand c (args ! 1) \<noteq> Inr (Some (AvB [])) \<Longrightarrow> no_panic (eval_contains c args)"
  unfolding eval_contains_def
  by (auto simp: arg_Inr lift_error_Inr intro!: no_panic_bind no_panic_contains_value split: option.split)

lemma no_panic_function:
  assumes "arity_ok (EFunction f args)" "\<not> searches_empty_binary c (EFunction f args)"
  shows "no_panic (eval_function c f args)"
proof (cases f)
  case FnContains
  then obtain a b xs where "args = a # b # xs"
    using assms(1) by (cases args; cases "tl args") auto
  then show ?thesis using assms(2) FnContains by (simp add: no_panic_contains)
qed (use assms in \<open>auto simp: no_panic_attribute_type no_panic_begins_with intro!: no_panic_bind\<close>)

lemma evaluate_no_panic:
  "arity_ok e \<Longrightarrow> \<not> searches_empty_binary c e \<Longrightarrow> no_panic (evaluate c e)"
proof (induction c e rule: evaluate.induct)
  case (7 c name args)
  then show ?case using no_panic_function by simp
next
  case (4 c l r)
  then show ?case unfolding evaluate.simps by (intro no_panic_bind) simp_all
next
  case (5 c l r)
  then show ?case unfolding evaluate.simps by (intro no_panic_bind) simp_all
qed simp_all

section \<open>The frame of an update\<close>

definition touched :: "(string, string) btree \<Rightarrow> attribute_path \<Rightarrow> string set" where
  "touched names p = (case p of PathAttr name # _ \<Rightarrow> {resolve_name_ref names name} | _ \<Rightarrow> {})"

lemma touched_simps [simp]:
  "touched names [] = {}" "touched names (PathIndex i # p) = {}"
  "touched names (PathAttr name # p) = {resolve_name_ref names name}"
  by (simp_all add: touched_def)

lemma set_path_frame:
  "set_path_value names p v it = Inr it' \<Longrightarrow> k \<notin> touched names p \<Longrightarrow> bt_get it' k = bt_get it k"
  by (cases "(names, p, v, it)" rule: set_path_value.cases)
    (auto simp: bt_get_insert res_map_Inr Let_def split: if_splits option.splits)

lemma remove_frame:
  "apply_remove names p it = Inr it' \<Longrightarrow> k \<notin> touched names p \<Longrightarrow> bt_get it' k = bt_get it k"
  by (cases "(names, p, it)" rule: apply_remove.cases)
    (auto simp: bt_get_insert bt_get_filter_out res_map_Inr Let_def split: if_splits option.splits)

lemma placeholder_ref: "placeholder names name = Some r \<Longrightarrow> resolve_name_ref names name = r"
  by (auto simp: placeholder_def resolve_name_ref_def split: if_splits)

lemma top_level_touched: "resolve_top_level_name p names = Inr r \<Longrightarrow> r \<in> touched names p"
  by (auto simp: resolve_top_level_name_def touched_def placeholder_ref
      split: list.splits path_element.splits option.splits)

lemma put_or_remove_frame: "k \<noteq> name \<Longrightarrow> bt_get (put_or_remove name f xs it) k = bt_get it k"
  by (simp add: put_or_remove_def bt_get_insert bt_get_filter_out)

lemma delete_action_frame:
  assumes "apply_delete_action c a it = Inr it'" "k \<notin> touched (ec_names c) (pa_path a)"
  shows "bt_get it' k = bt_get it k"
proof -
  obtain v r where v: "is_set_type v" and r: "resolve_top_level_name (pa_path a) (ec_names c) = Inr r"
    using assms(1) by (auto simp: apply_delete_action_def res_bind_Inr_iff split: if_splits)
  have "k \<noteq> r" using top_level_touched [OF r] assms(2) by blast
  then show ?thesis
    using assms(1) by (auto simp: apply_delete_action_def res_bind_Inr_iff r put_or_remove_frame
        split: if_splits option.splits attribute_value.splits)
qed

lemma set_action_frame:
  "apply_set_action c a it = Inr it' \<Longrightarrow> k \<notin> touched (ec_names c) (sa_path a) \<Longrightarrow> bt_get it' k = bt_get it k"
  by (auto simp: apply_set_action_def res_bind_Inr_iff intro: set_path_frame)

lemma add_action_frame:
  "apply_add_action c a it = Inr it' \<Longrightarrow> k \<notin> touched (ec_names c) (pa_path a) \<Longrightarrow> bt_get it' k = bt_get it k"
  by (auto simp: apply_add_action_def res_bind_Inr_iff intro: set_path_frame split: if_splits)

lemma apply_all_frame:
  assumes "\<And>x s s'. f x s = Inr s' \<Longrightarrow> P x \<Longrightarrow> g s' = g s"
  shows "apply_all f xs s = Inr s' \<Longrightarrow> \<forall>x\<in>set xs. P x \<Longrightarrow> g s' = g s"
  by (induction xs arbitrary: s) (auto simp: res_bind_Inr_iff dest!: assms)

definition update_touches :: "(string, string) btree \<Rightarrow> update_expr \<Rightarrow> string set" where
  "update_touches names u =
     (\<Union>a\<in>set (ue_set_actions u). touched names (sa_path a)) \<union>
     (\<Union>p\<in>set (ue_remove_paths u). touched names p) \<union>
     (\<Union>a\<in>set (ue_add_actions u). touched names (pa_path a)) \<union>
     (\<Union>a\<in>set (ue_delete_actions u). touched names (pa_path a))"

lemma update_frame:
  assumes "apply_update c u = Inr it'" "k \<notin> update_touches (ec_names c) u"
  shows "bt_get it' k = bt_get (ec_item c) k"
proof -
  obtain it1 it2 it3 where
    1: "apply_all (apply_set_action c) (sort_key (\<lambda>a. extract_last_index (sa_path a)) (ue_set_actions u))
        (ec_item c) = Inr it1"
    and 2: "apply_all (apply_remove (ec_names c)) (ue_remove_paths u) it1 = Inr it2"
    and 3: "apply_all (apply_add_action c) (ue_add_actions u) it2 = Inr it3"
    and 4: "apply_all (apply_delete_action c) (ue_delete_actions u) it3 = Inr it'"
    using assms(1) by (auto simp: apply_update_def res_bind_Inr_iff)
  have t: "\<forall>a\<in>set (ue_set_actions u). k \<notin> touched (ec_names c) (sa_path a)"
    "\<forall>p\<in>set (ue_remove_paths u). k \<notin> touched (ec_names c) p"
    "\<forall>a\<in>set (ue_add_actions u). k \<notin> touched (ec_names c) (pa_path a)"
    "\<forall>a\<in>set (ue_delete_actions u). k \<notin> touched (ec_names c) (pa_path a)"
    using assms(2) by (auto simp: update_touches_def)
  have "bt_get it1 k = bt_get (ec_item c) k"
    by (rule apply_all_frame [where g = "\<lambda>i. bt_get i k", OF set_action_frame 1]) (use t(1) in auto)
  moreover have "bt_get it2 k = bt_get it1 k"
    by (rule apply_all_frame [where g = "\<lambda>i. bt_get i k", OF remove_frame 2 t(2)])
  moreover have "bt_get it3 k = bt_get it2 k"
    by (rule apply_all_frame [where g = "\<lambda>i. bt_get i k", OF add_action_frame 3 t(3)])
  moreover have "bt_get it' k = bt_get it3 k"
    by (rule apply_all_frame [where g = "\<lambda>i. bt_get i k", OF delete_action_frame 4 t(4)])
  ultimately show ?thesis by simp
qed

section \<open>Assignments are simultaneous\<close>

lemma set_actions_value:
  assumes "apply_all (apply_set_action c) as it = Inr it'"
    and "a \<in> set as" "sa_path a = [PathAttr name]"
    and "\<forall>b\<in>set as. b \<noteq> a \<longrightarrow> resolve_name_ref (ec_names c) name \<notin> touched (ec_names c) (sa_path b)"
  shows "\<exists>v. resolve_set_value c (sa_value a) = Inr v \<and>
    bt_get it' (resolve_name_ref (ec_names c) name) = Some v"
  using assms(1,2,4)
proof (induction as arbitrary: it)
  case (Cons b as)
  obtain it1 where b: "apply_set_action c b it = Inr it1" "apply_all (apply_set_action c) as it1 = Inr it'"
    using Cons.prems(1) by (auto simp: res_bind_Inr_iff)
  show ?case
  proof (cases "a \<in> set as")
    case True
    then show ?thesis using Cons.IH [OF b(2)] Cons.prems(3) by simp
  next
    case False
    then have "b = a" using Cons.prems(2) by simp
    then obtain v where v: "resolve_set_value c (sa_value a) = Inr v"
      and "it1 = bt_insert (resolve_name_ref (ec_names c) name) v it"
      using b(1) assms(3) by (auto simp: apply_set_action_def res_bind_Inr_iff Let_def)
    then have "bt_get it1 (resolve_name_ref (ec_names c) name) = Some v" by (simp add: bt_get_insert)
    moreover have "bt_get it' (resolve_name_ref (ec_names c) name) = bt_get it1 (resolve_name_ref (ec_names c) name)"
      by (rule apply_all_frame [where g = "\<lambda>i. bt_get i (resolve_name_ref (ec_names c) name)",
            OF set_action_frame b(2)]) (use Cons.prems(3) False in auto)
    ultimately show ?thesis using v by simp
  qed
qed simp

lemma update_set_value:
  assumes "apply_update c u = Inr it'"
    and a: "a \<in> set (ue_set_actions u)" "sa_path a = [PathAttr name]"
    and out: "resolve_name_ref (ec_names c) name \<notin>
      update_touches (ec_names c) (u\<lparr>ue_set_actions := filter (\<lambda>b. b \<noteq> a) (ue_set_actions u)\<rparr>)"
  shows "\<exists>v. resolve_set_value c (sa_value a) = Inr v \<and>
    bt_get it' (resolve_name_ref (ec_names c) name) = Some v"
proof -
  define k where "k = resolve_name_ref (ec_names c) name"
  define as where "as = sort_key (\<lambda>a. extract_last_index (sa_path a)) (ue_set_actions u)"
  obtain it1 it2 it3 where
    1: "apply_all (apply_set_action c) as (ec_item c) = Inr it1"
    and 2: "apply_all (apply_remove (ec_names c)) (ue_remove_paths u) it1 = Inr it2"
    and 3: "apply_all (apply_add_action c) (ue_add_actions u) it2 = Inr it3"
    and 4: "apply_all (apply_delete_action c) (ue_delete_actions u) it3 = Inr it'"
    using assms(1) by (auto simp: apply_update_def res_bind_Inr_iff as_def)
  have t: "\<forall>b\<in>set as. b \<noteq> a \<longrightarrow> k \<notin> touched (ec_names c) (sa_path b)"
    "\<forall>p\<in>set (ue_remove_paths u). k \<notin> touched (ec_names c) p"
    "\<forall>a\<in>set (ue_add_actions u). k \<notin> touched (ec_names c) (pa_path a)"
    "\<forall>a\<in>set (ue_delete_actions u). k \<notin> touched (ec_names c) (pa_path a)"
    using out by (auto simp: update_touches_def k_def as_def)
  obtain v where v: "resolve_set_value c (sa_value a) = Inr v" "bt_get it1 k = Some v"
    using set_actions_value [OF 1 _ a(2)] a(1) t(1) by (auto simp: k_def as_def)
  have "bt_get it2 k = bt_get it1 k"
    by (rule apply_all_frame [where g = "\<lambda>i. bt_get i k", OF remove_frame 2 t(2)])
  moreover have "bt_get it3 k = bt_get it2 k"
    by (rule apply_all_frame [where g = "\<lambda>i. bt_get i k", OF add_action_frame 3 t(3)])
  moreover have "bt_get it' k = bt_get it3 k"
    by (rule apply_all_frame [where g = "\<lambda>i. bt_get i k", OF delete_action_frame 4 t(4)])
  ultimately show ?thesis using v by (simp add: k_def)
qed

section \<open>Assignment to an existing path\<close>

lemma walk_None [simp]: "walk_path names None p = None"
proof (cases p)
  case (Cons e q)
  then show ?thesis by (cases e) (auto split: option.split)
qed simp

lemma as_m_Some: "as_m v = Some m \<longleftrightarrow> v = AvM m"
  by (cases v) auto

lemma as_l_Some: "as_l v = Some l \<longleftrightarrow> v = AvL l"
  by (cases v) auto

lemma set_existing:
  assumes "p \<noteq> []" "walk_path names (Some cur) p = Some w"
  shows "validate_path_type names cur p = Inr () \<and>
    walk_path names (Some (set_value_in_container names cur p v)) p = Some v"
  using assms
proof (induction p arbitrary: cur)
  case (Cons e p)
  show ?case
  proof (cases e)
    case (PathAttr name)
    then obtain r m where r: "placeholder names name = Some r" and m: "cur = AvM m"
      and w: "walk_path names (bt_get m r) p = Some w"
      using Cons.prems(2) by (auto simp: as_m_Some split: option.splits Option.bind_splits)
    have ref: "resolve_name_ref names name = r" by (rule placeholder_ref [OF r])
    show ?thesis
    proof (cases "p = []")
      case False
      then obtain child where "bt_get m r = Some child" using w by (cases "bt_get m r") auto
      with Cons.IH [OF False, of child] w False show ?thesis
        by (simp add: PathAttr m ref r bt_get_insert)
    qed (simp add: PathAttr m ref r bt_get_insert)
  next
    case (PathIndex i)
    then obtain l where l: "cur = AvL l" and w: "walk_path names (list_get l i) p = Some w"
      using Cons.prems(2) by (auto simp: as_l_Some split: option.splits Option.bind_splits)
    then have i: "i < length l" by (auto simp: list_get_def split: if_splits)
    show ?thesis
    proof (cases "p = []")
      case False
      with Cons.IH [OF False, of "l ! i"] w i show ?thesis
        by (simp add: PathIndex l list_get_def)
    qed (use i in \<open>simp add: PathIndex l list_get_def\<close>)
  qed
qed simp

lemma set_then_get:
  assumes "resolve_path it names p = Some w"
  obtains it' where "set_path_value names p v it = Inr it'" "resolve_path it' names p = Some v"
proof -
  obtain name q r where p: "p = PathAttr name # q" and r: "placeholder names name = Some r"
    and w: "walk_path names (bt_get it r) q = Some w"
    using assms by (cases "(it, names, p)" rule: resolve_path.cases) (auto split: option.splits)
  have ref: "resolve_name_ref names name = r" by (rule placeholder_ref [OF r])
  obtain cur where cur: "bt_get it r = Some cur" using w by (cases "bt_get it r") auto
  show thesis
  proof (cases "q = []")
    case True
    then show thesis using that by (simp add: p r ref bt_get_insert)
  next
    case False
    from set_existing [OF False, of names cur w v] w cur False show thesis
      by (intro that) (auto simp: p r ref cur bt_get_insert)
  qed
qed

end
