(* ===== verification/Dynamo_Properties.thy ===== *)
theory Dynamo_Properties
  imports Dynamo_Print Dynamo_Decimal Dynamo_Expressions Dynamo_Grammar
begin

text \<open>
  The properties of the DynamoDB core, over the model's definitions, each with a witness that
  applies it to concrete data.
\<close>

section \<open>Numbers\<close>

text \<open>C16. Sort keys of type number are ordered by their exact decimal value, whatever their
  spelling: for two numbers that the service accepts, \<open>compare_number_strings\<close>, by which
  \<^verbatim>\<open>SortableAttributeValue\<close> orders its numbers, is the order of the rational numbers that they denote.
  (The documentation of \<^verbatim>\<open>SortableAttributeValue\<close> speaks of an order of \<^verbatim>\<open>f64\<close> values; the code does not
  convert the numbers, see \<open>key_order_is_not_f64\<close>.)\<close>

theorem key_order_exact:
  assumes "validate_number_string a" "validate_number_string b"
  shows "compare_number_strings a b = ord_cmp (number_value a) (number_value b)"
  using assms by (intro compare_number_strings_value valid_is_number)

theorem key_order_exact_witness:
  "compare_number_strings ''1.0'' ''-2E+3'' = ord_cmp (number_value ''1.0'') (number_value ''-2E+3'')"
  by (rule key_order_exact) code_simp+

text \<open>The order that the documentation promises, of the numbers parsed as \<^verbatim>\<open>f64\<close>, is another one: these
  two keys are the same \<^verbatim>\<open>f64\<close>, and different keys of a table.\<close>

lemma key_order_is_not_f64:
  "compare_number_strings ''9007199254740993'' ''9007199254740992'' = OrdGreater"
  by code_simp

text \<open>C17. Addition and subtraction are exact: when \<open>precise_arithmetic\<close> answers, and the aligned sum
  fits into the 128-bit integer that it is computed in, the answer is a number whose value is the
  exact sum or difference of its operands.\<close>

theorem arithmetic_exact:
  assumes "validate_number_string a" "validate_number_string b"
    and "precise_arithmetic a b add = Inr s"
    and "\<bar>number_value a + signed (\<not> add) (number_value b)\<bar> < 2 ^ 127 * 10 powi common_exponent a b"
  shows "is_number s \<and> number_value s = number_value a + signed (\<not> add) (number_value b)"
  by (rule precise_arithmetic_value [OF assms])

theorem arithmetic_exact_witness:
  "is_number ''3.75'' \<and> number_value ''3.75'' = number_value ''1.5'' + signed (\<not> True) (number_value ''2.25'')"
  by (rule arithmetic_exact [of "''1.5''" "''2.25''" True]) code_simp+

text \<open>Beyond that range the answer is wrong: the sum of two valid numbers of 38 digits wraps
  around and is reported as a negative number, where a sum of 39 digits should be rejected.\<close>

lemma arithmetic_wraps:
  "validate_number_string ''99999999999999999999999999999999999999'' \<and>
   validate_number_string ''99999999999999999999999999999999999997'' \<and>
   precise_arithmetic ''99999999999999999999999999999999999999'' ''99999999999999999999999999999999999997'' True
     = Inr ''-1.4028236692093846346337460743176821146E38''"
  by (intro conjI precise_arithmetic_wraps) code_simp+

section \<open>Expressions\<close>

text \<open>C18. The three expression parsers return on every text.\<close>

theorem expression_parsers_return:
  "parse_condition s \<noteq> None \<and> parse_update s \<noteq> None \<and> parse_projection s \<noteq> None"
  using parse_condition_returns parse_update_returns parse_projection_returns by blast

text \<open>C19. The condition parser accepts exactly the sentences of the grammar \<open>g_or\<close> of \<open>Dynamo_Grammar\<close>, with
  \<open>NOT\<close> before \<open>AND\<close> before \<open>OR\<close> and to the left, and returns the expression that they derive. This grammar
  is the one of the functions of \<^verbatim>\<open>parser.rs\<close>. It is not the grammar of the design document (section 10.2.1),
  which has \<^verbatim>\<open>size(path)\<close> as a condition and not as an operand, and gives each function its arguments; every
  other sentence of the document is accepted (\<open>documented_condition_accepted\<close>), and sentences that it
  does not have are accepted too (\<open>undocumented_conditions\<close>).\<close>

theorem condition_parser_grammar:
  "parse_condition s = Some (Inr e) \<longleftrightarrow> (\<exists>ts. tokenize s = Inr (ts @ [TkEof]) \<and> g_or e ts)"
  by (rule parse_condition_grammar)

lemma documented_condition_accepted:
  assumes "tokenize s = Inr (ts @ [TkEof])" "d_condition ts"
  shows "\<exists>e. parse_condition s = Some (Inr e)"
  using documented_accepted [OF assms(2)] assms(1) by (auto simp: parse_condition_grammar)

lemma undocumented_conditions:
  "list_all (\<lambda>s. case parse_condition s of Some (Inr _) \<Rightarrow> True | _ \<Rightarrow> False)
     [''size(a) > :n'', ''contains(a)'', ''begins_with(:v, a, b)'', ''a = :v and attribute_exists(b)'']"
  by code_simp

text \<open>The document's condition \<^verbatim>\<open>size(path)\<close> is refused. So is the name of a function in capital letters, although
  the comment at the head of \<^verbatim>\<open>parser.rs\<close> says that function names are matched case-insensitively.\<close>

lemma refused_conditions:
  "list_all (\<lambda>s. case parse_condition s of Some (Inl _) \<Rightarrow> True | _ \<Rightarrow> False)
     [''size(a)'', ''ATTRIBUTE_EXISTS(a)'']"
  by code_simp

text \<open>C20. A condition printed with the fewest parentheses is read back unchanged.\<close>

theorem condition_print_parse:
  assumes "expr_ok e" shows "parse_condition (condition_text e) = Some (Inr e)"
  by (rule condition_round_trip [OF assms])

definition demo_condition :: expr where
  "demo_condition =
     ELogical LogAnd
       (ELogical LogOr (ECompare (OpPath [PathAttr ''a'', PathIndex 2]) CmpLe (OpValue ''v''))
          (ENot (EIn (OpSize (OpPath [PathAttr ''#n''])) [OpValue ''v'', OpPath [PathAttr ''b'']])))
       (EFunction FnContains [OpPath [PathAttr ''c''], OpValue ''v''])"

theorem condition_print_parse_witness:
  "parse_condition (condition_text demo_condition) = Some (Inr demo_condition)"
proof (rule condition_print_parse)
  have "attr_name_ok ''a'' \<and> attr_name_ok ''#n'' \<and> attr_name_ok ''b'' \<and> attr_name_ok ''c'' \<and> reference_name ''v''"
    by code_simp
  then show "expr_ok demo_condition" by (simp add: demo_condition_def i32_max_def)
qed

text \<open>C21. A numeric condition agrees with the exact order as far as binary floating point can tell:
  \<open><\<close> and \<open>>\<close> hold only for operands in that order, and \<open>\<le>\<close> and \<open>\<ge>\<close> hold whenever the operands
  are.\<close>

theorem numeric_conditions_ordered:
  assumes "validate_number_string a" "validate_number_string b"
  shows "(compare_values (AvN a) (AvN b) CmpLt = Inr True \<longrightarrow> number_value a < number_value b) \<and>
    (compare_values (AvN a) (AvN b) CmpGt = Inr True \<longrightarrow> number_value b < number_value a) \<and>
    (number_value a \<le> number_value b \<longrightarrow> compare_values (AvN a) (AvN b) CmpLe = Inr True) \<and>
    (number_value b \<le> number_value a \<longrightarrow> compare_values (AvN a) (AvN b) CmpGe = Inr True)"
  using compare_numbers_order [OF valid_is_number [OF assms(1)] valid_is_number [OF assms(2)]] by blast

theorem numeric_conditions_ordered_witness:
  "number_value ''-7'' \<le> number_value ''0.5'' \<and> compare_values (AvN ''-7'') (AvN ''0.5'') CmpLe = Inr True"
proof -
  have v: "validate_number_string ''-7''" "validate_number_string ''0.5''" by code_simp+
  have "number_value ''-7'' \<le> number_value ''0.5''" by code_simp
  with numeric_conditions_ordered [OF v] show ?thesis by blast
qed

text \<open>Equality of numbers compares floating-point values up to an absolute tolerance, so that it
  holds of different numbers: \<open>1E-20\<close> is below \<open>1E-19\<close>, and also equal to it.\<close>

lemma small_numbers_are_equal:
  "compare_values (AvN ''1E-20'') (AvN ''1E-19'') CmpEq = Inr True \<and>
   compare_values (AvN ''1E-20'') (AvN ''1E-19'') CmpLt = Inr True"
proof -
  have v: "is_number ''1E-20''" "is_number ''1E-19''" by code_simp+
  have i: "show_int (- 20) = ''-20''" "show_int (- 19) = ''-19''"
    by (simp_all add: show_int_def show_nat.simps digit_char_def char_of_def bit_Suc_0_iff)
  have t: "number_text False ''1'' [] (- 20) ''1E-20''" "number_text False ''1'' [] (- 19) ''1E-19''"
    using number_text.intros(3) [of False "''1''" "- 20"] number_text.intros(3) [of False "''1''" "- 19"]
    by (simp_all add: sign_text_def i)
  have d: "is_ascii_digit CHR ''1''" "string_nat ''1'' = 1" by code_simp+
  have 1: "number_value ''1E-20'' = signed False (of_nat (string_nat (''1'' @ [])) * 10 powi (- 20 - int (length ([] :: string))))"
    by (rule conjunct2 [OF number_text_value [OF t(1)]]) (simp_all add: sign_text_def i d)
  have 2: "number_value ''1E-19'' = signed False (of_nat (string_nat (''1'' @ [])) * 10 powi (- 19 - int (length ([] :: string))))"
    by (rule conjunct2 [OF number_text_value [OF t(2)]]) (simp_all add: sign_text_def i d)
  have n: "number_value ''1E-20'' = 10 powi (- 20)" "number_value ''1E-19'' = 10 powi (- 19)"
    unfolding 1 2 by (simp_all add: d)
  have p: "(10 :: rat) powi (- 20) = 1 / 10 ^ 20" "(10 :: rat) powi (- 19) = 1 / 10 ^ 19"
    "(2 :: rat) powi (- 60) = 1 / 2 ^ 60" "(2 :: rat) powi (- 66) = 1 / 2 ^ 66" "(2 :: rat) powi (- 64) = 1 / 2 ^ 64"
    by (simp_all only: power_int_minus power_int_numeral inverse_eq_divide)
  have small: "\<bar>10 powi (- 20) :: rat\<bar> \<le> 2 powi (- 60)" "\<bar>10 powi (- 19) :: rat\<bar> \<le> 2 powi (- 60)"
    unfolding p by simp_all
  have "f64_round (10 powi (- 20)) \<le> f64_round (2 powi (- 66))"
    "f64_round (2 powi (- 64)) \<le> f64_round (10 powi (- 19))"
    by (intro f64_round_mono; unfold p; simp)+
  moreover have "f64_round (2 powi (- 66)) = 2 powi (- 66)" "f64_round (2 powi (- 64)) = 2 powi (- 64)"
    by (rule f64_round_powi; simp)+
  moreover have "(2 :: rat) powi (- 66) < 2 powi (- 64)" by (rule power_int_strict_increasing) simp_all
  ultimately have "f64_round (10 powi (- 20)) < f64_round (10 powi (- 19))" by linarith
  then have less: "f64_less (f64_of_rat (10 powi (- 20))) (f64_of_rat (10 powi (- 19)))"
    by (rule f64_less_of_round) (rule powi_finite [OF _ f64_round_small [OF small(1)]] powi_finite [OF _ f64_round_small [OF small(2)]]; simp)+
  show ?thesis
    unfolding compare_numbers [OF v] n compare_f64.simps
    using tiny_numbers_equal [OF small] less by blast
qed

text \<open>C22. Evaluating a condition never panics when every function has the arguments that it
  reads, and \<open>contains\<close> does not search for an empty binary value.\<close>

theorem condition_never_panics:
  assumes "arity_ok e" "\<not> searches_empty_binary c e"
  shows "evaluate c e \<noteq> Inl Panicked"
  using evaluate_no_panic [OF assms] by (simp add: no_panic_def)

definition demo_item :: item where
  "demo_item = [(''a'', AvN ''1''), (''b'', AvL [AvS ''x'', AvM [(''c'', AvBool True)]])]"

definition demo_context :: eval_context where
  "demo_context = \<lparr>ec_item = demo_item, ec_names = [(''#n'', ''b'')],
     ec_values = [('':v'', AvS ''x''), ('':w'', AvN ''2'')]\<rparr>"

theorem condition_never_panics_witness:
  "evaluate demo_context demo_condition \<noteq> Inl Panicked"
  by (rule condition_never_panics) code_simp+

text \<open>The parser does not check the number of arguments: \<open>begins_with\<close> with one argument is
  accepted, and evaluating it panics whatever the item.\<close>

lemma missing_argument_panics:
  "\<exists>e. parse_condition ''begins_with(a)'' = Some (Inr e) \<and> evaluate c e = Inl Panicked"
proof -
  have "parse_condition ''begins_with(a)'' = Some (Inr (EFunction FnBeginsWith [OpPath [PathAttr ''a'']]))"
    by code_simp
  moreover have "evaluate c (EFunction FnBeginsWith [OpPath [PathAttr ''a'']]) = Inl Panicked"
    by (simp add: eval_begins_with_def arg_def)
  ultimately show ?thesis by blast
qed

section \<open>Updates\<close>

text \<open>C23. An update changes no attribute that none of its actions names.\<close>

theorem update_changes_named_only:
  assumes "apply_update c u = Inr it'" "k \<notin> update_touches (ec_names c) u"
  shows "bt_get it' k = bt_get (ec_item c) k"
  by (rule update_frame [OF assms])

text \<open>The update \<open>SET a = #n, b = a REMOVE d\<close>, with \<open>#n\<close> for \<open>b\<close>.\<close>

definition demo_update :: update_expr where
  "demo_update = \<lparr>
     ue_set_actions = [\<lparr>sa_path = [PathAttr ''a''], sa_value = SvOperand (OpPath [PathAttr ''#n''])\<rparr>,
       \<lparr>sa_path = [PathAttr ''b''], sa_value = SvOperand (OpPath [PathAttr ''a''])\<rparr>],
     ue_remove_paths = [[PathAttr ''d'']], ue_add_actions = [], ue_delete_actions = []\<rparr>"

definition demo_swapped :: item where
  "demo_swapped = [(''a'', AvL [AvS ''x'', AvM [(''c'', AvBool True)]]), (''b'', AvN ''1'')]"

lemma demo_update_result: "apply_update demo_context demo_update = Inr demo_swapped"
  by (simp add: apply_update_def demo_update_def demo_context_def demo_item_def demo_swapped_def
      apply_set_action_def operand_value_def placeholder_def resolve_name_ref_def starts_with_def
      extract_last_index_def usize_max_def bt_remove_def Let_def)

theorem update_changes_named_only_witness:
  "bt_get demo_swapped ''z'' = bt_get (ec_item demo_context) ''z''"
  by (rule update_changes_named_only [OF demo_update_result])
    (simp add: update_touches_def demo_update_def touched_def resolve_name_ref_def starts_with_def)

text \<open>The assignments of a SET clause are simultaneous: an attribute that one action assigns, and
  no other action names, ends with the value that the right-hand side has in the item before the
  update.\<close>

theorem set_is_simultaneous:
  assumes "apply_update c u = Inr it'"
    and "a \<in> set (ue_set_actions u)" "sa_path a = [PathAttr name]"
    and "resolve_name_ref (ec_names c) name \<notin>
      update_touches (ec_names c) (u\<lparr>ue_set_actions := filter (\<lambda>b. b \<noteq> a) (ue_set_actions u)\<rparr>)"
  shows "\<exists>v. resolve_set_value c (sa_value a) = Inr v \<and>
    bt_get it' (resolve_name_ref (ec_names c) name) = Some v"
  by (rule update_set_value [OF assms])

theorem set_is_simultaneous_witness:
  "\<exists>v. resolve_set_value demo_context (SvOperand (OpPath [PathAttr ''a''])) = Inr v \<and>
     bt_get demo_swapped (resolve_name_ref (ec_names demo_context) ''b'') = Some v"
  using set_is_simultaneous [OF demo_update_result,
      of "\<lparr>sa_path = [PathAttr ''b''], sa_value = SvOperand (OpPath [PathAttr ''a''])\<rparr>" "''b''"]
  by (simp add: update_touches_def demo_update_def touched_def resolve_name_ref_def starts_with_def)

text \<open>Assigning to a document path that exists succeeds, and the path then reads the assigned
  value.\<close>

theorem set_path_then_read:
  assumes "resolve_path it names p = Some w"
  shows "\<exists>it'. set_path_value names p v it = Inr it' \<and> resolve_path it' names p = Some v"
  using set_then_get [OF assms] by metis

theorem set_path_then_read_witness:
  "\<exists>it'. set_path_value [(''#n'', ''b'')] [PathAttr ''#n'', PathIndex 1, PathAttr ''c''] (AvS ''new'') demo_item = Inr it' \<and>
     resolve_path it' [(''#n'', ''b'')] [PathAttr ''#n'', PathIndex 1, PathAttr ''c''] = Some (AvS ''new'')"
proof (rule set_path_then_read)
  show "resolve_path demo_item [(''#n'', ''b'')] [PathAttr ''#n'', PathIndex 1, PathAttr ''c''] = Some (AvBool True)"
    by (simp add: demo_item_def placeholder_def starts_with_def list_get_def)
qed

text \<open>A projection of paths through different elements of a list merges the elements: asking for
  \<open>l[0].a\<close> and \<open>l[1].b\<close> returns one element that has both attributes.\<close>

lemma projection_merges_elements:
  "apply_projection
     \<lparr>ec_item = [(''l'', AvL [AvM [(''a'', x)], AvM [(''b'', y)]])], ec_names = [], ec_values = []\<rparr>
     [[PathAttr ''l'', PathIndex 0, PathAttr ''a''], [PathAttr ''l'', PathIndex 1, PathAttr ''b'']]
   = [(''l'', AvL [AvM [(''a'', x), (''b'', y)]])]"
  by (simp add: apply_projection_def project_path_def placeholder_def starts_with_def list_get_def
      resolve_top_level_name_opt_def deep_insert_def resolve_element_def resolve_name_ref_def)

end
