(* ===== verification/Dynamo_Storage.thy ===== *)
theory Dynamo_Storage
  imports Dynamo_Types Dynamo_Number
begin

text \<open>
  The storage of one table (\<^verbatim>\<open>storage.rs\<close>): partitions by partition key, and in each a \<^verbatim>\<open>BTreeMap\<close>
  ordered by the comparison of sort keys. Two sort keys that compare equal are one key, also when
  they are spelled differently. The map of partitions is a \<^verbatim>\<open>DashMap\<close>: a list in the order in which
  the partitions appeared, with the iteration order an argument of the operations that iterate.
  The atomic counters are natural numbers; \<open>storage_wf\<close> shows that they never wrap below zero.

  Requests reach a table one at a time (\<^verbatim>\<open>coordination.rs\<close>). \<open>None\<close> as a result is a panic:
  \<^verbatim>\<open>BTreeMap::range\<close> panics on an inverted range, and on an empty one that excludes both ends.
\<close>

section \<open>Keys\<close>

datatype scalar_type = ScalarS | ScalarN | ScalarB

record key_attribute =
  ka_name :: string
  ka_type :: scalar_type

record key_schema =
  ks_partition_key :: key_attribute
  ks_sort_key :: "key_attribute option"

datatype sort_value = SkS string | SkN string | SkB string | SkSentinel

record primary_key =
  pk_partition_key :: attribute_value
  pk_sort_key :: "sort_value option"

datatype storage_error = MissingKeyAttribute string | InvalidKeyType string

fun to_attribute_value :: "sort_value \<Rightarrow> attribute_value option" where
  "to_attribute_value (SkS s) = Some (AvS s)"
| "to_attribute_value (SkN n) = Some (AvN n)"
| "to_attribute_value (SkB b) = Some (AvB b)"
| "to_attribute_value SkSentinel = None"

fun from_attribute_value :: "string \<Rightarrow> attribute_value \<Rightarrow> storage_error + sort_value" where
  "from_attribute_value name (AvS s) = Inr (SkS s)"
| "from_attribute_value name (AvN n) = Inr (SkN n)"
| "from_attribute_value name (AvB b) = Inr (SkB b)"
| "from_attribute_value name _ = Inl (InvalidKeyType name)"

fun sk_cmp :: "sort_value \<Rightarrow> sort_value \<Rightarrow> ordering" where
  "sk_cmp (SkS a) (SkS b) = ord_cmp a b"
| "sk_cmp (SkN a) (SkN b) = compare_number_strings a b"
| "sk_cmp (SkB a) (SkB b) = ord_cmp a b"
| "sk_cmp SkSentinel SkSentinel = OrdEqual"
| "sk_cmp (SkS _) _ = OrdLess"
| "sk_cmp _ (SkS _) = OrdGreater"
| "sk_cmp (SkN _) _ = OrdLess"
| "sk_cmp _ (SkN _) = OrdGreater"
| "sk_cmp (SkB _) _ = OrdLess"
| "sk_cmp _ (SkB _) = OrdGreater"

fun validate_key_type :: "string \<Rightarrow> scalar_type \<Rightarrow> attribute_value \<Rightarrow> storage_error + unit" where
  "validate_key_type name ScalarS (AvS _) = Inr ()"
| "validate_key_type name ScalarN (AvN _) = Inr ()"
| "validate_key_type name ScalarB (AvB _) = Inr ()"
| "validate_key_type name _ _ = Inl (InvalidKeyType name)"

definition key_attribute_value :: "key_attribute \<Rightarrow> item \<Rightarrow> storage_error + attribute_value" where
  "key_attribute_value ka it =
     (case bt_get it (ka_name ka) of
        None \<Rightarrow> Inl (MissingKeyAttribute (ka_name ka))
      | Some v \<Rightarrow> res_map (\<lambda>_. v) (validate_key_type (ka_name ka) (ka_type ka) v))"

definition extract_primary_key :: "key_schema \<Rightarrow> item \<Rightarrow> storage_error + primary_key" where
  "extract_primary_key ks it =
     res_bind (key_attribute_value (ks_partition_key ks) it) (\<lambda>pk.
       case ks_sort_key ks of
         None \<Rightarrow> Inr \<lparr>pk_partition_key = pk, pk_sort_key = None\<rparr>
       | Some sk \<Rightarrow>
           res_bind (key_attribute_value sk it) (\<lambda>v.
             res_map (\<lambda>s. \<lparr>pk_partition_key = pk, pk_sort_key = Some s\<rparr>)
               (from_attribute_value (ka_name sk) v)))"

section \<open>Sizes\<close>

definition number_size :: "string \<Rightarrow> nat" where
  "number_size n = (length n + 1) div 2 + 1"

fun calculate_value_size :: "attribute_value \<Rightarrow> nat" where
  "calculate_value_size (AvS s) = length s"
| "calculate_value_size (AvN n) = number_size n"
| "calculate_value_size (AvB b) = length b"
| "calculate_value_size (AvBool _) = 1"
| "calculate_value_size (AvNull _) = 1"
| "calculate_value_size (AvSs v) = sum_list (map length v)"
| "calculate_value_size (AvNs v) = sum_list (map number_size v)"
| "calculate_value_size (AvBs v) = sum_list (map length v)"
| "calculate_value_size (AvL l) = 3 + sum_list (map (\<lambda>e. 1 + calculate_value_size e) l)"
| "calculate_value_size (AvM m) =
     3 + sum_list (map (\<lambda>kv. length (fst kv) + 1 + calculate_value_size (snd kv)) m)"

definition calculate_item_size :: "item \<Rightarrow> nat" where
  "calculate_item_size it = sum_list (map (\<lambda>kv. length (fst kv) + calculate_value_size (snd kv)) it)"

section \<open>Ordered maps\<close>

text \<open>\<^verbatim>\<open>BTreeMap\<close> with \<^verbatim>\<open>Ord\<close> given by \<open>sk_cmp\<close>. Inserting at an equal key replaces the value and keeps
  the old key.\<close>

type_synonym partition = "(sort_value \<times> item) list"

fun om_get :: "sort_value \<Rightarrow> partition \<Rightarrow> item option" where
  "om_get k [] = None"
| "om_get k (e # m) = (if sk_cmp k (fst e) = OrdEqual then Some (snd e) else om_get k m)"

fun om_insert :: "sort_value \<Rightarrow> item \<Rightarrow> partition \<Rightarrow> partition" where
  "om_insert k v [] = [(k, v)]"
| "om_insert k v (e # m) =
     (case sk_cmp k (fst e) of
        OrdLess \<Rightarrow> (k, v) # e # m
      | OrdEqual \<Rightarrow> (fst e, v) # m
      | OrdGreater \<Rightarrow> e # om_insert k v m)"

fun om_remove :: "sort_value \<Rightarrow> partition \<Rightarrow> partition" where
  "om_remove k [] = []"
| "om_remove k (e # m) = (if sk_cmp k (fst e) = OrdEqual then m else e # om_remove k m)"

datatype 'k bound = Unbounded | Included 'k | Excluded 'k

fun above :: "sort_value bound \<Rightarrow> sort_value \<Rightarrow> bool" where
  "above Unbounded k = True"
| "above (Included l) k = (sk_cmp k l \<noteq> OrdLess)"
| "above (Excluded l) k = (sk_cmp k l = OrdGreater)"

fun below :: "sort_value bound \<Rightarrow> sort_value \<Rightarrow> bool" where
  "below Unbounded k = True"
| "below (Included u) k = (sk_cmp k u \<noteq> OrdGreater)"
| "below (Excluded u) k = (sk_cmp k u = OrdLess)"

fun range_panics :: "sort_value bound \<Rightarrow> sort_value bound \<Rightarrow> bool" where
  "range_panics (Excluded l) (Excluded u) = (sk_cmp l u \<noteq> OrdLess)"
| "range_panics (Excluded l) (Included u) = (sk_cmp l u = OrdGreater)"
| "range_panics (Included l) (Excluded u) = (sk_cmp l u = OrdGreater)"
| "range_panics (Included l) (Included u) = (sk_cmp l u = OrdGreater)"
| "range_panics _ _ = False"

definition om_range :: "sort_value bound \<Rightarrow> sort_value bound \<Rightarrow> partition \<Rightarrow> partition option" where
  "om_range lo hi m =
     (if range_panics lo hi then None else Some (filter (\<lambda>e. above lo (fst e) \<and> below hi (fst e)) m))"

section \<open>The table\<close>

record table_storage =
  ts_data :: "(attribute_value \<times> partition) list"
  ts_key_schema :: key_schema
  ts_item_count :: nat
  ts_total_size :: nat

definition new_storage :: "key_schema \<Rightarrow> table_storage" where
  "new_storage ks = \<lparr>ts_data = [], ts_key_schema = ks, ts_item_count = 0, ts_total_size = 0\<rparr>"

definition get_partition :: "(attribute_value \<times> partition) list \<Rightarrow> attribute_value \<Rightarrow> partition option" where
  "get_partition data pk = map_of data pk"

fun set_partition ::
    "attribute_value \<Rightarrow> partition \<Rightarrow> (attribute_value \<times> partition) list \<Rightarrow> (attribute_value \<times> partition) list" where
  "set_partition pk p [] = [(pk, p)]"
| "set_partition pk p (e # data) = (if fst e = pk then (pk, p) # data else e # set_partition pk p data)"

definition sort_key_of :: "primary_key \<Rightarrow> sort_value" where
  "sort_key_of k = unwrap_or SkSentinel (pk_sort_key k)"

definition put_prepared :: "primary_key \<Rightarrow> item \<Rightarrow> table_storage \<Rightarrow> item option \<times> table_storage" where
  "put_prepared k it s =
     (let part = unwrap_or [] (get_partition (ts_data s) (pk_partition_key k));
          old = om_get (sort_key_of k) part;
          s' = s\<lparr>ts_data := set_partition (pk_partition_key k) (om_insert (sort_key_of k) it part) (ts_data s)\<rparr>
      in (case old of
            Some o' \<Rightarrow>
              (Some o', s'\<lparr>ts_total_size := ts_total_size s + calculate_item_size it - calculate_item_size o'\<rparr>)
          | None \<Rightarrow>
              (None, s'\<lparr>ts_item_count := ts_item_count s + 1,
                        ts_total_size := ts_total_size s + calculate_item_size it\<rparr>)))"

definition put_item :: "item \<Rightarrow> table_storage \<Rightarrow> storage_error + item option \<times> table_storage" where
  "put_item it s =
     res_map (\<lambda>k. put_prepared k it s) (extract_primary_key (ts_key_schema s) it)"

definition get_item :: "primary_key \<Rightarrow> table_storage \<Rightarrow> item option" where
  "get_item k s =
     Option.bind (get_partition (ts_data s) (pk_partition_key k)) (om_get (sort_key_of k))"

definition delete_item :: "primary_key \<Rightarrow> table_storage \<Rightarrow> item option \<times> table_storage" where
  "delete_item k s =
     (case get_partition (ts_data s) (pk_partition_key k) of
        None \<Rightarrow> (None, s)
      | Some part \<Rightarrow>
          (case om_get (sort_key_of k) part of
             None \<Rightarrow> (None, s)
           | Some it \<Rightarrow>
               (Some it, s\<lparr>ts_data := set_partition (pk_partition_key k) (om_remove (sort_key_of k) part) (ts_data s),
                          ts_item_count := ts_item_count s - 1,
                          ts_total_size := ts_total_size s - calculate_item_size it\<rparr>)))"

section \<open>Query\<close>

datatype sort_key_condition =
    CondEq sort_value
  | CondLt sort_value
  | CondLe sort_value
  | CondGt sort_value
  | CondGe sort_value
  | CondBetween sort_value sort_value
  | CondBeginsWithStr string
  | CondBeginsWithBytes string

fun prefix_matches :: "sort_key_condition \<Rightarrow> sort_value \<Rightarrow> bool" where
  "prefix_matches (CondBeginsWithStr prefix) (SkS s) = starts_with s prefix"
| "prefix_matches (CondBeginsWithBytes prefix) (SkB b) = starts_with b prefix"
| "prefix_matches _ _ = False"

fun condition_matches :: "sort_key_condition \<Rightarrow> sort_value \<Rightarrow> bool" where
  "condition_matches (CondEq v) k = (sk_cmp k v = OrdEqual)"
| "condition_matches (CondLt v) k = (sk_cmp k v = OrdLess)"
| "condition_matches (CondLe v) k = (sk_cmp k v \<noteq> OrdGreater)"
| "condition_matches (CondGt v) k = (sk_cmp k v = OrdGreater)"
| "condition_matches (CondGe v) k = (sk_cmp k v \<noteq> OrdLess)"
| "condition_matches (CondBetween lo hi) k = (sk_cmp k lo \<noteq> OrdLess \<and> sk_cmp k hi \<noteq> OrdGreater)"
| "condition_matches c k = prefix_matches c k"

definition directed :: "bool \<Rightarrow> 'a list \<Rightarrow> 'a list" where
  "directed scan_forward xs = (if scan_forward then xs else rev xs)"

text \<open>The range from the start key on, in the direction of the query.\<close>

definition collect_all_in_order :: "partition \<Rightarrow> bool \<Rightarrow> sort_value option \<Rightarrow> partition option" where
  "collect_all_in_order m scan_forward start =
     map_option (directed scan_forward)
       (case start of
          None \<Rightarrow> Some m
        | Some k \<Rightarrow>
            if scan_forward then om_range (Excluded k) Unbounded m else om_range Unbounded (Excluded k) m)"

fun bound_key :: "'k bound \<Rightarrow> 'k option" where
  "bound_key Unbounded = None"
| "bound_key (Included k) = Some k"
| "bound_key (Excluded k) = Some k"

definition raise_lower :: "sort_value bound \<Rightarrow> sort_value option \<Rightarrow> sort_value bound" where
  "raise_lower lower start =
     (case start of
        None \<Rightarrow> lower
      | Some k \<Rightarrow>
          (case bound_key lower of
             None \<Rightarrow> Excluded k
           | Some l \<Rightarrow> if sk_cmp k l \<noteq> OrdLess then Excluded k else lower))"

definition cut_upper :: "sort_value bound \<Rightarrow> sort_value option \<Rightarrow> sort_value bound" where
  "cut_upper upper start =
     (case start of
        None \<Rightarrow> upper
      | Some k \<Rightarrow>
          (case bound_key upper of
             None \<Rightarrow> Excluded k
           | Some u \<Rightarrow> if sk_cmp k u \<noteq> OrdGreater then Excluded k else upper))"

definition collect_range ::
    "partition \<Rightarrow> sort_value bound \<Rightarrow> sort_value bound \<Rightarrow> bool \<Rightarrow> sort_value option \<Rightarrow> partition option" where
  "collect_range m lower upper scan_forward start =
     map_option (directed scan_forward)
       (if scan_forward then om_range (raise_lower lower start) upper m
        else om_range lower (cut_upper upper start) m)"

text \<open>The bound above all texts with a prefix: the prefix without trailing \<^verbatim>\<open>0xFF\<close>, its last byte
  incremented.\<close>

definition increment_last :: "string \<Rightarrow> string option" where
  "increment_last prefix =
     (let s = rev (dropWhile (\<lambda>c. byte_of c = 255) (rev prefix))
      in if s = [] then None else Some (butlast s @ [char_of (byte_of (last s) + 1)]))"

text \<open>\<^verbatim>\<open>String::from_utf8_lossy\<close>: whether the bytes start with a character, and the length of that
  character or of the longest prefix of one, which is replaced by \<^verbatim>\<open>U+FFFD\<close>.\<close>

definition utf8_second :: "nat \<Rightarrow> nat \<Rightarrow> bool" where
  "utf8_second a b \<longleftrightarrow> utf8_cont b \<and> (a = 224 \<longrightarrow> 160 \<le> b) \<and> (a = 237 \<longrightarrow> b < 160) \<and>
     (a = 240 \<longrightarrow> 144 \<le> b) \<and> (a = 244 \<longrightarrow> b < 144)"

definition starts_cont :: "nat list \<Rightarrow> bool" where
  "starts_cont s = (case s of [] \<Rightarrow> False | b # _ \<Rightarrow> utf8_cont b)"

definition starts_second :: "nat \<Rightarrow> nat list \<Rightarrow> bool" where
  "starts_second a s = (case s of [] \<Rightarrow> False | b # _ \<Rightarrow> utf8_second a b)"

fun char_split :: "nat list \<Rightarrow> bool \<times> nat" where
  "char_split [] = (True, 0)"
| "char_split (a # s) =
     (if a < 128 then (True, 1)
      else if 194 \<le> a \<and> a < 224 then if starts_cont s then (True, 2) else (False, 1)
      else if 224 \<le> a \<and> a < 240 then
        if \<not> starts_second a s then (False, 1)
        else if \<not> starts_cont (tl s) then (False, 2) else (True, 3)
      else if 240 \<le> a \<and> a < 245 then
        if \<not> starts_second a s then (False, 1)
        else if \<not> starts_cont (tl s) then (False, 2)
        else if \<not> starts_cont (tl (tl s)) then (False, 3) else (True, 4)
      else (False, 1))"

lemma char_split_pos: "s \<noteq> [] \<Longrightarrow> 0 < snd (char_split s)"
  by (cases s) auto

function utf8_lossy :: "nat list \<Rightarrow> nat list" where
  "utf8_lossy s =
     (if s = [] then []
      else let (ok, n) = char_split s
           in (if ok then take n s else [239, 191, 189]) @ utf8_lossy (drop n s))"
  by auto
termination
proof (relation "measure length")
  fix s :: "nat list" and x ok n
  assume "s \<noteq> []" "x = char_split s" "(ok, n) = x"
  then show "(drop n s, s) \<in> measure length"
    using char_split_pos [of s] by (cases "char_split s") auto
qed simp

declare utf8_lossy.simps [simp del]

definition from_utf8_lossy :: "string \<Rightarrow> string" where
  "from_utf8_lossy s = map char_of (utf8_lossy (map byte_of s))"

definition compute_str_prefix_upper_bound :: "string \<Rightarrow> sort_value option" where
  "compute_str_prefix_upper_bound prefix = map_option (\<lambda>s. SkS (from_utf8_lossy s)) (increment_last prefix)"

definition compute_bytes_prefix_upper_bound :: "string \<Rightarrow> sort_value option" where
  "compute_bytes_prefix_upper_bound prefix = map_option SkB (increment_last prefix)"

text \<open>\<^verbatim>\<open>collect_begins_with_str\<close> and \<^verbatim>\<open>collect_begins_with_bytes\<close>, which differ in the start, the upper
  bound and the test.\<close>

definition collect_begins_with ::
    "partition \<Rightarrow> sort_value \<Rightarrow> sort_value option \<Rightarrow> (sort_value \<Rightarrow> bool) \<Rightarrow> bool \<Rightarrow> sort_value option \<Rightarrow>
     partition option" where
  "collect_begins_with m start upper matching scan_forward esk =
     (let lower_bound = (case esk of
            Some k \<Rightarrow> if scan_forward \<and> sk_cmp k start \<noteq> OrdLess then Excluded k else Included start
          | None \<Rightarrow> Included start);
          upper_bound = (case upper of
            Some ub \<Rightarrow> (case esk of
                Some k \<Rightarrow> if \<not> scan_forward \<and> sk_cmp k ub \<noteq> OrdGreater then Excluded k else Excluded ub
              | None \<Rightarrow> Excluded ub)
          | None \<Rightarrow> (case esk of
                Some k \<Rightarrow> if \<not> scan_forward then Excluded k else Unbounded
              | None \<Rightarrow> Unbounded))
      in map_option (\<lambda>r. filter (\<lambda>e. matching (fst e)) (directed scan_forward r))
           (om_range lower_bound upper_bound m))"

fun collect_with_condition ::
    "partition \<Rightarrow> sort_key_condition \<Rightarrow> bool \<Rightarrow> sort_value option \<Rightarrow> partition option" where
  "collect_with_condition m (CondEq v) fwd esk =
     Some (case List.find (\<lambda>e. sk_cmp v (fst e) = OrdEqual) m of None \<Rightarrow> [] | Some e \<Rightarrow> [e])"
| "collect_with_condition m (CondLt v) fwd esk = collect_range m Unbounded (Excluded v) fwd esk"
| "collect_with_condition m (CondLe v) fwd esk = collect_range m Unbounded (Included v) fwd esk"
| "collect_with_condition m (CondGt v) fwd esk = collect_range m (Excluded v) Unbounded fwd esk"
| "collect_with_condition m (CondGe v) fwd esk = collect_range m (Included v) Unbounded fwd esk"
| "collect_with_condition m (CondBetween lo hi) fwd esk = collect_range m (Included lo) (Included hi) fwd esk"
| "collect_with_condition m (CondBeginsWithStr prefix) fwd esk =
     collect_begins_with m (SkS prefix) (compute_str_prefix_upper_bound prefix)
       (prefix_matches (CondBeginsWithStr prefix)) fwd esk"
| "collect_with_condition m (CondBeginsWithBytes prefix) fwd esk =
     collect_begins_with m (SkB prefix) (compute_bytes_prefix_upper_bound prefix)
       (prefix_matches (CondBeginsWithBytes prefix)) fwd esk"

definition collect_matching_items ::
    "partition \<Rightarrow> sort_key_condition option \<Rightarrow> bool \<Rightarrow> sort_value option \<Rightarrow> partition option" where
  "collect_matching_items m cond fwd esk =
     (case cond of
        None \<Rightarrow> collect_all_in_order m fwd esk
      | Some c \<Rightarrow> collect_with_condition m c fwd esk)"

definition max_response_bytes :: nat where
  "max_response_bytes = 1048576"

text \<open>The selection loop: the items that fit, and whether one did not.\<close>

fun take_sized :: "('a \<Rightarrow> nat) \<Rightarrow> nat \<Rightarrow> bool \<Rightarrow> 'a list \<Rightarrow> 'a list \<times> bool" where
  "take_sized sz cum nonempty [] = ([], False)"
| "take_sized sz cum nonempty (e # es) =
     (if nonempty \<and> cum + sz e > max_response_bytes then ([], True)
      else let (xs, limited) = take_sized sz (cum + sz e) True es in (e # xs, limited))"

definition take_limit :: "nat option \<Rightarrow> 'a list \<Rightarrow> 'a list" where
  "take_limit limit xs = (case limit of None \<Rightarrow> xs | Some n \<Rightarrow> take n xs)"

definition has_more :: "bool \<Rightarrow> nat \<Rightarrow> nat option \<Rightarrow> nat \<Rightarrow> bool" where
  "has_more size_limited selected limit available \<longleftrightarrow>
     size_limited \<or> (case limit of None \<Rightarrow> False | Some n \<Rightarrow> selected = n \<and> n < available)"

definition build_last_evaluated_key ::
    "partition \<Rightarrow> attribute_value \<Rightarrow> key_schema \<Rightarrow> primary_key option" where
  "build_last_evaluated_key selected pk ks =
     (if selected = [] then None
      else
        let attrs = snd (last selected);
            sort_key = (case ks_sort_key ks of
              None \<Rightarrow> None
            | Some sk \<Rightarrow>
                (case bt_get attrs (ka_name sk) of
                   None \<Rightarrow> None
                 | Some v \<Rightarrow>
                     (case from_attribute_value (ka_name sk) v of Inl _ \<Rightarrow> None | Inr k \<Rightarrow> Some k)))
        in Some \<lparr>pk_partition_key = pk, pk_sort_key = sort_key\<rparr>)"

definition query ::
    "attribute_value \<Rightarrow> sort_key_condition option \<Rightarrow> bool \<Rightarrow> nat option \<Rightarrow> sort_value option \<Rightarrow>
     table_storage \<Rightarrow> (item list \<times> primary_key option) option" where
  "query pk cond fwd limit esk s =
     (case get_partition (ts_data s) pk of
        None \<Rightarrow> Some ([], None)
      | Some part \<Rightarrow>
          map_option (\<lambda>all_items.
            let (selected, size_limited) =
                  take_sized (\<lambda>e. calculate_item_size (snd e)) 0 False (take_limit limit all_items);
                last_key =
                  (if has_more size_limited (length selected) limit (length all_items)
                   then build_last_evaluated_key selected pk (ts_key_schema s) else None)
            in (map snd selected, last_key))
          (collect_matching_items part cond fwd esk))"

section \<open>Scan\<close>

text \<open>\<^verbatim>\<open>Display\<close> of the key types; a binary value shows its length only.\<close>

fun display_key :: "attribute_value \<Rightarrow> string" where
  "display_key (AvS s) = ''{S: '' @ s @ ''}''"
| "display_key (AvN n) = ''{N: '' @ n @ ''}''"
| "display_key (AvB b) = ''{B: '' @ show_nat (length b) @ '' bytes}''"
| "display_key _ = []"

type_synonym scan_entry = "attribute_value \<times> sort_value \<times> item"

text \<open>\<open>hash\<close> is \<^verbatim>\<open>DefaultHasher\<close> on the displayed key.\<close>

definition partition_key_segment :: "(string \<Rightarrow> nat) \<Rightarrow> attribute_value \<Rightarrow> nat \<Rightarrow> nat" where
  "partition_key_segment hash pk total_segments = hash (display_key pk) mod total_segments"

text \<open>All items in scan order; \<open>order\<close> is the iteration order of the \<^verbatim>\<open>DashMap\<close>.\<close>

definition scan_items ::
    "(string \<Rightarrow> nat) \<Rightarrow> ((attribute_value \<times> partition) list \<Rightarrow> (attribute_value \<times> partition) list) \<Rightarrow>
     (nat \<times> nat) option \<Rightarrow> table_storage \<Rightarrow> scan_entry list" where
  "scan_items hash order parallel s =
     concat (map (\<lambda>e. map (\<lambda>x. (fst e, fst x, snd x)) (snd e))
       (filter (\<lambda>e. case parallel of
                      None \<Rightarrow> True
                    | Some (seg, n) \<Rightarrow> partition_key_segment hash (fst e) n = seg)
         (sort_key (\<lambda>e. display_key (fst e)) (order (ts_data s)))))"

fun position :: "('a \<Rightarrow> bool) \<Rightarrow> 'a list \<Rightarrow> nat option" where
  "position P [] = None"
| "position P (x # xs) = (if P x then Some 0 else map_option Suc (position P xs))"

definition scan_start :: "primary_key option \<Rightarrow> scan_entry list \<Rightarrow> nat" where
  "scan_start esk xs =
     (case esk of
        None \<Rightarrow> 0
      | Some k \<Rightarrow>
          (case position (\<lambda>e. fst e = pk_partition_key k \<and> sk_cmp (fst (snd e)) (sort_key_of k) = OrdEqual) xs of
             None \<Rightarrow> 0
           | Some i \<Rightarrow> i + 1))"

definition scan_last_key :: "scan_entry \<Rightarrow> primary_key" where
  "scan_last_key e =
     \<lparr>pk_partition_key = fst e,
      pk_sort_key = (case to_attribute_value (fst (snd e)) of None \<Rightarrow> None | Some _ \<Rightarrow> Some (fst (snd e)))\<rparr>"

text \<open>\<open>parallel\<close> is \<^verbatim>\<open>segment.zip(total_segments)\<close>. A total of zero segments divides by zero.\<close>

definition scan ::
    "(string \<Rightarrow> nat) \<Rightarrow> ((attribute_value \<times> partition) list \<Rightarrow> (attribute_value \<times> partition) list) \<Rightarrow>
     nat option \<Rightarrow> primary_key option \<Rightarrow> (nat \<times> nat) option \<Rightarrow> table_storage \<Rightarrow>
     (item list \<times> primary_key option) option" where
  "scan hash order limit esk parallel s =
     (if ts_data s \<noteq> [] \<and> map_option snd parallel = Some 0 then None
      else
        let all_items = scan_items hash order parallel s;
            rest = drop (scan_start esk all_items) all_items;
            (selected, size_limited) =
              take_sized (\<lambda>e. calculate_item_size (snd (snd e))) 0 False (take_limit limit rest);
            last_key =
              (if has_more size_limited (length selected) limit (length rest) \<and> selected \<noteq> []
               then Some (scan_last_key (last selected)) else None)
        in Some (map (\<lambda>e. snd (snd e)) selected, last_key))"

definition snapshot_items ::
    "(string \<Rightarrow> nat) \<Rightarrow> ((attribute_value \<times> partition) list \<Rightarrow> (attribute_value \<times> partition) list) \<Rightarrow>
     table_storage \<Rightarrow> item list option" where
  "snapshot_items hash order s = map_option fst (scan hash order None None None s)"

end
