(* ===== verification/Dynamo_Table.thy ===== *)
theory Dynamo_Table
  imports Dynamo_Storage Dynamo_Decimal "HOL-Library.Product_Lexorder"
begin

text \<open>
  Table storage against its abstract specification, a finite map from keys to items: sort keys up to
  spelling, ordered maps, the storage invariant with its counters, and the refinement.
\<close>

section \<open>Sort keys\<close>

text \<open>What a sort key is, up to spelling: its place in a linear order.\<close>

type_synonym rank = "nat \<times> rat \<times> string"

fun rank :: "sort_value \<Rightarrow> rank" where
  "rank (SkS s) = (0, 0, s)"
| "rank (SkN n) = (1, number_value n, [])"
| "rank (SkB b) = (2, 0, b)"
| "rank SkSentinel = (3, 0, [])"

fun sk_ok :: "sort_value \<Rightarrow> bool" where
  "sk_ok (SkN n) = is_number n"
| "sk_ok _ = True"

lemma sk_cmp_rank: "sk_ok a \<Longrightarrow> sk_ok b \<Longrightarrow> sk_cmp a b = ord_cmp (rank a) (rank b)"
  by (cases a; cases b) (auto simp: compare_number_strings_value ord_cmp_def)

lemma ord_cmp_simps [simp]:
  "ord_cmp a b = OrdLess \<longleftrightarrow> a < b" "ord_cmp a b = OrdEqual \<longleftrightarrow> a = b" "ord_cmp a b = OrdGreater \<longleftrightarrow> b < a"
  by (auto simp: ord_cmp_def)

lemma sk_cmp_cases:
  assumes "sk_ok k" "sk_ok l"
  obtains (less) "sk_cmp k l = OrdLess" "rank k < rank l"
    | (equal) "sk_cmp k l = OrdEqual" "rank k = rank l"
    | (greater) "sk_cmp k l = OrdGreater" "rank l < rank k"
  using assms by (cases "sk_cmp k l") (auto simp: sk_cmp_rank)

section \<open>Ordered maps\<close>

definition part_wf :: "partition \<Rightarrow> bool" where
  "part_wf m \<longleftrightarrow> sorted_wrt (\<lambda>a b. rank (fst a) < rank (fst b)) m \<and> (\<forall>e\<in>set m. sk_ok (fst e))"

definition part_map :: "partition \<Rightarrow> rank \<Rightarrow> item option" where
  "part_map m = map_of (map (\<lambda>e. (rank (fst e), snd e)) m)"

lemma part_wf_simps [simp]:
  "part_wf []" "part_wf (e # m) \<longleftrightarrow> sk_ok (fst e) \<and> (\<forall>x\<in>set m. rank (fst e) < rank (fst x)) \<and> part_wf m"
  by (auto simp: part_wf_def)

lemma part_map_simps [simp]:
  "part_map [] = Map.empty" "part_map (e # m) = (part_map m)(rank (fst e) \<mapsto> snd e)"
  by (auto simp: part_map_def)

lemma part_map_None: "part_map m r = None \<longleftrightarrow> (\<forall>e\<in>set m. rank (fst e) \<noteq> r)"
  by (induction m) auto

lemma om_get_map: "part_wf m \<Longrightarrow> sk_ok k \<Longrightarrow> om_get k m = part_map m (rank k)"
  by (induction m) (auto simp: sk_cmp_rank)

lemma om_insert_set:
  "part_wf m \<Longrightarrow> sk_ok k \<Longrightarrow> x \<in> set (om_insert k v m) \<Longrightarrow> rank (fst x) = rank k \<or> x \<in> set m"
  by (induction m) (auto simp: sk_cmp_rank split: ordering.splits)

lemma om_insert_wf: "part_wf m \<Longrightarrow> sk_ok k \<Longrightarrow> part_wf (om_insert k v m)"
proof (induction m)
  case (Cons e m)
  then have "sk_ok k" "sk_ok (fst e)" by simp_all
  then show ?case
  proof (cases rule: sk_cmp_cases)
    case less
    then show ?thesis using Cons.prems by auto
  next
    case equal
    then show ?thesis using Cons.prems by auto
  next
    case greater
    have "\<forall>x\<in>set (om_insert k v m). rank (fst e) < rank (fst x)"
      using Cons.prems greater om_insert_set [of m k _ v] by fastforce
    then show ?thesis using Cons greater by simp
  qed
qed simp

lemma om_insert_map: "part_wf m \<Longrightarrow> sk_ok k \<Longrightarrow> part_map (om_insert k v m) = (part_map m)(rank k \<mapsto> v)"
  by (induction m) (auto simp: sk_cmp_rank fun_upd_twist split: ordering.splits)

lemma om_remove_set: "x \<in> set (om_remove k m) \<Longrightarrow> x \<in> set m"
  by (induction m) (auto split: if_splits)

lemma om_remove_wf: "part_wf m \<Longrightarrow> part_wf (om_remove k m)"
  by (induction m) (auto dest: om_remove_set)

lemma om_remove_map:
  "part_wf m \<Longrightarrow> sk_ok k \<Longrightarrow> part_map (om_remove k m) = (part_map m)(rank k := None)"
proof (induction m)
  case (Cons e m)
  have "part_map m (rank (fst e)) = None" using Cons.prems(1) by (auto simp: part_map_None)
  then show ?case
    using Cons by (auto simp: sk_cmp_rank fun_upd_twist fun_upd_idem)
qed simp

text \<open>The counters: how many entries, and how many bytes they hold.\<close>

definition part_size :: "partition \<Rightarrow> nat" where
  "part_size m = sum_list (map (\<lambda>e. calculate_item_size (snd e)) m)"

lemma part_size_simps [simp]:
  "part_size [] = 0" "part_size (e # m) = calculate_item_size (snd e) + part_size m"
  by (simp_all add: part_size_def)

lemma om_insert_counts:
  "part_wf m \<Longrightarrow> sk_ok k \<Longrightarrow>
     (case om_get k m of
        None \<Rightarrow> length (om_insert k v m) = length m + 1 \<and>
                part_size (om_insert k v m) = part_size m + calculate_item_size v
      | Some o' \<Rightarrow> length (om_insert k v m) = length m \<and>
                part_size (om_insert k v m) + calculate_item_size o' = part_size m + calculate_item_size v)"
proof (induction m)
  case (Cons e m)
  then have k: "sk_ok k" "sk_ok (fst e)" by simp_all
  then show ?case
  proof (cases rule: sk_cmp_cases)
    case less
    then have "om_get k m = None" using Cons.prems by (auto simp: om_get_map part_map_None)
    then show ?thesis using less by simp
  next
    case greater
    then show ?thesis using Cons by (auto split: option.splits)
  qed simp
qed simp

lemma om_remove_counts:
  "om_get k m = Some v \<Longrightarrow>
     length m = length (om_remove k m) + 1 \<and> part_size m = part_size (om_remove k m) + calculate_item_size v"
  by (induction m) (auto split: if_splits)

section \<open>The storage invariant\<close>

text \<open>The entries of all partitions, by partition key and rank, and the map they make.\<close>

type_synonym abstract_key = "attribute_value \<times> rank"
type_synonym abstract_table = "abstract_key \<Rightarrow> item option"

definition entries :: "(attribute_value \<times> partition) list \<Rightarrow> (abstract_key \<times> item) list" where
  "entries data = concat (map (\<lambda>d. map (\<lambda>e. ((fst d, rank (fst e)), snd e)) (snd d)) data)"

definition item_at :: "(attribute_value \<times> partition) list \<Rightarrow> abstract_table" where
  "item_at data = map_of (entries data)"

definition table_size :: "abstract_table \<Rightarrow> nat" where
  "table_size t = (\<Sum>k\<in>dom t. calculate_item_size (the (t k)))"

definition data_wf :: "(attribute_value \<times> partition) list \<Rightarrow> bool" where
  "data_wf data \<longleftrightarrow> distinct (map fst data) \<and> (\<forall>d\<in>set data. part_wf (snd d))"

definition storage_wf :: "table_storage \<Rightarrow> bool" where
  "storage_wf s \<longleftrightarrow> data_wf (ts_data s) \<and>
     ts_item_count s = sum_list (map (\<lambda>d. length (snd d)) (ts_data s)) \<and>
     ts_total_size s = sum_list (map (\<lambda>d. part_size (snd d)) (ts_data s))"

definition abstract_key :: "primary_key \<Rightarrow> abstract_key" where
  "abstract_key k = (pk_partition_key k, rank (sort_key_of k))"

lemma entries_simps [simp]:
  "entries [] = []"
  "entries (d # data) = map (\<lambda>e. ((fst d, rank (fst e)), snd e)) (snd d) @ entries data"
  by (simp_all add: entries_def)

lemma data_wf_simps [simp]:
  "data_wf []" "data_wf (d # data) \<longleftrightarrow> fst d \<notin> fst ` set data \<and> part_wf (snd d) \<and> data_wf data"
  by (auto simp: data_wf_def)

lemma map_of_part: "map_of (map (\<lambda>e. ((a, rank (fst e)), snd e)) m) (pk, r) = (if pk = a then part_map m r else None)"
  by (induction m) auto

lemma entries_fst: "k \<in> fst ` set (entries data) \<Longrightarrow> fst k \<in> fst ` set data"
  by (induction data) auto

lemma item_at_partition:
  "data_wf data \<Longrightarrow> item_at data (pk, r) = Option.bind (get_partition data pk) (\<lambda>p. part_map p r)"
proof (induction data)
  case (Cons d data)
  have "map_of (entries data) (fst d, r) = None"
    using Cons.prems entries_fst [of "(fst d, r)" data] by (auto simp: map_of_eq_None_iff)
  then show ?case
    using Cons by (auto simp: item_at_def get_partition_def map_add_def map_of_part split: option.splits)
qed (simp add: item_at_def get_partition_def)

lemma part_ranks_distinct: "part_wf m \<Longrightarrow> distinct (map (\<lambda>e. (a, rank (fst e))) m)"
  by (induction m) auto

lemma entries_distinct: "data_wf data \<Longrightarrow> distinct (map fst (entries data))"
proof (induction data)
  case (Cons d data)
  have "k \<notin> fst ` set (entries data)" if "k \<in> (\<lambda>e. (fst d, rank (fst e))) ` set (snd d)" for k
  proof
    assume "k \<in> fst ` set (entries data)"
    then have "fst k \<in> fst ` set data" by (rule entries_fst)
    moreover have "fst k = fst d" using that by auto
    ultimately show False using Cons.prems by simp
  qed
  moreover have "distinct (map (\<lambda>e. (fst d, rank (fst e))) (snd d))"
    using Cons.prems by (intro part_ranks_distinct) simp
  ultimately show ?case using Cons by (simp add: comp_def) blast
qed simp

lemma entries_counts:
  "length (entries data) = sum_list (map (\<lambda>d. length (snd d)) data)"
  "sum_list (map (\<lambda>e. calculate_item_size (snd e)) (entries data)) = sum_list (map (\<lambda>d. part_size (snd d)) data)"
  by (induction data) (auto simp: part_size_def comp_def)

lemma map_of_table_size:
  assumes "distinct (map fst xs)"
  shows "table_size (map_of xs) = sum_list (map (\<lambda>e. calculate_item_size (snd e)) xs)"
proof -
  have "the (map_of xs (fst e)) = snd e" if "e \<in> set xs" for e
    using assms that by (metis map_of_is_SomeI option.sel prod.collapse)
  then have "(\<Sum>k\<in>fst ` set xs. calculate_item_size (the (map_of xs k))) =
      (\<Sum>e\<in>set xs. calculate_item_size (snd e))"
    using assms by (subst sum.reindex) (auto simp: distinct_map)
  then show ?thesis
    using assms by (simp add: table_size_def dom_map_of_conv_image_fst sum_list_distinct_conv_sum_set distinct_map)
qed

text \<open>The counters count the abstract table.\<close>

lemma storage_counts:
  assumes "storage_wf s"
  shows "ts_item_count s = card (dom (item_at (ts_data s)))" "ts_total_size s = table_size (item_at (ts_data s))"
proof -
  have d: "distinct (map fst (entries (ts_data s)))"
    using assms by (simp add: storage_wf_def entries_distinct)
  then have "card (dom (item_at (ts_data s))) = length (entries (ts_data s))"
    using distinct_card [of "map fst (entries (ts_data s))"] by (simp add: item_at_def dom_map_of_conv_image_fst)
  then show "ts_item_count s = card (dom (item_at (ts_data s)))"
    using assms by (simp add: storage_wf_def entries_counts)
  show "ts_total_size s = table_size (item_at (ts_data s))"
    using assms d by (simp add: storage_wf_def item_at_def map_of_table_size entries_counts)
qed

section \<open>The operations\<close>

lemma get_set_partition: "get_partition (set_partition pk p data) q = (if q = pk then Some p else get_partition data q)"
  by (induction data) (auto simp: get_partition_def)

lemma set_partition_keys: "fst ` set (set_partition pk p data) = insert pk (fst ` set data)"
  by (induction data) auto

lemma set_partition_wf: "data_wf data \<Longrightarrow> part_wf p \<Longrightarrow> data_wf (set_partition pk p data)"
  by (induction data) (auto simp: set_partition_keys)

lemma get_partition_wf: "data_wf data \<Longrightarrow> get_partition data pk = Some p \<Longrightarrow> part_wf p"
  by (auto simp: data_wf_def get_partition_def dest!: map_of_SomeD)

lemma set_partition_sum:
  "f [] = (0 :: nat) \<Longrightarrow>
     sum_list (map (\<lambda>d. f (snd d)) (set_partition pk p data)) + f (unwrap_or [] (get_partition data pk)) =
     sum_list (map (\<lambda>d. f (snd d)) data) + f p"
  by (induction data) (auto simp: get_partition_def unwrap_or_def)

definition key_ok :: "primary_key \<Rightarrow> bool" where
  "key_ok k \<longleftrightarrow> sk_ok (sort_key_of k)"

lemma get_item_map: "storage_wf s \<Longrightarrow> key_ok k \<Longrightarrow> get_item k s = item_at (ts_data s) (abstract_key k)"
  by (auto simp: get_item_def storage_wf_def item_at_partition abstract_key_def key_ok_def om_get_map
        get_partition_wf split: Option.bind_splits)

lemma part_wf_get: "storage_wf s \<Longrightarrow> part_wf (unwrap_or [] (get_partition (ts_data s) pk))"
  by (auto simp: storage_wf_def unwrap_or_def get_partition_wf split: option.splits)

lemma item_at_set:
  assumes "data_wf data" "part_wf p" "part_map p = (part_map (unwrap_or [] (get_partition data pk)))(r := x)"
  shows "item_at (set_partition pk p data) = (item_at data)((pk, r) := x)"
proof
  fix k :: abstract_key
  show "item_at (set_partition pk p data) k = ((item_at data)((pk, r) := x)) k"
    using assms
    by (cases k) (auto simp: item_at_partition set_partition_wf get_set_partition unwrap_or_def split: option.splits)
qed

lemma put_prepared_spec:
  assumes "storage_wf s" "key_ok k"
  shows "storage_wf (snd (put_prepared k it s))"
    and "fst (put_prepared k it s) = item_at (ts_data s) (abstract_key k)"
    and "item_at (ts_data (snd (put_prepared k it s))) = (item_at (ts_data s))(abstract_key k \<mapsto> it)"
    and "ts_key_schema (snd (put_prepared k it s)) = ts_key_schema s"
proof -
  let ?pk = "pk_partition_key k" and ?sk = "sort_key_of k"
  let ?p = "unwrap_or [] (get_partition (ts_data s) ?pk)"
  let ?q = "om_insert ?sk it ?p"
  note wf = assms(1) [unfolded storage_wf_def] and sk = assms(2) [unfolded key_ok_def]
  have p: "part_wf ?p" using assms(1) by (rule part_wf_get)
  then have q: "part_wf ?q" using sk by (rule om_insert_wf)
  have d: "ts_data (snd (put_prepared k it s)) = set_partition ?pk ?q (ts_data s)"
    by (simp add: put_prepared_def Let_def split: option.splits)
  show "fst (put_prepared k it s) = item_at (ts_data s) (abstract_key k)"
    using wf p sk
    by (auto simp: put_prepared_def Let_def item_at_partition abstract_key_def om_get_map unwrap_or_def
          split: option.splits)
  show "item_at (ts_data (snd (put_prepared k it s))) = (item_at (ts_data s))(abstract_key k \<mapsto> it)"
    unfolding d abstract_key_def by (rule item_at_set) (simp_all add: wf q om_insert_map p sk)
  show "ts_key_schema (snd (put_prepared k it s)) = ts_key_schema s"
    by (simp add: put_prepared_def Let_def split: option.splits)
  show "storage_wf (snd (put_prepared k it s))"
    using wf p sk set_partition_wf [of "ts_data s" ?q ?pk] q om_insert_counts [OF p sk, of it]
      set_partition_sum [of length ?pk ?q "ts_data s"] set_partition_sum [of part_size ?pk ?q "ts_data s"]
    by (auto simp: put_prepared_def Let_def storage_wf_def split: option.splits)
qed

lemma delete_item_spec:
  assumes "storage_wf s" "key_ok k"
  shows "storage_wf (snd (delete_item k s))"
    and "fst (delete_item k s) = item_at (ts_data s) (abstract_key k)"
    and "item_at (ts_data (snd (delete_item k s))) = (item_at (ts_data s))(abstract_key k := None)"
    and "ts_key_schema (snd (delete_item k s)) = ts_key_schema s"
proof -
  let ?pk = "pk_partition_key k" and ?sk = "sort_key_of k"
  note wf = assms(1) [unfolded storage_wf_def] and sk = assms(2) [unfolded key_ok_def]
  have get: "get_item k s = item_at (ts_data s) (abstract_key k)" using assms by (rule get_item_map)
  then show "fst (delete_item k s) = item_at (ts_data s) (abstract_key k)"
    by (auto simp: delete_item_def get_item_def split: option.splits)
  show "ts_key_schema (snd (delete_item k s)) = ts_key_schema s"
    by (simp add: delete_item_def split: option.splits)
  show "storage_wf (snd (delete_item k s))"
  proof (cases "get_item k s")
    case None
    then show ?thesis using assms by (auto simp: delete_item_def get_item_def split: option.splits)
  next
    case (Some v)
    then obtain p where p: "get_partition (ts_data s) ?pk = Some p" "om_get ?sk p = Some v"
      by (auto simp: get_item_def split: Option.bind_splits)
    then show ?thesis
      using wf om_remove_counts [OF p(2)] set_partition_wf [of "ts_data s" "om_remove ?sk p" ?pk]
        om_remove_wf [of p ?sk] get_partition_wf [OF _ p(1)]
        set_partition_sum [of length ?pk "om_remove ?sk p" "ts_data s"]
        set_partition_sum [of part_size ?pk "om_remove ?sk p" "ts_data s"]
      by (auto simp: delete_item_def storage_wf_def)
  qed
  show "item_at (ts_data (snd (delete_item k s))) = (item_at (ts_data s))(abstract_key k := None)"
  proof (cases "get_item k s")
    case None
    moreover have "snd (delete_item k s) = s"
      using None by (auto simp: delete_item_def get_item_def split: option.splits)
    ultimately show ?thesis using get by (simp add: fun_upd_idem)
  next
    case (Some v)
    then obtain p where p: "get_partition (ts_data s) ?pk = Some p" "om_get ?sk p = Some v"
      by (auto simp: get_item_def split: Option.bind_splits)
    then have "part_wf p" using wf get_partition_wf by blast
    then have "item_at (set_partition ?pk (om_remove ?sk p) (ts_data s)) = (item_at (ts_data s))((?pk, rank ?sk) := None)"
      using wf sk p by (intro item_at_set) (auto simp: om_remove_wf om_remove_map)
    then show ?thesis using p by (simp add: delete_item_def abstract_key_def)
  qed
qed

section \<open>The interface of a store of items\<close>

text \<open>What the users of a store rely on: an abstraction to a map that the three operations act on.\<close>

locale item_store =
  fixes get :: "'k \<Rightarrow> 's \<Rightarrow> 'v option" and put :: "'k \<Rightarrow> 'v \<Rightarrow> 's \<Rightarrow> 'v option \<times> 's"
    and delete :: "'k \<Rightarrow> 's \<Rightarrow> 'v option \<times> 's"
    and invar :: "'s \<Rightarrow> bool" and valid :: "'k \<Rightarrow> bool" and key :: "'k \<Rightarrow> 'a" and abs :: "'s \<Rightarrow> 'a \<Rightarrow> 'v option"
  assumes get: "invar s \<Longrightarrow> valid k \<Longrightarrow> get k s = abs s (key k)"
    and put: "invar s \<Longrightarrow> valid k \<Longrightarrow>
        fst (put k v s) = abs s (key k) \<and> invar (snd (put k v s)) \<and> abs (snd (put k v s)) = (abs s)(key k \<mapsto> v)"
    and delete: "invar s \<Longrightarrow> valid k \<Longrightarrow>
        fst (delete k s) = abs s (key k) \<and> invar (snd (delete k s)) \<and> abs (snd (delete k s)) = (abs s)(key k := None)"
begin

lemma get_put:
  "invar s \<Longrightarrow> valid k \<Longrightarrow> valid l \<Longrightarrow> get l (snd (put k v s)) = (if key l = key k then Some v else get l s)"
  by (simp add: get put)

lemma get_delete:
  "invar s \<Longrightarrow> valid k \<Longrightarrow> valid l \<Longrightarrow> get l (snd (delete k s)) = (if key l = key k then None else get l s)"
  by (simp add: get delete)

lemma delete_put:
  "invar s \<Longrightarrow> valid k \<Longrightarrow>
     fst (delete k (snd (put k v s))) = Some v \<and> abs (snd (delete k (snd (put k v s)))) = (abs s)(key k := None)"
  by (simp add: put delete)

end

interpretation table: item_store get_item put_prepared delete_item storage_wf key_ok abstract_key
    "\<lambda>s. item_at (ts_data s)"
  by unfold_locales (simp_all add: get_item_map put_prepared_spec delete_item_spec)

section \<open>Sequences of operations\<close>

datatype table_op = TPut item | TGet primary_key | TDelete primary_key

type_synonym table_answer = "storage_error + item option"

fun table_step :: "table_op \<Rightarrow> table_storage \<Rightarrow> table_answer \<times> table_storage" where
  "table_step (TPut it) s = (case put_item it s of Inl e \<Rightarrow> (Inl e, s) | Inr (old, s') \<Rightarrow> (Inr old, s'))"
| "table_step (TGet k) s = (Inr (get_item k s), s)"
| "table_step (TDelete k) s = (Inr (fst (delete_item k s)), snd (delete_item k s))"

text \<open>The specification: a finite map with the key schema.\<close>

fun table_spec :: "key_schema \<Rightarrow> table_op \<Rightarrow> abstract_table \<Rightarrow> table_answer \<times> abstract_table" where
  "table_spec ks (TPut it) t =
     (case extract_primary_key ks it of
        Inl e \<Rightarrow> (Inl e, t)
      | Inr k \<Rightarrow> (Inr (t (abstract_key k)), t(abstract_key k \<mapsto> it)))"
| "table_spec ks (TGet k) t = (Inr (t (abstract_key k)), t)"
| "table_spec ks (TDelete k) t = (Inr (t (abstract_key k)), t(abstract_key k := None))"

fun run_answers :: "('op \<Rightarrow> 's \<Rightarrow> 'a \<times> 's) \<Rightarrow> 'op list \<Rightarrow> 's \<Rightarrow> 'a list \<times> 's" where
  "run_answers f [] s = ([], s)"
| "run_answers f (p # ps) s = (let (a, s') = f p s; (as, s'') = run_answers f ps s' in (a # as, s''))"

fun op_ok :: "key_schema \<Rightarrow> table_op \<Rightarrow> bool" where
  "op_ok ks (TPut it) = (case extract_primary_key ks it of Inl _ \<Rightarrow> True | Inr k \<Rightarrow> key_ok k)"
| "op_ok ks (TGet k) = key_ok k"
| "op_ok ks (TDelete k) = key_ok k"

lemma table_step_refines:
  assumes "storage_wf s" "op_ok (ts_key_schema s) p"
  shows "storage_wf (snd (table_step p s)) \<and> ts_key_schema (snd (table_step p s)) = ts_key_schema s \<and>
     fst (table_step p s) = fst (table_spec (ts_key_schema s) p (item_at (ts_data s))) \<and>
     item_at (ts_data (snd (table_step p s))) = snd (table_spec (ts_key_schema s) p (item_at (ts_data s)))"
proof (cases p)
  case (TPut it)
  show ?thesis
  proof (cases "extract_primary_key (ts_key_schema s) it")
    case (Inr k)
    then show ?thesis
      using assms TPut put_prepared_spec [of s k it]
      by (cases "put_prepared k it s") (auto simp: put_item_def)
  qed (simp add: TPut put_item_def assms)
qed (use assms in \<open>simp_all add: get_item_map delete_item_spec\<close>)

lemma run_refines:
  assumes "storage_wf s" "\<forall>p\<in>set ps. op_ok (ts_key_schema s) p"
  shows "storage_wf (snd (run_answers table_step ps s)) \<and>
     ts_key_schema (snd (run_answers table_step ps s)) = ts_key_schema s \<and>
     fst (run_answers table_step ps s) = fst (run_answers (table_spec (ts_key_schema s)) ps (item_at (ts_data s))) \<and>
     item_at (ts_data (snd (run_answers table_step ps s))) =
       snd (run_answers (table_spec (ts_key_schema s)) ps (item_at (ts_data s)))"
  using assms
proof (induction ps arbitrary: s)
  case (Cons p ps)
  then have "storage_wf (snd (table_step p s)) \<and> ts_key_schema (snd (table_step p s)) = ts_key_schema s \<and>
     fst (table_step p s) = fst (table_spec (ts_key_schema s) p (item_at (ts_data s))) \<and>
     item_at (ts_data (snd (table_step p s))) = snd (table_spec (ts_key_schema s) p (item_at (ts_data s)))"
    by (intro table_step_refines) auto
  with Cons.IH [of "snd (table_step p s)"] Cons.prems(2) show ?case
    by (simp add: Let_def case_prod_beta)
qed simp

lemma new_storage_simps [simp]:
  "storage_wf (new_storage ks)" "item_at (ts_data (new_storage ks)) = Map.empty"
  "ts_key_schema (new_storage ks) = ks"
  by (simp_all add: storage_wf_def new_storage_def item_at_def)

text \<open>Every item lies under the key its attributes give.\<close>

definition keyed :: "key_schema \<Rightarrow> abstract_table \<Rightarrow> bool" where
  "keyed ks t \<longleftrightarrow> (\<forall>a it. t a = Some it \<longrightarrow>
     (\<exists>k. extract_primary_key ks it = Inr k \<and> abstract_key k = a \<and> key_ok k))"

lemma table_spec_keyed: "keyed ks t \<Longrightarrow> op_ok ks p \<Longrightarrow> keyed ks (snd (table_spec ks p t))"
  by (cases p) (auto simp: keyed_def split: sum.splits)

lemma run_keyed:
  "keyed ks t \<Longrightarrow> \<forall>p\<in>set ps. op_ok ks p \<Longrightarrow> keyed ks (snd (run_answers (table_spec ks) ps t))"
  by (induction ps arbitrary: t) (simp_all add: Let_def case_prod_beta table_spec_keyed)

lemma storage_keyed:
  "\<forall>p\<in>set ps. op_ok ks p \<Longrightarrow> keyed ks (item_at (ts_data (snd (run_answers table_step ps (new_storage ks)))))"
  using run_refines [of "new_storage ks" ps] run_keyed [of ks Map.empty ps] by (simp add: keyed_def)

end
