(* ===== verification/Dynamo_Pages.thy ===== *)
theory Dynamo_Pages
  imports Dynamo_Table
begin

text \<open>
  Queries: the ranges of the ordered map against \<^verbatim>\<open>SortKeyCondition::matches\<close>, and paging by the last
  evaluated key.
\<close>

section \<open>Ranges and filters\<close>

definition in_condition :: "sort_key_condition option \<Rightarrow> sort_value \<Rightarrow> bool" where
  "in_condition cond k = (case cond of None \<Rightarrow> True | Some c \<Rightarrow> condition_matches c k)"

text \<open>What is left of a partition after a start key, in the direction of the query.\<close>

definition after_start :: "bool \<Rightarrow> sort_value option \<Rightarrow> sort_value \<Rightarrow> bool" where
  "after_start fwd start k =
     (case start of None \<Rightarrow> True | Some e \<Rightarrow> if fwd then rank e < rank k else rank k < rank e)"

text \<open>The conditions that are answered: values that are numbers where they should be, an interval that is
  not inverted, and a prefix whose upper bound survives the conversion to text.\<close>

fun condition_ok :: "sort_key_condition \<Rightarrow> bool" where
  "condition_ok (CondEq v) = sk_ok v"
| "condition_ok (CondLt v) = sk_ok v"
| "condition_ok (CondLe v) = sk_ok v"
| "condition_ok (CondGt v) = sk_ok v"
| "condition_ok (CondGe v) = sk_ok v"
| "condition_ok (CondBetween lo hi) = (sk_ok lo \<and> sk_ok hi \<and> sk_cmp lo hi \<noteq> OrdGreater)"
| "condition_ok (CondBeginsWithStr p) = (compute_str_prefix_upper_bound p = map_option SkS (increment_last p))"
| "condition_ok (CondBeginsWithBytes p) = True"

definition start_ok :: "sort_key_condition option \<Rightarrow> sort_value option \<Rightarrow> bool" where
  "start_ok cond start =
     (case start of None \<Rightarrow> True
      | Some k \<Rightarrow> sk_ok k \<and> in_condition cond k \<and> (case cond of Some (CondEq _) \<Rightarrow> False | _ \<Rightarrow> True))"

lemma filter_directed: "directed fwd (filter P xs) = filter P (directed fwd xs)"
  by (simp add: directed_def rev_filter)

lemma directed_set [simp]: "set (directed fwd xs) = set xs"
  by (simp add: directed_def)

lemma filter_part_cong:
  assumes "part_wf m" "\<And>k. sk_ok k \<Longrightarrow> P k \<longleftrightarrow> Q k"
  shows "filter (\<lambda>e. P (fst e)) m = filter (\<lambda>e. Q (fst e)) m"
  using assms by (intro filter_cong) (auto simp: part_wf_def)

text \<open>A prefix lies below every text it starts, and the incremented prefix above them.\<close>

lemma append_less: "a < b \<Longrightarrow> xs @ a # ys < xs @ b # zs"
  for a :: "'a::linorder"
  by (induction xs) auto

lemma char_of_Suc_less: "byte_of c \<noteq> 255 \<Longrightarrow> c < char_of (byte_of c + 1)"
proof -
  assume "byte_of c \<noteq> 255"
  moreover have "byte_of c < 256" by (simp add: byte_of_def)
  ultimately have "byte_of c + 1 < 256" by simp
  then have "(of_char (char_of (byte_of c + 1)) :: nat) = byte_of c + 1" by simp
  then show ?thesis unfolding less_char_def by (simp add: byte_of_def)
qed

lemma increment_last_above: "increment_last p = Some u \<Longrightarrow> starts_with s p \<Longrightarrow> s < u"
proof -
  assume u: "increment_last p = Some u" and s: "starts_with s p"
  define q where "q = rev (dropWhile (\<lambda>c. byte_of c = 255) (rev p))"
  from u have q: "q \<noteq> []" "u = butlast q @ [char_of (byte_of (last q) + 1)]"
    by (auto simp: increment_last_def q_def Let_def split: if_splits)
  have "p = q @ rev (takeWhile (\<lambda>c. byte_of c = 255) (rev p))"
    unfolding q_def rev_append [symmetric] by simp
  moreover have "s = p @ drop (length p) s" using s by (metis append_take_drop_id starts_with_def)
  ultimately obtain r where "s = q @ r" by (metis append_assoc)
  then have "s = butlast q @ last q # r" using q(1) by (metis append_butlast_last_id append_Cons append_assoc append_Nil)
  moreover have "byte_of (last q) \<noteq> 255"
  proof -
    have "dropWhile (\<lambda>c. byte_of c = 255) (rev p) \<noteq> []" using q(1) q_def by auto
    then show ?thesis using hd_dropWhile [of "\<lambda>c. byte_of c = 255" "rev p"] by (simp add: q_def last_rev)
  qed
  ultimately show ?thesis using q(2) append_less [OF char_of_Suc_less] by metis
qed

lemma om_range_filter:
  assumes "part_wf m" "\<not> range_panics lo hi" "\<And>k. sk_ok k \<Longrightarrow> (above lo k \<and> below hi k) \<longleftrightarrow> P k"
  shows "om_range lo hi m = Some (filter (\<lambda>e. P (fst e)) m)"
  using assms filter_part_cong [of m "\<lambda>k. above lo k \<and> below hi k" P] by (simp add: om_range_def)

text \<open>A start key inside the bounds replaces the one it comes after.\<close>

definition bound_ok :: "sort_value bound \<Rightarrow> bool" where
  "bound_ok b = (case bound_key b of None \<Rightarrow> True | Some k \<Rightarrow> sk_ok k)"

lemma raise_lower_inside: "above lo k \<Longrightarrow> raise_lower lo (Some k) = Excluded k"
  by (cases lo) (auto simp: raise_lower_def)

lemma cut_upper_inside: "below hi k \<Longrightarrow> cut_upper hi (Some k) = Excluded k"
  by (cases hi) (auto simp: cut_upper_def)

lemma no_start [simp]: "raise_lower lo None = lo" "cut_upper hi None = hi"
  by (simp_all add: raise_lower_def cut_upper_def)

lemma range_from_start: "below hi k \<Longrightarrow> \<not> range_panics (Excluded k) hi"
  by (cases hi) auto

lemma range_to_start: "above lo k \<Longrightarrow> bound_ok lo \<Longrightarrow> sk_ok k \<Longrightarrow> \<not> range_panics lo (Excluded k)"
  by (cases lo) (auto simp: bound_ok_def sk_cmp_rank)

lemma above_trans: "above lo k \<Longrightarrow> bound_ok lo \<Longrightarrow> sk_ok k \<Longrightarrow> sk_ok e \<Longrightarrow> rank k < rank e \<Longrightarrow> above lo e"
  by (cases lo) (auto simp: bound_ok_def sk_cmp_rank)

lemma below_trans: "below hi k \<Longrightarrow> bound_ok hi \<Longrightarrow> sk_ok k \<Longrightarrow> sk_ok e \<Longrightarrow> rank e < rank k \<Longrightarrow> below hi e"
  by (cases hi) (auto simp: bound_ok_def sk_cmp_rank)

text \<open>The range that a query asks for, between bounds and after a start key inside them.\<close>

definition started_range ::
    "partition \<Rightarrow> sort_value bound \<Rightarrow> sort_value bound \<Rightarrow> bool \<Rightarrow> sort_value option \<Rightarrow> partition option" where
  "started_range m lo hi fwd start =
     (case start of
        None \<Rightarrow> om_range lo hi m
      | Some k \<Rightarrow> if fwd then om_range (Excluded k) hi m else om_range lo (Excluded k) m)"

lemma started_range_correct:
  assumes m: "part_wf m" and b: "\<not> range_panics lo hi" "bound_ok lo" "bound_ok hi"
    and start: "\<And>k. start = Some k \<Longrightarrow> sk_ok k \<and> above lo k \<and> below hi k"
  shows "started_range m lo hi fwd start =
    Some (filter (\<lambda>e. above lo (fst e) \<and> below hi (fst e) \<and> after_start fwd start (fst e)) m)"
proof (cases start)
  case None
  then show ?thesis
    using b by (auto simp: started_range_def after_start_def intro!: om_range_filter [OF m])
next
  case (Some k)
  then have k: "sk_ok k" "above lo k" "below hi k" using start by auto
  have up: "(above (Excluded k) e \<and> below hi e) = (above lo e \<and> below hi e \<and> rank k < rank e)" if "sk_ok e" for e
    using that k b above_trans [of lo k e] by (auto simp: sk_cmp_rank)
  have down: "(above lo e \<and> below (Excluded k) e) = (above lo e \<and> below hi e \<and> rank e < rank k)" if "sk_ok e" for e
    using that k b below_trans [of hi k e] by (auto simp: sk_cmp_rank)
  show ?thesis
    using om_range_filter [OF m range_from_start [OF k(3)] up] om_range_filter [OF m range_to_start [OF k(2) b(2) k(1)] down]
      Some by (simp add: started_range_def after_start_def)
qed

lemma collect_all_correct:
  assumes "part_wf m" "start_ok None start"
  shows "collect_all_in_order m fwd start = Some (directed fwd (filter (\<lambda>e. after_start fwd start (fst e)) m))"
proof -
  have "om_range Unbounded Unbounded m = Some m"
    by (simp add: om_range_def)
  then have "collect_all_in_order m fwd start = map_option (directed fwd) (started_range m Unbounded Unbounded fwd start)"
    by (simp add: collect_all_in_order_def started_range_def split: option.split)
  also have "\<dots> = Some (directed fwd (filter (\<lambda>e. after_start fwd start (fst e)) m))"
    using started_range_correct [of m Unbounded Unbounded start fwd] assms
    by (simp add: bound_ok_def start_ok_def split: option.splits)
  finally show ?thesis .
qed

lemma collect_range_correct:
  assumes m: "part_wf m" and b: "\<not> range_panics lo hi" "bound_ok lo" "bound_ok hi"
    and start: "start_ok (Some c) start"
    and c: "\<And>k. sk_ok k \<Longrightarrow> condition_matches c k \<longleftrightarrow> above lo k \<and> below hi k"
  shows "collect_range m lo hi fwd start =
    Some (directed fwd (filter (\<lambda>e. condition_matches c (fst e) \<and> after_start fwd start (fst e)) m))"
proof -
  have s: "sk_ok k \<and> above lo k \<and> below hi k" if "start = Some k" for k
    using that start c [of k] by (simp add: start_ok_def in_condition_def)
  then have "collect_range m lo hi fwd start = map_option (directed fwd) (started_range m lo hi fwd start)"
    by (cases start) (simp_all add: collect_range_def started_range_def raise_lower_inside cut_upper_inside)
  also have "\<dots> = Some (directed fwd
      (filter (\<lambda>e. above lo (fst e) \<and> below hi (fst e) \<and> after_start fwd start (fst e)) m))"
    by (simp add: started_range_correct [OF m b s])
  also have "filter (\<lambda>e. above lo (fst e) \<and> below hi (fst e) \<and> after_start fwd start (fst e)) m =
      filter (\<lambda>e. condition_matches c (fst e) \<and> after_start fwd start (fst e)) m"
    using c by (intro filter_part_cong [OF m, of "\<lambda>k. above lo k \<and> below hi k \<and> after_start fwd start k"]) auto
  finally show ?thesis .
qed

lemma collect_begins_with_correct:
  assumes m: "part_wf m" and up: "\<not> range_panics (Included lo) hi" "sk_ok lo" "bound_ok hi"
    and hi: "hi = (case upper of None \<Rightarrow> Unbounded | Some u \<Rightarrow> Excluded u)"
    and start: "start_ok (Some c) start"
    and c: "\<And>k. condition_matches c k \<Longrightarrow> sk_ok k \<and> above (Included lo) k \<and> below hi k"
  shows "collect_begins_with m lo upper (condition_matches c) fwd start =
    Some (directed fwd (filter (\<lambda>e. condition_matches c (fst e) \<and> after_start fwd start (fst e)) m))"
proof -
  have s: "sk_ok k \<and> above (Included lo) k \<and> below hi k" if "start = Some k" for k
    using that start c [of k] by (simp add: start_ok_def in_condition_def)
  then have "collect_begins_with m lo upper (condition_matches c) fwd start =
      map_option (\<lambda>r. filter (\<lambda>e. condition_matches c (fst e)) (directed fwd r)) (started_range m (Included lo) hi fwd start)"
    using hi by (cases upper; cases start) (auto simp: collect_begins_with_def started_range_def)
  also have "\<dots> = Some (directed fwd (filter (\<lambda>e. condition_matches c (fst e))
      (filter (\<lambda>e. above (Included lo) (fst e) \<and> below hi (fst e) \<and> after_start fwd start (fst e)) m)))"
    using started_range_correct [OF m up(1) _ up(3) s, where fwd = fwd] up(2) by (simp add: bound_ok_def filter_directed)
  also have "filter (\<lambda>e. condition_matches c (fst e))
      (filter (\<lambda>e. above (Included lo) (fst e) \<and> below hi (fst e) \<and> after_start fwd start (fst e)) m) =
      filter (\<lambda>e. condition_matches c (fst e) \<and> after_start fwd start (fst e)) m"
    unfolding filter_filter using c by (intro filter_cong) auto
  finally show ?thesis .
qed

lemma find_filter:
  assumes "part_wf m" "sk_ok v"
  shows "(case List.find (\<lambda>e. sk_cmp v (fst e) = OrdEqual) m of None \<Rightarrow> [] | Some e \<Rightarrow> [e]) =
    filter (\<lambda>e. condition_matches (CondEq v) (fst e)) m"
  using assms
proof (induction m)
  case (Cons e m)
  show ?case
  proof (cases "rank v = rank (fst e)")
    case True
    then have "filter (\<lambda>x. condition_matches (CondEq v) (fst x)) m = []"
      using Cons.prems by (auto simp: filter_empty_conv sk_cmp_rank part_wf_def)
    then show ?thesis using Cons.prems True by (simp add: sk_cmp_rank)
  next
    case False
    then show ?thesis using Cons by (simp add: sk_cmp_rank)
  qed
qed simp

lemma find_directed: "length xs \<le> 1 \<Longrightarrow> directed fwd xs = xs"
  by (cases xs) (auto simp: directed_def)

lemma begins_with_bound_correct:
  assumes m: "part_wf m" and start: "start_ok (Some c) start"
    and g: "\<And>a b. sk_cmp (g a) (g b) = ord_cmp a b" "\<And>a. sk_ok (g a)"
    and c: "\<And>k. condition_matches c k \<Longrightarrow> \<exists>s. k = g s \<and> starts_with s p"
  shows "collect_begins_with m (g p) (map_option g (increment_last p)) (condition_matches c) fwd start =
    Some (directed fwd (filter (\<lambda>e. condition_matches c (fst e) \<and> after_start fwd start (fst e)) m))"
proof -
  define hi where "hi = (case map_option g (increment_last p) of None \<Rightarrow> Unbounded | Some u \<Rightarrow> Excluded u)"
  have "\<not> range_panics (Included (g p)) hi"
    using increment_last_above [of p _ p] by (auto simp: hi_def g starts_with_def split: option.split)
  moreover have "bound_ok hi" by (auto simp: hi_def bound_ok_def g split: option.split)
  moreover have "sk_ok k \<and> above (Included (g p)) k \<and> below hi k" if k: "condition_matches c k" for k
  proof -
    obtain s where s: "k = g s" "starts_with s p" using c [OF k] by blast
    then show ?thesis
      using starts_with_le [OF s(2)] increment_last_above [of p _ s]
      by (auto simp: hi_def g split: option.split)
  qed
  ultimately show ?thesis
    using collect_begins_with_correct [OF m _ g(2) _ hi_def start, where fwd = fwd] by simp
qed

text \<open>A query through the ordered map answers what filtering by \<^verbatim>\<open>matches\<close> answers.\<close>

lemma collect_matching_correct:
  assumes m: "part_wf m" and ok: "case cond of None \<Rightarrow> True | Some c \<Rightarrow> condition_ok c" and start: "start_ok cond start"
  shows "collect_matching_items m cond fwd start =
    Some (directed fwd (filter (\<lambda>e. in_condition cond (fst e) \<and> after_start fwd start (fst e)) m))"
proof (cases cond)
  case None
  then show ?thesis
    using collect_all_correct [OF m, of start fwd] start by (simp add: collect_matching_items_def in_condition_def)
next
  case (Some c)
  then have c: "condition_ok c" "start_ok (Some c) start" using ok start by simp_all
  have "collect_with_condition m c fwd start =
    Some (directed fwd (filter (\<lambda>e. condition_matches c (fst e) \<and> after_start fwd start (fst e)) m))"
  proof (cases c)
    case (CondEq v)
    have "length (filter (\<lambda>e. condition_matches c (fst e)) m) \<le> 1"
      using find_filter [OF m, of v, symmetric] c CondEq by (simp split: option.split)
    moreover have "start = None" using c(2) CondEq by (auto simp: start_ok_def split: option.splits)
    ultimately show ?thesis
      using find_filter [OF m, of v] c CondEq by (simp add: after_start_def find_directed)
  next
    case (CondLt v)
    then show ?thesis using c collect_range_correct [OF m, of Unbounded "Excluded v" c start fwd]
      by (simp add: bound_ok_def)
  next
    case (CondLe v)
    then show ?thesis using c collect_range_correct [OF m, of Unbounded "Included v" c start fwd]
      by (simp add: bound_ok_def)
  next
    case (CondGt v)
    then show ?thesis using c collect_range_correct [OF m, of "Excluded v" Unbounded c start fwd]
      by (simp add: bound_ok_def)
  next
    case (CondGe v)
    then show ?thesis using c collect_range_correct [OF m, of "Included v" Unbounded c start fwd]
      by (simp add: bound_ok_def)
  next
    case (CondBetween lo hi)
    then show ?thesis using c collect_range_correct [OF m, of "Included lo" "Included hi" c start fwd]
      by (simp add: bound_ok_def)
  next
    case (CondBeginsWithStr p)
    then have "compute_str_prefix_upper_bound p = map_option SkS (increment_last p)" using c(1) by simp
    moreover have "condition_matches c = prefix_matches (CondBeginsWithStr p)" using CondBeginsWithStr by auto
    ultimately show ?thesis
      using CondBeginsWithStr begins_with_bound_correct [OF m c(2), of SkS p fwd]
      by (auto simp: ord_cmp_def elim: prefix_matches.elims)
  next
    case (CondBeginsWithBytes p)
    moreover from this have "condition_matches c = prefix_matches (CondBeginsWithBytes p)" by auto
    ultimately show ?thesis
      using begins_with_bound_correct [OF m c(2), of SkB p fwd]
      by (auto simp: compute_bytes_prefix_upper_bound_def ord_cmp_def elim: prefix_matches.elims)
  qed
  then show ?thesis using Some by (simp add: collect_matching_items_def in_condition_def)
qed

section \<open>Paging\<close>

text \<open>A client that asks for the next page with the last evaluated key until there is none. \<open>None\<close> is a panic
  or the end of the fuel.\<close>

fun query_all ::
    "nat \<Rightarrow> attribute_value \<Rightarrow> sort_key_condition option \<Rightarrow> bool \<Rightarrow> nat option \<Rightarrow> sort_value option \<Rightarrow>
     table_storage \<Rightarrow> item list option" where
  "query_all 0 pk cond fwd limit start s = None"
| "query_all (Suc n) pk cond fwd limit start s =
     Option.bind (query pk cond fwd limit start s) (\<lambda>(items, last_key).
       case last_key of
         None \<Rightarrow> Some items
       | Some k \<Rightarrow> map_option (\<lambda>rest. items @ rest) (query_all n pk cond fwd limit (pk_sort_key k) s))"

lemma take_sized_prefix:
  "take_sized sz cum ne xs = (ys, limited) \<Longrightarrow>
     ys = take (length ys) xs \<and> (limited \<longleftrightarrow> length ys < length xs) \<and> (\<not> ne \<longrightarrow> xs \<noteq> [] \<longrightarrow> ys \<noteq> [])"
  by (induction xs arbitrary: cum ne ys) (auto split: if_splits prod.splits)

text \<open>One page is a non-empty prefix of what is left, and there is a next page exactly when it is not all of it.\<close>

lemma take_limit_prefix:
  "\<exists>q. xs = take_limit limit xs @ q \<and> (case limit of None \<Rightarrow> q = []
     | Some n \<Rightarrow> q \<noteq> [] \<longrightarrow> length (take_limit limit xs) = n)"
proof (cases limit)
  case (Some n)
  then show ?thesis by (intro exI [of _ "drop n xs"]) (auto simp: take_limit_def)
qed (simp add: take_limit_def)

lemma page_split:
  assumes "take_sized sz 0 False (take_limit limit xs) = (ys, limited)" "limit \<noteq> Some 0"
  obtains zs where "xs = ys @ zs" "has_more limited (length ys) limit (length xs) \<longleftrightarrow> zs \<noteq> []"
    "xs \<noteq> [] \<Longrightarrow> ys \<noteq> []"
proof -
  obtain q where q: "xs = take_limit limit xs @ q" "case limit of None \<Rightarrow> q = []
      | Some n \<Rightarrow> q \<noteq> [] \<longrightarrow> length (take_limit limit xs) = n"
    using take_limit_prefix by blast
  define ts where "ts = take_limit limit xs"
  note t = take_sized_prefix [OF assms(1), folded ts_def]
  obtain r where r: "ts = ys @ r" using t by (metis append_take_drop_id)
  have xs: "xs = ys @ r @ q" using q(1) r ts_def by simp
  have lim: "limited \<longleftrightarrow> r \<noteq> []" using t r by simp
  have "has_more limited (length ys) limit (length xs) \<longleftrightarrow> r @ q \<noteq> []"
    using q(2) lim xs r ts_def by (cases limit) (auto simp: has_more_def)
  moreover have "ys \<noteq> []" if "xs \<noteq> []"
    using that t assms(2) ts_def by (cases limit) (auto simp: take_limit_def)
  ultimately show thesis using that [of "r @ q"] xs by blast
qed

definition remaining ::
    "partition \<Rightarrow> sort_key_condition option \<Rightarrow> bool \<Rightarrow> sort_value option \<Rightarrow> partition" where
  "remaining m cond fwd start =
     directed fwd (filter (\<lambda>e. in_condition cond (fst e) \<and> after_start fwd start (fst e)) m)"

lemma in_condition_rank:
  assumes "case cond of None \<Rightarrow> True | Some c \<Rightarrow> condition_ok c" "sk_ok a" "sk_ok b" "rank a = rank b"
  shows "in_condition cond a \<longleftrightarrow> in_condition cond b"
proof (cases cond)
  case (Some c)
  then show ?thesis
    using assms by (cases c; cases a; cases b) (auto simp: in_condition_def sk_cmp_rank)
qed (simp add: in_condition_def)

lemma directed_sorted:
  "part_wf m \<Longrightarrow> sorted_wrt (\<lambda>a b. after_start fwd (Some (fst a)) (fst b)) (directed fwd m)"
  by (auto simp: part_wf_def directed_def after_start_def sorted_wrt_rev)

lemma after_start_trans: "after_start fwd a k \<Longrightarrow> after_start fwd (Some k) l \<Longrightarrow> after_start fwd a l"
  by (auto simp: after_start_def split: option.splits if_splits)

lemma after_start_irrefl [simp]: "\<not> after_start fwd (Some k) k"
  by (simp add: after_start_def)

lemma remaining_after:
  assumes m: "part_wf m" and R: "remaining m cond fwd start = ys @ e # zs" and k: "rank k = rank (fst e)"
  shows "remaining m cond fwd (Some k) = zs"
proof -
  have eq: "after_start fwd (Some k) x \<longleftrightarrow> after_start fwd (Some (fst e)) x" for x
    by (simp add: after_start_def k)
  have "sorted_wrt (\<lambda>a b. after_start fwd (Some (fst a)) (fst b)) (remaining m cond fwd start)"
    unfolding remaining_def filter_directed by (intro sorted_wrt_filter directed_sorted m)
  then have srt: "\<forall>y\<in>set ys. after_start fwd (Some (fst y)) (fst e)" "\<forall>z\<in>set zs. after_start fwd (Some (fst e)) (fst z)"
    unfolding R by (auto simp: sorted_wrt_append)
  have "e \<in> set (remaining m cond fwd start)" using R by simp
  then have e: "after_start fwd start (fst e)" by (simp add: remaining_def)
  have "remaining m cond fwd (Some k) = filter (\<lambda>x. after_start fwd (Some (fst e)) (fst x)) (remaining m cond fwd start)"
    unfolding remaining_def filter_directed filter_filter eq
    using after_start_trans [OF e] by (intro filter_cong) auto
  also have "\<dots> = zs"
  proof -
    have "filter (\<lambda>x. after_start fwd (Some (fst e)) (fst x)) ys = []"
      unfolding filter_empty_conv using srt(1) after_start_trans after_start_irrefl by blast
    moreover have "filter (\<lambda>x. after_start fwd (Some (fst e)) (fst x)) zs = zs"
      using srt(2) by (simp add: filter_id_conv)
    ultimately show ?thesis unfolding R by simp
  qed
  finally show ?thesis .
qed

lemma keyed_entry:
  assumes "storage_wf s" "keyed (ts_key_schema s) (item_at (ts_data s))" "get_partition (ts_data s) pk = Some m" "e \<in> set m"
  obtains k where "extract_primary_key (ts_key_schema s) (snd e) = Inr k" "pk_partition_key k = pk"
    "rank (sort_key_of k) = rank (fst e)" "key_ok k"
proof -
  have m: "part_wf m" using assms by (auto simp: storage_wf_def get_partition_wf)
  then have "distinct (map fst (map (\<lambda>e. (rank (fst e), snd e)) m))"
    using part_ranks_distinct [OF m, of "()"] by (auto simp: distinct_map inj_on_def)
  then have "part_map m (rank (fst e)) = Some (snd e)"
    unfolding part_map_def using assms(4) by (intro map_of_is_SomeI) auto
  then have "item_at (ts_data s) (pk, rank (fst e)) = Some (snd e)"
    using assms by (simp add: storage_wf_def item_at_partition)
  then obtain k where "extract_primary_key (ts_key_schema s) (snd e) = Inr k" "abstract_key k = (pk, rank (fst e))" "key_ok k"
    using assms(2) unfolding keyed_def by blast
  then show thesis using that by (simp add: abstract_key_def)
qed

lemma last_key_built:
  assumes "extract_primary_key ks (snd e) = Inr k" "ks_sort_key ks \<noteq> None"
  shows "\<exists>sv. build_last_evaluated_key (ys @ [e]) pk ks = Some \<lparr>pk_partition_key = pk, pk_sort_key = Some sv\<rparr> \<and>
    sort_key_of k = sv"
  using assms
  by (auto simp: extract_primary_key_def build_last_evaluated_key_def key_attribute_value_def sort_key_of_def
        res_bind_Inr_iff res_map_Inr split: option.splits)

lemma query_page:
  assumes s: "storage_wf s" "keyed (ts_key_schema s) (item_at (ts_data s))" "ks_sort_key (ts_key_schema s) \<noteq> None"
    and p: "get_partition (ts_data s) pk = Some m"
    and ok: "case cond of None \<Rightarrow> True | Some c \<Rightarrow> condition_ok c" "start_ok cond start" "limit \<noteq> Some 0"
  obtains (all) "query pk cond fwd limit start s = Some (map snd (remaining m cond fwd start), None)"
    | (page) ys zs k where "query pk cond fwd limit start s = Some (map snd ys, Some \<lparr>pk_partition_key = pk, pk_sort_key = Some k\<rparr>)"
        "remaining m cond fwd start = ys @ zs" "ys \<noteq> []" "start_ok cond (Some k)" "remaining m cond fwd (Some k) = zs"
proof -
  let ?R = "remaining m cond fwd start" and ?sz = "\<lambda>e. calculate_item_size (snd e)"
  have m: "part_wf m" using s(1) p by (auto simp: storage_wf_def get_partition_wf)
  have coll: "collect_matching_items m cond fwd start = Some ?R"
    using collect_matching_correct [OF m ok(1,2)] by (simp add: remaining_def)
  obtain ys limited where t: "take_sized ?sz 0 False (take_limit limit ?R) = (ys, limited)" by fastforce
  obtain zs where zs: "?R = ys @ zs" "has_more limited (length ys) limit (length ?R) \<longleftrightarrow> zs \<noteq> []" "?R \<noteq> [] \<Longrightarrow> ys \<noteq> []"
    using page_split [OF t ok(3)] by blast
  have q: "query pk cond fwd limit start s =
      Some (map snd ys, if zs \<noteq> [] then build_last_evaluated_key ys pk (ts_key_schema s) else None)"
    using p coll t zs(2) by (simp add: query_def)
  show thesis
  proof (cases "zs = []")
    case True
    then show thesis using q zs(1) by (intro all) simp
  next
    case False
    then have "ys \<noteq> []" using zs by auto
    then obtain xs e where ys: "ys = xs @ [e]" by (metis rev_exhaust)
    have e: "e \<in> set ?R" using zs(1) ys by simp
    then have em: "e \<in> set m" "in_condition cond (fst e)" by (simp_all add: remaining_def)
    obtain k where k: "extract_primary_key (ts_key_schema s) (snd e) = Inr k"
        "rank (sort_key_of k) = rank (fst e)" "key_ok k"
      using keyed_entry [OF s(1,2) p em(1)] by blast
    have "start_ok cond (Some (sort_key_of k))"
    proof -
      have "in_condition cond (sort_key_of k)"
        using em in_condition_rank [OF ok(1) _ _ k(2)] k(3) m by (auto simp: key_ok_def part_wf_def)
      moreover have "cond \<noteq> Some (CondEq v)" for v
      proof
        assume c: "cond = Some (CondEq v)"
        then have "start = None" using ok(2) by (simp add: start_ok_def split: option.splits)
        then have "length ?R \<le> 1"
          using c find_filter [OF m, of v, symmetric] ok(1)
          by (simp add: remaining_def in_condition_def after_start_def directed_def split: option.split)
        then show False using zs(1) \<open>ys \<noteq> []\<close> False by (cases ys; cases zs) auto
      qed
      ultimately show ?thesis
        using k(3) by (cases cond) (auto simp: start_ok_def key_ok_def split: sort_key_condition.split)
    qed
    moreover have "remaining m cond fwd (Some (sort_key_of k)) = zs"
      using remaining_after [OF m _ k(2), of cond fwd start xs zs] zs(1) ys by simp
    moreover have "build_last_evaluated_key ys pk (ts_key_schema s) =
        Some \<lparr>pk_partition_key = pk, pk_sort_key = Some (sort_key_of k)\<rparr>"
      using last_key_built [OF k(1) s(3), of xs pk] ys by simp
    ultimately show thesis
      using q zs(1) \<open>ys \<noteq> []\<close> False by (intro page [of ys "sort_key_of k" zs]) simp_all
  qed
qed

lemma query_all_remaining:
  assumes s: "storage_wf s" "keyed (ts_key_schema s) (item_at (ts_data s))" "ks_sort_key (ts_key_schema s) \<noteq> None"
    and p: "get_partition (ts_data s) pk = Some m"
    and ok: "case cond of None \<Rightarrow> True | Some c \<Rightarrow> condition_ok c" "limit \<noteq> Some 0"
  shows "start_ok cond start \<Longrightarrow> length (remaining m cond fwd start) < n \<Longrightarrow>
    query_all n pk cond fwd limit start s = Some (map snd (remaining m cond fwd start))"
proof (induction n arbitrary: start)
  case (Suc n)
  show ?case
  proof (cases rule: query_page [OF s p ok(1) Suc.prems(1) ok(2), of fwd, case_names all page])
    case (page ys zs k)
    then have "query_all n pk cond fwd limit (Some k) s = Some (map snd zs)"
      using Suc.IH [of "Some k"] Suc.prems(2) by (cases ys) auto
    then show ?thesis using page by simp
  qed simp
qed simp

chapter \<open>Scans\<close>

text \<open>
  Scans: paging by the last evaluated key, the segments of a parallel scan, and the snapshot, which is
  one page of a scan.
\<close>

section \<open>Paging\<close>

fun scan_all ::
    "nat \<Rightarrow> (string \<Rightarrow> nat) \<Rightarrow> ((attribute_value \<times> partition) list \<Rightarrow> (attribute_value \<times> partition) list) \<Rightarrow>
     nat option \<Rightarrow> primary_key option \<Rightarrow> (nat \<times> nat) option \<Rightarrow> table_storage \<Rightarrow> item list option" where
  "scan_all 0 hash order limit start parallel s = None"
| "scan_all (Suc n) hash order limit start parallel s =
     Option.bind (scan hash order limit start parallel s) (\<lambda>(items, last_key).
       case last_key of
         None \<Rightarrow> Some items
       | Some k \<Rightarrow> map_option (\<lambda>rest. items @ rest) (scan_all n hash order limit (Some k) parallel s))"

text \<open>The keys of the entries of a scan.\<close>

definition scan_key :: "scan_entry \<Rightarrow> abstract_key" where
  "scan_key e = (fst e, rank (fst (snd e)))"

definition scan_ok :: "scan_entry list \<Rightarrow> bool" where
  "scan_ok xs \<longleftrightarrow> distinct (map scan_key xs) \<and> (\<forall>e\<in>set xs. sk_ok (fst (snd e)))"

lemma position_append: "\<forall>x\<in>set ys. \<not> P x \<Longrightarrow> P e \<Longrightarrow> position P (ys @ e # zs) = Some (length ys)"
  by (induction ys) auto

lemma sort_key_of_last: "sort_key_of (scan_last_key e) = fst (snd e)"
  by (cases "fst (snd e)") (simp_all add: sort_key_of_def scan_last_key_def)

lemma scan_start_after:
  assumes "scan_ok (ys @ e # zs)"
  shows "scan_start (Some (scan_last_key e)) (ys @ e # zs) = length ys + 1"
proof -
  let ?P = "\<lambda>x. fst x = fst e \<and> sk_cmp (fst (snd x)) (fst (snd e)) = OrdEqual"
  have "\<not> ?P x" if "x \<in> set ys" for x
  proof -
    have "scan_key x \<noteq> scan_key e" using assms imageI [OF that, of scan_key] by (auto simp: scan_ok_def)
    then show ?thesis using assms that by (auto simp: scan_ok_def scan_key_def sk_cmp_rank)
  qed
  moreover have "?P e" using assms by (simp add: scan_ok_def sk_cmp_rank)
  ultimately have "position ?P (ys @ e # zs) = Some (length ys)" by (intro position_append) auto
  then show ?thesis
    by (simp add: scan_start_def sort_key_of_last) (simp add: scan_last_key_def)
qed

lemma scan_page:
  assumes ok: "scan_ok xs" and xs: "scan_items hash order parallel s = xs"
    and z: "map_option snd parallel \<noteq> Some 0" and lim: "limit \<noteq> Some 0"
  obtains (all) "scan hash order limit start parallel s =
        Some (map (\<lambda>e. snd (snd e)) (drop (scan_start start xs) xs), None)"
    | (page) ys zs k where "scan hash order limit start parallel s = Some (map (\<lambda>e. snd (snd e)) ys, Some k)"
        "drop (scan_start start xs) xs = ys @ zs" "ys \<noteq> []" "drop (scan_start (Some k) xs) xs = zs"
proof -
  let ?R = "drop (scan_start start xs) xs" and ?sz = "\<lambda>e. calculate_item_size (snd (snd e))"
  obtain ys limited where t: "take_sized ?sz 0 False (take_limit limit ?R) = (ys, limited)" by fastforce
  obtain zs where zs: "?R = ys @ zs" "has_more limited (length ys) limit (length ?R) \<longleftrightarrow> zs \<noteq> []" "?R \<noteq> [] \<Longrightarrow> ys \<noteq> []"
    using page_split [OF t lim] by blast
  have q: "scan hash order limit start parallel s =
      Some (map (\<lambda>e. snd (snd e)) ys, if zs \<noteq> [] \<and> ys \<noteq> [] then Some (scan_last_key (last ys)) else None)"
    using xs t zs(2) z by (auto simp: scan_def Let_def)
  show thesis
  proof (cases "zs = []")
    case True
    then show thesis using q zs(1) by (intro all) simp
  next
    case False
    then have ne: "ys \<noteq> []" using zs by auto
    then obtain vs e where ys: "ys = vs @ [e]" by (metis rev_exhaust)
    define us where "us = take (scan_start start xs) xs @ vs"
    have split: "xs = us @ e # zs"
      using zs(1) ys by (metis append_Cons append_Nil append_assoc append_take_drop_id us_def)
    then have "scan_start (Some (scan_last_key e)) xs = length us + 1"
      using ok scan_start_after by simp
    then have "drop (scan_start (Some (scan_last_key e)) xs) xs = zs"
      using split by simp
    then show thesis using q zs(1) ne False ys by (intro page [of ys _ zs]) simp_all
  qed
qed

lemma scan_all_rest:
  assumes "scan_ok (scan_items hash order parallel s)" "map_option snd parallel \<noteq> Some 0" "limit \<noteq> Some 0"
  shows "length (drop (scan_start start (scan_items hash order parallel s)) (scan_items hash order parallel s)) < n \<Longrightarrow>
    scan_all n hash order limit start parallel s =
      Some (map (\<lambda>e. snd (snd e)) (drop (scan_start start (scan_items hash order parallel s)) (scan_items hash order parallel s)))"
proof (induction n arbitrary: start)
  case (Suc n)
  show ?case
  proof (cases rule: scan_page [OF assms(1) refl assms(2,3), of start, case_names all page])
    case (page ys zs k)
    then obtain y ys' where "ys = y # ys'" by (cases ys) auto
    then have "scan_all n hash order limit (Some k) parallel s = Some (map (\<lambda>e. snd (snd e)) zs)"
      using Suc.IH [of "Some k"] Suc.prems unfolding page(2,4) by simp
    then show ?thesis using page by simp
  qed simp
qed simp

section \<open>What a scan visits\<close>

definition rows :: "attribute_value \<times> partition \<Rightarrow> scan_entry list" where
  "rows d = map (\<lambda>x. (fst d, fst x, snd x)) (snd d)"

lemma scan_items_rows:
  "scan_items hash order parallel s =
     concat (map rows (filter (\<lambda>d. case parallel of None \<Rightarrow> True
         | Some (seg, n) \<Rightarrow> partition_key_segment hash (fst d) n = seg)
       (sort_key (\<lambda>d. display_key (fst d)) (order (ts_data s)))))"
  by (simp add: scan_items_def rows_def [abs_def])

lemma mset_concat_map: "mset (concat (map f xs)) = (\<Sum>x\<in>#mset xs. mset (f x))"
  by (induction xs) auto

lemma entries_rows: "entries data = map (\<lambda>e. (scan_key e, snd (snd e))) (concat (map rows data))"
  by (induction data) (auto simp: rows_def scan_key_def)

text \<open>Whatever the iteration order of the map, a scan visits every entry of its segment once.\<close>

lemma mset_scan_items:
  assumes "\<And>d. mset (order d) = mset d"
  shows "mset (scan_items hash order parallel s) =
    mset (concat (map rows (filter (\<lambda>d. case parallel of None \<Rightarrow> True
         | Some (seg, n) \<Rightarrow> partition_key_segment hash (fst d) n = seg) (ts_data s))))"
  unfolding scan_items_rows mset_concat_map by (simp add: mset_filter assms)

lemma in_concat_map: "e \<in> set (concat (map f ds)) \<Longrightarrow> \<exists>d. d \<in> set ds \<and> e \<in> set (f d)"
  by auto

lemma scan_items_ok:
  assumes "storage_wf s" "\<And>d. mset (order d) = mset d"
  shows "scan_ok (scan_items hash order parallel s)"
proof -
  let ?ds = "filter (\<lambda>d. case parallel of None \<Rightarrow> True
         | Some (seg, n) \<Rightarrow> partition_key_segment hash (fst d) n = seg) (ts_data s)"
  have wf: "data_wf ?ds"
    using assms(1) by (auto simp: storage_wf_def data_wf_def distinct_map_filter)
  have "mset (map scan_key (scan_items hash order parallel s)) = mset (map fst (entries ?ds))"
    by (simp add: mset_scan_items [OF assms(2)] entries_rows comp_def)
  then have "distinct (map scan_key (scan_items hash order parallel s))"
    using entries_distinct [OF wf] by (metis mset_eq_imp_distinct_iff)
  moreover have "sk_ok (fst (snd e))" if "e \<in> set (scan_items hash order parallel s)" for e
  proof -
    have eq: "set (scan_items hash order parallel s) = set (concat (map rows ?ds))"
      by (rule mset_eq_setD [OF mset_scan_items [OF assms(2)]])
    have "e \<in> set (concat (map rows ?ds))" unfolding eq [symmetric] using that .
    then obtain d where d: "d \<in> set ?ds" "e \<in> set (rows d)" using in_concat_map by fast
    then have "part_wf (snd d)" using wf unfolding data_wf_def by blast
    then show ?thesis using d(2) by (auto simp: rows_def part_wf_def)
  qed
  ultimately show ?thesis by (simp add: scan_ok_def)
qed

text \<open>The items of the table, as a multiset over the abstract map.\<close>

definition table_items :: "abstract_table \<Rightarrow> item multiset" where
  "table_items t = image_mset (\<lambda>k. the (t k)) (mset_set (dom t))"

lemma table_items_entries:
  assumes "data_wf data"
  shows "table_items (item_at data) = mset (map snd (entries data))"
proof -
  have d: "distinct (map fst (entries data))" using assms by (rule entries_distinct)
  have "mset_set (dom (item_at data)) = mset (map fst (entries data))"
    using d by (simp only: item_at_def dom_map_of_conv_image_fst mset_set_set [OF d, symmetric] set_map)
  then have "table_items (item_at data) = mset (map (\<lambda>e. the (item_at data (fst e))) (entries data))"
    by (simp add: table_items_def image_mset.compositionality comp_def)
  also have "map (\<lambda>e. the (item_at data (fst e))) (entries data) = map snd (entries data)"
    using d by (intro map_cong) (auto simp: item_at_def)
  finally show ?thesis .
qed

lemma sum_over_segments:
  "\<forall>d\<in>set ds. g d < n \<Longrightarrow> (\<Sum>i<n. mset (concat (map f (filter (\<lambda>d. g d = i) ds)))) = mset (concat (map f ds))"
  for n :: nat
proof (induction ds)
  case (Cons d ds)
  have "(\<Sum>i<n. mset (concat (map f (filter (\<lambda>d. g d = i) (d # ds))))) =
      (\<Sum>i<n. (if i = g d then mset (f d) else {#}) + mset (concat (map f (filter (\<lambda>d. g d = i) ds))))"
    by (intro sum.cong) auto
  also have "\<dots> = mset (f d) + mset (concat (map f ds))"
  proof -
    have "(\<Sum>i<n. if i = g d then mset (f d) else {#}) = mset (f d)"
      using Cons.prems by (subst sum.delta) auto
    then show ?thesis using Cons by (simp add: sum.distrib)
  qed
  finally show ?case by simp
qed simp

lemma mset_concat_nth: "mset (concat (map h [0..<n])) = (\<Sum>i<n. mset (h i))"
  by (induction n) (auto simp: add.commute)

text \<open>The segments of a parallel scan share no item and miss none.\<close>

lemma segments_complete:
  assumes "\<And>d. mset (order d) = mset d" "0 < n"
  shows "mset (concat (map (\<lambda>i. map (\<lambda>e. snd (snd e)) (scan_items hash order (Some (i, n)) s)) [0..<n])) =
    mset (map snd (entries (ts_data s)))"
proof -
  have "mset (concat (map (\<lambda>i. scan_items hash order (Some (i, n)) s) [0..<n])) = mset (concat (map rows (ts_data s)))"
    unfolding mset_concat_nth mset_scan_items [OF assms(1)]
    using assms(2) by (simp add: sum_over_segments partition_key_segment_def)
  then have "image_mset (\<lambda>e. snd (snd e)) (mset (concat (map (\<lambda>i. scan_items hash order (Some (i, n)) s) [0..<n]))) =
      image_mset (\<lambda>e. snd (snd e)) (mset (concat (map rows (ts_data s))))"
    by simp
  then show ?thesis by (simp add: entries_rows map_concat comp_def flip: mset_map)
qed

section \<open>Snapshots\<close>

lemma take_sized_bound:
  "take_sized sz cum True xs = (ys, limited) \<Longrightarrow> ys = [] \<or> cum + sum_list (map sz ys) \<le> max_response_bytes"
proof (induction xs arbitrary: cum ys)
  case (Cons x xs)
  show ?case
  proof (cases "cum + sz x > max_response_bytes")
    case False
    then obtain zs where zs: "take_sized sz (cum + sz x) True xs = (zs, limited)" "ys = x # zs"
      using Cons.prems by (auto split: prod.splits)
    then show ?thesis using Cons.IH [OF zs(1)] False by auto
  qed (use Cons.prems in simp)
qed simp

text \<open>A snapshot holds one page: no more than 1 MiB, unless it is a single item.\<close>

lemma snapshot_bound:
  assumes "snapshot_items hash order s = Some items"
  shows "length items \<le> 1 \<or> sum_list (map calculate_item_size items) \<le> max_response_bytes"
proof -
  let ?xs = "scan_items hash order None s" and ?sz = "\<lambda>e. calculate_item_size (snd (snd e))"
  obtain ys limited where t: "take_sized ?sz 0 False ?xs = (ys, limited)" by fastforce
  have items: "items = map (\<lambda>e. snd (snd e)) ys"
    using assms t by (simp add: snapshot_items_def scan_def take_limit_def scan_start_def Let_def)
  show ?thesis
  proof (cases ?xs)
    case (Cons x xs)
    then obtain zs where zs: "take_sized ?sz (?sz x) True xs = (zs, limited)" "ys = x # zs"
      using t by (auto split: prod.splits)
    then show ?thesis using take_sized_bound [OF zs(1)] by (auto simp: items comp_def)
  qed (use t items in simp)
qed

lemma snapshot_prefix:
  assumes "snapshot_items hash order s = Some items"
  shows "items = take (length items) (map (\<lambda>e. snd (snd e)) (scan_items hash order None s))"
proof -
  let ?xs = "scan_items hash order None s"
  obtain ys limited where t: "take_sized (\<lambda>e. calculate_item_size (snd (snd e))) 0 False ?xs = (ys, limited)" by fastforce
  then have "items = map (\<lambda>e. snd (snd e)) ys"
    using assms by (simp add: snapshot_items_def scan_def take_limit_def scan_start_def Let_def)
  moreover have "ys = take (length ys) ?xs" using take_sized_prefix [OF t] by simp
  ultimately show ?thesis by (metis length_map take_map)
qed

lemma scan_counts:
  assumes "storage_wf s" "\<And>d. mset (order d) = mset d"
  shows "length (scan_items hash order None s) = ts_item_count s"
    "sum_list (map calculate_item_size (map (\<lambda>e. snd (snd e)) (scan_items hash order None s))) = ts_total_size s"
proof -
  let ?f = "\<lambda>e. snd (snd e)"
  have m: "mset (map ?f (scan_items hash order None s)) = mset (map snd (entries (ts_data s)))"
    using mset_scan_items [OF assms(2), of hash None s] by (simp add: entries_rows comp_def)
  then have "length (map ?f (scan_items hash order None s)) = length (map snd (entries (ts_data s)))"
    by (rule mset_eq_length)
  then show "length (scan_items hash order None s) = ts_item_count s"
    using assms(1) by (simp add: storage_wf_def entries_counts)
  have "sum_list (map calculate_item_size (map ?f (scan_items hash order None s))) =
      sum_mset (image_mset calculate_item_size (mset (map ?f (scan_items hash order None s))))"
    by (simp only: mset_map sum_mset_sum_list [symmetric])
  also have "\<dots> = sum_list (map calculate_item_size (map snd (entries (ts_data s))))"
    unfolding m by (simp only: mset_map [symmetric] sum_mset_sum_list)
  finally show "sum_list (map calculate_item_size (map ?f (scan_items hash order None s))) = ts_total_size s"
    using assms(1) by (simp add: storage_wf_def entries_counts comp_def)
qed

lemma snapshot_truncates:
  assumes "storage_wf s" "\<And>d. mset (order d) = mset d" "1 < ts_item_count s" "max_response_bytes < ts_total_size s"
  shows "\<exists>items. snapshot_items hash order s = Some items \<and> length items < ts_item_count s"
proof -
  let ?is = "map (\<lambda>e. snd (snd e)) (scan_items hash order None s)"
  have "snapshot_items hash order s \<noteq> None"
    by (simp add: snapshot_items_def scan_def Let_def split: prod.split)
  then obtain items where items: "snapshot_items hash order s = Some items" by blast
  have "length items < ts_item_count s"
  proof (rule ccontr)
    assume "\<not> length items < ts_item_count s"
    then have "length ?is \<le> length items" using scan_counts [OF assms(1,2)] by simp
    moreover note pre = snapshot_prefix [OF items]
    ultimately have "items = ?is" by (metis take_all)
    then show False
      using snapshot_bound [OF items] scan_counts [OF assms(1,2), of hash] assms(3,4) by auto
  qed
  then show ?thesis using items by blast
qed

lemma mset_concat_filter: "mset (concat (map f (filter P ds))) \<subseteq># mset (concat (map f ds))"
  by (induction ds) (auto intro: subset_mset.add_increasing)

text \<open>All pages of all segments.\<close>

lemma parallel_scan_pages:
  assumes "storage_wf s" "\<And>d. mset (order d) = mset d" "0 < n" "limit \<noteq> Some 0"
  shows "\<exists>pages. length pages = n \<and>
      (\<forall>i<n. scan_all (ts_item_count s + 1) hash order limit None (Some (i, n)) s = Some (pages ! i)) \<and>
      mset (concat pages) = table_items (item_at (ts_data s))"
proof (intro exI conjI allI impI)
  let ?page = "\<lambda>i. map (\<lambda>e. snd (snd e)) (scan_items hash order (Some (i, n)) s)"
  let ?pages = "map ?page [0..<n]"
  show "length ?pages = n" by simp
  show "mset (concat ?pages) = table_items (item_at (ts_data s))"
    using assms by (simp add: segments_complete table_items_entries storage_wf_def)
  fix i assume i: "i < n"
  have "length (scan_items hash order (Some (i, n)) s) \<le> length (scan_items hash order None s)"
  proof -
    have "mset (scan_items hash order (Some (i, n)) s) \<subseteq># mset (scan_items hash order None s)"
      unfolding mset_scan_items [OF assms(2)]
      using mset_concat_filter [of rows _ "ts_data s"] by simp
    then show ?thesis by (metis size_mset size_mset_mono)
  qed
  then show "scan_all (ts_item_count s + 1) hash order limit None (Some (i, n)) s = Some (?pages ! i)"
    using scan_all_rest [of hash order "Some (i, n)" s limit None "ts_item_count s + 1"]
      scan_items_ok [OF assms(1,2)] scan_counts(1) [OF assms(1,2), of hash] assms(3,4) i
    by (simp add: scan_start_def)
qed

end
