(* ===== verification/Dynamo_Table_Properties.thy ===== *)
theory Dynamo_Table_Properties
  imports Dynamo_Pages
begin

text \<open>
  The properties of the storage of a DynamoDB table, each with a witness that applies it to a small
  table with a string partition key and a string sort key.
\<close>

section \<open>The table is a map\<close>

text \<open>C25. A table implements a finite map from keys to items, where sort keys that compare equal are one
  key: on every sequence of puts, gets and deletes it answers as the map does, errors included, and
  its counters are the number of items and the sum of their sizes. Numbers in sort keys must be
  numbers.\<close>

theorem table_is_a_map:
  assumes "\<forall>p\<in>set ops. op_ok ks p"
  shows "fst (run_answers table_step ops (new_storage ks)) = fst (run_answers (table_spec ks) ops Map.empty) \<and>
    ts_item_count (snd (run_answers table_step ops (new_storage ks))) =
      card (dom (snd (run_answers (table_spec ks) ops Map.empty))) \<and>
    ts_total_size (snd (run_answers table_step ops (new_storage ks))) =
      table_size (snd (run_answers (table_spec ks) ops Map.empty))"
  using run_refines [of "new_storage ks" ops] storage_counts [of "snd (run_answers table_step ops (new_storage ks))"]
    assms by simp

definition demo_schema :: key_schema where
  "demo_schema = \<lparr>ks_partition_key = \<lparr>ka_name = ''p'', ka_type = ScalarS\<rparr>,
     ks_sort_key = Some \<lparr>ka_name = ''r'', ka_type = ScalarS\<rparr>\<rparr>"

definition demo_row :: "string \<Rightarrow> string \<Rightarrow> item" where
  "demo_row p r = [(''p'', AvS p), (''r'', AvS r)]"

definition demo_key :: "string \<Rightarrow> string \<Rightarrow> primary_key" where
  "demo_key p r = \<lparr>pk_partition_key = AvS p, pk_sort_key = Some (SkS r)\<rparr>"

definition demo_ops :: "table_op list" where
  "demo_ops = [TPut (demo_row ''x'' ''b''), TPut (demo_row ''x'' ''ac''), TPut (demo_row ''y'' ''b''),
     TPut [(''r'', AvS ''b'')], TPut (demo_row ''x'' ''ab''), TDelete (demo_key ''y'' ''b''),
     TGet (demo_key ''x'' ''b'')]"

lemma demo_extract: "extract_primary_key demo_schema (demo_row p r) = Inr (demo_key p r)"
  by (simp add: demo_schema_def demo_row_def demo_key_def extract_primary_key_def key_attribute_value_def)

lemma demo_extract_missing:
  "extract_primary_key demo_schema [(''r'', v)] = Inl (MissingKeyAttribute ''p'')"
  by (simp add: demo_schema_def extract_primary_key_def key_attribute_value_def)

lemma demo_ops_ok: "\<forall>p\<in>set demo_ops. op_ok demo_schema p"
  by (simp add: demo_ops_def demo_extract demo_extract_missing key_ok_def sort_key_of_def demo_key_def)

theorem table_is_a_map_witness:
  "fst (run_answers table_step demo_ops (new_storage demo_schema)) =
     fst (run_answers (table_spec demo_schema) demo_ops Map.empty) \<and>
   ts_item_count (snd (run_answers table_step demo_ops (new_storage demo_schema))) =
     card (dom (snd (run_answers (table_spec demo_schema) demo_ops Map.empty))) \<and>
   ts_total_size (snd (run_answers table_step demo_ops (new_storage demo_schema))) =
     table_size (snd (run_answers (table_spec demo_schema) demo_ops Map.empty))"
  by (rule table_is_a_map [OF demo_ops_ok])

section \<open>Queries\<close>

text \<open>C26. Following the last evaluated keys of a query yields exactly the items of the partition whose sort
  key satisfies the condition (as \<^verbatim>\<open>SortKeyCondition::matches\<close> decides it), in the order of the
  query, each once: for every table that a sequence of operations builds, with any positive limit,
  with the 1 MiB limit of a page, in both directions, provided that \<open>condition_ok\<close> holds of the condition.
  It asks three things: the numbers that the condition compares with are numbers; \<^verbatim>\<open>BETWEEN\<close> has a lower
  bound that is not above its upper bound; and the text of \<^verbatim>\<open>begins_with\<close> is one whose last byte can be
  incremented without leaving UTF-8. Under it no page of this sequence panics, and the pages end. Without
  it the query may panic instead (\<open>inverted_between_panics\<close>, \<open>begins_with_panics\<close>), and so may a page
  that starts from a key that no page returned (\<open>start_key_panics\<close>).\<close>

theorem query_pages_complete:
  assumes "\<forall>p\<in>set ops. op_ok ks p" "ks_sort_key ks \<noteq> None"
    and "get_partition (ts_data (snd (run_answers table_step ops (new_storage ks)))) pk = Some m"
    and "case cond of None \<Rightarrow> True | Some c \<Rightarrow> condition_ok c" "limit \<noteq> Some 0"
  shows "query_all (length m + 1) pk cond fwd limit None (snd (run_answers table_step ops (new_storage ks))) =
    Some (map snd (directed fwd (filter (\<lambda>e. in_condition cond (fst e)) m)))"
proof -
  let ?s = "snd (run_answers table_step ops (new_storage ks))"
  have s: "storage_wf ?s" "ts_key_schema ?s = ks"
    using run_refines [of "new_storage ks" ops] assms(1) by simp_all
  moreover have "keyed (ts_key_schema ?s) (item_at (ts_data ?s))"
    using storage_keyed [OF assms(1)] s by simp
  moreover have "length (remaining m cond fwd None) < length m + 1"
    by (simp add: remaining_def directed_def less_Suc_eq_le)
  ultimately show ?thesis
    using query_all_remaining [of ?s pk m cond limit None fwd "length m + 1"] assms
    by (simp add: start_ok_def remaining_def after_start_def)
qed

definition demo_part :: partition where
  "demo_part = [(SkS ''ab'', demo_row ''x'' ''ab''), (SkS ''ac'', demo_row ''x'' ''ac''), (SkS ''b'', demo_row ''x'' ''b'')]"

lemma demo_table:
  "ts_data (snd (run_answers table_step demo_ops (new_storage demo_schema))) = [(AvS ''x'', demo_part), (AvS ''y'', [])]"
  by (simp add: demo_ops_def new_storage_def put_item_def demo_extract demo_extract_missing put_prepared_def demo_key_def
      demo_part_def sort_key_of_def get_partition_def delete_item_def ord_cmp_def less_char_def Let_def)

theorem query_pages_complete_witness:
  "query_all 4 (AvS ''x'') (Some (CondBeginsWithStr ''a'')) False (Some 1) None
     (snd (run_answers table_step demo_ops (new_storage demo_schema))) =
   Some [demo_row ''x'' ''ac'', demo_row ''x'' ''ab'']"
proof -
  have ok: "condition_ok (CondBeginsWithStr ''a'')" by code_simp
  have "query_all (length demo_part + 1) (AvS ''x'') (Some (CondBeginsWithStr ''a'')) False (Some 1) None
     (snd (run_answers table_step demo_ops (new_storage demo_schema))) =
    Some (map snd (directed False (filter (\<lambda>e. in_condition (Some (CondBeginsWithStr ''a'')) (fst e)) demo_part)))"
    by (rule query_pages_complete [OF demo_ops_ok]) (simp_all add: demo_table get_partition_def ok
        del: condition_ok.simps, simp add: demo_schema_def)
  moreover have "length demo_part + 1 = 4" by (simp add: demo_part_def)
  ultimately show ?thesis
    by (simp add: demo_part_def in_condition_def starts_with_def directed_def eval_nat_numeral del: query_all.simps)
qed

section \<open>Scans\<close>

text \<open>C27. A parallel scan is complete: the pages of the segments, each followed to its end by the last
  evaluated keys, together hold every item of the table exactly once, for every number of segments,
  every positive limit, every hash function and every iteration order of the map of partitions.\<close>

theorem parallel_scan_complete:
  assumes "\<forall>p\<in>set ops. op_ok ks p" "\<forall>d. mset (order d) = mset d" "0 < n" "limit \<noteq> Some 0"
  shows "\<exists>pages. length pages = n \<and>
      (\<forall>i<n. scan_all (ts_item_count (snd (run_answers table_step ops (new_storage ks))) + 1) hash order limit None
         (Some (i, n)) (snd (run_answers table_step ops (new_storage ks))) = Some (pages ! i)) \<and>
      mset (concat pages) = table_items (snd (run_answers (table_spec ks) ops Map.empty))"
  using parallel_scan_pages [of "snd (run_answers table_step ops (new_storage ks))" order n limit hash]
    run_refines [of "new_storage ks" ops] assms by simp

theorem parallel_scan_complete_witness:
  "\<exists>pages. length pages = 2 \<and>
      (\<forall>i<2. scan_all (ts_item_count (snd (run_answers table_step demo_ops (new_storage demo_schema))) + 1) length rev
         (Some 1) None (Some (i, 2)) (snd (run_answers table_step demo_ops (new_storage demo_schema))) = Some (pages ! i)) \<and>
      mset (concat pages) = table_items (snd (run_answers (table_spec demo_schema) demo_ops Map.empty))"
  by (rule parallel_scan_complete [OF demo_ops_ok]) simp_all

text \<open>The snapshot of a table is one page of a scan: whenever a table of at least two items holds more
  than 1 MiB, its snapshot leaves out items.\<close>

theorem snapshot_leaves_out_items:
  assumes "\<forall>p\<in>set ops. op_ok ks p" "\<forall>d. mset (order d) = mset d"
    and "1 < card (dom (snd (run_answers (table_spec ks) ops Map.empty)))"
    and "1048576 < table_size (snd (run_answers (table_spec ks) ops Map.empty))"
  shows "\<exists>items. snapshot_items hash order (snd (run_answers table_step ops (new_storage ks))) = Some items \<and>
    length items < ts_item_count (snd (run_answers table_step ops (new_storage ks)))"
  using snapshot_truncates [of "snd (run_answers table_step ops (new_storage ks))" order hash]
    run_refines [of "new_storage ks" ops] storage_counts [of "snd (run_answers table_step ops (new_storage ks))"]
    assms by (simp add: max_response_bytes_def)

definition long_row :: "string \<Rightarrow> item" where
  "long_row r = [(''p'', AvS ''x''), (''r'', AvS r), (''v'', AvS (replicate 600000 (CHR ''a'')))]"

lemma long_extract: "extract_primary_key demo_schema (long_row r) = Inr (demo_key ''x'' r)"
  by (simp add: demo_schema_def long_row_def demo_key_def extract_primary_key_def key_attribute_value_def)

lemma long_size: "calculate_item_size (long_row r) = 600004 + length r"
  by (simp add: long_row_def calculate_item_size_def)

theorem snapshot_leaves_out_items_witness:
  "\<exists>items. snapshot_items length rev
      (snd (run_answers table_step [TPut (long_row ''a''), TPut (long_row ''b'')] (new_storage demo_schema))) = Some items \<and>
    length items < ts_item_count
      (snd (run_answers table_step [TPut (long_row ''a''), TPut (long_row ''b'')] (new_storage demo_schema)))"
proof (rule snapshot_leaves_out_items)
  let ?t = "snd (run_answers (table_spec demo_schema) [TPut (long_row ''a''), TPut (long_row ''b'')] Map.empty)"
  have t: "?t = [(AvS ''x'', 0, 0, ''a'') \<mapsto> long_row ''a'', (AvS ''x'', 0, 0, ''b'') \<mapsto> long_row ''b'']"
    by (simp add: long_extract abstract_key_def demo_key_def sort_key_of_def)
  show "1 < card (dom ?t)" unfolding t by simp
  show "1048576 < table_size ?t" unfolding t by (simp add: table_size_def long_size)
qed (simp_all add: long_extract key_ok_def sort_key_of_def demo_key_def)

section \<open>Where a query panics\<close>

text \<open>The upper bound of \<^verbatim>\<open>begins_with\<close> increments the last byte and repairs the result to UTF-8. When the
  prefix ends in a character whose last byte is \<^verbatim>\<open>0xBF\<close> and whose first byte is above \<^verbatim>\<open>0xEF\<close> (such as
  \<^verbatim>\<open>U+1F63F\<close>, the bytes \<^verbatim>\<open>F0 9F 98 BF\<close>), the repaired bound lies below the prefix, and the range panics.\<close>

definition crying_cat :: string where
  "crying_cat = map char_of [240, 159, 152, 191 :: nat]"

lemma crying_cat_bound:
  "compute_str_prefix_upper_bound crying_cat = Some (SkS (map char_of [239, 191, 189, 239, 191, 189 :: nat]))"
  by code_simp

lemma begins_with_panics:
  "get_partition (ts_data s) pk = Some m \<Longrightarrow>
     query pk (Some (CondBeginsWithStr crying_cat)) fwd limit None s = None"
proof -
  have "sk_cmp (SkS crying_cat) (SkS (map char_of [239, 191, 189, 239, 191, 189 :: nat])) = OrdGreater"
    by code_simp
  moreover assume "get_partition (ts_data s) pk = Some m"
  ultimately show ?thesis
    by (simp add: query_def collect_matching_items_def crying_cat_bound collect_begins_with_def om_range_def
        del: sk_cmp.simps)
qed

text \<open>The bounds of \<^verbatim>\<open>BETWEEN\<close> are not compared before the range is taken.\<close>

lemma inverted_between_panics:
  assumes "get_partition (ts_data s) pk = Some m" "sk_cmp lo hi = OrdGreater"
  shows "query pk (Some (CondBetween lo hi)) fwd limit None s = None"
  using assms
  by (simp add: query_def collect_matching_items_def collect_range_def raise_lower_def cut_upper_def om_range_def)

text \<open>A start key at or beyond the end of the interval makes the range empty or inverted, and it panics.\<close>

lemma start_key_panics:
  assumes "get_partition (ts_data s) pk = Some m" "sk_cmp k v \<noteq> OrdLess"
  shows "query pk (Some (CondLt v)) True limit (Some k) s = None"
  using assms
  by (simp add: query_def collect_matching_items_def collect_range_def raise_lower_def om_range_def)

text \<open>An equality condition ignores the start key: the page is answered again.\<close>

lemma equality_ignores_start_key:
  "query pk (Some (CondEq v)) fwd limit (Some k) s = query pk (Some (CondEq v)) fwd limit None s"
  by (simp add: query_def collect_matching_items_def split: option.split)

end
