(* ===== verification/Dynamo_Request.thy ===== *)
theory Dynamo_Request
  imports Dynamo_Grammar Dynamo_Update Dynamo_Storage
begin

text \<open>
  The part of a DynamoDB request that does not depend on the state (\<^verbatim>\<open>provider.rs\<close>): errors, the
  validators, the legacy parameters and their conversion to expressions, the paths of an update and
  the values an update returns. A validator is a truth value, since every refusal is the same
  \<^verbatim>\<open>ValidationException\<close> and texts are not modelled. A \<^verbatim>\<open>HashMap\<close> is its key-sorted list of entries.
\<close>

section \<open>Errors\<close>

datatype cancellation_code = Reason_None | Reason_ConditionalCheckFailed | Reason_Validation

text \<open>\<open>DE_Panicked\<close> is a panic of the handler, and \<open>DE_NoAnswer\<close> a parser that does not return, which
  never happens.\<close>

datatype dynamo_error =
    DE_Validation
  | DE_ResourceNotFound
  | DE_ResourceInUse
  | DE_ConditionalCheckFailed "item option"
  | DE_TransactionCanceled "(cancellation_code \<times> item option) list"
  | DE_IdempotentParameterMismatch
  | DE_RequestLimitExceeded
  | DE_Panicked
  | DE_NoAnswer

definition ensure :: "bool \<Rightarrow> dynamo_error + 'a \<Rightarrow> dynamo_error + 'a" where
  "ensure ok r = (if ok then r else Inl DE_Validation)"

lemma ensure_Inr [simp]: "ensure ok r = Inr x \<longleftrightarrow> ok \<and> r = Inr x"
  by (simp add: ensure_def)

text \<open>\<^verbatim>\<open>storage_error_to_dynamodb\<close> and \<^verbatim>\<open>expression_error_to_dynamodb\<close>.\<close>

fun storage_error_to_dynamodb :: "storage_error + 'a \<Rightarrow> dynamo_error + 'a" where
  "storage_error_to_dynamodb (Inl e) = Inl DE_Validation"
| "storage_error_to_dynamodb (Inr x) = Inr x"

fun expression_error_to_dynamodb :: "expression_error + 'a \<Rightarrow> dynamo_error + 'a" where
  "expression_error_to_dynamodb (Inl e) = Inl DE_Validation"
| "expression_error_to_dynamodb (Inr x) = Inr x"

fun eval_error_to_dynamodb :: "eval_error + 'a \<Rightarrow> dynamo_error + 'a" where
  "eval_error_to_dynamodb (Inl Panicked) = Inl DE_Panicked"
| "eval_error_to_dynamodb (Inl (EvalError e)) = Inl DE_Validation"
| "eval_error_to_dynamodb (Inr x) = Inr x"

definition parse_answer :: "(expression_error + 'a) option \<Rightarrow> dynamo_error + 'a" where
  "parse_answer r = (case r of None \<Rightarrow> Inl DE_NoAnswer | Some p \<Rightarrow> expression_error_to_dynamodb p)"

lemma storage_error_Inr [simp]: "storage_error_to_dynamodb r = Inr x \<longleftrightarrow> r = Inr x"
  by (cases r) auto

lemma expression_error_Inr [simp]: "expression_error_to_dynamodb r = Inr x \<longleftrightarrow> r = Inr x"
  by (cases r) auto

lemma eval_error_Inr [simp]: "eval_error_to_dynamodb r = Inr x \<longleftrightarrow> r = Inr x"
  by (cases r rule: eval_error_to_dynamodb.cases) auto

lemma parse_answer_Inr [simp]: "parse_answer r = Inr x \<longleftrightarrow> r = Some (Inr x)"
  by (auto simp: parse_answer_def split: option.split)

section \<open>Names and keys\<close>

definition validate_table_name :: "string \<Rightarrow> bool" where
  "validate_table_name name \<longleftrightarrow> 3 \<le> length name \<and> length name \<le> 255 \<and>
     list_all (\<lambda>c. is_ascii_alphanumeric c \<or> c = CHR ''.'' \<or> c = CHR ''_'' \<or> c = CHR ''-'') name"

definition key_attributes :: "key_schema \<Rightarrow> key_attribute list" where
  "key_attributes ks = ks_partition_key ks # (case ks_sort_key ks of None \<Rightarrow> [] | Some sk \<Rightarrow> [sk])"

definition is_key_attribute :: "string \<Rightarrow> key_schema \<Rightarrow> bool" where
  "is_key_attribute name ks \<longleftrightarrow> name = ka_name (ks_partition_key ks) \<or>
     (case ks_sort_key ks of None \<Rightarrow> False | Some sk \<Rightarrow> name = ka_name sk)"

fun key_value_length :: "attribute_value \<Rightarrow> nat" where
  "key_value_length (AvS s) = length s"
| "key_value_length (AvB b) = length b"
| "key_value_length _ = 0"

definition validate_key_not_empty :: "key_schema \<Rightarrow> item \<Rightarrow> bool" where
  "validate_key_not_empty ks it \<longleftrightarrow>
     list_all (\<lambda>ka. case bt_get it (ka_name ka) of
         None \<Rightarrow> True
       | Some v \<Rightarrow>
           int (key_value_length v) \<le> (if ka_name ka = ka_name (ks_partition_key ks) then 2048 else 1024) \<and>
           v \<noteq> AvS [] \<and> v \<noteq> AvB [])
       (key_attributes ks)"

definition validate_key_only_has_key_attrs :: "key_schema \<Rightarrow> item \<Rightarrow> bool" where
  "validate_key_only_has_key_attrs ks key \<longleftrightarrow> list_all (\<lambda>name. is_key_attribute name ks) (bt_keys key)"

definition validate_key_types :: "key_schema \<Rightarrow> item \<Rightarrow> bool" where
  "validate_key_types ks key \<longleftrightarrow>
     list_all (\<lambda>ka. case bt_get key (ka_name ka) of
         None \<Rightarrow> True
       | Some v \<Rightarrow> is_ok (validate_key_type (ka_name ka) (ka_type ka) v))
       (key_attributes ks)"

definition validate_no_duplicate_attributes_to_get :: "string list \<Rightarrow> bool" where
  "validate_no_duplicate_attributes_to_get attrs \<longleftrightarrow> distinct attrs"

definition item_has_only_key_attrs :: "item \<Rightarrow> key_schema \<Rightarrow> bool" where
  "item_has_only_key_attrs it ks \<longleftrightarrow> list_all (\<lambda>k. is_key_attribute k ks) (bt_keys it)"

text \<open>The equality of keys that the code derives: sort keys are equal when they compare equal.\<close>

definition primary_key_eq :: "primary_key \<Rightarrow> primary_key \<Rightarrow> bool" where
  "primary_key_eq a b \<longleftrightarrow> pk_partition_key a = pk_partition_key b \<and>
     (case (pk_sort_key a, pk_sort_key b) of
        (None, None) \<Rightarrow> True
      | (Some x, Some y) \<Rightarrow> sk_cmp x y = OrdEqual
      | _ \<Rightarrow> False)"

fun has_duplicate :: "('a \<Rightarrow> 'a \<Rightarrow> bool) \<Rightarrow> 'a list \<Rightarrow> 'a list \<Rightarrow> bool" where
  "has_duplicate eq seen [] = False"
| "has_duplicate eq seen (x # xs) = (list_ex (eq x) seen \<or> has_duplicate eq (x # seen) xs)"

text \<open>Items without a key are skipped.\<close>

definition detect_duplicate_keys :: "key_schema \<Rightarrow> item list \<Rightarrow> bool" where
  "detect_duplicate_keys ks items \<longleftrightarrow>
     \<not> has_duplicate primary_key_eq []
         (List.map_filter (\<lambda>it. case extract_primary_key ks it of Inl _ \<Rightarrow> None | Inr k \<Rightarrow> Some k) items)"

section \<open>Sets and sizes\<close>

definition max_item_size_bytes :: int where
  "max_item_size_bytes = 400 * 1024"

fun is_empty_set :: "attribute_value \<Rightarrow> bool" where
  "is_empty_set (AvSs v) = (v = [])"
| "is_empty_set (AvNs v) = (v = [])"
| "is_empty_set (AvBs v) = (v = [])"
| "is_empty_set _ = False"

fun contains_empty_set :: "attribute_value \<Rightarrow> bool" where
  "contains_empty_set (AvL l) = list_ex contains_empty_set l"
| "contains_empty_set (AvM m) = list_ex (\<lambda>kv. contains_empty_set (snd kv)) m"
| "contains_empty_set v = is_empty_set v"

definition validate_item_no_empty_sets :: "item \<Rightarrow> bool" where
  "validate_item_no_empty_sets it \<longleftrightarrow> \<not> list_ex (\<lambda>kv. contains_empty_set (snd kv)) it"

definition validate_no_empty_sets :: "item \<Rightarrow> bool" where
  "validate_no_empty_sets values \<longleftrightarrow> \<not> list_ex (\<lambda>kv. is_empty_set (snd kv)) values"

section \<open>Placeholders\<close>

definition validate_condition_not_empty :: "string option \<Rightarrow> bool" where
  "validate_condition_not_empty condition \<longleftrightarrow> (case condition of None \<Rightarrow> True | Some c \<Rightarrow> str_trim c \<noteq> [])"

definition validate_return_values_on_condition_check_failure :: "string option \<Rightarrow> bool" where
  "validate_return_values_on_condition_check_failure r \<longleftrightarrow>
     (case r of None \<Rightarrow> True | Some v \<Rightarrow> v = ''NONE'' \<or> v = ''ALL_OLD'')"

definition validate_no_unused :: "(string, 'a) btree \<Rightarrow> string set \<Rightarrow> bool" where
  "validate_no_unused provided used \<longleftrightarrow> list_all (\<lambda>k. k \<in> used) (bt_keys provided)"

section \<open>Legacy conditions\<close>

datatype comparison_operator =
    Op_Eq | Op_Ne | Op_Le | Op_Lt | Op_Ge | Op_Gt | Op_NotNull | Op_Null | Op_Contains | Op_NotContains
  | Op_BeginsWith | Op_In | Op_Between

datatype conditional_operator = Cond_And | Cond_Or

record expected_value =
  ev_value :: "attribute_value option"
  ev_exists :: "bool option"
  ev_operator :: "comparison_operator option"
  ev_list :: "attribute_value list"

fun is_scalar_attribute_value :: "attribute_value \<Rightarrow> bool" where
  "is_scalar_attribute_value (AvS _) = True"
| "is_scalar_attribute_value (AvN _) = True"
| "is_scalar_attribute_value (AvB _) = True"
| "is_scalar_attribute_value _ = False"

fun validate_comparison_operator :: "comparison_operator \<Rightarrow> attribute_value list \<Rightarrow> bool" where
  "validate_comparison_operator Op_Contains vs = (length vs = 1 \<and> list_all is_scalar_attribute_value vs)"
| "validate_comparison_operator Op_NotContains vs = (length vs = 1 \<and> list_all is_scalar_attribute_value vs)"
| "validate_comparison_operator Op_Between vs = (length vs = 2)"
| "validate_comparison_operator Op_In vs =
     (vs \<noteq> [] \<and> list_all is_scalar_attribute_value vs \<and>
      list_all (\<lambda>v. type_descriptor v = type_descriptor (hd vs)) (tl vs))"
| "validate_comparison_operator Op_Null vs = (vs = [])"
| "validate_comparison_operator Op_NotNull vs = (vs = [])"
| "validate_comparison_operator _ vs = (length vs = 1)"

definition validate_expected_value :: "expected_value \<Rightarrow> bool" where
  "validate_expected_value e =
     (case ev_operator e of
        Some op \<Rightarrow> ev_value e = None \<and> ev_exists e = None \<and> validate_comparison_operator op (ev_list e)
      | None \<Rightarrow>
          if ev_value e = None \<and> ev_exists e = None then False
          else if ev_exists e = Some True \<and> ev_value e = None then False
          else if ev_exists e = Some False \<and> ev_value e \<noteq> None then False
          else True)"

definition validate_expected :: "(string, expected_value) btree \<Rightarrow> bool" where
  "validate_expected expected \<longleftrightarrow> list_all (\<lambda>kv. validate_expected_value (snd kv)) expected"

definition validate_conditional_operator ::
    "conditional_operator option \<Rightarrow> (string, expected_value) btree \<Rightarrow> bool" where
  "validate_conditional_operator op expected \<longleftrightarrow> \<not> (op \<noteq> None \<and> expected = [])"

text \<open>\<^verbatim>\<open>[T]::join\<close> of strings.\<close>

fun join_with :: "string \<Rightarrow> string list \<Rightarrow> string" where
  "join_with sep [] = []"
| "join_with sep [x] = x"
| "join_with sep (x # y # xs) = x @ sep @ join_with sep (y # xs)"

text \<open>One fragment, and the placeholders it adds.\<close>

definition first_value :: "string \<Rightarrow> attribute_value list \<Rightarrow> (string \<times> attribute_value) list" where
  "first_value ph vs = (case vs of [] \<Rightarrow> [] | v # _ \<Rightarrow> [(ph, v)])"

definition second_value :: "string \<Rightarrow> attribute_value list \<Rightarrow> (string \<times> attribute_value) list" where
  "second_value ph vs = (case vs of _ # v # _ \<Rightarrow> [(ph, v)] | _ \<Rightarrow> [])"

definition build_condition_fragment ::
    "string \<Rightarrow> comparison_operator \<Rightarrow> attribute_value list \<Rightarrow> nat \<Rightarrow> string \<Rightarrow>
     string \<times> (string \<times> attribute_value) list" where
  "build_condition_fragment name op vs counter val_prefix =
     (let ph = val_prefix @ show_nat counter
      in case op of
           Op_Eq \<Rightarrow> (name @ '' = '' @ ph, first_value ph vs)
         | Op_Ne \<Rightarrow> (name @ '' <> '' @ ph, first_value ph vs)
         | Op_Lt \<Rightarrow> (name @ '' < '' @ ph, first_value ph vs)
         | Op_Le \<Rightarrow> (name @ '' <= '' @ ph, first_value ph vs)
         | Op_Gt \<Rightarrow> (name @ '' > '' @ ph, first_value ph vs)
         | Op_Ge \<Rightarrow> (name @ '' >= '' @ ph, first_value ph vs)
         | Op_Null \<Rightarrow> (''attribute_not_exists('' @ name @ '')'', [])
         | Op_NotNull \<Rightarrow> (''attribute_exists('' @ name @ '')'', [])
         | Op_Contains \<Rightarrow> (''contains('' @ name @ '', '' @ ph @ '')'', first_value ph vs)
         | Op_NotContains \<Rightarrow>
             (''(attribute_exists('' @ name @ '') AND NOT contains('' @ name @ '', '' @ ph @ ''))'', first_value ph vs)
         | Op_BeginsWith \<Rightarrow> (''begins_with('' @ name @ '', '' @ ph @ '')'', first_value ph vs)
         | Op_In \<Rightarrow>
             (let phs = map (\<lambda>i. ph @ ''i'' @ show_nat i) [0..<length vs]
              in (name @ '' IN ('' @ join_with '', '' phs @ '')'', zip phs vs))
         | Op_Between \<Rightarrow>
             (name @ '' BETWEEN '' @ ph @ ''lo AND '' @ ph @ ''hi'',
              first_value (ph @ ''lo'') vs @ second_value (ph @ ''hi'') vs))"

definition insert_all :: "(string \<times> 'a) list \<Rightarrow> (string, 'a) btree \<Rightarrow> (string, 'a) btree" where
  "insert_all kvs m = fold (\<lambda>(k, v). bt_insert k v) kvs m"

definition operator_joiner :: "conditional_operator option \<Rightarrow> string" where
  "operator_joiner op = (if op = Some Cond_Or then '' OR '' else '' AND '')"

definition expected_fragment :: "string \<Rightarrow> nat \<Rightarrow> expected_value \<Rightarrow> string \<times> (string \<times> attribute_value) list" where
  "expected_fragment name i e =
     (case ev_operator e of
        Some op \<Rightarrow> build_condition_fragment name op (ev_list e) i '':lcexpv''
      | None \<Rightarrow>
          (case ev_value e of
             Some v \<Rightarrow> (name @ '' = :lcexpv'' @ show_nat i, [('':lcexpv'' @ show_nat i, v)])
           | None \<Rightarrow>
               if ev_exists e = Some False then (''attribute_not_exists('' @ name @ '')'', [])
               else (''attribute_exists('' @ name @ '')'', [])))"

definition convert_expected_to_condition ::
    "(string, expected_value) btree \<Rightarrow> conditional_operator option \<Rightarrow>
     string \<times> (string, string) btree \<times> item" where
  "convert_expected_to_condition expected op =
     (let fragments = map (\<lambda>(i, kv). expected_fragment (''#lcexp'' @ show_nat i) i (snd kv)) (enumerate 0 expected)
      in (join_with (operator_joiner op) (map fst fragments),
          insert_all (map (\<lambda>(i, kv). (''#lcexp'' @ show_nat i, fst kv)) (enumerate 0 expected)) [],
          insert_all (concat (map snd fragments)) []))"

text \<open>\<^verbatim>\<open>KeyConditions\<close>, \<^verbatim>\<open>QueryFilter\<close> and \<^verbatim>\<open>ScanFilter\<close>: an operator with its values.\<close>

definition convert_conditions_to_expression ::
    "(string, comparison_operator \<times> attribute_value list) btree \<Rightarrow> conditional_operator option \<Rightarrow>
     string \<Rightarrow> string \<Rightarrow> string \<times> (string, string) btree \<times> item" where
  "convert_conditions_to_expression conditions op name_prefix val_prefix =
     (let fragments = map (\<lambda>(i, kv). build_condition_fragment (name_prefix @ show_nat i)
                              (fst (snd kv)) (snd (snd kv)) i val_prefix) (enumerate 0 conditions)
      in (join_with (operator_joiner op) (map fst fragments),
          insert_all (map (\<lambda>(i, kv). (name_prefix @ show_nat i, fst kv)) (enumerate 0 conditions)) [],
          insert_all (concat (map snd fragments)) []))"

section \<open>Legacy updates\<close>

datatype attribute_action = Action_Put | Action_Delete | Action_Add

record attribute_update =
  au_value :: "attribute_value option"
  au_action :: "attribute_action option"

text \<open>What each update adds to the four clauses.\<close>

record update_clauses =
  uc_set :: "string list"
  uc_remove :: "string list"
  uc_add :: "string list"
  uc_delete :: "string list"
  uc_names :: "(string, string) btree"
  uc_values :: item

definition attribute_update_clause :: "nat \<Rightarrow> string \<times> attribute_update \<Rightarrow> update_clauses \<Rightarrow> update_clauses" where
  "attribute_update_clause i kv c =
     (let name = ''#lcattr'' @ show_nat i;
          ph = '':lcval'' @ show_nat i;
          c = c\<lparr>uc_names := bt_insert name (fst kv) (uc_names c)\<rparr>
      in case (unwrap_or Action_Put (au_action (snd kv)), au_value (snd kv)) of
           (Action_Put, Some v) \<Rightarrow>
             c\<lparr>uc_set := uc_set c @ [name @ '' = '' @ ph], uc_values := bt_insert ph v (uc_values c)\<rparr>
         | (Action_Put, None) \<Rightarrow> c
         | (Action_Add, Some v) \<Rightarrow>
             c\<lparr>uc_add := uc_add c @ [name @ '' '' @ ph], uc_values := bt_insert ph v (uc_values c)\<rparr>
         | (Action_Add, None) \<Rightarrow> c
         | (Action_Delete, Some v) \<Rightarrow>
             c\<lparr>uc_delete := uc_delete c @ [name @ '' '' @ ph], uc_values := bt_insert ph v (uc_values c)\<rparr>
         | (Action_Delete, None) \<Rightarrow> c\<lparr>uc_remove := uc_remove c @ [name]\<rparr>)"

definition clause :: "string \<Rightarrow> string list \<Rightarrow> string list" where
  "clause keyword parts = (if parts = [] then [] else [keyword @ '' '' @ join_with '', '' parts])"

definition convert_attribute_updates_to_expression ::
    "(string, attribute_update) btree \<Rightarrow> string \<times> (string, string) btree \<times> item" where
  "convert_attribute_updates_to_expression updates =
     (let c = fold (\<lambda>(i, kv). attribute_update_clause i kv) (enumerate 0 updates)
                \<lparr>uc_set = [], uc_remove = [], uc_add = [], uc_delete = [], uc_names = [], uc_values = []\<rparr>
      in (join_with '' '' (clause ''SET'' (uc_set c) @ clause ''REMOVE'' (uc_remove c) @
            clause ''ADD'' (uc_add c) @ clause ''DELETE'' (uc_delete c)),
          uc_names c, uc_values c))"

definition convert_attributes_to_get :: "string list \<Rightarrow> string" where
  "convert_attributes_to_get attrs = join_with '', '' attrs"

text \<open>Generated placeholders do not replace those of the request.\<close>

definition merge_expression :: "(string, 'a) btree \<Rightarrow> (string, 'a) btree \<Rightarrow> (string, 'a) btree" where
  "merge_expression target source =
     fold (\<lambda>(k, v) m. if bt_get m k = None then bt_insert k v m else m) source target"

section \<open>The condition of a write\<close>

record condition_input =
  ci_condition :: "string option"
  ci_names :: "(string, string) btree"
  ci_values :: item
  ci_expected :: "(string, expected_value) btree"
  ci_operator :: "conditional_operator option"
  ci_failure_return :: "string option"

definition mixes_expected :: "'a condition_input_scheme \<Rightarrow> bool" where
  "mixes_expected i \<longleftrightarrow> ci_expected i \<noteq> [] \<and> ci_condition i \<noteq> None"

definition with_expected :: "'a condition_input_scheme \<Rightarrow> dynamo_error + 'a condition_input_scheme" where
  "with_expected i =
     (if ci_expected i \<noteq> [] \<and> ci_condition i = None then
        ensure (validate_expected (ci_expected i))
          (let (e, names, values) = convert_expected_to_condition (ci_expected i) (ci_operator i)
           in Inr (i\<lparr>ci_condition := Some e,
                     ci_names := merge_expression (ci_names i) names,
                     ci_values := merge_expression (ci_values i) values\<rparr>))
      else Inr i)"

text \<open>The names and values that an optional condition uses.\<close>

definition condition_references :: "string option \<Rightarrow> dynamo_error + string set \<times> string set" where
  "condition_references condition =
     (case condition of
        None \<Rightarrow> Inr ({}, {})
      | Some c \<Rightarrow> res_map (\<lambda>e. (collect_names_from_expr e, collect_values_from_expr e)) (parse_answer (parse_condition c)))"

definition check_no_unused :: "(string, string) btree \<Rightarrow> item \<Rightarrow> string set \<times> string set \<Rightarrow> bool" where
  "check_no_unused names values used \<longleftrightarrow>
     validate_no_unused names (fst used) \<and> validate_no_unused values (snd used)"

definition check_condition :: "'a condition_input_scheme \<Rightarrow> item option \<Rightarrow> dynamo_error + unit" where
  "check_condition i existing =
     (case ci_condition i of
        None \<Rightarrow> Inr ()
      | Some c \<Rightarrow>
          res_bind (parse_answer (parse_condition c)) (\<lambda>e.
          res_bind (eval_error_to_dynamodb
              (evaluate \<lparr>ec_item = unwrap_or [] existing, ec_names = ci_names i, ec_values = ci_values i\<rparr> e)) (\<lambda>holds.
            if holds then Inr ()
            else Inl (DE_ConditionalCheckFailed (if ci_failure_return i = Some ''ALL_OLD'' then existing else None)))))"

chapter \<open>Paths of updates\<close>

text \<open>
  The paths of an update expression (\<^verbatim>\<open>provider.rs\<close>): the checks that no path names a key attribute and
  that no two overlap, and the attributes that \<^verbatim>\<open>UpdateItem\<close> returns.
\<close>

section \<open>Resolved paths\<close>

datatype resolved_path_element = RAttr string | RIndex nat

type_synonym resolved_path = "resolved_path_element list"

definition resolve_path_top_name :: "attribute_path \<Rightarrow> (string, string) btree \<Rightarrow> string option" where
  "resolve_path_top_name path names =
     (case path of PathAttr name # _ \<Rightarrow> placeholder names name | _ \<Rightarrow> None)"

definition resolve_path_elements :: "attribute_path \<Rightarrow> (string, string) btree \<Rightarrow> resolved_path" where
  "resolve_path_elements path names =
     map (\<lambda>e. case e of PathAttr name \<Rightarrow> RAttr (resolve_name_ref names name) | PathIndex i \<Rightarrow> RIndex i) path"

fun paths_overlap :: "resolved_path \<Rightarrow> resolved_path \<Rightarrow> bool" where
  "paths_overlap (a # as) (b # bs) = (a = b \<and> paths_overlap as bs)"
| "paths_overlap _ _ = True"

fun paths_conflict :: "resolved_path \<Rightarrow> resolved_path \<Rightarrow> bool" where
  "paths_conflict (RAttr a # as) (RAttr b # bs) = (a = b \<and> paths_conflict as bs)"
| "paths_conflict (RIndex a # as) (RIndex b # bs) = (a = b \<and> paths_conflict as bs)"
| "paths_conflict (_ # _) (_ # _) = True"
| "paths_conflict _ _ = False"

definition update_target_paths :: "update_expr \<Rightarrow> attribute_path list" where
  "update_target_paths u =
     map sa_path (ue_set_actions u) @ ue_remove_paths u @ map pa_path (ue_add_actions u) @
     map pa_path (ue_delete_actions u)"

fun pairwise :: "('a \<Rightarrow> 'a \<Rightarrow> bool) \<Rightarrow> 'a list \<Rightarrow> bool" where
  "pairwise P [] = True"
| "pairwise P (x # xs) = (list_all (P x) xs \<and> pairwise P xs)"

definition targets_key :: "key_schema \<Rightarrow> (string, string) btree \<Rightarrow> attribute_path \<Rightarrow> bool" where
  "targets_key ks names path \<longleftrightarrow>
     (case resolve_path_top_name path names of
        None \<Rightarrow> False
      | Some name \<Rightarrow> length path = 1 \<and> is_key_attribute name ks)"

definition validate_update_paths :: "update_expr \<Rightarrow> key_schema \<Rightarrow> (string, string) btree \<Rightarrow> bool" where
  "validate_update_paths u ks names \<longleftrightarrow>
     list_all (\<lambda>p. \<not> targets_key ks names p) (update_target_paths u) \<and>
     pairwise (\<lambda>a b. \<not> paths_overlap a b \<and> \<not> paths_conflict a b)
       (map (\<lambda>p. resolve_path_elements p names) (update_target_paths u))"

definition collect_update_target_paths :: "update_expr \<Rightarrow> (string, string) btree \<Rightarrow> resolved_path list" where
  "collect_update_target_paths u names = map (\<lambda>p. resolve_path_elements p names) (update_target_paths u)"

section \<open>Returned values\<close>

text \<open>The walk starts at the item; an index at the start finds nothing.\<close>

fun walk_resolved :: "attribute_value option \<Rightarrow> resolved_path \<Rightarrow> attribute_value option" where
  "walk_resolved cur [] = cur"
| "walk_resolved cur (RAttr name # p) =
     (case Option.bind cur as_m of None \<Rightarrow> None | Some m \<Rightarrow> walk_resolved (bt_get m name) p)"
| "walk_resolved cur (RIndex i # p) =
     (case Option.bind cur as_l of None \<Rightarrow> None | Some l \<Rightarrow> walk_resolved (list_get l i) p)"

fun lookup_resolved_path_value :: "item \<Rightarrow> resolved_path \<Rightarrow> attribute_value option" where
  "lookup_resolved_path_value it (RAttr name # p) = walk_resolved (bt_get it name) p"
| "lookup_resolved_path_value it _ = None"

fun wrap_value_in_nested_path :: "resolved_path \<Rightarrow> attribute_value \<Rightarrow> attribute_value" where
  "wrap_value_in_nested_path [] v = v"
| "wrap_value_in_nested_path (RAttr name # p) v = AvM [(name, wrap_value_in_nested_path p v)]"
| "wrap_value_in_nested_path (RIndex i # p) v = AvL [wrap_value_in_nested_path p v]"

text \<open>The map that is merged in lists its entries in an order of its own; here it has at most one.\<close>

function merge_attribute_values :: "attribute_value \<Rightarrow> attribute_value \<Rightarrow> attribute_value"
  and merge_entries :: "item \<Rightarrow> item \<Rightarrow> item" where
  "merge_attribute_values target source =
     (case source of
        AvM sm \<Rightarrow> (case target of AvM tm \<Rightarrow> AvM (merge_entries tm sm) | _ \<Rightarrow> source)
      | AvL sl \<Rightarrow> (case target of AvL tl' \<Rightarrow> AvL (tl' @ sl) | _ \<Rightarrow> source)
      | _ \<Rightarrow> source)"
| "merge_entries tm [] = tm"
| "merge_entries tm ((k, v) # sm) =
     merge_entries (bt_insert k (case bt_get tm k of Some e \<Rightarrow> merge_attribute_values e v | None \<Rightarrow> v) tm) sm"
  by pat_completeness auto
termination
  by (relation "measure (\<lambda>x. case x of Inl (_, v) \<Rightarrow> size v | Inr (_, m) \<Rightarrow> size_list (size_prod (\<lambda>_. 0) size) m)") auto

definition insert_at_resolved_path :: "resolved_path \<Rightarrow> attribute_value \<Rightarrow> item \<Rightarrow> item" where
  "insert_at_resolved_path path v res =
     (case path of
        RAttr key # p \<Rightarrow>
          if p = [] then bt_insert key v res
          else (let nested = wrap_value_in_nested_path p v
                in bt_insert key
                     (case bt_get res key of Some e \<Rightarrow> merge_attribute_values e nested | None \<Rightarrow> nested) res)
      | _ \<Rightarrow> res)"

datatype return_value = Return_None | Return_AllOld | Return_UpdatedOld | Return_AllNew | Return_UpdatedNew

definition returned_path :: "key_schema \<Rightarrow> item \<Rightarrow> resolved_path \<Rightarrow> item \<Rightarrow> item" where
  "returned_path ks it path res =
     (if (case path of RAttr name # _ \<Rightarrow> is_key_attribute name ks | _ \<Rightarrow> False) then res
      else (case lookup_resolved_path_value it path of
              None \<Rightarrow> res
            | Some v \<Rightarrow> insert_at_resolved_path path v res))"

definition compute_update_return_values ::
    "return_value option \<Rightarrow> item option \<Rightarrow> item \<Rightarrow> key_schema \<Rightarrow> update_expr option \<Rightarrow>
     (string, string) btree \<Rightarrow> item" where
  "compute_update_return_values rv old_item new_item ks update names =
     (case rv of
        Some Return_AllOld \<Rightarrow> unwrap_or [] old_item
      | Some Return_AllNew \<Rightarrow> new_item
      | Some Return_UpdatedOld \<Rightarrow>
          (case (old_item, update) of
             (Some old, Some u) \<Rightarrow> fold (returned_path ks old) (collect_update_target_paths u names) []
           | _ \<Rightarrow> [])
      | Some Return_UpdatedNew \<Rightarrow>
          (case update of
             Some u \<Rightarrow> fold (returned_path ks new_item) (collect_update_target_paths u names) []
           | None \<Rightarrow> [])
      | _ \<Rightarrow> [])"

end
