(* ===== verification/Streams_Store.thy ===== *)
theory Streams_Store
  imports Dynamo_Types Rust_Text
begin

text \<open>
  DynamoDB Streams (\<^verbatim>\<open>rustack-dynamodbstreams-core\<close>): one stream with one shard per table, an append-only
  log of change records (\<^verbatim>\<open>storage.rs\<close>), iterator tokens (\<^verbatim>\<open>iterator.rs\<close>) and the four operations of a
  reader (\<^verbatim>\<open>provider.rs\<close>). The change events come from the DynamoDB core (\<^verbatim>\<open>stream.rs\<close>). \<open>None\<close> as an
  answer of GetRecords is a panic.
\<close>

section \<open>Change events\<close>

datatype change_name = Change_Insert | Change_Modify | Change_Remove

definition change_text :: "change_name \<Rightarrow> string" where
  "change_text n = (case n of Change_Insert \<Rightarrow> ''INSERT'' | Change_Modify \<Rightarrow> ''MODIFY'' | Change_Remove \<Rightarrow> ''REMOVE'')"

record change_event =
  ce_table :: string
  ce_name :: change_name
  ce_keys :: item
  ce_old :: "item option"
  ce_new :: "item option"
  ce_size :: nat

section \<open>State\<close>

datatype view_type = View_KeysOnly | View_NewImage | View_OldImage | View_NewAndOldImages

datatype key_role = Role_Hash | Role_Range

type_synonym key_elements = "(string \<times> key_role) list"

record stream_change =
  ch_event_id :: string
  ch_event_name :: string
  ch_region :: string
  ch_keys :: item
  ch_new :: "item option"
  ch_old :: "item option"
  ch_sequence :: "string option"
  ch_size :: nat
  ch_view :: view_type
  ch_time :: int

record stream_shard =
  sh_id :: string
  sh_parent :: "string option"
  sh_start :: "string option"
  sh_end :: "string option"
  sh_records :: "stream_change list"
  sh_next :: nat

record table_stream =
  st_arn :: string
  st_table :: string
  st_label :: string
  st_view :: view_type
  st_enabled :: bool
  st_key_elements :: key_elements
  st_table_arn :: string
  st_shard :: stream_shard

type_synonym stream_store = "(string, table_stream) btree"

definition new_shard :: "string \<Rightarrow> stream_shard" where
  "new_shard shard_id =
     \<lparr>sh_id = shard_id, sh_parent = None, sh_start = None, sh_end = None, sh_records = [], sh_next = 1\<rparr>"

definition append_change :: "stream_change \<Rightarrow> stream_shard \<Rightarrow> stream_shard" where
  "append_change r sh =
     (let seq = show_padded 21 (sh_next sh)
      in sh\<lparr>sh_next := sh_next sh + 1,
            sh_start := (case sh_start sh of None \<Rightarrow> Some seq | s \<Rightarrow> s),
            sh_records := sh_records sh @ [r\<lparr>ch_sequence := Some seq\<rparr>]\<rparr>)"

definition close_stream_shard :: "stream_shard \<Rightarrow> stream_shard" where
  "close_stream_shard sh = (if sh_records sh = [] then sh else sh\<lparr>sh_end := ch_sequence (last (sh_records sh))\<rparr>)"

section \<open>Streams\<close>

text \<open>What the store reads from outside: the time, fresh identifiers, the label of a new stream.\<close>

record stream_env =
  sn_now :: int
  sn_uuid :: string
  sn_label :: string
  sn_region :: string
  sn_account :: string

definition table_stream_arn :: "string \<Rightarrow> string \<Rightarrow> string \<Rightarrow> string \<Rightarrow> string" where
  "table_stream_arn region account table label =
     ''arn:aws:dynamodb:'' @ region @ '':'' @ account @ '':table/'' @ table @ ''/stream/'' @ label"

definition create_stream_for :: "stream_env \<Rightarrow> string \<Rightarrow> string \<Rightarrow> key_elements \<Rightarrow> view_type \<Rightarrow> stream_store \<Rightarrow>
    string \<times> stream_store" where
  "create_stream_for env table table_arn keys view s =
     (let arn = table_stream_arn (sn_region env) (sn_account env) table (sn_label env)
      in (arn,
          bt_insert table
            \<lparr>st_arn = arn, st_table = table, st_label = sn_label env, st_view = view, st_enabled = True,
             st_key_elements = keys, st_table_arn = table_arn, st_shard = new_shard (''shardId-'' @ sn_uuid env)\<rparr> s))"

definition disable_stream :: "string \<Rightarrow> stream_store \<Rightarrow> stream_store" where
  "disable_stream table s =
     (case bt_get s table of
        None \<Rightarrow> s
      | Some st \<Rightarrow> bt_insert table (st\<lparr>st_enabled := False, st_shard := close_stream_shard (st_shard st)\<rparr>) s)"

definition remove_stream :: "string \<Rightarrow> stream_store \<Rightarrow> stream_store" where
  "remove_stream table s = bt_remove table s"

text \<open>The record of an event, with the images that the view of the stream keeps.\<close>

definition create_record :: "stream_env \<Rightarrow> table_stream \<Rightarrow> change_event \<Rightarrow> stream_change" where
  "create_record env st ev =
     (let (new_image, old_image) =
        (case st_view st of
           View_KeysOnly \<Rightarrow> (None, None)
         | View_NewImage \<Rightarrow> (ce_new ev, None)
         | View_OldImage \<Rightarrow> (None, ce_old ev)
         | View_NewAndOldImages \<Rightarrow> (ce_new ev, ce_old ev))
      in \<lparr>ch_event_id = sn_uuid env, ch_event_name = change_text (ce_name ev), ch_region = sn_region env,
          ch_keys = ce_keys ev, ch_new = new_image, ch_old = old_image, ch_sequence = None, ch_size = ce_size ev,
          ch_view = st_view st, ch_time = sn_now env\<rparr>)"

definition append_change_event :: "stream_env \<Rightarrow> change_event \<Rightarrow> stream_store \<Rightarrow> stream_store" where
  "append_change_event env ev s =
     (case bt_get s (ce_table ev) of
        None \<Rightarrow> s
      | Some st \<Rightarrow>
          if \<not> st_enabled st then s
          else bt_insert (ce_table ev) (st\<lparr>st_shard := append_change (create_record env st ev) (st_shard st)\<rparr>) s)"

text \<open>The life of a stream follows its table (\<^verbatim>\<open>emitter.rs\<close>).\<close>

definition on_table_deleted :: "string \<Rightarrow> stream_store \<Rightarrow> stream_store" where
  "on_table_deleted table s = remove_stream table (disable_stream table s)"

definition get_stream_by_arn :: "string \<Rightarrow> stream_store \<Rightarrow> table_stream option" where
  "get_stream_by_arn arn s =
     Option.bind (find (\<lambda>(_, st). st_arn st = arn) s) (\<lambda>(table, _). bt_get s table)"

definition get_stream_label :: "string \<Rightarrow> stream_store \<Rightarrow> string option" where
  "get_stream_label table s = map_option st_label (bt_get s table)"

definition list_table_streams :: "string option \<Rightarrow> stream_store \<Rightarrow> (string \<times> string \<times> string) list" where
  "list_table_streams table s =
     map (\<lambda>st. (st_arn st, st_table st, st_label st))
       (filter (\<lambda>st. case table of None \<Rightarrow> True | Some t \<Rightarrow> st_table st = t) (bt_values s))"

section \<open>Iterators\<close>

datatype streams_error =
    StE_ResourceNotFound
  | StE_ExpiredIterator
  | StE_TrimmedDataAccess
  | StE_Validation

definition encode_stream_iterator :: "string \<Rightarrow> string \<Rightarrow> nat \<Rightarrow> string" where
  "encode_stream_iterator arn shard_id position =
     arn @ CHR ''|'' # shard_id @ CHR ''|'' # show_nat position"

definition decode_stream_iterator :: "string \<Rightarrow> streams_error + string \<times> string \<times> nat" where
  "decode_stream_iterator token =
     (case splitn 3 (CHR ''|'') token of
        [arn, shard_id, p] \<Rightarrow>
          res_map (\<lambda>n. (arn, shard_id, n)) (ok_or StE_ExpiredIterator (parse_uint 64 p))
      | _ \<Rightarrow> Inl StE_ExpiredIterator)"

section \<open>The operations of a reader\<close>

record shard_description =
  sd_id :: string
  sd_parent :: "string option"
  sd_start :: "string option"
  sd_end :: "string option"

definition handle_describe_stream :: "string \<Rightarrow> string option \<Rightarrow> stream_store \<Rightarrow>
    streams_error + table_stream \<times> shard_description list" where
  "handle_describe_stream arn start_shard s =
     res_map (\<lambda>st.
       let sh = st_shard st;
           d = \<lparr>sd_id = sh_id sh, sd_parent = sh_parent sh, sd_start = sh_start sh, sd_end = sh_end sh\<rparr>
       in (st, if start_shard = Some (sh_id sh) then [] else [d]))
       (ok_or StE_ResourceNotFound (get_stream_by_arn arn s))"

definition handle_list_streams :: "string option \<Rightarrow> string option \<Rightarrow> int option \<Rightarrow> stream_store \<Rightarrow>
    (string \<times> string \<times> string) list \<times> string option" where
  "handle_list_streams table start_arn limit s =
     (let all = sort_key fst (list_table_streams table s);
          streams = (case start_arn of
                       None \<Rightarrow> all
                     | Some a \<Rightarrow> (if \<exists>x\<in>set all. fst x = a then tl (dropWhile (\<lambda>x. fst x \<noteq> a) all) else all));
          n = (case limit of None \<Rightarrow> 100 | Some l \<Rightarrow> nat (max 1 (min 100 l)));
          page = take n streams
      in (page, if length streams > n \<and> page \<noteq> [] then Some (fst (last page)) else None))"

datatype shard_iterator_type = It_TrimHorizon | It_Latest | It_AtSequenceNumber | It_AfterSequenceNumber

fun find_position :: "('a \<Rightarrow> bool) \<Rightarrow> 'a list \<Rightarrow> nat option" where
  "find_position P [] = None"
| "find_position P (x # xs) = (if P x then Some 0 else map_option Suc (find_position P xs))"

definition find_sequence_position :: "stream_change list \<Rightarrow> string \<Rightarrow> streams_error + nat" where
  "find_sequence_position rs seq =
     ok_or StE_TrimmedDataAccess (find_position (\<lambda>r. ch_sequence r = Some seq) rs)"

definition handle_get_stream_iterator :: "string \<Rightarrow> string \<Rightarrow> shard_iterator_type \<Rightarrow> string option \<Rightarrow> stream_store \<Rightarrow>
    streams_error + string" where
  "handle_get_stream_iterator arn shard_id itype seq s =
     res_bind (ok_or StE_ResourceNotFound (get_stream_by_arn arn s)) (\<lambda>st.
       let sh = st_shard st
       in if sh_id sh \<noteq> shard_id then Inl StE_ResourceNotFound
          else res_map (encode_stream_iterator arn shard_id)
                 (case itype of
                    It_TrimHorizon \<Rightarrow> Inr 0
                  | It_Latest \<Rightarrow> Inr (length (sh_records sh))
                  | It_AtSequenceNumber \<Rightarrow>
                      res_bind (ok_or StE_Validation seq) (find_sequence_position (sh_records sh))
                  | It_AfterSequenceNumber \<Rightarrow>
                      res_bind (ok_or StE_Validation seq) (\<lambda>q.
                        res_map Suc (find_sequence_position (sh_records sh) q))))"

definition records_limit :: "int option \<Rightarrow> nat" where
  "records_limit limit =
     (case limit of None \<Rightarrow> 1000 | Some l \<Rightarrow> if l < 0 then 1000 else nat (max 1 (min 1000 l)))"

text \<open>A start beyond the records makes an inverted range, which panics.\<close>

definition handle_get_stream_records :: "string \<Rightarrow> int option \<Rightarrow> stream_store \<Rightarrow>
    (streams_error + stream_change list \<times> string option) option" where
  "handle_get_stream_records token limit s =
     (case decode_stream_iterator token of
        Inl e \<Rightarrow> Some (Inl e)
      | Inr (arn, shard_id, start) \<Rightarrow>
          (case get_stream_by_arn arn s of
             None \<Rightarrow> Some (Inl StE_ExpiredIterator)
           | Some st \<Rightarrow>
               (let sh = st_shard st; n = length (sh_records sh)
                in if sh_id sh \<noteq> shard_id then Some (Inl StE_ExpiredIterator)
                   else if start > n then None
                   else (let stop = min (start + records_limit limit) n
                         in Some (Inr (take (stop - start) (drop start (sh_records sh)),
                              if \<not> st_enabled st \<and> stop \<ge> n then None
                              else Some (encode_stream_iterator (st_arn st) (sh_id sh) stop)))))))"

section \<open>Snapshots\<close>

definition export_streams :: "stream_store \<Rightarrow> table_stream list" where
  "export_streams s = sort_key st_table (bt_values s)"

definition import_streams :: "table_stream list \<Rightarrow> stream_store" where
  "import_streams sts = fold (\<lambda>st. bt_insert (st_table st) st) sts []"

chapter \<open>Readers\<close>

text \<open>
  A reader of a stream who follows its iterators while the tables change: what it has got is always the
  first records of the stream, and reading on gets all of them.
\<close>

section \<open>Tokens\<close>

lemma splitn_token:
  assumes "CHR ''|'' \<notin> set a" "CHR ''|'' \<notin> set b"
  shows "splitn 3 (CHR ''|'') (a @ CHR ''|'' # b @ CHR ''|'' # c) = [a, b, c]"
proof -
  have "split_once CHR ''|'' (x @ CHR ''|'' # y) = Some (x, y)" if "CHR ''|'' \<notin> set x" for x y
    using that by (induction x) auto
  then show ?thesis using assms by (simp add: eval_nat_numeral)
qed

lemma decode_encode:
  assumes "CHR ''|'' \<notin> set arn" "CHR ''|'' \<notin> set sid" "n < 2 ^ 64"
  shows "decode_stream_iterator (encode_stream_iterator arn sid n) = Inr (arn, sid, n)"
  using splitn_token [OF assms(1,2)] parse_uint_show [OF assms(3)]
  by (simp add: decode_stream_iterator_def encode_stream_iterator_def ok_or_def)

section \<open>Appending and finding\<close>

lemma bt_insert_present:
  assumes "bt_wf m" "bt_get m k = Some old"
  shows "bt_insert k v m = map (\<lambda>e. if fst e = k then (k, v) else e) m"
  using assms
proof (induction m)
  case (Cons e m)
  show ?case
  proof (cases "fst e = k")
    case True
    then have "map (\<lambda>e. if fst e = k then (k, v) else e) m = m"
      using Cons.prems(1) by (intro map_idI) auto
    then show ?thesis using True by simp
  next
    case False
    then have g: "bt_get m k = Some old" using Cons.prems(2) by simp
    then have "fst e < k" using Cons.prems(1) bt_get_mem [OF g] by auto
    then show ?thesis using Cons.IH [OF _ g] Cons.prems(1) False by simp
  qed
qed simp

text \<open>A stream that the store finds by its ARN, and that takes changes.\<close>

definition at_arn :: "string \<Rightarrow> stream_store \<Rightarrow> table_stream \<Rightarrow> bool" where
  "at_arn arn s st \<longleftrightarrow> bt_wf s \<and> get_stream_by_arn arn s = Some st \<and> st_arn st = arn \<and> st_enabled st"

lemma find_map_same:
  assumes "\<And>x. x \<in> set xs \<Longrightarrow> P (f x) = P x"
  shows "find P (map f xs) = map_option f (find P xs)"
  using assms by (induction xs) auto

lemma get_by_arn: "bt_wf s \<Longrightarrow> get_stream_by_arn arn s = map_option snd (find (\<lambda>e. st_arn (snd e) = arn) s)"
proof (cases "find (\<lambda>e. st_arn (snd e) = arn) s")
  case (Some e)
  moreover assume "bt_wf s"
  moreover have "e \<in> set s" using Some by (induction s) (auto split: if_splits)
  ultimately show ?thesis
    by (cases e) (simp add: get_stream_by_arn_def case_prod_beta' bt_mem_get)
qed (simp add: get_stream_by_arn_def case_prod_beta')

lemma append_event_at:
  assumes "at_arn arn s st"
  shows "\<exists>st'. at_arn arn (append_change_event env ev s) st' \<and> sh_id (st_shard st') = sh_id (st_shard st) \<and>
    (\<exists>rs. sh_records (st_shard st') = sh_records (st_shard st) @ rs)"
proof (cases "bt_get s (ce_table ev)")
  case None
  then show ?thesis using assms by (auto simp: append_change_event_def)
next
  case (Some old)
  have wf: "bt_wf s" and g: "get_stream_by_arn arn s = Some st" and st: "st_arn st = arn" "st_enabled st"
    using assms by (simp_all add: at_arn_def)
  let ?new = "old\<lparr>st_shard := append_change (create_record env old ev) (st_shard old)\<rparr>"
  let ?f = "\<lambda>e. if fst e = ce_table ev then (ce_table ev, ?new) else e"
  show ?thesis
  proof (cases "st_enabled old")
    case True
    then have s': "append_change_event env ev s = map ?f s"
      using bt_insert_present [OF wf Some] Some by (simp add: append_change_event_def)
    have wf': "bt_wf (append_change_event env ev s)"
      using wf Some True by (simp add: append_change_event_def bt_wf_insert)
    have same: "st_arn (snd (?f e)) = arn \<longleftrightarrow> st_arn (snd e) = arn" if "e \<in> set s" for e
      using bt_mem_get [OF wf, of "fst e" "snd e"] that Some by auto
    obtain e where e: "find (\<lambda>e. st_arn (snd e) = arn) s = Some e" "snd e = st"
      using g by (auto simp: get_by_arn [OF wf])
    have es: "e \<in> set s" using e(1) by (induction s) (auto split: if_splits)
    have "find (\<lambda>e. st_arn (snd e) = arn) (map ?f s) = Some (?f e)"
      using find_map_same [of s "\<lambda>e. st_arn (snd e) = arn" ?f] same e(1) by simp
    then have "get_stream_by_arn arn (append_change_event env ev s) = Some (snd (?f e))"
      unfolding s' get_by_arn [OF wf' [unfolded s']] by (simp only: option.map)
    moreover have "old = st" if "fst e = ce_table ev"
      using bt_mem_get [OF wf, of "fst e" "snd e"] es e(2) Some that by (cases e) auto
    ultimately show ?thesis
      using wf' st e(2) by (cases "fst e = ce_table ev") (auto simp: at_arn_def append_change_def Let_def)
  next
    case False
    then show ?thesis using assms Some by (auto simp: append_change_event_def)
  qed
qed

section \<open>The reader\<close>

datatype reader_move = Append stream_env change_event | Read_Page "int option"

record reader =
  rd_store :: stream_store
  rd_token :: "string option"
  rd_got :: "stream_change list"

text \<open>A page that fails, or a panic, ends the reading.\<close>

fun reader_step :: "reader_move \<Rightarrow> reader \<Rightarrow> reader" where
  "reader_step (Append env ev) r = r\<lparr>rd_store := append_change_event env ev (rd_store r)\<rparr>"
| "reader_step (Read_Page limit) r =
     (case rd_token r of
        None \<Rightarrow> r
      | Some token \<Rightarrow>
          (case handle_get_stream_records token limit (rd_store r) of
             Some (Inr (rs, next_token)) \<Rightarrow> r\<lparr>rd_token := next_token, rd_got := rd_got r @ rs\<rparr>
           | _ \<Rightarrow> r\<lparr>rd_token := None\<rparr>))"

text \<open>The reader holds the first records of the stream, and the token of the next.\<close>

definition reader_ok :: "string \<Rightarrow> string \<Rightarrow> reader \<Rightarrow> table_stream \<Rightarrow> bool" where
  "reader_ok arn sid r st \<longleftrightarrow> at_arn arn (rd_store r) st \<and> sh_id (st_shard st) = sid \<and>
     length (rd_got r) \<le> length (sh_records (st_shard st)) \<and>
     rd_got r = take (length (rd_got r)) (sh_records (st_shard st)) \<and>
     rd_token r = Some (encode_stream_iterator arn sid (length (rd_got r)))"

lemma records_limit_pos: "1 \<le> records_limit limit"
  by (auto simp: records_limit_def split: option.split)

lemma read_page:
  assumes "CHR ''|'' \<notin> set arn" "CHR ''|'' \<notin> set sid" "reader_ok arn sid r st"
    and "length (sh_records (st_shard st)) < 2 ^ 64"
  shows "reader_ok arn sid (reader_step (Read_Page limit) r) st"
    "length (rd_got (reader_step (Read_Page limit) r)) =
       min (length (rd_got r) + records_limit limit) (length (sh_records (st_shard st)))"
proof -
  let ?rs = "sh_records (st_shard st)" and ?p = "length (rd_got r)"
  let ?stop = "min (?p + records_limit limit) (length ?rs)"
  note ok = assms(3) [unfolded reader_ok_def at_arn_def]
  have p: "?p \<le> length ?rs" "?p < 2 ^ 64" using ok assms(4) by auto
  have page: "handle_get_stream_records (encode_stream_iterator arn sid ?p) limit (rd_store r) =
      Some (Inr (take (?stop - ?p) (drop ?p ?rs), Some (encode_stream_iterator arn sid ?stop)))"
    using ok p decode_encode [OF assms(1,2) p(2)] by (simp add: handle_get_stream_records_def Let_def)
  have got: "rd_got r @ take (?stop - ?p) (drop ?p ?rs) = take ?stop ?rs"
  proof -
    have "take ?p ?rs @ take (?stop - ?p) (drop ?p ?rs) = take (?p + (?stop - ?p)) ?rs" by (simp only: take_add)
    moreover have "?p + (?stop - ?p) = ?stop" using p by simp
    ultimately show ?thesis using ok by metis
  qed
  have r': "reader_step (Read_Page limit) r =
      r\<lparr>rd_token := Some (encode_stream_iterator arn sid ?stop), rd_got := take ?stop ?rs\<rparr>"
    using ok page got by simp
  show "length (rd_got (reader_step (Read_Page limit) r)) = ?stop" unfolding r' by simp
  show "reader_ok arn sid (reader_step (Read_Page limit) r) st"
    unfolding r' using ok by (simp add: reader_ok_def at_arn_def)
qed

lemma append_page:
  assumes "reader_ok arn sid r st"
  shows "\<exists>st'. reader_ok arn sid (reader_step (Append env ev) r) st' \<and>
    length (sh_records (st_shard st)) \<le> length (sh_records (st_shard st'))"
proof -
  obtain st' rs where "at_arn arn (append_change_event env ev (rd_store r)) st'"
    "sh_id (st_shard st') = sh_id (st_shard st)" "sh_records (st_shard st') = sh_records (st_shard st) @ rs"
    using append_event_at assms unfolding reader_ok_def by blast
  then show ?thesis using assms by (intro exI [of _ st']) (auto simp: reader_ok_def)
qed

definition stream_length :: "string \<Rightarrow> stream_store \<Rightarrow> nat" where
  "stream_length arn s = (case get_stream_by_arn arn s of None \<Rightarrow> 0 | Some st \<Rightarrow> length (sh_records (st_shard st)))"

lemma reader_step_mono:
  assumes "at_arn arn (rd_store r) st"
  shows "\<exists>st'. at_arn arn (rd_store (reader_step x r)) st' \<and>
    stream_length arn (rd_store r) \<le> stream_length arn (rd_store (reader_step x r))"
proof (cases x)
  case (Append env ev)
  then show ?thesis
    using append_event_at [OF assms, of env ev] assms by (auto simp: stream_length_def at_arn_def)
next
  case (Read_Page limit)
  then have "rd_store (reader_step x r) = rd_store r" by (auto split: option.split sum.split)
  then show ?thesis using assms by auto
qed

lemma reader_run_mono:
  "at_arn arn (rd_store r) st \<Longrightarrow> stream_length arn (rd_store r) \<le> stream_length arn (rd_store (fold reader_step xs r))"
proof (induction xs arbitrary: r st)
  case (Cons x xs)
  then show ?case using reader_step_mono [of arn r st x] order_trans by (auto, blast)
qed simp

lemma reader_run_ok:
  assumes "CHR ''|'' \<notin> set arn" "CHR ''|'' \<notin> set sid" "reader_ok arn sid r st"
    and "stream_length arn (rd_store (fold reader_step xs r)) < 2 ^ 64"
  shows "\<exists>st'. reader_ok arn sid (fold reader_step xs r) st'"
  using assms(3,4)
proof (induction xs arbitrary: r st)
  case (Cons x xs)
  have "stream_length arn (rd_store r) < 2 ^ 64"
    using reader_run_mono [of arn r st "x # xs"] Cons.prems unfolding reader_ok_def by (meson order_le_less_trans)
  then have l: "length (sh_records (st_shard st)) < 2 ^ 64"
    using Cons.prems(1) by (simp add: stream_length_def reader_ok_def at_arn_def)
  have "\<exists>st'. reader_ok arn sid (reader_step x r) st'"
  proof (cases x)
    case (Append env ev)
    then show ?thesis using append_page [OF Cons.prems(1)] by blast
  next
    case (Read_Page limit)
    then show ?thesis using read_page(1) [OF assms(1,2) Cons.prems(1) l] by blast
  qed
  then show ?case using Cons.IH Cons.prems(2) by auto
qed auto

text \<open>Reading on gets the rest.\<close>

lemma read_pages:
  assumes "CHR ''|'' \<notin> set arn" "CHR ''|'' \<notin> set sid" "reader_ok arn sid r st"
    and "length (sh_records (st_shard st)) < 2 ^ 64"
  shows "reader_ok arn sid (fold reader_step (map Read_Page limits) r) st \<and>
    min (length (rd_got r) + length limits) (length (sh_records (st_shard st)))
      \<le> length (rd_got (fold reader_step (map Read_Page limits) r))"
  using assms(3)
proof (induction limits arbitrary: r)
  case (Cons l limits)
  let ?r = "reader_step (Read_Page l) r" and ?n = "length (sh_records (st_shard st))"
  note page = read_page [OF assms(1,2) Cons.prems assms(4), of l]
  have le: "min (length (rd_got r) + length (l # limits)) ?n \<le> min (length (rd_got ?r) + length limits) ?n"
    unfolding page(2) using records_limit_pos [of l] by (simp add: min_def)
  show ?case
    using Cons.IH [OF page(1)] order_trans [OF le] by (simp del: reader_step.simps min.bounded_iff)
qed (simp add: reader_ok_def)

lemma reader_catches_up_from:
  assumes "CHR ''|'' \<notin> set arn" "CHR ''|'' \<notin> set sid" "reader_ok arn sid r st"
    and "length (sh_records (st_shard st)) < 2 ^ 64" "length (sh_records (st_shard st)) \<le> length limits"
  shows "rd_got (fold reader_step (map Read_Page limits) r) = sh_records (st_shard st)"
  using read_pages [OF assms(1-4), of limits] assms(5) by (auto simp: reader_ok_def)

end
