(* ===== verification/Dynamo_Service.thy ===== *)
theory Dynamo_Service
  imports Dynamo_Request Streams_Store
begin

text \<open>
  The state of the DynamoDB service (\<^verbatim>\<open>state.rs\<close>, \<^verbatim>\<open>coordination.rs\<close>) with the streams that it feeds
  (\<^verbatim>\<open>rustack-dynamodbstreams-core\<close>, wired in as emitter and lifecycle), and the table handlers of
  \<^verbatim>\<open>provider.rs\<close>. One operation runs at a time; one that panics closes the service. The description
  of a table is a projection of the table and is not modelled: a handler returns the table.
\<close>

section \<open>State\<close>

datatype attribute_type = Type_S | Type_N | Type_B | Type_Unknown string

datatype billing_mode = Billing_Provisioned | Billing_PayPerRequest | Billing_Unknown string

record secondary_index =
  si_name :: string
  si_key_elements :: key_elements

record stream_spec =
  ss_enabled :: bool
  ss_view :: "view_type option"

record recovery_spec =
  pr_enabled :: bool
  pr_days :: "int option"

record dynamo_table =
  dt_name :: string
  dt_key_elements :: key_elements
  dt_key_schema :: key_schema
  dt_definitions :: "(string \<times> attribute_type) list"
  dt_billing :: billing_mode
  dt_throughput :: "(int \<times> int) option"
  dt_global_indexes :: "secondary_index list"
  dt_local_indexes :: "secondary_index list"
  dt_stream :: "stream_spec option"
  dt_tags :: "(string \<times> string) list"
  dt_ttl :: "(string \<times> bool) option"
  dt_recovery :: recovery_spec
  dt_arn :: string
  dt_id :: string
  dt_created_at :: int
  dt_storage :: table_storage

record completed_transaction =
  ct_fingerprint :: string
  ct_completed_at :: int

text \<open>\<open>dv_open\<close>: requests are admitted (the semaphore is not closed).\<close>

record dynamo_service =
  dv_tables :: "(string, dynamo_table) btree"
  dv_tokens :: "(string, completed_transaction) btree"
  dv_streams :: stream_store
  dv_open :: bool
  dv_failed :: bool

definition new_service :: dynamo_service where
  "new_service = \<lparr>dv_tables = [], dv_tokens = [], dv_streams = [], dv_open = True, dv_failed = False\<rparr>"

text \<open>What a request reads from outside: the region, the clocks (in milliseconds), a fresh identifier,
  and the same for each of its change events.\<close>

record request_env =
  re_region :: string
  re_now :: int
  re_instant :: int
  re_uuid :: string
  re_stream :: "nat \<Rightarrow> stream_env"

section \<open>Operations one at a time\<close>

type_synonym 'a outcome = "(dynamo_error + 'a) \<times> dynamo_service"

definition operation :: "(dynamo_service \<Rightarrow> 'a outcome) \<Rightarrow> dynamo_service \<Rightarrow> 'a outcome" where
  "operation body sv =
     (if \<not> dv_open sv then (Inl DE_RequestLimitExceeded, sv)
      else let (r, sv') = body sv
           in (r, if r = Inl DE_Panicked then sv'\<lparr>dv_open := False, dv_failed := True\<rparr> else sv'))"

text \<open>A body that decides first and writes last.\<close>

definition attempt :: "dynamo_service \<Rightarrow> dynamo_error + 'a \<times> dynamo_service \<Rightarrow> 'a outcome" where
  "attempt sv r = (case r of Inl e \<Rightarrow> (Inl e, sv) | Inr (x, sv') \<Rightarrow> (Inr x, sv'))"

definition reading :: "(dynamo_service \<Rightarrow> dynamo_error + 'a) \<Rightarrow> dynamo_service \<Rightarrow> 'a outcome" where
  "reading f sv = (f sv, sv)"

definition quiesce_service :: "dynamo_service \<Rightarrow> dynamo_service" where
  "quiesce_service sv = sv\<lparr>dv_open := False\<rparr>"

definition reset_service :: "dynamo_service \<Rightarrow> dynamo_service" where
  "reset_service sv = sv\<lparr>dv_tables := [], dv_tokens := []\<rparr>"

definition require_table :: "string \<Rightarrow> dynamo_service \<Rightarrow> dynamo_error + dynamo_table" where
  "require_table name sv = ok_or DE_ResourceNotFound (bt_get (dv_tables sv) name)"

definition create_table :: "dynamo_table \<Rightarrow> dynamo_service \<Rightarrow> dynamo_error + dynamo_service" where
  "create_table t sv =
     (case bt_get (dv_tables sv) (dt_name t) of
        Some _ \<Rightarrow> Inl DE_ResourceInUse
      | None \<Rightarrow> Inr (sv\<lparr>dv_tables := bt_insert (dt_name t) t (dv_tables sv)\<rparr>))"

definition update_table :: "string \<Rightarrow> (dynamo_table \<Rightarrow> dynamo_table) \<Rightarrow> dynamo_service \<Rightarrow> dynamo_service" where
  "update_table name f sv =
     (case bt_get (dv_tables sv) name of
        None \<Rightarrow> sv
      | Some t \<Rightarrow> sv\<lparr>dv_tables := bt_insert name (f t) (dv_tables sv)\<rparr>)"

section \<open>Creating a table\<close>

definition count_role :: "key_role \<Rightarrow> key_elements \<Rightarrow> nat" where
  "count_role role elements = length (filter (\<lambda>e. snd e = role) elements)"

definition validate_key_schema_structure :: "key_elements \<Rightarrow> bool" where
  "validate_key_schema_structure elements \<longleftrightarrow>
     count_role Role_Hash elements = 1 \<and> count_role Role_Range elements \<le> 1 \<and> length elements \<le> 2"

definition validate_attribute_definitions :: "(string \<times> attribute_type) list \<Rightarrow> bool" where
  "validate_attribute_definitions defs \<longleftrightarrow> distinct (map fst defs)"

definition validate_billing_mode :: "billing_mode option \<Rightarrow> (int \<times> int) option \<Rightarrow> dynamo_error + billing_mode" where
  "validate_billing_mode mode throughput =
     (case unwrap_or Billing_Provisioned mode of
        Billing_Unknown _ \<Rightarrow> Inl DE_Validation
      | Billing_PayPerRequest \<Rightarrow> ensure (throughput = None) (Inr Billing_PayPerRequest)
      | Billing_Provisioned \<Rightarrow> ensure (throughput \<noteq> None) (Inr Billing_Provisioned))"

definition validate_no_spurious_attribute_definitions ::
    "(string \<times> attribute_type) list \<Rightarrow> key_elements \<Rightarrow> secondary_index list \<Rightarrow> secondary_index list \<Rightarrow> bool" where
  "validate_no_spurious_attribute_definitions defs elements gsis lsis \<longleftrightarrow>
     list_all (\<lambda>d. fst d \<in> fst ` set elements \<or>
         (\<exists>x\<in>set (gsis @ lsis). fst d \<in> fst ` set (si_key_elements x))) defs"

fun key_scalar_type :: "attribute_type \<Rightarrow> scalar_type option" where
  "key_scalar_type Type_S = Some ScalarS"
| "key_scalar_type Type_N = Some ScalarN"
| "key_scalar_type Type_B = Some ScalarB"
| "key_scalar_type (Type_Unknown _) = None"

definition parse_key_attribute :: "(string \<times> attribute_type) list \<Rightarrow> string \<Rightarrow> dynamo_error + key_attribute" where
  "parse_key_attribute defs name =
     (case Option.bind (map_of defs name) key_scalar_type of
        None \<Rightarrow> Inl DE_Validation
      | Some ty \<Rightarrow> Inr \<lparr>ka_name = name, ka_type = ty\<rparr>)"

text \<open>The last element of a role counts.\<close>

definition key_of_role :: "key_role \<Rightarrow> key_elements \<Rightarrow> string option" where
  "key_of_role role elements = map_option fst (find (\<lambda>e. snd e = role) (rev elements))"

definition parse_key_schema :: "key_elements \<Rightarrow> (string \<times> attribute_type) list \<Rightarrow> dynamo_error + key_schema" where
  "parse_key_schema elements defs =
     res_bind (ok_or DE_Validation (key_of_role Role_Hash elements)) (\<lambda>pk_name.
     res_bind (parse_key_attribute defs pk_name) (\<lambda>pk.
       case key_of_role Role_Range elements of
         None \<Rightarrow> Inr \<lparr>ks_partition_key = pk, ks_sort_key = None\<rparr>
       | Some sk_name \<Rightarrow>
           res_map (\<lambda>sk. \<lparr>ks_partition_key = pk, ks_sort_key = Some sk\<rparr>) (parse_key_attribute defs sk_name)))"

record create_table_input =
  cti_name :: string
  cti_key_elements :: key_elements
  cti_definitions :: "(string \<times> attribute_type) list"
  cti_billing :: "billing_mode option"
  cti_throughput :: "(int \<times> int) option"
  cti_global_indexes :: "secondary_index list"
  cti_local_indexes :: "secondary_index list"
  cti_stream :: "stream_spec option"
  cti_tags :: "(string \<times> string) list"

definition table_of_input :: "request_env \<Rightarrow> create_table_input \<Rightarrow> key_schema \<Rightarrow> billing_mode \<Rightarrow> dynamo_table" where
  "table_of_input env i ks billing =
     \<lparr>dt_name = cti_name i, dt_key_elements = cti_key_elements i, dt_key_schema = ks,
      dt_definitions = cti_definitions i, dt_billing = billing, dt_throughput = cti_throughput i,
      dt_global_indexes = cti_global_indexes i, dt_local_indexes = cti_local_indexes i,
      dt_stream = cti_stream i, dt_tags = cti_tags i, dt_ttl = None,
      dt_recovery = \<lparr>pr_enabled = False, pr_days = None\<rparr>,
      dt_arn = ''arn:aws:dynamodb:'' @ re_region env @ '':000000000000:table/'' @ cti_name i,
      dt_id = re_uuid env, dt_created_at = re_now env, dt_storage = new_storage ks\<rparr>"

definition stream_enabled :: "dynamo_table \<Rightarrow> bool" where
  "stream_enabled t = (case dt_stream t of None \<Rightarrow> False | Some spec \<Rightarrow> ss_enabled spec)"

definition stream_view :: "dynamo_table \<Rightarrow> view_type" where
  "stream_view t = unwrap_or View_NewAndOldImages (Option.bind (dt_stream t) ss_view)"

text \<open>Opens the stream of a new table and returns its ARN.\<close>

definition open_stream :: "request_env \<Rightarrow> dynamo_table \<Rightarrow> dynamo_service \<Rightarrow> string option \<times> dynamo_service" where
  "open_stream env t sv =
     (if stream_enabled t
      then (let (arn, streams) = create_stream_for (re_stream env 0) (dt_name t) (dt_arn t) (dt_key_elements t)
                  (stream_view t) (dv_streams sv)
            in (Some arn, sv\<lparr>dv_streams := streams\<rparr>))
      else (None, sv))"

definition handle_create_table ::
    "request_env \<Rightarrow> create_table_input \<Rightarrow> dynamo_service \<Rightarrow> (dynamo_table \<times> string option) outcome" where
  "handle_create_table env i = operation (\<lambda>sv. attempt sv (
     ensure (validate_table_name (cti_name i)) (
     ensure (cti_definitions i \<noteq> []) (
     ensure (validate_attribute_definitions (cti_definitions i)) (
     ensure (validate_key_schema_structure (cti_key_elements i)) (
     res_bind (parse_key_schema (cti_key_elements i) (cti_definitions i)) (\<lambda>ks.
     res_bind (validate_billing_mode (cti_billing i) (cti_throughput i)) (\<lambda>billing.
     ensure (validate_no_spurious_attribute_definitions (cti_definitions i) (cti_key_elements i)
        (cti_global_indexes i) (cti_local_indexes i)) (
     let t = table_of_input env i ks billing
     in res_map (\<lambda>sv'. let (arn, sv'') = open_stream env t sv' in ((t, arn), sv''))
          (create_table t sv))))))))))"

section \<open>The other table handlers\<close>

definition handle_delete_table :: "string \<Rightarrow> dynamo_service \<Rightarrow> dynamo_table outcome" where
  "handle_delete_table name = operation (\<lambda>sv. attempt sv (
     res_map (\<lambda>t. (t, sv\<lparr>dv_tables := bt_remove name (dv_tables sv),
                      dv_streams := on_table_deleted (dt_name t) (dv_streams sv)\<rparr>))
       (require_table name sv)))"

definition handle_describe_table :: "string \<Rightarrow> dynamo_service \<Rightarrow>
    (dynamo_table \<times> string option \<times> string option) outcome" where
  "handle_describe_table name = operation (reading (\<lambda>sv.
     res_map (\<lambda>t. let st = (if stream_enabled t then bt_get (dv_streams sv) (dt_name t) else None)
                in (t, map_option st_arn st, map_option st_label st))
       (require_table name sv)))"

text \<open>Only answers: none of the requested changes is made.\<close>

definition handle_update_table :: "string \<Rightarrow> dynamo_service \<Rightarrow> dynamo_table outcome" where
  "handle_update_table name = operation (reading (require_table name))"

definition handle_list_tables :: "string option \<Rightarrow> int option \<Rightarrow> dynamo_service \<Rightarrow>
    (string list \<times> string option) outcome" where
  "handle_list_tables start limit = operation (reading (\<lambda>sv.
     ensure (case limit of None \<Rightarrow> True | Some l \<Rightarrow> 1 \<le> l \<and> l \<le> 100) (
       let names = bt_keys (dv_tables sv);
           n = nat (unwrap_or 100 limit);
           rest = (case start of None \<Rightarrow> names | Some s \<Rightarrow> dropWhile (\<lambda>m. \<not> s < m) names);
           page = take (n + 1) rest
       in Inr (if length page > n then (take n page, Some (page ! (n - 1))) else (page, None)))))"

section \<open>Tags, time to live, recovery\<close>

definition resolve_table_from_arn :: "string \<Rightarrow> dynamo_error + string" where
  "resolve_table_from_arn arn =
     (case split_once CHR ''/'' (rev arn) of
        None \<Rightarrow> Inl DE_Validation
      | Some (name, _) \<Rightarrow> ensure (name \<noteq> []) (Inr (rev name)))"

definition valid_tag :: "string \<times> string \<Rightarrow> bool" where
  "valid_tag kv \<longleftrightarrow> fst kv \<noteq> [] \<and> length (fst kv) \<le> 128 \<and> length (snd kv) \<le> 256 \<and>
     \<not> starts_with (fst kv) ''aws:''"

fun set_tag :: "string \<times> string \<Rightarrow> (string \<times> string) list \<Rightarrow> (string \<times> string) list" where
  "set_tag kv [] = [kv]"
| "set_tag kv (t # ts) = (if fst t = fst kv then (fst t, snd kv) # ts else t # set_tag kv ts)"

definition handle_tag_resource_table :: "string \<Rightarrow> (string \<times> string) list \<Rightarrow> dynamo_service \<Rightarrow> unit outcome" where
  "handle_tag_resource_table arn tags = operation (\<lambda>sv. attempt sv (
     res_bind (resolve_table_from_arn arn) (\<lambda>name.
     res_bind (require_table name sv) (\<lambda>t.
     ensure (list_all valid_tag tags) (
     let merged = fold set_tag tags (dt_tags t)
     in ensure (length merged \<le> 50) (
          Inr ((), update_table name (\<lambda>t. t\<lparr>dt_tags := merged\<rparr>) sv)))))))"

definition handle_untag_resource_table :: "string \<Rightarrow> string list \<Rightarrow> dynamo_service \<Rightarrow> unit outcome" where
  "handle_untag_resource_table arn keys = operation (\<lambda>sv. attempt sv (
     res_bind (resolve_table_from_arn arn) (\<lambda>name.
     res_map (\<lambda>t. ((), update_table name (\<lambda>t. t\<lparr>dt_tags := filter (\<lambda>kv. fst kv \<notin> set keys) (dt_tags t)\<rparr>) sv))
       (require_table name sv))))"

definition handle_list_tags_of_resource :: "string \<Rightarrow> dynamo_service \<Rightarrow> (string \<times> string) list outcome" where
  "handle_list_tags_of_resource arn = operation (reading (\<lambda>sv.
     res_bind (resolve_table_from_arn arn) (\<lambda>name. res_map dt_tags (require_table name sv))))"

definition handle_update_time_to_live :: "string \<Rightarrow> string \<Rightarrow> bool \<Rightarrow> dynamo_service \<Rightarrow> (string \<times> bool) outcome" where
  "handle_update_time_to_live name attr enabled = operation (\<lambda>sv. attempt sv (
     ensure (validate_table_name name) (
     res_bind (require_table name sv) (\<lambda>t.
     ensure (attr \<noteq> []) (
       Inr ((attr, enabled), update_table name (\<lambda>t. t\<lparr>dt_ttl := Some (attr, enabled)\<rparr>) sv))))))"

definition handle_describe_time_to_live :: "string \<Rightarrow> dynamo_service \<Rightarrow> (string option \<times> string) outcome" where
  "handle_describe_time_to_live name = operation (reading (\<lambda>sv.
     ensure (validate_table_name name) (
     res_map (\<lambda>t. case dt_ttl t of
         Some (attr, enabled) \<Rightarrow> (Some attr, if enabled then ''ENABLED'' else ''DISABLED'')
       | None \<Rightarrow> (None, ''DISABLED'')) (require_table name sv))))"

text \<open>The recovery window in milliseconds: the earliest and the latest time.\<close>

definition continuous_backups_description :: "int \<Rightarrow> recovery_spec \<Rightarrow> bool \<times> (int \<times> int \<times> int) option" where
  "continuous_backups_description now spec =
     (let days = unwrap_or 35 (pr_days spec)
      in (pr_enabled spec,
          if pr_enabled spec then Some (days, now - days * 86400000, now - 300000) else None))"

definition handle_describe_continuous_backups ::
    "request_env \<Rightarrow> string \<Rightarrow> dynamo_service \<Rightarrow> (bool \<times> (int \<times> int \<times> int) option) outcome" where
  "handle_describe_continuous_backups env name = operation (reading (\<lambda>sv.
     ensure (validate_table_name name) (
     res_map (\<lambda>t. continuous_backups_description (re_now env) (dt_recovery t)) (require_table name sv))))"

definition handle_update_continuous_backups ::
    "request_env \<Rightarrow> string \<Rightarrow> recovery_spec \<Rightarrow> dynamo_service \<Rightarrow> (bool \<times> (int \<times> int \<times> int) option) outcome" where
  "handle_update_continuous_backups env name spec = operation (\<lambda>sv. attempt sv (
     ensure (validate_table_name name) (
     res_bind (require_table name sv) (\<lambda>t.
     ensure (case pr_days spec of None \<Rightarrow> True | Some d \<Rightarrow> 1 \<le> d \<and> d \<le> 35) (
       Inr (continuous_backups_description (re_now env) spec,
            update_table name (\<lambda>t. t\<lparr>dt_recovery := spec\<rparr>) sv))))))"

end
