(* ===== verification/Dynamo_Handlers.thy ===== *)
theory Dynamo_Handlers
  imports Dynamo_Service
begin

text \<open>
  The handlers of single items (\<^verbatim>\<open>provider.rs\<close>): PutItem, GetItem, DeleteItem and UpdateItem, each with
  its change event.
\<close>

section \<open>Storage and events\<close>

definition set_storage :: "string \<Rightarrow> table_storage \<Rightarrow> dynamo_service \<Rightarrow> dynamo_service" where
  "set_storage name st = update_table name (\<lambda>t. t\<lparr>dt_storage := st\<rparr>)"

definition extract_key_attributes :: "item \<Rightarrow> key_elements \<Rightarrow> item" where
  "extract_key_attributes it elements =
     insert_all (List.map_filter (\<lambda>e. map_option (Pair (fst e)) (bt_get it (fst e))) elements) []"

text \<open>The event of a change from one image to another; no event without an image.\<close>

definition event_of_change :: "dynamo_table \<Rightarrow> item option \<Rightarrow> item option \<Rightarrow> change_event option" where
  "event_of_change t old new_image =
     map_option (\<lambda>image.
       \<lparr>ce_table = dt_name t,
        ce_name = (case (old, new_image) of
                     (_, None) \<Rightarrow> Change_Remove | (None, Some _) \<Rightarrow> Change_Insert | (Some _, Some _) \<Rightarrow> Change_Modify),
        ce_keys = extract_key_attributes image (dt_key_elements t),
        ce_old = old, ce_new = new_image, ce_size = calculate_item_size image\<rparr>)
       (case new_image of Some x \<Rightarrow> Some x | None \<Rightarrow> old)"

definition emit_change :: "stream_env \<Rightarrow> dynamo_table \<Rightarrow> item option \<Rightarrow> item option \<Rightarrow> dynamo_service \<Rightarrow> dynamo_service" where
  "emit_change env t old new_image sv =
     (if \<not> stream_enabled t then sv
      else (case event_of_change t old new_image of
              None \<Rightarrow> sv
            | Some ev \<Rightarrow> sv\<lparr>dv_streams := append_change_event env ev (dv_streams sv)\<rparr>))"

definition all_old :: "return_value option \<Rightarrow> item option \<Rightarrow> item" where
  "all_old rv old = (if rv = Some Return_AllOld then unwrap_or [] old else [])"

section \<open>PutItem\<close>

record put_item_input = condition_input +
  pi_table :: string
  pi_item :: item
  pi_return :: "return_value option"

definition none_or_all_old :: "return_value option \<Rightarrow> bool" where
  "none_or_all_old rv \<longleftrightarrow> rv \<in> {None, Some Return_None, Some Return_AllOld}"

definition valid_item :: "item \<Rightarrow> bool" where
  "valid_item it \<longleftrightarrow> validate_numbers_in_item it \<and> validate_item_no_empty_sets it \<and>
     int (calculate_item_size it) \<le> max_item_size_bytes"

definition put_item_body :: "request_env \<Rightarrow> put_item_input \<Rightarrow> dynamo_service \<Rightarrow> dynamo_error + item \<times> dynamo_service" where
  "put_item_body env i sv =
     ensure (validate_table_name (pi_table i)) (
     res_bind (require_table (pi_table i) sv) (\<lambda>t.
     ensure (none_or_all_old (pi_return i)) (
     ensure (validate_key_not_empty (dt_key_schema t) (pi_item i)) (
     ensure (\<not> mixes_expected i) (
     res_bind (with_expected i) (\<lambda>i.
     ensure (validate_return_values_on_condition_check_failure (ci_failure_return i)) (
     ensure (valid_item (pi_item i)) (
     ensure (validate_condition_not_empty (ci_condition i)) (
     res_bind (condition_references (ci_condition i)) (\<lambda>used.
     ensure (check_no_unused (ci_names i) (ci_values i) used) (
     res_bind
       (if ci_condition i = None then Inr ()
        else res_bind (storage_error_to_dynamodb (extract_primary_key (dt_key_schema t) (pi_item i)))
          (\<lambda>pk. check_condition i (get_item pk (dt_storage t)))) (\<lambda>_.
     res_map (\<lambda>(old, st).
         (all_old (pi_return i) old,
          emit_change (re_stream env 0) t old (Some (pi_item i)) (set_storage (pi_table i) st sv)))
       (storage_error_to_dynamodb (put_item (pi_item i) (dt_storage t)))))))))))))))"

definition handle_put_item :: "request_env \<Rightarrow> put_item_input \<Rightarrow> dynamo_service \<Rightarrow> item outcome" where
  "handle_put_item env i = operation (\<lambda>sv. attempt sv (put_item_body env i sv))"

section \<open>GetItem\<close>

record get_item_input =
  gt_table :: string
  gt_key :: item
  gt_projection :: "string option"
  gt_names :: "(string, string) btree"
  gt_attributes :: "string list option"

text \<open>\<^verbatim>\<open>AttributesToGet\<close> as a projection.\<close>

definition with_attributes_to_get :: "string list option \<Rightarrow> string option \<Rightarrow> dynamo_error + string option" where
  "with_attributes_to_get attrs projection =
     (case attrs of
        None \<Rightarrow> Inr projection
      | Some as \<Rightarrow>
          ensure (as \<noteq> []) (
          ensure (validate_no_duplicate_attributes_to_get as) (
            Inr (if projection = None then Some (convert_attributes_to_get as) else projection))))"

definition projection_paths :: "string option \<Rightarrow> dynamo_error + attribute_path list option" where
  "projection_paths projection =
     (case projection of None \<Rightarrow> Inr None | Some p \<Rightarrow> res_map Some (parse_answer (parse_projection p)))"

definition project_item :: "(string, string) btree \<Rightarrow> attribute_path list option \<Rightarrow> item \<Rightarrow> item" where
  "project_item names paths it =
     (case paths of
        None \<Rightarrow> it
      | Some ps \<Rightarrow> apply_projection \<lparr>ec_item = it, ec_names = names, ec_values = []\<rparr> ps)"

definition paths_names :: "attribute_path list option \<Rightarrow> string set" where
  "paths_names paths = (case paths of None \<Rightarrow> {} | Some ps \<Rightarrow> collect_names_from_projection ps)"

definition valid_get_key :: "key_schema \<Rightarrow> item \<Rightarrow> bool" where
  "valid_get_key ks key \<longleftrightarrow> validate_key_only_has_key_attrs ks key \<and> validate_key_types ks key \<and>
     validate_key_not_empty ks key"

definition handle_get_item :: "get_item_input \<Rightarrow> dynamo_service \<Rightarrow> item option outcome" where
  "handle_get_item i = operation (reading (\<lambda>sv.
     ensure (validate_table_name (gt_table i)) (
     res_bind (require_table (gt_table i) sv) (\<lambda>t.
     ensure (\<not> (gt_projection i \<noteq> None \<and> unwrap_or [] (gt_attributes i) \<noteq> [])) (
     ensure (valid_get_key (dt_key_schema t) (gt_key i)) (
     res_bind (storage_error_to_dynamodb (extract_primary_key (dt_key_schema t) (gt_key i))) (\<lambda>pk.
     res_bind (with_attributes_to_get (gt_attributes i) (gt_projection i)) (\<lambda>projection.
     res_bind (projection_paths projection) (\<lambda>paths.
     ensure (validate_no_unused (gt_names i) (paths_names paths)) (
       Inr (map_option (project_item (gt_names i) paths) (get_item pk (dt_storage t)))))))))))))"

section \<open>DeleteItem\<close>

record delete_item_input = condition_input +
  di_table :: string
  di_key :: item
  di_return :: "return_value option"

definition delete_item_body :: "request_env \<Rightarrow> delete_item_input \<Rightarrow> dynamo_service \<Rightarrow> dynamo_error + item \<times> dynamo_service" where
  "delete_item_body env i sv =
     ensure (validate_table_name (di_table i)) (
     res_bind (require_table (di_table i) sv) (\<lambda>t.
     ensure (none_or_all_old (di_return i)) (
     ensure (validate_return_values_on_condition_check_failure (ci_failure_return i)) (
     ensure (validate_key_only_has_key_attrs (dt_key_schema t) (di_key i)) (
     ensure (validate_key_not_empty (dt_key_schema t) (di_key i)) (
     res_bind (storage_error_to_dynamodb (extract_primary_key (dt_key_schema t) (di_key i))) (\<lambda>pk.
     ensure (validate_conditional_operator (ci_operator i) (ci_expected i)) (
     ensure (\<not> mixes_expected i) (
     res_bind (with_expected i) (\<lambda>i.
     ensure (validate_condition_not_empty (ci_condition i)) (
     res_bind (condition_references (ci_condition i)) (\<lambda>used.
     ensure (check_no_unused (ci_names i) (ci_values i) used) (
     res_bind (check_condition i (get_item pk (dt_storage t))) (\<lambda>_.
     let (old, st) = delete_item pk (dt_storage t)
     in Inr (all_old (di_return i) old,
             emit_change (re_stream env 0) t old None (set_storage (di_table i) st sv))))))))))))))))"

definition handle_delete_item :: "request_env \<Rightarrow> delete_item_input \<Rightarrow> dynamo_service \<Rightarrow> item outcome" where
  "handle_delete_item env i = operation (\<lambda>sv. attempt sv (delete_item_body env i sv))"

section \<open>UpdateItem\<close>

record update_item_input = condition_input +
  ui_table :: string
  ui_key :: item
  ui_update :: "string option"
  ui_attribute_updates :: "(string, attribute_update) btree"
  ui_return :: "return_value option"

text \<open>The legacy ADD of a list, which the expression language does not have.\<close>

definition is_list_add :: "attribute_update \<Rightarrow> bool" where
  "is_list_add u \<longleftrightarrow> au_action u = Some Action_Add \<and> (case au_value u of Some (AvL _) \<Rightarrow> True | _ \<Rightarrow> False)"

definition add_to_list :: "string \<times> attribute_update \<Rightarrow> item \<Rightarrow> dynamo_error + item" where
  "add_to_list kv it =
     (case au_value (snd kv) of
        Some (AvL new_items) \<Rightarrow>
          (case bt_get it (fst kv) of
             Some (AvL existing) \<Rightarrow> Inr (bt_insert (fst kv) (AvL (existing @ new_items)) it)
           | None \<Rightarrow> Inr (bt_insert (fst kv) (AvL new_items) it)
           | Some _ \<Rightarrow> Inl DE_Validation)
      | _ \<Rightarrow> Inr it)"

definition list_adds :: "(string, attribute_update) btree \<Rightarrow> (string, attribute_update) btree" where
  "list_adds updates = filter (\<lambda>kv. is_list_add (snd kv)) updates"

definition with_attribute_updates :: "update_item_input \<Rightarrow> update_item_input" where
  "with_attribute_updates i =
     (let rest = filter (\<lambda>kv. \<not> is_list_add (snd kv)) (ui_attribute_updates i)
      in if rest = [] then i
         else (let (e, names, values) = convert_attribute_updates_to_expression rest
               in i\<lparr>ui_update := Some e,
                    ci_names := merge_expression (ci_names i) names,
                    ci_values := merge_expression (ci_values i) values\<rparr>))"

definition mixes_parameters :: "update_item_input \<Rightarrow> bool" where
  "mixes_parameters i \<longleftrightarrow>
     ui_attribute_updates i \<noteq> [] \<and> (ui_update i \<noteq> None \<or> ci_condition i \<noteq> None) \<or>
     ci_expected i \<noteq> [] \<and> (ui_update i \<noteq> None \<or> ci_condition i \<noteq> None)"

definition parse_optional_update :: "string option \<Rightarrow> dynamo_error + update_expr option" where
  "parse_optional_update u =
     (case u of None \<Rightarrow> Inr None | Some e \<Rightarrow> res_map Some (parse_answer (parse_update e)))"

definition update_references :: "update_expr option \<Rightarrow> string set \<times> string set" where
  "update_references u =
     (case u of None \<Rightarrow> ({}, {}) | Some e \<Rightarrow> (collect_names_from_update e, collect_values_from_update e))"

definition both_references :: "string set \<times> string set \<Rightarrow> string set \<times> string set \<Rightarrow> string set \<times> string set" where
  "both_references a b = (fst a \<union> fst b, snd a \<union> snd b)"

definition to_ascii_uppercase :: "string \<Rightarrow> string" where
  "to_ascii_uppercase s = map (\<lambda>c. if is_ascii_lower c then char_of (byte_of c - 32) else c) s"

text \<open>Decided on the text of the expression.\<close>

definition is_subtractive_only :: "string option \<Rightarrow> bool" where
  "is_subtractive_only u =
     (case u of
        None \<Rightarrow> False
      | Some e \<Rightarrow>
          (let upper = to_ascii_uppercase (str_trim e)
           in \<not> str_contains ''SET '' upper \<and> \<not> str_contains ''ADD '' upper))"

definition updated_item :: "'a condition_input_scheme \<Rightarrow> update_expr option \<Rightarrow> item \<Rightarrow> dynamo_error + item" where
  "updated_item i u it =
     (case u of
        None \<Rightarrow> Inr it
      | Some e \<Rightarrow>
          expression_error_to_dynamodb (apply_update \<lparr>ec_item = it, ec_names = ci_names i, ec_values = ci_values i\<rparr> e))"

text \<open>What is left once the new item is known: not to create an item of keys only, or to store it.\<close>

definition store_update ::
    "request_env \<Rightarrow> update_item_input \<Rightarrow> dynamo_table \<Rightarrow> item option \<Rightarrow> update_expr option \<Rightarrow> item \<Rightarrow> dynamo_service \<Rightarrow>
     dynamo_error + item \<times> dynamo_service" where
  "store_update env i t existing u it sv =
     (if existing = None \<and> is_subtractive_only (ui_update i) \<and> item_has_only_key_attrs it (dt_key_schema t)
      then Inr ([], sv)
      else
        ensure (valid_item it) (
        res_map (\<lambda>(old, st).
            let old = (case old of None \<Rightarrow> existing | Some o' \<Rightarrow> Some o')
            in (compute_update_return_values (ui_return i) old it (dt_key_schema t) u (ci_names i),
                emit_change (re_stream env 0) t old (Some it) (set_storage (ui_table i) st sv)))
          (storage_error_to_dynamodb (put_item it (dt_storage t)))))"

definition update_item_body :: "request_env \<Rightarrow> update_item_input \<Rightarrow> dynamo_service \<Rightarrow> dynamo_error + item \<times> dynamo_service" where
  "update_item_body env i sv =
     ensure (validate_table_name (ui_table i)) (
     res_bind (require_table (ui_table i) sv) (\<lambda>t.
     ensure (validate_return_values_on_condition_check_failure (ci_failure_return i)) (
     ensure (validate_conditional_operator (ci_operator i) (ci_expected i)) (
     ensure (\<not> mixes_parameters i) (
     ensure (validate_key_only_has_key_attrs (dt_key_schema t) (ui_key i)) (
     ensure (validate_key_not_empty (dt_key_schema t) (ui_key i)) (
     ensure (validate_numbers_in_item (ui_key i)) (
     res_bind (storage_error_to_dynamodb (extract_primary_key (dt_key_schema t) (ui_key i))) (\<lambda>pk.
     let existing = get_item pk (dt_storage t)
     in res_bind (with_expected i) (\<lambda>i.
     res_bind (apply_all add_to_list (list_adds (ui_attribute_updates i)) (unwrap_or (ui_key i) existing)) (\<lambda>it.
     let i = with_attribute_updates i
     in ensure (validate_numbers_in_item (ci_values i)) (
     ensure (validate_no_empty_sets (ci_values i)) (
     ensure (validate_condition_not_empty (ci_condition i)) (
     res_bind (condition_references (ci_condition i)) (\<lambda>used.
     res_bind (parse_optional_update (ui_update i)) (\<lambda>u.
     ensure (check_no_unused (ci_names i) (ci_values i) (both_references used (update_references u))) (
     ensure (case u of None \<Rightarrow> True | Some e \<Rightarrow> validate_update_paths e (dt_key_schema t) (ci_names i)) (
     res_bind (check_condition i existing) (\<lambda>_.
     res_bind (updated_item i u it) (\<lambda>it'.
       store_update env i t existing u it' sv))))))))))))))))))))"

definition handle_update_item :: "request_env \<Rightarrow> update_item_input \<Rightarrow> dynamo_service \<Rightarrow> item outcome" where
  "handle_update_item env i = operation (\<lambda>sv. attempt sv (update_item_body env i sv))"

chapter \<open>Batches and transactions\<close>

text \<open>
  The handlers of many items (\<^verbatim>\<open>provider.rs\<close>): BatchGetItem, BatchWriteItem, TransactGetItems and
  TransactWriteItems with its idempotency tokens. The writes are prepared without touching the
  tables, then committed, then published. A \<^verbatim>\<open>HashMap\<close> of tables is the list of its entries in the
  order of iteration.
\<close>

section \<open>Prepared changes\<close>

text \<open>The change refers to its table by name.\<close>

record prepared_change =
  pc_table :: string
  pc_key :: primary_key
  pc_old :: "item option"
  pc_new :: "item option"
  pc_mutate :: bool

definition size_bytes :: "prepared_change \<Rightarrow> nat" where
  "size_bytes c =
     (case pc_new c of
        Some it \<Rightarrow> calculate_item_size it
      | None \<Rightarrow> (case pc_old c of Some it \<Rightarrow> calculate_item_size it | None \<Rightarrow> 0))"

definition commit_change :: "prepared_change \<Rightarrow> dynamo_service \<Rightarrow> dynamo_service" where
  "commit_change c sv =
     (if \<not> pc_mutate c then sv
      else update_table (pc_table c) (\<lambda>t. t\<lparr>dt_storage :=
             snd (case pc_new c of
                    Some it \<Rightarrow> put_prepared (pc_key c) it (dt_storage t)
                  | None \<Rightarrow> delete_item (pc_key c) (dt_storage t))\<rparr>) sv)"

definition publish_change :: "stream_env \<Rightarrow> prepared_change \<Rightarrow> dynamo_service \<Rightarrow> dynamo_service" where
  "publish_change env c sv =
     (case bt_get (dv_tables sv) (pc_table c) of
        None \<Rightarrow> sv
      | Some t \<Rightarrow> if pc_mutate c then emit_change env t (pc_old c) (pc_new c) sv else sv)"

definition commit_prepared :: "request_env \<Rightarrow> prepared_change list \<Rightarrow> dynamo_service \<Rightarrow> dynamo_service" where
  "commit_prepared env cs sv =
     fold (\<lambda>(n, c). publish_change (re_stream env n) c) (enumerate 0 cs) (fold commit_change cs sv)"

section \<open>BatchGetItem\<close>

record keys_and_attributes =
  ba_keys :: "item list"
  ba_projection :: "string option"
  ba_attributes :: "string list"
  ba_names :: "(string, string) btree option"

fun collect_ok :: "('a \<Rightarrow> 'e + 'b) \<Rightarrow> 'a list \<Rightarrow> 'e + 'b list" where
  "collect_ok f [] = Inr []"
| "collect_ok f (x # xs) = res_bind (f x) (\<lambda>y. res_map (Cons y) (collect_ok f xs))"

definition batch_projection :: "keys_and_attributes \<Rightarrow> string option" where
  "batch_projection b =
     (case ba_projection b of
        Some p \<Rightarrow> Some p
      | None \<Rightarrow> if ba_attributes b \<noteq> [] then Some (convert_attributes_to_get (ba_attributes b)) else None)"

text \<open>The names are only checked against a projection, and only when there are some.\<close>

definition batch_names_used :: "keys_and_attributes \<Rightarrow> dynamo_error + unit" where
  "batch_names_used b =
     (if batch_projection b \<noteq> None \<and> unwrap_or [] (ba_names b) \<noteq> []
      then res_bind (projection_paths (batch_projection b)) (\<lambda>paths.
             ensure (validate_no_unused (unwrap_or [] (ba_names b)) (paths_names paths)) (Inr ()))
      else Inr ())"

text \<open>The projection is parse_answer for each item that is found.\<close>

definition batch_get_key :: "dynamo_table \<Rightarrow> keys_and_attributes \<Rightarrow> item \<Rightarrow> dynamo_error + item option" where
  "batch_get_key t b key =
     res_bind (storage_error_to_dynamodb (extract_primary_key (dt_key_schema t) key)) (\<lambda>pk.
       case get_item pk (dt_storage t) of
         None \<Rightarrow> Inr None
       | Some it \<Rightarrow>
           res_map (\<lambda>paths. Some (project_item (unwrap_or [] (ba_names b)) paths it))
             (projection_paths (batch_projection b)))"

definition batch_get_table :: "dynamo_service \<Rightarrow> string \<times> keys_and_attributes \<Rightarrow> dynamo_error + string \<times> item list" where
  "batch_get_table sv r =
     res_bind (require_table (fst r) sv) (\<lambda>t.
     ensure (detect_duplicate_keys (dt_key_schema t) (ba_keys (snd r))) (
     res_bind (batch_names_used (snd r)) (\<lambda>_.
     res_map (\<lambda>items. (fst r, List.map_filter id items))
       (collect_ok (batch_get_key t (snd r)) (ba_keys (snd r))))))"

definition handle_batch_get_item ::
    "(string \<times> keys_and_attributes) list \<Rightarrow> dynamo_service \<Rightarrow> (string \<times> item list) list outcome" where
  "handle_batch_get_item requests = operation (reading (\<lambda>sv.
     ensure (sum_list (map (\<lambda>r. length (ba_keys (snd r))) requests) \<le> 100) (
       collect_ok (batch_get_table sv) requests)))"

section \<open>BatchWriteItem\<close>

record write_request =
  wr_put :: "item option"
  wr_delete :: "item option"

definition write_request_item :: "write_request \<Rightarrow> item option" where
  "write_request_item w = (case wr_put w of Some it \<Rightarrow> Some it | None \<Rightarrow> wr_delete w)"

definition validate_write_request :: "key_schema \<Rightarrow> write_request \<Rightarrow> bool" where
  "validate_write_request ks w \<longleftrightarrow>
     (case (wr_put w, wr_delete w) of
        (Some it, None) \<Rightarrow> valid_item it \<and> validate_key_not_empty ks it \<and> is_ok (extract_primary_key ks it)
      | (None, Some key) \<Rightarrow>
          validate_key_only_has_key_attrs ks key \<and> validate_key_not_empty ks key \<and>
          validate_numbers_in_item key \<and> is_ok (extract_primary_key ks key)
      | _ \<Rightarrow> False)"

definition validate_table_writes :: "dynamo_service \<Rightarrow> string \<times> write_request list \<Rightarrow> dynamo_error + unit" where
  "validate_table_writes sv r =
     res_bind (require_table (fst r) sv) (\<lambda>t.
       ensure (detect_duplicate_keys (dt_key_schema t) (List.map_filter write_request_item (snd r)) \<and>
               list_all (validate_write_request (dt_key_schema t)) (snd r)) (Inr ()))"

definition prepare_write :: "dynamo_service \<Rightarrow> string \<Rightarrow> write_request \<Rightarrow> dynamo_error + prepared_change" where
  "prepare_write sv name w =
     res_bind (require_table name sv) (\<lambda>t.
     res_bind (ok_or DE_Validation (write_request_item w)) (\<lambda>it.
     res_map (\<lambda>pk. \<lparr>pc_table = name, pc_key = pk, pc_old = get_item pk (dt_storage t), pc_new = wr_put w,
                    pc_mutate = True\<rparr>)
       (storage_error_to_dynamodb (extract_primary_key (dt_key_schema t) it))))"

definition batch_write_body ::
    "request_env \<Rightarrow> (string \<times> write_request list) list \<Rightarrow> dynamo_service \<Rightarrow> dynamo_error + unit \<times> dynamo_service" where
  "batch_write_body env requests sv =
     ensure (sum_list (map (\<lambda>r. length (snd r)) requests) \<le> 25) (
     res_bind (collect_ok (validate_table_writes sv) requests) (\<lambda>_.
     res_map (\<lambda>cs. ((), commit_prepared env cs sv))
       (collect_ok (\<lambda>(name, w). prepare_write sv name w)
          (concat (map (\<lambda>r. map (Pair (fst r)) (snd r)) requests)))))"

definition handle_batch_write_item ::
    "request_env \<Rightarrow> (string \<times> write_request list) list \<Rightarrow> dynamo_service \<Rightarrow> unit outcome" where
  "handle_batch_write_item env requests = operation (\<lambda>sv. attempt sv (batch_write_body env requests sv))"

section \<open>TransactGetItems\<close>

definition max_transact_items :: nat where
  "max_transact_items = 100"

record transact_get =
  tg_table :: string
  tg_key :: item
  tg_projection :: "string option"
  tg_names :: "(string, string) btree option"

text \<open>A projection that leaves nothing is no item.\<close>

definition transact_get_one :: "dynamo_service \<Rightarrow> transact_get \<Rightarrow> dynamo_error + item option" where
  "transact_get_one sv g =
     ensure (validate_table_name (tg_table g)) (
     res_bind (require_table (tg_table g) sv) (\<lambda>t.
     ensure (valid_get_key (dt_key_schema t) (tg_key g)) (
     res_bind (storage_error_to_dynamodb (extract_primary_key (dt_key_schema t) (tg_key g))) (\<lambda>pk.
       case (get_item pk (dt_storage t), tg_projection g) of
         (None, _) \<Rightarrow> Inr None
       | (Some it, None) \<Rightarrow> Inr (Some it)
       | (Some it, Some p) \<Rightarrow>
           res_map (\<lambda>paths. let projected = project_item (unwrap_or [] (tg_names g)) (Some paths) it
                            in if projected = [] then None else Some projected)
             (parse_answer (parse_projection p))))))"

definition handle_transact_get_items :: "transact_get list \<Rightarrow> dynamo_service \<Rightarrow> item option list outcome" where
  "handle_transact_get_items gets = operation (reading (\<lambda>sv.
     ensure (gets \<noteq> []) (
     ensure (length gets \<le> max_transact_items) (
       collect_ok (transact_get_one sv) gets))))"

section \<open>TransactWriteItems\<close>

text \<open>One action; the key of a put is its item.\<close>

record transact_part =
  tp_table :: string
  tp_key :: item
  tp_condition :: "string option"
  tp_names :: "(string, string) btree option"
  tp_values :: "item option"
  tp_failure_return :: "string option"

record transact_item =
  ti_check :: "transact_part option"
  ti_put :: "transact_part option"
  ti_delete :: "transact_part option"
  ti_update :: "(transact_part \<times> string) option"

definition action_count :: "transact_item \<Rightarrow> nat" where
  "action_count a =
     length (filter id [ti_check a \<noteq> None, ti_put a \<noteq> None, ti_delete a \<noteq> None, ti_update a \<noteq> None])"

text \<open>\<^verbatim>\<open>TransactionParts::try_from\<close>.\<close>

definition transact_part_of :: "transact_item \<Rightarrow> transact_part option" where
  "transact_part_of a =
     (case ti_put a of Some p \<Rightarrow> Some p
      | None \<Rightarrow> (case ti_update a of Some (p, _) \<Rightarrow> Some p
      | None \<Rightarrow> (case ti_delete a of Some p \<Rightarrow> Some p
      | None \<Rightarrow> ti_check a)))"

text \<open>Phase 1: one action each, and no item twice. The keys are compared within a table.\<close>

definition transact_key :: "dynamo_service \<Rightarrow> transact_item \<Rightarrow> dynamo_error + string \<times> primary_key" where
  "transact_key sv a =
     ensure (action_count a = 1) (
     res_bind (ok_or DE_Validation (transact_part_of a)) (\<lambda>p.
     res_bind (require_table (tp_table p) sv) (\<lambda>t.
     res_map (Pair (tp_table p)) (storage_error_to_dynamodb (extract_primary_key (dt_key_schema t) (tp_key p))))))"

definition same_item :: "string \<times> primary_key \<Rightarrow> string \<times> primary_key \<Rightarrow> bool" where
  "same_item a b \<longleftrightarrow> fst a = fst b \<and> primary_key_eq (snd a) (snd b)"

fun transact_keys :: "dynamo_service \<Rightarrow> (string \<times> primary_key) list \<Rightarrow> transact_item list \<Rightarrow> dynamo_error + unit" where
  "transact_keys sv seen [] = Inr ()"
| "transact_keys sv seen (a # as) =
     res_bind (transact_key sv a) (\<lambda>k.
       ensure (\<not> list_ex (same_item k) seen) (transact_keys sv (k # seen) as))"

text \<open>Phase 2: the reason for which an action cancels the transaction.\<close>

type_synonym cancellation_reason = "cancellation_code \<times> item option"

definition transact_reason :: "dynamo_service \<Rightarrow> transact_part \<Rightarrow> bool \<Rightarrow> dynamo_error + cancellation_reason" where
  "transact_reason sv p is_put =
     (case tp_condition p of
        None \<Rightarrow> Inr (Reason_None, None)
      | Some c \<Rightarrow>
          (case res_bind (require_table (tp_table p) sv) (\<lambda>t.
                  res_map (Pair t) (storage_error_to_dynamodb (extract_primary_key (dt_key_schema t) (tp_key p)))) of
             Inl _ \<Rightarrow> Inr (Reason_Validation, None)
           | Inr (t, pk) \<Rightarrow>
               (let existing = get_item pk (dt_storage t);
                    context = \<lparr>ec_item = unwrap_or [] existing, ec_names = unwrap_or [] (tp_names p),
                               ec_values = unwrap_or [] (tp_values p)\<rparr>;
                    returned_item = (if tp_failure_return p = Some ''ALL_OLD'' then existing else None)
                in case parse_condition c of
                     None \<Rightarrow> Inl DE_NoAnswer
                   | Some (Inl _) \<Rightarrow> Inr (Reason_Validation, None)
                   | Some (Inr e) \<Rightarrow>
                       (case evaluate context e of
                          Inl Panicked \<Rightarrow> Inl DE_Panicked
                        | Inl (EvalError _) \<Rightarrow> Inr (Reason_Validation, None)
                        | Inr True \<Rightarrow> Inr (Reason_None, None)
                        | Inr False \<Rightarrow>
                            Inr (Reason_ConditionalCheckFailed,
                              if is_put \<and> returned_item = None
                              then Some (extract_key_attributes (tp_key p) (dt_key_elements t))
                              else returned_item)))))"

definition evaluate_transact_write_condition :: "dynamo_service \<Rightarrow> transact_item \<Rightarrow> dynamo_error + cancellation_reason" where
  "evaluate_transact_write_condition sv a =
     (case ti_check a of Some p \<Rightarrow> transact_reason sv p False
      | None \<Rightarrow> (case ti_put a of Some p \<Rightarrow> transact_reason sv p True
      | None \<Rightarrow> (case ti_delete a of Some p \<Rightarrow> transact_reason sv p False
      | None \<Rightarrow> (case ti_update a of Some (p, _) \<Rightarrow> transact_reason sv p False
      | None \<Rightarrow> Inr (Reason_None, None)))))"

text \<open>Phase 3: the prepared change of an action.\<close>

definition transact_new_image ::
    "dynamo_table \<Rightarrow> transact_item \<Rightarrow> transact_part \<Rightarrow> item option \<Rightarrow> update_expr option \<Rightarrow> dynamo_error + item option" where
  "transact_new_image t a p old u =
     (case (ti_put a, u) of
        (Some q, _) \<Rightarrow> Inr (Some (tp_key q))
      | (None, Some e) \<Rightarrow>
          ensure (validate_update_paths e (dt_key_schema t) (unwrap_or [] (tp_names p))) (
          res_map Some (expression_error_to_dynamodb
            (apply_update \<lparr>ec_item = unwrap_or (tp_key p) old, ec_names = unwrap_or [] (tp_names p),
                           ec_values = unwrap_or [] (tp_values p)\<rparr> e)))
      | (None, None) \<Rightarrow> Inr None)"

definition valid_new_image :: "key_schema \<Rightarrow> primary_key \<Rightarrow> item \<Rightarrow> bool" where
  "valid_new_image ks key it \<longleftrightarrow> valid_item it \<and> validate_key_types ks it \<and> validate_key_not_empty ks it \<and>
     (case extract_primary_key ks it of Inl _ \<Rightarrow> False | Inr k \<Rightarrow> primary_key_eq k key)"

definition prepare_transaction_change :: "dynamo_service \<Rightarrow> transact_item \<Rightarrow> dynamo_error + prepared_change" where
  "prepare_transaction_change sv a =
     res_bind (ok_or DE_Validation (transact_part_of a)) (\<lambda>p.
     ensure (validate_table_name (tp_table p)) (
     res_bind (require_table (tp_table p) sv) (\<lambda>t.
     let ks = dt_key_schema t; names = unwrap_or [] (tp_names p); values = unwrap_or [] (tp_values p)
     in ensure (validate_key_types ks (tp_key p)) (
     ensure (validate_key_not_empty ks (tp_key p)) (
     ensure (ti_put a = None \<longrightarrow> validate_key_only_has_key_attrs ks (tp_key p)) (
     ensure (validate_return_values_on_condition_check_failure (tp_failure_return p)) (
     ensure (validate_condition_not_empty (tp_condition p)) (
     ensure (validate_numbers_in_item values \<and> validate_no_empty_sets values) (
     res_bind (condition_references (tp_condition p)) (\<lambda>used.
     res_bind (storage_error_to_dynamodb (extract_primary_key ks (tp_key p))) (\<lambda>key.
     let old = get_item key (dt_storage t)
     in res_bind (parse_optional_update (if ti_put a = None then map_option snd (ti_update a) else None)) (\<lambda>u.
     res_bind (transact_new_image t a p old u) (\<lambda>new_image.
     ensure (check_no_unused names values (both_references used (update_references u))) (
     ensure (case new_image of None \<Rightarrow> True | Some it \<Rightarrow> valid_new_image ks key it) (
       Inr \<lparr>pc_table = tp_table p, pc_key = key, pc_old = old, pc_new = new_image,
            pc_mutate = (ti_check a = None)\<rparr>)))))))))))))))"

fun prepare_all :: "dynamo_service \<Rightarrow> nat \<Rightarrow> transact_item list \<Rightarrow> dynamo_error + prepared_change list" where
  "prepare_all sv sum_bytes [] = Inr []"
| "prepare_all sv sum_bytes (a # as) =
     res_bind (prepare_transaction_change sv a) (\<lambda>c.
     let sum_bytes = sum_bytes + size_bytes c
     in ensure (int sum_bytes \<le> 4 * 1024 * 1024) (res_map (Cons c) (prepare_all sv sum_bytes as)))"

section \<open>Idempotency tokens\<close>

text \<open>The canonical JSON text of a request and its SHA-256 come from libraries: \<open>canonical\<close> and \<open>hash\<close>.\<close>

definition admit_transaction_token ::
    "('r \<Rightarrow> string) \<Rightarrow> (string \<Rightarrow> string) \<Rightarrow> request_env \<Rightarrow> 'r \<Rightarrow> string option \<Rightarrow> dynamo_service \<Rightarrow>
     string option outcome" where
  "admit_transaction_token canonical hash env req token sv =
     (case token of
        None \<Rightarrow> (Inr None, sv)
      | Some tok \<Rightarrow>
          if tok = [] \<or> length tok > 36 then (Inl DE_Validation, sv)
          else if int (length (canonical req)) > 8 * 1024 * 1024 then (Inl DE_Validation, sv)
          else
            (let fingerprint = hash (canonical req);
                 sv = sv\<lparr>dv_tokens := bt_retain (\<lambda>_ c. re_instant env - ct_completed_at c < 600000) (dv_tokens sv)\<rparr>
             in (case bt_get (dv_tokens sv) tok of
                   Some c \<Rightarrow>
                     if ct_fingerprint c \<noteq> fingerprint then (Inl DE_IdempotentParameterMismatch, sv)
                     else (Inr (Some fingerprint), sv)
                 | None \<Rightarrow>
                     if int (length (dv_tokens sv)) \<ge> 1024 then (Inl DE_RequestLimitExceeded, sv)
                     else (Inr (Some fingerprint), sv))))"

definition record_token :: "request_env \<Rightarrow> string option \<Rightarrow> string option \<Rightarrow> dynamo_service \<Rightarrow> dynamo_service" where
  "record_token env token fingerprint sv =
     (case (token, fingerprint) of
        (Some tok, Some fp) \<Rightarrow>
          sv\<lparr>dv_tokens := bt_insert tok \<lparr>ct_fingerprint = fp, ct_completed_at = re_instant env\<rparr> (dv_tokens sv)\<rparr>
      | _ \<Rightarrow> sv)"

definition transact_body :: "request_env \<Rightarrow> transact_item list \<Rightarrow> dynamo_service \<Rightarrow> dynamo_error + unit \<times> dynamo_service" where
  "transact_body env items sv =
     ensure (items \<noteq> []) (
     ensure (length items \<le> max_transact_items) (
     res_bind (transact_keys sv [] items) (\<lambda>_.
     res_bind (collect_ok (evaluate_transact_write_condition sv) items) (\<lambda>reasons.
       if \<exists>r\<in>set reasons. fst r \<noteq> Reason_None then Inl (DE_TransactionCanceled reasons)
       else res_map (\<lambda>cs. ((), commit_prepared env cs sv)) (prepare_all sv 0 items)))))"

text \<open>A request whose token has completed is answered without effect.\<close>

definition handle_transact_write_items ::
    "(transact_item list \<Rightarrow> string) \<Rightarrow> (string \<Rightarrow> string) \<Rightarrow> request_env \<Rightarrow> transact_item list \<Rightarrow> string option \<Rightarrow>
     dynamo_service \<Rightarrow> unit outcome" where
  "handle_transact_write_items canonical hash env items token = operation (\<lambda>sv.
     case admit_transaction_token canonical hash env items token sv of
       (Inl e, sv) \<Rightarrow> (Inl e, sv)
     | (Inr fingerprint, sv) \<Rightarrow>
         if Option.bind token (bt_get (dv_tokens sv)) \<noteq> None then (Inr (), sv)
         else attempt sv (res_map (\<lambda>(x, sv'). (x, record_token env token fingerprint sv')) (transact_body env items sv)))"

end
