(* ===== verification/Dynamo_Commits.thy ===== *)
theory Dynamo_Commits
  imports Dynamo_Handlers Dynamo_Table Dynamo_Expressions
begin

text \<open>
  The effect of a list of prepared changes: on the tables, the map of each table updated at the keys
  of its changes; on the streams, records that replay the same updates.
\<close>

section \<open>Keys of items\<close>

definition elements_cover :: "key_schema \<Rightarrow> key_elements \<Rightarrow> bool" where
  "elements_cover ks elements \<longleftrightarrow> (\<forall>ka\<in>set (key_attributes ks). ka_name ka \<in> fst ` set elements)"

lemma insert_all_get_eq:
  "\<forall>kv\<in>set kvs. bt_get it (fst kv) = Some (snd kv) \<Longrightarrow>
     bt_get (insert_all kvs m) k = (if k \<in> fst ` set kvs then bt_get it k else bt_get m k)"
proof (induction kvs arbitrary: m)
  case (Cons kv kvs)
  then show ?case by (cases kv) (auto simp: insert_all_def bt_get_insert)
qed (simp add: insert_all_def)

lemma key_attributes_get:
  assumes "k \<in> fst ` set elements"
  shows "bt_get (extract_key_attributes it elements) k = bt_get it k"
proof -
  let ?kvs = "List.map_filter (\<lambda>e. map_option (Pair (fst e)) (bt_get it (fst e))) elements"
  have s: "\<forall>kv\<in>set ?kvs. bt_get it (fst kv) = Some (snd kv)"
    by (auto simp: map_filter_def)
  have "k \<in> fst ` set ?kvs \<longleftrightarrow> bt_get it k \<noteq> None"
    using assms by (force simp: map_filter_def)
  then show ?thesis
    using insert_all_get_eq [OF s, of "[]" k] by (auto simp: extract_key_attributes_def)
qed

lemma extract_of_key_attributes:
  assumes "elements_cover ks elements"
  shows "extract_primary_key ks (extract_key_attributes it elements) = extract_primary_key ks it"
proof -
  have *: "key_attribute_value ka (extract_key_attributes it elements) = key_attribute_value ka it"
    if "ka \<in> set (key_attributes ks)" for ka
    using that assms by (simp add: key_attribute_value_def elements_cover_def key_attributes_get)
  show ?thesis
    using * [of "ks_partition_key ks"] * [of "the (ks_sort_key ks)"]
    by (cases "ks_sort_key ks") (simp_all add: extract_primary_key_def key_attributes_def)
qed

lemma extract_sort_key:
  "extract_primary_key ks it = Inr k \<Longrightarrow> pk_sort_key k = None \<longleftrightarrow> ks_sort_key ks = None"
  by (auto simp: extract_primary_key_def res_bind_Inr_iff res_map_Inr split: option.splits)

text \<open>Up to the spelling of numbers, equal keys are one place in the table.\<close>

lemma primary_key_eq_abstract:
  assumes "pk_sort_key k = None \<longleftrightarrow> pk_sort_key l = None" "key_ok k" "key_ok l"
  shows "primary_key_eq k l \<longleftrightarrow> abstract_key k = abstract_key l"
  using assms
  by (auto simp: primary_key_eq_def abstract_key_def key_ok_def sort_key_of_def unwrap_or_def sk_cmp_rank
      split: option.splits)

lemma numbers_key_ok:
  assumes "validate_numbers_in_item it" "extract_primary_key ks it = Inr k"
  shows "key_ok k"
proof -
  have v: "validate_numbers_in_value v" if "bt_get it n = Some v" for n v
    using that assms(1) by (force simp: validate_numbers_in_item_def list_all_iff dest: bt_get_mem)
  show ?thesis
    using assms(2)
    by (auto simp: extract_primary_key_def key_attribute_value_def res_bind_Inr_iff res_map_Inr key_ok_def
        sort_key_of_def unwrap_or_def split: option.splits attribute_value.splits
        elim!: from_attribute_value.elims dest!: v valid_is_number)
qed

section \<open>The effect on a map\<close>

definition change_at :: "prepared_change \<Rightarrow> abstract_key" where
  "change_at c = abstract_key (pc_key c)"

definition apply_change :: "prepared_change \<Rightarrow> abstract_table \<Rightarrow> abstract_table" where
  "apply_change c m = m(change_at c := pc_new c)"

text \<open>The changes of one table.\<close>

definition changes_of :: "string \<Rightarrow> prepared_change list \<Rightarrow> prepared_change list" where
  "changes_of n cs = filter (\<lambda>c. pc_table c = n \<and> pc_mutate c) cs"

lemma changes_of_simps [simp]:
  "changes_of n [] = []"
  "changes_of n (c # cs) = (if pc_table c = n \<and> pc_mutate c then c # changes_of n cs else changes_of n cs)"
  by (simp_all add: changes_of_def)

definition store_change :: "prepared_change \<Rightarrow> table_storage \<Rightarrow> table_storage" where
  "store_change c st =
     snd (case pc_new c of Some it \<Rightarrow> put_prepared (pc_key c) it st | None \<Rightarrow> delete_item (pc_key c) st)"

lemma store_change_spec:
  assumes "storage_wf st" "key_ok (pc_key c)"
  shows "storage_wf (store_change c st)" "ts_key_schema (store_change c st) = ts_key_schema st"
    "item_at (ts_data (store_change c st)) = apply_change c (item_at (ts_data st))"
  using put_prepared_spec [OF assms] delete_item_spec [OF assms]
  by (auto simp: store_change_def apply_change_def change_at_def split: option.split)

lemma store_changes_spec:
  assumes "storage_wf st" "\<forall>c\<in>set cs. key_ok (pc_key c)"
  shows "storage_wf (fold store_change cs st) \<and> ts_key_schema (fold store_change cs st) = ts_key_schema st \<and>
     item_at (ts_data (fold store_change cs st)) = fold apply_change cs (item_at (ts_data st))"
  using assms by (induction cs arbitrary: st) (simp_all add: store_change_spec)

lemma get_update_table:
  "bt_get (dv_tables (update_table name f sv)) n = (if n = name then map_option f else id) (bt_get (dv_tables sv) n)"
  by (auto simp: update_table_def bt_get_insert split: option.split)

lemma update_table_frame [simp]:
  "dv_streams (update_table name f sv) = dv_streams sv" "dv_tokens (update_table name f sv) = dv_tokens sv"
  "dv_open (update_table name f sv) = dv_open sv"
  by (simp_all add: update_table_def split: option.split)

lemma commit_change_frame [simp]:
  "dv_streams (commit_change c sv) = dv_streams sv" "dv_tokens (commit_change c sv) = dv_tokens sv"
  "dv_open (commit_change c sv) = dv_open sv"
  by (simp_all add: commit_change_def)

lemma commit_changes_frame [simp]:
  "dv_streams (fold commit_change cs sv) = dv_streams sv" "dv_tokens (fold commit_change cs sv) = dv_tokens sv"
  "dv_open (fold commit_change cs sv) = dv_open sv"
  by (induction cs arbitrary: sv) simp_all

definition with_changes :: "prepared_change list \<Rightarrow> dynamo_table \<Rightarrow> dynamo_table" where
  "with_changes cs t = t\<lparr>dt_storage := fold store_change cs (dt_storage t)\<rparr>"

lemma with_changes_simps [simp]:
  "with_changes [] = id" "with_changes (c # cs) t = with_changes cs (t\<lparr>dt_storage := store_change c (dt_storage t)\<rparr>)"
  by (simp_all add: with_changes_def fun_eq_iff)

lemma get_commit_changes:
  "bt_get (dv_tables (fold commit_change cs sv)) n = map_option (with_changes (changes_of n cs)) (bt_get (dv_tables sv) n)"
proof (induction cs arbitrary: sv)
  case (Cons c cs)
  have "bt_get (dv_tables (commit_change c sv)) n =
      (if pc_table c = n \<and> pc_mutate c then map_option (\<lambda>t. t\<lparr>dt_storage := store_change c (dt_storage t)\<rparr>) else id)
        (bt_get (dv_tables sv) n)"
    by (auto simp: commit_change_def get_update_table store_change_def)
  then show ?case using Cons by (auto simp: option.map_comp comp_def)
qed (simp add: option.map_id)

section \<open>The effect on a stream\<close>

text \<open>A reader who applies the records in order; the records carry new images.\<close>

definition replay_record :: "key_schema \<Rightarrow> stream_change \<Rightarrow> abstract_table \<Rightarrow> abstract_table" where
  "replay_record ks r m =
     (case extract_primary_key ks (ch_keys r) of
        Inl _ \<Rightarrow> m
      | Inr k \<Rightarrow> m(abstract_key k := (if ch_event_name r = ''REMOVE'' then None else ch_new r)))"

definition replay :: "key_schema \<Rightarrow> stream_change list \<Rightarrow> abstract_table" where
  "replay ks rs = fold (replay_record ks) rs Map.empty"

definition has_new_images :: "view_type \<Rightarrow> bool" where
  "has_new_images v \<longleftrightarrow> v = View_NewImage \<or> v = View_NewAndOldImages"

definition publish_to :: "stream_env \<Rightarrow> dynamo_table \<Rightarrow> prepared_change \<Rightarrow> table_stream \<Rightarrow> table_stream" where
  "publish_to env t c st =
     (case event_of_change t (pc_old c) (pc_new c) of
        None \<Rightarrow> st
      | Some ev \<Rightarrow> st\<lparr>st_shard := append_change (create_record env st ev) (st_shard st)\<rparr>)"

lemma publish_to_frame [simp]:
  "st_view (publish_to env t c st) = st_view st" "st_enabled (publish_to env t c st) = st_enabled st"
  by (simp_all add: publish_to_def split: option.split)

lemma event_table: "event_of_change t old new = Some ev \<Longrightarrow> ce_table ev = dt_name t"
  by (auto simp: event_of_change_def split: option.splits)

lemma publish_change_tables [simp]:
  "dv_tables (publish_change env c sv) = dv_tables sv" "dv_tokens (publish_change env c sv) = dv_tokens sv"
  "dv_open (publish_change env c sv) = dv_open sv"
  by (auto simp: publish_change_def emit_change_def split: option.split)

lemma publish_changes_tables [simp]:
  "dv_tables (fold (\<lambda>(i, c). publish_change (f i) c) ics sv) = dv_tables sv"
  "dv_tokens (fold (\<lambda>(i, c). publish_change (f i) c) ics sv) = dv_tokens sv"
  "dv_open (fold (\<lambda>(i, c). publish_change (f i) c) ics sv) = dv_open sv"
  by (induction ics arbitrary: sv) (simp_all add: split_beta)

lemma get_append_event:
  "ce_table ev = n \<Longrightarrow> bt_get s n = Some st \<Longrightarrow> st_enabled st \<Longrightarrow>
     bt_get (append_change_event env ev s) m =
       (if m = n then Some (st\<lparr>st_shard := append_change (create_record env st ev) (st_shard st)\<rparr>) else bt_get s m)"
  by (simp add: append_change_event_def bt_get_insert)

lemma append_event_other: "m \<noteq> ce_table ev \<Longrightarrow> bt_get (append_change_event env ev s) m = bt_get s m"
  by (simp add: append_change_event_def bt_get_insert split: option.split)

definition names_ok :: "dynamo_service \<Rightarrow> bool" where
  "names_ok sv \<longleftrightarrow> (\<forall>n t. bt_get (dv_tables sv) n = Some t \<longrightarrow> dt_name t = n)"

lemma get_publish_change:
  assumes "names_ok sv" "bt_get (dv_tables sv) n = Some t" "stream_enabled t"
    "bt_get (dv_streams sv) n = Some st" "st_enabled st"
  shows "bt_get (dv_streams (publish_change env c sv)) n =
    Some (if pc_table c = n \<and> pc_mutate c then publish_to env t c st else st)"
proof (cases "bt_get (dv_tables sv) (pc_table c)")
  case (Some u)
  then have u: "dt_name u = pc_table c" using assms(1) by (simp add: names_ok_def)
  show ?thesis
  proof (cases "event_of_change u (pc_old c) (pc_new c)")
    case None
    then show ?thesis using assms Some by (auto simp: publish_change_def emit_change_def publish_to_def)
  next
    case ev: (Some ev)
    then have "ce_table ev = pc_table c" using u event_table by metis
    then show ?thesis
      using assms Some ev
      by (auto simp: publish_change_def emit_change_def publish_to_def get_append_event append_event_other)
  qed
qed (use assms in \<open>auto simp: publish_change_def\<close>)

lemma get_publish_changes:
  assumes "names_ok sv" "bt_get (dv_tables sv) n = Some t" "stream_enabled t"
    "bt_get (dv_streams sv) n = Some st" "st_enabled st"
  shows "bt_get (dv_streams (fold (\<lambda>(i, c). publish_change (f i) c) ics sv)) n =
    Some (fold (\<lambda>(i, c). publish_to (f i) t c) (filter (\<lambda>(i, c). pc_table c = n \<and> pc_mutate c) ics) st)"
  using assms
proof (induction ics arbitrary: sv st)
  case (Cons ic ics)
  obtain i c where ic: "ic = (i, c)" by force
  let ?sv = "publish_change (f i) c sv"
  have "names_ok ?sv" using Cons.prems(1) by (simp add: names_ok_def)
  then show ?case
    using Cons.IH [of ?sv] Cons.prems get_publish_change [OF Cons.prems, of "f i" c] ic by simp
qed simp

section \<open>Replaying changes\<close>

definition change_ok :: "key_schema \<Rightarrow> abstract_table \<Rightarrow> prepared_change \<Rightarrow> bool" where
  "change_ok ks m c \<longleftrightarrow> key_ok (pc_key c) \<and> pc_old c = m (change_at c) \<and>
     (\<forall>it. pc_new c = Some it \<longrightarrow> (\<exists>k. extract_primary_key ks it = Inr k \<and> abstract_key k = change_at c \<and> key_ok k))"

lemma keyedD:
  "keyed ks m \<Longrightarrow> m a = Some it \<Longrightarrow> \<exists>k. extract_primary_key ks it = Inr k \<and> abstract_key k = a \<and> key_ok k"
  by (simp add: keyed_def del: split_paired_All)

lemma replay_change:
  assumes "change_ok ks m c" "keyed ks m" "elements_cover ks (dt_key_elements t)" "has_new_images (st_view st)"
    and "event_of_change t (pc_old c) (pc_new c) = Some ev"
  shows "replay_record ks (create_record env st ev) m' = apply_change c m'"
proof -
  define image where "image = (case pc_new c of Some x \<Rightarrow> x | None \<Rightarrow> the (pc_old c))"
  have "ce_keys ev = extract_key_attributes image (dt_key_elements t)"
    using assms(5) by (auto simp: event_of_change_def image_def split: option.splits)
  moreover have "\<exists>k. extract_primary_key ks image = Inr k \<and> abstract_key k = change_at c"
    using assms(1,5) keyedD [OF assms(2), of "change_at c"]
    by (auto simp: change_ok_def image_def event_of_change_def split: option.splits)
  ultimately obtain k where "extract_primary_key ks (ce_keys ev) = Inr k" "abstract_key k = change_at c"
    using assms(3) by (auto simp: extract_of_key_attributes)
  then show ?thesis
    using assms(4,5)
    by (auto simp: replay_record_def create_record_def apply_change_def has_new_images_def event_of_change_def
        change_text_def split: option.splits)
qed

lemma apply_no_event:
  "event_of_change t (pc_old c) (pc_new c) = None \<Longrightarrow> m (change_at c) = None \<Longrightarrow> apply_change c m = m"
  by (auto simp: event_of_change_def apply_change_def split: option.splits)

lemma replay_append: "replay ks (rs @ [r]) = replay_record ks r (replay ks rs)"
  by (simp add: replay_def)

lemma replay_record_sequence [simp]: "replay_record ks (r\<lparr>ch_sequence := x\<rparr>) = replay_record ks r"
  by (rule ext) (cases "extract_primary_key ks (ch_keys r)"; simp add: replay_record_def)

lemma replay_publish:
  "replay ks (sh_records (st_shard (publish_to env t c st))) =
     (case event_of_change t (pc_old c) (pc_new c) of
        None \<Rightarrow> replay ks (sh_records (st_shard st))
      | Some ev \<Rightarrow> replay_record ks (create_record env st ev) (replay ks (sh_records (st_shard st))))"
  by (simp add: publish_to_def append_change_def Let_def replay_append split: option.split)

lemma replay_publishes:
  assumes "keyed ks m" "elements_cover ks (dt_key_elements t)" "has_new_images (st_view st)"
    and "\<forall>c\<in>snd ` set ics. change_ok ks m c" "distinct (map (\<lambda>ic. change_at (snd ic)) ics)"
    and "\<forall>c\<in>snd ` set ics. replay ks (sh_records (st_shard st)) (change_at c) = m (change_at c)"
  shows "replay ks (sh_records (st_shard (fold (\<lambda>(i, c). publish_to (f i) t c) ics st))) =
    fold apply_change (map snd ics) (replay ks (sh_records (st_shard st)))"
  using assms(3-6)
proof (induction ics arbitrary: st)
  case (Cons ic ics)
  obtain i c where ic: "ic = (i, c)" by force
  let ?st = "publish_to (f i) t c st"
  have c: "change_ok ks m c" "replay ks (sh_records (st_shard st)) (change_at c) = m (change_at c)"
    using Cons.prems(2,4) ic by auto
  have r: "replay ks (sh_records (st_shard ?st)) = apply_change c (replay ks (sh_records (st_shard st)))"
  proof (cases "event_of_change t (pc_old c) (pc_new c)")
    case None
    then have "pc_old c = None" by (auto simp: event_of_change_def split: option.splits)
    then show ?thesis using None c by (simp add: replay_publish change_ok_def apply_no_event)
  next
    case (Some ev)
    then show ?thesis
      using replay_change [OF c(1) assms(1,2) Cons.prems(1) Some] by (simp add: replay_publish)
  qed
  have "\<forall>d\<in>snd ` set ics. replay ks (sh_records (st_shard ?st)) (change_at d) = m (change_at d)"
    using Cons.prems(3,4) ic r by (force simp: apply_change_def)
  then show ?case using Cons.IH [of ?st] Cons.prems ic r by simp
qed simp

chapter \<open>Keys under updates\<close>

text \<open>
  An update that passes the validation of its paths leaves the key attributes of an item alone: they are
  scalars, so a path through one is an error, and a path that is one is refused. The names of the
  key attributes do not start with \<open>#\<close>, since the validation skips a placeholder that does not
  resolve where the update takes it literally.
\<close>

definition plain_keys :: "key_schema \<Rightarrow> bool" where
  "plain_keys ks \<longleftrightarrow> (\<forall>ka\<in>set (key_attributes ks). \<not> starts_with (ka_name ka) ''#'')"

text \<open>The attribute \<open>k\<close> has the scalar \<open>v\<close>, and no path is \<open>k\<close> itself.\<close>

definition untargeted :: "(string, string) btree \<Rightarrow> string \<Rightarrow> attribute_path \<Rightarrow> bool" where
  "untargeted names k p \<longleftrightarrow> (\<forall>a. p = [PathAttr a] \<longrightarrow> resolve_name_ref names a \<noteq> k)"

lemma scalar_no_children:
  "is_scalar_attribute_value v \<Longrightarrow> rest \<noteq> [] \<Longrightarrow> validate_path_type names v rest = Inl (InvalidOperand ''SET'')"
  by (cases v; cases "(names, v, rest)" rule: validate_path_type.cases) auto

lemma set_path_keeps:
  assumes "set_path_value names p x it = Inr it'" "bt_get it k = Some v" "is_scalar_attribute_value v" "untargeted names k p"
  shows "bt_get it' k = Some v"
  using assms
  by (cases "(names, p, x, it)" rule: set_path_value.cases)
    (auto simp: bt_get_insert res_map_Inr Let_def untargeted_def scalar_no_children split: if_splits option.splits list.splits)

lemma remove_keeps:
  assumes "apply_remove names p it = Inr it'" "bt_get it k = Some v" "is_scalar_attribute_value v" "untargeted names k p"
  shows "bt_get it' k = Some v"
  using assms
  by (cases "(names, p, it)" rule: apply_remove.cases)
    (auto simp: bt_get_insert bt_get_filter_out res_map_Inr Let_def untargeted_def scalar_no_children
        split: if_splits option.splits list.splits)

lemma set_action_keeps:
  "apply_set_action c a it = Inr it' \<Longrightarrow> bt_get it k = Some v \<Longrightarrow> is_scalar_attribute_value v \<Longrightarrow>
     untargeted (ec_names c) k (sa_path a) \<Longrightarrow> bt_get it' k = Some v"
  by (auto simp: apply_set_action_def res_bind_Inr_iff intro: set_path_keeps)

lemma add_action_keeps:
  "apply_add_action c a it = Inr it' \<Longrightarrow> bt_get it k = Some v \<Longrightarrow> is_scalar_attribute_value v \<Longrightarrow>
     untargeted (ec_names c) k (pa_path a) \<Longrightarrow> bt_get it' k = Some v"
  by (auto simp: apply_add_action_def res_bind_Inr_iff intro: set_path_keeps split: if_splits)

lemma delete_action_keeps:
  assumes "apply_delete_action c a it = Inr it'" "bt_get it k = Some v" "is_scalar_attribute_value v"
  shows "bt_get it' k = Some v"
proof -
  obtain d r where d: "is_set_type d" and r: "resolve_top_level_name (pa_path a) (ec_names c) = Inr r"
    and v: "operand_value c (pa_value a) ''DELETE'' = Inr d"
    using assms(1) by (auto simp: apply_delete_action_def res_bind_Inr_iff split: if_splits)
  show ?thesis
  proof (cases "r = k")
    case True
    then show ?thesis
      using assms d r v by (cases d; cases v) (auto simp: apply_delete_action_def)
  next
    case False
    then show ?thesis
      using assms(1,2) d r v
      by (auto simp: apply_delete_action_def put_or_remove_frame split: option.splits attribute_value.splits)
  qed
qed

lemma apply_all_keeps:
  assumes "\<And>x s s'. x \<in> set xs \<Longrightarrow> f x s = Inr s' \<Longrightarrow> P s \<Longrightarrow> P s'"
  shows "apply_all f xs s = Inr s' \<Longrightarrow> P s \<Longrightarrow> P s'"
  using assms by (induction xs arbitrary: s) (auto simp: res_bind_Inr_iff)

lemma update_keeps:
  assumes "apply_update c u = Inr it'" "bt_get (ec_item c) k = Some v" "is_scalar_attribute_value v"
    and "\<forall>p\<in>set (update_target_paths u). untargeted (ec_names c) k p"
  shows "bt_get it' k = Some v"
proof -
  let ?P = "\<lambda>it. bt_get it k = Some v"
  obtain it1 it2 it3 where
    1: "apply_all (apply_set_action c) (sort_key (\<lambda>a. extract_last_index (sa_path a)) (ue_set_actions u))
        (ec_item c) = Inr it1"
    and 2: "apply_all (apply_remove (ec_names c)) (ue_remove_paths u) it1 = Inr it2"
    and 3: "apply_all (apply_add_action c) (ue_add_actions u) it2 = Inr it3"
    and 4: "apply_all (apply_delete_action c) (ue_delete_actions u) it3 = Inr it'"
    using assms(1) by (auto simp: apply_update_def res_bind_Inr_iff)
  have p: "\<forall>a\<in>set (sort_key (\<lambda>a. extract_last_index (sa_path a)) (ue_set_actions u)). untargeted (ec_names c) k (sa_path a)"
    "\<forall>p\<in>set (ue_remove_paths u). untargeted (ec_names c) k p"
    "\<forall>a\<in>set (ue_add_actions u). untargeted (ec_names c) k (pa_path a)"
    using assms(4) by (auto simp: update_target_paths_def)
  note keeps = apply_all_keeps [where P = ?P]
  have "?P it1"
    by (rule keeps [OF _ 1 assms(2)]) (use p(1) set_action_keeps [OF _ _ assms(3)] in simp)
  then have "?P it2"
    by (rule keeps [OF _ 2, rotated]) (use p(2) remove_keeps [OF _ _ assms(3)] in blast)
  then have "?P it3"
    by (rule keeps [OF _ 3, rotated]) (use p(3) add_action_keeps [OF _ _ assms(3)] in blast)
  then show ?thesis
    by (rule keeps [OF _ 4, rotated]) (use delete_action_keeps [OF _ _ assms(3)] in blast)
qed

text \<open>A validated update targets no key.\<close>

lemma validated_untargeted:
  assumes "validate_update_paths u ks names" "plain_keys ks" "ka \<in> set (key_attributes ks)" "p \<in> set (update_target_paths u)"
  shows "untargeted names (ka_name ka) p"
proof -
  have nt: "\<not> targets_key ks names p"
    using assms(1,4) by (auto simp: validate_update_paths_def list_all_iff)
  have key: "is_key_attribute (ka_name ka) ks"
    using assms(3) by (auto simp: key_attributes_def is_key_attribute_def split: option.splits)
  have "\<not> starts_with (ka_name ka) ''#''" using assms(2,3) by (simp add: plain_keys_def)
  then have "placeholder names a = Some (ka_name ka)" if "resolve_name_ref names a = ka_name ka" for a
    using that by (auto simp: resolve_name_ref_def placeholder_def unwrap_or_def split: if_splits option.splits)
  then show ?thesis
    using nt key by (auto simp: untargeted_def targets_key_def resolve_path_top_name_def split: list.splits)
qed

lemma key_value_scalar:
  assumes "key_attribute_value ka it = Inr v"
  shows "bt_get it (ka_name ka) = Some v \<and> is_scalar_attribute_value v"
  using assms
  by (cases "(ka_name ka, ka_type ka, v)" rule: validate_key_type.cases)
    (auto simp: key_attribute_value_def res_map_Inr split: option.splits)

lemma extract_key_values:
  assumes "extract_primary_key ks it = Inr key" "ka \<in> set (key_attributes ks)"
  shows "\<exists>v. key_attribute_value ka it = Inr v"
  using assms by (cases "ks_sort_key ks") (auto simp: extract_primary_key_def key_attributes_def res_bind_Inr_iff)

lemma extract_cong:
  assumes "\<forall>ka\<in>set (key_attributes ks). bt_get it' (ka_name ka) = bt_get it (ka_name ka)"
  shows "extract_primary_key ks it' = extract_primary_key ks it"
  using assms by (cases "ks_sort_key ks") (simp_all add: extract_primary_key_def key_attributes_def key_attribute_value_def)

lemma update_keeps_key:
  assumes "apply_update c u = Inr it'" "extract_primary_key ks (ec_item c) = Inr key"
    and "validate_update_paths u ks (ec_names c)" "plain_keys ks"
  shows "extract_primary_key ks it' = Inr key"
proof -
  have "bt_get it' (ka_name ka) = bt_get (ec_item c) (ka_name ka)" if ka: "ka \<in> set (key_attributes ks)" for ka
  proof -
    obtain v where "bt_get (ec_item c) (ka_name ka) = Some v" "is_scalar_attribute_value v"
      using extract_key_values [OF assms(2) ka] key_value_scalar by blast
    then show ?thesis
      using update_keeps [OF assms(1)] validated_untargeted [OF assms(3,4) ka] by metis
  qed
  then show ?thesis using extract_cong [of ks it' "ec_item c"] assms(2) by simp
qed

lemma list_adds_keep_key:
  assumes "apply_all add_to_list kvs it = Inr it'" "extract_primary_key ks it = Inr key"
  shows "extract_primary_key ks it' = Inr key"
proof -
  have step: "bt_get s' k = Some v"
    if "add_to_list kv s = Inr s'" "bt_get s k = Some v" "is_scalar_attribute_value v" for kv s s' k v
    using that by (auto simp: add_to_list_def bt_get_insert split: option.splits attribute_value.splits if_splits)
  have "bt_get it' (ka_name ka) = bt_get it (ka_name ka)" if ka: "ka \<in> set (key_attributes ks)" for ka
  proof -
    obtain v where v: "bt_get it (ka_name ka) = Some v" "is_scalar_attribute_value v"
      using extract_key_values [OF assms(2) ka] key_value_scalar by blast
    have "bt_get it' (ka_name ka) = Some v"
      by (rule apply_all_keeps [where P = "\<lambda>s. bt_get s (ka_name ka) = Some v", OF _ assms(1) v(1)]) (use step v(2) in blast)
    then show ?thesis using v by simp
  qed
  then show ?thesis using extract_cong [of ks it' it] assms(2) by simp
qed

chapter \<open>The invariant of the service\<close>

text \<open>
  The invariant of the service: every table is a well-formed store, and its stream, when it carries
  new images, replays it. Every write request commits a list of well-formed changes at distinct
  places, and such a commit keeps the invariant.
\<close>

section \<open>The invariant\<close>

definition table_map :: "dynamo_table \<Rightarrow> abstract_table" where
  "table_map t = item_at (ts_data (dt_storage t))"

definition table_ok :: "string \<Rightarrow> dynamo_table \<Rightarrow> bool" where
  "table_ok n t \<longleftrightarrow> dt_name t = n \<and> storage_wf (dt_storage t) \<and> ts_key_schema (dt_storage t) = dt_key_schema t \<and>
     keyed (dt_key_schema t) (table_map t) \<and> elements_cover (dt_key_schema t) (dt_key_elements t) \<and>
     plain_keys (dt_key_schema t)"

definition table_stream_ok :: "dynamo_table \<Rightarrow> table_stream \<Rightarrow> bool" where
  "table_stream_ok t st \<longleftrightarrow> st_enabled st \<and> st_view st = stream_view t \<and>
     (has_new_images (stream_view t) \<longrightarrow> replay (dt_key_schema t) (sh_records (st_shard st)) = table_map t)"

definition service_ok :: "dynamo_service \<Rightarrow> bool" where
  "service_ok sv \<longleftrightarrow> (\<forall>n t. bt_get (dv_tables sv) n = Some t \<longrightarrow> table_ok n t \<and>
     (stream_enabled t \<longrightarrow> (\<exists>st. bt_get (dv_streams sv) n = Some st \<and> table_stream_ok t st)))"

lemma service_okD:
  assumes "service_ok sv" "bt_get (dv_tables sv) n = Some t"
  shows "table_ok n t" "stream_enabled t \<Longrightarrow> \<exists>st. bt_get (dv_streams sv) n = Some st \<and> table_stream_ok t st"
  using assms by (simp_all add: service_ok_def)

lemma service_ok_names: "service_ok sv \<Longrightarrow> names_ok sv"
  by (auto simp: names_ok_def service_ok_def table_ok_def)

text \<open>What keeps the tables and streams keeps the invariant.\<close>

lemma service_ok_cong: "dv_tables sv' = dv_tables sv \<Longrightarrow> dv_streams sv' = dv_streams sv \<Longrightarrow> service_ok sv' = service_ok sv"
  by (simp add: service_ok_def)

section \<open>Commits\<close>

definition changes_ok :: "dynamo_service \<Rightarrow> prepared_change list \<Rightarrow> bool" where
  "changes_ok sv cs \<longleftrightarrow>
     (\<forall>c\<in>set cs. \<exists>t. bt_get (dv_tables sv) (pc_table c) = Some t \<and> change_ok (dt_key_schema t) (table_map t) c) \<and>
     distinct (map (\<lambda>c. (pc_table c, change_at c)) cs)"

lemma changes_ok_table:
  assumes "changes_ok sv cs" "bt_get (dv_tables sv) n = Some t"
  shows "\<forall>c\<in>set (changes_of n cs). change_ok (dt_key_schema t) (table_map t) c" "distinct (map change_at (changes_of n cs))"
proof -
  show "\<forall>c\<in>set (changes_of n cs). change_ok (dt_key_schema t) (table_map t) c"
    using assms by (fastforce simp: changes_ok_def changes_of_def)
  have "distinct (map (\<lambda>c. (pc_table c, change_at c)) cs)" using assms(1) by (simp add: changes_ok_def)
  then show "distinct (map change_at (changes_of n cs))"
    by (induction cs) (auto simp: changes_of_def image_iff)
qed

lemma fold_keyed:
  assumes "keyed ks m" "\<forall>c\<in>set cs. change_ok ks m0 c"
  shows "keyed ks (fold apply_change cs m)"
  using assms
proof (induction cs arbitrary: m)
  case (Cons c cs)
  have "keyed ks (apply_change c m)"
    using Cons.prems by (simp add: keyed_def apply_change_def change_ok_def del: split_paired_All)
  then show ?case using Cons by simp
qed simp

lemma enumerate_filter: "map snd (filter (\<lambda>(i, c). P c) (enumerate n cs)) = filter P cs"
  by (induction cs arbitrary: n) auto

lemma commit_prepared_frame [simp]:
  "dv_tokens (commit_prepared env cs sv) = dv_tokens sv" "dv_open (commit_prepared env cs sv) = dv_open sv"
  by (simp_all add: commit_prepared_def)

lemma get_commit_prepared:
  "bt_get (dv_tables (commit_prepared env cs sv)) n = map_option (with_changes (changes_of n cs)) (bt_get (dv_tables sv) n)"
  by (simp add: commit_prepared_def get_commit_changes)

lemma with_changes_frame [simp]:
  "dt_name (with_changes cs t) = dt_name t" "dt_key_schema (with_changes cs t) = dt_key_schema t"
  "dt_key_elements (with_changes cs t) = dt_key_elements t" "stream_enabled (with_changes cs t) = stream_enabled t"
  "stream_view (with_changes cs t) = stream_view t" "dt_storage (with_changes cs t) = fold store_change cs (dt_storage t)"
  by (simp_all add: with_changes_def stream_enabled_def stream_view_def)

lemma event_storage [simp]: "event_of_change (t\<lparr>dt_storage := st\<rparr>) old new = event_of_change t old new"
  by (simp add: event_of_change_def)

lemma publish_to_storage [simp]: "publish_to env (with_changes cs t) = publish_to env t"
  by (simp add: publish_to_def with_changes_def fun_eq_iff)

lemma committed_table:
  assumes "service_ok sv" "changes_ok sv cs" "bt_get (dv_tables sv) n = Some t"
  shows "table_ok n (with_changes (changes_of n cs) t)"
    "table_map (with_changes (changes_of n cs) t) = fold apply_change (changes_of n cs) (table_map t)"
proof -
  note t = service_okD(1) [OF assms(1,3), unfolded table_ok_def] and cs = changes_ok_table [OF assms(2,3)]
  have k: "\<forall>c\<in>set (changes_of n cs). key_ok (pc_key c)" using cs(1) by (simp add: change_ok_def)
  show *: "table_map (with_changes (changes_of n cs) t) = fold apply_change (changes_of n cs) (table_map t)"
    using store_changes_spec [OF _ k] t by (simp add: table_map_def)
  show "table_ok n (with_changes (changes_of n cs) t)"
    using store_changes_spec [OF _ k] t fold_keyed [OF _ cs(1)] by (simp add: table_ok_def *)
qed

lemma commit_ok:
  assumes "service_ok sv" "changes_ok sv cs"
  shows "service_ok (commit_prepared env cs sv)"
  unfolding service_ok_def
proof (intro allI impI conjI)
  fix n t' assume "bt_get (dv_tables (commit_prepared env cs sv)) n = Some t'"
  then obtain t where t: "bt_get (dv_tables sv) n = Some t" and t': "t' = with_changes (changes_of n cs) t"
    by (auto simp: get_commit_prepared)
  note cs = changes_ok_table [OF assms(2) t] and tok = service_okD(1) [OF assms(1) t, unfolded table_ok_def]
  show "table_ok n t'" using committed_table(1) [OF assms t] t' by simp
  assume e: "stream_enabled t'"
  then obtain st where st: "bt_get (dv_streams sv) n = Some st" "table_stream_ok t st"
    using service_okD(2) [OF assms(1) t] t' by auto
  let ?sv = "fold commit_change cs sv"
  let ?ics = "filter (\<lambda>(i, c). pc_table c = n \<and> pc_mutate c) (enumerate 0 cs)"
  let ?st = "fold (\<lambda>(i, c). publish_to (re_stream env i) t c) ?ics st"
  have ics: "map snd ?ics = changes_of n cs" by (simp only: enumerate_filter changes_of_def)
  have n: "names_ok ?sv"
    using service_ok_names [OF assms(1)] by (auto simp: names_ok_def get_commit_changes)
  have tab: "bt_get (dv_tables ?sv) n = Some t'" using t t' by (simp add: get_commit_changes)
  have s: "bt_get (dv_streams (commit_prepared env cs sv)) n = Some ?st"
    unfolding commit_prepared_def
    by (subst get_publish_changes [OF n tab e]) (use st t' in \<open>simp_all add: table_stream_ok_def\<close>)
  have frame: "st_enabled (fold (\<lambda>(i, c). publish_to (re_stream env i) t c) xs st) = st_enabled st \<and>
      st_view (fold (\<lambda>(i, c). publish_to (re_stream env i) t c) xs st) = st_view st" for xs st
    by (induction xs arbitrary: st) (simp_all add: split_beta)
  have "replay (dt_key_schema t) (sh_records (st_shard ?st)) = fold apply_change (changes_of n cs) (table_map t)"
    if v: "has_new_images (stream_view t)"
  proof -
    have r: "replay (dt_key_schema t) (sh_records (st_shard st)) = table_map t"
      using st(2) v by (simp add: table_stream_ok_def)
    have d: "distinct (map (\<lambda>ic. change_at (snd ic)) ?ics)"
      using cs(2) arg_cong [OF ics, of "map change_at"] by (simp add: comp_def)
    have c: "\<forall>c\<in>snd ` set ?ics. change_ok (dt_key_schema t) (table_map t) c"
      using cs(1) arg_cong [OF ics, of set] by simp
    show ?thesis
      using replay_publishes [of "dt_key_schema t" "table_map t" t st ?ics "re_stream env", OF _ _ _ c d]
        tok v st(2) r ics by (simp add: table_stream_ok_def)
  qed
  then show "\<exists>st. bt_get (dv_streams (commit_prepared env cs sv)) n = Some st \<and> table_stream_ok t' st"
    using s st(2) t' frame committed_table(2) [OF assms t] by (auto simp: table_stream_ok_def)
qed

section \<open>Requests that commit\<close>

definition commits :: "request_env \<Rightarrow> dynamo_service \<Rightarrow> dynamo_service \<Rightarrow> bool" where
  "commits env sv sv' \<longleftrightarrow> (\<exists>cs. changes_ok sv cs \<and> sv' = commit_prepared env cs sv)"

lemma commits_ok: "service_ok sv \<Longrightarrow> commits env sv sv' \<Longrightarrow> service_ok sv'"
  by (auto simp: commits_def commit_ok)

lemma emit_storage [simp]: "emit_change env (t\<lparr>dt_storage := st\<rparr>) old new sv = emit_change env t old new sv"
  by (simp add: emit_change_def stream_enabled_def)

lemma commit_one:
  assumes "bt_get (dv_tables sv) n = Some t" "pc_table c = n" "pc_mutate c"
  shows "commit_prepared env [c] sv =
    emit_change (re_stream env 0) t (pc_old c) (pc_new c) (set_storage n (store_change c (dt_storage t)) sv)"
proof -
  have "commit_change c sv = set_storage n (store_change c (dt_storage t)) sv"
    using assms by (simp add: commit_change_def set_storage_def update_table_def store_change_def)
  then show ?thesis
    using assms by (simp add: commit_prepared_def publish_change_def set_storage_def get_update_table)
qed

lemma commits_one:
  assumes "bt_get (dv_tables sv) n = Some t" "change_ok (dt_key_schema t) (table_map t) c" "pc_table c = n" "pc_mutate c"
  shows "commits env sv (emit_change (re_stream env 0) t (pc_old c) (pc_new c) (set_storage n (store_change c (dt_storage t)) sv))"
  unfolding commits_def using assms commit_one [OF assms(1,3,4), of env]
  by (intro exI [of _ "[c]"]) (simp add: changes_ok_def)

lemma commits_put:
  assumes "service_ok sv" "bt_get (dv_tables sv) n = Some t" "valid_item it"
    and "put_item it (dt_storage t) = Inr (old, st)"
  shows "commits env sv (emit_change (re_stream env 0) t old (Some it) (set_storage n st sv))"
proof -
  note t = service_okD(1) [OF assms(1,2), unfolded table_ok_def]
  obtain k where k: "extract_primary_key (dt_key_schema t) it = Inr k" "(old, st) = put_prepared k it (dt_storage t)"
    using assms(4) t by (auto simp: put_item_def res_map_Inr)
  have ok: "key_ok k" using numbers_key_ok [OF _ k(1)] assms(3) by (simp add: valid_item_def)
  let ?c = "\<lparr>pc_table = n, pc_key = k, pc_old = old, pc_new = Some it, pc_mutate = True\<rparr>"
  have "old = table_map t (abstract_key k)" "st = store_change ?c (dt_storage t)"
    using put_prepared_spec(2) [of "dt_storage t" k it] t ok arg_cong [OF k(2), of fst] arg_cong [OF k(2), of snd]
    by (simp_all add: table_map_def store_change_def)
  then show ?thesis
    using commits_one [OF assms(2), of ?c env] ok k(1) by (simp add: change_ok_def change_at_def)
qed

lemma commits_delete:
  assumes "service_ok sv" "bt_get (dv_tables sv) n = Some t" "key_ok k" "delete_item k (dt_storage t) = (old, st)"
  shows "commits env sv (emit_change (re_stream env 0) t old None (set_storage n st sv))"
proof -
  note t = service_okD(1) [OF assms(1,2), unfolded table_ok_def]
  let ?c = "\<lparr>pc_table = n, pc_key = k, pc_old = old, pc_new = None, pc_mutate = True\<rparr>"
  have "old = table_map t (abstract_key k)" "st = store_change ?c (dt_storage t)"
    using delete_item_spec(2) [of "dt_storage t" k] t assms(3,4) by (simp_all add: table_map_def store_change_def)
  then show ?thesis
    using commits_one [OF assms(2), of ?c env] assms(3) by (simp add: change_ok_def change_at_def)
qed

lemma require_table_Inr [simp]: "require_table n sv = Inr t \<longleftrightarrow> bt_get (dv_tables sv) n = Some t"
  by (auto simp: require_table_def ok_or_def split: option.split)

lemma with_expected_frame:
  "with_expected (i :: put_item_input) = Inr j \<Longrightarrow> pi_table j = pi_table i \<and> pi_item j = pi_item i \<and> pi_return j = pi_return i"
  "with_expected (d :: delete_item_input) = Inr e \<Longrightarrow> di_table e = di_table d \<and> di_key e = di_key d \<and> di_return e = di_return d"
  "with_expected (u :: update_item_input) = Inr v \<Longrightarrow> ui_table v = ui_table u \<and> ui_key v = ui_key u \<and> ui_return v = ui_return u \<and>
     ui_update v = ui_update u \<and> ui_attribute_updates v = ui_attribute_updates u"
  by (auto simp: with_expected_def split: if_splits prod.splits)

lemma put_commits:
  assumes "service_ok sv" "put_item_body env i sv = Inr (out, sv')"
  shows "commits env sv sv'"
proof -
  obtain t j old st where t: "bt_get (dv_tables sv) (pi_table i) = Some t" and j: "with_expected i = Inr j"
    and v: "valid_item (pi_item j)" and p: "put_item (pi_item j) (dt_storage t) = Inr (old, st)"
    and sv': "sv' = emit_change (re_stream env 0) t old (Some (pi_item j)) (set_storage (pi_table j) st sv)"
    using assms(2) unfolding put_item_body_def by (auto simp: res_bind_Inr_iff res_map_Inr)
  show ?thesis
    using commits_put [OF assms(1) t v p] sv' with_expected_frame(1) [OF j] by simp
qed

chapter \<open>Write handlers\<close>

text \<open>Every write handler that succeeds has committed a list of well-formed changes.\<close>

section \<open>Single items\<close>

lemma delete_commits:
  assumes "service_ok sv" "delete_item_body env i sv = Inr (out, sv')" "validate_numbers_in_item (di_key i)"
  shows "commits env sv sv'"
proof -
  obtain t j pk where t: "bt_get (dv_tables sv) (di_table i) = Some t" and j: "with_expected i = Inr j"
    and pk: "extract_primary_key (dt_key_schema t) (di_key i) = Inr pk"
    and sv': "sv' = emit_change (re_stream env 0) t (fst (delete_item pk (dt_storage t))) None
      (set_storage (di_table j) (snd (delete_item pk (dt_storage t))) sv)"
    using assms(2) unfolding delete_item_body_def by (auto simp: res_bind_Inr_iff split_beta Let_def)
  show ?thesis
    using commits_delete [OF assms(1) t numbers_key_ok [OF assms(3) pk], of "fst (delete_item pk (dt_storage t))"]
      sv' with_expected_frame(2) [OF j] by simp
qed

lemma commits_nothing: "commits env sv sv"
  unfolding commits_def by (rule exI [of _ "[]"]) (simp add: changes_ok_def commit_prepared_def)

lemma table_map_get: "service_ok sv \<Longrightarrow> bt_get (dv_tables sv) n = Some t \<Longrightarrow> key_ok k \<Longrightarrow>
    get_item k (dt_storage t) = table_map t (abstract_key k)"
  by (simp add: service_ok_def table_ok_def table_map_def get_item_map)

lemma update_item_key:
  assumes "service_ok sv" "bt_get (dv_tables sv) n = Some t" "extract_primary_key (dt_key_schema t) key = Inr pk"
    and "validate_numbers_in_item key"
    and "apply_all add_to_list kvs (unwrap_or key (get_item pk (dt_storage t))) = Inr it"
    and "case u of None \<Rightarrow> True | Some e \<Rightarrow> validate_update_paths e (dt_key_schema t) (ci_names i)"
    and "updated_item i u it = Inr it'"
  shows "\<exists>k. extract_primary_key (dt_key_schema t) it' = Inr k \<and> abstract_key k = abstract_key pk"
proof -
  let ?ks = "dt_key_schema t" and ?it = "unwrap_or key (get_item pk (dt_storage t))"
  note t = service_okD(1) [OF assms(1,2), unfolded table_ok_def]
  have ok: "key_ok pk" using numbers_key_ok [OF assms(4,3)] .
  have "\<exists>k. extract_primary_key ?ks ?it = Inr k \<and> abstract_key k = abstract_key pk"
  proof (cases "get_item pk (dt_storage t)")
    case None
    then show ?thesis using assms(3) by (simp add: unwrap_or_def)
  next
    case (Some e)
    then have "table_map t (abstract_key pk) = Some e" using table_map_get [OF assms(1,2) ok] by simp
    then show ?thesis using t keyedD Some by (fastforce simp: unwrap_or_def)
  qed
  then obtain k where k: "extract_primary_key ?ks ?it = Inr k" "abstract_key k = abstract_key pk" by blast
  have it: "extract_primary_key ?ks it = Inr k" by (rule list_adds_keep_key [OF assms(5) k(1)])
  have "extract_primary_key ?ks it' = Inr k"
    using assms(6,7) it t update_keeps_key [of "\<lparr>ec_item = it, ec_names = ci_names i, ec_values = ci_values i\<rparr>" _ it' ?ks k]
    by (cases u) (auto simp: updated_item_def)
  then show ?thesis using k by blast
qed

lemma update_commits:
  assumes "service_ok sv" "update_item_body env i sv = Inr (out, sv')"
  shows "commits env sv sv'"
proof -
  obtain t pk j it u it' where t: "bt_get (dv_tables sv) (ui_table i) = Some t"
    and n: "validate_numbers_in_item (ui_key i)"
    and pk: "extract_primary_key (dt_key_schema t) (ui_key i) = Inr pk" and j: "with_expected i = Inr j"
    and it: "apply_all add_to_list (list_adds (ui_attribute_updates j)) (unwrap_or (ui_key j) (get_item pk (dt_storage t))) = Inr it"
    and u: "case u of None \<Rightarrow> True | Some e \<Rightarrow> validate_update_paths e (dt_key_schema t) (ci_names (with_attribute_updates j))"
    and it': "updated_item (with_attribute_updates j) u it = Inr it'"
    and st: "store_update env (with_attribute_updates j) t (get_item pk (dt_storage t)) u it' sv = Inr (out, sv')"
    using assms(2) unfolding update_item_body_def by (auto simp: res_bind_Inr_iff Let_def)
  have frame: "ui_key j = ui_key i" "ui_table (with_attribute_updates j) = ui_table i"
    using with_expected_frame(3) [OF j] by (auto simp: with_attribute_updates_def Let_def split: prod.split)
  show ?thesis
  proof (cases "sv' = sv")
    case True
    then show ?thesis using commits_nothing by simp
  next
    case False
    then obtain old st' where v: "valid_item it'" and p: "put_item it' (dt_storage t) = Inr (old, st')"
      and sv': "sv' = emit_change (re_stream env 0) t (case old of None \<Rightarrow> get_item pk (dt_storage t) | Some o' \<Rightarrow> Some o')
         (Some it') (set_storage (ui_table i) st' sv)"
      using st frame by (auto simp: store_update_def res_map_Inr Let_def split: if_splits)
    obtain k where k: "extract_primary_key (dt_key_schema t) it' = Inr k" "abstract_key k = abstract_key pk"
      using update_item_key [OF assms(1) t pk n _ u it'] it frame by auto
    note tok = service_okD(1) [OF assms(1) t, unfolded table_ok_def]
    have "old = table_map t (abstract_key k)"
      using p k tok put_prepared_spec(2) [of "dt_storage t" k it'] numbers_key_ok [OF _ k(1)] v
      by (auto simp: put_item_def res_map_Inr table_map_def valid_item_def dest!: arg_cong [of "(_, _)" _ fst])
    then have "old = get_item pk (dt_storage t)"
      using k(2) table_map_get [OF assms(1) t numbers_key_ok [OF n pk]] by simp
    then have "sv' = emit_change (re_stream env 0) t old (Some it') (set_storage (ui_table i) st' sv)"
      using sv' by (simp split: option.splits)
    then show ?thesis using commits_put [OF assms(1) t v p] by simp
  qed
qed

section \<open>Batches\<close>

lemma collect_ok_Inr: "collect_ok f xs = Inr ys \<longleftrightarrow> list_all2 (\<lambda>x y. f x = Inr y) xs ys"
proof (induction xs arbitrary: ys)
  case (Cons x xs)
  then show ?case by (cases ys) (auto simp: res_bind_Inr_iff res_map_Inr)
qed auto

lemma has_duplicate_pairs:
  "\<not> has_duplicate eq seen xs \<longleftrightarrow> (\<forall>x\<in>set xs. \<forall>y\<in>set seen. \<not> eq x y) \<and> sorted_wrt (\<lambda>x y. \<not> eq y x) xs"
  by (induction xs arbitrary: seen) (auto simp: list_ex_iff)

lemma list_all2_setE1:
  assumes "list_all2 P xs ys" "x \<in> set xs"
  obtains y where "y \<in> set ys" "P x y"
  using assms by (metis list_all2_conv_all_nth in_set_conv_nth)

text \<open>Changes at places that differ pairwise.\<close>

lemma distinct_places:
  assumes "sorted_wrt (\<lambda>c d. pc_table c = pc_table d \<longrightarrow> \<not> primary_key_eq (pc_key d) (pc_key c)) cs"
    and "\<And>c d. c \<in> set cs \<Longrightarrow> d \<in> set cs \<Longrightarrow> pc_table c = pc_table d \<Longrightarrow>
      key_ok (pc_key c) \<and> key_ok (pc_key d) \<and> (pk_sort_key (pc_key c) = None \<longleftrightarrow> pk_sort_key (pc_key d) = None)"
  shows "distinct (map (\<lambda>c. (pc_table c, change_at c)) cs)"
  using assms
proof (induction cs)
  case (Cons c cs)
  have *: "(pc_table d, change_at d) \<noteq> (pc_table c, change_at c)" if d: "d \<in> set cs" for d
  proof
    assume e: "(pc_table d, change_at d) = (pc_table c, change_at c)"
    have "key_ok (pc_key d) \<and> key_ok (pc_key c) \<and> (pk_sort_key (pc_key d) = None \<longleftrightarrow> pk_sort_key (pc_key c) = None)"
      using Cons.prems(2) [of d c] d e by simp
    then have "primary_key_eq (pc_key d) (pc_key c)"
      using primary_key_eq_abstract [of "pc_key d" "pc_key c"] e by (simp add: change_at_def)
    then show False using Cons.prems(1) d e by simp
  qed
  have "distinct (map (\<lambda>c. (pc_table c, change_at c)) cs)"
    by (rule Cons.IH) (use Cons.prems in auto)
  then show ?case using * by (simp add: image_iff) metis
qed simp

text \<open>What a change needs from its key and image.\<close>

definition change_from :: "dynamo_service \<Rightarrow> prepared_change \<Rightarrow> bool" where
  "change_from sv c \<longleftrightarrow> (\<exists>t it. bt_get (dv_tables sv) (pc_table c) = Some t \<and>
     extract_primary_key (dt_key_schema t) it = Inr (pc_key c) \<and> key_ok (pc_key c) \<and>
     pc_old c = get_item (pc_key c) (dt_storage t) \<and>
     (\<forall>new. pc_new c = Some new \<longrightarrow> (\<exists>k. extract_primary_key (dt_key_schema t) new = Inr k \<and>
        key_ok k \<and> abstract_key k = change_at c)))"

lemma change_from_ok:
  assumes "service_ok sv" "change_from sv c"
  shows "\<exists>t. bt_get (dv_tables sv) (pc_table c) = Some t \<and> change_ok (dt_key_schema t) (table_map t) c"
  using assms table_map_get [OF assms(1)] unfolding change_from_def change_ok_def change_at_def by fastforce

lemma changes_from_ok:
  assumes "service_ok sv" "\<forall>c\<in>set cs. change_from sv c"
    and "sorted_wrt (\<lambda>c d. pc_table c = pc_table d \<longrightarrow> \<not> primary_key_eq (pc_key d) (pc_key c)) cs"
  shows "changes_ok sv cs"
  unfolding changes_ok_def
proof
  show "\<forall>c\<in>set cs. \<exists>t. bt_get (dv_tables sv) (pc_table c) = Some t \<and> change_ok (dt_key_schema t) (table_map t) c"
    using assms(2) change_from_ok [OF assms(1)] by blast
  show "distinct (map (\<lambda>c. (pc_table c, change_at c)) cs)"
  proof (rule distinct_places [OF assms(3)])
    fix c d assume cd: "c \<in> set cs" "d \<in> set cs" "pc_table c = pc_table d"
    then obtain t it it' where
      "bt_get (dv_tables sv) (pc_table c) = Some t" "extract_primary_key (dt_key_schema t) it = Inr (pc_key c)"
      "extract_primary_key (dt_key_schema t) it' = Inr (pc_key d)" "key_ok (pc_key c)" "key_ok (pc_key d)"
      using assms(2) unfolding change_from_def by (metis option.inject)
    then show "key_ok (pc_key c) \<and> key_ok (pc_key d) \<and> (pk_sort_key (pc_key c) = None \<longleftrightarrow> pk_sort_key (pc_key d) = None)"
      using extract_sort_key by metis
  qed
qed

lemma prepared_map: "list_all2 (\<lambda>x y. f x = Inr y) xs ys \<Longrightarrow> ys = map (\<lambda>x. projr (f x)) xs"
  by (induction rule: list_all2_induct) simp_all

lemma write_request_keys:
  assumes "\<forall>w\<in>set ws. \<exists>it. write_request_item w = Some it \<and> extract_primary_key ks it = Inr (h w)"
  shows "List.map_filter (\<lambda>it. case extract_primary_key ks it of Inl _ \<Rightarrow> None | Inr k \<Rightarrow> Some k)
     (List.map_filter write_request_item ws) = map h ws"
  using assms by (induction ws) (auto simp: List.map_filter_simps)

lemma validated_write:
  assumes "validate_write_request ks w"
  shows "\<exists>it. write_request_item w = Some it \<and> validate_numbers_in_item it \<and> (\<forall>new. wr_put w = Some new \<longrightarrow> new = it)"
  using assms by (auto simp: validate_write_request_def write_request_item_def valid_item_def split: option.splits)

lemma prepare_write_from:
  assumes "prepare_write sv n w = Inr c" "bt_get (dv_tables sv) n = Some t" "validate_write_request (dt_key_schema t) w"
  shows "change_from sv c" "pc_table c = n"
    "\<exists>it. write_request_item w = Some it \<and> extract_primary_key (dt_key_schema t) it = Inr (pc_key c)"
proof -
  obtain it where it: "write_request_item w = Some it" "validate_numbers_in_item it"
    "\<forall>new. wr_put w = Some new \<longrightarrow> new = it"
    using validated_write [OF assms(3)] by blast
  obtain k where k: "extract_primary_key (dt_key_schema t) it = Inr k"
    and c: "c = \<lparr>pc_table = n, pc_key = k, pc_old = get_item k (dt_storage t), pc_new = wr_put w, pc_mutate = True\<rparr>"
    using assms(1,2) it(1) by (auto simp: prepare_write_def res_bind_Inr_iff res_map_Inr ok_or_def)
  have "key_ok k" using numbers_key_ok [OF it(2) k] .
  then show "change_from sv c" using assms(2) k it(3) c by (auto simp: change_from_def change_at_def)
  show "pc_table c = n" using c by simp
  show "\<exists>it. write_request_item w = Some it \<and> extract_primary_key (dt_key_schema t) it = Inr (pc_key c)"
    using it(1) k c by simp
qed

lemma batch_commits:
  assumes "service_ok sv" "batch_write_body env requests sv = Inr (out, sv')" "distinct (map fst requests)"
  shows "commits env sv sv'"
proof -
  let ?flat = "concat (map (\<lambda>r. map (Pair (fst r)) (snd r)) requests)"
  obtain us cs where us: "collect_ok (validate_table_writes sv) requests = Inr us"
    and cs: "list_all2 (\<lambda>x c. prepare_write sv (fst x) (snd x) = Inr c) ?flat cs" and sv': "sv' = commit_prepared env cs sv"
    using assms(2) by (auto simp: batch_write_body_def res_bind_Inr_iff res_map_Inr collect_ok_Inr split_beta)
  let ?g = "\<lambda>nw. projr (prepare_write sv (fst nw) (snd nw))"
  have valid: "\<exists>t. bt_get (dv_tables sv) (fst r) = Some t \<and>
      detect_duplicate_keys (dt_key_schema t) (List.map_filter write_request_item (snd r)) \<and>
      list_all (validate_write_request (dt_key_schema t)) (snd r)" if r: "r \<in> set requests" for r
  proof -
    obtain u where "validate_table_writes sv r = Inr u"
      using list_all2_setE1 [OF us [unfolded collect_ok_Inr] r] by metis
    then show ?thesis by (auto simp: validate_table_writes_def res_bind_Inr_iff)
  qed
  have cs_map: "cs = map ?g ?flat" using prepared_map [of "\<lambda>x. prepare_write sv (fst x) (snd x)"] cs by simp
  have each: "prepare_write sv (fst r) w = Inr (?g (fst r, w))" if rw: "r \<in> set requests" "w \<in> set (snd r)" for r w
  proof -
    have x: "(fst r, w) \<in> set ?flat" using rw by auto
    obtain c where "prepare_write sv (fst (fst r, w)) (snd (fst r, w)) = Inr c"
      by (rule list_all2_setE1 [OF cs x])
    then show ?thesis by simp
  qed
  have from_c: "\<forall>c\<in>set cs. change_from sv c"
  proof
    fix c assume "c \<in> set cs"
    then obtain r w where rw: "r \<in> set requests" "w \<in> set (snd r)" and c: "c = ?g (fst r, w)"
      unfolding cs_map by auto
    obtain t where "bt_get (dv_tables sv) (fst r) = Some t" "list_all (validate_write_request (dt_key_schema t)) (snd r)"
      using valid [OF rw(1)] by blast
    then show "change_from sv c"
      using prepare_write_from(1) [OF each [OF rw]] rw(2) c by (simp add: list_all_iff)
  qed
  have "sorted_wrt (\<lambda>x y. fst x = fst y \<longrightarrow> \<not> primary_key_eq (pc_key (?g y)) (pc_key (?g x))) ?flat"
    using assms(3) valid each
  proof (induction requests)
    case (Cons r rs)
    obtain t where t: "bt_get (dv_tables sv) (fst r) = Some t" "list_all (validate_write_request (dt_key_schema t)) (snd r)"
      and d: "detect_duplicate_keys (dt_key_schema t) (List.map_filter write_request_item (snd r))"
      using Cons.prems(2) [of r] by auto
    have "List.map_filter (\<lambda>it. case extract_primary_key (dt_key_schema t) it of Inl _ \<Rightarrow> None | Inr k \<Rightarrow> Some k)
        (List.map_filter write_request_item (snd r)) = map (\<lambda>w. pc_key (?g (fst r, w))) (snd r)"
    proof (rule write_request_keys, rule ballI)
      fix w assume w: "w \<in> set (snd r)"
      show "\<exists>it. write_request_item w = Some it \<and> extract_primary_key (dt_key_schema t) it = Inr (pc_key (?g (fst r, w)))"
        using prepare_write_from(3) [OF Cons.prems(3) [OF _ w] t(1)] t(2) w by (auto simp: list_all_iff)
    qed
    then have "sorted_wrt (\<lambda>w v. \<not> primary_key_eq (pc_key (?g (fst r, v))) (pc_key (?g (fst r, w)))) (snd r)"
      using d by (simp add: detect_duplicate_keys_def has_duplicate_pairs sorted_wrt_map)
    moreover have "sorted_wrt (\<lambda>x y. fst x = fst y \<longrightarrow> \<not> primary_key_eq (pc_key (?g y)) (pc_key (?g x)))
        (concat (map (\<lambda>r. map (Pair (fst r)) (snd r)) rs))"
      by (rule Cons.IH) (use Cons.prems in auto)
    ultimately show ?case
      using Cons.prems(1) by (force simp: sorted_wrt_append sorted_wrt_map)
  qed simp
  moreover have "pc_table (?g x) = fst x" if x: "x \<in> set ?flat" for x
  proof -
    obtain r w where rw: "r \<in> set requests" "w \<in> set (snd r)" "x = (fst r, w)" using x by auto
    obtain t where "bt_get (dv_tables sv) (fst r) = Some t" "list_all (validate_write_request (dt_key_schema t)) (snd r)"
      using valid [OF rw(1)] by blast
    then show ?thesis using prepare_write_from(2) [OF each [OF rw(1,2)]] rw by (simp add: list_all_iff)
  qed
  ultimately have "sorted_wrt (\<lambda>x y. pc_table (?g x) = pc_table (?g y) \<longrightarrow> \<not> primary_key_eq (pc_key (?g y)) (pc_key (?g x))) ?flat"
    by (auto elim: sorted_wrt_mono_rel [rotated])
  then have "changes_ok sv cs"
    using changes_from_ok [OF assms(1) from_c] by (simp add: cs_map sorted_wrt_map)
  then show ?thesis using sv' by (auto simp: commits_def)
qed

section \<open>Transactions\<close>

lemma transact_keys_Inr:
  "transact_keys sv seen as = Inr u \<Longrightarrow>
     \<exists>ks. list_all2 (\<lambda>a k. transact_key sv a = Inr k) as ks \<and> \<not> has_duplicate same_item seen ks"
proof (induction as arbitrary: seen)
  case (Cons a as)
  obtain k where k: "transact_key sv a = Inr k" "\<not> list_ex (same_item k) seen" "transact_keys sv (k # seen) as = Inr u"
    using Cons.prems by (auto simp: res_bind_Inr_iff)
  obtain ks where "list_all2 (\<lambda>a k. transact_key sv a = Inr k) as ks" "\<not> has_duplicate same_item (k # seen) ks"
    using Cons.IH [OF k(3)] by blast
  then show ?case using k by (intro exI [of _ "k # ks"]) simp
qed simp

lemma prepare_all_Inr:
  "prepare_all sv n as = Inr cs \<Longrightarrow> list_all2 (\<lambda>a c. prepare_transaction_change sv a = Inr c) as cs"
  by (induction sv n as arbitrary: cs rule: prepare_all.induct) (auto simp: res_bind_Inr_iff res_map_Inr Let_def)

definition transact_numbers_ok :: "transact_item \<Rightarrow> bool" where
  "transact_numbers_ok a \<longleftrightarrow> (case transact_part_of a of None \<Rightarrow> True | Some p \<Rightarrow> validate_numbers_in_item (tp_key p))"

lemma prepare_transaction_from:
  assumes "prepare_transaction_change sv a = Inr c" "transact_numbers_ok a" "transact_key sv a = Inr k"
  shows "change_from sv c" "k = (pc_table c, pc_key c)"
proof -
  obtain p t key old u new where p: "transact_part_of a = Some p" and t: "bt_get (dv_tables sv) (tp_table p) = Some t"
    and key: "extract_primary_key (dt_key_schema t) (tp_key p) = Inr key" and old: "old = get_item key (dt_storage t)"
    and valid: "case new of None \<Rightarrow> True | Some it \<Rightarrow> valid_new_image (dt_key_schema t) key it"
    and c: "c = \<lparr>pc_table = tp_table p, pc_key = key, pc_old = old, pc_new = new, pc_mutate = (ti_check a = None)\<rparr>"
    using assms(1) by (auto simp: prepare_transaction_change_def res_bind_Inr_iff Let_def ok_or_def split: option.splits)
  have ok: "key_ok key" using numbers_key_ok [OF _ key] assms(2) p by (simp add: transact_numbers_ok_def)
  have "\<exists>k. extract_primary_key (dt_key_schema t) it = Inr k \<and> key_ok k \<and> abstract_key k = abstract_key key"
    if new: "new = Some it" for it
  proof -
    obtain k where k: "extract_primary_key (dt_key_schema t) it = Inr k" "primary_key_eq k key" "valid_item it"
      using valid unfolding new by (auto simp: valid_new_image_def split: sum.splits)
    have "key_ok k" using numbers_key_ok [OF _ k(1)] k(3) by (simp add: valid_item_def)
    then show ?thesis
      using k ok primary_key_eq_abstract [of k key] extract_sort_key [OF k(1)] extract_sort_key [OF key] by simp
  qed
  then show "change_from sv c" using t key ok c old by (auto simp: change_from_def change_at_def)
  show "k = (pc_table c, pc_key c)"
    using assms(3) p t key c by (auto simp: transact_key_def res_bind_Inr_iff res_map_Inr ok_or_def)
qed

lemma transact_changes:
  assumes "service_ok sv" "transact_body env items sv = Inr (out, sv')" "\<forall>a\<in>set items. transact_numbers_ok a"
  shows "\<exists>cs. list_all2 (\<lambda>a c. prepare_transaction_change sv a = Inr c) items cs \<and> changes_ok sv cs \<and>
    sv' = commit_prepared env cs sv"
proof -
  obtain u cs where u: "transact_keys sv [] items = Inr u" and p: "prepare_all sv 0 items = Inr cs"
    and sv': "sv' = commit_prepared env cs sv"
    using assms(2) by (auto simp: transact_body_def res_bind_Inr_iff res_map_Inr split: if_splits)
  note cs = prepare_all_Inr [OF p]
  obtain ks where ks: "list_all2 (\<lambda>a k. transact_key sv a = Inr k) items ks" "\<not> has_duplicate same_item [] ks"
    using transact_keys_Inr [OF u] by blast
  have "list_all2 (\<lambda>k c. change_from sv c \<and> k = (pc_table c, pc_key c)) ks cs"
    using cs ks(1) assms(3) prepare_transaction_from unfolding list_all2_conv_all_nth by (metis nth_mem)
  then have f: "\<forall>c\<in>set cs. change_from sv c" and e: "ks = map (\<lambda>c. (pc_table c, pc_key c)) cs"
    by (auto simp: list_all2_conv_all_nth in_set_conv_nth intro: nth_equalityI)
  have "sorted_wrt (\<lambda>c d. pc_table c = pc_table d \<longrightarrow> \<not> primary_key_eq (pc_key d) (pc_key c)) cs"
    using ks(2) by (auto simp: e has_duplicate_pairs sorted_wrt_map same_item_def elim!: sorted_wrt_mono_rel [rotated])
  then show ?thesis using cs sv' changes_from_ok [OF assms(1) f] by blast
qed

end
