(* ===== verification/Dynamo_Runs.thy ===== *)
theory Dynamo_Runs
  imports Dynamo_Commits
begin

text \<open>
  Runs of requests against the service, and the invariant on every run. A request is well-formed when
  the numbers in the keys that the code does not check are numbers, key attributes are not named
  with a \<open>#\<close>, and a batch names each table once (it is a map).
\<close>

datatype dynamo_request =
    RqCreateTable create_table_input
  | RqDeleteTable string
  | RqPutItem put_item_input
  | RqDeleteItem delete_item_input
  | RqUpdateItem update_item_input
  | RqBatchWrite "(string \<times> write_request list) list"
  | RqTransactWrite "transact_item list" "string option"
  | RqTagResource string "(string \<times> string) list"
  | RqUntagResource string "string list"
  | RqUpdateTimeToLive string string bool
  | RqUpdateContinuousBackups string recovery_spec
  | RqReset
  | RqQuiesce

fun service_step :: "(transact_item list \<Rightarrow> string) \<Rightarrow> (string \<Rightarrow> string) \<Rightarrow> request_env \<times> dynamo_request \<Rightarrow>
    dynamo_service \<Rightarrow> dynamo_service" where
  "service_step canonical hash (env, RqCreateTable i) sv = snd (handle_create_table env i sv)"
| "service_step canonical hash (env, RqDeleteTable n) sv = snd (handle_delete_table n sv)"
| "service_step canonical hash (env, RqPutItem i) sv = snd (handle_put_item env i sv)"
| "service_step canonical hash (env, RqDeleteItem i) sv = snd (handle_delete_item env i sv)"
| "service_step canonical hash (env, RqUpdateItem i) sv = snd (handle_update_item env i sv)"
| "service_step canonical hash (env, RqBatchWrite rs) sv = snd (handle_batch_write_item env rs sv)"
| "service_step canonical hash (env, RqTransactWrite items token) sv =
     snd (handle_transact_write_items canonical hash env items token sv)"
| "service_step canonical hash (env, RqTagResource arn tags) sv = snd (handle_tag_resource_table arn tags sv)"
| "service_step canonical hash (env, RqUntagResource arn ks) sv = snd (handle_untag_resource_table arn ks sv)"
| "service_step canonical hash (env, RqUpdateTimeToLive n a e) sv = snd (handle_update_time_to_live n a e sv)"
| "service_step canonical hash (env, RqUpdateContinuousBackups n s) sv =
     snd (handle_update_continuous_backups env n s sv)"
| "service_step canonical hash (env, RqReset) sv = reset_service sv"
| "service_step canonical hash (env, RqQuiesce) sv = quiesce_service sv"

definition run_service :: "(transact_item list \<Rightarrow> string) \<Rightarrow> (string \<Rightarrow> string) \<Rightarrow> (request_env \<times> dynamo_request) list \<Rightarrow>
    dynamo_service \<Rightarrow> dynamo_service" where
  "run_service canonical hash rs sv = fold (service_step canonical hash) rs sv"

fun dynamo_request_ok :: "dynamo_request \<Rightarrow> bool" where
  "dynamo_request_ok (RqCreateTable i) = list_all (\<lambda>e. \<not> starts_with (fst e) ''#'') (cti_key_elements i)"
| "dynamo_request_ok (RqDeleteItem i) = validate_numbers_in_item (di_key i)"
| "dynamo_request_ok (RqBatchWrite rs) = distinct (map fst rs)"
| "dynamo_request_ok (RqTransactWrite items _) = list_all transact_numbers_ok items"
| "dynamo_request_ok _ = True"

section \<open>Steps\<close>

lemma operation_ok: "service_ok sv \<Longrightarrow> service_ok (snd (body sv)) \<Longrightarrow> service_ok (snd (operation body sv))"
  using service_ok_cong [of "snd (body sv)\<lparr>dv_open := False, dv_failed := True\<rparr>" "snd (body sv)"]
  by (simp add: operation_def split_beta)

lemma attempt_ok:
  "service_ok sv \<Longrightarrow> (\<And>x sv'. r = Inr (x, sv') \<Longrightarrow> service_ok sv') \<Longrightarrow> service_ok (snd (attempt sv r))"
  by (auto simp: attempt_def split: sum.split)

lemma find_mem: "find P xs = Some x \<Longrightarrow> x \<in> set xs"
  by (induction xs) (auto split: if_splits)

lemma key_of_role_mem: "key_of_role role elements = Some n \<Longrightarrow> n \<in> fst ` set elements"
  by (force simp: key_of_role_def dest!: find_mem)

lemma parse_key_attribute_name: "parse_key_attribute defs n = Inr ka \<Longrightarrow> ka_name ka = n"
  by (auto simp: parse_key_attribute_def split: option.splits)

lemma parsed_schema_names:
  assumes "parse_key_schema elements defs = Inr ks" "ka \<in> set (key_attributes ks)"
  shows "ka_name ka \<in> fst ` set elements"
proof (cases "key_of_role Role_Range elements")
  case None
  then show ?thesis
    using assms
    by (auto simp: parse_key_schema_def key_attributes_def res_bind_Inr_iff ok_or_def
        dest!: parse_key_attribute_name split: option.splits intro: key_of_role_mem)
next
  case (Some n)
  then have "n \<in> fst ` set elements" by (rule key_of_role_mem)
  then show ?thesis
    using assms Some
    by (auto simp: parse_key_schema_def key_attributes_def res_bind_Inr_iff res_map_Inr ok_or_def
        dest!: parse_key_attribute_name split: option.splits intro: key_of_role_mem)
qed

lemma table_of_input_name [simp]: "dt_name (table_of_input env i ks b) = cti_name i"
  by (simp add: table_of_input_def)

lemma new_table_ok:
  assumes "parse_key_schema (cti_key_elements i) (cti_definitions i) = Inr ks" "dynamo_request_ok (RqCreateTable i)"
  shows "table_ok (cti_name i) (table_of_input env i ks b)" "table_map (table_of_input env i ks b) = Map.empty"
  using assms parsed_schema_names [OF assms(1)]
  by (force simp: table_ok_def table_of_input_def table_map_def keyed_def elements_cover_def plain_keys_def list_all_iff)+

lemma service_ok_insert:
  assumes "service_ok sv" "table_ok n t" "stream_enabled t \<Longrightarrow> \<exists>st. bt_get streams n = Some st \<and> table_stream_ok t st"
    and "\<forall>m. m \<noteq> n \<longrightarrow> bt_get streams m = bt_get (dv_streams sv) m"
  shows "service_ok (sv\<lparr>dv_tables := bt_insert n t (dv_tables sv), dv_streams := streams\<rparr>)"
  using assms by (auto simp: service_ok_def bt_get_insert)

lemma create_table_ok:
  assumes "service_ok sv" "dynamo_request_ok (RqCreateTable i)"
  shows "service_ok (snd (handle_create_table env i sv))"
proof -
  have "service_ok (snd (open_stream env (table_of_input env i ks b) (sv\<lparr>dv_tables := bt_insert (cti_name i) (table_of_input env i ks b) (dv_tables sv)\<rparr>)))"
    if ks: "parse_key_schema (cti_key_elements i) (cti_definitions i) = Inr ks" for ks b
  proof -
    let ?t = "table_of_input env i ks b"
    note t = new_table_ok [OF ks assms(2), of env b]
    show ?thesis
    proof (cases "stream_enabled ?t")
      case True
      have n: "dt_name ?t = cti_name i" "dt_key_schema ?t = ks" by (simp_all add: table_of_input_def)
      show ?thesis
        using service_ok_insert [OF assms(1) t(1), of "snd (create_stream_for (re_stream env 0) (dt_name ?t) (dt_arn ?t)
            (dt_key_elements ?t) (stream_view ?t) (dv_streams sv))"] True t(2) n
        by (simp add: open_stream_def create_stream_for_def Let_def bt_get_insert table_stream_ok_def new_shard_def replay_def)
    next
      case False
      then show ?thesis
        using service_ok_insert [OF assms(1) t(1), of "dv_streams sv"] by (simp add: open_stream_def)
    qed
  qed
  then show ?thesis
    unfolding handle_create_table_def using assms(1)
    by (intro operation_ok attempt_ok)
      (auto simp: res_bind_Inr_iff res_map_Inr create_table_def Let_def split_beta split: option.splits)
qed

lemma delete_table_ok:
  assumes "service_ok sv"
  shows "service_ok (snd (handle_delete_table n sv))"
  unfolding handle_delete_table_def
proof (intro operation_ok attempt_ok assms)
  fix x sv' assume "res_map (\<lambda>t. (t, sv\<lparr>dv_tables := bt_remove n (dv_tables sv),
      dv_streams := on_table_deleted (dt_name t) (dv_streams sv)\<rparr>)) (require_table n sv) = Inr (x, sv')"
  then obtain t where t: "bt_get (dv_tables sv) n = Some t"
    and sv': "sv' = sv\<lparr>dv_tables := bt_remove n (dv_tables sv), dv_streams := on_table_deleted (dt_name t) (dv_streams sv)\<rparr>"
    by (auto simp: res_map_Inr)
  have "dt_name t = n" using service_okD(1) [OF assms t] by (simp add: table_ok_def)
  moreover have "bt_get (on_table_deleted n (dv_streams sv)) m = (if m = n then None else bt_get (dv_streams sv) m)" for m
    by (simp add: on_table_deleted_def remove_stream_def disable_stream_def bt_get_filter_out bt_get_insert split: option.split)
  ultimately show "service_ok sv'"
    using assms sv' by (auto simp: service_ok_def bt_get_filter_out)
qed

text \<open>Metadata.\<close>

definition same_core :: "dynamo_table \<Rightarrow> dynamo_table \<Rightarrow> bool" where
  "same_core t u \<longleftrightarrow> dt_name u = dt_name t \<and> dt_key_schema u = dt_key_schema t \<and> dt_key_elements u = dt_key_elements t \<and>
     dt_stream u = dt_stream t \<and> dt_storage u = dt_storage t"

lemma update_metadata_ok:
  assumes "service_ok sv" "\<And>t. same_core t (f t)"
  shows "service_ok (update_table n f sv)"
proof -
  have "table_ok m (f t) = table_ok m t \<and> table_stream_ok (f t) = table_stream_ok t \<and> stream_enabled (f t) = stream_enabled t" for m t
    using assms(2) [of t]
    by (auto simp: same_core_def table_ok_def table_stream_ok_def table_map_def stream_view_def stream_enabled_def fun_eq_iff)
  then show ?thesis
    using assms(1) by (auto simp: service_ok_def get_update_table)
qed

lemma metadata_ok:
  assumes "service_ok sv"
  shows "service_ok (snd (handle_tag_resource_table arn tags sv))" "service_ok (snd (handle_untag_resource_table arn ks sv))"
    "service_ok (snd (handle_update_time_to_live n a e sv))" "service_ok (snd (handle_update_continuous_backups env n s sv))"
  using assms
  unfolding handle_tag_resource_table_def handle_untag_resource_table_def handle_update_time_to_live_def
    handle_update_continuous_backups_def
  by (intro operation_ok attempt_ok;
      force simp: res_bind_Inr_iff res_map_Inr Let_def same_core_def intro: update_metadata_ok)+

section \<open>Transactions\<close>

lemma admit_frame:
  "dv_tables (snd (admit_transaction_token canonical hash env req token sv)) = dv_tables sv \<and>
   dv_streams (snd (admit_transaction_token canonical hash env req token sv)) = dv_streams sv"
  by (simp add: admit_transaction_token_def Let_def split: option.split)

lemma record_token_frame [simp]:
  "dv_tables (record_token env token fp sv) = dv_tables sv" "dv_streams (record_token env token fp sv) = dv_streams sv"
  by (simp_all add: record_token_def split: option.split)

lemma transact_ok:
  assumes "service_ok sv" "list_all transact_numbers_ok items"
  shows "service_ok (snd (handle_transact_write_items canonical hash env items token sv))"
  unfolding handle_transact_write_items_def
proof (rule operation_ok [OF assms(1)])
  obtain r sv1 where a: "admit_transaction_token canonical hash env items token sv = (r, sv1)" by force
  have ok: "service_ok sv1"
    using admit_frame [of canonical hash env items token sv] a assms(1) service_ok_cong [of sv1 sv] by simp
  have "service_ok (snd (attempt sv1 (res_map (\<lambda>(x, sv'). (x, record_token env token fp sv')) (transact_body env items sv1))))" for fp
  proof (rule attempt_ok [OF ok])
    fix x sv' assume "res_map (\<lambda>(x, sv'). (x, record_token env token fp sv')) (transact_body env items sv1) = Inr (x, sv')"
    then obtain sv2 where b: "transact_body env items sv1 = Inr ((), sv2)" and sv': "sv' = record_token env token fp sv2"
      by (auto simp: res_map_Inr)
    have "service_ok sv2"
      using transact_changes [OF ok b] assms(2) commit_ok [OF ok] by (auto simp: list_all_iff)
    then show "service_ok sv'" using sv' service_ok_cong [of sv' sv2] by simp
  qed
  then show "service_ok (snd (case admit_transaction_token canonical hash env items token sv of
       (Inl e, sv) \<Rightarrow> (Inl e, sv)
     | (Inr fingerprint, sv) \<Rightarrow>
         if Option.bind token (bt_get (dv_tokens sv)) \<noteq> None then (Inr (), sv)
         else attempt sv (res_map (\<lambda>(x, sv'). (x, record_token env token fingerprint sv')) (transact_body env items sv))))"
    using ok a by (cases r) simp_all
qed

section \<open>Runs\<close>

lemma reset_ok: "service_ok (reset_service sv)"
  by (simp add: service_ok_def reset_service_def)

lemma quiesce_ok: "service_ok sv \<Longrightarrow> service_ok (quiesce_service sv)"
  using service_ok_cong [of "quiesce_service sv" sv] by (simp add: quiesce_service_def)

lemma service_step_ok:
  assumes "service_ok sv" "dynamo_request_ok rq"
  shows "service_ok (service_step canonical hash (env, rq) sv)"
proof (cases rq)
  case (RqBatchWrite rs)
  then show ?thesis
    using assms by (auto simp: handle_batch_write_item_def intro!: operation_ok attempt_ok dest: batch_commits commits_ok)
qed (use assms in \<open>auto simp: create_table_ok delete_table_ok metadata_ok transact_ok handle_put_item_def handle_delete_item_def
    handle_update_item_def reset_ok quiesce_ok
    intro!: operation_ok attempt_ok dest: put_commits delete_commits update_commits commits_ok\<close>)

lemma run_service_ok:
  assumes "service_ok sv" "\<forall>r\<in>set rs. dynamo_request_ok (snd r)"
  shows "service_ok (run_service canonical hash rs sv)"
  using assms
proof (induction rs arbitrary: sv)
  case (Cons r rs)
  then show ?case using service_step_ok [of sv "snd r" canonical hash "fst r"] by (simp add: run_service_def)
qed (simp add: run_service_def)

lemma new_service_ok: "service_ok new_service"
  by (simp add: service_ok_def new_service_def)

chapter \<open>Actions of transactions\<close>

text \<open>
  What a transaction is asked to do, stated without the preparation that the code makes: the place of an
  action, its condition, and its result on the item at that place. A transaction that succeeds has done
  this for all its actions at once.
\<close>

section \<open>Actions\<close>

definition action_context :: "transact_part \<Rightarrow> item \<Rightarrow> eval_context" where
  "action_context p it = \<lparr>ec_item = it, ec_names = unwrap_or [] (tp_names p), ec_values = unwrap_or [] (tp_values p)\<rparr>"

text \<open>The table and the key that an action names.\<close>

definition action_place :: "dynamo_service \<Rightarrow> transact_item \<Rightarrow> (string \<times> abstract_key) option" where
  "action_place sv a =
     Option.bind (transact_part_of a) (\<lambda>p.
     Option.bind (bt_get (dv_tables sv) (tp_table p)) (\<lambda>t.
       case extract_primary_key (dt_key_schema t) (tp_key p) of
         Inl _ \<Rightarrow> None
       | Inr k \<Rightarrow> Some (tp_table p, abstract_key k)))"

definition item_before :: "dynamo_service \<Rightarrow> string \<times> abstract_key \<Rightarrow> item option" where
  "item_before sv pl = Option.bind (bt_get (dv_tables sv) (fst pl)) (\<lambda>t. table_map t (snd pl))"

text \<open>The condition of an action, if it has one, is true of the item at its place.\<close>

definition action_holds :: "dynamo_service \<Rightarrow> transact_item \<Rightarrow> bool" where
  "action_holds sv a \<longleftrightarrow> (\<exists>p pl. transact_part_of a = Some p \<and> action_place sv a = Some pl \<and>
     (\<forall>c. tp_condition p = Some c \<longrightarrow> (\<exists>e. parse_condition c = Some (Inr e) \<and>
        evaluate (action_context p (unwrap_or [] (item_before sv pl))) e = Inr True)))"

text \<open>A put stores its item, a delete removes, a check leaves, and an update applies its expression to the
  item, or to its key where there is no item.\<close>

definition action_result :: "transact_item \<Rightarrow> item option \<Rightarrow> item option" where
  "action_result a old =
     (case (ti_put a, ti_update a) of
        (Some p, _) \<Rightarrow> Some (tp_key p)
      | (None, Some (p, text')) \<Rightarrow>
          (case parse_update text' of
             Some (Inr u) \<Rightarrow>
               (case apply_update (action_context p (unwrap_or (tp_key p) old)) u of Inr it \<Rightarrow> Some it | Inl _ \<Rightarrow> old)
           | _ \<Rightarrow> old)
      | (None, None) \<Rightarrow> if ti_delete a = None then old else None)"

section \<open>What the code prepares\<close>

lemma prepared_action:
  assumes "service_ok sv" "prepare_transaction_change sv a = Inr c" "transact_numbers_ok a" "action_count a = 1"
  shows "action_place sv a = Some (pc_table c, change_at c)"
    "pc_mutate c \<Longrightarrow> pc_new c = action_result a (item_before sv (pc_table c, change_at c))"
    "\<not> pc_mutate c \<Longrightarrow> action_result a old = old"
proof -
  obtain p t key u new where p: "transact_part_of a = Some p" and t: "bt_get (dv_tables sv) (tp_table p) = Some t"
    and key: "extract_primary_key (dt_key_schema t) (tp_key p) = Inr key"
    and u: "parse_optional_update (if ti_put a = None then map_option snd (ti_update a) else None) = Inr u"
    and new: "transact_new_image t a p (get_item key (dt_storage t)) u = Inr new"
    and c: "c = \<lparr>pc_table = tp_table p, pc_key = key, pc_old = get_item key (dt_storage t), pc_new = new, pc_mutate = (ti_check a = None)\<rparr>"
    using assms(2) by (auto simp: prepare_transaction_change_def res_bind_Inr_iff Let_def ok_or_def split: option.splits)
  have ok: "key_ok key" using numbers_key_ok [OF _ key] assms(3) p by (simp add: transact_numbers_ok_def)
  show "action_place sv a = Some (pc_table c, change_at c)"
    using p t key c by (simp add: action_place_def change_at_def)
  have old: "get_item key (dt_storage t) = item_before sv (pc_table c, change_at c)"
    using table_map_get [OF assms(1) t ok] t c by (simp add: item_before_def change_at_def)
  have parts: "pc_new c = new" "pc_mutate c = (ti_check a = None)" using c by simp_all
  show "pc_new c = action_result a (item_before sv (pc_table c, change_at c))" if "pc_mutate c"
    using that assms(4) p new u unfolding parts old
    by (auto simp: action_count_def transact_part_of_def transact_new_image_def action_result_def action_context_def
        parse_optional_update_def res_map_Inr split: option.splits if_splits)
  show "action_result a old = old" if "\<not> pc_mutate c"
    using that assms(4) c by (auto simp: action_count_def action_result_def split: option.splits if_splits)
qed

lemma transact_key_count: "transact_key sv a = Inr k \<Longrightarrow> action_count a = 1"
  by (auto simp: transact_key_def)

lemma reason_holds:
  assumes "transact_reason sv p is_put = Inr (Reason_None, x)" "tp_condition p = Some c"
    and "bt_get (dv_tables sv) (tp_table p) = Some t" "extract_primary_key (dt_key_schema t) (tp_key p) = Inr key"
  shows "\<exists>e. parse_condition c = Some (Inr e) \<and>
    evaluate (action_context p (unwrap_or [] (get_item key (dt_storage t)))) e = Inr True"
  using assms
  by (auto simp: transact_reason_def require_table_def ok_or_def action_context_def Let_def
      split: option.splits sum.splits eval_error.splits bool.splits if_splits)

lemma action_holdsI:
  assumes "service_ok sv" "evaluate_transact_write_condition sv a = Inr (Reason_None, x)"
    and "transact_key sv a = Inr k" "transact_numbers_ok a"
  shows "action_holds sv a"
proof -
  obtain p t key where p: "transact_part_of a = Some p" and t: "bt_get (dv_tables sv) (tp_table p) = Some t"
    and key: "extract_primary_key (dt_key_schema t) (tp_key p) = Inr key"
    using assms(3) by (auto simp: transact_key_def res_bind_Inr_iff res_map_Inr ok_or_def split: option.splits)
  have ok: "key_ok key" using numbers_key_ok [OF _ key] assms(4) p by (simp add: transact_numbers_ok_def)
  have pl: "action_place sv a = Some (tp_table p, abstract_key key)" using p t key by (simp add: action_place_def)
  have old: "item_before sv (tp_table p, abstract_key key) = get_item key (dt_storage t)"
    using table_map_get [OF assms(1) t ok] t by (simp add: item_before_def)
  have "\<exists>is_put. transact_reason sv p is_put = Inr (Reason_None, x)"
    using assms(2) p transact_key_count [OF assms(3)]
    by (auto simp: evaluate_transact_write_condition_def transact_part_of_def action_count_def split: option.splits if_splits)
  then show ?thesis
    unfolding action_holds_def using p pl old reason_holds [OF _ _ t key] by metis
qed

section \<open>All at once\<close>

definition same_data :: "dynamo_service \<Rightarrow> dynamo_service \<Rightarrow> bool" where
  "same_data sv sv' \<longleftrightarrow> dv_tables sv' = dv_tables sv \<and> dv_streams sv' = dv_streams sv"

text \<open>Every condition holds of the state before, no two actions have one place, and the state after differs at
  the places of the actions only, where it is what they make of the items before.\<close>

definition applied_at_once :: "dynamo_service \<Rightarrow> transact_item list \<Rightarrow> dynamo_service \<Rightarrow> bool" where
  "applied_at_once sv items sv' \<longleftrightarrow>
     (\<forall>a\<in>set items. action_holds sv a) \<and> distinct (map (action_place sv) items) \<and>
     (\<forall>n t. bt_get (dv_tables sv) n = Some t \<longrightarrow> (\<exists>t'. bt_get (dv_tables sv') n = Some t' \<and>
        (\<forall>pl. table_map t' pl =
           (case find (\<lambda>a. action_place sv a = Some (n, pl)) items of
              None \<Rightarrow> table_map t pl
            | Some a \<Rightarrow> action_result a (table_map t pl)))))"

lemma fold_apply_change:
  "distinct (map change_at cs) \<Longrightarrow>
     fold apply_change cs m a = (case find (\<lambda>c. change_at c = a) cs of Some c \<Rightarrow> pc_new c | None \<Rightarrow> m a)"
proof (induction cs arbitrary: m)
  case (Cons c cs)
  have "find (\<lambda>d. change_at d = change_at c) cs = None"
    using Cons.prems by (auto simp: find_None_iff image_iff)
  then show ?case using Cons by (simp add: apply_change_def)
qed simp

definition change_does :: "dynamo_service \<Rightarrow> transact_item \<Rightarrow> prepared_change \<Rightarrow> bool" where
  "change_does sv a c \<longleftrightarrow> action_place sv a = Some (pc_table c, change_at c) \<and>
     (pc_mutate c \<longrightarrow> pc_new c = action_result a (item_before sv (pc_table c, change_at c))) \<and>
     (\<not> pc_mutate c \<longrightarrow> (\<forall>old. action_result a old = old))"

lemma changes_do:
  assumes "list_all2 (change_does sv) items cs" "distinct (map (\<lambda>c. (pc_table c, change_at c)) cs)"
    and "bt_get (dv_tables sv) n = Some t"
  shows "(case find (\<lambda>c. change_at c = pl) (changes_of n cs) of Some c \<Rightarrow> pc_new c | None \<Rightarrow> table_map t pl) =
    (case find (\<lambda>a. action_place sv a = Some (n, pl)) items of
       None \<Rightarrow> table_map t pl | Some a \<Rightarrow> action_result a (table_map t pl))"
  using assms(1,2)
proof (induction rule: list_all2_induct)
  case (Cons a items c cs)
  have c: "change_does sv a c" using Cons.hyps by simp
  have rest: "find (\<lambda>d. change_at d = change_at c) (changes_of (pc_table c) cs) = None"
    using Cons.prems by (auto simp: find_None_iff changes_of_def image_iff)
  show ?case
  proof (cases "pc_table c = n \<and> change_at c = pl")
    case True
    then have "item_before sv (pc_table c, change_at c) = table_map t pl" using assms(3) by (simp add: item_before_def)
    then show ?thesis using True c rest by (auto simp: change_does_def)
  next
    case False
    then show ?thesis using c Cons.IH Cons.prems by (auto simp: change_does_def)
  qed
qed simp

lemma transact_body_applies:
  assumes "service_ok sv" "transact_body env items sv = Inr (out, sv')" "list_all transact_numbers_ok items"
  shows "applied_at_once sv items sv'"
proof -
  obtain cs where cs: "list_all2 (\<lambda>a c. prepare_transaction_change sv a = Inr c) items cs" "changes_ok sv cs"
    and sv': "sv' = commit_prepared env cs sv"
    using transact_changes [OF assms(1,2)] assms(3) by (auto simp: list_all_iff)
  obtain u rs where u: "transact_keys sv [] items = Inr u"
    and rs: "collect_ok (evaluate_transact_write_condition sv) items = Inr rs" "\<forall>r\<in>set rs. fst r = Reason_None"
    using assms(2) by (auto simp: transact_body_def res_bind_Inr_iff split: if_splits)
  obtain ks where ks: "list_all2 (\<lambda>a k. transact_key sv a = Inr k) items ks" using transact_keys_Inr [OF u] by blast
  have a: "(\<exists>k. transact_key sv a = Inr k) \<and> transact_numbers_ok a" if "a \<in> set items" for a
    using list_all2_setE1 [OF ks that] assms(3) that by (metis list_all_iff)
  have "list_all2 (change_does sv) items cs"
    using cs(1)
  proof (rule list.rel_mono_strong)
    fix a c assume ac: "a \<in> set items" "c \<in> set cs" "prepare_transaction_change sv a = Inr c"
    then show "change_does sv a c"
      using prepared_action [OF assms(1) ac(3)] a [OF ac(1)] transact_key_count unfolding change_does_def by blast
  qed
  moreover have d: "distinct (map (\<lambda>c. (pc_table c, change_at c)) cs)" using cs(2) by (simp add: changes_ok_def)
  ultimately have does: "list_all2 (change_does sv) items cs" by simp
  then have "map (action_place sv) items = map Some (map (\<lambda>c. (pc_table c, change_at c)) cs)"
    by (auto simp: list_all2_conv_all_nth change_does_def intro!: nth_equalityI)
  then have dis: "distinct (map (action_place sv) items)"
    using d by (simp only: distinct_map inj_Some list.set_map)
  have holds: "action_holds sv a" if i: "a \<in> set items" for a
  proof -
    obtain r where "r \<in> set rs" "evaluate_transact_write_condition sv a = Inr r"
      using list_all2_setE1 [OF rs(1) [unfolded collect_ok_Inr] i] by metis
    then show ?thesis using action_holdsI [OF assms(1)] rs(2) a [OF i] by (metis prod.collapse)
  qed
  have "table_map (with_changes (changes_of n cs) t) pl =
      (case find (\<lambda>a. action_place sv a = Some (n, pl)) items of
         None \<Rightarrow> table_map t pl | Some a \<Rightarrow> action_result a (table_map t pl))"
    if t: "bt_get (dv_tables sv) n = Some t" for n t pl
    unfolding committed_table(2) [OF assms(1) cs(2) t] fold_apply_change [OF changes_ok_table(2) [OF cs(2) t]]
    by (rule changes_do [OF does d t])
  then show ?thesis
    unfolding applied_at_once_def using holds dis sv' by (auto simp: get_commit_prepared)
qed

section \<open>States with the same tables\<close>

lemma action_cong:
  assumes "dv_tables sv' = dv_tables sv"
  shows "action_place sv' = action_place sv" "action_holds sv' = action_holds sv"
  using assms by (simp_all add: fun_eq_iff action_place_def action_holds_def item_before_def cong: option.case_cong)

lemma applied_cong:
  "dv_tables sv1 = dv_tables sv \<Longrightarrow> dv_tables sv2 = dv_tables sv3 \<Longrightarrow>
     applied_at_once sv1 items sv3 = applied_at_once sv items sv2"
  by (simp add: applied_at_once_def action_cong [of sv1 sv])

end
