(* ===== verification/Dynamo_Service_Properties.thy ===== *)
theory Dynamo_Service_Properties
  imports Dynamo_Runs Streams_Store
begin

text \<open>
  The properties of the DynamoDB service and of its streams: a stream replays its table, a transaction
  is applied whole or not at all and once per token, and a reader gets every record once.
\<close>

section \<open>Streams replay tables\<close>

text \<open>A table with a stream, one item, and a transaction that adds one and removes it.\<close>

definition orders_stream_env :: stream_env where
  "orders_stream_env = \<lparr>sn_now = 0, sn_uuid = ''u'', sn_label = ''l'', sn_region = ''r'', sn_account = ''0''\<rparr>"

definition orders_env :: request_env where
  "orders_env = \<lparr>re_region = ''r'', re_now = 0, re_instant = 0, re_uuid = ''u'', re_stream = (\<lambda>_. orders_stream_env)\<rparr>"

definition orders_create :: create_table_input where
  "orders_create = \<lparr>cti_name = ''tab'', cti_key_elements = [(''id'', Role_Hash)], cti_definitions = [(''id'', Type_S)],
     cti_billing = Some Billing_PayPerRequest, cti_throughput = None, cti_global_indexes = [], cti_local_indexes = [],
     cti_stream = Some \<lparr>ss_enabled = True, ss_view = None\<rparr>, cti_tags = []\<rparr>"

definition orders_put :: put_item_input where
  "orders_put = \<lparr>ci_condition = None, ci_names = [], ci_values = [], ci_expected = [], ci_operator = None,
     ci_failure_return = None, pi_table = ''tab'', pi_item = [(''id'', AvS ''a''), (''n'', AvN ''1'')], pi_return = None\<rparr>"

definition orders_part :: transact_part where
  "orders_part = \<lparr>tp_table = ''tab'', tp_key = [(''id'', AvS ''b'')], tp_condition = None, tp_names = None, tp_values = None, tp_failure_return = None\<rparr>"

definition orders_items :: "transact_item list" where
  "orders_items = [\<lparr>ti_check = None, ti_put = Some orders_part, ti_delete = None, ti_update = None\<rparr>,
     \<lparr>ti_check = None, ti_put = None, ti_delete = Some (orders_part\<lparr>tp_key := [(''id'', AvS ''a'')], tp_condition := Some ''attribute_exists(id)''\<rparr>), ti_update = None\<rparr>]"

definition orders_filled :: dynamo_service where
  "orders_filled = snd (handle_put_item orders_env orders_put (snd (handle_create_table orders_env orders_create new_service)))"

definition orders_after :: dynamo_service where
  "orders_after = snd (handle_transact_write_items (\<lambda>_. []) id orders_env orders_items (Some ''t'') orders_filled)"

definition orders_requests :: "(request_env \<times> dynamo_request) list" where
  "orders_requests = [(orders_env, RqCreateTable orders_create), (orders_env, RqPutItem orders_put)]"

lemma orders_run: "orders_filled = run_service c h orders_requests new_service"
  by (simp add: run_service_def orders_requests_def orders_filled_def)

lemma orders_requests_ok: "\<forall>r\<in>set orders_requests. dynamo_request_ok (snd r)"
  by (simp add: orders_requests_def orders_create_def starts_with_def)

lemma orders_items_ok: "list_all transact_numbers_ok orders_items"
  by code_simp

lemma orders_filled_tokens: "dv_tokens orders_filled = []"
  by code_simp

lemma orders_transacted: "fst (handle_transact_write_items (\<lambda>_. []) id orders_env orders_items (Some ''t'') orders_filled) = Inr ()"
  by code_simp

lemma orders_transaction:
  "handle_transact_write_items (\<lambda>_. []) id orders_env orders_items (Some ''t'') orders_filled = (Inr (), orders_after)"
  using orders_transacted by (simp add: orders_after_def prod_eq_iff)

lemma orders_after_data:
  "map_option (\<lambda>t. (stream_enabled t, stream_view t, ts_data (dt_storage t))) (bt_get (dv_tables orders_after) ''tab'') =
     Some (True, View_NewAndOldImages, [(AvS ''a'', []), (AvS ''b'', [(SkSentinel, [(''id'', AvS ''b'')])])])"
  "map_option (\<lambda>st. map ch_event_name (sh_records (st_shard st))) (bt_get (dv_streams orders_after) ''tab'') =
     Some [''INSERT'', ''INSERT'', ''REMOVE'']"
  by code_simp+

text \<open>C6. A change stream replays its table: after every run of requests, for a table whose stream carries new
  images, the records of the stream, applied in order to an empty map (INSERT and MODIFY store the new image
  at the key of the record, REMOVE deletes it), give the contents of the table, also across updates,
  batches and transactions, refused requests and a reset. The runs are those of \<open>dynamo_request_ok\<close>: no
  key attribute of a created table has a name that begins with \<open>#\<close> (an update can change such a key, see
  \<open>hash_key_not_protected\<close>), the numbers in the keys of DeleteItem and of the actions of transactions
  are numbers (the code does not check them, see \<open>delete_key_not_checked\<close>), and a batch names each table
  once, as a map does. Requests that only read change neither tables nor streams and are left out.\<close>

theorem stream_replays_table:
  assumes "\<forall>r\<in>set rs. dynamo_request_ok (snd r)"
    and "bt_get (dv_tables (run_service canonical hash rs new_service)) n = Some t"
    and "stream_enabled t" "has_new_images (stream_view t)"
  shows "\<exists>st. bt_get (dv_streams (run_service canonical hash rs new_service)) n = Some st \<and>
    replay (dt_key_schema t) (sh_records (st_shard st)) = table_map t"
  using service_okD(2) [OF run_service_ok [OF new_service_ok assms(1)] assms(2,3)] assms(4)
  by (auto simp: table_stream_ok_def)

theorem stream_replays_table_witness:
  "\<exists>t st. bt_get (dv_tables orders_after) ''tab'' = Some t \<and> bt_get (dv_streams orders_after) ''tab'' = Some st \<and>
     length (sh_records (st_shard st)) = 3 \<and> replay (dt_key_schema t) (sh_records (st_shard st)) = table_map t"
proof -
  let ?rs = "orders_requests @ [(orders_env, RqTransactWrite orders_items (Some ''t''))]"
  have sv: "orders_after = run_service (\<lambda>_. []) id ?rs new_service"
    using orders_run [of "\<lambda>_. []" id] by (simp add: run_service_def orders_after_def)
  have rs: "\<forall>r\<in>set ?rs. dynamo_request_ok (snd r)" using orders_requests_ok orders_items_ok by auto
  obtain t where t: "bt_get (dv_tables orders_after) ''tab'' = Some t" "stream_enabled t" "stream_view t = View_NewAndOldImages"
    using orders_after_data(1) by auto
  obtain st where "bt_get (dv_streams orders_after) ''tab'' = Some st" "replay (dt_key_schema t) (sh_records (st_shard st)) = table_map t"
    using stream_replays_table [OF rs, of "\<lambda>_. []" id "''tab''" t] t unfolding sv by (auto simp: has_new_images_def)
  moreover have "length (sh_records (st_shard st)) = 3"
    if "bt_get (dv_streams orders_after) ''tab'' = Some st" for st
    using orders_after_data(2) that by (auto dest: arg_cong [of _ _ length])
  ultimately show ?thesis using t(1) by blast
qed

section \<open>Transactions\<close>

lemma retained_before: "bt_get (bt_retain P m) k = Some v \<Longrightarrow> bt_get m k \<noteq> None"
  by (induction m) (auto simp: bt_retain_def split: if_splits)

lemma retained: "bt_get m k = Some v \<Longrightarrow> P k v \<Longrightarrow> bt_get (bt_retain P m) k = Some v"
  by (induction m) (auto simp: bt_retain_def split: if_splits)

text \<open>C15. Transactions are all or nothing, in every state that such runs reach. A transaction that is refused
  changes no table and no stream. One that succeeds repeats an earlier one with its token and changes
  nothing, or else it is applied at once: the condition of every action holds of the item that its place
  had before, no two actions have one place, and each table holds afterwards what the actions make of the
  items before (a put its item, a delete none, a check the same, an update the item with the expression
  applied), and everywhere else what it held. The numbers in the keys of the actions are numbers.\<close>

theorem transaction_all_or_nothing:
  assumes "\<forall>r\<in>set rs. dynamo_request_ok (snd r)" "list_all transact_numbers_ok items"
    and "sv = run_service canonical hash rs new_service"
    and "handle_transact_write_items canonical hash env items token sv = (r, sv')"
  shows "case r of
      Inl _ \<Rightarrow> same_data sv sv'
    | Inr _ \<Rightarrow> (\<exists>tok. token = Some tok \<and> bt_get (dv_tokens sv) tok \<noteq> None) \<and> same_data sv sv' \<or>
        applied_at_once sv items sv'"
proof -
  have ok: "service_ok sv" using run_service_ok [OF new_service_ok assms(1)] assms(3) by simp
  obtain q sv1 where a: "admit_transaction_token canonical hash env items token sv = (q, sv1)" by force
  have same: "dv_tables sv1 = dv_tables sv" "dv_streams sv1 = dv_streams sv"
    using admit_frame [of canonical hash env items token sv] a by simp_all
  have ok1: "service_ok sv1" using ok service_ok_cong same by blast
  have tok: "bt_get (dv_tokens sv) tok \<noteq> None" if "token = Some tok" "bt_get (dv_tokens sv1) tok \<noteq> None" for tok
    using a that
    by (auto simp: admit_transaction_token_def Let_def dest!: retained_before split: if_splits option.splits)
  let ?body = "\<lambda>sv. case admit_transaction_token canonical hash env items token sv of
       (Inl e, sv) \<Rightarrow> (Inl e, sv)
     | (Inr fingerprint, sv) \<Rightarrow>
         if Option.bind token (bt_get (dv_tokens sv)) \<noteq> None then (Inr (), sv)
         else attempt sv (res_map (\<lambda>(x, sv'). (x, record_token env token fingerprint sv')) (transact_body env items sv))"
  have body: "case fst (?body sv) of
      Inl _ \<Rightarrow> same_data sv (snd (?body sv))
    | Inr _ \<Rightarrow> (\<exists>tok. token = Some tok \<and> bt_get (dv_tokens sv) tok \<noteq> None) \<and> same_data sv (snd (?body sv)) \<or>
        applied_at_once sv items (snd (?body sv))"
  proof (cases q)
    case (Inl e)
    then show ?thesis using a same by (simp add: same_data_def)
  next
    case (Inr fp)
    show ?thesis
    proof (cases "Option.bind token (bt_get (dv_tokens sv1)) \<noteq> None")
      case True
      then show ?thesis using a Inr same tok by (cases token) (auto simp: same_data_def)
    next
      case False
      show ?thesis
      proof (cases "transact_body env items sv1")
        case (Inl e)
        then show ?thesis using a Inr False same \<open>q = Inr fp\<close> by (simp add: attempt_def same_data_def)
      next
        case b: (Inr p)
        obtain sv2 where p: "p = ((), sv2)" by (cases p) simp
        have "applied_at_once sv1 items sv2"
          using transact_body_applies [OF ok1 _ assms(2)] b p by blast
        then have "applied_at_once sv items (record_token env token fp sv2)"
          using applied_cong [of sv1 sv "record_token env token fp sv2" sv2] same by simp
        then show ?thesis using a Inr False b p by (simp add: attempt_def)
      qed
    qed
  qed
  show ?thesis
  proof (cases "dv_open sv")
    case True
    then have "r = fst (?body sv)" "dv_tables sv' = dv_tables (snd (?body sv))" "dv_streams sv' = dv_streams (snd (?body sv))"
      using assms(4) unfolding handle_transact_write_items_def operation_def Let_def by (auto simp: split_beta)
    then show ?thesis
      using body applied_cong [of sv sv sv' "snd (?body sv)"] by (simp add: same_data_def split: sum.splits)
  next
    case False
    then show ?thesis
      using assms(4) by (auto simp: handle_transact_write_items_def operation_def same_data_def)
  qed
qed

theorem transaction_all_or_nothing_witness: "applied_at_once orders_filled orders_items orders_after"
  using transaction_all_or_nothing [OF orders_requests_ok orders_items_ok orders_run orders_transaction] orders_filled_tokens by simp

section \<open>Tokens\<close>

lemma emit_frame [simp]:
  "dv_tokens (emit_change env t old new sv) = dv_tokens sv" "dv_tokens (set_storage n st sv) = dv_tokens sv"
  by (simp_all add: emit_change_def set_storage_def split: option.split)

lemma operation_tokens:
  "dv_tokens (snd (body sv)) = dv_tokens sv \<Longrightarrow> dv_tokens (snd (operation body sv)) = dv_tokens sv"
  by (simp add: operation_def split_beta)

lemma attempt_tokens:
  "(\<And>x sv'. r = Inr (x, sv') \<Longrightarrow> dv_tokens sv' = dv_tokens sv) \<Longrightarrow> dv_tokens (snd (attempt sv r)) = dv_tokens sv"
  by (auto simp: attempt_def split: sum.split)

lemma body_tokens:
  "put_item_body env i sv = Inr (x, sv') \<Longrightarrow> dv_tokens sv' = dv_tokens sv"
  "delete_item_body env d sv = Inr (x, sv') \<Longrightarrow> dv_tokens sv' = dv_tokens sv"
  "update_item_body env u sv = Inr (x, sv') \<Longrightarrow> dv_tokens sv' = dv_tokens sv"
  "batch_write_body env b sv = Inr (y, sv') \<Longrightarrow> dv_tokens sv' = dv_tokens sv"
  "transact_body env ts sv = Inr (y, sv') \<Longrightarrow> dv_tokens sv' = dv_tokens sv"
      apply (auto simp: put_item_body_def res_bind_Inr_iff res_map_Inr) []
     apply (auto simp: delete_item_body_def res_bind_Inr_iff Let_def split_beta) []
    apply (auto simp: update_item_body_def store_update_def res_bind_Inr_iff res_map_Inr Let_def split: if_splits) []
   apply (auto simp: batch_write_body_def res_bind_Inr_iff res_map_Inr) []
  by (auto simp: transact_body_def res_bind_Inr_iff res_map_Inr split: if_splits)

text \<open>A completed token stays while it is young.\<close>

definition token_done :: "string \<Rightarrow> string \<Rightarrow> int \<Rightarrow> dynamo_service \<Rightarrow> bool" where
  "token_done tok fp time sv \<longleftrightarrow> bt_get (dv_tokens sv) tok = Some \<lparr>ct_fingerprint = fp, ct_completed_at = time\<rparr>"

lemma admit_token_done:
  assumes "token_done tok fp time sv" "re_instant env - time < 600000"
  shows "token_done tok fp time (snd (admit_transaction_token canonical hash env items token sv))"
  using assms retained [of "dv_tokens sv" tok _ "\<lambda>_ c. re_instant env - ct_completed_at c < 600000"]
  by (auto simp: admit_transaction_token_def Let_def token_done_def split: option.split)

lemma operation_token_done:
  "token_done tok fp time sv \<Longrightarrow> token_done tok fp time (snd (body sv)) \<Longrightarrow> token_done tok fp time (snd (operation body sv))"
  by (simp add: operation_def split_beta token_done_def)

lemma transact_token_done:
  assumes "token_done tok fp time sv" "re_instant env - time < 600000"
  shows "token_done tok fp time (snd (handle_transact_write_items canonical hash env items token sv))"
  unfolding handle_transact_write_items_def
proof (rule operation_token_done [OF assms(1)])
  obtain q sv1 where a: "admit_transaction_token canonical hash env items token sv = (q, sv1)" by force
  have done1: "token_done tok fp time sv1" using admit_token_done [OF assms, of canonical hash items token] a by simp
  have "token_done tok fp time (snd (attempt sv1 (res_map (\<lambda>(x, sv'). (x, record_token env token fp' sv')) (transact_body env items sv1))))"
    if n: "Option.bind token (bt_get (dv_tokens sv1)) = None" for fp'
  proof (cases "transact_body env items sv1")
    case (Inr p)
    obtain sv2 where p: "p = ((), sv2)" by (cases p) simp
    have "token_done tok fp time sv2" using body_tokens(5) [of env items sv1 "()" sv2] Inr p done1 by (simp add: token_done_def)
    moreover have "token \<noteq> Some tok" using n done1 by (auto simp: token_done_def)
    ultimately show ?thesis
      using Inr p by (auto simp: attempt_def record_token_def token_done_def bt_get_insert split: option.split)
  qed (simp add: attempt_def done1)
  then show "token_done tok fp time (snd (case admit_transaction_token canonical hash env items token sv of
       (Inl e, sv) \<Rightarrow> (Inl e, sv)
     | (Inr fingerprint, sv) \<Rightarrow>
         if Option.bind token (bt_get (dv_tokens sv)) \<noteq> None then (Inr (), sv)
         else attempt sv (res_map (\<lambda>(x, sv'). (x, record_token env token fingerprint sv')) (transact_body env items sv))))"
    using a done1 by (cases q) simp_all
qed

lemma write_tokens:
  "dv_tokens (snd (handle_put_item env i sv)) = dv_tokens sv"
  "dv_tokens (snd (handle_delete_item env d sv)) = dv_tokens sv"
  "dv_tokens (snd (handle_update_item env u sv)) = dv_tokens sv"
  "dv_tokens (snd (handle_batch_write_item env b sv)) = dv_tokens sv"
  unfolding handle_put_item_def handle_delete_item_def handle_update_item_def handle_batch_write_item_def
  by (rule operation_tokens, rule attempt_tokens, erule body_tokens)+

lemma table_tokens:
  "dv_tokens (snd (handle_create_table env c sv)) = dv_tokens sv"
  "dv_tokens (snd (handle_delete_table n sv)) = dv_tokens sv"
  "dv_tokens (snd (handle_tag_resource_table arn tags sv)) = dv_tokens sv"
  "dv_tokens (snd (handle_untag_resource_table arn ks sv)) = dv_tokens sv"
  "dv_tokens (snd (handle_update_time_to_live n a e sv)) = dv_tokens sv"
  "dv_tokens (snd (handle_update_continuous_backups env n r sv)) = dv_tokens sv"
  unfolding handle_create_table_def handle_delete_table_def handle_tag_resource_table_def handle_untag_resource_table_def
    handle_update_time_to_live_def handle_update_continuous_backups_def
  by (rule operation_tokens, rule attempt_tokens,
      force simp: res_bind_Inr_iff res_map_Inr Let_def create_table_def open_stream_def split_beta split: option.splits if_splits)+

lemma service_step_token:
  assumes "token_done tok fp time sv" "re_instant env - time < 600000" "rq \<noteq> RqReset"
  shows "token_done tok fp time (service_step canonical hash (env, rq) sv)"
  using assms transact_token_done
  by (cases rq) (simp_all add: token_done_def write_tokens table_tokens quiesce_service_def)

lemma run_service_token:
  assumes "token_done tok fp time sv" "\<forall>(e, rq)\<in>set rs. re_instant e - time < 600000 \<and> rq \<noteq> RqReset"
  shows "token_done tok fp time (run_service canonical hash rs sv)"
  using assms
proof (induction rs arbitrary: sv)
  case (Cons r rs)
  then show ?case using service_step_token [of tok fp time sv "fst r" "snd r"] by (simp add: run_service_def split_beta)
qed (simp add: run_service_def)

lemma repeated_token:
  assumes "token_done tok (hash (canonical items)) time sv" "re_instant env - time < 600000" "dv_open sv"
    and "tok \<noteq> []" "length tok \<le> 36" "int (length (canonical items)) \<le> 8 * 1024 * 1024"
    and "handle_transact_write_items canonical hash env items (Some tok) sv = (r, sv')"
  shows "r = Inr () \<and> same_data sv sv'"
proof -
  obtain q sv1 where a: "admit_transaction_token canonical hash env items (Some tok) sv = (q, sv1)" by force
  have d: "token_done tok (hash (canonical items)) time sv1"
    using admit_token_done [OF assms(1,2), of canonical hash items "Some tok"] a by simp
  have s: "same_data sv sv1" using admit_frame [of canonical hash env items "Some tok" sv] a by (simp add: same_data_def)
  have "q = Inr (Some (hash (canonical items)))"
    using a d assms(4-6) by (auto simp: admit_transaction_token_def Let_def token_done_def split: option.splits if_splits)
  then show ?thesis
    using assms(3,7) a d s by (auto simp: handle_transact_write_items_def operation_def token_done_def)
qed

lemma first_token:
  assumes "handle_transact_write_items canonical hash env items (Some tok) sv = (Inr (), sv')"
    and "bt_get (dv_tokens sv) tok = None"
  shows "token_done tok (hash (canonical items)) (re_instant env) sv' \<and> tok \<noteq> [] \<and> length tok \<le> 36 \<and>
    int (length (canonical items)) \<le> 8 * 1024 * 1024"
proof -
  obtain q sv1 where a: "admit_transaction_token canonical hash env items (Some tok) sv = (q, sv1)" by force
  have o: "dv_open sv" using assms(1) by (auto simp: handle_transact_write_items_def operation_def split: if_splits)
  have n: "bt_get (dv_tokens sv1) tok = None"
    using a assms(2) by (auto simp: admit_transaction_token_def Let_def dest: retained_before split: if_splits option.splits)
  have q: "q = Inr (Some (hash (canonical items)))" and l: "tok \<noteq> [] \<and> length tok \<le> 36 \<and> int (length (canonical items)) \<le> 8 * 1024 * 1024"
    using a assms(1) n o
    by (auto simp: admit_transaction_token_def handle_transact_write_items_def operation_def Let_def split: if_splits option.splits)
  show ?thesis
    using assms(1) a q n o l
    by (auto simp: handle_transact_write_items_def operation_def attempt_def record_token_def token_done_def bt_get_insert
        res_map_Inr split: sum.splits)
qed

text \<open>C24. A transaction that was applied with a new token is not applied again: the same request with this token
  is answered with success and changes no table and no stream, whatever was requested in between, if
  everything happens within ten minutes of the first (by the monotonic clock, in milliseconds), the service
  was not reset, and it still admits requests.\<close>

theorem token_applies_once:
  assumes "handle_transact_write_items canonical hash env items (Some tok) sv = (Inr (), sv1)"
    and "bt_get (dv_tokens sv) tok = None"
    and "\<forall>(e, rq)\<in>set rs. re_instant e - re_instant env < 600000 \<and> rq \<noteq> RqReset"
    and "re_instant env' - re_instant env < 600000"
    and "sv2 = run_service canonical hash rs sv1" "dv_open sv2"
    and "handle_transact_write_items canonical hash env' items (Some tok) sv2 = (r, sv3)"
  shows "r = Inr () \<and> same_data sv2 sv3"
proof -
  note f = first_token [OF assms(1,2)]
  then have "token_done tok (hash (canonical items)) (re_instant env) sv2"
    using run_service_token [OF _ assms(3)] assms(5) by blast
  then show ?thesis using repeated_token [OF _ assms(4,6) _ _ _ assms(7)] f by blast
qed

theorem token_applies_once_witness:
  "\<exists>sv. handle_transact_write_items (\<lambda>_. []) id orders_env orders_items (Some ''t'')
      (service_step (\<lambda>_. []) id (orders_env, RqPutItem orders_put) orders_after) = (Inr (), sv) \<and>
    same_data (service_step (\<lambda>_. []) id (orders_env, RqPutItem orders_put) orders_after) sv"
proof -
  let ?sv = "service_step (\<lambda>_. []) id (orders_env, RqPutItem orders_put) orders_after"
  have r: "?sv = run_service (\<lambda>_. []) id [(orders_env, RqPutItem orders_put)] orders_after" by (simp add: run_service_def)
  have o: "dv_open ?sv" by code_simp
  have n: "bt_get (dv_tokens orders_filled) ''t'' = None" by (simp add: orders_filled_tokens)
  have e: "\<forall>(e, rq)\<in>set [(orders_env, RqPutItem orders_put)]. re_instant e - re_instant orders_env < 600000 \<and> rq \<noteq> RqReset"
    by simp
  obtain r' sv3 where h: "handle_transact_write_items (\<lambda>_. []) id orders_env orders_items (Some ''t'') ?sv = (r', sv3)" by force
  have "r' = Inr () \<and> same_data ?sv sv3"
    by (rule token_applies_once [OF orders_transaction n e _ r o h]) simp
  then show ?thesis using h by blast
qed

section \<open>Readers\<close>

text \<open>C36. A reader who starts at the trim horizon of an enabled stream and follows the iterators, while changes
  are appended to this stream and to others, in any order with its reads and with any page sizes, has after
  as many further pages as the stream has records every record once and in order. The ARN and the
  shard identifier have no bar, and the stream has fewer than \<open>2 ^ 64\<close> records.\<close>

theorem reader_gets_every_record:
  assumes "at_arn arn s st" "CHR ''|'' \<notin> set arn" "CHR ''|'' \<notin> set (sh_id (st_shard st))"
    and "handle_get_stream_iterator arn (sh_id (st_shard st)) It_TrimHorizon None s = Inr token"
    and "r = fold reader_step moves \<lparr>rd_store = s, rd_token = Some token, rd_got = []\<rparr>"
    and "stream_length arn (rd_store r) < 2 ^ 64" "stream_length arn (rd_store r) \<le> length limits"
  shows "\<exists>st'. get_stream_by_arn arn (rd_store r) = Some st' \<and>
    rd_got (fold reader_step (map Read_Page limits) r) = sh_records (st_shard st')"
proof -
  let ?r0 = "\<lparr>rd_store = s, rd_token = Some token, rd_got = []\<rparr>" and ?sid = "sh_id (st_shard st)"
  have "token = encode_stream_iterator arn ?sid 0"
    using assms(1,4) by (simp add: handle_get_stream_iterator_def at_arn_def ok_or_def Let_def)
  then have "reader_ok arn ?sid ?r0 st" using assms(1) by (simp add: reader_ok_def)
  then obtain st' where ok: "reader_ok arn ?sid r st'"
    using reader_run_ok [OF assms(2,3)] assms(5,6) by blast
  then have l: "length (sh_records (st_shard st')) = stream_length arn (rd_store r)"
    and g: "get_stream_by_arn arn (rd_store r) = Some st'"
    by (auto simp: stream_length_def reader_ok_def at_arn_def)
  have "length (sh_records (st_shard st')) < 2 ^ 64" using assms(6) unfolding l .
  moreover have "length (sh_records (st_shard st')) \<le> length limits" using assms(7) unfolding l .
  ultimately show ?thesis using reader_catches_up_from [OF assms(2,3) ok] g by blast
qed

definition orders_arn :: string where
  "orders_arn = ''arn:aws:dynamodb:r:0:table/tab/stream/l''"

definition orders_event :: change_event where
  "orders_event = \<lparr>ce_table = ''tab'', ce_name = Change_Remove, ce_keys = [(''id'', AvS ''a'')], ce_old = None, ce_new = None,
     ce_size = 0\<rparr>"

definition orders_reader :: reader where
  "orders_reader = fold reader_step [Read_Page (Some 1), Append orders_stream_env orders_event]
     \<lparr>rd_store = dv_streams orders_filled, rd_token = Some (encode_stream_iterator orders_arn ''shardId-u'' 0), rd_got = []\<rparr>"

lemma orders_reader_at:
  "\<exists>st. at_arn orders_arn (dv_streams orders_filled) st \<and> sh_id (st_shard st) = ''shardId-u''"
proof -
  have "map_option (\<lambda>st. (st_arn st, st_enabled st, sh_id (st_shard st))) (get_stream_by_arn orders_arn (dv_streams orders_filled)) =
      Some (orders_arn, True, ''shardId-u'')" "bt_wf (dv_streams orders_filled)"
    by code_simp+
  then show ?thesis by (auto simp: at_arn_def)
qed

lemma reader_page_store: "rd_store (reader_step (Read_Page limit) r) = rd_store r"
  by (simp split: option.splits sum.splits)

lemma orders_reader_store:
  "rd_store orders_reader =
     rd_store (reader_step (Append orders_stream_env orders_event) \<lparr>rd_store = dv_streams orders_filled, rd_token = None, rd_got = []\<rparr>)"
  unfolding orders_reader_def by (simp add: reader_page_store del: reader_step.simps(2))

lemma orders_reader_length: "stream_length orders_arn (rd_store orders_reader) = 2"
  unfolding orders_reader_store by code_simp

theorem reader_gets_every_record_witness:
  "\<exists>st. get_stream_by_arn orders_arn (rd_store orders_reader) = Some st \<and>
     rd_got (fold reader_step (map Read_Page [None, None]) orders_reader) = sh_records (st_shard st)"
proof -
  obtain st where st: "at_arn orders_arn (dv_streams orders_filled) st" and sid: "sh_id (st_shard st) = ''shardId-u''"
    using orders_reader_at by blast
  have bars: "CHR ''|'' \<notin> set orders_arn" "CHR ''|'' \<notin> set (sh_id (st_shard st))" unfolding sid by (simp_all add: orders_arn_def)
  have tok: "handle_get_stream_iterator orders_arn (sh_id (st_shard st)) It_TrimHorizon None (dv_streams orders_filled) =
      Inr (encode_stream_iterator orders_arn ''shardId-u'' 0)"
    using st sid by (simp add: handle_get_stream_iterator_def at_arn_def ok_or_def Let_def)
  have short: "stream_length orders_arn (rd_store orders_reader) < 2 ^ 64" unfolding orders_reader_length by simp
  have enough: "stream_length orders_arn (rd_store orders_reader) \<le> length [None, None]" unfolding orders_reader_length by simp
  show ?thesis
    by (rule reader_gets_every_record [OF st bars tok orders_reader_def short enough])
qed

section \<open>Findings\<close>

text \<open>An iterator past the end is not refused: the range is inverted, and the request panics.\<close>

lemma position_past_end_panics:
  "handle_get_stream_records (encode_stream_iterator orders_arn ''shardId-u'' 5) None (dv_streams orders_filled) = None"
proof -
  have d: "decode_stream_iterator (encode_stream_iterator orders_arn ''shardId-u'' 5) = Inr (orders_arn, ''shardId-u'', 5)"
    by (rule decode_encode) (simp_all add: orders_arn_def)
  have "map_option (\<lambda>st. (sh_id (st_shard st), length (sh_records (st_shard st)))) (get_stream_by_arn orders_arn (dv_streams orders_filled)) =
      Some (''shardId-u'', 1)"
    by code_simp
  then show ?thesis by (auto simp: handle_get_stream_records_def d)
qed

text \<open>One request that panics closes the service: here a condition that lacks an argument, then a read.\<close>

lemma panic_closes_service:
  "fst (handle_put_item orders_env (orders_put\<lparr>ci_condition := Some ''begins_with(id)''\<rparr>) orders_filled) = Inl DE_Panicked"
  "fst (handle_list_tables None None
     (snd (handle_put_item orders_env (orders_put\<lparr>ci_condition := Some ''begins_with(id)''\<rparr>) orders_filled))) = Inl DE_RequestLimitExceeded"
  by code_simp+

text \<open>The numbers in the key of DeleteItem are not checked, and letters in one are skipped.\<close>

lemma delete_key_not_checked:
  "sk_cmp (SkN ''5x'') (SkN ''5'') = OrdEqual" "\<not> validate_number_string ''5x''"
  by code_simp+

text \<open>Equal numbers are one sort key and two partition keys.\<close>

lemma equal_numbers_two_partitions:
  "primary_key_eq \<lparr>pk_partition_key = AvS ''a'', pk_sort_key = Some (SkN ''1'')\<rparr> \<lparr>pk_partition_key = AvS ''a'', pk_sort_key = Some (SkN ''1.0'')\<rparr>"
  "\<not> primary_key_eq \<lparr>pk_partition_key = AvN ''1'', pk_sort_key = None\<rparr> \<lparr>pk_partition_key = AvN ''1.0'', pk_sort_key = None\<rparr>"
  by code_simp+

text \<open>An update that only removes is taken for one that sets when an attribute name ends in \<open>set\<close>.\<close>

lemma remove_taken_for_set: "\<not> is_subtractive_only (Some ''REMOVE dataset , b'')" "is_subtractive_only (Some ''REMOVE a , b'')"
  by code_simp+

text \<open>An attribute name that is not an identifier cannot be asked for with \<^verbatim>\<open>AttributesToGet\<close>.\<close>

lemma attributes_to_get_rejects_dash: "\<not> is_ok (projection_paths (Some (convert_attributes_to_get [''my-attr''])))"
  by code_simp

text \<open>Reset drops the tables and keeps their streams.\<close>

lemma reset_keeps_streams:
  "dv_tables (reset_service orders_filled) = []" "list_table_streams None (dv_streams (reset_service orders_filled)) \<noteq> []"
  by code_simp+

text \<open>A put that fails its condition in a transaction returns its key attributes unasked; a delete does not.\<close>

lemma failed_put_returns_keys:
  "evaluate_transact_write_condition orders_filled
     \<lparr>ti_check = None, ti_put = Some (orders_part\<lparr>tp_condition := Some ''attribute_exists(id)''\<rparr>), ti_delete = None, ti_update = None\<rparr> =
     Inr (Reason_ConditionalCheckFailed, Some [(''id'', AvS ''b'')])"
  "evaluate_transact_write_condition orders_filled
     \<lparr>ti_check = None, ti_put = None, ti_delete = Some (orders_part\<lparr>tp_condition := Some ''attribute_exists(id)''\<rparr>), ti_update = None\<rparr> =
     Inr (Reason_ConditionalCheckFailed, None)"
  by code_simp+

text \<open>A key attribute whose name starts with \<open>#\<close> is not protected from updates.\<close>

lemma hash_key_not_protected:
  "validate_update_paths \<lparr>ue_set_actions = [\<lparr>sa_path = [PathAttr ''#id''], sa_value = SvOperand (OpValue ''v'')\<rparr>],
      ue_remove_paths = [], ue_add_actions = [], ue_delete_actions = []\<rparr>
     \<lparr>ks_partition_key = \<lparr>ka_name = ''#id'', ka_type = ScalarS\<rparr>, ks_sort_key = None\<rparr> []"
  "set_path_value [] [PathAttr ''#id''] (AvS ''y'') [(''#id'', AvS ''x'')] = Inr [(''#id'', AvS ''y'')]"
  by code_simp+

end
