(* ===== verification/Kinesis_Shard.thy ===== *)
theory Kinesis_Shard
  imports Rust_Text
begin

text \<open>
  A Kinesis shard (\<^verbatim>\<open>shard/hash.rs\<close>, \<^verbatim>\<open>shard/sequence.rs\<close>, \<^verbatim>\<open>shard/iterator.rs\<close>, \<^verbatim>\<open>shard/storage.rs\<close>,
  \<^verbatim>\<open>shard/actor.rs\<close>). Hash keys are 128-bit numbers, sequence numbers 128-bit words with a 64-bit
  counter in the low half. Times are nanoseconds since the epoch. An actor handles one command at a
  time; what it answers is the first component of its step.
\<close>

section \<open>Hash keys\<close>

definition hash_key_max :: nat where
  "hash_key_max = 2 ^ 128 - 1"

record hash_range =
  hr_start :: nat
  hr_end :: nat

definition range_contains :: "hash_range \<Rightarrow> nat \<Rightarrow> bool" where
  "range_contains r k \<longleftrightarrow> hr_start r \<le> k \<and> k \<le> hr_end r"

definition even_range :: "nat \<Rightarrow> nat \<Rightarrow> hash_range" where
  "even_range n i =
     \<lparr>hr_start = (if i = 0 then 0 else (hash_key_max div n) * i + i),
      hr_end = (if i = n - 1 then hash_key_max else (hash_key_max div n) * (i + 1) + (i + 1) - 1)\<rparr>"

definition divide_evenly :: "nat \<Rightarrow> hash_range list" where
  "divide_evenly n =
     (if n = 0 then []
      else if n = 1 then [\<lparr>hr_start = 0, hr_end = hash_key_max\<rparr>]
      else map (even_range n) [0..<n])"

text \<open>\<open>digest\<close> is MD5 as a big-endian 128-bit number.\<close>

definition from_partition_key :: "(string \<Rightarrow> nat) \<Rightarrow> string \<Rightarrow> nat" where
  "from_partition_key digest pk = digest pk mod 2 ^ 128"

definition from_decimal_str :: "string \<Rightarrow> nat option" where
  "from_decimal_str s = parse_uint 128 s"

section \<open>Sequence numbers\<close>

type_synonym sequence_number = "128 word"

definition to_padded_string :: "sequence_number \<Rightarrow> string" where
  "to_padded_string s = show_padded 56 (unat s)"

definition parse_sequence_number :: "string \<Rightarrow> sequence_number option" where
  "parse_sequence_number s = map_option of_nat (parse_uint 128 s)"

record seq_generator =
  sg_prefix :: "128 word"
  sg_counter :: "64 word"

definition new_generator :: "nat \<Rightarrow> nat \<Rightarrow> seq_generator" where
  "new_generator shard_index creation_millis =
     \<lparr>sg_prefix = push_bit 64 (ucast (or (push_bit 16 (of_nat creation_millis)) (of_nat shard_index) :: 64 word)),
      sg_counter = 0\<rparr>"

definition next_sequence :: "seq_generator \<Rightarrow> sequence_number \<times> seq_generator" where
  "next_sequence g = (or (sg_prefix g) (ucast (sg_counter g)), g\<lparr>sg_counter := sg_counter g + 1\<rparr>)"

definition starting_sequence_number :: "seq_generator \<Rightarrow> sequence_number" where
  "starting_sequence_number g = sg_prefix g"

section \<open>Iterator tokens\<close>

record iterator_token =
  it_stream_name :: string
  it_shard_id :: string
  it_position :: nat
  it_nonce :: string

definition encode_iterator :: "(string \<Rightarrow> string) \<Rightarrow> iterator_token \<Rightarrow> string" where
  "encode_iterator b64 t =
     b64 (it_stream_name t @ '':'' @ it_shard_id t @ '':'' @ show_nat (it_position t) @ '':'' @ it_nonce t)"

definition decode_iterator :: "(string \<Rightarrow> string option) \<Rightarrow> string \<Rightarrow> iterator_token option" where
  "decode_iterator unb64 encoded =
     Option.bind (unb64 encoded) (\<lambda>bytes.
     Option.bind (from_utf8 bytes) (\<lambda>decoded.
       case splitn 4 (CHR '':'') decoded of
         [name, shard, pos, nonce] \<Rightarrow>
           map_option (\<lambda>p. \<lparr>it_stream_name = name, it_shard_id = shard, it_position = p, it_nonce = nonce\<rparr>)
             (parse_uint 64 pos)
       | _ \<Rightarrow> None))"

section \<open>The record log\<close>

record stored_record =
  sr_sequence_number :: sequence_number
  sr_data :: string
  sr_partition_key :: string
  sr_explicit_hash_key :: "string option"
  sr_arrival :: int
  sr_encryption_type :: "string option"

record record_log =
  rl_records :: "stored_record list"
  rl_trim_offset :: nat
  rl_retention_secs :: nat

definition new_log :: "nat \<Rightarrow> record_log" where
  "new_log retention = \<lparr>rl_records = [], rl_trim_offset = 0, rl_retention_secs = retention\<rparr>"

definition append_record :: "stored_record \<Rightarrow> record_log \<Rightarrow> record_log" where
  "append_record r l = l\<lparr>rl_records := rl_records l @ [r]\<rparr>"

definition latest_position :: "record_log \<Rightarrow> nat" where
  "latest_position l = rl_trim_offset l + length (rl_records l)"

definition log_get_records :: "nat \<Rightarrow> nat \<Rightarrow> record_log \<Rightarrow> stored_record list \<times> nat" where
  "log_get_records position limit l =
     (let start = position - rl_trim_offset l
      in if length (rl_records l) \<le> start then ([], latest_position l)
         else let finish = min (start + limit) (length (rl_records l))
              in (take (finish - start) (drop start (rl_records l)), rl_trim_offset l + finish))"

text \<open>The first position whose record satisfies a test, or the position after the last record.\<close>

fun first_index :: "('a \<Rightarrow> bool) \<Rightarrow> 'a list \<Rightarrow> nat" where
  "first_index P [] = 0"
| "first_index P (x # xs) = (if P x then 0 else Suc (first_index P xs))"

definition position_at_sequence_number :: "sequence_number \<Rightarrow> record_log \<Rightarrow> nat" where
  "position_at_sequence_number q l =
     rl_trim_offset l + first_index (\<lambda>r. q \<le> sr_sequence_number r) (rl_records l)"

definition position_after_sequence_number :: "sequence_number \<Rightarrow> record_log \<Rightarrow> nat" where
  "position_after_sequence_number q l =
     rl_trim_offset l + first_index (\<lambda>r. q < sr_sequence_number r) (rl_records l)"

definition position_at_timestamp :: "int \<Rightarrow> record_log \<Rightarrow> nat" where
  "position_at_timestamp ts l = rl_trim_offset l + first_index (\<lambda>r. ts \<le> sr_arrival r) (rl_records l)"

definition trim_horizon_position :: "record_log \<Rightarrow> nat" where
  "trim_horizon_position l = rl_trim_offset l"

definition nanos_per_second :: int where
  "nanos_per_second = 1000000000"

definition trim_expired :: "int \<Rightarrow> record_log \<Rightarrow> record_log" where
  "trim_expired now l =
     (let cutoff = now - int (rl_retention_secs l) * nanos_per_second;
          n = length (takeWhile (\<lambda>r. sr_arrival r < cutoff) (rl_records l))
      in if n > 0 then l\<lparr>rl_records := drop n (rl_records l), rl_trim_offset := rl_trim_offset l + n\<rparr> else l)"

definition last_sequence_number :: "record_log \<Rightarrow> string option" where
  "last_sequence_number l =
     (if rl_records l = [] then None else Some (to_padded_string (sr_sequence_number (last (rl_records l)))))"

section \<open>The actor\<close>

datatype iterator_request =
    TrimHorizon
  | Latest
  | AtSequenceNumber string
  | AfterSequenceNumber string
  | AtTimestamp int

datatype shard_command =
    ShPut string string "string option"
  | ShGetRecords nat nat
  | ShGetIterator iterator_request
  | ShClose
  | ShShutdown

datatype shard_error = ShardIsClosed | InvalidSequenceNumber

datatype shard_reply =
    RepPut "shard_error + string \<times> string"
  | RepRecords "stored_record list" nat int
  | RepPosition "shard_error + nat"
  | RepClosed "string option"
  | RepDone

record shard_actor =
  sa_shard_id :: string
  sa_log :: record_log
  sa_seq_gen :: seq_generator
  sa_closed :: bool

definition millis_behind :: "int \<Rightarrow> stored_record list \<Rightarrow> nat \<Rightarrow> record_log \<Rightarrow> int" where
  "millis_behind now records next_pos l =
     (if records = [] \<or> latest_position l \<le> next_pos then 0
      else max 0 ((now - sr_arrival (last records)) div 1000000))"

definition actor_put :: "int \<Rightarrow> string \<Rightarrow> string \<Rightarrow> string option \<Rightarrow> shard_actor \<Rightarrow>
    (shard_error + string \<times> string) \<times> shard_actor" where
  "actor_put now data pk ehk a =
     (if sa_closed a then (Inl ShardIsClosed, a)
      else let (q, g) = next_sequence (sa_seq_gen a);
               r = \<lparr>sr_sequence_number = q, sr_data = data, sr_partition_key = pk, sr_explicit_hash_key = ehk,
                    sr_arrival = now, sr_encryption_type = None\<rparr>
           in (Inr (to_padded_string q, sa_shard_id a),
               a\<lparr>sa_log := append_record r (sa_log a), sa_seq_gen := g\<rparr>))"

fun iterator_position :: "iterator_request \<Rightarrow> record_log \<Rightarrow> shard_error + nat" where
  "iterator_position TrimHorizon l = Inr (trim_horizon_position l)"
| "iterator_position Latest l = Inr (latest_position l)"
| "iterator_position (AtSequenceNumber s) l =
     (case parse_sequence_number s of
        None \<Rightarrow> Inl InvalidSequenceNumber | Some q \<Rightarrow> Inr (position_at_sequence_number q l))"
| "iterator_position (AfterSequenceNumber s) l =
     (case parse_sequence_number s of
        None \<Rightarrow> Inl InvalidSequenceNumber | Some q \<Rightarrow> Inr (position_after_sequence_number q l))"
| "iterator_position (AtTimestamp ts) l = Inr (position_at_timestamp ts l)"

text \<open>\<^verbatim>\<open>handle_command\<close>: the reply, the actor, and whether it stops.\<close>

fun shard_handle_command :: "int \<Rightarrow> shard_command \<Rightarrow> shard_actor \<Rightarrow> shard_reply \<times> shard_actor \<times> bool" where
  "shard_handle_command now (ShPut data pk ehk) a =
     (let (r, a') = actor_put now data pk ehk a in (RepPut r, a', False))"
| "shard_handle_command now (ShGetRecords position limit) a =
     (let (records, next_pos) = log_get_records position limit (sa_log a)
      in (RepRecords records next_pos (millis_behind now records next_pos (sa_log a)), a, False))"
| "shard_handle_command now (ShGetIterator req) a = (RepPosition (iterator_position req (sa_log a)), a, False)"
| "shard_handle_command now ShClose a =
     (RepClosed (last_sequence_number (sa_log a)), a\<lparr>sa_closed := True\<rparr>, False)"
| "shard_handle_command now ShShutdown a = (RepDone, a\<lparr>sa_closed := True\<rparr>, True)"

text \<open>The event loop: commands and the ticks of the clean-up interval.\<close>

datatype shard_event = ShCommand shard_command | ShTick

fun shard_step :: "int \<times> shard_event \<Rightarrow> shard_actor \<Rightarrow> shard_reply option \<times> shard_actor \<times> bool" where
  "shard_step (now, ShCommand c) a = (let (r, a', stop) = shard_handle_command now c a in (Some r, a', stop))"
| "shard_step (now, ShTick) a = (None, a\<lparr>sa_log := trim_expired now (sa_log a)\<rparr>, False)"

fun run_shard :: "(int \<times> shard_event) list \<Rightarrow> shard_actor \<Rightarrow> shard_reply option list \<times> shard_actor" where
  "run_shard [] a = ([], a)"
| "run_shard (e # es) a =
     (let (r, a', stop) = shard_step e a
      in if stop then ([r], a') else (let (rs, a'') = run_shard es a' in (r # rs, a'')))"

text \<open>What the provider keeps of a shard.\<close>

record shard_info =
  si_shard_id :: string
  si_starting_hash_key :: string
  si_ending_hash_key :: string
  si_starting_sequence_number :: string
  si_ending_sequence_number :: "string option"
  si_parent_shard_id :: "string option"
  si_adjacent_parent_shard_id :: "string option"

record shard_handle =
  sh_info :: shard_info
  sh_actor :: shard_actor

definition spawn_shard ::
    "string \<Rightarrow> nat \<Rightarrow> hash_range \<Rightarrow> nat \<Rightarrow> nat \<Rightarrow> string option \<Rightarrow> string option \<Rightarrow> shard_handle" where
  "spawn_shard shard_id shard_index r retention creation_millis parent adjacent =
     (let g = new_generator shard_index creation_millis
      in \<lparr>sh_info = \<lparr>si_shard_id = shard_id,
             si_starting_hash_key = show_nat (hr_start r), si_ending_hash_key = show_nat (hr_end r),
             si_starting_sequence_number = to_padded_string (starting_sequence_number g),
             si_ending_sequence_number = None, si_parent_shard_id = parent, si_adjacent_parent_shard_id = adjacent\<rparr>,
           sh_actor = \<lparr>sa_shard_id = shard_id, sa_log = new_log retention, sa_seq_gen = g, sa_closed = False\<rparr>\<rparr>)"

end
