(* ===== verification/Kinesis_Stream.thy ===== *)
theory Kinesis_Stream
  imports Kinesis_Shard
begin

text \<open>
  The Kinesis provider (\<^verbatim>\<open>provider.rs\<close>): streams by name, each with its open shards, the shards closed by a
  split or merge, which stay readable, and the history of all shards. A request sees the actors
  through their replies; a sequence of requests here is one in which each waits for its reply.
  What a request reads from outside (the clock, random identifiers, MD5, base64, the settings) is the
  record \<open>kinesis_env\<close>.
\<close>

section \<open>State\<close>

datatype stream_status = StActive | StCreating | StDeleting | StUpdating
datatype stream_mode = OnDemand | Provisioned
datatype encryption_type = EncKms | EncNone
datatype consumer_status = ConActive | ConCreating | ConDeleting

datatype kinesis_error = ResourceNotFound | InvalidArgument | ResourceInUse | KinesisInternal | KinesisNotImplemented

record consumer_state =
  cs_name :: string
  cs_arn :: string
  cs_creation :: int
  cs_status :: consumer_status

text \<open>The next shard index is a \<^verbatim>\<open>u32\<close> in the code; here it does not wrap.\<close>

record stream_state =
  ks_name :: string
  ks_arn :: string
  ks_status :: stream_status
  ks_mode :: stream_mode
  ks_retention_secs :: nat
  ks_creation :: int
  ks_shards :: "shard_info list"
  ks_active :: "shard_handle list"
  ks_closed :: "shard_handle list"
  ks_tags :: "(string, string) btree"
  ks_encryption :: "encryption_type option"
  ks_key_id :: "string option"
  ks_consumers :: "(string, consumer_state) btree"
  ks_policy :: "string option"
  ks_next_index :: nat

type_synonym kinesis = "(string, stream_state) btree"

record kinesis_env =
  ke_now :: int
  ke_uuid :: string
  ke_md5 :: "string \<Rightarrow> nat"
  ke_b64_enc :: "string \<Rightarrow> string"
  ke_b64_dec :: "string \<Rightarrow> string option"
  ke_region :: string
  ke_account :: string
  ke_default_shards :: nat
  ke_default_hours :: nat

section \<open>Helpers\<close>

definition i32_to_usize :: "int \<Rightarrow> nat" where
  "i32_to_usize v = nat (max v 0)"

definition usize_to_i32 :: "nat \<Rightarrow> int" where
  "usize_to_i32 v = int (min v (2 ^ 31 - 1))"

definition now_epoch_millis :: "kinesis_env \<Rightarrow> nat" where
  "now_epoch_millis env = nat ((ke_now env div 1000000) mod 2 ^ 64)"

definition stream_name_from_arn :: "string \<Rightarrow> string" where
  "stream_name_from_arn arn = last (split_on (CHR ''/'') arn)"

definition resolve_stream_name :: "string option \<Rightarrow> string option \<Rightarrow> kinesis_error + string" where
  "resolve_stream_name name arn =
     (case name of
        Some n \<Rightarrow> Inr n
      | None \<Rightarrow> (case arn of Some a \<Rightarrow> Inr (stream_name_from_arn a) | None \<Rightarrow> Inl InvalidArgument))"

definition get_stream :: "kinesis \<Rightarrow> string \<Rightarrow> kinesis_error + stream_state" where
  "get_stream k name = ok_or ResourceNotFound (bt_get k name)"

definition find_shard_handle_any :: "stream_state \<Rightarrow> string \<Rightarrow> shard_handle option" where
  "find_shard_handle_any s shard_id =
     List.find (\<lambda>h. si_shard_id (sh_info h) = shard_id) (ks_active s @ ks_closed s)"

definition validate_stream_name :: "string \<Rightarrow> kinesis_error + unit" where
  "validate_stream_name name = (if name = [] \<or> 128 < length name then Inl InvalidArgument else Inr ())"

definition parse_hash_range_from_info :: "shard_info \<Rightarrow> hash_range" where
  "parse_hash_range_from_info i =
     \<lparr>hr_start = unwrap_or 0 (from_decimal_str (si_starting_hash_key i)),
      hr_end = unwrap_or hash_key_max (from_decimal_str (si_ending_hash_key i))\<rparr>"

fun position_of :: "('a \<Rightarrow> bool) \<Rightarrow> 'a list \<Rightarrow> nat option" where
  "position_of P [] = None"
| "position_of P (x # xs) = (if P x then Some 0 else map_option Suc (position_of P xs))"

definition record_hash_key :: "kinesis_env \<Rightarrow> string \<Rightarrow> string option \<Rightarrow> kinesis_error + nat" where
  "record_hash_key env pk ehk =
     (case ehk of
        Some e \<Rightarrow> ok_or InvalidArgument (from_decimal_str e)
      | None \<Rightarrow> Inr (from_partition_key (ke_md5 env) pk))"

definition route_to_shard :: "kinesis_env \<Rightarrow> shard_handle list \<Rightarrow> string \<Rightarrow> string option \<Rightarrow> kinesis_error + nat" where
  "route_to_shard env active pk ehk =
     (if active = [] then Inl ResourceNotFound
      else res_map (\<lambda>key. unwrap_or 0
               (position_of (\<lambda>h. range_contains (parse_hash_range_from_info (sh_info h)) key) active))
             (record_hash_key env pk ehk))"

definition format_shard_id :: "nat \<Rightarrow> string" where
  "format_shard_id i = ''shardId-'' @ show_padded 12 i"

definition stream_arn :: "kinesis_env \<Rightarrow> string \<Rightarrow> string" where
  "stream_arn env name = ''arn:aws:kinesis:'' @ ke_region env @ '':'' @ ke_account env @ '':stream/'' @ name"

definition consumer_arn :: "kinesis_env \<Rightarrow> string \<Rightarrow> string \<Rightarrow> int \<Rightarrow> string" where
  "consumer_arn env stream_name consumer_name timestamp =
     ''arn:aws:kinesis:'' @ ke_region env @ '':'' @ ke_account env @ '':stream/'' @ stream_name @ ''/consumer/'' @
     consumer_name @ '':'' @ show_int timestamp"

definition spawn_child_shard ::
    "hash_range \<Rightarrow> nat \<Rightarrow> string option \<Rightarrow> string option \<Rightarrow> stream_state \<Rightarrow> stream_state" where
  "spawn_child_shard r creation_millis parent adjacent s =
     (let i = ks_next_index s;
          h = spawn_shard (format_shard_id i) (i mod 65536) r (ks_retention_secs s) creation_millis parent adjacent
      in s\<lparr>ks_next_index := i + 1, ks_shards := ks_shards s @ [sh_info h], ks_active := ks_active s @ [h]\<rparr>)"

definition close_shard :: "kinesis_env \<Rightarrow> shard_handle \<Rightarrow> string option \<times> shard_handle" where
  "close_shard env h =
     (case shard_handle_command (ke_now env) ShClose (sh_actor h) of
        (RepClosed q, a, _) \<Rightarrow> (q, h\<lparr>sh_actor := a\<rparr>)
      | (_, a, _) \<Rightarrow> (None, h\<lparr>sh_actor := a\<rparr>))"

fun update_first :: "('a \<Rightarrow> bool) \<Rightarrow> ('a \<Rightarrow> 'a) \<Rightarrow> 'a list \<Rightarrow> 'a list" where
  "update_first P f [] = []"
| "update_first P f (x # xs) = (if P x then f x # xs else x # update_first P f xs)"

definition mark_shard_closed :: "string \<Rightarrow> string option \<Rightarrow> stream_state \<Rightarrow> stream_state" where
  "mark_shard_closed shard_id ending s =
     s\<lparr>ks_shards := update_first (\<lambda>i. si_shard_id i = shard_id)
         (\<lambda>i. i\<lparr>si_ending_sequence_number := Some (unwrap_or (si_starting_sequence_number i) ending)\<rparr>) (ks_shards s)\<rparr>"

text \<open>The stream and the name in a consumer ARN.\<close>

definition parse_consumer_arn :: "string \<Rightarrow> kinesis_error + string \<times> string" where
  "parse_consumer_arn arn =
     (let parts = split_on (CHR ''/'') arn
      in if length parts < 4 then Inl InvalidArgument
         else Inr (parts ! 1, hd (split_on (CHR '':'') (parts ! 3))))"

section \<open>Streams\<close>

record create_stream_input =
  ci_stream_name :: string
  ci_shard_count :: "int option"
  ci_mode :: "stream_mode option"
  ci_tags :: "(string, string) btree"

definition create_stream :: "kinesis_env \<Rightarrow> create_stream_input \<Rightarrow> kinesis \<Rightarrow> kinesis_error + unit \<times> kinesis" where
  "create_stream env input k =
     res_bind (validate_stream_name (ci_stream_name input)) (\<lambda>_.
       if bt_get k (ci_stream_name input) \<noteq> None then Inl ResourceInUse
       else
         let shard_count = (case ci_shard_count input of None \<Rightarrow> ke_default_shards env | Some c \<Rightarrow> i32_to_usize c);
             retention = ke_default_hours env * 3600;
             active = map (\<lambda>(i, r). spawn_shard (format_shard_id i) (i mod 65536) r retention (now_epoch_millis env) None None)
                        (enumerate 0 (divide_evenly shard_count));
             s = \<lparr>ks_name = ci_stream_name input, ks_arn = stream_arn env (ci_stream_name input), ks_status = StActive,
                  ks_mode = unwrap_or Provisioned (ci_mode input), ks_retention_secs = retention,
                  ks_creation = ke_now env, ks_shards = map sh_info active, ks_active = active, ks_closed = [],
                  ks_tags = ci_tags input, ks_encryption = None, ks_key_id = None, ks_consumers = [],
                  ks_policy = None, ks_next_index = shard_count\<rparr>
         in Inr ((), bt_insert (ci_stream_name input) s k))"

definition delete_stream :: "string option \<Rightarrow> string option \<Rightarrow> kinesis \<Rightarrow> kinesis_error + unit \<times> kinesis" where
  "delete_stream name arn k =
     res_bind (resolve_stream_name name arn) (\<lambda>n.
     res_bind (get_stream k n) (\<lambda>_. Inr ((), bt_remove n k)))"

definition page_start :: "('a \<Rightarrow> bool) \<Rightarrow> 'a list \<Rightarrow> nat" where
  "page_start P xs = (case position_of P xs of None \<Rightarrow> 0 | Some i \<Rightarrow> i + 1)"

definition page_after :: "nat \<Rightarrow> nat \<Rightarrow> 'a list \<Rightarrow> 'a list \<times> bool" where
  "page_after start limit xs =
     (let finish = min (start + limit) (length xs)
      in (take (finish - start) (drop start xs), finish < length xs))"

record stream_description =
  sd_stream_name :: string
  sd_arn :: string
  sd_status :: stream_status
  sd_mode :: stream_mode
  sd_creation :: int
  sd_retention_hours :: int
  sd_shards :: "shard_info list"
  sd_has_more :: bool
  sd_encryption :: "encryption_type option"
  sd_key_id :: "string option"

definition describe_stream ::
    "string option \<Rightarrow> string option \<Rightarrow> string option \<Rightarrow> int option \<Rightarrow> kinesis \<Rightarrow> kinesis_error + stream_description" where
  "describe_stream name arn exclusive_start limit k =
     res_bind (resolve_stream_name name arn) (\<lambda>n.
     res_bind (get_stream k n) (\<lambda>s.
       let start = (case exclusive_start of None \<Rightarrow> 0 | Some i \<Rightarrow> page_start (\<lambda>x. si_shard_id x = i) (ks_shards s));
           (page, more) = page_after start (i32_to_usize (unwrap_or 100 limit)) (ks_shards s)
       in Inr \<lparr>sd_stream_name = ks_name s, sd_arn = ks_arn s, sd_status = ks_status s, sd_mode = ks_mode s,
               sd_creation = ks_creation s, sd_retention_hours = usize_to_i32 (ks_retention_secs s div 3600),
               sd_shards = page, sd_has_more = more, sd_encryption = ks_encryption s, sd_key_id = ks_key_id s\<rparr>))"

record stream_summary =
  su_stream_name :: string
  su_arn :: string
  su_status :: stream_status
  su_mode :: stream_mode
  su_creation :: int
  su_retention_hours :: int
  su_open_shards :: int
  su_consumers :: int
  su_encryption :: "encryption_type option"
  su_key_id :: "string option"

definition describe_stream_summary :: "string option \<Rightarrow> string option \<Rightarrow> kinesis \<Rightarrow> kinesis_error + stream_summary" where
  "describe_stream_summary name arn k =
     res_bind (resolve_stream_name name arn) (\<lambda>n.
       res_map (\<lambda>s. \<lparr>su_stream_name = ks_name s, su_arn = ks_arn s, su_status = ks_status s, su_mode = ks_mode s,
           su_creation = ks_creation s, su_retention_hours = usize_to_i32 (ks_retention_secs s div 3600),
           su_open_shards = usize_to_i32 (length (ks_active s)), su_consumers = usize_to_i32 (length (ks_consumers s)),
           su_encryption = ks_encryption s, su_key_id = ks_key_id s\<rparr>) (get_stream k n))"

text \<open>The first name above the start name, or the end.\<close>

definition name_start :: "string option \<Rightarrow> string list \<Rightarrow> nat" where
  "name_start start names =
     (case start of None \<Rightarrow> 0 | Some a \<Rightarrow> unwrap_or (length names) (position_of (\<lambda>n. a < n) names))"

definition list_streams :: "string option \<Rightarrow> int option \<Rightarrow> kinesis \<Rightarrow> string list \<times> bool" where
  "list_streams exclusive_start limit k =
     page_after (name_start exclusive_start (bt_keys k)) (i32_to_usize (unwrap_or 100 limit)) (bt_keys k)"

section \<open>Records\<close>

definition validate_partition_key :: "string \<Rightarrow> kinesis_error + unit" where
  "validate_partition_key pk = (if pk = [] \<or> 256 < length pk then Inl InvalidArgument else Inr ())"

definition validate_data_size :: "string \<Rightarrow> kinesis_error + unit" where
  "validate_data_size data = (if 1048576 < length data then Inl InvalidArgument else Inr ())"

record put_entry =
  pe_data :: string
  pe_partition_key :: string
  pe_explicit_hash_key :: "string option"

text \<open>The put command to the actor of the open shard with an index.\<close>

definition put_to_shard :: "kinesis_env \<Rightarrow> nat \<Rightarrow> put_entry \<Rightarrow> stream_state \<Rightarrow>
    (shard_error + string \<times> string) \<times> stream_state" where
  "put_to_shard env i e s =
     (let h = ks_active s ! i;
          (r, a) = actor_put (ke_now env) (pe_data e) (pe_partition_key e) (pe_explicit_hash_key e) (sh_actor h)
      in (r, s\<lparr>ks_active := (ks_active s)[i := h\<lparr>sh_actor := a\<rparr>]\<rparr>))"

record put_record_output =
  po_sequence_number :: string
  po_shard_id :: string
  po_encryption :: "encryption_type option"

definition put_record :: "kinesis_env \<Rightarrow> string option \<Rightarrow> string option \<Rightarrow> put_entry \<Rightarrow> kinesis \<Rightarrow>
    kinesis_error + put_record_output \<times> kinesis" where
  "put_record env name arn e k =
     res_bind (resolve_stream_name name arn) (\<lambda>n.
     res_bind (validate_partition_key (pe_partition_key e)) (\<lambda>_.
     res_bind (validate_data_size (pe_data e)) (\<lambda>_.
     res_bind (get_stream k n) (\<lambda>s.
     res_bind (route_to_shard env (ks_active s) (pe_partition_key e) (pe_explicit_hash_key e)) (\<lambda>i.
       case put_to_shard env i e s of
         (Inl _, s') \<Rightarrow> Inl KinesisInternal
       | (Inr (q, shard), s') \<Rightarrow>
           Inr (\<lparr>po_sequence_number = q, po_shard_id = shard, po_encryption = ks_encryption s\<rparr>, bt_insert n s' k))))))"

type_synonym put_result = "kinesis_error + string \<times> string"

fun put_entries :: "kinesis_env \<Rightarrow> put_entry list \<Rightarrow> stream_state \<Rightarrow> put_result list \<times> stream_state" where
  "put_entries env [] s = ([], s)"
| "put_entries env (e # es) s =
     (let (r, s') =
        (case route_to_shard env (ks_active s) (pe_partition_key e) (pe_explicit_hash_key e) of
           Inl _ \<Rightarrow> (Inl KinesisInternal, s)
         | Inr i \<Rightarrow>
             (case put_to_shard env i e s of
                (Inl _, s') \<Rightarrow> (Inl KinesisInternal, s')
              | (Inr a, s') \<Rightarrow> (Inr a, s')));
          (rs, s'') = put_entries env es s'
      in (r # rs, s''))"

fun validate_entries :: "put_entry list \<Rightarrow> kinesis_error + unit" where
  "validate_entries [] = Inr ()"
| "validate_entries (e # es) =
     res_bind (validate_partition_key (pe_partition_key e)) (\<lambda>_.
     res_bind (validate_data_size (pe_data e)) (\<lambda>_. validate_entries es))"

definition put_records :: "kinesis_env \<Rightarrow> string option \<Rightarrow> string option \<Rightarrow> put_entry list \<Rightarrow> kinesis \<Rightarrow>
    kinesis_error + (put_result list \<times> nat \<times> encryption_type option) \<times> kinesis" where
  "put_records env name arn es k =
     res_bind (resolve_stream_name name arn) (\<lambda>n.
       if 500 < length es then Inl InvalidArgument
       else
         res_bind (validate_entries es) (\<lambda>_.
           if 5 * 1048576 < sum_list (map (\<lambda>e. length (pe_data e) + length (pe_partition_key e)) es)
           then Inl InvalidArgument
           else
             res_bind (get_stream k n) (\<lambda>s.
               let (rs, s') = put_entries env es s
               in Inr ((rs, length (filter (\<lambda>r. \<not> is_ok r) rs), ks_encryption s), bt_insert n s' k))))"

record get_records_output =
  gr_records :: "stored_record list"
  gr_next_iterator :: string
  gr_millis_behind :: int

definition get_records :: "kinesis_env \<Rightarrow> string \<Rightarrow> int option \<Rightarrow> kinesis \<Rightarrow> kinesis_error + get_records_output" where
  "get_records env iterator limit k =
     res_bind (ok_or InvalidArgument (decode_iterator (ke_b64_dec env) iterator)) (\<lambda>t.
     res_bind (get_stream k (it_stream_name t)) (\<lambda>s.
     res_bind (ok_or ResourceNotFound (find_shard_handle_any s (it_shard_id t))) (\<lambda>h.
       let l = sa_log (sh_actor h);
           (records, next_pos) = log_get_records (it_position t) (i32_to_usize (min (unwrap_or 10000 limit) 10000)) l
       in Inr \<lparr>gr_records = records,
               gr_next_iterator = encode_iterator (ke_b64_enc env)
                 (t\<lparr>it_position := next_pos, it_nonce := ke_uuid env\<rparr>),
               gr_millis_behind = millis_behind (ke_now env) records next_pos l\<rparr>)))"

definition get_shard_iterator ::
    "kinesis_env \<Rightarrow> string option \<Rightarrow> string option \<Rightarrow> string \<Rightarrow> iterator_request \<Rightarrow> kinesis \<Rightarrow> kinesis_error + string" where
  "get_shard_iterator env name arn shard_id req k =
     res_bind (resolve_stream_name name arn) (\<lambda>n.
     res_bind (get_stream k n) (\<lambda>s.
     res_bind (ok_or ResourceNotFound (find_shard_handle_any s shard_id)) (\<lambda>h.
       case iterator_position req (sa_log (sh_actor h)) of
         Inl _ \<Rightarrow> Inl InvalidArgument
       | Inr pos \<Rightarrow>
           Inr (encode_iterator (ke_b64_enc env)
             \<lparr>it_stream_name = n, it_shard_id = shard_id, it_position = pos, it_nonce = ke_uuid env\<rparr>))))"

section \<open>Splitting and merging\<close>

definition remove_nth :: "nat \<Rightarrow> 'a list \<Rightarrow> 'a list" where
  "remove_nth i xs = take i xs @ drop (i + 1) xs"

definition split_stream :: "kinesis_env \<Rightarrow> nat \<Rightarrow> nat \<Rightarrow> stream_state \<Rightarrow> stream_state" where
  "split_stream env parent_idx new_hash s =
     (let parent = ks_active s ! parent_idx;
          r = parse_hash_range_from_info (sh_info parent);
          (ending, closed) = close_shard env parent;
          parent_id = si_shard_id (sh_info parent);
          s1 = mark_shard_closed parent_id ending (s\<lparr>ks_active := remove_nth parent_idx (ks_active s)\<rparr>);
          s2 = s1\<lparr>ks_closed := ks_closed s1 @ [closed]\<rparr>;
          ms = now_epoch_millis env;
          s3 = spawn_child_shard
                 \<lparr>hr_start = hr_start r, hr_end = (if new_hash = 0 then hr_start r else new_hash - 1)\<rparr>
                 ms (Some parent_id) None s2
      in spawn_child_shard \<lparr>hr_start = new_hash, hr_end = hr_end r\<rparr> ms (Some parent_id) None s3)"

definition split_shard :: "kinesis_env \<Rightarrow> string option \<Rightarrow> string option \<Rightarrow> string \<Rightarrow> string \<Rightarrow> kinesis \<Rightarrow>
    kinesis_error + unit \<times> kinesis" where
  "split_shard env name arn shard_to_split new_starting_hash_key k =
     res_bind (resolve_stream_name name arn) (\<lambda>n.
     res_bind (ok_or InvalidArgument (from_decimal_str new_starting_hash_key)) (\<lambda>new_hash.
     res_bind (get_stream k n) (\<lambda>s.
     res_bind (ok_or ResourceNotFound (position_of (\<lambda>h. si_shard_id (sh_info h) = shard_to_split) (ks_active s))) (\<lambda>i.
       let r = parse_hash_range_from_info (sh_info (ks_active s ! i))
       in if new_hash \<le> hr_start r \<or> hr_end r < new_hash then Inl InvalidArgument
          else Inr ((), bt_insert n (split_stream env i new_hash s) k)))))"

definition adjacent_ranges :: "hash_range \<Rightarrow> hash_range \<Rightarrow> bool" where
  "adjacent_ranges r1 r2 \<longleftrightarrow>
     (hr_end r1 + 1 < 2 ^ 128 \<and> hr_end r1 + 1 = hr_start r2) \<or>
     (hr_end r2 + 1 < 2 ^ 128 \<and> hr_end r2 + 1 = hr_start r1)"

definition merge_streams :: "kinesis_env \<Rightarrow> nat \<Rightarrow> nat \<Rightarrow> stream_state \<Rightarrow> stream_state" where
  "merge_streams env i1 i2 s =
     (let r1 = parse_hash_range_from_info (sh_info (ks_active s ! i1));
          r2 = parse_hash_range_from_info (sh_info (ks_active s ! i2));
          (first_idx, second_idx) = (if i2 < i1 then (i1, i2) else (i2, i1));
          first = ks_active s ! first_idx;
          active1 = remove_nth first_idx (ks_active s);
          second = active1 ! second_idx;
          (ending1, closed1) = close_shard env first;
          (ending2, closed2) = close_shard env second;
          shard1_id = si_shard_id (sh_info first);
          shard2_id = si_shard_id (sh_info second);
          s1 = mark_shard_closed shard1_id ending1 (s\<lparr>ks_active := remove_nth second_idx active1\<rparr>);
          s2 = mark_shard_closed shard2_id ending2 s1;
          s3 = s2\<lparr>ks_closed := ks_closed s2 @ [closed1, closed2]\<rparr>;
          (parent, adjacent_parent) =
            (if hr_start r1 < hr_start r2 then (shard1_id, shard2_id) else (shard2_id, shard1_id))
      in spawn_child_shard \<lparr>hr_start = min (hr_start r1) (hr_start r2), hr_end = max (hr_end r1) (hr_end r2)\<rparr>
           (now_epoch_millis env) (Some parent) (Some adjacent_parent) s3)"

definition merge_shards :: "kinesis_env \<Rightarrow> string option \<Rightarrow> string option \<Rightarrow> string \<Rightarrow> string \<Rightarrow> kinesis \<Rightarrow>
    kinesis_error + unit \<times> kinesis" where
  "merge_shards env name arn shard_to_merge adjacent_shard_to_merge k =
     res_bind (resolve_stream_name name arn) (\<lambda>n.
     res_bind (get_stream k n) (\<lambda>s.
     res_bind (ok_or ResourceNotFound (position_of (\<lambda>h. si_shard_id (sh_info h) = shard_to_merge) (ks_active s))) (\<lambda>i1.
     res_bind (ok_or ResourceNotFound (position_of (\<lambda>h. si_shard_id (sh_info h) = adjacent_shard_to_merge) (ks_active s))) (\<lambda>i2.
       if \<not> adjacent_ranges (parse_hash_range_from_info (sh_info (ks_active s ! i1)))
              (parse_hash_range_from_info (sh_info (ks_active s ! i2)))
       then Inl InvalidArgument
       else Inr ((), bt_insert n (merge_streams env i1 i2 s) k)))))"

end
