(* ===== verification/Kinesis_Config.thy ===== *)
theory Kinesis_Config
  imports Kinesis_Stream
begin

text \<open>
  The operations of the Kinesis provider that change or list the configuration of a stream: shard
  listing, tags, retention, encryption, consumers and resource policies (\<^verbatim>\<open>provider.rs\<close>).
\<close>

definition update_stream :: "string \<Rightarrow> (stream_state \<Rightarrow> kinesis_error + stream_state) \<Rightarrow> kinesis \<Rightarrow>
    kinesis_error + unit \<times> kinesis" where
  "update_stream n f k = res_bind (get_stream k n) (\<lambda>s. res_map (\<lambda>s'. ((), bt_insert n s' k)) (f s))"

section \<open>Shards\<close>

datatype shard_filter_type =
    AfterShardId | AtLatest | FilterAtTimestamp | AtTrimHorizon | FromTimestamp | FromTrimHorizon

record shard_filter =
  sf_type :: shard_filter_type
  sf_shard_id :: "string option"

definition filter_shards :: "shard_filter option \<Rightarrow> shard_info list \<Rightarrow> shard_info list" where
  "filter_shards flt shards =
     (case flt of
        None \<Rightarrow> shards
      | Some f \<Rightarrow>
          (case sf_type f of
             AfterShardId \<Rightarrow>
               (case sf_shard_id f of
                  None \<Rightarrow> shards
                | Some i \<Rightarrow>
                    (case position_of (\<lambda>x. si_shard_id x = i) shards of
                       None \<Rightarrow> shards | Some p \<Rightarrow> drop (p + 1) shards))
           | AtLatest \<Rightarrow> filter (\<lambda>x. si_ending_sequence_number x = None) shards
           | _ \<Rightarrow> shards))"

record list_shards_input =
  ls_name :: "string option"
  ls_arn :: "string option"
  ls_filter :: "shard_filter option"
  ls_next_token :: "string option"
  ls_exclusive_start :: "string option"
  ls_max_results :: "int option"

definition list_shards :: "list_shards_input \<Rightarrow> kinesis \<Rightarrow> kinesis_error + shard_info list \<times> string option" where
  "list_shards input k =
     res_bind (resolve_stream_name (ls_name input) (ls_arn input)) (\<lambda>n.
     res_bind (get_stream k n) (\<lambda>s.
       let shards = filter_shards (ls_filter input) (ks_shards s);
           start_id = (case ls_next_token input of None \<Rightarrow> ls_exclusive_start input | Some t \<Rightarrow> Some t);
           start = (case start_id of None \<Rightarrow> 0 | Some i \<Rightarrow> page_start (\<lambda>x. si_shard_id x = i) shards);
           (page, more) = page_after start (i32_to_usize (unwrap_or 100 (ls_max_results input))) shards
       in Inr (page, if more \<and> page \<noteq> [] then Some (si_shard_id (last page)) else None)))"

definition update_shard_count ::
    "string option \<Rightarrow> string option \<Rightarrow> int \<Rightarrow> kinesis \<Rightarrow> kinesis_error + int \<times> int \<times> string \<times> string" where
  "update_shard_count name arn target k =
     res_bind (resolve_stream_name name arn) (\<lambda>n.
       res_map (\<lambda>s. (usize_to_i32 (length (ks_active s)), target, ks_name s, ks_arn s)) (get_stream k n))"

section \<open>Tags and retention\<close>

definition add_tags_to_stream :: "string option \<Rightarrow> string option \<Rightarrow> (string, string) btree \<Rightarrow> kinesis \<Rightarrow>
    kinesis_error + unit \<times> kinesis" where
  "add_tags_to_stream name arn tags k =
     res_bind (resolve_stream_name name arn) (\<lambda>n.
       update_stream n (\<lambda>s.
         if 50 < length (ks_tags s) + length tags then Inl InvalidArgument
         else Inr (s\<lparr>ks_tags := fold (\<lambda>(key, v) m. bt_insert key v m) tags (ks_tags s)\<rparr>)) k)"

definition remove_tags_from_stream :: "string option \<Rightarrow> string option \<Rightarrow> string list \<Rightarrow> kinesis \<Rightarrow>
    kinesis_error + unit \<times> kinesis" where
  "remove_tags_from_stream name arn tag_keys k =
     res_bind (resolve_stream_name name arn) (\<lambda>n.
       update_stream n (\<lambda>s. Inr (s\<lparr>ks_tags := fold bt_remove tag_keys (ks_tags s)\<rparr>)) k)"

definition list_tags_for_stream ::
    "string option \<Rightarrow> string option \<Rightarrow> string option \<Rightarrow> int option \<Rightarrow> kinesis \<Rightarrow>
     kinesis_error + (string \<times> string option) list \<times> bool" where
  "list_tags_for_stream name arn exclusive_start limit k =
     res_bind (resolve_stream_name name arn) (\<lambda>n.
     res_bind (get_stream k n) (\<lambda>s.
       let keys = bt_keys (ks_tags s);
           (page, more) = page_after (name_start exclusive_start keys) (i32_to_usize (unwrap_or 50 limit)) keys
       in Inr (map (\<lambda>x. (x, bt_get (ks_tags s) x)) page, more)))"

definition increase_stream_retention_period ::
    "string option \<Rightarrow> string option \<Rightarrow> int \<Rightarrow> kinesis \<Rightarrow> kinesis_error + unit \<times> kinesis" where
  "increase_stream_retention_period name arn hours k =
     res_bind (resolve_stream_name name arn) (\<lambda>n.
       update_stream n (\<lambda>s.
         if hours < usize_to_i32 (ks_retention_secs s div 3600) then Inl InvalidArgument
         else if 8760 < hours then Inl InvalidArgument
         else Inr (s\<lparr>ks_retention_secs := i32_to_usize hours * 3600\<rparr>)) k)"

definition decrease_stream_retention_period ::
    "string option \<Rightarrow> string option \<Rightarrow> int \<Rightarrow> kinesis \<Rightarrow> kinesis_error + unit \<times> kinesis" where
  "decrease_stream_retention_period name arn hours k =
     res_bind (resolve_stream_name name arn) (\<lambda>n.
       update_stream n (\<lambda>s.
         if usize_to_i32 (ks_retention_secs s div 3600) < hours then Inl InvalidArgument
         else if hours < 24 then Inl InvalidArgument
         else Inr (s\<lparr>ks_retention_secs := i32_to_usize hours * 3600\<rparr>)) k)"

section \<open>Encryption and limits\<close>

definition start_stream_encryption ::
    "string option \<Rightarrow> string option \<Rightarrow> encryption_type \<Rightarrow> string \<Rightarrow> kinesis \<Rightarrow> kinesis_error + unit \<times> kinesis" where
  "start_stream_encryption name arn enc key_id k =
     res_bind (resolve_stream_name name arn) (\<lambda>n.
       update_stream n (\<lambda>s. Inr (s\<lparr>ks_encryption := Some enc, ks_key_id := Some key_id\<rparr>)) k)"

definition stop_stream_encryption :: "string option \<Rightarrow> string option \<Rightarrow> kinesis \<Rightarrow> kinesis_error + unit \<times> kinesis" where
  "stop_stream_encryption name arn k =
     res_bind (resolve_stream_name name arn) (\<lambda>n.
       update_stream n (\<lambda>s. Inr (s\<lparr>ks_encryption := Some EncNone, ks_key_id := None\<rparr>)) k)"

text \<open>The shard limit, the open shards, the on-demand streams and their limit.\<close>

definition describe_limits :: "kinesis \<Rightarrow> int \<times> int \<times> int \<times> int" where
  "describe_limits k = (500, sum_list (map (\<lambda>s. usize_to_i32 (length (ks_active s))) (bt_values k)), 0, 50)"

section \<open>Consumers\<close>

definition register_stream_consumer ::
    "kinesis_env \<Rightarrow> string \<Rightarrow> string \<Rightarrow> kinesis \<Rightarrow> kinesis_error + consumer_state \<times> kinesis" where
  "register_stream_consumer env arn consumer_name k =
     (let n = stream_name_from_arn arn
      in res_bind (get_stream k n) (\<lambda>s.
        if bt_get (ks_consumers s) consumer_name \<noteq> None then Inl ResourceInUse
        else
          let c = \<lparr>cs_name = consumer_name,
                   cs_arn = consumer_arn env n consumer_name (ke_now env div nanos_per_second),
                   cs_creation = ke_now env, cs_status = ConActive\<rparr>
          in Inr (c, bt_insert n (s\<lparr>ks_consumers := bt_insert consumer_name c (ks_consumers s)\<rparr>) k)))"

text \<open>The stream and the consumer that a request names.\<close>

definition resolve_consumer ::
    "string option \<Rightarrow> string option \<Rightarrow> string option \<Rightarrow> kinesis_error + string \<times> string" where
  "resolve_consumer consumer_arn' stream_arn' consumer_name =
     (case consumer_arn' of
        Some a \<Rightarrow> parse_consumer_arn a
      | None \<Rightarrow>
          res_bind (ok_or InvalidArgument stream_arn') (\<lambda>sa.
            res_map (\<lambda>cn. (stream_name_from_arn sa, cn)) (ok_or InvalidArgument consumer_name)))"

definition deregister_stream_consumer ::
    "string option \<Rightarrow> string option \<Rightarrow> string option \<Rightarrow> kinesis \<Rightarrow> kinesis_error + unit \<times> kinesis" where
  "deregister_stream_consumer consumer_arn' stream_arn' consumer_name k =
     res_bind (resolve_consumer consumer_arn' stream_arn' consumer_name) (\<lambda>(n, c).
       update_stream n (\<lambda>s.
         if bt_get (ks_consumers s) c = None then Inl ResourceNotFound
         else Inr (s\<lparr>ks_consumers := bt_remove c (ks_consumers s)\<rparr>)) k)"

definition describe_stream_consumer ::
    "string option \<Rightarrow> string option \<Rightarrow> string option \<Rightarrow> kinesis \<Rightarrow> kinesis_error + consumer_state \<times> string" where
  "describe_stream_consumer consumer_arn' stream_arn' consumer_name k =
     res_bind (resolve_consumer consumer_arn' stream_arn' consumer_name) (\<lambda>(n, c).
     res_bind (get_stream k n) (\<lambda>s.
       res_map (\<lambda>x. (x, ks_arn s)) (ok_or ResourceNotFound (bt_get (ks_consumers s) c))))"

definition list_stream_consumers ::
    "string \<Rightarrow> string option \<Rightarrow> int option \<Rightarrow> kinesis \<Rightarrow> kinesis_error + consumer_state list \<times> string option" where
  "list_stream_consumers arn next_token max_results k =
     res_bind (get_stream k (stream_name_from_arn arn)) (\<lambda>s.
       let names = bt_keys (ks_consumers s);
           start = name_start next_token names;
           finish = min (start + i32_to_usize (unwrap_or 100 max_results)) (length names);
           page = take (finish - start) (drop start names)
       in Inr (List.map_filter (\<lambda>n. bt_get (ks_consumers s) n) page,
               if finish < length names then Some (names ! finish) else None))"

section \<open>Resource policies\<close>

definition get_resource_policy :: "string \<Rightarrow> kinesis \<Rightarrow> kinesis_error + string" where
  "get_resource_policy arn k = res_map (\<lambda>s. unwrap_or [] (ks_policy s)) (get_stream k (stream_name_from_arn arn))"

definition put_resource_policy :: "string \<Rightarrow> string \<Rightarrow> kinesis \<Rightarrow> kinesis_error + unit \<times> kinesis" where
  "put_resource_policy arn policy k =
     update_stream (stream_name_from_arn arn) (\<lambda>s. Inr (s\<lparr>ks_policy := Some policy\<rparr>)) k"

definition delete_resource_policy :: "string \<Rightarrow> kinesis \<Rightarrow> kinesis_error + unit \<times> kinesis" where
  "delete_resource_policy arn k = update_stream (stream_name_from_arn arn) (\<lambda>s. Inr (s\<lparr>ks_policy := None\<rparr>)) k"

definition subscribe_to_shard :: "kinesis_error + unit" where
  "subscribe_to_shard = Inl KinesisNotImplemented"

section \<open>Requests\<close>

text \<open>The requests that change the state, and the minute tick of an actor.\<close>

datatype kinesis_request =
    KCreateStream create_stream_input
  | KDeleteStream "string option" "string option"
  | KPutRecord "string option" "string option" put_entry
  | KPutRecords "string option" "string option" "put_entry list"
  | KSplitShard "string option" "string option" string string
  | KMergeShards "string option" "string option" string string
  | KAddTags "string option" "string option" "(string, string) btree"
  | KRemoveTags "string option" "string option" "string list"
  | KIncreaseRetention "string option" "string option" int
  | KDecreaseRetention "string option" "string option" int
  | KStartEncryption "string option" "string option" encryption_type string
  | KStopEncryption "string option" "string option"
  | KRegisterConsumer string string
  | KDeregisterConsumer "string option" "string option" "string option"
  | KPutPolicy string string
  | KDeletePolicy string
  | KTick string string

definition tick_handle :: "int \<Rightarrow> string \<Rightarrow> shard_handle \<Rightarrow> shard_handle" where
  "tick_handle now shard_id h =
     (if si_shard_id (sh_info h) = shard_id
      then h\<lparr>sh_actor := (sh_actor h)\<lparr>sa_log := trim_expired now (sa_log (sh_actor h))\<rparr>\<rparr> else h)"

definition keep_state :: "kinesis \<Rightarrow> kinesis_error + 'a \<times> kinesis \<Rightarrow> kinesis" where
  "keep_state k r = (case r of Inl _ \<Rightarrow> k | Inr (_, k') \<Rightarrow> k')"

fun kinesis_step :: "kinesis \<Rightarrow> kinesis_env \<times> kinesis_request \<Rightarrow> kinesis" where
  "kinesis_step k (env, KCreateStream i) = keep_state k (create_stream env i k)"
| "kinesis_step k (env, KDeleteStream n a) = keep_state k (delete_stream n a k)"
| "kinesis_step k (env, KPutRecord n a e) = keep_state k (put_record env n a e k)"
| "kinesis_step k (env, KPutRecords n a es) = keep_state k (put_records env n a es k)"
| "kinesis_step k (env, KSplitShard n a i h) = keep_state k (split_shard env n a i h k)"
| "kinesis_step k (env, KMergeShards n a i j) = keep_state k (merge_shards env n a i j k)"
| "kinesis_step k (env, KAddTags n a t) = keep_state k (add_tags_to_stream n a t k)"
| "kinesis_step k (env, KRemoveTags n a t) = keep_state k (remove_tags_from_stream n a t k)"
| "kinesis_step k (env, KIncreaseRetention n a h) = keep_state k (increase_stream_retention_period n a h k)"
| "kinesis_step k (env, KDecreaseRetention n a h) = keep_state k (decrease_stream_retention_period n a h k)"
| "kinesis_step k (env, KStartEncryption n a t i) = keep_state k (start_stream_encryption n a t i k)"
| "kinesis_step k (env, KStopEncryption n a) = keep_state k (stop_stream_encryption n a k)"
| "kinesis_step k (env, KRegisterConsumer a c) = keep_state k (register_stream_consumer env a c k)"
| "kinesis_step k (env, KDeregisterConsumer ca sa c) = keep_state k (deregister_stream_consumer ca sa c k)"
| "kinesis_step k (env, KPutPolicy a p) = keep_state k (put_resource_policy a p k)"
| "kinesis_step k (env, KDeletePolicy a) = keep_state k (delete_resource_policy a k)"
| "kinesis_step k (env, KTick n i) =
     (case bt_get k n of
        None \<Rightarrow> k
      | Some s \<Rightarrow> bt_insert n (s\<lparr>ks_active := map (tick_handle (ke_now env) i) (ks_active s),
                                 ks_closed := map (tick_handle (ke_now env) i) (ks_closed s)\<rparr>) k)"

end
