(* ===== verification/Kinesis_Routing.thy ===== *)
theory Kinesis_Routing
  imports Kinesis_Config
begin

text \<open>
  The hash-key space of a stream: however often shards are split and merged, each key lies in the range
  of exactly one open shard.
\<close>

section \<open>Ranges\<close>

text \<open>How many ranges contain a key.\<close>

definition coverage :: "hash_range list \<Rightarrow> nat \<Rightarrow> nat" where
  "coverage rs k = length (filter (\<lambda>r. range_contains r k) rs)"

definition exact_cover :: "hash_range list \<Rightarrow> bool" where
  "exact_cover rs \<longleftrightarrow> (\<forall>k. coverage rs k = (if k \<le> hash_key_max then 1 else 0))"

lemma coverage_simps [simp]:
  "coverage [] k = 0" "coverage (r # rs) k = (if range_contains r k then 1 else 0) + coverage rs k"
  "coverage (rs @ rs') k = coverage rs k + coverage rs' k"
  by (simp_all add: coverage_def)

fun chained :: "hash_range list \<Rightarrow> nat \<Rightarrow> nat \<Rightarrow> bool" where
  "chained [] a b = False"
| "chained [r] a b = (hr_start r = a \<and> hr_end r = b \<and> a \<le> b)"
| "chained (r # r' # rs) a b = (hr_start r = a \<and> a \<le> hr_end r \<and> chained (r' # rs) (hr_end r + 1) b)"

lemma chained_Cons:
  "rs \<noteq> [] \<Longrightarrow> hr_start r = a \<Longrightarrow> a \<le> hr_end r \<Longrightarrow> chained rs (hr_end r + 1) b \<Longrightarrow> chained (r # rs) a b"
  by (cases rs) auto

lemma chained_le: "chained rs a b \<Longrightarrow> a \<le> b"
  by (induction rs a b rule: chained.induct) auto

lemma chained_coverage: "chained rs a b \<Longrightarrow> coverage rs k = (if a \<le> k \<and> k \<le> b then 1 else 0)"
proof (induction rs a b rule: chained.induct)
  case (3 r r' rs a b)
  then have "a \<le> hr_end r" "hr_end r + 1 \<le> b" using chained_le by auto
  then show ?case using 3 by (auto simp: range_contains_def)
qed (auto simp: range_contains_def)

lemma chained_exact: "chained rs 0 hash_key_max \<Longrightarrow> exact_cover rs"
  by (simp add: exact_cover_def chained_coverage)

lemma even_steps:
  fixes M n i q :: nat
  assumes "i < n" "n \<le> q + 1" "q * n \<le> M"
  shows "q * i + i \<le> M"
proof -
  have "q * i + i \<le> q * (n - 1) + (n - 1)" using assms(1) by (intro add_mono mult_le_mono) auto
  also have "\<dots> \<le> q * (n - 1) + q" using assms by simp
  also have "\<dots> = q * n" using assms(1) by (cases n) auto
  finally show ?thesis using assms(3) by simp
qed

lemma divide_chained:
  assumes n: "n \<le> hash_key_max div n + 1" and i: "i < n"
  shows "chained (map (even_range n) [i..<n]) ((hash_key_max div n) * i + i) hash_key_max"
  using i
proof (induction "n - i" arbitrary: i)
  case (Suc d)
  let ?q = "hash_key_max div n"
  have top: "?q * i + i \<le> hash_key_max" if "i < n" for i
    using even_steps [OF that n] by simp
  show ?case
  proof (cases "i + 1 = n")
    case True
    then show ?thesis using top [of i] Suc.prems by (auto simp: even_range_def upt_rec [of i n])
  next
    case False
    then have lt: "i + 1 < n" using Suc.prems by simp
    then have IH: "chained (map (even_range n) [i + 1..<n]) (?q * (i + 1) + (i + 1)) hash_key_max"
      using Suc.hyps by (intro Suc.hyps(1)) auto
    have e: "hr_start (even_range n i) = ?q * i + i" "hr_end (even_range n i) + 1 = ?q * (i + 1) + (i + 1)"
      using lt by (auto simp: even_range_def)
    have "chained (even_range n i # map (even_range n) [i + 1..<n]) (?q * i + i) hash_key_max"
      using IH e lt by (intro chained_Cons) auto
    then show ?thesis using lt by (simp add: upt_rec [of i n])
  qed
qed simp

lemma div_big: "n \<le> 2 ^ 64 \<Longrightarrow> 0 < n \<Longrightarrow> n \<le> hash_key_max div n + 1"
proof -
  assume n: "n \<le> 2 ^ 64" "0 < n"
  have "n * n \<le> 2 ^ 64 * 2 ^ 64" using n(1) by (intro mult_le_mono)
  then have "n * n \<le> hash_key_max + n" using n(2) by (simp add: hash_key_max_def)
  then have "(n - 1) * n \<le> hash_key_max" by (simp add: diff_mult_distrib)
  then have "n - 1 \<le> hash_key_max div n" using n(2) by (simp add: less_eq_div_iff_mult_less_eq)
  then show ?thesis by simp
qed

lemma divide_evenly_cover:
  assumes "0 < n" "n \<le> 2 ^ 64"
  shows "exact_cover (divide_evenly n)" "\<forall>r\<in>set (divide_evenly n). hr_start r \<le> hr_end r \<and> hr_end r \<le> hash_key_max"
proof -
  have c: "chained (divide_evenly n) 0 hash_key_max"
    using divide_chained [OF div_big [OF assms(2,1)] assms(1)] assms(1)
    by (auto simp: divide_evenly_def)
  then show "exact_cover (divide_evenly n)" by (rule chained_exact)
  have "chained rs a b \<Longrightarrow> \<forall>r\<in>set rs. hr_start r \<le> hr_end r \<and> hr_end r \<le> b" for rs a b
    by (induction rs a b rule: chained.induct) (auto dest: chained_le)
  with c show "\<forall>r\<in>set (divide_evenly n). hr_start r \<le> hr_end r \<and> hr_end r \<le> hash_key_max" by blast
qed

lemma cover_has_range: "exact_cover rs \<Longrightarrow> k \<le> hash_key_max \<Longrightarrow> \<exists>i<length rs. range_contains (rs ! i) k"
proof -
  assume "exact_cover rs" "k \<le> hash_key_max"
  then have "coverage rs k = 1" by (simp add: exact_cover_def)
  then have "filter (\<lambda>r. range_contains r k) rs \<noteq> []" by (auto simp: coverage_def)
  then show ?thesis by (auto simp: filter_empty_conv in_set_conv_nth)
qed

text \<open>Splitting a range, and merging adjacent ones, keeps what the ranges cover.\<close>

lemma split_contains:
  "hr_start r < h \<Longrightarrow> h \<le> hr_end r \<Longrightarrow>
     (if range_contains \<lparr>hr_start = hr_start r, hr_end = h - 1\<rparr> k then 1 else 0) +
     (if range_contains \<lparr>hr_start = h, hr_end = hr_end r\<rparr> k then 1 else 0) =
     (if range_contains r k then 1 else 0 :: nat)"
  by (auto simp: range_contains_def)

lemma merge_contains:
  assumes "adjacent_ranges r1 r2" "hr_start r1 \<le> hr_end r1" "hr_start r2 \<le> hr_end r2"
  shows "(if range_contains \<lparr>hr_start = min (hr_start r1) (hr_start r2), hr_end = max (hr_end r1) (hr_end r2)\<rparr> k then 1 else 0 :: nat) =
     (if range_contains r1 k then 1 else 0) + (if range_contains r2 k then 1 else 0)"
  using assms by (auto simp: range_contains_def adjacent_ranges_def min_def max_def)

section \<open>The invariant of a stream\<close>

definition handle_id :: "shard_handle \<Rightarrow> string" where
  "handle_id h = si_shard_id (sh_info h)"

definition handle_range :: "shard_handle \<Rightarrow> hash_range" where
  "handle_range h = parse_hash_range_from_info (sh_info h)"

text \<open>The metadata of a handle is that of its actor, and its range is well formed.\<close>

definition handle_ok :: "shard_handle \<Rightarrow> bool" where
  "handle_ok h \<longleftrightarrow> sa_shard_id (sh_actor h) = handle_id h \<and>
     hr_start (handle_range h) \<le> hr_end (handle_range h) \<and> hr_end (handle_range h) \<le> hash_key_max"

definition all_handles :: "stream_state \<Rightarrow> shard_handle list" where
  "all_handles s = ks_active s @ ks_closed s"

text \<open>The identifiers are those of the first \<open>ks_next_index\<close> shards, each once.\<close>

definition ids_ok :: "stream_state \<Rightarrow> bool" where
  "ids_ok s \<longleftrightarrow> mset (map handle_id (all_handles s)) = mset (map format_shard_id [0..<ks_next_index s]) \<and>
     map si_shard_id (ks_shards s) = map format_shard_id [0..<ks_next_index s]"

text \<open>The history marks as open the open shards.\<close>

definition history_ok :: "stream_state \<Rightarrow> bool" where
  "history_ok s \<longleftrightarrow> (\<forall>i\<in>set (ks_shards s).
     si_ending_sequence_number i = None \<longleftrightarrow> si_shard_id i \<in> handle_id ` set (ks_active s))"

definition stream_ok :: "stream_state \<Rightarrow> bool" where
  "stream_ok s \<longleftrightarrow> (ks_active s = [] \<or> exact_cover (map handle_range (ks_active s))) \<and>
     (\<forall>h\<in>set (all_handles s). handle_ok h) \<and>
     (\<forall>h\<in>set (ks_active s). \<not> sa_closed (sh_actor h)) \<and> (\<forall>h\<in>set (ks_closed s). sa_closed (sh_actor h)) \<and>
     ids_ok s \<and> history_ok s"

lemma format_shard_id_inject: "format_shard_id i = format_shard_id j \<longleftrightarrow> i = j"
proof
  assume "format_shard_id i = format_shard_id j"
  then have "digits_val 0 (show_padded 12 i) = digits_val 0 (show_padded 12 j)" by (simp add: format_shard_id_def)
  then show "i = j" by (simp add: digits_val_padded)
qed simp

lemma ids_distinct: "ids_ok s \<Longrightarrow> distinct (map handle_id (all_handles s))"
proof -
  assume "ids_ok s"
  then have "mset (map handle_id (all_handles s)) = mset (map format_shard_id [0..<ks_next_index s])"
    by (simp add: ids_ok_def)
  moreover have "distinct (map format_shard_id [0..<ks_next_index s])"
    by (auto simp: distinct_map inj_on_def format_shard_id_inject)
  ultimately show ?thesis using mset_eq_imp_distinct_iff by blast
qed

lemma position_of_Some:
  "position_of P xs = Some i \<Longrightarrow> i < length xs \<and> P (xs ! i)"
  by (induction xs arbitrary: i) (auto split: if_splits simp: nth_Cons')

lemma position_of_None: "position_of P xs = None \<longleftrightarrow> (\<forall>x\<in>set xs. \<not> P x)"
  by (induction xs) auto

lemma spawn_range:
  assumes "hr_start r \<le> hr_end r" "hr_end r \<le> hash_key_max"
  shows "handle_range (spawn_shard sid ix r ret ms pa ad) = r"
proof -
  have "hr_start r < 2 ^ 128" "hr_end r < 2 ^ 128"
    using assms by (simp_all add: hash_key_max_def)
  then show ?thesis
    by (simp add: handle_range_def spawn_shard_def parse_hash_range_from_info_def from_decimal_str_def
        parse_uint_show Let_def)
qed

lemma spawn_ok:
  assumes "hr_start r \<le> hr_end r" "hr_end r \<le> hash_key_max"
  shows "handle_ok (spawn_shard sid ix r ret ms pa ad)"
  using assms by (simp add: handle_ok_def spawn_range) (simp add: spawn_shard_def handle_id_def Let_def)

lemma spawn_simps [simp]:
  "handle_id (spawn_shard sid ix r ret ms pa ad) = sid"
  "si_shard_id (sh_info (spawn_shard sid ix r ret ms pa ad)) = sid"
  "si_ending_sequence_number (sh_info (spawn_shard sid ix r ret ms pa ad)) = None"
  "\<not> sa_closed (sh_actor (spawn_shard sid ix r ret ms pa ad))"
  by (simp_all add: spawn_shard_def handle_id_def Let_def)

text \<open>Routing finds the shard whose range holds the key.\<close>

lemma route_in_range:
  assumes "stream_ok s" "ks_active s \<noteq> []" "record_hash_key env pk ehk = Inr key"
  shows "\<exists>i. route_to_shard env (ks_active s) pk ehk = Inr i \<and> i < length (ks_active s) \<and>
    range_contains (handle_range (ks_active s ! i)) key"
proof -
  have "key \<le> hash_key_max"
    using assms(3)
    by (auto simp: record_hash_key_def from_partition_key_def from_decimal_str_def parse_uint_def hash_key_max_def
          ok_or_def split: option.splits if_splits list.splits intro: Suc_leI simp flip: less_eq_Suc_le)
  then obtain j where "j < length (ks_active s)" "range_contains (handle_range (ks_active s ! j)) key"
    using assms cover_has_range [of "map handle_range (ks_active s)" key] by (auto simp: stream_ok_def)
  then obtain i where "position_of (\<lambda>h. range_contains (parse_hash_range_from_info (sh_info h)) key) (ks_active s) = Some i"
    using position_of_None [of "\<lambda>h. range_contains (parse_hash_range_from_info (sh_info h)) key" "ks_active s"]
    by (cases "position_of (\<lambda>h. range_contains (parse_hash_range_from_info (sh_info h)) key) (ks_active s)")
      (auto simp: handle_range_def)
  then show ?thesis
    using assms(2,3) position_of_Some [of _ "ks_active s" i]
    by (auto simp: route_to_shard_def handle_range_def)
qed

end
