(* ===== verification/Kinesis_Invariant.thy ===== *)
theory Kinesis_Invariant
  imports Kinesis_Routing
begin

text \<open>Every request keeps the invariant of every stream.\<close>

section \<open>Requests that do not touch the shards\<close>

text \<open>What the invariant sees of a handle and of a stream.\<close>

definition handle_shape :: "shard_handle \<Rightarrow> shard_info \<times> string \<times> bool" where
  "handle_shape h = (sh_info h, sa_shard_id (sh_actor h), sa_closed (sh_actor h))"

definition shape :: "stream_state \<Rightarrow>
    (shard_info \<times> string \<times> bool) list \<times> (shard_info \<times> string \<times> bool) list \<times> shard_info list \<times> nat" where
  "shape s = (map handle_shape (ks_active s), map handle_shape (ks_closed s), ks_shards s, ks_next_index s)"

lemma handle_parts:
  "sh_info h = fst (handle_shape h)" "sa_shard_id (sh_actor h) = fst (snd (handle_shape h))"
  "sa_closed (sh_actor h) = snd (snd (handle_shape h))"
  by (simp_all add: handle_shape_def)

lemma map_shape: "map handle_shape xs = map handle_shape ys \<Longrightarrow> map (\<lambda>h. f (handle_shape h)) xs = map (\<lambda>h. f (handle_shape h)) ys"
  using map_map [of f handle_shape] by (metis (mono_tags, lifting) comp_apply map_eq_conv)

lemma ball_shape:
  "map handle_shape xs = map handle_shape ys \<Longrightarrow> (\<forall>h\<in>set xs. P (handle_shape h)) \<longleftrightarrow> (\<forall>h\<in>set ys. P (handle_shape h))"
proof -
  assume "map handle_shape xs = map handle_shape ys"
  then have "handle_shape ` set xs = handle_shape ` set ys" by (metis set_map)
  moreover have "(\<forall>h\<in>set zs. P (handle_shape h)) \<longleftrightarrow> (\<forall>x\<in>handle_shape ` set zs. P x)" for zs by simp
  ultimately show ?thesis by metis
qed

lemma stream_ok_shape:
  assumes "shape s' = shape s" "stream_ok s"
  shows "stream_ok s'"
proof -
  have eq: "map handle_shape (ks_active s') = map handle_shape (ks_active s)"
    "map handle_shape (ks_closed s') = map handle_shape (ks_closed s)"
    "ks_shards s' = ks_shards s" "ks_next_index s' = ks_next_index s"
    using assms(1) by (simp_all add: shape_def)
  have all: "map handle_shape (all_handles s') = map handle_shape (all_handles s)"
    by (simp add: all_handles_def eq)
  note m = map_shape [OF eq(1)] map_shape [OF all] and b = ball_shape [OF eq(1)] ball_shape [OF eq(2)] ball_shape [OF all]
  have ids: "map handle_id (all_handles s') = map handle_id (all_handles s)" "map handle_id (ks_active s') = map handle_id (ks_active s)"
    using m(2) [of "\<lambda>x. si_shard_id (fst x)"] m(1) [of "\<lambda>x. si_shard_id (fst x)"]
    by (simp_all add: handle_id_def [abs_def] handle_parts(1))
  have rng: "map handle_range (ks_active s') = map handle_range (ks_active s)"
    using m(1) [of "\<lambda>x. parse_hash_range_from_info (fst x)"] by (simp add: handle_range_def [abs_def] handle_parts(1))
  have hk: "handle_ok = (\<lambda>h. fst (snd (handle_shape h)) = si_shard_id (fst (handle_shape h)) \<and>
      hr_start (parse_hash_range_from_info (fst (handle_shape h))) \<le> hr_end (parse_hash_range_from_info (fst (handle_shape h))) \<and>
      hr_end (parse_hash_range_from_info (fst (handle_shape h))) \<le> hash_key_max)"
    by (simp add: fun_eq_iff handle_ok_def handle_id_def handle_range_def handle_parts(1,2))
  have ok: "(\<forall>h\<in>set (all_handles s'). handle_ok h) \<longleftrightarrow> (\<forall>h\<in>set (all_handles s). handle_ok h)"
    unfolding hk by (rule b(3))
  have act: "ks_active s' = [] \<longleftrightarrow> ks_active s = []" using eq(1) by (metis map_is_Nil_conv)
  have set_ids: "handle_id ` set (ks_active s') = handle_id ` set (ks_active s)" using ids(2) by (metis set_map)
  show ?thesis
    using assms(2) b(1) [of "\<lambda>x. \<not> snd (snd x)"] b(2) [of "\<lambda>x. snd (snd x)"]
    by (simp add: stream_ok_def ok act rng ids_ok_def ids history_ok_def set_ids eq(3,4) handle_parts(3))
qed

section \<open>Splitting and merging\<close>

lemma handle_id_actor [simp]: "handle_id (h\<lparr>sh_actor := a\<rparr>) = handle_id h"
  by (simp add: handle_id_def)

lemma close_shard_handle: "close_shard env h = (last_sequence_number (sa_log (sh_actor h)), h\<lparr>sh_actor := (sh_actor h)\<lparr>sa_closed := True\<rparr>\<rparr>)"
  by (simp add: close_shard_def)

lemma update_first_ids:
  "map si_shard_id (update_first P (\<lambda>i. i\<lparr>si_ending_sequence_number := f i\<rparr>) xs) = map si_shard_id xs"
  by (induction xs) auto

lemma update_first_set:
  assumes "distinct (map si_shard_id xs)"
  shows "i \<in> set (update_first (\<lambda>i. si_shard_id i = d) f xs) \<longleftrightarrow>
    (i \<in> set xs \<and> si_shard_id i \<noteq> d) \<or> (\<exists>j\<in>set xs. si_shard_id j = d \<and> i = f j)"
  using assms
proof (induction xs)
  case (Cons x xs)
  show ?case
  proof (cases "si_shard_id x = d")
    case True
    then have "\<forall>j\<in>set xs. si_shard_id j \<noteq> d" using Cons.prems by (metis distinct.simps(2) image_eqI list.simps(9) set_map)
    then show ?thesis using True by auto
  next
    case False
    then show ?thesis using Cons by auto
  qed
qed simp

lemma remove_nth_split: "i < length xs \<Longrightarrow> xs = take i xs @ xs ! i # drop (i + 1) xs"
  by (simp add: id_take_nth_drop)

lemma mset_remove_nth: "i < length xs \<Longrightarrow> mset xs = add_mset (xs ! i) (mset (remove_nth i xs))"
  by (subst remove_nth_split, assumption) (simp add: remove_nth_def)

lemma coverage_mset: "coverage rs k = size (filter_mset (\<lambda>r. range_contains r k) (mset rs))"
  by (simp add: coverage_def flip: mset_filter)

lemma coverage_remove_nth:
  assumes "i < length hs"
  shows "coverage (map handle_range hs) k =
    (if range_contains (handle_range (hs ! i)) k then 1 else 0) + coverage (map handle_range (remove_nth i hs)) k"
  using assms by (simp add: coverage_mset mset_remove_nth [OF assms])

text \<open>The open shards \<open>gone\<close> are closed, and the shards \<open>fresh\<close> are opened.\<close>

definition closed_handle :: "shard_handle \<Rightarrow> shard_handle" where
  "closed_handle h = h\<lparr>sh_actor := (sh_actor h)\<lparr>sa_closed := True\<rparr>\<rparr>"

lemma closed_handle_simps [simp]:
  "handle_id (closed_handle h) = handle_id h" "handle_ok (closed_handle h) = handle_ok h"
  "sa_closed (sh_actor (closed_handle h))" "sh_info (closed_handle h) = sh_info h"
  by (simp_all add: closed_handle_def handle_ok_def handle_range_def handle_id_def)

lemma distinct_fresh:
  assumes "ids_ok s" "h \<in> set (all_handles s)" "map handle_id fresh = map format_shard_id [ks_next_index s..<n]"
  shows "handle_id h \<notin> handle_id ` set fresh"
proof -
  have "mset (map handle_id (all_handles s)) = mset (map format_shard_id [0..<ks_next_index s])"
    using assms(1) by (simp only: ids_ok_def)
  then have "set (map handle_id (all_handles s)) = set (map format_shard_id [0..<ks_next_index s])"
    by (rule mset_eq_setD)
  moreover have "handle_id h \<in> set (map handle_id (all_handles s))" using assms(2) by simp
  moreover have "handle_id ` set fresh = set (map format_shard_id [ks_next_index s..<n])"
    using assms(3) by (metis set_map)
  ultimately show ?thesis by (auto simp: format_shard_id_inject)
qed

lemma reshape_ok:
  assumes s: "stream_ok s"
    and act: "mset (ks_active s) = mset gone + mset rest" "ks_active s' = rest @ fresh"
    and clo: "ks_closed s' = ks_closed s @ map closed_handle gone"
    and his: "ks_shards s' = shards @ map sh_info fresh" "map si_shard_id shards = map si_shard_id (ks_shards s)"
    and gone: "\<And>i. i \<in> set shards \<Longrightarrow> si_shard_id i \<in> handle_id ` set gone \<Longrightarrow> si_ending_sequence_number i \<noteq> None"
    and kept: "\<And>i. i \<in> set shards \<Longrightarrow> si_shard_id i \<notin> handle_id ` set gone \<Longrightarrow> i \<in> set (ks_shards s)"
    and nxt: "ks_next_index s' = ks_next_index s + length fresh"
    and ids: "map handle_id fresh = map format_shard_id [ks_next_index s..<ks_next_index s + length fresh]"
    and fresh: "\<And>h. h \<in> set fresh \<Longrightarrow> handle_ok h \<and> \<not> sa_closed (sh_actor h) \<and> si_ending_sequence_number (sh_info h) = None"
    and cover: "exact_cover (map handle_range (rest @ fresh))"
  shows "stream_ok s'"
proof -
  have sets: "set (ks_active s) = set gone \<union> set rest" using act(1) by (metis set_mset_mset set_mset_union)
  have ids_s: "ids_ok s" and hist_s: "history_ok s" using s by (simp_all add: stream_ok_def)
  have d: "distinct (map handle_id (all_handles s))" by (rule ids_distinct) fact
  have new: "handle_id h \<notin> handle_id ` set fresh" if "h \<in> set (all_handles s)" for h
    using distinct_fresh [OF ids_s that ids] .
  note app = upt_add_eq_append [of 0 "ks_next_index s" "length fresh", simplified]
  have "mset (map handle_id (all_handles s')) = mset (map handle_id (all_handles s)) + mset (map handle_id fresh)"
    by (simp add: all_handles_def act clo comp_def)
  also have "\<dots> = mset (map format_shard_id [0..<ks_next_index s']) "
    using ids_s unfolding ids nxt ids_ok_def app by simp
  finally have ids1: "mset (map handle_id (all_handles s')) = mset (map format_shard_id [0..<ks_next_index s'])" .
  have "map si_shard_id (map sh_info fresh) = map handle_id fresh" by (simp add: handle_id_def [abs_def])
  then have "map si_shard_id (ks_shards s') = map format_shard_id [0..<ks_next_index s] @ map format_shard_id [ks_next_index s..<ks_next_index s + length fresh]"
    using ids_s unfolding his(1) map_append his(2) ids ids_ok_def by simp
  then have ids2: "map si_shard_id (ks_shards s') = map format_shard_id [0..<ks_next_index s']"
    unfolding nxt app by simp
  have apart: "handle_id ` set gone \<inter> handle_id ` set rest = {}"
  proof -
    have "mset (map handle_id (ks_active s)) = mset (map handle_id (gone @ rest))" by (simp add: act(1))
    moreover have "distinct (map handle_id (ks_active s))" using d by (simp add: all_handles_def)
    ultimately have "distinct (map handle_id (gone @ rest))" using mset_eq_imp_distinct_iff by blast
    then show ?thesis by auto
  qed
  have hist: "si_ending_sequence_number i = None \<longleftrightarrow> si_shard_id i \<in> handle_id ` set (ks_active s')" if i: "i \<in> set (ks_shards s')" for i
  proof (cases "i \<in> set shards")
    case True
    have "si_shard_id i \<in> set (map si_shard_id (ks_shards s))" using True his(2) by (metis image_eqI set_map)
    then have "si_shard_id i \<in> set (map handle_id (all_handles s))"
      using ids_s unfolding ids_ok_def by (metis mset_eq_setD)
    then obtain h where "h \<in> set (all_handles s)" "si_shard_id i = handle_id h" by auto
    then have notfresh: "si_shard_id i \<notin> handle_id ` set fresh" using new by metis
    show ?thesis
    proof (cases "si_shard_id i \<in> handle_id ` set gone")
      case True
      then show ?thesis using gone [OF \<open>i \<in> set shards\<close> True] apart notfresh by (auto simp: act(2))
    next
      case False
      then have "i \<in> set (ks_shards s)" using kept True by blast
      then show ?thesis using hist_s False notfresh sets by (auto simp: history_ok_def act(2))
    qed
  next
    case False
    then obtain h where "h \<in> set fresh" "i = sh_info h" using i his(1) by auto
    then show ?thesis using fresh by (auto simp: act(2) handle_id_def)
  qed
  have "handle_ok h" if "h \<in> set (all_handles s')" for h
    using that s sets fresh by (auto simp: all_handles_def act(2) clo stream_ok_def)
  moreover have "\<not> sa_closed (sh_actor h)" if "h \<in> set (ks_active s')" for h
    using that s sets fresh by (auto simp: act(2) stream_ok_def)
  moreover have "sa_closed (sh_actor h)" if "h \<in> set (ks_closed s')" for h
    using that s by (auto simp: clo stream_ok_def)
  ultimately show ?thesis
    using cover ids1 ids2 hist by (simp add: stream_ok_def ids_ok_def history_ok_def act(2))
qed

definition ended :: "string \<Rightarrow> string option \<Rightarrow> shard_info list \<Rightarrow> shard_info list" where
  "ended d q = update_first (\<lambda>i. si_shard_id i = d)
     (\<lambda>i. i\<lparr>si_ending_sequence_number := Some (unwrap_or (si_starting_sequence_number i) q)\<rparr>)"

lemma mark_shard_closed_ended: "mark_shard_closed d q s = s\<lparr>ks_shards := ended d q (ks_shards s)\<rparr>"
  by (simp add: mark_shard_closed_def ended_def)

lemma ended_ids [simp]: "map si_shard_id (ended d q xs) = map si_shard_id xs"
  by (simp add: ended_def update_first_ids)

lemma ended_set:
  assumes "distinct (map si_shard_id xs)" "i \<in> set (ended d q xs)"
  shows "(si_shard_id i = d \<longrightarrow> si_ending_sequence_number i \<noteq> None) \<and> (si_shard_id i \<noteq> d \<longrightarrow> i \<in> set xs)"
  using assms update_first_set [OF assms(1)] by (auto simp: ended_def)

lemma history_distinct: "ids_ok s \<Longrightarrow> distinct (map si_shard_id (ks_shards s))"
  by (auto simp: ids_ok_def distinct_map inj_on_def format_shard_id_inject)

lemma spawn_child_fields:
  "spawn_child_shard r ms pa ad s =
     (let h = spawn_shard (format_shard_id (ks_next_index s)) (ks_next_index s mod 65536) r (ks_retention_secs s) ms pa ad
      in s\<lparr>ks_next_index := ks_next_index s + 1, ks_shards := ks_shards s @ [sh_info h], ks_active := ks_active s @ [h]\<rparr>)"
  by (simp add: spawn_child_shard_def Let_def)

lemma split_ok:
  assumes s: "stream_ok s" and i: "i < length (ks_active s)"
    and h: "hr_start (handle_range (ks_active s ! i)) < new" "new \<le> hr_end (handle_range (ks_active s ! i))"
  shows "stream_ok (split_stream env i new s)"
proof -
  let ?p = "ks_active s ! i" and ?n = "ks_next_index s"
  let ?r = "handle_range ?p" and ?ms = "now_epoch_millis env"
  define h1 where "h1 = spawn_shard (format_shard_id ?n) (?n mod 65536) \<lparr>hr_start = hr_start ?r, hr_end = new - 1\<rparr>
    (ks_retention_secs s) ?ms (Some (handle_id ?p)) None"
  define h2 where "h2 = spawn_shard (format_shard_id (?n + 1)) ((?n + 1) mod 65536) \<lparr>hr_start = new, hr_end = hr_end ?r\<rparr>
    (ks_retention_secs s) ?ms (Some (handle_id ?p)) None"
  define shards where "shards = ended (handle_id ?p) (last_sequence_number (sa_log (sh_actor ?p))) (ks_shards s)"
  have p: "handle_ok ?p" using s i by (simp add: stream_ok_def all_handles_def)
  then have b: "hr_end ?r \<le> hash_key_max" by (simp add: handle_ok_def)
  have fields: "split_stream env i new s =
      s\<lparr>ks_active := remove_nth i (ks_active s) @ [h1, h2], ks_closed := ks_closed s @ [closed_handle ?p],
        ks_shards := shards @ [sh_info h1, sh_info h2], ks_next_index := ?n + 2\<rparr>"
    using h(1) by (simp add: split_stream_def close_shard_handle mark_shard_closed_ended spawn_child_fields Let_def
        h1_def h2_def shards_def handle_id_def handle_range_def closed_handle_def)
  have ids: "ids_ok s" using s by (simp add: stream_ok_def)
  have hs: "x \<in> set shards \<Longrightarrow> (si_shard_id x = handle_id ?p \<longrightarrow> si_ending_sequence_number x \<noteq> None) \<and>
      (si_shard_id x \<noteq> handle_id ?p \<longrightarrow> x \<in> set (ks_shards s))" for x
    unfolding shards_def using ended_set [OF history_distinct [OF ids]] by blast
  have r: "handle_range h1 = \<lparr>hr_start = hr_start ?r, hr_end = new - 1\<rparr>" "handle_range h2 = \<lparr>hr_start = new, hr_end = hr_end ?r\<rparr>"
    using h b by (auto simp: h1_def h2_def spawn_range)
  show ?thesis unfolding fields
  proof (rule reshape_ok [OF s, of "[?p]" "remove_nth i (ks_active s)" _ "[h1, h2]" shards])
    show "mset (ks_active s) = mset [?p] + mset (remove_nth i (ks_active s))"
      using mset_remove_nth [OF i] by simp
    show "map handle_id [h1, h2] = map format_shard_id [?n..<?n + length [h1, h2]]"
      by (simp add: h1_def h2_def upt_rec)
    show "handle_ok x \<and> \<not> sa_closed (sh_actor x) \<and> si_ending_sequence_number (sh_info x) = None" if "x \<in> set [h1, h2]" for x
      using that h b by (auto simp: h1_def h2_def intro!: spawn_ok)
    have "exact_cover (map handle_range (ks_active s))" using s i by (auto simp: stream_ok_def)
    moreover have "coverage (map handle_range (remove_nth i (ks_active s) @ [h1, h2])) k = coverage (map handle_range (ks_active s)) k" for k
      using coverage_remove_nth [OF i, of k] split_contains [OF h, of k]
      unfolding map_append list.map coverage_simps r by linarith
    ultimately show "exact_cover (map handle_range (remove_nth i (ks_active s) @ [h1, h2]))"
      by (simp add: exact_cover_def)
  qed (use hs in \<open>auto simp: shards_def\<close>)
qed

lemma merge_ok:
  assumes s: "stream_ok s" and i: "i1 < length (ks_active s)" "i2 < length (ks_active s)"
    and adj: "adjacent_ranges (handle_range (ks_active s ! i1)) (handle_range (ks_active s ! i2))"
  shows "stream_ok (merge_streams env i1 i2 s)"
proof -
  let ?n = "ks_next_index s" and ?act = "ks_active s"
  let ?r1 = "handle_range (?act ! i1)" and ?r2 = "handle_range (?act ! i2)"
  have ok: "handle_ok (?act ! i1)" "handle_ok (?act ! i2)" using s i by (simp_all add: stream_ok_def all_handles_def)
  then have b: "hr_start ?r1 \<le> hr_end ?r1" "hr_end ?r1 \<le> hash_key_max" "hr_start ?r2 \<le> hr_end ?r2" "hr_end ?r2 \<le> hash_key_max"
    by (simp_all add: handle_ok_def)
  have ne: "i1 \<noteq> i2" using adj b by (auto simp: adjacent_ranges_def)
  define hi where "hi = max i1 i2"
  define lo where "lo = min i1 i2"
  have hl: "lo < hi" "hi < length ?act" "{i1, i2} = {lo, hi}" using ne i by (auto simp: hi_def lo_def)
  let ?p = "?act ! hi" and ?q = "?act ! lo"
  define rest where "rest = remove_nth lo (remove_nth hi ?act)"
  have q: "remove_nth hi ?act ! lo = ?q" using hl by (simp add: remove_nth_def nth_append)
  have lo: "lo < length (remove_nth hi ?act)" using hl by (simp add: remove_nth_def)
  have act: "mset ?act = mset [?p, ?q] + mset rest"
    using mset_remove_nth [OF hl(2)] mset_remove_nth [OF lo] by (simp add: rest_def q)
  define r where "r = \<lparr>hr_start = min (hr_start ?r1) (hr_start ?r2), hr_end = max (hr_end ?r1) (hr_end ?r2)\<rparr>"
  define pa where "pa = (if hr_start ?r1 < hr_start ?r2 then (handle_id ?p, handle_id ?q) else (handle_id ?q, handle_id ?p))"
  define h where "h = spawn_shard (format_shard_id ?n) (?n mod 65536) r (ks_retention_secs s) (now_epoch_millis env) (Some (fst pa)) (Some (snd pa))"
  define shards where "shards = ended (handle_id ?q) (last_sequence_number (sa_log (sh_actor ?q)))
    (ended (handle_id ?p) (last_sequence_number (sa_log (sh_actor ?p))) (ks_shards s))"
  have r: "hr_start r \<le> hr_end r" "hr_end r \<le> hash_key_max" using b by (auto simp: r_def)
  have idx: "(if i2 < i1 then (i1, i2) else (i2, i1)) = (hi, lo)" using ne by (auto simp: hi_def lo_def)
  have fields: "merge_streams env i1 i2 s =
      s\<lparr>ks_active := rest @ [h], ks_closed := ks_closed s @ [closed_handle ?p, closed_handle ?q],
        ks_shards := shards @ [sh_info h], ks_next_index := ?n + 1\<rparr>"
    unfolding merge_streams_def idx
    by (simp add: close_shard_handle mark_shard_closed_ended spawn_child_fields Let_def q
        h_def pa_def r_def shards_def rest_def handle_id_def handle_range_def closed_handle_def)
  have ids: "ids_ok s" using s by (simp add: stream_ok_def)
  have hs: "(si_shard_id x \<in> {handle_id ?p, handle_id ?q} \<longrightarrow> si_ending_sequence_number x \<noteq> None) \<and>
      (si_shard_id x \<notin> {handle_id ?p, handle_id ?q} \<longrightarrow> x \<in> set (ks_shards s))" if "x \<in> set shards" for x
    using that ended_set [of "ended (handle_id ?p) (last_sequence_number (sa_log (sh_actor ?p))) (ks_shards s)" x]
      ended_set [OF history_distinct [OF ids], of x "handle_id ?p"] history_distinct [OF ids]
    by (auto simp: shards_def)
  show ?thesis unfolding fields
  proof (rule reshape_ok [OF s, of "[?p, ?q]" rest _ "[h]" shards])
    show "map handle_id [h] = map format_shard_id [?n..<?n + length [h]]" by (simp add: h_def)
    show "handle_ok x \<and> \<not> sa_closed (sh_actor x) \<and> si_ending_sequence_number (sh_info x) = None" if "x \<in> set [h]" for x
      using that r by (auto simp: h_def intro!: spawn_ok)
    have "exact_cover (map handle_range ?act)" using s i by (auto simp: stream_ok_def)
    moreover have "coverage (map handle_range (rest @ [h])) k = coverage (map handle_range ?act) k" for k
    proof -
      have "coverage (map handle_range ?act) k =
          (if range_contains (handle_range ?p) k then 1 else 0) + ((if range_contains (handle_range ?q) k then 1 else 0) + coverage (map handle_range rest) k)"
        unfolding coverage_remove_nth [OF hl(2)] coverage_remove_nth [OF lo] q rest_def ..
      moreover have "(if range_contains (handle_range ?p) k then 1 else 0) + (if range_contains (handle_range ?q) k then 1 else 0) =
          (if range_contains ?r1 k then 1 else 0 :: nat) + (if range_contains ?r2 k then 1 else 0)"
        using ne by (auto simp: hi_def lo_def max_def min_def)
      ultimately show ?thesis
        using merge_contains [OF adj b(1,3), of k] r unfolding r_def [symmetric] by (simp add: h_def spawn_range)
    qed
    ultimately show "exact_cover (map handle_range (rest @ [h]))" by (simp add: exact_cover_def)
  qed (use hs act in \<open>auto simp: shards_def\<close>)
qed

section \<open>All requests\<close>

lemma actor_put_keeps:
  "actor_put now data pk ehk a = (r, a') \<Longrightarrow> sa_shard_id a' = sa_shard_id a \<and> sa_closed a' = sa_closed a"
  by (auto simp: actor_put_def split: if_splits prod.splits)

lemma put_to_shard_shape:
  assumes "put_to_shard env i e s = (r, s')" "i < length (ks_active s)"
  shows "shape s' = shape s"
proof -
  obtain r' a where a: "actor_put (ke_now env) (pe_data e) (pe_partition_key e) (pe_explicit_hash_key e)
      (sh_actor (ks_active s ! i)) = (r', a)" by fastforce
  then have "s' = s\<lparr>ks_active := (ks_active s)[i := (ks_active s ! i)\<lparr>sh_actor := a\<rparr>]\<rparr>"
    using assms(1) by (simp add: put_to_shard_def Let_def)
  moreover have "handle_shape ((ks_active s ! i)\<lparr>sh_actor := a\<rparr>) = handle_shape (ks_active s ! i)"
    using actor_put_keeps [OF a] by (simp add: handle_shape_def)
  ultimately show ?thesis
    using assms(2) by (simp add: shape_def map_update) (metis list_update_id nth_map)
qed

lemma route_length: "route_to_shard env hs pk ehk = Inr i \<Longrightarrow> i < length hs"
  using position_of_Some [of "\<lambda>h. range_contains (parse_hash_range_from_info (sh_info h)) _" hs]
  by (auto simp: route_to_shard_def res_map_Inr unwrap_or_def split: if_splits option.splits)

lemma put_entries_shape: "put_entries env es s = (rs, s') \<Longrightarrow> shape s' = shape s"
proof (induction es arbitrary: s rs)
  case (Cons e es)
  show ?case
  proof (cases "route_to_shard env (ks_active s) (pe_partition_key e) (pe_explicit_hash_key e)")
    case (Inr i)
    obtain r s1 where s1: "put_to_shard env i e s = (r, s1)" by fastforce
    then have "shape s1 = shape s" using put_to_shard_shape route_length [OF Inr] by blast
    moreover obtain rs1 where "put_entries env es s1 = (rs1, s')"
      using Cons.prems Inr s1 by (auto split: prod.splits sum.splits)
    ultimately show ?thesis using Cons.IH by metis
  qed (use Cons in \<open>auto split: prod.splits\<close>)
qed simp

definition request_ok :: "kinesis_env \<times> kinesis_request \<Rightarrow> bool" where
  "request_ok r \<longleftrightarrow> ke_default_shards (fst r) < 2 ^ 32 \<and>
     (case snd r of KCreateStream i \<Rightarrow> (case ci_shard_count i of None \<Rightarrow> True | Some c \<Rightarrow> c < 2 ^ 31) | _ \<Rightarrow> True)"

definition kinesis_ok :: "kinesis \<Rightarrow> bool" where
  "kinesis_ok k \<longleftrightarrow> (\<forall>n s. bt_get k n = Some s \<longrightarrow> stream_ok s)"

lemma kinesis_ok_insert: "kinesis_ok k \<Longrightarrow> stream_ok s \<Longrightarrow> kinesis_ok (bt_insert n s k)"
  by (simp add: kinesis_ok_def bt_get_insert)

lemma kinesis_ok_get: "kinesis_ok k \<Longrightarrow> get_stream k n = Inr s \<Longrightarrow> stream_ok s"
  by (auto simp: kinesis_ok_def get_stream_def ok_or_def split: option.splits)

lemma keep_state_ok: "kinesis_ok k \<Longrightarrow> (\<And>x k'. r = Inr (x, k') \<Longrightarrow> kinesis_ok k') \<Longrightarrow> kinesis_ok (keep_state k r)"
  by (auto simp: keep_state_def split: sum.splits)

lemma update_stream_ok:
  assumes "kinesis_ok k" "update_stream n f k = Inr (x, k')"
    and "\<And>s s'. f s = Inr s' \<Longrightarrow> shape s' = shape s"
  shows "kinesis_ok k'"
  using assms kinesis_ok_get [OF assms(1)] stream_ok_shape
  by (auto simp: update_stream_def res_bind_Inr_iff res_map_Inr intro!: kinesis_ok_insert)

lemma create_stream_ok:
  assumes "kinesis_ok k" "request_ok (env, KCreateStream i)" "create_stream env i k = Inr (x, k')"
  shows "kinesis_ok k'"
proof -
  let ?n = "case ci_shard_count i of None \<Rightarrow> ke_default_shards env | Some c \<Rightarrow> i32_to_usize c"
  let ?mk = "\<lambda>(j, r). spawn_shard (format_shard_id j) (j mod 65536) r (ke_default_hours env * 3600) (now_epoch_millis env) None None"
  let ?hs = "map ?mk (enumerate 0 (divide_evenly ?n))"
  have n: "?n \<le> 2 ^ 64"
  proof -
    have "ke_default_shards env < 2 ^ 32" using assms(2) by (simp add: request_ok_def)
    then show ?thesis using assms(2) by (auto simp: request_ok_def i32_to_usize_def split: option.splits)
  qed
  have len: "length (divide_evenly ?n) = ?n" by (simp add: divide_evenly_def)
  have rs: "\<forall>r\<in>set (divide_evenly ?n). hr_start r \<le> hr_end r \<and> hr_end r \<le> hash_key_max"
    using divide_evenly_cover(2) [of ?n] n by (cases "?n = 0") (auto simp: divide_evenly_def)
  have nth: "?hs ! j = ?mk (j, divide_evenly ?n ! j)" if "j < ?n" for j
    using that len by (simp add: nth_enumerate_eq)
  have ids: "map handle_id ?hs = map format_shard_id [0..<?n]"
    using len by (intro nth_equalityI) (auto simp: nth_enumerate_eq)
  have ranges: "map handle_range ?hs = divide_evenly ?n"
    using len rs by (intro nth_equalityI) (auto simp: nth_enumerate_eq spawn_range)
  have good: "handle_ok h \<and> \<not> sa_closed (sh_actor h) \<and> si_ending_sequence_number (sh_info h) = None" if "h \<in> set ?hs" for h
    using that rs by (auto simp: in_set_enumerate_eq intro!: spawn_ok)
  have cover: "?hs = [] \<or> exact_cover (map handle_range ?hs)"
    using divide_evenly_cover(1) [of ?n] n len unfolding ranges by (cases "?n = 0") auto
  obtain s where s: "k' = bt_insert (ci_stream_name i) s k" "ks_active s = ?hs" "ks_closed s = []"
      "ks_shards s = map sh_info ?hs" "ks_next_index s = ?n"
    using assms(3) by (auto simp: create_stream_def res_bind_Inr_iff Let_def split: if_splits)
  have "map si_shard_id (map sh_info ?hs) = map handle_id ?hs" by (simp add: handle_id_def)
  then have "ids_ok s"
    by (simp only: ids_ok_def all_handles_def s append_Nil2 ids)
  moreover have "history_ok s"
  proof -
    have "si_ending_sequence_number j = None \<longleftrightarrow> si_shard_id j \<in> handle_id ` set hs"
      if "\<forall>h\<in>set hs. si_ending_sequence_number (sh_info h) = None" "j \<in> set (map sh_info hs)" for j hs
      using that by (auto simp: handle_id_def)
    then show ?thesis using good unfolding history_ok_def s(2,4) by blast
  qed
  ultimately have "stream_ok s"
    using cover good by (simp only: stream_ok_def all_handles_def s append_Nil2 empty_iff list.set) blast
  then show ?thesis using s(1) assms(1) kinesis_ok_insert by blast
qed

lemma tick_handle_shape: "handle_shape (tick_handle now i h) = handle_shape h"
  by (simp add: handle_shape_def tick_handle_def)

lemma delete_stream_ok:
  assumes "kinesis_ok k" "delete_stream n a k = Inr (x, k')" shows "kinesis_ok k'"
  using assms by (auto simp: delete_stream_def res_bind_Inr_iff kinesis_ok_def bt_get_filter_out split: if_splits)

lemma put_record_ok:
  assumes k: "kinesis_ok k" and r: "put_record env n a e k = Inr (x, k')"
  shows "kinesis_ok k'"
proof -
  obtain m s i where m: "get_stream k m = Inr s"
    "route_to_shard env (ks_active s) (pe_partition_key e) (pe_explicit_hash_key e) = Inr i"
    "(case put_to_shard env i e s of
         (Inl _, s') \<Rightarrow> Inl KinesisInternal
       | (Inr (q, shard), s') \<Rightarrow>
           Inr (\<lparr>po_sequence_number = q, po_shard_id = shard, po_encryption = ks_encryption s\<rparr>, bt_insert m s' k)) = Inr (x, k')"
    using r by (auto simp: put_record_def res_bind_Inr_iff)
  moreover obtain y s' where "put_to_shard env i e s = (y, s')" by fastforce
  ultimately have p: "get_stream k m = Inr s"
    "route_to_shard env (ks_active s) (pe_partition_key e) (pe_explicit_hash_key e) = Inr i"
    "put_to_shard env i e s = (y, s')" "k' = bt_insert m s' k"
    by (auto split: sum.splits)
  have "stream_ok s'"
    using stream_ok_shape [OF put_to_shard_shape [OF p(3) route_length [OF p(2)]] kinesis_ok_get [OF k p(1)]] .
  then show ?thesis using k p(4) kinesis_ok_insert by blast
qed

lemma put_records_ok:
  assumes k: "kinesis_ok k" and r: "put_records env n a es k = Inr (x, k')"
  shows "kinesis_ok k'"
proof -
  obtain m s where m: "get_stream k m = Inr s" "k' = bt_insert m (snd (put_entries env es s)) k"
    using r by (auto simp: put_records_def res_bind_Inr_iff case_prod_beta Let_def split: if_splits)
  moreover obtain rs s' where "put_entries env es s = (rs, s')" by fastforce
  ultimately have p: "get_stream k m = Inr s" "put_entries env es s = (rs, s')" "k' = bt_insert m s' k"
    by simp_all
  have "stream_ok s'"
    using stream_ok_shape [OF put_entries_shape [OF p(2)] kinesis_ok_get [OF k p(1)]] .
  then show ?thesis using k p(3) kinesis_ok_insert by blast
qed

lemma ok_or_Inr: "ok_or e x = Inr y \<longleftrightarrow> x = Some y"
  by (cases x) (simp_all add: ok_or_def)

lemma split_shard_ok:
  assumes k: "kinesis_ok k" and r: "split_shard env n a d h k = Inr (x, k')"
  shows "kinesis_ok k'"
proof -
  obtain m s i new where p: "get_stream k m = Inr s"
    "position_of (\<lambda>h. si_shard_id (sh_info h) = d) (ks_active s) = Some i"
    "\<not> new \<le> hr_start (handle_range (ks_active s ! i))" "\<not> hr_end (handle_range (ks_active s ! i)) < new"
    "k' = bt_insert m (split_stream env i new s) k"
    using r unfolding split_shard_def res_bind_Inr_iff ok_or_Inr Let_def handle_range_def [symmetric]
    by (auto split: if_splits)
  have "stream_ok (split_stream env i new s)"
    using split_ok [OF kinesis_ok_get [OF k p(1)]] p(3,4) position_of_Some [OF p(2)] by simp
  then show ?thesis using k p(5) kinesis_ok_insert by blast
qed

lemma merge_shards_ok:
  assumes k: "kinesis_ok k" and r: "merge_shards env n a d1 d2 k = Inr (x, k')"
  shows "kinesis_ok k'"
proof -
  obtain m s i j where p: "get_stream k m = Inr s"
    "position_of (\<lambda>h. si_shard_id (sh_info h) = d1) (ks_active s) = Some i"
    "position_of (\<lambda>h. si_shard_id (sh_info h) = d2) (ks_active s) = Some j"
    "adjacent_ranges (handle_range (ks_active s ! i)) (handle_range (ks_active s ! j))"
    "k' = bt_insert m (merge_streams env i j s) k"
    using r unfolding merge_shards_def res_bind_Inr_iff ok_or_Inr handle_range_def [symmetric]
    by (auto split: if_splits)
  have "stream_ok (merge_streams env i j s)"
    using merge_ok [OF kinesis_ok_get [OF k p(1)] _ _ p(4)] position_of_Some [OF p(2)] position_of_Some [OF p(3)] by blast
  then show ?thesis using k p(5) kinesis_ok_insert by blast
qed

lemma register_ok:
  assumes k: "kinesis_ok k" and r: "register_stream_consumer env a c k = Inr (x, k')"
  shows "kinesis_ok k'"
proof -
  obtain m s cs where p: "get_stream k m = Inr s" "k' = bt_insert m (s\<lparr>ks_consumers := cs\<rparr>) k"
    using r by (auto simp: register_stream_consumer_def res_bind_Inr_iff Let_def split: if_splits)
  have "stream_ok (s\<lparr>ks_consumers := cs\<rparr>)"
    by (rule stream_ok_shape [OF _ kinesis_ok_get [OF k p(1)]]) (simp add: shape_def)
  then show ?thesis using k p(2) kinesis_ok_insert by blast
qed

lemma tick_ok: "kinesis_ok k \<Longrightarrow> kinesis_ok (kinesis_step k (env, KTick n i))"
proof -
  assume k: "kinesis_ok k"
  show ?thesis
  proof (cases "bt_get k n")
    case (Some s)
    let ?s = "s\<lparr>ks_active := map (tick_handle (ke_now env) i) (ks_active s),
      ks_closed := map (tick_handle (ke_now env) i) (ks_closed s)\<rparr>"
    have "stream_ok s" using k Some by (simp add: kinesis_ok_def)
    then have "stream_ok ?s"
      by (rule stream_ok_shape [rotated]) (simp add: shape_def tick_handle_shape comp_def)
    then show ?thesis using k Some kinesis_ok_insert by simp
  qed (simp add: k)
qed

lemmas update_request_defs = add_tags_to_stream_def remove_tags_from_stream_def increase_stream_retention_period_def
  decrease_stream_retention_period_def start_stream_encryption_def stop_stream_encryption_def
  deregister_stream_consumer_def put_resource_policy_def delete_resource_policy_def

lemma kinesis_step_ok:
  assumes k: "kinesis_ok k" and r: "request_ok r"
  shows "kinesis_ok (kinesis_step k r)"
proof -
  obtain env q where q: "r = (env, q)" by (cases r)
  note keep = keep_state_ok [OF k] and upd = update_stream_ok [OF k]
  show ?thesis
  proof (cases q)
    case (KCreateStream i)
    then show ?thesis unfolding q using create_stream_ok [OF k] r q by (auto intro: keep)
  next
    case (KDeleteStream n a)
    then show ?thesis unfolding q using delete_stream_ok [OF k] by (auto intro: keep)
  next
    case (KPutRecord n a e)
    then show ?thesis unfolding q using put_record_ok [OF k] by (auto intro: keep)
  next
    case (KPutRecords n a es)
    then show ?thesis unfolding q using put_records_ok [OF k] by (auto intro: keep)
  next
    case (KSplitShard n a i h)
    then show ?thesis unfolding q using split_shard_ok [OF k] by (auto intro: keep)
  next
    case (KMergeShards n a i h)
    then show ?thesis unfolding q using merge_shards_ok [OF k] by (auto intro: keep)
  next
    case (KRegisterConsumer a c)
    then show ?thesis unfolding q using register_ok [OF k] by (auto intro: keep)
  next
    case (KTick n i)
    then show ?thesis unfolding q using tick_ok [OF k] by blast
  qed (unfold q, simp_all, auto intro!: keep elim!: upd simp: update_request_defs res_bind_Inr_iff shape_def split: if_splits)
qed

interpretation kin: rooted_machine kinesis_step "\<lambda>k r. request_ok r" kinesis_ok "[]"
  by unfold_locales (simp_all add: kinesis_step_ok, simp add: kinesis_ok_def)

section \<open>Puts\<close>

lemma one_range:
  assumes "exact_cover (map handle_range hs)" "i < length hs" "j < length hs"
    and "range_contains (handle_range (hs ! i)) key" "range_contains (handle_range (hs ! j)) key"
  shows "j = i"
proof -
  let ?S = "{l. l < length hs \<and> range_contains (handle_range (hs ! l)) key}"
  have "card ?S = coverage (map handle_range hs) key"
    by (simp add: coverage_def filter_map comp_def length_filter_conv_card)
  then have "card ?S \<le> 1" using assms(1) by (simp add: exact_cover_def)
  then show ?thesis using assms(2-) card_le_Suc0_iff_eq [of ?S] by auto
qed

lemma put_record_stored:
  assumes s: "stream_ok s" "bt_get k n = Some s"
    and i: "route_to_shard env (ks_active s) (pe_partition_key e) (pe_explicit_hash_key e) = Inr i" "i < length (ks_active s)"
    and v: "validate_partition_key (pe_partition_key e) = Inr ()" "validate_data_size (pe_data e) = Inr ()"
  shows "\<exists>out k'. put_record env (Some n) None e k = Inr (out, k') \<and> po_shard_id out = handle_id (ks_active s ! i)"
proof -
  let ?h = "ks_active s ! i"
  have h: "\<not> sa_closed (sh_actor ?h)" "sa_shard_id (sh_actor ?h) = handle_id ?h"
    using s(1) i(2) by (simp_all add: stream_ok_def all_handles_def handle_ok_def)
  then obtain q a where "actor_put (ke_now env) (pe_data e) (pe_partition_key e) (pe_explicit_hash_key e) (sh_actor ?h) =
      (Inr (q, handle_id ?h), a)"
    by (simp add: actor_put_def next_sequence_def Let_def)
  then show ?thesis
    using s i v by (simp add: put_record_def resolve_stream_name_def get_stream_def ok_or_def put_to_shard_def Let_def)
qed

section \<open>Findings\<close>

text \<open>The parent of a merged shard is the lower of the two only when it has the higher index.\<close>

lemma merge_parent:
  "ks_shards (merge_streams env i j s) \<noteq> [] \<and>
   si_parent_shard_id (last (ks_shards (merge_streams env i j s))) =
     Some (handle_id (ks_active s ! (if (j < i) = (hr_start (handle_range (ks_active s ! i)) < hr_start (handle_range (ks_active s ! j)))
       then i else j)))" if "i < length (ks_active s)" "j < length (ks_active s)" "i \<noteq> j"
  using that
  by (auto simp: merge_streams_def close_shard_handle mark_shard_closed_ended spawn_child_fields spawn_shard_def Let_def
      handle_id_def handle_range_def remove_nth_def nth_append min_def)

text \<open>A new retention period does not reach the logs of the shards.\<close>

lemma retention_not_applied:
  assumes "increase_stream_retention_period name arn hours k = Inr (x, k')" "bt_get k n = Some s"
  shows "\<exists>s'. bt_get k' n = Some s' \<and> ks_active s' = ks_active s"
proof -
  obtain m t r where "get_stream k m = Inr t" "k' = bt_insert m (t\<lparr>ks_retention_secs := r\<rparr>) k"
    using assms(1) by (auto simp: increase_stream_retention_period_def update_stream_def res_bind_Inr_iff res_map_Inr
        split: if_splits)
  then show ?thesis using assms(2) by (auto simp: get_stream_def ok_or_Inr bt_get_insert)
qed

end
