(* ===== verification/Kinesis_Log.thy ===== *)
theory Kinesis_Log
  imports Kinesis_Invariant
begin

text \<open>
  Reading a shard: sequence numbers grow, a consumer that follows its iterator sees every record once
  and in order, and a checkpoint resumes where it was taken.
\<close>

section \<open>Sequence numbers\<close>

text \<open>The \<open>i\<close>-th sequence number of a generator, and generators whose low half is free for the counter.\<close>

definition nth_sequence :: "128 word \<Rightarrow> nat \<Rightarrow> sequence_number" where
  "nth_sequence prefix i = or prefix (ucast (of_nat i :: 64 word))"

definition prefix_ok :: "128 word \<Rightarrow> bool" where
  "prefix_ok prefix \<longleftrightarrow> (\<exists>p :: 64 word. prefix = push_bit 64 (ucast p))"

lemma unat_nth_sequence:
  fixes p :: "64 word"
  assumes "i < 2 ^ 64"
  shows "unat (nth_sequence (push_bit 64 (ucast p)) i) = unat p * 2 ^ 64 + i"
proof -
  let ?x = "push_bit 64 (ucast p) :: 128 word" and ?y = "ucast (of_nat i :: 64 word) :: 128 word"
  have p: "unat p < 2 ^ 64" using unsigned_less [of p] by simp
  have "and ?x ?y = 0"
    by (rule bit_word_eqI) (auto simp: bit_simps)
  then have "nth_sequence ?x i = ?x + ?y"
    unfolding nth_sequence_def using word_plus_and_or [of ?x ?y] by simp
  moreover have "unat ?x = unat p * 2 ^ 64"
    using p by (simp add: push_bit_eq_mult unat_word_ariths unsigned_ucast_eq take_bit_eq_mod)
  moreover have "unat ?y = i" using assms by (simp add: unsigned_ucast_eq take_bit_eq_mod unat_of_nat)
  moreover have "unat p * 2 ^ 64 + i < 2 ^ 128"
  proof -
    have "(unat p + 1) * 2 ^ 64 \<le> 2 ^ 64 * (2 ^ 64 :: nat)" using p by (intro mult_le_mono) auto
    then show ?thesis using assms by simp
  qed
  ultimately show ?thesis by (simp add: unat_word_ariths)
qed

lemma nth_sequence_less:
  assumes "prefix_ok p" "i < 2 ^ 64" "j < 2 ^ 64"
  shows "nth_sequence p i < nth_sequence p j \<longleftrightarrow> i < j"
proof -
  obtain q :: "64 word" where "p = push_bit 64 (ucast q)" using assms(1) by (auto simp: prefix_ok_def)
  then show ?thesis using unat_nth_sequence assms(2,3) by (simp add: word_less_nat_alt)
qed

lemma new_generator_ok: "prefix_ok (sg_prefix (new_generator i ms))" "sg_counter (new_generator i ms) = 0"
  by (auto simp: new_generator_def prefix_ok_def)

lemma show_padded_digits: "c \<in> set (show_padded d n) \<Longrightarrow> is_ascii_digit c"
proof -
  have "is_ascii_digit (CHR ''0'')" by (simp add: is_ascii_digit_def byte_of_def)
  moreover assume "c \<in> set (show_padded d n)"
  ultimately show ?thesis using set_show_nat [of c n] by (auto simp: show_padded_def split: if_splits)
qed

lemma parse_padded: "n < 2 ^ w \<Longrightarrow> parse_uint w (show_padded d n) = Some n"
proof -
  assume n: "n < 2 ^ w"
  have "show_padded d n \<noteq> []" by (simp add: show_padded_def)
  then obtain c s where s: "show_padded d n = c # s" by (cases "show_padded d n") auto
  then have "is_ascii_digit c" using show_padded_digits [of c d n] by simp
  then have "c \<noteq> CHR ''+''" by (auto simp: is_ascii_digit_def byte_of_def)
  then show ?thesis using n digits_val_padded [of d n] s by (simp add: parse_uint_def)
qed

lemma parse_sequence_padded: "parse_sequence_number (to_padded_string q) = Some q"
  by (simp add: parse_sequence_number_def to_padded_string_def parse_padded unsigned_less [of q, simplified])

section \<open>The log and its history\<close>

text \<open>\<open>G\<close> is the list of all records that the shard has accepted: the log is what is left of it after the
  trimmed records, and the sequence numbers are those of the generator in order.\<close>

definition log_of :: "stored_record list \<Rightarrow> shard_actor \<Rightarrow> bool" where
  "log_of G a \<longleftrightarrow> rl_trim_offset (sa_log a) \<le> length G \<and>
     rl_records (sa_log a) = drop (rl_trim_offset (sa_log a)) G \<and>
     prefix_ok (sg_prefix (sa_seq_gen a)) \<and> sg_counter (sa_seq_gen a) = of_nat (length G) \<and>
     (\<forall>i<length G. sr_sequence_number (G ! i) = nth_sequence (sg_prefix (sa_seq_gen a)) i)"

text \<open>What an event accepts.\<close>

fun accepted :: "int \<times> shard_event \<Rightarrow> shard_actor \<Rightarrow> stored_record list" where
  "accepted (now, ShCommand (ShPut data pk ehk)) a =
     (if sa_closed a then []
      else [\<lparr>sr_sequence_number = fst (next_sequence (sa_seq_gen a)), sr_data = data, sr_partition_key = pk,
             sr_explicit_hash_key = ehk, sr_arrival = now, sr_encryption_type = None\<rparr>])"
| "accepted e a = []"

definition after_event :: "int \<times> shard_event \<Rightarrow> shard_actor \<Rightarrow> shard_actor" where
  "after_event e a = fst (snd (shard_step e a))"

lemma log_of_new: "log_of [] (sh_actor (spawn_shard sid ix r ret ms pa ad))"
  by (simp add: log_of_def spawn_shard_def new_log_def new_generator_ok Let_def)

lemma log_of_step:
  assumes "log_of G a"
  shows "log_of (G @ accepted e a) (after_event e a) \<and> rl_trim_offset (sa_log a) \<le> rl_trim_offset (sa_log (after_event e a))"
proof (cases e)
  case (Pair now ev)
  show ?thesis
  proof (cases ev)
    case (ShCommand c)
    show ?thesis
    proof (cases c)
      case (ShPut data pk ehk)
      then show ?thesis
        using assms Pair ShCommand
        by (auto simp: log_of_def after_event_def actor_put_def next_sequence_def append_record_def nth_append
            nth_sequence_def Let_def less_Suc_eq)
    qed (use assms Pair ShCommand in \<open>auto simp: after_event_def log_of_def case_prod_beta\<close>)
  next
    case ShTick
    let ?l = "sa_log a"
    let ?n = "length (takeWhile (\<lambda>r. sr_arrival r < now - int (rl_retention_secs ?l) * nanos_per_second) (rl_records ?l))"
    have le: "?n \<le> length (rl_records ?l)" by (rule length_takeWhile_le)
    have t: "trim_expired now ?l = ?l\<lparr>rl_records := drop ?n (rl_records ?l), rl_trim_offset := rl_trim_offset ?l + ?n\<rparr>"
      by (simp add: trim_expired_def Let_def)
    have "after_event e a = a\<lparr>sa_log := trim_expired now ?l\<rparr>" using Pair ShTick by (simp add: after_event_def)
    then show ?thesis using assms le Pair ShTick unfolding t by (auto simp: log_of_def add.commute)
  qed
qed

section \<open>A consumer\<close>

text \<open>A consumer reads with the position that the last read returned, while the shard goes on.\<close>

datatype log_event = Happens "int \<times> shard_event" | Reads nat

fun consume :: "log_event \<Rightarrow> shard_actor \<times> nat \<times> stored_record list \<Rightarrow> shard_actor \<times> nat \<times> stored_record list" where
  "consume (Happens e) (a, p, rs) = (after_event e a, p, rs)"
| "consume (Reads limit) (a, p, rs) = (let (xs, q) = log_get_records p limit (sa_log a) in (a, q, rs @ xs))"

fun accepted_by :: "log_event \<Rightarrow> shard_actor \<Rightarrow> stored_record list" where
  "accepted_by (Happens e) a = accepted e a"
| "accepted_by (Reads limit) a = []"

fun history :: "log_event list \<Rightarrow> shard_actor \<Rightarrow> stored_record list" where
  "history [] a = []"
| "history (e # es) a = accepted_by e a @ history es (fst (consume e (a, 0, [])))"

lemma fst_consume: "fst (consume e (a, p, rs)) = fst (consume e (a, 0, []))"
  by (cases e) (auto simp: Let_def split: prod.split)

text \<open>Reading from a position returns a piece of the history that starts at the position, or at the oldest
  record that is left.\<close>

lemma nth_upt_take: "q \<le> length G \<Longrightarrow> map ((!) G) [m..<q] = take (q - m) (drop m G)"
  by (intro nth_equalityI) auto

lemma get_records_history:
  assumes "log_of G a" "p \<le> length G" "log_get_records p limit (sa_log a) = (xs, q)"
  shows "q \<le> length G \<and> p \<le> q \<and> max p (rl_trim_offset (sa_log a)) \<le> q \<and>
    xs = map ((!) G) [max p (rl_trim_offset (sa_log a))..<q]"
proof -
  let ?l = "sa_log a"
  let ?o = "rl_trim_offset ?l"
  have o: "?o \<le> length G" "rl_records ?l = drop ?o G" using assms(1) by (simp_all add: log_of_def)
  have m: "max p ?o = ?o + (p - ?o)" by auto
  show ?thesis
  proof (cases "length (rl_records ?l) \<le> p - ?o")
    case True
    then have "xs = []" "q = length G"
      using assms(3) o by (auto simp: log_get_records_def latest_position_def Let_def)
    moreover have "length G \<le> max p ?o" using True o by auto
    ultimately show ?thesis using assms(2) o(1) by auto
  next
    case False
    define f where "f = min (p - ?o + limit) (length (rl_records ?l))"
    have "xs = take (f - (p - ?o)) (drop (p - ?o) (rl_records ?l))" "q = ?o + f"
      using assms(3) False by (auto simp: log_get_records_def Let_def f_def)
    moreover have "f \<le> length (rl_records ?l)" "p - ?o \<le> f" using False by (auto simp: f_def)
    ultimately have "q \<le> length G" "max p ?o \<le> q" "xs = take (q - max p ?o) (drop (max p ?o) G)"
      using o by (auto simp: m add.commute)
    then show ?thesis by (simp add: nth_upt_take)
  qed
qed

text \<open>The records received are those at increasing positions, and a position that was passed over had been
  trimmed.\<close>

definition received_ok :: "stored_record list \<Rightarrow> nat \<Rightarrow> shard_actor \<times> nat \<times> stored_record list \<Rightarrow> bool" where
  "received_ok G start st \<longleftrightarrow> (case st of (a, p, rs) \<Rightarrow>
     log_of G a \<and> start \<le> p \<and> p \<le> length G \<and>
     (\<exists>js. sorted_wrt (<) js \<and> set js \<subseteq> {start..<p} \<and> rs = map ((!) G) js \<and>
        (\<forall>i\<in>{start..<p} - set js. i < rl_trim_offset (sa_log a))))"

lemma consume_ok:
  assumes "received_ok G start (a, p, rs)"
  shows "received_ok (G @ accepted_by e a) start (consume e (a, p, rs))"
proof -
  obtain js where js: "sorted_wrt (<) js" "set js \<subseteq> {start..<p}" "rs = map ((!) G) js"
    "\<forall>i\<in>{start..<p} - set js. i < rl_trim_offset (sa_log a)" and b: "log_of G a" "start \<le> p" "p \<le> length G"
    using assms by (auto simp: received_ok_def)
  show ?thesis
  proof (cases e)
    case (Happens ev)
    have "map ((!) (G @ accepted ev a)) js = map ((!) G) js"
      using js(2) b(3) by (auto simp: nth_append)
    moreover have "\<forall>i\<in>{start..<p} - set js. i < rl_trim_offset (sa_log (after_event ev a))"
      using js(4) log_of_step [OF b(1), of ev] order_less_le_trans by blast
    ultimately show ?thesis
      using js b log_of_step [OF b(1), of ev] Happens
      by (auto simp: received_ok_def intro!: exI [of _ js])
  next
    case (Reads limit)
    obtain xs q where x: "log_get_records p limit (sa_log a) = (xs, q)" by fastforce
    let ?m = "max p (rl_trim_offset (sa_log a))"
    note h = get_records_history [OF b(1,3) x]
    let ?js = "js @ [?m..<q]"
    have "sorted_wrt (<) ?js" using js(1,2) by (auto simp: sorted_wrt_append)
    moreover have "set ?js \<subseteq> {start..<q}" using js(2) h b(2) by auto
    moreover have "rs @ xs = map ((!) G) ?js" using js(3) h by simp
    moreover have "\<forall>i\<in>{start..<q} - set ?js. i < rl_trim_offset (sa_log a)"
    proof
      fix i assume i: "i \<in> {start..<q} - set ?js"
      show "i < rl_trim_offset (sa_log a)"
      proof (cases "i < p")
        case True
        then show ?thesis using i js(4) by simp
      next
        case False
        then show ?thesis using i by auto
      qed
    qed
    moreover have "start \<le> q" "q \<le> length G" using h b(2) by auto
    ultimately show ?thesis
      unfolding received_ok_def Reads consume.simps x Let_def prod.case accepted_by.simps append_Nil2
      using b(1) by blast
  qed
qed

lemma run_consume_ok:
  "received_ok G start (a, p, rs) \<Longrightarrow> received_ok (G @ history es a) start (fold consume es (a, p, rs))"
proof (induction es arbitrary: G a p rs)
  case (Cons e es)
  obtain a' p' rs' where c: "consume e (a, p, rs) = (a', p', rs')" by (cases "consume e (a, p, rs)")
  have "a' = fst (consume e (a, 0, []))" using c fst_consume [of e a p rs] by simp
  then show ?case using Cons.IH [of "G @ accepted_by e a" a' p' rs'] consume_ok [OF Cons.prems, of e] c by simp
qed simp

text \<open>A read with a positive limit gets on, so that enough of them reach the end.\<close>

lemma get_records_progress:
  assumes "log_of G a" "p < length G" "0 < limit" "log_get_records p limit (sa_log a) = (xs, q)"
  shows "p < q"
  using assms by (auto simp: log_get_records_def log_of_def Let_def latest_position_def split: if_splits)

lemma history_append:
  "history (es @ fs) a = history es a @ history fs (fst (fold consume es (a, p, rs)))"
proof (induction es arbitrary: a p rs)
  case (Cons e es)
  obtain a' p' rs' where c: "consume e (a, p, rs) = (a', p', rs')" by (cases "consume e (a, p, rs)")
  then have "a' = fst (consume e (a, 0, []))" using fst_consume [of e a p rs] by simp
  then show ?case using c Cons.IH [of a' p' rs'] by simp
qed simp

lemma history_reads: "history (replicate n (Reads l)) a = []"
  by (induction n) (auto simp: Let_def split: prod.split)

lemma reads_reach_end:
  "log_of G a \<Longrightarrow> p \<le> length G \<Longrightarrow> length G - p \<le> n \<Longrightarrow>
     \<exists>rs'. fold consume (replicate n (Reads (Suc l))) (a, p, rs) = (a, length G, rs')"
proof (induction n arbitrary: p rs)
  case (Suc n)
  obtain xs q where x: "log_get_records p (Suc l) (sa_log a) = (xs, q)" by fastforce
  have q: "q \<le> length G" "p \<le> q" using get_records_history [OF Suc.prems(1,2) x] by auto
  have "length G - q \<le> n"
    using get_records_progress [OF Suc.prems(1) _ _ x] Suc.prems(2,3) q by (cases "p < length G") auto
  then show ?case using Suc.IH [OF Suc.prems(1) q(1), of "rs @ xs"] x by simp
qed simp

section \<open>Checkpoints\<close>

lemma first_index_threshold:
  "(\<And>j. j < length xs \<Longrightarrow> P (xs ! j) \<longleftrightarrow> t \<le> j) \<Longrightarrow> t \<le> length xs \<Longrightarrow> first_index P xs = t"
proof (induction xs arbitrary: t)
  case (Cons x xs)
  show ?case
  proof (cases t)
    case 0
    then show ?thesis using Cons.prems(1) [of 0] by simp
  next
    case (Suc k)
    have "P (xs ! j) \<longleftrightarrow> k \<le> j" if "j < length xs" for j
      using Cons.prems(1) [of "Suc j"] that Suc by simp
    then have "first_index P xs = k" using Cons.IH Cons.prems(2) Suc by simp
    then show ?thesis using Cons.prems(1) [of 0] Suc by simp
  qed
qed simp

text \<open>The iterator types that name a record give its position, or the oldest one that is left.\<close>

lemma sequence_positions:
  assumes G: "log_of G a" "length G \<le> 2 ^ 64" and i: "i < length G"
  shows "position_after_sequence_number (sr_sequence_number (G ! i)) (sa_log a) = max (i + 1) (rl_trim_offset (sa_log a))"
    and "position_at_sequence_number (sr_sequence_number (G ! i)) (sa_log a) = max i (rl_trim_offset (sa_log a))"
proof -
  let ?l = "sa_log a" and ?p = "sg_prefix (sa_seq_gen a)"
  let ?o = "rl_trim_offset ?l"
  have o: "?o \<le> length G" "rl_records ?l = drop ?o G" "prefix_ok ?p" using G by (simp_all add: log_of_def)
  have seq: "sr_sequence_number (G ! j) = nth_sequence ?p j" if "j < length G" for j
    using G(1) that by (simp add: log_of_def)
  have less: "sr_sequence_number (G ! j) < sr_sequence_number (G ! k) \<longleftrightarrow> j < k" if "j < length G" "k < length G" for j k
    using that G(2) nth_sequence_less [OF o(3), of j k] by (simp add: seq)
  have "first_index (\<lambda>r. sr_sequence_number (G ! i) < sr_sequence_number r) (rl_records ?l) = i + 1 - ?o"
    using o i less by (intro first_index_threshold) auto
  then show "position_after_sequence_number (sr_sequence_number (G ! i)) ?l = max (i + 1) ?o"
    by (simp add: position_after_sequence_number_def)
  have "first_index (\<lambda>r. sr_sequence_number (G ! i) \<le> sr_sequence_number r) (rl_records ?l) = i - ?o"
    using o i less by (intro first_index_threshold) (auto simp: not_less [symmetric])
  then show "position_at_sequence_number (sr_sequence_number (G ! i)) ?l = max i ?o"
    by (simp add: position_at_sequence_number_def)
qed

section \<open>Iterator tokens\<close>

lemma splitn_parts:
  assumes "CHR '':'' \<notin> set a" "CHR '':'' \<notin> set b" "CHR '':'' \<notin> set c"
  shows "splitn 4 (CHR '':'') (a @ '':'' @ b @ '':'' @ c @ '':'' @ d) = [a, b, c, d]"
  using assms by (simp add: numeral_eq_Suc split_once_append)

lemma token_round_trip:
  assumes b64: "\<And>s. unb64 (b64 s) = Some s"
    and t: "CHR '':'' \<notin> set (it_stream_name t)" "CHR '':'' \<notin> set (it_shard_id t)" "it_position t < 2 ^ 64"
    and u: "valid_text (it_stream_name t)" "valid_text (it_shard_id t)" "valid_text (it_nonce t)"
  shows "decode_iterator unb64 (encode_iterator b64 t) = Some t"
proof -
  let ?pos = "show_nat (it_position t)"
  let ?raw = "it_stream_name t @ '':'' @ it_shard_id t @ '':'' @ ?pos @ '':'' @ it_nonce t"
  have "utf8_valid (map byte_of ?pos)"
    using set_show_nat digit_bytes by (intro utf8_valid_ascii) auto
  moreover have "byte_of (CHR '':'') < 128" by (simp add: byte_of_def)
  ultimately have "from_utf8 ?raw = Some ?raw"
    using u by (simp add: from_utf8_def valid_text_def utf8_valid_append)
  moreover have "CHR '':'' \<notin> set ?pos" using set_show_nat digit_bytes by blast
  ultimately show ?thesis
    using t b64 by (simp add: decode_iterator_def encode_iterator_def splitn_parts [simplified] parse_uint_show)
qed

end
