(* ===== verification/Kinesis_Properties.thy ===== *)
theory Kinesis_Properties
  imports Kinesis_Log
begin

text \<open>The properties of the Kinesis core, each with a witness that applies it to a small stream.\<close>

section \<open>Routing\<close>

text \<open>The records that a shard keeps.\<close>

definition shard_records :: "shard_handle \<Rightarrow> stored_record list" where
  "shard_records h = rl_records (sa_log (sh_actor h))"

text \<open>The stream after a put: shard \<open>i\<close> has the record of the entry as its last, with the answered
  sequence number; nothing else of the stream has changed but that shard's counter.\<close>

definition stored_on :: "nat \<Rightarrow> put_entry \<Rightarrow> put_record_output \<Rightarrow> stream_state \<Rightarrow> stream_state \<Rightarrow> bool" where
  "stored_on i e out s s' \<longleftrightarrow>
     (\<exists>r h. shard_records h = shard_records (ks_active s ! i) @ [r] \<and>
        sr_data r = pe_data e \<and> sr_partition_key r = pe_partition_key e \<and>
        sr_explicit_hash_key r = pe_explicit_hash_key e \<and>
        to_padded_string (sr_sequence_number r) = po_sequence_number out \<and>
        sh_info h = sh_info (ks_active s ! i) \<and> s' = s\<lparr>ks_active := (ks_active s)[i := h]\<rparr>)"

lemma put_record_stored_on:
  assumes s: "stream_ok s" "bt_get k n = Some s"
    and i: "route_to_shard env (ks_active s) (pe_partition_key e) (pe_explicit_hash_key e) = Inr i" "i < length (ks_active s)"
    and v: "validate_partition_key (pe_partition_key e) = Inr ()" "validate_data_size (pe_data e) = Inr ()"
  shows "\<exists>out s'. put_record env (Some n) None e k = Inr (out, bt_insert n s' k) \<and>
    po_shard_id out = handle_id (ks_active s ! i) \<and> stored_on i e out s s'"
proof -
  let ?h = "ks_active s ! i"
  have h: "\<not> sa_closed (sh_actor ?h)" "sa_shard_id (sh_actor ?h) = handle_id ?h"
    using s(1) i(2) by (simp_all add: stream_ok_def all_handles_def handle_ok_def)
  obtain q g where q: "next_sequence (sa_seq_gen (sh_actor ?h)) = (q, g)" by fastforce
  let ?r = "\<lparr>sr_sequence_number = q, sr_data = pe_data e, sr_partition_key = pe_partition_key e,
      sr_explicit_hash_key = pe_explicit_hash_key e, sr_arrival = ke_now env, sr_encryption_type = None\<rparr>"
  let ?a = "(sh_actor ?h)\<lparr>sa_log := append_record ?r (sa_log (sh_actor ?h)), sa_seq_gen := g\<rparr>"
  let ?s' = "s\<lparr>ks_active := (ks_active s)[i := ?h\<lparr>sh_actor := ?a\<rparr>]\<rparr>"
  let ?out = "\<lparr>po_sequence_number = to_padded_string q, po_shard_id = handle_id ?h, po_encryption = ks_encryption s\<rparr>"
  have "put_record env (Some n) None e k = Inr (?out, bt_insert n ?s' k)"
    using s i v h q by (simp add: put_record_def resolve_stream_name_def get_stream_def ok_or_def put_to_shard_def actor_put_def Let_def)
  moreover have "stored_on i e ?out s ?s'"
    unfolding stored_on_def by (intro exI [of _ ?r] exI [of _ "?h\<lparr>sh_actor := ?a\<rparr>"]) (simp add: shard_records_def append_record_def)
  ultimately show ?thesis by fastforce
qed

text \<open>C28. In every state that requests reach, a stream that has open shards accepts every well-formed
  record, and stores it on the one open shard whose range of hash keys holds the key of the record, by
  the digest or the explicit key: splits and merges leave no gap and no overlap, and the fallback to
  the first shard is never taken. The record is the last of that shard's log, with the data, the keys and
  the sequence number that the answer names; no other shard and no other stream changes.\<close>

theorem record_goes_to_its_shard:
  assumes "\<forall>r\<in>set rs. request_ok r"
    and "bt_get (run_ops kinesis_step [] rs) n = Some s" "ks_active s \<noteq> []"
    and "record_hash_key env (pe_partition_key e) (pe_explicit_hash_key e) = Inr key"
    and "validate_partition_key (pe_partition_key e) = Inr ()" "validate_data_size (pe_data e) = Inr ()"
  shows "\<exists>i out s'. put_record env (Some n) None e (run_ops kinesis_step [] rs) =
        Inr (out, bt_insert n s' (run_ops kinesis_step [] rs)) \<and>
      i < length (ks_active s) \<and> po_shard_id out = handle_id (ks_active s ! i) \<and> stored_on i e out s s' \<and>
      (\<forall>j<length (ks_active s). range_contains (handle_range (ks_active s ! j)) key \<longleftrightarrow> j = i)"
proof -
  have "kinesis_ok (run_ops kinesis_step [] rs)"
    using kin.inv_reachable [OF ok_run_mono] assms(1) by blast
  then have s: "stream_ok s" using assms(2) by (simp add: kinesis_ok_def)
  then have cover: "exact_cover (map handle_range (ks_active s))" using assms(3) by (simp add: stream_ok_def)
  obtain i where i: "route_to_shard env (ks_active s) (pe_partition_key e) (pe_explicit_hash_key e) = Inr i"
    "i < length (ks_active s)" "range_contains (handle_range (ks_active s ! i)) key"
    using route_in_range [OF s assms(3,4)] by blast
  then have "\<forall>j<length (ks_active s). range_contains (handle_range (ks_active s ! j)) key \<longleftrightarrow> j = i"
    using one_range [OF cover i(2) _ i(3)] by blast
  then show ?thesis using put_record_stored_on [OF s assms(2) i(1,2) assms(5,6)] i(2) by blast
qed

definition demo_kinesis_env :: kinesis_env where
  "demo_kinesis_env = \<lparr>ke_now = 1700000000000000000, ke_uuid = ''u'', ke_md5 = length, ke_b64_enc = (\<lambda>s. s),
     ke_b64_dec = Some, ke_region = ''us-east-1'', ke_account = ''000000000000'', ke_default_shards = 4, ke_default_hours = 24\<rparr>"

definition demo_create :: create_stream_input where
  "demo_create = \<lparr>ci_stream_name = ''s'', ci_shard_count = Some 2, ci_mode = None, ci_tags = []\<rparr>"

definition demo_requests :: "(kinesis_env \<times> kinesis_request) list" where
  "demo_requests = [(demo_kinesis_env, KCreateStream demo_create),
     (demo_kinesis_env, KMergeShards (Some ''s'') None ''shardId-000000000000'' ''shardId-000000000001'')]"

lemma demo_requests_ok: "\<forall>r\<in>set demo_requests. request_ok r"
  by (simp add: demo_requests_def request_ok_def demo_create_def demo_kinesis_env_def)

lemma merge_active: "ks_active (merge_streams env i j s) \<noteq> []"
  by (simp add: merge_streams_def spawn_child_fields Let_def split: prod.split)

lemma demo_stream:
  "\<exists>s. bt_get (run_ops kinesis_step [] demo_requests) ''s'' = Some s \<and> ks_active s \<noteq> []"
proof -
  define k where "k = keep_state [] (create_stream demo_kinesis_env demo_create [])"
  have "\<exists>s. bt_get k ''s'' = Some s \<and> length (ks_active s) = 2"
    by (simp add: k_def create_stream_def demo_create_def demo_kinesis_env_def validate_stream_name_def keep_state_def
        i32_to_usize_def divide_evenly_def Let_def)
  then obtain s where s: "bt_get k ''s'' = Some s" "ks_active s \<noteq> []" by fastforce
  let ?m = "merge_shards demo_kinesis_env (Some ''s'') None ''shardId-000000000000'' ''shardId-000000000001'' k"
  have run: "run_ops kinesis_step [] demo_requests = keep_state k ?m"
    by (simp add: demo_requests_def k_def)
  show ?thesis
  proof (cases ?m)
    case (Inl e)
    then show ?thesis using s by (simp add: run keep_state_def)
  next
    case (Inr y)
    then obtain i j where "y = ((), bt_insert ''s'' (merge_streams demo_kinesis_env i j s) k)"
      using s(1) by (auto simp: merge_shards_def resolve_stream_name_def get_stream_def ok_or_def res_bind_Inr_iff
          split: if_splits)
    then show ?thesis using Inr merge_active by (simp add: run keep_state_def bt_get_insert)
  qed
qed

definition demo_entry :: put_entry where
  "demo_entry = \<lparr>pe_data = ''x'', pe_partition_key = ''key'', pe_explicit_hash_key = None\<rparr>"

theorem record_goes_to_its_shard_witness:
  "\<exists>s i out s'. bt_get (run_ops kinesis_step [] demo_requests) ''s'' = Some s \<and>
      put_record demo_kinesis_env (Some ''s'') None demo_entry (run_ops kinesis_step [] demo_requests) =
        Inr (out, bt_insert ''s'' s' (run_ops kinesis_step [] demo_requests)) \<and>
      i < length (ks_active s) \<and> po_shard_id out = handle_id (ks_active s ! i) \<and>
      sr_data (last (shard_records (ks_active s' ! i))) = ''x'' \<and>
      (\<forall>j<length (ks_active s). range_contains (handle_range (ks_active s ! j)) 3 \<longleftrightarrow> j = i)"
proof -
  obtain s where s: "bt_get (run_ops kinesis_step [] demo_requests) ''s'' = Some s" "ks_active s \<noteq> []"
    using demo_stream by blast
  have "\<exists>i out s'. put_record demo_kinesis_env (Some ''s'') None demo_entry (run_ops kinesis_step [] demo_requests) =
        Inr (out, bt_insert ''s'' s' (run_ops kinesis_step [] demo_requests)) \<and>
      i < length (ks_active s) \<and> po_shard_id out = handle_id (ks_active s ! i) \<and> stored_on i demo_entry out s s' \<and>
      (\<forall>j<length (ks_active s). range_contains (handle_range (ks_active s ! j)) 3 \<longleftrightarrow> j = i)"
    by (rule record_goes_to_its_shard [OF demo_requests_ok s])
      (simp_all add: demo_entry_def record_hash_key_def from_partition_key_def demo_kinesis_env_def validate_partition_key_def
        validate_data_size_def)
  then obtain i out s' where p: "put_record demo_kinesis_env (Some ''s'') None demo_entry (run_ops kinesis_step [] demo_requests) =
        Inr (out, bt_insert ''s'' s' (run_ops kinesis_step [] demo_requests))"
    "i < length (ks_active s)" "po_shard_id out = handle_id (ks_active s ! i)" "stored_on i demo_entry out s s'"
    "\<forall>j<length (ks_active s). range_contains (handle_range (ks_active s ! j)) 3 \<longleftrightarrow> j = i" by blast
  from p(4) p(2) have "sr_data (last (shard_records (ks_active s' ! i))) = ''x''"
    by (auto simp: stored_on_def demo_entry_def)
  then show ?thesis using s(1) p(1-3,5) by blast
qed

section \<open>Reading\<close>

text \<open>C29. A consumer that starts at the oldest record of a new shard and reads from the position that the last
  read returned receives each accepted record at most once, in the order of the growing sequence numbers,
  while puts, clean-ups and the closing of the shard go on in between; what it passes over had been
  trimmed before it got there.\<close>

theorem consumer_reads_each_record_once:
  assumes "start = sh_actor (spawn_shard sid ix r ret ms pa ad)"
    and "fold consume es (start, 0, []) = (a, p, received)" "length (history es start) \<le> 2 ^ 64"
  shows "p \<le> length (history es start) \<and>
    sorted_wrt (\<lambda>x y. sr_sequence_number x < sr_sequence_number y) received \<and>
    (\<exists>js. sorted_wrt (<) js \<and> received = map ((!) (history es start)) js \<and>
       (\<forall>i<p. i \<in> set js \<or> i < rl_trim_offset (sa_log a)))"
proof -
  let ?H = "history es start"
  have "received_ok ?H 0 (a, p, received)"
    using run_consume_ok [of "[]" 0 start 0 "[]" es] log_of_new assms(1,2) by (simp add: received_ok_def)
  then obtain js where js: "sorted_wrt (<) js" "set js \<subseteq> {0..<p}" "received = map ((!) ?H) js"
    "\<forall>i\<in>{0..<p} - set js. i < rl_trim_offset (sa_log a)" and b: "log_of ?H a" "p \<le> length ?H"
    by (auto simp: received_ok_def)
  have "sr_sequence_number (?H ! i) < sr_sequence_number (?H ! j)" if "i < j" "j < length ?H" for i j
    using b(1) assms(3) that nth_sequence_less [of "sg_prefix (sa_seq_gen a)" i j] by (simp add: log_of_def)
  then have "sorted_wrt (\<lambda>x y. sr_sequence_number x < sr_sequence_number y) received"
    unfolding js(3) sorted_wrt_map using js(1,2) b(2)
    by (intro sorted_wrt_mono_rel [OF _ js(1)]) fastforce
  then show ?thesis using js b(2) by fastforce
qed

definition demo_shard :: shard_actor where
  "demo_shard = sh_actor (spawn_shard ''shardId-000000000000'' 0 \<lparr>hr_start = 0, hr_end = 9\<rparr> 3600 1700000000000 None None)"

definition demo_events :: "log_event list" where
  "demo_events = [Happens (1, ShCommand (ShPut ''a'' ''k'' None)), Reads 5, Happens (2, ShCommand (ShPut ''b'' ''k'' None)),
     Happens (3, ShCommand ShClose), Happens (4, ShCommand (ShPut ''c'' ''k'' None)), Reads 5]"

lemma demo_history_length: "length (history demo_events demo_shard) \<le> 2"
  by (simp add: demo_events_def demo_shard_def spawn_shard_def after_event_def actor_put_def next_sequence_def Let_def
      split: prod.split)

theorem consumer_reads_each_record_once_witness:
  "\<exists>a p received. fold consume demo_events (demo_shard, 0, []) = (a, p, received) \<and> p \<le> length (history demo_events demo_shard) \<and>
    sorted_wrt (\<lambda>x y. sr_sequence_number x < sr_sequence_number y) received \<and>
    (\<exists>js. sorted_wrt (<) js \<and> received = map ((!) (history demo_events demo_shard)) js \<and>
       (\<forall>i<p. i \<in> set js \<or> i < rl_trim_offset (sa_log a)))"
proof -
  obtain a p received where f: "fold consume demo_events (demo_shard, 0, []) = (a, p, received)"
    by (cases "fold consume demo_events (demo_shard, 0, [])")
  show ?thesis
    using consumer_reads_each_record_once [OF demo_shard_def f] demo_history_length f by auto
qed

text \<open>C30. A consumer catches up: after any events on a shard, as many reads with a positive limit as there are
  accepted records bring it to the end of the log, and it then has every record but those that were
  trimmed.\<close>

theorem consumer_catches_up:
  assumes "start = sh_actor (spawn_shard sid ix r ret ms pa ad)" "length (history es start) \<le> n"
    and "fold consume (es @ replicate n (Reads (l + 1))) (start, 0, []) = (a, p, received)"
  shows "p = latest_position (sa_log a) \<and>
    (\<forall>i<length (history es start). history es start ! i \<in> set received \<or> i < rl_trim_offset (sa_log a))"
proof -
  let ?H = "history es start"
  obtain a' p' rs' where mid: "fold consume es (start, 0, []) = (a', p', rs')" by (cases "fold consume es (start, 0, [])")
  have new: "received_ok [] 0 (start, 0, [])" using log_of_new assms(1) by (simp add: received_ok_def)
  have "received_ok ?H 0 (a', p', rs')" using run_consume_ok [OF new, of es] mid by simp
  then have b: "log_of ?H a'" "p' \<le> length ?H" by (auto simp: received_ok_def)
  then have "length ?H - p' \<le> n" using assms(2) by simp
  then have "a = a' \<and> p = length ?H"
    using reads_reach_end [OF b, of n l rs'] assms(3) mid by auto
  moreover have "received_ok ?H 0 (a, p, received)"
    using run_consume_ok [OF new, of "es @ replicate n (Reads (l + 1))"] assms(3)
      history_append [of es "replicate n (Reads (l + 1))" start] history_reads by simp
  ultimately show ?thesis
    using b by (fastforce simp: received_ok_def latest_position_def log_of_def)
qed

theorem consumer_catches_up_witness:
  "\<exists>a p received. fold consume (demo_events @ replicate 2 (Reads (0 + 1))) (demo_shard, 0, []) = (a, p, received) \<and>
    p = latest_position (sa_log a) \<and>
    (\<forall>i<length (history demo_events demo_shard).
       history demo_events demo_shard ! i \<in> set received \<or> i < rl_trim_offset (sa_log a))"
proof -
  obtain a p received where f: "fold consume (demo_events @ replicate 2 (Reads (0 + 1))) (demo_shard, 0, []) = (a, p, received)"
    by (cases "fold consume (demo_events @ replicate 2 (Reads (0 + 1))) (demo_shard, 0, [])")
  show ?thesis using consumer_catches_up [OF demo_shard_def demo_history_length f] f by blast
qed

text \<open>A checkpoint resumes exactly: the iterator after the sequence number of a record, given as the text
  that PutRecord and GetRecords return, points to the record that follows it in the history of the shard,
  or to the oldest record that is left.\<close>

theorem checkpoint_resumes:
  assumes "start = sh_actor (spawn_shard sid ix r ret ms pa ad)"
    and "fold consume es (start, 0, []) = (a, p, received)" "length (history es start) \<le> 2 ^ 64"
    and "i < length (history es start)"
  shows "iterator_position (AfterSequenceNumber (to_padded_string (sr_sequence_number (history es start ! i)))) (sa_log a) =
      Inr (max (i + 1) (rl_trim_offset (sa_log a))) \<and>
    iterator_position (AtSequenceNumber (to_padded_string (sr_sequence_number (history es start ! i)))) (sa_log a) =
      Inr (max i (rl_trim_offset (sa_log a)))"
proof -
  have "received_ok (history es start) 0 (a, p, received)"
    using run_consume_ok [of "[]" 0 start 0 "[]" es] log_of_new assms(1,2) by (simp add: received_ok_def)
  then have "log_of (history es start) a" by (simp add: received_ok_def)
  then show ?thesis using sequence_positions [OF _ assms(3,4)] by (simp add: parse_sequence_padded)
qed

theorem checkpoint_resumes_witness:
  "\<exists>a p received. fold consume demo_events (demo_shard, 0, []) = (a, p, received) \<and>
    iterator_position (AfterSequenceNumber (to_padded_string (sr_sequence_number (history demo_events demo_shard ! 0)))) (sa_log a) =
      Inr (max (0 + 1) (rl_trim_offset (sa_log a))) \<and>
    iterator_position (AtSequenceNumber (to_padded_string (sr_sequence_number (history demo_events demo_shard ! 0)))) (sa_log a) =
      Inr (max 0 (rl_trim_offset (sa_log a)))"
proof -
  obtain a p received where f: "fold consume demo_events (demo_shard, 0, []) = (a, p, received)"
    by (cases "fold consume demo_events (demo_shard, 0, [])")
  have "length (history demo_events demo_shard) \<le> 2 ^ 64" using demo_history_length by simp
  moreover have "accepted_by (Happens (1, ShCommand (ShPut ''a'' ''k'' None))) demo_shard \<noteq> []"
    by (simp add: demo_shard_def)
  then have "0 < length (history demo_events demo_shard)"
    by (simp add: demo_events_def del: accepted_by.simps)
  ultimately show ?thesis using checkpoint_resumes [OF demo_shard_def f] f by blast
qed

section \<open>Consumers\<close>

text \<open>The next token of a page of consumers is the first name after the page, but the next page starts above it:
  that consumer is on no page.\<close>

lemma consumer_skipped:
  assumes "bt_get k (stream_name_from_arn arn) = Some s" "bt_keys (ks_consumers s) = [''a'', ''b'', ''c'']"
  shows "map_option snd (case list_stream_consumers arn None (Some 1) k of Inl _ \<Rightarrow> None | Inr x \<Rightarrow> Some x) = Some (Some ''b'')"
    and "name_start (Some ''b'') (bt_keys (ks_consumers s)) = 2"
  using assms by (simp_all add: list_stream_consumers_def get_stream_def ok_or_def name_start_def i32_to_usize_def Let_def
      less_char_def numeral_eq_Suc)

end
