(* ===== verification/Events_Pattern.thy ===== *)
theory Events_Pattern
  imports Json_Value Rust_F64
begin

text \<open>
  Event patterns of EventBridge (\<^verbatim>\<open>pattern/value.rs\<close>, \<^verbatim>\<open>pattern/parser.rs\<close>): the tree of field matchers
  and the parser that builds it from a JSON document. What the parser takes from other crates (the
  JSON parser, networks in CIDR notation) and from the Unicode tables (lower case) is the record
  \<open>pattern_env\<close>. The texts of error messages are left out, except for the names of operators.
\<close>

section \<open>Patterns\<close>

datatype anything_but_condition =
    AB_Strings "string list"
  | AB_Numbers "f64 list"
  | AB_Prefix string
  | AB_Suffix string
  | AB_EqualsIgnoreCase string
  | AB_EqualsIgnoreCaseList "string list"
  | AB_Wildcard string

record numeric_bound =
  nb_value :: f64
  nb_inclusive :: bool

record numeric_condition =
  nc_lower :: "numeric_bound option"
  nc_upper :: "numeric_bound option"
  nc_equals :: "f64 option"

datatype 'net match_condition =
    ExactString string
  | ExactNumeric f64
  | ExactNull
  | Prefix string
  | PrefixIgnoreCase string
  | Suffix string
  | SuffixIgnoreCase string
  | EqualsIgnoreCase string
  | Wildcard string
  | AnythingBut anything_but_condition
  | NumericCond numeric_condition
  | Exists bool
  | Cidr 'net

datatype 'net pattern_node =
    PN_Leaf "'net match_condition list"
  | PN_Object "'net field_matcher list" "'net field_matcher list list"
and 'net field_matcher = FieldMatcher "string list" "'net pattern_node"

record 'net event_pattern =
  ep_fields :: "'net field_matcher list"
  ep_or :: "'net field_matcher list list"

datatype pattern_parse_error =
    InvalidJson
  | NotAnObject
  | OrNotArray
  | OrItemNotObject
  | InvalidFieldValue string
  | UnknownOperator string
  | InvalidOperatorValue string
  | InvalidNumericCondition
  | ConsecutiveWildcardStars
  | InvalidCidr

record ('net, 'ip) pattern_env =
  pe_json :: "string \<Rightarrow> json option"
  pe_net :: "string \<Rightarrow> 'net option"
  pe_ip :: "string \<Rightarrow> 'ip option"
  pe_contains :: "'net \<Rightarrow> 'ip \<Rightarrow> bool"
  pe_lower :: "string \<Rightarrow> string"

section \<open>Conditions\<close>

text \<open>\<^verbatim>\<open>Value::as_f64\<close>: an integer is rounded.\<close>

fun json_as_f64 :: "json \<Rightarrow> f64 option" where
  "json_as_f64 (JInt i) = Some (f64_of_rat (of_int i))"
| "json_as_f64 (JFloat q) = Some (F64_Fin q)"
| "json_as_f64 _ = None"

text \<open>A loop that converts the elements of a list and stops at the first failure.\<close>

fun convert_all :: "('a \<Rightarrow> 'e + 'b) \<Rightarrow> 'a list \<Rightarrow> 'e + 'b list" where
  "convert_all f [] = Inr []"
| "convert_all f (x # xs) = res_bind (f x) (\<lambda>y. res_map (Cons y) (convert_all f xs))"

text \<open>
  A backslash takes the next character with it. The loop of the code runs over characters; over
  bytes the outcome is the same, since the bytes of a longer character are neither \<open>\\\<close> nor \<open>*\<close>.
\<close>

fun no_double_star :: "bool \<Rightarrow> string \<Rightarrow> bool" where
  "no_double_star prev [] = True"
| "no_double_star prev (c # s) =
     (if c = CHR 0x5C then no_double_star False (drop 1 s)
      else if c = CHR ''*'' then \<not> prev \<and> no_double_star True s
      else no_double_star False s)"

definition validate_wildcard_pattern :: "string \<Rightarrow> pattern_parse_error + unit" where
  "validate_wildcard_pattern p =
     (if no_double_star False p then Inr () else Inl ConsecutiveWildcardStars)"

definition parse_prefix_or_suffix :: "json \<Rightarrow> bool \<Rightarrow> pattern_parse_error + 'net match_condition" where
  "parse_prefix_or_suffix v is_prefix =
     (let op = (if is_prefix then ''prefix'' else ''suffix'')
      in case v of
           JString s \<Rightarrow> Inr (if is_prefix then Prefix s else Suffix s)
         | JObject m \<Rightarrow>
             (case map_of m ''equals-ignore-case'' of
                Some ic \<Rightarrow>
                  res_map (\<lambda>s. if is_prefix then PrefixIgnoreCase s else SuffixIgnoreCase s)
                    (ok_or (InvalidOperatorValue op) (json_as_str ic))
              | None \<Rightarrow> Inl (InvalidOperatorValue op))
         | _ \<Rightarrow> Inl (InvalidOperatorValue op))"

fun json_is_string :: "json \<Rightarrow> bool" where
  "json_is_string (JString s) = True"
| "json_is_string _ = False"

fun json_is_number :: "json \<Rightarrow> bool" where
  "json_is_number (JInt i) = True"
| "json_is_number (JFloat q) = True"
| "json_is_number _ = False"

definition parse_anything_but_array :: "json list \<Rightarrow> pattern_parse_error + 'net match_condition" where
  "parse_anything_but_array arr =
     (let e = InvalidOperatorValue ''anything-but''
      in case arr of
           [] \<Rightarrow> Inl e
         | first # _ \<Rightarrow>
             (if json_is_string first
              then res_map (\<lambda>ss. AnythingBut (AB_Strings ss)) (convert_all (\<lambda>v. ok_or e (json_as_str v)) arr)
              else if json_is_number first
              then res_map (\<lambda>ns. AnythingBut (AB_Numbers ns)) (convert_all (\<lambda>v. ok_or e (json_as_f64 v)) arr)
              else Inl e))"

definition parse_anything_but_object ::
  "(string \<times> json) list \<Rightarrow> pattern_parse_error + 'net match_condition" where
  "parse_anything_but_object m =
     (case m of
        [(key, v)] \<Rightarrow>
          (if key = ''prefix''
           then res_map (\<lambda>s. AnythingBut (AB_Prefix s))
                  (ok_or (InvalidOperatorValue ''anything-but.prefix'') (json_as_str v))
           else if key = ''suffix''
           then res_map (\<lambda>s. AnythingBut (AB_Suffix s))
                  (ok_or (InvalidOperatorValue ''anything-but.suffix'') (json_as_str v))
           else if key = ''equals-ignore-case''
           then (let e = InvalidOperatorValue ''anything-but.equals-ignore-case''
                 in case v of
                      JString s \<Rightarrow> Inr (AnythingBut (AB_EqualsIgnoreCase s))
                    | JArray arr \<Rightarrow>
                        res_map (\<lambda>ss. AnythingBut (AB_EqualsIgnoreCaseList ss))
                          (convert_all (\<lambda>i. ok_or e (json_as_str i)) arr)
                    | _ \<Rightarrow> Inl e)
           else if key = ''wildcard''
           then res_bind (ok_or (InvalidOperatorValue ''anything-but.wildcard'') (json_as_str v))
                  (\<lambda>s. res_map (\<lambda>_. AnythingBut (AB_Wildcard s)) (validate_wildcard_pattern s))
           else Inl (UnknownOperator (''anything-but.'' @ key)))
      | _ \<Rightarrow> Inl (InvalidOperatorValue ''anything-but''))"

definition parse_anything_but :: "json \<Rightarrow> pattern_parse_error + 'net match_condition" where
  "parse_anything_but v =
     (case v of
        JString s \<Rightarrow> Inr (AnythingBut (AB_Strings [s]))
      | JArray arr \<Rightarrow> parse_anything_but_array arr
      | JObject m \<Rightarrow> parse_anything_but_object m
      | _ \<Rightarrow>
          (case json_as_f64 v of
             Some f \<Rightarrow> Inr (AnythingBut (AB_Numbers [f]))
           | None \<Rightarrow> Inl (InvalidOperatorValue ''anything-but'')))"

text \<open>One turn of the loop of \<^verbatim>\<open>parse_numeric\<close>: an operator overwrites the bound that is set.\<close>

definition numeric_pair ::
  "numeric_condition \<Rightarrow> string \<Rightarrow> f64 \<Rightarrow> pattern_parse_error + numeric_condition" where
  "numeric_pair c op n =
     (if op = ''>'' then Inr (c\<lparr>nc_lower := Some \<lparr>nb_value = n, nb_inclusive = False\<rparr>\<rparr>)
      else if op = ''>='' then Inr (c\<lparr>nc_lower := Some \<lparr>nb_value = n, nb_inclusive = True\<rparr>\<rparr>)
      else if op = ''<'' then Inr (c\<lparr>nc_upper := Some \<lparr>nb_value = n, nb_inclusive = False\<rparr>\<rparr>)
      else if op = ''<='' then Inr (c\<lparr>nc_upper := Some \<lparr>nb_value = n, nb_inclusive = True\<rparr>\<rparr>)
      else if op = ''='' then Inr (c\<lparr>nc_equals := Some n\<rparr>)
      else Inl InvalidNumericCondition)"

fun parse_numeric_pairs ::
  "numeric_condition \<Rightarrow> json list \<Rightarrow> pattern_parse_error + numeric_condition" where
  "parse_numeric_pairs c (o1 # n1 # rest) =
     res_bind (ok_or InvalidNumericCondition (json_as_str o1)) (\<lambda>op.
     res_bind (ok_or InvalidNumericCondition (json_as_f64 n1)) (\<lambda>n.
     res_bind (numeric_pair c op n) (\<lambda>c'. parse_numeric_pairs c' rest)))"
| "parse_numeric_pairs c _ = Inr c"

definition parse_numeric :: "json \<Rightarrow> pattern_parse_error + 'net match_condition" where
  "parse_numeric v =
     res_bind (ok_or InvalidNumericCondition (json_as_array v)) (\<lambda>arr.
       if arr = [] \<or> odd (length arr) \<or> 4 < length arr then Inl InvalidNumericCondition
       else res_map NumericCond
              (parse_numeric_pairs \<lparr>nc_lower = None, nc_upper = None, nc_equals = None\<rparr> arr))"

definition parse_operator_condition ::
  "('net, 'ip) pattern_env \<Rightarrow> (string \<times> json) list \<Rightarrow> pattern_parse_error + 'net match_condition" where
  "parse_operator_condition env m =
     (case m of
        [(op, v)] \<Rightarrow>
          (if op = ''prefix'' then parse_prefix_or_suffix v True
           else if op = ''suffix'' then parse_prefix_or_suffix v False
           else if op = ''equals-ignore-case''
           then res_map EqualsIgnoreCase (ok_or (InvalidOperatorValue op) (json_as_str v))
           else if op = ''wildcard''
           then res_bind (ok_or (InvalidOperatorValue op) (json_as_str v))
                  (\<lambda>s. res_map (\<lambda>_. Wildcard s) (validate_wildcard_pattern s))
           else if op = ''anything-but'' then parse_anything_but v
           else if op = ''numeric'' then parse_numeric v
           else if op = ''exists''
           then res_map Exists (ok_or (InvalidOperatorValue op) (json_as_bool v))
           else if op = ''cidr''
           then res_bind (ok_or (InvalidOperatorValue op) (json_as_str v))
                  (\<lambda>s. res_map Cidr (ok_or InvalidCidr (pe_net env s)))
           else Inl (UnknownOperator op))
      | _ \<Rightarrow> Inl (InvalidOperatorValue ''operator''))"

definition parse_single_condition ::
  "('net, 'ip) pattern_env \<Rightarrow> json \<Rightarrow> pattern_parse_error + 'net match_condition" where
  "parse_single_condition env v =
     (case v of
        JString s \<Rightarrow> Inr (ExactString s)
      | JNull \<Rightarrow> Inr ExactNull
      | JObject m \<Rightarrow> parse_operator_condition env m
      | _ \<Rightarrow>
          (case json_as_f64 v of
             Some f \<Rightarrow> Inr (ExactNumeric f)
           | None \<Rightarrow> Inl (InvalidOperatorValue ''condition'')))"

definition parse_conditions ::
  "('net, 'ip) pattern_env \<Rightarrow> json list \<Rightarrow> pattern_parse_error + 'net match_condition list" where
  "parse_conditions env arr = convert_all (parse_single_condition env) arr"

section \<open>Patterns from documents\<close>

text \<open>
  \<^verbatim>\<open>parse_object\<close> is a loop over the entries with the two vectors it builds; its inner loop over the
  items of \<^verbatim>\<open>$or\<close> is \<open>parse_or_items\<close>. An item that has a \<^verbatim>\<open>$or\<close> of its own is expanded into one
  branch for each of its groups.
\<close>

definition or_item_branches :: "'net event_pattern \<Rightarrow> 'net field_matcher list list" where
  "or_item_branches p =
     (if ep_or p = [] then [ep_fields p] else map (\<lambda>branch. ep_fields p @ branch) (ep_or p))"

function (sequential) parse_entries :: "('net, 'ip) pattern_env \<Rightarrow> (string \<times> json) list \<Rightarrow>
    'net field_matcher list \<Rightarrow> 'net field_matcher list list \<Rightarrow> pattern_parse_error + 'net event_pattern"
  and parse_or_items :: "('net, 'ip) pattern_env \<Rightarrow> json list \<Rightarrow>
    'net field_matcher list list \<Rightarrow> pattern_parse_error + 'net field_matcher list list"
  and parse_node :: "('net, 'ip) pattern_env \<Rightarrow> string \<Rightarrow> json \<Rightarrow> pattern_parse_error + 'net pattern_node"
where
  "parse_entries env [] fs ors = Inr \<lparr>ep_fields = fs, ep_or = ors\<rparr>"
| "parse_entries env ((key, v) # rest) fs ors =
     (if key = ''$or''
      then (case v of
              JArray items \<Rightarrow>
                res_bind (parse_or_items env items ors) (\<lambda>ors'. parse_entries env rest fs ors')
            | _ \<Rightarrow> Inl OrNotArray)
      else res_bind (parse_node env key v)
             (\<lambda>node. parse_entries env rest (fs @ [FieldMatcher [key] node]) ors))"
| "parse_or_items env [] ors = Inr ors"
| "parse_or_items env (item # rest) ors =
     (case item of
        JObject m \<Rightarrow>
          res_bind (parse_entries env m [] [])
            (\<lambda>p. parse_or_items env rest (ors @ or_item_branches p))
      | _ \<Rightarrow> Inl OrItemNotObject)"
| "parse_node env name v =
     (case v of
        JArray arr \<Rightarrow> res_map PN_Leaf (parse_conditions env arr)
      | JObject m \<Rightarrow> res_map (\<lambda>p. PN_Object (ep_fields p) (ep_or p)) (parse_entries env m [] [])
      | _ \<Rightarrow> Inl (InvalidFieldValue name))"
  by pat_completeness auto
termination
  by (relation "measure (\<lambda>x. case x of
         Inl (_, m, _) \<Rightarrow> size_list (size_prod (\<lambda>_. 0) size) m
       | Inr (Inl (_, items, _)) \<Rightarrow> size_list size items
       | Inr (Inr (_, _, v)) \<Rightarrow> size v)") auto

definition parse_object ::
  "('net, 'ip) pattern_env \<Rightarrow> (string \<times> json) list \<Rightarrow> pattern_parse_error + 'net event_pattern" where
  "parse_object env m = parse_entries env m [] []"

definition parse_event_pattern ::
  "('net, 'ip) pattern_env \<Rightarrow> string \<Rightarrow> pattern_parse_error + 'net event_pattern" where
  "parse_event_pattern env text =
     res_bind (ok_or InvalidJson (pe_json env text)) (\<lambda>v.
     res_bind (ok_or NotAnObject (json_as_object v)) (\<lambda>m. parse_object env m))"

end
