(* ===== verification/Events_Match.thy ===== *)
theory Events_Match
  imports Events_Pattern
begin

text \<open>
  Matching events against patterns (\<^verbatim>\<open>pattern/operators.rs\<close>, \<^verbatim>\<open>pattern/engine.rs\<close>).
\<close>

section \<open>Wildcards\<close>

datatype wildcard_segment = Seg_Literal string | Seg_Star

definition flush_literal :: "string \<Rightarrow> wildcard_segment list" where
  "flush_literal lit = (if lit = [] then [] else [Seg_Literal lit])"

function split_segments :: "string \<Rightarrow> string \<Rightarrow> wildcard_segment list" where
  "split_segments lit [] = flush_literal lit"
| "split_segments lit (c # s) =
     (if c = CHR 0x5C
      then (case s of n # s' \<Rightarrow> split_segments (lit @ [n]) s' | [] \<Rightarrow> split_segments (lit @ [c]) [])
      else if c = CHR ''*'' then flush_literal lit @ Seg_Star # split_segments [] s
      else split_segments (lit @ [c]) s)"
  by pat_completeness auto
termination by (relation "measure (\<lambda>(_, s). length s)") auto

definition split_wildcard_pattern :: "string \<Rightarrow> wildcard_segment list" where
  "split_wildcard_pattern pattern = split_segments [] pattern"

fun match_segments :: "wildcard_segment list \<Rightarrow> string \<Rightarrow> bool" where
  "match_segments [] text = (text = [])"
| "match_segments (Seg_Literal lit # segs) text =
     (case strip_prefix lit text of Some rest \<Rightarrow> match_segments segs rest | None \<Rightarrow> False)"
| "match_segments (Seg_Star # segs) text =
     (segs = [] \<or>
      list_ex (\<lambda>i. is_char_boundary text i \<and> match_segments segs (drop i text)) [0..<Suc (length text)])"

definition wildcard_match :: "string \<Rightarrow> string \<Rightarrow> bool" where
  "wildcard_match pattern text = match_segments (split_wildcard_pattern pattern) text"

section \<open>Operators\<close>

text \<open>\<^verbatim>\<open>(a - b).abs() < f64::EPSILON\<close>.\<close>

definition f64_close :: "f64 \<Rightarrow> f64 \<Rightarrow> bool" where
  "f64_close a b = f64_less (f64_abs (f64_sub a b)) f64_epsilon"

definition match_anything_but :: "anything_but_condition \<Rightarrow> json \<Rightarrow> bool" where
  "match_anything_but ab v =
     (case ab of
        AB_Strings ss \<Rightarrow> (case json_as_str v of Some s \<Rightarrow> \<not> list_ex (\<lambda>c. c = s) ss | None \<Rightarrow> True)
      | AB_Numbers ns \<Rightarrow> (case json_as_f64 v of Some n \<Rightarrow> \<not> list_ex (\<lambda>c. f64_close c n) ns | None \<Rightarrow> True)
      | AB_Prefix p \<Rightarrow> (case json_as_str v of Some s \<Rightarrow> \<not> starts_with s p | None \<Rightarrow> True)
      | AB_Suffix p \<Rightarrow> (case json_as_str v of Some s \<Rightarrow> \<not> ends_with s p | None \<Rightarrow> True)
      | AB_EqualsIgnoreCase t \<Rightarrow>
          (case json_as_str v of Some s \<Rightarrow> \<not> eq_ignore_ascii_case s t | None \<Rightarrow> True)
      | AB_EqualsIgnoreCaseList ts \<Rightarrow>
          (case json_as_str v of Some s \<Rightarrow> \<not> list_ex (eq_ignore_ascii_case s) ts | None \<Rightarrow> True)
      | AB_Wildcard p \<Rightarrow> (case json_as_str v of Some s \<Rightarrow> \<not> wildcard_match p s | None \<Rightarrow> True))"

definition match_numeric :: "numeric_condition \<Rightarrow> f64 \<Rightarrow> bool" where
  "match_numeric nc x =
     ((case nc_equals nc of None \<Rightarrow> True
       | Some eq \<Rightarrow> \<not> f64_less_eq f64_epsilon (f64_abs (f64_sub eq x))) \<and>
      (case nc_lower nc of None \<Rightarrow> True
       | Some b \<Rightarrow> if nb_inclusive b then \<not> f64_less x (nb_value b) else \<not> f64_less_eq x (nb_value b)) \<and>
      (case nc_upper nc of None \<Rightarrow> True
       | Some b \<Rightarrow> if nb_inclusive b then \<not> f64_less (nb_value b) x else \<not> f64_less_eq (nb_value b) x))"

definition match_single_value ::
  "('net, 'ip) pattern_env \<Rightarrow> 'net match_condition \<Rightarrow> json \<Rightarrow> bool" where
  "match_single_value env c v =
     (let on_str = (\<lambda>f. case json_as_str v of Some s \<Rightarrow> f s | None \<Rightarrow> False);
          on_num = (\<lambda>f. case json_as_f64 v of Some n \<Rightarrow> f n | None \<Rightarrow> False)
      in case c of
           ExactString e \<Rightarrow> on_str (\<lambda>s. s = e)
         | ExactNumeric e \<Rightarrow> on_num (\<lambda>n. f64_close n e)
         | ExactNull \<Rightarrow> v = JNull
         | Prefix p \<Rightarrow> on_str (\<lambda>s. starts_with s p)
         | PrefixIgnoreCase p \<Rightarrow> on_str (\<lambda>s. starts_with (pe_lower env s) (pe_lower env p))
         | Suffix p \<Rightarrow> on_str (\<lambda>s. ends_with s p)
         | SuffixIgnoreCase p \<Rightarrow> on_str (\<lambda>s. ends_with (pe_lower env s) (pe_lower env p))
         | EqualsIgnoreCase e \<Rightarrow> on_str (\<lambda>s. eq_ignore_ascii_case s e)
         | Wildcard p \<Rightarrow> on_str (wildcard_match p)
         | AnythingBut ab \<Rightarrow> match_anything_but ab v
         | NumericCond nc \<Rightarrow> on_num (match_numeric nc)
         | Exists b \<Rightarrow> False
         | Cidr net \<Rightarrow>
             on_str (\<lambda>s. case pe_ip env s of Some ip \<Rightarrow> pe_contains env net ip | None \<Rightarrow> False))"

section \<open>The engine\<close>

definition match_value_or_array ::
  "('net, 'ip) pattern_env \<Rightarrow> 'net match_condition \<Rightarrow> json \<Rightarrow> bool" where
  "match_value_or_array env c v =
     (case v of JArray arr \<Rightarrow> list_ex (match_single_value env c) arr | _ \<Rightarrow> match_single_value env c v)"

fun is_exists :: "'net match_condition \<Rightarrow> bool" where
  "is_exists (Exists b) = True"
| "is_exists _ = False"

definition match_leaf ::
  "('net, 'ip) pattern_env \<Rightarrow> 'net match_condition list \<Rightarrow> json option \<Rightarrow> bool" where
  "match_leaf env cs field_value =
     (if list_ex is_exists cs
      then list_ex (\<lambda>c. case c of
                          Exists expected \<Rightarrow> expected = (field_value \<noteq> None)
                        | _ \<Rightarrow> (case field_value of Some v \<Rightarrow> match_value_or_array env c v | None \<Rightarrow> False)) cs
      else (case field_value of
              None \<Rightarrow> False
            | Some v \<Rightarrow> list_ex (\<lambda>c. match_value_or_array env c v) cs))"

fun navigate_path :: "json \<Rightarrow> string list \<Rightarrow> json option" where
  "navigate_path v [] = Some v"
| "navigate_path v (seg # path) =
     (case json_get v seg of None \<Rightarrow> None | Some v' \<Rightarrow> navigate_path v' path)"

fun exists_false_node :: "'net pattern_node \<Rightarrow> bool"
  and all_fields_are_exists_false :: "'net field_matcher list \<Rightarrow> bool" where
  "exists_false_node (PN_Leaf cs) = (case cs of [Exists b] \<Rightarrow> \<not> b | _ \<Rightarrow> False)"
| "exists_false_node (PN_Object fs ors) = (all_fields_are_exists_false fs \<and> ors = [])"
| "all_fields_are_exists_false [] = True"
| "all_fields_are_exists_false (FieldMatcher path node # fs) =
     (exists_false_node node \<and> all_fields_are_exists_false fs)"

fun match_field :: "('net, 'ip) pattern_env \<Rightarrow> 'net field_matcher \<Rightarrow> json \<Rightarrow> bool"
  and match_all :: "('net, 'ip) pattern_env \<Rightarrow> 'net field_matcher list \<Rightarrow> json \<Rightarrow> bool"
  and match_any_group :: "('net, 'ip) pattern_env \<Rightarrow> 'net field_matcher list list \<Rightarrow> json \<Rightarrow> bool" where
  "match_field env (FieldMatcher path (PN_Leaf cs)) event = match_leaf env cs (navigate_path event path)"
| "match_field env (FieldMatcher path (PN_Object fs ors)) event =
     (case navigate_path event path of
        Some v \<Rightarrow> match_all env fs v \<and> (ors = [] \<or> match_any_group env ors v)
      | None \<Rightarrow> all_fields_are_exists_false fs \<and> ors = [])"
| "match_all env [] event = True"
| "match_all env (m # ms) event = (match_field env m event \<and> match_all env ms event)"
| "match_any_group env [] event = False"
| "match_any_group env (g # gs) event = (match_all env g event \<or> match_any_group env gs event)"

definition match_pattern_fields ::
  "('net, 'ip) pattern_env \<Rightarrow> 'net field_matcher list \<Rightarrow> 'net field_matcher list list \<Rightarrow> json \<Rightarrow> bool" where
  "match_pattern_fields env fs ors event =
     (match_all env fs event \<and> (ors = [] \<or> match_any_group env ors event))"

definition matches :: "('net, 'ip) pattern_env \<Rightarrow> 'net event_pattern \<Rightarrow> json \<Rightarrow> bool" where
  "matches env p event = match_pattern_fields env (ep_fields p) (ep_or p) event"

end
