(* ===== verification/Events_Delivery.thy ===== *)
theory Events_Delivery
  imports Json_Value "HOL-Library.Word"
begin

text \<open>
  Delivery of events to targets (\<^verbatim>\<open>delivery.rs\<close>): the queue between the request handlers and the
  worker task. The state machine below interleaves the threads at the atomic operations of the code:
  a handler reads the closing flag, sends its batch on the channel and counts it in three steps; the
  worker looks at the flag, receives, and delivers one job at a time; \<^verbatim>\<open>quiesce\<close> sets the flag and then
  wakes the worker. The calls of \<^verbatim>\<open>TargetDelivery::deliver\<close> that the worker has made are the list
  \<open>dq_attempts\<close>; whether a call succeeds (in time and without a panic) is chosen by the step.
\<close>

section \<open>Targets and jobs\<close>

record input_transformer =
  itr_paths :: "(string, string) btree"
  itr_template :: string

record target =
  tg_id :: string
  tg_arn :: string
  tg_role_arn :: "string option"
  tg_input :: "string option"
  tg_input_path :: "string option"
  tg_transformer :: "input_transformer option"
  tg_run_command :: "json option"
  tg_ecs :: "json option"
  tg_batch :: "json option"
  tg_kinesis :: "json option"
  tg_sqs_group :: "string option"
  tg_http :: "json option"
  tg_redshift :: "json option"
  tg_sage_maker :: "json option"
  tg_dead_letter :: "string option option"
  tg_retry :: "(int option \<times> int option) option"
  tg_app_sync :: "json option"

datatype delivery_error = DE_InvalidArn | DE_Unsupported | DE_Unavailable | DE_TargetError

record delivery_job =
  dj_target :: target
  dj_body :: string

section \<open>The queue\<close>

datatype delivery_command = Cmd_Deliver "delivery_job list" | Cmd_Quiesce

text \<open>Where the worker task stands: before its test of the flag, before receiving, within a batch,
  or finished.\<close>

datatype worker_pc = W_Top | W_Recv | W_Batch "delivery_job list" | W_Done

record delivery_queue =
  dq_started :: bool
  dq_channel :: "delivery_command list"
  dq_receiver_closed :: bool
  dq_stopped :: "bool option"
  dq_pc :: worker_pc
  dq_closing :: bool
  dq_accepted :: "64 word"
  dq_delivered :: "64 word"
  dq_failed :: "64 word"
  dq_rejected :: "64 word"
  dq_sending :: "delivery_job list list"
  dq_uncounted :: "nat list"
  dq_attempts :: "delivery_job list"

definition new_queue :: delivery_queue where
  "new_queue =
     \<lparr>dq_started = False, dq_channel = [], dq_receiver_closed = False, dq_stopped = None, dq_pc = W_Top,
      dq_closing = False, dq_accepted = 0, dq_delivered = 0, dq_failed = 0, dq_rejected = 0,
      dq_sending = [], dq_uncounted = [], dq_attempts = []\<rparr>"

definition job_bytes :: "delivery_job list \<Rightarrow> nat" where
  "job_bytes jobs = sum_list (map (\<lambda>j. length (dj_body j)) jobs)"

definition too_large :: "delivery_job list \<Rightarrow> bool" where
  "too_large jobs \<longleftrightarrow> length jobs > 128 \<or> job_bytes jobs > 1024 * 1024"

definition channel_capacity :: nat where "channel_capacity = 128"

text \<open>\<^verbatim>\<open>mpsc::Sender::try_send\<close>: fails when the receiver has closed the channel or it is full.\<close>

definition can_send :: "delivery_queue \<Rightarrow> bool" where
  "can_send q \<longleftrightarrow> \<not> dq_receiver_closed q \<and> length (dq_channel q) < channel_capacity"

definition count_rejected :: "delivery_queue \<Rightarrow> delivery_queue" where
  "count_rejected q = q\<lparr>dq_rejected := dq_rejected q + 1\<rparr>"

text \<open>
  \<^verbatim>\<open>submit\<close> up to its test of the closing flag. The batch that passes is one of \<open>dq_sending\<close>.
\<close>

definition submit_begin ::
  "bool \<Rightarrow> delivery_job list \<Rightarrow> delivery_queue \<Rightarrow> (delivery_error + unit) \<times> delivery_queue" where
  "submit_begin runtime jobs q =
     (if too_large jobs then (Inl DE_TargetError, count_rejected q)
      else if \<not> runtime then (Inl DE_Unavailable, q)
      else (let q = q\<lparr>dq_started := True\<rparr>
            in if dq_closing q then (Inl DE_Unavailable, count_rejected q)
               else (Inr (), q\<lparr>dq_sending := jobs # dq_sending q\<rparr>)))"

text \<open>Its \<^verbatim>\<open>try_send\<close>, for the \<open>i\<close>-th of the batches that are on their way.\<close>

definition remove_nth :: "nat \<Rightarrow> 'a list \<Rightarrow> 'a list" where
  "remove_nth i xs = take i xs @ drop (Suc i) xs"

definition submit_send :: "nat \<Rightarrow> delivery_queue \<Rightarrow> (delivery_error + unit) \<times> delivery_queue" where
  "submit_send i q =
     (let jobs = dq_sending q ! i; q = q\<lparr>dq_sending := remove_nth i (dq_sending q)\<rparr>
      in if can_send q
         then (Inr (), q\<lparr>dq_channel := dq_channel q @ [Cmd_Deliver jobs],
                         dq_uncounted := length jobs # dq_uncounted q\<rparr>)
         else (Inl DE_Unavailable, count_rejected q))"

definition submit_count :: "nat \<Rightarrow> delivery_queue \<Rightarrow> delivery_queue" where
  "submit_count i q =
     q\<lparr>dq_accepted := dq_accepted q + of_nat (dq_uncounted q ! i),
       dq_uncounted := remove_nth i (dq_uncounted q)\<rparr>"

text \<open>The whole of \<^verbatim>\<open>submit\<close>, when no other thread gets between its steps.\<close>

definition submit ::
  "bool \<Rightarrow> delivery_job list \<Rightarrow> delivery_queue \<Rightarrow> (delivery_error + unit) \<times> delivery_queue" where
  "submit runtime jobs q =
     (case submit_begin runtime jobs q of
        (Inl e, q) \<Rightarrow> (Inl e, q)
      | (Inr _, q) \<Rightarrow>
          (case submit_send 0 q of
             (Inl e, q) \<Rightarrow> (Inl e, q)
           | (Inr _, q) \<Rightarrow> (Inr (), submit_count 0 q)))"

definition is_ready :: "delivery_queue \<Rightarrow> bool" where
  "is_ready q \<longleftrightarrow>
     \<not> dq_closing q \<and> (dq_started q \<longrightarrow> \<not> dq_receiver_closed q \<and> dq_stopped q = None)"

text \<open>\<^verbatim>\<open>quiesce\<close>: it sets the flag, then sends the wake-up, and returns when the supervisor has
  published how the worker ended.\<close>

definition quiesce_begin :: "delivery_queue \<Rightarrow> delivery_queue" where
  "quiesce_begin q = q\<lparr>dq_closing := True\<rparr>"

definition quiesce_wake :: "delivery_queue \<Rightarrow> delivery_queue" where
  "quiesce_wake q =
     (if dq_started q \<and> can_send q then q\<lparr>dq_channel := dq_channel q @ [Cmd_Quiesce]\<rparr> else q)"

definition quiesce_result :: "delivery_queue \<Rightarrow> (delivery_error + unit) option" where
  "quiesce_result q =
     (if \<not> dq_started q then Some (Inr ())
      else map_option (\<lambda>ok. if ok then Inr () else Inl DE_TargetError) (dq_stopped q))"

text \<open>One step of \<^verbatim>\<open>run_worker\<close>. A receive on an empty open channel waits.\<close>

definition worker_step :: "bool \<Rightarrow> delivery_queue \<Rightarrow> delivery_queue" where
  "worker_step success q =
     (case dq_pc q of
        W_Top \<Rightarrow>
          q\<lparr>dq_receiver_closed := (dq_receiver_closed q \<or> dq_closing q), dq_pc := W_Recv\<rparr>
      | W_Recv \<Rightarrow>
          (case dq_channel q of
             [] \<Rightarrow> if dq_receiver_closed q then q\<lparr>dq_pc := W_Done\<rparr> else q
           | Cmd_Quiesce # rest \<Rightarrow>
               q\<lparr>dq_channel := rest, dq_receiver_closed := True, dq_pc := W_Top\<rparr>
           | Cmd_Deliver jobs # rest \<Rightarrow> q\<lparr>dq_channel := rest, dq_pc := W_Batch jobs\<rparr>)
      | W_Batch [] \<Rightarrow> q\<lparr>dq_pc := W_Top\<rparr>
      | W_Batch (job # jobs) \<Rightarrow>
          (let q = q\<lparr>dq_attempts := dq_attempts q @ [job], dq_pc := W_Batch jobs\<rparr>
           in if success then q\<lparr>dq_delivered := dq_delivered q + 1\<rparr>
              else q\<lparr>dq_failed := dq_failed q + 1\<rparr>)
      | W_Done \<Rightarrow> q)"

text \<open>The supervisor publishes the end of the worker.\<close>

definition supervisor_step :: "delivery_queue \<Rightarrow> delivery_queue" where
  "supervisor_step q = (if dq_pc q = W_Done then q\<lparr>dq_stopped := Some True\<rparr> else q)"

section \<open>Interleavings\<close>

datatype delivery_action =
    Act_Submit bool "delivery_job list"
  | Act_Send nat
  | Act_Count nat
  | Act_Quiesce
  | Act_Wake
  | Act_Worker bool
  | Act_Supervisor

text \<open>When a thread can take the step; the worker is spawned by the first \<^verbatim>\<open>submit\<close>.\<close>

definition action_enabled :: "delivery_queue \<Rightarrow> delivery_action \<Rightarrow> bool" where
  "action_enabled q a =
     (case a of
        Act_Send i \<Rightarrow> i < length (dq_sending q)
      | Act_Count i \<Rightarrow> i < length (dq_uncounted q)
      | Act_Wake \<Rightarrow> dq_closing q
      | Act_Worker _ \<Rightarrow> dq_started q
      | Act_Supervisor \<Rightarrow> dq_started q
      | _ \<Rightarrow> True)"

definition delivery_step :: "delivery_queue \<Rightarrow> delivery_action \<Rightarrow> delivery_queue" where
  "delivery_step q a =
     (case a of
        Act_Submit rt jobs \<Rightarrow> snd (submit_begin rt jobs q)
      | Act_Send i \<Rightarrow> snd (submit_send i q)
      | Act_Count i \<Rightarrow> submit_count i q
      | Act_Quiesce \<Rightarrow> quiesce_begin q
      | Act_Wake \<Rightarrow> quiesce_wake q
      | Act_Worker ok \<Rightarrow> worker_step ok q
      | Act_Supervisor \<Rightarrow> supervisor_step q)"

text \<open>The jobs that a run puts on the channel, in the order of the channel.\<close>

definition sent_by :: "delivery_queue \<Rightarrow> delivery_action \<Rightarrow> delivery_job list" where
  "sent_by q a =
     (case a of Act_Send i \<Rightarrow> if can_send q then dq_sending q ! i else [] | _ \<Rightarrow> [])"

fun sent_jobs :: "delivery_queue \<Rightarrow> delivery_action list \<Rightarrow> delivery_job list" where
  "sent_jobs q [] = []"
| "sent_jobs q (a # as) = sent_by q a @ sent_jobs (delivery_step q a) as"

section \<open>Nothing is lost, nothing is delivered twice\<close>

definition command_jobs :: "delivery_command \<Rightarrow> delivery_job list" where
  "command_jobs c = (case c of Cmd_Deliver jobs \<Rightarrow> jobs | Cmd_Quiesce \<Rightarrow> [])"

definition waiting_jobs :: "delivery_queue \<Rightarrow> delivery_job list" where
  "waiting_jobs q =
     (case dq_pc q of W_Batch jobs \<Rightarrow> jobs | _ \<Rightarrow> []) @ concat (map command_jobs (dq_channel q))"

text \<open>The worker by cases.\<close>

lemma worker_cases:
  obtains (top) "dq_pc q = W_Top"
    | (wait) "dq_pc q = W_Recv" "dq_channel q = []"
    | (wake) rest where "dq_pc q = W_Recv" "dq_channel q = Cmd_Quiesce # rest"
    | (take) jobs rest where "dq_pc q = W_Recv" "dq_channel q = Cmd_Deliver jobs # rest"
    | (batch_end) "dq_pc q = W_Batch []"
    | (job) job jobs where "dq_pc q = W_Batch (job # jobs)"
    | (finished) "dq_pc q = W_Done"
proof (cases "dq_pc q")
  case W_Recv
  then show thesis using wait wake take by (cases "dq_channel q") (auto, metis delivery_command.exhaust)
next
  case (W_Batch jobs)
  then show thesis using batch_end job by (cases jobs) auto
qed (use top finished in auto)

lemmas worker_unfold = worker_step_def waiting_jobs_def command_jobs_def Let_def

lemma worker_order:
  "dq_attempts (worker_step ok q) @ waiting_jobs (worker_step ok q) = dq_attempts q @ waiting_jobs q"
  by (rule worker_cases [of q]) (simp_all add: worker_unfold)

lemma send_order:
  "dq_attempts (snd (submit_send i q)) @ waiting_jobs (snd (submit_send i q)) =
     dq_attempts q @ waiting_jobs q @ (if can_send q then dq_sending q ! i else [])"
  by (simp add: submit_send_def waiting_jobs_def command_jobs_def Let_def can_send_def count_rejected_def)

lemma delivery_order_step:
  "dq_attempts (delivery_step q a) @ waiting_jobs (delivery_step q a) =
     dq_attempts q @ waiting_jobs q @ sent_by q a"
proof (cases a)
  case (Act_Worker ok)
  then show ?thesis using worker_order by (simp add: delivery_step_def sent_by_def)
next
  case (Act_Send i)
  then show ?thesis using send_order by (simp add: delivery_step_def sent_by_def)
qed (simp_all add: delivery_step_def sent_by_def waiting_jobs_def submit_begin_def count_rejected_def Let_def
    submit_count_def quiesce_begin_def quiesce_wake_def supervisor_step_def command_jobs_def)

lemma delivery_order:
  "dq_attempts (run_ops delivery_step q as) @ waiting_jobs (run_ops delivery_step q as) =
     dq_attempts q @ waiting_jobs q @ sent_jobs q as"
proof (induction as arbitrary: q)
  case (Cons a as)
  then show ?case using delivery_order_step [of q a] by auto
qed simp

text \<open>The invariant of the counters and of the life of the worker.\<close>

definition queue_wf :: "delivery_queue \<Rightarrow> bool" where
  "queue_wf q \<longleftrightarrow>
     dq_accepted q + of_nat (sum_list (dq_uncounted q)) =
       dq_delivered q + dq_failed q + of_nat (length (waiting_jobs q)) \<and>
     dq_delivered q + dq_failed q = of_nat (length (dq_attempts q)) \<and>
     length (dq_channel q) \<le> channel_capacity \<and>
     (dq_receiver_closed q \<longrightarrow> dq_closing q) \<and>
     (Cmd_Quiesce \<in> set (dq_channel q) \<longrightarrow> dq_closing q) \<and>
     (dq_pc q = W_Done \<longrightarrow> dq_receiver_closed q \<and> dq_channel q = []) \<and>
     (dq_stopped q \<noteq> None \<longrightarrow> dq_stopped q = Some True \<and> dq_pc q = W_Done) \<and>
     (\<not> dq_started q \<longrightarrow> dq_channel q = [] \<and> dq_sending q = [] \<and> dq_pc q = W_Top)"

lemma sum_list_remove_nth:
  "i < length xs \<Longrightarrow> sum_list xs = xs ! i + sum_list (remove_nth i (xs :: nat list))"
  unfolding remove_nth_def by (subst id_take_nth_drop [of i xs]) auto

lemma queue_wf_new: "queue_wf new_queue"
  by (simp add: queue_wf_def new_queue_def waiting_jobs_def)

lemma queue_wf_worker: "queue_wf q \<Longrightarrow> dq_started q \<Longrightarrow> queue_wf (worker_step ok q)"
  by (rule worker_cases [of q]) (auto simp: queue_wf_def worker_unfold algebra_simps)

lemma queue_wf_send: "queue_wf q \<Longrightarrow> i < length (dq_sending q) \<Longrightarrow> queue_wf (snd (submit_send i q))"
  by (auto simp: queue_wf_def submit_send_def waiting_jobs_def command_jobs_def Let_def can_send_def
      count_rejected_def algebra_simps)

lemma queue_wf_count: "queue_wf q \<Longrightarrow> i < length (dq_uncounted q) \<Longrightarrow> queue_wf (submit_count i q)"
  using sum_list_remove_nth [of i "dq_uncounted q"]
  by (simp add: queue_wf_def submit_count_def waiting_jobs_def algebra_simps cong: worker_pc.case_cong)

lemma queue_wf_step: "queue_wf q \<Longrightarrow> action_enabled q a \<Longrightarrow> queue_wf (delivery_step q a)"
proof (cases a)
  case (Act_Submit rt jobs)
  then show "queue_wf q \<Longrightarrow> queue_wf (delivery_step q a)"
    by (auto simp: queue_wf_def delivery_step_def submit_begin_def count_rejected_def waiting_jobs_def Let_def)
qed (auto simp: delivery_step_def action_enabled_def queue_wf_worker queue_wf_send queue_wf_count,
     auto simp: queue_wf_def quiesce_begin_def quiesce_wake_def supervisor_step_def can_send_def waiting_jobs_def command_jobs_def)

interpretation deliveries: rooted_machine delivery_step action_enabled queue_wf new_queue
  by unfold_locales (auto simp: queue_wf_new queue_wf_step)

section \<open>Draining\<close>

text \<open>
  Once \<^verbatim>\<open>quiesce\<close> has set the flag and sent its wake-up, the worker cannot wait any more: it runs
  until the channel is empty, in at most \<open>drain_budget\<close> steps.
\<close>

definition draining :: "delivery_queue \<Rightarrow> bool" where
  "draining q \<longleftrightarrow>
     dq_closing q \<and> (dq_receiver_closed q \<or> dq_pc q \<noteq> W_Recv \<or> dq_channel q \<noteq> [])"

definition drain_budget :: "delivery_queue \<Rightarrow> nat" where
  "drain_budget q =
     length (waiting_jobs q) + 3 * length (dq_channel q) +
     (case dq_pc q of W_Top \<Rightarrow> 2 | W_Recv \<Rightarrow> 1 | W_Batch _ \<Rightarrow> 3 | W_Done \<Rightarrow> 0)"

lemma draining_worker: "draining q \<Longrightarrow> draining (worker_step ok q)"
  by (rule worker_cases [of q]) (auto simp: draining_def worker_unfold)

lemma drain_budget_worker:
  "draining q \<Longrightarrow> dq_pc q \<noteq> W_Done \<Longrightarrow> drain_budget (worker_step ok q) < drain_budget q"
  by (rule worker_cases [of q]) (auto simp: draining_def drain_budget_def worker_unfold)

lemma worker_done: "dq_pc q = W_Done \<Longrightarrow> worker_step ok q = q"
  by (simp add: worker_step_def)

definition run_worker :: "bool list \<Rightarrow> delivery_queue \<Rightarrow> delivery_queue" where
  "run_worker oks q = fold worker_step oks q"

lemma run_worker_simps [simp]:
  "run_worker [] q = q" "run_worker (ok # oks) q = run_worker oks (worker_step ok q)"
  by (simp_all add: run_worker_def)

lemma run_worker_finished: "dq_pc q = W_Done \<Longrightarrow> run_worker oks q = q"
  by (induction oks) (simp_all add: worker_done)

lemma run_worker_drains:
  "draining q \<Longrightarrow> drain_budget q \<le> length oks \<Longrightarrow> dq_pc (run_worker oks q) = W_Done"
proof (induction oks arbitrary: q)
  case Nil
  then show ?case by (auto simp: drain_budget_def split: worker_pc.splits)
next
  case (Cons ok oks)
  show ?case
  proof (cases "dq_pc q = W_Done")
    case True
    then show ?thesis by (simp add: worker_done run_worker_finished)
  next
    case False
    then have "drain_budget (worker_step ok q) \<le> length oks"
      using drain_budget_worker [of q ok] Cons.prems by simp
    then show ?thesis using Cons draining_worker by simp
  qed
qed

lemma started_worker [simp]: "dq_started (worker_step ok q) = dq_started q"
  by (rule worker_cases [of q]) (auto simp: worker_unfold)

lemma uncounted_worker [simp]: "dq_uncounted (worker_step ok q) = dq_uncounted q"
  by (rule worker_cases [of q]) (auto simp: worker_unfold)

lemma run_worker_keeps:
  "queue_wf q \<Longrightarrow> dq_started q \<Longrightarrow>
     queue_wf (run_worker oks q) \<and> dq_started (run_worker oks q) \<and>
     dq_uncounted (run_worker oks q) = dq_uncounted q \<and>
     dq_attempts (run_worker oks q) @ waiting_jobs (run_worker oks q) = dq_attempts q @ waiting_jobs q"
proof (induction oks arbitrary: q)
  case (Cons ok oks)
  then show ?case
    using Cons.IH [of "worker_step ok q"] queue_wf_worker [of q ok] by (simp add: worker_order)
qed simp

lemma waiting_done: "queue_wf q \<Longrightarrow> dq_pc q = W_Done \<Longrightarrow> waiting_jobs q = []"
  by (simp add: queue_wf_def waiting_jobs_def)

lemma quiesced_draining:
  "queue_wf q \<Longrightarrow> dq_started q \<Longrightarrow> draining (quiesce_wake (quiesce_begin q))"
  by (auto simp: draining_def quiesce_wake_def quiesce_begin_def can_send_def queue_wf_def channel_capacity_def)

lemma quiesced_keeps:
  "dq_attempts (quiesce_wake (quiesce_begin q)) @ waiting_jobs (quiesce_wake (quiesce_begin q)) =
     dq_attempts q @ waiting_jobs q"
  "dq_uncounted (quiesce_wake (quiesce_begin q)) = dq_uncounted q"
  "dq_started (quiesce_wake (quiesce_begin q)) = dq_started q"
  by (simp_all add: quiesce_wake_def quiesce_begin_def waiting_jobs_def command_jobs_def can_send_def)

lemma quiesced_wf: "queue_wf q \<Longrightarrow> queue_wf (quiesce_wake (quiesce_begin q))"
  using queue_wf_step [of q Act_Quiesce] queue_wf_step [of "quiesce_begin q" Act_Wake]
  by (simp add: action_enabled_def delivery_step_def quiesce_begin_def)

lemma quiesce_drains:
  fixes q :: delivery_queue
  defines "q0 \<equiv> quiesce_wake (quiesce_begin q)"
  assumes "queue_wf q" "dq_started q" "drain_budget q0 \<le> length oks"
  shows "dq_pc (run_worker oks q0) = W_Done"
    and "dq_attempts (run_worker oks q0) = dq_attempts q @ waiting_jobs q"
    and "queue_wf (run_worker oks q0)" "dq_uncounted (run_worker oks q0) = dq_uncounted q"
    and "dq_started (run_worker oks q0)"
proof -
  show d: "dq_pc (run_worker oks q0) = W_Done"
    using run_worker_drains [OF quiesced_draining, of q oks] assms by simp
  note k = run_worker_keeps [OF quiesced_wf, of q oks] quiesced_keeps [of q]
  show w: "queue_wf (run_worker oks q0)" "dq_uncounted (run_worker oks q0) = dq_uncounted q"
    "dq_started (run_worker oks q0)"
    using k assms by simp_all
  show "dq_attempts (run_worker oks q0) = dq_attempts q @ waiting_jobs q"
    using k waiting_done [OF w(1) d] assms by simp
qed

end
