(* ===== verification/Events_Provider.thy ===== *)
theory Events_Provider
  imports Events_Match Events_Delivery Rust_Text "HOL-Library.Product_Lexorder"
begin

text \<open>
  The EventBridge provider (\<^verbatim>\<open>provider.rs\<close>): event buses, their rules, and the targets of a rule.
  Handlers return an error, or their answer and the new state. What they read from outside (the
  settings, the clock, fresh identifiers, the JSON printer, the delivery bridge, the iteration order
  of hash maps) is the record \<open>events_env\<close>. Message texts are not modelled.
\<close>

section \<open>State\<close>

datatype events_error = EE_NotFound | EE_AlreadyExists | EE_InvalidPattern | EE_Validation

record 'net rule_state =
  ru_name :: string
  ru_arn :: string
  ru_description :: "string option"
  ru_pattern :: "'net event_pattern option"
  ru_pattern_json :: "string option"
  ru_schedule :: "string option"
  ru_state :: string
  ru_role_arn :: "string option"
  ru_managed_by :: "string option"
  ru_bus_name :: string
  ru_tags :: "(string, string) btree"
  ru_targets :: "(string, target) btree"
  ru_created_at :: string

record 'net bus_state =
  bu_name :: string
  bu_arn :: string
  bu_description :: "string option"
  bu_policy :: "string option"
  bu_tags :: "(string, string) btree"
  bu_rules :: "(string, 'net rule_state) btree"

record 'net events =
  ev_buses :: "(string, 'net bus_state) btree"
  ev_queue :: delivery_queue

text \<open>The identifier and the time of the \<open>i\<close>-th event of a request are fresh values.\<close>

record ('net, 'ip) events_env =
  ee_pattern :: "('net, 'ip) pattern_env"
  ee_region :: string
  ee_account :: string
  ee_now :: "nat \<Rightarrow> string"
  ee_uuid :: "nat \<Rightarrow> string"
  ee_show :: "json \<Rightarrow> string"
  ee_validate :: "target \<Rightarrow> delivery_error option"
  ee_runtime :: bool
  ee_rule_order :: "'net rule_state list \<Rightarrow> 'net rule_state list"
  ee_target_order :: "target list \<Rightarrow> target list"
  ee_path_order :: "(string \<times> string) list \<Rightarrow> (string \<times> string) list"

section \<open>Helpers\<close>

definition max_targets_per_rule :: nat where "max_targets_per_rule = 5"

definition default_page_size :: nat where "default_page_size = 100"

definition resolve_page_size :: "int option \<Rightarrow> nat" where
  "resolve_page_size limit =
     (case limit of None \<Rightarrow> default_page_size | Some l \<Rightarrow> min (nat (max l 0)) default_page_size)"

definition resolve_bus_name :: "string option \<Rightarrow> string" where
  "resolve_bus_name name = unwrap_or ''default'' name"

definition arn_prefix :: "('net, 'ip) events_env \<Rightarrow> string" where
  "arn_prefix env = ''arn:aws:events:'' @ ee_region env @ '':'' @ ee_account env @ '':''"

definition build_bus_arn :: "('net, 'ip) events_env \<Rightarrow> string \<Rightarrow> string" where
  "build_bus_arn env bus = arn_prefix env @ ''event-bus/'' @ bus"

definition build_rule_arn :: "('net, 'ip) events_env \<Rightarrow> string \<Rightarrow> string \<Rightarrow> string" where
  "build_rule_arn env bus rule = arn_prefix env @ ''rule/'' @ bus @ ''/'' @ rule"

definition rule_name_char :: "char \<Rightarrow> bool" where
  "rule_name_char c \<longleftrightarrow> is_ascii_alphanumeric c \<or> c = CHR ''.'' \<or> c = CHR ''-'' \<or> c = CHR ''_''"

definition validate_event_bus_name :: "string \<Rightarrow> events_error + unit" where
  "validate_event_bus_name name =
     (if name = [] \<or> length name > 256 then Inl EE_Validation
      else if \<not> list_all (\<lambda>c. rule_name_char c \<or> c = CHR ''/'') name then Inl EE_Validation
      else Inr ())"

definition validate_rule_name :: "string \<Rightarrow> events_error + unit" where
  "validate_rule_name name =
     (if name = [] \<or> length name > 64 then Inl EE_Validation
      else if \<not> list_all rule_name_char name then Inl EE_Validation
      else Inr ())"

definition extract_bus_name_from_arn :: "string \<Rightarrow> string option" where
  "extract_bus_name_from_arn arn =
     (case splitn 6 (CHR '':'') arn of
        [_, _, _, _, _, resource] \<Rightarrow> strip_prefix ''event-bus/'' resource
      | _ \<Rightarrow> None)"

definition extract_rule_names_from_arn :: "string \<Rightarrow> (string \<times> string) option" where
  "extract_rule_names_from_arn arn =
     (case splitn 6 (CHR '':'') arn of
        [_, _, _, _, _, resource] \<Rightarrow>
          Option.bind (strip_prefix ''rule/'' resource) (\<lambda>rest.
            case splitn 2 (CHR ''/'') rest of [bus, rule] \<Rightarrow> Some (bus, rule) | _ \<Rightarrow> None)
      | _ \<Rightarrow> None)"

definition validate_target :: "('net, 'ip) events_env \<Rightarrow> target \<Rightarrow> delivery_error + unit" where
  "validate_target env t =
     (if tg_id t = [] \<or> length (tg_id t) > 64 \<or> \<not> list_all rule_name_char (tg_id t) \<or> length (tg_arn t) > 1600
      then Inl DE_InvalidArn
      else if tg_role_arn t \<noteq> None \<or> tg_retry t \<noteq> None \<or> tg_dead_letter t \<noteq> None \<or> tg_run_command t \<noteq> None \<or>
              tg_ecs t \<noteq> None \<or> tg_batch t \<noteq> None \<or> tg_kinesis t \<noteq> None \<or> tg_http t \<noteq> None \<or>
              tg_redshift t \<noteq> None \<or> tg_sage_maker t \<noteq> None \<or> tg_app_sync t \<noteq> None
      then Inl DE_Unsupported
      else if (case tg_sqs_group t of None \<Rightarrow> False
               | Some g \<Rightarrow> g = [] \<or> length g > 128 \<or> \<not> list_all (\<lambda>c. 33 \<le> byte_of c \<and> byte_of c \<le> 126) g)
      then Inl DE_Unsupported
      else if length (filter (\<lambda>present. present)
                [tg_input t \<noteq> None, tg_input_path t \<noteq> None, tg_transformer t \<noteq> None]) > 1
      then Inl DE_Unsupported
      else if (case tg_input t of None \<Rightarrow> False
               | Some i \<Rightarrow> length i > 8192 \<or> pe_json (ee_pattern env) i = None)
      then Inl DE_Unsupported
      else if (case tg_input_path t of None \<Rightarrow> False
               | Some p \<Rightarrow> length p > 256 \<or> \<not> starts_with p ''$'')
      then Inl DE_Unsupported
      else if (case tg_transformer t of None \<Rightarrow> False
               | Some x \<Rightarrow>
                   length (itr_template x) > 8192 \<or> length (itr_paths x) > 100 \<or>
                   list_ex (\<lambda>(key, path). length key > 256 \<or> length path > 256 \<or> \<not> starts_with path ''$'')
                     (itr_paths x))
      then Inl DE_Unsupported
      else Inr ())"

text \<open>Paging, as every list operation does it: the token is the offset of the next page.\<close>

definition list_page :: "'a list \<Rightarrow> string option \<Rightarrow> int option \<Rightarrow> 'a list \<times> string option" where
  "list_page xs token limit =
     (let size = resolve_page_size limit;
          start = (case token of Some t \<Rightarrow> unwrap_or 0 (parse_uint 64 t) | None \<Rightarrow> 0);
          page = take size (drop start xs)
      in (page, if length page = size then Some (show_nat (start + size)) else None))"

definition insert_tags :: "(string \<times> string) list \<Rightarrow> (string, string) btree \<Rightarrow> (string, string) btree" where
  "insert_tags tags m = fold (\<lambda>(k, v). bt_insert k v) tags m"

text \<open>The lookups that most handlers start with.\<close>

definition get_bus :: "'net events \<Rightarrow> string \<Rightarrow> events_error + 'net bus_state" where
  "get_bus s bus = ok_or EE_NotFound (bt_get (ev_buses s) bus)"

definition get_rule :: "'net bus_state \<Rightarrow> string \<Rightarrow> events_error + 'net rule_state" where
  "get_rule b rule = ok_or EE_NotFound (bt_get (bu_rules b) rule)"

definition put_bus :: "string \<Rightarrow> 'net bus_state \<Rightarrow> 'net events \<Rightarrow> 'net events" where
  "put_bus bus b s = s\<lparr>ev_buses := bt_insert bus b (ev_buses s)\<rparr>"

definition put_rule_in :: "string \<Rightarrow> string \<Rightarrow> 'net rule_state \<Rightarrow> 'net bus_state \<Rightarrow> 'net events \<Rightarrow> 'net events" where
  "put_rule_in bus rule r b s = put_bus bus (b\<lparr>bu_rules := bt_insert rule r (bu_rules b)\<rparr>) s"

section \<open>Event buses\<close>

definition new_bus :: "('net, 'ip) events_env \<Rightarrow> string \<Rightarrow> string option \<Rightarrow> (string, string) btree \<Rightarrow> 'net bus_state" where
  "new_bus env name description tags =
     \<lparr>bu_name = name, bu_arn = build_bus_arn env name, bu_description = description, bu_policy = None,
      bu_tags = tags, bu_rules = []\<rparr>"

definition new_events :: "('net, 'ip) events_env \<Rightarrow> 'net events" where
  "new_events env =
     \<lparr>ev_buses = [(''default'', new_bus env ''default'' None [])], ev_queue = new_queue\<rparr>"

definition handle_create_event_bus :: "('net, 'ip) events_env \<Rightarrow> string \<Rightarrow> string option \<Rightarrow>
    (string \<times> string) list \<Rightarrow> 'net events \<Rightarrow> events_error + (string \<times> string option) \<times> 'net events" where
  "handle_create_event_bus env name description tags s =
     res_bind (validate_event_bus_name name) (\<lambda>_.
       if name = ''default'' then Inl EE_AlreadyExists
       else (case bt_get (ev_buses s) name of
               Some _ \<Rightarrow> Inl EE_AlreadyExists
             | None \<Rightarrow>
                 Inr ((build_bus_arn env name, description),
                      put_bus name (new_bus env name description (insert_tags tags [])) s)))"

definition handle_delete_event_bus :: "string \<Rightarrow> 'net events \<Rightarrow> events_error + unit \<times> 'net events" where
  "handle_delete_event_bus name s =
     (if name = ''default'' then Inl EE_Validation
      else (case bt_get (ev_buses s) name of
              None \<Rightarrow> Inl EE_NotFound
            | Some _ \<Rightarrow> Inr ((), s\<lparr>ev_buses := bt_remove name (ev_buses s)\<rparr>)))"

type_synonym bus_info = "string \<times> string \<times> string option \<times> string option"

definition bus_info_of :: "'net bus_state \<Rightarrow> bus_info" where
  "bus_info_of b = (bu_name b, bu_arn b, bu_description b, bu_policy b)"

definition handle_describe_event_bus :: "string option \<Rightarrow> 'net events \<Rightarrow> events_error + bus_info" where
  "handle_describe_event_bus name s = res_map bus_info_of (get_bus s (resolve_bus_name name))"

definition handle_list_event_buses :: "string option \<Rightarrow> string option \<Rightarrow> int option \<Rightarrow> 'net events \<Rightarrow>
    bus_info list \<times> string option" where
  "handle_list_event_buses name_prefix token limit s =
     list_page
       (sort_key fst
          (map bus_info_of
             (filter (\<lambda>b. case name_prefix of Some p \<Rightarrow> starts_with (bu_name b) p | None \<Rightarrow> True)
                (bt_values (ev_buses s)))))
       token limit"

definition handle_update_event_bus :: "string option \<Rightarrow> string option \<Rightarrow> 'net events \<Rightarrow>
    events_error + (string \<times> string \<times> string option) \<times> 'net events" where
  "handle_update_event_bus name description s =
     (let bus = resolve_bus_name name
      in res_bind (get_bus s bus) (\<lambda>b.
           let b = (case description of Some d \<Rightarrow> b\<lparr>bu_description := Some d\<rparr> | None \<Rightarrow> b)
           in Inr ((bu_arn b, bu_name b, bu_description b), put_bus bus b s)))"

section \<open>Rules\<close>

record put_rule_input =
  pri_name :: string
  pri_event_pattern :: "string option"
  pri_schedule :: "string option"
  pri_state :: "string option"
  pri_description :: "string option"
  pri_role_arn :: "string option"
  pri_tags :: "(string \<times> string) list"
  pri_bus_name :: "string option"

text \<open>The optional pattern of the request, parsed.\<close>

definition parsed_pattern :: "('net, 'ip) events_env \<Rightarrow> string option \<Rightarrow> events_error + 'net event_pattern option" where
  "parsed_pattern env text =
     (case text of
        None \<Rightarrow> Inr None
      | Some t \<Rightarrow>
          (case parse_event_pattern (ee_pattern env) t of
             Inl _ \<Rightarrow> Inl EE_InvalidPattern
           | Inr p \<Rightarrow> Inr (Some p)))"

definition rule_of_input :: "('net, 'ip) events_env \<Rightarrow> put_rule_input \<Rightarrow> 'net event_pattern option \<Rightarrow>
    'net rule_state option \<Rightarrow> 'net rule_state" where
  "rule_of_input env inp pattern existing =
     (let bus = resolve_bus_name (pri_bus_name inp)
      in \<lparr>ru_name = pri_name inp, ru_arn = build_rule_arn env bus (pri_name inp),
          ru_description = pri_description inp, ru_pattern = pattern, ru_pattern_json = pri_event_pattern inp,
          ru_schedule = pri_schedule inp,
          ru_state = (case pri_state inp of None \<Rightarrow> ''ENABLED''
                      | Some st \<Rightarrow> if st = ''DISABLED'' then ''DISABLED'' else ''ENABLED''),
          ru_role_arn = pri_role_arn inp, ru_managed_by = None, ru_bus_name = bus,
          ru_tags = (case existing of Some r \<Rightarrow> ru_tags r | None \<Rightarrow> insert_tags (pri_tags inp) []),
          ru_targets = (case existing of Some r \<Rightarrow> ru_targets r | None \<Rightarrow> []),
          ru_created_at = (case existing of Some r \<Rightarrow> ru_created_at r | None \<Rightarrow> ee_now env 0)\<rparr>)"

definition handle_put_rule :: "('net, 'ip) events_env \<Rightarrow> put_rule_input \<Rightarrow> 'net events \<Rightarrow>
    events_error + string \<times> 'net events" where
  "handle_put_rule env inp s =
     (let bus = resolve_bus_name (pri_bus_name inp)
      in res_bind (validate_rule_name (pri_name inp)) (\<lambda>_.
         if pri_event_pattern inp = None \<and> pri_schedule inp = None then Inl EE_Validation
         else res_bind (parsed_pattern env (pri_event_pattern inp)) (\<lambda>pattern.
              res_bind (get_bus s bus) (\<lambda>b.
                let r = rule_of_input env inp pattern (bt_get (bu_rules b) (pri_name inp))
                in Inr (ru_arn r, put_rule_in bus (pri_name inp) r b s)))))"

definition handle_delete_rule :: "string option \<Rightarrow> string \<Rightarrow> bool option \<Rightarrow> 'net events \<Rightarrow>
    events_error + unit \<times> 'net events" where
  "handle_delete_rule bus_name name force s =
     (let bus = resolve_bus_name bus_name
      in res_bind (get_bus s bus) (\<lambda>b.
         res_bind (get_rule b name) (\<lambda>r.
           if ru_targets r \<noteq> [] \<and> \<not> unwrap_or False force then Inl EE_Validation
           else Inr ((), put_bus bus (b\<lparr>bu_rules := bt_remove name (bu_rules b)\<rparr>) s))))"

record rule_info =
  ri_name :: string
  ri_arn :: string
  ri_event_pattern :: "string option"
  ri_schedule :: "string option"
  ri_state :: string
  ri_description :: "string option"
  ri_role_arn :: "string option"
  ri_managed_by :: "string option"
  ri_bus_name :: string

definition rule_info_of :: "'net rule_state \<Rightarrow> rule_info" where
  "rule_info_of r =
     \<lparr>ri_name = ru_name r, ri_arn = ru_arn r, ri_event_pattern = ru_pattern_json r, ri_schedule = ru_schedule r,
      ri_state = ru_state r, ri_description = ru_description r, ri_role_arn = ru_role_arn r,
      ri_managed_by = ru_managed_by r, ri_bus_name = ru_bus_name r\<rparr>"

definition handle_describe_rule :: "('net, 'ip) events_env \<Rightarrow> string option \<Rightarrow> string \<Rightarrow> 'net events \<Rightarrow>
    events_error + rule_info \<times> string" where
  "handle_describe_rule env bus_name name s =
     res_bind (get_bus s (resolve_bus_name bus_name)) (\<lambda>b.
     res_map (\<lambda>r. (rule_info_of r, ee_account env)) (get_rule b name))"

definition handle_list_rules :: "string option \<Rightarrow> string option \<Rightarrow> string option \<Rightarrow> int option \<Rightarrow> 'net events \<Rightarrow>
    events_error + rule_info list \<times> string option" where
  "handle_list_rules bus_name name_prefix token limit s =
     res_map (\<lambda>b.
       list_page
         (sort_key ri_name
            (map rule_info_of
               (filter (\<lambda>r. case name_prefix of Some p \<Rightarrow> starts_with (ru_name r) p | None \<Rightarrow> True)
                  (bt_values (bu_rules b)))))
         token limit) (get_bus s (resolve_bus_name bus_name))"

definition set_rule_state :: "string \<Rightarrow> string option \<Rightarrow> string \<Rightarrow> 'net events \<Rightarrow> events_error + unit \<times> 'net events" where
  "set_rule_state st bus_name name s =
     (let bus = resolve_bus_name bus_name
      in res_bind (get_bus s bus) (\<lambda>b.
         res_bind (get_rule b name) (\<lambda>r. Inr ((), put_rule_in bus name (r\<lparr>ru_state := st\<rparr>) b s))))"

definition handle_enable_rule :: "string option \<Rightarrow> string \<Rightarrow> 'net events \<Rightarrow> events_error + unit \<times> 'net events" where
  "handle_enable_rule bus_name name s = set_rule_state ''ENABLED'' bus_name name s"

definition handle_disable_rule :: "string option \<Rightarrow> string \<Rightarrow> 'net events \<Rightarrow> events_error + unit \<times> 'net events" where
  "handle_disable_rule bus_name name s = set_rule_state ''DISABLED'' bus_name name s"

section \<open>Targets\<close>

datatype target_failure = TF_LimitExceeded | TF_Validation

text \<open>The loop of \<^verbatim>\<open>handle_put_targets\<close>: a target is inserted or becomes a failed entry.\<close>

fun put_targets_loop :: "('net, 'ip) events_env \<Rightarrow> target list \<Rightarrow> (string, target) btree \<Rightarrow>
    (string \<times> target_failure) list \<Rightarrow> (string, target) btree \<times> (string \<times> target_failure) list" where
  "put_targets_loop env [] m failed = (m, failed)"
| "put_targets_loop env (t # ts) m failed =
     (if bt_get m (tg_id t) = None \<and> length m \<ge> max_targets_per_rule
      then put_targets_loop env ts m (failed @ [(tg_id t, TF_LimitExceeded)])
      else (case validate_target env t of
              Inl _ \<Rightarrow> put_targets_loop env ts m (failed @ [(tg_id t, TF_Validation)])
            | Inr _ \<Rightarrow> put_targets_loop env ts (bt_insert (tg_id t) t m) failed))"

definition handle_put_targets :: "('net, 'ip) events_env \<Rightarrow> string option \<Rightarrow> string \<Rightarrow> target list \<Rightarrow> 'net events \<Rightarrow>
    events_error + (nat \<times> (string \<times> target_failure) list) \<times> 'net events" where
  "handle_put_targets env bus_name rule ts s =
     (let bus = resolve_bus_name bus_name
      in res_bind (get_bus s bus) (\<lambda>b.
         res_bind (get_rule b rule) (\<lambda>r.
           let (m, failed) = put_targets_loop env ts (ru_targets r) []
           in Inr ((length failed, failed), put_rule_in bus rule (r\<lparr>ru_targets := m\<rparr>) b s))))"

definition handle_remove_targets :: "string option \<Rightarrow> string \<Rightarrow> string list \<Rightarrow> 'net events \<Rightarrow>
    events_error + (nat \<times> (string \<times> target_failure) list) \<times> 'net events" where
  "handle_remove_targets bus_name rule ids s =
     (let bus = resolve_bus_name bus_name
      in res_bind (get_bus s bus) (\<lambda>b.
         res_bind (get_rule b rule) (\<lambda>r.
           Inr ((0, []), put_rule_in bus rule (r\<lparr>ru_targets := fold bt_remove ids (ru_targets r)\<rparr>) b s))))"

definition handle_list_targets_by_rule :: "string option \<Rightarrow> string \<Rightarrow> string option \<Rightarrow> int option \<Rightarrow> 'net events \<Rightarrow>
    events_error + target list \<times> string option" where
  "handle_list_targets_by_rule bus_name rule token limit s =
     res_bind (get_bus s (resolve_bus_name bus_name)) (\<lambda>b.
     res_map (\<lambda>r. list_page (sort_key tg_id (bt_values (ru_targets r))) token limit) (get_rule b rule))"

definition handle_list_rule_names_by_target :: "string option \<Rightarrow> string \<Rightarrow> string option \<Rightarrow> int option \<Rightarrow> 'net events \<Rightarrow>
    events_error + string list \<times> string option" where
  "handle_list_rule_names_by_target bus_name arn token limit s =
     res_map (\<lambda>b.
       list_page
         (sort (map ru_name
            (filter (\<lambda>r. list_ex (\<lambda>t. tg_arn t = arn) (bt_values (ru_targets r))) (bt_values (bu_rules b)))))
         token limit) (get_bus s (resolve_bus_name bus_name))"

end
