(* ===== verification/Events_Route.thy ===== *)
theory Events_Route
  imports Events_Provider
begin

text \<open>
  The rest of the EventBridge provider: routing of events through the rules of a bus to the delivery
  queue (\<^verbatim>\<open>handle_put_events\<close>), pattern tests, tags by ARN, and the permissions of a bus.
\<close>

section \<open>What a target receives\<close>

text \<open>\<^verbatim>\<open>str::replace\<close> with a pattern that is not empty.\<close>

function replace_all :: "string \<Rightarrow> string \<Rightarrow> string \<Rightarrow> string" where
  "replace_all pat rep s =
     (if pat = [] then s
      else (case str_find pat s of
              None \<Rightarrow> s
            | Some i \<Rightarrow> take i s @ rep @ replace_all pat rep (drop (i + length pat) s)))"
  by pat_completeness auto
termination
proof (relation "measure (\<lambda>(_, _, s). length s)")
  fix pat rep s :: string and i
  assume "pat \<noteq> []" "str_find pat s = Some i"
  then have "s \<noteq> []" by auto
  then show "((pat, rep, drop (i + length pat) s), (pat, rep, s)) \<in> measure (\<lambda>(_, _, s). length s)"
    using \<open>pat \<noteq> []\<close> by (cases s; cases pat) auto
qed auto

declare replace_all.simps [simp del]

definition apply_json_path :: "json \<Rightarrow> string \<Rightarrow> json" where
  "apply_json_path v path =
     (let p = unwrap_or (unwrap_or path (strip_prefix ''$'' path)) (strip_prefix ''$.'' path)
      in if p = [] then v
         else unwrap_or JNull (navigate_path v (split_on (CHR ''.'') p)))"

definition json_text :: "('net, 'ip) events_env \<Rightarrow> json \<Rightarrow> string" where
  "json_text env v = (case v of JString s \<Rightarrow> s | _ \<Rightarrow> ee_show env v)"

text \<open>One turn of the loop over the paths: the placeholder of a key becomes the value at its path.\<close>

definition fill_placeholder :: "('net, 'ip) events_env \<Rightarrow> json \<Rightarrow> string \<times> string \<Rightarrow> string \<Rightarrow> string" where
  "fill_placeholder env event kp text =
     (case kp of (key, path) \<Rightarrow>
        replace_all (''<'' @ key @ ''>'') (json_text env (apply_json_path event path)) text)"

definition apply_input_transform :: "('net, 'ip) events_env \<Rightarrow> target \<Rightarrow> json \<Rightarrow> string" where
  "apply_input_transform env t event =
     (case tg_input t of
        Some i \<Rightarrow> i
      | None \<Rightarrow>
          (case tg_input_path t of
             Some p \<Rightarrow> ee_show env (apply_json_path event p)
           | None \<Rightarrow>
               (case tg_transformer t of
                  Some x \<Rightarrow> fold (fill_placeholder env event) (ee_path_order env (itr_paths x)) (itr_template x)
                | None \<Rightarrow> ee_show env event)))"

section \<open>PutEvents\<close>

record events_entry =
  pv_source :: "string option"
  pv_detail_type :: "string option"
  pv_detail :: "string option"
  pv_resources :: "string list"
  pv_time :: "string option"
  pv_bus_name :: "string option"

definition max_put_events_entries :: nat where "max_put_events_entries = 10"

definition max_detail_bytes :: nat where "max_detail_bytes = 256 * 1024"

text \<open>The envelope is a JSON object; its keys are in the order of the map.\<close>

definition build_event_envelope :: "('net, 'ip) events_env \<Rightarrow> nat \<Rightarrow> string \<Rightarrow> string \<Rightarrow> string \<Rightarrow> string list \<Rightarrow>
    string option \<Rightarrow> string \<Rightarrow> json option" where
  "build_event_envelope env i source detail_type detail resources time bus =
     (case pe_json (ee_pattern env) detail of
        None \<Rightarrow> None
      | Some d \<Rightarrow>
          Some (JObject
            [(''account'', JString (ee_account env)),
             (''detail'', d),
             (''detail-type'', JString detail_type),
             (''event-bus-name'', JString (build_bus_arn env bus)),
             (''id'', JString (ee_uuid env i)),
             (''region'', JString (ee_region env)),
             (''resources'', JArray (map JString resources)),
             (''source'', JString source),
             (''time'', JString (unwrap_or (ee_now env i) time)),
             (''version'', JString ''0'')]))"

definition entry_envelope :: "('net, 'ip) events_env \<Rightarrow> nat \<Rightarrow> events_entry \<Rightarrow> json option" where
  "entry_envelope env i e =
     build_event_envelope env i (unwrap_or [] (pv_source e)) (unwrap_or [] (pv_detail_type e))
       (unwrap_or ''{}'' (pv_detail e)) (pv_resources e) (pv_time e) (resolve_bus_name (pv_bus_name e))"

text \<open>The jobs of a rule: none unless it is enabled and has a pattern that matches.\<close>

definition rule_matches :: "('net, 'ip) events_env \<Rightarrow> json \<Rightarrow> 'net rule_state \<Rightarrow> bool" where
  "rule_matches env event r \<longleftrightarrow>
     ru_state r = ''ENABLED'' \<and>
     (case ru_pattern r of Some p \<Rightarrow> matches (ee_pattern env) p event | None \<Rightarrow> False)"

definition rule_jobs :: "('net, 'ip) events_env \<Rightarrow> json \<Rightarrow> 'net rule_state \<Rightarrow> delivery_job list" where
  "rule_jobs env event r =
     (if rule_matches env event r
      then map (\<lambda>t. \<lparr>dj_target = t, dj_body = apply_input_transform env t event\<rparr>)
             (ee_target_order env (bt_values (ru_targets r)))
      else [])"

text \<open>Jobs are pushed until the batch is too large.\<close>

fun push_jobs :: "delivery_job list \<Rightarrow> delivery_job list \<Rightarrow> delivery_job list" where
  "push_jobs acc [] = acc"
| "push_jobs acc (j # js) =
     (let acc = acc @ [j] in if too_large acc then acc else push_jobs acc js)"

definition job_key :: "delivery_job \<Rightarrow> string \<times> string" where
  "job_key j = (tg_arn (dj_target j), tg_id (dj_target j))"

definition event_jobs :: "('net, 'ip) events_env \<Rightarrow> json \<Rightarrow> string \<Rightarrow> 'net events \<Rightarrow> delivery_job list" where
  "event_jobs env event bus s =
     sort_key job_key
       (case bt_get (ev_buses s) bus of
          None \<Rightarrow> []
        | Some b \<Rightarrow> push_jobs [] (concat (map (rule_jobs env event) (ee_rule_order env (bt_values (bu_rules b))))))"

datatype put_event_result =
    PER_Id string
  | PER_DetailTooLarge
  | PER_MalformedDetail
  | PER_InvalidTarget delivery_error
  | PER_InternalFailure delivery_error

fun per_failed :: "put_event_result \<Rightarrow> bool" where
  "per_failed (PER_Id i) = False"
| "per_failed _ = True"

fun first_refused :: "('net, 'ip) events_env \<Rightarrow> delivery_job list \<Rightarrow> delivery_error option" where
  "first_refused env [] = None"
| "first_refused env (j # js) =
     (case ee_validate env (dj_target j) of Some e \<Rightarrow> Some e | None \<Rightarrow> first_refused env js)"

text \<open>One entry of the request.\<close>

definition put_event :: "('net, 'ip) events_env \<Rightarrow> nat \<Rightarrow> events_entry \<Rightarrow> 'net events \<Rightarrow>
    put_event_result \<times> 'net events" where
  "put_event env i e s =
     (if (case pv_detail e of Some d \<Rightarrow> length d > max_detail_bytes | None \<Rightarrow> False)
      then (PER_DetailTooLarge, s)
      else (case entry_envelope env i e of
              None \<Rightarrow> (PER_MalformedDetail, s)
            | Some event \<Rightarrow>
                (let jobs = event_jobs env event (resolve_bus_name (pv_bus_name e)) s
                 in case first_refused env jobs of
                      Some err \<Rightarrow> (PER_InvalidTarget err, s)
                    | None \<Rightarrow>
                        (case submit (ee_runtime env) jobs (ev_queue s) of
                           (Inl err, q) \<Rightarrow> (PER_InternalFailure err, s\<lparr>ev_queue := q\<rparr>)
                         | (Inr _, q) \<Rightarrow> (PER_Id (ee_uuid env i), s\<lparr>ev_queue := q\<rparr>)))))"

fun put_events_loop :: "('net, 'ip) events_env \<Rightarrow> nat \<Rightarrow> events_entry list \<Rightarrow> 'net events \<Rightarrow>
    put_event_result list \<times> 'net events" where
  "put_events_loop env i [] s = ([], s)"
| "put_events_loop env i (e # es) s =
     (let (r, s') = put_event env i e s;
          (rs, s'') = put_events_loop env (Suc i) es s'
      in (r # rs, s''))"

definition handle_put_events :: "('net, 'ip) events_env \<Rightarrow> events_entry list \<Rightarrow> 'net events \<Rightarrow>
    events_error + (nat \<times> put_event_result list) \<times> 'net events" where
  "handle_put_events env es s =
     (if length es > max_put_events_entries then Inl EE_Validation
      else (let (rs, s') = put_events_loop env 0 es s
            in Inr ((length (filter per_failed rs), rs), s')))"

definition handle_test_event_pattern :: "('net, 'ip) events_env \<Rightarrow> string \<Rightarrow> string \<Rightarrow> events_error + bool" where
  "handle_test_event_pattern env pattern event =
     (case parse_event_pattern (ee_pattern env) pattern of
        Inl _ \<Rightarrow> Inl EE_InvalidPattern
      | Inr p \<Rightarrow>
          (case pe_json (ee_pattern env) event of
             Some (JObject m) \<Rightarrow> Inr (matches (ee_pattern env) p (JObject m))
           | _ \<Rightarrow> Inl EE_InvalidPattern))"

section \<open>Tags\<close>

text \<open>\<^verbatim>\<open>TagResource\<close> and \<^verbatim>\<open>UntagResource\<close> differ in what they do to the tags of the resource.\<close>

definition change_tags :: "((string, string) btree \<Rightarrow> (string, string) btree) \<Rightarrow> string \<Rightarrow> 'net events \<Rightarrow>
    events_error + unit \<times> 'net events" where
  "change_tags f arn s =
     (case extract_bus_name_from_arn arn of
        Some bus \<Rightarrow>
          res_bind (get_bus s bus) (\<lambda>b. Inr ((), put_bus bus (b\<lparr>bu_tags := f (bu_tags b)\<rparr>) s))
      | None \<Rightarrow>
          (case extract_rule_names_from_arn arn of
             Some (bus, rule) \<Rightarrow>
               res_bind (get_bus s bus) (\<lambda>b.
               res_bind (get_rule b rule) (\<lambda>r.
                 Inr ((), put_rule_in bus rule (r\<lparr>ru_tags := f (ru_tags r)\<rparr>) b s)))
           | None \<Rightarrow> Inl EE_NotFound))"

definition handle_tag_resource :: "string \<Rightarrow> (string \<times> string) list \<Rightarrow> 'net events \<Rightarrow> events_error + unit \<times> 'net events" where
  "handle_tag_resource arn tags s = change_tags (insert_tags tags) arn s"

definition handle_untag_resource :: "string \<Rightarrow> string list \<Rightarrow> 'net events \<Rightarrow> events_error + unit \<times> 'net events" where
  "handle_untag_resource arn keys s = change_tags (fold bt_remove keys) arn s"

definition handle_list_tags_for_resource :: "string \<Rightarrow> 'net events \<Rightarrow> events_error + (string, string) btree" where
  "handle_list_tags_for_resource arn s =
     (case extract_bus_name_from_arn arn of
        Some bus \<Rightarrow> res_map bu_tags (get_bus s bus)
      | None \<Rightarrow>
          (case extract_rule_names_from_arn arn of
             Some (bus, rule) \<Rightarrow> res_bind (get_bus s bus) (\<lambda>b. res_map ru_tags (get_rule b rule))
           | None \<Rightarrow> Inl EE_NotFound))"

section \<open>Permissions\<close>

text \<open>
  Indexing a mutable value with a key (\<^verbatim>\<open>value["key"]\<close>): null becomes an object, a missing key is
  inserted with null, and any other kind of value panics (\<open>None\<close>). Indexing for reading gives null
  where there is nothing.
\<close>

definition insert_member :: "string \<Rightarrow> json \<Rightarrow> (string \<times> json) list \<Rightarrow> (string \<times> json) list" where
  "insert_member k v m =
     (if map_of m k = None then bt_insert k v m else map (\<lambda>(k', v'). (k', if k' = k then v else v')) m)"

definition json_index_mut :: "json \<Rightarrow> string \<Rightarrow> (string \<times> json) list option" where
  "json_index_mut v k =
     (case v of
        JNull \<Rightarrow> Some [(k, JNull)]
      | JObject m \<Rightarrow> Some (if map_of m k = None then insert_member k JNull m else m)
      | _ \<Rightarrow> None)"

definition sid_is :: "string \<Rightarrow> json \<Rightarrow> bool" where
  "sid_is sid statement \<longleftrightarrow> Option.bind (json_get statement ''Sid'') json_as_str = Some sid"

fun replace_statement :: "string \<Rightarrow> json \<Rightarrow> json list \<Rightarrow> json list" where
  "replace_statement sid new [] = [new]"
| "replace_statement sid new (st # sts) =
     (if sid_is sid st then new # sts else st # replace_statement sid new sts)"

definition empty_policy :: json where
  "empty_policy = JObject [(''Statement'', JArray []), (''Version'', JString ''2012-10-17'')]"

record put_permission_input =
  ppi_bus_name :: "string option"
  ppi_action :: "string option"
  ppi_principal :: "string option"
  ppi_statement_id :: "string option"
  ppi_policy :: "string option"

definition permission_statement :: "put_permission_input \<Rightarrow> string \<Rightarrow> json" where
  "permission_statement inp resource =
     JObject
       [(''Action'', JString (unwrap_or ''events:PutEvents'' (ppi_action inp))),
        (''Effect'', JString ''Allow''),
        (''Principal'', JObject [(''AWS'', JString (unwrap_or ''*'' (ppi_principal inp)))]),
        (''Resource'', JString resource),
        (''Sid'', JString (unwrap_or ''default'' (ppi_statement_id inp)))]"

text \<open>\<open>None\<close> is a handler that panics.\<close>

definition handle_put_permission :: "('net, 'ip) events_env \<Rightarrow> put_permission_input \<Rightarrow> 'net events \<Rightarrow>
    (events_error + unit \<times> 'net events) option" where
  "handle_put_permission env inp s =
     (let bus = resolve_bus_name (ppi_bus_name inp)
      in case get_bus s bus of
           Inl e \<Rightarrow> Some (Inl e)
         | Inr b \<Rightarrow>
             (case ppi_policy inp of
                Some p \<Rightarrow> Some (Inr ((), put_bus bus (b\<lparr>bu_policy := Some p\<rparr>) s))
              | None \<Rightarrow>
                  (let policy = (case bu_policy b of
                                   Some text \<Rightarrow> unwrap_or empty_policy (pe_json (ee_pattern env) text)
                                 | None \<Rightarrow> empty_policy)
                   in case json_index_mut policy ''Statement'' of
                        None \<Rightarrow> None
                      | Some m \<Rightarrow>
                          (let m' = (case map_of m ''Statement'' of
                                       Some (JArray sts) \<Rightarrow>
                                         insert_member ''Statement''
                                           (JArray (replace_statement (unwrap_or ''default'' (ppi_statement_id inp))
                                              (permission_statement inp (bu_arn b)) sts)) m
                                     | _ \<Rightarrow> m)
                           in Some (Inr ((), put_bus bus (b\<lparr>bu_policy := Some (ee_show env (JObject m'))\<rparr>) s))))))"

definition handle_remove_permission :: "('net, 'ip) events_env \<Rightarrow> string option \<Rightarrow> string option \<Rightarrow> bool option \<Rightarrow>
    'net events \<Rightarrow> (events_error + unit \<times> 'net events) option" where
  "handle_remove_permission env bus_name statement_id remove_all s =
     (let bus = resolve_bus_name bus_name
      in case get_bus s bus of
           Inl e \<Rightarrow> Some (Inl e)
         | Inr b \<Rightarrow>
             if unwrap_or False remove_all then Some (Inr ((), put_bus bus (b\<lparr>bu_policy := None\<rparr>) s))
             else (case (statement_id, Option.bind (bu_policy b) (pe_json (ee_pattern env))) of
                     (Some sid, Some policy) \<Rightarrow>
                       (case json_index_mut policy ''Statement'' of
                          None \<Rightarrow> None
                        | Some m \<Rightarrow>
                            (case map_of m ''Statement'' of
                               Some (JArray sts) \<Rightarrow>
                                 (let sts' = filter (\<lambda>st. \<not> sid_is sid st) sts;
                                      p = (if sts' = [] then None
                                           else Some (ee_show env (JObject (insert_member ''Statement'' (JArray sts') m))))
                                  in Some (Inr ((), put_bus bus (b\<lparr>bu_policy := p\<rparr>) s)))
                             | _ \<Rightarrow> Some (Inr ((), s))))
                   | _ \<Rightarrow> Some (Inr ((), s))))"

end
