(* ===== verification/Events_Invariant.thy ===== *)
theory Events_Invariant
  imports Events_Route
begin

text \<open>
  The state of the EventBridge provider stays well-formed: every bus and every rule is stored under
  its name with its ARN, a rule carries the parse of its pattern text, and it has at most five
  targets, each under its identifier and each accepted by \<^verbatim>\<open>validate_target\<close>; the counters of the
  delivery queue balance. The interpretation at the end says so of every reachable state, requests and
  steps of the delivery threads interleaved.
\<close>

section \<open>The invariant\<close>

definition targets_ok :: "('net, 'ip) events_env \<Rightarrow> (string, target) btree \<Rightarrow> bool" where
  "targets_ok env m \<longleftrightarrow>
     bt_wf m \<and> length m \<le> max_targets_per_rule \<and>
     (\<forall>k t. bt_get m k = Some t \<longrightarrow> tg_id t = k \<and> validate_target env t = Inr ())"

definition rule_ok :: "('net, 'ip) events_env \<Rightarrow> string \<Rightarrow> string \<Rightarrow> 'net rule_state \<Rightarrow> bool" where
  "rule_ok env bus k r \<longleftrightarrow>
     ru_name r = k \<and> validate_rule_name k = Inr () \<and> ru_bus_name r = bus \<and> ru_arn r = build_rule_arn env bus k \<and>
     parsed_pattern env (ru_pattern_json r) = Inr (ru_pattern r) \<and>
     (ru_pattern_json r \<noteq> None \<or> ru_schedule r \<noteq> None) \<and>
     ru_state r \<in> {''ENABLED'', ''DISABLED''} \<and> targets_ok env (ru_targets r)"

definition bus_ok :: "('net, 'ip) events_env \<Rightarrow> string \<Rightarrow> 'net bus_state \<Rightarrow> bool" where
  "bus_ok env k b \<longleftrightarrow>
     bu_name b = k \<and> validate_event_bus_name k = Inr () \<and> bu_arn b = build_bus_arn env k \<and> bt_wf (bu_rules b) \<and>
     (\<forall>rk r. bt_get (bu_rules b) rk = Some r \<longrightarrow> rule_ok env k rk r)"

definition events_wf :: "('net, 'ip) events_env \<Rightarrow> 'net events \<Rightarrow> bool" where
  "events_wf env s \<longleftrightarrow>
     bt_wf (ev_buses s) \<and> bt_get (ev_buses s) ''default'' \<noteq> None \<and>
     (\<forall>k b. bt_get (ev_buses s) k = Some b \<longrightarrow> bus_ok env k b) \<and> queue_wf (ev_queue s)"

section \<open>Preservation\<close>

lemma get_bus_Inr: "get_bus s bus = Inr b \<longleftrightarrow> bt_get (ev_buses s) bus = Some b"
  by (cases "bt_get (ev_buses s) bus") (simp_all add: get_bus_def)

lemma get_rule_Inr: "get_rule b rule = Inr r \<longleftrightarrow> bt_get (bu_rules b) rule = Some r"
  by (cases "bt_get (bu_rules b) rule") (simp_all add: get_rule_def)

lemmas lookups = get_bus_Inr get_rule_Inr res_bind_Inr_iff res_map_Inr

lemma wf_bus: "events_wf env s \<Longrightarrow> bt_get (ev_buses s) bus = Some b \<Longrightarrow> bus_ok env bus b"
  by (simp add: events_wf_def)

lemma wf_rule: "bus_ok env bus b \<Longrightarrow> bt_get (bu_rules b) rule = Some r \<Longrightarrow> rule_ok env bus rule r"
  by (simp add: bus_ok_def)

lemma wf_put_bus: "events_wf env s \<Longrightarrow> bus_ok env bus b \<Longrightarrow> events_wf env (put_bus bus b s)"
  by (auto simp: events_wf_def put_bus_def bt_wf_insert bt_get_insert)

lemma wf_put_rule:
  "events_wf env s \<Longrightarrow> bus_ok env bus b \<Longrightarrow> rule_ok env bus rule r \<Longrightarrow> events_wf env (put_rule_in bus rule r b s)"
  unfolding put_rule_in_def by (rule wf_put_bus) (auto simp: bus_ok_def bt_wf_insert bt_get_insert)

lemma wf_queue: "events_wf env s \<Longrightarrow> queue_wf q \<Longrightarrow> events_wf env (s\<lparr>ev_queue := q\<rparr>)"
  by (simp add: events_wf_def)

lemma put_targets_ok:
  "targets_ok env m \<Longrightarrow> targets_ok env (fst (put_targets_loop env ts m failed))"
proof (induction env ts m failed rule: put_targets_loop.induct)
  case (2 env t ts m failed)
  have "targets_ok env (bt_insert (tg_id t) t m)"
    if "\<not> (bt_get m (tg_id t) = None \<and> max_targets_per_rule \<le> length m)" "validate_target env t = Inr x" for x
    using that 2(4) by (auto simp: targets_ok_def bt_wf_insert bt_get_insert length_bt_insert)
  then show ?case using 2 by (auto split: sum.split)
qed simp

lemma remove_targets_ok: "targets_ok env m \<Longrightarrow> targets_ok env (fold bt_remove ids m)"
proof (induction ids arbitrary: m)
  case (Cons id ids)
  have "length (bt_remove id m) \<le> length m" by (simp add: bt_remove_def)
  then have "targets_ok env (bt_remove id m)"
    using Cons.prems by (auto simp: targets_ok_def bt_wf_remove bt_get_filter_out split: if_splits)
  then show ?case using Cons.IH by simp
qed simp

lemma rule_of_input_ok:
  assumes "validate_rule_name (pri_name inp) = Inr ()"
    and "pri_event_pattern inp \<noteq> None \<or> pri_schedule inp \<noteq> None"
    and "parsed_pattern env (pri_event_pattern inp) = Inr p"
    and "\<And>r. existing = Some r \<Longrightarrow> targets_ok env (ru_targets r)"
  shows "rule_ok env (resolve_bus_name (pri_bus_name inp)) (pri_name inp) (rule_of_input env inp p existing)"
  using assms by (auto simp: rule_ok_def rule_of_input_def Let_def targets_ok_def split: option.split)

lemma queue_wf_submit: "queue_wf q \<Longrightarrow> submit rt jobs q = (res, q') \<Longrightarrow> queue_wf q'"
proof -
  assume wf: "queue_wf q" and s: "submit rt jobs q = (res, q')"
  let ?b = "submit_begin rt jobs q"
  have b: "queue_wf (snd ?b)" using queue_wf_step [of q "Act_Submit rt jobs"] wf
    by (simp add: action_enabled_def delivery_step_def)
  show "queue_wf q'"
  proof (cases "fst ?b")
    case (Inl e)
    then show ?thesis using s b by (cases ?b) (simp add: submit_def)
  next
    case (Inr u)
    then have sending: "dq_sending (snd ?b) \<noteq> []"
      by (auto simp: submit_begin_def Let_def split: if_splits)
    then have c: "queue_wf (snd (submit_send 0 (snd ?b)))" using b by (intro queue_wf_send) auto
    show ?thesis
    proof (cases "fst (submit_send 0 (snd ?b))")
      case (Inl e)
      then show ?thesis using s c Inr by (cases ?b; cases "submit_send 0 (snd ?b)") (simp add: submit_def)
    next
      case Inr2: (Inr v)
      then have "dq_uncounted (snd (submit_send 0 (snd ?b))) \<noteq> []"
        by (auto simp: submit_send_def Let_def split: if_splits)
      then have "queue_wf (submit_count 0 (snd (submit_send 0 (snd ?b))))" using c by (intro queue_wf_count) auto
      then show ?thesis using s Inr Inr2 by (cases ?b; cases "submit_send 0 (snd ?b)") (auto simp: submit_def)
    qed
  qed
qed

lemma wf_put_event: "events_wf env s \<Longrightarrow> put_event env i e s = (r, s') \<Longrightarrow> events_wf env s'"
  using queue_wf_submit [of "ev_queue s"]
  by (auto simp: put_event_def Let_def events_wf_def split: if_splits option.splits sum.splits prod.splits)

lemma wf_put_events_loop: "events_wf env s \<Longrightarrow> events_wf env (snd (put_events_loop env i es s))"
proof (induction es arbitrary: i s)
  case (Cons e es)
  obtain r s' where "put_event env i e s = (r, s')" by fastforce
  then show ?case using Cons.IH [of s' "Suc i"] wf_put_event [OF Cons.prems] by (simp add: split_beta)
qed simp

section \<open>Requests\<close>

datatype events_request =
    RQ_CreateBus string "string option" "(string \<times> string) list"
  | RQ_DeleteBus string
  | RQ_UpdateBus "string option" "string option"
  | RQ_PutRule put_rule_input
  | RQ_DeleteRule "string option" string "bool option"
  | RQ_EnableRule "string option" string
  | RQ_DisableRule "string option" string
  | RQ_PutTargets "string option" string "target list"
  | RQ_RemoveTargets "string option" string "string list"
  | RQ_PutEvents "events_entry list"
  | RQ_Tag string "(string \<times> string) list"
  | RQ_Untag string "string list"
  | RQ_PutPermission put_permission_input
  | RQ_RemovePermission "string option" "string option" "bool option"
  | RQ_Delivery delivery_action

definition after_request :: "'net events \<Rightarrow> events_error + 'a \<times> 'net events \<Rightarrow> 'net events" where
  "after_request s r = (case r of Inl _ \<Rightarrow> s | Inr (_, s') \<Rightarrow> s')"

definition events_step :: "('net, 'ip) events_env \<Rightarrow> 'net events \<Rightarrow> events_request \<Rightarrow> 'net events" where
  "events_step env s rq =
     (case rq of
        RQ_CreateBus n d ts \<Rightarrow> after_request s (handle_create_event_bus env n d ts s)
      | RQ_DeleteBus n \<Rightarrow> after_request s (handle_delete_event_bus n s)
      | RQ_UpdateBus n d \<Rightarrow> after_request s (handle_update_event_bus n d s)
      | RQ_PutRule inp \<Rightarrow> after_request s (handle_put_rule env inp s)
      | RQ_DeleteRule b n f \<Rightarrow> after_request s (handle_delete_rule b n f s)
      | RQ_EnableRule b n \<Rightarrow> after_request s (handle_enable_rule b n s)
      | RQ_DisableRule b n \<Rightarrow> after_request s (handle_disable_rule b n s)
      | RQ_PutTargets b n ts \<Rightarrow> after_request s (handle_put_targets env b n ts s)
      | RQ_RemoveTargets b n ids \<Rightarrow> after_request s (handle_remove_targets b n ids s)
      | RQ_PutEvents es \<Rightarrow> after_request s (handle_put_events env es s)
      | RQ_Tag arn ts \<Rightarrow> after_request s (handle_tag_resource arn ts s)
      | RQ_Untag arn ks \<Rightarrow> after_request s (handle_untag_resource arn ks s)
      | RQ_PutPermission inp \<Rightarrow>
          (case handle_put_permission env inp s of Some r \<Rightarrow> after_request s r | None \<Rightarrow> s)
      | RQ_RemovePermission b sid al \<Rightarrow>
          (case handle_remove_permission env b sid al s of Some r \<Rightarrow> after_request s r | None \<Rightarrow> s)
      | RQ_Delivery a \<Rightarrow> s\<lparr>ev_queue := delivery_step (ev_queue s) a\<rparr>)"

definition events_enabled :: "'net events \<Rightarrow> events_request \<Rightarrow> bool" where
  "events_enabled s rq = (case rq of RQ_Delivery a \<Rightarrow> action_enabled (ev_queue s) a | _ \<Rightarrow> True)"

lemma wf_after:
  "events_wf env s \<Longrightarrow> (\<And>x s'. r = Inr (x, s') \<Longrightarrow> events_wf env s') \<Longrightarrow> events_wf env (after_request s r)"
  by (auto simp: after_request_def split: sum.split prod.split)

lemma wf_create_bus: "events_wf env s \<Longrightarrow> handle_create_event_bus env n d ts s = Inr (x, s') \<Longrightarrow> events_wf env s'"
  by (auto simp: handle_create_event_bus_def lookups new_bus_def bus_ok_def intro!: wf_put_bus split: if_splits option.splits)

lemma wf_delete_bus: "events_wf env s \<Longrightarrow> handle_delete_event_bus n s = Inr (x, s') \<Longrightarrow> events_wf env s'"
  by (auto simp: handle_delete_event_bus_def events_wf_def bt_wf_remove bt_get_filter_out split: if_splits option.splits)

lemma wf_update_bus: "events_wf env s \<Longrightarrow> handle_update_event_bus n d s = Inr (x, s') \<Longrightarrow> events_wf env s'"
  using wf_bus by (fastforce simp: handle_update_event_bus_def Let_def lookups bus_ok_def intro!: wf_put_bus split: option.splits)

lemma wf_put_rule_request: "events_wf env s \<Longrightarrow> handle_put_rule env inp s = Inr (x, s') \<Longrightarrow> events_wf env s'"
proof -
  assume wf: "events_wf env s" and h: "handle_put_rule env inp s = Inr (x, s')"
  let ?bus = "resolve_bus_name (pri_bus_name inp)"
  obtain p b where v: "validate_rule_name (pri_name inp) = Inr ()"
    "pri_event_pattern inp \<noteq> None \<or> pri_schedule inp \<noteq> None"
    "parsed_pattern env (pri_event_pattern inp) = Inr p" and b: "bt_get (ev_buses s) ?bus = Some b"
    and s': "s' = put_rule_in ?bus (pri_name inp) (rule_of_input env inp p (bt_get (bu_rules b) (pri_name inp))) b s"
    using h by (auto simp: handle_put_rule_def Let_def lookups split: if_splits)
  have "rule_ok env ?bus (pri_name inp) (rule_of_input env inp p (bt_get (bu_rules b) (pri_name inp)))"
    using v wf_rule [OF wf_bus [OF wf b]] by (intro rule_of_input_ok) (auto simp: rule_ok_def)
  then show "events_wf env s'" unfolding s' using wf_bus [OF wf b] by (intro wf_put_rule [OF wf])
qed

lemma wf_delete_rule: "events_wf env s \<Longrightarrow> handle_delete_rule bn n f s = Inr (x, s') \<Longrightarrow> events_wf env s'"
proof -
  assume wf: "events_wf env s" and h: "handle_delete_rule bn n f s = Inr (x, s')"
  obtain b where b: "bt_get (ev_buses s) (resolve_bus_name bn) = Some b"
    and s': "s' = put_bus (resolve_bus_name bn) (b\<lparr>bu_rules := bt_remove n (bu_rules b)\<rparr>) s"
    using h by (auto simp: handle_delete_rule_def Let_def lookups split: if_splits)
  have "bus_ok env (resolve_bus_name bn) (b\<lparr>bu_rules := bt_remove n (bu_rules b)\<rparr>)"
    using wf_bus [OF wf b] by (auto simp: bus_ok_def bt_wf_remove bt_get_filter_out split: if_splits)
  then show "events_wf env s'" unfolding s' by (rule wf_put_bus [OF wf])
qed

text \<open>The handlers that change one rule.\<close>

lemma wf_change_rule:
  assumes wf: "events_wf env s"
    and h: "res_bind (get_bus s bus) (\<lambda>b. res_bind (get_rule b n) (\<lambda>r. Inr (f r, put_rule_in bus n (g r) b s))) = Inr (x, s')"
    and ok: "\<And>r. rule_ok env bus n r \<Longrightarrow> rule_ok env bus n (g r)"
  shows "events_wf env s'"
proof -
  obtain b r where b: "bt_get (ev_buses s) bus = Some b" and r: "bt_get (bu_rules b) n = Some r"
    and s': "s' = put_rule_in bus n (g r) b s"
    using h by (auto simp: lookups)
  show ?thesis unfolding s'
    using wf_bus [OF wf b] ok [OF wf_rule [OF wf_bus [OF wf b] r]] by (rule wf_put_rule [OF wf])
qed

lemma wf_set_state:
  "st \<in> {''ENABLED'', ''DISABLED''} \<Longrightarrow> events_wf env s \<Longrightarrow> set_rule_state st bn n s = Inr (x, s') \<Longrightarrow> events_wf env s'"
  unfolding set_rule_state_def Let_def by (erule (1) wf_change_rule) (auto simp: rule_ok_def)

lemma wf_put_targets: "events_wf env s \<Longrightarrow> handle_put_targets env bn n ts s = Inr (x, s') \<Longrightarrow> events_wf env s'"
  unfolding handle_put_targets_def Let_def split_beta
  by (erule (1) wf_change_rule) (auto simp: rule_ok_def put_targets_ok)

lemma wf_remove_targets: "events_wf env s \<Longrightarrow> handle_remove_targets bn n ids s = Inr (x, s') \<Longrightarrow> events_wf env s'"
  unfolding handle_remove_targets_def Let_def
  by (erule (1) wf_change_rule) (auto simp: rule_ok_def remove_targets_ok)

lemma wf_change_tags: "events_wf env s \<Longrightarrow> change_tags f arn s = Inr (x, s') \<Longrightarrow> events_wf env s'"
proof -
  assume wf: "events_wf env s" and h: "change_tags f arn s = Inr (x, s')"
  show "events_wf env s'"
  proof (cases "extract_bus_name_from_arn arn")
    case (Some bus)
    then obtain b where b: "bt_get (ev_buses s) bus = Some b" and s': "s' = put_bus bus (b\<lparr>bu_tags := f (bu_tags b)\<rparr>) s"
      using h by (auto simp: change_tags_def lookups)
    show ?thesis unfolding s' using wf_bus [OF wf b] by (intro wf_put_bus [OF wf]) (simp add: bus_ok_def)
  next
    case None
    then obtain bus rule where "res_bind (get_bus s bus) (\<lambda>b. res_bind (get_rule b rule) (\<lambda>r.
        Inr ((), put_rule_in bus rule (r\<lparr>ru_tags := f (ru_tags r)\<rparr>) b s))) = Inr ((), s')"
      using h by (auto simp: change_tags_def split: option.splits)
    then show ?thesis by (rule wf_change_rule [OF wf]) (simp add: rule_ok_def)
  qed
qed

lemma wf_policy: "events_wf env s \<Longrightarrow> bt_get (ev_buses s) bus = Some b \<Longrightarrow> events_wf env (put_bus bus (b\<lparr>bu_policy := p\<rparr>) s)"
  by (rule wf_put_bus) (auto simp: bus_ok_def dest: wf_bus)

lemma wf_put_permission: "events_wf env s \<Longrightarrow> handle_put_permission env inp s = Some (Inr (x, s')) \<Longrightarrow> events_wf env s'"
  by (auto simp: handle_put_permission_def Let_def get_bus_Inr split: sum.splits option.splits intro: wf_policy)

lemma wf_remove_permission:
  "events_wf env s \<Longrightarrow> handle_remove_permission env bn sid al s = Some (Inr (x, s')) \<Longrightarrow> events_wf env s'"
  by (auto simp: handle_remove_permission_def Let_def get_bus_Inr split: sum.splits option.splits json.splits if_splits intro: wf_policy)

lemma wf_handle_put_events: "events_wf env s \<Longrightarrow> handle_put_events env es s = Inr (x, s') \<Longrightarrow> events_wf env s'"
  using wf_put_events_loop [of env s 0 es] by (auto simp: handle_put_events_def split: if_splits prod.splits)

lemma events_wf_new: "events_wf env (new_events env)"
  by (auto simp: events_wf_def new_events_def new_bus_def bus_ok_def queue_wf_new validate_event_bus_name_def
      rule_name_char_def is_ascii_alphanumeric_def is_ascii_alphabetic_def byte_of_def
      is_ascii_lower_def is_ascii_upper_def split: if_splits)

lemma events_wf_step: "events_wf env s \<Longrightarrow> events_enabled s rq \<Longrightarrow> events_wf env (events_step env s rq)"
proof (cases rq)
  case (RQ_Delivery a)
  then show "events_wf env s \<Longrightarrow> events_enabled s rq \<Longrightarrow> events_wf env (events_step env s rq)"
    using queue_wf_step [of "ev_queue s" a] by (simp add: events_step_def events_enabled_def events_wf_def)
qed (auto simp: events_step_def handle_enable_rule_def handle_disable_rule_def handle_tag_resource_def
      handle_untag_resource_def split: option.split intro!: wf_after
      intro: wf_create_bus wf_delete_bus wf_update_bus wf_put_rule_request wf_delete_rule wf_set_state wf_put_targets
        wf_remove_targets wf_handle_put_events wf_change_tags wf_put_permission wf_remove_permission)

interpretation eb: rooted_machine "events_step env" events_enabled "events_wf env" "new_events env" for env
  by unfold_locales (auto simp: events_wf_new events_wf_step)

end
