(* ===== verification/Events_Wildcard.thy ===== *)
theory Events_Wildcard
  imports Events_Match Rust_Text
begin

text \<open>
  The wildcard matcher of event patterns against what a wildcard means: \<open>glob\<close> reads the pattern
  character by character, without segments, and lets a \<open>*\<close> take any part of the text.
\<close>

inductive glob :: "string \<Rightarrow> string \<Rightarrow> bool" where
  glob_end: "glob [] []"
| glob_char: "glob p t \<Longrightarrow> c \<noteq> CHR 0x5C \<Longrightarrow> c \<noteq> CHR ''*'' \<Longrightarrow> glob (c # p) (c # t)"
| glob_escape: "glob p t \<Longrightarrow> glob (CHR 0x5C # c # p) (c # t)"
| glob_trailing: "glob [CHR 0x5C] [CHR 0x5C]"
| glob_star: "glob p t \<Longrightarrow> glob (CHR ''*'' # p) (w @ t)"

inductive_simps glob_Nil [simp]: "glob [] t"

lemma glob_literal:
  "c \<noteq> CHR 0x5C \<Longrightarrow> c \<noteq> CHR ''*'' \<Longrightarrow> glob (c # p) t \<longleftrightarrow> (\<exists>r. t = c # r \<and> glob p r)"
  by (subst glob.simps) auto

lemma glob_escaped: "glob (CHR 0x5C # c # p) t \<longleftrightarrow> (\<exists>r. t = c # r \<and> glob p r)"
  by (subst glob.simps) auto

lemma glob_backslash: "glob [CHR 0x5C] t \<longleftrightarrow> t = [CHR 0x5C]"
  by (subst glob.simps) auto

lemma glob_starred: "glob (CHR ''*'' # p) t \<longleftrightarrow> (\<exists>w r. t = w @ r \<and> glob p r)"
  by (subst glob.simps) auto

section \<open>Segments\<close>

fun segments_glob :: "wildcard_segment list \<Rightarrow> string \<Rightarrow> bool" where
  "segments_glob [] t = (t = [])"
| "segments_glob (Seg_Literal l # segs) t = (\<exists>r. t = l @ r \<and> segments_glob segs r)"
| "segments_glob (Seg_Star # segs) t = (\<exists>w r. t = w @ r \<and> segments_glob segs r)"

lemma segments_glob_flush:
  "segments_glob (flush_literal l @ segs) t \<longleftrightarrow> (\<exists>r. t = l @ r \<and> segments_glob segs r)"
  by (simp add: flush_literal_def)

lemma segments_glob_split:
  "segments_glob (split_segments l p) t \<longleftrightarrow> (\<exists>r. t = l @ r \<and> glob p r)"
proof (induction l p arbitrary: t rule: split_segments.induct)
  case (1 l)
  show ?case using segments_glob_flush [of l "[]"] by simp
next
  case (2 l c s)
  consider (esc) n s' where "c = CHR 0x5C" "s = n # s'" | (trail) "c = CHR 0x5C" "s = []"
    | (star) "c = CHR ''*''" | (char) "c \<noteq> CHR 0x5C" "c \<noteq> CHR ''*''"
    by (cases s) auto
  then show ?case
  proof cases
    case esc
    then show ?thesis using 2(2) [of n s'] by (auto simp: glob_escaped)
  next
    case trail
    then show ?thesis using 2(1) by (auto simp: glob_backslash)
  next
    case star
    then show ?thesis using 2(3) by (auto simp: glob_starred segments_glob_flush)
  next
    case char
    then show ?thesis using 2(4) by (auto simp: glob_literal)
  qed
qed

section \<open>Character boundaries\<close>

text \<open>Every literal segment starts a character.\<close>

definition starts_character :: "string \<Rightarrow> bool" where
  "starts_character s \<longleftrightarrow> (case s of [] \<Rightarrow> True | c # _ \<Rightarrow> \<not> is_cont_byte c)"

definition literals_ok :: "wildcard_segment list \<Rightarrow> bool" where
  "literals_ok segs \<longleftrightarrow> (\<forall>l. Seg_Literal l \<in> set segs \<longrightarrow> l \<noteq> [] \<and> starts_character l)"

lemma match_segments_glob: "literals_ok segs \<Longrightarrow> match_segments segs t \<longleftrightarrow> segments_glob segs t"
proof (induction segs arbitrary: t)
  case (Cons seg segs)
  then have IH: "match_segments segs r \<longleftrightarrow> segments_glob segs r" for r by (simp add: literals_ok_def)
  show ?case
  proof (cases seg)
    case (Seg_Literal l)
    then show ?thesis by (simp add: strip_prefix_Some [symmetric] IH split: option.split)
  next
    case Seg_Star
    have "match_segments (Seg_Star # segs) t" if t: "t = w @ r" and r: "segments_glob segs r" for w r
    proof (cases segs)
      case Nil
      then show ?thesis by simp
    next
      case segs: (Cons seg' segs')
      have "\<exists>i\<le>length t. is_char_boundary t i \<and> segments_glob segs (drop i t)"
      proof (cases seg')
        case (Seg_Literal l)
        then have "l \<noteq> []" "starts_character l" using Cons.prems segs by (auto simp: literals_ok_def)
        then obtain b l' where l: "l = b # l'" "\<not> is_cont_byte b" by (cases l) (auto simp: starts_character_def)
        then obtain r' where "r = b # r'" using r segs Seg_Literal by auto
        then have "is_char_boundary t (length w)" using t l by (simp add: is_char_boundary_def)
        then show ?thesis using t r by (intro exI [of _ "length w"]) simp
      next
        case Seg_Star
        obtain w' r' where "r = w' @ r'" "segments_glob segs' r'" using r segs Seg_Star by auto
        then have "segments_glob segs t" using t segs Seg_Star by (auto intro: exI [of _ "w @ w'"])
        then show ?thesis by (intro exI [of _ 0]) (simp add: is_char_boundary_def)
      qed
      then obtain i where i: "i \<le> length t" "is_char_boundary t i" "segments_glob segs (drop i t)" by blast
      then have "i \<in> set [0..<Suc (length t)]" unfolding set_upt by (simp add: less_Suc_eq_le del: upt_Suc)
      then show ?thesis using i IH by (simp only: match_segments.simps list_ex_iff) blast
    qed
    moreover have "segments_glob (Seg_Star # segs) t" if m: "match_segments (Seg_Star # segs) t"
    proof (cases "segs = []")
      case False
      then obtain i where "segments_glob segs (drop i t)" using m IH by (simp only: match_segments.simps list_ex_iff) blast
      then show ?thesis by (metis append_take_drop_id segments_glob.simps(3))
    qed auto
    ultimately show ?thesis using Seg_Star by (metis segments_glob.simps(3))
  qed
qed simp

text \<open>What follows an ASCII byte of the pattern starts a character.\<close>

definition ascii_separates :: "string \<Rightarrow> bool" where
  "ascii_separates p \<longleftrightarrow> (\<forall>u a v. p = u @ a # v \<longrightarrow> byte_of a < 128 \<longrightarrow> starts_character v)"

lemma ascii_separates_tl: "ascii_separates (c # p) \<Longrightarrow> ascii_separates p"
  unfolding ascii_separates_def by (metis append_Cons)

lemma ascii_separates_hd: "ascii_separates (c # p) \<Longrightarrow> byte_of c < 128 \<Longrightarrow> starts_character p"
  unfolding ascii_separates_def by (metis append_Nil)

lemma valid_text_separates: "valid_text p \<Longrightarrow> ascii_separates p \<and> starts_character p"
proof -
  assume p: "valid_text p"
  have head: "starts_character v" if v: "utf8_valid (map byte_of v)" for v
  proof (cases v)
    case (Cons b bs)
    then show ?thesis using utf8_valid_head [of "byte_of b" "map byte_of bs"] v
      by (simp add: starts_character_def is_cont_byte_def utf8_cont_def)
  qed (simp add: starts_character_def)
  have "starts_character v" if "p = u @ a # v" "byte_of a < 128" for u a v
    using utf8_valid_after_ascii [of "map byte_of p" "map byte_of u" "byte_of a" "map byte_of v"] p that
    by (intro head) (simp add: valid_text_def)
  then show ?thesis using p head by (auto simp: ascii_separates_def valid_text_def)
qed

lemma literals_ok_flush:
  "literals_ok (flush_literal l @ segs) \<longleftrightarrow> (l = [] \<or> starts_character l) \<and> literals_ok segs"
  by (auto simp: literals_ok_def flush_literal_def)

lemma ascii_specials: "byte_of (CHR ''*'') < 128" "byte_of (CHR 0x5C) < 128"
  by (simp_all add: byte_of_def)

lemma literals_ok_split:
  "ascii_separates p \<Longrightarrow> starts_character (l @ p) \<Longrightarrow> literals_ok (split_segments l p)"
proof (induction l p rule: split_segments.induct)
  case (1 l)
  then show ?case using literals_ok_flush [of l "[]"] by (simp add: literals_ok_def)
next
  case (2 l c s)
  note sep = ascii_separates_tl [OF 2(5)]
  consider (esc) n s' where "c = CHR 0x5C" "s = n # s'" | (trail) "c = CHR 0x5C" "s = []"
    | (star) "c = CHR ''*''" | (char) "c \<noteq> CHR 0x5C" "c \<noteq> CHR ''*''"
    by (cases s) auto
  then show ?case
  proof cases
    case esc
    then have "starts_character s" using ascii_separates_hd 2(5) ascii_specials by blast
    then have "starts_character ((l @ [n]) @ s')" using esc 2(6) by (cases l) (auto simp: starts_character_def)
    then show ?thesis using 2(2) [of n s'] esc ascii_separates_tl [of n s'] sep by simp
  next
    case trail
    then show ?thesis using 2(1) 2(6) sep by simp
  next
    case star
    then have "starts_character s" using ascii_separates_hd 2(5) ascii_specials by blast
    moreover have "l = [] \<or> starts_character l" using 2(6) by (cases l) (auto simp: starts_character_def)
    moreover have "literals_ok (Seg_Star # split_segments [] s) = literals_ok (split_segments [] s)"
      by (simp add: literals_ok_def)
    ultimately show ?thesis using 2(3) star sep by (simp add: literals_ok_flush)
  next
    case char
    then show ?thesis using 2(4) 2(6) sep by simp
  qed
qed

lemma wildcard_glob: "valid_text p \<Longrightarrow> wildcard_match p t \<longleftrightarrow> glob p t"
  using literals_ok_split [of p "[]"] valid_text_separates [of p] segments_glob_split [of "[]" p t]
  by (simp add: wildcard_match_def split_wildcard_pattern_def match_segments_glob)

end
