(* ===== verification/Events_Semantics.thy ===== *)
theory Events_Semantics
  imports Events_Match
begin

text \<open>
  What a pattern document means, without the parsed tree: \<open>doc_holds\<close> evaluates the document of a
  pattern on a value that may be absent. All fields of an object must hold, one of the items of
  \<^verbatim>\<open>$or\<close> (when there are any), and one of the conditions of a leaf; a field of an absent object is
  absent.

  The engine accepts no event that the document does not describe, and it accepts every event that
  the document describes when the objects that the pattern names are in the event, or are absent and
  have a simple pattern.
\<close>

section \<open>The meaning of a document\<close>

definition condition_holds ::
  "('net, 'ip) pattern_env \<Rightarrow> 'net match_condition \<Rightarrow> json option \<Rightarrow> bool" where
  "condition_holds env c fv =
     (case c of
        Exists b \<Rightarrow> b = (fv \<noteq> None)
      | _ \<Rightarrow> (case fv of Some v \<Rightarrow> match_value_or_array env c v | None \<Rightarrow> False))"

definition leaf_holds :: "('net, 'ip) pattern_env \<Rightarrow> json list \<Rightarrow> json option \<Rightarrow> bool" where
  "leaf_holds env cs fv =
     list_ex (\<lambda>c. case parse_single_condition env c of
                    Inr pc \<Rightarrow> condition_holds env pc fv | Inl e \<Rightarrow> False) cs"

definition field_of :: "json option \<Rightarrow> string \<Rightarrow> json option" where
  "field_of ev k = Option.bind ev (\<lambda>v. json_get v k)"

definition has_or_items :: "(string \<times> json) list \<Rightarrow> bool" where
  "has_or_items m \<longleftrightarrow> list_ex (\<lambda>(k, v). k = ''$or'' \<and> (case v of JArray (_ # _) \<Rightarrow> True | _ \<Rightarrow> False)) m"

function (sequential) doc_fields :: "('net, 'ip) pattern_env \<Rightarrow> (string \<times> json) list \<Rightarrow> json option \<Rightarrow> bool"
  and doc_any :: "('net, 'ip) pattern_env \<Rightarrow> (string \<times> json) list \<Rightarrow> json option \<Rightarrow> bool"
  and doc_items :: "('net, 'ip) pattern_env \<Rightarrow> json list \<Rightarrow> json option \<Rightarrow> bool" where
  "doc_fields env [] ev = True"
| "doc_fields env ((k, v) # m) ev =
     ((k = ''$or'' \<or>
       (case v of
          JArray cs \<Rightarrow> leaf_holds env cs (field_of ev k)
        | JObject m' \<Rightarrow>
            doc_fields env m' (field_of ev k) \<and> (has_or_items m' \<longrightarrow> doc_any env m' (field_of ev k))
        | _ \<Rightarrow> False)) \<and>
      doc_fields env m ev)"
| "doc_any env [] ev = False"
| "doc_any env ((k, v) # m) ev =
     (k = ''$or'' \<and> (case v of JArray items \<Rightarrow> doc_items env items ev | _ \<Rightarrow> False) \<or> doc_any env m ev)"
| "doc_items env [] ev = False"
| "doc_items env (item # items) ev =
     ((case item of
         JObject m \<Rightarrow> doc_fields env m ev \<and> (has_or_items m \<longrightarrow> doc_any env m ev)
       | _ \<Rightarrow> False) \<or> doc_items env items ev)"
  by pat_completeness auto
termination
  by (relation "measure (\<lambda>x. case x of
         Inl (_, m, _) \<Rightarrow> size_list (size_prod (\<lambda>_. 0) size) m
       | Inr (Inl (_, m, _)) \<Rightarrow> size_list (size_prod (\<lambda>_. 0) size) m
       | Inr (Inr (_, items, _)) \<Rightarrow> size_list size items)") auto

definition doc_holds :: "('net, 'ip) pattern_env \<Rightarrow> (string \<times> json) list \<Rightarrow> json option \<Rightarrow> bool" where
  "doc_holds env m ev \<longleftrightarrow> doc_fields env m ev \<and> (has_or_items m \<longrightarrow> doc_any env m ev)"

text \<open>
  The objects that a pattern names: present, or absent with a pattern in which \<^verbatim>\<open>exists: false\<close> stands
  alone and no \<^verbatim>\<open>$or\<close> occurs.
\<close>

definition exists_false_doc :: json where
  "exists_false_doc = JObject [(''exists'', JBool False)]"

fun absent_ok :: "(string \<times> json) list \<Rightarrow> bool" where
  "absent_ok [] = True"
| "absent_ok ((k, JArray cs) # m) =
     (k \<noteq> ''$or'' \<and> (exists_false_doc \<in> set cs \<longrightarrow> cs = [exists_false_doc]) \<and> absent_ok m)"
| "absent_ok ((k, JObject m') # m) = (k \<noteq> ''$or'' \<and> absent_ok m' \<and> absent_ok m)"
| "absent_ok ((k, v) # m) = (k \<noteq> ''$or'' \<and> absent_ok m)"

function (sequential) objects_ok :: "(string \<times> json) list \<Rightarrow> json \<Rightarrow> bool"
  and items_ok :: "json list \<Rightarrow> json \<Rightarrow> bool" where
  "objects_ok [] ev = True"
| "objects_ok ((k, v) # m) ev =
     ((case v of
         JObject m' \<Rightarrow> (case json_get ev k of Some v' \<Rightarrow> objects_ok m' v' | None \<Rightarrow> absent_ok m')
       | JArray items \<Rightarrow> (k = ''$or'' \<longrightarrow> items_ok items ev)
       | _ \<Rightarrow> True) \<and> objects_ok m ev)"
| "items_ok [] ev = True"
| "items_ok (item # items) ev =
     ((case item of JObject m \<Rightarrow> objects_ok m ev | _ \<Rightarrow> True) \<and> items_ok items ev)"
  by pat_completeness auto
termination
  by (relation "measure (\<lambda>x. case x of
         Inl (m, _) \<Rightarrow> size_list (size_prod (\<lambda>_. 0) size) m
       | Inr (items, _) \<Rightarrow> size_list size items)") auto

section \<open>Leaves\<close>

lemma match_leaf_iff: "match_leaf env cs fv \<longleftrightarrow> (\<exists>c\<in>set cs. condition_holds env c fv)"
proof -
  have "condition_holds env c fv \<longleftrightarrow> (case fv of Some v \<Rightarrow> match_value_or_array env c v | None \<Rightarrow> False)"
    if "\<not> is_exists c" for c
    using that by (cases c; cases fv) (simp_all add: condition_holds_def)
  then show ?thesis
    unfolding match_leaf_def list_ex_iff condition_holds_def by (cases fv) auto
qed

lemma convert_all_Inr:
  "convert_all f xs = Inr ys \<longleftrightarrow> length ys = length xs \<and> (\<forall>i<length xs. f (xs ! i) = Inr (ys ! i))"
proof (induction xs arbitrary: ys)
  case (Cons x xs)
  show ?case
    by (cases ys) (auto simp: res_bind_Inr_iff res_map_Inr Cons.IH All_less_Suc2)
qed auto

lemma convert_all_list_all2: "convert_all f xs = Inr ys \<longleftrightarrow> list_all2 (\<lambda>x y. f x = Inr y) xs ys"
  by (auto simp: convert_all_Inr list_all2_conv_all_nth)

lemma leaf_holds_parsed:
  assumes "parse_conditions env cs = Inr pcs"
  shows "leaf_holds env cs fv \<longleftrightarrow> match_leaf env pcs fv"
proof -
  have "list_all2 (\<lambda>c pc. parse_single_condition env c = Inr pc) cs pcs"
    using assms by (simp add: parse_conditions_def convert_all_list_all2)
  then show ?thesis
    unfolding match_leaf_iff leaf_holds_def
    by (induction rule: list_all2_induct) auto
qed

lemma parsed_exists:
  "parse_single_condition env c = Inr (Exists b) \<longleftrightarrow> c = JObject [(''exists'', JBool b)]"
proof
  have no: "res_map f r \<noteq> Inr (Exists b)" if "\<And>x. f x \<noteq> Exists b" for f :: "'x \<Rightarrow> 'n match_condition" and r :: "'e + 'x"
    using that by (cases r) auto
  have bind: "res_bind r f \<noteq> Inr (Exists b)" if "\<And>x. f x \<noteq> Inr (Exists b)" for f :: "'x \<Rightarrow> 'e + 'n match_condition" and r
    using that by (cases r) auto
  assume p: "parse_single_condition env c = Inr (Exists b)"
  then obtain m where c: "c = JObject m" by (auto simp: parse_single_condition_def split: json.splits option.splits)
  then have p: "parse_operator_condition env m = Inr (Exists b)" using p by (simp add: parse_single_condition_def)
  then obtain op v where m: "m = [(op, v)]"
    by (auto simp: parse_operator_condition_def split: list.splits)
  have 1: "parse_prefix_or_suffix v x \<noteq> Inr (Exists b)" for x
    by (auto simp: parse_prefix_or_suffix_def Let_def no split: json.splits option.splits)
  have 2: "parse_anything_but v \<noteq> Inr (Exists b)"
    by (auto simp: parse_anything_but_def parse_anything_but_array_def parse_anything_but_object_def Let_def no bind
        split: json.splits option.splits list.splits prod.splits)
  have 3: "parse_numeric v \<noteq> Inr (Exists b)"
    unfolding parse_numeric_def by (rule bind) (simp add: no)
  have "op = ''exists'' \<and> json_as_bool v = Some b"
    using p 1 2 3
    by (cases "json_as_bool v") (auto simp: m parse_operator_condition_def res_map_Inr res_bind_Inr_iff split: if_splits)
  then show "c = JObject [(''exists'', JBool b)]" using c m by (cases v) auto
qed (simp add: parse_single_condition_def parse_operator_condition_def)

section \<open>Objects\<close>

text \<open>The meaning of the value that a pattern gives to a field.\<close>

definition node_holds :: "('net, 'ip) pattern_env \<Rightarrow> json \<Rightarrow> json option \<Rightarrow> bool" where
  "node_holds env v fv =
     (case v of JArray cs \<Rightarrow> leaf_holds env cs fv | JObject m \<Rightarrow> doc_holds env m fv | _ \<Rightarrow> False)"

definition node_ok :: "json \<Rightarrow> json option \<Rightarrow> bool" where
  "node_ok v fv =
     (case v of JObject m \<Rightarrow> (case fv of Some v' \<Rightarrow> objects_ok m v' | None \<Rightarrow> absent_ok m) | _ \<Rightarrow> True)"

definition node_absent_ok :: "json \<Rightarrow> bool" where
  "node_absent_ok v =
     (case v of JArray cs \<Rightarrow> exists_false_doc \<in> set cs \<longrightarrow> cs = [exists_false_doc]
      | JObject m \<Rightarrow> absent_ok m | _ \<Rightarrow> True)"

lemma doc_fields_Cons:
  "doc_fields env ((k, v) # m) ev \<longleftrightarrow> (k = ''$or'' \<or> node_holds env v (field_of ev k)) \<and> doc_fields env m ev"
  by (simp add: node_holds_def doc_holds_def split: json.split)

lemma objects_ok_Cons:
  "k \<noteq> ''$or'' \<Longrightarrow> objects_ok ((k, v) # m) ev \<longleftrightarrow> node_ok v (json_get ev k) \<and> objects_ok m ev"
  by (simp add: node_ok_def split: json.split)

lemma absent_ok_Cons: "absent_ok ((k, v) # m) \<longleftrightarrow> k \<noteq> ''$or'' \<and> node_absent_ok v \<and> absent_ok m"
  by (cases v) (auto simp: node_absent_ok_def)

lemma match_all_append: "match_all env (F @ G) ev \<longleftrightarrow> match_all env F ev \<and> match_all env G ev"
  by (induction F) auto

lemma match_any_group_append:
  "match_any_group env (O1 @ O2) ev \<longleftrightarrow> match_any_group env O1 ev \<or> match_any_group env O2 ev"
  by (induction O1) auto

lemma match_any_group_branches:
  "match_any_group env (or_item_branches p) ev \<longleftrightarrow>
     match_all env (ep_fields p) ev \<and> (ep_or p = [] \<or> match_any_group env (ep_or p) ev)"
proof -
  have "match_any_group env (map (\<lambda>b. F @ b) gs) ev \<longleftrightarrow> match_all env F ev \<and> match_any_group env gs ev" for F gs
    by (induction gs) (auto simp: match_all_append)
  then show ?thesis by (auto simp: or_item_branches_def)
qed

lemma or_item_branches_nonempty [simp]: "or_item_branches p \<noteq> []"
  by (simp add: or_item_branches_def)

lemma all_exists_false_append:
  "all_fields_are_exists_false (F @ G) \<longleftrightarrow> all_fields_are_exists_false F \<and> all_fields_are_exists_false G"
proof (induction F)
  case (Cons f F)
  then show ?case by (cases f) auto
qed simp

text \<open>How the matchers built from the entries of an object relate to them.\<close>

definition object_agrees :: "('net, 'ip) pattern_env \<Rightarrow> (string \<times> json) list \<Rightarrow>
    'net field_matcher list \<Rightarrow> 'net field_matcher list list \<Rightarrow> bool" where
  "object_agrees env m F Os \<longleftrightarrow>
     (Os = [] \<longleftrightarrow> \<not> has_or_items m) \<and>
     (\<forall>ev. match_all env F ev \<longrightarrow> doc_fields env m (Some ev)) \<and>
     (\<forall>ev. match_any_group env Os ev \<longrightarrow> doc_any env m (Some ev)) \<and>
     (\<forall>ev. objects_ok m ev \<longrightarrow> doc_fields env m (Some ev) \<longrightarrow> match_all env F ev) \<and>
     (\<forall>ev. objects_ok m ev \<longrightarrow> doc_any env m (Some ev) \<longrightarrow> match_any_group env Os ev) \<and>
     (all_fields_are_exists_false F \<longrightarrow> doc_fields env m None) \<and>
     (absent_ok m \<longrightarrow> \<not> has_or_items m \<and> (doc_fields env m None \<longrightarrow> all_fields_are_exists_false F))"

definition items_agree :: "('net, 'ip) pattern_env \<Rightarrow> json list \<Rightarrow> 'net field_matcher list list \<Rightarrow> bool" where
  "items_agree env items Os \<longleftrightarrow>
     (Os = [] \<longleftrightarrow> items = []) \<and>
     (\<forall>ev. match_any_group env Os ev \<longrightarrow> doc_items env items (Some ev)) \<and>
     (\<forall>ev. items_ok items ev \<longrightarrow> doc_items env items (Some ev) \<longrightarrow> match_any_group env Os ev)"

definition node_agrees :: "('net, 'ip) pattern_env \<Rightarrow> json \<Rightarrow> 'net pattern_node \<Rightarrow> bool" where
  "node_agrees env v node \<longleftrightarrow>
     (\<forall>k ev. match_field env (FieldMatcher [k] node) ev \<longrightarrow> node_holds env v (json_get ev k)) \<and>
     (\<forall>k ev. node_ok v (json_get ev k) \<longrightarrow> node_holds env v (json_get ev k) \<longrightarrow>
        match_field env (FieldMatcher [k] node) ev) \<and>
     (exists_false_node node \<longrightarrow> node_holds env v None) \<and>
     (node_absent_ok v \<longrightarrow> node_holds env v None \<longrightarrow> exists_false_node node)"

lemma object_agrees_Nil: "object_agrees env [] [] []"
  by (simp add: object_agrees_def has_or_items_def)

lemma object_agrees_field:
  assumes "k \<noteq> ''$or''" "node_agrees env v node" "object_agrees env m F Os"
  shows "object_agrees env ((k, v) # m) (FieldMatcher [k] node # F) Os"
proof -
  have "has_or_items ((k, v) # m) = has_or_items m" using assms(1) by (simp add: has_or_items_def)
  moreover have "doc_any env ((k, v) # m) ev = doc_any env m ev" for ev using assms(1) by simp
  ultimately show ?thesis
    using assms
    by (simp only: object_agrees_def node_agrees_def doc_fields_Cons objects_ok_Cons [OF assms(1)]
        absent_ok_Cons match_all.simps
        all_fields_are_exists_false.simps field_of_def Option.bind.bind_lunit Option.bind.bind_lzero) blast
qed

lemma object_agrees_or:
  assumes "items_agree env items Os1" "object_agrees env m F Os2"
  shows "object_agrees env ((''$or'', JArray items) # m) F (Os1 @ Os2)"
proof -
  have "has_or_items ((''$or'', JArray items) # m) \<longleftrightarrow> items \<noteq> [] \<or> has_or_items m"
    by (cases items) (auto simp: has_or_items_def)
  then show ?thesis
    using assms
    by (simp add: object_agrees_def items_agree_def match_any_group_append absent_ok_Cons)
qed

lemma pattern_agrees:
  assumes "object_agrees env m F Os"
  shows "match_pattern_fields env F Os ev \<longrightarrow> doc_holds env m (Some ev)"
    and "objects_ok m ev \<Longrightarrow> doc_holds env m (Some ev) \<longrightarrow> match_pattern_fields env F Os ev"
  using assms unfolding object_agrees_def match_pattern_fields_def doc_holds_def by blast+

lemma items_agree_Cons:
  assumes "object_agrees env m (ep_fields p) (ep_or p)" "items_agree env items Os"
  shows "items_agree env (JObject m # items) (or_item_branches p @ Os)"
proof -
  have doc: "doc_items env (JObject m # items) ev \<longleftrightarrow> doc_holds env m ev \<or> doc_items env items ev" for ev
    by (simp add: doc_holds_def)
  have ok: "items_ok (JObject m # items) ev \<longleftrightarrow> objects_ok m ev \<and> items_ok items ev" for ev by simp
  have engine: "match_any_group env (or_item_branches p @ Os) ev \<longleftrightarrow>
      match_pattern_fields env (ep_fields p) (ep_or p) ev \<or> match_any_group env Os ev" for ev
    by (simp add: match_any_group_append match_any_group_branches match_pattern_fields_def)
  have Os: "(Os = []) = (items = [])"
    "match_any_group env Os ev \<Longrightarrow> doc_items env items (Some ev)"
    "items_ok items ev \<Longrightarrow> doc_items env items (Some ev) \<Longrightarrow> match_any_group env Os ev" for ev
    using assms(2) unfolding items_agree_def by simp_all
  have "match_any_group env (or_item_branches p @ Os) ev \<Longrightarrow> doc_items env (JObject m # items) (Some ev)" for ev
    unfolding engine doc using pattern_agrees(1) [OF assms(1), of ev] Os(2) [of ev] by argo
  moreover have "items_ok (JObject m # items) ev \<Longrightarrow> doc_items env (JObject m # items) (Some ev) \<Longrightarrow>
      match_any_group env (or_item_branches p @ Os) ev" for ev
    unfolding engine doc ok using pattern_agrees(2) [OF assms(1), of ev] Os(3) [of ev] by argo
  ultimately show ?thesis
    unfolding items_agree_def by (simp del: doc_items.simps items_ok.simps)
qed

lemma node_agrees_object:
  assumes "object_agrees env m F Os"
  shows "node_agrees env (JObject m) (PN_Object F Os)"
proof -
  have none: "all_fields_are_exists_false F \<and> Os = [] \<Longrightarrow> doc_holds env m None"
    "absent_ok m \<Longrightarrow> doc_holds env m None \<Longrightarrow> all_fields_are_exists_false F \<and> Os = []"
    using assms by (auto simp: object_agrees_def doc_holds_def)
  have field: "match_field env (FieldMatcher [k] (PN_Object F Os)) ev \<longleftrightarrow>
      (case json_get ev k of Some v \<Rightarrow> match_pattern_fields env F Os v
       | None \<Rightarrow> all_fields_are_exists_false F \<and> Os = [])" for k ev
    by (simp add: match_pattern_fields_def split: option.split)
  have 1: "match_field env (FieldMatcher [k] (PN_Object F Os)) ev \<Longrightarrow> doc_holds env m (json_get ev k)" for k ev
    unfolding field using none(1) pattern_agrees(1) [OF assms] by (cases "json_get ev k") auto
  have 2: "node_ok (JObject m) (json_get ev k) \<Longrightarrow> doc_holds env m (json_get ev k) \<Longrightarrow>
      match_field env (FieldMatcher [k] (PN_Object F Os)) ev" for k ev
    unfolding field using none(2) pattern_agrees(2) [OF assms] by (cases "json_get ev k") (auto simp: node_ok_def)
  show ?thesis
    unfolding node_agrees_def node_holds_def node_absent_ok_def json.case exists_false_node.simps
    using 1 2 none by blast
qed

lemma exists_false_node_iff:
  assumes "parse_conditions env cs = Inr pcs"
  shows "exists_false_node (PN_Leaf pcs) \<longleftrightarrow> cs = [exists_false_doc]"
proof -
  have c: "convert_all (parse_single_condition env) cs = Inr pcs" using assms by (simp add: parse_conditions_def)
  have exists_doc: "parse_single_condition env exists_false_doc = Inr (Exists False)"
    "parse_single_condition env d = Inr (Exists False) \<Longrightarrow> d = exists_false_doc" for d
    by (simp_all add: parsed_exists exists_false_doc_def)
  have "exists_false_node (PN_Leaf pcs) \<longleftrightarrow> pcs = [Exists False]"
    by (cases pcs; cases "hd pcs"; cases "tl pcs") auto
  also have "\<dots> \<longleftrightarrow> cs = [exists_false_doc]"
    using c exists_doc by (cases cs; cases pcs) (auto simp: convert_all_Inr res_bind_Inr_iff res_map_Inr)
  finally show ?thesis .
qed

lemma node_agrees_leaf:
  assumes "parse_conditions env cs = Inr pcs"
  shows "node_agrees env (JArray cs) (PN_Leaf pcs)"
proof -
  have None: "leaf_holds env cs None \<longleftrightarrow> exists_false_doc \<in> set cs"
  proof -
    have "condition_holds env pc None \<longleftrightarrow> pc = Exists False" for pc :: "'a match_condition"
      by (cases pc) (simp_all add: condition_holds_def)
    then have "(case parse_single_condition env c of Inr pc \<Rightarrow> condition_holds env pc None | Inl e \<Rightarrow> False) \<longleftrightarrow>
        parse_single_condition env c = Inr (Exists False)" for c
      by (cases "parse_single_condition env c") auto
    then have "leaf_holds env cs None \<longleftrightarrow> (\<exists>c\<in>set cs. parse_single_condition env c = Inr (Exists False))"
      by (simp add: leaf_holds_def list_ex_iff)
    then show ?thesis by (auto simp: parsed_exists exists_false_doc_def)
  qed
  have nav: "navigate_path ev [k] = json_get ev k" for ev k by (simp split: option.split)
  have "match_field env (FieldMatcher [k] (PN_Leaf pcs)) ev \<longleftrightarrow> node_holds env (JArray cs) (json_get ev k)" for k ev
    using leaf_holds_parsed [OF assms, of "json_get ev k"] by (simp only: match_field.simps nav) (simp add: node_holds_def)
  moreover have "node_holds env (JArray cs) None \<longleftrightarrow> exists_false_doc \<in> set cs" by (simp add: node_holds_def None)
  moreover have "node_absent_ok (JArray cs) \<longleftrightarrow> (exists_false_doc \<in> set cs \<longrightarrow> cs = [exists_false_doc])"
    by (simp add: node_absent_ok_def)
  ultimately show ?thesis
    unfolding node_agrees_def exists_false_node_iff [OF assms] by (metis list.set_intros(1))
qed

lemma parse_agrees:
  fixes env :: "('net, 'ip) pattern_env"
  shows "parse_entries env m fs ors = Inr p \<Longrightarrow>
      \<exists>F Os. ep_fields p = fs @ F \<and> ep_or p = ors @ Os \<and> object_agrees env m F Os"
    and "parse_or_items env items ors = Inr ors' \<Longrightarrow> \<exists>Os. ors' = ors @ Os \<and> items_agree env items Os"
    and "parse_node env name v = Inr node \<Longrightarrow> node_agrees env v node"
proof (induction env m fs ors and env items ors and env name v arbitrary: p and ors' and node
    rule: parse_entries_parse_or_items_parse_node.induct)
  case (1 env fs ors)
  then show ?case using object_agrees_Nil by auto
next
  case (2 env key v rest fs ors)
  show ?case
  proof (cases "key = ''$or''")
    case True
    then obtain items ors1 where v: "v = JArray items" and i: "parse_or_items env items ors = Inr ors1"
      and r: "parse_entries env rest fs ors1 = Inr p"
      using 2(5) by (auto split: json.splits simp: res_bind_Inr_iff)
    obtain O1 where "ors1 = ors @ O1" "items_agree env items O1" using 2(1) [OF True v i] by blast
    moreover obtain F O2 where "ep_fields p = fs @ F" "ep_or p = ors1 @ O2" "object_agrees env rest F O2"
      using 2(2) [OF True v r] by blast
    ultimately show ?thesis using object_agrees_or [of env items O1 rest F O2] True v by auto
  next
    case False
    then obtain node where n: "parse_node env key v = Inr node"
      and r: "parse_entries env rest (fs @ [FieldMatcher [key] node]) ors = Inr p"
      using 2(5) by (auto simp: res_bind_Inr_iff)
    obtain F Os where "ep_fields p = fs @ FieldMatcher [key] node # F" "ep_or p = ors @ Os" "object_agrees env rest F Os"
      using 2(4) [OF False r] by auto
    then show ?thesis using object_agrees_field [OF False 2(3) [OF False n]] by blast
  qed
next
  case (3 env ors)
  then show ?case by (simp add: items_agree_def)
next
  case (4 env item rest ors)
  then obtain m p where i: "item = JObject m" and m: "parse_entries env m [] [] = Inr p"
    and r: "parse_or_items env rest (ors @ or_item_branches p) = Inr ors'"
    by (auto split: json.splits simp: res_bind_Inr_iff)
  obtain Os where "ors' = ors @ or_item_branches p @ Os" "items_agree env rest Os" using 4(2) [OF i r] by auto
  moreover have "object_agrees env m (ep_fields p) (ep_or p)" using 4(1) [OF i m] by auto
  ultimately show ?case using items_agree_Cons i by blast
next
  case (5 env name v)
  show ?case
  proof (cases v)
    case (JArray arr)
    then show ?thesis using 5(2) node_agrees_leaf by (auto simp: res_map_Inr)
  next
    case (JObject m)
    then obtain p where m: "parse_entries env m [] [] = Inr p" and n: "node = PN_Object (ep_fields p) (ep_or p)"
      using 5(2) by (auto simp: res_map_Inr)
    have "object_agrees env m (ep_fields p) (ep_or p)" using 5(1) [OF JObject m] by auto
    then show ?thesis using node_agrees_object n JObject by blast
  qed (use 5(2) in auto)
qed

lemma parsed_pattern_means:
  assumes "parse_object env m = Inr p"
  shows "matches env p ev \<longrightarrow> doc_holds env m (Some ev)"
    and "objects_ok m ev \<Longrightarrow> doc_holds env m (Some ev) \<longrightarrow> matches env p ev"
proof -
  have "object_agrees env m (ep_fields p) (ep_or p)"
    using parse_agrees(1) [of env m "[]" "[]" p] assms by (auto simp: parse_object_def)
  then show "matches env p ev \<longrightarrow> doc_holds env m (Some ev)"
    and "objects_ok m ev \<Longrightarrow> doc_holds env m (Some ev) \<longrightarrow> matches env p ev"
    using pattern_agrees unfolding matches_def by blast+
qed

end
