(* ===== verification/Events_Properties.thy ===== *)
theory Events_Properties
  imports Events_Invariant Events_Wildcard Events_Semantics
begin

text \<open>
  The properties of EventBridge: what a pattern means, what a reachable state looks like, where an
  event goes, what the delivery queue does with it, ARNs and paging.
\<close>

section \<open>A concrete environment\<close>

text \<open>For witnesses: a JSON parser that knows a few texts, no networks, identity orders.\<close>

definition sample_documents :: "(string \<times> json) list" where
  "sample_documents =
     [(''{}'', JObject []),
      (''p'', JObject [(''source'', JArray [JString ''app'', JObject [(''prefix'', JString ''my.'')]])]),
      (''[]'', JArray [])]"

definition sample_pattern_env :: "(unit, unit) pattern_env" where
  "sample_pattern_env =
     \<lparr>pe_json = map_of sample_documents, pe_net = (\<lambda>_. None), pe_ip = (\<lambda>_. None),
      pe_contains = (\<lambda>_ _. False), pe_lower = map to_ascii_lower\<rparr>"

definition sample_env :: "(unit, unit) events_env" where
  "sample_env =
     \<lparr>ee_pattern = sample_pattern_env, ee_region = ''us-east-1'', ee_account = ''000000000000'',
      ee_now = (\<lambda>_. ''now''), ee_uuid = (\<lambda>i. ''id'' @ show_nat i), ee_show = (\<lambda>_. ''json''),
      ee_validate = (\<lambda>_. None), ee_runtime = True, ee_rule_order = (\<lambda>rs. rs), ee_target_order = (\<lambda>ts. ts),
      ee_path_order = (\<lambda>ps. ps)\<rparr>"

definition sample_target :: "string \<Rightarrow> target" where
  "sample_target i =
     \<lparr>tg_id = i, tg_arn = ''q'', tg_role_arn = None, tg_input = None, tg_input_path = None, tg_transformer = None,
      tg_run_command = None, tg_ecs = None, tg_batch = None, tg_kinesis = None, tg_sqs_group = None, tg_http = None,
      tg_redshift = None, tg_sage_maker = None, tg_dead_letter = None, tg_retry = None, tg_app_sync = None\<rparr>"

definition sample_rule :: put_rule_input where
  "sample_rule =
     \<lparr>pri_name = ''r'', pri_event_pattern = Some ''p'', pri_schedule = None, pri_state = None, pri_description = None,
      pri_role_arn = None, pri_tags = [], pri_bus_name = None\<rparr>"

definition sample_requests :: "events_request list" where
  "sample_requests = [RQ_PutRule sample_rule, RQ_PutTargets None ''r'' [sample_target ''b'', sample_target ''a'']]"

definition sample_events :: "unit events" where
  "sample_events = run_ops (events_step sample_env) (new_events sample_env) sample_requests"

definition sample_entry :: events_entry where
  "sample_entry =
     \<lparr>pv_source = Some ''my.app'', pv_detail_type = None, pv_detail = None, pv_resources = [], pv_time = None,
      pv_bus_name = None\<rparr>"

lemmas sample_defs = sample_env_def sample_pattern_env_def sample_documents_def sample_target_def sample_rule_def
  sample_requests_def sample_events_def sample_entry_def

text \<open>The bounds of a batch over integers, which evaluate faster.\<close>

lemma too_large_int [code]:
  "too_large jobs \<longleftrightarrow> 128 < int (length jobs) \<or> 1048576 < int (job_bytes jobs)"
  unfolding too_large_def by linarith

section \<open>Patterns\<close>

text \<open>
  C31. a wildcard pattern matches exactly the texts that it describes when it is read character by
  character: a star stands for any part of the text, a backslash takes the next character literally.
\<close>

theorem wildcard_is_glob: "valid_text p \<Longrightarrow> wildcard_match p t \<longleftrightarrow> glob p t"
  by (rule wildcard_glob)

theorem wildcard_is_glob_witness: "glob ''a*b*'' ''axbxbc'' \<and> \<not> glob ''a*b'' ''ac''"
proof -
  have "valid_text ''a*b*''" "valid_text ''a*b''" by code_simp+
  then have "wildcard_match ''a*b*'' ''axbxbc'' \<longleftrightarrow> glob ''a*b*'' ''axbxbc''" "wildcard_match ''a*b'' ''ac'' \<longleftrightarrow> glob ''a*b'' ''ac''"
    by (simp_all only: wildcard_is_glob)
  moreover have "wildcard_match ''a*b*'' ''axbxbc'' \<and> \<not> wildcard_match ''a*b'' ''ac''" by code_simp
  ultimately show ?thesis by blast
qed

text \<open>
  C32. an event that a parsed pattern accepts is one that the pattern document describes; and when the
  objects that the document names are in the event, or are absent with a pattern where
  \<^verbatim>\<open>exists: false\<close> stands alone, the engine accepts exactly the events that the document describes.
  The expansion of nested \<^verbatim>\<open>$or\<close> is part of this.
\<close>

theorem pattern_means_document:
  assumes "pe_json env txt = Some (JObject m)" "parse_event_pattern env txt = Inr p"
  shows "(matches env p ev \<longrightarrow> doc_holds env m (Some ev)) \<and>
         (objects_ok m ev \<longrightarrow> (matches env p ev \<longleftrightarrow> doc_holds env m (Some ev)))"
proof -
  have "parse_object env m = Inr p" using assms by (simp add: parse_event_pattern_def)
  then show ?thesis using parsed_pattern_means [of env m p ev] by blast
qed

theorem pattern_means_document_witness:
  "\<exists>p. parse_event_pattern sample_pattern_env ''p'' = Inr p \<and>
       matches sample_pattern_env p (JObject [(''source'', JString ''my.app'')])"
proof -
  let ?m = "[(''source'', JArray [JString ''app'', JObject [(''prefix'', JString ''my.'')]])]"
  let ?ev = "JObject [(''source'', JString ''my.app'')]"
  have j: "pe_json sample_pattern_env ''p'' = Some (JObject ?m)" by code_simp
  have "isl (parse_event_pattern sample_pattern_env ''p'') = False" by code_simp
  then obtain p where p: "parse_event_pattern sample_pattern_env ''p'' = Inr p"
    by (cases "parse_event_pattern sample_pattern_env ''p''") auto
  have "doc_holds sample_pattern_env ?m (Some ?ev)" "objects_ok ?m ?ev" by code_simp+
  then show ?thesis using pattern_means_document [OF j p, of ?ev] p by blast
qed

text \<open>
  Outside that condition the engine refuses events that the document describes: with the conditions
  "absent, or a" for a field, it does not accept an event without the enclosing object.
\<close>

lemma absent_object_refused:
  defines "m \<equiv> [(''detail'', JObject [(''x'', JArray [JString ''a'', exists_false_doc])])]"
  shows "doc_holds sample_pattern_env m (Some (JObject []))"
    and "\<exists>p. parse_object sample_pattern_env m = Inr p \<and> \<not> matches sample_pattern_env p (JObject [])"
proof -
  show "doc_holds sample_pattern_env m (Some (JObject []))" unfolding m_def by code_simp
  have "(case parse_object sample_pattern_env m of Inr p \<Rightarrow> \<not> matches sample_pattern_env p (JObject []) | Inl _ \<Rightarrow> False)"
    unfolding m_def by code_simp
  then show "\<exists>p. parse_object sample_pattern_env m = Inr p \<and> \<not> matches sample_pattern_env p (JObject [])"
    by (auto split: sum.splits)
qed

text \<open>Numbers are compared with an absolute tolerance: a number condition 0 accepts \<open>2 powi (- 60)\<close>.\<close>

lemma tiny_numbers_are_equal: "match_single_value sample_pattern_env (ExactNumeric (F64_Fin 0)) (JFloat (1 / 2 ^ 60))"
  by code_simp

section \<open>Reachable states\<close>

text \<open>
  C33. in every state that requests and delivery steps, in any order, can reach, a rule is stored under
  its name with the ARN of its bus and name, carries the parse of the pattern text it shows, and has
  at most five targets, each under its identifier and each accepted by the validation.
\<close>

theorem reachable_rules_typed:
  assumes "ok_run (events_step env) events_enabled (new_events env) rqs"
    and "s = run_ops (events_step env) (new_events env) rqs"
    and "bt_get (ev_buses s) bus = Some b" "bt_get (bu_rules b) name = Some r"
  shows "ru_name r = name \<and> ru_arn r = build_rule_arn env bus name \<and>
         parsed_pattern env (ru_pattern_json r) = Inr (ru_pattern r) \<and> length (ru_targets r) \<le> 5 \<and>
         (\<forall>i t. bt_get (ru_targets r) i = Some t \<longrightarrow> tg_id t = i \<and> validate_target env t = Inr ())"
proof -
  have "events_wf env s" using eb.inv_reachable assms(1,2) by blast
  then have "rule_ok env bus name r" using assms(3,4) wf_bus wf_rule by blast
  then show ?thesis by (simp add: rule_ok_def targets_ok_def max_targets_per_rule_def)
qed

theorem reachable_rules_typed_witness:
  "\<exists>b r. bt_get (ev_buses sample_events) ''default'' = Some b \<and> bt_get (bu_rules b) ''r'' = Some r \<and>
         ru_arn r = ''arn:aws:events:us-east-1:000000000000:rule/default/r'' \<and> length (ru_targets r) \<le> 5"
proof -
  have "ok_run (events_step sample_env) events_enabled (new_events sample_env) sample_requests"
    by (rule ok_run_mono) (auto simp: sample_requests_def events_enabled_def)
  note typed = reachable_rules_typed [OF this sample_events_def]
  have "Option.bind (bt_get (ev_buses sample_events) ''default'') (\<lambda>b. bt_get (bu_rules b) ''r'') \<noteq> None" by code_simp
  then obtain b r where "bt_get (ev_buses sample_events) ''default'' = Some b" "bt_get (bu_rules b) ''r'' = Some r"
    by (cases "bt_get (ev_buses sample_events) ''default''") auto
  then show ?thesis using typed [of "''default''" b "''r''" r]
    by (auto simp: build_rule_arn_def arn_prefix_def sample_env_def)
qed

section \<open>Routing\<close>

lemma push_jobs_all: "\<not> too_large (push_jobs acc js) \<Longrightarrow> push_jobs acc js = acc @ js"
  by (induction acc js rule: push_jobs.induct) (auto simp: Let_def split: if_splits)

lemma too_large_mset: "mset js = mset js' \<Longrightarrow> too_large js = too_large js'"
proof -
  assume m: "mset js = mset js'"
  have "job_bytes js = sum_mset (image_mset (\<lambda>j. length (dj_body j)) (mset js))" for js
    unfolding job_bytes_def mset_map [symmetric] sum_mset_sum_list ..
  then show ?thesis using m mset_eq_length [OF m] by (simp add: too_large_def)
qed

lemma submit_accepts:
  assumes "submit rt jobs q = (Inr u, q')"
  shows "\<not> too_large jobs \<and> dq_channel q' = dq_channel q @ [Cmd_Deliver jobs] \<and>
         dq_accepted q' = dq_accepted q + of_nat (length jobs) \<and> dq_attempts q' = dq_attempts q"
  using assms
  by (auto simp: submit_def submit_begin_def submit_send_def submit_count_def count_rejected_def remove_nth_def Let_def
      split: if_splits sum.splits prod.splits)

text \<open>The job of a rule for one of its targets.\<close>

definition job_for :: "('net, 'ip) events_env \<Rightarrow> json \<Rightarrow> target \<Rightarrow> delivery_job" where
  "job_for env event t = \<lparr>dj_target = t, dj_body = apply_input_transform env t event\<rparr>"

lemma mset_rule_jobs:
  assumes "\<And>ts. mset (ee_target_order env ts) = mset ts"
  shows "mset (rule_jobs env event r) =
    (if rule_matches env event r then image_mset (job_for env event) (mset (bt_values (ru_targets r))) else {#})"
  using assms by (simp add: rule_jobs_def job_for_def [abs_def])

lemma mset_concat_rule_jobs:
  assumes "\<And>ts. mset (ee_target_order env ts) = mset ts"
  shows "mset (concat (map (rule_jobs env event) rs)) =
    (\<Sum>r\<in>#filter_mset (rule_matches env event) (mset rs).
       image_mset (job_for env event) (mset (bt_values (ru_targets r))))"
  by (induction rs) (simp_all add: mset_rule_jobs [OF assms])

text \<open>
  C34. an accepted event is put on the delivery queue as one batch that holds, for every enabled rule of
  its bus whose pattern matches the event, one job for each of the rule's targets, and nothing else;
  the jobs are in the order of target ARN and identifier. This is so for every order in which the
  hash maps are iterated.
\<close>

theorem event_reaches_matching_targets:
  assumes "put_event env i e s = (PER_Id eid, s')"
    and "bt_get (ev_buses s) (resolve_bus_name (pv_bus_name e)) = Some b"
    and "\<And>rs. mset (ee_rule_order env rs) = mset rs" "\<And>ts. mset (ee_target_order env ts) = mset ts"
  shows "\<exists>event jobs. entry_envelope env i e = Some event \<and>
           dq_channel (ev_queue s') = dq_channel (ev_queue s) @ [Cmd_Deliver jobs] \<and>
           mset jobs =
             (\<Sum>r\<in>#filter_mset (\<lambda>r. ru_state r = ''ENABLED'' \<and>
                  (\<exists>p. ru_pattern r = Some p \<and> matches (ee_pattern env) p event)) (mset (bt_values (bu_rules b))).
                image_mset (job_for env event) (mset (bt_values (ru_targets r)))) \<and>
           sorted (map job_key jobs) \<and> ev_buses s' = ev_buses s"
proof -
  have rm: "rule_matches env event = (\<lambda>r. ru_state r = ''ENABLED'' \<and>
      (\<exists>p. ru_pattern r = Some p \<and> matches (ee_pattern env) p event))" for event
    by (auto simp: rule_matches_def fun_eq_iff split: option.split)
  obtain event where ev: "entry_envelope env i e = Some event"
    using assms(1) by (auto simp: put_event_def split: if_splits option.splits)
  let ?bus = "resolve_bus_name (pv_bus_name e)"
  let ?jobs = "event_jobs env event ?bus s"
  let ?all = "concat (map (rule_jobs env event) (ee_rule_order env (bt_values (bu_rules b))))"
  obtain u q where sub: "submit (ee_runtime env) ?jobs (ev_queue s) = (Inr u, q)" and s': "s' = s\<lparr>ev_queue := q\<rparr>"
    using assms(1) ev by (auto simp: put_event_def Let_def split: if_splits option.splits sum.splits prod.splits)
  note acc = submit_accepts [OF sub]
  have jobs: "?jobs = sort_key job_key (push_jobs [] ?all)" using assms(2) by (simp add: event_jobs_def)
  have "\<not> too_large (push_jobs [] ?all)"
    using acc too_large_mset [of ?jobs "push_jobs [] ?all"] by (simp add: jobs)
  then have "mset ?jobs = mset ?all" using push_jobs_all [of "[]" ?all] by (simp add: jobs)
  also have "\<dots> = (\<Sum>r\<in>#filter_mset (rule_matches env event) (mset (bt_values (bu_rules b))).
      image_mset (job_for env event) (mset (bt_values (ru_targets r))))"
    unfolding mset_concat_rule_jobs [OF assms(4)] using assms(3) by simp
  finally have "mset ?jobs = \<dots>" .
  moreover have "sorted (map job_key ?jobs)" by (simp add: event_jobs_def)
  ultimately show ?thesis using ev acc s' unfolding rm by (intro exI [of _ event] exI [of _ ?jobs]) simp
qed

theorem event_reaches_matching_targets_witness:
  "\<exists>s' jobs. put_event sample_env 0 sample_entry sample_events = (PER_Id ''id0'', s') \<and>
      dq_channel (ev_queue s') = [Cmd_Deliver jobs] \<and> size (mset jobs) = 2"
proof -
  have f: "fst (put_event sample_env 0 sample_entry sample_events) = PER_Id ''id0''" by code_simp
  then obtain s' where p: "put_event sample_env 0 sample_entry sample_events = (PER_Id ''id0'', s')"
    by (cases "put_event sample_env 0 sample_entry sample_events") auto
  have "bt_get (ev_buses sample_events) (resolve_bus_name (pv_bus_name sample_entry)) \<noteq> None" by code_simp
  then obtain b where b: "bt_get (ev_buses sample_events) (resolve_bus_name (pv_bus_name sample_entry)) = Some b" by blast
  obtain event jobs where "dq_channel (ev_queue s') = dq_channel (ev_queue sample_events) @ [Cmd_Deliver jobs]"
    using event_reaches_matching_targets [OF p b] by (auto simp: sample_env_def)
  moreover have "dq_channel (ev_queue sample_events) = []" by code_simp
  moreover have "map (length \<circ> command_jobs) (dq_channel (ev_queue (snd (put_event sample_env 0 sample_entry sample_events)))) = [2]"
    by code_simp
  ultimately show ?thesis using p by (auto simp: command_jobs_def)
qed

section \<open>ARNs\<close>

lemma split_once_colon: "CHR '':'' \<notin> set a \<Longrightarrow> split_once (CHR '':'') (a @ CHR '':'' # b) = Some (a, b)"
  by (rule split_once_append)

lemma splitn_arn:
  assumes "CHR '':'' \<notin> set (ee_region env)" "CHR '':'' \<notin> set (ee_account env)"
  shows "splitn 6 (CHR '':'') (arn_prefix env @ res) = [''arn'', ''aws'', ''events'', ee_region env, ee_account env, res]"
proof -
  have r: "split_once (CHR '':'') (ee_region env @ CHR '':'' # x) = Some (ee_region env, x)" for x
    using assms(1) by (rule split_once_append)
  have a: "split_once (CHR '':'') (ee_account env @ CHR '':'' # x) = Some (ee_account env, x)" for x
    using assms(2) by (rule split_once_append)
  show ?thesis by (simp add: arn_prefix_def numeral_eq_Suc r a)
qed

lemma split_bus_rule:
  assumes "CHR ''/'' \<notin> set rule"
  shows "(case splitn 2 (CHR ''/'') (bus @ ''/'' @ rule) of [b, r] \<Rightarrow> Some (b, r) | _ \<Rightarrow> None) = Some (bus, rule) \<longleftrightarrow>
         CHR ''/'' \<notin> set bus"
proof (cases "CHR ''/'' \<in> set bus")
  case True
  then obtain a c where "split_once (CHR ''/'') bus = Some (a, c)"
    by (metis split_once_None_iff option.exhaust surj_pair)
  then have bus: "bus = a @ CHR ''/'' # c" and a: "CHR ''/'' \<notin> set a" using split_once_Some by blast+
  have "split_once (CHR ''/'') (bus @ ''/'' @ rule) = Some (a, c @ ''/'' @ rule)"
    using split_once_append [OF a, of "c @ ''/'' @ rule"] by (simp add: bus)
  moreover have "a \<noteq> bus" using bus by simp
  ultimately show ?thesis using True by (simp add: numeral_2_eq_2)
next
  case False
  then show ?thesis using split_once_append [of "CHR ''/''" bus rule] by (simp add: numeral_2_eq_2)
qed

text \<open>
  the ARN that a rule gets leads back to the rule, for the handlers that take an ARN, exactly when
  the name of its bus has no slash (a slash is a legal character of a bus name).
\<close>

theorem rule_arn_addresses_rule:
  assumes "CHR '':'' \<notin> set (ee_region env)" "CHR '':'' \<notin> set (ee_account env)"
    and "validate_event_bus_name bus = Inr ()" "validate_rule_name rule = Inr ()"
  shows "extract_rule_names_from_arn (build_rule_arn env bus rule) = Some (bus, rule) \<longleftrightarrow> CHR ''/'' \<notin> set bus"
proof -
  have "CHR ''/'' \<notin> set rule"
    using assms(4) by (auto simp: validate_rule_name_def list_all_iff rule_name_char_def is_ascii_alphanumeric_def
        is_ascii_alphabetic_def is_ascii_lower_def is_ascii_upper_def is_ascii_digit_def byte_of_def split: if_splits)
  then have "(case splitn 2 (CHR ''/'') (bus @ ''/'' @ rule) of [b, r] \<Rightarrow> Some (b, r) | _ \<Rightarrow> None) = Some (bus, rule) \<longleftrightarrow>
      CHR ''/'' \<notin> set bus" by (rule split_bus_rule)
  moreover have "strip_prefix ''rule/'' (''rule/'' @ x) = Some x" for x by (simp only: strip_prefix_Some)
  ultimately show ?thesis
    unfolding extract_rule_names_from_arn_def build_rule_arn_def
    by (simp only: splitn_arn [OF assms(1,2)]) (simp del: append.simps)
qed

theorem rule_arn_addresses_rule_witness:
  "extract_rule_names_from_arn (build_rule_arn sample_env ''my.bus'' ''r'') = Some (''my.bus'', ''r'') \<and>
   extract_rule_names_from_arn (build_rule_arn sample_env ''a/b'' ''r'') \<noteq> Some (''a/b'', ''r'')"
proof -
  have "CHR '':'' \<notin> set (ee_region sample_env)" "CHR '':'' \<notin> set (ee_account sample_env)" by code_simp+
  note arn = rule_arn_addresses_rule [OF this]
  have "validate_event_bus_name ''my.bus'' = Inr ()" "validate_event_bus_name ''a/b'' = Inr ()" "validate_rule_name ''r'' = Inr ()"
    by code_simp+
  then show ?thesis using arn [of "''my.bus''" "''r''"] arn [of "''a/b''" "''r''"] by simp
qed

text \<open>
  With a slash, the tag operations of the rule answer that it does not exist.
\<close>

lemma rule_tags_unreachable:
  "(case handle_create_event_bus sample_env ''a/b'' None [] (new_events sample_env) of
      Inr (_, s) \<Rightarrow>
        (case handle_put_rule sample_env (sample_rule\<lparr>pri_bus_name := Some ''a/b''\<rparr>) s of
           Inr (arn, s') \<Rightarrow> handle_list_tags_for_resource arn s' = Inl EE_NotFound
         | Inl _ \<Rightarrow> False)
    | Inl _ \<Rightarrow> False)"
  by code_simp

section \<open>Delivery\<close>

text \<open>
  C35. however the threads of the delivery queue are interleaved, a \<^verbatim>\<open>quiesce\<close> ends after a bounded
  number of steps of the worker, and then every job that any handler put on the queue has been handed
  to its target exactly once, in the order of the queue, whether the deliveries succeeded or not; once
  the handlers have counted their batches, the accepted jobs are the delivered and the failed ones.
\<close>

theorem accepted_jobs_delivered_once:
  assumes "ok_run delivery_step action_enabled new_queue as"
    and "q = run_ops delivery_step new_queue as" "dq_started q"
    and "drain_budget (quiesce_wake (quiesce_begin q)) \<le> length outcomes"
    and "q' = supervisor_step (run_worker outcomes (quiesce_wake (quiesce_begin q)))"
  shows "quiesce_result q' = Some (Inr ()) \<and> dq_attempts q' = sent_jobs new_queue as \<and>
         (dq_uncounted q = [] \<longrightarrow> dq_accepted q' = dq_delivered q' + dq_failed q')"
proof -
  have wf: "queue_wf q" using deliveries.inv_reachable assms(1,2) by blast
  note d = quiesce_drains [OF wf assms(3,4)]
  have "dq_attempts q @ waiting_jobs q = sent_jobs new_queue as"
    using delivery_order [of new_queue as] assms(2) by (simp add: new_queue_def waiting_jobs_def)
  moreover have "waiting_jobs (run_worker outcomes (quiesce_wake (quiesce_begin q))) = []"
    using waiting_done d(1,3) by blast
  ultimately show ?thesis
    using d unfolding assms(5) by (auto simp: supervisor_step_def quiesce_result_def queue_wf_def)
qed

theorem accepted_jobs_delivered_once_witness:
  defines "jobs \<equiv> [\<lparr>dj_target = sample_target ''a'', dj_body = ''x''\<rparr>, \<lparr>dj_target = sample_target ''b'', dj_body = ''y''\<rparr>]"
  defines "as \<equiv> [Act_Submit True jobs, Act_Send 0, Act_Worker True, Act_Count 0]"
  shows "dq_attempts (supervisor_step (run_worker (replicate 9 False)
           (quiesce_wake (quiesce_begin (run_ops delivery_step new_queue as))))) = sent_jobs new_queue as \<and>
         length (sent_jobs new_queue as) = 2"
proof -
  have a: "ok_run delivery_step action_enabled new_queue as" unfolding as_def jobs_def by code_simp
  have b: "dq_started (run_ops delivery_step new_queue as)" unfolding as_def jobs_def by code_simp
  have c: "drain_budget (quiesce_wake (quiesce_begin (run_ops delivery_step new_queue as))) \<le> length (replicate 9 False)"
    unfolding as_def jobs_def by code_simp
  have "length (sent_jobs new_queue as) = 2" unfolding as_def jobs_def by code_simp
  then show ?thesis using accepted_jobs_delivered_once [OF a refl b c refl] by blast
qed

section \<open>Input transformers\<close>

text \<open>
  A value put in place of one placeholder is searched for the next one, so what a target receives
  depends on the iteration order of the hash map of paths.
\<close>

lemma transform_depends_on_order:
  defines "ev \<equiv> JObject [(''detail-type'', JString ''d''), (''source'', JString ''<b>'')]"
    and "t \<equiv> (sample_target ''a'')\<lparr>tg_transformer :=
               Some \<lparr>itr_paths = [(''a'', ''$.source''), (''b'', ''$.detail-type'')], itr_template = ''<a>''\<rparr>\<rparr>"
  shows "apply_input_transform sample_env t ev = ''d''"
    and "apply_input_transform (sample_env\<lparr>ee_path_order := rev\<rparr>) t ev = ''<b>''"
  unfolding ev_def t_def by code_simp+

section \<open>Permissions\<close>

text \<open>A bus policy that is JSON but not an object makes the next statement panic.\<close>

lemma put_permission_panics:
  "handle_put_permission sample_env
     \<lparr>ppi_bus_name = None, ppi_action = None, ppi_principal = None, ppi_statement_id = None, ppi_policy = None\<rparr>
     (put_bus ''default'' ((new_bus sample_env ''default'' None [])\<lparr>bu_policy := Some ''[]''\<rparr>) (new_events sample_env)) = None"
  by code_simp

section \<open>Paging\<close>

text \<open>A client follows the tokens of \<^verbatim>\<open>ListRules\<close>.\<close>

fun follow_rules :: "nat \<Rightarrow> string option \<Rightarrow> string option \<Rightarrow> string option \<Rightarrow> int option \<Rightarrow> 'net events \<Rightarrow>
    (events_error + rule_info list) option" where
  "follow_rules 0 bus name_prefix token limit s = None"
| "follow_rules (Suc fuel) bus name_prefix token limit s =
     (case handle_list_rules bus name_prefix token limit s of
        Inl e \<Rightarrow> Some (Inl e)
      | Inr (page, None) \<Rightarrow> Some (Inr page)
      | Inr (page, Some t) \<Rightarrow>
          map_option (res_map (\<lambda>rest. page @ rest)) (follow_rules fuel bus name_prefix (Some t) limit s))"

definition listed_rules :: "string option \<Rightarrow> 'net bus_state \<Rightarrow> rule_info list" where
  "listed_rules name_prefix b =
     sort_key ri_name (map rule_info_of
       (filter (\<lambda>r. case name_prefix of Some p \<Rightarrow> starts_with (ru_name r) p | None \<Rightarrow> True) (bt_values (bu_rules b))))"

lemma handle_list_rules_page:
  assumes "bt_get (ev_buses s) (resolve_bus_name bus) = Some b"
  shows "handle_list_rules bus name_prefix token limit s = Inr (list_page (listed_rules name_prefix b) token limit)"
  using assms by (simp add: handle_list_rules_def get_bus_def listed_rules_def)

lemma follow_rules_from:
  assumes b: "bt_get (ev_buses s) (resolve_bus_name bus) = Some b" and size: "0 < resolve_page_size limit"
    and len: "length (listed_rules name_prefix b) < 2 ^ 64"
    and token: "(case token of None \<Rightarrow> 0 | Some t \<Rightarrow> unwrap_or 0 (parse_uint 64 t)) = start"
    and start: "start \<le> length (listed_rules name_prefix b)"
    and fuel: "length (listed_rules name_prefix b) < start + fuel"
  shows "follow_rules fuel bus name_prefix token limit s = Some (Inr (drop start (listed_rules name_prefix b)))"
  using token start fuel
proof (induction fuel arbitrary: token start)
  case (Suc fuel)
  let ?xs = "listed_rules name_prefix b" and ?n = "resolve_page_size limit"
  have page: "list_page ?xs token limit =
      (take ?n (drop start ?xs), if length ?xs - start < ?n then None else Some (show_nat (start + ?n)))"
    using Suc.prems(1) by (auto simp: list_page_def Let_def)
  show ?case
  proof (cases "length ?xs - start < ?n")
    case True
    then show ?thesis by (simp add: handle_list_rules_page [OF b] page)
  next
    case False
    then have "parse_uint 64 (show_nat (start + ?n)) = Some (start + ?n)"
      using len Suc.prems(2) by (intro parse_uint_show) simp
    then have "follow_rules fuel bus name_prefix (Some (show_nat (start + ?n))) limit s = Some (Inr (drop (start + ?n) ?xs))"
      using Suc.prems False size by (intro Suc.IH) auto
    moreover have "take ?n (drop start ?xs) @ drop (start + ?n) ?xs = drop start ?xs"
      by (metis add.commute append_take_drop_id drop_drop)
    ultimately show ?thesis using False by (simp add: handle_list_rules_page [OF b] page)
  qed
qed simp

theorem rules_pages_complete:
  assumes "bt_get (ev_buses s) (resolve_bus_name bus) = Some b" "0 < resolve_page_size limit"
    and "length (listed_rules name_prefix b) < 2 ^ 64" "length (listed_rules name_prefix b) < fuel"
  shows "follow_rules fuel bus name_prefix None limit s = Some (Inr (listed_rules name_prefix b))"
  using follow_rules_from [OF assms(1-3), of None 0 fuel] assms(4) by simp

text \<open>With a limit that is not positive every page is empty and carries the token it was asked for.\<close>

lemma empty_pages_forever:
  "follow_rules fuel bus name_prefix token (Some 0) s = None"
  if "bt_get (ev_buses s) (resolve_bus_name bus) = Some b"
  by (induction fuel arbitrary: token)
    (simp_all add: handle_list_rules_page [OF that] list_page_def resolve_page_size_def)

end
