(* ===== verification/Secrets_Storage.thy ===== *)
theory Secrets_Storage
  imports Rust_Text
begin

text \<open>
  Secrets of Secrets Manager (\<^verbatim>\<open>storage.rs\<close>, \<^verbatim>\<open>version.rs\<close>, \<^verbatim>\<open>validation.rs\<close>, \<^verbatim>\<open>filter.rs\<close>): a secret with
  its versions and the staging labels that point to them, the rules for names, tags and values, and the
  filters of a listing. Dates are numbers of seconds. The iteration order of a hash map is an argument
  where the outcome depends on it. Message texts are not modelled.
\<close>

section \<open>State\<close>

datatype secrets_error =
    SE_InvalidNextToken
  | SE_InvalidParameter
  | SE_InvalidRequest
  | SE_ResourceExists
  | SE_ResourceNotFound

type_synonym secret_tag = "string option \<times> string option"

record secret_version =
  sv_version_id :: string
  sv_string :: "string option"
  sv_binary :: "string option"
  sv_created :: int
  sv_stages :: "string list"

record rotation_rules =
  rr_after_days :: "int option"
  rr_duration :: "string option"
  rr_schedule :: "string option"

record secret_record =
  sc_name :: string
  sc_arn :: string
  sc_description :: "string option"
  sc_kms_key_id :: "string option"
  sc_tags :: "secret_tag list"
  sc_policy :: "string option"
  sc_versions :: "(string, secret_version) btree"
  sc_labels :: "(string, string) btree"
  sc_rotation_enabled :: bool
  sc_rotation_lambda :: "string option"
  sc_rotation_rules :: "rotation_rules option"
  sc_last_rotated :: "int option"
  sc_deleted :: "int option"
  sc_recovery_window :: "int option"
  sc_created :: int
  sc_last_changed :: int
  sc_last_accessed :: "int option"
  sc_owning_service :: "string option"
  sc_primary_region :: "string option"

type_synonym secret_store = "(string, secret_record) btree"

type_synonym version_order = "(string \<times> secret_version) list \<Rightarrow> (string \<times> secret_version) list"

definition aws_current :: string where "aws_current = ''AWSCURRENT''"
definition aws_previous :: string where "aws_previous = ''AWSPREVIOUS''"
definition aws_pending :: string where "aws_pending = ''AWSPENDING''"
definition max_versions :: nat where "max_versions = 100"

section \<open>Versions and labels\<close>

text \<open>The cached stages of the versions are cleared, filled from the labels, and sorted.\<close>

definition map_versions :: "(secret_version \<Rightarrow> secret_version) \<Rightarrow> (string, secret_version) btree \<Rightarrow> (string, secret_version) btree" where
  "map_versions f m = map (\<lambda>(k, v). (k, f v)) m"

definition push_stage :: "string \<times> string \<Rightarrow> (string, secret_version) btree \<Rightarrow> (string, secret_version) btree" where
  "push_stage lv m =
     (case lv of (label, vid) \<Rightarrow>
        (case bt_get m vid of
           Some v \<Rightarrow> bt_insert vid (v\<lparr>sv_stages := sv_stages v @ [label]\<rparr>) m
         | None \<Rightarrow> m))"

definition rebuild_version_stages :: "secret_record \<Rightarrow> secret_record" where
  "rebuild_version_stages r =
     r\<lparr>sc_versions :=
         map_versions (\<lambda>v. v\<lparr>sv_stages := sort (sv_stages v)\<rparr>)
           (fold push_stage (sc_labels r) (map_versions (\<lambda>v. v\<lparr>sv_stages := []\<rparr>) (sc_versions r)))\<rparr>"

text \<open>When AWSCURRENT is about to move, its holder becomes AWSPREVIOUS.\<close>

definition demote_current :: "(string, string) btree \<Rightarrow> (string, string) btree" where
  "demote_current labels =
     (case bt_get labels aws_current of
        Some old \<Rightarrow> bt_insert aws_previous old labels
      | None \<Rightarrow> labels)"

definition move_staging_label ::
  "string \<Rightarrow> string \<Rightarrow> string option \<Rightarrow> secret_record \<Rightarrow> secrets_error + secret_record" where
  "move_staging_label label to from r =
     (if bt_get (sc_versions r) to = None then Inl SE_ResourceNotFound
      else if (case from of Some f \<Rightarrow> bt_get (sc_labels r) label \<noteq> Some f | None \<Rightarrow> False)
      then Inl SE_InvalidParameter
      else (let labels = (if label = aws_current then demote_current (sc_labels r) else sc_labels r)
            in Inr (rebuild_version_stages (r\<lparr>sc_labels := bt_insert label to labels\<rparr>))))"

definition cleanup_deprecated_versions :: "version_order \<Rightarrow> secret_record \<Rightarrow> secret_record" where
  "cleanup_deprecated_versions order r =
     (let total = length (sc_versions r)
      in if total \<le> max_versions then r
         else (let labeled = map snd (sc_labels r);
                   deprecated = filter (\<lambda>(vid, _). vid \<notin> set labeled) (order (sc_versions r));
                   oldest = sort_key (\<lambda>(_, v). sv_created v) deprecated
               in r\<lparr>sc_versions :=
                      fold (\<lambda>(vid, _). bt_remove vid) (take (total - max_versions) oldest) (sc_versions r)\<rparr>))"

definition add_version :: "version_order \<Rightarrow> string \<Rightarrow> string option \<Rightarrow> string option \<Rightarrow> string list \<Rightarrow> int \<Rightarrow>
    secret_record \<Rightarrow> secrets_error + secret_record" where
  "add_version order vid ss sb version_stages now r =
     (let stages = (if version_stages = [] then [aws_current] else version_stages)
      in case bt_get (sc_versions r) vid of
           Some existing \<Rightarrow>
             if sv_string existing = ss \<and> sv_binary existing = sb then Inr r else Inl SE_ResourceExists
         | None \<Rightarrow>
             (let labels = (if list_ex (\<lambda>s. s = aws_current) stages then demote_current (sc_labels r) else sc_labels r);
                  labels = fold (\<lambda>stage. bt_insert stage vid) stages labels;
                  version = \<lparr>sv_version_id = vid, sv_string = ss, sv_binary = sb, sv_created = now, sv_stages = []\<rparr>;
                  r = r\<lparr>sc_labels := labels, sc_versions := bt_insert vid version (sc_versions r)\<rparr>;
                  r = rebuild_version_stages (cleanup_deprecated_versions order r)
              in Inr (r\<lparr>sc_last_changed := now\<rparr>)))"

text \<open>The map from versions to their labels, for answers.\<close>

definition push_label :: "string \<times> string \<Rightarrow> (string, string list) btree \<Rightarrow> (string, string list) btree" where
  "push_label lv m = (case lv of (label, vid) \<Rightarrow> bt_insert vid (unwrap_or [] (bt_get m vid) @ [label]) m)"

definition version_ids_to_stages :: "secret_record \<Rightarrow> (string, string list) btree" where
  "version_ids_to_stages r = map (\<lambda>(vid, ls). (vid, sort ls)) (fold push_label (sc_labels r) [])"

definition is_pending_deletion :: "secret_record \<Rightarrow> bool" where
  "is_pending_deletion r \<longleftrightarrow> sc_deleted r \<noteq> None"

definition schedule_deletion :: "int \<Rightarrow> int \<Rightarrow> secret_record \<Rightarrow> secret_record" where
  "schedule_deletion days now r =
     r\<lparr>sc_deleted := Some (now + days * 86400), sc_recovery_window := Some days\<rparr>"

definition restore_record :: "secret_record \<Rightarrow> secrets_error + secret_record" where
  "restore_record r =
     (if sc_deleted r = None then Inl SE_InvalidRequest
      else Inr (r\<lparr>sc_deleted := None, sc_recovery_window := None\<rparr>))"

definition configure_rotation :: "string option \<Rightarrow> rotation_rules option \<Rightarrow> secret_record \<Rightarrow> secret_record" where
  "configure_rotation lambda rules r =
     r\<lparr>sc_rotation_lambda := (case lambda of Some a \<Rightarrow> Some a | None \<Rightarrow> sc_rotation_lambda r),
       sc_rotation_rules := (case rules of Some x \<Rightarrow> Some x | None \<Rightarrow> sc_rotation_rules r),
       sc_rotation_enabled := True\<rparr>"

definition get_current_version :: "secret_record \<Rightarrow> secret_version option" where
  "get_current_version r = Option.bind (bt_get (sc_labels r) aws_current) (bt_get (sc_versions r))"

definition start_rotation :: "version_order \<Rightarrow> string \<Rightarrow> int \<Rightarrow> bool \<Rightarrow> secret_record \<Rightarrow> secrets_error + secret_record" where
  "start_rotation order vid now immediately r =
     (let (ss, sb) = (case get_current_version r of Some v \<Rightarrow> (sv_string v, sv_binary v) | None \<Rightarrow> (None, None))
      in res_map (\<lambda>r. r\<lparr>sc_last_rotated := Some now\<rparr>)
           (add_version order vid ss sb [if immediately then aws_current else aws_pending] now r))"

text \<open>\<^verbatim>\<open>resolve_secret_id\<close>: a name, an ARN or the beginning of an ARN; the records are tried in the order of
  the hash map.\<close>

definition resolve_secret_id :: "(secret_record list \<Rightarrow> secret_record list) \<Rightarrow> secret_store \<Rightarrow> string \<Rightarrow> secrets_error + string" where
  "resolve_secret_id order s sid =
     (if bt_get s sid \<noteq> None then Inr sid
      else if starts_with sid ''arn:''
      then (case find (\<lambda>r. sc_arn r = sid \<or> starts_with (sc_arn r) sid) (order (bt_values s)) of
              Some r \<Rightarrow> Inr (sc_name r)
            | None \<Rightarrow> Inl SE_ResourceNotFound)
      else Inl SE_ResourceNotFound)"

definition secret_arn :: "string \<Rightarrow> string \<Rightarrow> string \<Rightarrow> string \<Rightarrow> string" where
  "secret_arn region account suffix name =
     ''arn:aws:secretsmanager:'' @ region @ '':'' @ account @ '':secret:'' @ name @ ''-'' @ suffix"

section \<open>Validation\<close>

definition validate_secret_name :: "string \<Rightarrow> secrets_error + unit" where
  "validate_secret_name name =
     (if name = [] \<or> length name > 512 then Inl SE_InvalidParameter
      else if \<not> list_all (\<lambda>c. is_ascii_alphanumeric c \<or> c \<in> set ''/_+=.@-'') name then Inl SE_InvalidParameter
      else Inr ())"

definition validate_client_request_token :: "string \<Rightarrow> secrets_error + unit" where
  "validate_client_request_token token =
     (if length token < 32 \<or> length token > 64 then Inl SE_InvalidParameter
      else if \<not> list_all (\<lambda>c. is_ascii_alphanumeric c \<or> c = CHR ''-'') token then Inl SE_InvalidParameter
      else Inr ())"

definition max_secret_tags :: nat where "max_secret_tags = 50"

definition tag_in_bounds :: "secret_tag \<Rightarrow> bool" where
  "tag_in_bounds t \<longleftrightarrow>
     (let key = unwrap_or [] (fst t); v = unwrap_or [] (snd t)
      in key \<noteq> [] \<and> length key \<le> 128 \<and> length v \<le> 256)"

definition validate_secret_tags :: "secret_tag list \<Rightarrow> secrets_error + unit" where
  "validate_secret_tags tags =
     (if length tags > max_secret_tags then Inl SE_InvalidParameter
      else if list_all tag_in_bounds tags then Inr () else Inl SE_InvalidParameter)"

definition validate_description :: "string \<Rightarrow> secrets_error + unit" where
  "validate_description d = (if length d > 2048 then Inl SE_InvalidParameter else Inr ())"

definition max_value_size :: nat where "max_value_size = 65536"

definition validate_secret_value :: "string option \<Rightarrow> string option \<Rightarrow> secrets_error + unit" where
  "validate_secret_value ss sb =
     (case (ss, sb) of
        (Some _, Some _) \<Rightarrow> Inl SE_InvalidParameter
      | (None, None) \<Rightarrow> Inl SE_InvalidParameter
      | (Some s, None) \<Rightarrow> if length s > max_value_size then Inl SE_InvalidParameter else Inr ()
      | (None, Some b) \<Rightarrow> if length b > max_value_size then Inl SE_InvalidParameter else Inr ())"

definition validate_recovery_window :: "int \<Rightarrow> secrets_error + unit" where
  "validate_recovery_window days = (if 7 \<le> days \<and> days \<le> 30 then Inr () else Inl SE_InvalidParameter)"

section \<open>Filters\<close>

datatype filter_key = FK_All | FK_Description | FK_Name | FK_OwningService | FK_PrimaryRegion | FK_TagKey | FK_TagValue

record secret_filter =
  sf_key :: "filter_key option"
  sf_values :: "string list"

definition prefix_or_negation :: "string \<Rightarrow> string \<Rightarrow> bool" where
  "prefix_or_negation txt v =
     (case strip_prefix ''!'' v of
        Some negated \<Rightarrow> \<not> starts_with txt negated
      | None \<Rightarrow> starts_with txt v)"

definition matches_filter_value :: "secret_record \<Rightarrow> filter_key \<Rightarrow> string \<Rightarrow> bool" where
  "matches_filter_value r key v =
     (case key of
        FK_Name \<Rightarrow> prefix_or_negation (sc_name r) v
      | FK_Description \<Rightarrow> prefix_or_negation (unwrap_or [] (sc_description r)) v
      | FK_TagKey \<Rightarrow> list_ex (\<lambda>t. fst t = Some v) (sc_tags r)
      | FK_TagValue \<Rightarrow> list_ex (\<lambda>t. snd t = Some v) (sc_tags r)
      | FK_OwningService \<Rightarrow> sc_owning_service r = Some v
      | FK_PrimaryRegion \<Rightarrow> sc_primary_region r = Some v
      | FK_All \<Rightarrow>
          str_contains v (sc_name r) \<or> str_contains v (unwrap_or [] (sc_description r)) \<or>
          list_ex (\<lambda>t. case snd t of Some tv \<Rightarrow> str_contains v tv | None \<Rightarrow> False) (sc_tags r))"

definition matches_single_filter :: "secret_record \<Rightarrow> secret_filter \<Rightarrow> bool" where
  "matches_single_filter r f =
     (let key = unwrap_or FK_All (sf_key f)
      in sf_values f = [] \<or> list_ex (matches_filter_value r key) (sf_values f))"

definition matches_filters :: "secret_record \<Rightarrow> secret_filter list \<Rightarrow> bool" where
  "matches_filters r fs = list_all (matches_single_filter r) fs"

end
