(* ===== verification/Offset_Pages.thy ===== *)
theory Offset_Pages
  imports Rustack_Prelude
begin

text \<open>
  Listings whose token is an offset, as Secrets Manager and the Parameter Store have them: the page at an
  offset, the client that follows the tokens, and what that client collects.
\<close>

definition page_at :: "'a list \<Rightarrow> nat \<Rightarrow> nat \<Rightarrow> 'a list \<times> nat option" where
  "page_at xs start max_results =
     (if start \<ge> length xs then ([], None)
      else (let page = drop start xs; n = min (length page) max_results
            in (take n page, if n < length page then Some (start + n) else None)))"

text \<open>A client of a listing: it asks with each token that it gets, at most \<open>fuel\<close> times.\<close>

fun follow_tokens :: "nat \<Rightarrow> ('t option \<Rightarrow> 'e + 'a list \<times> 't option) \<Rightarrow> 't option \<Rightarrow> ('e + 'a list) option" where
  "follow_tokens 0 ask t = None"
| "follow_tokens (Suc fuel) ask t =
     (case ask t of
        Inl e \<Rightarrow> Some (Inl e)
      | Inr (page, None) \<Rightarrow> Some (Inr page)
      | Inr (page, Some t') \<Rightarrow> map_option (res_map (\<lambda>rest. page @ rest)) (follow_tokens fuel ask (Some t')))"

lemma page_at_step:
  assumes "0 < n"
  shows "page_at xs i n = (drop i xs, None) \<or>
         (i + n < length xs \<and> page_at xs i n = (take n (drop i xs), Some (i + n)))"
  using assms by (auto simp: page_at_def Let_def min_def)

lemma page_at_zero: "page_at xs i 0 = ([], if i < length xs then Some i else None)"
  by (simp add: page_at_def)

lemma page_at_map: "page_at (map f xs) i n = apfst (map f) (page_at xs i n)"
  by (simp add: page_at_def Let_def take_map drop_map)

lemma page_at_subset: "set (fst (page_at xs i n)) \<subseteq> set xs"
  by (auto simp: page_at_def Let_def dest!: in_set_takeD in_set_dropD)

lemma follow_pages:
  assumes n: "0 < n" and tok: "\<And>i. i < length xs \<Longrightarrow> ask (Some (enc i)) = Inr (apsnd (map_option enc) (page_at xs i n))"
    and start: "ask None = Inr (apsnd (map_option enc) (page_at xs 0 n))" and fuel: "length xs \<le> fuel"
  shows "follow_tokens (Suc fuel) ask None = Some (Inr xs)"
proof -
  have from_i: "follow_tokens (Suc k) ask t = Some (Inr (drop i xs))"
    if "ask t = Inr (apsnd (map_option enc) (page_at xs i n))" "length xs - i \<le> k" for t i k
    using that
  proof (induction k arbitrary: t i)
    case 0
    then show ?case using page_at_step [OF n, of xs i] by auto
  next
    case (Suc k)
    show ?case
    proof (cases "i + n < length xs")
      case True
      then have p: "page_at xs i n = (take n (drop i xs), Some (i + n))"
        using page_at_step [OF n, of xs i] n by (auto simp: page_at_def Let_def)
      have "follow_tokens (Suc k) ask (Some (enc (i + n))) = Some (Inr (drop (i + n) xs))"
        using Suc.prems(2) True n by (intro Suc.IH tok) simp_all
      then have "follow_tokens (Suc (Suc k)) ask t = Some (Inr (take n (drop i xs) @ drop n (drop i xs)))"
        using Suc.prems(1) by (simp add: p add.commute)
      then show ?thesis by (simp only: append_take_drop_id)
    next
      case False
      then have "page_at xs i n = (drop i xs, None)" using page_at_step [OF n, of xs i] by auto
      then show ?thesis using Suc.prems(1) by simp
    qed
  qed
  show ?thesis using from_i [OF start] fuel by simp
qed

end
