(* ===== verification/Secrets_Provider.thy ===== *)
theory Secrets_Provider
  imports Secrets_Storage Offset_Pages
begin

text \<open>
  The handlers of Secrets Manager (\<^verbatim>\<open>provider.rs\<close>). A handler returns its answer and the store, since
  some change a secret before they find an error. What a request reads from outside is \<open>secrets_env\<close>:
  the clock, fresh identifiers, the iteration orders of the hash maps, base64.
\<close>

record secrets_env =
  se_now :: int
  se_uuid :: string
  se_suffix :: string
  se_region :: string
  se_account :: string
  se_order :: "secret_record list \<Rightarrow> secret_record list"
  se_version_order :: version_order
  se_b64_enc :: "string \<Rightarrow> string"
  se_b64_dec :: "string \<Rightarrow> string option"

type_synonym 'a secrets_reply = "(secrets_error + 'a) \<times> secret_store"

section \<open>Looking up and changing a secret\<close>

definition find_secret :: "secrets_env \<Rightarrow> secret_store \<Rightarrow> string \<Rightarrow> secrets_error + string \<times> secret_record" where
  "find_secret env s sid =
     res_bind (resolve_secret_id (se_order env) s sid) (\<lambda>name.
     res_map (\<lambda>r. (name, r)) (ok_or SE_ResourceNotFound (bt_get s name)))"

text \<open>Most handlers look up the record and refuse when it is marked for deletion.\<close>

definition find_active :: "secrets_env \<Rightarrow> secret_store \<Rightarrow> string \<Rightarrow> secrets_error + string \<times> secret_record" where
  "find_active env s sid =
     res_bind (find_secret env s sid) (\<lambda>(name, r).
       if is_pending_deletion r then Inl SE_InvalidRequest else Inr (name, r))"

section \<open>Values\<close>

record create_secret_input =
  csi_token :: "string option"
  csi_description :: "string option"
  csi_kms_key_id :: "string option"
  csi_name :: string
  csi_binary :: "string option"
  csi_string :: "string option"
  csi_tags :: "secret_tag list"

definition validate_opt :: "('a \<Rightarrow> secrets_error + unit) \<Rightarrow> 'a option \<Rightarrow> secrets_error + unit" where
  "validate_opt f m = (case m of Some x \<Rightarrow> f x | None \<Rightarrow> Inr ())"

definition validate_create :: "create_secret_input \<Rightarrow> secrets_error + unit" where
  "validate_create inp =
     res_bind (validate_secret_name (csi_name inp)) (\<lambda>_.
     res_bind (validate_opt validate_description (csi_description inp)) (\<lambda>_.
     res_bind (validate_secret_tags (csi_tags inp)) (\<lambda>_.
     res_bind (if csi_string inp \<noteq> None \<or> csi_binary inp \<noteq> None
               then validate_secret_value (csi_string inp) (csi_binary inp) else Inr ()) (\<lambda>_.
     validate_opt validate_client_request_token (csi_token inp)))))"

definition new_secret :: "secrets_env \<Rightarrow> create_secret_input \<Rightarrow> secret_record" where
  "new_secret env inp =
     \<lparr>sc_name = csi_name inp, sc_arn = secret_arn (se_region env) (se_account env) (se_suffix env) (csi_name inp),
      sc_description = csi_description inp, sc_kms_key_id = csi_kms_key_id inp, sc_tags = csi_tags inp,
      sc_policy = None, sc_versions = [], sc_labels = [], sc_rotation_enabled = False, sc_rotation_lambda = None,
      sc_rotation_rules = None, sc_last_rotated = None, sc_deleted = None, sc_recovery_window = None,
      sc_created = se_now env, sc_last_changed = se_now env, sc_last_accessed = None, sc_owning_service = None,
      sc_primary_region = Some (se_region env)\<rparr>"

definition handle_create_secret :: "secrets_env \<Rightarrow> create_secret_input \<Rightarrow> secret_store \<Rightarrow>
    (string \<times> string \<times> string option) secrets_reply" where
  "handle_create_secret env inp s =
     (case validate_create inp of
        Inl e \<Rightarrow> (Inl e, s)
      | Inr _ \<Rightarrow>
          if bt_get s (csi_name inp) \<noteq> None then (Inl SE_ResourceExists, s)
          else (let r = new_secret env inp
                in if csi_string inp \<noteq> None \<or> csi_binary inp \<noteq> None
                   then (let vid = unwrap_or (se_uuid env) (csi_token inp)
                         in case add_version (se_version_order env) vid (csi_string inp) (csi_binary inp)
                                   [aws_current] (se_now env) r of
                              Inl e \<Rightarrow> (Inl e, s)
                            | Inr r \<Rightarrow> (Inr (sc_arn r, csi_name inp, Some vid), bt_insert (csi_name inp) r s))
                   else (Inr (sc_arn r, csi_name inp, None), bt_insert (csi_name inp) r s)))"

definition resolve_version :: "secret_record \<Rightarrow> string option \<Rightarrow> string option \<Rightarrow> secrets_error + secret_version" where
  "resolve_version r version_id version_stage =
     (case version_id of
        Some vid \<Rightarrow>
          (case bt_get (sc_versions r) vid of
             None \<Rightarrow> Inl SE_ResourceNotFound
           | Some v \<Rightarrow>
               (case version_stage of
                  Some stage \<Rightarrow> if stage \<in> set (sv_stages v) then Inr v else Inl SE_ResourceNotFound
                | None \<Rightarrow> Inr v))
      | None \<Rightarrow>
          res_bind (ok_or SE_ResourceNotFound (bt_get (sc_labels r) (unwrap_or aws_current version_stage))) (\<lambda>vid.
          ok_or SE_ResourceNotFound (bt_get (sc_versions r) vid)))"

text \<open>The date of the last access is the midnight before.\<close>

definition midnight :: "int \<Rightarrow> int" where
  "midnight now = now div 86400 * 86400"

definition handle_get_secret_value :: "secrets_env \<Rightarrow> string \<Rightarrow> string option \<Rightarrow> string option \<Rightarrow> secret_store \<Rightarrow>
    (string \<times> string \<times> secret_version) secrets_reply" where
  "handle_get_secret_value env sid version_id version_stage s =
     (case find_active env s sid of
        Inl e \<Rightarrow> (Inl e, s)
      | Inr (name, r) \<Rightarrow>
          (case resolve_version r version_id version_stage of
             Inl e \<Rightarrow> (Inl e, s)
           | Inr v \<Rightarrow>
               (Inr (sc_arn r, sc_name r, v),
                bt_insert name (r\<lparr>sc_last_accessed := Some (midnight (se_now env))\<rparr>) s)))"

record put_value_input =
  pvi_token :: "string option"
  pvi_binary :: "string option"
  pvi_secret_id :: string
  pvi_string :: "string option"
  pvi_stages :: "string list"

text \<open>The identifier of a new version: the validated token of the request, or a fresh one.\<close>

definition token_or_uuid :: "secrets_env \<Rightarrow> string option \<Rightarrow> secrets_error + string" where
  "token_or_uuid env token =
     (case token of
        Some t \<Rightarrow> res_map (\<lambda>_. t) (validate_client_request_token t)
      | None \<Rightarrow> Inr (se_uuid env))"

definition handle_put_secret_value :: "secrets_env \<Rightarrow> put_value_input \<Rightarrow> secret_store \<Rightarrow>
    (string \<times> string \<times> string \<times> string list) secrets_reply" where
  "handle_put_secret_value env inp s =
     (case res_bind (resolve_secret_id (se_order env) s (pvi_secret_id inp)) (\<lambda>_.
           res_bind (validate_secret_value (pvi_string inp) (pvi_binary inp)) (\<lambda>_.
           res_bind (find_active env s (pvi_secret_id inp)) (\<lambda>(name, r).
           res_map (\<lambda>vid. (name, r, vid)) (token_or_uuid env (pvi_token inp))))) of
        Inl e \<Rightarrow> (Inl e, s)
      | Inr (name, r, vid) \<Rightarrow>
          (let stages = (if pvi_stages inp = [] then [aws_current] else pvi_stages inp)
           in case add_version (se_version_order env) vid (pvi_string inp) (pvi_binary inp) stages (se_now env) r of
                Inl e \<Rightarrow> (Inl e, s)
              | Inr r' \<Rightarrow>
                  (Inr (sc_arn r', sc_name r', vid,
                        (case bt_get (sc_versions r') vid of Some v \<Rightarrow> sv_stages v | None \<Rightarrow> stages)),
                   bt_insert name r' s)))"

record update_secret_input =
  usi_token :: "string option"
  usi_description :: "string option"
  usi_kms_key_id :: "string option"
  usi_binary :: "string option"
  usi_secret_id :: string
  usi_string :: "string option"

text \<open>
  The record is changed in place: an error after the description or the key leaves that change.
\<close>

definition handle_update_secret :: "secrets_env \<Rightarrow> update_secret_input \<Rightarrow> secret_store \<Rightarrow>
    (string \<times> string \<times> string option) secrets_reply" where
  "handle_update_secret env inp s =
     (case find_active env s (usi_secret_id inp) of
        Inl e \<Rightarrow> (Inl e, s)
      | Inr (name, r) \<Rightarrow>
          (case validate_opt validate_description (usi_description inp) of
             Inl e \<Rightarrow> (Inl e, s)
           | Inr _ \<Rightarrow>
               (let r = (case usi_description inp of Some d \<Rightarrow> r\<lparr>sc_description := Some d\<rparr> | None \<Rightarrow> r);
                    r = (case usi_kms_key_id inp of Some k \<Rightarrow> r\<lparr>sc_kms_key_id := Some k\<rparr> | None \<Rightarrow> r)
                in if usi_string inp \<noteq> None \<or> usi_binary inp \<noteq> None
                   then (case res_bind (validate_secret_value (usi_string inp) (usi_binary inp)) (\<lambda>_.
                              res_bind (token_or_uuid env (usi_token inp)) (\<lambda>vid.
                              res_map (\<lambda>r. (vid, r))
                                (add_version (se_version_order env) vid (usi_string inp) (usi_binary inp)
                                   [aws_current] (se_now env) r))) of
                           Inl e \<Rightarrow> (Inl e, bt_insert name r s)
                         | Inr (vid, r') \<Rightarrow> (Inr (sc_arn r', sc_name r', Some vid), bt_insert name r' s))
                   else (let r = r\<lparr>sc_last_changed := se_now env\<rparr>
                         in (Inr (sc_arn r, sc_name r, None), bt_insert name r s)))))"

definition handle_describe_secret :: "secrets_env \<Rightarrow> string \<Rightarrow> secret_store \<Rightarrow>
    secrets_error + secret_record \<times> (string, string list) btree" where
  "handle_describe_secret env sid s = res_map (\<lambda>(_, r). (r, version_ids_to_stages r)) (find_secret env s sid)"

section \<open>Deletion\<close>

definition handle_delete_secret :: "secrets_env \<Rightarrow> string \<Rightarrow> bool option \<Rightarrow> int option \<Rightarrow> secret_store \<Rightarrow>
    (string \<times> string \<times> int option) secrets_reply" where
  "handle_delete_secret env sid force_opt window s =
     (let force = unwrap_or False force_opt
      in case resolve_secret_id (se_order env) s sid of
           Inl e \<Rightarrow> (Inl e, s)
         | Inr name \<Rightarrow>
             if (case bt_get s name of Some r \<Rightarrow> is_pending_deletion r \<and> \<not> force | None \<Rightarrow> False)
             then (Inl SE_InvalidRequest, s)
             else if force \<and> window \<noteq> None then (Inl SE_InvalidParameter, s)
             else if force
             then (case bt_get s name of
                     None \<Rightarrow> (Inl SE_ResourceNotFound, s)
                   | Some r \<Rightarrow> (Inr (sc_arn r, sc_name r, Some (se_now env)), bt_remove name s))
             else (let days = unwrap_or 30 window
                   in case validate_recovery_window days of
                        Inl e \<Rightarrow> (Inl e, s)
                      | Inr _ \<Rightarrow>
                          (case bt_get s name of
                             None \<Rightarrow> (Inl SE_ResourceNotFound, s)
                           | Some r \<Rightarrow>
                               (let r = schedule_deletion days (se_now env) r
                                in (Inr (sc_arn r, sc_name r, sc_deleted r), bt_insert name r s)))))"

definition handle_restore_secret :: "secrets_env \<Rightarrow> string \<Rightarrow> secret_store \<Rightarrow> (string \<times> string) secrets_reply" where
  "handle_restore_secret env sid s =
     (case find_secret env s sid of
        Inl e \<Rightarrow> (Inl e, s)
      | Inr (name, r) \<Rightarrow>
          (case restore_record r of
             Inl e \<Rightarrow> (Inl e, s)
           | Inr r \<Rightarrow> (Inr (sc_arn r, sc_name r), bt_insert name r s)))"

section \<open>Staging labels and rotation\<close>

definition handle_update_secret_version_stage :: "secrets_env \<Rightarrow> string \<Rightarrow> string \<Rightarrow> string option \<Rightarrow> string option \<Rightarrow>
    secret_store \<Rightarrow> (string \<times> string) secrets_reply" where
  "handle_update_secret_version_stage env sid stage move_to remove_from s =
     (case find_secret env s sid of
        Inl e \<Rightarrow> (Inl e, s)
      | Inr (name, r) \<Rightarrow>
          (let result =
             (case (move_to, remove_from) of
                (Some to, _) \<Rightarrow> move_staging_label stage to remove_from r
              | (None, Some from) \<Rightarrow>
                  if bt_get (sc_labels r) stage \<noteq> Some from then Inl SE_InvalidParameter
                  else Inr (rebuild_version_stages (r\<lparr>sc_labels := bt_remove stage (sc_labels r)\<rparr>))
              | (None, None) \<Rightarrow> Inr r)
           in case result of
                Inl e \<Rightarrow> (Inl e, s)
              | Inr r \<Rightarrow> (Inr (sc_arn r, sc_name r), bt_insert name r s)))"

record rotate_secret_input =
  rsi_token :: "string option"
  rsi_immediately :: "bool option"
  rsi_lambda :: "string option"
  rsi_rules :: "rotation_rules option"
  rsi_secret_id :: string

definition handle_rotate_secret :: "secrets_env \<Rightarrow> rotate_secret_input \<Rightarrow> secret_store \<Rightarrow>
    (string \<times> string \<times> string) secrets_reply" where
  "handle_rotate_secret env inp s =
     (case find_active env s (rsi_secret_id inp) of
        Inl e \<Rightarrow> (Inl e, s)
      | Inr (name, r) \<Rightarrow>
          (let r = configure_rotation (rsi_lambda inp) (rsi_rules inp) r
           in case res_bind (token_or_uuid env (rsi_token inp)) (\<lambda>vid.
                   res_map (\<lambda>r. (vid, r))
                     (start_rotation (se_version_order env) vid (se_now env) (unwrap_or True (rsi_immediately inp)) r)) of
                Inl e \<Rightarrow> (Inl e, bt_insert name r s)
              | Inr (vid, r') \<Rightarrow> (Inr (sc_arn r', sc_name r', vid), bt_insert name r' s)))"

definition handle_cancel_rotate_secret :: "secrets_env \<Rightarrow> string \<Rightarrow> secret_store \<Rightarrow> (string \<times> string) secrets_reply" where
  "handle_cancel_rotate_secret env sid s =
     (case find_secret env s sid of
        Inl e \<Rightarrow> (Inl e, s)
      | Inr (name, r) \<Rightarrow>
          (let r = rebuild_version_stages (r\<lparr>sc_labels := bt_remove aws_pending (sc_labels r)\<rparr>)
           in (Inr (sc_arn r, sc_name r), bt_insert name r s)))"

section \<open>Listings\<close>

definition encode_offset :: "secrets_env \<Rightarrow> nat \<Rightarrow> string" where
  "encode_offset env offset = se_b64_enc env (show_nat offset)"

definition decode_offset :: "secrets_env \<Rightarrow> string option \<Rightarrow> secrets_error + nat option" where
  "decode_offset env token =
     (case token of
        None \<Rightarrow> Inr None
      | Some t \<Rightarrow>
          res_map Some
            (ok_or SE_InvalidNextToken
               (Option.bind (se_b64_dec env t) (\<lambda>bytes. Option.bind (from_utf8 bytes) (parse_uint 64)))))"

text \<open>Paging, as both listings do it.\<close>

definition offset_page :: "secrets_env \<Rightarrow> 'a list \<Rightarrow> string option \<Rightarrow> nat \<Rightarrow> secrets_error + 'a list \<times> string option" where
  "offset_page env xs token max_results =
     res_map (\<lambda>off. apsnd (map_option (encode_offset env)) (page_at xs (unwrap_or 0 off) max_results))
       (decode_offset env token)"

definition clamp_results :: "int option \<Rightarrow> nat" where
  "clamp_results m = nat (max 1 (min 100 (unwrap_or 100 m)))"

datatype sort_by_type = SB_CreatedDate | SB_LastAccessedDate | SB_LastChangedDate | SB_Name

text \<open>\<^verbatim>\<open>sort_entries\<close>: a stable sort; descending order reverses the comparison, not the list.\<close>

definition sort_ascending :: "bool \<Rightarrow> ('a \<Rightarrow> 'k::linorder) \<Rightarrow> 'a list \<Rightarrow> 'a list" where
  "sort_ascending asc key xs = (if asc then sort_key key xs else rev (sort_key key (rev xs)))"

definition sort_entries :: "sort_by_type \<Rightarrow> bool \<Rightarrow> secret_record list \<Rightarrow> secret_record list" where
  "sort_entries by asc xs =
     (case by of
        SB_Name \<Rightarrow> sort_ascending asc sc_name xs
      | SB_CreatedDate \<Rightarrow> sort_ascending asc sc_created xs
      | SB_LastAccessedDate \<Rightarrow>
          sort_ascending asc (\<lambda>r. case sc_last_accessed r of None \<Rightarrow> [] | Some d \<Rightarrow> [d]) xs
      | SB_LastChangedDate \<Rightarrow> sort_ascending asc sc_last_changed xs)"

record list_secrets_input =
  lsi_filters :: "secret_filter list"
  lsi_planned_deletion :: "bool option"
  lsi_max_results :: "int option"
  lsi_next_token :: "string option"
  lsi_sort_by :: "sort_by_type option"
  lsi_ascending :: "bool option"

definition listed_secrets :: "secrets_env \<Rightarrow> list_secrets_input \<Rightarrow> secret_store \<Rightarrow> secret_record list" where
  "listed_secrets env inp s =
     sort_entries (unwrap_or SB_CreatedDate (lsi_sort_by inp)) (unwrap_or True (lsi_ascending inp))
       (filter (\<lambda>r. \<not> (is_pending_deletion r \<and> \<not> unwrap_or False (lsi_planned_deletion inp)) \<and>
                    matches_filters r (lsi_filters inp))
          (se_order env (bt_values s)))"

definition handle_list_secrets :: "secrets_env \<Rightarrow> list_secrets_input \<Rightarrow> secret_store \<Rightarrow>
    secrets_error + secret_record list \<times> string option" where
  "handle_list_secrets env inp s =
     offset_page env (listed_secrets env inp s) (lsi_next_token inp) (clamp_results (lsi_max_results inp))"

definition handle_list_secret_version_ids :: "secrets_env \<Rightarrow> string \<Rightarrow> bool option \<Rightarrow> int option \<Rightarrow> string option \<Rightarrow>
    secret_store \<Rightarrow> secrets_error + secret_version list \<times> string option" where
  "handle_list_secret_version_ids env sid deprecated max_results token s =
     res_bind (find_secret env s sid) (\<lambda>(_, r).
       offset_page env
         (sort_key sv_created
            (filter (\<lambda>v. unwrap_or False deprecated \<or> sv_stages v \<noteq> [])
               (map snd (se_version_order env (sc_versions r)))))
         token (clamp_results max_results))"

section \<open>Batches\<close>

definition get_secret_value_for_batch :: "secrets_env \<Rightarrow> secret_store \<Rightarrow> string \<Rightarrow>
    secrets_error + string \<times> string \<times> secret_version" where
  "get_secret_value_for_batch env s sid =
     res_bind (find_active env s sid) (\<lambda>(_, r).
     res_map (\<lambda>v. (sc_arn r, sc_name r, v)) (ok_or SE_ResourceNotFound (get_current_version r)))"

fun batch_values :: "secrets_env \<Rightarrow> secret_store \<Rightarrow> string list \<Rightarrow>
    (string \<times> string \<times> secret_version) list \<times> (string \<times> secrets_error) list" where
  "batch_values env s [] = ([], [])"
| "batch_values env s (sid # sids) =
     (let (vs, es) = batch_values env s sids
      in case get_secret_value_for_batch env s sid of
           Inr v \<Rightarrow> (v # vs, es)
         | Inl e \<Rightarrow> (vs, (sid, e) # es))"

definition handle_batch_get_secret_value :: "secrets_env \<Rightarrow> string list \<Rightarrow> secret_filter list \<Rightarrow> secret_store \<Rightarrow>
    (string \<times> string \<times> secret_version) list \<times> (string \<times> secrets_error) list" where
  "handle_batch_get_secret_value env sids filters s =
     (if sids \<noteq> [] then batch_values env s sids
      else if filters \<noteq> []
      then batch_values env s
             (map sc_name (filter (\<lambda>r. \<not> is_pending_deletion r \<and> matches_filters r filters) (se_order env (bt_values s))))
      else ([], []))"

section \<open>Tags and policies\<close>

text \<open>A loop over the new tags: the first tag with the key is overwritten, or the tag is pushed.\<close>

fun overwrite_tag :: "secret_tag \<Rightarrow> secret_tag list \<Rightarrow> secret_tag list" where
  "overwrite_tag new [] = [new]"
| "overwrite_tag new (t # ts) =
     (if fst t = Some (unwrap_or [] (fst new)) then (fst t, snd new) # ts else t # overwrite_tag new ts)"

definition new_key_count :: "secret_tag list \<Rightarrow> secret_tag list \<Rightarrow> nat" where
  "new_key_count new old =
     length (filter (\<lambda>t. \<not> list_ex (\<lambda>o'. fst o' = Some (unwrap_or [] (fst t))) old) new)"

definition handle_tag_secret :: "secrets_env \<Rightarrow> string \<Rightarrow> secret_tag list \<Rightarrow> secret_store \<Rightarrow> unit secrets_reply" where
  "handle_tag_secret env sid tags s =
     (case res_bind (resolve_secret_id (se_order env) s sid) (\<lambda>_.
           res_bind (validate_secret_tags tags) (\<lambda>_. find_active env s sid)) of
        Inl e \<Rightarrow> (Inl e, s)
      | Inr (name, r) \<Rightarrow>
          if length (sc_tags r) + new_key_count tags (sc_tags r) > max_secret_tags then (Inl SE_InvalidParameter, s)
          else (Inr (), bt_insert name (r\<lparr>sc_tags := fold overwrite_tag tags (sc_tags r)\<rparr>) s))"

definition handle_untag_secret :: "secrets_env \<Rightarrow> string \<Rightarrow> string list \<Rightarrow> secret_store \<Rightarrow> unit secrets_reply" where
  "handle_untag_secret env sid keys s =
     (case find_active env s sid of
        Inl e \<Rightarrow> (Inl e, s)
      | Inr (name, r) \<Rightarrow>
          (Inr (), bt_insert name (r\<lparr>sc_tags := filter (\<lambda>t. \<not> list_ex (\<lambda>k. fst t = Some k) keys) (sc_tags r)\<rparr>) s))"

definition handle_get_resource_policy :: "secrets_env \<Rightarrow> string \<Rightarrow> secret_store \<Rightarrow>
    secrets_error + string \<times> string \<times> string option" where
  "handle_get_resource_policy env sid s =
     res_map (\<lambda>(_, r). (sc_arn r, sc_name r, sc_policy r)) (find_secret env s sid)"

definition set_resource_policy :: "secrets_env \<Rightarrow> string option \<Rightarrow> string \<Rightarrow> secret_store \<Rightarrow> (string \<times> string) secrets_reply" where
  "set_resource_policy env p sid s =
     (case find_active env s sid of
        Inl e \<Rightarrow> (Inl e, s)
      | Inr (name, r) \<Rightarrow> (Inr (sc_arn r, sc_name r), bt_insert name (r\<lparr>sc_policy := p\<rparr>) s))"

definition handle_put_resource_policy :: "secrets_env \<Rightarrow> string \<Rightarrow> string \<Rightarrow> secret_store \<Rightarrow> (string \<times> string) secrets_reply" where
  "handle_put_resource_policy env sid p s = set_resource_policy env (Some p) sid s"

definition handle_delete_resource_policy :: "secrets_env \<Rightarrow> string \<Rightarrow> secret_store \<Rightarrow> (string \<times> string) secrets_reply" where
  "handle_delete_resource_policy env sid s = set_resource_policy env None sid s"

text \<open>The replication operations only look the secret up.\<close>

definition handle_replication :: "secrets_env \<Rightarrow> string \<Rightarrow> secret_store \<Rightarrow> secrets_error + string" where
  "handle_replication env sid s = res_map (\<lambda>(_, r). sc_arn r) (find_secret env s sid)"

end
