(* ===== verification/Secrets_Invariant.thy ===== *)
theory Secrets_Invariant
  imports Secrets_Provider
begin

text \<open>
  The invariant of Secrets Manager: a secret is stored under its name, a version under its identifier;
  every staging label points to a version that exists, and the stages that a version shows are exactly
  the labels that point to it. Every request keeps it.
\<close>

section \<open>The cached stages\<close>

definition labels_of :: "(string, string) btree \<Rightarrow> string \<Rightarrow> string list" where
  "labels_of labels vid = map fst (filter (\<lambda>lv. snd lv = vid) labels)"

lemma labels_of_mem: "bt_wf labels \<Longrightarrow> l \<in> set (labels_of labels vid) \<longleftrightarrow> bt_get labels l = Some vid"
  by (auto simp: labels_of_def bt_mem_get dest: bt_get_mem intro!: image_eqI [of _ _ "(l, vid)"])

lemma labels_of_sorted: "bt_wf labels \<Longrightarrow> sort (labels_of labels vid) = labels_of labels vid"
proof (rule sorted_sort_id)
  assume "bt_wf labels"
  then have "sorted_wrt (<) (map fst (filter (\<lambda>lv. snd lv = vid) labels))"
    using bt_wf_filter [of labels] by (simp add: bt_wf_def)
  then show "sorted (labels_of labels vid)"
    unfolding labels_of_def by (rule strict_sorted_imp_sorted)
qed

lemma bt_get_map_versions: "bt_get (map_versions f m) k = map_option f (bt_get m k)"
  by (induction m) (auto simp: map_versions_def)

lemma bt_wf_map_versions: "bt_wf m \<Longrightarrow> bt_wf (map_versions f m)"
  by (simp add: bt_wf_def map_versions_def split_beta comp_def)

lemma bt_get_push_stages:
  "bt_get (fold push_stage L m) k = map_option (\<lambda>v. v\<lparr>sv_stages := sv_stages v @ labels_of L k\<rparr>) (bt_get m k)"
proof (induction L arbitrary: m)
  case Nil
  then show ?case by (cases "bt_get m k") (simp_all add: labels_of_def)
next
  case (Cons lv L)
  then show ?case
    by (cases lv; cases "bt_get m k") (auto simp: push_stage_def labels_of_def bt_get_insert split: option.split)
qed

lemma bt_wf_push_stages: "bt_wf m \<Longrightarrow> bt_wf (fold push_stage L m)"
proof (induction L arbitrary: m)
  case (Cons lv L)
  then have "bt_wf (push_stage lv m)" by (cases lv) (auto simp: push_stage_def bt_wf_insert split: option.split)
  then show ?case using Cons.IH by simp
qed simp

lemma bt_get_rebuilt:
  assumes "bt_wf (sc_labels r)"
  shows "bt_get (sc_versions (rebuild_version_stages r)) k =
    map_option (\<lambda>v. v\<lparr>sv_stages := labels_of (sc_labels r) k\<rparr>) (bt_get (sc_versions r) k)"
  using labels_of_sorted [OF assms]
  by (cases "bt_get (sc_versions r) k")
    (simp_all add: rebuild_version_stages_def bt_get_map_versions bt_get_push_stages)

lemma bt_wf_rebuilt: "bt_wf (sc_versions r) \<Longrightarrow> bt_wf (sc_versions (rebuild_version_stages r))"
  by (simp add: rebuild_version_stages_def bt_wf_map_versions bt_wf_push_stages)

lemma rebuilt_simps [simp]:
  "sc_labels (rebuild_version_stages r) = sc_labels r" "sc_name (rebuild_version_stages r) = sc_name r"
  "sc_arn (rebuild_version_stages r) = sc_arn r" "sc_deleted (rebuild_version_stages r) = sc_deleted r"
  by (simp_all add: rebuild_version_stages_def)

section \<open>The invariant\<close>

text \<open>What does not depend on the caches.\<close>

definition staging_ok :: "secret_record \<Rightarrow> bool" where
  "staging_ok r \<longleftrightarrow>
     bt_wf (sc_versions r) \<and> bt_wf (sc_labels r) \<and>
     (\<forall>k v. bt_get (sc_versions r) k = Some v \<longrightarrow> sv_version_id v = k) \<and>
     (\<forall>l vid. bt_get (sc_labels r) l = Some vid \<longrightarrow> bt_get (sc_versions r) vid \<noteq> None)"

definition secret_ok :: "string \<Rightarrow> secret_record \<Rightarrow> bool" where
  "secret_ok name r \<longleftrightarrow>
     sc_name r = name \<and> staging_ok r \<and>
     (\<forall>k v. bt_get (sc_versions r) k = Some v \<longrightarrow> sv_stages v = labels_of (sc_labels r) k)"

definition secrets_wf :: "secret_store \<Rightarrow> bool" where
  "secrets_wf s \<longleftrightarrow> bt_wf s \<and> (\<forall>name r. bt_get s name = Some r \<longrightarrow> secret_ok name r)"

lemma staging_ok_rebuilt: "staging_ok r \<Longrightarrow> secret_ok (sc_name r) (rebuild_version_stages r)"
  unfolding secret_ok_def staging_ok_def
  by (auto simp: bt_get_rebuilt bt_wf_rebuilt)

text \<open>A record with the same name, versions and labels.\<close>

lemma secret_ok_cong:
  "secret_ok name r \<Longrightarrow> sc_name r' = sc_name r \<Longrightarrow> sc_versions r' = sc_versions r \<Longrightarrow> sc_labels r' = sc_labels r \<Longrightarrow>
     secret_ok name r'"
  by (simp add: secret_ok_def staging_ok_def)

lemma bt_get_fold_remove: "bt_get (fold (\<lambda>(vid, _). bt_remove vid) xs m) k = (if k \<in> fst ` set xs then None else bt_get m k)"
  by (induction xs arbitrary: m) (auto simp: bt_get_filter_out)

lemma bt_wf_fold_remove: "bt_wf m \<Longrightarrow> bt_wf (fold (\<lambda>(vid, _). bt_remove vid) xs m)"
  by (induction xs arbitrary: m) (auto simp: bt_wf_remove)

text \<open>The clean-up keeps every version that has a label.\<close>

lemma cleanup_get:
  "bt_get (sc_versions (cleanup_deprecated_versions order r)) k \<in> {bt_get (sc_versions r) k, None}"
  by (auto simp: cleanup_deprecated_versions_def Let_def bt_get_fold_remove)

lemma cleanup_labeled:
  assumes "bt_get (sc_labels r) l = Some k"
  shows "bt_get (sc_versions (cleanup_deprecated_versions order r)) k = bt_get (sc_versions r) k"
proof -
  have "k \<in> snd ` set (sc_labels r)" using bt_get_mem [OF assms] by force
  then show ?thesis
    by (force simp: cleanup_deprecated_versions_def Let_def bt_get_fold_remove dest!: in_set_takeD)
qed

lemma cleanup_simps [simp]:
  "sc_labels (cleanup_deprecated_versions order r) = sc_labels r" "sc_name (cleanup_deprecated_versions order r) = sc_name r"
  "sc_arn (cleanup_deprecated_versions order r) = sc_arn r" "sc_deleted (cleanup_deprecated_versions order r) = sc_deleted r"
  by (simp_all add: cleanup_deprecated_versions_def Let_def)

lemma staging_ok_cleanup: "staging_ok r \<Longrightarrow> staging_ok (cleanup_deprecated_versions order r)"
proof -
  assume ok: "staging_ok r"
  let ?c = "cleanup_deprecated_versions order r"
  have wf: "bt_wf (sc_versions ?c)"
    using ok by (simp add: staging_ok_def cleanup_deprecated_versions_def Let_def bt_wf_fold_remove)
  have some: "bt_get (sc_versions r) k = Some v" if "bt_get (sc_versions ?c) k = Some v" for k v
    using cleanup_get [of order r k] that by simp
  have ids: "sv_version_id v = k" if "bt_get (sc_versions ?c) k = Some v" for k v
    using some [OF that] ok unfolding staging_ok_def by blast
  have labels: "bt_get (sc_versions ?c) vid \<noteq> None" if "bt_get (sc_labels r) l = Some vid" for l vid
    using cleanup_labeled [OF that] ok that unfolding staging_ok_def by metis
  have "bt_wf (sc_labels r)" using ok unfolding staging_ok_def by blast
  then show ?thesis unfolding staging_ok_def cleanup_simps using wf ids labels by blast
qed

lemma bt_get_stages:
  "bt_get (fold (\<lambda>stage. bt_insert stage vid) stages m) l = (if l \<in> set stages then Some vid else bt_get m l)"
  by (induction stages arbitrary: m) (auto simp: bt_get_insert)

lemma bt_wf_stages: "bt_wf m \<Longrightarrow> bt_wf (fold (\<lambda>stage. bt_insert stage vid) stages m)"
  by (induction stages arbitrary: m) (auto simp: bt_wf_insert)

lemma bt_get_demoted:
  "bt_get (demote_current labels) l =
     (if l = aws_previous \<and> bt_get labels aws_current \<noteq> None then bt_get labels aws_current else bt_get labels l)"
  by (auto simp: demote_current_def bt_get_insert split: option.split)

lemma bt_wf_demoted: "bt_wf labels \<Longrightarrow> bt_wf (demote_current labels)"
  by (simp add: demote_current_def bt_wf_insert split: option.split)

section \<open>The operations of a record\<close>

text \<open>The record that an accepted new version makes, before the clean-up.\<close>

definition with_version :: "string \<Rightarrow> string option \<Rightarrow> string option \<Rightarrow> string list \<Rightarrow> int \<Rightarrow> secret_record \<Rightarrow> secret_record" where
  "with_version vid ss sb stages now r =
     r\<lparr>sc_labels := fold (\<lambda>stage. bt_insert stage vid) stages
         (if aws_current \<in> set stages then demote_current (sc_labels r) else sc_labels r),
       sc_versions := bt_insert vid
         \<lparr>sv_version_id = vid, sv_string = ss, sv_binary = sb, sv_created = now, sv_stages = []\<rparr> (sc_versions r)\<rparr>"

lemma add_version_new:
  "bt_get (sc_versions r) vid = None \<Longrightarrow> stages \<noteq> [] \<Longrightarrow>
     add_version order vid ss sb stages now r =
     Inr ((rebuild_version_stages (cleanup_deprecated_versions order (with_version vid ss sb stages now r)))\<lparr>sc_last_changed := now\<rparr>)"
  by (simp add: add_version_def with_version_def Let_def list_ex_iff)

lemma staging_ok_with_version: "staging_ok r \<Longrightarrow> staging_ok (with_version vid ss sb stages now r)"
  by (auto simp: staging_ok_def with_version_def bt_wf_stages bt_wf_demoted bt_wf_insert bt_get_insert bt_get_stages
      bt_get_demoted split: if_splits)

lemma add_version_ok:
  assumes "secret_ok name r" "add_version order vid ss sb stages now r = Inr r'"
  shows "secret_ok name r'"
proof (cases "bt_get (sc_versions r) vid")
  case None
  let ?stages = "if stages = [] then [aws_current] else stages"
  let ?c = "cleanup_deprecated_versions order (with_version vid ss sb ?stages now r)"
  have "add_version order vid ss sb stages now r = add_version order vid ss sb ?stages now r" by (simp add: add_version_def)
  then have r': "r' = (rebuild_version_stages ?c)\<lparr>sc_last_changed := now\<rparr>"
    using assms(2) add_version_new [OF None, of ?stages order ss sb now] by simp
  have "staging_ok ?c" using assms(1) by (intro staging_ok_cleanup staging_ok_with_version) (simp add: secret_ok_def)
  then have "secret_ok (sc_name ?c) (rebuild_version_stages ?c)" by (rule staging_ok_rebuilt)
  moreover have "sc_name ?c = name" using assms(1) by (simp add: secret_ok_def with_version_def)
  ultimately have "secret_ok name (rebuild_version_stages ?c)" by simp
  then show ?thesis unfolding r' by (rule secret_ok_cong) simp_all
next
  case (Some v)
  then show ?thesis using assms by (auto simp: add_version_def Let_def split: if_splits)
qed

lemma move_label_ok:
  assumes "secret_ok name r" "move_staging_label label to from r = Inr r'"
  shows "secret_ok name r'"
proof -
  let ?labels = "if label = aws_current then demote_current (sc_labels r) else sc_labels r"
  let ?r = "r\<lparr>sc_labels := bt_insert label to ?labels\<rparr>"
  have to: "bt_get (sc_versions r) to \<noteq> None" and r': "r' = rebuild_version_stages ?r"
    using assms(2) by (auto simp: move_staging_label_def Let_def split: if_splits option.splits)
  have "staging_ok ?r"
    using assms(1) to by (auto simp: secret_ok_def staging_ok_def bt_wf_insert bt_wf_demoted bt_get_insert bt_get_demoted split: if_splits)
  from staging_ok_rebuilt [OF this] show ?thesis using assms(1) unfolding r' by (simp add: secret_ok_def)
qed

lemma drop_label_ok:
  assumes "secret_ok name r"
  shows "secret_ok name (rebuild_version_stages (r\<lparr>sc_labels := bt_remove l (sc_labels r)\<rparr>))"
proof -
  have "staging_ok (r\<lparr>sc_labels := bt_remove l (sc_labels r)\<rparr>)"
    using assms by (auto simp: secret_ok_def staging_ok_def bt_wf_remove bt_get_filter_out split: if_splits)
  from staging_ok_rebuilt [OF this] show ?thesis using assms by (simp add: secret_ok_def)
qed

lemma start_rotation_ok: "secret_ok name r \<Longrightarrow> start_rotation order vid now im r = Inr r' \<Longrightarrow> secret_ok name r'"
  by (auto simp: start_rotation_def res_map_Inr split: prod.splits intro: secret_ok_cong dest: add_version_ok)

section \<open>Requests\<close>

datatype secrets_request =
    SR_Create create_secret_input
  | SR_Get string "string option" "string option"
  | SR_Put put_value_input
  | SR_Update update_secret_input
  | SR_Delete string "bool option" "int option"
  | SR_Restore string
  | SR_Stage string string "string option" "string option"
  | SR_Rotate rotate_secret_input
  | SR_CancelRotate string
  | SR_Tag string "secret_tag list"
  | SR_Untag string "string list"
  | SR_PutPolicy string string
  | SR_DeletePolicy string

text \<open>A request comes with what it reads from outside.\<close>

definition secrets_step :: "secret_store \<Rightarrow> secrets_env \<times> secrets_request \<Rightarrow> secret_store" where
  "secrets_step s x =
     (case x of (env, rq) \<Rightarrow>
       (case rq of
          SR_Create inp \<Rightarrow> snd (handle_create_secret env inp s)
        | SR_Get sid vid st \<Rightarrow> snd (handle_get_secret_value env sid vid st s)
        | SR_Put inp \<Rightarrow> snd (handle_put_secret_value env inp s)
        | SR_Update inp \<Rightarrow> snd (handle_update_secret env inp s)
        | SR_Delete sid f w \<Rightarrow> snd (handle_delete_secret env sid f w s)
        | SR_Restore sid \<Rightarrow> snd (handle_restore_secret env sid s)
        | SR_Stage sid st to from \<Rightarrow> snd (handle_update_secret_version_stage env sid st to from s)
        | SR_Rotate inp \<Rightarrow> snd (handle_rotate_secret env inp s)
        | SR_CancelRotate sid \<Rightarrow> snd (handle_cancel_rotate_secret env sid s)
        | SR_Tag sid ts \<Rightarrow> snd (handle_tag_secret env sid ts s)
        | SR_Untag sid ks \<Rightarrow> snd (handle_untag_secret env sid ks s)
        | SR_PutPolicy sid p \<Rightarrow> snd (handle_put_resource_policy env sid p s)
        | SR_DeletePolicy sid \<Rightarrow> snd (handle_delete_resource_policy env sid s)))"

lemma find_secret_Inr: "find_secret env s sid = Inr (name, r) \<Longrightarrow> bt_get s name = Some r"
  by (auto simp: find_secret_def res_bind_Inr_iff res_map_Inr ok_or_def split: option.splits)

lemma find_active_Inr: "find_active env s sid = Inr (name, r) \<Longrightarrow> bt_get s name = Some r \<and> sc_deleted r = None"
  by (auto simp: find_active_def res_bind_Inr_iff is_pending_deletion_def dest: find_secret_Inr split: if_splits)

lemma wf_insert: "secrets_wf s \<Longrightarrow> secret_ok name r \<Longrightarrow> secrets_wf (bt_insert name r s)"
  by (auto simp: secrets_wf_def bt_wf_insert bt_get_insert)

lemma wf_secret: "secrets_wf s \<Longrightarrow> bt_get s name = Some r \<Longrightarrow> secret_ok name r"
  by (simp add: secrets_wf_def)

text \<open>The handlers that replace a secret they found by one with the same versions and labels.\<close>

lemma wf_same:
  "secrets_wf s \<Longrightarrow> bt_get s name = Some r \<Longrightarrow> sc_name r' = sc_name r \<Longrightarrow> sc_versions r' = sc_versions r \<Longrightarrow>
     sc_labels r' = sc_labels r \<Longrightarrow> secrets_wf (bt_insert name r' s)"
  by (intro wf_insert secret_ok_cong [OF wf_secret])

lemma wf_create_secret: "secrets_wf s \<Longrightarrow> secrets_wf (snd (handle_create_secret env inp s))"
proof -
  assume wf: "secrets_wf s"
  have new: "secret_ok (csi_name inp) (new_secret env inp)"
    by (simp add: secret_ok_def staging_ok_def new_secret_def)
  show ?thesis
    using wf_insert [OF wf new] wf
    by (auto simp: handle_create_secret_def Let_def split: sum.split intro!: wf_insert add_version_ok [OF new])
qed

lemma wf_get_value: "secrets_wf s \<Longrightarrow> secrets_wf (snd (handle_get_secret_value env sid vid st s))"
  by (auto simp: handle_get_secret_value_def dest!: find_active_Inr split: sum.split prod.split intro!: wf_same)

lemma wf_put_value: "secrets_wf s \<Longrightarrow> secrets_wf (snd (handle_put_secret_value env inp s))"
  by (auto simp: handle_put_secret_value_def Let_def res_bind_Inr_iff res_map_Inr dest!: find_active_Inr
      split: sum.split prod.split intro!: wf_insert intro: add_version_ok wf_secret)

lemma wf_update_secret: "secrets_wf s \<Longrightarrow> secrets_wf (snd (handle_update_secret env inp s))"
proof -
  assume wf: "secrets_wf s"
  show ?thesis
  proof (cases "find_active env s (usi_secret_id inp)")
    case (Inl e)
    then show ?thesis using wf by (simp add: handle_update_secret_def)
  next
    case (Inr nr)
    then obtain name r where nr: "nr = (name, r)" and r: "bt_get s name = Some r"
      using find_active_Inr by (cases nr) blast
    have ok: "secret_ok name r'" if "sc_name r' = sc_name r" "sc_versions r' = sc_versions r" "sc_labels r' = sc_labels r" for r'
      using secret_ok_cong [OF wf_secret [OF wf r]] that by blast
    have added: "secret_ok name r2"
      if "add_version od vid ss sb st now r1 = Inr r2" "sc_name r1 = sc_name r" "sc_versions r1 = sc_versions r" "sc_labels r1 = sc_labels r"
      for od vid ss sb st now r1 r2
      using add_version_ok [OF ok that(1)] that by blast
    show ?thesis
      using wf Inr nr
      by (auto simp: handle_update_secret_def Let_def res_bind_Inr_iff res_map_Inr split: sum.split option.split
          intro!: wf_insert intro: added ok)
  qed
qed

lemma wf_delete_secret: "secrets_wf s \<Longrightarrow> secrets_wf (snd (handle_delete_secret env sid f w s))"
proof -
  assume wf: "secrets_wf s"
  have rem: "secrets_wf (bt_remove name s)" for name
    using wf by (auto simp: secrets_wf_def bt_wf_remove bt_get_filter_out split: if_splits)
  have sched: "secrets_wf (bt_insert name (schedule_deletion d now r) s)" if "bt_get s name = Some r" for name d now r
    using wf that by (rule wf_same) (simp_all add: schedule_deletion_def)
  show ?thesis using wf rem sched
    by (auto simp: handle_delete_secret_def Let_def split: sum.split option.split)
qed

lemma wf_restore: "secrets_wf s \<Longrightarrow> secrets_wf (snd (handle_restore_secret env sid s))"
  by (auto simp: handle_restore_secret_def restore_record_def dest!: find_secret_Inr split: sum.splits prod.splits if_splits
      intro!: wf_same)

lemma wf_stage: "secrets_wf s \<Longrightarrow> secrets_wf (snd (handle_update_secret_version_stage env sid st to from s))"
  by (auto simp: handle_update_secret_version_stage_def Let_def dest!: find_secret_Inr
      split: sum.splits prod.splits option.splits if_splits
      intro!: wf_insert drop_label_ok intro: move_label_ok wf_secret)

lemma wf_rotate: "secrets_wf s \<Longrightarrow> secrets_wf (snd (handle_rotate_secret env inp s))"
proof -
  assume wf: "secrets_wf s"
  show ?thesis
  proof (cases "find_active env s (rsi_secret_id inp)")
    case (Inl e)
    then show ?thesis using wf by (simp add: handle_rotate_secret_def)
  next
    case (Inr nr)
    then obtain name r where nr: "nr = (name, r)" and r: "bt_get s name = Some r"
      using find_active_Inr by (cases nr) blast
    have ok: "secret_ok name (configure_rotation l ru r)" for l ru
      using wf_secret [OF wf r] by (rule secret_ok_cong) (simp_all add: configure_rotation_def)
    show ?thesis
      using wf Inr nr
      by (auto simp: handle_rotate_secret_def Let_def res_bind_Inr_iff res_map_Inr split: sum.split
          intro!: wf_insert start_rotation_ok [OF ok] ok)
  qed
qed

lemma wf_cancel_rotate: "secrets_wf s \<Longrightarrow> secrets_wf (snd (handle_cancel_rotate_secret env sid s))"
  by (auto simp: handle_cancel_rotate_secret_def Let_def dest!: find_secret_Inr split: sum.split prod.split
      intro!: wf_insert drop_label_ok intro: wf_secret)

lemma wf_tag_secret: "secrets_wf s \<Longrightarrow> secrets_wf (snd (handle_tag_secret env sid ts s))"
  by (auto simp: handle_tag_secret_def res_bind_Inr_iff dest!: find_active_Inr split: sum.split prod.split intro!: wf_same)

lemma wf_untag_secret: "secrets_wf s \<Longrightarrow> secrets_wf (snd (handle_untag_secret env sid ks s))"
  by (auto simp: handle_untag_secret_def dest!: find_active_Inr split: sum.split prod.split intro!: wf_same)

lemma wf_set_policy: "secrets_wf s \<Longrightarrow> secrets_wf (snd (set_resource_policy env p sid s))"
  by (auto simp: set_resource_policy_def dest!: find_active_Inr split: sum.split prod.split intro!: wf_same)

lemma secrets_wf_step: "secrets_wf s \<Longrightarrow> secrets_wf (secrets_step s x)"
  by (auto simp: secrets_step_def handle_put_resource_policy_def handle_delete_resource_policy_def
      wf_create_secret wf_get_value wf_put_value wf_update_secret wf_delete_secret wf_restore wf_stage wf_rotate
      wf_cancel_rotate wf_tag_secret wf_untag_secret wf_set_policy split: prod.split secrets_request.split)

lemma secrets_wf_empty: "secrets_wf []"
  by (simp add: secrets_wf_def)

interpretation secrets: rooted_machine secrets_step "\<lambda>s x. True" secrets_wf "[]"
  by unfold_locales (auto simp: secrets_wf_empty secrets_wf_step)

end
