(* ===== verification/Secrets_Password.thy ===== *)
theory Secrets_Password
  imports Secrets_Storage
begin

text \<open>
  Random passwords (\<^verbatim>\<open>password.rs\<close>). The random generator is a function \<open>rng\<close>: its \<open>i\<close>-th draw with the
  bound \<open>n\<close> is \<open>rng i n\<close>, a number below \<open>n\<close>.
\<close>

definition lowercase_chars :: string where "lowercase_chars = ''abcdefghijklmnopqrstuvwxyz''"
definition uppercase_chars :: string where "uppercase_chars = ''ABCDEFGHIJKLMNOPQRSTUVWXYZ''"
definition number_chars :: string where "number_chars = ''0123456789''"

definition punctuation_chars :: string where
  "punctuation_chars = CHR ''!'' # CHR 0x22 # ''#$%&'' @ CHR 0x27 # ''()*+,-./:;<=>?@['' @ CHR 0x5C # '']^_'' @ CHR 0x60 # ''{|}~''"

record password_options =
  po_length :: "int option"
  po_exclude :: "string option"
  po_no_lower :: bool
  po_no_upper :: bool
  po_no_numbers :: bool
  po_no_punctuation :: bool
  po_space :: bool
  po_require_each :: bool

text \<open>The pools of characters, without excluded characters and without empty pools.\<close>

definition password_pools :: "password_options \<Rightarrow> string list" where
  "password_pools p =
     (let exclude = unwrap_or [] (po_exclude p);
          pool = (\<lambda>off chars. if off then [] else
                    (let cs = filter (\<lambda>c. c \<notin> set exclude) chars in if cs = [] then [] else [cs]))
      in pool (po_no_lower p) lowercase_chars @ pool (po_no_upper p) uppercase_chars @
         pool (po_no_numbers p) number_chars @ pool (po_no_punctuation p) punctuation_chars @
         pool (\<not> po_space p) '' '')"

definition swap_at :: "nat \<Rightarrow> nat \<Rightarrow> 'a list \<Rightarrow> 'a list" where
  "swap_at i j xs = xs[i := xs ! j, j := xs ! i]"

text \<open>The shuffle runs from the last index down to 1; its draws start at \<open>k\<close>.\<close>

fun shuffle :: "(nat \<Rightarrow> nat \<Rightarrow> nat) \<Rightarrow> nat \<Rightarrow> nat \<Rightarrow> 'a list \<Rightarrow> 'a list" where
  "shuffle rng k 0 xs = xs"
| "shuffle rng k (Suc i) xs = shuffle rng (Suc k) i (swap_at (Suc i) (rng k (Suc (Suc i))) xs)"

definition pick :: "(nat \<Rightarrow> nat \<Rightarrow> nat) \<Rightarrow> nat \<Rightarrow> string \<Rightarrow> char" where
  "pick rng i chars = chars ! rng i (length chars)"

definition generate_random_password ::
  "(nat \<Rightarrow> nat \<Rightarrow> nat) \<Rightarrow> password_options \<Rightarrow> secrets_error + string" where
  "generate_random_password rng p =
     (let len = unwrap_or 32 (po_length p)
      in if len < 1 \<or> 4096 < len then Inl SE_InvalidParameter
         else (let n = nat len; pools = password_pools p; all = concat pools
               in if pools = [] \<or> all = [] then Inl SE_InvalidParameter
                  else if po_require_each p \<and> length pools \<le> n
                  then (let each = map (\<lambda>i. pick rng i (pools ! i)) [0..<length pools];
                            rest = map (\<lambda>i. pick rng i all) [length pools..<n]
                        in Inr (shuffle rng n (n - 1) (each @ rest)))
                  else Inr (map (\<lambda>i. pick rng i all) [0..<n])))"

section \<open>What a password is\<close>

lemma mset_swap_at: "i < length xs \<Longrightarrow> j < length xs \<Longrightarrow> mset (swap_at i j xs) = mset xs"
  by (simp add: swap_at_def mset_swap)

lemma mset_shuffle:
  "(\<And>i n. 0 < n \<Longrightarrow> rng i n < n) \<Longrightarrow> i < length xs \<or> xs = [] \<and> i = 0 \<Longrightarrow> mset (shuffle rng k i xs) = mset xs"
proof (induction rng k i xs rule: shuffle.induct)
  case (2 rng k i xs)
  have j: "rng k (Suc (Suc i)) < Suc (Suc i)" using 2(2) by simp
  have len: "length (swap_at (Suc i) (rng k (Suc (Suc i))) xs) = length xs" by (simp add: swap_at_def)
  have "mset (shuffle rng (Suc k) i (swap_at (Suc i) (rng k (Suc (Suc i))) xs)) = mset (swap_at (Suc i) (rng k (Suc (Suc i))) xs)"
    using 2(2,3) len by (intro 2(1)) auto
  then show ?case using j 2(3) by (simp add: mset_swap_at)
qed simp

lemma pick_mem: "(\<And>i n. 0 < n \<Longrightarrow> rng i n < n) \<Longrightarrow> chars \<noteq> [] \<Longrightarrow> pick rng i chars \<in> set chars"
  by (simp add: pick_def)

lemma pools_nonempty: "pool \<in> set (password_pools p) \<Longrightarrow> pool \<noteq> []"
  by (auto simp: password_pools_def Let_def split: if_splits)

lemma generated_password:
  assumes rng: "\<And>i n. 0 < n \<Longrightarrow> rng i n < n" and g: "generate_random_password rng p = Inr w"
  shows "int (length w) = unwrap_or 32 (po_length p)" "set w \<subseteq> set (concat (password_pools p))"
    and "po_require_each p \<Longrightarrow> length (password_pools p) \<le> length w \<Longrightarrow> pool \<in> set (password_pools p) \<Longrightarrow> set w \<inter> set pool \<noteq> {}"
proof -
  let ?len = "unwrap_or 32 (po_length p)" and ?pools = "password_pools p"
  let ?n = "nat ?len" and ?all = "concat ?pools"
  let ?each = "map (\<lambda>i. pick rng i (?pools ! i)) [0..<length ?pools]"
  let ?rest = "\<lambda>a. map (\<lambda>i. pick rng i ?all) [a..<?n]"
  have len: "1 \<le> ?len" and all: "?all \<noteq> []"
    using g by (auto simp: generate_random_password_def Let_def split: if_splits)
  have cases: "po_require_each p \<and> length ?pools \<le> ?n \<and> w = shuffle rng ?n (?n - 1) (?each @ ?rest (length ?pools)) \<or>
      \<not> (po_require_each p \<and> length ?pools \<le> ?n) \<and> w = ?rest 0"
    using g by (auto simp: generate_random_password_def Let_def split: if_splits)
  have rest: "set (?rest a) \<subseteq> set ?all" for a using pick_mem [OF rng all] by auto
  have each: "pick rng i (?pools ! i) \<in> set (?pools ! i)" if "i < length ?pools" for i
    using pools_nonempty [OF nth_mem [OF that]] by (intro pick_mem rng)
  have sh: "mset w = mset (?each @ ?rest (length ?pools))" if "po_require_each p" "length ?pools \<le> ?n"
  proof -
    have "mset (shuffle rng ?n (?n - 1) (?each @ ?rest (length ?pools))) = mset (?each @ ?rest (length ?pools))"
      using len that by (intro mset_shuffle rng) auto
    then show ?thesis using cases that by auto
  qed
  show n: "int (length w) = ?len"
  proof (cases "po_require_each p \<and> length ?pools \<le> ?n")
    case True
    then have "length w = length (?each @ ?rest (length ?pools))" using sh mset_eq_length by blast
    then show ?thesis using len True by simp
  next
    case False
    then have "w = ?rest 0" using cases by blast
    then show ?thesis using len by simp
  qed
  show "set w \<subseteq> set ?all"
  proof (cases "po_require_each p \<and> length ?pools \<le> ?n")
    case True
    then have "set w = set (?each @ ?rest (length ?pools))" using sh mset_eq_setD by blast
    moreover have "set ?each \<subseteq> set ?all" using each by (force simp: in_set_conv_nth)
    ultimately show ?thesis using rest [of "length ?pools"] by simp
  next
    case False
    then have "w = ?rest 0" using cases by blast
    then show ?thesis using rest [of 0] by simp
  qed
  assume req: "po_require_each p" "length ?pools \<le> length w" and pool: "pool \<in> set ?pools"
  obtain i where i: "i < length ?pools" "pool = ?pools ! i" using pool by (auto simp: in_set_conv_nth)
  have "length ?pools \<le> ?n" using req(2) n by linarith
  then have "set w = set (?each @ ?rest (length ?pools))" using sh req(1) mset_eq_setD by blast
  then have "pick rng i (?pools ! i) \<in> set w" using i(1) by simp
  then show "set w \<inter> set pool \<noteq> {}" using each [OF i(1)] i(2) by blast
qed

end
