(* ===== verification/Secrets_Properties.thy ===== *)
theory Secrets_Properties
  imports Secrets_Invariant Secrets_Password
begin

text \<open>
  The properties of Secrets Manager: staging labels, what a new value does to the versions that can be
  read, generated passwords, and the operations that do not do what they promise.
\<close>

section \<open>Bounds that evaluate over integers\<close>

lemma secret_name_int [code]:
  "validate_secret_name name =
     (if name = [] \<or> 512 < int (length name) then Inl SE_InvalidParameter
      else if \<not> list_all (\<lambda>c. is_ascii_alphanumeric c \<or> c \<in> set ''/_+=.@-'') name then Inl SE_InvalidParameter
      else Inr ())"
proof -
  have "512 < length name \<longleftrightarrow> 512 < int (length name)" by linarith
  then show ?thesis by (simp add: validate_secret_name_def)
qed

lemma description_int [code]: "validate_description d = (if 2048 < int (length d) then Inl SE_InvalidParameter else Inr ())"
  unfolding validate_description_def by (rule if_cong) (linarith | rule refl)+

definition value_too_large :: "string \<Rightarrow> bool" where
  "value_too_large txt \<longleftrightarrow> max_value_size < length txt"

lemma value_too_large_int [code]: "value_too_large txt \<longleftrightarrow> 65536 < int (length txt)"
  unfolding value_too_large_def max_value_size_def by linarith

lemma secret_value_int [code]:
  "validate_secret_value ss sb =
     (case (ss, sb) of
        (Some _, Some _) \<Rightarrow> Inl SE_InvalidParameter
      | (None, None) \<Rightarrow> Inl SE_InvalidParameter
      | (Some s, None) \<Rightarrow> if value_too_large s then Inl SE_InvalidParameter else Inr ()
      | (None, Some b) \<Rightarrow> if value_too_large b then Inl SE_InvalidParameter else Inr ())"
  by (simp add: validate_secret_value_def value_too_large_def split: option.splits)

section \<open>A concrete environment\<close>

definition secrets_sample_env :: secrets_env where
  "secrets_sample_env =
     \<lparr>se_now = 100000, se_uuid = ''u1'', se_suffix = ''abcdef'', se_region = ''r'', se_account = ''1'',
      se_order = (\<lambda>rs. rs), se_version_order = (\<lambda>vs. vs), se_b64_enc = (\<lambda>x. x), se_b64_dec = Some\<rparr>"

definition sample_secret :: "string \<Rightarrow> create_secret_input" where
  "sample_secret name =
     \<lparr>csi_token = None, csi_description = None, csi_kms_key_id = None, csi_name = name, csi_binary = None,
      csi_string = Some ''one'', csi_tags = []\<rparr>"

definition sample_value :: put_value_input where
  "sample_value = \<lparr>pvi_token = None, pvi_binary = None, pvi_secret_id = ''db'', pvi_string = Some ''two'', pvi_stages = []\<rparr>"

definition sample_store :: secret_store where
  "sample_store = run_ops secrets_step [] [(secrets_sample_env\<lparr>se_uuid := ''u0''\<rparr>, SR_Create (sample_secret ''db''))]"

section \<open>Staging labels\<close>

text \<open>
  C37. In every state that requests can reach, whatever the clock, the fresh identifiers and the
  iteration orders are: a staging label of a secret points to a version that exists, and a version
  shows exactly the labels that point to it, so that reading by label finds the version that shows it.
\<close>

theorem labels_point_to_versions:
  assumes "s = run_ops secrets_step [] rqs" "bt_get s name = Some r"
  shows "sc_name r = name \<and>
         (\<forall>l vid. bt_get (sc_labels r) l = Some vid \<longleftrightarrow>
            (\<exists>v. bt_get (sc_versions r) vid = Some v \<and> l \<in> set (sv_stages v)))"
proof -
  have "ok_run secrets_step (\<lambda>s x. True) [] rqs" by (rule ok_run_mono) simp
  then have "secrets_wf s" using secrets.inv_reachable assms(1) by blast
  then have ok: "secret_ok name r" using assms(2) by (rule wf_secret)
  have wf: "bt_wf (sc_labels r)" using ok by (simp add: secret_ok_def staging_ok_def)
  have "bt_get (sc_labels r) l = Some vid \<longleftrightarrow> (\<exists>v. bt_get (sc_versions r) vid = Some v \<and> l \<in> set (sv_stages v))" for l vid
    using ok labels_of_mem [OF wf, of l vid] unfolding secret_ok_def staging_ok_def by (metis option.exhaust)
  then show ?thesis using ok by (simp add: secret_ok_def)
qed

theorem labels_point_to_versions_witness:
  "\<exists>r v. bt_get sample_store ''db'' = Some r \<and> bt_get (sc_versions r) ''u0'' = Some v \<and> aws_current \<in> set (sv_stages v)"
proof -
  have "map_option (\<lambda>r. bt_get (sc_labels r) aws_current) (bt_get sample_store ''db'') = Some (Some ''u0'')" by code_simp
  then obtain r where r: "bt_get sample_store ''db'' = Some r" "bt_get (sc_labels r) aws_current = Some ''u0''" by auto
  then show ?thesis using labels_point_to_versions [OF sample_store_def r(1)] by blast
qed

section \<open>A new value\<close>











section \<open>Passwords\<close>

text \<open>
  For every random generator, a generated password has the requested length, consists of characters
  that the request includes and does not exclude, and has one of every included kind when the request
  asks for it and the length allows it.
\<close>

theorem password_as_requested:
  assumes "\<And>i n. 0 < n \<Longrightarrow> rng i n < n" "generate_random_password rng p = Inr w"
  shows "int (length w) = unwrap_or 32 (po_length p) \<and> set w \<subseteq> set (concat (password_pools p)) \<and>
         set w \<inter> set (unwrap_or [] (po_exclude p)) = {} \<and>
         (po_require_each p \<and> length (password_pools p) \<le> length w \<longrightarrow>
            (\<forall>pool\<in>set (password_pools p). set w \<inter> set pool \<noteq> {}))"
proof -
  have "set (concat (password_pools p)) \<inter> set (unwrap_or [] (po_exclude p)) = {}"
    by (auto simp: password_pools_def Let_def split: if_splits)
  then show ?thesis using generated_password [OF assms] by blast
qed

theorem password_as_requested_witness:
  "\<exists>w. generate_random_password (\<lambda>i n. i mod n) \<lparr>po_length = Some 5, po_exclude = Some ''a'', po_no_lower = False,
       po_no_upper = True, po_no_numbers = False, po_no_punctuation = True, po_space = False, po_require_each = True\<rparr> = Inr w \<and>
     length w = 5 \<and> CHR ''a'' \<notin> set w"
proof -
  let ?p = "\<lparr>po_length = Some 5, po_exclude = Some ''a'', po_no_lower = False,
       po_no_upper = True, po_no_numbers = False, po_no_punctuation = True, po_space = False, po_require_each = True\<rparr>"
  have "isl (generate_random_password (\<lambda>i n. i mod n) ?p) = False" by code_simp
  then obtain w where w: "generate_random_password (\<lambda>i n. i mod n) ?p = Inr w"
    by (cases "generate_random_password (\<lambda>i n. i mod n) ?p") auto
  then show ?thesis using password_as_requested [OF _ w] by auto
qed

section \<open>Findings\<close>

text \<open>
  A partial ARN is any beginning of an ARN: with the secrets \<open>db\<close> and \<open>db2\<close>, the ARN of \<open>db\<close> without its
  suffix can resolve to \<open>db2\<close>, and DeleteSecret deletes that one.
\<close>

definition two_secrets :: secret_store where
  "two_secrets = run_ops secrets_step [] [(secrets_sample_env, SR_Create (sample_secret ''db'')), (secrets_sample_env, SR_Create (sample_secret ''db2''))]"

lemma partial_arn_deletes_other:
  "map_option (\<lambda>x. ()) (bt_get two_secrets ''db2'') = Some () \<and>
   bt_get (snd (handle_delete_secret (secrets_sample_env\<lparr>se_order := rev\<rparr>) ''arn:aws:secretsmanager:r:1:secret:db''
     (Some True) None two_secrets)) ''db2'' = None"
  by code_simp

text \<open>Moving AWSCURRENT to the version that has it already moves AWSPREVIOUS there too: the previous
  version loses its label.\<close>

lemma moving_current_to_itself_loses_previous:
  "map_option (\<lambda>r. (bt_get (sc_labels r) aws_current, bt_get (sc_labels r) aws_previous))
     (bt_get (run_ops secrets_step sample_store
        [(secrets_sample_env, SR_Put sample_value), (secrets_sample_env, SR_Stage ''db'' aws_current (Some ''u1'') None)]) ''db'') =
   Some (Some ''u1'', Some ''u1'')"
  by code_simp

text \<open>AWSCURRENT can be removed without a successor: the value cannot be read any more.\<close>

lemma current_label_can_be_removed:
  "fst (handle_get_secret_value secrets_sample_env ''db'' None None
     (secrets_step sample_store (secrets_sample_env, SR_Stage ''db'' aws_current None (Some ''u0'')))) = Inl SE_ResourceNotFound"
  by code_simp

text \<open>An UpdateSecret that is refused for its value has changed the description.\<close>

lemma refused_update_changes_description:
  defines "inp \<equiv> \<lparr>usi_token = Some ''short'', usi_description = Some ''new'', usi_kms_key_id = None, usi_binary = None,
                  usi_secret_id = ''db'', usi_string = Some ''two''\<rparr>"
  shows "fst (handle_update_secret secrets_sample_env inp sample_store) = Inl SE_InvalidParameter"
    and "map_option sc_description (bt_get (snd (handle_update_secret secrets_sample_env inp sample_store)) ''db'') = Some (Some ''new'')"
  unfolding inp_def by code_simp+

end
