(* ===== verification/SSM_Storage.thy ===== *)
theory SSM_Storage
  imports Offset_Pages Rust_Text
begin

text \<open>
  Parameters of the SSM Parameter Store: versions with labels, the selector of a name
  (\<^verbatim>\<open>selector.rs\<close>), the validation of names, values, tags and labels (\<^verbatim>\<open>validation.rs\<close>), filters
  (\<^verbatim>\<open>filter.rs\<close>) and the operations of the store (\<^verbatim>\<open>storage.rs\<close>). Sets of strings are maps to unit.
  The regex crate is a function \<open>rx\<close>: the predicate of a pattern that compiles. Dates are milliseconds;
  message texts are not modelled.
\<close>

section \<open>State\<close>

datatype ssm_error =
    SM_ParameterNotFound
  | SM_ParameterAlreadyExists
  | SM_ParameterMaxVersionLimitExceeded
  | SM_ParameterVersionNotFound
  | SM_ParameterVersionLabelLimitExceeded
  | SM_HierarchyLevelLimitExceeded
  | SM_HierarchyTypeMismatch
  | SM_InvalidAllowedPattern
  | SM_ParameterPatternMismatch
  | SM_InvalidFilterKey
  | SM_InvalidFilterOption
  | SM_InvalidFilterValue
  | SM_InvalidNextToken
  | SM_InvalidResourceId
  | SM_InvalidResourceType
  | SM_UnsupportedParameterType
  | SM_TooManyTags
  | SM_Validation

datatype parameter_type = PT_String | PT_StringList | PT_SecureString

datatype parameter_tier = Tier_Standard | Tier_Advanced | Tier_Intelligent

definition type_text :: "parameter_type \<Rightarrow> string" where
  "type_text t = (case t of PT_String \<Rightarrow> ''String'' | PT_StringList \<Rightarrow> ''StringList'' | PT_SecureString \<Rightarrow> ''SecureString'')"

definition tier_text :: "parameter_tier \<Rightarrow> string" where
  "tier_text t =
     (case t of Tier_Standard \<Rightarrow> ''Standard'' | Tier_Advanced \<Rightarrow> ''Advanced'' | Tier_Intelligent \<Rightarrow> ''Intelligent-Tiering'')"

type_synonym string_set = "(string, unit) btree"

record parameter_version =
  pv_version :: nat
  pv_value :: string
  pv_description :: "string option"
  pv_allowed_pattern :: "string option"
  pv_data_type :: string
  pv_tier :: parameter_tier
  pv_labels :: string_set
  pv_policies :: "string list"
  pv_modified :: int
  pv_user :: string

record parameter_record =
  pr_name :: string
  pr_current :: nat
  pr_versions :: "(nat, parameter_version) btree"
  pr_tags :: "(string, string) btree"
  pr_type :: parameter_type
  pr_key_id :: "string option"

type_synonym parameter_store = "(string, parameter_record) btree"

type_synonym ssm_tag = "string \<times> string"

section \<open>Selectors\<close>

datatype parameter_selector = Sel_Version nat | Sel_Label string

text \<open>\<^verbatim>\<open>rfind(':')\<close> with the parts before and after it.\<close>

definition rsplit_once :: "char \<Rightarrow> string \<Rightarrow> (string \<times> string) option" where
  "rsplit_once d s = map_option (\<lambda>(a, b). (rev b, rev a)) (split_once d (rev s))"

definition parse_name_with_selector :: "string \<Rightarrow> ssm_error + string \<times> parameter_selector option" where
  "parse_name_with_selector name =
     (case rsplit_once (CHR '':'') name of
        None \<Rightarrow> Inr (name, None)
      | Some (base, selector) \<Rightarrow>
          if selector = [] then Inl SM_Validation
          else if list_all is_ascii_digit selector
          then (case parse_uint 64 selector of
                  None \<Rightarrow> Inl SM_Validation
                | Some v \<Rightarrow>
                    if v = 0 then Inl SM_ParameterVersionNotFound else Inr (base, Some (Sel_Version v)))
          else Inr (base, Some (Sel_Label selector)))"

section \<open>Validation\<close>

definition ssm_max_tags :: nat where "ssm_max_tags = 50"
definition ssm_max_versions :: nat where "ssm_max_versions = 100"
definition max_batch_size :: nat where "max_batch_size = 10"
definition max_labels :: nat where "max_labels = 10"

definition reserved_prefix :: "string \<Rightarrow> bool" where
  "reserved_prefix s \<longleftrightarrow> starts_with s ''aws'' \<or> starts_with s ''ssm''"

definition validate_parameter_name :: "string \<Rightarrow> ssm_error + unit" where
  "validate_parameter_name name =
     (if name = [] \<or> 2048 < int (length name) then Inl SM_Validation
      else if \<not> list_all (\<lambda>c. is_ascii_alphanumeric c \<or> c \<in> set ''_./-'') name then Inl SM_Validation
      else if reserved_prefix (trim_start_matches (CHR ''/'') (to_ascii_lowercase name)) then Inl SM_Validation
      else if length (filter (\<lambda>c. c = CHR ''/'') name) > 15 then Inl SM_HierarchyLevelLimitExceeded
      else Inr ())"

definition validate_parameter_value :: "string \<Rightarrow> parameter_tier \<Rightarrow> ssm_error + unit" where
  "validate_parameter_value v tier =
     (let max_size = (case tier of Tier_Standard \<Rightarrow> 4096 | Tier_Advanced \<Rightarrow> 8192 | Tier_Intelligent \<Rightarrow> 8192)
      in if max_size < int (length v) then Inl SM_Validation
         else if v = [] then Inl SM_Validation
         else Inr ())"

definition validate_parameter_description :: "string \<Rightarrow> ssm_error + unit" where
  "validate_parameter_description d = (if 1024 < int (length d) then Inl SM_Validation else Inr ())"

fun ssm_tag_entries :: "ssm_tag list \<Rightarrow> ssm_error + unit" where
  "ssm_tag_entries [] = Inr ()"
| "ssm_tag_entries ((key, v) # ts) =
     (if key = [] \<or> 128 < int (length key) then Inl SM_Validation
      else if 256 < int (length v) then Inl SM_Validation
      else ssm_tag_entries ts)"

definition validate_ssm_tags :: "ssm_tag list \<Rightarrow> ssm_error + unit" where
  "validate_ssm_tags tags = (if ssm_max_tags < length tags then Inl SM_TooManyTags else ssm_tag_entries tags)"

definition validate_allowed_pattern :: "(string \<Rightarrow> (string \<Rightarrow> bool) option) \<Rightarrow> string \<Rightarrow> string \<Rightarrow> ssm_error + unit" where
  "validate_allowed_pattern rx pattern v =
     (if pattern = [] then Inl SM_InvalidAllowedPattern
      else case rx pattern of
             None \<Rightarrow> Inl SM_InvalidAllowedPattern
           | Some is_match \<Rightarrow>
               res_bind
                 (if starts_with pattern ''^'' \<and> ends_with pattern ''$'' then Inr (is_match v)
                  else (case rx (''^(?:'' @ pattern @ '')$'') of
                          None \<Rightarrow> Inl SM_InvalidAllowedPattern
                        | Some full \<Rightarrow> Inr (full v)))
                 (\<lambda>ok. if ok then Inr () else Inl SM_ParameterPatternMismatch))"

definition is_valid_label :: "string \<Rightarrow> bool" where
  "is_valid_label label \<longleftrightarrow>
     label \<noteq> [] \<and> int (length label) \<le> 100 \<and>
     list_all (\<lambda>c. is_ascii_alphanumeric c \<or> c \<in> set ''_.-'') label \<and>
     \<not> is_ascii_digit (hd label) \<and>
     \<not> reserved_prefix (to_ascii_lowercase label)"

definition parse_tier :: "string \<Rightarrow> ssm_error + parameter_tier" where
  "parse_tier t =
     (if t = ''Standard'' then Inr Tier_Standard
      else if t = ''Advanced'' then Inr Tier_Advanced
      else if t = ''Intelligent-Tiering'' then Inr Tier_Intelligent
      else Inl SM_Validation)"

definition parse_parameter_type :: "string \<Rightarrow> ssm_error + parameter_type" where
  "parse_parameter_type t =
     (if t = ''String'' then Inr PT_String
      else if t = ''StringList'' then Inr PT_StringList
      else if t = ''SecureString'' then Inr PT_SecureString
      else Inl SM_UnsupportedParameterType)"

section \<open>Filters\<close>

record parameter_filter =
  pf_key :: string
  pf_option :: "string option"
  pf_values :: "string list"

definition valid_filter_keys :: "string list" where
  "valid_filter_keys = [''Name'', ''Type'', ''KeyId'', ''Path'', ''Tier'', ''DataType'', ''Label'']"

definition valid_filter_options :: "string \<Rightarrow> string list" where
  "valid_filter_options key =
     (if key = ''Name'' then [''Equals'', ''BeginsWith'']
      else if key = ''Path'' then [''Recursive'', ''OneLevel'']
      else if key \<in> set [''Type'', ''KeyId'', ''Tier'', ''DataType'', ''Label''] then [''Equals'']
      else [])"

definition validate_single_filter :: "parameter_filter \<Rightarrow> ssm_error + unit" where
  "validate_single_filter f =
     (case strip_prefix ''tag:'' (pf_key f) of
        Some tag_key \<Rightarrow>
          if tag_key = [] then Inl SM_InvalidFilterKey
          else if (case pf_option f of Some opt \<Rightarrow> opt \<noteq> ''Equals'' | None \<Rightarrow> False) then Inl SM_InvalidFilterOption
          else if pf_values f = [] then Inl SM_InvalidFilterValue
          else Inr ()
      | None \<Rightarrow>
          if pf_key f \<notin> set valid_filter_keys then Inl SM_InvalidFilterKey
          else if (case pf_option f of Some opt \<Rightarrow> opt \<notin> set (valid_filter_options (pf_key f)) | None \<Rightarrow> False)
          then Inl SM_InvalidFilterOption
          else if pf_values f = [] then Inl SM_InvalidFilterValue
          else Inr ())"

fun validate_filters :: "parameter_filter list \<Rightarrow> ssm_error + unit" where
  "validate_filters [] = Inr ()"
| "validate_filters (f # fs) = res_bind (validate_single_filter f) (\<lambda>_. validate_filters fs)"

definition normalize_path :: "string \<Rightarrow> string" where
  "normalize_path path = (if ends_with path ''/'' then path else path @ ''/'')"

text \<open>The names below a path, with or without the deeper levels.\<close>

definition under_path :: "bool \<Rightarrow> string \<Rightarrow> string \<Rightarrow> bool" where
  "under_path recursive path name =
     (case strip_prefix (normalize_path path) name of
        None \<Rightarrow> False
      | Some rest \<Rightarrow> rest \<noteq> [] \<and> (recursive \<or> CHR ''/'' \<notin> set rest))"

definition current_version_of :: "parameter_record \<Rightarrow> parameter_version option" where
  "current_version_of r = bt_get (pr_versions r) (pr_current r)"

definition matches_parameter_filter :: "parameter_record \<Rightarrow> parameter_filter \<Rightarrow> bool" where
  "matches_parameter_filter r f =
     (case strip_prefix ''tag:'' (pf_key f) of
        Some tag_key \<Rightarrow>
          (case bt_get (pr_tags r) tag_key of Some v \<Rightarrow> v \<in> set (pf_values f) | None \<Rightarrow> False)
      | None \<Rightarrow>
          if pf_key f = ''Name''
          then (let opt = unwrap_or ''Equals'' (pf_option f)
                in if opt = ''Equals'' then pr_name r \<in> set (pf_values f)
                   else if opt = ''BeginsWith'' then list_ex (starts_with (pr_name r)) (pf_values f)
                   else False)
          else if pf_key f = ''Type'' then type_text (pr_type r) \<in> set (pf_values f)
          else if pf_key f = ''KeyId''
          then (case pr_key_id r of Some kid \<Rightarrow> kid \<in> set (pf_values f) | None \<Rightarrow> False)
          else if pf_key f = ''Path''
          then (let opt = unwrap_or ''OneLevel'' (pf_option f)
                in list_ex (\<lambda>p. under_path (opt = ''Recursive'') p (pr_name r)) (pf_values f))
          else if pf_key f = ''Tier''
          then (case current_version_of r of Some v \<Rightarrow> tier_text (pv_tier v) \<in> set (pf_values f) | None \<Rightarrow> False)
          else if pf_key f = ''DataType''
          then (case current_version_of r of Some v \<Rightarrow> pv_data_type v \<in> set (pf_values f) | None \<Rightarrow> False)
          else if pf_key f = ''Label''
          then list_ex (\<lambda>label. list_ex (\<lambda>v. bt_get (pv_labels v) label \<noteq> None) (bt_values (pr_versions r))) (pf_values f)
          else False)"

definition matches_parameter_filters :: "parameter_record \<Rightarrow> parameter_filter list \<Rightarrow> bool" where
  "matches_parameter_filters r fs = list_all (matches_parameter_filter r) fs"

section \<open>Storing\<close>

definition effective_tier :: "parameter_tier \<Rightarrow> string \<Rightarrow> parameter_tier" where
  "effective_tier requested v =
     (case requested of
        Tier_Intelligent \<Rightarrow> if 4096 < int (length v) then Tier_Advanced else Tier_Standard
      | other \<Rightarrow> other)"

record put_parameter_args =
  pa_value :: string
  pa_type :: parameter_type
  pa_description :: "string option"
  pa_key_id :: "string option"
  pa_overwrite :: bool
  pa_allowed_pattern :: "string option"
  pa_tags :: "ssm_tag list"
  pa_tier :: parameter_tier
  pa_data_type :: string
  pa_policies :: "string list"

definition version_snapshot :: "put_parameter_args \<Rightarrow> nat \<Rightarrow> int \<Rightarrow> string \<Rightarrow> parameter_version" where
  "version_snapshot a v now account_id =
     \<lparr>pv_version = v, pv_value = pa_value a, pv_description = pa_description a,
      pv_allowed_pattern = pa_allowed_pattern a, pv_data_type = pa_data_type a,
      pv_tier = effective_tier (pa_tier a) (pa_value a), pv_labels = [], pv_policies = pa_policies a,
      pv_modified = now, pv_user = ''arn:aws:iam::'' @ account_id @ '':root''\<rparr>"

text \<open>At the limit the oldest version without labels makes room.\<close>

definition make_room :: "(nat, parameter_version) btree \<Rightarrow> ssm_error + (nat, parameter_version) btree" where
  "make_room versions =
     (if length versions \<ge> ssm_max_versions
      then (case find (\<lambda>(_, v). pv_labels v = []) versions of
              Some (k, _) \<Rightarrow> Inr (bt_remove k versions)
            | None \<Rightarrow> Inl SM_ParameterMaxVersionLimitExceeded)
      else Inr versions)"

definition store_tags :: "ssm_tag list \<Rightarrow> (string, string) btree \<Rightarrow> (string, string) btree" where
  "store_tags tags m = fold (\<lambda>(k, v). bt_insert k v) tags m"

definition put_parameter :: "string \<Rightarrow> put_parameter_args \<Rightarrow> int \<Rightarrow> string \<Rightarrow> parameter_store \<Rightarrow>
    (ssm_error + nat \<times> parameter_tier) \<times> parameter_store" where
  "put_parameter name a now account_id s =
     (let tier = effective_tier (pa_tier a) (pa_value a)
      in case bt_get s name of
           Some r \<Rightarrow>
             if \<not> pa_overwrite a then (Inl SM_ParameterAlreadyExists, s)
             else if pr_type r \<noteq> pa_type a then (Inl SM_HierarchyTypeMismatch, s)
             else (case make_room (pr_versions r) of
                     Inl e \<Rightarrow> (Inl e, s)
                   | Inr versions \<Rightarrow>
                       (let v = pr_current r + 1;
                            r' = r\<lparr>pr_current := v,
                                   pr_key_id := (case pa_key_id a of Some k \<Rightarrow> Some k | None \<Rightarrow> pr_key_id r),
                                   pr_versions := bt_insert v (version_snapshot a v now account_id) versions\<rparr>
                        in (Inr (v, tier), bt_insert name r' s)))
         | None \<Rightarrow>
             (Inr (1, tier),
              bt_insert name
                \<lparr>pr_name = name, pr_current = 1, pr_versions = [(1, version_snapshot a 1 now account_id)],
                 pr_tags = store_tags (pa_tags a) [], pr_type = pa_type a, pr_key_id = pa_key_id a\<rparr> s))"

section \<open>Reading\<close>

definition resolve_parameter_version :: "parameter_record \<Rightarrow> parameter_selector option \<Rightarrow> ssm_error + parameter_version" where
  "resolve_parameter_version r selector =
     (case selector of
        None \<Rightarrow> ok_or SM_ParameterNotFound (current_version_of r)
      | Some (Sel_Version v) \<Rightarrow> ok_or SM_ParameterVersionNotFound (bt_get (pr_versions r) v)
      | Some (Sel_Label label) \<Rightarrow>
          ok_or SM_ParameterVersionNotFound
            (find (\<lambda>v. bt_get (pv_labels v) label \<noteq> None) (bt_values (pr_versions r))))"

definition parameter_arn :: "string \<Rightarrow> string \<Rightarrow> string \<Rightarrow> string" where
  "parameter_arn name region account_id =
     ''arn:aws:ssm:'' @ region @ '':'' @ account_id @ '':parameter'' @
     (if starts_with name ''/'' then name else ''/'' @ name)"

record parameter_answer =
  an_name :: string
  an_type :: string
  an_value :: string
  an_version :: nat
  an_modified :: int
  an_arn :: string
  an_data_type :: string

definition build_parameter :: "parameter_record \<Rightarrow> parameter_version \<Rightarrow> string \<Rightarrow> string \<Rightarrow> parameter_answer" where
  "build_parameter r v region account_id =
     \<lparr>an_name = pr_name r, an_type = type_text (pr_type r), an_value = pv_value v, an_version = pv_version v,
      an_modified = pv_modified v, an_arn = parameter_arn (pr_name r) region account_id, an_data_type = pv_data_type v\<rparr>"

definition get_parameter :: "string \<Rightarrow> parameter_selector option \<Rightarrow> string \<Rightarrow> string \<Rightarrow> parameter_store \<Rightarrow>
    ssm_error + parameter_answer" where
  "get_parameter name selector region account_id s =
     res_bind (ok_or SM_ParameterNotFound (bt_get s name)) (\<lambda>r.
     res_map (\<lambda>v. build_parameter r v region account_id) (resolve_parameter_version r selector))"

fun get_parameters_loop :: "string \<Rightarrow> string \<Rightarrow> parameter_store \<Rightarrow> string list \<Rightarrow> string list \<Rightarrow>
    parameter_answer list \<times> string list" where
  "get_parameters_loop region account_id s seen [] = ([], [])"
| "get_parameters_loop region account_id s seen (name # names) =
     (if name \<in> set seen then get_parameters_loop region account_id s seen names
      else (let (found, invalid) = get_parameters_loop region account_id s (name # seen) names
            in case res_bind (parse_name_with_selector name) (\<lambda>(base, sel). get_parameter base sel region account_id s) of
                 Inr p \<Rightarrow> (p # found, invalid)
               | Inl _ \<Rightarrow> (found, name # invalid)))"

definition get_parameters :: "string list \<Rightarrow> string \<Rightarrow> string \<Rightarrow> parameter_store \<Rightarrow> parameter_answer list \<times> string list" where
  "get_parameters names region account_id s = get_parameters_loop region account_id s [] names"

text \<open>The tokens of the listings. The base64 crate is a pair of functions.\<close>

type_synonym base64 = "(string \<Rightarrow> string) \<times> (string \<Rightarrow> string option)"

definition ssm_encode_offset :: "base64 \<Rightarrow> nat \<Rightarrow> string" where
  "ssm_encode_offset b64 offset = fst b64 (show_nat offset)"

definition ssm_decode_offset :: "base64 \<Rightarrow> string option \<Rightarrow> ssm_error + nat option" where
  "ssm_decode_offset b64 token =
     (case token of
        None \<Rightarrow> Inr None
      | Some t \<Rightarrow>
          res_map Some
            (ok_or SM_InvalidNextToken
               (Option.bind (snd b64 t) (\<lambda>bytes. Option.bind (from_utf8 bytes) (parse_uint 64)))))"

definition ssm_page :: "base64 \<Rightarrow> 'a list \<Rightarrow> nat \<Rightarrow> string option \<Rightarrow> ssm_error + 'a list \<times> string option" where
  "ssm_page b64 xs max_results token =
     res_map (\<lambda>off. apsnd (map_option (ssm_encode_offset b64)) (page_at xs (unwrap_or 0 off) max_results))
       (ssm_decode_offset b64 token)"

text \<open>The names of a map are sorted already; a record whose current version is missing is left out of its page.\<close>

definition names_under_path :: "string \<Rightarrow> bool \<Rightarrow> parameter_filter list \<Rightarrow> parameter_store \<Rightarrow> string list" where
  "names_under_path path recursive fs s =
     sort (map fst (filter (\<lambda>(name, r). under_path recursive path name \<and> matches_parameter_filters r fs) s))"

definition current_parameter :: "string \<Rightarrow> string \<Rightarrow> parameter_store \<Rightarrow> string \<Rightarrow> parameter_answer option" where
  "current_parameter region account_id s name =
     Option.bind (bt_get s name) (\<lambda>r.
       map_option (\<lambda>v. build_parameter r v region account_id) (current_version_of r))"

definition get_parameters_by_path :: "base64 \<Rightarrow> string \<Rightarrow> bool \<Rightarrow> parameter_filter list \<Rightarrow> nat \<Rightarrow> string option \<Rightarrow>
    string \<Rightarrow> string \<Rightarrow> parameter_store \<Rightarrow> ssm_error + parameter_answer list \<times> string option" where
  "get_parameters_by_path b64 path recursive fs max_results token region account_id s =
     res_map (apfst (List.map_filter (current_parameter region account_id s)))
       (ssm_page b64 (names_under_path path recursive fs s) max_results token)"

definition describe_parameters :: "base64 \<Rightarrow> parameter_filter list \<Rightarrow> nat \<Rightarrow> string option \<Rightarrow> parameter_store \<Rightarrow>
    ssm_error + (parameter_record \<times> parameter_version option) list \<times> string option" where
  "describe_parameters b64 fs max_results token s =
     res_map (apfst (List.map_filter (\<lambda>name. map_option (\<lambda>r. (r, current_version_of r)) (bt_get s name))))
       (ssm_page b64 (sort (map fst (filter (\<lambda>(_, r). matches_parameter_filters r fs) s))) max_results token)"

definition get_parameter_history :: "base64 \<Rightarrow> string \<Rightarrow> nat \<Rightarrow> string option \<Rightarrow> parameter_store \<Rightarrow>
    ssm_error + parameter_version list \<times> string option" where
  "get_parameter_history b64 name max_results token s =
     res_bind (ok_or SM_ParameterNotFound (bt_get s name)) (\<lambda>r.
       ssm_page b64 (bt_values (pr_versions r)) max_results token)"

section \<open>Deleting, tags and labels\<close>

definition delete_parameter :: "string \<Rightarrow> parameter_store \<Rightarrow> (ssm_error + unit) \<times> parameter_store" where
  "delete_parameter name s =
     (if bt_get s name = None then (Inl SM_ParameterNotFound, s) else (Inr (), bt_remove name s))"

fun delete_parameters :: "string list \<Rightarrow> parameter_store \<Rightarrow> (string list \<times> string list) \<times> parameter_store" where
  "delete_parameters [] s = (([], []), s)"
| "delete_parameters (name # names) s =
     (if bt_get s name = None
      then (let ((deleted, invalid), s') = delete_parameters names s in ((deleted, name # invalid), s'))
      else (let ((deleted, invalid), s') = delete_parameters names (bt_remove name s) in ((name # deleted, invalid), s')))"

definition add_parameter_tags :: "string \<Rightarrow> ssm_tag list \<Rightarrow> parameter_store \<Rightarrow> (ssm_error + unit) \<times> parameter_store" where
  "add_parameter_tags name tags s =
     (case bt_get s name of
        None \<Rightarrow> (Inl SM_InvalidResourceId, s)
      | Some r \<Rightarrow>
          (let new_keys = length (filter (\<lambda>t. bt_get (pr_tags r) (fst t) = None) tags)
           in if length (pr_tags r) + new_keys > ssm_max_tags then (Inl SM_TooManyTags, s)
              else (Inr (), bt_insert name (r\<lparr>pr_tags := store_tags tags (pr_tags r)\<rparr>) s)))"

definition remove_parameter_tags :: "string \<Rightarrow> string list \<Rightarrow> parameter_store \<Rightarrow> (ssm_error + unit) \<times> parameter_store" where
  "remove_parameter_tags name keys s =
     (case bt_get s name of
        None \<Rightarrow> (Inl SM_InvalidResourceId, s)
      | Some r \<Rightarrow> (Inr (), bt_insert name (r\<lparr>pr_tags := fold bt_remove keys (pr_tags r)\<rparr>) s))"

definition list_parameter_tags :: "string \<Rightarrow> parameter_store \<Rightarrow> ssm_error + ssm_tag list" where
  "list_parameter_tags name s =
     res_map (\<lambda>r. sort_key fst (pr_tags r)) (ok_or SM_InvalidResourceId (bt_get s name))"

definition remove_labels :: "string list \<Rightarrow> parameter_version \<Rightarrow> parameter_version" where
  "remove_labels labels v = v\<lparr>pv_labels := fold bt_remove labels (pv_labels v)\<rparr>"

definition insert_labels :: "string list \<Rightarrow> parameter_version \<Rightarrow> parameter_version" where
  "insert_labels labels v = v\<lparr>pv_labels := fold (\<lambda>l. bt_insert l ()) labels (pv_labels v)\<rparr>"

definition label_parameter_version :: "string \<Rightarrow> nat option \<Rightarrow> string list \<Rightarrow> parameter_store \<Rightarrow>
    (ssm_error + string list \<times> nat) \<times> parameter_store" where
  "label_parameter_version name version labels s =
     (case bt_get s name of
        None \<Rightarrow> (Inl SM_ParameterNotFound, s)
      | Some r \<Rightarrow>
          (let target = unwrap_or (pr_current r) version
           in case bt_get (pr_versions r) target of
                None \<Rightarrow> (Inl SM_ParameterVersionNotFound, s)
              | Some t \<Rightarrow>
                  (let valid = filter is_valid_label labels;
                       invalid = filter (\<lambda>l. \<not> is_valid_label l) labels;
                       new_labels = length (filter (\<lambda>l. bt_get (pv_labels t) l = None) valid)
                   in if length (pv_labels t) + new_labels > max_labels
                      then (Inl SM_ParameterVersionLabelLimitExceeded, s)
                      else (let others = map (\<lambda>(k, v). (k, if pv_version v \<noteq> target then remove_labels valid v else v))
                                           (pr_versions r);
                                versions = (case bt_get others target of
                                              Some v \<Rightarrow> bt_insert target (insert_labels valid v) others
                                            | None \<Rightarrow> others)
                            in (Inr (invalid, target), bt_insert name (r\<lparr>pr_versions := versions\<rparr>) s)))))"

fun unlabel_loop :: "string list \<Rightarrow> string_set \<Rightarrow> (string list \<times> string list) \<times> string_set" where
  "unlabel_loop [] m = (([], []), m)"
| "unlabel_loop (l # ls) m =
     (if bt_get m l = None
      then (let ((invalid, removed), m') = unlabel_loop ls m in ((l # invalid, removed), m'))
      else (let ((invalid, removed), m') = unlabel_loop ls (bt_remove l m) in ((invalid, l # removed), m')))"

definition unlabel_parameter_version :: "string \<Rightarrow> nat \<Rightarrow> string list \<Rightarrow> parameter_store \<Rightarrow>
    (ssm_error + string list \<times> string list) \<times> parameter_store" where
  "unlabel_parameter_version name version labels s =
     (case bt_get s name of
        None \<Rightarrow> (Inl SM_ParameterNotFound, s)
      | Some r \<Rightarrow>
          (case bt_get (pr_versions r) version of
             None \<Rightarrow> (Inl SM_ParameterVersionNotFound, s)
           | Some v \<Rightarrow>
               (let (res, ls) = unlabel_loop labels (pv_labels v)
                in (Inr res,
                    bt_insert name (r\<lparr>pr_versions := bt_insert version (v\<lparr>pv_labels := ls\<rparr>) (pr_versions r)\<rparr>) s))))"

section \<open>Snapshots\<close>

definition ssm_export :: "parameter_store \<Rightarrow> parameter_record list" where
  "ssm_export s = sort_key pr_name (bt_values s)"

definition ssm_import :: "parameter_record list \<Rightarrow> parameter_store" where
  "ssm_import rs = fold (\<lambda>r. bt_insert (pr_name r) r) rs []"

end
