(* ===== verification/SSM_Provider.thy ===== *)
theory SSM_Provider
  imports SSM_Storage
begin

text \<open>
  The handlers of the Parameter Store (\<^verbatim>\<open>provider.rs\<close>): validation, defaults, and the operation of the store.
  What a request reads from outside is \<open>ssm_env\<close>.
\<close>

record ssm_env =
  pe_now :: int
  pe_region :: string
  pe_account :: string
  pe_regex :: "string \<Rightarrow> (string \<Rightarrow> bool) option"
  pe_base64 :: base64

record put_parameter_input =
  pi_name :: string
  pi_value :: string
  pi_type :: "string option"
  pi_description :: "string option"
  pi_key_id :: "string option"
  pi_overwrite :: "bool option"
  pi_allowed_pattern :: "string option"
  pi_tags :: "ssm_tag list"
  pi_tier :: "string option"
  pi_data_type :: "string option"
  pi_policies :: "string option"

definition opt_check :: "('a \<Rightarrow> 'e + unit) \<Rightarrow> 'a option \<Rightarrow> 'e + unit" where
  "opt_check f m = (case m of Some x \<Rightarrow> f x | None \<Rightarrow> Inr ())"

text \<open>The checks of PutParameter in their order, and the arguments that they pass on.\<close>

definition put_parameter_args_of :: "ssm_env \<Rightarrow> put_parameter_input \<Rightarrow> ssm_error + put_parameter_args" where
  "put_parameter_args_of env inp =
     res_bind (validate_parameter_name (pi_name inp)) (\<lambda>_.
     res_bind (case pi_type inp of Some t \<Rightarrow> parse_parameter_type t | None \<Rightarrow> Inr PT_String) (\<lambda>ptype.
     res_bind (case pi_tier inp of Some t \<Rightarrow> parse_tier t | None \<Rightarrow> Inr Tier_Standard) (\<lambda>tier.
     res_bind (validate_parameter_value (pi_value inp) tier) (\<lambda>_.
     res_bind (opt_check validate_parameter_description (pi_description inp)) (\<lambda>_.
     res_bind (validate_ssm_tags (pi_tags inp)) (\<lambda>_.
     (let pattern = (case pi_allowed_pattern inp of Some [] \<Rightarrow> None | p \<Rightarrow> p)
      in res_bind (opt_check (\<lambda>p. validate_allowed_pattern (pe_regex env) p (pi_value inp)) pattern) (\<lambda>_.
         Inr \<lparr>pa_value = pi_value inp, pa_type = ptype, pa_description = pi_description inp,
              pa_key_id = pi_key_id inp, pa_overwrite = unwrap_or False (pi_overwrite inp),
              pa_allowed_pattern = pattern, pa_tags = pi_tags inp, pa_tier = tier,
              pa_data_type = unwrap_or ''text'' (pi_data_type inp),
              pa_policies = (case pi_policies inp of Some p \<Rightarrow> if p = [] then [] else [p] | None \<Rightarrow> [])\<rparr>))))))))"

definition handle_put_parameter :: "ssm_env \<Rightarrow> put_parameter_input \<Rightarrow> parameter_store \<Rightarrow>
    (ssm_error + nat \<times> parameter_tier) \<times> parameter_store" where
  "handle_put_parameter env inp s =
     (case put_parameter_args_of env inp of
        Inl e \<Rightarrow> (Inl e, s)
      | Inr args \<Rightarrow> put_parameter (pi_name inp) args (pe_now env) (pe_account env) s)"

definition handle_get_parameter :: "ssm_env \<Rightarrow> string \<Rightarrow> parameter_store \<Rightarrow> ssm_error + parameter_answer" where
  "handle_get_parameter env name s =
     res_bind (parse_name_with_selector name) (\<lambda>(base, sel).
       get_parameter base sel (pe_region env) (pe_account env) s)"

definition handle_get_parameters :: "ssm_env \<Rightarrow> string list \<Rightarrow> parameter_store \<Rightarrow>
    ssm_error + parameter_answer list \<times> string list" where
  "handle_get_parameters env names s =
     (if length names > max_batch_size then Inl SM_Validation
      else Inr (get_parameters names (pe_region env) (pe_account env) s))"

definition clamp_max :: "int option \<Rightarrow> int \<Rightarrow> int \<Rightarrow> nat" where
  "clamp_max m lo hi = nat (max lo (min hi (unwrap_or hi m)))"

record by_path_input =
  bi_path :: string
  bi_recursive :: "bool option"
  bi_filters :: "parameter_filter list"
  bi_max_results :: "int option"
  bi_next_token :: "string option"

definition handle_get_parameters_by_path :: "ssm_env \<Rightarrow> by_path_input \<Rightarrow> parameter_store \<Rightarrow>
    ssm_error + parameter_answer list \<times> string option" where
  "handle_get_parameters_by_path env inp s =
     res_bind (validate_filters (bi_filters inp)) (\<lambda>_.
       get_parameters_by_path (pe_base64 env) (bi_path inp) (unwrap_or False (bi_recursive inp)) (bi_filters inp)
         (clamp_max (bi_max_results inp) 0 10) (bi_next_token inp) (pe_region env) (pe_account env) s)"

definition handle_delete_parameter :: "string \<Rightarrow> parameter_store \<Rightarrow> (ssm_error + unit) \<times> parameter_store" where
  "handle_delete_parameter name s = delete_parameter name s"

definition handle_delete_parameters :: "string list \<Rightarrow> parameter_store \<Rightarrow>
    (ssm_error + string list \<times> string list) \<times> parameter_store" where
  "handle_delete_parameters names s =
     (if length names > max_batch_size then (Inl SM_Validation, s)
      else (let (res, s') = delete_parameters names s in (Inr res, s')))"

definition handle_describe_parameters :: "ssm_env \<Rightarrow> parameter_filter list \<Rightarrow> int option \<Rightarrow> string option \<Rightarrow>
    parameter_store \<Rightarrow> ssm_error + (parameter_record \<times> parameter_version option) list \<times> string option" where
  "handle_describe_parameters env fs max_results token s =
     res_bind (validate_filters fs) (\<lambda>_. describe_parameters (pe_base64 env) fs (clamp_max max_results 1 50) token s)"

definition handle_get_parameter_history :: "ssm_env \<Rightarrow> string \<Rightarrow> int option \<Rightarrow> string option \<Rightarrow> parameter_store \<Rightarrow>
    ssm_error + parameter_version list \<times> string option" where
  "handle_get_parameter_history env name max_results token s =
     get_parameter_history (pe_base64 env) name (clamp_max max_results 1 50) token s"

definition validate_resource_type :: "string \<Rightarrow> ssm_error + unit" where
  "validate_resource_type t = (if t \<noteq> ''Parameter'' then Inl SM_InvalidResourceType else Inr ())"

definition handle_add_tags :: "string \<Rightarrow> string \<Rightarrow> ssm_tag list \<Rightarrow> parameter_store \<Rightarrow> (ssm_error + unit) \<times> parameter_store" where
  "handle_add_tags rtype name tags s =
     (case res_bind (validate_resource_type rtype) (\<lambda>_. validate_ssm_tags tags) of
        Inl e \<Rightarrow> (Inl e, s)
      | Inr _ \<Rightarrow> add_parameter_tags name tags s)"

definition handle_remove_tags :: "string \<Rightarrow> string \<Rightarrow> string list \<Rightarrow> parameter_store \<Rightarrow> (ssm_error + unit) \<times> parameter_store" where
  "handle_remove_tags rtype name keys s =
     (case validate_resource_type rtype of
        Inl e \<Rightarrow> (Inl e, s)
      | Inr _ \<Rightarrow> remove_parameter_tags name keys s)"

definition handle_list_tags :: "string \<Rightarrow> string \<Rightarrow> parameter_store \<Rightarrow> ssm_error + ssm_tag list" where
  "handle_list_tags rtype name s = res_bind (validate_resource_type rtype) (\<lambda>_. list_parameter_tags name s)"

text \<open>A version number of a request is an \<open>i64\<close> that is cast to \<open>u64\<close>.\<close>

definition as_u64 :: "int \<Rightarrow> nat" where
  "as_u64 i = nat (i mod 2 ^ 64)"

definition handle_label_parameter_version :: "string \<Rightarrow> int option \<Rightarrow> string list \<Rightarrow> parameter_store \<Rightarrow>
    (ssm_error + string list \<times> nat) \<times> parameter_store" where
  "handle_label_parameter_version name version labels s =
     label_parameter_version name (map_option as_u64 version) labels s"

definition handle_unlabel_parameter_version :: "string \<Rightarrow> int \<Rightarrow> string list \<Rightarrow> parameter_store \<Rightarrow>
    (ssm_error + string list \<times> string list) \<times> parameter_store" where
  "handle_unlabel_parameter_version name version labels s = unlabel_parameter_version name (as_u64 version) labels s"

section \<open>Requests\<close>

datatype ssm_request =
    SQ_Put put_parameter_input
  | SQ_Delete string
  | SQ_Delete_Batch "string list"
  | SQ_Add_Tags string string "ssm_tag list"
  | SQ_Remove_Tags string string "string list"
  | SQ_Label string "int option" "string list"
  | SQ_Unlabel string int "string list"

fun ssm_step :: "parameter_store \<Rightarrow> ssm_env \<times> ssm_request \<Rightarrow> parameter_store" where
  "ssm_step s (env, SQ_Put inp) = snd (handle_put_parameter env inp s)"
| "ssm_step s (env, SQ_Delete name) = snd (handle_delete_parameter name s)"
| "ssm_step s (env, SQ_Delete_Batch names) = snd (handle_delete_parameters names s)"
| "ssm_step s (env, SQ_Add_Tags rtype name tags) = snd (handle_add_tags rtype name tags s)"
| "ssm_step s (env, SQ_Remove_Tags rtype name keys) = snd (handle_remove_tags rtype name keys s)"
| "ssm_step s (env, SQ_Label name version labels) = snd (handle_label_parameter_version name version labels s)"
| "ssm_step s (env, SQ_Unlabel name version labels) = snd (handle_unlabel_parameter_version name version labels s)"

end
