(* ===== verification/SSM_Invariant.thy ===== *)
theory SSM_Invariant
  imports SSM_Provider
begin

text \<open>
  The invariant of the Parameter Store: versions are stored under their numbers up to the current one,
  which is there; versions, labels and tags keep their limits; a label is on one version only.
\<close>

section \<open>The invariant\<close>

definition version_ok :: "nat \<Rightarrow> nat \<Rightarrow> parameter_version \<Rightarrow> bool" where
  "version_ok newest k v \<longleftrightarrow>
     pv_version v = k \<and> 1 \<le> k \<and> k \<le> newest \<and> bt_wf (pv_labels v) \<and> length (pv_labels v) \<le> max_labels \<and>
     (\<forall>l. bt_get (pv_labels v) l \<noteq> None \<longrightarrow> is_valid_label l)"

definition has_label :: "(nat, parameter_version) btree \<Rightarrow> string \<Rightarrow> nat \<Rightarrow> bool" where
  "has_label m l k \<longleftrightarrow> (\<exists>v. bt_get m k = Some v \<and> bt_get (pv_labels v) l \<noteq> None)"

definition versions_ok :: "nat \<Rightarrow> (nat, parameter_version) btree \<Rightarrow> bool" where
  "versions_ok newest m \<longleftrightarrow>
     bt_wf m \<and> (\<forall>k v. bt_get m k = Some v \<longrightarrow> version_ok newest k v) \<and>
     (\<forall>l k k'. has_label m l k \<longrightarrow> has_label m l k' \<longrightarrow> k = k')"

definition parameter_ok :: "string \<Rightarrow> parameter_record \<Rightarrow> bool" where
  "parameter_ok name r \<longleftrightarrow>
     pr_name r = name \<and> validate_parameter_name name = Inr () \<and>
     versions_ok (pr_current r) (pr_versions r) \<and> bt_get (pr_versions r) (pr_current r) \<noteq> None \<and>
     length (pr_versions r) \<le> ssm_max_versions \<and>
     bt_wf (pr_tags r) \<and> length (pr_tags r) \<le> ssm_max_tags"

definition ssm_wf :: "parameter_store \<Rightarrow> bool" where
  "ssm_wf s \<longleftrightarrow> bt_wf s \<and> (\<forall>name r. bt_get s name = Some r \<longrightarrow> parameter_ok name r)"

lemma ssm_wf_insert: "ssm_wf s \<Longrightarrow> parameter_ok name r \<Longrightarrow> ssm_wf (bt_insert name r s)"
  unfolding ssm_wf_def by (auto simp: bt_wf_insert bt_get_insert)

lemma ssm_wf_remove: "ssm_wf s \<Longrightarrow> ssm_wf (bt_remove name s)"
  unfolding ssm_wf_def by (auto simp: bt_wf_remove bt_get_filter_out)

lemma ssm_wf_get: "ssm_wf s \<Longrightarrow> bt_get s name = Some r \<Longrightarrow> parameter_ok name r"
  unfolding ssm_wf_def by blast

section \<open>New versions\<close>

lemma has_label_insert:
  "has_label (bt_insert k v m) l x \<longleftrightarrow> (if x = k then bt_get (pv_labels v) l \<noteq> None else has_label m l x)"
  by (simp add: has_label_def bt_get_insert)

lemma has_label_remove: "has_label (bt_remove k m) l x \<longleftrightarrow> x \<noteq> k \<and> has_label m l x"
  by (simp add: has_label_def bt_get_filter_out)

text \<open>The conditions one by one.\<close>

lemma versions_okI:
  "bt_wf m \<Longrightarrow> (\<And>k v. bt_get m k = Some v \<Longrightarrow> version_ok n k v) \<Longrightarrow>
     (\<And>l k k'. has_label m l k \<Longrightarrow> has_label m l k' \<Longrightarrow> k = k') \<Longrightarrow> versions_ok n m"
  unfolding versions_ok_def by blast

lemma versions_okD:
  assumes "versions_ok n m"
  shows "bt_wf m" "bt_get m k = Some v \<Longrightarrow> version_ok n k v" "has_label m l x \<Longrightarrow> has_label m l y \<Longrightarrow> x = y"
  using assms unfolding versions_ok_def by blast+

lemma version_ok_mono: "version_ok n k v \<Longrightarrow> n \<le> n' \<Longrightarrow> version_ok n' k v"
  unfolding version_ok_def by auto

lemma snapshot_ok: "1 \<le> k \<Longrightarrow> version_ok k k (version_snapshot a k now account_id)"
  by (simp add: version_ok_def version_snapshot_def)

lemma versions_ok_remove:
  assumes "versions_ok n m"
  shows "versions_ok n (bt_remove k m)"
proof (rule versions_okI)
  show "bt_wf (bt_remove k m)" using assms by (intro bt_wf_remove versions_okD)
  show "version_ok n x v" if "bt_get (bt_remove k m) x = Some v" for x v
    using that versions_okD(2) [OF assms] by (simp add: bt_get_filter_out split: if_splits)
  show "x = y" if "has_label (bt_remove k m) l x" "has_label (bt_remove k m) l y" for l x y
    using that unfolding has_label_remove by (blast intro: versions_okD(3) [OF assms])
qed

lemma versions_ok_snapshot:
  assumes "versions_ok n m"
  shows "versions_ok (Suc n) (bt_insert (Suc n) (version_snapshot a (Suc n) now account_id) m)"
proof -
  have none: "pv_labels (version_snapshot a (Suc n) now account_id) = []" by (simp add: version_snapshot_def)
  have "version_ok (Suc n) k v" if "bt_get m k = Some v" for k v
    using versions_okD(2) [OF assms that] by (rule version_ok_mono) simp
  moreover have "version_ok (Suc n) (Suc n) (version_snapshot a (Suc n) now account_id)" by (rule snapshot_ok) simp
  moreover have "\<not> has_label m l (Suc n)" for l
    using assms by (auto simp: has_label_def version_ok_def dest: versions_okD(2))
  ultimately show ?thesis using versions_okD(1,3) [OF assms] none
    by (intro versions_okI bt_wf_insert) (auto simp: bt_get_insert has_label_insert split: if_splits)
qed

lemma make_room_ok:
  assumes "make_room m = Inr m'" "versions_ok n m" "length m \<le> ssm_max_versions"
  shows "versions_ok n m'" "length m' < ssm_max_versions"
proof -
  have "versions_ok n m' \<and> length m' < ssm_max_versions"
  proof (cases "length m \<ge> ssm_max_versions")
    case True
    then obtain k v where f: "find (\<lambda>(_, v). pv_labels v = []) m = Some (k, v)" and m': "m' = bt_remove k m"
      using assms(1) by (auto simp: make_room_def split: option.splits)
    have "(k, v) \<in> set m" using f by (metis find_Some_iff nth_mem)
    then have "bt_get m k = Some v" using assms(2) by (intro bt_mem_get) (auto simp: versions_ok_def)
    then show ?thesis using length_bt_remove assms(2,3) m' by (auto intro: versions_ok_remove dest: length_bt_remove)
  next
    case False
    then show ?thesis using assms by (simp add: make_room_def)
  qed
  then show "versions_ok n m'" "length m' < ssm_max_versions" by blast+
qed

section \<open>Tags\<close>

lemma store_tags_fold: "store_tags tags m = fold (\<lambda>t. bt_insert (fst t) (snd t)) tags m"
  by (simp add: store_tags_def case_prod_unfold)

lemma store_tags_ok:
  assumes "bt_wf m" "length m + length (filter (\<lambda>t. bt_get m (fst t) = None) tags) \<le> ssm_max_tags"
  shows "bt_wf (store_tags tags m) \<and> length (store_tags tags m) \<le> ssm_max_tags"
  unfolding store_tags_fold
  using bt_wf_fold_insert [OF assms(1), of fst snd tags] length_fold_insert [OF assms(1), of fst snd tags] assms(2) by auto

lemma validated_tags: "validate_ssm_tags tags = Inr () \<Longrightarrow> length tags \<le> ssm_max_tags"
  by (simp add: validate_ssm_tags_def split: if_splits)

section \<open>Labels\<close>

lemma versions_ok_label:
  assumes ok: "versions_ok n m" and t: "bt_get m target = Some t" and valid: "list_all is_valid_label ls"
    and limit: "length (pv_labels t) + length (filter (\<lambda>l. bt_get (pv_labels t) l = None) ls) \<le> max_labels"
  shows "versions_ok n (bt_insert target (insert_labels ls t)
           (map (\<lambda>(k, v). (k, if pv_version v \<noteq> target then remove_labels ls v else v)) m))"
    (is "versions_ok n (bt_insert target ?t ?others)")
proof -
  have vs: "version_ok n k v" if "bt_get m k = Some v" for k v using ok that by (rule versions_okD)
  have wf: "bt_wf m" using ok by (rule versions_okD)
  have get: "bt_get (bt_insert target ?t ?others) k =
      (if k = target then Some ?t else map_option (remove_labels ls) (bt_get m k))" for k
    using vs [of k] by (cases "bt_get m k") (simp_all add: bt_get_insert bt_get_map_values version_ok_def)
  have tl: "bt_get (pv_labels ?t) l = (if l \<in> set ls then Some () else bt_get (pv_labels t) l)" for l
    by (simp add: insert_labels_def bt_get_fold_insert_unit)
  have rl: "bt_get (pv_labels (remove_labels ls v)) l = (if l \<in> set ls then None else bt_get (pv_labels v) l)" for v l
    by (simp add: remove_labels_def bt_get_fold_remove_keys)
  have "length (pv_labels ?t) \<le> length (pv_labels t) + length (filter (\<lambda>l. bt_get (pv_labels t) l = None) ls)"
    using length_fold_insert [of "pv_labels t" "\<lambda>l. l" "\<lambda>_. ()" ls] vs [OF t] by (simp add: insert_labels_def version_ok_def)
  then have "version_ok n target ?t"
    using vs [OF t] limit valid tl bt_wf_fold_insert [of "pv_labels t" "\<lambda>l. l" "\<lambda>_. ()" ls]
    by (auto simp: version_ok_def insert_labels_def list_all_iff split: if_splits)
  moreover have "version_ok n k (remove_labels ls v)" if "bt_get m k = Some v" for k v
    using vs [OF that] rl length_fold_remove_keys [of ls "pv_labels v"]
    by (auto simp: version_ok_def remove_labels_def bt_wf_fold_remove_keys split: if_splits)
  moreover have "bt_wf (bt_insert target ?t ?others)" using wf by (intro bt_wf_insert bt_wf_map_values)
  moreover have label: "has_label (bt_insert target ?t ?others) l x \<longleftrightarrow>
      (if l \<in> set ls then x = target else has_label m l x)" for l x
  proof (cases "x = target")
    case True
    then show ?thesis using t tl by (simp add: has_label_def get)
  next
    case False
    then show ?thesis using rl by (auto simp: has_label_def get)
  qed
  moreover have "version_ok n k w" if "bt_get (bt_insert target ?t ?others) k = Some w" for k w
    using that calculation(1,2) by (auto simp: get split: if_splits)
  ultimately show ?thesis using versions_okD(3) [OF ok] by (intro versions_okI) (auto split: if_splits)
qed

lemma unlabel_loop_labels:
  "snd (unlabel_loop ls m) = fold bt_remove ls m"
proof (induction ls m rule: unlabel_loop.induct)
  case (2 l ls m)
  have "bt_remove l m = m" if "bt_get m l = None"
    using that unfolding bt_remove_def by (auto simp: filter_id_conv bt_get_None_iff bt_keys_def)
  then show ?case using 2 by (auto split: prod.split)
qed simp

lemma versions_ok_unlabel:
  assumes ok: "versions_ok n m" and v: "bt_get m k = Some v"
  shows "versions_ok n (bt_insert k (v\<lparr>pv_labels := fold bt_remove ls (pv_labels v)\<rparr>) m)" (is "versions_ok n (bt_insert k ?v m)")
proof -
  have old: "version_ok n k v" "bt_wf m" using ok v by (auto simp: versions_ok_def)
  have lab: "bt_get (pv_labels ?v) l = (if l \<in> set ls then None else bt_get (pv_labels v) l)" for l
    by (simp add: bt_get_fold_remove_keys)
  have "version_ok n k ?v" using old(1) lab length_fold_remove_keys [of ls "pv_labels v"]
    by (auto simp: version_ok_def bt_wf_fold_remove_keys split: if_splits)
  moreover have old_label: "has_label m l x" if "has_label (bt_insert k ?v m) l x" for l x
  proof (cases "x = k")
    case True
    then show ?thesis using that lab [of l] v unfolding has_label_insert by (auto simp: has_label_def split: if_splits)
  next
    case False
    then show ?thesis using that by (simp add: has_label_insert)
  qed
  moreover have "x = y" if "has_label (bt_insert k ?v m) l x" "has_label (bt_insert k ?v m) l y" for l x y
    using versions_okD(3) [OF ok] that by (blast dest: old_label)
  ultimately show ?thesis using old(2) versions_okD(2) [OF ok]
    by (intro versions_okI bt_wf_insert) (auto simp: bt_get_insert split: if_splits)
qed

section \<open>Every request keeps the invariant\<close>

lemma put_args_valid:
  assumes "put_parameter_args_of env inp = Inr a"
  shows "validate_parameter_name (pi_name inp) = Inr ()" "length (pa_tags a) \<le> ssm_max_tags"
  using assms by (auto simp: put_parameter_args_of_def res_bind_Inr_iff Let_def dest!: validated_tags)

lemma wf_put_parameter:
  assumes wf: "ssm_wf s" and name: "validate_parameter_name name = Inr ()" and tags: "length (pa_tags a) \<le> ssm_max_tags"
  shows "ssm_wf (snd (put_parameter name a now account_id s))"
proof (cases "bt_get s name")
  case None
  let ?r = "\<lparr>pr_name = name, pr_current = 1, pr_versions = [(1, version_snapshot a 1 now account_id)],
      pr_tags = store_tags (pa_tags a) [], pr_type = pa_type a, pr_key_id = pa_key_id a\<rparr>"
  have "versions_ok (Suc 0) (bt_insert (Suc 0) (version_snapshot a (Suc 0) now account_id) [])"
    by (rule versions_ok_snapshot) (simp add: versions_ok_def has_label_def)
  moreover have "length [t\<leftarrow>pa_tags a. True] \<le> ssm_max_tags" using tags by simp
  then have "bt_wf (store_tags (pa_tags a) []) \<and> length (store_tags (pa_tags a) []) \<le> ssm_max_tags"
    by (intro store_tags_ok) simp_all
  ultimately have "parameter_ok name ?r" using name by (simp add: parameter_ok_def ssm_max_versions_def)
  then show ?thesis using wf None by (simp add: put_parameter_def Let_def ssm_wf_insert)
next
  case (Some r)
  have ok: "parameter_ok name r" using wf Some by (rule ssm_wf_get)
  show ?thesis
  proof (cases "pa_overwrite a \<and> pr_type r = pa_type a")
    case True
    show ?thesis
    proof (cases "make_room (pr_versions r)")
      case (Inr m)
      have "versions_ok (pr_current r) (pr_versions r)" "length (pr_versions r) \<le> ssm_max_versions"
        using ok by (auto simp: parameter_ok_def)
      then have m: "versions_ok (pr_current r) m" "length m < ssm_max_versions" using make_room_ok [OF Inr] by blast+
      then have "length (bt_insert (Suc (pr_current r)) v m) \<le> ssm_max_versions" for v
        by (auto simp: length_bt_insert versions_ok_def)
      then have "parameter_ok name (r\<lparr>pr_current := Suc (pr_current r), pr_key_id := k,
          pr_versions := bt_insert (Suc (pr_current r)) (version_snapshot a (Suc (pr_current r)) now account_id) m\<rparr>)" for k
        using ok versions_ok_snapshot [OF m(1), of a now account_id] by (simp add: parameter_ok_def bt_get_insert)
      then show ?thesis using wf Some True Inr by (simp add: put_parameter_def Let_def ssm_wf_insert)
    qed (use wf Some True in \<open>simp add: put_parameter_def Let_def\<close>)
  qed (use wf Some in \<open>auto simp: put_parameter_def Let_def\<close>)
qed

lemma wf_handle_put: "ssm_wf s \<Longrightarrow> ssm_wf (snd (handle_put_parameter env inp s))"
  by (auto simp: handle_put_parameter_def dest: put_args_valid intro: wf_put_parameter split: sum.split)

lemma wf_delete_parameters: "ssm_wf s \<Longrightarrow> ssm_wf (snd (delete_parameters names s))"
  by (induction names s rule: delete_parameters.induct) (auto simp: ssm_wf_remove split: prod.split)

lemma wf_add_tags: "ssm_wf s \<Longrightarrow> ssm_wf (snd (add_parameter_tags name tags s))"
proof (cases "bt_get s name")
  case (Some r)
  assume wf: "ssm_wf s"
  have ok: "parameter_ok name r" using wf Some by (rule ssm_wf_get)
  show ?thesis
  proof (cases "length (pr_tags r) + length (filter (\<lambda>t. bt_get (pr_tags r) (fst t) = None) tags) > ssm_max_tags")
    case False
    then have "parameter_ok name (r\<lparr>pr_tags := store_tags tags (pr_tags r)\<rparr>)"
      using ok store_tags_ok [of "pr_tags r" tags] by (simp add: parameter_ok_def)
    then show ?thesis using wf Some False by (simp add: add_parameter_tags_def Let_def ssm_wf_insert)
  qed (use wf Some in \<open>simp add: add_parameter_tags_def Let_def\<close>)
qed (simp add: add_parameter_tags_def)

lemma wf_remove_tags: "ssm_wf s \<Longrightarrow> ssm_wf (snd (remove_parameter_tags name keys s))"
proof (cases "bt_get s name")
  case (Some r)
  assume wf: "ssm_wf s"
  then have "parameter_ok name (r\<lparr>pr_tags := fold bt_remove keys (pr_tags r)\<rparr>)"
    using ssm_wf_get [OF wf Some] length_fold_remove_keys [of keys "pr_tags r"]
    by (auto simp: parameter_ok_def bt_wf_fold_remove_keys)
  then show ?thesis using wf Some by (simp add: remove_parameter_tags_def ssm_wf_insert)
qed (simp add: remove_parameter_tags_def)

lemma bt_length_replace: "bt_wf m \<Longrightarrow> bt_get m k = Some v \<Longrightarrow> length (bt_insert k w m) = length m"
  by (simp add: length_bt_insert)

lemma wf_label: "ssm_wf s \<Longrightarrow> ssm_wf (snd (label_parameter_version name version labels s))"
proof (cases "bt_get s name")
  case (Some r)
  assume wf: "ssm_wf s"
  let ?target = "unwrap_or (pr_current r) version" and ?valid = "filter is_valid_label labels"
  have ok: "parameter_ok name r" using wf Some by (rule ssm_wf_get)
  show ?thesis
  proof (cases "bt_get (pr_versions r) ?target")
    case t: (Some t)
    let ?others = "map (\<lambda>(k, v). (k, if pv_version v \<noteq> ?target then remove_labels ?valid v else v)) (pr_versions r)"
    let ?limit = "length (pv_labels t) + length (filter (\<lambda>l. bt_get (pv_labels t) l = None) ?valid) > max_labels"
    have vs: "versions_ok (pr_current r) (pr_versions r)" using ok by (simp add: parameter_ok_def)
    then have "pv_version t = ?target" using t by (simp add: versions_ok_def version_ok_def)
    then have o: "bt_get ?others ?target = Some t" using t by (simp add: bt_get_map_values)
    have "bt_wf ?others" using vs by (intro bt_wf_map_values) (simp add: versions_ok_def)
    then have "length (bt_insert ?target w ?others) = length (pr_versions r)" for w
      using bt_length_replace [OF _ o] by simp
    moreover have "versions_ok (pr_current r) (bt_insert ?target (insert_labels ?valid t) ?others)" if "\<not> ?limit"
      using that by (intro versions_ok_label [OF vs t]) (simp_all add: list_all_iff)
    moreover have "bt_get (bt_insert ?target w ?others) (pr_current r) \<noteq> None" for w
      using ok by (simp add: parameter_ok_def bt_get_insert bt_get_map_values)
    ultimately have "parameter_ok name (r\<lparr>pr_versions := bt_insert ?target (insert_labels ?valid t) ?others\<rparr>)" if "\<not> ?limit"
      using that ok by (simp add: parameter_ok_def)
    then show ?thesis using wf Some t o
      by (cases ?limit) (simp_all add: label_parameter_version_def Let_def ssm_wf_insert del: bt_get_Cons)
  qed (use wf Some in \<open>simp add: label_parameter_version_def Let_def\<close>)
qed (simp add: label_parameter_version_def)

lemma wf_unlabel: "ssm_wf s \<Longrightarrow> ssm_wf (snd (unlabel_parameter_version name version labels s))"
proof (cases "bt_get s name")
  case (Some r)
  assume wf: "ssm_wf s"
  have ok: "parameter_ok name r" using wf Some by (rule ssm_wf_get)
  show ?thesis
  proof (cases "bt_get (pr_versions r) version")
    case v: (Some v)
    let ?m = "bt_insert version (v\<lparr>pv_labels := fold bt_remove labels (pv_labels v)\<rparr>) (pr_versions r)"
    have vs: "versions_ok (pr_current r) (pr_versions r)" using ok by (simp add: parameter_ok_def)
    then have "versions_ok (pr_current r) ?m" using v by (rule versions_ok_unlabel)
    moreover have "length ?m = length (pr_versions r)" using vs v by (intro bt_length_replace) (simp_all add: versions_ok_def)
    ultimately have "parameter_ok name (r\<lparr>pr_versions := ?m\<rparr>)" using ok by (simp add: parameter_ok_def bt_get_insert)
    then have "ssm_wf (bt_insert name (r\<lparr>pr_versions := ?m\<rparr>) s)" using wf by (intro ssm_wf_insert)
    then show ?thesis using Some v by (simp add: unlabel_parameter_version_def split_beta unlabel_loop_labels)
  qed (use wf Some in \<open>simp add: unlabel_parameter_version_def\<close>)
qed (simp add: unlabel_parameter_version_def)

lemma ssm_wf_step: "ssm_wf s \<Longrightarrow> ssm_wf (ssm_step s x)"
proof (induction s x rule: ssm_step.induct)
  case (3 s env names)
  then show ?case using wf_delete_parameters [of s names] by (simp add: handle_delete_parameters_def split_beta)
qed (simp_all add: wf_handle_put handle_delete_parameter_def delete_parameter_def ssm_wf_remove handle_add_tags_def wf_add_tags
    handle_remove_tags_def wf_remove_tags handle_label_parameter_version_def wf_label
    handle_unlabel_parameter_version_def wf_unlabel split: sum.split)

interpretation parameters: rooted_machine ssm_step "\<lambda>s x. True" ssm_wf "[]"
  by unfold_locales (simp_all add: ssm_wf_step, simp add: ssm_wf_def)

end
