(* ===== verification/SSM_Properties.thy ===== *)
theory SSM_Properties
  imports SSM_Invariant
begin

text \<open>
  The properties of the Parameter Store: its invariant, the names with selectors, what a label pins, and
  the listing of a path.
\<close>

section \<open>A concrete store\<close>

definition ssm_sample_env :: ssm_env where
  "ssm_sample_env = \<lparr>pe_now = 5, pe_region = ''r'', pe_account = ''1'', pe_regex = (\<lambda>_. None), pe_base64 = (\<lambda>x. x, Some)\<rparr>"

definition sample_put :: "string \<Rightarrow> string \<Rightarrow> ssm_env \<times> ssm_request" where
  "sample_put name v =
     (ssm_sample_env,
      SQ_Put \<lparr>pi_name = name, pi_value = v, pi_type = None, pi_description = None, pi_key_id = None, pi_overwrite = Some True,
              pi_allowed_pattern = None, pi_tags = [], pi_tier = None, pi_data_type = None, pi_policies = None\<rparr>)"

definition sample_history :: "(ssm_env \<times> ssm_request) list" where
  "sample_history =
     [sample_put ''/a/x'' ''one'', (ssm_sample_env, SQ_Label ''/a/x'' None [''prod'']), sample_put ''/a/y'' ''two'']"

section \<open>Names with selectors\<close>

lemma rsplit_once_append: "d \<notin> set b \<Longrightarrow> rsplit_once d (a @ d # b) = Some (a, b)"
  by (simp add: rsplit_once_def split_once_append)

lemma rsplit_once_None: "d \<notin> set s \<Longrightarrow> rsplit_once d s = None"
  by (simp add: rsplit_once_def split_once_None_iff)

lemma parse_plain: "CHR '':'' \<notin> set name \<Longrightarrow> parse_name_with_selector name = Inr (name, None)"
  by (simp add: parse_name_with_selector_def rsplit_once_None)

lemma parse_version:
  assumes "0 < v" "v < 2 ^ 64"
  shows "parse_name_with_selector (name @ CHR '':'' # show_nat v) = Inr (name, Some (Sel_Version v))"
proof -
  have digits: "list_all is_ascii_digit (show_nat v)" by (simp add: list_all_iff set_show_nat)
  have "\<not> is_ascii_digit (CHR '':'')" by code_simp
  then have "CHR '':'' \<notin> set (show_nat v)" using set_show_nat by blast
  then show ?thesis using assms digits parse_uint_show [OF assms(2)]
    by (simp add: parse_name_with_selector_def rsplit_once_append)
qed

lemma valid_label_chars:
  assumes "is_valid_label l"
  shows "CHR '':'' \<notin> set l" "l \<noteq> []" "\<not> list_all is_ascii_digit l"
proof -
  have "\<not> is_ascii_alphanumeric (CHR '':'')" by code_simp
  then show "CHR '':'' \<notin> set l" using assms by (auto simp: is_valid_label_def list_all_iff)
  show "l \<noteq> []" "\<not> list_all is_ascii_digit l" using assms by (cases l, simp_all add: is_valid_label_def)+
qed

lemma parse_label:
  "is_valid_label l \<Longrightarrow> parse_name_with_selector (name @ CHR '':'' # l) = Inr (name, Some (Sel_Label l))"
  using valid_label_chars [of l] by (simp add: parse_name_with_selector_def rsplit_once_append)

lemma valid_name_no_colon: "validate_parameter_name name = Inr () \<Longrightarrow> CHR '':'' \<notin> set name"
proof -
  assume v: "validate_parameter_name name = Inr ()"
  have "\<not> is_ascii_alphanumeric (CHR '':'')" by code_simp
  then show ?thesis using v by (auto simp: validate_parameter_name_def list_all_iff split: if_splits)
qed

text \<open>
  A valid name addresses the parameter, a valid name with a version number that version, and with a
  valid label the version of the label: the three forms are read back as they were written.
\<close>

theorem selector_roundtrip:
  assumes "validate_parameter_name name = Inr ()"
  shows "parse_name_with_selector name = Inr (name, None) \<and>
         (\<forall>v. 0 < v \<and> v < 2 ^ 64 \<longrightarrow>
            parse_name_with_selector (name @ CHR '':'' # show_nat v) = Inr (name, Some (Sel_Version v))) \<and>
         (\<forall>l. is_valid_label l \<longrightarrow> parse_name_with_selector (name @ CHR '':'' # l) = Inr (name, Some (Sel_Label l)))"
  using parse_plain [OF valid_name_no_colon [OF assms]] parse_version parse_label by blast

theorem selector_roundtrip_witness:
  "parse_name_with_selector ''/app/db'' = Inr (''/app/db'', None) \<and>
   parse_name_with_selector (''/app/db'' @ CHR '':'' # ''prod'') = Inr (''/app/db'', Some (Sel_Label ''prod''))"
proof -
  have "validate_parameter_name ''/app/db'' = Inr ()" "is_valid_label ''prod''" by code_simp+
  then show ?thesis using selector_roundtrip by blast
qed

section \<open>The invariant\<close>

lemma find_labelled:
  assumes ok: "versions_ok n m" and v: "bt_get m k = Some v" "bt_get (pv_labels v) l \<noteq> None"
  shows "find (\<lambda>v. bt_get (pv_labels v) l \<noteq> None) (bt_values m) = Some v"
proof -
  have "v \<in> set (bt_values m)" using bt_get_mem [OF v(1)] by (force simp: bt_values_def)
  then obtain w where w: "find (\<lambda>v. bt_get (pv_labels v) l \<noteq> None) (bt_values m) = Some w"
    using v(2) by (cases "find (\<lambda>v. bt_get (pv_labels v) l \<noteq> None) (bt_values m)") (auto simp: find_None_iff)
  then have "w \<in> set (bt_values m)" "bt_get (pv_labels w) l \<noteq> None" by (auto simp: find_Some_iff)
  then obtain k' where "(k', w) \<in> set m" and l: "bt_get (pv_labels w) l \<noteq> None" by (auto simp: bt_values_def)
  then have k': "bt_get m k' = Some w" by (intro bt_mem_get versions_okD(1) [OF ok])
  have "has_label m l k'" "has_label m l k" using k' l v by (auto simp: has_label_def)
  then have "k' = k" by (rule versions_okD(3) [OF ok])
  then show ?thesis using w v(1) k' by simp
qed

text \<open>
  C39. In every state that requests can reach, a parameter has a valid name, its current version is there
  and is the newest of at most 100, it has at most 50 tags, every version has at most ten labels, all
  valid, and no label is on two versions.
\<close>

theorem reachable_parameters_wf:
  assumes "s = run_ops ssm_step [] rqs" "bt_get s name = Some r"
  shows "pr_name r = name \<and> validate_parameter_name name = Inr () \<and>
         (\<exists>v. bt_get (pr_versions r) (pr_current r) = Some v) \<and>
         (\<forall>k v. bt_get (pr_versions r) k = Some v \<longrightarrow> pv_version v = k \<and> 1 \<le> k \<and> k \<le> pr_current r) \<and>
         length (pr_versions r) \<le> 100 \<and> length (pr_tags r) \<le> 50 \<and>
         (\<forall>k v l. bt_get (pr_versions r) k = Some v \<and> bt_get (pv_labels v) l \<noteq> None \<longrightarrow>
            is_valid_label l \<and> length (pv_labels v) \<le> 10 \<and>
            (\<forall>k' v'. bt_get (pr_versions r) k' = Some v' \<and> bt_get (pv_labels v') l \<noteq> None \<longrightarrow> k' = k))"
proof -
  have "ok_run ssm_step (\<lambda>s x. True) [] rqs" by (rule ok_run_mono) simp
  then have "ssm_wf s" using parameters.inv_reachable assms(1) by blast
  then have ok: "parameter_ok name r" using assms(2) by (rule ssm_wf_get)
  then have vs: "versions_ok (pr_current r) (pr_versions r)" by (simp add: parameter_ok_def)
  have "version_ok (pr_current r) k v" if "bt_get (pr_versions r) k = Some v" for k v using vs that by (rule versions_okD)
  moreover have "k' = k" if "bt_get (pr_versions r) k = Some v" "bt_get (pv_labels v) l \<noteq> None"
    "bt_get (pr_versions r) k' = Some v'" "bt_get (pv_labels v') l \<noteq> None" for k v l k' v'
    using versions_okD(3) [OF vs, of l k' k] that unfolding has_label_def by blast
  ultimately show ?thesis using ok
    by (simp add: parameter_ok_def version_ok_def max_labels_def ssm_max_versions_def ssm_max_tags_def) blast
qed

theorem reachable_parameters_wf_witness:
  "\<exists>r. bt_get (run_ops ssm_step [] sample_history) ''/a/x'' = Some r \<and> pr_name r = ''/a/x'' \<and> length (pr_versions r) \<le> 100"
proof -
  have "bt_get (run_ops ssm_step [] sample_history) ''/a/x'' \<noteq> None" by code_simp
  then obtain r where "bt_get (run_ops ssm_step [] sample_history) ''/a/x'' = Some r" by blast
  then show ?thesis using reachable_parameters_wf [OF refl] by blast
qed

section \<open>Labels\<close>

text \<open>What a read answers about a version, apart from the ARN.\<close>

definition pinned :: "string \<Rightarrow> parameter_record \<Rightarrow> nat \<Rightarrow> parameter_version \<Rightarrow> bool" where
  "pinned l r k v \<longleftrightarrow>
     (\<exists>w. bt_get (pr_versions r) k = Some w \<and> bt_get (pv_labels w) l \<noteq> None \<and> w\<lparr>pv_labels := []\<rparr> = v\<lparr>pv_labels := []\<rparr>)"

definition pinned_in :: "string \<Rightarrow> string \<Rightarrow> parameter_type \<Rightarrow> nat \<Rightarrow> parameter_version \<Rightarrow> parameter_store \<Rightarrow> bool" where
  "pinned_in name l t k v s \<longleftrightarrow> (\<exists>r. bt_get s name = Some r \<and> pr_type r = t \<and> pinned l r k v)"

definition releases_label :: "string \<Rightarrow> string \<Rightarrow> ssm_request \<Rightarrow> bool" where
  "releases_label name l rq =
     (case rq of
        SQ_Delete n \<Rightarrow> n = name
      | SQ_Delete_Batch ns \<Rightarrow> name \<in> set ns
      | SQ_Label n _ ls \<Rightarrow> n = name \<and> l \<in> set ls
      | SQ_Unlabel n _ ls \<Rightarrow> n = name \<and> l \<in> set ls
      | _ \<Rightarrow> False)"

lemma pinned_in_insert:
  "pinned_in name l t k v (bt_insert name' r s) \<longleftrightarrow>
     (if name' = name then pr_type r = t \<and> pinned l r k v else pinned_in name l t k v s)"
  by (auto simp: pinned_in_def bt_get_insert)

lemma pinned_make_room:
  assumes "pinned l r k v" "make_room (pr_versions r) = Inr m" "bt_wf (pr_versions r)"
  shows "pinned l (r\<lparr>pr_versions := m\<rparr>) k v"
proof (cases "length (pr_versions r) \<ge> ssm_max_versions")
  case True
  then obtain k' w where f: "find (\<lambda>(_, v). pv_labels v = []) (pr_versions r) = Some (k', w)" and m: "m = bt_remove k' (pr_versions r)"
    using assms(2) by (auto simp: make_room_def split: option.splits)
  have "(k', w) \<in> set (pr_versions r)" "pv_labels w = []" using f by (metis find_Some_iff nth_mem, auto simp: find_Some_iff)
  then have "bt_get (pr_versions r) k' = Some w" using assms(3) bt_mem_get by fast
  then have "k' \<noteq> k" using assms(1) \<open>pv_labels w = []\<close> by (auto simp: pinned_def)
  then show ?thesis using assms(1) m by (simp add: pinned_def bt_get_filter_out)
next
  case False
  then have "m = pr_versions r" using assms(2) by (simp add: make_room_def)
  then show ?thesis using assms(1) by (simp add: pinned_def)
qed

text \<open>Operations that replace the record of a name.\<close>

lemma pinned_in_update:
  assumes "pinned_in name l t k v s" "bt_get s name' = Some r"
    and "name' = name \<Longrightarrow> pinned l r k v \<Longrightarrow> pr_type r = t \<Longrightarrow> pr_type r' = t \<and> pinned l r' k v"
  shows "pinned_in name l t k v (bt_insert name' r' s)"
  using assms unfolding pinned_in_insert by (auto simp: pinned_in_def)

lemma pinned_put:
  assumes p: "pinned_in name l t k v s" and wf: "ssm_wf s"
  shows "pinned_in name l t k v (snd (put_parameter name' a now account_id s))"
proof (cases "bt_get s name'")
  case None
  then show ?thesis using p by (auto simp: put_parameter_def Let_def pinned_in_insert) (auto simp: pinned_in_def)
next
  case (Some r)
  have vs: "versions_ok (pr_current r) (pr_versions r)" using ssm_wf_get [OF wf Some] by (simp add: parameter_ok_def)
  show ?thesis
  proof (cases "make_room (pr_versions r)")
    case (Inr m)
    have "pinned l (r\<lparr>pr_current := c, pr_key_id := kid, pr_versions := bt_insert (Suc (pr_current r)) w m\<rparr>) k v"
      if r: "pinned l r k v" for c kid w
    proof -
      obtain u where u: "bt_get (pr_versions r) k = Some u" using r by (auto simp: pinned_def)
      have "k \<le> pr_current r" using versions_okD(2) [OF vs u] by (simp add: version_ok_def)
      then show ?thesis using pinned_make_room [OF r Inr versions_okD(1) [OF vs]]
        by (simp add: pinned_def bt_get_insert)
    qed
    then show ?thesis using Some Inr p
      by (auto simp: put_parameter_def Let_def intro!: pinned_in_update [OF p Some])
  qed (use p Some in \<open>simp add: put_parameter_def Let_def\<close>)
qed

lemma pinned_delete_batch:
  "pinned_in name l t k v s \<Longrightarrow> name \<notin> set names \<Longrightarrow> pinned_in name l t k v (snd (delete_parameters names s))"
  by (induction names s rule: delete_parameters.induct) (auto simp: pinned_in_def bt_get_filter_out split: prod.split)

lemma pinned_label:
  assumes p: "pinned_in name l t k v s" and wf: "ssm_wf s" and l: "name' = name \<longrightarrow> l \<notin> set labels"
  shows "pinned_in name l t k v (snd (label_parameter_version name' version labels s))"
proof (cases "bt_get s name'")
  case (Some r)
  let ?target = "unwrap_or (pr_current r) version" and ?valid = "filter is_valid_label labels"
  have vs: "versions_ok (pr_current r) (pr_versions r)" using ssm_wf_get [OF wf Some] by (simp add: parameter_ok_def)
  show ?thesis
  proof (cases "bt_get (pr_versions r) ?target")
    case u: (Some u)
    let ?others = "map (\<lambda>(k, v). (k, if pv_version v \<noteq> ?target then remove_labels ?valid v else v)) (pr_versions r)"
    have "pv_version u = ?target" using versions_okD(2) [OF vs u] by (simp add: version_ok_def)
    then have o: "bt_get ?others ?target = Some u" using u by (simp add: bt_get_map_values)
    have "pinned l (r\<lparr>pr_versions := bt_insert ?target (insert_labels ?valid u) ?others\<rparr>) k v"
      if "name' = name" and r: "pinned l r k v"
    proof -
      obtain w where w: "bt_get (pr_versions r) k = Some w" "bt_get (pv_labels w) l \<noteq> None"
        "w\<lparr>pv_labels := []\<rparr> = v\<lparr>pv_labels := []\<rparr>" using r by (auto simp: pinned_def)
      have "l \<notin> set ?valid" using l \<open>name' = name\<close> by simp
      then show ?thesis using w u
        by (auto simp: pinned_def bt_get_insert bt_get_map_values insert_labels_def remove_labels_def
            bt_get_fold_insert_unit bt_get_fold_remove_keys)
    qed
    then have "pinned_in name l t k v (bt_insert name' (r\<lparr>pr_versions := bt_insert ?target (insert_labels ?valid u) ?others\<rparr>) s)"
      by (intro pinned_in_update [OF p Some]) simp_all
    then show ?thesis using Some u o p by (simp add: label_parameter_version_def Let_def)
  qed (use p Some in \<open>simp add: label_parameter_version_def Let_def\<close>)
qed (use p in \<open>simp add: label_parameter_version_def\<close>)

lemma pinned_unlabel:
  assumes p: "pinned_in name l t k v s" and l: "name' = name \<longrightarrow> l \<notin> set labels"
  shows "pinned_in name l t k v (snd (unlabel_parameter_version name' version labels s))"
proof (cases "bt_get s name'")
  case (Some r)
  show ?thesis
  proof (cases "bt_get (pr_versions r) version")
    case u: (Some u)
    let ?r = "r\<lparr>pr_versions := bt_insert version (u\<lparr>pv_labels := fold bt_remove labels (pv_labels u)\<rparr>) (pr_versions r)\<rparr>"
    have "pinned l ?r k v" if "name' = name" "pinned l r k v"
      using u that l by (auto simp: pinned_def bt_get_insert bt_get_fold_remove_keys)
    then have "pinned_in name l t k v (bt_insert name' ?r s)" by (intro pinned_in_update [OF p Some]) simp_all
    then show ?thesis using Some u by (simp add: unlabel_parameter_version_def split_beta unlabel_loop_labels)
  qed (use p Some in \<open>simp add: unlabel_parameter_version_def\<close>)
qed (use p in \<open>simp add: unlabel_parameter_version_def\<close>)

lemma pinned_tags:
  assumes p: "pinned_in name l t k v s"
  shows "pinned_in name l t k v (snd (add_parameter_tags name' tags s))"
    "pinned_in name l t k v (snd (remove_parameter_tags name' keys s))"
  using p by (auto simp: add_parameter_tags_def remove_parameter_tags_def Let_def pinned_in_insert split: option.split)
    (auto simp: pinned_in_def pinned_def)

lemma pinned_step:
  assumes p: "pinned_in name l t k v s" and wf: "ssm_wf s" and r: "\<not> releases_label name l (snd x)"
  shows "pinned_in name l t k v (ssm_step s x)"
proof -
  obtain env rq where x: "x = (env, rq)" by (cases x)
  show ?thesis
  proof (cases rq)
    case (SQ_Put inp)
    then show ?thesis using x p pinned_put [OF p wf] by (simp add: handle_put_parameter_def split: sum.split)
  next
    case (SQ_Delete n)
    then show ?thesis using x p r
      by (auto simp: handle_delete_parameter_def delete_parameter_def releases_label_def pinned_in_def bt_get_filter_out)
  next
    case (SQ_Delete_Batch ns)
    then show ?thesis using x p r pinned_delete_batch [OF p, of ns]
      by (simp add: handle_delete_parameters_def releases_label_def split_beta)
  next
    case (SQ_Add_Tags rt n ts)
    then show ?thesis using x p pinned_tags(1) [OF p] by (simp add: handle_add_tags_def split: sum.split)
  next
    case (SQ_Remove_Tags rt n ks)
    then show ?thesis using x p pinned_tags(2) [OF p] by (simp add: handle_remove_tags_def split: sum.split)
  next
    case (SQ_Label n vn ls)
    then show ?thesis using x r pinned_label [OF p wf, of n ls] by (simp add: handle_label_parameter_version_def releases_label_def)
  next
    case (SQ_Unlabel n vn ls)
    then show ?thesis using x r pinned_unlabel [OF p, of n ls] by (simp add: handle_unlabel_parameter_version_def releases_label_def)
  qed
qed

lemma pinned_run:
  "pinned_in name l t k v s \<Longrightarrow> ssm_wf s \<Longrightarrow> \<forall>x\<in>set xs. \<not> releases_label name l (snd x) \<Longrightarrow>
     pinned_in name l t k v (run_ops ssm_step s xs)"
  by (induction xs arbitrary: s) (simp_all add: pinned_step ssm_wf_step)

lemma read_label:
  assumes "ssm_wf s" "is_valid_label l"
  shows "handle_get_parameter env (name @ CHR '':'' # l) s = Inr p \<longleftrightarrow>
     (\<exists>t k v. pinned_in name l t k v s \<and>
        p = \<lparr>an_name = name, an_type = type_text t, an_value = pv_value v, an_version = pv_version v,
             an_modified = pv_modified v, an_arn = parameter_arn name (pe_region env) (pe_account env),
             an_data_type = pv_data_type v\<rparr>)"
    (is "?L \<longleftrightarrow> ?R")
proof (cases "bt_get s name")
  case None
  then show ?thesis using parse_label [OF assms(2)]
    by (simp add: handle_get_parameter_def get_parameter_def pinned_in_def)
next
  case (Some r)
  have ok: "parameter_ok name r" using assms(1) Some by (rule ssm_wf_get)
  then have vs: "versions_ok (pr_current r) (pr_versions r)" and n: "pr_name r = name" by (simp_all add: parameter_ok_def)
  let ?f = "find (\<lambda>v. bt_get (pv_labels v) l \<noteq> None) (bt_values (pr_versions r))"
  have L: "?L \<longleftrightarrow> (\<exists>v. ?f = Some v \<and> p = build_parameter r v (pe_region env) (pe_account env))"
    using parse_label [OF assms(2), of name] Some
    by (cases ?f) (auto simp: handle_get_parameter_def get_parameter_def resolve_parameter_version_def)
  have f: "?f = Some v \<longleftrightarrow> (\<exists>k. bt_get (pr_versions r) k = Some v \<and> bt_get (pv_labels v) l \<noteq> None)" for v
  proof
    assume "?f = Some v"
    then have v: "v \<in> set (bt_values (pr_versions r))" "bt_get (pv_labels v) l \<noteq> None" by (auto simp: find_Some_iff)
    then obtain k where "(k, v) \<in> set (pr_versions r)" by (auto simp: bt_values_def)
    then have "bt_get (pr_versions r) k = Some v" by (rule bt_mem_get [OF versions_okD(1) [OF vs]])
    then show "\<exists>k. bt_get (pr_versions r) k = Some v \<and> bt_get (pv_labels v) l \<noteq> None" using v(2) by blast
  qed (use find_labelled [OF vs] in blast)
  show ?thesis
  proof
    assume ?L
    then obtain k v where "bt_get (pr_versions r) k = Some v" "bt_get (pv_labels v) l \<noteq> None"
      "p = build_parameter r v (pe_region env) (pe_account env)" using L f by blast
    then show ?R using Some n unfolding pinned_in_def pinned_def build_parameter_def by blast
  next
    assume ?R
    then obtain k v w where w: "bt_get (pr_versions r) k = Some w" "bt_get (pv_labels w) l \<noteq> None"
      "w\<lparr>pv_labels := []\<rparr> = v\<lparr>pv_labels := []\<rparr>"
      "p = \<lparr>an_name = name, an_type = type_text (pr_type r), an_value = pv_value v, an_version = pv_version v,
             an_modified = pv_modified v, an_arn = parameter_arn name (pe_region env) (pe_account env),
             an_data_type = pv_data_type v\<rparr>" using Some by (auto simp: pinned_in_def pinned_def)
    have "pv_value w = pv_value v \<and> pv_version w = pv_version v \<and> pv_modified w = pv_modified v \<and> pv_data_type w = pv_data_type v"
      using w(3) by (cases w, cases v) simp
    then have "p = build_parameter r w (pe_region env) (pe_account env)" using w(4) n by (simp add: build_parameter_def)
    then show ?L using L f w(1,2) by blast
  qed
qed

text \<open>
  C40. A label pins what it reads: if the name with a label is readable in a reachable state, then after any
  further requests (new versions beyond the limit of 100, other labels, tags, other parameters) that
  neither delete the parameter nor name the label, it reads exactly the same.
\<close>

theorem label_pins_version:
  assumes "s = run_ops ssm_step [] hist" "is_valid_label l"
    and "handle_get_parameter env (name @ CHR '':'' # l) s = Inr p"
    and "\<forall>x\<in>set rqs. \<not> releases_label name l (snd x)"
  shows "handle_get_parameter env (name @ CHR '':'' # l) (run_ops ssm_step s rqs) = Inr p"
proof -
  have "ok_run ssm_step (\<lambda>s x. True) [] hist" by (rule ok_run_mono) simp
  then have wf: "ssm_wf s" using parameters.inv_reachable assms(1) by blast
  have "ok_run ssm_step (\<lambda>s x. True) s rqs" by (rule ok_run_mono) simp
  then have wf': "ssm_wf (run_ops ssm_step s rqs)" using parameters.inv_run wf by blast
  obtain t k v where v: "pinned_in name l t k v s"
    "p = \<lparr>an_name = name, an_type = type_text t, an_value = pv_value v, an_version = pv_version v,
          an_modified = pv_modified v, an_arn = parameter_arn name (pe_region env) (pe_account env),
          an_data_type = pv_data_type v\<rparr>" using assms(3) read_label [OF wf assms(2)] by blast
  have "pinned_in name l t k v (run_ops ssm_step s rqs)" using v(1) wf assms(4) by (rule pinned_run)
  then show ?thesis using read_label [OF wf' assms(2)] v(2) by blast
qed

theorem label_pins_version_witness:
  "\<exists>p. handle_get_parameter ssm_sample_env (''/a/x'' @ CHR '':'' # ''prod'')
         (run_ops ssm_step (run_ops ssm_step [] sample_history) [sample_put ''/a/x'' ''three'']) = Inr p \<and> an_value p = ''one''"
proof -
  have "case handle_get_parameter ssm_sample_env (''/a/x'' @ CHR '':'' # ''prod'') (run_ops ssm_step [] sample_history) of
      Inr p \<Rightarrow> an_value p = ''one'' | Inl e \<Rightarrow> False" by code_simp
  then obtain p where p: "handle_get_parameter ssm_sample_env (''/a/x'' @ CHR '':'' # ''prod'') (run_ops ssm_step [] sample_history) = Inr p"
    "an_value p = ''one''" by (auto split: sum.splits)
  have "is_valid_label ''prod''" by code_simp
  moreover have "\<forall>x\<in>set [sample_put ''/a/x'' ''three'']. \<not> releases_label ''/a/x'' ''prod'' (snd x)"
    by (simp add: sample_put_def releases_label_def)
  ultimately show ?thesis using label_pins_version [OF refl _ p(1)] p(2) by blast
qed

section \<open>The parameters under a path\<close>

lemma from_utf8_digits: "from_utf8 (show_nat n) = Some (show_nat n)"
proof -
  have "utf8_valid (map byte_of (show_nat n))" using set_show_nat digit_bytes by (intro utf8_valid_ascii) fastforce
  then show ?thesis by (simp add: from_utf8_def)
qed

lemma ssm_page_token:
  assumes "\<And>x. snd b64 (fst b64 x) = Some x" "i < 2 ^ 64"
  shows "ssm_page b64 xs n (Some (ssm_encode_offset b64 i)) = Inr (apsnd (map_option (ssm_encode_offset b64)) (page_at xs i n))"
  using assms by (simp add: ssm_page_def ssm_decode_offset_def ssm_encode_offset_def from_utf8_digits parse_uint_show)

lemma ssm_page_first: "ssm_page b64 xs n None = Inr (apsnd (map_option (ssm_encode_offset b64)) (page_at xs 0 n))"
  by (simp add: ssm_page_def ssm_decode_offset_def)

text \<open>A client that follows the tokens of GetParametersByPath gets the current value of every parameter
  under the path once, in the order of the names.\<close>

theorem path_listing_complete:
  assumes wf: "ssm_wf s" and b64: "\<And>x. snd (pe_base64 env) (fst (pe_base64 env) x) = Some x"
    and filters: "validate_filters fs = Inr ()" and m: "1 \<le> m" and small: "length s < 2 ^ 64"
  shows "follow_tokens (Suc (length s))
           (\<lambda>t. handle_get_parameters_by_path env
              \<lparr>bi_path = path, bi_recursive = Some deep, bi_filters = fs, bi_max_results = Some m, bi_next_token = t\<rparr> s) None =
         Some (Inr (map (\<lambda>(_, r). build_parameter r (the (current_version_of r)) (pe_region env) (pe_account env))
           (filter (\<lambda>(name, r). under_path deep path name \<and> matches_parameter_filters r fs) s)))"
proof -
  let ?sel = "filter (\<lambda>(name, r). under_path deep path name \<and> matches_parameter_filters r fs) s"
  let ?g = "\<lambda>(_, r). build_parameter r (the (current_version_of r)) (pe_region env) (pe_account env)"
  let ?n = "clamp_max (Some m) 0 10" and ?enc = "ssm_encode_offset (pe_base64 env)"
  let ?cur = "current_parameter (pe_region env) (pe_account env) s"
  have names: "names_under_path path deep fs s = map fst ?sel"
    using wf unfolding names_under_path_def by (intro bt_keys_sorted) (simp add: ssm_wf_def)
  have "?cur (fst x) = Some (?g x)" if "x \<in> set ?sel" for x
  proof -
    obtain name r where x: "x = (name, r)" by (cases x)
    have g: "bt_get s name = Some r" using that wf x by (intro bt_mem_get) (auto simp: ssm_wf_def)
    then have "parameter_ok name r" using wf by (intro ssm_wf_get)
    then obtain v where "current_version_of r = Some v" by (auto simp: parameter_ok_def current_version_of_def)
    then show ?thesis using g x by (simp add: current_parameter_def)
  qed
  then have page: "List.map_filter ?cur (map fst xs) = map ?g xs" if "set xs \<subseteq> set ?sel" for xs
    using that by (induction xs) (auto simp: List.map_filter_simps)
  have at: "apfst (List.map_filter ?cur) (apsnd (map_option ?enc) (page_at (map fst ?sel) i ?n)) =
      apsnd (map_option ?enc) (page_at (map ?g ?sel) i ?n)" for i
    using page [OF page_at_subset [of ?sel i ?n]] by (simp add: page_at_map prod_eq_iff)
  have len: "length (map ?g ?sel) \<le> length s" by simp
  show ?thesis
  proof (rule follow_pages [where enc = ?enc and n = ?n])
    show "0 < ?n" using m by (simp add: clamp_max_def)
    show "handle_get_parameters_by_path env \<lparr>bi_path = path, bi_recursive = Some deep, bi_filters = fs,
        bi_max_results = Some m, bi_next_token = Some (?enc i)\<rparr> s = Inr (apsnd (map_option ?enc) (page_at (map ?g ?sel) i ?n))"
      if "i < length (map ?g ?sel)" for i
    proof -
      have "i < 2 ^ 64" using that len small by linarith
      then show ?thesis using filters
        by (simp add: handle_get_parameters_by_path_def get_parameters_by_path_def names ssm_page_token [OF b64] at del: apfst_apsnd)
    qed
    show "handle_get_parameters_by_path env \<lparr>bi_path = path, bi_recursive = Some deep, bi_filters = fs,
        bi_max_results = Some m, bi_next_token = None\<rparr> s = Inr (apsnd (map_option ?enc) (page_at (map ?g ?sel) 0 ?n))"
      using filters
      by (simp add: handle_get_parameters_by_path_def get_parameters_by_path_def names ssm_page_first at del: apfst_apsnd)
  qed (rule len)
qed

section \<open>Findings\<close>

text \<open>MaxResults of GetParametersByPath is only bounded below by 0: a page of size 0 is empty and carries the
  token of its own offset.\<close>

lemma zero_pages_forever:
  assumes "validate_filters fs = Inr ()" "names_under_path path deep fs s \<noteq> []"
  shows "handle_get_parameters_by_path env
           \<lparr>bi_path = path, bi_recursive = Some deep, bi_filters = fs, bi_max_results = Some 0, bi_next_token = None\<rparr> s =
         Inr ([], Some (ssm_encode_offset (pe_base64 env) 0))"
  using assms
  by (simp add: handle_get_parameters_by_path_def get_parameters_by_path_def ssm_page_first clamp_max_def page_at_zero
      List.map_filter_simps)

text \<open>A label that is named twice counts twice against the limit of ten.\<close>

lemma repeated_label_refused:
  "fst (handle_label_parameter_version ''/a/x'' None (replicate 11 ''v'') (run_ops ssm_step [] sample_history)) =
     Inl SM_ParameterVersionLabelLimitExceeded"
  by code_simp

end
