(* ===== verification/Spec2Isabelle.thy ===== *)
theory Spec2Isabelle
  imports S3_Properties SQS_Properties Dynamo_Properties Dynamo_Table_Properties Dynamo_Service_Properties
    Kinesis_Properties Events_Properties Secrets_Properties SSM_Properties
begin

text \<open>
  A verification development for Rustack, a local emulator of AWS services: one crate per service
  core (\<^verbatim>\<open>crates/rustack-<service>-core\<close>) behind HTTP front ends and one gateway. Each service owns
  its state in memory; the theories below model the cores of S3, SQS, DynamoDB, Kinesis, EventBridge,
  Secrets Manager and the SSM Parameter Store, one group of theories per service and one theory per component, in the order in which the code calls them.

  \<^bold>\<open>Shared.\<close> \<open>Rustack_Prelude\<close> has results (\<open>error + value\<close>), Rust's string and integer functions
  (\<^verbatim>\<open>split_once\<close>, \<^verbatim>\<open>strip_prefix\<close>, \<^verbatim>\<open>parse\<close>, \<^verbatim>\<open>format!\<close>), \<^verbatim>\<open>BTreeMap\<close> and \<^verbatim>\<open>HashMap\<close> as key-sorted
  association lists (type \<open>btree\<close>, invariant \<open>bt_wf\<close>), and the locale \<open>invariant_machine\<close> of a step
  function with an invariant that its runs keep. A Rust string is the list of its bytes; a machine
  integer is a number with its wrap-around or saturation written out, or a word; what a
  computation reads from clocks, random identifiers and hash-map iteration order is an argument.
  \<open>None\<close> as the result of an operation is a panic. \<open>Json_Value\<close> is \<^verbatim>\<open>serde_json::Value\<close>.

  \<^bold>\<open>S3\<close> (\<^verbatim>\<open>crates/rustack-s3-core/src\<close>).
  \<^item> \<open>S3_Types\<close>: objects, delete markers, uploads, canned ACLs, errors (\<^verbatim>\<open>state/object.rs\<close>,
    \<^verbatim>\<open>state/multipart.rs\<close>, \<^verbatim>\<open>error.rs\<close>).
  \<^item> \<open>S3_Keystore\<close>: the un-versioned and versioned stores of a bucket and their listings
    (\<^verbatim>\<open>state/keystore.rs\<close>); \<open>S3_Store\<close> their well-formedness and the snapshot round trip,
    \<open>S3_Listing\<close> the pages of a listing.
  \<^item> \<open>S3_Storage\<close>: object bodies and parts (\<^verbatim>\<open>storage.rs\<close>). \<open>S3_Utils\<close>, \<open>S3_Checksums\<close>,
    \<open>S3_Validation\<close>, \<open>S3_Cors\<close>: the request helpers of the files of the same names.
  \<^item> \<open>S3_Service\<close>: the bucket registry and the bucket handlers (\<^verbatim>\<open>state/service.rs\<close>,
    \<^verbatim>\<open>state/bucket.rs\<close>, \<^verbatim>\<open>ops/bucket.rs\<close>).
  \<^item> \<open>S3_Object_Ops\<close>, \<open>S3_Object_Config\<close>, \<open>S3_Multipart\<close>, \<open>S3_List_Ops\<close>: the handlers of
    \<^verbatim>\<open>ops/object.rs\<close>, \<^verbatim>\<open>ops/object_config.rs\<close>, \<^verbatim>\<open>ops/multipart.rs\<close>, \<^verbatim>\<open>ops/list.rs\<close>.
  \<^item> \<open>S3_Object_Safety\<close>: what a put or delete does to a later get; \<open>S3_Requests\<close>: object lock under
    any sequence of requests, and the bytes of a locked version under them;
    \<open>S3_Invariant\<close>: the invariant of the service state. \<open>S3_Properties\<close>
    states the properties with their witnesses.

  \<^bold>\<open>SQS\<close> (\<^verbatim>\<open>crates/rustack-sqs-core/src\<close>, types of \<^verbatim>\<open>crates/rustack-sqs-model/src\<close>). A queue is one
  task that owns its state and handles one event at a time.
  \<^item> \<open>SQS_Types\<close>: messages, digests, attributes, and the record \<open>sqs_env\<close> of what an event reads
    from its surroundings. \<open>SQS_Storage\<close>: the standard and the FIFO storage (\<^verbatim>\<open>queue/storage.rs\<close>).
    \<open>SQS_Attributes\<close>: parsing, changing and exporting queue attributes (\<^verbatim>\<open>queue/attributes.rs\<close>).
  \<^item> \<open>SQS_Actor\<close>: the handlers, long polls, dead-letter transfers and the event loop
    (\<^verbatim>\<open>queue/actor.rs\<close>); a run is a list of turns, each an event with what it
    reads and the answers of dead-letter queues that arrive before the pending transfers are settled and
    while the queue waits.
  \<^item> \<open>SQS_Conservation\<close>: the messages that a queue holds before and after each event;
    \<open>SQS_Fifo_Order\<close>: the abstract specification of a FIFO queue, one line of messages per group,
    and the simulation of it by the events; \<open>SQS_Runs\<close>: both over runs, and the deduplication cache;
    \<open>SQS_Panics\<close>: no event panics unless a timeout is negative. \<open>SQS_Properties\<close> states the
    properties with their witnesses.

  \<^bold>\<open>DynamoDB\<close> (\<^verbatim>\<open>crates/rustack-dynamodb-core/src\<close>): the numbers, the expression language,
  the storage of a table, and the service.
  \<^item> \<open>Dynamo_Types\<close>: attribute values and the abstract syntax (\<^verbatim>\<open>expression/ast.rs\<close>). \<open>Rust_Text\<close>
    and \<open>Rust_F64\<close>: more of Rust's strings, and binary64 with its rounding.
  \<^item> \<open>Dynamo_Number\<close>: validation, ordering and arithmetic of decimal strings (\<^verbatim>\<open>provider.rs\<close>,
    \<^verbatim>\<open>storage.rs\<close>, \<^verbatim>\<open>expression/evaluator.rs\<close>); \<open>Dynamo_Decimal\<close>: the
    rational number that a string denotes, and that ordering and arithmetic are exact for it.
  \<^item> \<open>Dynamo_Lexer\<close>, \<open>Dynamo_Parser\<close>: \<^verbatim>\<open>expression/parser.rs\<close>; \<open>Dynamo_Grammar\<close>: the grammar, that the
    parser returns, and that it accepts exactly the grammar's sentences, and the
    grammar of the design document and how far it agrees; \<open>Dynamo_Print\<close>: printing.
  \<^item> \<open>Dynamo_Eval\<close>, \<open>Dynamo_Update\<close>: conditions, updates and projections
    (\<^verbatim>\<open>expression/evaluator.rs\<close>); \<open>Dynamo_Expressions\<close>: what they do. \<open>Dynamo_Properties\<close> states the
    properties with their witnesses.
  \<^item> \<open>Dynamo_Storage\<close>: items by partition and sort key, queries and scans (\<^verbatim>\<open>storage.rs\<close>).
    \<open>Dynamo_Table\<close>: the storage invariant and the refinement of a finite map, by the locale
    \<open>item_store\<close>; \<open>Dynamo_Pages\<close>: the pages of queries and scans. \<open>Dynamo_Table_Properties\<close> states the
    properties of tables.
  \<^item> \<open>Dynamo_Request\<close>: the checks of requests, the legacy parameters, the paths and return
    values of updates; \<open>Dynamo_Service\<close>: the tables and their handlers, and the gate that runs one operation at
    a time and closes when one panics (\<^verbatim>\<open>state.rs\<close>, \<^verbatim>\<open>coordination.rs\<close>); \<open>Dynamo_Handlers\<close>: PutItem, GetItem,
    DeleteItem, UpdateItem, batches, transactions and their tokens (\<^verbatim>\<open>provider.rs\<close>).
  \<^item> \<open>Streams_Store\<close> (\<^verbatim>\<open>crates/rustack-dynamodbstreams-core/src\<close>): the change streams that the service feeds
    through \<^verbatim>\<open>stream.rs\<close>, their reading, and a reader that follows the iterators.
  \<^item> \<open>Dynamo_Commits\<close>: the effect of a list of prepared changes on tables and streams, the invariant that the
    stream of a table replays it, and that every write that succeeds commits such a list and keeps it;
    \<open>Dynamo_Runs\<close>: runs of requests, and what the actions of a transaction ask for, stated without the code's
    preparation: a transaction does it at once. \<open>Dynamo_Service_Properties\<close> states the properties.

  \<^bold>\<open>Kinesis\<close> (\<^verbatim>\<open>crates/rustack-kinesis-core/src\<close>). A stream has one actor per shard.
  \<^item> \<open>Kinesis_Shard\<close>: hash ranges, sequence numbers, iterator tokens, the record log and the actor
    (\<^verbatim>\<open>shard/*.rs\<close>). \<open>Kinesis_Stream\<close>: streams, records, splits and merges; \<open>Kinesis_Config\<close>: listings,
    tags, retention, encryption, consumers, policies (\<^verbatim>\<open>provider.rs\<close>), and the step of a request. Requests
    are handled one after the other: a put that a split overtakes (and that is refused) is not modelled.
  \<^item> \<open>Kinesis_Routing\<close>: what the ranges of the open shards cover; \<open>Kinesis_Invariant\<close>: every request keeps
    the invariant of every stream; \<open>Kinesis_Log\<close>: the history of a shard, consumers and checkpoints.
    \<open>Kinesis_Properties\<close> states the properties.

  \<^bold>\<open>EventBridge\<close> (\<^verbatim>\<open>crates/rustack-events-core/src\<close>).
  \<^item> \<open>Events_Pattern\<close>, \<open>Events_Match\<close>: event patterns, their parser and the matching engine
    (\<^verbatim>\<open>pattern/*.rs\<close>). \<open>Events_Wildcard\<close>: the wildcard matcher is the relation \<open>glob\<close>;
    \<open>Events_Semantics\<close>: the meaning of a pattern document (\<open>doc_holds\<close>) and how the engine agrees with it.
  \<^item> \<open>Events_Delivery\<close>: the delivery queue and its worker (\<^verbatim>\<open>delivery.rs\<close>) as a machine whose steps are the
    atomic operations of the threads; what is sent, attempted and counted under every interleaving, and
    that \<^verbatim>\<open>quiesce\<close> drains (\<open>drain_budget\<close> bounds the steps of the worker).
  \<^item> \<open>Events_Provider\<close>, \<open>Events_Route\<close>: buses, rules, targets, PutEvents, tags and permissions
    (\<^verbatim>\<open>provider.rs\<close>); \<open>Events_Invariant\<close>: the state that requests and delivery steps reach.
    \<open>Events_Properties\<close> states the properties.

  \<^bold>\<open>Secrets Manager\<close> (\<^verbatim>\<open>crates/rustack-secretsmanager-core/src\<close>).
  \<^item> \<open>Secrets_Storage\<close>: secrets, versions and staging labels, validation, filters (\<^verbatim>\<open>storage.rs\<close>,
    \<^verbatim>\<open>version.rs\<close>, \<^verbatim>\<open>validation.rs\<close>, \<^verbatim>\<open>filter.rs\<close>). \<open>Secrets_Provider\<close>: the handlers (\<^verbatim>\<open>provider.rs\<close>);
    \<open>Secrets_Invariant\<close>: every request keeps the labels and their cached copies in step.
  \<^item> \<open>Secrets_Password\<close>: random passwords over an arbitrary source (\<^verbatim>\<open>password.rs\<close>).
    \<open>Secrets_Properties\<close> states the properties. Iteration orders of the hash maps and the clock are
    arguments.

  \<^bold>\<open>SSM Parameter Store\<close> (\<^verbatim>\<open>crates/rustack-ssm-core/src\<close>).
  \<^item> \<open>Offset_Pages\<close>: the pages of the listings that count an offset, and the client that follows their
    tokens; Secrets Manager uses them too.
  \<^item> \<open>SSM_Storage\<close>: selectors, validation, filters and the store (\<^verbatim>\<open>selector.rs\<close>, \<^verbatim>\<open>validation.rs\<close>,
    \<^verbatim>\<open>filter.rs\<close>, \<^verbatim>\<open>storage.rs\<close>); \<open>SSM_Provider\<close>: the handlers; \<open>SSM_Invariant\<close>: every request keeps
    the invariant of the store. \<open>SSM_Properties\<close> states the properties, and that the pages of a path are
    complete.

  \<^bold>\<open>Bounds.\<close> The expression parsers take fuel, one unit a call: \<open>5 * n + 5\<close> for \<open>n\<close> tokens, which
  is enough for every input (\<open>returns_condition\<close>, \<open>parse_update_returns\<close>). The clients
  that follow the pages of a query or scan (\<open>query_all\<close>, \<open>scan_all\<close>) take one unit a page, and one more
  than the number of items is enough. No other definition uses fuel: every loop recurses on a list, a shrinking text or a bounded counter. The
  properties of FIFO order assume that the 64-bit sequence counter has not wrapped; those of runs
  assume that fresh receipt handles differ from the handles in use. The hypotheses on third-party
  code are named where they are used: the \<^verbatim>\<open>serde\<close> conversion of a redrive policy is inverted by its
  parser; the digests and encoders are arbitrary functions. Two counters are not bounded as in the code: the
  exponents of \<open>normalize_number\<close>, which are \<^verbatim>\<open>i64\<close> there (this could differ for zeros with an exponent
  near \<^verbatim>\<open>i64::MAX\<close> only, whose exponent is dropped), and the shard index \<open>ks_next_index\<close>, a \<^verbatim>\<open>u32\<close> that would
  wrap after four thousand million splits and merges of one stream.

  \<^bold>\<open>Not modelled.\<close> The HTTP and XML/JSON layers, the generated models of the services, the message
  text of errors, temporary files and I/O failures, logging; S3 bucket configuration values
  (stored and returned as they are); the handlers of Query and Scan above the paging of the storage, and the
  snapshots of the DynamoDB service. The other services' cores are listed in the manifest.
\<close>

end
